(* ===== verification/Prelude.thy ===== *)
theory Prelude
  imports Main "HOL-Library.Word" "HOL-Library.AList" "HOL-Library.Multiset"
begin

text \<open>
  What every theory of the development shares: the machine integers of
  src/src/common/Define.h as words, the result type of code that can throw, the byte
  view of integers and of \<^verbatim>\<open>std::string\<close>, decimal printing as \<^verbatim>\<open>std::ostringstream\<close>
  does it, association lists as keyed containers, and the theorem collections the
  component proofs draw on.
\<close>

unbundle bit_operations_syntax

section \<open>Machine integers\<close>

type_synonym u8 = "8 word"
type_synonym u16 = "16 word"
type_synonym u32 = "32 word"
type_synonym u64 = "64 word"

named_theorems bb_simps \<open>how the buffer operations compute on well-formed buffers\<close>
named_theorems store_simps \<open>keyed containers\<close>

section \<open>Single bits\<close>

lemma and_push_bit_1: "(w :: 'a::len word) AND 2 ^ k = 0 \<longleftrightarrow> \<not> bit w k"
proof -
  have "w AND 2 ^ k = (if bit w k then 2 ^ k else 0)"
    by (rule bit_word_eqI) (auto simp: bit_simps)
  moreover have "bit w k \<Longrightarrow> 2 ^ k \<noteq> (0 :: 'a word)"
    using bit_imp_le_length [of w k] by simp
  ultimately show ?thesis by auto
qed

lemma bit_exp_word: "bit (2 ^ k :: 'a::len word) n \<longleftrightarrow> n = k \<and> n < LENGTH('a)"
  by (auto simp: bit_simps)

lemma bit_push_1: "bit (push_bit k 1 :: 'a::len word) n \<longleftrightarrow> n = k \<and> n < LENGTH('a)"
  by (simp add: bit_exp_word)

section \<open>Results of code that can throw\<close>

definition bindE :: "'e + 'a \<Rightarrow> ('a \<Rightarrow> 'e + 'b) \<Rightarrow> 'e + 'b" where
  "bindE m f = (case m of Inl e \<Rightarrow> Inl e | Inr x \<Rightarrow> f x)"

lemma bindE_simps [simp]: "bindE (Inl e) f = Inl e" "bindE (Inr x) f = f x"
  by (simp_all add: bindE_def)

lemma bindE_InrE:
  assumes "bindE m f = Inr y"
  obtains x where "m = Inr x" and "f x = Inr y"
  using assms by (cases m) auto

lemma bindE_assoc: "bindE (bindE m f) g = bindE m (\<lambda>x. bindE (f x) g)"
  by (cases m) auto

section \<open>size_t\<close>

text \<open>Addition on \<^verbatim>\<open>size_t\<close> (64 bits): it wraps.\<close>

definition szadd :: "nat \<Rightarrow> nat \<Rightarrow> nat" where
  "szadd a b = (a + b) mod 2 ^ 64"

lemma szadd_small [simp]: "a + b < 18446744073709551616 \<Longrightarrow> szadd a b = a + b"
  by (simp add: szadd_def)

section \<open>Little-endian bytes\<close>

definition le_bytes :: "nat \<Rightarrow> 'a::len word \<Rightarrow> u8 list" where
  "le_bytes n w = map (\<lambda>i. ucast (drop_bit (8 * i) w)) [0..<n]"

fun from_le :: "u8 list \<Rightarrow> 'a::len word" where
  "from_le [] = 0"
| "from_le (b # bs) = (ucast b OR push_bit 8 (from_le bs))"

lemma length_le_bytes [simp]: "length (le_bytes n w) = n"
  by (simp add: le_bytes_def)

lemma le_bytes_Suc: "le_bytes (Suc n) w = ucast w # le_bytes n (drop_bit 8 w)"
proof -
  have "le_bytes (Suc n) w = ucast w # map (\<lambda>i. ucast (drop_bit (8 * i) w)) (map Suc [0..<n])"
    by (simp add: le_bytes_def upt_rec [of 0 "Suc n"] map_Suc_upt del: upt_Suc)
  then show ?thesis by (simp add: le_bytes_def drop_bit_drop_bit ac_simps)
qed

lemma bit_from_le:
  fixes dummy :: "'a::len word"
  shows "bit (from_le bs :: 'a word) k \<longleftrightarrow>
    k < LENGTH('a) \<and> k < 8 * length bs \<and> bit (bs ! (k div 8)) (k mod 8)"
proof (induction bs arbitrary: k)
  case Nil
  then show ?case by simp
next
  case (Cons b bs)
  show ?case
  proof (cases "k < 8")
    case True
    then show ?thesis by (simp add: bit_simps)
  next
    case False
    then obtain j where k: "k = j + 8" by (metis add.commute le_add_diff_inverse not_less)
    have "\<not> bit b (j + 8)" using bit_imp_le_length [of b "j + 8"] by auto
    moreover have "(j + 8) div 8 = Suc (j div 8)" by simp
    then have "(b # bs) ! ((j + 8) div 8) = bs ! (j div 8)" by (simp only: nth_Cons_Suc)
    ultimately show ?thesis by (auto simp: k bit_simps Cons.IH simp del: nth_Cons')
  qed
qed

lemma from_le_le_bytes:
  fixes w :: "'a::len word"
  assumes "LENGTH('a) \<le> 8 * n"
  shows "from_le (le_bytes n w) = w"
proof (rule bit_word_eqI)
  fix k assume k: "k < LENGTH('a)"
  with assms have "k div 8 < n" by linarith
  with k assms show "bit (from_le (le_bytes n w) :: 'a word) k \<longleftrightarrow> bit w k"
    by (simp add: bit_from_le le_bytes_def bit_simps)
qed

section \<open>Strings\<close>

text \<open>
  \<^verbatim>\<open>std::string\<close> is a list of bytes; it is \<^typ>\<open>string\<close> here, and \<open>str_bytes\<close> are
  the bytes a \<^verbatim>\<open>c_str()\<close> points at, without the terminator.
\<close>

definition str_bytes :: "string \<Rightarrow> u8 list" where
  "str_bytes s = map of_char s"

definition byte_char :: "u8 \<Rightarrow> char" where
  "byte_char b = char_of (unat b)"

lemma length_str_bytes [simp]: "length (str_bytes s) = length s"
  by (simp add: str_bytes_def)

lemma unat_of_char [simp]: "unat (of_char c :: u8) = of_char c"
proof -
  have "(of_char c :: u8) = of_nat (of_char c)" by (rule of_nat_of_char [symmetric])
  then show ?thesis by (simp add: unat_of_nat)
qed

lemma byte_char_of_char [simp]: "byte_char (of_char c) = c"
  by (simp add: byte_char_def)

lemma of_char_eq_0 [simp]: "(of_char c :: u8) = 0 \<longleftrightarrow> c = CHR 0x00"
proof
  assume "(of_char c :: u8) = 0"
  then have "byte_char (of_char c) = byte_char 0" by (rule arg_cong)
  moreover have "byte_char 0 = CHR 0x00" by (simp add: byte_char_def char_of_def)
  ultimately show "c = CHR 0x00" by (simp only: byte_char_of_char)
qed simp

text \<open>Decimal printing, as \<^verbatim>\<open>operator<<\<close> of an output stream does it.\<close>

definition digit_char :: "nat \<Rightarrow> char" where
  "digit_char d = char_of (48 + d)"

fun dec_string :: "nat \<Rightarrow> string" where
  "dec_string n = (if n < 10 then [digit_char n] else dec_string (n div 10) @ [digit_char (n mod 10)])"

declare dec_string.simps [simp del]

section \<open>Keyed containers\<close>

text \<open>
  \<^verbatim>\<open>std::map\<close> and \<^verbatim>\<open>std::unordered_map\<close> are association lists with distinct keys:
  \<open>find\<close> is \<^const>\<open>map_of\<close>, \<open>m[k] = v\<close> is \<^const>\<open>AList.update\<close>, \<open>erase\<close> is
  \<^const>\<open>AList.delete\<close>.
\<close>

abbreviation wf_store :: "('k \<times> 'v) list \<Rightarrow> bool" where
  "wf_store m \<equiv> distinct (map fst m)"

lemma wf_store_update [store_simps, simp]: "wf_store (AList.update k v m) \<longleftrightarrow> wf_store m"
  if "wf_store m"
  using that by (simp add: distinct_update)

lemma wf_store_delete [store_simps, simp]: "wf_store m \<Longrightarrow> wf_store (AList.delete k m)"
  by (rule distinct_delete)

lemma map_of_store [store_simps]: "map_of (AList.update k v m) = (map_of m)(k \<mapsto> v)"
  by (simp add: update_conv')

lemma map_of_erase [store_simps]: "map_of (AList.delete k m) = (map_of m)(k := None)"
  by (simp add: delete_conv')

lemma keys_update [store_simps]: "fst ` set (AList.update k v m) = insert k (fst ` set m)"
  by (simp add: dom_update)

lemma keys_delete [store_simps]: "fst ` set (AList.delete k m) = fst ` set m - {k}"
  by (simp only: set_map [symmetric] delete_keys set_removeAll)

lemma map_of_Some_iff [store_simps]: "wf_store m \<Longrightarrow> map_of m k = Some v \<longleftrightarrow> (k, v) \<in> set m"
  by (simp add: map_of_eq_Some_iff)

lemma update_in_place: "k \<in> fst ` set m \<Longrightarrow> map fst (AList.update k v m) = map fst m"
  by (induction m) auto

section \<open>Maps in key order\<close>

text \<open>\<^verbatim>\<open>m[k] = v\<close> on a \<^verbatim>\<open>std::map\<close>, kept in the order it iterates.\<close>

fun smap_put :: "'k::linorder \<Rightarrow> 'v \<Rightarrow> ('k \<times> 'v) list \<Rightarrow> ('k \<times> 'v) list" where
  "smap_put k v [] = [(k, v)]"
| "smap_put k v ((k', v') # m) =
     (if k < k' then (k, v) # (k', v') # m
      else if k = k' then (k, v) # m
      else (k', v') # smap_put k v m)"

definition key_sorted :: "('k::linorder \<times> 'v) list \<Rightarrow> bool" where
  "key_sorted m = sorted_wrt (<) (map fst m)"

lemma map_of_smap_put [simp]: "map_of (smap_put k v m) = (map_of m)(k \<mapsto> v)"
  by (induction k v m rule: smap_put.induct) auto

lemma fst_smap_put: "fst ` set (smap_put k v m) = insert k (fst ` set m)"
  by (induction k v m rule: smap_put.induct) auto

lemma key_sorted_put: "key_sorted m \<Longrightarrow> key_sorted (smap_put k v m)"
proof (induction k v m rule: smap_put.induct)
  case (2 k v k' v' m)
  have "\<forall>x\<in>set (smap_put k v m). k' < fst x" if "k' < k" "\<forall>x\<in>set m. k' < fst x"
    using that fst_smap_put [of k v m] by (metis image_iff insert_iff)
  with 2 show ?case by (auto simp: key_sorted_def)
qed (simp add: key_sorted_def)

lemma key_sorted_distinct: "key_sorted m \<Longrightarrow> wf_store m"
  by (simp add: key_sorted_def strict_sorted_iff)

section \<open>Packets that are sent\<close>

text \<open>
  A packet that only leaves the server is the list of the fields that are written into it: an
  integer of 8, 32 or 64 bits, a string with its terminator, and a packed guid.
\<close>

datatype cfield = C8 u8 | C32 u32 | C64 u64 | CStr string | CPack u64

end
