(* ===== verification/Guid.thy ===== *)
theory Guid
  imports Prelude
begin

text \<open>
  Object identifiers, src/src/server/game/Entities/Object/ObjectDefines.h. A guid packs a
  low part, an entry and a high part (the object's kind) into 64 bits; for some kinds the
  entry has 24 bits of its own, for the others the low part owns all 32 low bits.
\<close>

definition HIGHGUID_ITEM :: u32 where "HIGHGUID_ITEM = 0x4000"
definition HIGHGUID_CONTAINER :: u32 where "HIGHGUID_CONTAINER = 0x4000"
definition HIGHGUID_PLAYER :: u32 where "HIGHGUID_PLAYER = 0x0000"
definition HIGHGUID_GAMEOBJECT :: u32 where "HIGHGUID_GAMEOBJECT = 0xF110"
definition HIGHGUID_TRANSPORT :: u32 where "HIGHGUID_TRANSPORT = 0xF120"
definition HIGHGUID_UNIT :: u32 where "HIGHGUID_UNIT = 0xF130"
definition HIGHGUID_PET :: u32 where "HIGHGUID_PET = 0xF140"
definition HIGHGUID_VEHICLE :: u32 where "HIGHGUID_VEHICLE = 0xF150"
definition HIGHGUID_DYNAMICOBJECT :: u32 where "HIGHGUID_DYNAMICOBJECT = 0xF100"
definition HIGHGUID_CORPSE :: u32 where "HIGHGUID_CORPSE = 0xF101"
definition HIGHGUID_MO_TRANSPORT :: u32 where "HIGHGUID_MO_TRANSPORT = 0x1FC0"
definition HIGHGUID_GROUP :: u32 where "HIGHGUID_GROUP = 0x1F50"
definition HIGHGUID_INSTANCE :: u32 where "HIGHGUID_INSTANCE = 0x1F42"

lemmas highguid_defs =
  HIGHGUID_ITEM_def HIGHGUID_CONTAINER_def HIGHGUID_PLAYER_def HIGHGUID_GAMEOBJECT_def
  HIGHGUID_TRANSPORT_def HIGHGUID_UNIT_def HIGHGUID_PET_def HIGHGUID_VEHICLE_def
  HIGHGUID_DYNAMICOBJECT_def HIGHGUID_CORPSE_def HIGHGUID_MO_TRANSPORT_def
  HIGHGUID_GROUP_def HIGHGUID_INSTANCE_def

section \<open>Pairs of integers\<close>

definition MAKE_PAIR64 :: "u32 \<Rightarrow> u32 \<Rightarrow> u64" where
  "MAKE_PAIR64 l h = ucast l OR push_bit 32 (ucast h)"

definition PAIR64_HIPART :: "u64 \<Rightarrow> u32" where
  "PAIR64_HIPART x = ucast (drop_bit 32 x AND 0x00000000FFFFFFFF)"

definition PAIR64_LOPART :: "u64 \<Rightarrow> u32" where
  "PAIR64_LOPART x = ucast (x AND 0x00000000FFFFFFFF)"

definition MAKE_PAIR16 :: "u8 \<Rightarrow> u8 \<Rightarrow> u16" where
  "MAKE_PAIR16 l h = ucast l OR push_bit 8 (ucast h)"

definition MAKE_PAIR32 :: "u16 \<Rightarrow> u16 \<Rightarrow> u32" where
  "MAKE_PAIR32 l h = ucast l OR push_bit 16 (ucast h)"

definition PAIR32_HIPART :: "u32 \<Rightarrow> u16" where
  "PAIR32_HIPART x = ucast (drop_bit 16 x AND 0x0000FFFF)"

definition PAIR32_LOPART :: "u32 \<Rightarrow> u16" where
  "PAIR32_LOPART x = ucast (x AND 0x0000FFFF)"

section \<open>Guids\<close>

definition MAKE_NEW_GUID :: "u32 \<Rightarrow> u32 \<Rightarrow> u32 \<Rightarrow> u64" where
  "MAKE_NEW_GUID l e h = ucast l OR push_bit 24 (ucast e) OR push_bit 48 (ucast h)"

definition GUID_HIPART :: "u64 \<Rightarrow> u32" where
  "GUID_HIPART guid = ucast (drop_bit 48 guid AND 0x0000FFFF)"

text \<open>The \<^verbatim>\<open>switch\<close> of \<^verbatim>\<open>IsGuidHaveEnPart\<close>: the listed kinds have no entry, all others do.\<close>

definition IsGuidHaveEnPart :: "u64 \<Rightarrow> bool" where
  "IsGuidHaveEnPart guid =
     (let h = GUID_HIPART guid in
      if h = HIGHGUID_ITEM \<or> h = HIGHGUID_PLAYER \<or> h = HIGHGUID_DYNAMICOBJECT \<or>
         h = HIGHGUID_CORPSE \<or> h = HIGHGUID_GROUP then False
      else True)"

definition GUID_ENPART :: "u64 \<Rightarrow> u32" where
  "GUID_ENPART x = (if IsGuidHaveEnPart x then ucast (drop_bit 24 x AND 0x0000000000FFFFFF) else 0)"

definition GUID_LOPART :: "u64 \<Rightarrow> u32" where
  "GUID_LOPART x = (if IsGuidHaveEnPart x then ucast (x AND 0x0000000000FFFFFF)
                    else ucast (x AND 0x00000000FFFFFFFF))"

definition IS_EMPTY_GUID :: "u64 \<Rightarrow> bool" where
  "IS_EMPTY_GUID guid = (guid = 0)"

definition IS_CREATURE_GUID :: "u64 \<Rightarrow> bool" where
  "IS_CREATURE_GUID guid = (GUID_HIPART guid = HIGHGUID_UNIT)"

definition IS_PET_GUID :: "u64 \<Rightarrow> bool" where
  "IS_PET_GUID guid = (GUID_HIPART guid = HIGHGUID_PET)"

definition IS_VEHICLE_GUID :: "u64 \<Rightarrow> bool" where
  "IS_VEHICLE_GUID guid = (GUID_HIPART guid = HIGHGUID_VEHICLE)"

definition IS_CRE_OR_VEH_GUID :: "u64 \<Rightarrow> bool" where
  "IS_CRE_OR_VEH_GUID guid = (IS_CREATURE_GUID guid \<or> IS_VEHICLE_GUID guid)"

definition IS_CRE_OR_VEH_OR_PET_GUID :: "u64 \<Rightarrow> bool" where
  "IS_CRE_OR_VEH_OR_PET_GUID guid = (IS_CRE_OR_VEH_GUID guid \<or> IS_PET_GUID guid)"

definition IS_PLAYER_GUID :: "u64 \<Rightarrow> bool" where
  "IS_PLAYER_GUID guid = (guid \<noteq> 0 \<and> GUID_HIPART guid = HIGHGUID_PLAYER)"

definition IS_UNIT_GUID :: "u64 \<Rightarrow> bool" where
  "IS_UNIT_GUID guid = (IS_CRE_OR_VEH_OR_PET_GUID guid \<or> IS_PLAYER_GUID guid)"

definition IS_ITEM_GUID :: "u64 \<Rightarrow> bool" where
  "IS_ITEM_GUID guid = (GUID_HIPART guid = HIGHGUID_ITEM)"

definition IS_GAMEOBJECT_GUID :: "u64 \<Rightarrow> bool" where
  "IS_GAMEOBJECT_GUID guid = (GUID_HIPART guid = HIGHGUID_GAMEOBJECT)"

definition IS_DYNAMICOBJECT_GUID :: "u64 \<Rightarrow> bool" where
  "IS_DYNAMICOBJECT_GUID guid = (GUID_HIPART guid = HIGHGUID_DYNAMICOBJECT)"

definition IS_CORPSE_GUID :: "u64 \<Rightarrow> bool" where
  "IS_CORPSE_GUID guid = (GUID_HIPART guid = HIGHGUID_CORPSE)"

definition IS_TRANSPORT_GUID :: "u64 \<Rightarrow> bool" where
  "IS_TRANSPORT_GUID guid = (GUID_HIPART guid = HIGHGUID_TRANSPORT)"

definition IS_MO_TRANSPORT_GUID :: "u64 \<Rightarrow> bool" where
  "IS_MO_TRANSPORT_GUID guid = (GUID_HIPART guid = HIGHGUID_MO_TRANSPORT)"

definition IS_GROUP_GUID :: "u64 \<Rightarrow> bool" where
  "IS_GROUP_GUID guid = (GUID_HIPART guid = HIGHGUID_GROUP)"

definition GetLogNameForGuid :: "u64 \<Rightarrow> string" where
  "GetLogNameForGuid guid =
     (let h = GUID_HIPART guid in
      if h = HIGHGUID_ITEM then ''item''
      else if h = HIGHGUID_PLAYER then (if guid \<noteq> 0 then ''player'' else ''none'')
      else if h = HIGHGUID_GAMEOBJECT then ''gameobject''
      else if h = HIGHGUID_TRANSPORT then ''transport''
      else if h = HIGHGUID_UNIT then ''creature''
      else if h = HIGHGUID_PET then ''pet''
      else if h = HIGHGUID_VEHICLE then ''vehicle''
      else if h = HIGHGUID_DYNAMICOBJECT then ''dynobject''
      else if h = HIGHGUID_CORPSE then ''corpse''
      else if h = HIGHGUID_MO_TRANSPORT then ''mo_transport''
      else if h = HIGHGUID_GROUP then ''group''
      else ''<unknown>'')"

section \<open>Taking apart what was put together\<close>

lemma bit_mask16: "bit (0xFFFF :: int) n \<longleftrightarrow> n < 16"
proof -
  have "(0xFFFF :: int) = mask 16" by (simp add: mask_eq_exp_minus_1)
  then show ?thesis by (simp only: bit_mask_iff possible_bit_def) simp
qed

lemma bit_mask24: "bit (0xFFFFFF :: int) n \<longleftrightarrow> n < 24"
proof -
  have "(0xFFFFFF :: int) = mask 24" by (simp add: mask_eq_exp_minus_1)
  then show ?thesis by (simp only: bit_mask_iff possible_bit_def) simp
qed

lemma bit_mask32: "bit (0xFFFFFFFF :: int) n \<longleftrightarrow> n < 32"
proof -
  have "(0xFFFFFFFF :: int) = mask 32" by (simp add: mask_eq_exp_minus_1)
  then show ?thesis by (simp only: bit_mask_iff possible_bit_def) simp
qed

lemma bit_mask8: "bit (0xFF :: int) n \<longleftrightarrow> n < 8"
proof -
  have "(0xFF :: int) = mask 8" by (simp add: mask_eq_exp_minus_1)
  then show ?thesis by (simp only: bit_mask_iff possible_bit_def) simp
qed

lemmas guid_bits = bit_mask8 bit_mask16 bit_mask24 bit_mask32

lemma not_bit_below:
  fixes w :: "'a::len word"
  assumes "w < 2 ^ n" and "n \<le> k"
  shows "\<not> bit w k"
proof
  assume b: "bit w k"
  then have "k < LENGTH('a)" by (rule bit_imp_le_length)
  have "take_bit n w = w"
    using assms(1) by (cases "n < LENGTH('a)")
      (auto simp: take_bit_word_eq_self less_mask_eq take_bit_eq_mask intro: less_mask_eq)
  then have "bit (take_bit n w) k" using b by simp
  then show False using assms(2) by (simp add: bit_simps)
qed

lemma bit_below:
  fixes w :: "'a::len word"
  shows "w < 2 ^ n \<Longrightarrow> bit w k \<Longrightarrow> k < n"
  using not_bit_below [of w n k] by (cases "n \<le> k") auto

lemma GUID_HIPART_MAKE:
  assumes "e < 2 ^ 24" and "h < 2 ^ 16"
  shows "GUID_HIPART (MAKE_NEW_GUID l e h) = h"
proof (rule bit_word_eqI)
  fix n assume n: "n < LENGTH(32)"
  have "\<not> bit e (24 + n)" using assms(1) by (rule not_bit_below) simp
  moreover have "\<not> bit l (48 + n)" using bit_imp_le_length [of l "48 + n"] by auto
  moreover have "bit h n \<Longrightarrow> n < 16" using assms(2) by (rule bit_below)
  ultimately show "bit (GUID_HIPART (MAKE_NEW_GUID l e h)) n \<longleftrightarrow> bit h n"
    using n by (auto simp: GUID_HIPART_def MAKE_NEW_GUID_def bit_simps guid_bits)
qed

lemma bits_24_MAKE:
  assumes "l < 2 ^ 24" and "e < 2 ^ 24"
  shows "ucast (drop_bit 24 (MAKE_NEW_GUID l e h) AND 0xFFFFFF) = e"
    and "ucast (MAKE_NEW_GUID l e h AND 0xFFFFFF) = l"
proof -
  have e: "bit e n \<Longrightarrow> n < 24" for n using assms(2) by (rule bit_below)
  have l: "bit l n \<Longrightarrow> n < 24" for n using assms(1) by (rule bit_below)
  show "ucast (drop_bit 24 (MAKE_NEW_GUID l e h) AND 0xFFFFFF) = e"
    by (rule bit_word_eqI) (auto simp: MAKE_NEW_GUID_def bit_simps guid_bits dest: e l)
  show "ucast (MAKE_NEW_GUID l e h AND 0xFFFFFF) = l"
    by (rule bit_word_eqI) (auto simp: MAKE_NEW_GUID_def bit_simps guid_bits dest: e l)
qed

lemma bits_32_MAKE: "ucast (MAKE_NEW_GUID l 0 h AND 0xFFFFFFFF) = l"
  by (rule bit_word_eqI) (auto simp: MAKE_NEW_GUID_def bit_simps guid_bits)

lemma PAIR64_MAKE [simp]:
  "PAIR64_LOPART (MAKE_PAIR64 l h) = l" "PAIR64_HIPART (MAKE_PAIR64 l h) = h"
  by (rule bit_word_eqI; auto simp: MAKE_PAIR64_def PAIR64_LOPART_def PAIR64_HIPART_def
        bit_simps guid_bits dest: bit_imp_le_length)+

lemma PAIR32_MAKE [simp]:
  "PAIR32_LOPART (MAKE_PAIR32 l' h') = l'" "PAIR32_HIPART (MAKE_PAIR32 l' h') = h'"
  by (rule bit_word_eqI; auto simp: MAKE_PAIR32_def PAIR32_LOPART_def PAIR32_HIPART_def
        bit_simps guid_bits dest: bit_imp_le_length)+

lemma MAKE_PAIR64_PARTS [simp]: "MAKE_PAIR64 (PAIR64_LOPART x) (PAIR64_HIPART x) = x"
  by (rule bit_word_eqI) (auto simp: MAKE_PAIR64_def PAIR64_LOPART_def PAIR64_HIPART_def
        bit_simps guid_bits)

lemma player_guid_parts [simp]:
  "GUID_HIPART (MAKE_NEW_GUID l 0 HIGHGUID_PLAYER) = HIGHGUID_PLAYER"
  "\<not> IsGuidHaveEnPart (MAKE_NEW_GUID l 0 HIGHGUID_PLAYER)"
  "GUID_LOPART (MAKE_NEW_GUID l 0 HIGHGUID_PLAYER) = l"
proof -
  show h: "GUID_HIPART (MAKE_NEW_GUID l 0 HIGHGUID_PLAYER) = HIGHGUID_PLAYER"
    by (rule bit_word_eqI)
      (auto simp: GUID_HIPART_def MAKE_NEW_GUID_def bit_simps guid_bits highguid_defs dest: bit_imp_le_length)
  then show "\<not> IsGuidHaveEnPart (MAKE_NEW_GUID l 0 HIGHGUID_PLAYER)"
    by (simp add: IsGuidHaveEnPart_def)
  then show "GUID_LOPART (MAKE_NEW_GUID l 0 HIGHGUID_PLAYER) = l"
    by (simp add: GUID_LOPART_def bits_32_MAKE)
qed

text \<open>
  A guid of a kind with an entry gives back its three parts, whenever the low part and
  the entry fit in the 24 bits each has.
\<close>

theorem guid_entry_roundtrip:
  assumes "l < 2 ^ 24" and "e < 2 ^ 24" and "h < 2 ^ 16"
    and "h \<notin> {HIGHGUID_ITEM, HIGHGUID_PLAYER, HIGHGUID_DYNAMICOBJECT, HIGHGUID_CORPSE, HIGHGUID_GROUP}"
  shows "GUID_HIPART (MAKE_NEW_GUID l e h) = h \<and> GUID_ENPART (MAKE_NEW_GUID l e h) = e \<and>
    GUID_LOPART (MAKE_NEW_GUID l e h) = l"
proof -
  from assms(2,3) have h: "GUID_HIPART (MAKE_NEW_GUID l e h) = h" by (simp add: GUID_HIPART_MAKE)
  with assms(4) have "IsGuidHaveEnPart (MAKE_NEW_GUID l e h)" by (simp add: IsGuidHaveEnPart_def)
  with h assms(1,2) show ?thesis by (simp add: GUID_ENPART_def GUID_LOPART_def bits_24_MAKE)
qed

theorem guid_entry_roundtrip_witness:
  "GUID_HIPART (MAKE_NEW_GUID 77 26499 HIGHGUID_UNIT) = HIGHGUID_UNIT \<and>
   GUID_ENPART (MAKE_NEW_GUID 77 26499 HIGHGUID_UNIT) = 26499 \<and>
   GUID_LOPART (MAKE_NEW_GUID 77 26499 HIGHGUID_UNIT) = 77"
  by (rule guid_entry_roundtrip) (simp_all add: highguid_defs)

end
