(* ===== verification/ByteBuffer.thy ===== *)
theory ByteBuffer
  imports Prelude
begin

text \<open>
  The packet buffer, src/src/common/Packets/ByteBuffer.h and ByteBuffer.cpp: a vector of
  bytes with a read and a write position. Every operation is a function on the record; an
  exception, a failed \<^verbatim>\<open>ASSERT\<close> and an access outside the vector are errors. The vector's
  capacity is not observable and is left out, and allocation never fails. Integers are put in
  memory little-endian: that is what \<^verbatim>\<open>EndianConvert\<close> leaves on both kinds of host. A
  signed integer is its two's-complement word, so one definition serves both signednesses.
\<close>

datatype bb_error =
    PositionException bool nat nat nat
  | SourceException nat nat nat
  | BaseException
  | AssertionFailed
  | OutOfBounds

record byteBuffer =
  rpos :: nat
  wpos :: nat
  storage :: "u8 list"

type_synonym 'a bb = "bb_error + 'a"

definition bb_new :: byteBuffer where
  "bb_new = \<lparr>rpos = 0, wpos = 0, storage = []\<rparr>"

definition bb_clear :: "byteBuffer \<Rightarrow> byteBuffer" where
  "bb_clear b = b\<lparr>storage := [], rpos := 0, wpos := 0\<rparr>"

definition bb_size :: "byteBuffer \<Rightarrow> nat" where
  "bb_size b = length (storage b)"

definition bb_empty :: "byteBuffer \<Rightarrow> bool" where
  "bb_empty b = (storage b = [])"

section \<open>Exceptions\<close>

text \<open>
  \<^verbatim>\<open>what()\<close>, as the two constructors of ByteBuffer.cpp write it. The declared parameters
  are \<open>(add, pos, size, valueSize)\<close> and \<open>(pos, size, valueSize)\<close>.
\<close>

fun bb_what :: "bb_error \<Rightarrow> string" where
  "bb_what (PositionException add pos sz valueSize) =
     ''Attempted to '' @ (if add then ''put'' else ''get'') @ '' value with size: '' @
     dec_string valueSize @ '' in ByteBuffer (pos: '' @ dec_string pos @ '' size: '' @
     dec_string sz @ '')''"
| "bb_what (SourceException pos sz valueSize) =
     ''Attempted to put a '' @ (if valueSize > 0 then ''NULL-pointer'' else ''zero-sized value'') @
     '' in ByteBuffer (pos: '' @ dec_string pos @ '' size: '' @ dec_string sz @ '')''"
| "bb_what _ = ''''"

section \<open>Writing\<close>

text \<open>\<^verbatim>\<open>memcpy(&_storage[p], src, n)\<close> inside the vector.\<close>

definition overwrite :: "u8 list \<Rightarrow> nat \<Rightarrow> u8 list \<Rightarrow> u8 list" where
  "overwrite xs p ys = take p xs @ ys @ drop (p + length ys) xs"

text \<open>
  \<^verbatim>\<open>append(const uint8 *src, size_t cnt)\<close>; the source is \<^const>\<open>None\<close> for a null
  pointer. The \<open>reserve\<close> calls of the code change only the capacity.
\<close>

definition bb_append_src :: "u8 list option \<Rightarrow> nat \<Rightarrow> byteBuffer \<Rightarrow> byteBuffer bb" where
  "bb_append_src src cnt b =
     (if cnt = 0 then Inl (SourceException (wpos b) (bb_size b) cnt)
      else case src of
        None \<Rightarrow> Inl (SourceException (wpos b) (bb_size b) cnt)
      | Some bytes \<Rightarrow>
          if \<not> bb_size b < 10000000 then Inl AssertionFailed
          else
            let newsize = szadd (wpos b) cnt;
                st = (if length (storage b) < newsize
                      then storage b @ replicate (newsize - length (storage b)) 0
                      else storage b)
            in if wpos b + cnt > length st \<or> length bytes < cnt then Inl OutOfBounds
               else Inr (b\<lparr>storage := overwrite st (wpos b) (take cnt bytes), wpos := newsize\<rparr>))"

text \<open>\<^verbatim>\<open>append<T>\<close> and the operators \<^verbatim>\<open><<\<close> on the integer types.\<close>

definition bb_append :: "'a::len word \<Rightarrow> byteBuffer \<Rightarrow> byteBuffer bb" where
  "bb_append value b =
     (let n = LENGTH('a) div 8 in bb_append_src (Some (le_bytes n value)) n b)"

definition bb_append_array :: "'a::len word list \<Rightarrow> nat \<Rightarrow> byteBuffer \<Rightarrow> byteBuffer bb" where
  "bb_append_array src cnt b =
     (let n = LENGTH('a) div 8
      in bb_append_src (Some (concat (map (le_bytes n) src))) (cnt * n) b)"

definition bb_put_string :: "string \<Rightarrow> byteBuffer \<Rightarrow> byteBuffer bb" where
  "bb_put_string value b =
     bindE (if length value \<noteq> 0 then bb_append_src (Some (str_bytes value)) (length value) b
            else Inr b)
       (bb_append (0 :: u8))"

text \<open>\<^verbatim>\<open>operator<<(const char *)\<close>: the pointer may be null, the text ends at the first NUL.\<close>

definition strlen :: "string \<Rightarrow> nat" where
  "strlen s = length (takeWhile (\<lambda>c. c \<noteq> CHR 0x00) s)"

definition bb_put_cstr :: "string option \<Rightarrow> byteBuffer \<Rightarrow> byteBuffer bb" where
  "bb_put_cstr str b =
     (let len = (case str of None \<Rightarrow> 0 | Some s \<Rightarrow> strlen s)
      in bindE (if len \<noteq> 0 then bb_append_src (map_option str_bytes str) len b else Inr b)
           (bb_append (0 :: u8)))"

definition bb_contents :: "byteBuffer \<Rightarrow> u8 list bb" where
  "bb_contents b = (if storage b = [] then Inl BaseException else Inr (storage b))"

definition bb_append_buffer :: "byteBuffer \<Rightarrow> byteBuffer \<Rightarrow> byteBuffer bb" where
  "bb_append_buffer buffer b =
     (if wpos buffer \<noteq> 0 then
        bindE (bb_contents buffer) (\<lambda>bytes. bb_append_src (Some bytes) (wpos buffer) b)
      else Inr b)"

definition bb_put_src :: "nat \<Rightarrow> u8 list option \<Rightarrow> nat \<Rightarrow> byteBuffer \<Rightarrow> byteBuffer bb" where
  "bb_put_src pos src cnt b =
     (if szadd pos cnt > bb_size b then Inl (PositionException True pos cnt (bb_size b))
      else case src of
        None \<Rightarrow> Inl (SourceException (wpos b) (bb_size b) cnt)
      | Some bytes \<Rightarrow>
          if pos + cnt > bb_size b \<or> length bytes < cnt then Inl OutOfBounds
          else Inr (b\<lparr>storage := overwrite (storage b) pos (take cnt bytes)\<rparr>))"

definition bb_put :: "nat \<Rightarrow> 'a::len word \<Rightarrow> byteBuffer \<Rightarrow> byteBuffer bb" where
  "bb_put pos value b =
     (let n = LENGTH('a) div 8 in bb_put_src pos (Some (le_bytes n value)) n b)"

definition bb_resize :: "nat \<Rightarrow> byteBuffer \<Rightarrow> byteBuffer" where
  "bb_resize newsize b =
     (let st = take newsize (storage b) @ replicate (newsize - bb_size b) 0
      in b\<lparr>storage := st, rpos := 0, wpos := length st\<rparr>)"

definition bb_reserve :: "nat \<Rightarrow> byteBuffer \<Rightarrow> byteBuffer" where
  "bb_reserve ressize b = b"

section \<open>Reading\<close>

text \<open>
  The bytes behind \<^verbatim>\<open>read<T>(pos)\<close>: the code's check, then the access. Where the sum of
  the check wraps, the access is outside the vector.
\<close>

definition bb_bytes_at :: "nat \<Rightarrow> nat \<Rightarrow> byteBuffer \<Rightarrow> u8 list bb" where
  "bb_bytes_at n pos b =
     (if szadd pos n > bb_size b then Inl (PositionException False pos n (bb_size b))
      else if pos + n > bb_size b \<or> pos + n \<ge> 2 ^ 64 then Inl OutOfBounds
      else Inr (take n (drop pos (storage b))))"

definition bb_read_at :: "nat \<Rightarrow> byteBuffer \<Rightarrow> 'a::len word bb" where
  "bb_read_at pos b = bindE (bb_bytes_at (LENGTH('a) div 8) pos b) (\<lambda>bs. Inr (from_le bs))"

definition bb_read :: "byteBuffer \<Rightarrow> ('a::len word \<times> byteBuffer) bb" where
  "bb_read b = bindE (bb_read_at (rpos b) b)
     (\<lambda>r. Inr (r, b\<lparr>rpos := szadd (rpos b) (LENGTH('a) div 8)\<rparr>))"

text \<open>The operators \<^verbatim>\<open>>>\<close> on the integer types.\<close>

definition bb_get :: "byteBuffer \<Rightarrow> ('a::len word \<times> byteBuffer) bb" where
  "bb_get b = bindE (bb_read b) (\<lambda>(value, b'). Inr (value, b'))"

lemma bb_get_read [bb_simps, simp]: "bb_get b = bb_read b"
  by (cases "bb_read b :: ('a::len word \<times> byteBuffer) bb") (auto simp: bb_get_def)

definition bb_read_bytes :: "nat \<Rightarrow> byteBuffer \<Rightarrow> (u8 list \<times> byteBuffer) bb" where
  "bb_read_bytes len b = bindE (bb_bytes_at len (rpos b) b)
     (\<lambda>bs. Inr (bs, b\<lparr>rpos := szadd (rpos b) len\<rparr>))"

definition bb_read_bool :: "byteBuffer \<Rightarrow> (bool \<times> byteBuffer) bb" where
  "bb_read_bool b = bindE (bb_read b) (\<lambda>(c :: u8, b'). Inr (sint c > 0, b'))"

definition bb_index :: "nat \<Rightarrow> byteBuffer \<Rightarrow> u8 bb" where
  "bb_index pos b =
     (if pos \<ge> bb_size b then Inl (PositionException False pos 1 (bb_size b))
      else Inr (storage b ! pos))"

definition bb_rpos_set :: "nat \<Rightarrow> byteBuffer \<Rightarrow> nat \<times> byteBuffer" where
  "bb_rpos_set p b = (let b' = b\<lparr>rpos := p\<rparr> in (rpos b', b'))"

definition bb_wpos_set :: "nat \<Rightarrow> byteBuffer \<Rightarrow> nat \<times> byteBuffer" where
  "bb_wpos_set p b = (let b' = b\<lparr>wpos := p\<rparr> in (wpos b', b'))"

definition bb_rfinish :: "byteBuffer \<Rightarrow> byteBuffer" where
  "bb_rfinish b = b\<lparr>rpos := wpos b\<rparr>"

definition bb_read_skip :: "nat \<Rightarrow> byteBuffer \<Rightarrow> byteBuffer bb" where
  "bb_read_skip skip b =
     (if szadd (rpos b) skip > bb_size b then Inl (PositionException False (rpos b) skip (bb_size b))
      else Inr (b\<lparr>rpos := szadd (rpos b) skip\<rparr>))"

lemma bb_read_rpos:
  assumes "bb_read b = Inr (x :: 'a::len word, b')"
  shows "rpos b' = rpos b + LENGTH('a) div 8 \<and> rpos b' \<le> bb_size b \<and> storage b' = storage b \<and> wpos b' = wpos b"
  using assms
  by (auto simp: bb_read_def bb_read_at_def bb_bytes_at_def elim!: bindE_InrE split: if_splits)

text \<open>\<^verbatim>\<open>operator>>(std::string&)\<close>: up to a NUL, or to the end of the buffer.\<close>

function bb_string_loop :: "byteBuffer \<Rightarrow> string \<Rightarrow> (string \<times> byteBuffer) bb" where
  "bb_string_loop b value =
     (if rpos b < bb_size b then
        (case bb_read b of
          Inl e \<Rightarrow> Inl e
        | Inr (c :: u8, b') \<Rightarrow>
            if c = 0 then Inr (value, b') else bb_string_loop b' (value @ [byte_char c]))
      else Inr (value, b))"
  by pat_completeness auto
termination
  by (relation "measure (\<lambda>(b, _). bb_size b - rpos b)") (auto dest!: bb_read_rpos simp: bb_size_def)

declare bb_string_loop.simps [simp del]

definition bb_read_string :: "byteBuffer \<Rightarrow> (string \<times> byteBuffer) bb" where
  "bb_read_string b = bb_string_loop b ''''"

definition bb_skip_string :: "byteBuffer \<Rightarrow> byteBuffer bb" where
  "bb_skip_string b = bindE (bb_read_string b) (\<lambda>(temp, b'). Inr b')"

end
