(* ===== verification/BufferCodec.thy ===== *)
theory BufferCodec
  imports ByteBuffer Guid
begin

text \<open>
  The composite readers and writers of src/src/common/Packets/ByteBuffer.h (packed guids,
  packed times, vectors, lists and maps), and the contract a writer and a reader of one
  type share. The contract is the locale \<open>streamable\<close>; each pair of operators of the
  buffer is an instance of it, and what is proved inside it (sequences of values come
  back as they were written) holds for all of them.
\<close>

section \<open>Buffers that are only appended to\<close>

definition bb_ok :: "byteBuffer \<Rightarrow> bool" where
  "bb_ok b = (wpos b = bb_size b)"

definition bb_extend :: "u8 list \<Rightarrow> byteBuffer \<Rightarrow> byteBuffer" where
  "bb_extend bs b = b\<lparr>storage := storage b @ bs, wpos := wpos b + length bs\<rparr>"

definition bb_advance :: "nat \<Rightarrow> byteBuffer \<Rightarrow> byteBuffer" where
  "bb_advance n b = b\<lparr>rpos := rpos b + n\<rparr>"

definition bb_holds :: "byteBuffer \<Rightarrow> u8 list \<Rightarrow> bool" where
  "bb_holds b bs = (take (length bs) (drop (rpos b) (storage b)) = bs \<and> bb_size b < 2 ^ 64)"

lemma bb_extend_simps [bb_simps, simp]:
  "bb_size (bb_extend bs b) = bb_size b + length bs"
  "rpos (bb_extend bs b) = rpos b"
  "storage (bb_extend bs b) = storage b @ bs"
  "bb_extend [] b = b"
  "bb_extend ys (bb_extend xs b) = bb_extend (xs @ ys) b"
  by (simp_all add: bb_extend_def bb_size_def)

lemma bb_ok_extend [bb_simps, simp]: "bb_ok (bb_extend bs b) \<longleftrightarrow> bb_ok b"
  by (auto simp: bb_ok_def bb_extend_def bb_size_def)

lemma bb_ok_new [simp]: "bb_ok bb_new"
  by (simp add: bb_ok_def bb_new_def bb_size_def)

lemma bb_advance_simps [bb_simps, simp]:
  "bb_advance 0 b = b"
  "bb_advance m (bb_advance n b) = bb_advance (n + m) b"
  "storage (bb_advance n b) = storage b"
  "rpos (bb_advance n b) = rpos b + n"
  "bb_size (bb_advance n b) = bb_size b"
  by (simp_all add: bb_advance_def bb_size_def add.assoc)

lemma bb_holds_append:
  "bb_holds b (xs @ ys) \<longleftrightarrow> bb_holds b xs \<and> bb_holds (bb_advance (length xs) b) ys"
proof -
  have "take (length xs + length ys) zs = xs @ ys \<longleftrightarrow>
      take (length xs) zs = xs \<and> take (length ys) (drop (length xs) zs) = ys" for zs :: "u8 list"
    by (auto simp: take_add append_eq_append_conv_if min_def split: if_splits)
  then show ?thesis by (auto simp: bb_holds_def add.commute)
qed

lemma bb_holds_size: "bb_holds b bs \<Longrightarrow> bs \<noteq> [] \<Longrightarrow> rpos b + length bs \<le> bb_size b"
proof -
  assume "bb_holds b bs" and ne: "bs \<noteq> []"
  then have "length (take (length bs) (drop (rpos b) (storage b))) = length bs"
    by (simp add: bb_holds_def)
  moreover obtain y ys where "bs = y # ys" using ne by (cases bs) auto
  ultimately show ?thesis by (simp add: bb_size_def min_def split: if_splits)
qed

lemma bb_holds_extend:
  "bb_size b + length bs < 2 ^ 64 \<Longrightarrow> bb_holds (bb_extend bs b\<lparr>rpos := bb_size b\<rparr>) bs"
  by (simp add: bb_holds_def bb_size_def bb_extend_def)

lemma bb_append_src_ok [bb_simps]:
  assumes "bb_ok b" and "bb_size b < 10000000" and "bs \<noteq> []" and "length bs < 2 ^ 32"
  shows "bb_append_src (Some bs) (length bs) b = Inr (bb_extend bs b)"
  using assms
  by (auto simp: bb_append_src_def bb_ok_def bb_size_def bb_extend_def overwrite_def Let_def)

lemma bb_append_ok [bb_simps]:
  assumes "bb_ok b" and "bb_size b < 10000000" and "8 \<le> LENGTH('a::len)" and "LENGTH('a) < 2 ^ 32"
  shows "bb_append (x :: 'a word) b = Inr (bb_extend (le_bytes (LENGTH('a) div 8) x) b)"
proof -
  have "le_bytes (LENGTH('a) div 8) x \<noteq> []"
    using assms(3) by (metis div_greater_zero_iff length_greater_0_conv length_le_bytes zero_less_numeral)
  moreover have "length (le_bytes (LENGTH('a) div 8) x) < 2 ^ 32" using assms(4) by simp
  ultimately show ?thesis
    using bb_append_src_ok [of b "le_bytes (LENGTH('a) div 8) x"] assms(1,2)
    by (simp add: bb_append_def Let_def)
qed

lemma bb_bytes_at_ok [bb_simps]:
  assumes "bb_holds b bs" and "bs \<noteq> []"
  shows "bb_bytes_at (length bs) (rpos b) b = Inr bs"
  using assms bb_holds_size [OF assms] by (simp add: bb_bytes_at_def bb_holds_def)

lemma bb_read_ok [bb_simps]:
  assumes "bb_holds b (le_bytes (LENGTH('a::len) div 8) x)" and "8 dvd LENGTH('a)"
  shows "bb_read b = Inr (x :: 'a word, bb_advance (LENGTH('a) div 8) b)"
proof -
  obtain n where n: "LENGTH('a) = 8 * n" "0 < n" using assms(2) by (metis dvdE len_gt_0 nat_0_less_mult_iff)
  then have ne: "le_bytes (LENGTH('a) div 8) x \<noteq> []"
    by (metis length_0_conv length_le_bytes neq0_conv nonzero_mult_div_cancel_left zero_neq_numeral)
  have "rpos b + n < 2 ^ 64"
    using bb_holds_size [OF assms(1) ne] assms(1) n by (simp add: bb_holds_def)
  then show ?thesis
    using bb_bytes_at_ok [OF assms(1) ne] from_le_le_bytes [of n x] n
    by (simp add: bb_read_def bb_read_at_def bb_advance_def)
qed

section \<open>The contract of a writer and its reader\<close>

locale streamable =
  fixes wr :: "'a \<Rightarrow> byteBuffer \<Rightarrow> byteBuffer bb"
    and rd :: "byteBuffer \<Rightarrow> ('a \<times> byteBuffer) bb"
    and enc :: "'a \<Rightarrow> u8 list"
    and valid :: "'a \<Rightarrow> bool"
  assumes enc_nonempty: "enc x \<noteq> []"
    and wr_enc: "\<lbrakk>valid x; bb_ok b; bb_size b + length (enc x) \<le> 10000000\<rbrakk> \<Longrightarrow>
      wr x b = Inr (bb_extend (enc x) b)"
    and rd_enc: "\<lbrakk>valid x; bb_holds b (enc x)\<rbrakk> \<Longrightarrow>
      rd b = Inr (x, bb_advance (length (enc x)) b)"

text \<open>The \<^verbatim>\<open>std::vector\<close> and \<^verbatim>\<open>std::list\<close> operators, over the element's.\<close>

fun bb_put_all :: "('a \<Rightarrow> byteBuffer \<Rightarrow> byteBuffer bb) \<Rightarrow> 'a list \<Rightarrow> byteBuffer \<Rightarrow> byteBuffer bb" where
  "bb_put_all wr [] b = Inr b"
| "bb_put_all wr (x # xs) b = bindE (wr x b) (bb_put_all wr xs)"

definition bb_put_vector :: "('a \<Rightarrow> byteBuffer \<Rightarrow> byteBuffer bb) \<Rightarrow> 'a list \<Rightarrow> byteBuffer \<Rightarrow> byteBuffer bb" where
  "bb_put_vector wr v b = bindE (bb_append (of_nat (length v) :: u32) b) (bb_put_all wr v)"

primrec bb_read_all :: "(byteBuffer \<Rightarrow> ('a \<times> byteBuffer) bb) \<Rightarrow> nat \<Rightarrow> 'a list \<Rightarrow> byteBuffer \<Rightarrow> ('a list \<times> byteBuffer) bb" where
  "bb_read_all rd 0 v b = Inr (v, b)"
| "bb_read_all rd (Suc vsize) v b = bindE (rd b) (\<lambda>(t, b'). bb_read_all rd vsize (v @ [t]) b')"

definition bb_read_vector :: "(byteBuffer \<Rightarrow> ('a \<times> byteBuffer) bb) \<Rightarrow> byteBuffer \<Rightarrow> ('a list \<times> byteBuffer) bb" where
  "bb_read_vector rd b = bindE (bb_read b) (\<lambda>(vsize :: u32, b'). bb_read_all rd (unat vsize) [] b')"

definition bb_put_list :: "('a \<Rightarrow> byteBuffer \<Rightarrow> byteBuffer bb) \<Rightarrow> 'a list \<Rightarrow> byteBuffer \<Rightarrow> byteBuffer bb" where
  "bb_put_list wr v b = bindE (bb_append (of_nat (length v) :: u32) b) (bb_put_all wr v)"

definition bb_read_list :: "(byteBuffer \<Rightarrow> ('a \<times> byteBuffer) bb) \<Rightarrow> byteBuffer \<Rightarrow> ('a list \<times> byteBuffer) bb" where
  "bb_read_list rd b = bindE (bb_read b) (\<lambda>(vsize :: u32, b'). bb_read_all rd (unat vsize) [] b')"

text \<open>The \<^verbatim>\<open>std::map\<close> operators: pairs in key order; the reader's \<^verbatim>\<open>insert\<close> keeps the first.\<close>

fun bb_put_pairs :: "('k \<Rightarrow> byteBuffer \<Rightarrow> byteBuffer bb) \<Rightarrow> ('v \<Rightarrow> byteBuffer \<Rightarrow> byteBuffer bb) \<Rightarrow>
    ('k \<times> 'v) list \<Rightarrow> byteBuffer \<Rightarrow> byteBuffer bb" where
  "bb_put_pairs wk wv [] b = Inr b"
| "bb_put_pairs wk wv ((k, v) # m) b = bindE (wk k b) (\<lambda>b. bindE (wv v b) (bb_put_pairs wk wv m))"

definition bb_put_map :: "('k \<Rightarrow> byteBuffer \<Rightarrow> byteBuffer bb) \<Rightarrow> ('v \<Rightarrow> byteBuffer \<Rightarrow> byteBuffer bb) \<Rightarrow>
    ('k \<times> 'v) list \<Rightarrow> byteBuffer \<Rightarrow> byteBuffer bb" where
  "bb_put_map wk wv m b = bindE (bb_append (of_nat (length m) :: u32) b) (bb_put_pairs wk wv m)"

primrec bb_read_pairs :: "(byteBuffer \<Rightarrow> ('k \<times> byteBuffer) bb) \<Rightarrow> (byteBuffer \<Rightarrow> ('v \<times> byteBuffer) bb) \<Rightarrow>
    nat \<Rightarrow> ('k \<rightharpoonup> 'v) \<Rightarrow> byteBuffer \<Rightarrow> (('k \<rightharpoonup> 'v) \<times> byteBuffer) bb" where
  "bb_read_pairs rk rv 0 m b = Inr (m, b)"
| "bb_read_pairs rk rv (Suc msize) m b =
     bindE (rk b) (\<lambda>(k, b). bindE (rv b) (\<lambda>(v, b).
       bb_read_pairs rk rv msize (if m k = None then m(k \<mapsto> v) else m) b))"

definition bb_read_map :: "(byteBuffer \<Rightarrow> ('k \<times> byteBuffer) bb) \<Rightarrow> (byteBuffer \<Rightarrow> ('v \<times> byteBuffer) bb) \<Rightarrow>
    byteBuffer \<Rightarrow> (('k \<rightharpoonup> 'v) \<times> byteBuffer) bb" where
  "bb_read_map rk rv b =
     bindE (bb_read b) (\<lambda>(msize :: u32, b'). bb_read_pairs rk rv (unat msize) Map.empty b')"

context streamable
begin

definition enc_all :: "'a list \<Rightarrow> u8 list" where
  "enc_all xs = concat (map enc xs)"

lemma put_all_enc:
  "\<lbrakk>\<forall>x\<in>set xs. valid x; bb_ok b; bb_size b + length (enc_all xs) \<le> 10000000\<rbrakk> \<Longrightarrow>
    bb_put_all wr xs b = Inr (bb_extend (enc_all xs) b)"
  by (induction xs arbitrary: b) (simp_all add: enc_all_def wr_enc)

lemma read_all_enc:
  "\<lbrakk>\<forall>x\<in>set xs. valid x; bb_holds b (enc_all xs)\<rbrakk> \<Longrightarrow>
    bb_read_all rd (length xs) v b = Inr (v @ xs, bb_advance (length (enc_all xs)) b)"
proof (induction xs arbitrary: b v)
  case (Cons x xs)
  then have "rd b = Inr (x, bb_advance (length (enc x)) b)"
    by (intro rd_enc) (simp_all add: enc_all_def bb_holds_append)
  with Cons show ?case by (simp add: enc_all_def bb_holds_append)
qed (simp add: enc_all_def)

lemma vector_roundtrip:
  assumes "\<forall>x\<in>set xs. valid x" and "bb_ok b"
    and "bb_size b + 4 + length (enc_all xs) \<le> 10000000"
  shows "\<exists>b'. bb_put_vector wr xs b = Inr b' \<and> bb_ok b' \<and>
    bb_read_vector rd (b'\<lparr>rpos := bb_size b\<rparr>) = Inr (xs, b'\<lparr>rpos := bb_size b'\<rparr>)"
proof -
  have len: "length xs \<le> length (enc_all xs)" for xs
  proof (induction xs)
    case (Cons x xs)
    obtain y ys where "enc x = y # ys" using enc_nonempty [of x] by (cases "enc x") auto
    with Cons show ?case by (simp add: enc_all_def)
  qed (simp add: enc_all_def)
  let ?n = "of_nat (length xs) :: u32"
  let ?e = "le_bytes 4 ?n @ enc_all xs"
  have w: "bb_put_vector wr xs b = Inr (bb_extend ?e b)"
    using assms by (simp add: bb_put_vector_def bb_append_ok put_all_enc)
  have n: "unat ?n = length xs"
    using len [of xs] assms(3) by (simp add: unat_of_nat)
  let ?b = "bb_extend ?e b\<lparr>rpos := bb_size b\<rparr>"
  have h: "bb_holds ?b (le_bytes 4 ?n)" "bb_holds (bb_advance 4 ?b) (enc_all xs)"
    using bb_holds_extend [of b ?e] assms(3) by (simp_all add: bb_holds_append)
  have "bb_read ?b = Inr (?n, bb_advance 4 ?b)"
    using bb_read_ok [of ?b ?n] h(1) by simp
  then have "bb_read_vector rd ?b = Inr (xs, bb_advance (length (enc_all xs)) (bb_advance 4 ?b))"
    using read_all_enc [OF assms(1) h(2)] n by (simp add: bb_read_vector_def)
  then show ?thesis
    using w assms(2) by (simp add: bb_advance_def bb_size_def bb_extend_def bb_ok_def add_ac)
qed

lemma value_roundtrip:
  assumes "valid x" and "bb_ok b" and "bb_size b + length (enc x) \<le> 10000000"
  shows "\<exists>b'. wr x b = Inr b' \<and> bb_ok b' \<and>
    rd (b'\<lparr>rpos := bb_size b\<rparr>) = Inr (x, b'\<lparr>rpos := bb_size b'\<rparr>)"
proof -
  have "bb_holds (bb_extend (enc x) b\<lparr>rpos := bb_size b\<rparr>) (enc x)"
    using assms(3) by (intro bb_holds_extend) simp
  then show ?thesis
    using rd_enc [OF assms(1)] wr_enc [OF assms] assms(2)
    by (simp add: bb_advance_def bb_size_def bb_extend_def bb_ok_def add_ac)
qed

end

locale streamable_pair =
  key: streamable wk rk ek vk + val: streamable wv rv ev vv
  for wk :: "'k \<Rightarrow> byteBuffer \<Rightarrow> byteBuffer bb" and rk ek vk
    and wv :: "'v \<Rightarrow> byteBuffer \<Rightarrow> byteBuffer bb" and rv ev vv
begin

definition enc_pairs :: "('k \<times> 'v) list \<Rightarrow> u8 list" where
  "enc_pairs m = concat (map (\<lambda>(k, v). ek k @ ev v) m)"

lemma put_pairs_enc:
  "\<lbrakk>\<forall>(k, v)\<in>set m. vk k \<and> vv v; bb_ok b; bb_size b + length (enc_pairs m) \<le> 10000000\<rbrakk> \<Longrightarrow>
    bb_put_pairs wk wv m b = Inr (bb_extend (enc_pairs m) b)"
  by (induction m arbitrary: b) (auto simp: enc_pairs_def key.wr_enc val.wr_enc)

lemma read_pairs_enc:
  "\<lbrakk>\<forall>(k, v)\<in>set m. vk k \<and> vv v; bb_holds b (enc_pairs m); wf_store m;
     \<forall>k\<in>fst ` set m. m0 k = None\<rbrakk> \<Longrightarrow>
    bb_read_pairs rk rv (length m) m0 b = Inr (m0 ++ map_of m, bb_advance (length (enc_pairs m)) b)"
proof (induction m arbitrary: b m0)
  case (Cons kv m)
  obtain k v where kv: "kv = (k, v)" by (cases kv)
  let ?b = "bb_advance (length (ek k)) b"
  have "rk b = Inr (k, ?b)"
    using Cons.prems by (intro key.rd_enc) (simp_all add: kv enc_pairs_def bb_holds_append)
  moreover have "rv ?b = Inr (v, bb_advance (length (ev v)) ?b)"
    using Cons.prems by (intro val.rd_enc) (simp_all add: kv enc_pairs_def bb_holds_append)
  moreover have "bb_read_pairs rk rv (length m) (m0(k \<mapsto> v)) (bb_advance (length (ev v)) ?b) =
      Inr (m0(k \<mapsto> v) ++ map_of m, bb_advance (length (enc_pairs m)) (bb_advance (length (ev v)) ?b))"
    using Cons.prems by (intro Cons.IH) (auto simp: kv enc_pairs_def bb_holds_append image_iff)
  moreover have "m0(k \<mapsto> v) ++ map_of m = m0 ++ map_of (kv # m)"
    using Cons.prems(3) by (auto simp: kv map_add_upd_left map_of_eq_None_iff domIff)
  ultimately show ?case
    using Cons.prems(4) by (simp add: kv enc_pairs_def add_ac) (simp add: map_add_def fun_eq_iff)
qed (simp add: enc_pairs_def)

lemma map_roundtrip:
  assumes "\<forall>(k, v)\<in>set m. vk k \<and> vv v" and "wf_store m" and "length m < 2 ^ 32" and "bb_ok b"
    and "bb_size b + 4 + length (enc_pairs m) \<le> 10000000"
  shows "\<exists>b'. bb_put_map wk wv m b = Inr b' \<and>
    bb_read_map rk rv (b'\<lparr>rpos := bb_size b\<rparr>) = Inr (map_of m, b'\<lparr>rpos := bb_size b'\<rparr>)"
proof -
  let ?n = "of_nat (length m) :: u32"
  let ?e = "le_bytes 4 ?n @ enc_pairs m"
  have w: "bb_put_map wk wv m b = Inr (bb_extend ?e b)"
    using assms by (simp add: bb_put_map_def bb_append_ok put_pairs_enc)
  let ?b = "bb_extend ?e b\<lparr>rpos := bb_size b\<rparr>"
  have h: "bb_holds ?b (le_bytes 4 ?n)" "bb_holds (bb_advance 4 ?b) (enc_pairs m)"
    using bb_holds_extend [of b ?e] assms(5) by (simp_all add: bb_holds_append)
  have "bb_read ?b = Inr (?n, bb_advance 4 ?b)"
    using bb_read_ok [of ?b ?n] h(1) by simp
  then have "bb_read_map rk rv ?b = Inr (map_of m, bb_advance (length (enc_pairs m)) (bb_advance 4 ?b))"
    using read_pairs_enc [OF assms(1) h(2) assms(2), of Map.empty] assms(3)
    by (simp add: bb_read_map_def unat_of_nat)
  then show ?thesis
    using w by (simp add: bb_advance_def bb_size_def bb_extend_def add_ac)
qed

end

section \<open>The operators on integers and strings keep the contract\<close>

lemma streamable_word:
  assumes "8 dvd LENGTH('a::len)" and "LENGTH('a) < 2 ^ 32"
  shows "streamable (bb_append :: 'a word \<Rightarrow> _) bb_read (le_bytes (LENGTH('a) div 8)) (\<lambda>_. True)"
proof
  have l: "8 \<le> LENGTH('a)" using assms(1) by (simp add: dvd_imp_le)
  then have p: "0 < LENGTH('a) div 8" by (simp add: div_greater_zero_iff)
  show ne: "le_bytes (LENGTH('a) div 8) x \<noteq> []" for x :: "'a word"
    using p by (metis length_le_bytes list.size(3) less_numeral_extra(3))
  show "bb_append x b = Inr (bb_extend (le_bytes (LENGTH('a) div 8) x) b)"
    if "bb_ok b" and "bb_size b + length (le_bytes (LENGTH('a) div 8) x) \<le> 10000000" for x :: "'a word" and b
  proof (rule bb_append_ok)
    show "bb_size b < 10000000" using that(2) p unfolding length_le_bytes by linarith
  qed (use that l assms(2) in auto)
  show "bb_read b = Inr (x, bb_advance (length (le_bytes (LENGTH('a) div 8) x)) b)"
    if "bb_holds b (le_bytes (LENGTH('a) div 8) x)" for x :: "'a word" and b
    using bb_read_ok [OF that assms(1)] by simp
qed

interpretation s8: streamable "bb_append :: u8 \<Rightarrow> _" bb_read "le_bytes 1" "\<lambda>_. True"
  using streamable_word [where 'a = 8] by simp

interpretation s16: streamable "bb_append :: u16 \<Rightarrow> _" bb_read "le_bytes 2" "\<lambda>_. True"
  using streamable_word [where 'a = 16] by simp

interpretation s32: streamable "bb_append :: u32 \<Rightarrow> _" bb_read "le_bytes 4" "\<lambda>_. True"
  using streamable_word [where 'a = 32] by simp

interpretation s64: streamable "bb_append :: u64 \<Rightarrow> _" bb_read "le_bytes 8" "\<lambda>_. True"
  using streamable_word [where 'a = 64] by simp

definition enc_string :: "string \<Rightarrow> u8 list" where
  "enc_string s = str_bytes s @ [0]"

lemma bb_put_string_enc:
  assumes "bb_ok b" and "bb_size b + length (enc_string s) \<le> 10000000"
  shows "bb_put_string s b = Inr (bb_extend (enc_string s) b)"
proof (cases "s = []")
  case True
  then show ?thesis
    using assms s8.wr_enc [where x = 0 and b = b] by (simp add: bb_put_string_def enc_string_def str_bytes_def le_bytes_def)
next
  case False
  then have "bb_append_src (Some (str_bytes s)) (length s) b = Inr (bb_extend (str_bytes s) b)"
    using assms bb_append_src_ok [of b "str_bytes s"] by (simp add: enc_string_def) (auto simp: str_bytes_def)
  then show ?thesis
    using assms False s8.wr_enc [where x = 0 and b = "bb_extend (str_bytes s) b"]
    by (simp add: bb_put_string_def enc_string_def le_bytes_def)
qed

lemma bb_string_loop_enc:
  "\<lbrakk>CHR 0x00 \<notin> set s; bb_holds b (enc_string s)\<rbrakk> \<Longrightarrow>
    bb_string_loop b v = Inr (v @ s, bb_advance (length s + 1) b)"
proof (induction s arbitrary: b v)
  case Nil
  then have "bb_holds b (le_bytes 1 (0 :: u8))" by (simp add: enc_string_def str_bytes_def le_bytes_def)
  then have "bb_read b = Inr (0 :: u8, bb_advance 1 b)" "rpos b < bb_size b"
    using s8.rd_enc [where x = 0 and b = b] bb_holds_size [of b "le_bytes 1 (0 :: u8)"] by (auto simp: le_bytes_def)
  then show ?case by (subst bb_string_loop.simps) simp
next
  case (Cons c s)
  let ?c = "of_char c :: u8"
  have h: "bb_holds b (le_bytes 1 ?c)" "bb_holds (bb_advance 1 b) (enc_string s)"
    using Cons.prems bb_holds_append [of b "[?c]" "enc_string s"]
    by (simp_all add: enc_string_def str_bytes_def le_bytes_def)
  have "bb_read b = Inr (?c, bb_advance 1 b)" "rpos b < bb_size b"
    using h(1) s8.rd_enc [where x = ?c and b = b] bb_holds_size [of b "le_bytes 1 ?c"] by (auto simp: le_bytes_def)
  moreover have "bb_string_loop (bb_advance 1 b) (v @ [c]) = Inr ((v @ [c]) @ s, bb_advance (length s + 1) (bb_advance 1 b))"
    using Cons.prems(1) h(2) by (intro Cons.IH) auto
  moreover have "?c \<noteq> 0" using Cons.prems(1) by auto
  ultimately show ?case by (subst bb_string_loop.simps) simp
qed

interpretation sstr: streamable bb_put_string bb_read_string enc_string "\<lambda>s. CHR 0x00 \<notin> set s"
proof
  show "enc_string s \<noteq> []" for s by (simp add: enc_string_def)
  show "bb_read_string b = Inr (s, bb_advance (length (enc_string s)) b)"
    if "CHR 0x00 \<notin> set s" and "bb_holds b (enc_string s)" for s b
    using bb_string_loop_enc [OF that, of "[]"] by (simp add: bb_read_string_def enc_string_def)
qed (rule bb_put_string_enc)

interpretation str_u32: streamable_pair bb_put_string bb_read_string enc_string "\<lambda>s. CHR 0x00 \<notin> set s"
  "bb_append :: u32 \<Rightarrow> _" bb_read "le_bytes 4" "\<lambda>_. True" ..

end
