(* ===== verification/PackedFields.thy ===== *)
theory PackedFields
  imports BufferCodec
begin

text \<open>
  Packed guids and packed times of src/src/common/Packets/ByteBuffer.h, and the properties
  of the buffer as a whole. A packed guid is a mask byte and then the guid's non-zero
  bytes, lowest first; a packed time is the fields of a \<^verbatim>\<open>tm\<close> in 32 bits.
\<close>

section \<open>Packed guids\<close>

text \<open>The loop of \<^verbatim>\<open>appendPackGUID\<close>: the mask byte and the payload built so far.\<close>

lemma unat_drop_byte: "(guid :: u64) \<noteq> 0 \<Longrightarrow> unat (guid div 256) < unat guid"
  by (simp add: unat_div_distrib unat_gt_0)

function pack_guid_loop :: "u64 \<Rightarrow> nat \<Rightarrow> u8 \<Rightarrow> u8 list \<Rightarrow> u8 \<times> u8 list" where
  "pack_guid_loop guid i mark out =
     (if guid \<noteq> 0 then
        if guid AND 0xFF \<noteq> 0 then
          pack_guid_loop (drop_bit 8 guid) (i + 1) (mark OR push_bit i 1) (out @ [ucast (guid AND 0xFF)])
        else pack_guid_loop (drop_bit 8 guid) (i + 1) mark out
      else (mark, out))"
  by pat_completeness auto
termination
  by (relation "measure (\<lambda>(guid, _). unat guid)")
    (auto simp: drop_bit_eq_div unat_drop_byte)

declare pack_guid_loop.simps [simp del]

definition bb_append_packGUID :: "u64 \<Rightarrow> byteBuffer \<Rightarrow> byteBuffer bb" where
  "bb_append_packGUID guid b =
     (case pack_guid_loop guid 0 0 [] of (mark, out) \<Rightarrow>
        let packGUID = mark # out in bb_append_src (Some packGUID) (length packGUID) b)"

text \<open>The loop of \<^verbatim>\<open>readPackGUID\<close>, over the bit numbers still to look at.\<close>

fun unpack_guid_loop :: "nat list \<Rightarrow> u8 \<Rightarrow> u64 \<Rightarrow> byteBuffer \<Rightarrow> (u64 \<times> byteBuffer) bb" where
  "unpack_guid_loop [] guidmark guid b = Inr (guid, b)"
| "unpack_guid_loop (i # is) guidmark guid b =
     (if guidmark AND push_bit i 1 \<noteq> 0 then
        if szadd (rpos b) 1 > bb_size b then Inl (PositionException False (rpos b) 1 (bb_size b))
        else bindE (bb_read b) (\<lambda>(v :: u8, b').
               unpack_guid_loop is guidmark (guid OR push_bit (i * 8) (ucast v)) b')
      else unpack_guid_loop is guidmark guid b)"

definition bb_read_packGUID :: "byteBuffer \<Rightarrow> (u64 \<times> byteBuffer) bb" where
  "bb_read_packGUID b =
     (if szadd (rpos b) 1 > bb_size b then Inl (PositionException False (rpos b) 1 (bb_size b))
      else bindE (bb_read b) (\<lambda>(guidmark :: u8, b'). unpack_guid_loop [0..<8] guidmark 0 b'))"

definition guid_byte :: "u64 \<Rightarrow> nat \<Rightarrow> u8" where
  "guid_byte g k = ucast (drop_bit (8 * k) g)"

definition guid_mask :: "u64 \<Rightarrow> nat list \<Rightarrow> u8" where
  "guid_mask g ks = foldr (\<lambda>k m. if guid_byte g k \<noteq> 0 then push_bit k 1 OR m else m) ks 0"

definition guid_payload :: "u64 \<Rightarrow> nat list \<Rightarrow> u8 list" where
  "guid_payload g ks = map (guid_byte g) (filter (\<lambda>k. guid_byte g k \<noteq> 0) ks)"

definition guid_value :: "u64 \<Rightarrow> nat list \<Rightarrow> u64" where
  "guid_value g ks = foldr (\<lambda>k v. push_bit (k * 8) (ucast (guid_byte g k)) OR v) ks 0"

definition enc_guid :: "u64 \<Rightarrow> u8 list" where
  "enc_guid g = guid_mask g [0..<8] # guid_payload g [0..<8]"

lemma ucast_and_FF: "ucast (drop_bit (8 * k) g AND 0xFF :: u64) = guid_byte g k"
  by (rule bit_word_eqI) (auto simp: guid_byte_def bit_simps guid_bits)

lemma guid_byte_eq_0: "guid_byte g k = 0 \<longleftrightarrow> drop_bit (8 * k) g AND 0xFF = 0"
proof
  assume "guid_byte g k = 0"
  moreover have "drop_bit (8 * k) g AND 0xFF = ucast (guid_byte g k)"
    by (rule bit_word_eqI) (auto simp: guid_byte_def bit_simps guid_bits)
  ultimately show "drop_bit (8 * k) g AND 0xFF = 0" by simp
next
  assume "drop_bit (8 * k) g AND 0xFF = 0"
  then have "ucast (drop_bit (8 * k) g AND 0xFF :: u64) = (0 :: u8)" by simp
  then show "guid_byte g k = 0" by (simp only: ucast_and_FF)
qed

lemma guid_byte_beyond: "8 \<le> k \<Longrightarrow> guid_byte g k = 0"
  by (rule bit_word_eqI) (auto simp: guid_byte_def bit_simps dest!: bit_imp_le_length)

lemma guid_bytes_of_0:
  assumes "drop_bit (8 * i) g = 0" and "\<forall>k\<in>set ks. i \<le> k"
  shows "guid_mask g ks = 0" and "guid_payload g ks = []"
proof -
  have z: "guid_byte g k = 0" if "i \<le> k" for k
  proof -
    have "drop_bit (8 * k) g = drop_bit (8 * (k - i)) (drop_bit (8 * i) g)"
      using that by (simp add: drop_bit_drop_bit algebra_simps)
    then show ?thesis by (simp add: guid_byte_def assms(1))
  qed
  show "guid_payload g ks = []" using assms(2) z by (auto simp: guid_payload_def filter_empty_conv)
  show "guid_mask g ks = 0" using assms(2) by (induction ks) (auto simp: guid_mask_def z)
qed

lemma pack_guid_loop_eq:
  "i \<le> 8 \<Longrightarrow> pack_guid_loop (drop_bit (8 * i) g) i m out =
    (m OR guid_mask g [i..<8], out @ guid_payload g [i..<8])"
proof (induction "8 - i" arbitrary: i m out)
  case 0
  then have i: "i = 8" by simp
  have "drop_bit 64 g = 0" by (rule bit_word_eqI) (auto simp: bit_simps dest: bit_imp_le_length)
  with i show ?case by (simp add: pack_guid_loop.simps guid_mask_def guid_payload_def)
next
  case (Suc n)
  show ?case
  proof (cases "drop_bit (8 * i) g = 0")
    case True
    then show ?thesis
      using guid_bytes_of_0 [OF True, of "[i..<8]"] by (simp add: pack_guid_loop.simps)
  next
    case False
    have up: "[i..<8] = i # [Suc i..<8]" using Suc.hyps(2) by (simp add: upt_rec)
    have d: "drop_bit 8 (drop_bit (8 * i) g) = drop_bit (8 * Suc i) g" by (simp add: drop_bit_drop_bit add.commute)
    have IH: "pack_guid_loop (drop_bit (8 * Suc i) g) (Suc i) m' out' =
        (m' OR guid_mask g [Suc i..<8], out' @ guid_payload g [Suc i..<8])" for m' out'
      using Suc.hyps(2) by (intro Suc.hyps(1)) auto
    show ?thesis
      using False IH
      by (subst pack_guid_loop.simps)
        (simp add: d up guid_byte_eq_0 ucast_and_FF guid_mask_def guid_payload_def or.assoc)
  qed
qed

lemma bit_guid_mask: "set ks \<subseteq> {..<8} \<Longrightarrow> bit (guid_mask g ks) k \<longleftrightarrow> k \<in> set ks \<and> guid_byte g k \<noteq> 0"
  by (induction ks) (auto simp: guid_mask_def bit_simps)

lemma unpack_guid_loop_enc:
  "\<lbrakk>\<forall>k\<in>set ks. bit mark k \<longleftrightarrow> guid_byte g k \<noteq> 0; bb_holds b (guid_payload g ks)\<rbrakk> \<Longrightarrow>
    unpack_guid_loop ks mark v b =
      Inr (v OR guid_value g ks, bb_advance (length (guid_payload g ks)) b)"
proof (induction ks arbitrary: v b)
  case Nil
  then show ?case by (simp add: guid_value_def guid_payload_def)
next
  case (Cons k ks)
  show ?case
  proof (cases "guid_byte g k = 0")
    case True
    then show ?thesis
      using Cons by (simp add: and_push_bit_1 guid_value_def guid_payload_def)
  next
    case False
    let ?c = "guid_byte g k"
    have h: "bb_holds b (le_bytes 1 ?c)" "bb_holds (bb_advance 1 b) (guid_payload g ks)"
      using Cons.prems(2) False bb_holds_append [of b "[?c]" "guid_payload g ks"]
      by (simp_all add: guid_payload_def le_bytes_def)
    have sz: "rpos b + 1 \<le> bb_size b" "bb_size b < 2 ^ 64"
      using bb_holds_size [OF h(1)] h(1) by (simp_all add: le_bytes_def bb_holds_def)
    have "bb_read b = Inr (?c, bb_advance 1 b)" using s8.rd_enc [where x = ?c and b = b] h(1) by simp
    moreover have "unpack_guid_loop ks mark w (bb_advance 1 b) =
        Inr (w OR guid_value g ks, bb_advance (length (guid_payload g ks)) (bb_advance 1 b))" for w
      using Cons.prems(1) h(2) by (intro Cons.IH) auto
    ultimately show ?thesis
      using False sz Cons.prems(1)
      by (simp add: and_push_bit_1 guid_value_def guid_payload_def or.assoc)
  qed
qed

lemma guid_value_all: "guid_value g [0..<8] = g"
proof (rule bit_word_eqI)
  fix n assume n: "n < LENGTH(64)"
  have b: "bit (guid_value g ks) n \<longleftrightarrow> (\<exists>k\<in>set ks. k * 8 \<le> n \<and> n < k * 8 + 8 \<and> bit g n)"
    if "set ks \<subseteq> {..<8}" for ks
    using that n
    by (induction ks) (auto simp: guid_value_def guid_byte_def bit_simps)
  have i: "n div 8 \<in> set [0..<8]" "n div 8 * 8 \<le> n" "n < n div 8 * 8 + 8" using n by auto
  have "set [0..<8] \<subseteq> {..<8}" by auto
  from b [OF this] i show "bit (guid_value g [0..<8]) n \<longleftrightarrow> bit g n" by blast
qed

lemma length_enc_guid: "length (enc_guid g) \<le> 9"
proof -
  have "length (filter P [0..<8]) \<le> length [0..<8]" for P :: "nat \<Rightarrow> bool" by (rule length_filter_le)
  then show ?thesis by (simp add: enc_guid_def guid_payload_def)
qed

lemma pack_guid_enc: "pack_guid_loop g 0 0 [] = (guid_mask g [0..<8], guid_payload g [0..<8])"
  using pack_guid_loop_eq [of 0 g 0 "[]"] by simp

interpretation sguid: streamable bb_append_packGUID bb_read_packGUID enc_guid "\<lambda>_. True"
proof
  show "enc_guid g \<noteq> []" for g by (simp add: enc_guid_def)
  show "bb_append_packGUID g b = Inr (bb_extend (enc_guid g) b)"
    if "bb_ok b" and "bb_size b + length (enc_guid g) \<le> 10000000" for g b
  proof -
    have "bb_append_packGUID g b = bb_append_src (Some (enc_guid g)) (length (enc_guid g)) b"
      by (simp add: bb_append_packGUID_def pack_guid_enc enc_guid_def Let_def)
    also have "\<dots> = Inr (bb_extend (enc_guid g) b)"
      using that length_enc_guid [of g] by (intro bb_append_src_ok) (auto simp: enc_guid_def)
    finally show ?thesis .
  qed
  show "bb_read_packGUID b = Inr (g, bb_advance (length (enc_guid g)) b)"
    if "bb_holds b (enc_guid g)" for g b
  proof -
    let ?m = "guid_mask g [0..<8]"
    have h: "bb_holds b (le_bytes 1 ?m)" "bb_holds (bb_advance 1 b) (guid_payload g [0..<8])"
      using that bb_holds_append [of b "[?m]" "guid_payload g [0..<8]"]
      by (simp_all add: enc_guid_def le_bytes_def)
    have sz: "rpos b + 1 \<le> bb_size b" "bb_size b < 2 ^ 64"
      using bb_holds_size [OF h(1)] h(1) by (simp_all add: le_bytes_def bb_holds_def)
    have "bb_read b = Inr (?m, bb_advance 1 b)" using s8.rd_enc [where x = ?m and b = b] h(1) by simp
    moreover have "\<forall>k\<in>set [0..<8]. bit ?m k \<longleftrightarrow> guid_byte g k \<noteq> 0"
      by (subst bit_guid_mask) auto
    note unpack_guid_loop_enc [OF this h(2), of 0]
    ultimately show ?thesis using sz by (simp add: bb_read_packGUID_def guid_value_all enc_guid_def)
  qed
qed


section \<open>Packed times\<close>

text \<open>
  The C library's \<^verbatim>\<open>struct tm\<close>. \<^verbatim>\<open>localtime_r\<close> and \<^verbatim>\<open>mktime\<close> depend on the
  host's time zone and are parameters.
\<close>

record tm =
  tm_sec :: int
  tm_min :: int
  tm_hour :: int
  tm_mday :: int
  tm_mon :: int
  tm_year :: int
  tm_wday :: int
  tm_yday :: int
  tm_isdst :: int

definition tm_zero :: tm where
  "tm_zero = \<lparr>tm_sec = 0, tm_min = 0, tm_hour = 0, tm_mday = 0, tm_mon = 0, tm_year = 0,
     tm_wday = 0, tm_yday = 0, tm_isdst = 0\<rparr>"

definition pack_tm :: "tm \<Rightarrow> u32" where
  "pack_tm lt = push_bit 24 (word_of_int (tm_year lt - 100)) OR push_bit 20 (word_of_int (tm_mon lt)) OR
     push_bit 14 (word_of_int (tm_mday lt - 1)) OR push_bit 11 (word_of_int (tm_wday lt)) OR
     push_bit 6 (word_of_int (tm_hour lt)) OR word_of_int (tm_min lt)"

definition bb_AppendPackedTime :: "(int \<Rightarrow> tm) \<Rightarrow> int \<Rightarrow> byteBuffer \<Rightarrow> byteBuffer bb" where
  "bb_AppendPackedTime localtime time b = (let lt = localtime time in bb_append (pack_tm lt) b)"

definition unpack_tm :: "u32 \<Rightarrow> tm" where
  "unpack_tm packedDate = tm_zero\<lparr>
     tm_min := uint (packedDate AND 0x3F),
     tm_hour := uint (drop_bit 6 packedDate AND 0x1F),
     tm_mday := uint (drop_bit 14 packedDate AND 0x3F) + 1,
     tm_mon := uint (drop_bit 20 packedDate AND 0xF),
     tm_year := uint (drop_bit 24 packedDate AND 0x1F) + 100\<rparr>"

definition bb_ReadPackedTime :: "(tm \<Rightarrow> int) \<Rightarrow> byteBuffer \<Rightarrow> (u32 \<times> byteBuffer) bb" where
  "bb_ReadPackedTime mktime b =
     bindE (bb_read b) (\<lambda>(packedDate :: u32, b'). Inr (word_of_int (mktime (unpack_tm packedDate)), b'))"

lemma bit_word_of_int_below:
  assumes "0 \<le> i" and "i < 2 ^ m"
  shows "bit (word_of_int i :: 'a::len word) n \<Longrightarrow> n < m"
proof -
  have "take_bit m i = i" using assms by (simp add: take_bit_int_eq_self_iff)
  moreover assume "bit (word_of_int i :: 'a word) n"
  ultimately have "bit (take_bit m i) n" by (simp add: bit_simps)
  then show ?thesis by (simp add: bit_simps)
qed

lemma bit_mask_small:
  "bit (0x3F :: int) n \<longleftrightarrow> n < 6" "bit (0x1F :: int) n \<longleftrightarrow> n < 5" "bit (0xF :: int) n \<longleftrightarrow> n < 4"
proof -
  have "(0x3F :: int) = mask 6" "(0x1F :: int) = mask 5" "(0xF :: int) = mask 4"
    by (simp_all add: mask_eq_exp_minus_1)
  then show "bit (0x3F :: int) n \<longleftrightarrow> n < 6" "bit (0x1F :: int) n \<longleftrightarrow> n < 5" "bit (0xF :: int) n \<longleftrightarrow> n < 4"
    by (simp_all only: bit_mask_iff possible_bit_def) simp_all
qed

definition packable_tm :: "tm \<Rightarrow> bool" where
  "packable_tm t \<longleftrightarrow> 0 \<le> tm_min t \<and> tm_min t < 64 \<and> 0 \<le> tm_hour t \<and> tm_hour t < 32 \<and>
     0 \<le> tm_wday t \<and> tm_wday t < 8 \<and> 1 \<le> tm_mday t \<and> tm_mday t \<le> 64 \<and>
     0 \<le> tm_mon t \<and> tm_mon t < 16 \<and> 100 \<le> tm_year t \<and> tm_year t < 132"

lemma uint_word_of_int_small: "0 \<le> i \<Longrightarrow> i < 2 ^ 32 \<Longrightarrow> uint (word_of_int i :: u32) = i"
  by (simp add: uint_word_of_int)

lemma packed_fields:
  fixes mi ho wd md mo ye :: u32
  assumes mi: "\<And>n. bit mi n \<Longrightarrow> n < 6" and ho: "\<And>n. bit ho n \<Longrightarrow> n < 5"
    and wd: "\<And>n. bit wd n \<Longrightarrow> n < 3" and md: "\<And>n. bit md n \<Longrightarrow> n < 6"
    and mo: "\<And>n. bit mo n \<Longrightarrow> n < 4" and ye: "\<And>n. bit ye n \<Longrightarrow> n < 5"
  defines "p \<equiv> push_bit 24 ye OR push_bit 20 mo OR push_bit 14 md OR push_bit 11 wd OR push_bit 6 ho OR mi"
  shows "p AND 0x3F = mi" and "drop_bit 6 p AND 0x1F = ho" and "drop_bit 14 p AND 0x3F = md"
    and "drop_bit 20 p AND 0xF = mo" and "drop_bit 24 p AND 0x1F = ye"
  by (rule bit_word_eqI; auto simp: p_def bit_simps bit_mask_small dest: mi ho wd md mo ye)+

lemma unpack_pack_tm:
  assumes "packable_tm t"
  shows "unpack_tm (pack_tm t) = t\<lparr>tm_sec := 0, tm_wday := 0, tm_yday := 0, tm_isdst := 0\<rparr>"
proof -
  note b = assms [unfolded packable_tm_def]
  have mi: "bit (word_of_int (tm_min t) :: u32) n \<Longrightarrow> n < 6" for n
    using b bit_word_of_int_below [of "tm_min t" 6 n, where 'a = 32] by simp
  have ho: "bit (word_of_int (tm_hour t) :: u32) n \<Longrightarrow> n < 5" for n
    using b bit_word_of_int_below [of "tm_hour t" 5 n, where 'a = 32] by simp
  have wd: "bit (word_of_int (tm_wday t) :: u32) n \<Longrightarrow> n < 3" for n
    using b bit_word_of_int_below [of "tm_wday t" 3 n, where 'a = 32] by simp
  have md: "bit (word_of_int (tm_mday t - 1) :: u32) n \<Longrightarrow> n < 6" for n
    using b bit_word_of_int_below [of "tm_mday t - 1" 6 n, where 'a = 32] by simp
  have mo: "bit (word_of_int (tm_mon t) :: u32) n \<Longrightarrow> n < 4" for n
    using b bit_word_of_int_below [of "tm_mon t" 4 n, where 'a = 32] by simp
  have ye: "bit (word_of_int (tm_year t - 100) :: u32) n \<Longrightarrow> n < 5" for n
    using b bit_word_of_int_below [of "tm_year t - 100" 5 n, where 'a = 32] by simp
  have f: "pack_tm t AND 0x3F = word_of_int (tm_min t)"
    "drop_bit 6 (pack_tm t) AND 0x1F = word_of_int (tm_hour t)"
    "drop_bit 14 (pack_tm t) AND 0x3F = word_of_int (tm_mday t - 1)"
    "drop_bit 20 (pack_tm t) AND 0xF = word_of_int (tm_mon t)"
    "drop_bit 24 (pack_tm t) AND 0x1F = word_of_int (tm_year t - 100)"
    unfolding pack_tm_def by (rule packed_fields; erule mi ho wd md mo ye)+
  show ?thesis
    unfolding unpack_tm_def f using b
    by (intro tm.equality) (simp_all add: tm_zero_def uint_word_of_int_small del: of_int_diff)
qed

section \<open>Properties of the buffer\<close>

text \<open>
  C38. A guid written packed and read back packed is the same guid, in at most nine bytes,
  and the reader stops exactly where the writer did.
\<close>

theorem packed_guid_roundtrip:
  assumes "bb_ok b" and "bb_size b + 9 \<le> 10000000"
  shows "\<exists>b'. bb_append_packGUID g b = Inr b' \<and> bb_size b' \<le> bb_size b + 9 \<and>
    bb_read_packGUID (b'\<lparr>rpos := bb_size b\<rparr>) = Inr (g, b'\<lparr>rpos := bb_size b'\<rparr>)"
proof -
  have l: "bb_size b + length (enc_guid g) \<le> 10000000" using assms(2) length_enc_guid [of g] by simp
  then have "bb_append_packGUID g b = Inr (bb_extend (enc_guid g) b)"
    using sguid.wr_enc [of b g] assms(1) by simp
  then show ?thesis
    using sguid.value_roundtrip [of b g] assms(1) l length_enc_guid [of g] by auto
qed

theorem packed_guid_roundtrip_witness:
  "\<exists>b'. bb_append_packGUID 0xF130000067830042 bb_new = Inr b' \<and> bb_size b' \<le> bb_size bb_new + 9 \<and>
    bb_read_packGUID (b'\<lparr>rpos := bb_size bb_new\<rparr>) = Inr (0xF130000067830042, b'\<lparr>rpos := bb_size b'\<rparr>)"
  by (rule packed_guid_roundtrip) (simp_all add: bb_new_def bb_ok_def bb_size_def)

text \<open>
  A vector of NUL-free strings written to the buffer is read back as the same vector,
  as long as the buffer stays under the size its own assertion allows.
\<close>

theorem string_vector_roundtrip:
  assumes "\<forall>s\<in>set xs. CHR 0x00 \<notin> set s" and "bb_ok b"
    and "bb_size b + 4 + length (concat (map enc_string xs)) \<le> 10000000"
  shows "\<exists>b'. bb_put_vector bb_put_string xs b = Inr b' \<and> bb_ok b' \<and>
    bb_read_vector bb_read_string (b'\<lparr>rpos := bb_size b\<rparr>) = Inr (xs, b'\<lparr>rpos := bb_size b'\<rparr>)"
  using assms by (intro sstr.vector_roundtrip) (simp_all add: sstr.enc_all_def)

theorem string_vector_roundtrip_witness:
  "\<exists>b'. bb_put_vector bb_put_string [''General'', '''', ''Trade''] bb_new = Inr b' \<and> bb_ok b' \<and>
    bb_read_vector bb_read_string (b'\<lparr>rpos := bb_size bb_new\<rparr>) =
      Inr ([''General'', '''', ''Trade''], b'\<lparr>rpos := bb_size b'\<rparr>)"
  by (rule string_vector_roundtrip) (simp_all add: bb_new_def bb_ok_def bb_size_def enc_string_def)

text \<open>
  A map from NUL-free strings to 32-bit integers survives the buffer: the reader's
  map has exactly the entries the writer was given.
\<close>

theorem string_map_roundtrip:
  assumes "\<forall>(k, v)\<in>set m. CHR 0x00 \<notin> set k" and "wf_store m" and "length m < 2 ^ 32" and "bb_ok b"
    and "bb_size b + 4 + length (concat (map (\<lambda>(k, v :: u32). enc_string k @ le_bytes 4 v) m)) \<le> 10000000"
  shows "\<exists>b'. bb_put_map bb_put_string bb_append m b = Inr b' \<and>
    bb_read_map bb_read_string bb_read (b'\<lparr>rpos := bb_size b\<rparr>) = Inr (map_of m, b'\<lparr>rpos := bb_size b'\<rparr>)"
  using assms by (intro str_u32.map_roundtrip) (auto simp: str_u32.enc_pairs_def)

theorem string_map_roundtrip_witness:
  "\<exists>b'. bb_put_map bb_put_string bb_append [(''a'', 7), (''bc'', 9 :: u32)] bb_new = Inr b' \<and>
    bb_read_map bb_read_string bb_read (b'\<lparr>rpos := bb_size bb_new\<rparr>) =
      Inr (map_of [(''a'', 7), (''bc'', 9 :: u32)], b'\<lparr>rpos := bb_size b'\<rparr>)"
  by (rule string_map_roundtrip) (simp_all add: bb_new_def bb_ok_def bb_size_def enc_string_def)

text \<open>
  A packed time keeps minute, hour, day, month and the years 2000 to 2031; the reader
  hands \<^verbatim>\<open>mktime\<close> the same broken-down time with the seconds dropped.
\<close>

theorem packed_time_roundtrip:
  assumes "packable_tm (localtime time)" and "bb_ok b" and "bb_size b + 4 \<le> 10000000"
  shows "\<exists>b'. bb_AppendPackedTime localtime time b = Inr b' \<and>
    bb_ReadPackedTime mktime (b'\<lparr>rpos := bb_size b\<rparr>) =
      Inr (word_of_int (mktime ((localtime time)\<lparr>tm_sec := 0, tm_wday := 0, tm_yday := 0, tm_isdst := 0\<rparr>)),
           b'\<lparr>rpos := bb_size b'\<rparr>)"
proof -
  let ?p = "pack_tm (localtime time)"
  obtain b' where "bb_append ?p b = Inr b'" "bb_read (b'\<lparr>rpos := bb_size b\<rparr>) = Inr (?p, b'\<lparr>rpos := bb_size b'\<rparr>)"
    using s32.value_roundtrip [of b ?p] assms(2,3) by auto
  then show ?thesis
    by (simp add: bb_AppendPackedTime_def bb_ReadPackedTime_def unpack_pack_tm [OF assms(1)])
qed

theorem packed_time_roundtrip_witness:
  "\<exists>b'. bb_AppendPackedTime (\<lambda>_. tm_zero\<lparr>tm_mday := 3, tm_year := 119, tm_hour := 20\<rparr>) 5 bb_new = Inr b' \<and>
    bb_ReadPackedTime tm_hour (b'\<lparr>rpos := bb_size bb_new\<rparr>) =
      Inr (word_of_int (tm_hour (tm_zero\<lparr>tm_mday := 3, tm_year := 119, tm_hour := 20\<rparr>
             \<lparr>tm_sec := 0, tm_wday := 0, tm_yday := 0, tm_isdst := 0\<rparr>)), b'\<lparr>rpos := bb_size b'\<rparr>)"
  by (rule packed_time_roundtrip [where localtime = "\<lambda>_. tm_zero\<lparr>tm_mday := 3, tm_year := 119, tm_hour := 20\<rparr>"])
    (simp_all add: packable_tm_def tm_zero_def bb_new_def bb_ok_def bb_size_def)

text \<open>
  What a failed read reports: the throw sites pass the value's size where the
  exception's constructor expects the buffer's, so the message states the buffer's size as
  the size of the value and the value's size as the size of the buffer.
\<close>

theorem bb_read_message:
  assumes "bb_bytes_at n pos b = Inl e" and "e \<noteq> OutOfBounds"
  shows "bb_what e = ''Attempted to get value with size: '' @ dec_string (bb_size b) @
    '' in ByteBuffer (pos: '' @ dec_string pos @ '' size: '' @ dec_string n @ '')''"
  using assms by (auto simp: bb_bytes_at_def split: if_splits)

theorem bb_read_message_witness:
  "bb_what (PositionException False 0 4 2) = ''Attempted to get value with size: '' @
    dec_string (bb_size (bb_extend [1, 2] bb_new)) @ '' in ByteBuffer (pos: '' @ dec_string 0 @
    '' size: '' @ dec_string 4 @ '')''"
  by (rule bb_read_message [where b = "bb_extend [1, 2] bb_new"])
    (simp_all add: bb_bytes_at_def bb_extend_def bb_new_def bb_size_def)

text \<open>
  \<^verbatim>\<open>read_skip\<close> compares the wrapped sum: a skip of \<open>2 ^ 64 - k\<close> passes the check
  and moves the read position \<open>k\<close> bytes back.
\<close>

theorem bb_read_skip_wraps:
  assumes "0 < k" and "k \<le> rpos b" and "rpos b \<le> bb_size b" and "bb_size b < 2 ^ 64"
  shows "bb_read_skip (2 ^ 64 - k) b = Inr (b\<lparr>rpos := rpos b - k\<rparr>)"
proof -
  have "rpos b + (2 ^ 64 - k) = (rpos b - k) + 2 ^ 64" using assms by simp
  then have "szadd (rpos b) (2 ^ 64 - k) = (rpos b - k) mod 2 ^ 64"
    unfolding szadd_def by (simp only: mod_add_self2)
  then have "szadd (rpos b) (2 ^ 64 - k) = rpos b - k" using assms by simp
  then show ?thesis using assms by (simp add: bb_read_skip_def)
qed

theorem bb_read_skip_wraps_witness:
  "bb_read_skip (2 ^ 64 - 1) (bb_advance 2 (bb_extend [1, 2] bb_new)) =
    Inr (bb_advance 2 (bb_extend [1, 2] bb_new)\<lparr>rpos := rpos (bb_advance 2 (bb_extend [1, 2] bb_new)) - 1\<rparr>)"
  by (rule bb_read_skip_wraps) (simp_all add: bb_new_def bb_size_def)

end
