(* ===== verification/Timers.thy ===== *)
theory Timers
  imports Prelude "HOL-Library.Signed_Division"
begin

text \<open>
  The timers of src/src/common/Utilities/Timer.h. The clock \<^verbatim>\<open>getMSTime\<close> is an argument.
  \<^verbatim>\<open>time_t\<close> is a signed integer that no caller brings near its limits, and is an \<^typ>\<open>int\<close>;
  the 32-bit timers are words, with the signedness of each comparison the code's.
\<close>

section \<open>Millisecond differences\<close>

definition getMSTimeDiff :: "u32 \<Rightarrow> u32 \<Rightarrow> u32" where
  "getMSTimeDiff oldMSTime newMSTime =
     (if oldMSTime > newMSTime then (0xFFFFFFFF - oldMSTime) + newMSTime
      else newMSTime - oldMSTime)"

definition GetMSTimeDiffToNow :: "u32 \<Rightarrow> u32 \<Rightarrow> u32" where
  "GetMSTimeDiffToNow getMSTime oldMSTime = getMSTimeDiff oldMSTime getMSTime"

section \<open>IntervalTimer\<close>

record intervalTimer =
  it_interval :: int
  it_current :: int

definition it_new :: intervalTimer where
  "it_new = \<lparr>it_interval = 0, it_current = 0\<rparr>"

definition it_Update :: "int \<Rightarrow> intervalTimer \<Rightarrow> intervalTimer" where
  "it_Update diff t =
     (let t = t\<lparr>it_current := it_current t + diff\<rparr>
      in if it_current t < 0 then t\<lparr>it_current := 0\<rparr> else t)"

definition it_Passed :: "intervalTimer \<Rightarrow> bool" where
  "it_Passed t = (it_current t \<ge> it_interval t)"

text \<open>C's \<^verbatim>\<open>%\<close> truncates; with a divisor of zero the program stops: \<^const>\<open>None\<close>.\<close>

definition it_Reset :: "intervalTimer \<Rightarrow> intervalTimer option" where
  "it_Reset t =
     (if it_current t \<ge> it_interval t then
        if it_interval t = 0 then None
        else Some (t\<lparr>it_current := it_current t smod it_interval t\<rparr>)
      else Some t)"

definition it_SetCurrent :: "int \<Rightarrow> intervalTimer \<Rightarrow> intervalTimer" where
  "it_SetCurrent current t = t\<lparr>it_current := current\<rparr>"

definition it_SetInterval :: "int \<Rightarrow> intervalTimer \<Rightarrow> intervalTimer" where
  "it_SetInterval interval t = t\<lparr>it_interval := interval\<rparr>"

definition it_GetInterval :: "intervalTimer \<Rightarrow> int" where "it_GetInterval t = it_interval t"
definition it_GetCurrent :: "intervalTimer \<Rightarrow> int" where "it_GetCurrent t = it_current t"

section \<open>TimeTracker and TimeTrackerSmall\<close>

record timeTracker = tt_expiry :: int

definition tt_new :: "int \<Rightarrow> timeTracker" where "tt_new expiry = \<lparr>tt_expiry = expiry\<rparr>"
definition tt_Update :: "int \<Rightarrow> timeTracker \<Rightarrow> timeTracker" where
  "tt_Update diff t = t\<lparr>tt_expiry := tt_expiry t - diff\<rparr>"
definition tt_Passed :: "timeTracker \<Rightarrow> bool" where "tt_Passed t = (tt_expiry t \<le> 0)"
definition tt_Reset :: "int \<Rightarrow> timeTracker \<Rightarrow> timeTracker" where
  "tt_Reset interval t = t\<lparr>tt_expiry := interval\<rparr>"
definition tt_GetExpiry :: "timeTracker \<Rightarrow> int" where "tt_GetExpiry t = tt_expiry t"

record timeTrackerSmall = ts_expiry :: u32

definition ts_new :: "u32 \<Rightarrow> timeTrackerSmall" where "ts_new expiry = \<lparr>ts_expiry = expiry\<rparr>"
definition ts_Update :: "u32 \<Rightarrow> timeTrackerSmall \<Rightarrow> timeTrackerSmall" where
  "ts_Update diff t = t\<lparr>ts_expiry := ts_expiry t - diff\<rparr>"
definition ts_Passed :: "timeTrackerSmall \<Rightarrow> bool" where "ts_Passed t = (sint (ts_expiry t) \<le> 0)"
definition ts_Reset :: "u32 \<Rightarrow> timeTrackerSmall \<Rightarrow> timeTrackerSmall" where
  "ts_Reset interval t = t\<lparr>ts_expiry := interval\<rparr>"
definition ts_GetExpiry :: "timeTrackerSmall \<Rightarrow> int" where "ts_GetExpiry t = sint (ts_expiry t)"

section \<open>PeriodicTimer\<close>

record periodicTimer =
  pt_period :: u32
  pt_expireTime :: u32

definition pt_new :: "u32 \<Rightarrow> u32 \<Rightarrow> periodicTimer" where
  "pt_new period start_time = \<lparr>pt_period = period, pt_expireTime = start_time\<rparr>"

definition pt_Update :: "u32 \<Rightarrow> periodicTimer \<Rightarrow> bool \<times> periodicTimer" where
  "pt_Update diff t =
     (let t = t\<lparr>pt_expireTime := pt_expireTime t - diff\<rparr>
      in if sint (pt_expireTime t) > 0 then (False, t)
         else (True, t\<lparr>pt_expireTime := pt_expireTime t +
                (if sint (pt_period t) > sint diff then pt_period t else diff)\<rparr>))"

definition pt_SetPeriodic :: "u32 \<Rightarrow> u32 \<Rightarrow> periodicTimer \<Rightarrow> periodicTimer" where
  "pt_SetPeriodic period start_time t = t\<lparr>pt_expireTime := start_time, pt_period := period\<rparr>"

definition pt_TUpdate :: "u32 \<Rightarrow> periodicTimer \<Rightarrow> periodicTimer" where
  "pt_TUpdate diff t = t\<lparr>pt_expireTime := pt_expireTime t - diff\<rparr>"
definition pt_TPassed :: "periodicTimer \<Rightarrow> bool" where
  "pt_TPassed t = (sint (pt_expireTime t) \<le> 0)"
definition pt_TReset :: "u32 \<Rightarrow> u32 \<Rightarrow> periodicTimer \<Rightarrow> periodicTimer" where
  "pt_TReset diff period t = t\<lparr>pt_expireTime := pt_expireTime t +
     (if sint period > sint diff then period else diff)\<rparr>"

text \<open>A run of \<^verbatim>\<open>Update\<close> calls: how often it fired, and the timer afterwards.\<close>

fun pt_run :: "u32 list \<Rightarrow> periodicTimer \<Rightarrow> nat \<times> periodicTimer" where
  "pt_run [] t = (0, t)"
| "pt_run (d # ds) t =
     (case pt_Update d t of (fired, t) \<Rightarrow>
        case pt_run ds t of (n, t) \<Rightarrow> ((if fired then n + 1 else n), t))"

fun it_run :: "int list \<Rightarrow> intervalTimer \<Rightarrow> (nat \<times> intervalTimer) option" where
  "it_run [] t = Some (0, t)"
| "it_run (d # ds) t =
     (let t = it_Update d t
      in if it_Passed t then
           (case it_Reset t of None \<Rightarrow> None
            | Some t \<Rightarrow> map_option (\<lambda>(n, t). (n + 1, t)) (it_run ds t))
         else it_run ds t)"

section \<open>Signed arithmetic on 32-bit words without overflow\<close>

lemma signed_take_bit_small: "- (2 ^ 31) \<le> i \<Longrightarrow> i < 2 ^ 31 \<Longrightarrow> signed_take_bit 31 (i :: int) = i"
  by (rule signed_take_bit_int_eq_self) simp_all

lemma sint_diff_small:
  fixes a b :: u32
  assumes "- (2 ^ 31) \<le> sint a - sint b" "sint a - sint b < 2 ^ 31"
  shows "sint (a - b) = sint a - sint b"
  using assms by (simp add: sint_word_ariths signed_take_bit_small)

lemma sint_add_small:
  fixes a b :: u32
  assumes "- (2 ^ 31) \<le> sint a + sint b" "sint a + sint b < 2 ^ 31"
  shows "sint (a + b) = sint a + sint b"
  using assms by (simp add: sint_word_ariths signed_take_bit_small)

lemma sint_u32_bounds: "sint (a :: u32) < 2 ^ 31" "- (2 ^ 31) \<le> sint (a :: u32)"
  using sint_lt [of a] sint_ge [of a] by simp_all

section \<open>Properties\<close>

text \<open>
  The difference of two clock readings is the elapsed time modulo \<open>2 ^ 32\<close>, except in
  the tick where the clock wrapped: there it is one millisecond short.
\<close>

theorem ms_time_diff:
  "getMSTimeDiff oldMSTime (oldMSTime + elapsed) =
    (if oldMSTime + elapsed < oldMSTime then elapsed - 1 else elapsed)"
  by (auto simp: getMSTimeDiff_def not_less)

lemma it_step:
  assumes "0 < it_interval t" "0 \<le> it_current t" "it_current t < it_interval t" "0 \<le> d"
  shows "it_Reset (it_Update d t) = Some (t\<lparr>it_current := (it_current t + d) mod it_interval t\<rparr>)"
  using assms by (simp add: it_Reset_def it_Update_def signed_modulo_int_def sgn_if)

text \<open>
  An interval timer driven by \<^verbatim>\<open>Update\<close>, \<^verbatim>\<open>Passed\<close> and \<^verbatim>\<open>Reset\<close> keeps its phase:
  with a positive interval and non-negative steps no run divides by zero, the elapsed time
  is a whole number of intervals plus what the timer shows, and when no step is longer than
  the interval it passed exactly that many times.
\<close>

theorem interval_timer_phase:
  assumes "0 < it_interval t" "0 \<le> it_current t" "it_current t < it_interval t" "\<forall>d\<in>set ds. 0 \<le> d"
  shows "\<exists>n k t'. it_run ds t = Some (n, t') \<and> 0 \<le> it_current t' \<and> it_current t' < it_interval t' \<and>
    it_interval t' = it_interval t \<and> int n \<le> k \<and>
    it_current t + sum_list ds = k * it_interval t + it_current t' \<and>
    ((\<forall>d\<in>set ds. d \<le> it_interval t) \<longrightarrow> k = int n)"
  using assms
proof (induction ds arbitrary: t)
  case Nil
  then show ?case by (intro exI [of _ 0] exI [of _ t]) simp
next
  case (Cons d ds)
  let ?i = "it_interval t" and ?c = "it_current t + d"
  let ?t = "t\<lparr>it_current := ?c mod ?i\<rparr>"
  have d: "0 \<le> d" using Cons.prems by simp
  obtain n k t' where run: "it_run ds ?t = Some (n, t')" and t': "0 \<le> it_current t'"
      "it_current t' < it_interval t'" "it_interval t' = ?i" "int n \<le> k"
    and sum: "?c mod ?i + sum_list ds = k * ?i + it_current t'"
    and exact: "(\<forall>d\<in>set ds. d \<le> ?i) \<longrightarrow> k = int n"
    using Cons.IH [of ?t] Cons.prems by fastforce
  show ?case
  proof (cases "it_Passed (it_Update d t)")
    case True
    then have ge: "?i \<le> ?c" using d Cons.prems by (simp add: it_Passed_def it_Update_def)
    then have "1 \<le> ?c div ?i" using Cons.prems by (simp add: pos_imp_zdiv_pos_iff int_one_le_iff_zero_less)
    moreover have "d \<le> ?i \<Longrightarrow> ?c div ?i = 1"
      using ge Cons.prems by (intro int_div_pos_eq [where r = "?c - ?i"]) auto
    moreover have "?c = ?c div ?i * ?i + ?c mod ?i" by simp
    then have "it_current t + sum_list (d # ds) = (k + ?c div ?i) * ?i + it_current t'"
      using sum by (simp only: distrib_right sum_list.Cons)
    ultimately show ?thesis
      using run t' exact True it_step [OF Cons.prems(1-3) d]
      by (intro exI [of _ "n + 1"] exI [of _ "k + ?c div ?i"] exI [of _ t']) (auto simp: Let_def)
  next
    case False
    then have "it_Update d t = ?t" "?c mod ?i = ?c"
      using d Cons.prems by (auto simp: it_Passed_def it_Update_def)
    then show ?thesis using run t' exact False sum
      by (intro exI [of _ n] exI [of _ k] exI [of _ t']) (auto simp: Let_def)
  qed
qed

theorem interval_timer_phase_witness:
  "\<exists>n k t'. it_run [400, 700, 0, 950] (it_SetInterval 1000 it_new) = Some (n, t') \<and>
    0 \<le> it_current t' \<and> it_current t' < it_interval t' \<and>
    it_interval t' = it_interval (it_SetInterval 1000 it_new) \<and> int n \<le> k \<and>
    it_current (it_SetInterval 1000 it_new) + sum_list [400, 700, 0, 950] =
      k * it_interval (it_SetInterval 1000 it_new) + it_current t' \<and>
    ((\<forall>d\<in>set [400, 700, 0, 950]. d \<le> it_interval (it_SetInterval 1000 it_new)) \<longrightarrow> k = int n)"
  by (rule interval_timer_phase) (simp_all add: it_SetInterval_def it_new_def)

lemma pt_step:
  assumes "0 < sint (pt_expireTime t)" "0 \<le> sint d" "sint d \<le> sint (pt_period t)"
  shows "fst (pt_Update d t) \<longleftrightarrow> sint (pt_expireTime t) \<le> sint d"
    and "sint (pt_expireTime (snd (pt_Update d t))) = sint (pt_expireTime t) - sint d +
      (if sint (pt_expireTime t) \<le> sint d then sint (pt_period t) else 0)"
    and "pt_period (snd (pt_Update d t)) = pt_period t"
proof -
  note b = sint_u32_bounds [of "pt_expireTime t"] sint_u32_bounds [of d] sint_u32_bounds [of "pt_period t"]
  have s: "sint (pt_expireTime t - d) = sint (pt_expireTime t) - sint d"
    using assms b by (intro sint_diff_small) linarith+
  then show "fst (pt_Update d t) \<longleftrightarrow> sint (pt_expireTime t) \<le> sint d"
    by (auto simp: pt_Update_def Let_def)
  have m: "sint (if sint (pt_period t) > sint d then pt_period t else d) = sint (pt_period t)"
    using assms(3) by auto
  have "sint (pt_expireTime t) \<le> sint d \<Longrightarrow>
      sint (pt_expireTime t - d + (if sint (pt_period t) > sint d then pt_period t else d)) =
      sint (pt_expireTime t) - sint d + sint (pt_period t)"
    using assms b by (subst sint_add_small; (unfold m s)?; linarith)
  then show "sint (pt_expireTime (snd (pt_Update d t))) = sint (pt_expireTime t) - sint d +
      (if sint (pt_expireTime t) \<le> sint d then sint (pt_period t) else 0)"
    using s by (auto simp: pt_Update_def Let_def)
  show "pt_period (snd (pt_Update d t)) = pt_period t" by (auto simp: pt_Update_def Let_def)
qed

text \<open>
  A periodic timer does not drift: while no step exceeds the period, the firings so
  far account for the elapsed time up to the time left, which stays positive.
\<close>

theorem periodic_timer_no_drift:
  assumes "0 < sint (pt_expireTime t)" "\<forall>d\<in>set ds. 0 \<le> sint d \<and> sint d \<le> sint (pt_period t)"
    and "pt_run ds t = (n, t')"
  shows "0 < sint (pt_expireTime t') \<and>
    sum_list (map sint ds) + sint (pt_expireTime t') = sint (pt_expireTime t) + int n * sint (pt_period t)"
  using assms
proof (induction ds arbitrary: t n)
  case Nil
  then show ?case by simp
next
  case (Cons d ds)
  obtain f u where u: "pt_Update d t = (f, u)" by fastforce
  obtain m where m: "pt_run ds u = (m, t')" and n: "n = (if f then m + 1 else m)"
    using Cons.prems(3) u by (auto split: prod.splits)
  note st = pt_step [OF Cons.prems(1), of d, unfolded u fst_conv snd_conv]
  have d: "0 \<le> sint d" "sint d \<le> sint (pt_period t)" using Cons.prems(2) by auto
  have "0 < sint (pt_expireTime u)" using st(2) [OF d] d Cons.prems(1) by auto
  moreover have "\<forall>d\<in>set ds. 0 \<le> sint d \<and> sint d \<le> sint (pt_period u)"
    using Cons.prems(2) st(3) [OF d] by auto
  ultimately have "0 < sint (pt_expireTime t') \<and> sum_list (map sint ds) + sint (pt_expireTime t') =
      sint (pt_expireTime u) + int m * sint (pt_period u)"
    using Cons.IH m by blast
  then show ?case using st [OF d] n by (auto simp: algebra_simps)
qed

theorem periodic_timer_no_drift_witness:
  "0 < sint (pt_expireTime (pt_new 100 90)) \<and>
    sum_list (map sint [50, 60, 100 :: u32]) + sint (pt_expireTime (pt_new 100 90)) =
      sint (pt_expireTime (pt_new 100 100)) + int 2 * sint (pt_period (pt_new 100 100))"
  by (rule periodic_timer_no_drift) (simp_all add: pt_new_def pt_Update_def)

end
