(* ===== verification/Multimap.thy ===== *)
theory Multimap
  imports Prelude
begin

text \<open>
  \<^verbatim>\<open>std::multimap\<close> as the code uses it for its timed queues: the entries in iteration
  order, ascending by key, an inserted entry after those of the same key. The contract the
  schedulers rely on is the locale \<open>timed_queue\<close>; the list implementation satisfies it.
\<close>

type_synonym ('k, 'v) multimap = "('k \<times> 'v) list"

definition mm_insert :: "'k::linorder \<Rightarrow> 'v \<Rightarrow> ('k, 'v) multimap \<Rightarrow> ('k, 'v) multimap" where
  "mm_insert k v m = takeWhile (\<lambda>e. fst e \<le> k) m @ (k, v) # dropWhile (\<lambda>e. fst e \<le> k) m"

definition mm_insert_all :: "('k::linorder, 'v) multimap \<Rightarrow> ('k, 'v) multimap \<Rightarrow> ('k, 'v) multimap" where
  "mm_insert_all es m = foldl (\<lambda>m (k, v). mm_insert k v m) m es"

text \<open>\<^verbatim>\<open>erase\<close> at the iterator that stands at position \<open>i\<close>.\<close>

definition mm_erase_at :: "nat \<Rightarrow> ('k, 'v) multimap \<Rightarrow> ('k, 'v) multimap" where
  "mm_erase_at i m = take i m @ drop (Suc i) m"

text \<open>The loop \<^verbatim>\<open>if (p(*itr)) erase(itr++); else ++itr;\<close> over the whole map.\<close>

fun mm_erase_if :: "('k \<times> 'v \<Rightarrow> bool) \<Rightarrow> ('k, 'v) multimap \<Rightarrow> ('k, 'v) multimap" where
  "mm_erase_if p [] = []"
| "mm_erase_if p (e # m) = (if p e then mm_erase_if p m else e # mm_erase_if p m)"

lemma mm_erase_if_filter [simp]: "mm_erase_if p m = filter (\<lambda>e. \<not> p e) m"
  by (induction m) auto

text \<open>The same loop when it goes back to the beginning after each erase.\<close>

function mm_erase_restart :: "('k \<times> 'v \<Rightarrow> bool) \<Rightarrow> nat \<Rightarrow> ('k, 'v) multimap \<Rightarrow> ('k, 'v) multimap" where
  "mm_erase_restart p i m =
     (if i < length m then
        if p (m ! i) then mm_erase_restart p 0 (mm_erase_at i m) else mm_erase_restart p (i + 1) m
      else m)"
  by pat_completeness auto
termination
  by (relation "measures [\<lambda>(p, i, m). length m, \<lambda>(p, i, m). length m - i]")
    (auto simp: mm_erase_at_def)

declare mm_erase_restart.simps [simp del]

lemma filter_erase_at: "i < length m \<Longrightarrow> p (m ! i) \<Longrightarrow> filter (\<lambda>e. \<not> p e) (mm_erase_at i m) = filter (\<lambda>e. \<not> p e) m"
  by (subst (2) id_take_nth_drop [of i m]) (simp_all add: mm_erase_at_def)

lemma mm_erase_restart_filter:
  "(\<forall>e\<in>set (take i m). \<not> p e) \<Longrightarrow> mm_erase_restart p i m = filter (\<lambda>e. \<not> p e) m"
proof (induction p i m rule: mm_erase_restart.induct)
  case (1 p i m)
  show ?case
  proof (cases "i < length m")
    case True
    show ?thesis
    proof (cases "p (m ! i)")
      case pi: True
      then have "mm_erase_restart p i m = mm_erase_restart p 0 (mm_erase_at i m)"
        using True by (subst mm_erase_restart.simps) simp
      then show ?thesis using 1(1) [OF True pi] filter_erase_at [of i m p] True pi by simp
    next
      case False
      then have "\<forall>e\<in>set (take (i + 1) m). \<not> p e"
        using "1.prems" True by (simp add: take_Suc_conv_app_nth)
      moreover have "mm_erase_restart p i m = mm_erase_restart p (i + 1) m"
        using True False by (subst mm_erase_restart.simps) simp
      ultimately show ?thesis using 1(2) [OF True False] by simp
    qed
  next
    case False
    then have "take i m = m" by simp
    then show ?thesis using "1.prems" False by (subst mm_erase_restart.simps) simp
  qed
qed

section \<open>The contract\<close>

locale timed_queue =
  fixes ins :: "'k::linorder \<Rightarrow> 'v \<Rightarrow> 'q \<Rightarrow> 'q" and entries :: "'q \<Rightarrow> ('k \<times> 'v) list"
  assumes ins_mset: "mset (entries (ins k v q)) = add_mset (k, v) (mset (entries q))"
    and ins_sorted: "sorted (map fst (entries q)) \<Longrightarrow> sorted (map fst (entries (ins k v q)))"
    and ins_stable: "sorted (map fst (entries q)) \<Longrightarrow>
      filter (\<lambda>e. fst e \<le> t) (entries (ins k v q)) =
        filter (\<lambda>e. fst e \<le> min t k) (entries q) @
        (if k \<le> t then (k, v) # filter (\<lambda>e. k < fst e \<and> fst e \<le> t) (entries q) else [])"
begin

definition wf :: "'q \<Rightarrow> bool" where
  "wf q = sorted (map fst (entries q))"

text \<open>The entries that are due at \<open>t\<close>, in the order they are taken.\<close>

definition due :: "'k \<Rightarrow> 'q \<Rightarrow> ('k \<times> 'v) list" where
  "due t q = takeWhile (\<lambda>e. fst e \<le> t) (entries q)"

lemma due_filter:
  assumes "wf q" shows "due t q = filter (\<lambda>e. fst e \<le> t) (entries q)"
proof -
  have "sorted (map fst es) \<Longrightarrow> takeWhile (\<lambda>e. fst e \<le> t) es = filter (\<lambda>e. fst e \<le> t) es"
    for es :: "('k \<times> 'v) list"
    by (induction es) (auto intro!: filter_False [symmetric])
  with assms show ?thesis by (simp add: due_def wf_def)
qed

lemma wf_ins: "wf q \<Longrightarrow> wf (ins k v q)"
  by (simp add: wf_def ins_sorted)

lemma set_ins: "set (entries (ins k v q)) = insert (k, v) (set (entries q))"
  using arg_cong [OF ins_mset, of set_mset] by simp

lemma due_ins_later: "wf q \<Longrightarrow> t < k \<Longrightarrow> due t (ins k v q) = due t q"
  by (simp add: due_filter wf_ins) (auto simp: ins_stable wf_def min_def)

lemma due_ins:
  assumes "wf q" "k \<le> t"
  shows "due t (ins k v q) = due k q @ (k, v) # filter (\<lambda>e. k < fst e \<and> fst e \<le> t) (entries q)"
  using assms by (simp add: due_filter wf_ins) (simp add: ins_stable wf_def min_def)

lemma hd_due: "wf q \<Longrightarrow> entries q = e # es \<Longrightarrow> f \<in> set (entries q) \<Longrightarrow> fst e \<le> fst f"
  by (auto simp: wf_def)

lemma size_ins: "length (entries (ins k v q)) = Suc (length (entries q))"
  by (metis ins_mset size_add_mset size_mset)

end

lemma mm_insert_sorted: "sorted (map fst m) \<Longrightarrow> sorted (map fst (mm_insert k v m))"
proof (induction m)
  case Nil
  then show ?case by (simp add: mm_insert_def)
next
  case (Cons e m)
  then have IH: "sorted (map fst (mm_insert k v m))" by simp
  have "set m = set (takeWhile (\<lambda>e. fst e \<le> k) m) \<union> set (dropWhile (\<lambda>e. fst e \<le> k) m)"
    by (metis set_append takeWhile_dropWhile_id)
  then have s: "set (mm_insert k v m) = insert (k, v) (set m)" by (simp add: mm_insert_def)
  show ?case
  proof (cases "fst e \<le> k")
    case True
    then have "mm_insert k v (e # m) = e # mm_insert k v m" by (simp add: mm_insert_def)
    with True Cons.prems IH s show ?thesis by auto
  next
    case False
    with Cons.prems show ?thesis by (auto simp: mm_insert_def)
  qed
qed

lemma sorted_span:
  "sorted (map fst m) \<Longrightarrow> takeWhile (\<lambda>e. fst e \<le> k) m = filter (\<lambda>e. fst e \<le> k) m \<and>
    dropWhile (\<lambda>e. fst e \<le> k) m = filter (\<lambda>e. k < fst e) m"
  by (induction m) (auto intro!: filter_False [symmetric] filter_True [symmetric])

lemma mm_insert_filter:
  "sorted (map fst m) \<Longrightarrow> mm_insert k v m = filter (\<lambda>e. fst e \<le> k) m @ (k, v) # filter (\<lambda>e. k < fst e) m"
  by (simp add: mm_insert_def sorted_span)

lemma sorted_split:
  "sorted (map fst m) \<Longrightarrow> filter (\<lambda>e. fst e \<le> k) m @ filter (\<lambda>e. k < fst e) m = m"
  by (metis sorted_span takeWhile_dropWhile_id)

lemma mm_filter_insert:
  assumes "sorted (map fst m)"
  shows "filter p (mm_insert k v m) = (if p (k, v) then mm_insert k v (filter p m) else filter p m)"
proof (cases "p (k, v)")
  case True
  have "sorted (map fst (filter p m))" using assms by (rule sorted_filter)
  with True show ?thesis by (simp add: mm_insert_filter assms conj_commute)
next
  case False
  then have "filter p (mm_insert k v m) = filter p (filter (\<lambda>e. fst e \<le> k) m @ filter (\<lambda>e. k < fst e) m)"
    by (simp add: mm_insert_filter assms)
  with False show ?thesis by (simp only: sorted_split [OF assms] if_False)
qed

interpretation mm: timed_queue "mm_insert :: 'k::linorder \<Rightarrow> 'v \<Rightarrow> _" "\<lambda>m. m"
proof (unfold_locales, goal_cases)
  case (1 k v q)
  have "mset (takeWhile (\<lambda>e. fst e \<le> k) q) + mset (dropWhile (\<lambda>e. fst e \<le> k) q) = mset q"
    by (simp flip: mset_append)
  then show ?case by (simp add: mm_insert_def)
next
  case (2 q k v)
  then show ?case by (rule mm_insert_sorted)
next
  case (3 q t k v)
  have "(\<lambda>e :: 'k \<times> 'v. fst e \<le> k \<and> fst e \<le> t) = (\<lambda>e. fst e \<le> min t k)" by auto
  moreover have "\<not> k \<le> t \<Longrightarrow> filter (\<lambda>e. fst e \<le> t \<and> k < fst e) q = []"
    by (auto simp: filter_empty_conv)
  ultimately show ?case
    by (auto simp: mm_insert_filter [OF 3] conj_commute min_def)
qed

end
