(* ===== verification/EventProc.thy ===== *)
theory EventProc
  imports Multimap
begin

text \<open>
  The event processor, src/src/common/Utilities/EventProcessor.h and EventProcessor.cpp:
  a timed queue of pointers to events. Events live in a heap, so that a deleted event is
  gone; touching one is an error. The virtual methods of an event are a parameter:
  \<^verbatim>\<open>Execute\<close> may change the whole processor, the queue included; \<^verbatim>\<open>Abort\<close> changes what
  the processor does not own (the overrides cancel a spell or do nothing).
\<close>

record basicEvent =
  to_Abort :: bool
  m_addTime :: u64
  m_execTime :: u64

definition BasicEvent :: basicEvent where
  "BasicEvent = \<lparr>to_Abort = False, m_addTime = 0, m_execTime = 0\<rparr>"

type_synonym eventList = "(u64, nat) multimap"

record 'w eventProcessor =
  m_time :: u64
  m_events :: eventList
  m_aborting :: bool
  ep_heap :: "nat \<rightharpoonup> basicEvent"
  ep_world :: 'w

datatype ep_error = DanglingEvent nat

record 'w handlers =
  hExecute :: "nat \<Rightarrow> u64 \<Rightarrow> u32 \<Rightarrow> 'w eventProcessor \<Rightarrow> bool \<times> 'w eventProcessor"
  hAbort :: "nat \<Rightarrow> u64 \<Rightarrow> 'w \<Rightarrow> 'w"
  hIsDeletable :: "nat \<Rightarrow> 'w \<Rightarrow> bool"

text \<open>The virtual methods of the base class.\<close>

definition base_handlers :: "'w handlers" where
  "base_handlers = \<lparr>hExecute = \<lambda>ev e_time p_time ep. (True, ep),
     hAbort = \<lambda>ev e_time w. w, hIsDeletable = \<lambda>ev w. True\<rparr>"

section \<open>Operations\<close>

definition ep_new :: "(nat \<rightharpoonup> basicEvent) \<Rightarrow> 'w \<Rightarrow> 'w eventProcessor" where
  "ep_new heap w = \<lparr>m_time = 0, m_events = [], m_aborting = False, ep_heap = heap, ep_world = w\<rparr>"

definition ep_AddEvent :: "nat \<Rightarrow> u64 \<Rightarrow> bool \<Rightarrow> 'w eventProcessor \<Rightarrow> ep_error + 'w eventProcessor" where
  "ep_AddEvent ev e_time set_addtime ep =
     (case ep_heap ep ev of
        None \<Rightarrow> Inl (DanglingEvent ev)
      | Some e \<Rightarrow>
          let e = (if set_addtime then e\<lparr>m_addTime := m_time ep\<rparr> else e);
              e = e\<lparr>m_execTime := e_time\<rparr>
          in Inr (ep\<lparr>ep_heap := (ep_heap ep)(ev \<mapsto> e),
                     m_events := mm_insert e_time ev (m_events ep)\<rparr>))"

definition ep_delete :: "nat \<Rightarrow> 'w eventProcessor \<Rightarrow> ep_error + 'w eventProcessor" where
  "ep_delete ev ep =
     (if ep_heap ep ev = None then Inl (DanglingEvent ev)
      else Inr (ep\<lparr>ep_heap := (ep_heap ep)(ev := None)\<rparr>))"

text \<open>One turn of the loop of \<^verbatim>\<open>Update\<close>, for the event just taken from the queue.\<close>

definition ep_dispatch :: "'w handlers \<Rightarrow> u32 \<Rightarrow> nat \<Rightarrow> 'w eventProcessor \<Rightarrow> ep_error + 'w eventProcessor" where
  "ep_dispatch H p_time ev ep =
     (case ep_heap ep ev of
        None \<Rightarrow> Inl (DanglingEvent ev)
      | Some e \<Rightarrow>
          if \<not> to_Abort e then
            (case hExecute H ev (m_time ep) p_time ep of (fin, ep') \<Rightarrow>
               if fin then ep_delete ev ep' else Inr ep')
          else ep_delete ev (ep\<lparr>ep_world := hAbort H ev (m_time ep) (ep_world ep)\<rparr>))"

text \<open>The loop itself: \<^const>\<open>None\<close> is not returning.\<close>

partial_function (option) ep_loop ::
    "'w handlers \<Rightarrow> u32 \<Rightarrow> 'w eventProcessor \<Rightarrow> (ep_error + 'w eventProcessor) option" where
  "ep_loop H p_time ep =
     (case m_events ep of
        [] \<Rightarrow> Some (Inr ep)
      | e # es \<Rightarrow>
          if fst e \<le> m_time ep then
            (case ep_dispatch H p_time (snd e) (ep\<lparr>m_events := es\<rparr>) of
               Inl err \<Rightarrow> Some (Inl err)
             | Inr ep' \<Rightarrow> ep_loop H p_time ep')
          else Some (Inr ep))"

definition ep_Update :: "'w handlers \<Rightarrow> u32 \<Rightarrow> 'w eventProcessor \<Rightarrow> (ep_error + 'w eventProcessor) option" where
  "ep_Update H p_time ep = ep_loop H p_time (ep\<lparr>m_time := m_time ep + ucast p_time\<rparr>)"

text \<open>The loop of \<^verbatim>\<open>KillAllEvents\<close>: the entries it leaves in the queue, and the processor.\<close>

fun ep_kill_loop :: "'w handlers \<Rightarrow> bool \<Rightarrow> eventList \<Rightarrow> 'w eventProcessor \<Rightarrow>
    ep_error + eventList \<times> 'w eventProcessor" where
  "ep_kill_loop H force [] ep = Inr ([], ep)"
| "ep_kill_loop H force ((k, ev) # es) ep =
     (case ep_heap ep ev of
        None \<Rightarrow> Inl (DanglingEvent ev)
      | Some e \<Rightarrow>
          let ep = ep\<lparr>ep_heap := (ep_heap ep)(ev \<mapsto> e\<lparr>to_Abort := True\<rparr>),
                      ep_world := hAbort H ev (m_time ep) (ep_world ep)\<rparr>
          in if force \<or> hIsDeletable H ev (ep_world ep) then
               bindE (ep_delete ev ep) (\<lambda>ep. bindE (ep_kill_loop H force es ep) (\<lambda>(kept, ep).
                 Inr (if \<not> force then kept else (k, ev) # kept, ep)))
             else bindE (ep_kill_loop H force es ep) (\<lambda>(kept, ep). Inr ((k, ev) # kept, ep)))"

definition ep_KillAllEvents :: "'w handlers \<Rightarrow> bool \<Rightarrow> 'w eventProcessor \<Rightarrow> ep_error + 'w eventProcessor" where
  "ep_KillAllEvents H force ep =
     (let ep = ep\<lparr>m_aborting := True\<rparr>
      in bindE (ep_kill_loop H force (m_events ep) ep) (\<lambda>(kept, ep).
           Inr (if force then ep\<lparr>m_events := []\<rparr> else ep\<lparr>m_events := kept\<rparr>)))"

definition ep_destroy :: "'w handlers \<Rightarrow> 'w eventProcessor \<Rightarrow> ep_error + 'w eventProcessor" where
  "ep_destroy H ep = ep_KillAllEvents H True ep"

definition CalculateTime :: "u64 \<Rightarrow> 'w eventProcessor \<Rightarrow> u64" where
  "CalculateTime t_offset ep = m_time ep + t_offset"

text \<open>\<^verbatim>\<open>% delay\<close> stops the program when the delay is zero.\<close>

definition CalculateQueueTime :: "u64 \<Rightarrow> 'w eventProcessor \<Rightarrow> u64 option" where
  "CalculateQueueTime delay ep =
     (if delay = 0 then None else Some (CalculateTime (delay - (m_time ep mod delay)) ep))"

section \<open>Well-formed processors\<close>

text \<open>The queue is sorted, and the events in it are alive and queued once.\<close>

definition ep_wf :: "'w eventProcessor \<Rightarrow> bool" where
  "ep_wf ep \<longleftrightarrow> sorted (map fst (m_events ep)) \<and> distinct (map snd (m_events ep)) \<and>
     (\<forall>ev\<in>snd ` set (m_events ep). ep_heap ep ev \<noteq> None)"

definition ep_due :: "'w eventProcessor \<Rightarrow> eventList" where
  "ep_due ep = filter (\<lambda>e. fst e \<le> m_time ep) (m_events ep)"

lemma ep_due_eq: "ep_wf ep \<Longrightarrow> ep_due ep = mm.due (m_time ep) (m_events ep)"
  by (simp add: ep_due_def ep_wf_def mm.due_filter mm.wf_def)

lemma ep_new_wf [simp]: "ep_wf (ep_new heap w)"
  by (simp add: ep_wf_def ep_new_def)

lemma mm_insert_values: "set (mm_insert k v m) = insert (k, v) (set m)"
  by (rule mm.set_ins)

lemma ep_AddEvent_wf:
  assumes "ep_wf ep" "ev \<notin> snd ` set (m_events ep)" "ep_AddEvent ev t s ep = Inr ep'"
  shows "ep_wf ep'"
proof -
  have "mset (map snd (mm_insert t ev (m_events ep))) = mset (ev # map snd (m_events ep))"
    using arg_cong [OF mm.ins_mset [of t ev "m_events ep"], of "image_mset snd"] by simp
  then have "distinct (map snd (mm_insert t ev (m_events ep)))"
    using mset_eq_imp_distinct_iff assms(1,2) by (fastforce simp: ep_wf_def)
  then show ?thesis using assms mm_insert_sorted
    by (force simp: ep_wf_def ep_AddEvent_def Let_def mm_insert_values split: option.splits)
qed

section \<open>Serving a list of events\<close>

text \<open>
  What \<^verbatim>\<open>Update\<close> is to do with the events of a list: each is taken from the queue; one marked for it is
  aborted, any other is executed, and it is freed unless its handler reports that it is not finished.
\<close>

fun ep_serve :: "'w handlers \<Rightarrow> u32 \<Rightarrow> eventList \<Rightarrow> 'w eventProcessor \<Rightarrow> 'w eventProcessor" where
  "ep_serve H p [] ep = ep"
| "ep_serve H p (e # es) ep =
     (let ep = ep\<lparr>m_events := remove1 e (m_events ep)\<rparr>;
          (fin, ep) = (if to_Abort (the (ep_heap ep (snd e)))
            then (True, ep\<lparr>ep_world := hAbort H (snd e) (m_time ep) (ep_world ep)\<rparr>)
            else hExecute H (snd e) (m_time ep) p ep)
      in ep_serve H p es (if fin then ep\<lparr>ep_heap := (ep_heap ep)(snd e := None)\<rparr> else ep))"

section \<open>Handlers that schedule only for later\<close>

text \<open>
  What \<^verbatim>\<open>Update\<close> needs of the virtual \<^verbatim>\<open>Execute\<close> to return: it keeps the clock and the
  queue well formed, what it schedules lies after the current time, and an event it reports
  finished is still alive and not queued again.
\<close>

locale later_handlers =
  fixes H :: "'w handlers" and p :: u32
  assumes exec: "ep_wf ep \<Longrightarrow> ep_heap ep ev \<noteq> None \<Longrightarrow> ev \<notin> snd ` set (m_events ep) \<Longrightarrow>
    hExecute H ev (m_time ep) p ep = (fin, ep') \<Longrightarrow>
    ep_wf ep' \<and> m_time ep' = m_time ep \<and> ep_due ep' = ep_due ep \<and>
    (fin \<longrightarrow> ep_heap ep' ev \<noteq> None \<and> ev \<notin> snd ` set (m_events ep'))"
begin

lemma dispatch:
  assumes "ep_wf ep" "ep_heap ep ev \<noteq> None" "ev \<notin> snd ` set (m_events ep)"
  obtains ep' where "ep_dispatch H p ev ep = Inr ep'" "ep_wf ep'" "m_time ep' = m_time ep" "ep_due ep' = ep_due ep"
proof -
  obtain e where e: "ep_heap ep ev = Some e" using assms(2) by auto
  obtain fin ep1 where x: "hExecute H ev (m_time ep) p ep = (fin, ep1)" by fastforce
  note ok = exec [OF assms x]
  show ?thesis
  proof (cases "to_Abort e")
    case True
    with e assms show ?thesis
      by (intro that [of "ep\<lparr>ep_world := hAbort H ev (m_time ep) (ep_world ep), ep_heap := (ep_heap ep)(ev := None)\<rparr>"])
        (auto simp: ep_dispatch_def ep_delete_def ep_wf_def ep_due_def)
  next
    case False
    show ?thesis
    proof (cases fin)
      case True
      with ok e x False show ?thesis
        by (intro that [of "ep1\<lparr>ep_heap := (ep_heap ep1)(ev := None)\<rparr>"])
          (auto simp: ep_dispatch_def ep_delete_def ep_wf_def ep_due_def)
    next
      case nf: False
      with ok e x False show ?thesis by (intro that [of ep1]) (auto simp: ep_dispatch_def)
    qed
  qed
qed

lemma due_head:
  assumes "ep_wf ep" and "ep_due ep \<noteq> []"
  shows "\<exists>e es. m_events ep = e # es \<and> fst e \<le> m_time ep"
proof -
  from assms(2) obtain e es where q: "m_events ep = e # es" by (cases "m_events ep") (auto simp: ep_due_def)
  from assms(2) obtain f where f: "f \<in> set (m_events ep)" "fst f \<le> m_time ep" by (auto simp: ep_due_def filter_empty_conv)
  with mm.hd_due [of "m_events ep" e es f] q assms(1) show ?thesis by (simp add: mm.wf_def ep_wf_def)
qed

lemma loop_returns:
  "ep_wf ep \<Longrightarrow> \<exists>ep'. ep_loop H p ep = Some (Inr ep') \<and> ep_wf ep' \<and> m_time ep' = m_time ep \<and> ep_due ep' = []"
proof (induction "length (ep_due ep)" arbitrary: ep)
  case 0
  then have "m_events ep = [] \<or> \<not> fst (hd (m_events ep)) \<le> m_time ep"
    by (cases "m_events ep") (auto simp: ep_due_def split: if_splits)
  then have "ep_loop H p ep = Some (Inr ep)"
    by (subst ep_loop.simps) (auto split: list.splits)
  with 0 show ?case by simp
next
  case (Suc n)
  then obtain e es where q: "m_events ep = e # es" and due: "fst e \<le> m_time ep" using due_head [OF Suc.prems] by force
  let ?ep = "ep\<lparr>m_events := es\<rparr>"
  have "ep_wf ?ep" "ep_heap ?ep (snd e) \<noteq> None" "snd e \<notin> snd ` set (m_events ?ep)"
    using Suc.prems q by (auto simp: ep_wf_def)
  then obtain ep' where d: "ep_dispatch H p (snd e) ?ep = Inr ep'" "ep_wf ep'" "m_time ep' = m_time ep"
      "ep_due ep' = ep_due ?ep"
    using dispatch [of ?ep "snd e"] by auto
  have "n = length (ep_due ep')" using Suc.hyps(2) d(4) q due by (simp add: ep_due_def)
  from Suc.hyps(1) [OF this d(2)] d q due show ?case by (subst ep_loop.simps) auto
qed

lemma loop_serves: "ep_wf ep \<Longrightarrow> ep_loop H p ep = Some (Inr (ep_serve H p (ep_due ep) ep))"
proof (induction "length (ep_due ep)" arbitrary: ep)
  case 0
  then have "m_events ep = [] \<or> \<not> fst (hd (m_events ep)) \<le> m_time ep"
    by (cases "m_events ep") (auto simp: ep_due_def split: if_splits)
  with 0 show ?case by (subst ep_loop.simps) (auto split: list.splits)
next
  case (Suc n)
  obtain e es where q: "m_events ep = e # es" "fst e \<le> m_time ep" using due_head [OF Suc.prems] Suc.hyps(2) by force
  let ?ep = "ep\<lparr>m_events := es\<rparr>"
  have ok: "ep_wf ?ep" "ep_heap ?ep (snd e) \<noteq> None" "snd e \<notin> snd ` set (m_events ?ep)"
    using Suc.prems q by (auto simp: ep_wf_def)
  then obtain ep' where d: "ep_dispatch H p (snd e) ?ep = Inr ep'" "ep_wf ep'" "m_time ep' = m_time ep" "ep_due ep' = ep_due ?ep"
    using dispatch [of ?ep "snd e"] by auto
  have due: "ep_due ep = e # ep_due ?ep" using q by (simp add: ep_due_def)
  have "ep_loop H p ep = ep_loop H p ep'" by (subst ep_loop.simps) (simp only: q list.case if_True d(1) sum.case)
  also have "\<dots> = Some (Inr (ep_serve H p (ep_due ?ep) ep'))" using Suc.hyps(1) [of ep'] Suc.hyps(2) d due by simp
  also have "ep_serve H p (ep_due ?ep) ep' = ep_serve H p (ep_due ep) ep"
    using d(1) by (simp add: due q ep_dispatch_def ep_delete_def Let_def split: option.splits prod.splits if_splits)
  finally show ?case .
qed

end

section \<open>Handlers that only act on the world\<close>

text \<open>The effect of the due events, in queue order: aborted ones are aborted, the others run.\<close>

definition ep_run_due :: "'w handlers \<Rightarrow> (nat \<Rightarrow> u64 \<Rightarrow> u32 \<Rightarrow> 'w \<Rightarrow> 'w) \<Rightarrow> u32 \<Rightarrow> u64 \<Rightarrow>
    (nat \<rightharpoonup> basicEvent) \<Rightarrow> eventList \<Rightarrow> 'w \<Rightarrow> 'w" where
  "ep_run_due H f p t heap es w =
     fold (\<lambda>(_, ev). if to_Abort (the (heap ev)) then hAbort H ev t else f ev t p) es w"

lemma ep_run_due_delete:
  "ev \<notin> snd ` set es \<Longrightarrow> ep_run_due H f p t (heap(ev := None)) es w = ep_run_due H f p t heap es w"
  unfolding ep_run_due_def by (rule fold_cong) (force simp: image_iff)+

locale quiet_handlers =
  fixes H :: "'w handlers" and p :: u32 and f :: "nat \<Rightarrow> u64 \<Rightarrow> u32 \<Rightarrow> 'w \<Rightarrow> 'w"
  assumes quiet: "hExecute H ev t p ep = (True, ep\<lparr>ep_world := f ev t p (ep_world ep)\<rparr>)"

sublocale quiet_handlers \<subseteq> later_handlers
  by unfold_locales (auto simp: quiet ep_wf_def ep_due_def)

context quiet_handlers
begin

lemma loop_fold:
  "ep_wf ep \<Longrightarrow> ep_loop H p ep = Some (Inr (ep\<lparr>
     m_events := filter (\<lambda>e. m_time ep < fst e) (m_events ep),
     ep_heap := (\<lambda>ev. if ev \<in> snd ` set (ep_due ep) then None else ep_heap ep ev),
     ep_world := ep_run_due H f p (m_time ep) (ep_heap ep) (ep_due ep) (ep_world ep)\<rparr>))"
proof (induction "m_events ep" arbitrary: ep)
  case Nil
  note q = Nil.hyps [symmetric]
  then show ?case by (subst ep_loop.simps) (simp add: ep_due_def ep_run_due_def)
next
  case (Cons e es)
  note q = Cons.hyps(2) [symmetric]
  show ?case
  proof (cases "fst e \<le> m_time ep")
    case False
    then have "\<forall>x\<in>set (m_events ep). \<not> fst x \<le> m_time ep"
      using Cons.prems q by (auto simp: ep_wf_def)
    then have "ep_due ep = []" "filter (\<lambda>e. m_time ep < fst e) (m_events ep) = m_events ep"
      by (auto simp: ep_due_def filter_empty_conv not_le)
    with q False show ?thesis by (subst ep_loop.simps) (simp add: ep_run_due_def)
  next
    case True
    let ?w = "if to_Abort (the (ep_heap ep (snd e))) then hAbort H (snd e) (m_time ep) (ep_world ep)
      else f (snd e) (m_time ep) p (ep_world ep)"
    let ?ep = "ep\<lparr>m_events := es, ep_heap := (ep_heap ep)(snd e := None), ep_world := ?w\<rparr>"
    obtain v where v: "ep_heap ep (snd e) = Some v" using Cons.prems q by (auto simp: ep_wf_def)
    then have d: "ep_dispatch H p (snd e) (ep\<lparr>m_events := es\<rparr>) = Inr ?ep"
      by (simp add: ep_dispatch_def quiet ep_delete_def)
    have "\<forall>x\<in>set es. snd x \<noteq> snd e" using Cons.prems q by (simp add: ep_wf_def image_iff) metis
    then have "ep_wf ?ep" using Cons.prems q by (simp add: ep_wf_def)
    from Cons.hyps(1) [OF _ this] have IH: "ep_loop H p ?ep = Some (Inr (?ep\<lparr>
        m_events := filter (\<lambda>e. m_time ep < fst e) es,
        ep_heap := (\<lambda>ev. if ev \<in> snd ` set (ep_due ?ep) then None else ep_heap ?ep ev),
        ep_world := ep_run_due H f p (m_time ep) (ep_heap ?ep) (ep_due ?ep) ?w\<rparr>))"
      by simp
    have due: "ep_due ep = e # ep_due ?ep" using q True by (simp add: ep_due_def)
    have "snd e \<notin> snd ` set (ep_due ?ep)" using Cons.prems q by (auto simp: ep_wf_def ep_due_def)
    then have w: "ep_run_due H f p (m_time ep) (ep_heap ?ep) (ep_due ?ep) ?w =
        ep_run_due H f p (m_time ep) (ep_heap ep) (ep_due ep) (ep_world ep)"
      by (simp add: ep_run_due_delete due) (simp add: ep_run_due_def split_beta)
    have h: "(\<lambda>ev. if ev \<in> snd ` set (ep_due ?ep) then None else ep_heap ?ep ev) =
        (\<lambda>ev. if ev \<in> snd ` set (ep_due ep) then None else ep_heap ep ev)"
      by (auto simp: due)
    have "ep_loop H p ep = ep_loop H p ?ep"
      by (subst ep_loop.simps) (simp only: q list.case True if_True d sum.case)
    with IH w h q True show ?thesis by (simp add: not_less)
  qed
qed

end

interpretation base: quiet_handlers base_handlers p "\<lambda>ev t p w. w" for p
  by unfold_locales (simp add: base_handlers_def)

text \<open>Handlers that write down what they are called for: the observable order of a run.\<close>

definition log_handlers :: "(bool \<times> nat \<times> u64) list handlers" where
  "log_handlers = \<lparr>hExecute = \<lambda>ev t p ep. (True, ep\<lparr>ep_world := ep_world ep @ [(True, ev, t)]\<rparr>),
     hAbort = \<lambda>ev t w. w @ [(False, ev, t)], hIsDeletable = \<lambda>ev w. True\<rparr>"

interpretation log: quiet_handlers log_handlers p "\<lambda>ev t p w. w @ [(True, ev, t)]" for p
  by unfold_locales (simp add: log_handlers_def)

section \<open>Properties\<close>

lemma ep_wf_time: "ep_wf (ep\<lparr>m_time := t\<rparr>) \<longleftrightarrow> ep_wf ep"
  by (simp add: ep_wf_def)

text \<open>
  C12. When the events' handlers schedule only for later, \<^verbatim>\<open>Update\<close> returns, touches no
  deleted event, and leaves only events that lie after the new time.
\<close>

theorem ep_update_returns:
  assumes "later_handlers H p" and "ep_wf ep"
  shows "\<exists>ep'. ep_Update H p ep = Some (Inr ep') \<and> ep_wf ep' \<and> m_time ep' = m_time ep + ucast p \<and>
    (\<forall>e\<in>set (m_events ep'). m_time ep' < fst e)"
  using later_handlers.loop_returns [OF assms(1), of "ep\<lparr>m_time := m_time ep + ucast p\<rparr>"] assms(2)
  by (fastforce simp: ep_Update_def ep_wf_time ep_due_def filter_empty_conv not_le)

definition ep_example :: "(bool \<times> nat \<times> u64) list eventProcessor" where
  "ep_example = \<lparr>m_time = 5, m_events = [(7, 1), (9, 2), (9, 3), (20, 4)], m_aborting = False,
     ep_heap = (\<lambda>_. Some BasicEvent)(2 \<mapsto> BasicEvent\<lparr>to_Abort := True\<rparr>), ep_world = []\<rparr>"

theorem ep_update_returns_witness:
  "\<exists>ep'. ep_Update log_handlers 10 ep_example = Some (Inr ep') \<and> ep_wf ep' \<and>
    m_time ep' = m_time ep_example + ucast (10 :: u32) \<and> (\<forall>e\<in>set (m_events ep'). m_time ep' < fst e)"
  by (rule ep_update_returns) (simp_all add: log.later_handlers_axioms ep_wf_def ep_example_def)

text \<open>
  C11. The order of a run, for handlers that schedule only for later: \<^verbatim>\<open>Update\<close> serves exactly the events
  due when it is called, by planned time and, for equal times, in the order they were added, each once:
  one marked for it is aborted, any other executed, and it is freed unless its handler reports that it
  is not finished. What the handlers schedule stays in the queue.
\<close>

theorem ep_update_order:
  assumes "later_handlers H p" and "ep_wf ep" and "T = m_time ep + ucast p"
  shows "ep_Update H p ep = Some (Inr (ep_serve H p (filter (\<lambda>e. fst e \<le> T) (m_events ep)) (ep\<lparr>m_time := T\<rparr>)))"
  using later_handlers.loop_serves [OF assms(1), of "ep\<lparr>m_time := T\<rparr>"] assms(2,3)
  by (simp add: ep_Update_def ep_wf_time ep_due_def)

text \<open>A handler that puts event 1 back for later, and finishes the others.\<close>

definition again_handlers :: "(bool \<times> nat \<times> u64) list handlers" where
  "again_handlers = \<lparr>hExecute = \<lambda>ev t p ep. (let ep = ep\<lparr>ep_world := ep_world ep @ [(True, ev, t)]\<rparr>
       in if ev = 1 \<and> t < t + 10 then (False, ep\<lparr>m_events := mm_insert (t + 10) ev (m_events ep)\<rparr>) else (True, ep)),
     hAbort = \<lambda>ev t w. w @ [(False, ev, t)], hIsDeletable = \<lambda>ev w. True\<rparr>"

lemma again_later: "later_handlers again_handlers p"
proof unfold_locales
  fix ep ep' :: "(bool \<times> nat \<times> u64) list eventProcessor" and ev fin
  assume wf: "ep_wf ep" "ep_heap ep ev \<noteq> None" "ev \<notin> snd ` set (m_events ep)"
    and run: "hExecute again_handlers ev (m_time ep) p ep = (fin, ep')"
  let ?t = "m_time ep"
  have due: "filter (\<lambda>e. fst e \<le> ?t) (mm_insert (?t + 10) 1 m) = filter (\<lambda>e. fst e \<le> ?t) m" if "?t < ?t + 10" for m :: eventList
  proof -
    have "filter (\<lambda>e. fst e \<le> ?t) m = filter (\<lambda>e. fst e \<le> ?t) (takeWhile (\<lambda>e. fst e \<le> ?t + 10) m @ dropWhile (\<lambda>e. fst e \<le> ?t + 10) m)"
      by simp
    also have "\<dots> = filter (\<lambda>e. fst e \<le> ?t) (mm_insert (?t + 10) 1 m)"
      using that by (simp only: mm_insert_def filter_append filter.simps fst_conv not_le [symmetric] if_not_P if_False)
    finally show ?thesis by (rule sym)
  qed
  show "ep_wf ep' \<and> m_time ep' = m_time ep \<and> ep_due ep' = ep_due ep \<and> (fin \<longrightarrow> ep_heap ep' ev \<noteq> None \<and> ev \<notin> snd ` set (m_events ep'))"
  proof (cases "ev = 1 \<and> ?t < ?t + 10")
    case True
    have "ep_AddEvent ev (?t + 10) False ep = Inr (ep\<lparr>ep_heap := (ep_heap ep)(ev \<mapsto> the (ep_heap ep ev)\<lparr>m_execTime := ?t + 10\<rparr>),
        m_events := mm_insert (?t + 10) ev (m_events ep)\<rparr>)"
      using wf(2) by (auto simp: ep_AddEvent_def Let_def)
    from ep_AddEvent_wf [OF wf(1,3) this] have "ep_wf (ep\<lparr>m_events := mm_insert (?t + 10) ev (m_events ep)\<rparr>)"
      using wf(1,2) by (auto simp: ep_wf_def mm_insert_values)
    with True run due show ?thesis
      by (fastforce simp: again_handlers_def Let_def ep_wf_def ep_due_def)
  next
    case False
    then have "fin" "ep' = ep\<lparr>ep_world := ep_world ep @ [(True, ev, ?t)]\<rparr>"
      using run by (simp_all add: again_handlers_def Let_def split: if_splits)
    then show ?thesis using wf by (simp add: ep_wf_def ep_due_def)
  qed
qed

theorem ep_update_order_witness:
  "ep_Update again_handlers 10 ep_example = Some (Inr (ep_example\<lparr>m_time := 15, m_events := [(20, 4), (25, 1)],
     ep_heap := (ep_heap ep_example)(2 := None, 3 := None),
     ep_world := [(True, 1, 15), (False, 2, 15), (True, 3, 15)]\<rparr>))"
proof -
  have "ep_wf ep_example" by (simp add: ep_wf_def ep_example_def)
  from ep_update_order [OF again_later this, of 15 10] show ?thesis
    by (simp add: ep_example_def again_handlers_def mm_insert_def Let_def BasicEvent_def fun_upd_twist)
qed

lemma ep_kill_loop_force:
  assumes "\<forall>ev\<in>snd ` set es. ep_heap ep ev \<noteq> None" "distinct (map snd es)"
  shows "ep_kill_loop H True es ep = Inr (es, ep\<lparr>
    ep_heap := (\<lambda>ev. if ev \<in> snd ` set es then None else ep_heap ep ev),
    ep_world := fold (\<lambda>(_, ev). hAbort H ev (m_time ep)) es (ep_world ep)\<rparr>)"
  using assms
proof (induction es arbitrary: ep)
  case Nil
  then show ?case by simp
next
  case (Cons e es)
  obtain k ev where e: "e = (k, ev)" by (cases e)
  obtain v where v: "ep_heap ep ev = Some v" using Cons.prems e by auto
  let ?ep = "ep\<lparr>ep_world := hAbort H ev (m_time ep) (ep_world ep), ep_heap := (ep_heap ep)(ev := None)\<rparr>"
  have "\<forall>ev\<in>snd ` set es. ep_heap ?ep ev \<noteq> None" "distinct (map snd es)"
    using Cons.prems e by (auto simp: image_iff)
  note IH = Cons.IH [OF this]
  have "(\<lambda>x. if x \<in> snd ` set es then None else ep_heap ?ep x) =
      (\<lambda>x. if x \<in> snd ` set (e # es) then None else ep_heap ep x)"
    by (auto simp: e)
  with IH v e show ?case by (simp add: Let_def ep_delete_def)
qed

text \<open>
  \<^verbatim>\<open>KillAllEvents(true)\<close> aborts every queued event once, in queue order, frees all of
  them and empties the queue; the flag it sets "to prevent event insertions" prevents
  nothing: an event added afterwards is queued.
\<close>

theorem ep_kill_all:
  assumes "ep_wf ep" and "ep_heap ep x = Some e" and "x \<notin> snd ` set (m_events ep)"
  shows "\<exists>ep'. ep_KillAllEvents H True ep = Inr ep' \<and> m_events ep' = [] \<and> m_aborting ep' \<and>
    ep_world ep' = fold (\<lambda>(_, ev). hAbort H ev (m_time ep)) (m_events ep) (ep_world ep) \<and>
    (\<forall>ev. ep_heap ep' ev = (if ev \<in> snd ` set (m_events ep) then None else ep_heap ep ev)) \<and>
    (\<exists>ep''. ep_AddEvent x t s ep' = Inr ep'' \<and> m_events ep'' = [(t, x)])"
proof -
  have "ep_kill_loop H True (m_events ep) (ep\<lparr>m_aborting := True\<rparr>) = Inr (m_events ep, ep\<lparr>m_aborting := True,
      ep_heap := (\<lambda>ev. if ev \<in> snd ` set (m_events ep) then None else ep_heap ep ev),
      ep_world := fold (\<lambda>(_, ev). hAbort H ev (m_time ep)) (m_events ep) (ep_world ep)\<rparr>)"
    using assms(1) by (subst ep_kill_loop_force) (auto simp: ep_wf_def cong: if_cong)
  with assms(2,3) show ?thesis
    by (auto simp: ep_KillAllEvents_def ep_AddEvent_def mm_insert_def Let_def)
qed

theorem ep_kill_all_witness:
  "\<exists>ep'. ep_KillAllEvents log_handlers True ep_example = Inr ep' \<and> m_events ep' = [] \<and> m_aborting ep' \<and>
    ep_world ep' = fold (\<lambda>(_, ev). hAbort log_handlers ev (m_time ep_example)) (m_events ep_example)
      (ep_world ep_example) \<and>
    (\<forall>ev. ep_heap ep' ev = (if ev \<in> snd ` set (m_events ep_example) then None else ep_heap ep_example ev)) \<and>
    (\<exists>ep''. ep_AddEvent 9 44 True ep' = Inr ep'' \<and> m_events ep'' = [(44, 9)])"
  by (rule ep_kill_all [where e = BasicEvent]) (simp_all add: ep_wf_def ep_example_def)

text \<open>
  The next queue tick is a multiple of the delay, strictly later than now and at most
  one delay away, as long as the clock does not wrap.
\<close>

theorem queue_time_tick:
  assumes "0 < delay" and "unat (m_time ep) + unat delay < 2 ^ 64"
  shows "\<exists>t. CalculateQueueTime delay ep = Some t \<and> unat delay dvd unat t \<and>
    m_time ep < t \<and> unat t \<le> unat (m_time ep) + unat delay"
proof -
  let ?m = "unat (m_time ep)" and ?d = "unat delay"
  have d: "0 < ?d" using assms(1) by (simp add: word_gt_0 unat_gt_0)
  have md: "?m mod ?d < ?d" using d by simp
  have "m_time ep mod delay \<le> delay" using assms(1) by (simp add: word_le_nat_alt unat_mod_distrib md less_imp_le)
  then have s: "unat (delay - m_time ep mod delay) = ?d - ?m mod ?d"
    by (simp add: unat_sub unat_mod_distrib)
  let ?t = "m_time ep + (delay - m_time ep mod delay)"
  have t: "unat ?t = ?m + (?d - ?m mod ?d)"
    using assms(2) s by (subst unat_add_lem [THEN iffD1]) auto
  have "?m + (x - ?m mod ?d) = ?m div ?d * ?d + x" if "?m mod ?d < x" for x
    using that div_mult_mod_eq [of ?m ?d] by linarith
  from this [OF md] have "?m + (?d - ?m mod ?d) = ?m div ?d * ?d + ?d" .
  then have "?d dvd unat ?t" using t by simp
  moreover have "m_time ep < ?t" using t md by (simp add: word_less_nat_alt)
  ultimately show ?thesis using t assms(1) by (auto simp: CalculateQueueTime_def CalculateTime_def)
qed

theorem queue_time_tick_witness:
  "\<exists>t. CalculateQueueTime 400 ep_example = Some t \<and> unat (400 :: u64) dvd unat t \<and>
    m_time ep_example < t \<and> unat t \<le> unat (m_time ep_example) + unat (400 :: u64)"
  by (rule queue_time_tick) (simp_all add: ep_example_def)

end
