(* ===== verification/EventMap.thy ===== *)
theory EventMap
  imports Multimap
begin

text \<open>
  The scripts' scheduler, class \<^verbatim>\<open>EventMap\<close> of src/src/common/Utilities/Util.h: a clock, a
  mask of phases and a timed queue of 32-bit events, an id in the low 16 bits, a group bit
  in bits 16 to 23 and a phase bit in bits 24 to 31.
\<close>

record eventMap =
  em_time :: u32
  em_phase :: u32
  em_map :: "(u32, u32) multimap"

definition em_new :: eventMap where
  "em_new = \<lparr>em_time = 0, em_phase = 0, em_map = []\<rparr>"

definition em_Reset :: "eventMap \<Rightarrow> eventMap" where
  "em_Reset em = em\<lparr>em_map := [], em_time := 0, em_phase := 0\<rparr>"

definition em_Update :: "u32 \<Rightarrow> eventMap \<Rightarrow> eventMap" where
  "em_Update time em = em\<lparr>em_time := em_time em + time\<rparr>"

definition em_GetTimer :: "eventMap \<Rightarrow> u32" where
  "em_GetTimer em = em_time em"

definition em_SetTimer :: "u32 \<Rightarrow> eventMap \<Rightarrow> eventMap" where
  "em_SetTimer time em = em\<lparr>em_time := time\<rparr>"

definition em_GetPhaseMask :: "eventMap \<Rightarrow> u8" where
  "em_GetPhaseMask em = ucast (em_phase em)"

definition em_Empty :: "eventMap \<Rightarrow> bool" where
  "em_Empty em = (em_map em = [])"

section \<open>Phases\<close>

definition em_SetPhase :: "u8 \<Rightarrow> eventMap \<Rightarrow> eventMap" where
  "em_SetPhase phase em =
     (if phase = 0 then em\<lparr>em_phase := 0\<rparr>
      else if phase \<le> 8 then em\<lparr>em_phase := push_bit (unat phase - 1) 1\<rparr>
      else em)"

definition em_AddPhase :: "u8 \<Rightarrow> eventMap \<Rightarrow> eventMap" where
  "em_AddPhase phase em =
     (if phase \<noteq> 0 \<and> phase \<le> 8 then em\<lparr>em_phase := em_phase em OR push_bit (unat phase - 1) 1\<rparr>
      else em)"

definition em_RemovePhase :: "u8 \<Rightarrow> eventMap \<Rightarrow> eventMap" where
  "em_RemovePhase phase em =
     (if phase \<noteq> 0 \<and> phase \<le> 8 then em\<lparr>em_phase := em_phase em AND NOT (push_bit (unat phase - 1) 1)\<rparr>
      else em)"

definition em_IsInPhase :: "u8 \<Rightarrow> eventMap \<Rightarrow> bool" where
  "em_IsInPhase phase em =
     (phase \<le> 8 \<and> (phase = 0 \<or> em_phase em AND push_bit (unat phase - 1) 1 \<noteq> 0))"

section \<open>Scheduling\<close>

definition em_ScheduleEvent :: "u32 \<Rightarrow> u32 \<Rightarrow> u32 \<Rightarrow> u32 \<Rightarrow> eventMap \<Rightarrow> eventMap" where
  "em_ScheduleEvent eventId time groupId phase em =
     (let eventId = (if groupId \<noteq> 0 \<and> groupId \<le> 8 then eventId OR push_bit (unat groupId + 15) 1 else eventId);
          eventId = (if phase \<noteq> 0 \<and> phase \<le> 8 then eventId OR push_bit (unat phase + 23) 1 else eventId)
      in em\<lparr>em_map := mm_insert (em_time em + time) eventId (em_map em)\<rparr>)"

definition em_CancelEvent :: "u32 \<Rightarrow> eventMap \<Rightarrow> eventMap" where
  "em_CancelEvent eventId em =
     (if em_Empty em then em
      else em\<lparr>em_map := mm_erase_if (\<lambda>e. eventId = snd e AND 0x0000FFFF) (em_map em)\<rparr>)"

definition em_CancelEventGroup :: "u32 \<Rightarrow> eventMap \<Rightarrow> eventMap" where
  "em_CancelEventGroup groupId em =
     (if groupId = 0 \<or> groupId > 8 \<or> em_Empty em then em
      else let groupMask = push_bit (unat groupId + 15) 1
           in em\<lparr>em_map := mm_erase_restart (\<lambda>e. snd e AND groupMask \<noteq> 0) 0 (em_map em)\<rparr>)"

definition em_RescheduleEvent :: "u32 \<Rightarrow> u32 \<Rightarrow> u32 \<Rightarrow> u32 \<Rightarrow> eventMap \<Rightarrow> eventMap" where
  "em_RescheduleEvent eventId time groupId phase em =
     em_ScheduleEvent eventId time groupId phase (em_CancelEvent eventId em)"

definition em_RepeatEvent :: "u32 \<Rightarrow> eventMap \<Rightarrow> eventMap" where
  "em_RepeatEvent time em =
     (case em_map em of
        [] \<Rightarrow> em
      | e # es \<Rightarrow> em_ScheduleEvent (snd e) time 0 0 (em\<lparr>em_map := es\<rparr>))"

definition em_PopEvent :: "eventMap \<Rightarrow> eventMap" where
  "em_PopEvent em = (case em_map em of [] \<Rightarrow> em | e # es \<Rightarrow> em\<lparr>em_map := es\<rparr>)"

section \<open>Taking events\<close>

fun em_execute_loop :: "u32 \<Rightarrow> u32 \<Rightarrow> (u32, u32) multimap \<Rightarrow> u32 \<times> (u32, u32) multimap" where
  "em_execute_loop time phase [] = (0, [])"
| "em_execute_loop time phase (e # es) =
     (if fst e > time then (0, e # es)
      else if phase \<noteq> 0 \<and> snd e AND 0xFF000000 \<noteq> 0 \<and> drop_bit 24 (snd e) AND phase = 0 then
        em_execute_loop time phase es
      else (snd e AND 0x0000FFFF, es))"

definition em_ExecuteEvent :: "eventMap \<Rightarrow> u32 \<times> eventMap" where
  "em_ExecuteEvent em =
     (case em_execute_loop (em_time em) (em_phase em) (em_map em) of (r, m) \<Rightarrow> (r, em\<lparr>em_map := m\<rparr>))"

fun em_get_loop :: "u32 \<Rightarrow> u32 \<Rightarrow> (u32, u32) multimap \<Rightarrow> u32 \<times> (u32, u32) multimap" where
  "em_get_loop time phase [] = (0, [])"
| "em_get_loop time phase (e # es) =
     (if fst e > time then (0, e # es)
      else if phase \<noteq> 0 \<and> snd e AND 0xFF000000 \<noteq> 0 \<and> snd e AND push_bit 24 phase = 0 then
        em_get_loop time phase es
      else (snd e AND 0x0000FFFF, e # es))"

definition em_GetEvent :: "eventMap \<Rightarrow> u32 \<times> eventMap" where
  "em_GetEvent em =
     (case em_get_loop (em_time em) (em_phase em) (em_map em) of (r, m) \<Rightarrow> (r, em\<lparr>em_map := m\<rparr>))"

fun em_find_time :: "u32 \<Rightarrow> (u32, u32) multimap \<Rightarrow> u32" where
  "em_find_time eventId [] = 0"
| "em_find_time eventId (e # es) =
     (if eventId = snd e AND 0x0000FFFF then fst e else em_find_time eventId es)"

definition em_GetNextEventTime_of :: "u32 \<Rightarrow> eventMap \<Rightarrow> u32" where
  "em_GetNextEventTime_of eventId em = (if em_Empty em then 0 else em_find_time eventId (em_map em))"

definition em_GetNextEventTime :: "eventMap \<Rightarrow> u32" where
  "em_GetNextEventTime em = (if em_Empty em then 0 else fst (hd (em_map em)))"

section \<open>Delays\<close>

definition em_DelayEvents :: "u32 \<Rightarrow> eventMap \<Rightarrow> eventMap" where
  "em_DelayEvents delay em =
     em\<lparr>em_time := if delay < em_time em then em_time em - delay else 0\<rparr>"

text \<open>
  The loop of \<^verbatim>\<open>DelayEvents(delay, group)\<close>: what stays, and the multimap of what moves.
\<close>

fun em_delay_loop :: "u32 \<Rightarrow> u32 \<Rightarrow> (u32, u32) multimap \<Rightarrow> (u32, u32) multimap \<Rightarrow>
    (u32, u32) multimap \<times> (u32, u32) multimap" where
  "em_delay_loop delay groupId delayed [] = ([], delayed)"
| "em_delay_loop delay groupId delayed (e # es) =
     (if groupId = 0 \<or> snd e AND push_bit (unat groupId + 15) 1 \<noteq> 0 then
        em_delay_loop delay groupId (mm_insert (fst e + delay) (snd e) delayed) es
      else case em_delay_loop delay groupId delayed es of (kept, delayed) \<Rightarrow> (e # kept, delayed))"

definition em_DelayEvents_group :: "u32 \<Rightarrow> u32 \<Rightarrow> eventMap \<Rightarrow> eventMap" where
  "em_DelayEvents_group delay groupId em =
     (if groupId > 8 \<or> em_Empty em then em
      else case em_delay_loop delay groupId [] (em_map em) of (kept, delayed) \<Rightarrow>
        em\<lparr>em_map := mm_insert_all delayed kept\<rparr>)"

text \<open>
  The loop of \<^verbatim>\<open>DelayEventsToMax\<close>: the iterator is a position. The code inserts the
  delayed entry and then erases the old one through the iterator, which the insertion
  leaves valid: the same as erasing at the position and inserting.
\<close>

function em_delay_max_loop :: "u32 \<Rightarrow> (u32 \<times> u32 \<Rightarrow> bool) \<Rightarrow> nat \<Rightarrow> (u32, u32) multimap \<Rightarrow> (u32, u32) multimap" where
  "em_delay_max_loop T sel i m =
     (if i < length m then
        if fst (m ! i) < T \<and> sel (m ! i) then
          em_delay_max_loop T sel 0 (mm_insert T (snd (m ! i)) (mm_erase_at i m))
        else em_delay_max_loop T sel (i + 1) m
      else m)"
  by pat_completeness auto

lemma mset_erase_at: "i < length m \<Longrightarrow> mset m = add_mset (m ! i) (mset (mm_erase_at i m))"
  by (subst id_take_nth_drop [of i m]) (simp_all add: mm_erase_at_def)

lemma length_filter_mset: "length (filter p xs) = size (filter_mset p (mset xs))"
  by (metis mset_filter size_mset)

termination em_delay_max_loop
proof (relation "measures [\<lambda>(T, sel, i, m). length (filter (\<lambda>e. fst e < T) m), \<lambda>(T, sel, i, m). length m - i]")
  fix T sel i and m :: "(u32, u32) multimap"
  assume a: "i < length m" "fst (m ! i) < T \<and> sel (m ! i)"
  have "length (filter (\<lambda>e. fst e < T) (mm_insert T (snd (m ! i)) (mm_erase_at i m))) <
      length (filter (\<lambda>e. fst e < T) m)"
    using a by (simp add: length_filter_mset mm.ins_mset mset_erase_at)
  then show "((T, sel, 0, mm_insert T (snd (m ! i)) (mm_erase_at i m)), T, sel, i, m) \<in>
      measures [\<lambda>(T, sel, i, m). length (filter (\<lambda>e. fst e < T) m), \<lambda>(T, sel, i, m). length m - i]"
    by simp
qed auto

declare em_delay_max_loop.simps [simp del]

text \<open>
  \<^verbatim>\<open>1 << (group + 15)\<close> is defined while the sum is below 32; otherwise, unless no entry
  is compared, the result is \<^const>\<open>None\<close>.
\<close>

definition em_DelayEventsToMax :: "u32 \<Rightarrow> u32 \<Rightarrow> eventMap \<Rightarrow> eventMap option" where
  "em_DelayEventsToMax delay groupId em =
     (let T = em_time em + delay
      in if groupId \<noteq> 0 \<and> 31 < unat (groupId + 15) \<and> (\<exists>e\<in>set (em_map em). fst e < T) then None
         else Some (em\<lparr>em_map := em_delay_max_loop T
           (\<lambda>e. groupId = 0 \<or> push_bit (unat (groupId + 15)) 1 AND snd e \<noteq> 0) 0 (em_map em)\<rparr>))"

section \<open>What the bits of an event say\<close>

definition ev_eligible :: "u32 \<Rightarrow> u32 \<Rightarrow> bool" where
  "ev_eligible phase v \<longleftrightarrow> phase = 0 \<or> v AND 0xFF000000 = 0 \<or> drop_bit 24 v AND phase \<noteq> 0"

definition ev_id :: "u32 \<Rightarrow> u32" where
  "ev_id v = v AND 0xFFFF"

definition ev_group :: "u32 \<Rightarrow> u32 \<Rightarrow> bool" where
  "ev_group groupId v \<longleftrightarrow> bit v (unat groupId + 15)"

lemma mask_FF000000: "(v :: u32) AND 0xFF000000 = push_bit 24 (drop_bit 24 v)"
proof -
  have "(0xFF000000 :: u32) = push_bit 24 (Bit_Operations.mask 8)" by (simp add: mask_eq_exp_minus_1)
  then show ?thesis
    by (simp only:) (auto simp: bit_eq_iff bit_simps)
qed

lemma small_phase:
  assumes "(phase :: u32) < 256"
  shows "v AND push_bit 24 phase = 0 \<longleftrightarrow> drop_bit 24 v AND phase = 0"
proof -
  have "v AND push_bit 24 phase = push_bit 24 (drop_bit 24 v AND phase)"
    by (auto simp: bit_eq_iff bit_simps)
  moreover have "push_bit 24 (drop_bit 24 v AND phase) = 0 \<longleftrightarrow> drop_bit 24 v AND phase = 0"
  proof
    assume a: "push_bit 24 (drop_bit 24 v AND phase) = 0"
    show "drop_bit 24 v AND phase = 0"
    proof (rule bit_word_eqI)
      fix n assume n: "n < LENGTH(32)"
      have "\<not> bit (push_bit 24 (drop_bit 24 v AND phase)) (n + 24)" unfolding a by simp
      then show "bit (drop_bit 24 v AND phase) n = bit (0 :: u32) n"
        using n bit_imp_le_length [of v "n + 24"]
        by (cases "n + 24 < 32") (auto simp: bit_simps add.commute [of 24])
    qed
  qed simp
  ultimately show ?thesis by simp
qed

text \<open>The value \<^verbatim>\<open>ScheduleEvent\<close> stores.\<close>

definition ev_pack :: "u32 \<Rightarrow> u32 \<Rightarrow> u32 \<Rightarrow> u32" where
  "ev_pack eventId groupId phase =
     (let v = (if groupId \<noteq> 0 \<and> groupId \<le> 8 then eventId OR push_bit (unat groupId + 15) 1 else eventId)
      in if phase \<noteq> 0 \<and> phase \<le> 8 then v OR push_bit (unat phase + 23) 1 else v)"

lemma em_Schedule_map: "em_map (em_ScheduleEvent i t g p em) = mm_insert (em_time em + t) (ev_pack i g p) (em_map em)"
  and em_Schedule_rest: "em_time (em_ScheduleEvent i t g p em) = em_time em" "em_phase (em_ScheduleEvent i t g p em) = em_phase em"
  by (simp_all add: em_ScheduleEvent_def ev_pack_def Let_def)

lemma unat_1_8: "(g :: 'a::len word) \<noteq> 0 \<Longrightarrow> 1 \<le> unat g"
  using unat_gt_0 [of g] by linarith

lemma u32_le_8: "(g :: u32) \<le> 8 \<longleftrightarrow> unat g \<le> 8"
  by (simp add: word_le_nat_alt)

lemma bit_small:
  assumes "(v :: u32) < 0x10000" "16 \<le> n" shows "\<not> bit v n"
proof -
  have "v AND 0xFFFF = v"
    using assms(1) less_mask_eq [of v 16] by (simp add: mask_eq_exp_minus_1)
  moreover have "\<not> bit (0xFFFF :: u32) n"
  proof -
    have "(0xFFFF :: u32) = Bit_Operations.mask 16" by (simp add: mask_eq_exp_minus_1)
    then show ?thesis using assms(2) by (simp only: bit_simps) simp
  qed
  ultimately show ?thesis by (metis bit_and_iff)
qed

lemma ev_id_pack:
  assumes "i < 0x10000" shows "ev_id (ev_pack i g p) = i"
proof (rule bit_word_eqI)
  fix n assume n: "n < LENGTH(32)"
  have m: "(0xFFFF :: u32) = Bit_Operations.mask 16" by (simp add: mask_eq_exp_minus_1)
  have "bit (ev_pack i g p) n \<longleftrightarrow> bit i n" if "n < 16"
    using that by (auto simp: ev_pack_def Let_def bit_or_iff bit_exp_word dest!: unat_1_8)
  then show "bit (ev_id (ev_pack i g p)) n \<longleftrightarrow> bit i n"
    using bit_small [OF assms, of n] n by (cases "n < 16") (simp_all add: ev_id_def m bit_simps)
qed

lemma ev_group_pack:
  assumes "i < 0x10000" "1 \<le> g" "g \<le> 8"
  shows "ev_group g (ev_pack i g' p) \<longleftrightarrow> g' = g"
proof -
  have u: "1 \<le> unat g" "unat g \<le> 8"
    using assms(2,3) by (simp_all add: word_le_nat_alt)
  have p: "p \<noteq> 0 \<Longrightarrow> unat g + 15 \<noteq> unat p + 23" using u unat_1_8 [of p] by auto
  have g': "g' = g \<longleftrightarrow> unat g' = unat g" by (simp add: word_unat_eq_iff)
  show ?thesis
    using u p bit_small [OF assms(1), of "unat g + 15"] assms(2,3)
    by (auto simp: ev_group_def ev_pack_def Let_def bit_or_iff bit_exp_word g' u32_le_8)
qed

section \<open>The loops in closed form\<close>

lemma em_execute_loop_eq:
  "em_execute_loop time phase m =
    (case dropWhile (\<lambda>e. fst e \<le> time \<and> \<not> ev_eligible phase (snd e)) m of
       [] \<Rightarrow> (0, [])
     | e # es \<Rightarrow> if fst e \<le> time then (ev_id (snd e), es) else (0, e # es))"
  by (induction m) (auto simp: ev_eligible_def ev_id_def)

lemma em_get_loop_eq:
  assumes "phase < 256"
  shows "em_get_loop time phase m =
    (case dropWhile (\<lambda>e. fst e \<le> time \<and> \<not> ev_eligible phase (snd e)) m of
       [] \<Rightarrow> (0, [])
     | e # es \<Rightarrow> if fst e \<le> time then (ev_id (snd e), e # es) else (0, e # es))"
  by (induction m) (auto simp: ev_eligible_def ev_id_def small_phase [OF assms])

definition em_sel :: "u32 \<Rightarrow> u32 \<times> u32 \<Rightarrow> bool" where
  "em_sel groupId e \<longleftrightarrow> groupId = 0 \<or> ev_group groupId (snd e)"

lemma em_delay_loop_eq:
  "groupId \<le> 8 \<Longrightarrow> em_delay_loop delay groupId delayed m =
    (filter (\<lambda>e. \<not> em_sel groupId e) m,
     mm_insert_all (map (\<lambda>e. (fst e + delay, snd e)) (filter (em_sel groupId) m)) delayed)"
  by (induction m arbitrary: delayed)
    (auto simp: em_sel_def ev_group_def mm_insert_all_def and_push_bit_1)

lemma mm_insert_all_mset: "mset (mm_insert_all es m) = mset es + mset m"
  by (induction es arbitrary: m) (auto simp: mm_insert_all_def mm.ins_mset)

lemma mm_insert_all_sorted: "sorted (map fst m) \<Longrightarrow> sorted (map fst (mm_insert_all es m))"
  by (induction es arbitrary: m) (auto simp: mm_insert_all_def mm_insert_sorted)

lemma sorted_erase_at:
  assumes "sorted (map fst m)" shows "sorted (map fst (mm_erase_at i m))"
proof -
  have "sorted (map fst (take i m @ drop i m))" using assms by (simp only: append_take_drop_id)
  moreover have "drop (Suc i) m = tl (drop i m)" by (simp add: drop_Suc tl_drop)
  ultimately show ?thesis
    by (cases "drop i m") (auto simp: mm_erase_at_def sorted_append simp del: append_take_drop_id)
qed

lemma em_delay_max_loop_eq:
  "sorted (map fst m) \<Longrightarrow> \<forall>e\<in>set (take i m). \<not> (fst e < T \<and> sel e) \<Longrightarrow>
    sorted (map fst (em_delay_max_loop T sel i m)) \<and>
    mset (em_delay_max_loop T sel i m) =
      image_mset (\<lambda>e. if fst e < T \<and> sel e then (T, snd e) else e) (mset m)"
proof (induction T sel i m rule: em_delay_max_loop.induct)
  case (1 T sel i m)
  let ?f = "\<lambda>e. if fst e < T \<and> sel e then (T, snd e) else e"
  show ?case
  proof (cases "i < length m")
    case lt: True
    show ?thesis
    proof (cases "fst (m ! i) < T \<and> sel (m ! i)")
      case True
      let ?m = "mm_insert T (snd (m ! i)) (mm_erase_at i m)"
      have "em_delay_max_loop T sel i m = em_delay_max_loop T sel 0 ?m"
        using lt True by (subst em_delay_max_loop.simps) simp
      moreover have "image_mset ?f (mset ?m) = image_mset ?f (mset m)"
        using lt True by (simp add: mm.ins_mset mset_erase_at)
      moreover have "sorted (map fst ?m)" by (intro mm_insert_sorted sorted_erase_at "1.prems")
      ultimately show ?thesis using 1(1) [OF lt True] by simp
    next
      case False
      then have "\<forall>e\<in>set (take (i + 1) m). \<not> (fst e < T \<and> sel e)"
        using "1.prems" lt by (simp add: take_Suc_conv_app_nth)
      moreover have "em_delay_max_loop T sel i m = em_delay_max_loop T sel (i + 1) m"
        using lt False by (subst em_delay_max_loop.simps) (simp only: if_True if_False)
      ultimately show ?thesis using 1(2) [OF lt False] "1.prems"(1) by simp
    qed
  next
    case False
    then have "\<forall>e\<in>set m. \<not> (fst e < T \<and> sel e)" using "1.prems"(2) by simp
    then have "image_mset ?f (mset m) = mset m" by (intro multiset.map_ident_strong) auto
    moreover have "em_delay_max_loop T sel i m = m" using False by (subst em_delay_max_loop.simps) simp
    ultimately show ?thesis using "1.prems"(1) by simp
  qed
qed

section \<open>Properties\<close>

definition em_wf :: "eventMap \<Rightarrow> bool" where
  "em_wf em \<longleftrightarrow> sorted (map fst (em_map em)) \<and> em_phase em < 256"

definition em_example :: eventMap where
  "em_example = \<lparr>em_time = 1000, em_phase = 2,
     em_map = [(400, 0x01000003), (700, 0x02010007), (1500, 0x00010009), (2500, 0x00000004)]\<rparr>"

lemma dropWhile_filter_hd:
  "dropWhile (\<lambda>e. p e \<and> \<not> q e) m = e # es \<Longrightarrow> \<not> (p e \<and> \<not> q e) \<and>
    (\<exists>pre. m = pre @ e # es \<and> (\<forall>x\<in>set pre. p x \<and> \<not> q x))"
  by (metis (mono_tags, lifting) dropWhile_eq_Cons_conv set_takeWhileD takeWhile_dropWhile_id)

text \<open>
  C15. \<^verbatim>\<open>ExecuteEvent\<close> returns the id of the earliest due event of the current phases and
  removes it together with the due events before it, all of which belong to other phases;
  when no due event is eligible it returns 0 and leaves just the events that lie ahead.
\<close>

theorem execute_event_earliest:
  assumes "sorted (map fst (em_map em))" and "em_ExecuteEvent em = (r, em')"
    and "good = filter (\<lambda>e. fst e \<le> em_time em \<and> ev_eligible (em_phase em) (snd e)) (em_map em)"
  shows "if good = [] then r = 0 \<and> em_map em' = filter (\<lambda>e. em_time em < fst e) (em_map em)
    else r = ev_id (snd (hd good)) \<and> (\<exists>pre. em_map em = pre @ hd good # em_map em' \<and>
      (\<forall>e\<in>set pre. fst e \<le> em_time em \<and> \<not> ev_eligible (em_phase em) (snd e)))"
proof -
  let ?p = "\<lambda>e :: u32 \<times> u32. fst e \<le> em_time em" and ?q = "\<lambda>e :: u32 \<times> u32. ev_eligible (em_phase em) (snd e)"
  have loop: "em_execute_loop (em_time em) (em_phase em) (em_map em) = (r, em_map em')"
    using assms(2) by (auto simp: em_ExecuteEvent_def split: prod.splits)
  show ?thesis
  proof (cases "dropWhile (\<lambda>e. ?p e \<and> \<not> ?q e) (em_map em)")
    case Nil
    then have "\<forall>e\<in>set (em_map em). ?p e \<and> \<not> ?q e" by (simp add: dropWhile_eq_Nil_conv)
    then have "good = []" "filter (\<lambda>e. em_time em < fst e) (em_map em) = []"
      by (auto simp: assms(3) filter_empty_conv not_less)
    with loop Nil show ?thesis by (simp add: em_execute_loop_eq)
  next
    case (Cons e es)
    obtain pre where pre: "em_map em = pre @ e # es" "\<forall>x\<in>set pre. ?p x \<and> \<not> ?q x" "\<not> (?p e \<and> \<not> ?q e)"
      using dropWhile_filter_hd [OF Cons] by blast
    have fp: "filter (\<lambda>x. ?p x \<and> ?q x) pre = []" using pre(2) by (auto simp: filter_empty_conv)
    show ?thesis
    proof (cases "?p e")
      case True
      with pre(3) have "good = e # filter (\<lambda>x. ?p x \<and> ?q x) es" using assms(3) pre(1) fp by simp
      moreover have "r = ev_id (snd e)" "em_map em' = es"
        using loop Cons True by (simp_all add: em_execute_loop_eq)
      ultimately show ?thesis using pre by auto
    next
      case False
      have late: "\<forall>x\<in>set (e # es). \<not> ?p x" using False assms(1) pre(1) by (auto simp: sorted_append)
      then have "filter (\<lambda>x. ?p x \<and> ?q x) (e # es) = []" by (auto simp: filter_empty_conv)
      then have "good = []" using fp assms(3) pre(1) by simp
      moreover have "filter (\<lambda>x. em_time em < fst x) pre = []"
        using pre(2) by (auto simp: filter_empty_conv not_less)
      moreover have "filter (\<lambda>x. em_time em < fst x) (e # es) = e # es"
        using late by (intro filter_True) (auto simp: not_le)
      moreover have "filter (\<lambda>x. em_time em < fst x) (em_map em) = e # es"
        using calculation by (simp only: pre(1) filter_append append_Nil)
      moreover have "r = 0" "em_map em' = e # es" using loop Cons False by (simp_all add: em_execute_loop_eq)
      ultimately show ?thesis by simp
    qed
  qed
qed

theorem execute_event_earliest_witness:
  "if [(700 :: u32, 0x02010007 :: u32)] = [] then 7 = (0 :: u32) \<and> em_map (em_example\<lparr>em_map := [(1500, 0x00010009), (2500, 0x00000004)]\<rparr>) =
      filter (\<lambda>e. em_time em_example < fst e) (em_map em_example)
    else 7 = ev_id (snd (hd [(700 :: u32, 0x02010007 :: u32)])) \<and>
      (\<exists>pre. em_map em_example = pre @ hd [(700 :: u32, 0x02010007 :: u32)] #
          em_map (em_example\<lparr>em_map := [(1500, 0x00010009), (2500, 0x00000004)]\<rparr>) \<and>
        (\<forall>e\<in>set pre. fst e \<le> em_time em_example \<and> \<not> ev_eligible (em_phase em_example) (snd e)))"
  by (rule execute_event_earliest) (simp_all add: em_example_def em_ExecuteEvent_def ev_eligible_def)

text \<open>
  \<^verbatim>\<open>GetEvent\<close>, which tests the phase on shifted-up bits, agrees with \<^verbatim>\<open>ExecuteEvent\<close>,
  which shifts the event down, as long as the phase mask fits in 8 bits (the phase operations
  keep it there): same id, and popping after \<^verbatim>\<open>GetEvent\<close> leaves what executing leaves.
\<close>

theorem get_event_agrees:
  assumes "em_phase em < 256"
    and "\<exists>e\<in>set (em_map em). fst e \<le> em_time em \<and> ev_eligible (em_phase em) (snd e)"
    and "sorted (map fst (em_map em))"
  shows "fst (em_GetEvent em) = fst (em_ExecuteEvent em) \<and>
    em_PopEvent (snd (em_GetEvent em)) = snd (em_ExecuteEvent em)"
proof -
  let ?p = "\<lambda>e :: u32 \<times> u32. fst e \<le> em_time em" and ?q = "\<lambda>e :: u32 \<times> u32. ev_eligible (em_phase em) (snd e)"
  obtain e es where d: "dropWhile (\<lambda>e. ?p e \<and> \<not> ?q e) (em_map em) = e # es"
    using assms(2) by (metis (no_types, lifting) dropWhile_eq_Nil_conv list.exhaust)
  then obtain pre where pre: "em_map em = pre @ e # es" "\<forall>x\<in>set pre. ?p x \<and> \<not> ?q x"
    using dropWhile_filter_hd [OF d] by blast
  obtain g where "g \<in> set (em_map em)" "?p g" "?q g" using assms(2) by blast
  then have "g \<in> set (e # es)" "?p g" using pre by auto
  then have "?p e" using assms(3) pre(1) by (auto simp: sorted_append)
  with d show ?thesis
    by (simp add: em_GetEvent_def em_ExecuteEvent_def em_execute_loop_eq em_get_loop_eq [OF assms(1)] em_PopEvent_def)
qed

theorem get_event_agrees_witness:
  "fst (em_GetEvent em_example) = fst (em_ExecuteEvent em_example) \<and>
    em_PopEvent (snd (em_GetEvent em_example)) = snd (em_ExecuteEvent em_example)"
  by (rule get_event_agrees) (simp_all add: em_example_def ev_eligible_def)

lemma em_Cancel_map: "em_map (em_CancelEvent i em) = filter (\<lambda>e. ev_id (snd e) \<noteq> i) (em_map em)"
  by (auto simp: em_CancelEvent_def em_Empty_def ev_id_def intro!: filter_cong)

lemma em_Cancel_rest [simp]: "em_time (em_CancelEvent i em) = em_time em" "em_phase (em_CancelEvent i em) = em_phase em"
  by (simp_all add: em_CancelEvent_def)

text \<open>
  Rescheduling leaves exactly one event of the id, at the new time and with the given
  group and phase, and touches no event of another id.
\<close>

theorem reschedule_unique:
  assumes "em_wf em" and "eventId < 0x10000"
  shows "filter (\<lambda>e. ev_id (snd e) = eventId) (em_map (em_RescheduleEvent eventId time groupId phase em)) =
      [(em_time em + time, ev_pack eventId groupId phase)] \<and>
    filter (\<lambda>e. ev_id (snd e) \<noteq> eventId) (em_map (em_RescheduleEvent eventId time groupId phase em)) =
      filter (\<lambda>e. ev_id (snd e) \<noteq> eventId) (em_map em)"
proof -
  have "sorted (map fst (em_map (em_CancelEvent eventId em)))"
    using assms(1) by (simp add: em_wf_def em_Cancel_map sorted_filter)
  then show ?thesis
    by (simp add: em_RescheduleEvent_def em_Schedule_map mm_filter_insert ev_id_pack [OF assms(2)] em_Cancel_map)
      (simp add: mm_insert_def)
qed

theorem reschedule_unique_witness:
  "filter (\<lambda>e. ev_id (snd e) = 7) (em_map (em_RescheduleEvent 7 500 1 2 em_example)) =
      [(em_time em_example + 500, ev_pack 7 1 2)] \<and>
    filter (\<lambda>e. ev_id (snd e) \<noteq> 7) (em_map (em_RescheduleEvent 7 500 1 2 em_example)) =
      filter (\<lambda>e. ev_id (snd e) \<noteq> 7) (em_map em_example)"
  by (rule reschedule_unique) (simp_all add: em_wf_def em_example_def)

text \<open>
  Cancelling a group removes the group's events and no other, whatever the restarts of
  its loop: an event scheduled with a group survives exactly when its group is another one.
\<close>

theorem cancel_group:
  assumes "1 \<le> groupId" and "groupId \<le> 8" and "eventId < 0x10000" and "em_wf em"
  shows "em_map (em_CancelEventGroup groupId em) = filter (\<lambda>e. \<not> ev_group groupId (snd e)) (em_map em) \<and>
    em_CancelEventGroup groupId (em_ScheduleEvent eventId time g phase em) =
      (if g = groupId then em_CancelEventGroup groupId em
       else em_ScheduleEvent eventId time g phase (em_CancelEventGroup groupId em))"
proof -
  have nz: "groupId \<noteq> 0" "\<not> 8 < groupId" using assms(1,2) by auto
  have eq: "em_CancelEventGroup groupId em = em\<lparr>em_map := filter (\<lambda>e. \<not> ev_group groupId (snd e)) (em_map em)\<rparr>" for em
    using nz by (cases em) (auto simp: em_CancelEventGroup_def em_Empty_def mm_erase_restart_filter
      ev_group_def and_push_bit_1 Let_def)
  have s: "em_ScheduleEvent eventId time g phase em =
      em\<lparr>em_map := mm_insert (em_time em + time) (ev_pack eventId g phase) (em_map em)\<rparr>" for em
    by (simp add: em_ScheduleEvent_def ev_pack_def Let_def)
  show ?thesis using assms(4)
    by (simp add: eq s mm_filter_insert em_wf_def ev_group_pack [OF assms(3,1,2)])
qed

theorem cancel_group_witness:
  "em_map (em_CancelEventGroup 1 em_example) = filter (\<lambda>e. \<not> ev_group 1 (snd e)) (em_map em_example) \<and>
    em_CancelEventGroup 1 (em_ScheduleEvent 9 100 3 0 em_example) =
      (if 3 = (1 :: u32) then em_CancelEventGroup 1 em_example
       else em_ScheduleEvent 9 100 3 0 (em_CancelEventGroup 1 em_example))"
  by (rule cancel_group) (simp_all add: em_wf_def em_example_def)

text \<open>
  \<^verbatim>\<open>DelayEventsToMax\<close>, whose loop goes back to the start after each entry it moves,
  ends, and has moved exactly the selected entries that lay before the limit to the limit.
\<close>

theorem delay_to_max:
  assumes "sorted (map fst (em_map em))" and "groupId \<le> 8" and "T = em_time em + delay"
  shows "\<exists>em'. em_DelayEventsToMax delay groupId em = Some em' \<and> sorted (map fst (em_map em')) \<and>
    em_time em' = em_time em \<and> em_phase em' = em_phase em \<and>
    mset (em_map em') =
      image_mset (\<lambda>e. if fst e < T \<and> em_sel groupId e then (T, snd e) else e) (mset (em_map em))"
proof -
  have g: "unat (groupId + 15) = unat groupId + 15"
    using assms(2) unat_add_lem [of groupId 15] by (simp add: u32_le_8)
  have le: "unat groupId \<le> 8" using assms(2) by (simp add: u32_le_8)
  have sel: "(\<lambda>e :: u32 \<times> u32. groupId = 0 \<or> push_bit (unat (groupId + 15)) 1 AND snd e \<noteq> 0) = em_sel groupId"
    by (auto simp: em_sel_def ev_group_def g and_push_bit_1 and.commute [of "2 ^ _"])
  have "em_DelayEventsToMax delay groupId em =
      Some (em\<lparr>em_map := em_delay_max_loop T (em_sel groupId) 0 (em_map em)\<rparr>)"
    unfolding em_DelayEventsToMax_def Let_def sel assms(3) using g le by simp
  then show ?thesis using em_delay_max_loop_eq [OF assms(1), of 0 T "em_sel groupId"] by simp
qed

theorem delay_to_max_witness:
  "\<exists>em'. em_DelayEventsToMax 900 1 em_example = Some em' \<and> sorted (map fst (em_map em')) \<and>
    em_time em' = em_time em_example \<and> em_phase em' = em_phase em_example \<and>
    mset (em_map em') = image_mset (\<lambda>e. if fst e < 1900 \<and> em_sel 1 e then (1900, snd e) else e)
      (mset (em_map em_example))"
  by (rule delay_to_max) (simp_all add: em_example_def)

text \<open>
  \<^verbatim>\<open>DelayEvents(delay, group)\<close> shifts the time of exactly the events of the group (of all
  events for group 0), modulo \<open>2 ^ 32\<close>, and keeps the queue in order.
\<close>

theorem delay_group:
  assumes "sorted (map fst (em_map em))" and "groupId \<le> 8"
  shows "sorted (map fst (em_map (em_DelayEvents_group delay groupId em))) \<and>
    mset (em_map (em_DelayEvents_group delay groupId em)) =
      image_mset (\<lambda>e. if em_sel groupId e then (fst e + delay, snd e) else e) (mset (em_map em))"
proof (cases "em_map em = []")
  case True
  then show ?thesis by (simp add: em_DelayEvents_group_def em_Empty_def)
next
  case False
  let ?moved = "map (\<lambda>e. (fst e + delay, snd e)) (filter (em_sel groupId) (em_map em))"
  let ?kept = "filter (\<lambda>e. \<not> em_sel groupId e) (em_map em)"
  have m: "em_map (em_DelayEvents_group delay groupId em) = mm_insert_all (mm_insert_all ?moved []) ?kept"
    using False assms(2) leD [OF assms(2)]
    by (simp add: em_DelayEvents_group_def em_Empty_def em_delay_loop_eq)
  have "sorted (map fst ?kept)" using assms(1) by (rule sorted_filter)
  moreover have "image_mset (\<lambda>e. if em_sel groupId e then (fst e + delay, snd e) else e) (mset es) =
      mset (map (\<lambda>e. (fst e + delay, snd e)) (filter (em_sel groupId) es)) +
      mset (filter (\<lambda>e. \<not> em_sel groupId e) es)" for es
    by (induction es) auto
  ultimately show ?thesis by (simp add: m mm_insert_all_sorted mm_insert_all_mset del: mset_map mset_filter)
qed

theorem delay_group_witness:
  "sorted (map fst (em_map (em_DelayEvents_group 4294967295 2 em_example))) \<and>
    mset (em_map (em_DelayEvents_group 4294967295 2 em_example)) =
      image_mset (\<lambda>e. if em_sel 2 e then (fst e + 4294967295, snd e) else e) (mset (em_map em_example))"
  by (rule delay_group) (simp_all add: em_example_def)

definition em_phases :: "eventMap \<Rightarrow> u8 set" where
  "em_phases em = {p. 1 \<le> p \<and> em_IsInPhase p em}"

lemma em_phases_iff: "p \<in> em_phases em \<longleftrightarrow> 1 \<le> p \<and> p \<le> 8 \<and> bit (em_phase em) (unat p - 1)"
  using word_gt_0 [of p] by (auto simp: em_phases_def em_IsInPhase_def and_push_bit_1 word_le_nat_alt)

lemma phase_bit_inj: "1 \<le> (p :: u8) \<Longrightarrow> 1 \<le> (q :: u8) \<Longrightarrow> unat p - Suc 0 = unat q - Suc 0 \<longleftrightarrow> p = q"
  by (auto simp: word_le_nat_alt word_unat_eq_iff)

lemma u8_1_iff: "(1 :: u8) \<le> p \<longleftrightarrow> p \<noteq> 0"
  using unat_gt_0 [of p] by (auto simp: word_le_nat_alt)

lemma phase_bit_less: "(p :: u8) \<le> 8 \<Longrightarrow> p \<noteq> 0 \<Longrightarrow> unat p - Suc 0 < 8"
  using unat_gt_0 [of p] by (simp add: word_le_nat_alt)

lemma less_256_bits: "(w :: u32) < 256 \<longleftrightarrow> (\<forall>n\<ge>8. \<not> bit w n)"
proof -
  have "w < 256 \<longleftrightarrow> take_bit 8 (unat w) = unat w"
    by (simp add: take_bit_nat_eq_self_iff word_less_nat_alt)
  also have "\<dots> \<longleftrightarrow> take_bit 8 w = w" by (simp add: word_unat_eq_iff unsigned_take_bit_eq)
  also have "\<dots> \<longleftrightarrow> (\<forall>n\<ge>8. \<not> bit w n)" using bit_imp_le_length [of w] by (auto simp: bit_eq_iff bit_simps not_le) (meson not_le)+
  finally show ?thesis .
qed

text \<open>
  The phase operations implement a set of phases 1 to 8: each adds, removes or selects
  exactly its phase, ignores numbers above 8, and keeps the mask within 8 bits.
\<close>

theorem phase_set:
  "em_phases (em_SetPhase p em) = (if p = 0 then {} else if p \<le> 8 then {p} else em_phases em) \<and>
   em_phases (em_AddPhase p em) = (if p = 0 \<or> 8 < p then em_phases em else insert p (em_phases em)) \<and>
   em_phases (em_RemovePhase p em) = em_phases em - {p} \<and>
   (em_phase em < 256 \<longrightarrow> em_phase (em_SetPhase p em) < 256 \<and> em_phase (em_AddPhase p em) < 256 \<and>
      em_phase (em_RemovePhase p em) < 256)"
proof (intro conjI impI set_eqI)
  fix q
  show "q \<in> em_phases (em_SetPhase p em) \<longleftrightarrow> q \<in> (if p = 0 then {} else if p \<le> 8 then {p} else em_phases em)"
    using phase_bit_inj [of q p] phase_bit_less [of p] phase_bit_less [of q]
    by (auto simp: em_phases_iff em_SetPhase_def bit_exp_word u8_1_iff)
  show "q \<in> em_phases (em_AddPhase p em) \<longleftrightarrow> q \<in> (if p = 0 \<or> 8 < p then em_phases em else insert p (em_phases em))"
    using phase_bit_inj [of q p] phase_bit_less [of p]
    by (auto simp: em_phases_iff em_AddPhase_def bit_exp_word bit_or_iff u8_1_iff not_le)
  show "q \<in> em_phases (em_RemovePhase p em) \<longleftrightarrow> q \<in> em_phases em - {p}"
    using phase_bit_inj [of q p] phase_bit_less [of q]
    by (auto simp: em_phases_iff em_RemovePhase_def bit_exp_word bit_and_iff bit_not_iff u8_1_iff)
next
  assume "em_phase em < 256"
  then have b: "\<forall>n\<ge>8. \<not> bit (em_phase em) n" by (simp only: less_256_bits)
  show "em_phase (em_SetPhase p em) < 256" "em_phase (em_AddPhase p em) < 256" "em_phase (em_RemovePhase p em) < 256"
    using b phase_bit_less [of p] unfolding less_256_bits
    by (auto simp: em_SetPhase_def em_AddPhase_def em_RemovePhase_def bit_exp_word bit_or_iff bit_and_iff)
qed

theorem phase_set_witness:
  "em_phases (em_SetPhase 3 em_example) = (if 3 = (0 :: u8) then {} else if 3 \<le> (8 :: u8) then {3} else em_phases em_example) \<and>
   em_phases (em_AddPhase 3 em_example) = (if 3 = (0 :: u8) \<or> 8 < (3 :: u8) then em_phases em_example else insert 3 (em_phases em_example)) \<and>
   em_phases (em_RemovePhase 3 em_example) = em_phases em_example - {3} \<and>
   em_phase (em_SetPhase 3 em_example) < 256 \<and> em_phase (em_AddPhase 3 em_example) < 256 \<and>
   em_phase (em_RemovePhase 3 em_example) < 256"
  using phase_set [of 3 em_example] by (simp add: em_example_def)

end
