(* ===== verification/TextUtil.thy ===== *)
theory TextUtil
  imports Prelude
begin

text \<open>
  The text helpers of src/src/common/Utilities/Util.h and Util.cpp: character classes, case
  mapping, tokenizer, clean-up of chat lines, time and money strings, hex dumps and the
  declension helper. A \<^verbatim>\<open>wchar_t\<close> is its code point, a \<^verbatim>\<open>std::wstring\<close> a list of them;
  the conversions from and to UTF-8 are a library's.
\<close>

type_synonym wchar = nat
type_synonym wstring = "nat list"

section \<open>Character classes\<close>

definition isBasicLatinCharacter :: "wchar \<Rightarrow> bool" where
  "isBasicLatinCharacter wchar =
     (if wchar \<ge> 97 \<and> wchar \<le> 122 then True
      else if wchar \<ge> 65 \<and> wchar \<le> 90 then True
      else False)"

definition isExtendedLatinCharacter :: "wchar \<Rightarrow> bool" where
  "isExtendedLatinCharacter wchar =
     (if isBasicLatinCharacter wchar then True
      else if wchar \<ge> 0x00C0 \<and> wchar \<le> 0x00D6 then True
      else if wchar \<ge> 0x00D8 \<and> wchar \<le> 0x00DE then True
      else if wchar = 0x00DF then True
      else if wchar \<ge> 0x00E0 \<and> wchar \<le> 0x00F6 then True
      else if wchar \<ge> 0x00F8 \<and> wchar \<le> 0x00FE then True
      else if wchar \<ge> 0x0100 \<and> wchar \<le> 0x012F then True
      else if wchar = 0x1E9E then True
      else False)"

definition isCyrillicCharacter :: "wchar \<Rightarrow> bool" where
  "isCyrillicCharacter wchar =
     (if wchar \<ge> 0x0410 \<and> wchar \<le> 0x044F then True
      else if wchar = 0x0401 \<or> wchar = 0x0451 then True
      else False)"

definition isEastAsianCharacter :: "wchar \<Rightarrow> bool" where
  "isEastAsianCharacter wchar =
     (if wchar \<ge> 0x1100 \<and> wchar \<le> 0x11F9 then True
      else if wchar \<ge> 0x3041 \<and> wchar \<le> 0x30FF then True
      else if wchar \<ge> 0x3131 \<and> wchar \<le> 0x318E then True
      else if wchar \<ge> 0x31F0 \<and> wchar \<le> 0x31FF then True
      else if wchar \<ge> 0x3400 \<and> wchar \<le> 0x4DB5 then True
      else if wchar \<ge> 0x4E00 \<and> wchar \<le> 0x9FC3 then True
      else if wchar \<ge> 0xAC00 \<and> wchar \<le> 0xD7A3 then True
      else if wchar \<ge> 0xFF01 \<and> wchar \<le> 0xFFEE then True
      else False)"

definition isNumeric :: "wchar \<Rightarrow> bool" where
  "isNumeric wchar = (wchar \<ge> 48 \<and> wchar \<le> 57)"

definition isNumeric_char :: "char \<Rightarrow> bool" where
  "isNumeric_char c = (of_char c \<ge> (48 :: nat) \<and> of_char c \<le> (57 :: nat))"

text \<open>The loop over a C string: it ends at the NUL.\<close>

fun isNumeric_str :: "string \<Rightarrow> bool" where
  "isNumeric_str [] = True"
| "isNumeric_str (c # cs) =
     (if c = CHR 0x00 then True else if \<not> isNumeric_char c then False else isNumeric_str cs)"

definition isNumericOrSpace :: "wchar \<Rightarrow> bool" where
  "isNumericOrSpace wchar = (isNumeric wchar \<or> wchar = 32)"

fun isBasicLatinString :: "wstring \<Rightarrow> bool \<Rightarrow> bool" where
  "isBasicLatinString [] numericOrSpace = True"
| "isBasicLatinString (w # ws) numericOrSpace =
     (if \<not> isBasicLatinCharacter w \<and> (\<not> numericOrSpace \<or> \<not> isNumericOrSpace w) then False
      else isBasicLatinString ws numericOrSpace)"

fun isExtendedLatinString :: "wstring \<Rightarrow> bool \<Rightarrow> bool" where
  "isExtendedLatinString [] numericOrSpace = True"
| "isExtendedLatinString (w # ws) numericOrSpace =
     (if \<not> isExtendedLatinCharacter w \<and> (\<not> numericOrSpace \<or> \<not> isNumericOrSpace w) then False
      else isExtendedLatinString ws numericOrSpace)"

fun isCyrillicString :: "wstring \<Rightarrow> bool \<Rightarrow> bool" where
  "isCyrillicString [] numericOrSpace = True"
| "isCyrillicString (w # ws) numericOrSpace =
     (if \<not> isCyrillicCharacter w \<and> (\<not> numericOrSpace \<or> \<not> isNumericOrSpace w) then False
      else isCyrillicString ws numericOrSpace)"

fun isEastAsianString :: "wstring \<Rightarrow> bool \<Rightarrow> bool" where
  "isEastAsianString [] numericOrSpace = True"
| "isEastAsianString (w # ws) numericOrSpace =
     (if \<not> isEastAsianCharacter w \<and> (\<not> numericOrSpace \<or> \<not> isNumericOrSpace w) then False
      else isEastAsianString ws numericOrSpace)"

section \<open>Case mapping\<close>

text \<open>\<^verbatim>\<open>uint16(wchar)\<close> truncates; the sum that follows is an \<^verbatim>\<open>int\<close>.\<close>

definition wcharToUpper :: "wchar \<Rightarrow> wchar" where
  "wcharToUpper wchar =
     (if wchar \<ge> 97 \<and> wchar \<le> 122 then wchar mod 65536 - 0x0020
      else if wchar = 0x00DF then 0x1E9E
      else if wchar \<ge> 0x00E0 \<and> wchar \<le> 0x00F6 then wchar mod 65536 - 0x0020
      else if wchar \<ge> 0x00F8 \<and> wchar \<le> 0x00FE then wchar mod 65536 - 0x0020
      else if wchar \<ge> 0x0101 \<and> wchar \<le> 0x012F \<and> wchar mod 2 = 1 then wchar mod 65536 - 0x0001
      else if wchar \<ge> 0x0430 \<and> wchar \<le> 0x044F then wchar mod 65536 - 0x0020
      else if wchar = 0x0451 then 0x0401
      else wchar)"

definition wcharToUpperOnlyLatin :: "wchar \<Rightarrow> wchar" where
  "wcharToUpperOnlyLatin wchar = (if isBasicLatinCharacter wchar then wcharToUpper wchar else wchar)"

definition wcharToLower :: "wchar \<Rightarrow> wchar" where
  "wcharToLower wchar =
     (if wchar \<ge> 65 \<and> wchar \<le> 90 then wchar mod 65536 + 0x0020
      else if wchar \<ge> 0x00C0 \<and> wchar \<le> 0x00D6 then wchar mod 65536 + 0x0020
      else if wchar \<ge> 0x00D8 \<and> wchar \<le> 0x00DE then wchar mod 65536 + 0x0020
      else if wchar \<ge> 0x0100 \<and> wchar \<le> 0x012E \<and> wchar mod 2 = 0 then wchar mod 65536 + 0x0001
      else if wchar = 0x1E9E then 0x00DF
      else if wchar = 0x0401 then 0x0451
      else if wchar \<ge> 0x0410 \<and> wchar \<le> 0x042F then wchar mod 65536 + 0x0020
      else wchar)"

definition wstrToUpper :: "wstring \<Rightarrow> wstring" where
  "wstrToUpper str = map wcharToUpper str"

definition wstrToLower :: "wstring \<Rightarrow> wstring" where
  "wstrToLower str = map wcharToLower str"

section \<open>Searching\<close>

fun isInfix :: "'a list \<Rightarrow> 'a list \<Rightarrow> bool" where
  "isInfix xs [] = (xs = [])"
| "isInfix xs (y # ys) = (take (length xs) (y # ys) = xs \<or> isInfix xs ys)"

text \<open>\<^verbatim>\<open>Utf8FitTo\<close>; the decoder gives \<^const>\<open>None\<close> for invalid UTF-8.\<close>

definition Utf8FitTo :: "(string \<Rightarrow> wstring option) \<Rightarrow> string \<Rightarrow> wstring \<Rightarrow> bool" where
  "Utf8FitTo Utf8toWStr str search =
     (case Utf8toWStr str of
        None \<Rightarrow> False
      | Some temp \<Rightarrow> if \<not> isInfix search (wstrToLower temp) then False else True)"

section \<open>Tokenizer\<close>

text \<open>
  The loop of the constructor: \<open>cur\<close> is the text from \<^verbatim>\<open>posold\<close> to \<^verbatim>\<open>posnew\<close>, the list
  is what lies at \<^verbatim>\<open>posnew\<close>. Running out of the copied array is \<^const>\<open>None\<close>.
\<close>

fun tok_loop :: "char \<Rightarrow> string \<Rightarrow> string list \<Rightarrow> string \<Rightarrow> string list option" where
  "tok_loop sep cur storage [] = None"
| "tok_loop sep cur storage (c # cs) =
     (if c = sep then tok_loop sep '''' (storage @ [cur]) cs
      else if c = CHR 0x00 then Some (if cur \<noteq> '''' then storage @ [cur] else storage)
      else tok_loop sep (cur @ [c]) storage cs)"

definition Tokenizer :: "string \<Rightarrow> char \<Rightarrow> string list option" where
  "Tokenizer src sep = tok_loop sep '''' [] (src @ [CHR 0x00])"

section \<open>Invisible characters\<close>

definition invChars :: string where
  "invChars = [CHR 0x20, CHR 0x09, CHR 0x07, CHR 0x0A]"

text \<open>
  The loop of \<^verbatim>\<open>stripLineInvisibleChars\<close>: what has been written, and whether the last
  character read was an invisible one. Writing never overtakes reading.
\<close>

fun strip_loop :: "bool \<Rightarrow> string \<Rightarrow> string" where
  "strip_loop space [] = []"
| "strip_loop space (c # cs) =
     (if c \<in> set invChars then
        if \<not> space then CHR 0x20 # strip_loop True cs else strip_loop space cs
      else c # strip_loop False cs)"

definition stripLineInvisibleChars :: "string \<Rightarrow> string" where
  "stripLineInvisibleChars str =
     (let str = strip_loop False str
      in if isInfix ''|TInterface'' str then '''' else str)"

section \<open>Time and money strings\<close>

definition secsToTimeString :: "u64 \<Rightarrow> bool \<Rightarrow> string" where
  "secsToTimeString timeInSecs shortText =
     (let secs = timeInSecs mod 60;
          minutes = timeInSecs mod 3600 div 60;
          hours = timeInSecs mod 86400 div 3600;
          days = timeInSecs div 86400;
          str =
            (if days \<noteq> 0 then dec_string (unat days) @ (if shortText then ''d'' else '' day(s) '') else '''') @
            (if hours \<noteq> 0 then dec_string (unat hours) @ (if shortText then ''h'' else '' hour(s) '') else '''') @
            (if minutes \<noteq> 0 then dec_string (unat minutes) @ (if shortText then ''m'' else '' minute(s) '') else '''') @
            (if secs \<noteq> 0 \<or> (days = 0 \<and> hours = 0 \<and> minutes = 0)
             then dec_string (unat secs) @ (if shortText then ''s'' else '' second(s) '') else '''')
      in if \<not> shortText \<and> str \<noteq> '''' \<and> last str = CHR 0x20 then butlast str else str)"

fun time_loop :: "u32 \<Rightarrow> u32 \<Rightarrow> string \<Rightarrow> u32" where
  "time_loop secs buffer [] = secs"
| "time_loop secs buffer (c # cs) =
     (if isNumeric_char c then time_loop secs (buffer * 10 + (of_char c - 48)) cs
      else if c = CHR ''d'' then time_loop (secs + buffer * 86400) 0 cs
      else if c = CHR ''h'' then time_loop (secs + buffer * 3600) 0 cs
      else if c = CHR ''m'' then time_loop (secs + buffer * 60) 0 cs
      else if c = CHR ''s'' then time_loop (secs + buffer * 1) 0 cs
      else 0)"

definition TimeStringToSecs :: "string \<Rightarrow> u32" where
  "TimeStringToSecs timestring = time_loop 0 0 timestring"

text \<open>The C library's \<^verbatim>\<open>atoi\<close>: blanks, a sign, digits; the rest is ignored.\<close>

fun digits_value :: "int \<Rightarrow> string \<Rightarrow> int" where
  "digits_value n [] = n"
| "digits_value n (c # cs) = (if isNumeric_char c then digits_value (n * 10 + (of_char c - 48)) cs else n)"

definition atoi :: "string \<Rightarrow> int" where
  "atoi s =
     (case dropWhile (\<lambda>c. c \<in> {CHR 0x20, CHR 0x09, CHR 0x0A, CHR 0x0B, CHR 0x0C, CHR 0x0D}) s of
        [] \<Rightarrow> 0
      | c # cs \<Rightarrow> if c = CHR ''-'' then - digits_value 0 cs
          else if c = CHR ''+'' then digits_value 0 cs else digits_value 0 (c # cs))"

fun money_loop :: "u32 \<Rightarrow> string list \<Rightarrow> u32" where
  "money_loop money [] = money"
| "money_loop money (t # ts) =
     (let gCount = count_list t (CHR ''g'');
          sCount = count_list t (CHR ''s'');
          cCount = count_list t (CHR ''c'')
      in if gCount + sCount + cCount \<noteq> 1 then 0
         else let amount = word_of_int (atoi t)
              in money_loop
                   (if gCount = 1 then money + amount * 100 * 100
                    else if sCount = 1 then money + amount * 100
                    else if cCount = 1 then money + amount else money) ts)"

text \<open>The result is the \<^verbatim>\<open>int32\<close> with these bits.\<close>

definition MoneyStringToMoney :: "string \<Rightarrow> u32 option" where
  "MoneyStringToMoney moneyString =
     (if \<not> (count_list moneyString (CHR ''g'') = 1 \<or> count_list moneyString (CHR ''s'') = 1 \<or>
            count_list moneyString (CHR ''c'') = 1) then Some 0
      else map_option (money_loop 0) (Tokenizer moneyString (CHR 0x20)))"

section \<open>Hex dumps\<close>

definition hex_digit :: "nat \<Rightarrow> char" where
  "hex_digit n = (if n < 10 then char_of (48 + n) else char_of (55 + n))"

definition hex2 :: "u8 \<Rightarrow> string" where
  "hex2 b = [hex_digit (unat b div 16), hex_digit (unat b mod 16)]"

text \<open>The positions the loop visits; reading past the bytes given is \<^const>\<open>None\<close>.\<close>

definition ByteArrayToHexStr :: "u8 list \<Rightarrow> nat \<Rightarrow> bool \<Rightarrow> string option" where
  "ByteArrayToHexStr bytes arrayLen reverse =
     (let positions = (if reverse then rev [0..<arrayLen] else [0..<arrayLen])
      in if arrayLen \<le> length bytes then Some (concat (map (\<lambda>i. hex2 (bytes ! i)) positions))
         else None)"

section \<open>Declension\<close>

text \<open>
  The endings of \<^verbatim>\<open>GetMainPartOfName\<close>. Each is a \<^verbatim>\<open>std::wstring\<close> initialised from a
  braced list that ends in \<^verbatim>\<open>wchar_t(0x0000)\<close>: the zero is an element of the string.
\<close>

definition dropEnds :: "wstring list list" where
  "dropEnds =
    (let a_End = [0x0430, 0x0000]; o_End = [0x043E, 0x0000]; ya_End = [0x044F, 0x0000];
         ie_End = [0x0435, 0x0000]; i_End = [0x0438, 0x0000]; yeru_End = [0x044B, 0x0000];
         u_End = [0x0443, 0x0000]; yu_End = [0x044E, 0x0000]; oj_End = [0x043E, 0x0439, 0x0000];
         ie_j_End = [0x0435, 0x0439, 0x0000]; io_j_End = [0x0451, 0x0439, 0x0000];
         o_m_End = [0x043E, 0x043C, 0x0000]; io_m_End = [0x0451, 0x043C, 0x0000];
         ie_m_End = [0x0435, 0x043C, 0x0000]; soft_End = [0x044C, 0x0000]; j_End = [0x0439, 0x0000]
     in [[a_End, o_End, ya_End, ie_End, soft_End, j_End],
         [a_End, ya_End, yeru_End, i_End],
         [ie_End, u_End, yu_End, i_End],
         [u_End, yu_End, o_End, ie_End, soft_End, ya_End, a_End],
         [oj_End, io_j_End, ie_j_End, o_m_End, io_m_End, ie_m_End, yu_End],
         [ie_End, i_End]])"

fun drop_ending :: "wstring \<Rightarrow> wstring list \<Rightarrow> wstring" where
  "drop_ending wname [] = wname"
| "drop_ending wname (ending # endings) =
     (let thisLen = length wname; endLen = length ending
      in if \<not> endLen \<le> thisLen then drop_ending wname endings
         else if drop (thisLen - endLen) wname = ending then take (thisLen - endLen) wname
         else drop_ending wname endings)"

definition GetMainPartOfName :: "wstring \<Rightarrow> u32 \<Rightarrow> wstring" where
  "GetMainPartOfName wname declension =
     (if wname = [] \<or> \<not> isCyrillicCharacter (hd wname) \<or> declension > 5 then wname
      else drop_ending wname (dropEnds ! unat declension))"

section \<open>Lemmas\<close>

lemma of_char_digit: "d < 10 \<Longrightarrow> (of_char (digit_char d) :: nat) = 48 + d"
  by (simp add: digit_char_def of_char_of)

lemma of_char_word: "(of_char c :: 'a::len word) = of_nat (of_char c)"
  by (simp add: of_nat_of_char)

lemma time_loop_digit:
  "d < 10 \<Longrightarrow> time_loop secs buffer (digit_char d # cs) = time_loop secs (buffer * 10 + of_nat d) cs"
  by (simp add: isNumeric_char_def of_char_digit of_char_word)

lemma time_loop_dec: "time_loop secs 0 (dec_string n @ cs) = time_loop secs (of_nat n) cs"
proof (induction n arbitrary: cs rule: dec_string.induct)
  case (1 n)
  show ?case
  proof (cases "n < 10")
    case True
    then show ?thesis by (subst dec_string.simps) (simp add: time_loop_digit del: time_loop.simps)
  next
    case False
    have "time_loop secs 0 (dec_string n @ cs) =
        time_loop secs 0 (dec_string (n div 10) @ digit_char (n mod 10) # cs)"
      using False by (subst dec_string.simps) simp
    also have "\<dots> = time_loop secs (of_nat (n div 10) * 10 + of_nat (n mod 10)) cs"
      using 1 [OF False] by (simp add: time_loop_digit del: time_loop.simps)
    also have "of_nat (n div 10) * 10 + of_nat (n mod 10) = (of_nat (n div 10 * 10 + n mod 10) :: u32)"
      by (simp only: of_nat_add of_nat_mult of_nat_numeral)
    finally show ?thesis by (simp only: div_mult_mod_eq)
  qed
qed

lemma time_loop_unit:
  "time_loop s 0 (dec_string n @ CHR ''d'' # cs) = time_loop (s + of_nat n * 86400) 0 cs"
  "time_loop s 0 (dec_string n @ CHR ''h'' # cs) = time_loop (s + of_nat n * 3600) 0 cs"
  "time_loop s 0 (dec_string n @ CHR ''m'' # cs) = time_loop (s + of_nat n * 60) 0 cs"
  "time_loop s 0 (dec_string n @ CHR ''s'' # cs) = time_loop (s + of_nat n) 0 cs"
  by (simp_all add: time_loop_dec isNumeric_char_def)

lemma tok_loop_tokens:
  "(\<forall>t\<in>set ts. sep \<notin> set t \<and> CHR 0x00 \<notin> set t) \<Longrightarrow>
    tok_loop sep '''' storage (concat (map (\<lambda>t. t @ [sep]) ts) @ cs) = tok_loop sep '''' (storage @ ts) cs"
proof (induction ts arbitrary: storage)
  case Nil
  then show ?case by simp
next
  case (Cons t ts)
  have "sep \<notin> set t \<Longrightarrow> CHR 0x00 \<notin> set t \<Longrightarrow>
      tok_loop sep cur storage (t @ sep # cs) = tok_loop sep '''' (storage @ [cur @ t]) cs" for cur cs
    by (induction t arbitrary: cur) auto
  with Cons show ?case by simp
qed

lemma tok_loop_last:
  "sep \<notin> set t \<Longrightarrow> CHR 0x00 \<notin> set t \<Longrightarrow> sep \<noteq> CHR 0x00 \<Longrightarrow>
    tok_loop sep cur storage (t @ [CHR 0x00]) = Some (if cur @ t \<noteq> '''' then storage @ [cur @ t] else storage)"
  by (induction t arbitrary: cur) auto

lemma strip_loop_cases:
  "strip_loop False s = strip_loop True s \<or> strip_loop False s = CHR 0x20 # strip_loop True s"
  by (cases s) auto

lemma strip_loop_idem: "strip_loop b (strip_loop b s) = strip_loop b s"
proof (induction b s rule: strip_loop.induct)
  case (2 space c cs)
  have "CHR 0x20 \<in> set invChars" by (simp add: invChars_def)
  with 2 show ?case by auto
qed simp

section \<open>Properties\<close>

text \<open>
  A duration printed in short form is read back exactly, for every number of seconds
  that fits the reader's 32 bits.
\<close>

theorem time_string_roundtrip:
  "TimeStringToSecs (secsToTimeString (ucast t) True) = t"
proof -
  define n where "n = unat t"
  let ?x = "ucast t :: u64"
  have "unat t < 2 ^ LENGTH(32)" by (rule unsigned_less)
  then have x: "unat ?x = n"
    by (simp add: n_def unsigned_ucast_eq take_bit_nat_eq_self_iff)
  have nz: "w \<noteq> 0 \<longleftrightarrow> unat w \<noteq> 0" for w :: u64 by (simp add: unat_eq_0)
  have parts: "unat (?x div 86400) = n div 86400" "unat (?x mod 86400 div 3600) = n mod 86400 div 3600"
      "unat (?x mod 3600 div 60) = n mod 3600 div 60" "unat (?x mod 60) = n mod 60"
    by (simp_all add: unat_div_distrib unat_mod_distrib x)
  have unit: "time_loop s 0 ((if b then dec_string k @ [u] else '''') @ cs) =
      (if b then time_loop s 0 (dec_string k @ u # cs) else time_loop s 0 cs)" for s b k u cs
    by simp
  have "n div 86400 * 86400 + n mod 86400 = n" by (rule div_mult_mod_eq)
  moreover have "n mod 86400 div 3600 * 3600 + n mod 3600 = n mod 86400"
    using div_mult_mod_eq [of "n mod 86400" 3600] mod_mod_cancel [of 3600 86400 n] by simp
  moreover have "n mod 3600 div 60 * 60 + n mod 60 = n mod 3600"
    using div_mult_mod_eq [of "n mod 3600" 60] mod_mod_cancel [of 60 3600 n] by simp
  ultimately have "n = n div 86400 * 86400 + n mod 86400 div 3600 * 3600 + n mod 3600 div 60 * 60 + n mod 60"
    by linarith
  then have sum: "(of_nat (n div 86400) * 86400 + of_nat (n mod 86400 div 3600) * 3600 +
      of_nat (n mod 3600 div 60) * 60 + of_nat (n mod 60) :: u32) = of_nat n"
    by (metis (no_types, lifting) of_nat_add of_nat_mult of_nat_numeral)
  have "TimeStringToSecs (secsToTimeString ?x True) =
      of_nat (n div 86400) * 86400 + of_nat (n mod 86400 div 3600) * 3600 +
      of_nat (n mod 3600 div 60) * 60 + of_nat (n mod 60)"
    unfolding TimeStringToSecs_def secsToTimeString_def Let_def nz parts
    by (simp add: time_loop_unit [where cs = "''''", simplified] time_loop_unit)
  then show ?thesis by (simp add: sum) (simp add: n_def)
qed

text \<open>The ranges the two case mappings tell apart.\<close>

lemma range_ex: "a \<le> c \<Longrightarrow> c < a + n \<Longrightarrow> \<exists>k. c = a + k \<and> k < (n :: nat)"
  by presburger

lemma wchar_case:
  obtains
    (latin) k where "c = 97 + k" "k < 26" | (Latin) k where "c = 65 + k" "k < 26"
  | (grave) k where "c = 0xE0 + k" "k < 23" | (Grave) k where "c = 0xC0 + k" "k < 23"
  | (stroke) k where "c = 0xF8 + k" "k < 7" | (Stroke) k where "c = 0xD8 + k" "k < 7"
  | (macron) k where "c = 0x101 + 2 * k" "k < 24" | (Macron) k where "c = 0x100 + 2 * k" "k < 24"
  | (cyr) k where "c = 0x430 + k" "k < 32" | (Cyr) k where "c = 0x410 + k" "k < 32"
  | (sharp) "c = 0xDF" | (Sharp) "c = 0x1E9E" | (io) "c = 0x451" | (Io) "c = 0x401"
  | (other) "\<not> (97 \<le> c \<and> c \<le> 122)" "\<not> (65 \<le> c \<and> c \<le> 90)" "\<not> (0xE0 \<le> c \<and> c \<le> 0xF6)"
      "\<not> (0xC0 \<le> c \<and> c \<le> 0xD6)" "\<not> (0xF8 \<le> c \<and> c \<le> 0xFE)" "\<not> (0xD8 \<le> c \<and> c \<le> 0xDE)"
      "\<not> (0x430 \<le> c \<and> c \<le> 0x44F)" "\<not> (0x410 \<le> c \<and> c \<le> 0x42F)"
      "\<not> (0x101 \<le> c \<and> c \<le> 0x12F \<and> c mod 2 = 1)" "\<not> (0x100 \<le> c \<and> c \<le> 0x12E \<and> c mod 2 = 0)"
      "c \<noteq> 0xDF" "c \<noteq> 0x1E9E" "c \<noteq> 0x451" "c \<noteq> (0x401 :: nat)"
proof (rule ccontr)
  assume n: "\<not> thesis"
  have r0: "\<not> (97 \<le> c \<and> c < 97 + 26)" using n latin range_ex [of "97" c "26"] by blast
  have r1: "\<not> (65 \<le> c \<and> c < 65 + 26)" using n Latin range_ex [of "65" c "26"] by blast
  have r2: "\<not> (0xE0 \<le> c \<and> c < 0xE0 + 23)" using n grave range_ex [of "0xE0" c "23"] by blast
  have r3: "\<not> (0xC0 \<le> c \<and> c < 0xC0 + 23)" using n Grave range_ex [of "0xC0" c "23"] by blast
  have r4: "\<not> (0xF8 \<le> c \<and> c < 0xF8 + 7)" using n stroke range_ex [of "0xF8" c "7"] by blast
  have r5: "\<not> (0xD8 \<le> c \<and> c < 0xD8 + 7)" using n Stroke range_ex [of "0xD8" c "7"] by blast
  have r6: "\<not> (0x430 \<le> c \<and> c < 0x430 + 32)" using n cyr range_ex [of "0x430" c "32"] by blast
  have r7: "\<not> (0x410 \<le> c \<and> c < 0x410 + 32)" using n Cyr range_ex [of "0x410" c "32"] by blast
  have r8: "\<not> (0x100 \<le> c \<and> c < 0x100 + 48)"
  proof
    assume "0x100 \<le> c \<and> c < 0x100 + 48"
    then have "(c = 0x101 + 2 * ((c - 0x100) div 2) \<or> c = 0x100 + 2 * ((c - 0x100) div 2)) \<and> (c - 0x100) div 2 < 24"
      by presburger
    then show False using n macron Macron by blast
  qed
  have "c \<noteq> 0xDF" "c \<noteq> 0x1E9E" "c \<noteq> 0x451" "c \<noteq> 0x401" using n sharp Sharp io Io by blast+
  moreover have "\<not> (97 \<le> c \<and> c \<le> 122)" using r0 by auto
  moreover have "\<not> (65 \<le> c \<and> c \<le> 90)" using r1 by auto
  moreover have "\<not> (0xE0 \<le> c \<and> c \<le> 0xF6)" using r2 by auto
  moreover have "\<not> (0xC0 \<le> c \<and> c \<le> 0xD6)" using r3 by auto
  moreover have "\<not> (0xF8 \<le> c \<and> c \<le> 0xFE)" using r4 by auto
  moreover have "\<not> (0xD8 \<le> c \<and> c \<le> 0xDE)" using r5 by auto
  moreover have "\<not> (0x430 \<le> c \<and> c \<le> 0x44F)" using r6 by auto
  moreover have "\<not> (0x410 \<le> c \<and> c \<le> 0x42F)" using r7 by auto
  moreover have "\<not> (0x101 \<le> c \<and> c \<le> 0x12F \<and> c mod 2 = 1)" "\<not> (0x100 \<le> c \<and> c \<le> 0x12E \<and> c mod 2 = 0)"
    using r8 by auto
  ultimately have thesis by (intro other)
  with n show False by blast
qed

lemma wchar_case_laws:
  "wcharToLower (wcharToUpper c) = wcharToLower c \<and> wcharToUpper (wcharToLower c) = wcharToUpper c \<and>
      wcharToUpper (wcharToUpper c) = wcharToUpper c \<and> wcharToLower (wcharToLower c) = wcharToLower c"
proof (rule wchar_case [of c])
  fix k assume "c = 0x101 + 2 * k" "k < 24"
  then have "wcharToUpper c = 0x100 + 2 * k" "wcharToLower c = c" "wcharToLower (0x100 + 2 * k) = c"
      "wcharToUpper (0x100 + 2 * k) = 0x100 + 2 * k"
    by (simp_all add: wcharToLower_def wcharToUpper_def)
  then show ?thesis by simp
next
  fix k assume "c = 0x100 + 2 * k" "k < 24"
  then have "wcharToUpper c = c" "wcharToLower c = 0x101 + 2 * k" "wcharToLower (0x101 + 2 * k) = 0x101 + 2 * k"
      "wcharToUpper (0x101 + 2 * k) = c"
    by (simp_all add: wcharToLower_def wcharToUpper_def)
  then show ?thesis by simp
next
  assume "\<not> (97 \<le> c \<and> c \<le> 122)" "\<not> (65 \<le> c \<and> c \<le> 90)" "\<not> (0xE0 \<le> c \<and> c \<le> 0xF6)"
    "\<not> (0xC0 \<le> c \<and> c \<le> 0xD6)" "\<not> (0xF8 \<le> c \<and> c \<le> 0xFE)" "\<not> (0xD8 \<le> c \<and> c \<le> 0xDE)"
    "\<not> (0x430 \<le> c \<and> c \<le> 0x44F)" "\<not> (0x410 \<le> c \<and> c \<le> 0x42F)"
    "\<not> (0x101 \<le> c \<and> c \<le> 0x12F \<and> c mod 2 = 1)" "\<not> (0x100 \<le> c \<and> c \<le> 0x12E \<and> c mod 2 = 0)"
    "c \<noteq> 0xDF" "c \<noteq> 0x1E9E" "c \<noteq> 0x451" "c \<noteq> 0x401"
  then have "wcharToUpper c = c" "wcharToLower c = c"
    unfolding wcharToUpper_def wcharToLower_def by (simp_all only: if_False)
  then show ?thesis by simp
qed (simp_all add: wcharToLower_def wcharToUpper_def)

lemma wstrToLower_idem: "wstrToLower (wstrToLower s) = wstrToLower s"
  using wchar_case_laws by (simp add: wstrToLower_def)

text \<open>
  Upper and lower case mapping are compatible: each is idempotent, and each forgets
  the other, so two names equal in upper case are equal in lower case.
\<close>

theorem case_mapping:
  "wstrToLower (wstrToUpper s) = wstrToLower s \<and> wstrToUpper (wstrToLower s) = wstrToUpper s \<and>
   wstrToUpper (wstrToUpper s) = wstrToUpper s \<and> wstrToLower (wstrToLower s) = wstrToLower s"
  using wchar_case_laws by (simp add: wstrToLower_def wstrToUpper_def)

text \<open>
  The tokenizer splits at every separator, keeps empty tokens between separators, and
  drops only an empty token at the end.
\<close>

theorem tokenizer_splits:
  assumes "sep \<noteq> CHR 0x00" and "\<forall>t\<in>set (ts @ [l]). sep \<notin> set t \<and> CHR 0x00 \<notin> set t"
  shows "Tokenizer (concat (map (\<lambda>t. t @ [sep]) ts) @ l) sep = Some (if l \<noteq> '''' then ts @ [l] else ts)"
  using assms tok_loop_tokens [of ts sep "[]" "l @ [CHR 0x00]"] tok_loop_last [of sep l "''''" ts]
  by (simp add: Tokenizer_def)

theorem tokenizer_splits_witness:
  "Tokenizer (concat (map (\<lambda>t. t @ [CHR 0x20]) [''12'', '''', ''7'']) @ ''300'') (CHR 0x20) =
    Some (if ''300'' \<noteq> '''' then [''12'', '''', ''7''] @ [''300''] else [''12'', '''', ''7''])"
  by (rule tokenizer_splits) simp_all

lemma strip_loop_chars: "set (strip_loop b s) \<inter> set invChars \<subseteq> {CHR 0x20}"
  by (induction b s rule: strip_loop.induct) auto

lemma strip_loop_blanks:
  "(b \<longrightarrow> strip_loop b s = [] \<or> hd (strip_loop b s) \<noteq> CHR 0x20) \<and>
   \<not> isInfix [CHR 0x20, CHR 0x20] (strip_loop b s)"
proof (induction b s rule: strip_loop.induct)
  case (2 space c cs)
  have i: "CHR 0x20 \<in> set invChars" by (simp add: invChars_def)
  have hd2: "take 2 (x # xs) = [CHR 0x20, CHR 0x20] \<Longrightarrow> x = CHR 0x20 \<and> xs \<noteq> [] \<and> hd xs = CHR 0x20" for x xs
    by (cases xs) auto
  show ?case
  proof (cases "c \<in> set invChars")
    case True
    show ?thesis
    proof (cases space)
      case True
      with \<open>c \<in> set invChars\<close> 2(2) show ?thesis by simp
    next
      case False
      with True 2(1) hd2 [of "CHR 0x20" "strip_loop True cs"] show ?thesis by auto
    qed
  next
    case False
    with i 2(3) hd2 [of c "strip_loop False cs"] show ?thesis by auto
  qed
qed simp

text \<open>
  A cleaned chat line holds no control blanks, no two blanks in a row and no
  \<^verbatim>\<open>|TInterface\<close> escape, and cleaning it again changes nothing.
\<close>

theorem strip_line_clean:
  "stripLineInvisibleChars (stripLineInvisibleChars s) = stripLineInvisibleChars s \<and>
   set (stripLineInvisibleChars s) \<inter> {CHR 0x09, CHR 0x07, CHR 0x0A} = {} \<and>
   \<not> isInfix [CHR 0x20, CHR 0x20] (stripLineInvisibleChars s) \<and>
   \<not> isInfix ''|TInterface'' (stripLineInvisibleChars s)"
  using strip_loop_chars [of False s] strip_loop_blanks [of False s]
  by (auto simp: stripLineInvisibleChars_def Let_def strip_loop_idem invChars_def)

lemma drop_ending_none:
  "0 \<notin> set wname \<Longrightarrow> \<forall>e\<in>set ends. 0 \<in> set e \<Longrightarrow> drop_ending wname ends = wname"
  by (induction ends) (auto simp: Let_def, metis in_set_dropD)

lemma dropEnds_zero: "\<forall>ends\<in>set dropEnds. \<forall>e\<in>set ends. 0 \<in> set e"
  by (simp add: dropEnds_def Let_def)

text \<open>
  \<^verbatim>\<open>GetMainPartOfName\<close> never drops an ending: every ending it compares carries the
  terminating zero of its initialiser, which no name contains.
\<close>

theorem main_part_never_drops:
  assumes "0 \<notin> set wname"
  shows "GetMainPartOfName wname declension = wname"
proof (cases "declension > 5")
  case True
  then show ?thesis by (simp add: GetMainPartOfName_def)
next
  case False
  then have "unat declension < length dropEnds" by (simp add: word_less_nat_alt dropEnds_def Let_def)
  then have "\<forall>e\<in>set (dropEnds ! unat declension). 0 \<in> set e" using dropEnds_zero nth_mem by blast
  with drop_ending_none [OF assms] show ?thesis by (simp add: GetMainPartOfName_def)
qed

theorem main_part_never_drops_witness:
  "GetMainPartOfName [0x041C, 0x0430, 0x0448, 0x0430] 0 = [0x041C, 0x0430, 0x0448, 0x0430]"
  by (rule main_part_never_drops) simp

end
