(* ===== verification/Flag96.thy ===== *)
theory Flag96
  imports Prelude
begin

text \<open>
  The 96-bit spell family masks, class \<^verbatim>\<open>flag96\<close> of src/src/common/Utilities/Util.h, with
  the comparison helper and the hook list of the same file. The order the class defines, by
  which masks are map keys, is the type's \<^verbatim>\<open>linorder\<close>.
\<close>

datatype flag96 = Flag96 (part0: u32) (part1: u32) (part2: u32)

definition flag96_new :: "u32 \<Rightarrow> u32 \<Rightarrow> u32 \<Rightarrow> flag96" where
  "flag96_new p1 p2 p3 = Flag96 p1 p2 p3"

definition flag96_new64 :: "u64 \<Rightarrow> u32 \<Rightarrow> flag96" where
  "flag96_new64 p1 p2 = Flag96 (ucast (p1 AND 0x00000000FFFFFFFF)) (ucast (drop_bit 32 p1 AND 0x00000000FFFFFFFF)) p2"

text \<open>\<^verbatim>\<open>part[i]\<close>; an index past the array is \<^const>\<open>None\<close>.\<close>

definition flag96_part :: "flag96 \<Rightarrow> nat \<Rightarrow> u32" where
  "flag96_part f i = [part0 f, part1 f, part2 f] ! i"

definition flag96_at :: "flag96 \<Rightarrow> u8 \<Rightarrow> u32 option" where
  "flag96_at f el = (if unat el < 3 then Some (flag96_part f (unat el)) else None)"

definition flag96_IsEqual :: "flag96 \<Rightarrow> u32 \<Rightarrow> u32 \<Rightarrow> u32 \<Rightarrow> bool" where
  "flag96_IsEqual f p1 p2 p3 = (part0 f = p1 \<and> part1 f = p2 \<and> part2 f = p3)"

definition flag96_HasFlag :: "flag96 \<Rightarrow> u32 \<Rightarrow> u32 \<Rightarrow> u32 \<Rightarrow> bool" where
  "flag96_HasFlag f p1 p2 p3 = (part0 f AND p1 \<noteq> 0 \<or> part1 f AND p2 \<noteq> 0 \<or> part2 f AND p3 \<noteq> 0)"

definition flag96_Set :: "flag96 \<Rightarrow> u32 \<Rightarrow> u32 \<Rightarrow> u32 \<Rightarrow> flag96" where
  "flag96_Set f p1 p2 p3 = Flag96 p1 p2 p3"

definition flag96_assign :: "flag96 \<Rightarrow> flag96 \<Rightarrow> flag96" where
  "flag96_assign f right = Flag96 (part0 right) (part1 right) (part2 right)"

text \<open>The loop of \<^verbatim>\<open>operator<\<close>, from the high part down.\<close>

fun flag96_less_loop :: "flag96 \<Rightarrow> flag96 \<Rightarrow> nat \<Rightarrow> bool" where
  "flag96_less_loop f right 0 = False"
| "flag96_less_loop f right (Suc i) =
     (if flag96_part f i < flag96_part right i then True
      else if flag96_part f i > flag96_part right i then False
      else flag96_less_loop f right i)"

definition flag96_less :: "flag96 \<Rightarrow> flag96 \<Rightarrow> bool" where
  "flag96_less f right = flag96_less_loop f right 3"

definition flag96_eq :: "flag96 \<Rightarrow> flag96 \<Rightarrow> bool" where
  "flag96_eq f right = (part0 f = part0 right \<and> part1 f = part1 right \<and> part2 f = part2 right)"

definition flag96_neq :: "flag96 \<Rightarrow> flag96 \<Rightarrow> bool" where
  "flag96_neq f right = (\<not> flag96_eq f right)"

definition flag96_and :: "flag96 \<Rightarrow> flag96 \<Rightarrow> flag96" where
  "flag96_and f right = Flag96 (part0 f AND part0 right) (part1 f AND part1 right) (part2 f AND part2 right)"

definition flag96_or :: "flag96 \<Rightarrow> flag96 \<Rightarrow> flag96" where
  "flag96_or f right = Flag96 (part0 f OR part0 right) (part1 f OR part1 right) (part2 f OR part2 right)"

definition flag96_not :: "flag96 \<Rightarrow> flag96" where
  "flag96_not f = Flag96 (NOT (part0 f)) (NOT (part1 f)) (NOT (part2 f))"

definition flag96_xor :: "flag96 \<Rightarrow> flag96 \<Rightarrow> flag96" where
  "flag96_xor f right = Flag96 (part0 f XOR part0 right) (part1 f XOR part1 right) (part2 f XOR part2 right)"

definition flag96_bool :: "flag96 \<Rightarrow> bool" where
  "flag96_bool f = (part0 f \<noteq> 0 \<or> part1 f \<noteq> 0 \<or> part2 f \<noteq> 0)"

definition flag96_isnull :: "flag96 \<Rightarrow> bool" where
  "flag96_isnull f = (\<not> flag96_bool f)"

section \<open>Comparisons and hooks\<close>

datatype comparisionType =
  COMP_TYPE_EQ | COMP_TYPE_HIGH | COMP_TYPE_LOW | COMP_TYPE_HIGH_EQ | COMP_TYPE_LOW_EQ | COMP_TYPE_MAX

text \<open>\<^const>\<open>None\<close> is the failed assertion of the default branch.\<close>

definition CompareValues :: "comparisionType \<Rightarrow> 'a::linorder \<Rightarrow> 'a \<Rightarrow> bool option" where
  "CompareValues type val1 val2 =
     (case type of
        COMP_TYPE_EQ \<Rightarrow> Some (val1 = val2)
      | COMP_TYPE_HIGH \<Rightarrow> Some (val1 > val2)
      | COMP_TYPE_LOW \<Rightarrow> Some (val1 < val2)
      | COMP_TYPE_HIGH_EQ \<Rightarrow> Some (val1 \<ge> val2)
      | COMP_TYPE_LOW_EQ \<Rightarrow> Some (val1 \<le> val2)
      | COMP_TYPE_MAX \<Rightarrow> None)"

type_synonym 'a hookList = "'a list"

definition hook_add :: "'a hookList \<Rightarrow> 'a \<Rightarrow> 'a hookList" where
  "hook_add m_list t = m_list @ [t]"

definition hook_remove :: "'a hookList \<Rightarrow> 'a \<Rightarrow> 'a hookList" where
  "hook_remove m_list t = removeAll t m_list"

definition hook_size :: "'a hookList \<Rightarrow> nat" where
  "hook_size m_list = length m_list"

section \<open>The order of the masks\<close>

text \<open>The 96-bit number a mask stands for.\<close>

definition flag96_value :: "flag96 \<Rightarrow> nat" where
  "flag96_value f = unat (part0 f) + 2 ^ 32 * unat (part1 f) + 2 ^ 64 * unat (part2 f)"

lemma two_digits:
  fixes a b c d n :: nat
  assumes "a < n" "c < n"
  shows "a + n * b < c + n * d \<longleftrightarrow> b < d \<or> b = d \<and> a < c"
proof (cases b d rule: linorder_cases)
  case less
  then have "n * Suc b \<le> n * d" by (intro mult_le_mono2) simp
  with assms less show ?thesis by simp
next
  case greater
  then have "n * Suc d \<le> n * b" by (intro mult_le_mono2) simp
  with assms greater show ?thesis by simp
qed simp

lemma two_digits_eq:
  fixes a b c d n :: nat
  assumes "a < n" "c < n"
  shows "a + n * b = c + n * d \<longleftrightarrow> b = d \<and> a = c"
  using two_digits [OF assms, of b d] two_digits [OF assms(2,1), of d b]
  by (metis nat_neq_iff)

lemma u32_bound: "unat (w :: u32) < 2 ^ 32"
proof -
  have "unat w < 2 ^ LENGTH(32)" by (rule unsigned_less)
  then show ?thesis by simp
qed

lemma flag96_less_value: "flag96_less f g \<longleftrightarrow> flag96_value f < flag96_value g"
proof -
  have v: "flag96_value h = unat (part0 h) + 2 ^ 32 * (unat (part1 h) + 2 ^ 32 * unat (part2 h))" for h
    by (simp add: flag96_value_def)
  have "flag96_value f < flag96_value g \<longleftrightarrow> part2 f < part2 g \<or> part2 f = part2 g \<and>
      (part1 f < part1 g \<or> part1 f = part1 g \<and> part0 f < part0 g)"
    unfolding v by (simp only: two_digits two_digits_eq u32_bound word_less_nat_alt word_unat_eq_iff) blast
  moreover have "flag96_less f g \<longleftrightarrow> part2 f < part2 g \<or> part2 f = part2 g \<and>
      (part1 f < part1 g \<or> part1 f = part1 g \<and> part0 f < part0 g)"
    by (auto simp: flag96_less_def numeral_3_eq_3 flag96_part_def)
  ultimately show ?thesis by simp
qed

lemma flag96_value_inj: "flag96_value f = flag96_value g \<Longrightarrow> f = g"
proof -
  assume e: "flag96_value f = flag96_value g"
  then have "\<not> flag96_less f g" "\<not> flag96_less g f" by (simp_all add: flag96_less_value)
  then show "f = g"
    by (cases f; cases g) (auto simp: flag96_less_def numeral_3_eq_3 flag96_part_def split: if_splits)
qed

instantiation flag96 :: linorder
begin

definition less_flag96 :: "flag96 \<Rightarrow> flag96 \<Rightarrow> bool" where
  "less_flag96 f g = flag96_less f g"

definition less_eq_flag96 :: "flag96 \<Rightarrow> flag96 \<Rightarrow> bool" where
  "less_eq_flag96 f g = (flag96_less f g \<or> f = g)"

instance
  by standard
    (auto simp: less_flag96_def less_eq_flag96_def flag96_less_value dest: flag96_value_inj, metis flag96_value_inj linorder_neqE)

end

text \<open>
  The order by which masks are map keys is that of the 96-bit numbers they stand for:
  a strict total order, as the containers require, in which only equal masks are equivalent.
\<close>

theorem flag96_order:
  "(flag96_less f g \<longleftrightarrow> flag96_value f < flag96_value g) \<and>
   (\<not> flag96_less f g \<and> \<not> flag96_less g f \<longleftrightarrow> flag96_eq f g)"
proof -
  have "flag96_eq f g \<longleftrightarrow> f = g" by (auto simp: flag96_eq_def intro: flag96.expand)
  then show ?thesis by (auto simp: flag96_less_value dest: flag96_value_inj linorder_neqE_nat)
qed

end
