(* ===== verification/ChannelData.thy ===== *)
theory ChannelData
  imports TextUtil Guid BufferCodec "HOL-Library.Monad_Syntax"
begin

text \<open>
  The data of chat channels, src/src/server/game/Chat/Channels/Channel.h: members, rights
  and the channel itself, and the world the channel acts on. A \<^verbatim>\<open>Player*\<close> is an address,
  0 the null pointer; what it points at is read through the world, so that a null or dead
  pointer is an error (\<^const>\<open>None\<close>) wherever the code follows one. What the channel does
  to the outside (packets, database statements, messages, logs) is appended to its output.
\<close>

section \<open>Constants\<close>

definition MEMBER_FLAG_NONE :: u8 where "MEMBER_FLAG_NONE = 0x00"
definition MEMBER_FLAG_OWNER :: u8 where "MEMBER_FLAG_OWNER = 0x01"
definition MEMBER_FLAG_MODERATOR :: u8 where "MEMBER_FLAG_MODERATOR = 0x02"
definition MEMBER_FLAG_MUTED :: u8 where "MEMBER_FLAG_MUTED = 0x08"

lemmas member_flags = MEMBER_FLAG_NONE_def MEMBER_FLAG_OWNER_def MEMBER_FLAG_MODERATOR_def MEMBER_FLAG_MUTED_def

definition CHANNEL_FLAG_CUSTOM :: u8 where "CHANNEL_FLAG_CUSTOM = 0x01"
definition CHANNEL_FLAG_TRADE :: u8 where "CHANNEL_FLAG_TRADE = 0x04"
definition CHANNEL_FLAG_NOT_LFG :: u8 where "CHANNEL_FLAG_NOT_LFG = 0x08"
definition CHANNEL_FLAG_GENERAL :: u8 where "CHANNEL_FLAG_GENERAL = 0x10"
definition CHANNEL_FLAG_CITY :: u8 where "CHANNEL_FLAG_CITY = 0x20"
definition CHANNEL_FLAG_LFG :: u8 where "CHANNEL_FLAG_LFG = 0x40"

definition CHANNEL_DBC_FLAG_TRADE :: u32 where "CHANNEL_DBC_FLAG_TRADE = 0x00008"
definition CHANNEL_DBC_FLAG_CITY_ONLY2 :: u32 where "CHANNEL_DBC_FLAG_CITY_ONLY2 = 0x00020"
definition CHANNEL_DBC_FLAG_LFG :: u32 where "CHANNEL_DBC_FLAG_LFG = 0x40000"

definition CHANNEL_RIGHT_FORCE_NO_ANNOUNCEMENTS :: u32 where "CHANNEL_RIGHT_FORCE_NO_ANNOUNCEMENTS = 0x001"
definition CHANNEL_RIGHT_FORCE_ANNOUNCEMENTS :: u32 where "CHANNEL_RIGHT_FORCE_ANNOUNCEMENTS = 0x002"
definition CHANNEL_RIGHT_NO_OWNERSHIP :: u32 where "CHANNEL_RIGHT_NO_OWNERSHIP = 0x004"
definition CHANNEL_RIGHT_CANT_SPEAK :: u32 where "CHANNEL_RIGHT_CANT_SPEAK = 0x008"
definition CHANNEL_RIGHT_CANT_BAN :: u32 where "CHANNEL_RIGHT_CANT_BAN = 0x010"
definition CHANNEL_RIGHT_CANT_KICK :: u32 where "CHANNEL_RIGHT_CANT_KICK = 0x020"
definition CHANNEL_RIGHT_CANT_MUTE :: u32 where "CHANNEL_RIGHT_CANT_MUTE = 0x040"
definition CHANNEL_RIGHT_CANT_CHANGE_PASSWORD :: u32 where "CHANNEL_RIGHT_CANT_CHANGE_PASSWORD = 0x080"
definition CHANNEL_RIGHT_DONT_PRESERVE :: u32 where "CHANNEL_RIGHT_DONT_PRESERVE = 0x100"

definition CHANNEL_BAN_DURATION :: int where "CHANNEL_BAN_DURATION = 86400 * 60"

section \<open>Accounts and players\<close>

datatype teamId = TEAM_ALLIANCE | TEAM_HORDE | TEAM_NEUTRAL

definition IsPlayerAccount :: "u32 \<Rightarrow> bool" where
  "IsPlayerAccount gmlevel = (gmlevel = 0)"

definition IsGMAccount :: "u32 \<Rightarrow> bool" where
  "IsGMAccount gmlevel = (gmlevel \<ge> 1 \<and> gmlevel \<le> 4)"

text \<open>What the channel reads of a player and the session behind it.\<close>

record player =
  pGUID :: u64
  pName :: string
  pSecurity :: u32
  pAccountId :: u32
  pTeamId :: teamId
  pRace :: u8
  pInGroup :: bool
  pGMVisible :: bool
  pIgnores :: "u32 list"

section \<open>Members\<close>

record playerInfo =
  piPlayer :: u64
  piFlags :: u8
  lastSpeakTime :: u32
  plrPtr :: nat

text \<open>What \<^verbatim>\<open>operator[]\<close> inserts for a missing key: all fields zero.\<close>

definition playerInfo0 :: playerInfo where
  "playerInfo0 = \<lparr>piPlayer = 0, piFlags = 0, lastSpeakTime = 0, plrPtr = 0\<rparr>"

definition pi_IsOwner :: "playerInfo \<Rightarrow> bool" where
  "pi_IsOwner i = (piFlags i AND MEMBER_FLAG_OWNER \<noteq> 0)"

definition pi_SetOwner :: "bool \<Rightarrow> playerInfo \<Rightarrow> playerInfo" where
  "pi_SetOwner state i =
     (if state then i\<lparr>piFlags := piFlags i OR MEMBER_FLAG_OWNER\<rparr>
      else i\<lparr>piFlags := piFlags i AND NOT MEMBER_FLAG_OWNER\<rparr>)"

definition pi_IsModerator :: "playerInfo \<Rightarrow> bool" where
  "pi_IsModerator i = (piFlags i AND MEMBER_FLAG_MODERATOR \<noteq> 0)"

definition pi_SetModerator :: "bool \<Rightarrow> playerInfo \<Rightarrow> playerInfo" where
  "pi_SetModerator state i =
     (if state then i\<lparr>piFlags := piFlags i OR MEMBER_FLAG_MODERATOR\<rparr>
      else i\<lparr>piFlags := piFlags i AND NOT MEMBER_FLAG_MODERATOR\<rparr>)"

definition pi_IsMuted :: "playerInfo \<Rightarrow> bool" where
  "pi_IsMuted i = (piFlags i AND MEMBER_FLAG_MUTED \<noteq> 0)"

definition pi_SetMuted :: "bool \<Rightarrow> playerInfo \<Rightarrow> playerInfo" where
  "pi_SetMuted state i =
     (if state then i\<lparr>piFlags := piFlags i OR MEMBER_FLAG_MUTED\<rparr>
      else i\<lparr>piFlags := piFlags i AND NOT MEMBER_FLAG_MUTED\<rparr>)"

text \<open>The comparison is between a 32-bit sum, which wraps, and the 64-bit game time.\<close>

definition pi_IsAllowedToSpeak :: "int \<Rightarrow> u32 \<Rightarrow> playerInfo \<Rightarrow> bool \<times> playerInfo" where
  "pi_IsAllowedToSpeak gameTime speakDelay i =
     (if uint (lastSpeakTime i + speakDelay) \<le> gameTime
      then (True, i\<lparr>lastSpeakTime := word_of_int gameTime\<rparr>)
      else (False, i))"

section \<open>Packets and other output\<close>

datatype field = FU8 u8 | FU32 u32 | FU64 u64 | FStr string

datatype packet =
    Packet u16 "field list"
  | ChatPacket u32 "nat option" u64 string string

datatype dbStatement =
    CHAR_INS_CHANNEL u32 string teamId bool
  | CHAR_UPD_CHANNEL bool string u32
  | CHAR_UPD_CHANNEL_USAGE u32
  | CHAR_INS_CHANNEL_BAN u32 u32 u32
  | CHAR_DEL_CHANNEL_BAN u32 u32
  | CHAR_DEL_OLD_CHANNELS u32
  | CHAR_DEL_OLD_CHANNELS_BANS

datatype effect =
    SendPacket nat packet
  | JoinedChannel nat
  | LeftChannel nat
  | SysMessage nat string
  | Notification nat string
  | CommandLog u32 string string u32 string u32
  | DbExecute dbStatement

definition put_field :: "field \<Rightarrow> byteBuffer \<Rightarrow> byteBuffer bb" where
  "put_field f b = (case f of FU8 v \<Rightarrow> bb_append v b | FU32 v \<Rightarrow> bb_append v b
     | FU64 v \<Rightarrow> bb_append v b | FStr s \<Rightarrow> bb_put_string s b)"

section \<open>The channel\<close>

record channelRights =
  crFlags :: u32
  crSpeakDelay :: u32
  crJoinMessage :: string
  crSpeakMessage :: string
  crModerators :: "u32 list"

definition channelRightsEmpty :: channelRights where
  "channelRightsEmpty = \<lparr>crFlags = 0, crSpeakDelay = 0, crJoinMessage = '''', crSpeakMessage = '''', crModerators = []\<rparr>"

record channel =
  chAnnounce :: bool
  chOwnership :: bool
  chIsSaved :: bool
  chFlags :: u8
  chId :: u32
  chDBId :: u32
  chTeamId :: teamId
  chOwnerGUID :: u64
  chName :: string
  chPassword :: string
  chRights :: channelRights
  playersStore :: "(u64 \<times> playerInfo) list"
  bannedStore :: "(u32 \<times> u32) list"
  playersWatching :: "nat list"
  chOut :: "effect list"

text \<open>
  The world: who the pointers point at, the look-ups of \<^verbatim>\<open>ObjectAccessor\<close> and \<^verbatim>\<open>sWorld\<close>,
  the clock and the configuration, and the order in which the hash containers iterate.
\<close>

record world =
  deref :: "nat \<Rightarrow> player option"
  FindPlayerInOrOutOfWorld :: "u64 \<Rightarrow> nat"
  FindPlayerByName :: "string \<Rightarrow> nat"
  GetGameTime :: int
  timeNow :: int
  twoSideChannel :: bool
  silentlyGMJoin :: bool
  restrictedLFG :: bool
  preserveCustom :: bool
  preserveDuration :: u32
  GetGlobalPlayerGUID :: "string \<Rightarrow> u32"
  GetGlobalPlayerData :: "u32 \<Rightarrow> (u8 \<times> u32) option"
  TeamIdForRace :: "u8 \<Rightarrow> teamId"
  GetPlayerNameByGUID :: "u64 \<Rightarrow> string option"
  storeOrder :: "(u64 \<times> playerInfo) list \<Rightarrow> (u64 \<times> playerInfo) list"
  watchOrder :: "nat list \<Rightarrow> nat list"

definition emit :: "effect \<Rightarrow> channel \<Rightarrow> channel" where
  "emit e c = c\<lparr>chOut := chOut c @ [e]\<rparr>"

text \<open>\<^verbatim>\<open>playersStore[guid]\<close>, to read and to write.\<close>

definition slot :: "u64 \<Rightarrow> channel \<Rightarrow> playerInfo" where
  "slot guid c = (case map_of (playersStore c) guid of Some i \<Rightarrow> i | None \<Rightarrow> playerInfo0)"

definition set_slot :: "u64 \<Rightarrow> playerInfo \<Rightarrow> channel \<Rightarrow> channel" where
  "set_slot guid i c = c\<lparr>playersStore := AList.update guid i (playersStore c)\<rparr>"

definition has_right :: "u32 \<Rightarrow> channel \<Rightarrow> bool" where
  "has_right r c = (crFlags (chRights c) AND r \<noteq> 0)"

definition is_constant_moderator :: "u32 \<Rightarrow> channel \<Rightarrow> bool" where
  "is_constant_moderator acc c = (acc \<in> set (crModerators (chRights c)))"

definition IsConstant :: "channel \<Rightarrow> bool" where
  "IsConstant c = (chId c \<noteq> 0)"

definition IsLFG :: "channel \<Rightarrow> bool" where
  "IsLFG c = (chFlags c AND CHANNEL_FLAG_LFG \<noteq> 0)"

definition chHasFlag :: "u8 \<Rightarrow> channel \<Rightarrow> bool" where
  "chHasFlag flag c = (chFlags c AND flag \<noteq> 0)"

definition SetPassword :: "string \<Rightarrow> channel \<Rightarrow> channel" where
  "SetPassword npassword c = c\<lparr>chPassword := npassword\<rparr>"

definition GetNumPlayers :: "channel \<Rightarrow> u32" where
  "GetNumPlayers c = of_nat (length (playersStore c))"

definition AddBan :: "u32 \<Rightarrow> u32 \<Rightarrow> channel \<Rightarrow> channel" where
  "AddBan guid time c = c\<lparr>bannedStore := AList.update guid time (bannedStore c)\<rparr>"

definition IsOn :: "u64 \<Rightarrow> channel \<Rightarrow> bool" where
  "IsOn who c = (map_of (playersStore c) who \<noteq> None)"

definition IsBanned :: "world \<Rightarrow> u64 \<Rightarrow> channel \<Rightarrow> bool" where
  "IsBanned W guid c =
     (case map_of (bannedStore c) (GUID_LOPART guid) of
        None \<Rightarrow> False
      | Some t \<Rightarrow> uint t > timeNow W)"

definition GetPlayerFlags :: "u64 \<Rightarrow> channel \<Rightarrow> u8" where
  "GetPlayerFlags guid c = (case map_of (playersStore c) guid of Some i \<Rightarrow> piFlags i | None \<Rightarrow> 0)"

end
