(* ===== verification/ChannelPackets.thy ===== *)
theory ChannelPackets
  imports ChannelData
begin

text \<open>
  The packets of a channel and who gets them, src/src/server/game/Chat/Channels/Channel.cpp
  from \<^verbatim>\<open>SendToAll\<close> on: one builder per notice, the notifications to the watchers, and the
  loops over the members. Each loop follows the iteration order of its hash container.
\<close>

definition SMSG_CHANNEL_NOTIFY :: u16 where "SMSG_CHANNEL_NOTIFY = 0x099"
definition SMSG_CHANNEL_LIST :: u16 where "SMSG_CHANNEL_LIST = 0x09B"
definition SMSG_MESSAGECHAT :: u16 where "SMSG_MESSAGECHAT = 0x096"
definition SMSG_USERLIST_ADD :: u16 where "SMSG_USERLIST_ADD = 0x3F0"
definition SMSG_USERLIST_REMOVE :: u16 where "SMSG_USERLIST_REMOVE = 0x3F1"
definition SMSG_USERLIST_UPDATE :: u16 where "SMSG_USERLIST_UPDATE = 0x3F2"

section \<open>Notices\<close>

definition MakeNotifyPacket :: "u8 \<Rightarrow> channel \<Rightarrow> field list \<Rightarrow> packet" where
  "MakeNotifyPacket notify_type c rest =
     Packet SMSG_CHANNEL_NOTIFY ([FU8 notify_type, FStr (chName c)] @ rest)"

definition MakeYouJoined :: "channel \<Rightarrow> packet" where
  "MakeYouJoined c = MakeNotifyPacket 0x02 c [FU8 (chFlags c), FU32 (chId c), FU32 0]"

definition MakeYouLeft :: "channel \<Rightarrow> packet" where
  "MakeYouLeft c = MakeNotifyPacket 0x03 c [FU32 (chId c), FU8 (if IsConstant c then 1 else 0)]"

definition MakeChannelOwner :: "world \<Rightarrow> channel \<Rightarrow> packet" where
  "MakeChannelOwner W c =
     (let name = (case GetPlayerNameByGUID W (chOwnerGUID c) of
                    None \<Rightarrow> ''PLAYER_NOT_FOUND''
                  | Some n \<Rightarrow> if n = [] then ''PLAYER_NOT_FOUND'' else n)
      in MakeNotifyPacket 0x0B c [FStr (if IsConstant c \<or> chOwnerGUID c = 0 then ''Nobody'' else name)])"

definition MakeModeChange :: "u64 \<Rightarrow> u8 \<Rightarrow> channel \<Rightarrow> packet" where
  "MakeModeChange guid oldflags c =
     MakeNotifyPacket 0x0C c [FU64 guid, FU8 oldflags, FU8 (GetPlayerFlags guid c)]"

definition MakeWrongPassword :: "channel \<Rightarrow> packet" where
  "MakeWrongPassword c = MakeNotifyPacket 0x04 c []"

definition MakeNotMember :: "channel \<Rightarrow> packet" where
  "MakeNotMember c = MakeNotifyPacket 0x05 c []"

definition MakeNotModerator :: "channel \<Rightarrow> packet" where
  "MakeNotModerator c = MakeNotifyPacket 0x06 c []"

definition MakeNotOwner :: "channel \<Rightarrow> packet" where
  "MakeNotOwner c = MakeNotifyPacket 0x0A c []"

definition MakeMuted :: "channel \<Rightarrow> packet" where
  "MakeMuted c = MakeNotifyPacket 0x11 c []"

definition MakeBanned :: "channel \<Rightarrow> packet" where
  "MakeBanned c = MakeNotifyPacket 0x13 c []"

definition MakeInviteWrongFaction :: "channel \<Rightarrow> packet" where
  "MakeInviteWrongFaction c = MakeNotifyPacket 0x19 c []"

definition MakeWrongFaction :: "channel \<Rightarrow> packet" where
  "MakeWrongFaction c = MakeNotifyPacket 0x1A c []"

definition MakeInvalidName :: "channel \<Rightarrow> packet" where
  "MakeInvalidName c = MakeNotifyPacket 0x1B c []"

definition MakeNotModerated :: "channel \<Rightarrow> packet" where
  "MakeNotModerated c = MakeNotifyPacket 0x1C c []"

definition MakeThrottled :: "channel \<Rightarrow> packet" where
  "MakeThrottled c = MakeNotifyPacket 0x1F c []"

definition MakeNotInArea :: "channel \<Rightarrow> packet" where
  "MakeNotInArea c = MakeNotifyPacket 0x20 c []"

definition MakeNotInLfg :: "channel \<Rightarrow> packet" where
  "MakeNotInLfg c = MakeNotifyPacket 0x21 c []"

definition MakeJoined :: "u64 \<Rightarrow> channel \<Rightarrow> packet" where
  "MakeJoined guid c = MakeNotifyPacket 0x00 c [FU64 guid]"

definition MakeLeft :: "u64 \<Rightarrow> channel \<Rightarrow> packet" where
  "MakeLeft guid c = MakeNotifyPacket 0x01 c [FU64 guid]"

definition MakePasswordChanged :: "u64 \<Rightarrow> channel \<Rightarrow> packet" where
  "MakePasswordChanged guid c = MakeNotifyPacket 0x07 c [FU64 guid]"

definition MakeOwnerChanged :: "u64 \<Rightarrow> channel \<Rightarrow> packet" where
  "MakeOwnerChanged guid c = MakeNotifyPacket 0x08 c [FU64 guid]"

definition MakeAnnouncementsOn :: "u64 \<Rightarrow> channel \<Rightarrow> packet" where
  "MakeAnnouncementsOn guid c = MakeNotifyPacket 0x0D c [FU64 guid]"

definition MakeAnnouncementsOff :: "u64 \<Rightarrow> channel \<Rightarrow> packet" where
  "MakeAnnouncementsOff guid c = MakeNotifyPacket 0x0E c [FU64 guid]"

definition MakePlayerAlreadyMember :: "u64 \<Rightarrow> channel \<Rightarrow> packet" where
  "MakePlayerAlreadyMember guid c = MakeNotifyPacket 0x17 c [FU64 guid]"

definition MakeInvite :: "u64 \<Rightarrow> channel \<Rightarrow> packet" where
  "MakeInvite guid c = MakeNotifyPacket 0x18 c [FU64 guid]"

definition MakeVoiceOn :: "u64 \<Rightarrow> channel \<Rightarrow> packet" where
  "MakeVoiceOn guid c = MakeNotifyPacket 0x22 c [FU64 guid]"

definition MakeVoiceOff :: "u64 \<Rightarrow> channel \<Rightarrow> packet" where
  "MakeVoiceOff guid c = MakeNotifyPacket 0x23 c [FU64 guid]"

definition MakePlayerNotFound :: "string \<Rightarrow> channel \<Rightarrow> packet" where
  "MakePlayerNotFound name c = MakeNotifyPacket 0x09 c [FStr name]"

definition MakePlayerNotBanned :: "string \<Rightarrow> channel \<Rightarrow> packet" where
  "MakePlayerNotBanned name c = MakeNotifyPacket 0x16 c [FStr name]"

definition MakePlayerInvited :: "string \<Rightarrow> channel \<Rightarrow> packet" where
  "MakePlayerInvited name c = MakeNotifyPacket 0x1D c [FStr name]"

definition MakePlayerInviteBanned :: "string \<Rightarrow> channel \<Rightarrow> packet" where
  "MakePlayerInviteBanned name c = MakeNotifyPacket 0x1E c [FStr name]"

definition MakePlayerKicked :: "u64 \<Rightarrow> u64 \<Rightarrow> channel \<Rightarrow> packet" where
  "MakePlayerKicked bad good c = MakeNotifyPacket 0x12 c [FU64 bad, FU64 good]"

definition MakePlayerBanned :: "u64 \<Rightarrow> u64 \<Rightarrow> channel \<Rightarrow> packet" where
  "MakePlayerBanned bad good c = MakeNotifyPacket 0x14 c [FU64 bad, FU64 good]"

definition MakePlayerUnbanned :: "u64 \<Rightarrow> u64 \<Rightarrow> channel \<Rightarrow> packet" where
  "MakePlayerUnbanned bad good c = MakeNotifyPacket 0x15 c [FU64 bad, FU64 good]"

section \<open>Sending\<close>

text \<open>Sending through a pointer: a null or dead one is an error.\<close>

definition send_ptr :: "world \<Rightarrow> nat \<Rightarrow> packet \<Rightarrow> channel \<Rightarrow> channel option" where
  "send_ptr W p data c = (case deref W p of None \<Rightarrow> None | Some _ \<Rightarrow> Some (emit (SendPacket p data) c))"

fun send_to_members :: "world \<Rightarrow> packet \<Rightarrow> u64 \<Rightarrow> (u64 \<times> playerInfo) list \<Rightarrow> channel \<Rightarrow> channel option" where
  "send_to_members W data guid [] c = Some c"
| "send_to_members W data guid (i # is) c =
     do {
       p \<leftarrow> deref W (plrPtr (snd i));
       c \<leftarrow> (if guid = 0 \<or> GUID_LOPART guid \<notin> set (pIgnores p)
             then send_ptr W (plrPtr (snd i)) data c else Some c);
       send_to_members W data guid is c
     }"

definition SendToAll :: "world \<Rightarrow> packet \<Rightarrow> u64 \<Rightarrow> channel \<Rightarrow> channel option" where
  "SendToAll W data guid c = send_to_members W data guid (storeOrder W (playersStore c)) c"

fun send_but_one :: "world \<Rightarrow> packet \<Rightarrow> u64 \<Rightarrow> (u64 \<times> playerInfo) list \<Rightarrow> channel \<Rightarrow> channel option" where
  "send_but_one W data who [] c = Some c"
| "send_but_one W data who (i # is) c =
     do {
       c \<leftarrow> (if fst i \<noteq> who then send_ptr W (plrPtr (snd i)) data c else Some c);
       send_but_one W data who is c
     }"

definition SendToAllButOne :: "world \<Rightarrow> packet \<Rightarrow> u64 \<Rightarrow> channel \<Rightarrow> channel option" where
  "SendToAllButOne W data who c = send_but_one W data who (storeOrder W (playersStore c)) c"

definition SendToOne :: "world \<Rightarrow> packet \<Rightarrow> u64 \<Rightarrow> channel \<Rightarrow> channel option" where
  "SendToOne W data who c =
     (let player = FindPlayerInOrOutOfWorld W who
      in if player \<noteq> 0 then send_ptr W player data c else Some c)"

fun send_to_watching :: "world \<Rightarrow> packet \<Rightarrow> nat list \<Rightarrow> channel \<Rightarrow> channel option" where
  "send_to_watching W data [] c = Some c"
| "send_to_watching W data (p # ps) c = do { c \<leftarrow> send_ptr W p data c; send_to_watching W data ps c }"

definition SendToAllWatching :: "world \<Rightarrow> packet \<Rightarrow> channel \<Rightarrow> channel option" where
  "SendToAllWatching W data c = send_to_watching W data (watchOrder W (playersWatching c)) c"

section \<open>Notifications to watchers\<close>

definition JoinNotify :: "world \<Rightarrow> nat \<Rightarrow> channel \<Rightarrow> channel option" where
  "JoinNotify W ptr c =
     (if has_right CHANNEL_RIGHT_CANT_SPEAK c then Some c
      else do {
        p \<leftarrow> deref W ptr;
        if \<not> IsPlayerAccount (pSecurity p) then Some c
        else SendToAllWatching W (Packet SMSG_USERLIST_ADD [FU64 (pGUID p), FU8 (GetPlayerFlags (pGUID p) c),
          FU8 (chFlags c), FU32 (GetNumPlayers c), FStr (chName c)]) c
      })"

definition LeaveNotify :: "world \<Rightarrow> nat \<Rightarrow> channel \<Rightarrow> channel option" where
  "LeaveNotify W ptr c =
     (if has_right CHANNEL_RIGHT_CANT_SPEAK c then Some c
      else do {
        p \<leftarrow> deref W ptr;
        if \<not> IsPlayerAccount (pSecurity p) then Some c
        else SendToAllWatching W (Packet SMSG_USERLIST_REMOVE [FU64 (pGUID p),
          FU8 (chFlags c), FU32 (GetNumPlayers c), FStr (chName c)]) c
      })"

definition FlagsNotify :: "world \<Rightarrow> nat \<Rightarrow> channel \<Rightarrow> channel option" where
  "FlagsNotify W ptr c =
     (if has_right CHANNEL_RIGHT_CANT_SPEAK c then Some c
      else do {
        p \<leftarrow> deref W ptr;
        if \<not> IsPlayerAccount (pSecurity p) then Some c
        else SendToAllWatching W (Packet SMSG_USERLIST_UPDATE [FU64 (pGUID p), FU8 (GetPlayerFlags (pGUID p) c),
          FU8 (chFlags c), FU32 (GetNumPlayers c), FStr (chName c)]) c
      })"

definition AddWatching :: "world \<Rightarrow> nat \<Rightarrow> channel \<Rightarrow> channel option" where
  "AddWatching W ptr c =
     do {
       p \<leftarrow> deref W ptr;
       Some (if \<not> IsOn (pGUID p) c then c
             else c\<lparr>playersWatching := List.insert ptr (playersWatching c)\<rparr>)
     }"

definition RemoveWatching :: "nat \<Rightarrow> channel \<Rightarrow> channel" where
  "RemoveWatching ptr c = c\<lparr>playersWatching := removeAll ptr (playersWatching c)\<rparr>"

end
