(* ===== verification/Channel.thy ===== *)
theory Channel
  imports ChannelPackets
begin

text \<open>
  The operations of a chat channel, src/src/server/game/Chat/Channels/Channel.cpp and
  Channel.h. Each is a function from the channel to the channel, with its output appended;
  \<^const>\<open>None\<close> is following a null or dead player pointer.
\<close>

section \<open>Construction and the database\<close>

text \<open>
  The constructor. The built-in channels (their DBC flags), the rights table and the
  counter of database ids are arguments; the counter is returned too.
\<close>

definition Channel_new :: "world \<Rightarrow> (u32 \<Rightarrow> u32 option) \<Rightarrow> (string \<Rightarrow> channelRights) \<Rightarrow> u32 \<Rightarrow>
    string \<Rightarrow> u32 \<Rightarrow> u32 \<Rightarrow> teamId \<Rightarrow> bool \<Rightarrow> bool \<Rightarrow> channel \<times> u32" where
  "Channel_new W sChatChannelsStore GetChannelRightsFor channelIdMax name channelId channelDBId team announce ownership =
     (let c = \<lparr>chAnnounce = announce, chOwnership = ownership, chIsSaved = False, chFlags = 0,
                chId = channelId, chDBId = channelDBId, chTeamId = team, chOwnerGUID = 0,
                chName = name, chPassword = [], chRights = channelRightsEmpty, playersStore = [],
                bannedStore = [], playersWatching = [], chOut = []\<rparr>
      in case sChatChannelsStore channelId of
           Some flags \<Rightarrow>
             let f = 0 OR CHANNEL_FLAG_GENERAL;
                 f = (if flags AND CHANNEL_DBC_FLAG_TRADE \<noteq> 0 then f OR CHANNEL_FLAG_TRADE else f);
                 f = (if flags AND CHANNEL_DBC_FLAG_CITY_ONLY2 \<noteq> 0 then f OR CHANNEL_FLAG_CITY else f);
                 f = (if flags AND CHANNEL_DBC_FLAG_LFG \<noteq> 0 then f OR CHANNEL_FLAG_LFG else f OR CHANNEL_FLAG_NOT_LFG)
             in (c\<lparr>chAnnounce := False, chOwnership := False, chFlags := f\<rparr>, channelIdMax)
         | None \<Rightarrow>
             let c = c\<lparr>chFlags := 0 OR CHANNEL_FLAG_CUSTOM, chRights := GetChannelRightsFor name\<rparr>;
                 c = (if has_right CHANNEL_RIGHT_FORCE_NO_ANNOUNCEMENTS c then c\<lparr>chAnnounce := False\<rparr> else c);
                 c = (if has_right CHANNEL_RIGHT_FORCE_ANNOUNCEMENTS c then c\<lparr>chAnnounce := True\<rparr> else c);
                 c = (if has_right CHANNEL_RIGHT_NO_OWNERSHIP c then c\<lparr>chOwnership := False\<rparr> else c)
             in if has_right CHANNEL_RIGHT_DONT_PRESERVE c then (c, channelIdMax)
                else let c = c\<lparr>chIsSaved := True\<rparr>
                  in if channelDBId > 0 then (c, channelIdMax)
                     else if preserveCustom W then
                       let id = channelIdMax + 1; c = c\<lparr>chDBId := id\<rparr>
                       in (emit (DbExecute (CHAR_INS_CHANNEL id name team (chAnnounce c))) c, id)
                     else (c, channelIdMax))"

definition UpdateChannelInDB :: "channel \<Rightarrow> channel" where
  "UpdateChannelInDB c =
     (if chIsSaved c then emit (DbExecute (CHAR_UPD_CHANNEL (chAnnounce c) (chPassword c) (chDBId c))) c else c)"

definition UpdateChannelUseageInDB :: "channel \<Rightarrow> channel" where
  "UpdateChannelUseageInDB c = emit (DbExecute (CHAR_UPD_CHANNEL_USAGE (chDBId c))) c"

definition AddChannelBanToDB :: "u32 \<Rightarrow> u32 \<Rightarrow> channel \<Rightarrow> channel" where
  "AddChannelBanToDB guid time c = emit (DbExecute (CHAR_INS_CHANNEL_BAN (chDBId c) guid time)) c"

definition RemoveChannelBanFromDB :: "u32 \<Rightarrow> channel \<Rightarrow> channel" where
  "RemoveChannelBanFromDB guid c = emit (DbExecute (CHAR_DEL_CHANNEL_BAN (chDBId c) guid)) c"

definition CleanOldChannelsInDB :: "world \<Rightarrow> dbStatement list" where
  "CleanOldChannelsInDB W =
     (if preserveDuration W > 0
      then [CHAR_DEL_OLD_CHANNELS (preserveDuration W * 86400), CHAR_DEL_OLD_CHANNELS_BANS]
      else [])"

section \<open>Ownership and flags\<close>

definition SetOwner :: "world \<Rightarrow> u64 \<Rightarrow> bool \<Rightarrow> channel \<Rightarrow> channel option" where
  "SetOwner W guid exclaim c =
     do {
       c \<leftarrow> (if chOwnerGUID c \<noteq> 0 then
               (case map_of (playersStore c) (chOwnerGUID c) of
                  Some i \<Rightarrow> FlagsNotify W (plrPtr i) (set_slot (chOwnerGUID c) (pi_SetOwner False i) c)
                | None \<Rightarrow> Some c)
             else Some c);
       let c = c\<lparr>chOwnerGUID := guid\<rparr>;
       if chOwnerGUID c \<noteq> 0 then
         do {
           let pinfo = pi_SetModerator True (slot guid c);
           let oldFlag = piFlags pinfo;
           let pinfo = pi_SetOwner True pinfo;
           let c = set_slot guid pinfo c;
           c \<leftarrow> SendToAll W (MakeModeChange guid oldFlag c) 0 c;
           c \<leftarrow> FlagsNotify W (plrPtr pinfo) c;
           if exclaim then SendToAll W (MakeOwnerChanged guid c) 0 c else Some c
         }
       else Some c
     }"

text \<open>The private \<^verbatim>\<open>SetModerator(guid, set)\<close> and \<^verbatim>\<open>SetMute(guid, set)\<close>.\<close>

definition SetModerator_guid :: "world \<Rightarrow> u64 \<Rightarrow> bool \<Rightarrow> channel \<Rightarrow> channel option" where
  "SetModerator_guid W guid state c =
     (let pinfo = slot guid c
      in if pi_IsModerator pinfo \<noteq> state then
           do {
             let oldFlag = piFlags pinfo;
             let c = set_slot guid (pi_SetModerator state pinfo) c;
             c \<leftarrow> SendToAll W (MakeModeChange guid oldFlag c) 0 c;
             FlagsNotify W (plrPtr pinfo) c
           }
         else Some c)"

definition SetMute_guid :: "world \<Rightarrow> u64 \<Rightarrow> bool \<Rightarrow> channel \<Rightarrow> channel option" where
  "SetMute_guid W guid state c =
     (let pinfo = slot guid c
      in if pi_IsMuted pinfo \<noteq> state then
           do {
             let oldFlag = piFlags pinfo;
             let c = set_slot guid (pi_SetMuted state pinfo) c;
             SendToAll W (MakeModeChange guid oldFlag c) 0 c
           }
         else Some c)"

text \<open>
  The loop that picks a new owner: the first member, in iteration order, whose account has
  no security level, otherwise the last.
\<close>

fun pick_owner :: "world \<Rightarrow> u64 \<Rightarrow> (u64 \<times> playerInfo) list \<Rightarrow> u64 option" where
  "pick_owner W newowner [] = Some newowner"
| "pick_owner W newowner (i # is) =
     do {
       p \<leftarrow> deref W (plrPtr (snd i));
       if pSecurity p = 0 then Some (piPlayer (snd i)) else pick_owner W (piPlayer (snd i)) is
     }"

section \<open>Joining and leaving\<close>

text \<open>
  What \<^verbatim>\<open>JoinChannel\<close> does once the player may join; first its last part, the handling of
  custom channels.
\<close>

definition join_custom :: "world \<Rightarrow> nat \<Rightarrow> player \<Rightarrow> channel \<Rightarrow> channel option" where
  "join_custom W player p c =
     do {
       let guid = pGUID p;
       let c = (if playersStore c \<noteq> [] then UpdateChannelUseageInDB c else c);
       c \<leftarrow> (if is_constant_moderator (pAccountId p) c
             then FlagsNotify W player (set_slot guid (pi_SetModerator True (slot guid c)) c) else Some c);
       c \<leftarrow> (if chOwnerGUID c = 0 \<and> chOwnership c then SetOwner W guid False c else Some c);
       Some (if has_right CHANNEL_RIGHT_CANT_SPEAK c
             then set_slot guid (pi_SetMuted True (slot guid c)) c else c)
     }"

definition join_accept :: "world \<Rightarrow> nat \<Rightarrow> player \<Rightarrow> channel \<Rightarrow> channel option" where
  "join_accept W player p c =
     do {
       let guid = pGUID p;
       let c = emit (JoinedChannel player) c;
       c \<leftarrow> (if chAnnounce c \<and> (\<not> IsGMAccount (pSecurity p) \<or> \<not> silentlyGMJoin W)
             then SendToAll W (MakeJoined guid c) 0 c else Some c);
       let c = set_slot guid \<lparr>piPlayer = guid, piFlags = MEMBER_FLAG_NONE, lastSpeakTime = 0, plrPtr = player\<rparr> c;
       let c = (if crJoinMessage (chRights c) \<noteq> [] then emit (SysMessage player (crJoinMessage (chRights c))) c else c);
       c \<leftarrow> SendToOne W (MakeYouJoined c) guid c;
       c \<leftarrow> JoinNotify W player c;
       if \<not> IsConstant c then join_custom W player p c else Some c
     }"

definition JoinChannel :: "world \<Rightarrow> nat \<Rightarrow> string \<Rightarrow> channel \<Rightarrow> channel option" where
  "JoinChannel W player pass c =
     do {
       p \<leftarrow> deref W player;
       let guid = pGUID p;
       if IsOn guid c then
         (if \<not> IsConstant c then SendToOne W (MakePlayerAlreadyMember guid c) guid c else Some c)
       else if IsBanned W guid c then SendToOne W (MakeBanned c) guid c
       else if chPassword c \<noteq> [] \<and> pass \<noteq> chPassword c then SendToOne W (MakeWrongPassword c) guid c
       else if chHasFlag CHANNEL_FLAG_LFG c \<and> restrictedLFG W \<and> IsPlayerAccount (pSecurity p) \<and> pInGroup p then
         SendToOne W (MakeNotInLfg c) guid c
       else join_accept W player p c
     }"

text \<open>\<^verbatim>\<open>erase(guid)\<close> on the members.\<close>

definition erase_member :: "u64 \<Rightarrow> channel \<Rightarrow> channel" where
  "erase_member guid c = c\<lparr>playersStore := AList.delete guid (playersStore c)\<rparr>"

text \<open>The code's two copies of the succession: a member if there is one, nobody otherwise.\<close>

definition succeed_owner :: "world \<Rightarrow> channel \<Rightarrow> channel option" where
  "succeed_owner W c =
     (if playersStore c \<noteq> [] then
        do {
          newowner \<leftarrow> pick_owner W 0 (storeOrder W (playersStore c));
          SetOwner W newowner True c
        }
      else SetOwner W 0 True c)"

text \<open>What \<^verbatim>\<open>LeaveChannel\<close> does for a member.\<close>

definition leave_member :: "world \<Rightarrow> nat \<Rightarrow> player \<Rightarrow> bool \<Rightarrow> channel \<Rightarrow> channel option" where
  "leave_member W player p send c =
     do {
       let guid = pGUID p;
       c \<leftarrow> (if send then
               do {
                 c \<leftarrow> SendToOne W (MakeYouLeft c) guid c;
                 Some (emit (LeftChannel player) c)
               }
             else Some c);
       let changeowner = pi_IsOwner (slot guid c);
       let c = erase_member guid c;
       c \<leftarrow> (if chAnnounce c \<and> (\<not> IsGMAccount (pSecurity p) \<or> \<not> silentlyGMJoin W)
             then SendToAll W (MakeLeft guid c) 0 c else Some c);
       let c = RemoveWatching player c;
       c \<leftarrow> LeaveNotify W player c;
       if \<not> IsConstant c then
         (let c = UpdateChannelUseageInDB c
          in if changeowner \<and> chOwnership c then succeed_owner W c else Some c)
       else Some c
     }"

definition LeaveChannel :: "world \<Rightarrow> nat \<Rightarrow> bool \<Rightarrow> channel \<Rightarrow> channel option" where
  "LeaveChannel W player send c =
     do {
       p \<leftarrow> deref W player;
       let guid = pGUID p;
       if \<not> IsOn guid c then
         (if send then SendToOne W (MakeNotMember c) guid c else Some c)
       else leave_member W player p send c
     }"

section \<open>Kicks and bans\<close>

text \<open>
  The search for the victim of \<^verbatim>\<open>KickOrBan\<close>: \<open>Inl\<close> is the reply that ends the command,
  \<open>Inr\<close> the victim's guid, its account and security, and whether it is a member.
\<close>

definition kick_victim :: "world \<Rightarrow> nat \<Rightarrow> player \<Rightarrow> string \<Rightarrow> bool \<Rightarrow> channel \<Rightarrow>
    (effect option + u64 \<times> u32 \<times> u32 \<times> nat \<times> bool) option" where
  "kick_victim W player p badname ban c =
     (let sec = pSecurity p;
          bad = FindPlayerByName W badname
      in do {
        (victim, badAccId, badSecurity) \<leftarrow>
          (if bad \<noteq> 0 then do { b \<leftarrow> deref W bad; Some (pGUID b, pAccountId b, pSecurity b) }
           else Some (0, 0, 0));
        let isOnChannel = (victim \<noteq> 0 \<and> IsOn victim c);
        if \<not> isOnChannel then
          if ban \<and> (IsGMAccount sec \<or> is_constant_moderator (pAccountId p) c) then
            (let lowGuid = GetGlobalPlayerGUID W badname
             in if lowGuid \<noteq> 0 then
                  (case GetGlobalPlayerData W lowGuid of
                     Some (race, accountId) \<Rightarrow>
                       if TeamIdForRace W race = TeamIdForRace W (pRace p) then
                         Some (Inr (MAKE_NEW_GUID lowGuid 0 HIGHGUID_PLAYER, accountId, badSecurity, bad, False))
                       else Some (Inl (Some (SysMessage player
                         (''Character '' @ badname @ '' has other faction!''))))
                   | None \<Rightarrow> Some (Inl None))
                else Some (Inl None))
          else Some (Inl None)
        else Some (Inr (victim, badAccId, badSecurity, bad, True))
      })"

text \<open>What \<^verbatim>\<open>KickOrBan\<close> does once the victim is found and the right is established.\<close>

definition kick_execute :: "world \<Rightarrow> player \<Rightarrow> u64 \<Rightarrow> nat \<Rightarrow> bool \<Rightarrow> bool \<Rightarrow> bool \<Rightarrow> channel \<Rightarrow> channel option" where
  "kick_execute W p victim bad isOnChannel changeowner ban c =
     do {
       let good = pGUID p;
       let notify = (\<not> (IsGMAccount (pSecurity p) \<and> silentlyGMJoin W));
       c \<leftarrow>
         (if ban then
            if \<not> IsBanned W victim c then
              (let until = word_of_int (timeNow W + CHANNEL_BAN_DURATION);
                   c = AddChannelBanToDB (GUID_LOPART victim) until (AddBan (GUID_LOPART victim) until c)
               in if notify then SendToAll W (MakePlayerBanned victim good c) 0 c else Some c)
            else Some c
          else if notify then SendToAll W (MakePlayerKicked victim good c) 0 c
          else Some c);
       c \<leftarrow>
         (if isOnChannel then
            LeaveNotify W bad (RemoveWatching bad (emit (LeftChannel bad) (erase_member victim c)))
          else Some c);
       if changeowner \<and> chOwnership c then
         if good \<noteq> victim then SetOwner W good True c
         else succeed_owner W c
       else Some c
     }"

text \<open>The code's three refusals, which neither GMs nor constant moderators meet.\<close>

definition kick_refusal :: "player \<Rightarrow> u64 \<Rightarrow> u32 \<Rightarrow> u32 \<Rightarrow> bool \<Rightarrow> channel \<Rightarrow> packet option" where
  "kick_refusal p victim badAccId badSecurity ban c =
     (let changeowner = (chOwnerGUID c = victim);
          isBadConstantModerator = is_constant_moderator badAccId c
      in if \<not> IsGMAccount (pSecurity p) \<and> \<not> is_constant_moderator (pAccountId p) c then
           if changeowner \<and> pGUID p \<noteq> chOwnerGUID c then Some (MakeNotOwner c)
           else if ban \<and> has_right CHANNEL_RIGHT_CANT_BAN c \<or> \<not> ban \<and> has_right CHANNEL_RIGHT_CANT_KICK c
           then Some (MakeNotModerator c)
           else if isBadConstantModerator \<or> IsGMAccount badSecurity then Some (MakeNotModerator c)
           else None
         else None)"

definition KickOrBan :: "world \<Rightarrow> nat \<Rightarrow> string \<Rightarrow> bool \<Rightarrow> channel \<Rightarrow> channel option" where
  "KickOrBan W player badname ban c =
     do {
       p \<leftarrow> deref W player;
       let good = pGUID p;
       if \<not> IsOn good c then SendToOne W (MakeNotMember c) good c
       else if \<not> pi_IsModerator (slot good c) \<and> \<not> IsGMAccount (pSecurity p) then
         SendToOne W (MakeNotModerator c) good c
       else
         do {
           found \<leftarrow> kick_victim W player p badname ban c;
           (case found of
              Inl (Some message) \<Rightarrow> Some (emit message c)
            | Inl None \<Rightarrow> SendToOne W (MakePlayerNotFound badname c) good c
            | Inr (victim, badAccId, badSecurity, bad, isOnChannel) \<Rightarrow>
                (case kick_refusal p victim badAccId badSecurity ban c of
                   Some refusal \<Rightarrow> SendToOne W refusal good c
                 | None \<Rightarrow> kick_execute W p victim bad isOnChannel (chOwnerGUID c = victim) ban c))
         }
     }"

definition Kick :: "world \<Rightarrow> nat \<Rightarrow> string \<Rightarrow> channel \<Rightarrow> channel option" where
  "Kick W player badname c = KickOrBan W player badname False c"

definition Ban :: "world \<Rightarrow> nat \<Rightarrow> string \<Rightarrow> channel \<Rightarrow> channel option" where
  "Ban W player badname c = KickOrBan W player badname True c"

definition UnBan_name :: "world \<Rightarrow> nat \<Rightarrow> string \<Rightarrow> channel \<Rightarrow> channel option" where
  "UnBan_name W player badname c =
     do {
       p \<leftarrow> deref W player;
       let sec = pSecurity p;
       let good = pGUID p;
       if \<not> IsOn good c then SendToOne W (MakeNotMember c) good c
       else if \<not> pi_IsModerator (slot good c) \<and> \<not> IsGMAccount sec then
         SendToOne W (MakeNotModerator c) good c
       else
         do {
           let guidLow = GetGlobalPlayerGUID W badname;
           let victim = (if guidLow \<noteq> 0 then MAKE_NEW_GUID guidLow 0 HIGHGUID_PLAYER else 0);
           if victim = 0 \<or> \<not> IsBanned W victim c then SendToOne W (MakePlayerNotFound badname c) good c
           else if \<not> IsGMAccount sec \<and> \<not> is_constant_moderator (pAccountId p) c \<and>
             has_right CHANNEL_RIGHT_CANT_BAN c then
             SendToOne W (MakeNotModerator c) good c
           else
             do {
               let c = (if has_right CHANNEL_RIGHT_CANT_BAN c
                        then emit (CommandLog (pAccountId p) (chName c) (pName p) (GUID_LOPART good) badname (GUID_LOPART victim)) c
                        else c);
               let c = c\<lparr>bannedStore := AList.delete (GUID_LOPART victim) (bannedStore c)\<rparr>;
               let c = RemoveChannelBanFromDB (GUID_LOPART victim) c;
               SendToAll W (MakePlayerUnbanned victim good c) 0 c
             }
         }
     }"

definition UnBan :: "world \<Rightarrow> u64 \<Rightarrow> channel \<Rightarrow> channel" where
  "UnBan W guid c =
     (if \<not> IsBanned W guid c then c
      else RemoveChannelBanFromDB (GUID_LOPART guid)
             (c\<lparr>bannedStore := AList.delete (GUID_LOPART guid) (bannedStore c)\<rparr>))"

section \<open>Settings\<close>

definition Password :: "world \<Rightarrow> nat \<Rightarrow> string \<Rightarrow> channel \<Rightarrow> channel option" where
  "Password W player pass c =
     do {
       p \<leftarrow> deref W player;
       let guid = pGUID p;
       if \<not> IsOn guid c then SendToOne W (MakeNotMember c) guid c
       else if \<not> pi_IsModerator (slot guid c) \<and> \<not> IsGMAccount (pSecurity p) then
         SendToOne W (MakeNotModerator c) guid c
       else if has_right CHANNEL_RIGHT_CANT_CHANGE_PASSWORD c then SendToOne W (MakeNotModerator c) guid c
       else
         do {
           let c = c\<lparr>chPassword := pass\<rparr>;
           c \<leftarrow> SendToAll W (MakePasswordChanged guid c) 0 c;
           Some (UpdateChannelInDB c)
         }
     }"

definition SetMode :: "world \<Rightarrow> nat \<Rightarrow> string \<Rightarrow> bool \<Rightarrow> bool \<Rightarrow> channel \<Rightarrow> channel option" where
  "SetMode W player p2n moder state c =
     do {
       p \<leftarrow> deref W player;
       let guid = pGUID p;
       let sec = pSecurity p;
       if \<not> IsOn guid c then SendToOne W (MakeNotMember c) guid c
       else if \<not> pi_IsModerator (slot guid c) \<and> \<not> IsGMAccount sec then
         SendToOne W (MakeNotModerator c) guid c
       else if guid = chOwnerGUID c \<and> p2n = pName p \<and> moder then Some c
       else if FindPlayerByName W p2n = 0 then SendToOne W (MakePlayerNotFound p2n c) guid c
       else
         do {
           newp \<leftarrow> deref W (FindPlayerByName W p2n);
           let victim = pGUID newp;
           if victim = 0 \<or> \<not> IsOn victim c \<or>
             (\<not> IsGMAccount sec \<or> \<not> IsGMAccount (pSecurity newp)) \<and> pTeamId p \<noteq> pTeamId newp \<and> \<not> twoSideChannel W
           then SendToOne W (MakePlayerNotFound p2n c) guid c
           else if chOwnerGUID c = victim \<and> chOwnerGUID c \<noteq> guid then SendToOne W (MakeNotOwner c) guid c
           else if moder then
             (if \<not> is_constant_moderator (pAccountId newp) c then SetModerator_guid W victim state c else Some c)
           else if \<not> IsGMAccount sec \<and> \<not> is_constant_moderator (pAccountId p) c \<and> has_right CHANNEL_RIGHT_CANT_MUTE c
           then SendToOne W (MakeNotModerator c) guid c
           else SetMute_guid W victim state c
         }
     }"

definition SetModerator :: "world \<Rightarrow> nat \<Rightarrow> string \<Rightarrow> channel \<Rightarrow> channel option" where
  "SetModerator W player newname c = SetMode W player newname True True c"

definition UnsetModerator :: "world \<Rightarrow> nat \<Rightarrow> string \<Rightarrow> channel \<Rightarrow> channel option" where
  "UnsetModerator W player newname c = SetMode W player newname True False c"

definition SetMute :: "world \<Rightarrow> nat \<Rightarrow> string \<Rightarrow> channel \<Rightarrow> channel option" where
  "SetMute W player newname c = SetMode W player newname False True c"

definition UnsetMute :: "world \<Rightarrow> nat \<Rightarrow> string \<Rightarrow> channel \<Rightarrow> channel option" where
  "UnsetMute W player newname c = SetMode W player newname False False c"

definition SetOwner_name :: "world \<Rightarrow> nat \<Rightarrow> string \<Rightarrow> channel \<Rightarrow> channel option" where
  "SetOwner_name W player newname c =
     do {
       p \<leftarrow> deref W player;
       let guid = pGUID p;
       let sec = pSecurity p;
       if \<not> IsOn guid c then SendToOne W (MakeNotMember c) guid c
       else if \<not> IsGMAccount sec \<and> guid \<noteq> chOwnerGUID c \<and> \<not> is_constant_moderator (pAccountId p) c then
         SendToOne W (MakeNotOwner c) guid c
       else if FindPlayerByName W newname = 0 then SendToOne W (MakePlayerNotFound newname c) guid c
       else
         do {
           newp \<leftarrow> deref W (FindPlayerByName W newname);
           let victim = pGUID newp;
           if victim = 0 \<or> \<not> IsOn victim c \<or> (pTeamId newp \<noteq> pTeamId p \<and> \<not> twoSideChannel W)
           then SendToOne W (MakePlayerNotFound newname c) guid c
           else SetOwner W victim True c
         }
     }"

definition SendWhoOwner :: "world \<Rightarrow> u64 \<Rightarrow> channel \<Rightarrow> channel option" where
  "SendWhoOwner W guid c =
     SendToOne W (if IsOn guid c then MakeChannelOwner W c else MakeNotMember c) guid c"

definition Announce :: "world \<Rightarrow> nat \<Rightarrow> channel \<Rightarrow> channel option" where
  "Announce W player c =
     do {
       p \<leftarrow> deref W player;
       let guid = pGUID p;
       if \<not> IsOn guid c then SendToOne W (MakeNotMember c) guid c
       else if \<not> pi_IsModerator (slot guid c) \<and> \<not> IsGMAccount (pSecurity p) then
         SendToOne W (MakeNotModerator c) guid c
       else if has_right (CHANNEL_RIGHT_FORCE_NO_ANNOUNCEMENTS OR CHANNEL_RIGHT_FORCE_ANNOUNCEMENTS) c then
         SendToOne W (MakeNotModerator c) guid c
       else
         do {
           let c = c\<lparr>chAnnounce := \<not> chAnnounce c\<rparr>;
           c \<leftarrow> SendToAll W (if chAnnounce c then MakeAnnouncementsOn guid c else MakeAnnouncementsOff guid c) 0 c;
           Some (UpdateChannelInDB c)
         }
     }"

section \<open>Talking\<close>

text \<open>
  The members \<^verbatim>\<open>List\<close> shows: those of player accounts, as guid and flags. The count goes
  into the placeholder that \<^verbatim>\<open>put<uint32>(pos, count)\<close> overwrites.
\<close>

fun list_members :: "world \<Rightarrow> (u64 \<times> playerInfo) list \<Rightarrow> (field list \<times> u32) option" where
  "list_members W [] = Some ([], 0)"
| "list_members W (i # is) =
     do {
       p \<leftarrow> deref W (plrPtr (snd i));
       (rest, count) \<leftarrow> list_members W is;
       Some (if IsPlayerAccount (pSecurity p)
             then (FU64 (fst i) # FU8 (piFlags (snd i)) # rest, count + 1) else (rest, count))
     }"

definition List_members :: "world \<Rightarrow> nat \<Rightarrow> channel \<Rightarrow> channel option" where
  "List_members W player c =
     do {
       p \<leftarrow> deref W player;
       let guid = pGUID p;
       if \<not> IsOn guid c then SendToOne W (MakeNotMember c) guid c
       else
         do {
           let data = [FU8 1, FStr (chName c), FU8 (chFlags c)];
           let pos = length data;
           let data = data @ [FU32 0];
           (rest, count) \<leftarrow> (if \<not> has_right CHANNEL_RIGHT_CANT_SPEAK c
                             then list_members W (storeOrder W (playersStore c)) else Some ([], 0));
           let data = (data @ rest)[pos := FU32 count];
           SendToOne W (Packet SMSG_CHANNEL_LIST data) guid c
         }
     }"

definition Say :: "world \<Rightarrow> u64 \<Rightarrow> string \<Rightarrow> u32 \<Rightarrow> channel \<Rightarrow> channel option" where
  "Say W guid what lang c =
     (if what = [] then Some c
      else let lang = (if twoSideChannel W then 0 else lang)
        in if \<not> IsOn guid c then SendToOne W (MakeNotMember c) guid c
           else let pinfo = slot guid c
             in if pi_IsMuted pinfo then SendToOne W (MakeMuted c) guid c
                else
                  do {
                    let player = plrPtr pinfo;
                    limited \<leftarrow> (if player \<noteq> 0
                      then do { p \<leftarrow> deref W player; Some (pSecurity p = 0) } else Some False);
                    let speakDelay = (if crSpeakDelay (chRights c) > 0 then crSpeakDelay (chRights c)
                                      else if length (playersStore c) \<ge> 10 then 5 else 0);
                    let (allowed, pinfo) = (if limited then pi_IsAllowedToSpeak (GetGameTime W) speakDelay pinfo
                                            else (True, pinfo));
                    let c = set_slot guid pinfo c;
                    if \<not> allowed then
                      (let timeStr = secsToTimeString
                             (word_of_int (uint (lastSpeakTime pinfo + speakDelay) - GetGameTime W)) False;
                           c = (if crSpeakMessage (chRights c) \<noteq> []
                                then emit (Notification player (crSpeakMessage (chRights c))) c else c)
                       in Some (emit (Notification player (''You must wait '' @ timeStr @ '' before speaking again.'')) c))
                    else
                      SendToAll W (ChatPacket lang (if player \<noteq> 0 then Some player else None) guid what (chName c))
                        (if pi_IsModerator pinfo then 0 else guid) c
                  })"

text \<open>
  \<^verbatim>\<open>EveryoneSayToSelf\<close> writes each receiver's guid over the two placeholders of the packet,
  at the offsets 5 and \<open>17 + size + 1\<close>: the fields 2 and 5.
\<close>

definition self_packet :: "string \<Rightarrow> string \<Rightarrow> field list" where
  "self_packet name what =
     (let what = takeWhile (\<lambda>c. c \<noteq> CHR 0x00) what
      in [FU8 0x11, FU32 0, FU64 0, FU32 0, FStr name, FU64 0, FU32 (of_nat (length what) + 1), FStr what, FU8 0])"

fun say_to_self :: "world \<Rightarrow> field list \<Rightarrow> (u64 \<times> playerInfo) list \<Rightarrow> channel \<Rightarrow> channel option" where
  "say_to_self W data [] c = Some c"
| "say_to_self W data (i # is) c =
     do {
       let data = data[2 := FU64 (fst i)];
       let data = data[5 := FU64 (fst i)];
       c \<leftarrow> send_ptr W (plrPtr (snd i)) (Packet SMSG_MESSAGECHAT data) c;
       say_to_self W data is c
     }"

definition EveryoneSayToSelf :: "world \<Rightarrow> string option \<Rightarrow> channel \<Rightarrow> channel option" where
  "EveryoneSayToSelf W what c =
     (case what of
        None \<Rightarrow> Some c
      | Some what \<Rightarrow> say_to_self W (self_packet (chName c) what) (storeOrder W (playersStore c)) c)"

definition Invite :: "world \<Rightarrow> nat \<Rightarrow> string \<Rightarrow> channel \<Rightarrow> channel option" where
  "Invite W player newname c =
     do {
       p \<leftarrow> deref W player;
       let guid = pGUID p;
       if \<not> IsOn guid c then SendToOne W (MakeNotMember c) guid c
       else if FindPlayerByName W newname = 0 then SendToOne W (MakePlayerNotFound newname c) guid c
       else
         do {
           newp \<leftarrow> deref W (FindPlayerByName W newname);
           if \<not> pGMVisible newp then SendToOne W (MakePlayerNotFound newname c) guid c
           else if IsBanned W (pGUID newp) c then SendToOne W (MakePlayerInviteBanned newname c) guid c
           else if pTeamId newp \<noteq> pTeamId p then SendToOne W (MakeInviteWrongFaction c) guid c
           else if IsOn (pGUID newp) c then SendToOne W (MakePlayerAlreadyMember (pGUID newp) c) guid c
           else
             do {
               c \<leftarrow> (if GUID_LOPART guid \<notin> set (pIgnores newp)
                     then SendToOne W (MakeInvite guid c) (pGUID newp) c else Some c);
               SendToOne W (MakePlayerInvited (pName newp) c) guid c
             }
         }
     }"

end
