(* ===== verification/ChannelSpec.thy ===== *)
theory ChannelSpec
  imports Channel
begin

text \<open>
  What the operations of a channel do to its state, without their output: each operation
  that follows only live pointers \<open>yields\<close> a pure successor state. The pure states are the
  specification the channel's properties are proved on.
\<close>

section \<open>States up to output\<close>

definition yields :: "channel option \<Rightarrow> channel \<Rightarrow> bool" where
  "yields m c \<longleftrightarrow> (\<exists>out. m = Some (c\<lparr>chOut := out\<rparr>))"

lemma yields_Some [simp, intro]: "yields (Some c) c"
  unfolding yields_def by (rule exI [of _ "chOut c"]) simp

lemma yields_out [simp]: "yields m (c\<lparr>chOut := out\<rparr>) \<longleftrightarrow> yields m c"
  by (auto simp: yields_def)

lemma yields_Some_out [simp, intro]: "yields (Some (c\<lparr>chOut := out\<rparr>)) c"
  by (auto simp: yields_def)

lemma yields_bind:
  assumes "yields m c" and "\<And>out. yields (f (c\<lparr>chOut := out\<rparr>)) c'"
  shows "yields (m \<bind> f) c'"
  using assms by (auto simp: yields_def)

lemma yieldsE:
  assumes "yields m c" obtains out where "m = Some (c\<lparr>chOut := out\<rparr>)"
  using assms by (auto simp: yields_def)

section \<open>The operations ignore the output\<close>

lemma out_simps [simp]:
  "slot g (c\<lparr>chOut := out\<rparr>) = slot g c"
  "IsOn g (c\<lparr>chOut := out\<rparr>) = IsOn g c"
  "IsBanned W g (c\<lparr>chOut := out\<rparr>) = IsBanned W g c"
  "has_right r (c\<lparr>chOut := out\<rparr>) = has_right r c"
  "is_constant_moderator a (c\<lparr>chOut := out\<rparr>) = is_constant_moderator a c"
  "IsConstant (c\<lparr>chOut := out\<rparr>) = IsConstant c"
  "chHasFlag f (c\<lparr>chOut := out\<rparr>) = chHasFlag f c"
  "set_slot g i (c\<lparr>chOut := out\<rparr>) = (set_slot g i c)\<lparr>chOut := out\<rparr>"
  "erase_member g (c\<lparr>chOut := out\<rparr>) = (erase_member g c)\<lparr>chOut := out\<rparr>"
  "RemoveWatching p (c\<lparr>chOut := out\<rparr>) = (RemoveWatching p c)\<lparr>chOut := out\<rparr>"
  "AddBan b t (c\<lparr>chOut := out\<rparr>) = (AddBan b t c)\<lparr>chOut := out\<rparr>"
  "SetPassword pw (c\<lparr>chOut := out\<rparr>) = (SetPassword pw c)\<lparr>chOut := out\<rparr>"
  by (simp_all add: slot_def IsOn_def IsBanned_def has_right_def is_constant_moderator_def IsConstant_def
    chHasFlag_def set_slot_def erase_member_def RemoveWatching_def AddBan_def SetPassword_def)

lemma emit_out: "emit e c = c\<lparr>chOut := chOut c @ [e]\<rparr>"
  by (simp add: emit_def)

lemma db_out:
  "UpdateChannelUseageInDB c = c\<lparr>chOut := chOut (UpdateChannelUseageInDB c)\<rparr>"
  "UpdateChannelInDB c = c\<lparr>chOut := chOut (UpdateChannelInDB c)\<rparr>"
  "AddChannelBanToDB b t c = c\<lparr>chOut := chOut (AddChannelBanToDB b t c)\<rparr>"
  "RemoveChannelBanFromDB b c = c\<lparr>chOut := chOut (RemoveChannelBanFromDB b c)\<rparr>"
  by (simp_all add: UpdateChannelUseageInDB_def UpdateChannelInDB_def AddChannelBanToDB_def
    RemoveChannelBanFromDB_def emit_def)

section \<open>Worlds and live channels\<close>

text \<open>
  What the channel relies on outside: look-ups return live players, a player object has a
  guid of its own, and a hash container iterates over its elements.
\<close>

definition world_ok :: "world \<Rightarrow> bool" where
  "world_ok W \<longleftrightarrow> deref W 0 = None \<and>
     (\<forall>g. FindPlayerInOrOutOfWorld W g \<noteq> 0 \<longrightarrow> deref W (FindPlayerInOrOutOfWorld W g) \<noteq> None) \<and>
     (\<forall>n. FindPlayerByName W n \<noteq> 0 \<longrightarrow> deref W (FindPlayerByName W n) \<noteq> None) \<and>
     (\<forall>q p. deref W q = Some p \<longrightarrow> pGUID p \<noteq> 0) \<and>
     (\<forall>q p q' p'. deref W q = Some p \<longrightarrow> deref W q' = Some p' \<longrightarrow> pGUID p = pGUID p' \<longrightarrow> q = q') \<and>
     (\<forall>m. mset (storeOrder W m) = mset m) \<and> (\<forall>ps. mset (watchOrder W ps) = mset ps)"

definition members_ok :: "world \<Rightarrow> channel \<Rightarrow> bool" where
  "members_ok W c \<longleftrightarrow> (\<forall>g i. (g, i) \<in> set (playersStore c) \<longrightarrow>
     piPlayer i = g \<and> (\<exists>p. deref W (plrPtr i) = Some p \<and> pGUID p = g))"

definition watch_ok :: "world \<Rightarrow> channel \<Rightarrow> bool" where
  "watch_ok W c \<longleftrightarrow> (\<forall>q\<in>set (playersWatching c). deref W q \<noteq> None)"

lemma ok_out [simp]:
  "members_ok W (c\<lparr>chOut := out\<rparr>) = members_ok W c" "watch_ok W (c\<lparr>chOut := out\<rparr>) = watch_ok W c"
  by (simp_all add: members_ok_def watch_ok_def)

lemma world_by_name:
  assumes "world_ok W" "FindPlayerByName W n \<noteq> 0"
  obtains q where "deref W (FindPlayerByName W n) = Some q"
  using assms unfolding world_ok_def by blast

lemma world_store: "world_ok W \<Longrightarrow> set (storeOrder W m) = set m"
  by (metis set_mset_mset world_ok_def)

lemma world_watch: "world_ok W \<Longrightarrow> set (watchOrder W ps) = set ps"
  by (metis set_mset_mset world_ok_def)

section \<open>Sending\<close>

lemma yields_send_ptr: "deref W q \<noteq> None \<Longrightarrow> yields (send_ptr W q d c) c"
  by (auto simp: send_ptr_def emit_out)

lemma yields_send_members:
  "\<forall>i\<in>set is. deref W (plrPtr (snd i)) \<noteq> None \<Longrightarrow> yields (send_to_members W d g is c) c"
proof (induction "is" arbitrary: c)
  case (Cons i "is")
  then obtain p where p: "deref W (plrPtr (snd i)) = Some p" by auto
  let ?m = "if g = 0 \<or> GUID_LOPART g \<notin> set (pIgnores p) then send_ptr W (plrPtr (snd i)) d c else Some c"
  have "yields ?m c" using p yields_send_ptr [of W "plrPtr (snd i)" d c] by simp
  then have "yields (?m \<bind> send_to_members W d g is) c"
  proof (rule yields_bind)
    fix out
    show "yields (send_to_members W d g is (c\<lparr>chOut := out\<rparr>)) c"
      using Cons.IH [of "c\<lparr>chOut := out\<rparr>"] Cons.prems by simp
  qed
  then show ?case using p by simp
qed simp

lemma yields_SendToAll:
  assumes "world_ok W" "members_ok W c" shows "yields (SendToAll W d g c) c"
  unfolding SendToAll_def using assms
  by (intro yields_send_members) (force simp: world_store members_ok_def)

lemma yields_SendToOne: "world_ok W \<Longrightarrow> yields (SendToOne W d g c) c"
  by (auto simp: SendToOne_def Let_def world_ok_def intro: yields_send_ptr)

lemma yields_send_watching:
  "\<forall>q\<in>set ps. deref W q \<noteq> None \<Longrightarrow> yields (send_to_watching W d ps c) c"
proof (induction ps arbitrary: c)
  case (Cons q ps)
  have "yields (send_ptr W q d c \<bind> send_to_watching W d ps) c"
  proof (rule yields_bind)
    show "yields (send_ptr W q d c) c" using Cons.prems by (intro yields_send_ptr) simp
    fix out
    show "yields (send_to_watching W d ps (c\<lparr>chOut := out\<rparr>)) c"
      using Cons.IH [of "c\<lparr>chOut := out\<rparr>"] Cons.prems by simp
  qed
  then show ?case by simp
qed simp

lemma yields_SendToAllWatching:
  assumes "world_ok W" "watch_ok W c" shows "yields (SendToAllWatching W d c) c"
  unfolding SendToAllWatching_def using assms
  by (intro yields_send_watching) (simp add: world_watch watch_ok_def)

lemma yields_notify:
  assumes "world_ok W" "watch_ok W c" "deref W q \<noteq> None"
  shows "yields (FlagsNotify W q c) c" "yields (JoinNotify W q c) c" "yields (LeaveNotify W q c) c"
  using assms yields_SendToAllWatching [OF assms(1,2)]
  by (auto simp: FlagsNotify_def JoinNotify_def LeaveNotify_def)

section \<open>Members\<close>

lemma map_of_set_slot [simp]:
  "map_of (playersStore (set_slot g i c)) = (map_of (playersStore c))(g \<mapsto> i)"
  by (simp add: set_slot_def map_of_store)

lemma map_of_erase_member [simp]:
  "map_of (playersStore (erase_member g c)) = (map_of (playersStore c))(g := None)"
  by (simp add: erase_member_def map_of_erase)

lemma IsOn_set_slot [simp]: "IsOn h (set_slot g i c) \<longleftrightarrow> h = g \<or> IsOn h c"
  by (simp add: IsOn_def)

lemma IsOn_erase [simp]: "IsOn h (erase_member g c) \<longleftrightarrow> h \<noteq> g \<and> IsOn h c"
  by (simp add: IsOn_def)

lemma slot_set_slot [simp]: "slot h (set_slot g i c) = (if h = g then i else slot h c)"
  by (simp add: slot_def)

lemma slot_erase [simp]: "h \<noteq> g \<Longrightarrow> slot h (erase_member g c) = slot h c"
  by (simp add: slot_def)

lemma set_slot_fields [simp]:
  "chOwnerGUID (set_slot g i c) = chOwnerGUID c" "chOwnership (set_slot g i c) = chOwnership c"
  "chRights (set_slot g i c) = chRights c" "bannedStore (set_slot g i c) = bannedStore c"
  "playersWatching (set_slot g i c) = playersWatching c" "chId (set_slot g i c) = chId c"
  "chAnnounce (set_slot g i c) = chAnnounce c" "chPassword (set_slot g i c) = chPassword c"
  by (simp_all add: set_slot_def)

lemma erase_fields [simp]:
  "chOwnerGUID (erase_member g c) = chOwnerGUID c" "chOwnership (erase_member g c) = chOwnership c"
  "chRights (erase_member g c) = chRights c" "bannedStore (erase_member g c) = bannedStore c"
  "playersWatching (erase_member g c) = playersWatching c" "chId (erase_member g c) = chId c"
  "chAnnounce (erase_member g c) = chAnnounce c" "chPassword (erase_member g c) = chPassword c"
  by (simp_all add: erase_member_def)

lemma watching_fields [simp]:
  "playersStore (RemoveWatching q c) = playersStore c" "chOwnerGUID (RemoveWatching q c) = chOwnerGUID c"
  "chOwnership (RemoveWatching q c) = chOwnership c" "chRights (RemoveWatching q c) = chRights c"
  "bannedStore (RemoveWatching q c) = bannedStore c" "chId (RemoveWatching q c) = chId c"
  "slot h (RemoveWatching q c) = slot h c" "IsOn h (RemoveWatching q c) = IsOn h c"
  by (simp_all add: RemoveWatching_def slot_def IsOn_def)

lemma derived_fields [simp]:
  "IsConstant (set_slot g i c) = IsConstant c" "IsConstant (erase_member g c) = IsConstant c"
  "IsConstant (RemoveWatching q c) = IsConstant c" "has_right r (set_slot g i c) = has_right r c"
  "has_right r (erase_member g c) = has_right r c" "has_right r (RemoveWatching q c) = has_right r c"
  "is_constant_moderator a (set_slot g i c) = is_constant_moderator a c"
  by (simp_all add: IsConstant_def has_right_def is_constant_moderator_def)

lemma flag_bits [simp]:
  "pi_IsOwner (pi_SetOwner b i) = b" "pi_IsModerator (pi_SetModerator b i) = b" "pi_IsMuted (pi_SetMuted b i) = b"
  "pi_IsOwner (pi_SetModerator b i) = pi_IsOwner i" "pi_IsModerator (pi_SetOwner b i) = pi_IsModerator i"
  "pi_IsOwner (pi_SetMuted b i) = pi_IsOwner i" "pi_IsModerator (pi_SetMuted b i) = pi_IsModerator i"
  "pi_IsMuted (pi_SetOwner b i) = pi_IsMuted i" "pi_IsMuted (pi_SetModerator b i) = pi_IsMuted i"
proof -
  have num: "bit (1 :: u8) n \<longleftrightarrow> n = 0" "bit (2 :: u8) n \<longleftrightarrow> n = 1" "bit (8 :: u8) n \<longleftrightarrow> n = 3" for n
    using bit_exp_word [of 0 n, where 'a = 8] bit_exp_word [of 1 n, where 'a = 8] bit_exp_word [of 3 n, where 'a = 8]
    by auto
  have bits: "pi_IsOwner j \<longleftrightarrow> bit (piFlags j) 0" "pi_IsModerator j \<longleftrightarrow> bit (piFlags j) 1"
      "pi_IsMuted j \<longleftrightarrow> bit (piFlags j) 3" for j
    using and_push_bit_1 [of "piFlags j" 0] and_push_bit_1 [of "piFlags j" 1] and_push_bit_1 [of "piFlags j" 3]
    by (simp_all add: pi_IsOwner_def pi_IsModerator_def pi_IsMuted_def member_flags)
  show "pi_IsOwner (pi_SetOwner b i) = b" "pi_IsModerator (pi_SetModerator b i) = b" "pi_IsMuted (pi_SetMuted b i) = b"
    "pi_IsOwner (pi_SetModerator b i) = pi_IsOwner i" "pi_IsModerator (pi_SetOwner b i) = pi_IsModerator i"
    "pi_IsOwner (pi_SetMuted b i) = pi_IsOwner i" "pi_IsModerator (pi_SetMuted b i) = pi_IsModerator i"
    "pi_IsMuted (pi_SetOwner b i) = pi_IsMuted i" "pi_IsMuted (pi_SetModerator b i) = pi_IsMuted i"
    unfolding bits pi_SetOwner_def pi_SetModerator_def pi_SetMuted_def member_flags
    by (simp_all add: num bit_or_iff bit_and_iff bit_not_iff)
qed

lemma ptr_flags [simp]:
  "plrPtr (pi_SetOwner b i) = plrPtr i" "plrPtr (pi_SetModerator b i) = plrPtr i" "plrPtr (pi_SetMuted b i) = plrPtr i"
  "piPlayer (pi_SetOwner b i) = piPlayer i" "piPlayer (pi_SetModerator b i) = piPlayer i" "piPlayer (pi_SetMuted b i) = piPlayer i"
  by (simp_all add: pi_SetOwner_def pi_SetModerator_def pi_SetMuted_def)

lemma yields_let_out:
  assumes "x = c\<lparr>chOut := chOut x\<rparr>" and "\<And>out. yields (f (c\<lparr>chOut := out\<rparr>)) c'"
  shows "yields (Let x f) c'"
  using assms(2) [of "chOut x"] by (simp only: Let_def assms(1) [symmetric])

lemma set_alist_update: "set (AList.update k v m) \<subseteq> insert (k, v) (set m)"
  by (induction m) auto

lemma set_alist_delete: "set (AList.delete k m) = {e \<in> set m. fst e \<noteq> k}"
  by (auto simp: AList.delete_eq)

lemma members_ok_set_slot:
  assumes "members_ok W c" "piPlayer i = g" "deref W (plrPtr i) = Some p" "pGUID p = g"
  shows "members_ok W (set_slot g i c)"
  using assms set_alist_update [of g i "playersStore c"] by (fastforce simp: members_ok_def set_slot_def)

lemma members_ok_slot:
  assumes "members_ok W c" "IsOn g c"
  obtains p where "deref W (plrPtr (slot g c)) = Some p" "pGUID p = g" "piPlayer (slot g c) = g"
proof -
  obtain i where i: "map_of (playersStore c) g = Some i" using assms(2) by (auto simp: IsOn_def)
  then have "(g, i) \<in> set (playersStore c)" by (rule map_of_SomeD)
  with assms(1) i that show thesis by (auto simp: members_ok_def slot_def)
qed

lemma members_ok_update:
  assumes "members_ok W c" "IsOn g c" "plrPtr i = plrPtr (slot g c)" "piPlayer i = piPlayer (slot g c)"
  shows "members_ok W (set_slot g i c)"
proof -
  obtain p where "deref W (plrPtr (slot g c)) = Some p" "pGUID p = g" "piPlayer (slot g c) = g"
    using assms(1,2) by (rule members_ok_slot)
  then show ?thesis using assms by (intro members_ok_set_slot) auto
qed

lemma members_ok_erase: "members_ok W c \<Longrightarrow> members_ok W (erase_member g c)"
  by (auto simp: members_ok_def erase_member_def set_alist_delete)

lemma ok_watching [simp]: "members_ok W (RemoveWatching q c) = members_ok W c"
  by (simp add: members_ok_def)

lemma watch_ok_fields [simp]:
  "watch_ok W (set_slot g i c) = watch_ok W c" "watch_ok W (erase_member g c) = watch_ok W c"
  "watch_ok W c \<Longrightarrow> watch_ok W (RemoveWatching q c)"
  by (auto simp: watch_ok_def RemoveWatching_def)

lemma owner_fields [simp]:
  "slot g (c\<lparr>chOwnerGUID := h\<rparr>) = slot g c" "IsOn g (c\<lparr>chOwnerGUID := h\<rparr>) = IsOn g c"
  "members_ok W (c\<lparr>chOwnerGUID := h\<rparr>) = members_ok W c" "watch_ok W (c\<lparr>chOwnerGUID := h\<rparr>) = watch_ok W c"
  "IsConstant (c\<lparr>chOwnerGUID := h\<rparr>) = IsConstant c" "has_right r (c\<lparr>chOwnerGUID := h\<rparr>) = has_right r c"
  by (simp_all add: slot_def IsOn_def members_ok_def watch_ok_def IsConstant_def has_right_def)

section \<open>Ownership\<close>

definition own_clear :: "channel \<Rightarrow> channel" where
  "own_clear c = (if chOwnerGUID c \<noteq> 0 \<and> IsOn (chOwnerGUID c) c
     then set_slot (chOwnerGUID c) (pi_SetOwner False (slot (chOwnerGUID c) c)) c else c)"

definition own_set :: "u64 \<Rightarrow> channel \<Rightarrow> channel" where
  "own_set guid c =
     (let c = (own_clear c)\<lparr>chOwnerGUID := guid\<rparr>
      in if guid = 0 then c else set_slot guid (pi_SetOwner True (pi_SetModerator True (slot guid c))) c)"

lemma own_clear_ok: "members_ok W c \<Longrightarrow> members_ok W (own_clear c)" "watch_ok W (own_clear c) = watch_ok W c"
  by (auto simp: own_clear_def intro: members_ok_update)

lemma IsOn_own_clear [simp]: "IsOn g (own_clear c) = IsOn g c"
  by (auto simp: own_clear_def)

lemma own_clear_out [simp]: "own_clear (c\<lparr>chOut := out\<rparr>) = (own_clear c)\<lparr>chOut := out\<rparr>"
  by (simp add: own_clear_def)

lemma own_set_out [simp]: "own_set g (c\<lparr>chOut := out\<rparr>) = (own_set g c)\<lparr>chOut := out\<rparr>"
  by (simp add: own_set_def Let_def set_slot_def slot_def)

lemma yields_SetOwner:
  assumes W: "world_ok W" and m: "members_ok W c" and w: "watch_ok W c" and g: "guid = 0 \<or> IsOn guid c"
  shows "yields (SetOwner W guid exclaim c) (own_set guid c)"
proof -
  let ?o = "chOwnerGUID c"
  let ?first = "if ?o \<noteq> 0 then
      (case map_of (playersStore c) ?o of
         Some i \<Rightarrow> FlagsNotify W (plrPtr i) (set_slot ?o (pi_SetOwner False i) c)
       | None \<Rightarrow> Some c)
    else Some c"
  have first: "yields ?first (own_clear c)"
  proof (cases "?o \<noteq> 0 \<and> IsOn ?o c")
    case True
    then obtain i where i: "map_of (playersStore c) ?o = Some i" by (auto simp: IsOn_def)
    then have s: "slot ?o c = i" by (simp add: slot_def)
    obtain p where "deref W (plrPtr i) = Some p" using members_ok_slot [OF m] True s by metis
    then have "yields (FlagsNotify W (plrPtr i) (set_slot ?o (pi_SetOwner False i) c)) (set_slot ?o (pi_SetOwner False i) c)"
      using W w by (intro yields_notify) auto
    with True i s show ?thesis by (simp add: own_clear_def)
  next
    case False
    then show ?thesis by (auto simp: own_clear_def IsOn_def split: option.split)
  qed
  show ?thesis
    unfolding SetOwner_def
  proof (rule yields_bind [OF first])
    fix out
    let ?c = "(own_clear c)\<lparr>chOwnerGUID := guid\<rparr>"
    show "yields (let c = (own_clear c)\<lparr>chOut := out, chOwnerGUID := guid\<rparr>
      in if chOwnerGUID c \<noteq> 0 then
         do {
           let pinfo = pi_SetModerator True (slot guid c);
           let oldFlag = piFlags pinfo;
           let pinfo = pi_SetOwner True pinfo;
           let c = set_slot guid pinfo c;
           c \<leftarrow> SendToAll W (MakeModeChange guid oldFlag c) 0 c;
           c \<leftarrow> FlagsNotify W (plrPtr pinfo) c;
           if exclaim then SendToAll W (MakeOwnerChanged guid c) 0 c else Some c
         } else Some c) (own_set guid c)"
    proof (cases "guid = 0")
      case True
      have "(own_clear c)\<lparr>chOut := out, chOwnerGUID := guid\<rparr> = ?c\<lparr>chOut := out\<rparr>" by simp
      then show ?thesis using True by (simp only: Let_def own_set_def) simp
    next
      case False
      with g have on: "IsOn guid ?c" by simp
      let ?i = "pi_SetOwner True (pi_SetModerator True (slot guid ?c))"
      let ?d = "set_slot guid ?i ?c"
      have mc: "members_ok W ?c" "watch_ok W ?c" using m w own_clear_ok by simp_all
      have md: "members_ok W ?d" "watch_ok W ?d" using mc on by (auto intro: members_ok_update)
      obtain p where "deref W (plrPtr (slot guid ?c)) = Some p" using members_ok_slot [OF mc(1) on] by metis
      then have n: "yields (FlagsNotify W (plrPtr ?i) (?d\<lparr>chOut := out\<rparr>)) ?d" for out
        using yields_notify(1) [OF W, of "?d\<lparr>chOut := out\<rparr>" "plrPtr ?i"] md by simp
      have s: "yields (SendToAll W x 0 (?d\<lparr>chOut := out\<rparr>)) ?d" for x out
        using yields_SendToAll [OF W, of "?d\<lparr>chOut := out\<rparr>"] md by simp
      have run: "yields (SendToAll W x 0 (?d\<lparr>chOut := out\<rparr>) \<bind> (\<lambda>c. FlagsNotify W (plrPtr ?i) c \<bind>
          (\<lambda>c. if exclaim then SendToAll W (MakeOwnerChanged guid c) 0 c else Some c))) ?d" for x out
      proof (rule yields_bind [OF s], rule yields_bind [OF n])
        fix out
        show "yields (if exclaim then SendToAll W (MakeOwnerChanged guid (?d\<lparr>chOut := out\<rparr>)) 0 (?d\<lparr>chOut := out\<rparr>)
            else Some (?d\<lparr>chOut := out\<rparr>)) ?d"
          using s by (cases exclaim) (simp_all only: if_True if_False yields_Some_out)
      qed
      have eq: "(own_clear c)\<lparr>chOut := out, chOwnerGUID := guid\<rparr> = ?c\<lparr>chOut := out\<rparr>" by simp
      have r: "own_set guid c = ?d" using False by (simp add: own_set_def Let_def)
      show ?thesis unfolding eq r using False run by (simp add: Let_def)
    qed
  qed
qed

section \<open>Joining\<close>

definition join_ok :: "world \<Rightarrow> player \<Rightarrow> string \<Rightarrow> channel \<Rightarrow> bool" where
  "join_ok W p pass c \<longleftrightarrow> \<not> IsOn (pGUID p) c \<and> \<not> IsBanned W (pGUID p) c \<and>
     (chPassword c = [] \<or> pass = chPassword c) \<and>
     \<not> (chHasFlag CHANNEL_FLAG_LFG c \<and> restrictedLFG W \<and> IsPlayerAccount (pSecurity p) \<and> pInGroup p)"

definition add_member :: "nat \<Rightarrow> player \<Rightarrow> channel \<Rightarrow> channel" where
  "add_member player p c = set_slot (pGUID p)
     \<lparr>piPlayer = pGUID p, piFlags = MEMBER_FLAG_NONE, lastSpeakTime = 0, plrPtr = player\<rparr> c"

definition join_mod :: "player \<Rightarrow> channel \<Rightarrow> channel" where
  "join_mod p c = (if is_constant_moderator (pAccountId p) c
     then set_slot (pGUID p) (pi_SetModerator True (slot (pGUID p) c)) c else c)"

definition join_own :: "player \<Rightarrow> channel \<Rightarrow> channel" where
  "join_own p c = (if chOwnerGUID c = 0 \<and> chOwnership c then own_set (pGUID p) c else c)"

definition join_mute :: "player \<Rightarrow> channel \<Rightarrow> channel" where
  "join_mute p c = (if has_right CHANNEL_RIGHT_CANT_SPEAK c
     then set_slot (pGUID p) (pi_SetMuted True (slot (pGUID p) c)) c else c)"

definition join_pure :: "nat \<Rightarrow> player \<Rightarrow> channel \<Rightarrow> channel" where
  "join_pure player p c =
     (let c = add_member player p c
      in if IsConstant c then c else join_mute p (join_own p (join_mod p c)))"

lemma join_out [simp]:
  "add_member q p (c\<lparr>chOut := out\<rparr>) = (add_member q p c)\<lparr>chOut := out\<rparr>"
  "join_mod p (c\<lparr>chOut := out\<rparr>) = (join_mod p c)\<lparr>chOut := out\<rparr>"
  "join_own p (c\<lparr>chOut := out\<rparr>) = (join_own p c)\<lparr>chOut := out\<rparr>"
  "join_mute p (c\<lparr>chOut := out\<rparr>) = (join_mute p c)\<lparr>chOut := out\<rparr>"
  by (simp_all add: add_member_def join_mod_def join_own_def join_mute_def)

lemma join_mod_ok:
  assumes "members_ok W c" "watch_ok W c" "IsOn (pGUID p) c"
  shows "members_ok W (join_mod p c)" "watch_ok W (join_mod p c)" "IsOn (pGUID p) (join_mod p c)"
  using assms by (auto simp: join_mod_def intro: members_ok_update)

lemma yields_join_custom:
  assumes W: "world_ok W" and p: "deref W player = Some p"
    and a: "members_ok W c" "watch_ok W c" "IsOn (pGUID p) c"
  shows "yields (join_custom W player p c) (join_mute p (join_own p (join_mod p c)))"
proof -
  let ?g = "pGUID p" and ?m = "join_mod p c"
  note mm = join_mod_ok [OF a]
  have mods: "yields (if is_constant_moderator (pAccountId p) (c\<lparr>chOut := out\<rparr>)
      then FlagsNotify W player (set_slot ?g (pi_SetModerator True (slot ?g (c\<lparr>chOut := out\<rparr>))) (c\<lparr>chOut := out\<rparr>))
      else Some (c\<lparr>chOut := out\<rparr>)) ?m" for out
    using yields_notify(1) [OF W, of "?m\<lparr>chOut := out\<rparr>" player] mm p
    by (simp add: join_mod_def split: if_splits)
  have own: "yields (if chOwnerGUID (?m\<lparr>chOut := out\<rparr>) = 0 \<and> chOwnership (?m\<lparr>chOut := out\<rparr>)
      then SetOwner W ?g False (?m\<lparr>chOut := out\<rparr>) else Some (?m\<lparr>chOut := out\<rparr>)) (join_own p ?m)" for out
    using yields_SetOwner [OF W, of "?m\<lparr>chOut := out\<rparr>" ?g False] mm by (simp add: join_own_def)
  have mute: "yields (Some (if has_right CHANNEL_RIGHT_CANT_SPEAK (d\<lparr>chOut := out\<rparr>)
      then set_slot ?g (pi_SetMuted True (slot ?g (d\<lparr>chOut := out\<rparr>))) (d\<lparr>chOut := out\<rparr>) else d\<lparr>chOut := out\<rparr>))
      (join_mute p d)" for d out
    by (simp add: join_mute_def)
  have db: "(if playersStore c \<noteq> [] then UpdateChannelUseageInDB c else c) =
      c\<lparr>chOut := chOut (if playersStore c \<noteq> [] then UpdateChannelUseageInDB c else c)\<rparr>"
    by (simp add: UpdateChannelUseageInDB_def emit_def)
  show ?thesis unfolding join_custom_def Let_def [of ?g]
    by (rule yields_let_out [OF db], rule yields_bind [OF mods], rule yields_bind [OF own], rule mute)
qed

lemma yields_join_accept:
  assumes W: "world_ok W" and m: "members_ok W c" and w: "watch_ok W c" and p: "deref W player = Some p"
  shows "yields (join_accept W player p c) (join_pure player p c)"
proof -
  let ?g = "pGUID p" and ?a = "add_member player p c"
  have ma: "members_ok W ?a" "watch_ok W ?a" "IsOn ?g ?a"
    using m w p by (auto simp: add_member_def intro!: members_ok_set_slot)
  have greet: "yields (if b then SendToAll W x 0 (c\<lparr>chOut := out\<rparr>) else Some (c\<lparr>chOut := out\<rparr>)) c" for b x out
    using yields_SendToAll [OF W, of "c\<lparr>chOut := out\<rparr>"] m by simp
  have one: "yields (SendToOne W x g (?a\<lparr>chOut := out\<rparr>)) ?a" for x g out
    using yields_SendToOne [OF W, of x g "?a\<lparr>chOut := out\<rparr>"] by simp
  have notif: "yields (JoinNotify W player (?a\<lparr>chOut := out\<rparr>)) ?a" for out
    using yields_notify(2) [OF W, of "?a\<lparr>chOut := out\<rparr>" player] ma p by simp
  have rest: "yields (if \<not> IsConstant (?a\<lparr>chOut := out\<rparr>) then join_custom W player p (?a\<lparr>chOut := out\<rparr>)
      else Some (?a\<lparr>chOut := out\<rparr>)) (join_pure player p c)" for out
    using yields_join_custom [OF W p, of "?a\<lparr>chOut := out\<rparr>"] ma by (simp add: join_pure_def Let_def)
  have joined: "emit e c = c\<lparr>chOut := chOut (emit e c)\<rparr>" for e c by (simp add: emit_def)
  have msg: "(if b then emit e (?a\<lparr>chOut := out\<rparr>) else ?a\<lparr>chOut := out\<rparr>) =
      ?a\<lparr>chOut := chOut (if b then emit e (?a\<lparr>chOut := out\<rparr>) else ?a\<lparr>chOut := out\<rparr>)\<rparr>" for b e out
    by (simp add: emit_def)
  have arrive: "yields (let c = set_slot ?g \<lparr>piPlayer = ?g, piFlags = MEMBER_FLAG_NONE, lastSpeakTime = 0,
             plrPtr = player\<rparr> (c\<lparr>chOut := out\<rparr>);
           c = if crJoinMessage (chRights c) \<noteq> [] then emit (SysMessage player (crJoinMessage (chRights c))) c else c
       in SendToOne W (MakeYouJoined c) ?g c \<bind> (\<lambda>c. JoinNotify W player c \<bind>
            (\<lambda>c. if \<not> IsConstant c then join_custom W player p c else Some c))) (join_pure player p c)" for out
    unfolding out_simps add_member_def [symmetric] Let_def [of "?a\<lparr>chOut := out\<rparr>"]
    by (rule yields_let_out [OF msg], rule yields_bind [OF one], rule yields_bind [OF notif], rule rest)
  show ?thesis unfolding join_accept_def Let_def [of ?g]
    by (rule yields_let_out [OF joined], rule yields_bind [OF greet], rule arrive)
qed

lemma yields_JoinChannel:
  assumes "world_ok W" "members_ok W c" "watch_ok W c" "deref W player = Some p"
  shows "yields (JoinChannel W player pass c) (if join_ok W p pass c then join_pure player p c else c)"
  using assms yields_join_accept [OF assms] yields_SendToOne [OF assms(1)]
  by (auto simp: JoinChannel_def join_ok_def Let_def)

section \<open>Succession and leaving\<close>

lemma pick_owner_member:
  "\<forall>i\<in>set is. deref W (plrPtr (snd i)) \<noteq> None \<Longrightarrow>
    \<exists>g. pick_owner W g0 is = Some g \<and> (if is = [] then g = g0 else g \<in> piPlayer ` snd ` set is)"
proof (induction "is" arbitrary: g0)
  case (Cons i "is")
  then obtain p where p: "deref W (plrPtr (snd i)) = Some p" by auto
  with Cons.IH [of "piPlayer (snd i)"] Cons.prems show ?case by (auto split: if_splits)
qed simp

definition succ_pure :: "world \<Rightarrow> channel \<Rightarrow> channel" where
  "succ_pure W c = own_set (if playersStore c = [] then 0
     else the (pick_owner W 0 (storeOrder W (playersStore c)))) c"

lemma succ_pure_out [simp]: "succ_pure W (c\<lparr>chOut := out\<rparr>) = (succ_pure W c)\<lparr>chOut := out\<rparr>"
  by (simp add: succ_pure_def)

lemma pick_owner_ok:
  assumes "world_ok W" "members_ok W c" "playersStore c \<noteq> []"
  obtains g where "pick_owner W 0 (storeOrder W (playersStore c)) = Some g" "IsOn g c"
proof -
  have "\<forall>i\<in>set (storeOrder W (playersStore c)). deref W (plrPtr (snd i)) \<noteq> None"
    using assms by (fastforce simp: world_store members_ok_def)
  moreover have "storeOrder W (playersStore c) \<noteq> []"
    using assms(3) world_store [OF assms(1)] by (metis set_empty)
  ultimately obtain g where g: "pick_owner W 0 (storeOrder W (playersStore c)) = Some g"
      "g \<in> piPlayer ` snd ` set (playersStore c)"
    using pick_owner_member [of "storeOrder W (playersStore c)" W 0] world_store [OF assms(1)] by auto
  then obtain h i where "(h, i) \<in> set (playersStore c)" "piPlayer i = g" by auto
  with assms(2) have "(g, i) \<in> set (playersStore c)" by (auto simp: members_ok_def)
  then have "IsOn g c" by (simp add: IsOn_def) (metis map_of_eq_None_iff fst_conv image_eqI option.exhaust)
  with g that show thesis by blast
qed

lemma yields_succeed:
  assumes "world_ok W" "members_ok W c" "watch_ok W c"
  shows "yields (succeed_owner W c) (succ_pure W c)"
proof (cases "playersStore c = []")
  case True
  then show ?thesis using yields_SetOwner [OF assms, of 0] by (simp add: succeed_owner_def succ_pure_def)
next
  case False
  obtain g where "pick_owner W 0 (storeOrder W (playersStore c)) = Some g" "IsOn g c"
    using pick_owner_ok [OF assms(1,2) False] .
  with False show ?thesis using yields_SetOwner [OF assms, of g True] by (simp add: succeed_owner_def succ_pure_def)
qed

definition leave_pure :: "world \<Rightarrow> nat \<Rightarrow> player \<Rightarrow> channel \<Rightarrow> channel" where
  "leave_pure W player p c =
     (let d = RemoveWatching player (erase_member (pGUID p) c)
      in if \<not> IsConstant c \<and> pi_IsOwner (slot (pGUID p) c) \<and> chOwnership c then succ_pure W d else d)"

lemma yields_leave_member:
  assumes W: "world_ok W" and m: "members_ok W c" and w: "watch_ok W c" and p: "deref W player = Some p"
  shows "yields (leave_member W player p send c) (leave_pure W player p c)"
proof -
  let ?g = "pGUID p" and ?e = "erase_member (pGUID p) c"
  let ?d = "RemoveWatching player ?e"
  have bye: "yields (if send then SendToOne W (MakeYouLeft c) ?g c \<bind> (\<lambda>c. Some (emit (LeftChannel player) c))
      else Some c) c"
    by (cases send) (simp_all, rule yields_bind [OF yields_SendToOne [OF W]], simp add: emit_out)
  have me: "members_ok W ?e" "watch_ok W ?e" using members_ok_erase [OF m] w by simp_all
  have greet: "yields (if b then SendToAll W x 0 (?e\<lparr>chOut := out\<rparr>) else Some (?e\<lparr>chOut := out\<rparr>)) ?e" for b x out
    using yields_SendToAll [OF W, of "?e\<lparr>chOut := out\<rparr>"] me by simp
  have notif: "yields (LeaveNotify W player (?d\<lparr>chOut := out\<rparr>)) ?d" for out
    using yields_notify(3) [OF W, of "?d\<lparr>chOut := out\<rparr>" player] me p by simp
  have db: "UpdateChannelUseageInDB (?d\<lparr>chOut := out\<rparr>) =
      ?d\<lparr>chOut := chOut (UpdateChannelUseageInDB (?d\<lparr>chOut := out\<rparr>))\<rparr>" for out
    by (simp add: UpdateChannelUseageInDB_def emit_def)
  have suc: "yields (succeed_owner W (?d\<lparr>chOut := out\<rparr>)) (succ_pure W ?d)" for out
    using yields_succeed [OF W, of "?d\<lparr>chOut := out\<rparr>"] me by simp
  have rest: "yields (if \<not> IsConstant (?d\<lparr>chOut := out\<rparr>) then
      (let c = UpdateChannelUseageInDB (?d\<lparr>chOut := out\<rparr>)
       in if pi_IsOwner (slot ?g c0) \<and> chOwnership c then succeed_owner W c else Some c)
      else Some (?d\<lparr>chOut := out\<rparr>)) (leave_pure W player p c)" if "slot ?g c0 = slot ?g c" for out c0
  proof (cases "IsConstant c")
    case True
    then show ?thesis by (simp add: leave_pure_def Let_def)
  next
    case False
    have "yields (let c = UpdateChannelUseageInDB (?d\<lparr>chOut := out\<rparr>)
       in if pi_IsOwner (slot ?g c0) \<and> chOwnership c then succeed_owner W c else Some c) (leave_pure W player p c)"
      by (rule yields_let_out [OF db]) (use suc False that in \<open>simp add: leave_pure_def Let_def\<close>)
    with False show ?thesis by simp
  qed
  show ?thesis
    unfolding leave_member_def Let_def [of ?g]
  proof (rule yields_bind [OF bye])
    fix out
    show "yields (let changeowner = pi_IsOwner (slot ?g (c\<lparr>chOut := out\<rparr>)); c = erase_member ?g (c\<lparr>chOut := out\<rparr>)
        in (if chAnnounce c \<and> (\<not> IsGMAccount (pSecurity p) \<or> \<not> silentlyGMJoin W)
            then SendToAll W (MakeLeft ?g c) 0 c else Some c) \<bind>
          (\<lambda>c. let c = RemoveWatching player c
               in LeaveNotify W player c \<bind>
                 (\<lambda>c. if \<not> IsConstant c then
                    (let c = UpdateChannelUseageInDB c
                     in if changeowner \<and> chOwnership c then succeed_owner W c else Some c)
                  else Some c))) (leave_pure W player p c)"
      unfolding Let_def [of "pi_IsOwner _"] out_simps Let_def [of "?e\<lparr>chOut := out\<rparr>"]
      by (rule yields_bind [OF greet], unfold out_simps Let_def [of "?d\<lparr>chOut := _\<rparr>"],
          rule yields_bind [OF notif], rule rest) simp
  qed
qed

lemma yields_LeaveChannel:
  assumes "world_ok W" "members_ok W c" "watch_ok W c" "deref W player = Some p"
  shows "yields (LeaveChannel W player send c) (if IsOn (pGUID p) c then leave_pure W player p c else c)"
  using assms yields_leave_member [OF assms] yields_SendToOne [OF assms(1)]
  by (auto simp: LeaveChannel_def Let_def)

section \<open>Kicks and bans\<close>

lemma ban_fields [simp]:
  "slot g (AddBan b t c) = slot g c" "IsOn g (AddBan b t c) = IsOn g c" "playersStore (AddBan b t c) = playersStore c"
  "members_ok W (AddBan b t c) = members_ok W c" "watch_ok W (AddBan b t c) = watch_ok W c"
  "chOwnerGUID (AddBan b t c) = chOwnerGUID c" "chOwnership (AddBan b t c) = chOwnership c"
  "playersWatching (AddBan b t c) = playersWatching c" "IsConstant (AddBan b t c) = IsConstant c"
  by (simp_all add: AddBan_def slot_def IsOn_def members_ok_def watch_ok_def IsConstant_def)

definition kick_ban :: "world \<Rightarrow> u64 \<Rightarrow> bool \<Rightarrow> channel \<Rightarrow> channel" where
  "kick_ban W victim ban c = (if ban \<and> \<not> IsBanned W victim c
     then AddBan (GUID_LOPART victim) (word_of_int (timeNow W + CHANNEL_BAN_DURATION)) c else c)"

definition kick_out :: "u64 \<Rightarrow> nat \<Rightarrow> bool \<Rightarrow> channel \<Rightarrow> channel" where
  "kick_out victim bad isOnChannel c = (if isOnChannel then RemoveWatching bad (erase_member victim c) else c)"

definition kick_pure :: "world \<Rightarrow> u64 \<Rightarrow> u64 \<Rightarrow> nat \<Rightarrow> bool \<Rightarrow> bool \<Rightarrow> channel \<Rightarrow> channel" where
  "kick_pure W good victim bad isOnChannel ban c =
     (let d = kick_out victim bad isOnChannel (kick_ban W victim ban c)
      in if chOwnerGUID c = victim \<and> chOwnership c then
           if good \<noteq> victim then own_set good d else succ_pure W d
         else d)"

lemma kick_ban_fields [simp]:
  "slot g (kick_ban W v b c) = slot g c" "IsOn g (kick_ban W v b c) = IsOn g c"
  "playersStore (kick_ban W v b c) = playersStore c"
  "members_ok W' (kick_ban W v b c) = members_ok W' c" "watch_ok W' (kick_ban W v b c) = watch_ok W' c"
  "chOwnerGUID (kick_ban W v b c) = chOwnerGUID c" "chOwnership (kick_ban W v b c) = chOwnership c"
  "playersWatching (kick_ban W v b c) = playersWatching c" "IsConstant (kick_ban W v b c) = IsConstant c"
  "kick_ban W v b (c\<lparr>chOut := out\<rparr>) = (kick_ban W v b c)\<lparr>chOut := out\<rparr>"
  by (simp_all add: kick_ban_def)

lemma kick_out_fields [simp]:
  "chOwnerGUID (kick_out v q b c) = chOwnerGUID c" "chOwnership (kick_out v q b c) = chOwnership c"
  "IsConstant (kick_out v q b c) = IsConstant c" "IsOn g (kick_out v q b c) \<longleftrightarrow> \<not> (b \<and> g = v) \<and> IsOn g c"
  "kick_out v q b (c\<lparr>chOut := out\<rparr>) = (kick_out v q b c)\<lparr>chOut := out\<rparr>"
  "watch_ok W c \<Longrightarrow> watch_ok W (kick_out v q b c)"
  by (auto simp: kick_out_def)

lemma members_ok_kick_out: "members_ok W c \<Longrightarrow> members_ok W (kick_out v q b c)"
  by (simp add: kick_out_def members_ok_erase)

lemma yields_kick_execute:
  assumes W: "world_ok W" and m: "members_ok W c" and w: "watch_ok W c"
    and good: "IsOn (pGUID p) c" and bad: "isOnChannel \<longrightarrow> deref W bad \<noteq> None"
  shows "yields (kick_execute W p victim bad isOnChannel (chOwnerGUID c = victim) ban c)
    (kick_pure W (pGUID p) victim bad isOnChannel ban c)"
proof -
  let ?b = "kick_ban W victim ban c"
  let ?d = "kick_out victim bad isOnChannel ?b"
  have tell: "yields (SendToAll W x 0 (d\<lparr>chOut := out\<rparr>)) d" if "members_ok W d" for x d out
    using yields_SendToAll [OF W, of "d\<lparr>chOut := out\<rparr>"] that by simp
  have banned: "yields (let until = t; c = AddChannelBanToDB l until (AddBan l until c)
        in if n then SendToAll W (MakePlayerBanned victim g c) 0 c else Some c) (AddBan l t c)" for l t g n
    unfolding Let_def [of t] by (rule yields_let_out [OF db_out(3)]) (use tell m in simp)
  have first: "yields (if ban then
            if \<not> IsBanned W victim c then
              (let until = word_of_int (timeNow W + CHANNEL_BAN_DURATION);
                   c = AddChannelBanToDB (GUID_LOPART victim) until (AddBan (GUID_LOPART victim) until c)
               in if n then SendToAll W (MakePlayerBanned victim g c) 0 c else Some c)
            else Some c
          else if n then SendToAll W (MakePlayerKicked victim g c) 0 c
          else Some c) ?b" for g n
    unfolding kick_ban_def using yields_SendToAll [OF W m]
    by (cases ban; cases "IsBanned W victim c"; cases n) (simp_all only: banned [of _ _ True, unfolded if_True]
      banned [of _ _ False, unfolded if_False] banned if_True if_False simp_thms yields_Some)
  have mb: "members_ok W ?d" "watch_ok W ?d" using m w members_ok_kick_out by simp_all
  have out: "yields (if isOnChannel then
            LeaveNotify W bad (RemoveWatching bad (emit (LeftChannel bad) (erase_member victim (?b\<lparr>chOut := out\<rparr>))))
          else Some (?b\<lparr>chOut := out\<rparr>)) ?d" for out
    using yields_notify(3) [OF W, of "?d\<lparr>chOut := out @ [LeftChannel bad]\<rparr>" bad] mb bad
    by (cases isOnChannel) (simp_all add: kick_out_def emit_out)
  have on: "IsOn (pGUID p) ?d" if "pGUID p \<noteq> victim" using that good by simp
  have last: "yields (if chOwnerGUID c = victim \<and> chOwnership (?d\<lparr>chOut := out\<rparr>) then
         if pGUID p \<noteq> victim then SetOwner W (pGUID p) True (?d\<lparr>chOut := out\<rparr>) else succeed_owner W (?d\<lparr>chOut := out\<rparr>)
       else Some (?d\<lparr>chOut := out\<rparr>)) (kick_pure W (pGUID p) victim bad isOnChannel ban c)" for out
    using yields_SetOwner [OF W, of "?d\<lparr>chOut := out\<rparr>" "pGUID p" True] on mb
      yields_succeed [OF W, of "?d\<lparr>chOut := out\<rparr>"] by (simp add: kick_pure_def Let_def)
  show ?thesis
    unfolding kick_execute_def Let_def [of "pGUID p"] Let_def [of "\<not> (IsGMAccount _ \<and> _)"]
    by (rule yields_bind [OF first], rule yields_bind [OF out], rule last)
qed

text \<open>
  The target of a kick, as a value: who it is if the command reaches it, and what is left
  to do. A refused or failed command only answers.
\<close>

definition kick_target :: "world \<Rightarrow> nat \<Rightarrow> player \<Rightarrow> string \<Rightarrow> bool \<Rightarrow> channel \<Rightarrow> (u64 \<times> nat \<times> bool) option" where
  "kick_target W player p badname ban c =
     (if IsOn (pGUID p) c \<and> (pi_IsModerator (slot (pGUID p) c) \<or> IsGMAccount (pSecurity p)) then
        (case kick_victim W player p badname ban c of
           Some (Inr (victim, acc, sec, bad, on)) \<Rightarrow>
             if kick_refusal p victim acc sec ban c = None then Some (victim, bad, on) else None
         | _ \<Rightarrow> None)
      else None)"

lemma kick_victim_ok:
  assumes W: "world_ok W"
  shows "\<exists>r. kick_victim W player p badname ban c = Some r \<and>
    (\<forall>v a s b on. r = Inr (v, a, s, b, on) \<longrightarrow> on \<longrightarrow> IsOn v c \<and> (\<exists>q. deref W b = Some q \<and> pGUID q = v))"
proof (cases "FindPlayerByName W badname = 0")
  case True
  then show ?thesis by (auto simp: kick_victim_def Let_def split: option.splits)
next
  case False
  then obtain q where "deref W (FindPlayerByName W badname) = Some q" by (rule world_by_name [OF W])
  with False show ?thesis by (auto simp: kick_victim_def Let_def split: option.splits)
qed

lemma yields_KickOrBan:
  assumes W: "world_ok W" and m: "members_ok W c" and w: "watch_ok W c" and p: "deref W player = Some p"
  shows "yields (KickOrBan W player badname ban c)
    (case kick_target W player p badname ban c of
       None \<Rightarrow> c | Some (victim, bad, on) \<Rightarrow> kick_pure W (pGUID p) victim bad on ban c)"
proof -
  obtain r where r: "kick_victim W player p badname ban c = Some r"
      "\<And>v a s b on. r = Inr (v, a, s, b, on) \<Longrightarrow> on \<longrightarrow> IsOn v c \<and> (\<exists>q. deref W b = Some q \<and> pGUID q = v)"
    using kick_victim_ok [OF W, of player p badname ban c] by blast
  have run: "yields (kick_execute W p v b on (chOwnerGUID c = v) ban c) (kick_pure W (pGUID p) v b on ban c)"
    if "r = Inr (v, a, s, b, on)" "IsOn (pGUID p) c" for v a s b on
    using r(2) [OF that(1)] that by (intro yields_kick_execute [OF W m w]) auto
  show ?thesis
    using p r(1) yields_SendToOne [OF W] run
    by (auto simp: KickOrBan_def kick_target_def Let_def emit_out split: sum.split option.split prod.split)
qed

end
