(* ===== verification/ChannelOps.thy ===== *)
theory ChannelOps
  imports ChannelSpec
begin

text \<open>
  The remaining operations of a channel as functions on its state, and every operation as
  one command: what the channel handlers of a client call.
\<close>

section \<open>Settings\<close>

lemma field_out [simp]:
  "chPassword (c\<lparr>chOut := out\<rparr>) = chPassword c" by simp

definition may_moderate :: "player \<Rightarrow> channel \<Rightarrow> bool" where
  "may_moderate p c \<longleftrightarrow> IsOn (pGUID p) c \<and> (pi_IsModerator (slot (pGUID p) c) \<or> IsGMAccount (pSecurity p))"

lemma yields_told:
  assumes W: "world_ok W" and c: "yields (SendToAll W d 0 c) c" and f: "f = UpdateChannelInDB"
  shows "yields (SendToAll W d 0 c \<bind> (\<lambda>c. Some (f c))) c"
proof (rule yields_bind [OF c])
  fix out
  show "yields (Some (f (c\<lparr>chOut := out\<rparr>))) c"
    unfolding f by (simp add: UpdateChannelInDB_def emit_def)
qed

lemma yields_Password:
  assumes W: "world_ok W" and m: "members_ok W c" and p: "deref W player = Some p"
  shows "yields (Password W player pass c)
    (if may_moderate p c \<and> \<not> has_right CHANNEL_RIGHT_CANT_CHANGE_PASSWORD c then c\<lparr>chPassword := pass\<rparr> else c)"
proof -
  have "members_ok W (c\<lparr>chPassword := pass\<rparr>)" using m by (simp add: members_ok_def)
  then have "yields (SendToAll W d 0 (c\<lparr>chPassword := pass\<rparr>) \<bind> (\<lambda>c. Some (UpdateChannelInDB c)))
      (c\<lparr>chPassword := pass\<rparr>)" for d
    by (intro yields_told yields_SendToAll W) simp_all
  then show ?thesis using p yields_SendToOne [OF W] by (simp add: Password_def may_moderate_def Let_def)
qed

lemma yields_Announce:
  assumes W: "world_ok W" and m: "members_ok W c" and p: "deref W player = Some p"
  shows "yields (Announce W player c)
    (if may_moderate p c \<and> \<not> has_right (CHANNEL_RIGHT_FORCE_NO_ANNOUNCEMENTS OR CHANNEL_RIGHT_FORCE_ANNOUNCEMENTS) c
     then c\<lparr>chAnnounce := \<not> chAnnounce c\<rparr> else c)"
proof -
  have "members_ok W (c\<lparr>chAnnounce := b\<rparr>)" for b using m by (simp add: members_ok_def)
  then have "yields (SendToAll W d 0 (c\<lparr>chAnnounce := b\<rparr>) \<bind> (\<lambda>c. Some (UpdateChannelInDB c)))
      (c\<lparr>chAnnounce := b\<rparr>)" for d b
    by (intro yields_told yields_SendToAll W) simp_all
  then show ?thesis using p yields_SendToOne [OF W] by (simp add: Announce_def may_moderate_def Let_def)
qed

text \<open>Unbanning by name: the ban that is lifted, if any.\<close>

definition unban_target :: "world \<Rightarrow> player \<Rightarrow> string \<Rightarrow> channel \<Rightarrow> u64 option" where
  "unban_target W p badname c =
     (let victim = MAKE_NEW_GUID (GetGlobalPlayerGUID W badname) 0 HIGHGUID_PLAYER
      in if may_moderate p c \<and> GetGlobalPlayerGUID W badname \<noteq> 0 \<and> victim \<noteq> 0 \<and> IsBanned W victim c \<and>
           (IsGMAccount (pSecurity p) \<or> is_constant_moderator (pAccountId p) c \<or> \<not> has_right CHANNEL_RIGHT_CANT_BAN c)
         then Some victim else None)"

definition lift_ban :: "u64 \<Rightarrow> channel \<Rightarrow> channel" where
  "lift_ban victim c = c\<lparr>bannedStore := AList.delete (GUID_LOPART victim) (bannedStore c)\<rparr>"

lemma yields_UnBan_name:
  assumes W: "world_ok W" and m: "members_ok W c" and p: "deref W player = Some p"
  shows "yields (UnBan_name W player badname c)
    (case unban_target W p badname c of None \<Rightarrow> c | Some victim \<Rightarrow> lift_ban victim c)"
proof -
  have lifted: "yields (SendToAll W d 0 (c\<lparr>bannedStore := bs, chOut := out\<rparr>)) (c\<lparr>bannedStore := bs\<rparr>)" for d bs out
    using yields_SendToAll [OF W, of "c\<lparr>bannedStore := bs, chOut := out\<rparr>" d 0] m
      yields_out [where c = "c\<lparr>bannedStore := bs\<rparr>" and out = out] by (simp add: members_ok_def)
  then show ?thesis using p yields_SendToOne [OF W]
    by (auto simp: UnBan_name_def may_moderate_def unban_target_def Let_def emit_def RemoveChannelBanFromDB_def lift_ban_def)
qed

lemma UnBan_state: "yields (Some (UnBan W g c)) (if IsBanned W g c then lift_ban g c else c)"
  by (simp add: UnBan_def lift_ban_def RemoveChannelBanFromDB_def emit_def)

section \<open>Modes and owners\<close>

lemma world_live:
  assumes "world_ok W" "deref W q = Some p" shows "q \<noteq> 0" "pGUID p \<noteq> 0"
proof -
  have "deref W 0 = None" "\<forall>q p. deref W q = Some p \<longrightarrow> pGUID p \<noteq> 0" using assms(1) by (simp_all add: world_ok_def)
  with assms(2) show "q \<noteq> 0" "pGUID p \<noteq> 0" by (metis option.distinct(1), blast)
qed

text \<open>Whom \<^verbatim>\<open>SetMode\<close> changes: the named member, and which flag.\<close>

definition mode_target :: "world \<Rightarrow> player \<Rightarrow> string \<Rightarrow> bool \<Rightarrow> channel \<Rightarrow> u64 option" where
  "mode_target W p p2n moder c =
     (if may_moderate p c \<and> \<not> (pGUID p = chOwnerGUID c \<and> p2n = pName p \<and> moder) then
        (case deref W (FindPlayerByName W p2n) of
           None \<Rightarrow> None
         | Some newp \<Rightarrow>
             if IsOn (pGUID newp) c
               \<and> (IsGMAccount (pSecurity p) \<and> IsGMAccount (pSecurity newp) \<or> pTeamId p = pTeamId newp \<or> twoSideChannel W)
               \<and> \<not> (chOwnerGUID c = pGUID newp \<and> chOwnerGUID c \<noteq> pGUID p)
               \<and> (if moder then \<not> is_constant_moderator (pAccountId newp) c
                  else IsGMAccount (pSecurity p) \<or> is_constant_moderator (pAccountId p) c \<or> \<not> has_right CHANNEL_RIGHT_CANT_MUTE c)
             then Some (pGUID newp) else None)
      else None)"

definition mode_set :: "u64 \<Rightarrow> bool \<Rightarrow> bool \<Rightarrow> channel \<Rightarrow> channel" where
  "mode_set victim moder state c =
     (let i = slot victim c
      in if (if moder then pi_IsModerator i else pi_IsMuted i) = state then c
         else set_slot victim ((if moder then pi_SetModerator else pi_SetMuted) state i) c)"

lemma yields_mode:
  assumes W: "world_ok W" and m: "members_ok W c" and w: "watch_ok W c" and on: "IsOn g c"
  shows "yields (SetModerator_guid W g state c) (mode_set g True state c)"
    "yields (SetMute_guid W g state c) (mode_set g False state c)"
proof -
  have keep: "members_ok W (set_slot g (f state (slot g c)) c)" if "f = pi_SetModerator \<or> f = pi_SetMuted" for f
    using that by (auto intro!: members_ok_update [OF m on])
  have say: "yields (SendToAll W d 0 (set_slot g (f state (slot g c)) c)) (set_slot g (f state (slot g c)) c)"
    if "f = pi_SetModerator \<or> f = pi_SetMuted" for d f
    using keep that by (intro yields_SendToAll W) blast
  obtain p where p: "deref W (plrPtr (slot g c)) = Some p" using members_ok_slot [OF m on] by metis
  let ?c = "set_slot g (pi_SetModerator state (slot g c)) c"
  have "yields (SendToAll W d 0 ?c \<bind> FlagsNotify W (plrPtr (slot g c))) ?c" for d
  proof (rule yields_bind [OF say])
    fix out
    show "yields (FlagsNotify W (plrPtr (slot g c)) (?c\<lparr>chOut := out\<rparr>)) ?c"
      using yields_notify(1) [OF W, of "?c\<lparr>chOut := out\<rparr>" "plrPtr (slot g c)"] w p by simp
  qed simp
  then show "yields (SetModerator_guid W g state c) (mode_set g True state c)"
    by (simp add: SetModerator_guid_def mode_set_def Let_def)
  show "yields (SetMute_guid W g state c) (mode_set g False state c)"
    using say [of pi_SetMuted] by (simp add: SetMute_guid_def mode_set_def Let_def)
qed

lemma yields_SetMode:
  assumes W: "world_ok W" and m: "members_ok W c" and w: "watch_ok W c" and p: "deref W player = Some p"
  shows "yields (SetMode W player p2n moder state c)
    (case mode_target W p p2n moder c of None \<Rightarrow> c | Some victim \<Rightarrow> mode_set victim moder state c)"
proof (cases "deref W (FindPlayerByName W p2n)")
  case None
  then have "FindPlayerByName W p2n = 0" using world_by_name [OF W] by fastforce
  then show ?thesis using p None yields_SendToOne [OF W] by (auto simp: SetMode_def mode_target_def Let_def)
next
  case (Some newp)
  then have nz: "FindPlayerByName W p2n \<noteq> 0" "pGUID newp \<noteq> 0" using world_live [OF W Some] by auto
  have "yields (SetModerator_guid W (pGUID newp) state c) (mode_set (pGUID newp) True state c)"
      "yields (SetMute_guid W (pGUID newp) state c) (mode_set (pGUID newp) False state c)" if "IsOn (pGUID newp) c"
    using yields_mode [OF W m w that] by auto
  note set = this and send = yields_SendToOne [OF W]
  note defs = SetMode_def mode_target_def may_moderate_def Let_def
  show ?thesis
  proof (cases "may_moderate p c \<and> \<not> (pGUID p = chOwnerGUID c \<and> p2n = pName p \<and> moder)")
    case False
    then show ?thesis using p send
      by (cases "IsOn (pGUID p) c"; cases "pi_IsModerator (slot (pGUID p) c)"; cases "IsGMAccount (pSecurity p)")
        (simp_all add: defs)
  next
    case able: True
    define team where "team \<longleftrightarrow> IsGMAccount (pSecurity p) \<and> IsGMAccount (pSecurity newp) \<or>
      pTeamId p = pTeamId newp \<or> twoSideChannel W"
    define prot where "prot \<longleftrightarrow> chOwnerGUID c = pGUID newp \<and> chOwnerGUID c \<noteq> pGUID p"
    define free where "free \<longleftrightarrow> IsGMAccount (pSecurity p) \<or> is_constant_moderator (pAccountId p) c \<or>
      \<not> has_right CHANNEL_RIGHT_CANT_MUTE c"
    have hit: "mode_target W p p2n moder c = (if IsOn (pGUID newp) c \<and> team \<and> \<not> prot \<and>
        (if moder then \<not> is_constant_moderator (pAccountId newp) c else free) then Some (pGUID newp) else None)"
      unfolding mode_target_def team_def prot_def free_def using able Some by (simp only: if_True option.case simp_thms)
    have run: "SetMode W player p2n moder state c =
        (if \<not> IsOn (pGUID newp) c \<or> \<not> team then SendToOne W (MakePlayerNotFound p2n c) (pGUID p) c
         else if prot then SendToOne W (MakeNotOwner c) (pGUID p) c
         else if moder then (if \<not> is_constant_moderator (pAccountId newp) c then SetModerator_guid W (pGUID newp) state c else Some c)
         else if \<not> free then SendToOne W (MakeNotModerator c) (pGUID p) c else SetMute_guid W (pGUID newp) state c)"
    proof -
      have go: "(\<not> IsOn (pGUID p) c) = False" "(\<not> pi_IsModerator (slot (pGUID p) c) \<and> \<not> IsGMAccount (pSecurity p)) = False"
          "(pGUID p = chOwnerGUID c \<and> p2n = pName p \<and> moder) = False" "(FindPlayerByName W p2n = 0) = False"
        using able nz by (simp_all add: may_moderate_def)
      have away: "(pGUID newp = 0 \<or> \<not> IsOn (pGUID newp) c \<or> (\<not> IsGMAccount (pSecurity p) \<or> \<not> IsGMAccount (pSecurity newp)) \<and>
          pTeamId p \<noteq> pTeamId newp \<and> \<not> twoSideChannel W) = (\<not> IsOn (pGUID newp) c \<or> \<not> team)"
        using nz unfolding team_def by blast
      have tied: "(\<not> IsGMAccount (pSecurity p) \<and> \<not> is_constant_moderator (pAccountId p) c \<and>
          has_right CHANNEL_RIGHT_CANT_MUTE c) = (\<not> free)"
        unfolding free_def by blast
      show ?thesis unfolding SetMode_def Let_def p Some bind.bind_lunit go away tied prot_def [symmetric] by simp
    qed
    show ?thesis unfolding hit run using set send
      by (cases "IsOn (pGUID newp) c"; cases team; cases prot; cases moder; cases free) simp_all
  qed
qed

definition owner_target :: "world \<Rightarrow> player \<Rightarrow> string \<Rightarrow> channel \<Rightarrow> u64 option" where
  "owner_target W p newname c =
     (if IsOn (pGUID p) c \<and> (IsGMAccount (pSecurity p) \<or> pGUID p = chOwnerGUID c \<or> is_constant_moderator (pAccountId p) c) then
        (case deref W (FindPlayerByName W newname) of
           None \<Rightarrow> None
         | Some newp \<Rightarrow>
             if IsOn (pGUID newp) c \<and> (pTeamId newp = pTeamId p \<or> twoSideChannel W) then Some (pGUID newp) else None)
      else None)"

lemma yields_SetOwner_name:
  assumes W: "world_ok W" and m: "members_ok W c" and w: "watch_ok W c" and p: "deref W player = Some p"
  shows "yields (SetOwner_name W player newname c)
    (case owner_target W p newname c of None \<Rightarrow> c | Some victim \<Rightarrow> own_set victim c)"
proof (cases "deref W (FindPlayerByName W newname)")
  case None
  then have "FindPlayerByName W newname = 0" using world_by_name [OF W] by fastforce
  then show ?thesis using p None yields_SendToOne [OF W] by (auto simp: SetOwner_name_def owner_target_def Let_def)
next
  case (Some newp)
  then have nz: "FindPlayerByName W newname \<noteq> 0" "pGUID newp \<noteq> 0" using world_live [OF W Some] by auto
  have "yields (SetOwner W (pGUID newp) True c) (own_set (pGUID newp) c)" if "IsOn (pGUID newp) c"
    using yields_SetOwner [OF W m w] that by auto
  then show ?thesis using p Some nz yields_SendToOne [OF W]
    by (cases "IsOn (pGUID newp) c") (simp_all add: SetOwner_name_def owner_target_def Let_def)
qed

section \<open>Talking\<close>

lemma yields_SendWhoOwner: "world_ok W \<Longrightarrow> yields (SendWhoOwner W g c) c"
  by (simp add: SendWhoOwner_def yields_SendToOne)

lemma list_members_Some:
  "\<forall>i\<in>set is. deref W (plrPtr (snd i)) \<noteq> None \<Longrightarrow> \<exists>r. list_members W is = Some r"
  by (induction "is") (auto split: prod.split)

lemma yields_List:
  assumes W: "world_ok W" and m: "members_ok W c" and p: "deref W player = Some p"
  shows "yields (List_members W player c) c"
proof -
  have "\<forall>i\<in>set (storeOrder W (playersStore c)). deref W (plrPtr (snd i)) \<noteq> None"
    using m by (fastforce simp: world_store [OF W] members_ok_def)
  then obtain rest count where "list_members W (storeOrder W (playersStore c)) = Some (rest, count)"
    using list_members_Some by (metis surj_pair)
  then show ?thesis using p yields_SendToOne [OF W] by (simp add: List_members_def Let_def)
qed

lemma yields_say_to_self:
  "\<forall>i\<in>set is. deref W (plrPtr (snd i)) \<noteq> None \<Longrightarrow> yields (say_to_self W d is c) c"
proof (induction "is" arbitrary: c d)
  case (Cons i "is")
  let ?d = "d[2 := FU64 (fst i), 5 := FU64 (fst i)]"
  have "yields (send_ptr W (plrPtr (snd i)) (Packet SMSG_MESSAGECHAT ?d) c \<bind> say_to_self W ?d is) c"
  proof (rule yields_bind)
    show "yields (send_ptr W (plrPtr (snd i)) (Packet SMSG_MESSAGECHAT ?d) c) c"
      using Cons.prems by (intro yields_send_ptr) simp
    show "yields (say_to_self W ?d is (c\<lparr>chOut := out\<rparr>)) c" for out
      using Cons.IH [of ?d "c\<lparr>chOut := out\<rparr>"] Cons.prems by simp
  qed
  then show ?case by (simp add: Let_def)
qed simp

lemma yields_EveryoneSayToSelf:
  assumes W: "world_ok W" and m: "members_ok W c" shows "yields (EveryoneSayToSelf W what c) c"
proof -
  have "\<forall>i\<in>set (storeOrder W (playersStore c)). deref W (plrPtr (snd i)) \<noteq> None"
    using m by (fastforce simp: world_store [OF W] members_ok_def)
  then show ?thesis by (auto simp: EveryoneSayToSelf_def intro: yields_say_to_self split: option.split)
qed

lemma yields_Invite:
  assumes W: "world_ok W" and p: "deref W player = Some p"
  shows "yields (Invite W player newname c) c"
proof -
  note send = yields_SendToOne [OF W]
  have two: "yields (SendToOne W d g c \<bind> (\<lambda>c. SendToOne W (f c) h c)) c" for d g f h
    by (rule yields_bind [OF send]) (use send yields_out in metis)
  show ?thesis
  proof (cases "FindPlayerByName W newname = 0")
    case True
    then show ?thesis using p send by (simp add: Invite_def Let_def)
  next
    case False
    then obtain q where "deref W (FindPlayerByName W newname) = Some q" by (rule world_by_name [OF W])
    with False show ?thesis using p send two by (simp add: Invite_def Let_def)
  qed
qed

lemma yields_AddWatching:
  "deref W player = Some p \<Longrightarrow> yields (AddWatching W player c)
    (if IsOn (pGUID p) c then c\<lparr>playersWatching := List.insert player (playersWatching c)\<rparr> else c)"
  by (simp add: AddWatching_def)

text \<open>
  What \<^verbatim>\<open>Say\<close> decides: whether the message goes out, with the member's throttle clock after.
\<close>

definition say_delay :: "channel \<Rightarrow> u32" where
  "say_delay c = (if crSpeakDelay (chRights c) > 0 then crSpeakDelay (chRights c)
     else if length (playersStore c) \<ge> 10 then 5 else 0)"

definition say_check :: "world \<Rightarrow> u64 \<Rightarrow> channel \<Rightarrow> bool \<times> playerInfo" where
  "say_check W guid c =
     (let i = slot guid c
      in case deref W (plrPtr i) of
           Some p \<Rightarrow> if pSecurity p = 0 then pi_IsAllowedToSpeak (GetGameTime W) (say_delay c) i else (True, i)
         | None \<Rightarrow> (True, i))"

definition may_say :: "u64 \<Rightarrow> string \<Rightarrow> channel \<Rightarrow> bool" where
  "may_say guid what c \<longleftrightarrow> what \<noteq> [] \<and> IsOn guid c \<and> \<not> pi_IsMuted (slot guid c)"

definition say_state :: "world \<Rightarrow> u64 \<Rightarrow> string \<Rightarrow> channel \<Rightarrow> channel" where
  "say_state W guid what c = (if may_say guid what c then set_slot guid (snd (say_check W guid c)) c else c)"

lemma say_check_fields:
  "plrPtr (snd (say_check W g c)) = plrPtr (slot g c)" "piPlayer (snd (say_check W g c)) = piPlayer (slot g c)"
  "piFlags (snd (say_check W g c)) = piFlags (slot g c)"
  by (auto simp: say_check_def pi_IsAllowedToSpeak_def Let_def split: option.split)

lemma Say_member:
  assumes W: "world_ok W" and m: "members_ok W c" and s: "may_say guid what c"
  shows "Say W guid what lang c =
    (let (allowed, i) = say_check W guid c; d = set_slot guid i c; ptr = plrPtr i
     in if allowed then SendToAll W (ChatPacket (if twoSideChannel W then 0 else lang) (Some ptr) guid what (chName c))
          (if pi_IsModerator i then 0 else guid) d
        else Some (emit (Notification ptr (''You must wait '' @ secsToTimeString
               (word_of_int (uint (lastSpeakTime i + say_delay c) - GetGameTime W)) False @ '' before speaking again.''))
             (if crSpeakMessage (chRights c) \<noteq> [] then emit (Notification ptr (crSpeakMessage (chRights c))) d else d)))"
proof -
  obtain p where p: "deref W (plrPtr (slot guid c)) = Some p" using s members_ok_slot [OF m] by (metis may_say_def)
  then have nz: "plrPtr (slot guid c) \<noteq> 0" using world_live [OF W] by auto
  have ptr: "plrPtr i = plrPtr (slot guid c)" if "say_check W guid c = (a, i)" for a i
    using say_check_fields(1) [of W guid c] that by simp
  show ?thesis
    using s p nz
    by (cases "pSecurity p = 0") (auto simp: Say_def may_say_def say_check_def Let_def say_delay_def set_slot_def
      pi_IsAllowedToSpeak_def emit_def split: if_splits)
qed

lemma yields_Say:
  assumes W: "world_ok W" and m: "members_ok W c"
  shows "yields (Say W guid what lang c) (say_state W guid what c)"
proof (cases "may_say guid what c")
  case False
  then show ?thesis using yields_SendToOne [OF W]
    by (auto simp: Say_def may_say_def say_state_def Let_def)
next
  case True
  let ?d = "set_slot guid (snd (say_check W guid c)) c"
  have "members_ok W ?d"
    using m True by (intro members_ok_update) (auto simp: may_say_def say_check_fields)
  then have "yields (SendToAll W x g ?d) ?d" for x g using yields_SendToAll [OF W] by blast
  then show ?thesis
    using True unfolding Say_member [OF W m True] say_state_def
    by (cases "say_check W guid c") (simp add: Let_def emit_out)
qed

section \<open>Commands\<close>

text \<open>One command of a client, the calls of the channel handlers.\<close>

datatype command =
    CJoin nat string | CLeave nat bool | CKick nat string | CBan nat string | CUnBan nat string
  | CPassword nat string | CMode nat string bool bool | CSetOwner nat string | CWhoOwner u64
  | CList nat | CAnnounce nat | CSay u64 string u32 | CEveryone "string option" | CInvite nat string
  | CAddWatching nat | CRemoveWatching nat | CLiftBan u64

fun command_player :: "command \<Rightarrow> nat option" where
  "command_player (CJoin q _) = Some q" | "command_player (CLeave q _) = Some q"
| "command_player (CKick q _) = Some q" | "command_player (CBan q _) = Some q"
| "command_player (CUnBan q _) = Some q" | "command_player (CPassword q _) = Some q"
| "command_player (CMode q _ _ _) = Some q" | "command_player (CSetOwner q _) = Some q"
| "command_player (CList q) = Some q" | "command_player (CAnnounce q) = Some q"
| "command_player (CInvite q _) = Some q" | "command_player (CAddWatching q) = Some q"
| "command_player _ = None"

definition command_live :: "world \<Rightarrow> command \<Rightarrow> bool" where
  "command_live W cmd = (case command_player cmd of None \<Rightarrow> True | Some q \<Rightarrow> deref W q \<noteq> None)"

fun channel_do :: "world \<Rightarrow> command \<Rightarrow> channel \<Rightarrow> channel option" where
  "channel_do W (CJoin q pass) c = JoinChannel W q pass c"
| "channel_do W (CLeave q send) c = LeaveChannel W q send c"
| "channel_do W (CKick q name) c = Kick W q name c"
| "channel_do W (CBan q name) c = Ban W q name c"
| "channel_do W (CUnBan q name) c = UnBan_name W q name c"
| "channel_do W (CPassword q pass) c = Password W q pass c"
| "channel_do W (CMode q name True True) c = SetModerator W q name c"
| "channel_do W (CMode q name True False) c = UnsetModerator W q name c"
| "channel_do W (CMode q name False True) c = SetMute W q name c"
| "channel_do W (CMode q name False False) c = UnsetMute W q name c"
| "channel_do W (CSetOwner q name) c = SetOwner_name W q name c"
| "channel_do W (CWhoOwner g) c = SendWhoOwner W g c"
| "channel_do W (CList q) c = List_members W q c"
| "channel_do W (CAnnounce q) c = Announce W q c"
| "channel_do W (CSay g what lang) c = Say W g what lang c"
| "channel_do W (CEveryone what) c = EveryoneSayToSelf W what c"
| "channel_do W (CInvite q name) c = Invite W q name c"
| "channel_do W (CAddWatching q) c = AddWatching W q c"
| "channel_do W (CRemoveWatching q) c = Some (RemoveWatching q c)"
| "channel_do W (CLiftBan g) c = Some (UnBan W g c)"

text \<open>The same as a function on the state alone, the specification of a command.\<close>

definition the_player :: "world \<Rightarrow> nat \<Rightarrow> player" where
  "the_player W q = the (deref W q)"

fun spec_do :: "world \<Rightarrow> command \<Rightarrow> channel \<Rightarrow> channel" where
  "spec_do W (CJoin q pass) c =
     (if join_ok W (the_player W q) pass c then join_pure q (the_player W q) c else c)"
| "spec_do W (CLeave q send) c =
     (if IsOn (pGUID (the_player W q)) c then leave_pure W q (the_player W q) c else c)"
| "spec_do W (CKick q name) c =
     (case kick_target W q (the_player W q) name False c of
        None \<Rightarrow> c | Some (v, bad, on) \<Rightarrow> kick_pure W (pGUID (the_player W q)) v bad on False c)"
| "spec_do W (CBan q name) c =
     (case kick_target W q (the_player W q) name True c of
        None \<Rightarrow> c | Some (v, bad, on) \<Rightarrow> kick_pure W (pGUID (the_player W q)) v bad on True c)"
| "spec_do W (CUnBan q name) c =
     (case unban_target W (the_player W q) name c of None \<Rightarrow> c | Some v \<Rightarrow> lift_ban v c)"
| "spec_do W (CPassword q pass) c =
     (if may_moderate (the_player W q) c \<and> \<not> has_right CHANNEL_RIGHT_CANT_CHANGE_PASSWORD c
      then c\<lparr>chPassword := pass\<rparr> else c)"
| "spec_do W (CMode q name moder state) c =
     (case mode_target W (the_player W q) name moder c of None \<Rightarrow> c | Some v \<Rightarrow> mode_set v moder state c)"
| "spec_do W (CSetOwner q name) c =
     (case owner_target W (the_player W q) name c of None \<Rightarrow> c | Some v \<Rightarrow> own_set v c)"
| "spec_do W (CAnnounce q) c =
     (if may_moderate (the_player W q) c \<and>
         \<not> has_right (CHANNEL_RIGHT_FORCE_NO_ANNOUNCEMENTS OR CHANNEL_RIGHT_FORCE_ANNOUNCEMENTS) c
      then c\<lparr>chAnnounce := \<not> chAnnounce c\<rparr> else c)"
| "spec_do W (CSay g what lang) c = say_state W g what c"
| "spec_do W (CAddWatching q) c =
     (if IsOn (pGUID (the_player W q)) c
      then c\<lparr>playersWatching := List.insert q (playersWatching c)\<rparr> else c)"
| "spec_do W (CRemoveWatching q) c = RemoveWatching q c"
| "spec_do W (CLiftBan g) c = (if IsBanned W g c then lift_ban g c else c)"
| "spec_do W (CWhoOwner g) c = c" | "spec_do W (CList q) c = c"
| "spec_do W (CEveryone what) c = c" | "spec_do W (CInvite q name) c = c"

lemma channel_refines:
  assumes W: "world_ok W" and m: "members_ok W c" and w: "watch_ok W c" and l: "command_live W cmd"
  shows "yields (channel_do W cmd c) (spec_do W cmd c)"
proof -
  have p: "deref W q = Some (the_player W q)" if "command_player cmd = Some q" for q
    using l that by (auto simp: command_live_def the_player_def)
  note ys = yields_JoinChannel [OF W m w] yields_LeaveChannel [OF W m w] yields_KickOrBan [OF W m w]
    yields_UnBan_name [OF W m] yields_Password [OF W m] yields_SetMode [OF W m w] yields_SetOwner_name [OF W m w]
    yields_Announce [OF W m] yields_Invite [OF W] yields_AddWatching yields_List [OF W m]
  show ?thesis
  proof (cases cmd)
    case (CMode q name moder state)
    then show ?thesis using ys(6) [OF p, of q]
      by (cases moder; cases state) (simp_all add: SetModerator_def UnsetModerator_def SetMute_def UnsetMute_def)
  qed (use p ys yields_SendWhoOwner [OF W] yields_Say [OF W m] yields_EveryoneSayToSelf [OF W m] UnBan_state
    in \<open>simp_all add: Kick_def Ban_def\<close>)
qed

end
