(* ===== verification/ChannelInv.thy ===== *)
theory ChannelInv
  imports ChannelOps
begin

text \<open>
  The invariant of a channel: one entry per member and per ban, members whose pointer is the
  player of that guid, watchers that are members, an owner flag only on the owner, and, on a
  custom channel with ownership, an owner as long as there is a member. Every command keeps
  it and follows live pointers only.
\<close>

section \<open>The invariant\<close>

definition base_inv :: "world \<Rightarrow> channel \<Rightarrow> bool" where
  "base_inv W c \<longleftrightarrow> wf_store (playersStore c) \<and> wf_store (bannedStore c) \<and> members_ok W c \<and> \<not> IsOn 0 c \<and>
     (\<forall>q\<in>set (playersWatching c). \<exists>g. IsOn g c \<and> plrPtr (slot g c) = q) \<and>
     (\<forall>g. IsOn g c \<longrightarrow> pi_IsOwner (slot g c) \<longrightarrow> g = chOwnerGUID c)"

definition owned :: "channel \<Rightarrow> bool" where
  "owned c \<longleftrightarrow> (chOwnership c \<and> \<not> IsConstant c \<longrightarrow>
     (if playersStore c = [] then chOwnerGUID c = 0
      else IsOn (chOwnerGUID c) c \<and> pi_IsOwner (slot (chOwnerGUID c) c)))"

definition channel_inv :: "world \<Rightarrow> channel \<Rightarrow> bool" where
  "channel_inv W c \<longleftrightarrow> base_inv W c \<and> owned c"

lemma inv_out [simp]:
  "base_inv W (c\<lparr>chOut := out\<rparr>) = base_inv W c" "owned (c\<lparr>chOut := out\<rparr>) = owned c"
  "channel_inv W (c\<lparr>chOut := out\<rparr>) = channel_inv W c"
  by (simp_all add: base_inv_def owned_def channel_inv_def)

lemma base_watch:
  assumes "base_inv W c" shows "watch_ok W c"
  unfolding watch_ok_def
proof
  fix q assume "q \<in> set (playersWatching c)"
  then obtain g where "IsOn g c" "plrPtr (slot g c) = q" using assms by (auto simp: base_inv_def)
  moreover have "members_ok W c" using assms by (simp add: base_inv_def)
  ultimately show "deref W q \<noteq> None" by (metis members_ok_slot option.distinct(1))
qed

lemma base_members: "base_inv W c \<Longrightarrow> members_ok W c"
  by (simp add: base_inv_def)

lemma IsOn_empty: "IsOn g c \<Longrightarrow> playersStore c \<noteq> []"
  by (auto simp: IsOn_def)

section \<open>Member updates\<close>

lemma wf_members [simp]:
  "wf_store (playersStore c) \<Longrightarrow> wf_store (playersStore (set_slot g i c))"
  "wf_store (playersStore c) \<Longrightarrow> wf_store (playersStore (erase_member g c))"
  by (simp_all add: set_slot_def erase_member_def)

text \<open>Changing a member's flags, but not its pointer and guid.\<close>

lemma base_set:
  assumes b: "base_inv W c" and on: "IsOn g c" and i: "plrPtr i = plrPtr (slot g c)" "piPlayer i = piPlayer (slot g c)"
    and o: "pi_IsOwner i \<Longrightarrow> g = chOwnerGUID c"
  shows "base_inv W (set_slot g i c)"
proof -
  have "\<exists>h. IsOn h (set_slot g i c) \<and> plrPtr (slot h (set_slot g i c)) = q" if "q \<in> set (playersWatching c)" for q
  proof -
    from b that obtain h where "IsOn h c" "plrPtr (slot h c) = q" by (auto simp: base_inv_def)
    with on i show ?thesis by (intro exI [of _ h]) auto
  qed
  then show ?thesis using b o on members_ok_update [OF base_members [OF b] on i] by (auto simp: base_inv_def split: if_splits)
qed

lemma inv_update:
  assumes b: "base_inv W c" and on: "IsOn g c" and i: "plrPtr i = plrPtr (slot g c)" "piPlayer i = piPlayer (slot g c)"
    and o: "pi_IsOwner i = pi_IsOwner (slot g c)"
  shows "base_inv W (set_slot g i c)" "owned (set_slot g i c) = owned c"
proof -
  show "base_inv W (set_slot g i c)" using b on o by (intro base_set b on i) (auto simp: base_inv_def)
  have "playersStore (set_slot g i c) \<noteq> []" "playersStore c \<noteq> []"
    using on IsOn_empty [of g c] IsOn_empty [of g "set_slot g i c"] by auto
  then show "owned (set_slot g i c) = owned c" using on o by (auto simp: owned_def)
qed

text \<open>States that differ in nothing the invariant reads.\<close>

lemma inv_frame:
  assumes "playersStore d = playersStore c" "playersWatching d = playersWatching c" "chOwnerGUID d = chOwnerGUID c"
    "chOwnership d = chOwnership c" "chId d = chId c" "wf_store (bannedStore d)"
  shows "base_inv W c \<Longrightarrow> base_inv W d" "owned d = owned c"
  using assms by (auto simp: base_inv_def owned_def IsOn_def slot_def members_ok_def IsConstant_def)

section \<open>Owners\<close>

lemma base_own_clear:
  assumes b: "base_inv W c"
  shows "base_inv W (own_clear c)" "IsOn g c \<Longrightarrow> \<not> pi_IsOwner (slot g (own_clear c))"
    "plrPtr (slot g (own_clear c)) = plrPtr (slot g c)"
proof -
  show "base_inv W (own_clear c)" using b by (auto simp: own_clear_def intro: base_set)
  show "\<not> pi_IsOwner (slot g (own_clear c))" if "IsOn g c"
    using b that by (auto simp: own_clear_def base_inv_def)
  show "plrPtr (slot g (own_clear c)) = plrPtr (slot g c)" by (auto simp: own_clear_def)
qed

lemma own_set_fields [simp]:
  "chOwnership (own_set g c) = chOwnership c" "IsConstant (own_set g c) = IsConstant c" "chOwnerGUID (own_set g c) = g"
  by (simp_all add: own_set_def own_clear_def Let_def)

lemma IsOn_own_set [simp]: "IsOn h (own_set g c) \<longleftrightarrow> (g \<noteq> 0 \<and> h = g) \<or> IsOn h c"
  by (auto simp: own_set_def Let_def)

lemma inv_own_set:
  assumes b: "base_inv W c" and g: "g = 0 \<and> playersStore c = [] \<or> g \<noteq> 0 \<and> IsOn g c"
  shows "channel_inv W (own_set g c)"
proof (cases "g = 0")
  case True
  with g b show ?thesis
    by (simp add: channel_inv_def own_set_def own_clear_def owned_def base_inv_def IsOn_def members_ok_def)
next
  case False
  let ?d = "(own_clear c)\<lparr>chOwnerGUID := g\<rparr>"
  have d: "base_inv W ?d"
    using base_own_clear [OF b] by (auto simp: base_inv_def)
  have on: "IsOn g ?d" using g False by simp
  let ?i = "pi_SetOwner True (pi_SetModerator True (slot g ?d))"
  have "base_inv W (set_slot g ?i ?d)" by (rule base_set [OF d on]) simp_all
  moreover have "owned (set_slot g ?i ?d)"
    using IsOn_empty [of g "set_slot g ?i ?d"] by (auto simp: owned_def)
  ultimately show ?thesis using False by (simp add: channel_inv_def own_set_def Let_def)
qed

lemma owner_not_zero: "channel_inv W c \<Longrightarrow> IsOn g c \<Longrightarrow> g \<noteq> 0"
  by (auto simp: channel_inv_def base_inv_def)

lemma inv_succ:
  assumes W: "world_ok W" and b: "base_inv W c" shows "channel_inv W (succ_pure W c)"
proof (cases "playersStore c = []")
  case True
  then show ?thesis using inv_own_set [OF b, of 0] by (simp add: succ_pure_def)
next
  case False
  obtain g where "pick_owner W 0 (storeOrder W (playersStore c)) = Some g" "IsOn g c"
    using pick_owner_ok [OF W base_members [OF b] False] .
  moreover have "g \<noteq> 0" using b \<open>IsOn g c\<close> by (auto simp: base_inv_def)
  ultimately show ?thesis using inv_own_set [OF b, of g] False by (simp add: succ_pure_def)
qed

section \<open>Members that come and go\<close>

lemma slot_ptr:
  assumes W: "world_ok W" and b: "base_inv W c" and on: "IsOn g c" and q: "deref W q = Some p" "pGUID p = g"
  shows "plrPtr (slot g c) = q"
proof -
  obtain p' where "deref W (plrPtr (slot g c)) = Some p'" "pGUID p' = g"
    using members_ok_slot [OF base_members [OF b] on] by metis
  with W q show ?thesis unfolding world_ok_def by metis
qed

lemma base_erase:
  assumes W: "world_ok W" and b: "base_inv W c" and on: "IsOn g c" and q: "deref W q = Some p" "pGUID p = g"
  shows "base_inv W (RemoveWatching q (erase_member g c))"
proof -
  let ?d = "RemoveWatching q (erase_member g c)"
  note ptr = slot_ptr [OF W b on q]
  have "\<exists>h. IsOn h ?d \<and> plrPtr (slot h ?d) = x" if "x \<in> set (playersWatching ?d)" for x
  proof -
    have "x \<noteq> q" "x \<in> set (playersWatching c)" using that by (auto simp: RemoveWatching_def)
    with b obtain h where "IsOn h c" "plrPtr (slot h c) = x" by (auto simp: base_inv_def)
    moreover from this ptr \<open>x \<noteq> q\<close> have "h \<noteq> g" by auto
    ultimately show ?thesis by (intro exI [of _ h]) simp
  qed
  then show ?thesis using b members_ok_erase [OF base_members [OF b], of g] by (auto simp: base_inv_def)
qed

lemma owned_erase:
  assumes o: "owned c" and g: "g \<noteq> chOwnerGUID c"
  shows "owned (RemoveWatching q (erase_member g c))"
proof (cases "chOwnership c \<and> \<not> IsConstant c")
  case True
  then show ?thesis
  proof (cases "playersStore c = []")
    case True
    then show ?thesis using o by (simp add: owned_def erase_member_def IsConstant_def RemoveWatching_def)
  next
    case False
    with o True g have on: "IsOn (chOwnerGUID c) (erase_member g c)" "pi_IsOwner (slot (chOwnerGUID c) c)"
      by (auto simp: owned_def)
    then show ?thesis using IsOn_empty [OF on(1)] g by (simp add: owned_def)
  qed
qed (auto simp: owned_def)

lemma base_join:
  assumes W: "world_ok W" and b: "base_inv W c" and p: "deref W q = Some p" and off: "\<not> IsOn (pGUID p) c"
  shows "base_inv W (add_member q p c)"
proof -
  let ?d = "add_member q p c"
  have "members_ok W ?d"
    unfolding add_member_def using p by (intro members_ok_set_slot base_members [OF b]) auto
  moreover have "\<exists>h. IsOn h ?d \<and> plrPtr (slot h ?d) = x" if "x \<in> set (playersWatching c)" for x
  proof -
    from b that obtain h where "IsOn h c" "plrPtr (slot h c) = x" by (auto simp: base_inv_def)
    with off show ?thesis by (intro exI [of _ h]) (auto simp: add_member_def)
  qed
  ultimately show ?thesis
    using b off world_live [OF W p] by (auto simp: base_inv_def add_member_def pi_IsOwner_def member_flags)
qed

lemma owned_join:
  assumes "owned c" "\<not> IsOn (pGUID p) c" "chOwnerGUID c \<noteq> 0 \<or> \<not> chOwnership c"
  shows "owned (add_member q p c)"
proof -
  have "playersStore (add_member q p c) \<noteq> []"
    using IsOn_empty [of "pGUID p" "add_member q p c"] by (simp add: add_member_def)
  with assms show ?thesis by (auto simp: owned_def add_member_def split: if_splits)
qed

lemma inv_join_mod:
  assumes "base_inv W c" "IsOn (pGUID p) c"
  shows "base_inv W (join_mod p c)" "owned (join_mod p c) = owned c" "IsOn (pGUID p) (join_mod p c)"
    "chOwnerGUID (join_mod p c) = chOwnerGUID c" "chOwnership (join_mod p c) = chOwnership c"
  using assms inv_update [OF assms] by (auto simp: join_mod_def)

lemma inv_join_mute:
  assumes "channel_inv W c" "IsOn (pGUID p) c" shows "channel_inv W (join_mute p c)"
  using assms inv_update [of W c "pGUID p"] by (auto simp: join_mute_def channel_inv_def)

lemma inv_join:
  assumes W: "world_ok W" and i: "channel_inv W c" and p: "deref W q = Some p" and off: "\<not> IsOn (pGUID p) c"
  shows "channel_inv W (join_pure q p c)"
proof -
  let ?a = "add_member q p c" and ?m = "join_mod p (add_member q p c)"
  have a: "base_inv W ?a" using base_join [OF W _ p off] i by (simp add: channel_inv_def)
  have on: "IsOn (pGUID p) ?a" by (simp add: add_member_def)
  have same: "chOwnerGUID ?a = chOwnerGUID c" "chOwnership ?a = chOwnership c" by (simp_all add: add_member_def)
  note m = inv_join_mod [OF a on]
  have nz: "pGUID p \<noteq> 0" using world_live [OF W p] by simp
  have o: "channel_inv W (join_own p ?m) \<and> IsOn (pGUID p) (join_own p ?m)"
  proof (cases "chOwnerGUID c = 0 \<and> chOwnership c")
    case True
    then show ?thesis using inv_own_set [OF m(1), of "pGUID p"] nz m(3,4,5) same by (simp add: join_own_def)
  next
    case False
    then have "owned ?a" using owned_join [of c p q] i off by (auto simp: channel_inv_def)
    with False m same show ?thesis by (auto simp: join_own_def channel_inv_def)
  qed
  show ?thesis
  proof (cases "IsConstant c")
    case True
    then show ?thesis using a by (simp add: join_pure_def Let_def channel_inv_def owned_def add_member_def)
  next
    case False
    then show ?thesis using inv_join_mute o by (simp add: join_pure_def Let_def add_member_def)
  qed
qed

lemma inv_leave:
  assumes W: "world_ok W" and i: "channel_inv W c" and p: "deref W q = Some p" and on: "IsOn (pGUID p) c"
  shows "channel_inv W (leave_pure W q p c)"
proof -
  let ?d = "RemoveWatching q (erase_member (pGUID p) c)"
  have b: "base_inv W ?d" using base_erase [OF W _ on p] i by (simp add: channel_inv_def)
  show ?thesis
  proof (cases "\<not> IsConstant c \<and> pi_IsOwner (slot (pGUID p) c) \<and> chOwnership c")
    case True
    then show ?thesis using inv_succ [OF W b] by (simp add: leave_pure_def Let_def)
  next
    case False
    have "owned ?d"
    proof (cases "chOwnership c \<and> \<not> IsConstant c")
      case True
      with False have "\<not> pi_IsOwner (slot (pGUID p) c)" by simp
      with i True have "pGUID p \<noteq> chOwnerGUID c" using IsOn_empty [OF on] by (auto simp: channel_inv_def owned_def)
      then show ?thesis using owned_erase i by (simp add: channel_inv_def)
    qed (auto simp: owned_def)
    with b False show ?thesis by (auto simp: leave_pure_def Let_def channel_inv_def)
  qed
qed

lemma inv_kick:
  assumes W: "world_ok W" and i: "channel_inv W c" and good: "IsOn good c"
    and bad: "on \<Longrightarrow> IsOn v c \<and> (\<exists>p. deref W q = Some p \<and> pGUID p = v)"
  shows "channel_inv W (kick_pure W good v q on ban c)"
proof -
  let ?b = "kick_ban W v ban c"
  let ?d = "kick_out v q on ?b"
  have wf: "wf_store (bannedStore ?b)"
    using i by (auto simp: kick_ban_def AddBan_def channel_inv_def base_inv_def)
  have b: "base_inv W ?b" "owned ?b"
    using inv_frame [of ?b c] wf i by (simp_all add: channel_inv_def kick_ban_def AddBan_def)
  have d: "base_inv W ?d" using base_erase [OF W b(1)] b bad by (auto simp: kick_out_def)
  show ?thesis
  proof (cases "chOwnerGUID c = v \<and> chOwnership c")
    case True
    have "channel_inv W (own_set good ?d)" if "good \<noteq> v"
      using inv_own_set [OF d, of good] that good owner_not_zero [OF i good] by simp
    with True inv_succ [OF W d] show ?thesis by (simp add: kick_pure_def Let_def)
  next
    case False
    have "owned ?d"
    proof (cases "chOwnership c")
      case True
      with False owned_erase [OF b(2)] b show ?thesis by (auto simp: kick_out_def)
    qed (simp add: owned_def)
    with False d show ?thesis by (auto simp: kick_pure_def Let_def channel_inv_def)
  qed
qed

section \<open>Every command\<close>

lemma kick_target_ok:
  assumes W: "world_ok W" and t: "kick_target W q p name ban c = Some (v, bad, on)"
  shows "IsOn (pGUID p) c" "on \<Longrightarrow> IsOn v c \<and> (\<exists>p. deref W bad = Some p \<and> pGUID p = v)"
proof -
  from t show "IsOn (pGUID p) c" by (auto simp: kick_target_def split: if_splits)
  from t obtain a s where "kick_victim W q p name ban c = Some (Inr (v, a, s, bad, on))"
    by (auto simp: kick_target_def split: if_splits option.splits sum.splits)
  then show "IsOn v c \<and> (\<exists>p. deref W bad = Some p \<and> pGUID p = v)" if on
    using kick_victim_ok [OF W, of q p name ban c] that by auto
qed

lemma inv_mode:
  assumes i: "channel_inv W c" and on: "IsOn v c" shows "channel_inv W (mode_set v moder state c)"
  using i inv_update [of W c v] on by (auto simp: mode_set_def Let_def channel_inv_def)

lemma inv_say:
  assumes i: "channel_inv W c" shows "channel_inv W (say_state W g what c)"
proof (cases "may_say g what c")
  case True
  then show ?thesis using i inv_update [of W c g "snd (say_check W g c)"] say_check_fields [of W g c]
    by (simp add: say_state_def channel_inv_def may_say_def pi_IsOwner_def)
qed (use i in \<open>simp add: say_state_def\<close>)

lemma inv_watch:
  assumes W: "world_ok W" and i: "channel_inv W c" and p: "deref W q = Some p"
  shows "channel_inv W (if IsOn (pGUID p) c then c\<lparr>playersWatching := List.insert q (playersWatching c)\<rparr> else c)"
proof -
  have b: "base_inv W c" "owned c" using i by (simp_all add: channel_inv_def)
  let ?d = "c\<lparr>playersWatching := List.insert q (playersWatching c)\<rparr>"
  have same: "slot g ?d = slot g c" "IsOn g ?d = IsOn g c" "IsConstant ?d = IsConstant c" for g
    by (simp_all add: slot_def IsOn_def IsConstant_def)
  then have "base_inv W ?d" if "IsOn (pGUID p) c"
    using b(1) slot_ptr [OF W b(1) that p] that by (auto simp: base_inv_def members_ok_def)
  moreover have "owned ?d" unfolding owned_def same using b(2) by (simp add: owned_def)
  ultimately show ?thesis using i by (simp add: channel_inv_def)
qed

lemma inv_unwatch: "channel_inv W c \<Longrightarrow> channel_inv W (RemoveWatching r c)"
  by (auto simp: channel_inv_def owned_def base_inv_def) (auto simp: RemoveWatching_def)

lemma inv_lift:
  "channel_inv W c \<Longrightarrow> channel_inv W (lift_ban v c)"
  "channel_inv W c \<Longrightarrow> channel_inv W (c\<lparr>chPassword := pass\<rparr>)"
  "channel_inv W c \<Longrightarrow> channel_inv W (c\<lparr>chAnnounce := b\<rparr>)"
proof -
  assume "channel_inv W c"
  then have *: "base_inv W c" "owned c" "wf_store (bannedStore c)" by (simp_all add: channel_inv_def base_inv_def)
  have "base_inv W d \<and> owned d" if "playersStore d = playersStore c" "playersWatching d = playersWatching c"
    "chOwnerGUID d = chOwnerGUID c" "chOwnership d = chOwnership c" "chId d = chId c" "wf_store (bannedStore d)" for d
    using inv_frame [of d c] that *(1,2) by simp
  from this [of "lift_ban v c"] this [of "c\<lparr>chPassword := pass\<rparr>"] this [of "c\<lparr>chAnnounce := b\<rparr>"]
  show "channel_inv W (lift_ban v c)" "channel_inv W (c\<lparr>chPassword := pass\<rparr>)" "channel_inv W (c\<lparr>chAnnounce := b\<rparr>)"
    using *(3) by (simp_all add: channel_inv_def lift_ban_def)
qed

lemma targets_on:
  "mode_target W p name moder c = Some v \<Longrightarrow> IsOn v c" "owner_target W p name c = Some v \<Longrightarrow> IsOn v c"
  by (auto simp: mode_target_def owner_target_def split: if_splits option.splits)

lemma spec_inv:
  assumes W: "world_ok W" and i: "channel_inv W c" and l: "command_live W cmd"
  shows "channel_inv W (spec_do W cmd c)"
proof -
  have p: "deref W q = Some (the_player W q)" if "command_player cmd = Some q" for q
    using l that by (auto simp: command_live_def the_player_def)
  have kick: "channel_inv W (case kick_target W q p name ban c of None \<Rightarrow> c
      | Some (v, bad, on) \<Rightarrow> kick_pure W (pGUID p) v bad on ban c)" for q p name ban
  proof (cases "kick_target W q p name ban c")
    case (Some t)
    then obtain v bad on where t: "kick_target W q p name ban c = Some (v, bad, on)" by (cases t) auto
    have "channel_inv W (kick_pure W (pGUID p) v bad on ban c)"
      using kick_target_ok [OF W t] by (intro inv_kick [OF W i]) auto
    with t show ?thesis by simp
  qed (use i in simp)
  have own: "channel_inv W (own_set v c)" if "IsOn v c" for v
    using inv_own_set [of W c v] that i owner_not_zero [OF i that] by (simp add: channel_inv_def)
  show ?thesis
  proof (cases cmd)
    case (CJoin q pass)
    then show ?thesis using inv_join [OF W i p] i by (simp add: join_ok_def)
  next
    case (CLeave q send)
    then show ?thesis using inv_leave [OF W i p] i by simp
  next
    case (CAddWatching q)
    then show ?thesis using inv_watch [OF W i p, of q] by simp
  qed (use i kick inv_mode [OF i] own inv_lift inv_unwatch inv_say targets_on in \<open>auto split: option.split\<close>)
qed

end
