(* ===== verification/ChannelProps.thy ===== *)
theory ChannelProps
  imports ChannelInv
begin

text \<open>
  The properties of chat channels, over the channels a server can reach: built, loaded with
  a password and bans, changed by commands in worlds where players come and go. Last, a small
  world to run them on.
\<close>

section \<open>Reachable channels\<close>

inductive channel_reach :: "world \<Rightarrow> channel \<Rightarrow> bool" where
  reach_new: "world_ok W \<Longrightarrow> channel_reach W (fst (Channel_new W dbc rights idMax name cid dbid team ann own))"
| reach_password: "channel_reach W c \<Longrightarrow> channel_reach W (SetPassword pass c)"
| reach_ban: "channel_reach W c \<Longrightarrow> channel_reach W (AddBan g t c)"
| reach_command: "channel_reach W c \<Longrightarrow> command_live W cmd \<Longrightarrow> channel_do W cmd c = Some d \<Longrightarrow> channel_reach W d"
| reach_world: "channel_reach W c \<Longrightarrow> world_ok W' \<Longrightarrow> members_ok W' c \<Longrightarrow> channel_reach W' c"

lemma Channel_new_fields:
  fixes W dbc rights idMax name cid dbid team ann own
  defines "c \<equiv> fst (Channel_new W dbc rights idMax name cid dbid team ann own)"
  shows "playersStore c = []" "bannedStore c = []" "playersWatching c = []" "chOwnerGUID c = 0"
  unfolding c_def Channel_new_def by (auto simp: Let_def emit_def split: option.split)

lemma inv_new: "channel_inv W (fst (Channel_new W dbc rights idMax name cid dbid team ann own))"
  by (simp add: channel_inv_def base_inv_def owned_def members_ok_def IsOn_def Channel_new_fields)

lemma inv_load: "channel_inv W c \<Longrightarrow> channel_inv W (AddBan g t c)"
proof -
  assume i: "channel_inv W c"
  then have "base_inv W (AddBan g t c)" by (auto simp: channel_inv_def base_inv_def) (simp add: AddBan_def)
  with i show ?thesis by (simp add: channel_inv_def owned_def)
qed

lemma inv_new_world: "channel_inv W c \<Longrightarrow> members_ok W' c \<Longrightarrow> channel_inv W' c"
  by (simp add: channel_inv_def base_inv_def)

lemma reach_inv: "channel_reach W c \<Longrightarrow> world_ok W \<and> channel_inv W c"
proof (induction rule: channel_reach.induct)
  case (reach_command W c cmd d)
  then have "yields (channel_do W cmd c) (spec_do W cmd c)"
    by (intro channel_refines) (auto simp: channel_inv_def base_members base_watch)
  with reach_command.hyps obtain out where "d = (spec_do W cmd c)\<lparr>chOut := out\<rparr>" by (auto elim: yieldsE)
  with reach_command spec_inv [of W c cmd] show ?case by simp
qed (auto simp: inv_new inv_lift SetPassword_def inv_load intro: inv_new_world)

lemma reach_ok:
  assumes "channel_reach W c"
  shows "world_ok W" "channel_inv W c" "members_ok W c" "watch_ok W c"
  using reach_inv [OF assms] by (auto simp: channel_inv_def base_members base_watch)

lemma reach_do:
  assumes "channel_reach W c" "command_live W cmd"
  obtains out where "channel_do W cmd c = Some ((spec_do W cmd c)\<lparr>chOut := out\<rparr>)"
  using channel_refines [OF reach_ok(1,3,4) [OF assms(1)] assms(2)] by (rule yieldsE)

section \<open>Who is the owner\<close>

lemma pick_owner_security:
  assumes "pick_owner W g0 is = Some g" "i \<in> set is" "deref W (plrPtr (snd i)) = Some p" "pSecurity p = 0"
  shows "\<exists>j\<in>set is. g = piPlayer (snd j) \<and> (\<exists>q. deref W (plrPtr (snd j)) = Some q \<and> pSecurity q = 0)"
  using assms
proof (induction "is" arbitrary: g0)
  case (Cons a "is")
  then obtain q where q: "deref W (plrPtr (snd a)) = Some q" by (auto split: bind_splits)
  show ?case
  proof (cases "pSecurity q = 0")
    case True
    with Cons.prems(1) q show ?thesis by auto
  next
    case False
    with Cons.prems(1) q have "pick_owner W (piPlayer (snd a)) is = Some g" by simp
    moreover have "i \<in> set is" using Cons.prems(2,3,4) q False by auto
    ultimately have "\<exists>j\<in>set is. g = piPlayer (snd j) \<and> (\<exists>q. deref W (plrPtr (snd j)) = Some q \<and> pSecurity q = 0)"
      using Cons.IH Cons.prems(3,4) by blast
    then show ?thesis by auto
  qed
qed simp

definition member_player :: "world \<Rightarrow> channel \<Rightarrow> u64 \<Rightarrow> player" where
  "member_player W c g = the_player W (plrPtr (slot g c))"

lemma succ_security:
  assumes W: "world_ok W" and m: "members_ok W c" and wf: "wf_store (playersStore c)"
    and h: "IsOn h c" "pSecurity (member_player W c h) = 0"
  shows "IsOn (chOwnerGUID (succ_pure W c)) c" "pSecurity (member_player W c (chOwnerGUID (succ_pure W c))) = 0"
proof -
  let ?os = "storeOrder W (playersStore c)"
  have ne: "playersStore c \<noteq> []" using h IsOn_empty by blast
  obtain g where g: "pick_owner W 0 ?os = Some g" "IsOn g c" using pick_owner_ok [OF W m ne] .
  obtain i where i: "map_of (playersStore c) h = Some i" using h(1) by (auto simp: IsOn_def)
  have "(h, i) \<in> set ?os" using map_of_SomeD [OF i] world_store [OF W] by simp
  moreover obtain p where "deref W (plrPtr i) = Some p" "pSecurity p = 0"
    using members_ok_slot [OF m h(1)] h(2) i by (metis member_player_def option.sel option.simps(5) slot_def the_player_def)
  ultimately obtain j q where j: "j \<in> set ?os" "g = piPlayer (snd j)" "deref W (plrPtr (snd j)) = Some q" "pSecurity q = 0"
    using pick_owner_security [OF g(1), of "(h, i)" p] by auto
  have js: "j \<in> set (playersStore c)" using j(1) world_store [OF W] by simp
  then have "fst j = g" using m j(2) by (metis members_ok_def prod.collapse)
  with js wf have "map_of (playersStore c) g = Some (snd j)" by (metis map_of_Some_iff prod.collapse)
  then have "slot g c = snd j" by (simp add: slot_def)
  with j g show "IsOn (chOwnerGUID (succ_pure W c)) c" "pSecurity (member_player W c (chOwnerGUID (succ_pure W c))) = 0"
    using ne by (simp_all add: succ_pure_def member_player_def the_player_def)
qed

section \<open>What is sent\<close>

definition hears :: "world \<Rightarrow> u64 \<Rightarrow> u64 \<times> playerInfo \<Rightarrow> bool" where
  "hears W guid i \<longleftrightarrow> guid = 0 \<or> GUID_LOPART guid \<notin> set (pIgnores (the_player W (plrPtr (snd i))))"

lemma send_to_members_result:
  "\<forall>i\<in>set is. deref W (plrPtr (snd i)) \<noteq> None \<Longrightarrow>
    send_to_members W d g is c =
      Some (c\<lparr>chOut := chOut c @ map (\<lambda>i. SendPacket (plrPtr (snd i)) d) (filter (hears W g) is)\<rparr>)"
proof (induction "is" arbitrary: c)
  case (Cons i "is")
  then obtain p where p: "deref W (plrPtr (snd i)) = Some p" by auto
  with Cons show ?case by (auto simp: send_ptr_def emit_def hears_def the_player_def)
qed simp

lemma SendToAll_result:
  assumes "world_ok W" "members_ok W c"
  shows "SendToAll W d g c = Some (c\<lparr>chOut := chOut c @ map (\<lambda>i. SendPacket (plrPtr (snd i)) d)
    (filter (hears W g) (storeOrder W (playersStore c)))\<rparr>)"
  unfolding SendToAll_def using assms
  by (intro send_to_members_result) (force simp: world_store members_ok_def)

text \<open>The clock of a member does not matter to who hears a message.\<close>

definition say_throttled :: "world \<Rightarrow> u64 \<Rightarrow> channel \<Rightarrow> bool" where
  "say_throttled W guid c \<longleftrightarrow> pSecurity (member_player W c guid) = 0 \<and>
     GetGameTime W < uint (lastSpeakTime (slot guid c) + say_delay c)"

lemma say_check_allowed:
  assumes "members_ok W c" "IsOn g c"
  shows "fst (say_check W g c) \<longleftrightarrow> \<not> say_throttled W g c"
    "snd (say_check W g c) = (if pSecurity (member_player W c g) = 0 \<and> \<not> say_throttled W g c
       then (slot g c)\<lparr>lastSpeakTime := word_of_int (GetGameTime W)\<rparr> else slot g c)"
proof -
  obtain p where "deref W (plrPtr (slot g c)) = Some p" using members_ok_slot [OF assms] by metis
  then show "fst (say_check W g c) \<longleftrightarrow> \<not> say_throttled W g c"
    "snd (say_check W g c) = (if pSecurity (member_player W c g) = 0 \<and> \<not> say_throttled W g c
       then (slot g c)\<lparr>lastSpeakTime := word_of_int (GetGameTime W)\<rparr> else slot g c)"
    by (auto simp: say_check_def say_throttled_def pi_IsAllowedToSpeak_def Let_def member_player_def the_player_def)
qed

lemma own_set_banned [simp]: "bannedStore (own_set g c) = bannedStore c"
  by (simp add: own_set_def own_clear_def Let_def)

lemma IsOn_succ:
  assumes W: "world_ok W" and b: "base_inv W c" shows "IsOn h (succ_pure W c) = IsOn h c"
proof (cases "playersStore c = []")
  case True
  then show ?thesis by (simp add: succ_pure_def)
next
  case False
  obtain g where "pick_owner W 0 (storeOrder W (playersStore c)) = Some g" "IsOn g c"
    using pick_owner_ok [OF W base_members [OF b] False] .
  with False show ?thesis by (auto simp: succ_pure_def)
qed

lemma kick_pure_out:
  assumes W: "world_ok W" and i: "channel_inv W c" and good: "IsOn good c"
    and bad: "IsOn v c \<and> (\<exists>p. deref W q = Some p \<and> pGUID p = v)"
  shows "\<not> IsOn v (kick_pure W good v q True ban c)"
    "bannedStore (kick_pure W good v q True ban c) = bannedStore (kick_ban W v ban c)"
proof -
  let ?b = "kick_ban W v ban c"
  let ?d = "kick_out v q True ?b"
  have b: "base_inv W ?b"
    using i inv_load [OF i] by (simp add: kick_ban_def channel_inv_def)
  have d: "base_inv W ?d" using base_erase [OF W b] bad by (auto simp: kick_out_def)
  show "\<not> IsOn v (kick_pure W good v q True ban c)"
    using IsOn_succ [OF W d] owner_not_zero [OF i good] by (auto simp: kick_pure_def Let_def)
  show "bannedStore (kick_pure W good v q True ban c) = bannedStore ?b"
    by (simp add: kick_pure_def Let_def succ_pure_def kick_out_def RemoveWatching_def)
qed

section \<open>Properties\<close>

text \<open>
  C1. Every command on a reachable channel, issued by a live player, runs to its end without
  following a null or dead pointer, and changes the channel's state as its specification
  says; only its output, the packets and statements it sends, comes on top.
\<close>

theorem channel_commands_refine:
  assumes "channel_reach W c" and "command_live W cmd"
  shows "\<exists>out. channel_do W cmd c = Some ((spec_do W cmd c)\<lparr>chOut := out\<rparr>)"
  using reach_do [OF assms] by blast

text \<open>
  C2. A custom channel with ownership has no owner when it is empty, and otherwise exactly
  one member with the owner flag, the channel's recorded owner.
\<close>

theorem channel_one_owner:
  assumes "channel_reach W c" and "chOwnership c" and "\<not> IsConstant c"
  shows "if playersStore c = [] then chOwnerGUID c = 0
    else {g. IsOn g c \<and> pi_IsOwner (slot g c)} = {chOwnerGUID c}"
  using reach_ok(2) [OF assms(1)] assms(2,3) by (auto simp: channel_inv_def base_inv_def owned_def)

text \<open>Whether a command lifts the ban kept for a low guid.\<close>

definition lifts :: "world \<Rightarrow> command \<Rightarrow> channel \<Rightarrow> u32 \<Rightarrow> bool" where
  "lifts W cmd c k =
     (case cmd of
        CUnBan q name \<Rightarrow> map_option GUID_LOPART (unban_target W (the_player W q) name c) = Some k
      | CLiftBan g \<Rightarrow> GUID_LOPART g = k
      | _ \<Rightarrow> False)"

text \<open>
  What may happen to a channel before the time \<^term>\<open>t\<close> as long as nobody lifts the ban: any commands, each
  in a world of its own in which the members are still online.
\<close>

inductive ban_stands :: "u32 \<Rightarrow> int \<Rightarrow> channel \<Rightarrow> channel \<Rightarrow> bool" for k t c where
  ban_start: "ban_stands k t c c"
| ban_command: "ban_stands k t c d \<Longrightarrow> world_ok W \<Longrightarrow> members_ok W d \<Longrightarrow> timeNow W < t \<Longrightarrow> command_live W cmd \<Longrightarrow>
    \<not> lifts W cmd d k \<Longrightarrow> channel_do W cmd d = Some e \<Longrightarrow> ban_stands k t c e"

lemma bans_same [simp]:
  "bannedStore (succ_pure W c) = bannedStore c" "bannedStore (mode_set v m b c) = bannedStore c"
  "bannedStore (say_state W g what c) = bannedStore c" "bannedStore (join_pure q p c) = bannedStore c"
  "bannedStore (leave_pure W q p c) = bannedStore c" "bannedStore (kick_out v q on c) = bannedStore c"
  by (simp_all add: succ_pure_def mode_set_def say_state_def join_pure_def join_mute_def join_own_def join_mod_def add_member_def
      leave_pure_def kick_out_def Let_def)

lemma kick_pure_bans [simp]: "bannedStore (kick_pure W good v q on ban c) = bannedStore (kick_ban W v ban c)"
  by (simp add: kick_pure_def Let_def)

lemma kick_keeps_ban:
  assumes "map_of (bannedStore c) k = Some t" and "timeNow W < uint t"
  shows "map_of (bannedStore (kick_pure W good v q on ban c)) k = Some t"
  using assms by (auto simp: kick_ban_def AddBan_def map_of_store IsBanned_def)

lemma spec_keeps_ban:
  assumes "map_of (bannedStore c) k = Some t" and "timeNow W < uint t" and "\<not> lifts W cmd c k"
  shows "map_of (bannedStore (spec_do W cmd c)) k = Some t"
proof -
  have kick: "map_of (bannedStore (case x of None \<Rightarrow> c | Some (v, bad, on) \<Rightarrow> kick_pure W g v bad on ban c)) k = Some t" for x g ban
    using assms(1) kick_keeps_ban [OF assms(1,2)] by (auto split: option.split)
  have lift: "map_of (bannedStore (lift_ban u c)) k = Some t" if "GUID_LOPART u \<noteq> k" for u
    using assms(1) that by (simp add: lift_ban_def map_of_erase)
  show ?thesis
    using assms(1,3) kick lift by (cases cmd) (auto simp: lifts_def split: option.split)
qed

text \<open>Nobody becomes a member but by joining, which a ban forbids.\<close>

lemma IsOn_kick_pure:
  assumes W: "world_ok W" and i: "channel_inv W c" and good: "IsOn good c"
    and bad: "on \<Longrightarrow> IsOn v c \<and> (\<exists>p. deref W q = Some p \<and> pGUID p = v)" and h: "IsOn h (kick_pure W good v q on ban c)"
  shows "IsOn h c"
proof -
  let ?b = "kick_ban W v ban c"
  have "wf_store (bannedStore ?b)" using i by (auto simp: kick_ban_def AddBan_def channel_inv_def base_inv_def)
  then have "base_inv W ?b" using inv_frame [of ?b c] i by (simp add: channel_inv_def kick_ban_def AddBan_def)
  then have d: "base_inv W (kick_out v q on ?b)" using base_erase [OF W] bad by (auto simp: kick_out_def)
  show ?thesis using h IsOn_succ [OF W d] good by (auto simp: kick_pure_def Let_def kick_out_def split: if_splits)
qed

lemma IsOn_spec:
  assumes W: "world_ok W" and i: "channel_inv W c" and l: "command_live W cmd" and h: "IsOn h (spec_do W cmd c)"
  shows "IsOn h c \<or> \<not> IsBanned W h c"
proof -
  have p: "deref W q = Some (the_player W q)" if "command_player cmd = Some q" for q
    using l that by (auto simp: command_live_def the_player_def)
  have b: "base_inv W c" using i by (simp add: channel_inv_def)
  have kick: "IsOn h c" if "IsOn h (case kick_target W q (the_player W q) name ban c of None \<Rightarrow> c
      | Some (v, bad, on) \<Rightarrow> kick_pure W (pGUID (the_player W q)) v bad on ban c)" for q name ban
  proof (cases "kick_target W q (the_player W q) name ban c")
    case (Some x)
    then obtain v bad on where x: "kick_target W q (the_player W q) name ban c = Some (v, bad, on)" by (cases x) auto
    show ?thesis using that IsOn_kick_pure [OF W i kick_target_ok(1) [OF W x] kick_target_ok(2) [OF W x]] by (simp add: x)
  qed (use that in simp)
  have leave: "IsOn h c" if "IsOn h (leave_pure W q (the_player W q) c)" "command_player cmd = Some q" "IsOn (pGUID (the_player W q)) c" for q
    using that(1) IsOn_succ [OF W base_erase [OF W b that(3) p [OF that(2)] refl]] by (auto simp: leave_pure_def Let_def split: if_splits)
  have join: "IsOn h c \<or> h = pGUID (the_player W q)" if "IsOn h (join_pure q (the_player W q) c)" for q
    using that by (auto simp: join_pure_def join_mute_def join_own_def join_mod_def add_member_def Let_def split: if_splits)
  have lift: "IsOn h (lift_ban v c) = IsOn h c" for v by (simp add: lift_ban_def IsOn_def)
  have sets: "IsOn h (c\<lparr>chPassword := x\<rparr>) = IsOn h c" "IsOn h (c\<lparr>chAnnounce := y\<rparr>) = IsOn h c"
    "IsOn h (c\<lparr>playersWatching := z\<rparr>) = IsOn h c" for x y z by (simp_all add: IsOn_def)
  have mode: "IsOn h c" if "IsOn h (mode_set v m x c)" "IsOn v c" for v m x
    using that by (auto simp: mode_set_def Let_def split: if_splits)
  have say: "IsOn h c" if "IsOn h (say_state W g what c)" for g what
    using that by (auto simp: say_state_def may_say_def split: if_splits)
  show ?thesis
    using h kick leave join lift sets mode say targets_on
    by (cases cmd) (auto simp: join_ok_def split: if_splits option.splits)
qed

lemma ban_stands_inv:
  assumes "ban_stands k (uint t) c d" and "channel_reach W c" and "map_of (bannedStore c) k = Some t"
    and "GUID_LOPART v = k" and "\<not> IsOn v c"
  shows "(\<exists>W. channel_reach W d) \<and> map_of (bannedStore d) k = Some t \<and> \<not> IsOn v d"
  using assms(1)
proof (induction rule: ban_stands.induct)
  case (ban_command d W' cmd e)
  then obtain W where "channel_reach W d" by blast
  then have reach: "channel_reach W' d" using ban_command.hyps by (auto intro: reach_world)
  obtain out where e: "e = (spec_do W' cmd d)\<lparr>chOut := out\<rparr>" using reach_do [OF reach ban_command.hyps(5)] ban_command.hyps(7) by auto
  have banned: "IsBanned W' v d" using ban_command.IH ban_command.hyps(4) assms(4) by (simp add: IsBanned_def)
  have "channel_reach W' e" using reach ban_command.hyps(5,7) by (rule reach_command)
  moreover have "map_of (bannedStore e) k = Some t" using spec_keeps_ban [of d k t W' cmd] ban_command.IH ban_command.hyps(4,6) by (simp add: e)
  moreover have "\<not> IsOn v e"
    using IsOn_spec [OF reach_ok(1,2) [OF reach] ban_command.hyps(5), of v] banned ban_command.IH by (auto simp: e)
  ultimately show ?case by blast
qed (use assms(2,3,5) in blast)

text \<open>
  C3. A ban that takes effect removes the victim from the members, and until the ban's end, whatever
  commands come in the meantime, bans of others among them, unless one lifts this ban, the victim is not
  a member, and joining, on whatever password, changes nothing but the output.
\<close>

theorem channel_ban_keeps_out:
  assumes "channel_reach W c" and "command_live W (CBan q name)"
    and "kick_target W q (the_player W q) name True c = Some (v, bad, True)"
    and "\<not> IsBanned W v c" and "0 \<le> timeNow W" and "timeNow W + CHANNEL_BAN_DURATION < 2 ^ 32"
    and "channel_do W (CBan q name) c = Some d"
    and "ban_stands (GUID_LOPART v) (timeNow W + CHANNEL_BAN_DURATION) d e"
    and "world_ok W'" and "members_ok W' e" and "timeNow W' < timeNow W + CHANNEL_BAN_DURATION"
    and "deref W' r = Some p" and "pGUID p = v"
  shows "\<not> IsOn v d \<and> \<not> IsOn v e \<and> (\<exists>out. JoinChannel W' r pass e = Some (e\<lparr>chOut := out\<rparr>))"
proof -
  obtain out where out: "channel_do W (CBan q name) c = Some ((spec_do W (CBan q name) c)\<lparr>chOut := out\<rparr>)"
    using reach_do [OF assms(1,2)] .
  let ?k = "kick_pure W (pGUID (the_player W q)) v bad True True c"
  let ?t = "word_of_int (timeNow W + CHANNEL_BAN_DURATION) :: u32"
  have d: "d = ?k\<lparr>chOut := out\<rparr>" using out assms(3,7) by simp
  have k: "\<not> IsOn v ?k"
    using kick_pure_out(1) [OF reach_ok(1,2) [OF assms(1)] kick_target_ok(1) [OF reach_ok(1) [OF assms(1)] assms(3)]
      kick_target_ok(2) [OF reach_ok(1) [OF assms(1)] assms(3) TrueI]] .
  have t: "uint ?t = timeNow W + CHANNEL_BAN_DURATION"
    using assms(5,6) by (simp add: unsigned_of_int take_bit_int_eq_self CHANNEL_BAN_DURATION_def del: of_int_add)
  have ban: "map_of (bannedStore d) (GUID_LOPART v) = Some ?t"
    using assms(4) by (simp add: d kick_ban_def AddBan_def map_of_store del: of_int_add)
  have reach: "channel_reach W d" using assms(1,2,7) by (rule reach_command)
  have "ban_stands (GUID_LOPART v) (uint ?t) d e" using assms(8) by (simp only: t)
  from ban_stands_inv [OF this reach ban refl] k obtain V
    where e: "channel_reach V e" "map_of (bannedStore e) (GUID_LOPART v) = Some ?t" "\<not> IsOn v e" by (auto simp: d)
  have "channel_reach W' e" using e(1) assms(9,10) by (rule reach_world)
  note ek = reach_ok [OF this]
  have "IsBanned W' v e" using e(2) assms(11) t by (simp add: IsBanned_def del: of_int_add)
  then have "yields (JoinChannel W' r pass e) e"
    using yields_JoinChannel [OF ek(1,3,4) assms(12), of pass] assms(13) by (simp add: join_ok_def)
  then obtain o' where "JoinChannel W' r pass e = Some (e\<lparr>chOut := o'\<rparr>)" by (rule yieldsE)
  with k e(3) show ?thesis by (auto simp: d)
qed

text \<open>
  Kicking, banning, unbanning, the password, modes and announcements are for moderators:
  from a player who is not on the channel, or is neither a moderator of it nor a game
  master, such a command changes nothing but the output.
\<close>

theorem channel_moderators_only:
  assumes "channel_reach W c" and "deref W q = Some p" and "\<not> may_moderate p c"
    and "cmd \<in> {CKick q name, CBan q name, CUnBan q name, CPassword q name, CMode q name moder state, CAnnounce q}"
  shows "\<exists>out. channel_do W cmd c = Some (c\<lparr>chOut := out\<rparr>)"
proof -
  have "command_live W cmd" using assms(2,4) by (auto simp: command_live_def)
  then obtain out where out: "channel_do W cmd c = Some ((spec_do W cmd c)\<lparr>chOut := out\<rparr>)"
    using reach_do [OF assms(1)] by blast
  have "the_player W q = p" using assms(2) by (simp add: the_player_def)
  moreover have "kick_target W q p name ban c = None" for ban
    unfolding kick_target_def may_moderate_def [symmetric] using assms(3) by simp
  ultimately have "spec_do W cmd c = c"
    using assms(3,4) by (auto simp: unban_target_def mode_target_def)
  with out show ?thesis by auto
qed

lemma on_not_empty: "playersStore c \<noteq> [] \<Longrightarrow> \<exists>x. IsOn (fst x) c"
  by (cases "playersStore c") (auto simp: IsOn_def)

text \<open>
  C4. When the owner leaves a custom channel with ownership on which somebody stays, one of the members
  left becomes the owner, with the owner flag, and an ordinary account if there is one among them; when
  nobody stays, there is no owner.
\<close>

theorem channel_owner_succession:
  assumes "channel_reach W c" and "chOwnership c" and "\<not> IsConstant c"
    and "deref W q = Some p" and "pGUID p = chOwnerGUID c" and "LeaveChannel W q send c = Some d"
  shows "if \<exists>h. IsOn h c \<and> h \<noteq> pGUID p
    then chOwnerGUID d \<noteq> pGUID p \<and> IsOn (chOwnerGUID d) c \<and> IsOn (chOwnerGUID d) d \<and> pi_IsOwner (slot (chOwnerGUID d) d) \<and>
      ((\<exists>h. IsOn h c \<and> h \<noteq> pGUID p \<and> pSecurity (member_player W c h) = 0) \<longrightarrow> pSecurity (member_player W c (chOwnerGUID d)) = 0)
    else chOwnerGUID d = 0"
proof -
  note ok = reach_ok [OF assms(1)]
  let ?e = "RemoveWatching q (erase_member (pGUID p) c)"
  have "pGUID p \<noteq> 0" using world_live [OF ok(1) assms(4)] by simp
  with ok(2) assms(2,3,5) have on: "IsOn (pGUID p) c" "pi_IsOwner (slot (pGUID p) c)"
    by (auto simp: channel_inv_def owned_def split: if_splits)
  have e: "base_inv W ?e" using base_erase [OF ok(1) _ on(1) assms(4)] ok(2) by (simp add: channel_inv_def)
  have spec: "leave_pure W q p c = succ_pure W ?e" using on assms(2,3) by (simp add: leave_pure_def Let_def)
  obtain out where d: "d = (succ_pure W ?e)\<lparr>chOut := out\<rparr>"
    using yields_LeaveChannel [OF ok(1,3,4) assms(4), of send] assms(6) on spec by (auto simp: yields_def)
  have i: "channel_inv W d" using inv_succ [OF ok(1) e] by (simp add: d)
  have ds: "chOwnership d" "\<not> IsConstant d" "IsOn g d = IsOn g ?e" for g
    using assms(2,3) IsOn_succ [OF ok(1) e] by (simp_all add: d succ_pure_def)
  show ?thesis
  proof (cases "\<exists>h. IsOn h c \<and> h \<noteq> pGUID p")
    case True
    then obtain h where "IsOn h d" using ds(3) by auto
    then have "playersStore d \<noteq> []" using IsOn_empty by blast
    with i ds(1,2) have new: "IsOn (chOwnerGUID d) d" "pi_IsOwner (slot (chOwnerGUID d) d)" by (auto simp: channel_inv_def owned_def)
    then have "IsOn (chOwnerGUID d) c" "chOwnerGUID d \<noteq> pGUID p" using ds(3) by auto
    moreover have "pSecurity (member_player W c (chOwnerGUID d)) = 0"
      if "IsOn h c" "h \<noteq> pGUID p" "pSecurity (member_player W c h) = 0" for h
    proof -
      have "IsOn h ?e" "pSecurity (member_player W ?e h) = 0" using that by (simp_all add: member_player_def)
      from succ_security(2) [OF ok(1) base_members [OF e] _ this] e \<open>chOwnerGUID d \<noteq> pGUID p\<close>
      show ?thesis by (simp add: d base_inv_def member_player_def)
    qed
    ultimately show ?thesis using True new by auto
  next
    case False
    then have "\<not> IsOn (fst x) ?e" for x :: "u64 \<times> playerInfo" by auto
    then have "playersStore ?e = []" using on_not_empty [of ?e] by blast
    then have "chOwnerGUID d = 0" by (simp add: d succ_pure_def)
    with False show ?thesis by auto
  qed
qed

text \<open>
  C36. A message of a member who is not muted and not throttled is sent once to exactly the members who do
  not ignore the speaker, in the order the member table is walked, and to every member when the speaker is a
  moderator of the channel; nothing else is sent.
\<close>

theorem channel_say_delivers:
  assumes "channel_reach W c" and "may_say g what c" and "\<not> say_throttled W g c"
  shows "\<exists>d. Say W g what lang c = Some d \<and> chOut d = chOut c @
    map (\<lambda>i. SendPacket (plrPtr (snd i))
        (ChatPacket (if twoSideChannel W then 0 else lang) (Some (plrPtr (slot g c))) g what (chName c)))
      (filter (hears W (if pi_IsModerator (slot g c) then 0 else g))
        (storeOrder W (playersStore (say_state W g what c))))"
proof -
  note ok = reach_ok [OF assms(1)]
  have on: "IsOn g c" using assms(2) by (simp add: may_say_def)
  let ?i = "snd (say_check W g c)"
  let ?d = "set_slot g ?i c"
  have m: "members_ok W ?d" using members_ok_update [OF ok(3) on] say_check_fields by blast
  have flags: "plrPtr ?i = plrPtr (slot g c)" "pi_IsModerator ?i = pi_IsModerator (slot g c)"
    using say_check_fields [of W g c] by (simp_all add: pi_IsModerator_def)
  have "Say W g what lang c = SendToAll W
      (ChatPacket (if twoSideChannel W then 0 else lang) (Some (plrPtr (slot g c))) g what (chName c))
      (if pi_IsModerator (slot g c) then 0 else g) ?d"
    using Say_member [OF ok(1,3) assms(2), of lang] say_check_allowed(1) [OF ok(3) on] assms(3) flags
    by (cases "say_check W g c") (simp add: Let_def)
  with SendToAll_result [OF ok(1) m] assms(2) show ?thesis by (simp add: say_state_def set_slot_def)
qed

text \<open>
  C16. After a message of an ordinary account, the same member is silent for the channel's delay: a second
  message within it reaches nobody, the speaker is told the channel's own message, if it has one, and how
  long to wait, and nothing else about the channel changes.
\<close>

theorem channel_say_throttles:
  assumes "channel_reach W c" and "may_say g what c" and "\<not> say_throttled W g c"
    and "pSecurity (member_player W c g) = 0" and "Say W g what lang c = Some d"
    and "world_ok W'" and "members_ok W' d" and "pSecurity (member_player W' d g) = 0"
    and "0 \<le> GetGameTime W" and "GetGameTime W + uint (say_delay c) < 2 ^ 32"
    and "GetGameTime W' < GetGameTime W + uint (say_delay c)" and "what' \<noteq> []"
  shows "\<exists>e. Say W' g what' lang' d = Some (e\<lparr>chOut := chOut d @
      (if crSpeakMessage (chRights c) \<noteq> [] then [Notification (plrPtr (slot g c)) (crSpeakMessage (chRights c))] else []) @
      [Notification (plrPtr (slot g c)) (''You must wait '' @
         secsToTimeString (word_of_int (GetGameTime W + uint (say_delay c) - GetGameTime W')) False @ '' before speaking again.'')]\<rparr>) \<and>
    map_of (playersStore e) = map_of (playersStore d) \<and> e\<lparr>playersStore := []\<rparr> = d\<lparr>playersStore := []\<rparr>"
proof -
  note ok = reach_ok [OF assms(1)]
  have on: "IsOn g c" and nm: "\<not> pi_IsMuted (slot g c)" using assms(2) by (simp_all add: may_say_def)
  have chk: "snd (say_check W g c) = (slot g c)\<lparr>lastSpeakTime := word_of_int (GetGameTime W)\<rparr>"
    using say_check_allowed(2) [OF ok(3) on] assms(3,4) by simp
  let ?i = "(slot g c)\<lparr>lastSpeakTime := word_of_int (GetGameTime W)\<rparr>"
  obtain out where d: "d = (set_slot g ?i c)\<lparr>chOut := out\<rparr>"
    using yields_Say [OF ok(1,3), of g what lang] assms(2,5) chk by (auto simp: yields_def say_state_def)
  have len: "length (playersStore (set_slot g ?i c)) = length (playersStore c)"
  proof -
    have "g \<in> fst ` set (playersStore c)" using on by (auto simp: IsOn_def image_iff dest!: map_of_SomeD) (metis fst_conv)
    from update_in_place [OF this, of ?i] show ?thesis by (metis set_slot_def length_map channel.select_convs(12) channel.update_convs(12) channel.surjective)
  qed
  have s: "slot g d = ?i" "say_delay d = say_delay c" "IsOn g d" "may_say g what' d"
    using on nm len assms(12) by (simp_all add: d say_delay_def may_say_def pi_IsMuted_def)
  have sum: "uint (word_of_int (GetGameTime W) + say_delay c) = GetGameTime W + uint (say_delay c)"
  proof -
    have "GetGameTime W < 2 ^ 32" using assms(10) uint_ge_0 [of "say_delay c"] by linarith
    then have "take_bit 32 (GetGameTime W) = GetGameTime W" using assms(9) by (simp add: take_bit_int_eq_self)
    then show ?thesis using assms(9,10) by (simp add: uint_word_ariths unsigned_of_int)
  qed
  have "say_throttled W' g d"
    using assms(8,11) sum by (simp add: say_throttled_def s)
  then have "fst (say_check W' g d) = False" "snd (say_check W' g d) = slot g d"
    using say_check_allowed [OF assms(7) s(3)] by simp_all
  then have chk': "say_check W' g d = (False, slot g d)" by (metis prod.collapse)
  have last: "uint (lastSpeakTime (slot g d) + say_delay d) = GetGameTime W + uint (say_delay c)" using sum by (simp add: s)
  have wait: "word_of_int (uint (lastSpeakTime (slot g d) + say_delay d) - GetGameTime W') =
    (word_of_int (GetGameTime W + uint (say_delay c) - GetGameTime W') :: u64)" by (simp only: last)
  have rights: "chRights d = chRights c" by (simp add: d)
  let ?e = "set_slot g (slot g d) d"
  have "map_of (playersStore ?e) = map_of (playersStore d)" using s(3) by (auto simp: IsOn_def slot_def fun_upd_idem_iff)
  moreover have "?e\<lparr>playersStore := []\<rparr> = d\<lparr>playersStore := []\<rparr>" by (simp add: set_slot_def)
  moreover have ptr: "plrPtr (slot g d) = plrPtr (slot g c)" by (simp add: s)
  have "chOut ?e = chOut d" by (simp add: set_slot_def)
  with Say_member [OF assms(6,7) s(4), of lang', unfolded chk' Let_def prod.case if_False wait] have "Say W' g what' lang' d = Some (?e\<lparr>chOut := chOut d @
      (if crSpeakMessage (chRights c) \<noteq> [] then [Notification (plrPtr (slot g c)) (crSpeakMessage (chRights c))] else []) @
      [Notification (plrPtr (slot g c)) (''You must wait '' @
         secsToTimeString (word_of_int (GetGameTime W + uint (say_delay c) - GetGameTime W')) False @ '' before speaking again.'')]\<rparr>)"
    by (simp add: rights ptr emit_def del: of_int_add of_int_diff)
  ultimately show ?thesis by blast
qed

text \<open>The bytes of a packet's fields, written one after the other.\<close>

fun put_fields :: "field list \<Rightarrow> byteBuffer \<Rightarrow> byteBuffer bb" where
  "put_fields [] b = Inr b"
| "put_fields (f # fs) b = bindE (put_field f b) (put_fields fs)"

fun field_bytes :: "field \<Rightarrow> u8 list" where
  "field_bytes (FU8 v) = le_bytes 1 v" | "field_bytes (FU32 v) = le_bytes 4 v"
| "field_bytes (FU64 v) = le_bytes 8 v" | "field_bytes (FStr s) = enc_string s"

lemma put_field_bytes:
  assumes "bb_ok b" and "bb_size b + length (field_bytes f) \<le> 10000000"
  shows "put_field f b = Inr (bb_extend (field_bytes f) b)"
  using assms s8.wr_enc s32.wr_enc s64.wr_enc bb_put_string_enc by (cases f) (simp_all add: put_field_def)

lemma put_fields_bytes:
  "bb_ok b \<Longrightarrow> bb_size b + length (concat (map field_bytes fs)) \<le> 10000000 \<Longrightarrow>
    put_fields fs b = Inr (bb_extend (concat (map field_bytes fs)) b)"
  by (induction fs arbitrary: b) (simp_all add: put_field_bytes)

lemma overwrite_middle:
  "p = length xs \<Longrightarrow> length zs = length ys \<Longrightarrow> overwrite (xs @ ys @ rest) p zs = xs @ zs @ rest"
  by (simp add: overwrite_def)

lemma bb_put_u64:
  assumes "storage b = xs @ ys @ rest" "length ys = 8" "length (storage b) \<le> 10000000"
  shows "bb_put (length xs) (g :: u64) b = Inr (b\<lparr>storage := xs @ le_bytes 8 g @ rest\<rparr>)"
  using assms overwrite_middle [of "length xs" xs "le_bytes 8 g" ys rest]
  by (simp add: bb_put_def bb_put_src_def bb_size_def Let_def)

text \<open>
  The packet of EveryoneSayToSelf: writing a receiver's guid over the bytes at 5 and at
  17 plus the name's length plus 1 puts it in the packet's two guid fields and touches
  nothing else, so every member sees the message as its own.
\<close>

theorem self_packet_offsets:
  assumes "length name + length what \<le> 9000000"
  shows "bindE (put_fields (self_packet name what) bb_new) (\<lambda>b. bindE (bb_put 5 (g :: u64) b) (bb_put (17 + length name + 1) g))
    = put_fields ((self_packet name what)[2 := FU64 g, 5 := FU64 g]) bb_new"
proof -
  let ?w = "takeWhile (\<lambda>c. c \<noteq> CHR 0x00) what"
  let ?tail = "le_bytes 4 (of_nat (length ?w) + 1 :: u32) @ enc_string ?w @ le_bytes 1 (0 :: u8)"
  let ?h = "le_bytes 1 (0x11 :: u8) @ le_bytes 4 (0 :: u32)"
  let ?m = "le_bytes 4 (0 :: u32) @ enc_string name"
  let ?z = "le_bytes 8 (0 :: u64)" and ?g = "le_bytes 8 g"
  have w: "length ?w \<le> length what" by (rule length_takeWhile_le)
  have len: "length (enc_string s) = length s + 1" for s by (simp add: enc_string_def str_bytes_def)
  have fs: "concat (map field_bytes (self_packet name what)) = ?h @ ?z @ ?m @ ?z @ ?tail"
      "concat (map field_bytes ((self_packet name what)[2 := FU64 g, 5 := FU64 g])) = ?h @ ?g @ ?m @ ?g @ ?tail"
    by (simp_all add: self_packet_def Let_def numeral_eq_Suc)
  have size0: "bb_size bb_new = 0" by (simp add: bb_size_def bb_new_def)
  have one: "put_fields (self_packet name what) bb_new = Inr (bb_extend (?h @ ?z @ ?m @ ?z @ ?tail) bb_new)"
    unfolding fs(1) [symmetric] by (rule put_fields_bytes) (use assms w in \<open>simp_all only: fs size0\<close>, simp_all add: len)
  have two: "put_fields ((self_packet name what)[2 := FU64 g, 5 := FU64 g]) bb_new =
      Inr (bb_extend (?h @ ?g @ ?m @ ?g @ ?tail) bb_new)"
    unfolding fs(2) [symmetric] by (rule put_fields_bytes) (use assms w in \<open>simp_all only: fs size0\<close>, simp_all add: len)
  let ?b = "bb_extend (?h @ ?z @ ?m @ ?z @ ?tail) bb_new"
  have st: "storage ?b = ?h @ ?z @ ?m @ ?z @ ?tail" by (simp add: bb_new_def)
  have first: "bb_put 5 g ?b = Inr (?b\<lparr>storage := ?h @ ?g @ ?m @ ?z @ ?tail\<rparr>)"
    using bb_put_u64 [OF st] assms w by (simp add: len bb_new_def)
  have second: "bb_put (17 + length name + 1) g (?b\<lparr>storage := ?h @ ?g @ ?m @ ?z @ ?tail\<rparr>) =
      Inr (?b\<lparr>storage := ?h @ ?g @ ?m @ ?g @ ?tail\<rparr>)"
    using bb_put_u64 [of "?b\<lparr>storage := ?h @ ?g @ ?m @ ?z @ ?tail\<rparr>" "?h @ ?g @ ?m" ?z ?tail g] assms w by (simp add: len)
  have "?b\<lparr>storage := ?h @ ?g @ ?m @ ?g @ ?tail\<rparr> = bb_extend (?h @ ?g @ ?m @ ?g @ ?tail) bb_new"
    by (simp add: bb_extend_def bb_new_def)
  then show ?thesis unfolding one two by (simp only: bindE_simps first second)
qed

lemma self_packet_offsets_witness:
  "bindE (put_fields (self_packet ''world'' ''hi'') bb_new) (\<lambda>b. bindE (bb_put 5 (7 :: u64) b) (bb_put 23 (7 :: u64)))
    = put_fields ((self_packet ''world'' ''hi'')[2 := FU64 7, 5 := FU64 7]) bb_new"
  using self_packet_offsets [of "''world''" "''hi''" 7] by simp

section \<open>A small world\<close>

definition demo_player :: "u64 \<Rightarrow> string \<Rightarrow> u32 \<Rightarrow> player" where
  "demo_player g name sec = \<lparr>pGUID = g, pName = name, pSecurity = sec, pAccountId = ucast g, pTeamId = TEAM_ALLIANCE,
     pRace = 1, pInGroup = False, pGMVisible = True, pIgnores = []\<rparr>"

fun demo_deref :: "nat \<Rightarrow> player option" where
  "demo_deref q = (if q = 1 then Some (demo_player 1 ''alice'' 0)
     else if q = 2 then Some (demo_player 2 ''bob'' 0) else None)"

definition demo_world :: "int \<Rightarrow> world" where
  "demo_world t = \<lparr>deref = demo_deref,
     FindPlayerInOrOutOfWorld = (\<lambda>g. if g = 1 then 1 else if g = 2 then 2 else 0),
     FindPlayerByName = (\<lambda>n. if n = ''alice'' then 1 else if n = ''bob'' then 2 else 0),
     GetGameTime = t, timeNow = t, twoSideChannel = False, silentlyGMJoin = True, restrictedLFG = True,
     preserveCustom = True, preserveDuration = 14, GetGlobalPlayerGUID = (\<lambda>n. 0),
     GetGlobalPlayerData = (\<lambda>g. None), TeamIdForRace = (\<lambda>r. TEAM_ALLIANCE), GetPlayerNameByGUID = (\<lambda>g. None),
     storeOrder = (\<lambda>m. m), watchOrder = (\<lambda>ps. ps)\<rparr>"

lemma demo_ok: "world_ok (demo_world t)"
  by (simp add: world_ok_def demo_world_def demo_player_def)

definition demo_new :: channel where
  "demo_new = fst (Channel_new (demo_world 100) (\<lambda>i. None)
     (\<lambda>n. channelRightsEmpty\<lparr>crSpeakDelay := 10\<rparr>) 0 ''world'' 0 1 TEAM_ALLIANCE True True)"

fun channel_run :: "world \<Rightarrow> command list \<Rightarrow> channel \<Rightarrow> channel option" where
  "channel_run W [] c = Some c"
| "channel_run W (x # xs) c = channel_do W x c \<bind> channel_run W xs"

lemma reach_run:
  "channel_reach W c \<Longrightarrow> \<forall>x\<in>set xs. command_live W x \<Longrightarrow> \<exists>d. channel_run W xs c = Some d \<and> channel_reach W d"
proof (induction xs arbitrary: c)
  case (Cons x xs)
  then obtain out where x: "channel_do W x c = Some ((spec_do W x c)\<lparr>chOut := out\<rparr>)"
    using reach_do [of W c x] by auto
  then have "channel_reach W ((spec_do W x c)\<lparr>chOut := out\<rparr>)" using Cons.prems by (auto intro: reach_command)
  with Cons.IH Cons.prems(2) x show ?case by simp
qed simp

definition demo_channel :: channel where
  "demo_channel = the (channel_run (demo_world 100) [CJoin 1 '''', CJoin 2 ''''] demo_new)"

lemma demo_new_reach: "channel_reach (demo_world 100) demo_new"
  unfolding demo_new_def by (rule reach_new [OF demo_ok])

lemma demo_live: "q \<in> {1, 2} \<Longrightarrow> deref (demo_world t) q \<noteq> None"
  by (auto simp: demo_world_def)

lemma demo_reach: "channel_reach (demo_world 100) demo_channel"
proof -
  have "\<forall>x\<in>set [CJoin 1 '''', CJoin 2 '''']. command_live (demo_world 100) x"
    using demo_live by (simp add: command_live_def)
  from reach_run [OF demo_new_reach this] show ?thesis by (auto simp: demo_channel_def)
qed

lemma demo_eval:
  "IsOn 1 demo_channel" "IsOn 2 demo_channel" "chOwnerGUID demo_channel = 1" "chOwnership demo_channel"
  "\<not> IsConstant demo_channel" "length (playersStore demo_channel) = 2"
  by code_simp+

lemma demo_members: "channel_reach (demo_world s) c \<Longrightarrow> members_ok (demo_world t) c"
  using reach_ok(3) by (fastforce simp: members_ok_def demo_world_def)

lemma demo_command:
  assumes "command_live (demo_world 100) cmd"
  obtains d where "channel_do (demo_world 100) cmd demo_channel = Some d" "channel_reach (demo_world 100) d"
  using reach_do [OF demo_reach assms] assms by (metis demo_reach reach_command)

lemma demo_banned:
  "kick_target (demo_world 100) 1 (the_player (demo_world 100) 1) ''bob'' True demo_channel = Some (2, 2, True)"
  "\<not> IsBanned (demo_world 100) 2 demo_channel"
  by code_simp+

lemma demo_says:
  "may_say 1 ''hello'' demo_channel" "\<not> say_throttled (demo_world 100) 1 demo_channel"
  "say_delay demo_channel = 10" "pSecurity (member_player (demo_world 100) demo_channel 1) = 0"
  "pSecurity (member_player (demo_world 100) demo_channel 2) = 0"
  "\<not> may_moderate (demo_player 2 ''bob'' 0) demo_channel" "plrPtr (slot 1 demo_channel) = 1"
  by code_simp+

lemma channel_commands_refine_witness:
  "\<exists>out. channel_do (demo_world 100) (CBan 1 ''bob'') demo_channel =
     Some ((spec_do (demo_world 100) (CBan 1 ''bob'') demo_channel)\<lparr>chOut := out\<rparr>)"
  using channel_commands_refine [OF demo_reach, of "CBan 1 ''bob''"] demo_live by (simp add: command_live_def)

lemma channel_one_owner_witness:
  "{g. IsOn g demo_channel \<and> pi_IsOwner (slot g demo_channel)} = {1}"
  using channel_one_owner [OF demo_reach demo_eval(4,5)] IsOn_empty [OF demo_eval(1)] demo_eval(3) by simp

lemma channel_ban_keeps_out_witness:
  "\<exists>d e. channel_do (demo_world 100) (CBan 1 ''bob'') demo_channel = Some d \<and> \<not> IsOn 2 d \<and>
     channel_do (demo_world 150) (CPassword 1 ''pw'') d = Some e \<and> \<not> IsOn 2 e \<and>
     (\<exists>out. JoinChannel (demo_world 200) 2 ''pw'' e = Some (e\<lparr>chOut := out\<rparr>))"
proof -
  have l: "command_live (demo_world 100) (CBan 1 ''bob'')" and l': "command_live (demo_world 150) (CPassword 1 ''pw'')"
    using demo_live by (simp_all add: command_live_def)
  obtain d where d: "channel_do (demo_world 100) (CBan 1 ''bob'') demo_channel = Some d"
      "channel_reach (demo_world 100) d"
    using demo_command [OF l] .
  have d': "channel_reach (demo_world 150) d" by (rule reach_world [OF d(2) demo_ok demo_members [OF d(2)]])
  obtain out where "channel_do (demo_world 150) (CPassword 1 ''pw'') d = Some ((spec_do (demo_world 150) (CPassword 1 ''pw'') d)\<lparr>chOut := out\<rparr>)"
    using reach_do [OF d' l'] .
  then obtain e where e: "channel_do (demo_world 150) (CPassword 1 ''pw'') d = Some e" by blast
  have e': "channel_reach (demo_world 150) e" by (rule reach_command [OF d' l' e])
  have "ban_stands (GUID_LOPART 2) (timeNow (demo_world 100) + CHANNEL_BAN_DURATION) d e"
    by (rule ban_command [OF ban_start demo_ok demo_members [OF d(2)] _ l' _ e])
      (simp_all add: demo_world_def CHANNEL_BAN_DURATION_def lifts_def)
  then have "\<not> IsOn 2 d \<and> \<not> IsOn 2 e \<and> (\<exists>out. JoinChannel (demo_world 200) 2 ''pw'' e = Some (e\<lparr>chOut := out\<rparr>))"
    by (intro channel_ban_keeps_out [OF demo_reach l demo_banned _ _ d(1) _ demo_ok demo_members [OF e'], where p = "demo_player 2 ''bob'' 0"])
      (simp_all add: demo_world_def demo_player_def CHANNEL_BAN_DURATION_def)
  with d(1) e show ?thesis by blast
qed

lemma channel_moderators_only_witness:
  "\<exists>out. channel_do (demo_world 100) (CKick 2 ''alice'') demo_channel = Some (demo_channel\<lparr>chOut := out\<rparr>)"
  by (rule channel_moderators_only [OF demo_reach _ demo_says(6), of 2 _ "''alice''"]) (simp_all add: demo_world_def)

lemma channel_owner_succession_witness:
  "\<exists>d. LeaveChannel (demo_world 100) 1 True demo_channel = Some d \<and> chOwnerGUID d \<noteq> 1 \<and> IsOn (chOwnerGUID d) d"
proof -
  have l: "command_live (demo_world 100) (CLeave 1 True)" using demo_live by (simp add: command_live_def)
  obtain d where d: "LeaveChannel (demo_world 100) 1 True demo_channel = Some d"
    using demo_command [OF l] by auto
  have "chOwnerGUID d \<noteq> pGUID (demo_player 1 ''alice'' 0) \<and> IsOn (chOwnerGUID d) d"
    using channel_owner_succession [OF demo_reach demo_eval(4,5), of 1 "demo_player 1 ''alice'' 0" True d]
      d demo_eval(2,3) by (auto simp: demo_world_def demo_player_def split: if_splits)
  with d show ?thesis by (simp add: demo_player_def)
qed

lemma channel_say_delivers_witness:
  "\<exists>d. Say (demo_world 100) 1 ''hello'' 7 demo_channel = Some d \<and> length (chOut d) = length (chOut demo_channel) + 2"
proof -
  obtain d where d: "Say (demo_world 100) 1 ''hello'' 7 demo_channel = Some d" and out:
      "chOut d = chOut demo_channel @ map (\<lambda>i. SendPacket (plrPtr (snd i)) (ChatPacket
        (if twoSideChannel (demo_world 100) then 0 else 7) (Some (plrPtr (slot 1 demo_channel))) 1 ''hello'' (chName demo_channel)))
      (filter (hears (demo_world 100) (if pi_IsModerator (slot 1 demo_channel) then 0 else 1))
        (storeOrder (demo_world 100) (playersStore (say_state (demo_world 100) 1 ''hello'' demo_channel))))"
    using channel_say_delivers [OF demo_reach demo_says(1,2), of 7] by auto
  have "length (filter (hears (demo_world 100) (if pi_IsModerator (slot 1 demo_channel) then 0 else 1))
        (storeOrder (demo_world 100) (playersStore (say_state (demo_world 100) 1 ''hello'' demo_channel)))) = 2"
    by code_simp
  with d out show ?thesis by simp
qed

lemma channel_say_throttles_witness:
  "\<exists>d e. Say (demo_world 100) 1 ''hello'' 7 demo_channel = Some d \<and> Say (demo_world 105) 1 ''again'' 7 d = Some e \<and>
     chOut e = chOut d @ [Notification 1 ''You must wait 5 second(s) before speaking again.'']"
proof -
  have l: "command_live (demo_world 100) (CSay 1 ''hello'' 7)" by (simp add: command_live_def)
  obtain d where d: "Say (demo_world 100) 1 ''hello'' 7 demo_channel = Some d" "channel_reach (demo_world 100) d"
    using demo_command [OF l] by auto
  have "d = the (Say (demo_world 100) 1 ''hello'' 7 demo_channel)" using d by simp
  moreover have "pSecurity (member_player (demo_world 105) (the (Say (demo_world 100) 1 ''hello'' 7 demo_channel)) 1) = 0"
    by code_simp
  ultimately have sec: "pSecurity (member_player (demo_world 105) d 1) = 0" by simp
  have told: "secsToTimeString (word_of_int (GetGameTime (demo_world 100) + uint (say_delay demo_channel) - GetGameTime (demo_world 105))) False =
      ''5 second(s)''" "crSpeakMessage (chRights demo_channel) = []" by code_simp+
  have "GetGameTime (demo_world 105) < GetGameTime (demo_world 100) + uint (say_delay demo_channel)"
    "GetGameTime (demo_world 100) + uint (say_delay demo_channel) < 2 ^ 32" "0 \<le> GetGameTime (demo_world 100)"
    by (simp_all add: demo_says(3) demo_world_def)
  from channel_say_throttles [OF demo_reach demo_says(1,2,4) d(1) demo_ok demo_members [OF d(2)] sec this(3,2,1), of "''again''" 7]
  obtain e where "Say (demo_world 105) 1 ''again'' 7 d = Some e"
    "chOut e = chOut d @ [Notification 1 ''You must wait 5 second(s) before speaking again.'']"
    using told demo_says(7) by auto
  with d(1) show ?thesis by blast
qed

end
