(* ===== verification/ChannelMgr.thy ===== *)
theory ChannelMgr
  imports ChannelProps
begin

text \<open>
  The channel managers, src/src/server/game/Chat/Channels/ChannelMgr.cpp: one per faction,
  each with its channels by lower-case name, and the state they share, the counter of
  database ids and the table of rights. A \<^verbatim>\<open>Channel*\<close> handed out is the key of its entry;
  the database's answers, the decoder of UTF-8 and the table of built-in channels are
  arguments.
\<close>

section \<open>State\<close>

record channelMgr =
  mgTeamId :: teamId
  mgChannels :: "(wstring \<times> channel) list"

record channelStatics =
  csIdMax :: u32
  csRights :: "(string \<times> channelRights) list"

definition ChannelMgr_new :: "teamId \<Rightarrow> channelMgr" where
  "ChannelMgr_new teamId = \<lparr>mgTeamId = teamId, mgChannels = []\<rparr>"

text \<open>Which of the two managers serves a team; a null pointer is \<^const>\<open>None\<close>.\<close>

definition forTeam :: "world \<Rightarrow> teamId \<Rightarrow> teamId option" where
  "forTeam W teamId =
     (if twoSideChannel W then Some TEAM_ALLIANCE
      else if teamId = TEAM_ALLIANCE then Some TEAM_ALLIANCE
      else if teamId = TEAM_HORDE then Some TEAM_HORDE
      else None)"

section \<open>Rights\<close>

text \<open>The C library's \<^verbatim>\<open>tolower\<close>, in the C locale, on every byte.\<close>

definition str_tolower :: "string \<Rightarrow> string" where
  "str_tolower s = map (\<lambda>c. if 65 \<le> (of_char c :: nat) \<and> (of_char c :: nat) \<le> 90 then char_of (of_char c + (32 :: nat)) else c) s"

definition GetChannelRightsFor :: "channelStatics \<Rightarrow> string \<Rightarrow> channelRights" where
  "GetChannelRightsFor st name =
     (case map_of (csRights st) (str_tolower name) of Some r \<Rightarrow> r | None \<Rightarrow> channelRightsEmpty)"

definition SetChannelRightsFor :: "string \<Rightarrow> u32 \<Rightarrow> u32 \<Rightarrow> string \<Rightarrow> string \<Rightarrow> u32 list \<Rightarrow> channelStatics \<Rightarrow> channelStatics" where
  "SetChannelRightsFor name flags speakDelay joinmessage speakmessage moderators st =
     st\<lparr>csRights := AList.update (str_tolower name)
       \<lparr>crFlags = flags, crSpeakDelay = speakDelay, crJoinMessage = joinmessage,
        crSpeakMessage = speakmessage, crModerators = moderators\<rparr> (csRights st)\<rparr>"

record rightsRow =
  rrName :: string
  rrFlags :: u32
  rrSpeakDelay :: u32
  rrJoinMessage :: string
  rrDelayMessage :: string
  rrModerators :: "string option"

text \<open>
  The loop over the tokens of the moderator list: \<^verbatim>\<open>atol\<close> gives 64 bits, of which only
  non-zero 32-bit account numbers are taken.
\<close>

fun take_moderators :: "u32 list \<Rightarrow> string list \<Rightarrow> u32 list" where
  "take_moderators ms [] = ms"
| "take_moderators ms (t # ts) =
     (let moderator_acc = word_of_int (atoi t) :: u64
      in take_moderators
           (if moderator_acc \<noteq> 0 \<and> ucast (ucast moderator_acc :: u32) = moderator_acc
            then List.insert (ucast moderator_acc) ms else ms) ts)"

definition row_moderators :: "rightsRow \<Rightarrow> u32 list option" where
  "row_moderators r =
     (case rrModerators r of
        None \<Rightarrow> Some []
      | Some s \<Rightarrow> map_option (take_moderators []) (Tokenizer s (CHR '' '')))"

fun load_rights :: "rightsRow list \<Rightarrow> channelStatics \<Rightarrow> channelStatics option" where
  "load_rights [] st = Some st"
| "load_rights (r # rs) st =
     do {
       moderators \<leftarrow> row_moderators r;
       load_rights rs (SetChannelRightsFor (rrName r) (rrFlags r) (rrSpeakDelay r) (rrJoinMessage r)
         (rrDelayMessage r) moderators st)
     }"

text \<open>A result with no rows comes as a null pointer.\<close>

definition LoadChannelRights :: "rightsRow list option \<Rightarrow> channelStatics \<Rightarrow> channelStatics option" where
  "LoadChannelRights result st =
     (let st = st\<lparr>csRights := []\<rparr>
      in case result of None \<Rightarrow> Some st | Some rows \<Rightarrow> load_rights rows st)"

section \<open>Channels\<close>

text \<open>\<^verbatim>\<open>Utf8toWStr\<close> leaves an empty string when the name is not valid UTF-8.\<close>

definition wide :: "(string \<Rightarrow> wstring option) \<Rightarrow> string \<Rightarrow> wstring" where
  "wide Utf8toWStr name = (case Utf8toWStr name of Some w \<Rightarrow> w | None \<Rightarrow> [])"

record channelRow =
  rwId :: u32
  rwName :: string
  rwTeam :: teamId
  rwAnnounce :: u8
  rwOwnership :: u8
  rwPassword :: string

fun add_bans :: "(u32 \<times> u32) list \<Rightarrow> channel \<Rightarrow> channel" where
  "add_bans [] c = c"
| "add_bans ((guid, time) # bans) c = add_bans bans (AddBan guid time c)"

definition load_channel :: "world \<Rightarrow> (u32 \<Rightarrow> u32 option) \<Rightarrow> (string \<Rightarrow> wstring option) \<Rightarrow>
    (u32 \<Rightarrow> (u32 \<times> u32) list option) \<Rightarrow> channelRow \<Rightarrow> channelMgr \<times> channelStatics \<Rightarrow> channelMgr \<times> channelStatics" where
  "load_channel W sChatChannelsStore Utf8toWStr bansOf r ms =
     (let (mgr, st) = ms;
          channelDBId = rwId r;
          channelWName = wide Utf8toWStr (rwName r);
          (newChannel, idMax) = Channel_new W sChatChannelsStore (GetChannelRightsFor st) (csIdMax st)
            (rwName r) 0 channelDBId (rwTeam r) (rwAnnounce r \<noteq> 0) (rwOwnership r \<noteq> 0);
          st = st\<lparr>csIdMax := idMax\<rparr>;
          newChannel = SetPassword (rwPassword r) newChannel;
          newChannel = (case bansOf channelDBId of None \<Rightarrow> newChannel | Some bans \<Rightarrow> add_bans bans newChannel);
          mgr = mgr\<lparr>mgChannels := AList.update channelWName newChannel (mgChannels mgr)\<rparr>;
          st = (if channelDBId > csIdMax st then st\<lparr>csIdMax := channelDBId\<rparr> else st)
      in (mgr, st))"

definition LoadChannels :: "world \<Rightarrow> (u32 \<Rightarrow> u32 option) \<Rightarrow> (string \<Rightarrow> wstring option) \<Rightarrow>
    (u32 \<Rightarrow> (u32 \<times> u32) list option) \<Rightarrow> channelRow list option \<Rightarrow>
    channelMgr \<times> channelStatics \<Rightarrow> channelMgr \<times> channelStatics" where
  "LoadChannels W sChatChannelsStore Utf8toWStr bansOf result ms =
     (case result of None \<Rightarrow> ms
      | Some rows \<Rightarrow> fold (load_channel W sChatChannelsStore Utf8toWStr bansOf) rows ms)"

definition GetJoinChannel :: "world \<Rightarrow> (u32 \<Rightarrow> u32 option) \<Rightarrow> (string \<Rightarrow> wstring option) \<Rightarrow> string \<Rightarrow> u32 \<Rightarrow>
    channelMgr \<times> channelStatics \<Rightarrow> wstring \<times> channelMgr \<times> channelStatics" where
  "GetJoinChannel W sChatChannelsStore Utf8toWStr name channelId ms =
     (let (mgr, st) = ms;
          wname = wstrToLower (wide Utf8toWStr name)
      in case map_of (mgChannels mgr) wname of
           None \<Rightarrow>
             let (nchan, idMax) = Channel_new W sChatChannelsStore (GetChannelRightsFor st) (csIdMax st)
                   name channelId 0 (mgTeamId mgr) True True
             in (wname, mgr\<lparr>mgChannels := AList.update wname nchan (mgChannels mgr)\<rparr>, st\<lparr>csIdMax := idMax\<rparr>)
         | Some c \<Rightarrow> (wname, mgr, st))"

definition MakeNotOnPacket :: "string \<Rightarrow> packet" where
  "MakeNotOnPacket name = Packet SMSG_CHANNEL_NOTIFY [FU8 5, FStr name]"

text \<open>The channel's key, or the packet that is sent when there is none.\<close>

definition GetChannel :: "(string \<Rightarrow> wstring option) \<Rightarrow> string \<Rightarrow> nat \<Rightarrow> bool \<Rightarrow> channelMgr \<Rightarrow> effect list + wstring" where
  "GetChannel Utf8toWStr name player pkt mgr =
     (let wname = wstrToLower (wide Utf8toWStr name)
      in case map_of (mgChannels mgr) wname of
           None \<Rightarrow> Inl (if pkt then [SendPacket player (MakeNotOnPacket name)] else [])
         | Some c \<Rightarrow> Inr wname)"

section \<open>Loading\<close>

lemma load_channel_keys:
  "map_of (mgChannels (fst (load_channel W dbc U bansOf r ms))) k =
    (if k = wide U (rwName r) then map_of (mgChannels (fst (load_channel W dbc U bansOf r ms))) k
     else map_of (mgChannels (fst ms)) k)"
  by (auto simp: load_channel_def Let_def map_of_store split: prod.splits)

lemma fold_load_other:
  "\<forall>r\<in>set rows. wide U (rwName r) \<noteq> k \<Longrightarrow>
    map_of (mgChannels (fst (fold (load_channel W dbc U bansOf) rows ms))) k = map_of (mgChannels (fst ms)) k"
proof (induction rows arbitrary: ms)
  case (Cons r rows)
  have "map_of (mgChannels (fst (load_channel W dbc U bansOf r ms))) k = map_of (mgChannels (fst ms)) k"
    using load_channel_keys [of W dbc U bansOf r ms k] Cons.prems by auto
  with Cons show ?case by simp
qed simp

section \<open>Properties\<close>

text \<open>
  The channel that GetJoinChannel hands out is the one GetChannel finds afterwards, under
  every name that is equal in lower case, without a packet; asking again creates nothing and
  the other channels are untouched.
\<close>

theorem joined_channel_found:
  assumes "GetJoinChannel W dbc U name cid (mgr, st) = (key, mgr', st')"
    and "wstrToLower (wide U name') = wstrToLower (wide U name)"
  shows "GetChannel U name' player pkt mgr' = Inr key \<and>
    GetJoinChannel W dbc U name' cid' (mgr', st') = (key, mgr', st') \<and>
    (\<forall>k. k \<noteq> key \<longrightarrow> map_of (mgChannels mgr') k = map_of (mgChannels mgr) k)"
  using assms
  by (auto simp: GetJoinChannel_def GetChannel_def Let_def map_of_store split: option.splits prod.splits)

text \<open>
  A saved channel whose name has an upper-case letter is lost at the next start: loading
  stores it under its name as it is, the look-ups ask for the lower-case name. GetChannel
  answers "not on channel", and GetJoinChannel makes a second channel, without the saved
  password and bans.
\<close>

theorem saved_channel_lost:
  assumes "LoadChannels W dbc U bansOf (Some rows) (ChannelMgr_new team, st) = (mgr, st')"
    and "row \<in> set rows" and "wstrToLower (wide U (rwName row)) \<noteq> wide U (rwName row)"
    and "\<forall>r\<in>set rows. wstrToLower (wide U (rwName r)) = wstrToLower (wide U (rwName row)) \<longrightarrow> r = row"
    and "GetJoinChannel W dbc U (rwName row) 0 (mgr, st') = (key, mgr', st'')"
  shows "GetChannel U (rwName row) player True mgr = Inl [SendPacket player (MakeNotOnPacket (rwName row))] \<and>
    (\<exists>c. map_of (mgChannels mgr') key = Some c \<and> chPassword c = [] \<and> bannedStore c = [])"
proof -
  let ?k = "wstrToLower (wide U (rwName row))"
  have "\<forall>r\<in>set rows. wide U (rwName r) \<noteq> ?k"
    using assms(3,4) wstrToLower_idem by metis
  from fold_load_other [OF this, of W dbc bansOf "(ChannelMgr_new team, st)"] assms(1)
  have none: "map_of (mgChannels mgr) ?k = None"
    by (simp add: LoadChannels_def ChannelMgr_new_def)
  have new: "chPassword (fst (Channel_new W dbc f m name 0 0 t True True)) = []" for f m t name
    by (auto simp: Channel_new_def Let_def emit_def split: option.split)
  have "key = ?k \<and> (\<exists>c. map_of (mgChannels mgr') key = Some c \<and> chPassword c = [] \<and> bannedStore c = [])"
    using assms(5) none new Channel_new_fields(2)
    by (auto simp: GetJoinChannel_def Let_def map_of_store split: prod.splits) (metis fst_conv)+
  with none show ?thesis by (auto simp: GetChannel_def Let_def)
qed

text \<open>
  Channel rights do not depend on the case of ASCII letters: what is set for a name is
  found under every name equal to it in lower case, and no other name's rights change.
\<close>

theorem rights_ignore_case:
  "GetChannelRightsFor (SetChannelRightsFor name f d j s m st) other =
    (if str_tolower other = str_tolower name
     then \<lparr>crFlags = f, crSpeakDelay = d, crJoinMessage = j, crSpeakMessage = s, crModerators = m\<rparr>
     else GetChannelRightsFor st other)"
  by (simp add: GetChannelRightsFor_def SetChannelRightsFor_def map_of_store)

section \<open>An example\<close>

definition ascii_wide :: "string \<Rightarrow> wstring option" where
  "ascii_wide s = Some (map of_char s)"

definition demo_row :: channelRow where
  "demo_row = \<lparr>rwId = 3, rwName = ''World'', rwTeam = TEAM_ALLIANCE, rwAnnounce = 1, rwOwnership = 1, rwPassword = ''secret''\<rparr>"

definition demo_loaded :: "channelMgr \<times> channelStatics" where
  "demo_loaded = LoadChannels (demo_world 100) (\<lambda>i. None) ascii_wide (\<lambda>i. Some [(2, 900)]) (Some [demo_row])
     (ChannelMgr_new TEAM_ALLIANCE, \<lparr>csIdMax = 0, csRights = []\<rparr>)"

lemma joined_channel_found_witness:
  "\<exists>key mgr st. GetJoinChannel (demo_world 100) (\<lambda>i. None) ascii_wide ''Guild'' 0 demo_loaded = (key, mgr, st) \<and>
     GetChannel ascii_wide ''GUILD'' 1 True mgr = Inr key"
proof -
  obtain key mgr st where r: "GetJoinChannel (demo_world 100) (\<lambda>i. None) ascii_wide ''Guild'' 0 (fst demo_loaded, snd demo_loaded)
      = (key, mgr, st)"
    by (metis surj_pair)
  have "wstrToLower (wide ascii_wide ''GUILD'') = wstrToLower (wide ascii_wide ''Guild'')"
    by (simp add: wstrToLower_def wide_def ascii_wide_def wcharToLower_def)
  with joined_channel_found [OF r] r show ?thesis by auto
qed

lemma saved_channel_lost_witness:
  "GetChannel ascii_wide ''World'' 1 True (fst demo_loaded) = Inl [SendPacket 1 (MakeNotOnPacket ''World'')]"
proof -
  obtain key mgr st where r: "GetJoinChannel (demo_world 100) (\<lambda>i. None) ascii_wide ''World'' 0 (fst demo_loaded, snd demo_loaded)
      = (key, mgr, st)"
    by (metis surj_pair)
  have "wstrToLower (wide ascii_wide (rwName demo_row)) \<noteq> wide ascii_wide (rwName demo_row)"
    by (simp add: demo_row_def wstrToLower_def wide_def ascii_wide_def wcharToLower_def)
  moreover have "rwName demo_row = ''World''" by (simp add: demo_row_def)
  ultimately show ?thesis
    using saved_channel_lost [where row = demo_row and rows = "[demo_row]" and bansOf = "\<lambda>i. Some [(2, 900)]"
      and team = TEAM_ALLIANCE and st = "\<lparr>csIdMax = 0, csRights = []\<rparr>" and W = "demo_world 100"
      and dbc = "\<lambda>i. None" and U = ascii_wide and player = 1, OF _ _ _ _ r [folded \<open>rwName demo_row = ''World''\<close>]]
    by (simp add: demo_loaded_def)
qed

end
