(* ===== verification/Reputation.thy ===== *)
theory Reputation
  imports ChannelData
begin

text \<open>
  A player's reputations, src/src/server/game/Reputation/ReputationMgr.h and
  ReputationMgr.cpp. The player, the faction store and the spill-over tables are read through
  a world; a float is an element of a type of its own, with the operations the code uses as
  fields of the world, since only their rounding is left open. An \<^verbatim>\<open>int32\<close> is \<^typ>\<open>int\<close>;
  the sum of an incremental change, the one that a large gain can carry out of the 32 bits, is cut
  to them as the hardware does (\<open>as_int32\<close>), and \<open>set_one_fits\<close> says when no sum of
  the code leaves them. Following a null
  faction pointer is \<^const>\<open>None\<close>.
\<close>

section \<open>Data\<close>

definition FACTION_FLAG_VISIBLE :: u8 where "FACTION_FLAG_VISIBLE = 0x01"
definition FACTION_FLAG_AT_WAR :: u8 where "FACTION_FLAG_AT_WAR = 0x02"
definition FACTION_FLAG_HIDDEN :: u8 where "FACTION_FLAG_HIDDEN = 0x04"
definition FACTION_FLAG_INVISIBLE_FORCED :: u8 where "FACTION_FLAG_INVISIBLE_FORCED = 0x08"
definition FACTION_FLAG_PEACE_FORCED :: u8 where "FACTION_FLAG_PEACE_FORCED = 0x10"
definition FACTION_FLAG_INACTIVE :: u8 where "FACTION_FLAG_INACTIVE = 0x20"
definition FACTION_FLAG_SPECIAL :: u8 where "FACTION_FLAG_SPECIAL = 0x80"

lemmas faction_flags = FACTION_FLAG_VISIBLE_def FACTION_FLAG_AT_WAR_def FACTION_FLAG_HIDDEN_def
  FACTION_FLAG_INVISIBLE_FORCED_def FACTION_FLAG_PEACE_FORCED_def FACTION_FLAG_INACTIVE_def FACTION_FLAG_SPECIAL_def

text \<open>The ranks are the numbers of the enum, from hated, 0, to exalted, 7.\<close>

type_synonym reputationRank = nat

definition REP_HOSTILE :: reputationRank where "REP_HOSTILE = 1"
definition REP_NEUTRAL :: reputationRank where "REP_NEUTRAL = 3"
definition REP_HONORED :: reputationRank where "REP_HONORED = 5"
definition REP_REVERED :: reputationRank where "REP_REVERED = 6"
definition REP_EXALTED :: reputationRank where "REP_EXALTED = 7"

lemmas rep_ranks = REP_HOSTILE_def REP_NEUTRAL_def REP_HONORED_def REP_REVERED_def REP_EXALTED_def

definition Reputation_Cap :: int where "Reputation_Cap = 42999"
definition Reputation_Bottom :: int where "Reputation_Bottom = -42000"

record 'f factionEntry =
  feID :: u32
  feListID :: int
  feRaceMask :: "u32 list"
  feClassMask :: "u32 list"
  feRepValue :: "int list"
  feRepFlags :: "u32 list"
  feTeam :: u32
  feRateIn :: 'f
  feRateOut :: 'f
  feMaxRankIn :: u32

record factionTemplate =
  ftFaction :: u32

record factionState =
  fsID :: u32
  fsListID :: u32
  fsStanding :: int
  fsFlags :: u8
  fsNeedSend :: bool
  fsNeedSave :: bool

text \<open>An \<^verbatim>\<open>int32\<close> result, with the wrap-around, and the values it leaves alone.\<close>

definition as_int32 :: "int \<Rightarrow> int" where
  "as_int32 x = signed_take_bit 31 x"

definition int32_ok :: "int \<Rightarrow> bool" where
  "int32_ok x \<longleftrightarrow> - 2147483648 \<le> x \<and> x < 2147483648"

lemma as_int32_id [simp]: "int32_ok x \<Longrightarrow> as_int32 x = x"
  unfolding as_int32_def int32_ok_def by (rule signed_take_bit_int_eq_self) simp_all

definition factionState0 :: factionState where
  "factionState0 = \<lparr>fsID = 0, fsListID = 0, fsStanding = 0, fsFlags = 0, fsNeedSend = False, fsNeedSave = False\<rparr>"

datatype repEffect =
    RepPacket u16 "field list"
  | OnReputationChange u32 int bool
  | OnReputationRankChange u32 reputationRank reputationRank bool
  | ReputationChanged u32
  | AchievementUpdate string u32
  | DelReputation u32 u16
  | InsReputation u32 u16 int u16

record repMgr =
  rmFactions :: "(u32 \<times> factionState) list"
  rmForced :: "(u32 \<times> reputationRank) list"
  rmVisible :: u8
  rmHonored :: u8
  rmRevered :: u8
  rmExalted :: u8
  rmIncreased :: bool
  rmOut :: "repEffect list"

record 'f repWorld =
  raceMask :: u32
  classMask :: u32
  guidLow :: u32
  playerLoading :: bool
  numFactions :: nat
  LookupFaction :: "u32 \<Rightarrow> 'f factionEntry option"
  factionTeamList :: "u32 \<Rightarrow> u32 list option"
  repSpillover :: "u32 \<Rightarrow> (u32 \<times> 'f \<times> u32) list option"
  rateGain :: 'f
  fromInt :: "int \<Rightarrow> 'f"
  fmul :: "'f \<Rightarrow> 'f \<Rightarrow> 'f"
  roundHalf :: "'f \<Rightarrow> int"
  toInt :: "'f \<Rightarrow> int"
  isZero :: "'f \<Rightarrow> bool"

definition ReputationMgr_new :: repMgr where
  "ReputationMgr_new = \<lparr>rmFactions = [], rmForced = [], rmVisible = 0, rmHonored = 0, rmRevered = 0,
     rmExalted = 0, rmIncreased = False, rmOut = []\<rparr>"

definition rep_emit :: "repEffect \<Rightarrow> repMgr \<Rightarrow> repMgr" where
  "rep_emit e rm = rm\<lparr>rmOut := rmOut rm @ [e]\<rparr>"

section \<open>Ranks and values\<close>

definition PointsInRank :: "int list" where
  "PointsInRank = [36000, 3000, 3000, 3000, 6000, 12000, 21000, 1000]"

text \<open>The loop of \<^verbatim>\<open>ReputationToRank\<close>; the last argument is \<open>i + 1\<close>.\<close>

fun rank_loop :: "int \<Rightarrow> int \<Rightarrow> nat \<Rightarrow> reputationRank" where
  "rank_loop standing limit 0 = 0"
| "rank_loop standing limit (Suc i) =
     (let limit = limit - PointsInRank ! i
      in if standing \<ge> limit then i else rank_loop standing limit i)"

definition ReputationToRank :: "int \<Rightarrow> reputationRank" where
  "ReputationToRank standing = rank_loop standing (Reputation_Cap + 1) 8"

text \<open>\<^verbatim>\<open>GetState\<close>, by entry and by list id; the key is the list id as \<^verbatim>\<open>uint32\<close>.\<close>

definition CanHaveReputation :: "'f factionEntry \<Rightarrow> bool" where
  "CanHaveReputation e = (feListID e \<ge> 0)"

definition fe_key :: "'f factionEntry \<Rightarrow> u32" where
  "fe_key e = word_of_int (feListID e)"

definition GetState_id :: "u32 \<Rightarrow> repMgr \<Rightarrow> factionState option" where
  "GetState_id i rm = map_of (rmFactions rm) i"

definition GetState :: "'f factionEntry \<Rightarrow> repMgr \<Rightarrow> factionState option" where
  "GetState e rm = (if CanHaveReputation e then GetState_id (fe_key e) rm else None)"

text \<open>The slot of an entry that fits the player's race and class, the code's two equal loops.\<close>

definition fits :: "'f repWorld \<Rightarrow> 'f factionEntry \<Rightarrow> nat \<Rightarrow> bool" where
  "fits W e i =
     ((feRaceMask e ! i AND raceMask W \<noteq> 0 \<or> feRaceMask e ! i = 0 \<and> feClassMask e ! i \<noteq> 0) \<and>
      (feClassMask e ! i AND classMask W \<noteq> 0 \<or> feClassMask e ! i = 0))"

definition GetBaseReputation :: "'f repWorld \<Rightarrow> 'f factionEntry option \<Rightarrow> int" where
  "GetBaseReputation W factionEntry =
     (case factionEntry of None \<Rightarrow> 0
      | Some e \<Rightarrow> (case List.find (fits W e) [0..<4] of Some i \<Rightarrow> feRepValue e ! i | None \<Rightarrow> 0))"

definition GetDefaultStateFlags :: "'f repWorld \<Rightarrow> 'f factionEntry option \<Rightarrow> u32" where
  "GetDefaultStateFlags W factionEntry =
     (case factionEntry of None \<Rightarrow> 0
      | Some e \<Rightarrow> (case List.find (fits W e) [0..<4] of Some i \<Rightarrow> feRepFlags e ! i | None \<Rightarrow> 0))"

definition GetReputation :: "'f repWorld \<Rightarrow> 'f factionEntry option \<Rightarrow> repMgr \<Rightarrow> int" where
  "GetReputation W factionEntry rm =
     (case factionEntry of None \<Rightarrow> 0
      | Some e \<Rightarrow> (case GetState e rm of
          Some s \<Rightarrow> GetBaseReputation W (Some e) + fsStanding s
        | None \<Rightarrow> 0))"

definition GetReputation_id :: "'f repWorld \<Rightarrow> u32 \<Rightarrow> repMgr \<Rightarrow> int" where
  "GetReputation_id W faction_id rm = GetReputation W (LookupFaction W faction_id) rm"

definition GetRank :: "'f repWorld \<Rightarrow> 'f factionEntry option \<Rightarrow> repMgr \<Rightarrow> reputationRank" where
  "GetRank W factionEntry rm = ReputationToRank (GetReputation W factionEntry rm)"

definition GetBaseRank :: "'f repWorld \<Rightarrow> 'f factionEntry option \<Rightarrow> reputationRank" where
  "GetBaseRank W factionEntry = ReputationToRank (GetBaseReputation W factionEntry)"

definition ReputationRankStrIndex :: "u32 list" where
  "ReputationRankStrIndex = [318, 319, 320, 321, 322, 323, 324, 325]"

definition GetReputationRankStrIndex :: "'f repWorld \<Rightarrow> 'f factionEntry option \<Rightarrow> repMgr \<Rightarrow> u32" where
  "GetReputationRankStrIndex W e rm = ReputationRankStrIndex ! GetRank W e rm"

definition IsAtWar :: "'f factionEntry option \<Rightarrow> repMgr \<Rightarrow> bool" where
  "IsAtWar factionEntry rm =
     (case factionEntry of None \<Rightarrow> False
      | Some e \<Rightarrow> (case GetState e rm of Some s \<Rightarrow> fsFlags s AND FACTION_FLAG_AT_WAR \<noteq> 0 | None \<Rightarrow> False))"

definition IsAtWar_id :: "'f repWorld \<Rightarrow> u32 \<Rightarrow> repMgr \<Rightarrow> bool" where
  "IsAtWar_id W faction_id rm = IsAtWar (LookupFaction W faction_id) rm"

definition ApplyForceReaction :: "u32 \<Rightarrow> reputationRank \<Rightarrow> bool \<Rightarrow> repMgr \<Rightarrow> repMgr" where
  "ApplyForceReaction faction_id rank apply rm =
     (if apply then rm\<lparr>rmForced := smap_put faction_id rank (rmForced rm)\<rparr>
      else rm\<lparr>rmForced := AList.delete faction_id (rmForced rm)\<rparr>)"

definition GetForcedRankIfAny :: "factionTemplate \<Rightarrow> repMgr \<Rightarrow> reputationRank option" where
  "GetForcedRankIfAny t rm = map_of (rmForced rm) (ftFaction t)"

definition UpdateRankCounters :: "reputationRank \<Rightarrow> reputationRank \<Rightarrow> repMgr \<Rightarrow> repMgr" where
  "UpdateRankCounters old_rank new_rank rm =
     (let rm = (if old_rank \<ge> REP_EXALTED then rm\<lparr>rmExalted := rmExalted rm - 1\<rparr> else rm);
          rm = (if old_rank \<ge> REP_REVERED then rm\<lparr>rmRevered := rmRevered rm - 1\<rparr> else rm);
          rm = (if old_rank \<ge> REP_HONORED then rm\<lparr>rmHonored := rmHonored rm - 1\<rparr> else rm);
          rm = (if new_rank \<ge> REP_EXALTED then rm\<lparr>rmExalted := rmExalted rm + 1\<rparr> else rm);
          rm = (if new_rank \<ge> REP_REVERED then rm\<lparr>rmRevered := rmRevered rm + 1\<rparr> else rm)
      in if new_rank \<ge> REP_HONORED then rm\<lparr>rmHonored := rmHonored rm + 1\<rparr> else rm)"

section \<open>Sending\<close>

definition SMSG_INITIALIZE_FACTIONS :: u16 where "SMSG_INITIALIZE_FACTIONS = 0x122"
definition SMSG_SET_FACTION_VISIBLE :: u16 where "SMSG_SET_FACTION_VISIBLE = 0x123"
definition SMSG_SET_FACTION_STANDING :: u16 where "SMSG_SET_FACTION_STANDING = 0x124"
definition SMSG_SET_FORCED_REACTIONS :: u16 where "SMSG_SET_FORCED_REACTIONS = 0x2A5"

definition SendForceReactions :: "repMgr \<Rightarrow> repMgr" where
  "SendForceReactions rm =
     rep_emit (RepPacket SMSG_SET_FORCED_REACTIONS
       (FU32 (of_nat (length (rmForced rm))) #
        concat (map (\<lambda>(faction, rank). [FU32 faction, FU32 (of_nat rank)]) (rmForced rm)))) rm"

text \<open>
  The loop of \<^verbatim>\<open>SendState\<close>: the fields it appends, the count, and the factions with the
  pending flag cleared. The packet starts with \<^verbatim>\<open>float(0)\<close>, four zero bytes.
\<close>

fun send_state_loop :: "u32 \<Rightarrow> u32 \<Rightarrow> (u32 \<times> factionState) list \<Rightarrow> field list \<times> u32 \<times> (u32 \<times> factionState) list" where
  "send_state_loop own n [] = ([], n, [])"
| "send_state_loop own n ((k, s) # m) =
     (if fsNeedSend s then
        let s = s\<lparr>fsNeedSend := False\<rparr>
        in if fsListID s \<noteq> own then
             case send_state_loop own (n + 1) m of (fs, c, m') \<Rightarrow>
               (FU32 (fsListID s) # FU32 (word_of_int (fsStanding s)) # fs, c, (k, s) # m')
           else case send_state_loop own n m of (fs, c, m') \<Rightarrow> (fs, c, (k, s) # m')
      else case send_state_loop own n m of (fs, c, m') \<Rightarrow> (fs, c, (k, s) # m'))"

definition SendState :: "factionState \<Rightarrow> repMgr \<Rightarrow> repMgr" where
  "SendState faction rm =
     (let increased = rmIncreased rm;
          rm = rm\<lparr>rmIncreased := False\<rparr>
      in case send_state_loop (fsListID faction) 1 (rmFactions rm) of (fs, n, m) \<Rightarrow>
           rep_emit (RepPacket SMSG_SET_FACTION_STANDING
             ([FU32 0, FU8 (if increased then 1 else 0), FU32 n, FU32 (fsListID faction),
               FU32 (word_of_int (fsStanding faction))] @ fs)) (rm\<lparr>rmFactions := m\<rparr>))"

text \<open>The fillers of \<^verbatim>\<open>SendInitialReputations\<close>, from \<open>a\<close> up to \<open>b\<close>; the counter wraps.\<close>

function fill_absent :: "u32 \<Rightarrow> u32 \<Rightarrow> field list" where
  "fill_absent a b = (if a \<noteq> b then FU8 0 # FU32 0 # fill_absent (a + 1) b else [])"
  by pat_completeness auto

termination
proof (relation "measure (\<lambda>(a, b). unat (b - a))")
  fix a b :: u32 assume "a \<noteq> b"
  then have "unat (b - a) \<noteq> 0" by (simp add: unat_eq_0)
  moreover have "b - (a + 1) = (b - a) - 1" by simp
  ultimately have "unat (b - (a + 1)) < unat (b - a)"
    by (metis less_irrefl measure_unat unat_0)
  then show "((a + 1, b), a, b) \<in> measure (\<lambda>(a, b). unat (b - a))" by simp
qed simp

declare fill_absent.simps [simp del]

fun initial_loop :: "u32 \<Rightarrow> (u32 \<times> factionState) list \<Rightarrow> field list \<times> u32" where
  "initial_loop a [] = ([], a)"
| "initial_loop a ((k, s) # m) =
     (case initial_loop (k + 1) m of (fs, a') \<Rightarrow>
        (fill_absent a k @ [FU8 (fsFlags s), FU32 (word_of_int (fsStanding s))] @ fs, a'))"

definition SendInitialReputations :: "repMgr \<Rightarrow> repMgr" where
  "SendInitialReputations rm =
     (case initial_loop 0 (rmFactions rm) of (fs, a) \<Rightarrow>
        rep_emit (RepPacket SMSG_INITIALIZE_FACTIONS (FU32 0x80 # fs @ fill_absent a 128))
          (rm\<lparr>rmFactions := map (\<lambda>(k, s). (k, s\<lparr>fsNeedSend := False\<rparr>)) (rmFactions rm)\<rparr>))"

text \<open>\<^verbatim>\<open>SendStates\<close>: every faction in turn, each as it is when its turn comes.\<close>

fun send_states_loop :: "u32 list \<Rightarrow> repMgr \<Rightarrow> repMgr" where
  "send_states_loop [] rm = rm"
| "send_states_loop (k # ks) rm =
     send_states_loop ks (case map_of (rmFactions rm) k of Some s \<Rightarrow> SendState s rm | None \<Rightarrow> rm)"

definition SendStates :: "repMgr \<Rightarrow> repMgr" where
  "SendStates rm = send_states_loop (map fst (rmFactions rm)) rm"

definition SendVisible :: "'f repWorld \<Rightarrow> factionState \<Rightarrow> repMgr \<Rightarrow> repMgr" where
  "SendVisible W faction rm =
     (if playerLoading W then rm
      else rep_emit (RepPacket SMSG_SET_FACTION_VISIBLE [FU32 (fsListID faction)]) rm)"

section \<open>Flags\<close>

text \<open>
  The methods on a \<^verbatim>\<open>FactionState*\<close>: the pointer is the key of its entry, \<open>at_state\<close>
  reads through it.
\<close>

definition at_state :: "u32 \<Rightarrow> (factionState \<Rightarrow> repMgr \<Rightarrow> repMgr) \<Rightarrow> repMgr \<Rightarrow> repMgr" where
  "at_state k f rm = (case map_of (rmFactions rm) k of Some s \<Rightarrow> f s rm | None \<Rightarrow> rm)"

definition put_state :: "u32 \<Rightarrow> factionState \<Rightarrow> repMgr \<Rightarrow> repMgr" where
  "put_state k s rm = rm\<lparr>rmFactions := smap_put k s (rmFactions rm)\<rparr>"

definition SetVisible_at :: "'f repWorld \<Rightarrow> u32 \<Rightarrow> repMgr \<Rightarrow> repMgr" where
  "SetVisible_at W k = at_state k (\<lambda>s rm.
     if fsFlags s AND (FACTION_FLAG_INVISIBLE_FORCED OR FACTION_FLAG_HIDDEN) \<noteq> 0 \<and>
        fsFlags s AND FACTION_FLAG_SPECIAL = 0 then rm
     else if fsFlags s AND FACTION_FLAG_VISIBLE \<noteq> 0 then rm
     else let s = s\<lparr>fsFlags := fsFlags s OR FACTION_FLAG_VISIBLE, fsNeedSend := True, fsNeedSave := True\<rparr>;
              rm = put_state k s rm;
              rm = rm\<lparr>rmVisible := rmVisible rm + 1\<rparr>
          in SendVisible W s rm)"

definition SetVisible :: "'f repWorld \<Rightarrow> 'f factionEntry \<Rightarrow> repMgr \<Rightarrow> repMgr" where
  "SetVisible W e rm =
     (if feListID e < 0 then rm
      else case map_of (rmFactions rm) (fe_key e) of
          None \<Rightarrow> rm
        | Some s \<Rightarrow> SetVisible_at W (fe_key e) rm)"

definition SetVisible_template :: "'f repWorld \<Rightarrow> factionTemplate \<Rightarrow> repMgr \<Rightarrow> repMgr" where
  "SetVisible_template W t rm =
     (if ftFaction t = 0 then rm
      else case LookupFaction W (ftFaction t) of
          None \<Rightarrow> rm
        | Some e \<Rightarrow>
            if \<not> (feRaceMask e ! 1 AND raceMask W \<noteq> 0 \<and> feRepValue e ! 1 = Reputation_Bottom)
            then SetVisible W e rm else rm)"

definition SetAtWar_at :: "u32 \<Rightarrow> bool \<Rightarrow> repMgr \<Rightarrow> repMgr" where
  "SetAtWar_at k atWar = at_state k (\<lambda>s rm.
     if atWar \<and> fsFlags s AND FACTION_FLAG_PEACE_FORCED \<noteq> 0 then rm
     else if (fsFlags s AND FACTION_FLAG_AT_WAR \<noteq> 0) = atWar then rm
     else put_state k (s\<lparr>fsFlags := (if atWar then fsFlags s OR FACTION_FLAG_AT_WAR
                                     else fsFlags s AND NOT FACTION_FLAG_AT_WAR),
                         fsNeedSend := True, fsNeedSave := True\<rparr>) rm)"

definition SetAtWar :: "u32 \<Rightarrow> bool \<Rightarrow> repMgr \<Rightarrow> repMgr" where
  "SetAtWar repListID on rm =
     (case map_of (rmFactions rm) repListID of
        None \<Rightarrow> rm
      | Some s \<Rightarrow>
          if fsFlags s AND (FACTION_FLAG_INVISIBLE_FORCED OR FACTION_FLAG_HIDDEN) \<noteq> 0 then rm
          else SetAtWar_at repListID on rm)"

definition SetInactive_at :: "u32 \<Rightarrow> bool \<Rightarrow> repMgr \<Rightarrow> repMgr" where
  "SetInactive_at k inactive = at_state k (\<lambda>s rm.
     if inactive \<and> (fsFlags s AND (FACTION_FLAG_INVISIBLE_FORCED OR FACTION_FLAG_HIDDEN) \<noteq> 0 \<or>
                    fsFlags s AND FACTION_FLAG_VISIBLE = 0) then rm
     else if (fsFlags s AND FACTION_FLAG_INACTIVE \<noteq> 0) = inactive then rm
     else put_state k (s\<lparr>fsFlags := (if inactive then fsFlags s OR FACTION_FLAG_INACTIVE
                                     else fsFlags s AND NOT FACTION_FLAG_INACTIVE),
                         fsNeedSend := True, fsNeedSave := True\<rparr>) rm)"

definition SetInactive :: "u32 \<Rightarrow> bool \<Rightarrow> repMgr \<Rightarrow> repMgr" where
  "SetInactive repListID on rm =
     (case map_of (rmFactions rm) repListID of None \<Rightarrow> rm | Some s \<Rightarrow> SetInactive_at repListID on rm)"

section \<open>Initialization\<close>

definition init_faction :: "'f repWorld \<Rightarrow> nat \<Rightarrow> repMgr \<Rightarrow> repMgr" where
  "init_faction W i rm =
     (case LookupFaction W (of_nat i) of
        None \<Rightarrow> rm
      | Some e \<Rightarrow>
          if feListID e \<ge> 0 then
            let s = \<lparr>fsID = feID e, fsListID = fe_key e, fsStanding = 0,
                     fsFlags = ucast (GetDefaultStateFlags W (Some e)), fsNeedSend = True, fsNeedSave = True\<rparr>;
                rm = (if fsFlags s AND FACTION_FLAG_VISIBLE \<noteq> 0 then rm\<lparr>rmVisible := rmVisible rm + 1\<rparr> else rm);
                rm = UpdateRankCounters REP_HOSTILE (GetBaseRank W (Some e)) rm
            in put_state (fsListID s) s rm
          else rm)"

definition Initialize :: "'f repWorld \<Rightarrow> repMgr \<Rightarrow> repMgr" where
  "Initialize W rm =
     fold (init_faction W) [1..<numFactions W]
       (rm\<lparr>rmFactions := [], rmVisible := 0, rmHonored := 0, rmRevered := 0, rmExalted := 0, rmIncreased := False\<rparr>)"

section \<open>Changing a reputation\<close>

definition SetOneFactionReputation :: "'f repWorld \<Rightarrow> 'f factionEntry option \<Rightarrow> int \<Rightarrow> bool \<Rightarrow> repMgr \<Rightarrow> (bool \<times> repMgr) option" where
  "SetOneFactionReputation W factionEntry standing incremental rm =
     (case factionEntry of
        None \<Rightarrow> None
      | Some e \<Rightarrow>
          (case map_of (rmFactions rm) (fe_key e) of
             None \<Rightarrow> Some (False, rm)
           | Some s \<Rightarrow>
               let k = fe_key e;
                   BaseRep = GetBaseReputation W (Some e);
                   standing = (if incremental
                     then as_int32 (roundHalf W (fmul W (fromInt W standing) (rateGain W)) + (fsStanding s + BaseRep))
                     else standing);
                   standing = (if standing > Reputation_Cap then Reputation_Cap
                     else if standing < Reputation_Bottom then Reputation_Bottom else standing);
                   old_rank = ReputationToRank (fsStanding s + BaseRep);
                   new_rank = ReputationToRank standing;
                   rm = put_state k (s\<lparr>fsStanding := standing - BaseRep, fsNeedSend := True, fsNeedSave := True\<rparr>) rm;
                   rm = SetVisible_at W k rm;
                   rm = (if new_rank \<le> REP_HOSTILE then SetAtWar_at k True rm else rm);
                   rm = (if new_rank > old_rank then rm\<lparr>rmIncreased := True\<rparr> else rm);
                   rm = rep_emit (OnReputationChange (feID e) standing incremental) rm;
                   rm = (if new_rank \<noteq> old_rank
                         then rep_emit (OnReputationRankChange (feID e) new_rank old_rank (rmIncreased rm)) rm else rm);
                   rm = UpdateRankCounters old_rank new_rank rm;
                   rm = rep_emit (ReputationChanged (feID e)) rm;
                   rm = fold (\<lambda>a. rep_emit (AchievementUpdate a (feID e)))
                     [''KNOWN_FACTIONS'', ''GAIN_REPUTATION'', ''GAIN_EXALTED_REPUTATION'', ''GAIN_REVERED_REPUTATION'',
                      ''GAIN_HONORED_REPUTATION''] rm
               in Some (True, rm)))"

text \<open>The spill-over of a template: its factions, rates and highest ranks.\<close>

fun spill_template :: "'f repWorld \<Rightarrow> int \<Rightarrow> bool \<Rightarrow> (u32 \<times> 'f \<times> u32) list \<Rightarrow> repMgr \<Rightarrow> repMgr option" where
  "spill_template W standing incremental [] rm = Some rm"
| "spill_template W standing incremental ((faction, rate, rank) # ts) rm =
     (if faction \<noteq> 0 \<and> GetRank W (LookupFaction W faction) rm \<le> unat rank then
        do {
          (_, rm) \<leftarrow> SetOneFactionReputation W (LookupFaction W faction)
                      (toInt W (fmul W (fromInt W standing) rate)) incremental rm;
          spill_template W standing incremental ts rm
        }
      else spill_template W standing incremental ts rm)"

text \<open>The spill-over to a list of factions.\<close>

fun spill_list :: "'f repWorld \<Rightarrow> 'f factionEntry \<Rightarrow> 'f \<Rightarrow> bool \<Rightarrow> u32 list \<Rightarrow> bool \<times> repMgr \<Rightarrow> (bool \<times> repMgr) option" where
  "spill_list W e out incremental [] r = Some r"
| "spill_list W e out incremental (i # is) (res, rm) =
     (case LookupFaction W i of
        None \<Rightarrow> spill_list W e out incremental is (res, rm)
      | Some c \<Rightarrow>
          if c = e \<or> GetRank W (Some c) rm > unat (feMaxRankIn c) then spill_list W e out incremental is (res, rm)
          else
            let spilloverRep = toInt W (fmul W out (feRateIn c))
            in if spilloverRep \<noteq> 0 \<or> \<not> incremental then
                 do {
                   r \<leftarrow> SetOneFactionReputation W (Some c) spilloverRep incremental rm;
                   spill_list W e out incremental is r
                 }
               else spill_list W e out incremental is (res, rm))"

text \<open>The spill-over without a template: the list that receives it, after a parent that keeps it.\<close>

definition spill_dbc :: "'f repWorld \<Rightarrow> 'f factionEntry \<Rightarrow> int \<Rightarrow> bool \<Rightarrow> repMgr \<Rightarrow> (bool \<times> repMgr) option" where
  "spill_dbc W e standing incremental rm =
     (let out = fromInt W standing;
          flist = factionTeamList W (feID e)
      in do {
        (out, flist, rm) \<leftarrow>
          (if flist = None \<and> feTeam e \<noteq> 0 \<and> \<not> isZero W (feRateOut e) then
             let out = fmul W out (feRateOut e)
             in case LookupFaction W (feTeam e) of
                  None \<Rightarrow> Some (out, flist, rm)
                | Some parent \<Rightarrow>
                    (case map_of (rmFactions rm) (fe_key parent) of
                       Some s \<Rightarrow>
                         if fsFlags s AND FACTION_FLAG_SPECIAL \<noteq> 0 then
                           do {
                             (_, rm) \<leftarrow> SetOneFactionReputation W (Some parent) (toInt W out) incremental rm;
                             Some (out, flist, rm)
                           }
                         else Some (out, factionTeamList W (feTeam e), rm)
                     | None \<Rightarrow> Some (out, factionTeamList W (feTeam e), rm))
           else Some (out, flist, rm));
        (case flist of
           None \<Rightarrow> Some (False, rm)
         | Some ids \<Rightarrow> spill_list W e out incremental ids (False, rm))
      })"

definition SetReputation_spill :: "'f repWorld \<Rightarrow> 'f factionEntry \<Rightarrow> int \<Rightarrow> bool \<Rightarrow> bool \<Rightarrow> repMgr \<Rightarrow> (bool \<times> repMgr) option" where
  "SetReputation_spill W e standing incremental spillOverOnly rm =
     do {
       (res, rm) \<leftarrow>
         (case repSpillover W (feID e) of
            Some t \<Rightarrow> do { rm \<leftarrow> spill_template W standing incremental t rm; Some (False, rm) }
          | None \<Rightarrow> spill_dbc W e standing incremental rm);
       (case map_of (rmFactions rm) (fe_key e) of
          None \<Rightarrow> Some (res, rm)
        | Some _ \<Rightarrow>
            do {
              (res, rm) \<leftarrow> (if \<not> spillOverOnly then SetOneFactionReputation W (Some e) standing incremental rm
                             else Some (res, rm));
              Some (res, at_state (fe_key e) SendState rm)
            })
     }"

definition SetReputation :: "'f repWorld \<Rightarrow> 'f factionEntry \<Rightarrow> int \<Rightarrow> repMgr \<Rightarrow> (bool \<times> repMgr) option" where
  "SetReputation W e standing rm = SetReputation_spill W e standing False False rm"

definition ModifyReputation :: "'f repWorld \<Rightarrow> 'f factionEntry \<Rightarrow> int \<Rightarrow> bool \<Rightarrow> repMgr \<Rightarrow> (bool \<times> repMgr) option" where
  "ModifyReputation W e standing spillOverOnly rm = SetReputation_spill W e standing True spillOverOnly rm"

section \<open>The database\<close>

record repRow =
  rrFaction :: u16
  rrStanding :: int
  rrFlags :: u16

definition load_faction :: "'f repWorld \<Rightarrow> repRow \<Rightarrow> repMgr \<Rightarrow> repMgr" where
  "load_faction W r rm =
     (case LookupFaction W (ucast (rrFaction r)) of
        None \<Rightarrow> rm
      | Some e \<Rightarrow>
          if feListID e \<ge> 0 then
            let k = fe_key e;
                s = (case map_of (rmFactions rm) k of Some s \<Rightarrow> s | None \<Rightarrow> factionState0);
                rm = put_state k (s\<lparr>fsStanding := rrStanding r\<rparr>) rm;
                BaseRep = GetBaseReputation W (Some e);
                old_rank = ReputationToRank BaseRep;
                new_rank = ReputationToRank (BaseRep + rrStanding r);
                rm = UpdateRankCounters old_rank new_rank rm;
                dbFactionFlags = (ucast (rrFlags r) :: u32);
                rm = (if dbFactionFlags AND ucast FACTION_FLAG_VISIBLE \<noteq> 0 then SetVisible_at W k rm else rm);
                rm = (if dbFactionFlags AND ucast FACTION_FLAG_INACTIVE \<noteq> 0 then SetInactive_at k True rm else rm);
                rm = (if dbFactionFlags AND ucast FACTION_FLAG_AT_WAR \<noteq> 0
                      then SetAtWar_at k (dbFactionFlags AND ucast FACTION_FLAG_HIDDEN = 0 \<or>
                             GetRank W (Some e) rm < REP_NEUTRAL) rm
                      else at_state k (\<lambda>s rm. if fsFlags s AND FACTION_FLAG_VISIBLE \<noteq> 0
                                              then SetAtWar_at k False rm else rm) rm);
                rm = (if GetRank W (Some e) rm \<le> REP_HOSTILE then SetAtWar_at k True rm else rm)
            in at_state k (\<lambda>s rm. if ucast (fsFlags s) = dbFactionFlags
                                  then put_state k (s\<lparr>fsNeedSend := False, fsNeedSave := False\<rparr>) rm else rm) rm
          else rm)"

definition LoadFromDB :: "'f repWorld \<Rightarrow> repRow list option \<Rightarrow> repMgr \<Rightarrow> repMgr" where
  "LoadFromDB W result rm =
     (let rm = Initialize W rm
      in case result of None \<Rightarrow> rm | Some rows \<Rightarrow> fold (load_faction W) rows rm)"

fun save_loop :: "'f repWorld \<Rightarrow> (u32 \<times> factionState) list \<Rightarrow> repEffect list \<times> (u32 \<times> factionState) list" where
  "save_loop W [] = ([], [])"
| "save_loop W ((k, s) # m) =
     (case save_loop W m of (es, m') \<Rightarrow>
        if fsNeedSave s then
          (DelReputation (guidLow W) (ucast (fsID s)) #
           InsReputation (guidLow W) (ucast (fsID s)) (fsStanding s) (ucast (fsFlags s)) # es,
           (k, s\<lparr>fsNeedSave := False\<rparr>) # m')
        else (es, (k, s) # m'))"

definition SaveToDB :: "'f repWorld \<Rightarrow> repMgr \<Rightarrow> repMgr" where
  "SaveToDB W rm =
     (case save_loop W (rmFactions rm) of (es, m) \<Rightarrow> rm\<lparr>rmFactions := m, rmOut := rmOut rm @ es\<rparr>)"

end
