(* ===== verification/ReputationInv.thy ===== *)
theory ReputationInv
  imports Reputation
begin

text \<open>
  The invariant of a reputation manager: the factions in key order, each under the list id of
  its entry in the faction store, and the four counters equal to the numbers they count,
  modulo 256. Every operation keeps it.
\<close>

section \<open>Counting states\<close>

definition ind :: "bool \<Rightarrow> u8" where
  "ind b = (if b then 1 else 0)"

text \<open>How many states satisfy a predicate, in the counters' eight bits.\<close>

fun tally :: "('v \<Rightarrow> bool) \<Rightarrow> ('k \<times> 'v) list \<Rightarrow> u8" where
  "tally P [] = 0"
| "tally P (x # m) = ind (P (snd x)) + tally P m"

lemma tally_count: "tally P m = of_nat (length (filter (\<lambda>x. P (snd x)) m))"
  by (induction m) (auto simp: ind_def)

lemma tally_put_new: "map_of m k = None \<Longrightarrow> tally P (smap_put k v m) = tally P m + ind (P v)"
  by (induction k v m rule: smap_put.induct) (auto split: if_splits)

lemma tally_put:
  "key_sorted m \<Longrightarrow> map_of m k = Some w \<Longrightarrow> tally P (smap_put k v m) = tally P m - ind (P w) + ind (P v)"
proof (induction k v m rule: smap_put.induct)
  case (2 k v k' v' m)
  have "k \<noteq> k' \<Longrightarrow> \<not> k < k'"
  proof
    assume "k \<noteq> k'" "k < k'"
    with 2(3) have "(k, w) \<in> set m" by (auto dest: map_of_SomeD)
    with 2(2) have "k' < k" by (auto simp: key_sorted_def)
    with \<open>k < k'\<close> show False by simp
  qed
  with 2 show ?case by (auto simp: key_sorted_def)
qed simp

lemma tally_map: "(\<And>s. P (f s) = P s) \<Longrightarrow> tally P (map (\<lambda>(k, s). (k, f s)) m) = tally P m"
  by (induction m) auto

section \<open>The faction store\<close>

text \<open>
  What the manager relies on in the store: an entry is found under its own id, the ids are
  those the store is filled with, and no two entries have one list id; -1 is no list id.
\<close>

definition store_ok :: "'f repWorld \<Rightarrow> bool" where
  "store_ok W \<longleftrightarrow>
     (\<forall>i e. LookupFaction W i = Some e \<longrightarrow> feID e = i \<and> 0 < unat i \<and> unat i < numFactions W \<and>
        -1 \<le> feListID e \<and> feListID e < 2 ^ 31) \<and>
     (\<forall>i j e e'. LookupFaction W i = Some e \<longrightarrow> LookupFaction W j = Some e' \<longrightarrow>
        0 \<le> feListID e \<longrightarrow> feListID e = feListID e' \<longrightarrow> e = e')"

definition in_store :: "'f repWorld \<Rightarrow> 'f factionEntry \<Rightarrow> bool" where
  "in_store W e = (LookupFaction W (feID e) = Some e)"

lemma store_entry:
  assumes "store_ok W" "LookupFaction W i = Some e"
  shows "in_store W e" "feID e = i" "0 < unat i" "unat i < numFactions W" "-1 \<le> feListID e" "feListID e < 2 ^ 31"
  using assms by (auto simp: store_ok_def in_store_def)

lemma fe_key_inj:
  assumes W: "store_ok W" and e: "in_store W e" "in_store W e'" and k: "fe_key e = fe_key e'" and z: "0 \<le> feListID e"
  shows "e' = e"
proof -
  have b: "feListID e < 2 ^ 31" "-1 \<le> feListID e'" "feListID e' < 2 ^ 31"
    using store_entry [OF W] e by (auto simp: in_store_def)
  have "uint (fe_key e) = feListID e" using b z by (simp add: fe_key_def unsigned_of_int take_bit_int_eq_self)
  moreover have "uint (fe_key e') = feListID e'" if "0 \<le> feListID e'"
    using b that by (simp add: fe_key_def unsigned_of_int take_bit_int_eq_self)
  moreover have "uint (fe_key e') = 2 ^ 32 - 1" if "feListID e' = -1"
    using that by (simp add: fe_key_def unsigned_minus_1_eq_mask mask_eq_exp_minus_1)
  ultimately have "feListID e' = feListID e" using b k z by (cases "feListID e' = -1") auto
  with W e z show ?thesis unfolding store_ok_def in_store_def by metis
qed

section \<open>The invariant\<close>

definition st_rank :: "'f repWorld \<Rightarrow> factionState \<Rightarrow> reputationRank" where
  "st_rank W s = ReputationToRank (GetBaseReputation W (LookupFaction W (fsID s)) + fsStanding s)"

definition visible :: "factionState \<Rightarrow> bool" where
  "visible s = (fsFlags s AND FACTION_FLAG_VISIBLE \<noteq> 0)"

definition states_ok :: "'f repWorld \<Rightarrow> repMgr \<Rightarrow> bool" where
  "states_ok W rm \<longleftrightarrow> key_sorted (rmFactions rm) \<and>
     (\<forall>k s. map_of (rmFactions rm) k = Some s \<longrightarrow> fsListID s = k \<and>
        (\<exists>e. LookupFaction W (fsID s) = Some e \<and> 0 \<le> feListID e \<and> fe_key e = k))"

definition counters_ok :: "'f repWorld \<Rightarrow> repMgr \<Rightarrow> bool" where
  "counters_ok W rm \<longleftrightarrow> rmVisible rm = tally visible (rmFactions rm) \<and>
     rmHonored rm = tally (\<lambda>s. st_rank W s \<ge> REP_HONORED) (rmFactions rm) \<and>
     rmRevered rm = tally (\<lambda>s. st_rank W s \<ge> REP_REVERED) (rmFactions rm) \<and>
     rmExalted rm = tally (\<lambda>s. st_rank W s \<ge> REP_EXALTED) (rmFactions rm)"

definition rep_inv :: "'f repWorld \<Rightarrow> repMgr \<Rightarrow> bool" where
  "rep_inv W rm \<longleftrightarrow> states_ok W rm \<and> counters_ok W rm"

text \<open>Managers that differ in nothing the invariant reads.\<close>

lemma inv_fields [simp]:
  "rep_inv W (rep_emit e rm) = rep_inv W rm" "rep_inv W (rm\<lparr>rmIncreased := b\<rparr>) = rep_inv W rm"
  "rep_inv W (rm\<lparr>rmForced := f\<rparr>) = rep_inv W rm" "rep_inv W (rm\<lparr>rmOut := out\<rparr>) = rep_inv W rm"
  "rmFactions (rep_emit e rm) = rmFactions rm"
  by (simp_all add: rep_inv_def states_ok_def counters_ok_def rep_emit_def)

lemma UpdateRankCounters_fields [simp]:
  "rmFactions (UpdateRankCounters a b rm) = rmFactions rm" "rmVisible (UpdateRankCounters a b rm) = rmVisible rm"
  "rmHonored (UpdateRankCounters a b rm) = rmHonored rm - ind (a \<ge> REP_HONORED) + ind (b \<ge> REP_HONORED)"
  "rmRevered (UpdateRankCounters a b rm) = rmRevered rm - ind (a \<ge> REP_REVERED) + ind (b \<ge> REP_REVERED)"
  "rmExalted (UpdateRankCounters a b rm) = rmExalted rm - ind (a \<ge> REP_EXALTED) + ind (b \<ge> REP_EXALTED)"
  by (simp_all add: UpdateRankCounters_def ind_def Let_def)

lemma put_state_fields [simp]:
  "rmFactions (put_state k s rm) = smap_put k s (rmFactions rm)" "rmVisible (put_state k s rm) = rmVisible rm"
  "rmHonored (put_state k s rm) = rmHonored rm" "rmRevered (put_state k s rm) = rmRevered rm"
  "rmExalted (put_state k s rm) = rmExalted rm" "rmIncreased (put_state k s rm) = rmIncreased rm"
  by (simp_all add: put_state_def)

lemma states_ok_put:
  assumes "states_ok W rm" "fsListID s = k" "LookupFaction W (fsID s) = Some e" "0 \<le> feListID e" "fe_key e = k"
  shows "states_ok W (put_state k s rm)"
  using assms by (auto simp: states_ok_def key_sorted_put)

text \<open>A change of flags that keeps the visible bit, and of the pending flags.\<close>

lemma inv_put_flags:
  assumes i: "rep_inv W rm" and s: "map_of (rmFactions rm) k = Some s"
    and t: "fsID t = fsID s" "fsListID t = fsListID s" "fsStanding t = fsStanding s" "visible t = visible s"
  shows "rep_inv W (put_state k t rm)"
proof -
  have r: "st_rank W t = st_rank W s" using t by (simp add: st_rank_def)
  have "key_sorted (rmFactions rm)" using i by (simp add: rep_inv_def states_ok_def)
  from tally_put [OF this s] have "tally P (smap_put k t (rmFactions rm)) = tally P (rmFactions rm)"
    if "P t = P s" for P using that by simp
  then have "counters_ok W (put_state k t rm)" using i r t(4) by (simp add: rep_inv_def counters_ok_def)
  moreover have "states_ok W (put_state k t rm)"
    using i s t by (auto simp: rep_inv_def states_ok_def key_sorted_put)
  ultimately show ?thesis by (simp add: rep_inv_def)
qed

lemma flag_bit_simps:
  "visible (s\<lparr>fsFlags := fsFlags s OR FACTION_FLAG_AT_WAR, fsNeedSend := a, fsNeedSave := b\<rparr>) = visible s"
  "visible (s\<lparr>fsFlags := fsFlags s AND NOT FACTION_FLAG_AT_WAR, fsNeedSend := a, fsNeedSave := b\<rparr>) = visible s"
  "visible (s\<lparr>fsFlags := fsFlags s OR FACTION_FLAG_INACTIVE, fsNeedSend := a, fsNeedSave := b\<rparr>) = visible s"
  "visible (s\<lparr>fsFlags := fsFlags s AND NOT FACTION_FLAG_INACTIVE, fsNeedSend := a, fsNeedSave := b\<rparr>) = visible s"
  "visible (s\<lparr>fsFlags := fsFlags s OR FACTION_FLAG_VISIBLE, fsNeedSend := a, fsNeedSave := b\<rparr>)"
proof -
  have v: "visible t \<longleftrightarrow> bit (fsFlags t) 0" for t
    using and_push_bit_1 [of "fsFlags t" 0] by (simp add: visible_def faction_flags)
  have b: "\<not> bit (2 :: u8) 0" "\<not> bit (32 :: u8) 0" "bit (1 :: u8) 0"
    using bit_exp_word [of 1 0, where 'a = 8] bit_exp_word [of 5 0, where 'a = 8] by auto
  show "visible (s\<lparr>fsFlags := fsFlags s OR FACTION_FLAG_AT_WAR, fsNeedSend := a, fsNeedSave := b\<rparr>) = visible s"
    "visible (s\<lparr>fsFlags := fsFlags s AND NOT FACTION_FLAG_AT_WAR, fsNeedSend := a, fsNeedSave := b\<rparr>) = visible s"
    "visible (s\<lparr>fsFlags := fsFlags s OR FACTION_FLAG_INACTIVE, fsNeedSend := a, fsNeedSave := b\<rparr>) = visible s"
    "visible (s\<lparr>fsFlags := fsFlags s AND NOT FACTION_FLAG_INACTIVE, fsNeedSend := a, fsNeedSave := b\<rparr>) = visible s"
    "visible (s\<lparr>fsFlags := fsFlags s OR FACTION_FLAG_VISIBLE, fsNeedSend := a, fsNeedSave := b\<rparr>)"
    unfolding v by (simp_all add: faction_flags b bit_or_iff bit_and_iff bit_not_iff)
qed

lemma inv_war: "rep_inv W rm \<Longrightarrow> rep_inv W (SetAtWar_at k b rm)"
  by (auto simp: SetAtWar_at_def at_state_def flag_bit_simps intro!: inv_put_flags split: option.split)

lemma inv_inactive: "rep_inv W rm \<Longrightarrow> rep_inv W (SetInactive_at k b rm)"
  by (auto simp: SetInactive_at_def at_state_def flag_bit_simps intro!: inv_put_flags split: option.split)

lemma inv_visible:
  assumes "rep_inv W rm" shows "rep_inv W (SetVisible_at V k rm)"
proof (cases "map_of (rmFactions rm) k")
  case None
  then show ?thesis using assms by (simp add: SetVisible_at_def at_state_def)
next
  case (Some s)
  let ?t = "s\<lparr>fsFlags := fsFlags s OR FACTION_FLAG_VISIBLE, fsNeedSend := True, fsNeedSave := True\<rparr>"
  have k: "key_sorted (rmFactions rm)" using assms by (simp add: rep_inv_def states_ok_def)
  have "rep_inv W (put_state k ?t rm\<lparr>rmVisible := rmVisible rm + 1\<rparr>)" if "\<not> visible s"
  proof -
    have "st_rank W ?t = st_rank W s" by (simp add: st_rank_def)
    then have "counters_ok W (put_state k ?t rm\<lparr>rmVisible := rmVisible rm + 1\<rparr>)"
      using assms that tally_put [OF k Some] flag_bit_simps(5) [where s = s and a = True and b = True]
      by (simp add: rep_inv_def counters_ok_def ind_def)
    moreover have "states_ok W (put_state k ?t rm)"
      using assms Some by (auto simp: rep_inv_def states_ok_def key_sorted_put)
    ultimately show ?thesis by (simp add: rep_inv_def states_ok_def)
  qed
  then show ?thesis using assms Some
    by (auto simp: SetVisible_at_def at_state_def Let_def SendVisible_def visible_def)
qed

section \<open>Senders and saving\<close>

lemma send_state_loop_map:
  "snd (snd (send_state_loop own n m)) = map (\<lambda>(k, s). (k, s\<lparr>fsNeedSend := False\<rparr>)) m"
  by (induction m arbitrary: n) (auto simp: Let_def case_prod_unfold)

lemma save_loop_map: "snd (save_loop W m) = map (\<lambda>(k, s). (k, s\<lparr>fsNeedSave := False\<rparr>)) m"
  by (induction m) (auto simp: case_prod_unfold)

text \<open>Clearing a pending flag everywhere.\<close>

lemma inv_map:
  assumes i: "rep_inv W rm" and f: "\<And>s. fsID (f s) = fsID s \<and> fsListID (f s) = fsListID s \<and>
      fsStanding (f s) = fsStanding s \<and> fsFlags (f s) = fsFlags s"
  shows "rep_inv W (rm\<lparr>rmFactions := map (\<lambda>(k, s). (k, f s)) (rmFactions rm)\<rparr>)"
proof -
  have keys: "fst \<circ> (\<lambda>(k, s). (k, f s)) = (fst :: u32 \<times> factionState \<Rightarrow> u32)" by auto
  have look: "map_of (map (\<lambda>(k, s). (k, f s)) m) k = map_option f (map_of m k)" for m :: "(u32 \<times> factionState) list" and k
    by (induction m) auto
  have "states_ok W (rm\<lparr>rmFactions := map (\<lambda>(k, s). (k, f s)) (rmFactions rm)\<rparr>)"
    using i f by (auto simp: rep_inv_def states_ok_def key_sorted_def keys look)
  moreover have "counters_ok W (rm\<lparr>rmFactions := map (\<lambda>(k, s). (k, f s)) (rmFactions rm)\<rparr>)"
  proof -
    have "visible (f s) = visible s" "st_rank W (f s) = st_rank W s" for s using f by (simp_all add: visible_def st_rank_def)
    then show ?thesis using i
      by (simp add: rep_inv_def counters_ok_def tally_map [of visible f] tally_map [of "\<lambda>s. st_rank W s \<ge> r" f for r])
  qed
  ultimately show ?thesis by (simp add: rep_inv_def)
qed

lemma SendState_factions: "rmFactions (SendState s rm) = map (\<lambda>(k, s). (k, s\<lparr>fsNeedSend := False\<rparr>)) (rmFactions rm)"
  using send_state_loop_map [of "fsListID s" 1 "rmFactions rm"]
  by (auto simp: SendState_def Let_def split: prod.split)

lemma inv_send:
  assumes "rep_inv W rm" shows "rep_inv W (SendState s rm)"
proof -
  obtain fs n m where r: "send_state_loop (fsListID s) 1 (rmFactions rm) = (fs, n, m)" by (metis surj_pair)
  then have "m = map (\<lambda>(k, s). (k, s\<lparr>fsNeedSend := False\<rparr>)) (rmFactions rm)"
    using send_state_loop_map [of "fsListID s" 1 "rmFactions rm"] by simp
  moreover have "rep_inv W (rm\<lparr>rmFactions := m'\<rparr>) = rep_inv W (rm\<lparr>rmIncreased := b, rmFactions := m'\<rparr>)" for m' b
    by (simp add: rep_inv_def states_ok_def counters_ok_def)
  ultimately show ?thesis using inv_map [OF assms, of "\<lambda>s. s\<lparr>fsNeedSend := False\<rparr>"] r
    by (simp add: SendState_def Let_def)
qed

lemma inv_at_send: "rep_inv W rm \<Longrightarrow> rep_inv W (at_state k SendState rm)"
  by (simp add: at_state_def inv_send split: option.split)

lemma inv_send_states: "rep_inv W rm \<Longrightarrow> rep_inv W (send_states_loop ks rm)"
  by (induction ks arbitrary: rm) (auto simp: inv_send split: option.split)

lemma inv_initial: "rep_inv W rm \<Longrightarrow> rep_inv W (SendInitialReputations rm)"
  using inv_map [of W rm "\<lambda>s. s\<lparr>fsNeedSend := False\<rparr>"]
  by (simp add: SendInitialReputations_def split: prod.split)

lemma inv_save:
  assumes "rep_inv W rm" shows "rep_inv W (SaveToDB V rm)"
proof -
  obtain es m where r: "save_loop V (rmFactions rm) = (es, m)" by fastforce
  then have "m = map (\<lambda>(k, s). (k, s\<lparr>fsNeedSave := False\<rparr>)) (rmFactions rm)"
    using save_loop_map [of V "rmFactions rm"] by simp
  with inv_map [OF assms, of "\<lambda>s. s\<lparr>fsNeedSave := False\<rparr>"] r show ?thesis by (simp add: SaveToDB_def)
qed

section \<open>Initialization\<close>

lemma inv_init_faction:
  assumes W: "store_ok W" and i: "rep_inv W rm"
    and new: "\<And>e. LookupFaction W (of_nat i) = Some e \<Longrightarrow> 0 \<le> feListID e \<Longrightarrow> map_of (rmFactions rm) (fe_key e) = None"
  shows "rep_inv W (init_faction W i rm)"
proof (cases "LookupFaction W (of_nat i)")
  case None
  then show ?thesis using i by (simp add: init_faction_def)
next
  case (Some e)
  let ?s = "\<lparr>fsID = feID e, fsListID = fe_key e, fsStanding = 0,
      fsFlags = ucast (GetDefaultStateFlags W (Some e)), fsNeedSend = True, fsNeedSave = True\<rparr>"
  show ?thesis
  proof (cases "0 \<le> feListID e")
    case True
    have e: "LookupFaction W (feID e) = Some e" using store_entry [OF W Some] by (simp add: in_store_def)
    have rank: "st_rank W ?s = GetBaseRank W (Some e)" using e by (simp add: st_rank_def GetBaseRank_def)
    let ?rm = "put_state (fe_key e) ?s (UpdateRankCounters REP_HOSTILE (GetBaseRank W (Some e))
       (if visible ?s then rm\<lparr>rmVisible := rmVisible rm + 1\<rparr> else rm))"
    have "init_faction W i rm = ?rm" using Some True by (simp add: init_faction_def Let_def visible_def)
    moreover have "counters_ok W ?rm"
      using i tally_put_new [OF new [OF Some True], where v = ?s] rank
      by (simp add: rep_inv_def counters_ok_def ind_def rep_ranks)
    moreover have "states_ok W ?rm"
      using i True e by (intro states_ok_put) (auto simp: rep_inv_def states_ok_def)
    ultimately show ?thesis by (simp add: rep_inv_def)
  qed (use i Some in \<open>simp add: init_faction_def\<close>)
qed

lemma init_faction_keys:
  "map_of (rmFactions (init_faction W i rm)) k = (case LookupFaction W (of_nat i) of
     Some e \<Rightarrow> if 0 \<le> feListID e \<and> k = fe_key e
       then Some \<lparr>fsID = feID e, fsListID = fe_key e, fsStanding = 0,
         fsFlags = ucast (GetDefaultStateFlags W (Some e)), fsNeedSend = True, fsNeedSave = True\<rparr>
       else map_of (rmFactions rm) k
   | None \<Rightarrow> map_of (rmFactions rm) k)"
  by (auto simp: init_faction_def Let_def split: option.split)

lemma of_nat_u32_inj:
  assumes "(of_nat i :: u32) = of_nat j" "i < 2 ^ 32" "j < 2 ^ 32" shows "i = j"
  using arg_cong [OF assms(1), of unat, unfolded unat_of_nat] assms(2,3) by simp

text \<open>The factions of a list of ids, all at their base.\<close>

definition initialized :: "'f repWorld \<Rightarrow> nat set \<Rightarrow> repMgr \<Rightarrow> bool" where
  "initialized W is rm \<longleftrightarrow> (\<forall>k s. map_of (rmFactions rm) k = Some s \<longrightarrow> fsStanding s = 0 \<and>
       (\<exists>i e. i \<in> is \<and> LookupFaction W (of_nat i) = Some e \<and> 0 \<le> feListID e \<and> k = fe_key e)) \<and>
     (\<forall>i\<in>is. \<forall>e. LookupFaction W (of_nat i) = Some e \<longrightarrow> 0 \<le> feListID e \<longrightarrow> map_of (rmFactions rm) (fe_key e) \<noteq> None)"

lemma init_fold:
  assumes W: "store_ok W"
  shows "distinct is \<Longrightarrow> set is \<inter> done = {} \<Longrightarrow> \<forall>i\<in>set is \<union> done. i < 2 ^ 32 \<Longrightarrow> rep_inv W rm \<Longrightarrow> initialized W done rm \<Longrightarrow>
    rep_inv W (fold (init_faction W) is rm) \<and> initialized W (set is \<union> done) (fold (init_faction W) is rm)"
proof (induction "is" arbitrary: "done" rm)
  case (Cons i "is")
  have new: "map_of (rmFactions rm) (fe_key e) = None" if e: "LookupFaction W (of_nat i) = Some e" "0 \<le> feListID e" for e
  proof (rule ccontr)
    assume "\<not> ?thesis"
    then obtain s where "map_of (rmFactions rm) (fe_key e) = Some s" by blast
    then obtain j e' where j: "j \<in> done" "LookupFaction W (of_nat j) = Some e'" "0 \<le> feListID e'" "fe_key e = fe_key e'"
      using Cons.prems(5) unfolding initialized_def by blast
    have "e' = e" using fe_key_inj [OF W _ _ j(4) e(2)] store_entry(1) [OF W] e j by blast
    then have "(of_nat i :: u32) = of_nat j" using store_entry(2) [OF W e(1)] store_entry(2) [OF W j(2)] by simp
    moreover have "i < 2 ^ 32" "j < 2 ^ 32" using Cons.prems(3) j(1) by auto
    ultimately have "i = j" by (rule of_nat_u32_inj)
    with Cons.prems(2) j(1) show False by auto
  qed
  have "rep_inv W (init_faction W i rm)" using inv_init_faction [OF W Cons.prems(4)] new by blast
  moreover have "initialized W (insert i done) (init_faction W i rm)"
    using Cons.prems(5) unfolding initialized_def init_faction_keys
    by (auto split: option.splits if_splits) blast+
  ultimately show ?case using Cons.IH [of "insert i done" "init_faction W i rm"] Cons.prems by auto
qed simp

lemma inv_Initialize:
  assumes W: "store_ok W" and n: "numFactions W \<le> 2 ^ 32"
  shows "rep_inv W (Initialize W rm)" "initialized W {1..<numFactions W} (Initialize W rm)"
proof -
  let ?rm = "rm\<lparr>rmFactions := [], rmVisible := 0, rmHonored := 0, rmRevered := 0, rmExalted := 0, rmIncreased := False\<rparr>"
  have "rep_inv W ?rm" "initialized W {} ?rm"
    by (simp_all add: rep_inv_def states_ok_def counters_ok_def key_sorted_def initialized_def)
  then show "rep_inv W (Initialize W rm)" "initialized W {1..<numFactions W} (Initialize W rm)"
    using init_fold [OF W, of "[1..<numFactions W]" "{}" ?rm] n by (auto simp: Initialize_def)
qed

section \<open>Changing a reputation\<close>

text \<open>The state of an entry of the store, and what its rank is.\<close>

lemma state_of_entry:
  assumes W: "store_ok W" and i: "states_ok W rm" and e: "in_store W e" and s: "map_of (rmFactions rm) (fe_key e) = Some s"
  shows "LookupFaction W (fsID s) = Some e" "fsListID s = fe_key e" "0 \<le> feListID e" "fsID s = feID e"
proof -
  from i s obtain e' where e': "LookupFaction W (fsID s) = Some e'" "0 \<le> feListID e'" "fe_key e' = fe_key e" "fsListID s = fe_key e"
    by (auto simp: states_ok_def)
  with fe_key_inj [OF W store_entry(1) [OF W e'(1)] e e'(3,2)] have "e = e'" by simp
  with e' show "LookupFaction W (fsID s) = Some e" "fsListID s = fe_key e" "0 \<le> feListID e" by simp_all
  then show "fsID s = feID e" using store_entry(2) [OF W] by metis
qed

definition rep_clamp :: "int \<Rightarrow> int" where
  "rep_clamp x = (if x > Reputation_Cap then Reputation_Cap else if x < Reputation_Bottom then Reputation_Bottom else x)"

text \<open>The reputation that \<^verbatim>\<open>SetOneFactionReputation\<close> aims at.\<close>

definition rep_target :: "'f repWorld \<Rightarrow> 'f factionEntry \<Rightarrow> int \<Rightarrow> bool \<Rightarrow> repMgr \<Rightarrow> int" where
  "rep_target W e standing incremental rm = rep_clamp (if incremental
     then as_int32 (roundHalf W (fmul W (fromInt W standing) (rateGain W)) + GetReputation W (Some e) rm) else standing)"

text \<open>No sum or difference of \<^verbatim>\<open>SetOneFactionReputation\<close> leaves the 32 bits.\<close>

definition set_one_fits :: "'f repWorld \<Rightarrow> 'f factionEntry \<Rightarrow> int \<Rightarrow> bool \<Rightarrow> repMgr \<Rightarrow> bool" where
  "set_one_fits W e standing incremental rm \<longleftrightarrow> int32_ok (GetReputation W (Some e) rm) \<and>
     int32_ok (Reputation_Cap - GetBaseReputation W (Some e)) \<and> int32_ok (Reputation_Bottom - GetBaseReputation W (Some e)) \<and>
     (if incremental then int32_ok (roundHalf W (fmul W (fromInt W standing) (rateGain W))) \<and>
        int32_ok (roundHalf W (fmul W (fromInt W standing) (rateGain W)) + GetReputation W (Some e) rm)
      else int32_ok standing)"

lemma rep_target_fits:
  assumes "set_one_fits W e standing incremental rm"
  shows "rep_target W e standing incremental rm = rep_clamp (if incremental
    then roundHalf W (fmul W (fromInt W standing) (rateGain W)) + GetReputation W (Some e) rm else standing)"
  using assms by (simp add: rep_target_def set_one_fits_def split: if_splits)

lemma inv_standing:
  assumes W: "store_ok W" and i: "rep_inv W rm" and s: "map_of (rmFactions rm) k = Some s"
    and r: "a = st_rank W s" "b = st_rank W t" and t: "fsID t = fsID s" "fsListID t = fsListID s" "fsFlags t = fsFlags s"
  shows "rep_inv W (UpdateRankCounters a b (put_state k t rm))"
proof -
  have k: "key_sorted (rmFactions rm)" using i by (simp add: rep_inv_def states_ok_def)
  have "counters_ok W (UpdateRankCounters a b (put_state k t rm))"
    using i r t(3) tally_put [OF k s, where v = t] by (simp add: rep_inv_def counters_ok_def visible_def)
  moreover have "states_ok W (UpdateRankCounters a b (put_state k t rm))"
    using i s t by (auto simp: rep_inv_def states_ok_def key_sorted_put)
  ultimately show ?thesis by (simp add: rep_inv_def)
qed

text \<open>The rank counters commute with the operations between the new standing and their update.\<close>

lemma UpdateRankCounters_record:
  "UpdateRankCounters a b rm = rm\<lparr>rmHonored := rmHonored rm - ind (a \<ge> REP_HONORED) + ind (b \<ge> REP_HONORED),
     rmRevered := rmRevered rm - ind (a \<ge> REP_REVERED) + ind (b \<ge> REP_REVERED),
     rmExalted := rmExalted rm - ind (a \<ge> REP_EXALTED) + ind (b \<ge> REP_EXALTED)\<rparr>"
  by (rule repMgr.equality) (simp_all add: UpdateRankCounters_def Let_def ind_def)

lemma counters_commute:
  "SetVisible_at W k (UpdateRankCounters a b rm) = UpdateRankCounters a b (SetVisible_at W k rm)"
  "SetAtWar_at k w (UpdateRankCounters a b rm) = UpdateRankCounters a b (SetAtWar_at k w rm)"
  "rep_emit x (UpdateRankCounters a b rm) = UpdateRankCounters a b (rep_emit x rm)"
  "(UpdateRankCounters a b rm)\<lparr>rmIncreased := i\<rparr> = UpdateRankCounters a b (rm\<lparr>rmIncreased := i\<rparr>)"
  "rmIncreased (UpdateRankCounters a b rm) = rmIncreased rm"
  unfolding UpdateRankCounters_record
  by (simp_all add: SetVisible_at_def SetAtWar_at_def at_state_def Let_def SendVisible_def put_state_def rep_emit_def
    split: option.split)

text \<open>Operations on one state leave the others alone and remove none.\<close>

definition same_but :: "u32 \<Rightarrow> repMgr \<Rightarrow> repMgr \<Rightarrow> bool" where
  "same_but k rm rm' \<longleftrightarrow> (\<forall>j. j \<noteq> k \<longrightarrow> map_of (rmFactions rm') j = map_of (rmFactions rm) j) \<and>
     (map_of (rmFactions rm) k \<noteq> None \<longrightarrow> map_of (rmFactions rm') k \<noteq> None)"

lemma same_but_refl [simp]: "same_but k rm rm"
  by (simp add: same_but_def)

lemma same_but_trans: "same_but k a b \<Longrightarrow> same_but k b c \<Longrightarrow> same_but k a c"
  by (auto simp: same_but_def)

lemma same_but_ops:
  "same_but k rm (put_state k s rm)" "same_but k rm (UpdateRankCounters a b rm)" "same_but k rm (rep_emit e rm)"
  "same_but k rm (SetVisible_at W k rm)" "same_but k rm (SetAtWar_at k w rm)" "same_but k rm (SetInactive_at k w rm)"
  by (auto simp: same_but_def SetVisible_at_def SetAtWar_at_def SetInactive_at_def at_state_def SendVisible_def Let_def
    split: option.split)

definition load_flags :: "'f repWorld \<Rightarrow> 'f factionEntry \<Rightarrow> u32 \<Rightarrow> u32 \<Rightarrow> repMgr \<Rightarrow> repMgr" where
  "load_flags W e k dbFactionFlags rm =
     (let rm = (if dbFactionFlags AND ucast FACTION_FLAG_VISIBLE \<noteq> 0 then SetVisible_at W k rm else rm);
          rm = (if dbFactionFlags AND ucast FACTION_FLAG_INACTIVE \<noteq> 0 then SetInactive_at k True rm else rm);
          rm = (if dbFactionFlags AND ucast FACTION_FLAG_AT_WAR \<noteq> 0
                then SetAtWar_at k (dbFactionFlags AND ucast FACTION_FLAG_HIDDEN = 0 \<or>
                       GetRank W (Some e) rm < REP_NEUTRAL) rm
                else at_state k (\<lambda>s rm. if fsFlags s AND FACTION_FLAG_VISIBLE \<noteq> 0
                                        then SetAtWar_at k False rm else rm) rm);
          rm = (if GetRank W (Some e) rm \<le> REP_HOSTILE then SetAtWar_at k True rm else rm)
      in at_state k (\<lambda>s rm. if ucast (fsFlags s) = dbFactionFlags
                            then put_state k (s\<lparr>fsNeedSend := False, fsNeedSave := False\<rparr>) rm else rm) rm)"

lemma load_steps:
  fixes P :: "repMgr \<Rightarrow> bool"
  assumes "P rm" and "\<And>rm. P rm \<Longrightarrow> P (SetVisible_at W k rm)" and "\<And>b rm. P rm \<Longrightarrow> P (SetAtWar_at k b rm)"
    and "\<And>b rm. P rm \<Longrightarrow> P (SetInactive_at k b rm)"
    and "\<And>s rm. P rm \<Longrightarrow> map_of (rmFactions rm) k = Some s \<Longrightarrow> P (put_state k (s\<lparr>fsNeedSend := False, fsNeedSave := False\<rparr>) rm)"
  shows "P (load_flags W e k f rm)"
proof -
  have war: "P (at_state k (\<lambda>s rm. if fsFlags s AND FACTION_FLAG_VISIBLE \<noteq> 0 then SetAtWar_at k False rm else rm) rm)"
    if "P rm" for rm
    using that assms(3) by (simp add: at_state_def split: option.split)
  have either: "P (if b then x else y)" if "P x" "P y" for b x y using that by simp
  have same: "P (at_state k (\<lambda>s rm. if ucast (fsFlags s) = f
      then put_state k (s\<lparr>fsNeedSend := False, fsNeedSave := False\<rparr>) rm else rm) rm)" if "P rm" for rm
    using that assms(5) by (simp add: at_state_def split: option.split)
  show ?thesis unfolding load_flags_def Let_def by (intro same either assms(2,3,4) war assms(1))
qed

lemma load_flags_inv: "rep_inv W rm \<Longrightarrow> rep_inv W (load_flags V e k f rm)"
  by (rule load_steps [where P = "rep_inv W"])
    (auto intro!: inv_visible inv_war inv_inactive inv_put_flags simp: visible_def)

lemma load_flags_same: "same_but k rm (load_flags W e k f rm)"
  by (rule load_steps [where P = "same_but k rm"]) (auto intro: same_but_trans same_but_ops)

definition fresh :: "'f repWorld \<Rightarrow> u32 set \<Rightarrow> repMgr \<Rightarrow> bool" where
  "fresh W done rm \<longleftrightarrow> (\<forall>e. in_store W e \<longrightarrow> 0 \<le> feListID e \<longrightarrow>
     (\<exists>s. map_of (rmFactions rm) (fe_key e) = Some s \<and> (feID e \<notin> done \<longrightarrow> fsStanding s = 0)))"

lemma fresh_same:
  assumes W: "store_ok W" and f: "fresh W done rm" and e: "in_store W e" "0 \<le> feListID e" and s: "same_but (fe_key e) rm rm'"
  shows "fresh W (insert (feID e) done) rm'"
  unfolding fresh_def
proof (intro allI impI)
  fix e' assume e': "in_store W e'" "0 \<le> feListID e'"
  obtain t where t: "map_of (rmFactions rm) (fe_key e') = Some t" "feID e' \<notin> done \<longrightarrow> fsStanding t = 0"
    using f e' unfolding fresh_def by blast
  show "\<exists>s. map_of (rmFactions rm') (fe_key e') = Some s \<and> (feID e' \<notin> insert (feID e) done \<longrightarrow> fsStanding s = 0)"
  proof (cases "fe_key e' = fe_key e")
    case True
    then have "e' = e" using fe_key_inj [OF W e(1) e'(1) _ e(2)] by simp
    with s t show ?thesis by (auto simp: same_but_def)
  next
    case False
    with s t show ?thesis by (auto simp: same_but_def)
  qed
qed

lemma inv_load_faction:
  assumes W: "store_ok W" and i: "rep_inv W rm" and f: "fresh W done rm" and n: "ucast (rrFaction r) \<notin> done"
  shows "rep_inv W (load_faction W r rm)" "fresh W (insert (ucast (rrFaction r)) done) (load_faction W r rm)"
proof -
  show "rep_inv W (load_faction W r rm)"
  proof (cases "LookupFaction W (ucast (rrFaction r))")
    case (Some e)
    note e = store_entry [OF W Some]
    show ?thesis
    proof (cases "0 \<le> feListID e")
      case True
      obtain s where s: "map_of (rmFactions rm) (fe_key e) = Some s" "fsStanding s = 0"
        using f e(1,2) n True unfolding fresh_def by metis
      note st = state_of_entry [OF W _ e(1) s(1)]
      have ranks: "ReputationToRank (GetBaseReputation W (Some e)) = st_rank W s"
          "ReputationToRank (GetBaseReputation W (Some e) + rrStanding r) = st_rank W (s\<lparr>fsStanding := rrStanding r\<rparr>)"
        using st(1) i s(2) by (simp_all add: st_rank_def rep_inv_def)
      have eq: "load_faction W r rm = load_flags W e (fe_key e) (ucast (rrFlags r))
          (UpdateRankCounters (st_rank W s) (st_rank W (s\<lparr>fsStanding := rrStanding r\<rparr>))
            (put_state (fe_key e) (s\<lparr>fsStanding := rrStanding r\<rparr>) rm))"
        unfolding load_faction_def load_flags_def Let_def Some option.case s(1) ranks using True by (simp only: if_True)
      show ?thesis unfolding eq by (rule load_flags_inv, rule inv_standing [OF W i s(1)]) simp_all
    qed (use i Some in \<open>simp add: load_faction_def\<close>)
  qed (use i in \<open>simp add: load_faction_def\<close>)
  show "fresh W (insert (ucast (rrFaction r)) done) (load_faction W r rm)"
  proof (cases "LookupFaction W (ucast (rrFaction r))")
    case (Some e)
    note e = store_entry [OF W Some]
    show ?thesis
    proof (cases "0 \<le> feListID e")
      case True
      let ?s = "case map_of (rmFactions rm) (fe_key e) of Some s \<Rightarrow> s | None \<Rightarrow> factionState0"
      have "load_faction W r rm = load_flags W e (fe_key e) (ucast (rrFlags r))
          (UpdateRankCounters (ReputationToRank (GetBaseReputation W (Some e)))
              (ReputationToRank (GetBaseReputation W (Some e) + rrStanding r))
            (put_state (fe_key e) (?s\<lparr>fsStanding := rrStanding r\<rparr>) rm))"
        unfolding load_faction_def load_flags_def Let_def Some option.case using True by (simp only: if_True)
      then have "same_but (fe_key e) rm (load_faction W r rm)"
        using load_flags_same same_but_ops(1,2) same_but_trans by metis
      then show ?thesis using fresh_same [OF W f e(1) True] e(2) by simp
    qed (use f Some in \<open>auto simp: load_faction_def fresh_def\<close>)
  qed (use f in \<open>auto simp: load_faction_def fresh_def\<close>)
qed

lemma ucast_u16_inj: "(ucast (x :: u16) :: u32) = ucast y \<Longrightarrow> x = y"
  by transfer (simp add: take_bit_take_bit)

lemma inv_LoadFromDB:
  assumes W: "store_ok W" and n: "numFactions W \<le> 2 ^ 32"
    and rows: "\<forall>rs. result = Some rs \<longrightarrow> distinct (map rrFaction rs)"
  shows "rep_inv W (LoadFromDB W result rm)"
proof -
  note ini = inv_Initialize [OF W n, of rm]
  have "fresh W {} (Initialize W rm)"
    unfolding fresh_def
  proof (intro allI impI)
    fix e assume e: "in_store W e" "0 \<le> feListID e"
    have b: "0 < unat (feID e)" "unat (feID e) < numFactions W" "LookupFaction W (of_nat (unat (feID e))) = Some e"
      using store_entry(3,4) [OF W, of "feID e" e] e(1) by (simp_all add: in_store_def)
    then have "unat (feID e) \<in> {1..<numFactions W}" by simp
    with ini(2) e(2) b(3) obtain s where s: "map_of (rmFactions (Initialize W rm)) (fe_key e) = Some s"
      unfolding initialized_def by blast
    with ini(2) have "fsStanding s = 0" unfolding initialized_def by blast
    with s have "map_of (rmFactions (Initialize W rm)) (fe_key e) = Some s" "fsStanding s = 0" by simp_all
    then show "\<exists>s. map_of (rmFactions (Initialize W rm)) (fe_key e) = Some s \<and> (feID e \<notin> {} \<longrightarrow> fsStanding s = 0)" by blast
  qed
  moreover have "rep_inv W (fold (load_faction W) rs rm)"
    if "distinct (map rrFaction rs)" "rep_inv W rm" "fresh W done rm" "ucast ` rrFaction ` set rs \<inter> done = {}" for rs rm "done"
    using that
  proof (induction rs arbitrary: rm "done")
    case (Cons r rs)
    have new: "ucast (rrFaction r) \<notin> done" using Cons.prems(4) by auto
    note l = inv_load_faction [OF W Cons.prems(2,3) new]
    have "inj (ucast :: u16 \<Rightarrow> u32)" by (rule injI) (rule ucast_u16_inj)
    then have "ucast (rrFaction r) \<notin> (ucast ` rrFaction ` set rs :: u32 set)"
      using Cons.prems(1) by (simp add: inj_image_mem_iff)
    with Cons.IH [OF _ l] Cons.prems(1,4) show ?case by auto
  qed simp
  ultimately show ?thesis using ini(1) rows by (cases result) (auto simp: LoadFromDB_def Let_def)
qed

section \<open>One reputation, and its spill-over\<close>

text \<open>\<^verbatim>\<open>SetOneFactionReputation\<close> with the rank counters moved to where the standing changes.\<close>

definition set_one_state :: "'f repWorld \<Rightarrow> 'f factionEntry \<Rightarrow> int \<Rightarrow> repMgr \<Rightarrow> repMgr" where
  "set_one_state W e x rm =
     (case map_of (rmFactions rm) (fe_key e) of
        None \<Rightarrow> rm
      | Some s \<Rightarrow>
          let t = s\<lparr>fsStanding := x - GetBaseReputation W (Some e), fsNeedSend := True, fsNeedSave := True\<rparr>;
              rm = UpdateRankCounters (st_rank W s) (st_rank W t) (put_state (fe_key e) t rm);
              rm = SetVisible_at W (fe_key e) rm
          in if ReputationToRank x \<le> REP_HOSTILE then SetAtWar_at (fe_key e) True rm else rm)"

lemma GetReputation_state:
  assumes "0 \<le> feListID e" "map_of (rmFactions rm) (fe_key e) = Some s"
  shows "GetReputation W (Some e) rm = GetBaseReputation W (Some e) + fsStanding s"
  using assms by (simp add: GetReputation_def GetState_def GetState_id_def CanHaveReputation_def)

text \<open>Equal but for the output and the mark for the next standing packet.\<close>

definition same_state :: "repMgr \<Rightarrow> repMgr \<Rightarrow> bool" where
  "same_state rm rm' \<longleftrightarrow> rmFactions rm' = rmFactions rm \<and> rmForced rm' = rmForced rm \<and> rmVisible rm' = rmVisible rm \<and>
     rmHonored rm' = rmHonored rm \<and> rmRevered rm' = rmRevered rm \<and> rmExalted rm' = rmExalted rm"

lemma same_stateD: "same_state rm rm' \<Longrightarrow> rm' = rm\<lparr>rmIncreased := rmIncreased rm', rmOut := rmOut rm'\<rparr>"
  by (rule repMgr.equality) (simp_all add: same_state_def)

lemma same_state_steps:
  "same_state r r" "same_state r x \<Longrightarrow> same_state r (rep_emit y x)" "same_state r x \<Longrightarrow> same_state r (x\<lparr>rmIncreased := i\<rparr>)"
  "same_state r x \<Longrightarrow> same_state (UpdateRankCounters a b r) (UpdateRankCounters a b x)"
  "same_state r x \<Longrightarrow> same_state r x' \<Longrightarrow> same_state r (if c then x else x')"
  by (simp_all add: same_state_def rep_emit_def UpdateRankCounters_record)

lemma SetOne_result:
  assumes W: "store_ok W" and i: "states_ok W rm" and e: "in_store W e" and s: "map_of (rmFactions rm) (fe_key e) = Some s"
  shows "\<exists>b out. SetOneFactionReputation W (Some e) standing incremental rm =
    Some (True, (set_one_state W e (rep_target W e standing incremental rm) rm)\<lparr>rmIncreased := b, rmOut := out\<rparr>)"
proof -
  let ?x = "rep_target W e standing incremental rm" and ?k = "fe_key e" and ?B = "GetBaseReputation W (Some e)"
  let ?t = "s\<lparr>fsStanding := ?x - ?B, fsNeedSend := True, fsNeedSave := True\<rparr>"
  note st = state_of_entry [OF W i e s]
  have ranks: "ReputationToRank (fsStanding s + ?B) = st_rank W s" "ReputationToRank ?x = st_rank W ?t"
    using st(1) by (simp_all add: st_rank_def add.commute)
  have target: "rep_clamp (if incremental then as_int32 (roundHalf W (fmul W (fromInt W standing) (rateGain W)) + (fsStanding s + ?B))
      else standing) = ?x"
    using GetReputation_state [OF st(3) s, of W] by (simp add: rep_target_def add.commute)
  have run: "SetOneFactionReputation W (Some e) standing incremental rm = Some (True,
      (let a = st_rank W s; b = st_rank W ?t; rm = put_state ?k ?t rm; rm = SetVisible_at W ?k rm;
           rm = (if b \<le> REP_HOSTILE then SetAtWar_at ?k True rm else rm);
           rm = (if b > a then rm\<lparr>rmIncreased := True\<rparr> else rm);
           rm = rep_emit (OnReputationChange (feID e) ?x incremental) rm;
           rm = (if b \<noteq> a then rep_emit (OnReputationRankChange (feID e) b a (rmIncreased rm)) rm else rm);
           rm = UpdateRankCounters a b rm
       in fold (\<lambda>x. rep_emit (AchievementUpdate x (feID e)))
           [''KNOWN_FACTIONS'', ''GAIN_REPUTATION'', ''GAIN_EXALTED_REPUTATION'', ''GAIN_REVERED_REPUTATION'',
            ''GAIN_HONORED_REPUTATION''] (rep_emit (ReputationChanged (feID e)) rm)))"
    unfolding SetOneFactionReputation_def option.case s Let_def rep_clamp_def [symmetric] target ranks ..
  let ?r = "SetVisible_at W ?k (put_state ?k ?t rm)"
  let ?w = "if st_rank W ?t \<le> REP_HOSTILE then SetAtWar_at ?k True ?r else ?r"
  have sp: "set_one_state W e ?x rm = UpdateRankCounters (st_rank W s) (st_rank W ?t) ?w"
    unfolding set_one_state_def option.case s Let_def counters_commute ranks by (simp only: counters_commute split: if_split) blast
  have "same_state (UpdateRankCounters (st_rank W s) (st_rank W ?t) ?w)
      (snd (the (SetOneFactionReputation W (Some e) standing incremental rm)))"
    unfolding run option.sel snd_conv Let_def fold.simps o_def id_def by (intro same_state_steps)
  from same_stateD [OF this] show ?thesis unfolding sp run option.sel snd_conv by blast
qed

lemma inv_set_one:
  assumes W: "store_ok W" and i: "rep_inv W rm" and e: "in_store W e"
  shows "rep_inv W (set_one_state W e x rm)"
proof (cases "map_of (rmFactions rm) (fe_key e)")
  case (Some s)
  have "rep_inv W (UpdateRankCounters (st_rank W s) (st_rank W t) (put_state (fe_key e) t rm))"
    if "t = s\<lparr>fsStanding := y, fsNeedSend := True, fsNeedSave := True\<rparr>" for t y
    using inv_standing [OF W i Some] that by simp
  then show ?thesis using Some by (simp add: set_one_state_def Let_def inv_war inv_visible)
qed (use i in \<open>simp add: set_one_state_def\<close>)

lemma inv_SetOne:
  assumes W: "store_ok W" and i: "rep_inv W rm" and e: "in_store W e"
    and r: "SetOneFactionReputation W (Some e) standing incremental rm = Some (res, rm')"
  shows "rep_inv W rm'"
proof (cases "map_of (rmFactions rm) (fe_key e)")
  case None
  then show ?thesis using i r by (simp add: SetOneFactionReputation_def)
next
  case (Some s)
  from i have "states_ok W rm" by (simp add: rep_inv_def)
  from SetOne_result [OF W this e Some, of standing incremental] r obtain b out where
    "rm' = (set_one_state W e (rep_target W e standing incremental rm) rm)\<lparr>rmIncreased := b, rmOut := out\<rparr>" by auto
  moreover have "rep_inv W (x\<lparr>rmIncreased := b, rmOut := out\<rparr>) = rep_inv W x" for x
    by (simp add: rep_inv_def states_ok_def counters_ok_def)
  ultimately show ?thesis using inv_set_one [OF W i e] by simp
qed

end
