(* ===== verification/ReputationProps.thy ===== *)
theory ReputationProps
  imports ReputationInv
begin

text \<open>
  The properties of reputations, over the managers that loading and any sequence of the
  manager's operations reach, and a small store to run them on.
\<close>

section \<open>One standing\<close>

text \<open>What changing one standing, or sending, leaves of the others.\<close>

lemma GetReputation_same_but:
  assumes "same_but k rm rm'" "fe_key e \<noteq> k" shows "GetReputation W (Some e) rm' = GetReputation W (Some e) rm"
  using assms by (simp add: same_but_def GetReputation_def GetState_def GetState_id_def)

lemma set_one_steps:
  fixes P :: "repMgr \<Rightarrow> bool"
  assumes s: "map_of (rmFactions rm) (fe_key e) = Some s"
    and put: "\<And>t a b. fsStanding t = x - GetBaseReputation W (Some e) \<Longrightarrow> P (UpdateRankCounters a b (put_state (fe_key e) t rm))"
    and vis: "\<And>rm. P rm \<Longrightarrow> P (SetVisible_at W (fe_key e) rm)" and war: "\<And>rm. P rm \<Longrightarrow> P (SetAtWar_at (fe_key e) True rm)"
  shows "P (set_one_state W e x rm)"
proof -
  let ?t = "s\<lparr>fsStanding := x - GetBaseReputation W (Some e), fsNeedSend := True, fsNeedSave := True\<rparr>"
  have "P (SetVisible_at W (fe_key e) (UpdateRankCounters (st_rank W s) (st_rank W ?t) (put_state (fe_key e) ?t rm)))"
    by (rule vis) (rule put, simp)
  then show ?thesis using war unfolding set_one_state_def s option.case Let_def by (simp only: split: if_split) blast
qed

lemma set_one_same_but: "same_but (fe_key e) rm (set_one_state W e x rm)"
proof (cases "map_of (rmFactions rm) (fe_key e)")
  case (Some s)
  then show ?thesis by (rule set_one_steps) (blast intro: same_but_trans same_but_ops)+
qed (simp add: set_one_state_def)

definition same_standing :: "u32 \<Rightarrow> repMgr \<Rightarrow> repMgr \<Rightarrow> bool" where
  "same_standing k rm rm' =
     (map_option fsStanding (map_of (rmFactions rm') k) = map_option fsStanding (map_of (rmFactions rm) k))"

lemma flags_standing:
  "same_standing k rm (SetVisible_at W k rm)" "same_standing k rm (SetAtWar_at k w rm)"
  "same_standing k rm (UpdateRankCounters a b rm)"
  by (auto simp: same_standing_def SetVisible_at_def SetAtWar_at_def at_state_def SendVisible_def Let_def
    split: option.split)

lemma set_one_standing:
  assumes "map_of (rmFactions rm) (fe_key e) = Some s"
  shows "\<exists>t. map_of (rmFactions (set_one_state W e x rm)) (fe_key e) = Some t \<and>
    fsStanding t = x - GetBaseReputation W (Some e)"
  using assms
proof (rule set_one_steps)
  fix rm :: repMgr assume h: "\<exists>t. map_of (rmFactions rm) (fe_key e) = Some t \<and> fsStanding t = x - GetBaseReputation W (Some e)"
  then show "\<exists>t. map_of (rmFactions (SetVisible_at W (fe_key e) rm)) (fe_key e) = Some t \<and>
      fsStanding t = x - GetBaseReputation W (Some e)"
    using flags_standing(1) [of "fe_key e" rm W] by (auto simp: same_standing_def)
  from h show "\<exists>t. map_of (rmFactions (SetAtWar_at (fe_key e) True rm)) (fe_key e) = Some t \<and>
      fsStanding t = x - GetBaseReputation W (Some e)"
    using flags_standing(2) [of "fe_key e" rm True] by (auto simp: same_standing_def)
qed simp

lemma in_store_lookup: "store_ok W \<Longrightarrow> LookupFaction W i = Some e \<Longrightarrow> in_store W e"
  by (rule store_entry(1))

lemma SetOne_known:
  assumes W: "store_ok W" and i: "rep_inv W rm" and e: "in_store W e" and s: "map_of (rmFactions rm) (fe_key e) \<noteq> None"
  shows "\<exists>rm'. SetOneFactionReputation W (Some e) standing incremental rm = Some (True, rm') \<and> rep_inv W rm' \<and>
    same_but (fe_key e) rm rm' \<and> GetReputation W (Some e) rm' = rep_target W e standing incremental rm"
proof -
  from s obtain s where s: "map_of (rmFactions rm) (fe_key e) = Some s" by blast
  have st: "states_ok W rm" using i by (simp add: rep_inv_def)
  let ?x = "rep_target W e standing incremental rm"
  from SetOne_result [OF W st e s, of standing incremental] obtain b out where
    r: "SetOneFactionReputation W (Some e) standing incremental rm =
      Some (True, (set_one_state W e ?x rm)\<lparr>rmIncreased := b, rmOut := out\<rparr>)" by blast
  from set_one_standing [OF s] obtain t where
    t: "map_of (rmFactions (set_one_state W e ?x rm)) (fe_key e) = Some t" "fsStanding t = ?x - GetBaseReputation W (Some e)"
    by blast
  have "GetReputation W (Some e) ((set_one_state W e ?x rm)\<lparr>rmIncreased := b, rmOut := out\<rparr>) = ?x"
    using GetReputation_state [OF state_of_entry(3) [OF W st e s], of "(set_one_state W e ?x rm)\<lparr>rmIncreased := b, rmOut := out\<rparr>" t W] t by simp
  moreover have "same_but (fe_key e) rm ((set_one_state W e ?x rm)\<lparr>rmIncreased := b, rmOut := out\<rparr>)"
    using set_one_same_but [of e rm W ?x] by (simp add: same_but_def)
  ultimately show ?thesis using inv_SetOne [OF W i e r] r by blast
qed

lemma rep_clamp_eq: "rep_clamp x = max (-42000) (min 42999 x)"
  by (simp add: rep_clamp_def Reputation_Cap_def Reputation_Bottom_def)

section \<open>Spill-over\<close>

text \<open>
  No step loses a faction or breaks the invariant; the spill-over follows no null pointer when
  the templates name factions of the store.
\<close>

definition keeps :: "'f repWorld \<Rightarrow> repMgr \<Rightarrow> repMgr \<Rightarrow> bool" where
  "keeps W rm rm' \<longleftrightarrow> rep_inv W rm' \<and> (\<forall>k. map_of (rmFactions rm) k \<noteq> None \<longrightarrow> map_of (rmFactions rm') k \<noteq> None)"

lemma keeps_trans: "keeps W a b \<Longrightarrow> keeps W b c \<Longrightarrow> keeps W a c"
  by (simp add: keeps_def)

lemma SetOne_total:
  assumes W: "store_ok W" and i: "rep_inv W rm" and c: "LookupFaction W j = Some c"
  shows "\<exists>r rm'. SetOneFactionReputation W (Some c) standing incremental rm = Some (r, rm') \<and> keeps W rm rm'"
proof (cases "map_of (rmFactions rm) (fe_key c)")
  case None
  then show ?thesis using i by (auto simp: SetOneFactionReputation_def keeps_def)
next
  case (Some s)
  then obtain rm' where r: "SetOneFactionReputation W (Some c) standing incremental rm = Some (True, rm')"
      "rep_inv W rm'" "same_but (fe_key c) rm rm'"
    using SetOne_known [OF W i in_store_lookup [OF W c], of standing incremental] by auto
  then have "keeps W rm rm'" unfolding keeps_def same_but_def by metis
  with r(1) show ?thesis by blast
qed

lemma spill_template_total:
  assumes W: "store_ok W"
  shows "rep_inv W rm \<Longrightarrow> \<forall>t\<in>set ts. fst t \<noteq> 0 \<longrightarrow> LookupFaction W (fst t) \<noteq> None \<Longrightarrow>
    \<exists>rm'. spill_template W st inc ts rm = Some rm' \<and> keeps W rm rm'"
proof (induction ts arbitrary: rm)
  case (Cons t ts)
  obtain faction rate rank where t: "t = (faction, rate, rank)" by (cases t)
  show ?case
  proof (cases "faction \<noteq> 0 \<and> GetRank W (LookupFaction W faction) rm \<le> unat rank")
    case True
    then obtain c where c: "LookupFaction W faction = Some c" using Cons.prems(2) t by auto
    from SetOne_total [OF W Cons.prems(1) c] obtain r rm1 where
      r: "SetOneFactionReputation W (Some c) (toInt W (fmul W (fromInt W st) rate)) inc rm = Some (r, rm1)" "keeps W rm rm1"
      by blast
    with Cons.IH [of rm1] Cons.prems(2) obtain rm' where "spill_template W st inc ts rm1 = Some rm'" "keeps W rm1 rm'"
      by (auto simp: keeps_def)
    with keeps_trans [OF r(2)] r(1) True c t show ?thesis by auto
  next
    case False
    with Cons t show ?thesis by auto
  qed
qed (simp add: keeps_def)

lemma spill_list_total:
  assumes W: "store_ok W"
  shows "rep_inv W rm \<Longrightarrow> \<exists>res' rm'. spill_list W e out inc is (res, rm) = Some (res', rm') \<and> keeps W rm rm'"
proof (induction "is" arbitrary: res rm)
  case (Cons i "is")
  show ?case
  proof (cases "LookupFaction W i")
    case None
    with Cons show ?thesis by auto
  next
    case (Some c)
    let ?x = "toInt W (fmul W out (feRateIn c))"
    show ?thesis
    proof (cases "\<not> (c = e \<or> GetRank W (Some c) rm > unat (feMaxRankIn c)) \<and> (?x \<noteq> 0 \<or> \<not> inc)")
      case True
      from SetOne_total [OF W Cons.prems Some, of ?x inc] obtain r rm1 where
        r: "SetOneFactionReputation W (Some c) ?x inc rm = Some (r, rm1)" "keeps W rm rm1" by blast
      with Cons.IH [of rm1 r] obtain res' rm' where "spill_list W e out inc is (r, rm1) = Some (res', rm')" "keeps W rm1 rm'"
        by (auto simp: keeps_def)
      with keeps_trans [OF r(2)] r(1) True Some show ?thesis by (auto simp: Let_def)
    next
      case False
      then have "spill_list W e out inc (i # is) (res, rm) = spill_list W e out inc is (res, rm)"
        using Some by (auto simp: Let_def)
      with Cons show ?thesis by auto
    qed
  qed
qed (simp add: keeps_def)

lemma spill_dbc_total:
  assumes W: "store_ok W" and i: "rep_inv W rm"
  shows "\<exists>res rm'. spill_dbc W e st inc rm = Some (res, rm') \<and> keeps W rm rm'"
proof -
  have "\<exists>out flist rm1. keeps W rm rm1 \<and> spill_dbc W e st inc rm =
      (case flist of None \<Rightarrow> Some (False, rm1) | Some ids \<Rightarrow> spill_list W e out inc ids (False, rm1))"
  proof (cases "factionTeamList W (feID e) = None \<and> feTeam e \<noteq> 0 \<and> \<not> isZero W (feRateOut e)")
    case False
    then have "spill_dbc W e st inc rm = (case factionTeamList W (feID e) of None \<Rightarrow> Some (False, rm)
        | Some ids \<Rightarrow> spill_list W e (fromInt W st) inc ids (False, rm))"
      by (simp only: spill_dbc_def Let_def if_False bind.bind_lunit prod.case)
    with i show ?thesis using keeps_def by blast
  next
    case True
    let ?out = "fmul W (fromInt W st) (feRateOut e)"
    show ?thesis
    proof (cases "LookupFaction W (feTeam e)")
      case None
      with i True show ?thesis
        by (intro exI [of _ ?out] exI [of _ "None :: u32 list option"] exI [of _ rm]) (auto simp: spill_dbc_def Let_def keeps_def)
    next
      case (Some parent)
      note p = \<open>LookupFaction W (feTeam e) = Some parent\<close>
      show ?thesis
      proof (cases "\<exists>s. map_of (rmFactions rm) (fe_key parent) = Some s \<and> fsFlags s AND FACTION_FLAG_SPECIAL \<noteq> 0")
        case False
        then have "spill_dbc W e st inc rm = (case factionTeamList W (feTeam e) of None \<Rightarrow> Some (False, rm)
            | Some ids \<Rightarrow> spill_list W e ?out inc ids (False, rm))"
          using True p unfolding spill_dbc_def Let_def
          by (cases "map_of (rmFactions rm) (fe_key parent)")
            (simp_all only: simp_thms if_True if_False option.case option.inject ex_simps bind.bind_lunit prod.case)
        with i show ?thesis using keeps_def by blast
      next
        case special: True
        then obtain s where sp: "map_of (rmFactions rm) (fe_key parent) = Some s" "fsFlags s AND FACTION_FLAG_SPECIAL \<noteq> 0"
          by blast
        have "spill_dbc W e st inc rm = do {
            (_, rm1) \<leftarrow> SetOneFactionReputation W (Some parent) (toInt W ?out) inc rm; Some (False, rm1) }"
          using True p sp unfolding spill_dbc_def Let_def
          by (cases "SetOneFactionReputation W (Some parent) (toInt W ?out) inc rm")
            (simp_all only: simp_thms if_True option.case bind.bind_lunit bind.bind_lzero case_prod_unfold fst_conv snd_conv)
        moreover from SetOne_total [OF W i p] obtain b rm1 where
          o: "SetOneFactionReputation W (Some parent) (toInt W ?out) inc rm = Some (b, rm1)" "keeps W rm rm1" by blast
        ultimately show ?thesis
          by (intro exI [of _ ?out] exI [of _ "None :: u32 list option"] exI [of _ rm1]) simp
      qed
    qed
  qed
  then obtain out flist rm1 where one: "keeps W rm rm1" "spill_dbc W e st inc rm =
      (case flist of None \<Rightarrow> Some (False, rm1) | Some ids \<Rightarrow> spill_list W e out inc ids (False, rm1))"
    by blast
  show ?thesis
  proof (cases flist)
    case None
    with one show ?thesis by auto
  next
    case (Some ids)
    have "rep_inv W rm1" using one(1) by (simp add: keeps_def)
    from spill_list_total [OF W this, of e out inc ids False] one Some keeps_trans show ?thesis by fastforce
  qed
qed

lemma inv_SetOne_option:
  assumes W: "store_ok W" and i: "rep_inv W rm" and f: "f = None \<or> (\<exists>i. f = LookupFaction W i)"
    and r: "SetOneFactionReputation W f standing incremental rm = Some (res, rm')"
  shows "rep_inv W rm'"
proof (cases f)
  case None
  then show ?thesis using r by (simp add: SetOneFactionReputation_def)
next
  case (Some e)
  then have "in_store W e" using f in_store_lookup [OF W] by auto
  from inv_SetOne [OF W i this] r Some show ?thesis by simp
qed

lemma inv_spill_template:
  assumes W: "store_ok W"
  shows "rep_inv W rm \<Longrightarrow> spill_template W st inc ts rm = Some rm' \<Longrightarrow> rep_inv W rm'"
proof (induction ts arbitrary: rm)
  case (Cons t ts)
  obtain faction rate rank where t: "t = (faction, rate, rank)" by (cases t)
  show ?case
  proof (cases "faction \<noteq> 0 \<and> GetRank W (LookupFaction W faction) rm \<le> unat rank")
    case True
    then obtain res rm1 where r: "SetOneFactionReputation W (LookupFaction W faction)
        (toInt W (fmul W (fromInt W st) rate)) inc rm = Some (res, rm1)" "spill_template W st inc ts rm1 = Some rm'"
      using Cons.prems(2) t by (auto split: bind_splits)
    from inv_SetOne_option [OF W Cons.prems(1) _ r(1)] have "rep_inv W rm1" by blast
    from Cons.IH [OF this r(2)] show ?thesis .
  next
    case False
    with Cons t show ?thesis by auto
  qed
qed simp

lemma inv_SetReputation:
  assumes W: "store_ok W" and i: "rep_inv W rm" and e: "in_store W e"
    and r: "SetReputation_spill W e st inc only rm = Some (res, rm')"
  shows "rep_inv W rm'"
proof -
  let ?spill = "case repSpillover W (feID e) of
      Some t \<Rightarrow> do { rm \<leftarrow> spill_template W st inc t rm; Some (False, rm) }
    | None \<Rightarrow> spill_dbc W e st inc rm"
  obtain res1 rm1 where s: "?spill = Some (res1, rm1)"
    using r by (auto simp: SetReputation_spill_def split: bind_splits)
  then have i1: "rep_inv W rm1"
    using inv_spill_template [OF W i] spill_dbc_total [OF W i, of e st inc]
    by (auto simp: keeps_def split: option.splits bind_splits)
  show ?thesis
  proof (cases "map_of (rmFactions rm1) (fe_key e)")
    case None
    then show ?thesis using r s i1 by (simp add: SetReputation_spill_def)
  next
    case (Some t)
    show ?thesis
    proof (cases only)
      case True
      then show ?thesis using r s i1 Some inv_at_send [OF i1] by (auto simp: SetReputation_spill_def)
    next
      case False
      with r s Some obtain rm2 where o: "SetOneFactionReputation W (Some e) st inc rm1 = Some (res, rm2)"
          "rm' = at_state (fe_key e) SendState rm2"
        by (auto simp: SetReputation_spill_def split: bind_splits)
      from inv_at_send [OF inv_SetOne [OF W i1 e o(1)]] o(2) show ?thesis by simp
    qed
  qed
qed

text \<open>Where the templates name factions of the store.\<close>

definition templates_ok :: "'f repWorld \<Rightarrow> bool" where
  "templates_ok W \<longleftrightarrow>
     (\<forall>i ts t. repSpillover W i = Some ts \<longrightarrow> t \<in> set ts \<longrightarrow> fst t \<noteq> 0 \<longrightarrow> LookupFaction W (fst t) \<noteq> None)"

lemma SetReputation_total:
  assumes W: "store_ok W" "templates_ok W" and i: "rep_inv W rm" and e: "in_store W e"
    and k: "map_of (rmFactions rm) (fe_key e) \<noteq> None"
  shows "\<exists>rm'. SetReputation W e st rm = Some (True, rm') \<and> GetReputation W (Some e) rm' = rep_clamp st"
proof -
  have "\<exists>res rm1. (case repSpillover W (feID e) of
      Some t \<Rightarrow> do { rm \<leftarrow> spill_template W st False t rm; Some (False, rm) }
    | None \<Rightarrow> spill_dbc W e st False rm) = Some (res, rm1) \<and> keeps W rm rm1"
  proof (cases "repSpillover W (feID e)")
    case None
    then show ?thesis using spill_dbc_total [OF W(1) i] by simp
  next
    case (Some ts)
    then have "\<forall>t\<in>set ts. fst t \<noteq> 0 \<longrightarrow> LookupFaction W (fst t) \<noteq> None" using W(2) unfolding templates_ok_def by blast
    from spill_template_total [OF W(1) i this, of st False] Some show ?thesis by auto
  qed
  then obtain res rm1 where r: "(case repSpillover W (feID e) of
      Some t \<Rightarrow> do { rm \<leftarrow> spill_template W st False t rm; Some (False, rm) }
    | None \<Rightarrow> spill_dbc W e st False rm) = Some (res, rm1)" "keeps W rm rm1" by blast
  then have i1: "rep_inv W rm1" "map_of (rmFactions rm1) (fe_key e) \<noteq> None" using k by (simp_all add: keeps_def)
  from SetOne_known [OF W(1) i1(1) e i1(2), of st False] obtain rm2 where
    o: "SetOneFactionReputation W (Some e) st False rm1 = Some (True, rm2)" "GetReputation W (Some e) rm2 = rep_clamp st"
    by (auto simp: rep_target_def)
  have "GetReputation W (Some e) (at_state (fe_key e) SendState rm2) = GetReputation W (Some e) rm2"
    by (auto simp: at_state_def GetReputation_def GetState_def GetState_id_def SendState_factions map_of_map split: option.split)
  with r(1) o i1(2) show ?thesis by (auto simp: SetReputation_def SetReputation_spill_def)
qed

section \<open>Reachable managers\<close>

inductive rep_reach :: "'f repWorld \<Rightarrow> repMgr \<Rightarrow> bool" for W where
  rep_load_step: "\<forall>rs. result = Some rs \<longrightarrow> distinct (map rrFaction rs) \<Longrightarrow> rep_reach W (LoadFromDB W result rm)"
| rep_set_step: "rep_reach W rm \<Longrightarrow> in_store W e \<Longrightarrow> SetReputation_spill W e st inc only rm = Some (res, rm') \<Longrightarrow> rep_reach W rm'"
| rep_one_step: "rep_reach W rm \<Longrightarrow> in_store W e \<Longrightarrow> SetOneFactionReputation W (Some e) st inc rm = Some (res, rm') \<Longrightarrow> rep_reach W rm'"
| rep_visible_step: "rep_reach W rm \<Longrightarrow> rep_reach W (SetVisible W e rm)"
| rep_template_step: "rep_reach W rm \<Longrightarrow> rep_reach W (SetVisible_template W t rm)"
| rep_war_step: "rep_reach W rm \<Longrightarrow> rep_reach W (SetAtWar k b rm)"
| rep_inactive_step: "rep_reach W rm \<Longrightarrow> rep_reach W (SetInactive k b rm)"
| rep_force_step: "rep_reach W rm \<Longrightarrow> rep_reach W (ApplyForceReaction i r b rm)"
| rep_initial_step: "rep_reach W rm \<Longrightarrow> rep_reach W (SendInitialReputations rm)"
| rep_reactions_step: "rep_reach W rm \<Longrightarrow> rep_reach W (SendForceReactions rm)"
| rep_states_step: "rep_reach W rm \<Longrightarrow> rep_reach W (SendStates rm)"
| rep_save_step: "rep_reach W rm \<Longrightarrow> rep_reach W (SaveToDB W rm)"

lemma rep_reach_inv:
  assumes W: "store_ok W" and n: "numFactions W \<le> 2 ^ 32" and r: "rep_reach W rm" shows "rep_inv W rm"
  using r
proof (induction rule: rep_reach.induct)
  case (rep_load_step result rm)
  then show ?case by (rule inv_LoadFromDB [OF W n])
next
  case (rep_set_step rm e st inc only res rm')
  then show ?case using inv_SetReputation [OF W] by blast
next
  case (rep_one_step rm e st inc res rm')
  then show ?case using inv_SetOne [OF W] by blast
next
  case (rep_states_step rm)
  then show ?case by (simp add: SendStates_def inv_send_states)
qed (auto simp: SetVisible_def SetVisible_template_def SetAtWar_def SetInactive_def ApplyForceReaction_def
  SendForceReactions_def inv_visible inv_war inv_inactive inv_initial inv_save split: option.split)

section \<open>Ranks\<close>

lemma rank_table:
  "ReputationToRank x = (if 42000 \<le> x then 7 else if 21000 \<le> x then 6 else if 9000 \<le> x then 5 else if 3000 \<le> x then 4
     else if 0 \<le> x then 3 else if -3000 \<le> x then 2 else if -6000 \<le> x then 1 else 0)"
  by (simp add: ReputationToRank_def PointsInRank_def Reputation_Cap_def numeral_eq_Suc Let_def)

section \<open>The first packet\<close>

lemma u32_suc: "unat (a :: u32) < 2 ^ 32 - 1 \<Longrightarrow> unat (a + 1) = Suc (unat a)"
  by (simp add: unat_word_ariths(1))

lemma fill_absent_upto:
  "unat a \<le> unat b \<Longrightarrow> fill_absent a b = concat (map (\<lambda>i. [FU8 0, FU32 0]) [unat a..<unat b])"
proof (induction a b rule: fill_absent.induct)
  case (1 a b)
  show ?case
  proof (cases "a = b")
    case True
    then show ?thesis by (simp add: fill_absent.simps [of b b])
  next
    case False
      with 1(2) have lt: "unat a < unat b" by (metis le_neq_implies_less unsigned_word_eqI)
    have unat_less_b: "unat b < 2 ^ 32" using unsigned_less [of b] by simp
    then have s: "unat (a + 1) = Suc (unat a)" using lt u32_suc [of a] unat_less_b by simp
    show ?thesis using False 1(1) [OF False] lt s
      by (simp add: fill_absent.simps [of a b] upt_conv_Cons)
  qed
qed

definition initial_slot :: "(u32 \<times> factionState) list \<Rightarrow> nat \<Rightarrow> field list" where
  "initial_slot m i = (case map_of m (of_nat i) of
     Some s \<Rightarrow> [FU8 (fsFlags s), FU32 (word_of_int (fsStanding s))] | None \<Rightarrow> [FU8 0, FU32 0])"

lemma map_of_above: "key_sorted ((k, s) # m) \<Longrightarrow> j \<le> k \<Longrightarrow> map_of m j = None"
  by (auto simp: key_sorted_def map_of_eq_None_iff)

lemma initial_loop_slots:
  "key_sorted m \<Longrightarrow> \<forall>k\<in>fst ` set m. unat a \<le> unat k \<and> unat k < 128 \<Longrightarrow> unat a \<le> 128 \<Longrightarrow>
    fst (initial_loop a m) @ fill_absent (snd (initial_loop a m)) 128 = concat (map (initial_slot m) [unat a..<128])"
proof (induction m arbitrary: a)
  case Nil
  then show ?case using fill_absent_upto [of a 128] by (simp add: initial_slot_def)
next
  case (Cons x m)
  obtain k s where x: "x = (k, s)" by (cases x)
  have k: "unat a \<le> unat k" "unat k < 128" using Cons.prems(2) x by auto
  have k1: "unat (k + 1) = Suc (unat k)" using k(2) by (simp add: u32_suc)
  have sorted: "key_sorted m" and above: "\<forall>j\<in>fst ` set m. k < j"
    using Cons.prems(1) x by (auto simp: key_sorted_def)
  have "\<forall>j\<in>fst ` set m. unat (k + 1) \<le> unat j \<and> unat j < 128"
    using above Cons.prems(2) x k1 by (auto simp: word_less_nat_alt Suc_le_eq)
  from Cons.IH [OF sorted this] k1 k(2) have rest:
    "fst (initial_loop (k + 1) m) @ fill_absent (snd (initial_loop (k + 1) m)) 128 =
       concat (map (initial_slot m) [Suc (unat k)..<128])" by simp
  have low: "initial_slot (x # m) i = [FU8 0, FU32 0]" if "i < unat k" for i
  proof -
    have "(of_nat i :: u32) < k" using that k(2) by (simp add: word_less_nat_alt unat_of_nat)
    then have "map_of (x # m) (of_nat i) = None" using map_of_above [of k s m "of_nat i"] Cons.prems(1) x by auto
    then show ?thesis by (simp add: initial_slot_def)
  qed
  have high: "initial_slot (x # m) i = initial_slot m i" if "unat k < i" "i < 128" for i
  proof -
    have "(of_nat i :: u32) \<noteq> k" using that by (auto simp: unat_of_nat)
    then show ?thesis using x by (simp add: initial_slot_def)
  qed
  have split: "[unat a..<128] = [unat a..<unat k] @ unat k # [Suc (unat k)..<128]"
    using upt_add_eq_append [OF k(1), of "128 - unat k"] k(2) by (simp add: upt_conv_Cons)
  have "concat (map (initial_slot (x # m)) [unat a..<unat k]) = fill_absent a k"
    using fill_absent_upto [OF k(1)] low by (metis (no_types, lifting) atLeastLessThan_iff map_eq_conv set_upt)
  moreover have "map (initial_slot (x # m)) [Suc (unat k)..<128] = map (initial_slot m) [Suc (unat k)..<128]"
    by (rule map_cong [OF refl]) (simp add: high)
  moreover have "initial_slot (x # m) (unat k) = [FU8 (fsFlags s), FU32 (word_of_int (fsStanding s))]"
    using x by (simp add: initial_slot_def)
  ultimately have "concat (map (initial_slot (x # m)) [unat a..<128]) =
      fill_absent a k @ [FU8 (fsFlags s), FU32 (word_of_int (fsStanding s))] @ concat (map (initial_slot m) [Suc (unat k)..<128])"
    by (simp only: split map_append list.map concat_append concat.simps)
  with rest x show ?case by (simp add: case_prod_unfold)
qed

section \<open>A small store\<close>

definition demo_faction :: "u32 \<Rightarrow> int \<Rightarrow> int \<Rightarrow> u32 \<Rightarrow> u32 \<Rightarrow> int factionEntry" where
  "demo_faction i l base flags team = \<lparr>feID = i, feListID = l, feRaceMask = [0, 0, 0, 0], feClassMask = [1, 0, 0, 0],
     feRepValue = [base, 0, 0, 0], feRepFlags = [flags, 0, 0, 0], feTeam = team, feRateIn = 1, feRateOut = 1, feMaxRankIn = 7\<rparr>"

text \<open>Two factions under a third that has no standing of its own.\<close>

definition demo_store :: "int repWorld" where
  "demo_store = \<lparr>raceMask = 1, classMask = 1, guidLow = 7, playerLoading = False, numFactions = 4,
     LookupFaction = (\<lambda>i. if i = 1 then Some (demo_faction 1 0 0 0x11 3) else if i = 2 then Some (demo_faction 2 5 (-6500) 0x02 3)
       else if i = 3 then Some (demo_faction 3 (-1) 0 0 0) else None),
     factionTeamList = (\<lambda>i. if i = 3 then Some [1, 2] else None),
     repSpillover = (\<lambda>i. None), rateGain = 1, fromInt = (\<lambda>x. x), fmul = (*), roundHalf = (\<lambda>x. x),
     toInt = (\<lambda>x. x), isZero = (\<lambda>x. x = 0)\<rparr>"

definition demo_mgr :: repMgr where
  "demo_mgr = LoadFromDB demo_store None ReputationMgr_new"

lemma demo_store_ok: "store_ok demo_store"
  by (simp add: store_ok_def demo_store_def demo_faction_def)

lemma demo_templates_ok: "templates_ok demo_store"
  by (simp add: templates_ok_def demo_store_def)

lemma demo_small: "numFactions demo_store \<le> 2 ^ 32"
  by (simp add: demo_store_def)

lemma demo_rep_reach: "rep_reach demo_store demo_mgr"
  unfolding demo_mgr_def by (rule rep_load_step) simp

lemma demo_in_store: "in_store demo_store (demo_faction 1 0 0 0x11 3)"
  by (simp add: in_store_def demo_store_def demo_faction_def)

lemma demo_factions:
  "rmFactions demo_mgr =
     [(0, \<lparr>fsID = 1, fsListID = 0, fsStanding = 0, fsFlags = 0x11, fsNeedSend = True, fsNeedSave = True\<rparr>),
      (5, \<lparr>fsID = 2, fsListID = 5, fsStanding = 0, fsFlags = 0x02, fsNeedSend = True, fsNeedSave = True\<rparr>)]"
  by code_simp

lemma demo_ranks:
  "GetRank demo_store (LookupFaction demo_store 1) demo_mgr = 3" "GetRank demo_store (LookupFaction demo_store 2) demo_mgr = 0"
  by code_simp+

section \<open>The properties\<close>

text \<open>
  C26. Every faction of a manager is kept in the order of its list id and under it, with the id
  of an entry of the store that has that list id and can have reputation.
\<close>

theorem rep_states_typed:
  assumes W: "store_ok W" "numFactions W \<le> 2 ^ 32" and r: "rep_reach W rm"
  shows "sorted_wrt (<) (map fst (rmFactions rm)) \<and> (\<forall>(k, s)\<in>set (rmFactions rm). fsListID s = k \<and>
    (\<exists>e. LookupFaction W (fsID s) = Some e \<and> CanHaveReputation e \<and> fe_key e = k \<and> GetState e rm = Some s))"
proof -
  have i: "states_ok W rm" using rep_reach_inv [OF W r] by (simp add: rep_inv_def)
  then have k: "key_sorted (rmFactions rm)" by (simp add: states_ok_def)
  have "map_of (rmFactions rm) k = Some s" if "(k, s) \<in> set (rmFactions rm)" for k s
    using key_sorted_distinct [OF k] that by (simp add: map_of_is_SomeI)
  with i k show ?thesis
    by (fastforce simp: states_ok_def key_sorted_def CanHaveReputation_def GetState_def GetState_id_def)
qed

theorem rep_states_typed_witness:
  "sorted_wrt (<) (map fst (rmFactions demo_mgr)) \<and>
    (\<exists>e. LookupFaction demo_store 2 = Some e \<and> CanHaveReputation e \<and> fe_key e = 5)"
  using rep_states_typed [OF demo_store_ok demo_small demo_rep_reach] by (auto simp: demo_factions)

text \<open>
  C24. The four counters of a manager are the numbers of its factions that are visible, and
  that are at least honored, revered and exalted, in the eight bits they have.
\<close>

theorem rep_counters_exact:
  assumes W: "store_ok W" "numFactions W \<le> 2 ^ 32" and r: "rep_reach W rm"
  shows "rmVisible rm = of_nat (length (filter (\<lambda>(k, s). fsFlags s AND FACTION_FLAG_VISIBLE \<noteq> 0) (rmFactions rm))) \<and>
    rmHonored rm = of_nat (length (filter (\<lambda>(k, s). GetRank W (LookupFaction W (fsID s)) rm \<ge> REP_HONORED) (rmFactions rm))) \<and>
    rmRevered rm = of_nat (length (filter (\<lambda>(k, s). GetRank W (LookupFaction W (fsID s)) rm \<ge> REP_REVERED) (rmFactions rm))) \<and>
    rmExalted rm = of_nat (length (filter (\<lambda>(k, s). GetRank W (LookupFaction W (fsID s)) rm \<ge> REP_EXALTED) (rmFactions rm)))"
proof -
  have i: "rep_inv W rm" by (rule rep_reach_inv [OF W r])
  have "st_rank W s = GetRank W (LookupFaction W (fsID s)) rm" if "(k, s) \<in> set (rmFactions rm)" for k s
  proof -
    have m: "map_of (rmFactions rm) k = Some s"
      using i that by (auto simp: rep_inv_def states_ok_def dest: key_sorted_distinct intro: map_of_is_SomeI)
    with i obtain e where "LookupFaction W (fsID s) = Some e" "0 \<le> feListID e" "fe_key e = k"
      by (auto simp: rep_inv_def states_ok_def)
    with m show ?thesis using GetReputation_state [of e rm s W] by (simp add: st_rank_def GetRank_def)
  qed
  then have "filter (\<lambda>x. st_rank W (snd x) \<ge> R) (rmFactions rm) =
      filter (\<lambda>(k, s). GetRank W (LookupFaction W (fsID s)) rm \<ge> R) (rmFactions rm)" for R
    by (intro filter_cong) auto
  then show ?thesis using i
    by (simp add: rep_inv_def counters_ok_def tally_count visible_def case_prod_unfold)
qed

theorem rep_counters_exact_witness: "rmVisible demo_mgr = 1 \<and> rmHonored demo_mgr = 0"
  using rep_counters_exact [OF demo_store_ok demo_small demo_rep_reach]
  by (simp add: demo_factions demo_ranks FACTION_FLAG_VISIBLE_def REP_HONORED_def)

text \<open>
  C25. Setting one faction's standing, or changing it by an amount scaled by the player's rate,
  leaves the reputation at the value asked for cut off at the lowest and the highest there
  are, and changes no other faction's reputation, when the numbers the code adds and subtracts
  stay within the 32 bits it has for them (\<^const>\<open>set_one_fits\<close>).
\<close>

theorem rep_set_one:
  assumes W: "store_ok W" "numFactions W \<le> 2 ^ 32" and r: "rep_reach W rm" and e: "in_store W e" and s: "GetState e rm \<noteq> None"
    and fits: "set_one_fits W e standing incremental rm"
  shows "\<exists>rm'. SetOneFactionReputation W (Some e) standing incremental rm = Some (True, rm') \<and>
    GetReputation W (Some e) rm' = max (-42000) (min 42999
      (if incremental then roundHalf W (fmul W (fromInt W standing) (rateGain W)) + GetReputation W (Some e) rm else standing)) \<and>
    (\<forall>e'. in_store W e' \<and> e' \<noteq> e \<longrightarrow> GetReputation W (Some e') rm' = GetReputation W (Some e') rm)"
proof -
  have i: "rep_inv W rm" by (rule rep_reach_inv [OF W r])
  have z: "0 \<le> feListID e" and k: "map_of (rmFactions rm) (fe_key e) \<noteq> None"
    using s by (auto simp: GetState_def CanHaveReputation_def GetState_id_def split: if_splits)
  from SetOne_known [OF W(1) i e k, of standing incremental] obtain rm' where
    o: "SetOneFactionReputation W (Some e) standing incremental rm = Some (True, rm')" "same_but (fe_key e) rm rm'"
      "GetReputation W (Some e) rm' = rep_target W e standing incremental rm" by blast
  have "GetReputation W (Some e') rm' = GetReputation W (Some e') rm" if "in_store W e'" "e' \<noteq> e" for e'
    using GetReputation_same_but [OF o(2)] fe_key_inj [OF W(1) e that(1) _ z] that(2) by metis
  with o(1,3) show ?thesis unfolding rep_target_fits [OF fits] rep_clamp_eq by blast
qed

theorem rep_set_one_witness:
  "\<exists>rm'. SetOneFactionReputation demo_store (Some (demo_faction 1 0 0 0x11 3)) 50000 True demo_mgr = Some (True, rm') \<and>
    GetReputation demo_store (Some (demo_faction 1 0 0 0x11 3)) rm' = 42999"
proof -
  have "GetState (demo_faction 1 0 0 0x11 3) demo_mgr \<noteq> None"
    by (simp add: GetState_def CanHaveReputation_def GetState_id_def demo_factions fe_key_def demo_faction_def)
  moreover have rep: "GetReputation demo_store (Some (demo_faction 1 0 0 0x11 3)) demo_mgr = 0" by code_simp
  moreover have base: "GetBaseReputation demo_store (Some (demo_faction 1 0 0 0x11 3)) = 0" by code_simp
  moreover have gain: "roundHalf demo_store (fmul demo_store (fromInt demo_store 50000) (rateGain demo_store)) = 50000"
    by (simp add: demo_store_def)
  moreover have "set_one_fits demo_store (demo_faction 1 0 0 0x11 3) 50000 True demo_mgr"
    by (simp add: set_one_fits_def rep base gain int32_ok_def Reputation_Cap_def Reputation_Bottom_def)
  ultimately show ?thesis
    using rep_set_one [OF demo_store_ok demo_small demo_rep_reach demo_in_store, of 50000 True] by auto
qed

text \<open>
  C23. Setting a reputation never follows a null pointer, whatever spills over to other
  factions, and always ends with the faction itself at the value asked for, cut off at the
  lowest and the highest there are.
\<close>

theorem rep_set_total:
  assumes W: "store_ok W" "numFactions W \<le> 2 ^ 32" "templates_ok W" and r: "rep_reach W rm"
    and e: "in_store W e" and s: "GetState e rm \<noteq> None"
  shows "\<exists>rm'. SetReputation W e standing rm = Some (True, rm') \<and>
    GetReputation W (Some e) rm' = max (-42000) (min 42999 standing)"
proof -
  have k: "map_of (rmFactions rm) (fe_key e) \<noteq> None"
    using s by (auto simp: GetState_def GetState_id_def split: if_splits)
  from SetReputation_total [OF W(1,3) rep_reach_inv [OF W(1,2) r] e k] show ?thesis
    unfolding rep_clamp_eq .
qed

theorem rep_set_total_witness:
  "\<exists>rm'. SetReputation demo_store (demo_faction 1 0 0 0x11 3) (-6000) demo_mgr = Some (True, rm') \<and>
    GetReputation demo_store (Some (demo_faction 1 0 0 0x11 3)) rm' = -6000"
proof -
  have "GetState (demo_faction 1 0 0 0x11 3) demo_mgr \<noteq> None"
    by (simp add: GetState_def CanHaveReputation_def GetState_id_def demo_factions fe_key_def demo_faction_def)
  from rep_set_total [OF demo_store_ok demo_small demo_templates_ok demo_rep_reach demo_in_store this, of "-6000"]
  show ?thesis by simp
qed

text \<open>
  The first packet has a slot for each of the 128 list ids, in order: the flags and the
  standing of the faction there, or zeros; the factions are then no longer pending.
\<close>

theorem rep_initial_packet:
  assumes W: "store_ok W" "numFactions W \<le> 2 ^ 32" and r: "rep_reach W rm"
    and small: "\<forall>(k, s)\<in>set (rmFactions rm). k < 128"
  shows "rmOut (SendInitialReputations rm) = rmOut rm @ [RepPacket SMSG_INITIALIZE_FACTIONS
      (FU32 128 # concat (map (\<lambda>i. case GetState_id (of_nat i) rm of
         Some s \<Rightarrow> [FU8 (fsFlags s), FU32 (word_of_int (fsStanding s))] | None \<Rightarrow> [FU8 0, FU32 0]) [0..<128]))] \<and>
    (\<forall>(k, s)\<in>set (rmFactions (SendInitialReputations rm)). \<not> fsNeedSend s)"
proof -
  have k: "key_sorted (rmFactions rm)" using rep_reach_inv [OF W r] by (simp add: rep_inv_def states_ok_def)
  have "\<forall>k\<in>fst ` set (rmFactions rm). unat (0 :: u32) \<le> unat k \<and> unat k < 128"
    using small by (auto simp: word_less_nat_alt)
  from initial_loop_slots [OF k this] have
    "fst (initial_loop 0 (rmFactions rm)) @ fill_absent (snd (initial_loop 0 (rmFactions rm))) 128 =
      concat (map (initial_slot (rmFactions rm)) [0..<128])" by simp
  moreover have "initial_slot (rmFactions rm) = (\<lambda>i. case GetState_id (of_nat i) rm of
         Some s \<Rightarrow> [FU8 (fsFlags s), FU32 (word_of_int (fsStanding s))] | None \<Rightarrow> [FU8 0, FU32 0])"
    by (rule ext) (simp add: initial_slot_def GetState_id_def)
  ultimately have "fst (initial_loop 0 (rmFactions rm)) @ fill_absent (snd (initial_loop 0 (rmFactions rm))) 128 =
      concat (map (\<lambda>i. case GetState_id (of_nat i) rm of
         Some s \<Rightarrow> [FU8 (fsFlags s), FU32 (word_of_int (fsStanding s))] | None \<Rightarrow> [FU8 0, FU32 0]) [0..<128])"
    by (simp only:)
  moreover obtain fs a where "initial_loop 0 (rmFactions rm) = (fs, a)" by fastforce
  ultimately show ?thesis
    by (auto simp: SendInitialReputations_def rep_emit_def simp del: upt_rec_numeral upt_rec list.map)
qed

theorem rep_initial_packet_witness:
  "rmOut (SendInitialReputations demo_mgr) = rmOut demo_mgr @ [RepPacket SMSG_INITIALIZE_FACTIONS
      (FU32 128 # concat (map (\<lambda>i. case GetState_id (of_nat i) demo_mgr of
         Some s \<Rightarrow> [FU8 (fsFlags s), FU32 (word_of_int (fsStanding s))] | None \<Rightarrow> [FU8 0, FU32 0]) [0..<128]))]"
proof -
  have "\<forall>(k, s)\<in>set (rmFactions demo_mgr). k < 128" by (simp add: demo_factions)
  from conjunct1 [OF rep_initial_packet [OF demo_store_ok demo_small demo_rep_reach this]] show ?thesis .
qed

end
