(* ===== verification/IntrusiveList.thy ===== *)
theory IntrusiveList
  imports Prelude "HOL-Library.Monad_Syntax"
begin

text \<open>
  The intrusive doubly linked list of src/src/common/Dynamic/LinkedList.h over an explicit
  heap: an element is an address, its two pointers are fields of the object there, and
  following a null pointer or one to no object is \<^const>\<open>None\<close>. A list is the nodes between
  the two sentinels of its head; each operation of the code is the operation on that list.
\<close>

section \<open>Elements\<close>

type_synonym addr = nat

record listElement =
  iNext :: "addr option"
  iPrev :: "addr option"

type_synonym heap = "addr \<Rightarrow> listElement option"

definition LinkedListElement_new :: listElement where
  "LinkedListElement_new = \<lparr>iNext = None, iPrev = None\<rparr>"

text \<open>Reading and writing through a pointer.\<close>

definition deref :: "heap \<Rightarrow> addr option \<Rightarrow> listElement option" where
  "deref h p = Option.bind p h"

definition put_next :: "addr option \<Rightarrow> addr option \<Rightarrow> heap \<Rightarrow> heap option" where
  "put_next p v h = do { a \<leftarrow> p; e \<leftarrow> h a; Some (h(a \<mapsto> e\<lparr>iNext := v\<rparr>)) }"

definition put_prev :: "addr option \<Rightarrow> addr option \<Rightarrow> heap \<Rightarrow> heap option" where
  "put_prev p v h = do { a \<leftarrow> p; e \<leftarrow> h a; Some (h(a \<mapsto> e\<lparr>iPrev := v\<rparr>)) }"

definition hasNext :: "addr \<Rightarrow> heap \<Rightarrow> bool option" where
  "hasNext this h = do { e \<leftarrow> h this;
     if iNext e = None then Some False else do { n \<leftarrow> deref h (iNext e); Some (iNext n \<noteq> None) } }"

definition hasPrev :: "addr \<Rightarrow> heap \<Rightarrow> bool option" where
  "hasPrev this h = do { e \<leftarrow> h this;
     if iPrev e = None then Some False else do { n \<leftarrow> deref h (iPrev e); Some (iPrev n \<noteq> None) } }"

definition isInList :: "listElement \<Rightarrow> bool" where
  "isInList e = (iNext e \<noteq> None \<and> iPrev e \<noteq> None)"

definition next_of :: "addr \<Rightarrow> heap \<Rightarrow> addr option option" where
  "next_of this h = do { b \<leftarrow> hasNext this h; e \<leftarrow> h this; Some (if b then iNext e else None) }"

definition prev_of :: "addr \<Rightarrow> heap \<Rightarrow> addr option option" where
  "prev_of this h = do { b \<leftarrow> hasPrev this h; e \<leftarrow> h this; Some (if b then iPrev e else None) }"

text \<open>Each assignment reads the fields again: the pointers may lead back to the element.\<close>

definition delink :: "addr \<Rightarrow> heap \<Rightarrow> heap option" where
  "delink this h = do {
     e \<leftarrow> h this;
     if isInList e then do {
       h \<leftarrow> put_prev (iNext e) (iPrev e) h;
       e \<leftarrow> h this;
       h \<leftarrow> put_next (iPrev e) (iNext e) h;
       h \<leftarrow> put_next (Some this) None h;
       put_prev (Some this) None h
     } else Some h }"

definition insertBefore :: "addr \<Rightarrow> addr \<Rightarrow> heap \<Rightarrow> heap option" where
  "insertBefore this pElem h = do {
     h \<leftarrow> put_next (Some pElem) (Some this) h;
     e \<leftarrow> h this;
     h \<leftarrow> put_prev (Some pElem) (iPrev e) h;
     e \<leftarrow> h this;
     h \<leftarrow> put_next (iPrev e) (Some pElem) h;
     put_prev (Some this) (Some pElem) h }"

definition insertAfter :: "addr \<Rightarrow> addr \<Rightarrow> heap \<Rightarrow> heap option" where
  "insertAfter this pElem h = do {
     h \<leftarrow> put_prev (Some pElem) (Some this) h;
     e \<leftarrow> h this;
     h \<leftarrow> put_next (Some pElem) (iNext e) h;
     e \<leftarrow> h this;
     h \<leftarrow> put_prev (iNext e) (Some pElem) h;
     put_next (Some this) (Some pElem) h }"

section \<open>Heads\<close>

text \<open>A head holds its two sentinels by value: their addresses are those of its members.\<close>

record listHead =
  iFirst :: addr
  iLast :: addr
  iSize :: u32

definition LinkedListHead_new :: "addr \<Rightarrow> addr \<Rightarrow> heap \<Rightarrow> listHead \<times> heap" where
  "LinkedListHead_new f l h =
     (\<lparr>iFirst = f, iLast = l, iSize = 0\<rparr>,
      h(f \<mapsto> LinkedListElement_new\<lparr>iNext := Some l\<rparr>, l \<mapsto> LinkedListElement_new\<lparr>iPrev := Some f\<rparr>))"

definition isEmpty :: "listHead \<Rightarrow> heap \<Rightarrow> bool option" where
  "isEmpty lh h = do { e \<leftarrow> h (iFirst lh); n \<leftarrow> deref h (iNext e); Some (\<not> isInList n) }"

definition getFirst :: "listHead \<Rightarrow> heap \<Rightarrow> addr option option" where
  "getFirst lh h = do { b \<leftarrow> isEmpty lh h; e \<leftarrow> h (iFirst lh); Some (if b then None else iNext e) }"

definition getLast :: "listHead \<Rightarrow> heap \<Rightarrow> addr option option" where
  "getLast lh h = do { b \<leftarrow> isEmpty lh h; e \<leftarrow> h (iLast lh); Some (if b then None else iPrev e) }"

definition insertFirst :: "listHead \<Rightarrow> addr \<Rightarrow> heap \<Rightarrow> heap option" where
  "insertFirst lh pElem h = insertAfter (iFirst lh) pElem h"

definition insertLast :: "listHead \<Rightarrow> addr \<Rightarrow> heap \<Rightarrow> heap option" where
  "insertLast lh pElem h = insertBefore (iLast lh) pElem h"

text \<open>The loop of \<^verbatim>\<open>getSize\<close>; \<^const>\<open>None\<close> when it crashes or never ends.\<close>

partial_function (option) size_loop :: "heap \<Rightarrow> addr option \<Rightarrow> u32 \<Rightarrow> u32 option" where
  "size_loop h e result =
     (case e of None \<Rightarrow> Some result
      | Some a \<Rightarrow> do { e \<leftarrow> next_of a h; size_loop h e (result + 1) })"

definition getSize :: "listHead \<Rightarrow> heap \<Rightarrow> u32 option" where
  "getSize lh h = (if iSize lh = 0 then do { e \<leftarrow> getFirst lh h; size_loop h e 0 } else Some (iSize lh))"

definition incSize :: "listHead \<Rightarrow> listHead" where
  "incSize lh = lh\<lparr>iSize := iSize lh + 1\<rparr>"

definition decSize :: "listHead \<Rightarrow> listHead" where
  "decSize lh = lh\<lparr>iSize := iSize lh - 1\<rparr>"

text \<open>
  The loop every owner of a list runs, \<^verbatim>\<open>for (e = getFirst(); e != NULL; e = e->next())\<close>:
  the elements it visits.
\<close>

partial_function (option) walk :: "heap \<Rightarrow> addr option \<Rightarrow> addr list option" where
  "walk h e =
     (case e of None \<Rightarrow> Some []
      | Some a \<Rightarrow> do { e \<leftarrow> next_of a h; es \<leftarrow> walk h e; Some (a # es) })"

definition elements :: "listHead \<Rightarrow> heap \<Rightarrow> addr list option" where
  "elements lh h = do { e \<leftarrow> getFirst lh h; walk h e }"

text \<open>The comparisons of \<^verbatim>\<open>Iterator\<close> with a pointer, as the code writes them: each says the opposite.\<close>

definition iterator_eq_ptr :: "addr option \<Rightarrow> addr option \<Rightarrow> bool" where
  "iterator_eq_ptr it p = (it \<noteq> p)"

definition iterator_ne_ptr :: "addr option \<Rightarrow> addr option \<Rightarrow> bool" where
  "iterator_ne_ptr it p = (\<not> iterator_eq_ptr it p)"

lemma iterator_ptr_inverted: "iterator_eq_ptr it p \<longleftrightarrow> it \<noteq> p" "iterator_ne_ptr it p \<longleftrightarrow> it = p"
  by (simp_all add: iterator_eq_ptr_def iterator_ne_ptr_def)

section \<open>The list between the sentinels\<close>

definition nx :: "heap \<Rightarrow> addr \<Rightarrow> addr option" where
  "nx h p = Option.bind (h p) iNext"

definition pv :: "heap \<Rightarrow> addr \<Rightarrow> addr option" where
  "pv h p = Option.bind (h p) iPrev"

fun linked :: "heap \<Rightarrow> addr list \<Rightarrow> bool" where
  "linked h (a # b # ns) = (nx h a = Some b \<and> pv h b = Some a \<and> linked h (b # ns))"
| "linked h ns = True"

definition nodes :: "listHead \<Rightarrow> addr list \<Rightarrow> addr list" where
  "nodes lh xs = iFirst lh # xs @ [iLast lh]"

definition dlist :: "heap \<Rightarrow> listHead \<Rightarrow> addr list \<Rightarrow> bool" where
  "dlist h lh xs \<longleftrightarrow> distinct (nodes lh xs) \<and> linked h (nodes lh xs) \<and> pv h (iFirst lh) = None \<and> nx h (iLast lh) = None"

lemma linked_append: "linked h (us @ a # vs) \<longleftrightarrow> linked h (us @ [a]) \<and> linked h (a # vs)"
proof (induction us)
  case (Cons u us)
  then show ?case by (cases us) auto
qed simp

lemma linked_cong:
  "(\<And>p. p \<in> set (butlast ns) \<Longrightarrow> nx h' p = nx h p) \<Longrightarrow> (\<And>p. p \<in> set (tl ns) \<Longrightarrow> pv h' p = pv h p) \<Longrightarrow> linked h' ns = linked h ns"
proof (induction h ns rule: linked.induct)
  case (1 h a b ns)
  then show ?case by (cases ns) auto
qed simp_all

lemma nx_alloc: "nx h p = Some q \<Longrightarrow> \<exists>e. h p = Some e \<and> iNext e = Some q"
  by (auto simp: nx_def bind_eq_Some_conv)

lemma pv_alloc: "pv h p = Some q \<Longrightarrow> \<exists>e. h p = Some e \<and> iPrev e = Some q"
  by (auto simp: pv_def bind_eq_Some_conv)

text \<open>A write through a pointer to an object, in terms of the two fields of all objects.\<close>

definition writes :: "heap \<Rightarrow> heap \<Rightarrow> (addr \<Rightarrow> addr option) \<Rightarrow> (addr \<Rightarrow> addr option) \<Rightarrow> bool" where
  "writes h h' n p \<longleftrightarrow> dom h' = dom h \<and> nx h' = n \<and> pv h' = p"

lemma put_next_writes: "a \<in> dom h \<Longrightarrow> \<exists>h'. put_next (Some a) v h = Some h' \<and> writes h h' ((nx h)(a := v)) (pv h)"
  by (rule exI [of _ "h(a \<mapsto> the (h a)\<lparr>iNext := v\<rparr>)"])
    (auto simp: put_next_def writes_def nx_def pv_def fun_eq_iff)

lemma put_prev_writes: "a \<in> dom h \<Longrightarrow> \<exists>h'. put_prev (Some a) v h = Some h' \<and> writes h h' (nx h) ((pv h)(a := v))"
  by (rule exI [of _ "h(a \<mapsto> the (h a)\<lparr>iPrev := v\<rparr>)"])
    (auto simp: put_prev_def writes_def nx_def pv_def fun_eq_iff)

lemma field_read: "a \<in> dom h \<Longrightarrow> \<exists>e. h a = Some e \<and> iNext e = nx h a \<and> iPrev e = pv h a"
  by (auto simp: nx_def pv_def)

section \<open>The operations on the list\<close>

lemma delink_writes:
  assumes n: "nx h x = Some b" and p: "pv h x = Some a" and d: "a \<in> dom h" "b \<in> dom h" "a \<noteq> x" "b \<noteq> x"
  shows "\<exists>h'. delink x h = Some h' \<and> writes h h' ((nx h)(a := Some b, x := None)) ((pv h)(b := Some a, x := None))"
proof -
  have x: "x \<in> dom h" using nx_alloc [OF n] by blast
  from field_read [OF x] n p obtain e where e: "h x = Some e" "iNext e = Some b" "iPrev e = Some a" by auto
  from put_prev_writes [OF d(2)] obtain h1 where
    1: "put_prev (Some b) (Some a) h = Some h1" "writes h h1 (nx h) ((pv h)(b := Some a))" by blast
  then have x1: "x \<in> dom h1" "a \<in> dom h1" using x d by (auto simp: writes_def)
  from field_read [OF x1(1)] 1(2) n p d(4) obtain e1 where
    e1: "h1 x = Some e1" "iNext e1 = Some b" "iPrev e1 = Some a" by (auto simp: writes_def)
  from put_next_writes [OF x1(2)] 1(2) obtain h2 where
    2: "put_next (Some a) (Some b) h1 = Some h2" "writes h h2 ((nx h)(a := Some b)) ((pv h)(b := Some a))"
    unfolding writes_def by metis
  from put_next_writes [of x h2 None] x 2(2) obtain h3 where
    3: "put_next (Some x) None h2 = Some h3" "writes h h3 ((nx h)(a := Some b, x := None)) ((pv h)(b := Some a))"
    unfolding writes_def by metis
  from put_prev_writes [of x h3 None] x 3(2) obtain h4 where
    4: "put_prev (Some x) None h3 = Some h4"
      "writes h h4 ((nx h)(a := Some b, x := None)) ((pv h)(b := Some a, x := None))"
    unfolding writes_def by metis
  show ?thesis using e e1 1(1) 2(1) 3(1) 4 by (simp add: delink_def isInList_def)
qed

lemma delink_idle: "h x = Some e \<Longrightarrow> nx h x = None \<or> pv h x = None \<Longrightarrow> delink x h = Some h"
  by (auto simp: delink_def isInList_def nx_def pv_def)

lemma insertAfter_writes:
  assumes n: "nx h a = Some b" and d: "x \<in> dom h" "b \<in> dom h" "a \<noteq> x"
  shows "\<exists>h'. insertAfter a x h = Some h' \<and>
    writes h h' ((nx h)(x := Some b, a := Some x)) ((pv h)(x := Some a, b := Some x))"
proof -
  have a: "a \<in> dom h" using nx_alloc [OF n] by blast
  from put_prev_writes [OF d(1)] obtain h1 where
    1: "put_prev (Some x) (Some a) h = Some h1" "writes h h1 (nx h) ((pv h)(x := Some a))" by blast
  from field_read [of a h1] 1(2) a n obtain e1 where e1: "h1 a = Some e1" "iNext e1 = Some b" by (auto simp: writes_def)
  from put_next_writes [of x h1 "Some b"] d(1) 1(2) obtain h2 where
    2: "put_next (Some x) (Some b) h1 = Some h2" "writes h h2 ((nx h)(x := Some b)) ((pv h)(x := Some a))"
    unfolding writes_def by metis
  from field_read [of a h2] 2(2) a n d(3) obtain e2 where e2: "h2 a = Some e2" "iNext e2 = Some b" by (auto simp: writes_def)
  from put_prev_writes [of b h2 "Some x"] d(2) 2(2) obtain h3 where
    3: "put_prev (Some b) (Some x) h2 = Some h3" "writes h h3 ((nx h)(x := Some b)) ((pv h)(x := Some a, b := Some x))"
    unfolding writes_def by metis
  from put_next_writes [of a h3 "Some x"] a 3(2) obtain h4 where
    4: "put_next (Some a) (Some x) h3 = Some h4"
      "writes h h4 ((nx h)(x := Some b, a := Some x)) ((pv h)(x := Some a, b := Some x))"
    unfolding writes_def by metis
  show ?thesis using 1(1) 2(1) 3(1) 4 e1 e2 by (simp add: insertAfter_def)
qed

lemma insertBefore_writes:
  assumes p: "pv h b = Some a" and d: "x \<in> dom h" "a \<in> dom h" "b \<noteq> x"
  shows "\<exists>h'. insertBefore b x h = Some h' \<and>
    writes h h' ((nx h)(x := Some b, a := Some x)) ((pv h)(x := Some a, b := Some x))"
proof -
  have b: "b \<in> dom h" using pv_alloc [OF p] by blast
  from put_next_writes [OF d(1)] obtain h1 where
    1: "put_next (Some x) (Some b) h = Some h1" "writes h h1 ((nx h)(x := Some b)) (pv h)" by blast
  from field_read [of b h1] 1(2) b p obtain e1 where e1: "h1 b = Some e1" "iPrev e1 = Some a" by (auto simp: writes_def)
  from put_prev_writes [of x h1 "Some a"] d(1) 1(2) obtain h2 where
    2: "put_prev (Some x) (Some a) h1 = Some h2" "writes h h2 ((nx h)(x := Some b)) ((pv h)(x := Some a))"
    unfolding writes_def by metis
  from field_read [of b h2] 2(2) b p d(3) obtain e2 where e2: "h2 b = Some e2" "iPrev e2 = Some a" by (auto simp: writes_def)
  from put_next_writes [of a h2 "Some x"] d(2) 2(2) obtain h3 where
    3: "put_next (Some a) (Some x) h2 = Some h3" "writes h h3 ((nx h)(x := Some b, a := Some x)) ((pv h)(x := Some a))"
    unfolding writes_def by metis
  from put_prev_writes [of b h3 "Some x"] b 3(2) obtain h4 where
    4: "put_prev (Some b) (Some x) h3 = Some h4"
      "writes h h4 ((nx h)(x := Some b, a := Some x)) ((pv h)(x := Some a, b := Some x))"
    unfolding writes_def by metis
  show ?thesis using 1(1) 2(1) 3(1) 4 e1 e2 by (simp add: insertBefore_def)
qed

text \<open>A list node has both neighbours, and they are objects.\<close>

lemma linked_alloc: "linked h ns \<Longrightarrow> Suc (Suc 0) \<le> length ns \<Longrightarrow> set ns \<subseteq> dom h"
proof (induction h ns rule: linked.induct)
  case (1 h a b ns)
  then show ?case using nx_alloc pv_alloc by (cases ns) fastforce+
qed simp_all

lemma dlist_alloc: "dlist h lh xs \<Longrightarrow> set (nodes lh xs) \<subseteq> dom h"
  unfolding dlist_def by (rule linked_alloc) (simp_all add: nodes_def)

lemma linked_insert:
  assumes l: "linked h (us @ a # b # vs)" and d: "distinct (us @ a # b # vs)" and x: "x \<notin> set (us @ a # b # vs)"
    and w: "writes h h' ((nx h)(x := Some b, a := Some x)) ((pv h)(x := Some a, b := Some x))"
  shows "linked h' (us @ a # x # b # vs)"
proof -
  have "linked h' (us @ [a]) = linked h (us @ [a])"
  proof (rule linked_cong)
    fix p assume "p \<in> set (butlast (us @ [a]))"
    with d x w show "nx h' p = nx h p" by (auto simp: writes_def)
  next
    fix p assume "p \<in> set (tl (us @ [a]))"
    then have "p \<in> set us \<or> p = a" by (cases us) auto
    with d x w show "pv h' p = pv h p" by (auto simp: writes_def)
  qed
  moreover have "linked h' (b # vs) = linked h (b # vs)"
  proof (rule linked_cong)
    fix p assume "p \<in> set (butlast (b # vs))"
    with d x w show "nx h' p = nx h p" by (auto simp: writes_def dest: in_set_butlastD split: if_splits)
  next
    fix p assume "p \<in> set (tl (b # vs))"
    with d x w show "pv h' p = pv h p" by (auto simp: writes_def)
  qed
  moreover have "linked h (us @ [a])" "linked h (b # vs)"
    using l linked_append [of h us a "b # vs"] by auto
  moreover have "a \<noteq> b" "x \<noteq> a" "x \<noteq> b" using d x by auto
  ultimately show ?thesis using w linked_append [of h' us a "x # b # vs"] by (auto simp: writes_def)
qed

lemma linked_remove:
  assumes l: "linked h (us @ a # x # b # vs)" and d: "distinct (us @ a # x # b # vs)"
    and w: "writes h h' ((nx h)(a := Some b, x := None)) ((pv h)(b := Some a, x := None))"
  shows "linked h' (us @ a # b # vs)"
proof -
  have "linked h' (us @ [a]) = linked h (us @ [a])"
  proof (rule linked_cong)
    fix p assume "p \<in> set (butlast (us @ [a]))"
    with d w show "nx h' p = nx h p" by (auto simp: writes_def)
  next
    fix p assume "p \<in> set (tl (us @ [a]))"
    then have "p \<in> set us \<or> p = a" by (cases us) auto
    with d w show "pv h' p = pv h p" by (auto simp: writes_def)
  qed
  moreover have "linked h' (b # vs) = linked h (b # vs)"
  proof (rule linked_cong)
    fix p assume "p \<in> set (butlast (b # vs))"
    with d w show "nx h' p = nx h p" by (auto simp: writes_def dest: in_set_butlastD split: if_splits)
  next
    fix p assume "p \<in> set (tl (b # vs))"
    with d w show "pv h' p = pv h p" by (auto simp: writes_def)
  qed
  moreover have "linked h (us @ [a])" "linked h (b # vs)"
    using l linked_append [of h us a "x # b # vs"] by auto
  moreover have "a \<noteq> b" "a \<noteq> x" "x \<noteq> b" using d by auto
  ultimately show ?thesis using w linked_append [of h' us a "b # vs"] by (auto simp: writes_def)
qed

text \<open>What a change leaves alone.\<close>

definition frame :: "addr set \<Rightarrow> heap \<Rightarrow> heap \<Rightarrow> bool" where
  "frame S h h' \<longleftrightarrow> dom h' = dom h \<and> (\<forall>p. p \<notin> S \<longrightarrow> nx h' p = nx h p \<and> pv h' p = pv h p)"

lemma dlist_frame:
  assumes "dlist h lh xs" "frame S h h'" "set (nodes lh xs) \<inter> S = {}" shows "dlist h' lh xs"
proof -
  have same: "nx h' p = nx h p" "pv h' p = pv h p" if "p \<in> set (nodes lh xs)" for p
    using assms(2,3) that by (auto simp: frame_def)
  have "linked h' (nodes lh xs) = linked h (nodes lh xs)"
    by (rule linked_cong) (auto intro!: same dest: in_set_butlastD simp: nodes_def)
  with assms(1) same show ?thesis by (simp add: dlist_def) (simp add: nodes_def)
qed

lemma linked_insertion:
  assumes D: "dlist h lh xs" and x: "x \<in> dom h" "x \<notin> set (nodes lh xs)" and n: "nodes lh xs = us @ a # b # vs"
    and n': "nodes lh ys = us @ a # x # b # vs"
    and w: "writes h h' ((nx h)(x := Some b, a := Some x)) ((pv h)(x := Some a, b := Some x))"
  shows "dlist h' lh ys \<and> frame (insert x (set (nodes lh xs))) h h'"
proof -
  have d: "distinct (us @ a # b # vs)" "linked h (us @ a # b # vs)" using D n by (simp_all add: dlist_def)
  from linked_insert [OF d(2,1) _ w] x n have "linked h' (nodes lh ys)" by (simp add: n')
  moreover have "distinct (nodes lh ys)" using d x n by (auto simp: n')
  moreover have "iFirst lh \<noteq> x" "iLast lh \<noteq> x" using x by (auto simp: nodes_def)
  moreover have "iFirst lh \<noteq> b"
  proof
    assume "iFirst lh = b"
    with n d(1) show False by (cases us) (auto simp: nodes_def)
  qed
  moreover have "iLast lh \<noteq> a"
  proof
    assume a: "iLast lh = a"
    have "last (nodes lh xs) = last (b # vs)" by (simp add: n)
    then have "a \<in> set (b # vs)" using a last_in_set [of "b # vs"] by (simp add: nodes_def split: if_splits)
    with d(1) show False by auto
  qed
  ultimately have "dlist h' lh ys" using D w by (auto simp: dlist_def writes_def)
  moreover have "frame (insert x (set (nodes lh xs))) h h'" using w n by (auto simp: frame_def writes_def)
  ultimately show ?thesis by blast
qed

lemma dlist_insertFirst:
  assumes D: "dlist h lh xs" and x: "x \<in> dom h" "x \<notin> set (nodes lh xs)"
  shows "\<exists>h'. insertFirst lh x h = Some h' \<and> dlist h' lh (x # xs) \<and> frame (insert x (set (nodes lh xs))) h h'"
proof -
  obtain b vs where b: "xs @ [iLast lh] = b # vs" by (cases xs) auto
  then have n: "nodes lh xs = [] @ iFirst lh # b # vs" "nodes lh (x # xs) = [] @ iFirst lh # x # b # vs"
    by (simp_all add: nodes_def)
  have "nx h (iFirst lh) = Some b" using D n by (simp add: dlist_def)
  moreover have "b \<in> dom h" "iFirst lh \<noteq> x" using dlist_alloc [OF D] n(1) x by auto
  ultimately obtain h' where "insertFirst lh x h = Some h'"
      "writes h h' ((nx h)(x := Some b, iFirst lh := Some x)) ((pv h)(x := Some (iFirst lh), b := Some x))"
    unfolding insertFirst_def using insertAfter_writes x(1) by blast
  with linked_insertion [OF D x n] show ?thesis by blast
qed

lemma dlist_insertLast:
  assumes D: "dlist h lh xs" and x: "x \<in> dom h" "x \<notin> set (nodes lh xs)"
  shows "\<exists>h'. insertLast lh x h = Some h' \<and> dlist h' lh (xs @ [x]) \<and> frame (insert x (set (nodes lh xs))) h h'"
proof -
  obtain a us where a: "iFirst lh # xs = us @ [a]" by (metis list.distinct(1) rev_exhaust)
  then have n: "nodes lh xs = us @ a # iLast lh # []" "nodes lh (xs @ [x]) = us @ a # x # iLast lh # []"
    by (simp_all add: nodes_def)
  have "pv h (iLast lh) = Some a" using D n linked_append [of h us a "[iLast lh]"] by (simp add: dlist_def)
  moreover have "a \<in> dom h" "iLast lh \<noteq> x" using dlist_alloc [OF D] n x by auto
  ultimately obtain h' where "insertLast lh x h = Some h'"
      "writes h h' ((nx h)(x := Some (iLast lh), a := Some x)) ((pv h)(x := Some a, iLast lh := Some x))"
    unfolding insertLast_def using insertBefore_writes x(1) by blast
  with linked_insertion [OF D x n] show ?thesis by blast
qed

lemma dlist_delink:
  assumes D: "dlist h lh xs" and x: "x \<in> set xs"
  shows "\<exists>h'. delink x h = Some h' \<and> dlist h' lh (remove1 x xs) \<and> nx h' x = None \<and> pv h' x = None \<and>
    frame (set (nodes lh xs)) h h'"
proof -
  from x obtain ys zs where xs: "xs = ys @ x # zs" "x \<notin> set ys" by (metis split_list_first)
  obtain a us where a: "iFirst lh # ys = us @ [a]" by (metis list.distinct(1) rev_exhaust)
  obtain b vs where b: "zs @ [iLast lh] = b # vs" by (cases zs) auto
  have n: "nodes lh xs = us @ a # x # b # vs" using a b xs(1) by (simp add: nodes_def)
  have n': "nodes lh (remove1 x xs) = us @ a # b # vs" using a b xs by (simp add: nodes_def remove1_append)
  have d: "distinct (us @ a # x # b # vs)" "linked h (us @ a # x # b # vs)" using D n by (simp_all add: dlist_def)
  then have "linked h (a # x # b # vs)" using linked_append by blast
  then have "nx h x = Some b" "pv h x = Some a" by simp_all
  from delink_writes [OF this] dlist_alloc [OF D] d(1) n obtain h' where
    h': "delink x h = Some h'" "writes h h' ((nx h)(a := Some b, x := None)) ((pv h)(b := Some a, x := None))"
    by auto
  from linked_remove [OF d(2,1) h'(2)] have "linked h' (nodes lh (remove1 x xs))" by (simp add: n')
  moreover have "distinct (nodes lh (remove1 x xs))" using d by (simp add: n')
  moreover have "iFirst lh \<noteq> b"
  proof
    assume "iFirst lh = b"
    with n d(1) show False by (cases us) (auto simp: nodes_def)
  qed
  moreover have "iLast lh \<noteq> a"
  proof
    assume e: "iLast lh = a"
    have "last (nodes lh xs) = last (b # vs)" by (simp add: n)
    then have "a \<in> set (b # vs)" using e last_in_set [of "b # vs"] by (simp add: nodes_def split: if_splits)
    with d(1) show False by auto
  qed
  ultimately have "dlist h' lh (remove1 x xs)" using D h'(2) by (auto simp: dlist_def writes_def)
  moreover have "frame (set (nodes lh xs)) h h'" using h'(2) n by (auto simp: frame_def writes_def)
  ultimately show ?thesis using h' d(1) by (auto simp: writes_def)
qed

section \<open>Walking the list\<close>

lemma next_of_linked:
  assumes "linked h (a # b # c # ns)"
  shows "next_of a h = Some (Some b)"
proof -
  from assms have n: "nx h a = Some b" "nx h b = Some c" by simp_all
  from nx_alloc [OF n(1)] nx_alloc [OF n(2)] show ?thesis by (auto simp: next_of_def hasNext_def deref_def)
qed

lemma next_of_last:
  assumes "linked h [a, b]" "nx h b = None"
  shows "next_of a h = Some None"
proof -
  from assms(1) have n: "nx h a = Some b" "pv h b = Some a" by simp_all
  from nx_alloc [OF n(1)] pv_alloc [OF n(2)] assms(2) show ?thesis
    by (auto simp: next_of_def hasNext_def deref_def nx_def)
qed

lemma walk_linked:
  "linked h (xs @ [l]) \<Longrightarrow> nx h l = None \<Longrightarrow> walk h (if xs = [] then None else Some (xs ! 0)) = Some xs"
proof (induction xs)
  case (Cons a xs)
  show ?case
  proof (cases xs)
    case Nil
    with next_of_last [of h a l] Cons.prems show ?thesis by (simp add: walk.simps [of h "Some a"] walk.simps [of h None])
  next
    case (Cons b ys)
    then obtain c zs where "ys @ [l] = c # zs" by (cases ys) auto
    with Cons Cons.prems next_of_linked [of h a b c zs] have "next_of a h = Some (Some b)" by simp
    with Cons Cons.IH Cons.prems show ?thesis by (simp add: walk.simps [of h "Some a"])
  qed
qed (simp add: walk.simps)

lemma size_loop_walk:
  "walk h e = Some xs \<Longrightarrow> size_loop h e n = Some (n + of_nat (length xs))"
proof (induction xs arbitrary: e n)
  case Nil
  then have "e = None" by (cases e) (auto simp: walk.simps [of h "Some _"] split: bind_splits)
  then show ?case by (simp add: size_loop.simps)
next
  case (Cons x xs)
  then obtain a e' where "e = Some a" "next_of a h = Some e'" "walk h e' = Some xs"
    unfolding walk.simps [of h e] by (auto split: option.splits bind_splits)
  with Cons.IH [of e' "n + 1"] show ?case by (simp add: size_loop.simps [of h "Some a"] algebra_simps)
qed

lemma dlist_isEmpty:
  assumes D: "dlist h lh xs" shows "isEmpty lh h = Some (xs = [])"
proof (cases xs)
  case Nil
  with D have n: "nx h (iFirst lh) = Some (iLast lh)" "pv h (iLast lh) = Some (iFirst lh)" "nx h (iLast lh) = None"
    by (simp_all add: dlist_def nodes_def)
  from nx_alloc [OF n(1)] pv_alloc [OF n(2)] n(3) Nil show ?thesis
    by (auto simp: isEmpty_def deref_def isInList_def nx_def)
next
  case (Cons b ys)
  obtain c zs where "ys @ [iLast lh] = c # zs" by (cases ys) auto
  with D Cons have n: "nx h (iFirst lh) = Some b" "pv h b = Some (iFirst lh)" "nx h b = Some c"
    by (simp_all add: dlist_def nodes_def)
  from nx_alloc [OF n(1)] nx_alloc [OF n(3)] n(2) Cons show ?thesis
    by (auto simp: isEmpty_def deref_def isInList_def pv_def)
qed

lemma dlist_getFirst:
  assumes D: "dlist h lh xs" shows "getFirst lh h = Some (if xs = [] then None else Some (xs ! 0))"
proof -
  obtain b vs where b: "xs @ [iLast lh] = b # vs" by (cases xs) auto
  with D have n: "nx h (iFirst lh) = Some b" by (simp add: dlist_def nodes_def)
  from nx_alloc [OF n] b dlist_isEmpty [OF D] show ?thesis by (cases xs) (auto simp: getFirst_def)
qed

lemma dlist_getLast:
  assumes D: "dlist h lh xs" shows "getLast lh h = Some (if xs = [] then None else Some (last xs))"
proof -
  obtain a us where a: "iFirst lh # xs = us @ [a]" by (metis list.distinct(1) rev_exhaust)
  then have "nodes lh xs = us @ a # [iLast lh]" by (simp add: nodes_def)
  then have "pv h (iLast lh) = Some a" using D linked_append [of h us a "[iLast lh]"] by (simp add: dlist_def)
  moreover have "xs \<noteq> [] \<Longrightarrow> a = last xs" using a by (metis last_ConsR last_snoc)
  ultimately show ?thesis using pv_alloc dlist_isEmpty [OF D] by (fastforce simp: getLast_def)
qed

lemma dlist_elements:
  assumes D: "dlist h lh xs" shows "elements lh h = Some xs"
proof -
  have "linked h (xs @ [iLast lh])" using D linked_append [of h "[]" "iFirst lh" "xs @ [iLast lh]"]
    by (cases "xs @ [iLast lh]") (auto simp: dlist_def nodes_def)
  from walk_linked [OF this] D dlist_getFirst [OF D] show ?thesis by (simp add: elements_def dlist_def)
qed

lemma dlist_getSize:
  assumes D: "dlist h lh xs" and "iSize lh = 0" shows "getSize lh h = Some (of_nat (length xs))"
proof -
  from dlist_elements [OF D] dlist_getFirst [OF D] have "walk h (if xs = [] then None else Some (xs ! 0)) = Some xs"
    by (simp add: elements_def)
  from size_loop_walk [OF this, of 0] assms(2) dlist_getFirst [OF D] show ?thesis by (simp add: getSize_def)
qed

lemma dlist_new:
  "f \<noteq> l \<Longrightarrow> LinkedListHead_new f l h = (lh, h') \<Longrightarrow> dlist h' lh []"
  by (auto simp: LinkedListHead_new_def dlist_def nodes_def nx_def pv_def LinkedListElement_new_def)

end
