(* ===== verification/RefManager.thy ===== *)
theory RefManager
  imports IntrusiveList
begin

text \<open>
  References that know their target and targets that list their references:
  src/src/common/Dynamic/LinkedReference/Reference.h and RefManager.h, with the three hooks of
  src/src/server/game/Groups/GroupReference.cpp. A reference is a list element, so it is its
  address; a target has a list head. The managers' lists are refined to one list per target.
\<close>

section \<open>References and managers\<close>

record ('t, 's) refState =
  rsHeap :: heap
  rsTo :: "addr \<Rightarrow> 't option"
  rsFrom :: "addr \<Rightarrow> 's option"
  rsMgr :: "'t \<Rightarrow> listHead option"

definition isValid :: "addr \<Rightarrow> ('t, 's) refState \<Rightarrow> bool" where
  "isValid p s = (rsTo s p \<noteq> None)"

text \<open>The hook of a group's references: \<^verbatim>\<open>getTarget()->LinkMember(this)\<close>. The other two do nothing.\<close>

definition targetObjectBuildLink :: "addr \<Rightarrow> ('t, 's) refState \<Rightarrow> ('t, 's) refState option" where
  "targetObjectBuildLink p s = do {
     t \<leftarrow> rsTo s p; lh \<leftarrow> rsMgr s t; h \<leftarrow> insertFirst lh p (rsHeap s); Some (s\<lparr>rsHeap := h\<rparr>) }"

definition ref_unlink :: "addr \<Rightarrow> ('t, 's) refState \<Rightarrow> ('t, 's) refState option" where
  "ref_unlink p s = do {
     h \<leftarrow> delink p (rsHeap s);
     Some (s\<lparr>rsHeap := h, rsTo := (rsTo s)(p := None), rsFrom := (rsFrom s)(p := None)\<rparr>) }"

definition ref_link :: "addr \<Rightarrow> 't option \<Rightarrow> 's option \<Rightarrow> ('t, 's) refState \<Rightarrow> ('t, 's) refState option" where
  "ref_link p toObj fromObj s =
     (if fromObj = None then None
      else do {
        s \<leftarrow> (if isValid p s then ref_unlink p s else Some s);
        if toObj \<noteq> None
        then targetObjectBuildLink p (s\<lparr>rsTo := (rsTo s)(p := toObj), rsFrom := (rsFrom s)(p := fromObj)\<rparr>)
        else Some s })"

definition ref_invalidate :: "addr \<Rightarrow> ('t, 's) refState \<Rightarrow> ('t, 's) refState option" where
  "ref_invalidate p s = do { h \<leftarrow> delink p (rsHeap s); Some (s\<lparr>rsHeap := h, rsTo := (rsTo s)(p := None)\<rparr>) }"

partial_function (option) clearReferences :: "listHead \<Rightarrow> ('t, 's) refState \<Rightarrow> ('t, 's) refState option" where
  "clearReferences lh s = do {
     ref \<leftarrow> getFirst lh (rsHeap s);
     (case ref of None \<Rightarrow> Some s
      | Some p \<Rightarrow> do {
          s \<leftarrow> ref_invalidate p s;
          h \<leftarrow> delink p (rsHeap s);
          clearReferences lh (s\<lparr>rsHeap := h\<rparr>) }) }"

section \<open>One list per target\<close>

definition refs_ok :: "addr set \<Rightarrow> ('t, 's) refState \<Rightarrow> ('t \<Rightarrow> addr list) \<Rightarrow> bool" where
  "refs_ok R s M \<longleftrightarrow> R \<subseteq> dom (rsHeap s) \<and>
     (\<forall>t lh. rsMgr s t = Some lh \<longrightarrow> dlist (rsHeap s) lh (M t) \<and> iSize lh = 0 \<and> iFirst lh \<notin> R \<and> iLast lh \<notin> R) \<and>
     (\<forall>t t' lh lh'. rsMgr s t = Some lh \<longrightarrow> rsMgr s t' = Some lh' \<longrightarrow> t \<noteq> t' \<longrightarrow>
        {iFirst lh, iLast lh} \<inter> {iFirst lh', iLast lh'} = {}) \<and>
     (\<forall>t p. p \<in> set (M t) \<longleftrightarrow> p \<in> R \<and> rsTo s p = Some t) \<and>
     (\<forall>p t. p \<in> R \<longrightarrow> rsTo s p = Some t \<longrightarrow> rsMgr s t \<noteq> None) \<and>
     (\<forall>p. p \<in> R \<longrightarrow> rsTo s p = None \<longrightarrow> nx (rsHeap s) p = None \<and> pv (rsHeap s) p = None)"

lemma refs_okD:
  assumes "refs_ok R s M"
  shows "p \<in> R \<Longrightarrow> p \<in> dom (rsHeap s)"
    "rsMgr s t = Some lh \<Longrightarrow> dlist (rsHeap s) lh (M t)" "rsMgr s t = Some lh \<Longrightarrow> iSize lh = 0"
    "p \<in> set (M t) \<longleftrightarrow> p \<in> R \<and> rsTo s p = Some t" "p \<in> R \<Longrightarrow> rsTo s p = Some t \<Longrightarrow> \<exists>lh. rsMgr s t = Some lh"
    "p \<in> R \<Longrightarrow> rsTo s p = None \<Longrightarrow> nx (rsHeap s) p = None \<and> pv (rsHeap s) p = None"
    "rsMgr s t = Some lh \<Longrightarrow> iFirst lh \<notin> R \<and> iLast lh \<notin> R"
  using assms unfolding refs_ok_def by blast+

text \<open>A change of the heap and the targets keeps the invariant when it keeps these four.\<close>

lemma refs_ok_change:
  assumes "refs_ok R s M" "dom h = dom (rsHeap s)" "\<And>t lh. rsMgr s t = Some lh \<Longrightarrow> dlist h lh (N t)"
    "\<And>p t. p \<in> set (N t) \<longleftrightarrow> p \<in> R \<and> to p = Some t" "\<And>p t. to p = Some t \<Longrightarrow> p \<in> R \<Longrightarrow> rsMgr s t \<noteq> None"
    "\<And>p. p \<in> R \<Longrightarrow> to p = None \<Longrightarrow> nx h p = None \<and> pv h p = None"
  shows "refs_ok R (s\<lparr>rsHeap := h, rsTo := to, rsFrom := f\<rparr>) N"
  unfolding refs_ok_def using assms(1,2) unfolding refs_ok_def
  by (simp add: assms(3-6))

lemma refs_disjoint:
  assumes "refs_ok R s M" "rsMgr s t = Some lh" "rsMgr s t' = Some lh'" "t \<noteq> t'"
  shows "set (nodes lh (M t)) \<inter> set (nodes lh' (M t')) = {}"
  using assms refs_okD(4) [OF assms(1)] unfolding refs_ok_def nodes_def by auto

definition without :: "addr \<Rightarrow> ('t \<Rightarrow> addr list) \<Rightarrow> 't \<Rightarrow> addr list" where
  "without p M = (\<lambda>t. remove1 p (M t))"

text \<open>Taking a linked reference out of its list, with the target forgotten.\<close>

lemma delink_refs:
  assumes I: "refs_ok R s M" and p: "p \<in> R"
  shows "\<exists>h. delink p (rsHeap s) = Some h \<and> refs_ok R (s\<lparr>rsHeap := h, rsTo := (rsTo s)(p := None)\<rparr>) (without p M)"
proof (cases "rsTo s p")
  case None
  from refs_okD(1,6) [OF I p] None have "delink p (rsHeap s) = Some (rsHeap s)" by (auto intro: delink_idle)
  moreover have "p \<notin> set (M t)" for t using refs_okD(4) [OF I] None by simp
  then have "without p M = M" by (auto simp: without_def remove1_idem)
  moreover have "(rsTo s)(p := None) = rsTo s" using None by auto
  ultimately show ?thesis using I by simp
next
  case (Some t)
  from refs_okD(5) [OF I p Some] obtain lh where lh: "rsMgr s t = Some lh" by blast
  note D = refs_okD(2) [OF I lh]
  have pt: "p \<in> set (M t)" using refs_okD(4) [OF I] p Some by simp
  from dlist_delink [OF D pt] obtain h where h: "delink p (rsHeap s) = Some h" "dlist h lh (remove1 p (M t))"
      "nx h p = None" "pv h p = None" "frame (set (nodes lh (M t))) (rsHeap s) h" by blast
  have dist: "distinct (M t)" using D by (simp add: dlist_def nodes_def)
  have lists: "dlist h lh' (without p M u)" if u: "rsMgr s u = Some lh'" for u lh'
  proof (cases "u = t")
    case True
    then show ?thesis using h(2) lh u by (simp add: without_def)
  next
    case False
    then have "p \<notin> set (M u)" using refs_okD(4) [OF I] Some by simp
    then show ?thesis using dlist_frame [OF refs_okD(2) [OF I u] h(5)] refs_disjoint [OF I u lh False]
      by (simp add: without_def remove1_idem)
  qed
  have mem: "q \<in> set (without p M u) \<longleftrightarrow> q \<in> R \<and> ((rsTo s)(p := None)) q = Some u" for q u
  proof (cases "u = t")
    case True
    then show ?thesis using refs_okD(4) [OF I, of q t] dist by (auto simp: without_def)
  next
    case False
    then have "p \<notin> set (M u)" using refs_okD(4) [OF I] Some by simp
    with False show ?thesis using refs_okD(4) [OF I, of q u] by (auto simp: without_def remove1_idem)
  qed
  have idle: "nx h q = None \<and> pv h q = None" if q: "q \<in> R" "((rsTo s)(p := None)) q = None" for q
  proof (cases "q = p")
    case False
    with q have n: "rsTo s q = None" by simp
    then have "q \<notin> set (nodes lh (M t))" using refs_okD(4,7) [OF I] lh q(1) by (auto simp: nodes_def)
    with h(5) refs_okD(6) [OF I q(1) n] show ?thesis by (simp add: frame_def)
  qed (use h in simp)
  have "dom h = dom (rsHeap s)" using h(5) by (simp add: frame_def)
  with I lists mem idle have "refs_ok R (s\<lparr>rsHeap := h, rsTo := (rsTo s)(p := None)\<rparr>) (without p M)"
    unfolding refs_ok_def by simp
  with h(1) show ?thesis by blast
qed

lemma refs_from_irrelevant: "refs_ok R (s\<lparr>rsFrom := f\<rparr>) M = refs_ok R s M"
  by (simp add: refs_ok_def)

lemma unlink_refines:
  assumes I: "refs_ok R s M" and p: "p \<in> R"
  shows "\<exists>s'. ref_unlink p s = Some s' \<and> refs_ok R s' (without p M) \<and> rsTo s' p = None \<and> rsMgr s' = rsMgr s"
proof -
  from delink_refs [OF I p] obtain h where h: "delink p (rsHeap s) = Some h"
      "refs_ok R (s\<lparr>rsHeap := h, rsTo := (rsTo s)(p := None)\<rparr>) (without p M)" by blast
  then have "refs_ok R (s\<lparr>rsHeap := h, rsTo := (rsTo s)(p := None), rsFrom := (rsFrom s)(p := None)\<rparr>) (without p M)"
    using refs_from_irrelevant by blast
  with h(1) show ?thesis by (simp add: ref_unlink_def)
qed

lemma build_refines:
  assumes I: "refs_ok R s M" and p: "p \<in> R" "rsTo s p = None" and t: "rsMgr s t = Some lh"
  shows "\<exists>s'. targetObjectBuildLink p (s\<lparr>rsTo := (rsTo s)(p := Some t), rsFrom := f\<rparr>) = Some s' \<and>
    refs_ok R s' (M(t := p # M t)) \<and> rsMgr s' = rsMgr s"
proof -
  note D = refs_okD(2) [OF I t]
  have new: "p \<notin> set (M u)" for u using refs_okD(4) [OF I] p(2) by simp
  then have "p \<notin> set (nodes lh (M t))" using refs_okD(7) [OF I t] p(1) by (auto simp: nodes_def)
  from dlist_insertFirst [OF D refs_okD(1) [OF I p(1)] this] obtain h where h: "insertFirst lh p (rsHeap s) = Some h"
      "dlist h lh (p # M t)" "frame (insert p (set (nodes lh (M t)))) (rsHeap s) h" by blast
  let ?s = "s\<lparr>rsHeap := h, rsTo := (rsTo s)(p := Some t), rsFrom := f\<rparr>"
  have lists: "dlist h lh' ((M(t := p # M t)) u)" if u: "rsMgr s u = Some lh'" for u lh'
  proof (cases "u = t")
    case True
    then show ?thesis using h(2) t u by simp
  next
    case False
    have "p \<notin> set (nodes lh' (M u))" using new refs_okD(7) [OF I u] p(1) by (auto simp: nodes_def)
    with False show ?thesis using dlist_frame [OF refs_okD(2) [OF I u] h(3)] refs_disjoint [OF I u t False] by simp
  qed
  have mem: "q \<in> set ((M(t := p # M t)) u) \<longleftrightarrow> q \<in> R \<and> ((rsTo s)(p := Some t)) q = Some u" for q u
    using refs_okD(4) [OF I, of q u] new p by (cases "u = t") auto
  have idle: "nx h q = None \<and> pv h q = None" if q: "q \<in> R" "((rsTo s)(p := Some t)) q = None" for q
  proof -
    from q have n: "rsTo s q = None" "q \<noteq> p" by (auto split: if_splits)
    then have "q \<notin> set (nodes lh (M t))" using refs_okD(4,7) [OF I] t q(1) by (auto simp: nodes_def)
    with h(3) n(2) refs_okD(6) [OF I q(1) n(1)] show ?thesis by (simp add: frame_def)
  qed
  have "dom h = dom (rsHeap s)" using h(3) by (simp add: frame_def)
  moreover have "rsMgr s u \<noteq> None" if "((rsTo s)(p := Some t)) q = Some u" "q \<in> R" for q u
    using refs_okD(5) [OF I, of q u] t that by (auto split: if_splits)
  ultimately have "refs_ok R ?s (M(t := p # M t))"
    using refs_ok_change [OF I _ lists mem _ idle] by blast
  moreover have "s\<lparr>rsTo := (rsTo s)(p := Some t), rsFrom := f, rsHeap := h\<rparr> = ?s" by simp
  ultimately have "refs_ok R (s\<lparr>rsTo := (rsTo s)(p := Some t), rsFrom := f, rsHeap := h\<rparr>) (M(t := p # M t))"
    by metis
  with h(1) t show ?thesis by (simp add: targetObjectBuildLink_def)
qed

text \<open>The lists after \<^verbatim>\<open>link\<close>: first in the new target's, and in no other.\<close>

definition linked_to :: "addr \<Rightarrow> 't option \<Rightarrow> ('t \<Rightarrow> addr list) \<Rightarrow> 't \<Rightarrow> addr list" where
  "linked_to p toObj M =
     (case toObj of None \<Rightarrow> without p M | Some t \<Rightarrow> (without p M)(t := p # without p M t))"

lemma link_refines:
  assumes I: "refs_ok R s M" and p: "p \<in> R" and t: "\<And>t. toObj = Some t \<Longrightarrow> rsMgr s t \<noteq> None"
  shows "\<exists>s'. ref_link p toObj (Some f) s = Some s' \<and> refs_ok R s' (linked_to p toObj M) \<and> rsMgr s' = rsMgr s"
proof -
  have "\<exists>s1. (if isValid p s then ref_unlink p s else Some s) = Some s1 \<and> refs_ok R s1 (without p M) \<and>
      rsTo s1 p = None \<and> rsMgr s1 = rsMgr s"
  proof (cases "isValid p s")
    case True
    with unlink_refines [OF I p] show ?thesis by auto
  next
    case False
    then have "rsTo s p = None" by (simp add: isValid_def)
    moreover from this have "without p M = M" using refs_okD(4) [OF I] by (auto simp: without_def remove1_idem)
    ultimately show ?thesis using I False by simp
  qed
  then obtain s1 where s1: "(if isValid p s then ref_unlink p s else Some s) = Some s1" "refs_ok R s1 (without p M)"
      "rsTo s1 p = None" "rsMgr s1 = rsMgr s" by blast
  show ?thesis
  proof (cases toObj)
    case None
    with s1 show ?thesis by (auto simp: ref_link_def linked_to_def)
  next
    case (Some u)
    with t obtain lh where "rsMgr s u = Some lh" by blast
    then have "rsMgr s1 u = Some lh" using s1(4) by simp
    from build_refines [OF s1(2) p s1(3) this, of "(rsFrom s1)(p := Some f)"] Some s1(1,4) show ?thesis
      by (auto simp: ref_link_def linked_to_def)
  qed
qed

text \<open>\<^verbatim>\<open>clearReferences\<close> ends, and empties the list.\<close>

lemma clear_refines:
  "refs_ok R s M \<Longrightarrow> rsMgr s t = Some lh \<Longrightarrow>
    \<exists>s'. clearReferences lh s = Some s' \<and> refs_ok R s' (M(t := [])) \<and> rsMgr s' = rsMgr s \<and> rsFrom s' = rsFrom s"
proof (induction "length (M t)" arbitrary: s M)
  case 0
  then have "getFirst lh (rsHeap s) = Some None" using dlist_getFirst [OF refs_okD(2) [OF 0(2,3)]] by simp
  moreover have "M(t := []) = M" using 0(1) by auto
  ultimately show ?case using 0(2) by (simp add: clearReferences.simps)
next
  case (Suc n)
  note I = Suc.prems(1) and lh = Suc.prems(2)
  from Suc(2) obtain p ps where m: "M t = p # ps" by (cases "M t") auto
  then have p: "p \<in> R" "rsTo s p = Some t" using refs_okD(4) [OF I, of p t] by auto
  have first: "getFirst lh (rsHeap s) = Some (Some p)" using dlist_getFirst [OF refs_okD(2) [OF I lh]] m by simp
  from delink_refs [OF I p(1)] obtain h where h: "delink p (rsHeap s) = Some h"
      "refs_ok R (s\<lparr>rsHeap := h, rsTo := (rsTo s)(p := None)\<rparr>) (without p M)" by blast
  let ?s = "s\<lparr>rsHeap := h, rsTo := (rsTo s)(p := None)\<rparr>"
  from refs_okD(1,6) [OF h(2) p(1)] have again: "delink p (rsHeap ?s) = Some (rsHeap ?s)"
    by (auto intro: delink_idle)
  have "without p M t = ps" using m by (simp add: without_def)
  with Suc(2) m have "n = length (without p M t)" by simp
  from Suc(1) [OF this h(2)] lh obtain s' where s': "clearReferences lh ?s = Some s'"
      "refs_ok R s' ((without p M)(t := []))" "rsMgr s' = rsMgr s" "rsFrom s' = rsFrom s" by auto
  have "p \<notin> set (M u)" if "u \<noteq> t" for u using refs_okD(4) [OF I, of p u] p(2) that by simp
  then have "(without p M)(t := []) = M(t := [])" by (auto simp: without_def remove1_idem)
  moreover have "s\<lparr>rsTo := (rsTo s)(p := None), rsHeap := h\<rparr> = ?s" by simp
  ultimately have "clearReferences lh (s\<lparr>rsTo := (rsTo s)(p := None), rsHeap := h\<rparr>) = Some s' \<and> refs_ok R s' (M(t := []))"
    using s'(1,2) by metis
  with s'(3,4) first h(1) again show ?case
    by (simp add: clearReferences.simps [of lh s] ref_invalidate_def)
qed

section \<open>Runs\<close>

datatype ('t, 's) refCmd = Link addr "'t option" 's | Unlink addr | Clear 't

fun ref_do :: "('t, 's) refCmd \<Rightarrow> ('t, 's) refState \<Rightarrow> ('t, 's) refState option" where
  "ref_do (Link p t f) s = ref_link p t (Some f) s"
| "ref_do (Unlink p) s = ref_unlink p s"
| "ref_do (Clear t) s = do { lh \<leftarrow> rsMgr s t; clearReferences lh s }"

fun ref_spec :: "('t, 's) refCmd \<Rightarrow> ('t \<Rightarrow> addr list) \<Rightarrow> 't \<Rightarrow> addr list" where
  "ref_spec (Link p t f) M = linked_to p t M"
| "ref_spec (Unlink p) M = without p M"
| "ref_spec (Clear t) M = M(t := [])"

fun cmd_ok :: "addr set \<Rightarrow> 't set \<Rightarrow> ('t, 's) refCmd \<Rightarrow> bool" where
  "cmd_ok R T (Link p t f) = (p \<in> R \<and> set_option t \<subseteq> T)"
| "cmd_ok R T (Unlink p) = (p \<in> R)"
| "cmd_ok R T (Clear t) = (t \<in> T)"

fun ref_run :: "('t, 's) refCmd list \<Rightarrow> ('t, 's) refState \<Rightarrow> ('t, 's) refState option" where
  "ref_run [] s = Some s"
| "ref_run (c # cs) s = do { s \<leftarrow> ref_do c s; ref_run cs s }"

text \<open>Targets with new heads at the given addresses, and references that are linked to nothing.\<close>

fun new_refs :: "('t \<times> addr \<times> addr) list \<Rightarrow> addr list \<Rightarrow> ('t, 's) refState" where
  "new_refs [] rs = \<lparr>rsHeap = (\<lambda>p. if p \<in> set rs then Some LinkedListElement_new else None),
     rsTo = (\<lambda>p. None), rsFrom = (\<lambda>p. None), rsMgr = (\<lambda>t. None)\<rparr>"
| "new_refs ((t, f, l) # ts) rs =
     (let s = new_refs ts rs; (lh, h) = LinkedListHead_new f l (rsHeap s)
      in s\<lparr>rsHeap := h, rsMgr := (rsMgr s)(t \<mapsto> lh)\<rparr>)"

lemma ref_do_refines:
  assumes I: "refs_ok R s M" and c: "cmd_ok R {t. rsMgr s t \<noteq> None} c"
  shows "\<exists>s'. ref_do c s = Some s' \<and> refs_ok R s' (ref_spec c M) \<and> rsMgr s' = rsMgr s"
proof (cases c)
  case (Link p t f)
  with link_refines [OF I, where p = p and toObj = t and f = f] c show ?thesis by (cases t) auto
next
  case (Unlink p)
  with unlink_refines [OF I, of p] c show ?thesis by auto
next
  case (Clear t)
  with c obtain lh where "rsMgr s t = Some lh" by auto
  with clear_refines [OF I this] Clear show ?thesis by auto
qed

lemma ref_run_refines:
  "refs_ok R s M \<Longrightarrow> \<forall>c\<in>set cs. cmd_ok R {t. rsMgr s t \<noteq> None} c \<Longrightarrow>
    \<exists>s'. ref_run cs s = Some s' \<and> refs_ok R s' (fold ref_spec cs M) \<and> rsMgr s' = rsMgr s"
proof (induction cs arbitrary: s M)
  case (Cons c cs)
  from ref_do_refines [OF Cons.prems(1)] Cons.prems(2) obtain s1 where
    s1: "ref_do c s = Some s1" "refs_ok R s1 (ref_spec c M)" "rsMgr s1 = rsMgr s" by auto
  from Cons.IH [OF s1(2)] Cons.prems(2) s1 show ?case by auto
qed simp

lemma new_refs_heap:
  "p \<notin> set (concat (map (\<lambda>(t, f, l). [f, l]) ts)) \<Longrightarrow>
    rsHeap (new_refs ts rs) p = (if p \<in> set rs then Some LinkedListElement_new else None)"
  by (induction ts) (auto simp: Let_def LinkedListHead_new_def split: prod.split)

lemma new_refs_ok:
  assumes "distinct (map fst ts)" "distinct (concat (map (\<lambda>(t, f, l). [f, l]) ts))"
    and "set (concat (map (\<lambda>(t, f, l). [f, l]) ts)) \<inter> set rs = {}"
  shows "refs_ok (set rs) (new_refs ts rs :: ('t, 's) refState) (\<lambda>t. []) \<and> {t. rsMgr (new_refs ts rs :: ('t, 's) refState) t \<noteq> None} = fst ` set ts \<and>
    (\<forall>t lh. rsMgr (new_refs ts rs :: ('t, 's) refState) t = Some lh \<longrightarrow> (t, iFirst lh, iLast lh) \<in> set ts) \<and>
    rsTo (new_refs ts rs :: ('t, 's) refState) = (\<lambda>p. None)"
  using assms
proof (induction ts)
  case Nil
  then show ?case by (auto simp: refs_ok_def nx_def pv_def LinkedListElement_new_def)
next
  case (Cons x ts)
  obtain t f l where x: "x = (t, f, l)" by (cases x)
  let ?s = "new_refs ts rs :: ('t, 's) refState"
  let ?s' = "new_refs (x # ts) rs :: ('t, 's) refState"
  obtain lh h where n: "LinkedListHead_new f l (rsHeap ?s) = (lh, h)" by fastforce
  then have lh: "iFirst lh = f" "iLast lh = l" "iSize lh = 0" "h = (rsHeap ?s)(f \<mapsto> \<lparr>iNext = Some l, iPrev = None\<rparr>, l \<mapsto> \<lparr>iNext = None, iPrev = Some f\<rparr>)"
    by (auto simp: LinkedListHead_new_def LinkedListElement_new_def)
  have new: "?s' = ?s\<lparr>rsHeap := h, rsMgr := (rsMgr ?s)(t \<mapsto> lh)\<rparr>" using n x by (simp add: Let_def)
  have "distinct (map fst ts)" "distinct (concat (map (\<lambda>(t, f, l). [f, l]) ts))"
      "set (concat (map (\<lambda>(t, f, l). [f, l]) ts)) \<inter> set rs = {}"
    using Cons.prems by (simp_all add: Int_Un_distrib2)
  note IH = Cons.IH [OF this]
  from IH have I: "refs_ok (set rs) ?s (\<lambda>t. [])" and T: "{t. rsMgr ?s t \<noteq> None} = fst ` set ts"
    and L: "\<And>t lh. rsMgr ?s t = Some lh \<Longrightarrow> (t, iFirst lh, iLast lh) \<in> set ts" and to: "rsTo ?s = (\<lambda>p. None)"
    by blast+
  have fl: "f \<noteq> l" "f \<notin> set rs" "l \<notin> set rs" "t \<notin> fst ` set ts" using Cons.prems x by auto
  have apart: "f \<noteq> iFirst lh'" "f \<noteq> iLast lh'" "l \<noteq> iFirst lh'" "l \<noteq> iLast lh'" if "rsMgr ?s u = Some lh'" for u lh'
    using L [OF that] Cons.prems(2) x by force+
  have frame: "nx h p = nx (rsHeap ?s) p \<and> pv h p = pv (rsHeap ?s) p" if "p \<noteq> f" "p \<noteq> l" for p
    using that by (simp add: lh(4) nx_def pv_def)
  have lists: "dlist h lh' []" if "((rsMgr ?s)(t \<mapsto> lh)) u = Some lh'" for u lh'
  proof (cases "u = t")
    case True
    with that dlist_new [OF fl(1) n] show ?thesis by simp
  next
    case False
    with that have u: "rsMgr ?s u = Some lh'" by simp
    from refs_okD(2) [OF I u] frame apart [OF u] show ?thesis by (simp add: dlist_def nodes_def)
  qed
  have "refs_ok (set rs) (?s') (\<lambda>t. [])"
    unfolding refs_ok_def
  proof (intro conjI allI impI)
    show "set rs \<subseteq> dom (rsHeap (?s'))" using I by (auto simp: new lh(4) refs_ok_def)
  next
    fix u lh' assume u: "rsMgr (?s') u = Some lh'"
    with lists show "dlist (rsHeap (?s')) lh' []" by (simp add: new)
    from u refs_okD(3,7) [OF I] lh fl show "iSize lh' = 0" "iFirst lh' \<notin> set rs" "iLast lh' \<notin> set rs"
      by (auto simp: new split: if_splits)
  next
    fix u u' k k' assume "rsMgr (?s') u = Some k" "rsMgr (?s') u' = Some k'" "u \<noteq> u'"
    then show "{iFirst k, iLast k} \<inter> {iFirst k', iLast k'} = {}"
      using I apart lh(1,2) by (simp add: new refs_ok_def split: if_splits) metis
  next
    fix p assume "p \<in> set rs" "rsTo (?s') p = None"
    then show "nx (rsHeap (?s')) p = None" "pv (rsHeap (?s')) p = None"
      using refs_okD(6) [OF I] frame [of p] fl to by (auto simp: new)
  qed (use to in \<open>simp_all add: new\<close>)
  moreover have mgr: "rsMgr ?s' = (rsMgr ?s)(t \<mapsto> lh)" and "rsTo ?s' = (\<lambda>p. None)" unfolding new using to by simp_all
  moreover have "{u. rsMgr ?s' u \<noteq> None} = fst ` set (x # ts)" unfolding mgr using T x by auto
  moreover have "\<forall>u k. rsMgr ?s' u = Some k \<longrightarrow> (u, iFirst k, iLast k) \<in> set (x # ts)"
    unfolding mgr using L lh(1,2) x by auto
  ultimately show ?case by blast
qed

section \<open>The property\<close>

text \<open>
  C35. Through any sequence of links, unlinks and clearings that name references and targets
  there are, no pointer is followed that leads nowhere, every loop ends, and a target's list
  holds the references that point to it, the last linked first; its size is their number.
\<close>

theorem reference_lists_refine:
  assumes ts: "distinct (map fst ts)" "distinct (concat (map (\<lambda>(t, f, l). [f, l]) ts))"
      "set (concat (map (\<lambda>(t, f, l). [f, l]) ts)) \<inter> set rs = {}"
    and cs: "\<forall>c\<in>set cs. cmd_ok (set rs) (fst ` set ts) c"
  shows "\<exists>s. ref_run cs (new_refs ts rs) = Some s \<and> (\<forall>t\<in>fst ` set ts. \<exists>lh. rsMgr s t = Some lh \<and>
    elements lh (rsHeap s) = Some (fold ref_spec cs (\<lambda>t. []) t) \<and>
    getSize lh (rsHeap s) = Some (of_nat (length (fold ref_spec cs (\<lambda>t. []) t))) \<and>
    (\<forall>p. p \<in> set (fold ref_spec cs (\<lambda>t. []) t) \<longleftrightarrow> p \<in> set rs \<and> rsTo s p = Some t))"
proof -
  let ?i = "new_refs ts rs :: ('a, 'b) refState"
  have i: "refs_ok (set rs) ?i (\<lambda>t. [])" "{t. rsMgr ?i t \<noteq> None} = fst ` set ts" using new_refs_ok [OF ts] by auto
  with ref_run_refines [OF i(1), of cs] cs obtain s where
    s: "ref_run cs ?i = Some s" "refs_ok (set rs) s (fold ref_spec cs (\<lambda>t. []))" "rsMgr s = rsMgr ?i" by auto
  have "\<exists>lh. rsMgr s t = Some lh" if "t \<in> fst ` set ts" for t using i(2) s(3) that by auto
  moreover have "elements lh (rsHeap s) = Some (fold ref_spec cs (\<lambda>t. []) t) \<and>
      getSize lh (rsHeap s) = Some (of_nat (length (fold ref_spec cs (\<lambda>t. []) t)))" if "rsMgr s t = Some lh" for t lh
    using refs_okD(2,3) [OF s(2) that] dlist_elements dlist_getSize by blast
  ultimately show ?thesis using s(1) refs_okD(4) [OF s(2)] by metis
qed

text \<open>Two targets and three references: one moves to the other target, one leaves, one target goes.\<close>

theorem reference_lists_refine_witness:
  "\<exists>s lh. ref_run [Link 10 (Some CHR ''a'') (1 :: nat), Link 11 (Some CHR ''a'') 2, Link 12 (Some CHR ''b'') 3,
      Link 10 (Some CHR ''b'') 1, Unlink 12, Clear CHR ''a''] (new_refs [(CHR ''a'', 0, 1), (CHR ''b'', 2, 3)] [10, 11, 12]) = Some s \<and>
    rsMgr s CHR ''b'' = Some lh \<and> elements lh (rsHeap s) = Some [10]"
proof -
  let ?cs = "[Link 10 (Some CHR ''a'') (1 :: nat), Link 11 (Some CHR ''a'') 2, Link 12 (Some CHR ''b'') 3,
      Link 10 (Some CHR ''b'') 1, Unlink 12, Clear CHR ''a'']"
  have "fold ref_spec ?cs (\<lambda>t. []) CHR ''b'' = [10]" by (simp add: linked_to_def without_def)
  with reference_lists_refine [of "[(CHR ''a'', 0, 1), (CHR ''b'', 2, 3)]" "[10, 11, 12]" ?cs] show ?thesis by auto
qed

end
