(* ===== verification/GroupData.thy ===== *)
theory GroupData
  imports Guid "HOL-Library.Monad_Syntax"
begin

text \<open>
  The data of a player group, src/src/server/game/Groups/Group.h, and of the loot its members
  roll for, src/src/server/game/Loot/LootMgr.h. A group, a loot and a map are known by a
  number that stands for their address; a player is known by the guid. What a group asks of
  players, templates and other managers is an environment, and what it does to them an output.
\<close>

section \<open>Outputs\<close>

datatype gfield = G8 u8 | G16 u16 | G32 u32 | G64 u64 | GStr string | GPack u64

text \<open>
  A packet to a player's session, a prepared statement with its values, a script hook, and a
  call on another component.
\<close>

datatype grpEffect =
    Send u64 u16 "gfield list"
  | Stmt string "gfield list"
  | Hook string "gfield list"
  | Call string "gfield list"

section \<open>Enums\<close>

datatype rollVote = PASS | NEED | GREED | DISENCHANT | NOT_EMITED_YET | NOT_VALID

fun voteNum :: "rollVote \<Rightarrow> u8" where
  "voteNum PASS = 0" | "voteNum NEED = 1" | "voteNum GREED = 2" | "voteNum DISENCHANT = 3"
| "voteNum NOT_EMITED_YET = 4" | "voteNum NOT_VALID = 5"

definition ROLL_PASS :: u8 where "ROLL_PASS = 0"
definition ROLL_NEED :: u8 where "ROLL_NEED = 1"
definition ROLL_GREED :: u8 where "ROLL_GREED = 2"
definition ROLL_DISENCHANT :: u8 where "ROLL_DISENCHANT = 3"
definition MAX_ROLL_TYPE :: u8 where "MAX_ROLL_TYPE = 4"

lemmas roll_types = ROLL_PASS_def ROLL_NEED_def ROLL_GREED_def ROLL_DISENCHANT_def MAX_ROLL_TYPE_def

definition ROLL_FLAG_TYPE_NEED :: u8 where "ROLL_FLAG_TYPE_NEED = 0x02"
definition ROLL_FLAG_TYPE_DISENCHANT :: u8 where "ROLL_FLAG_TYPE_DISENCHANT = 0x08"
definition ROLL_ALL_TYPE_NO_DISENCHANT :: u8 where "ROLL_ALL_TYPE_NO_DISENCHANT = 0x07"

definition FREE_FOR_ALL :: u8 where "FREE_FOR_ALL = 0"
definition MASTER_LOOT :: u8 where "MASTER_LOOT = 2"
definition GROUP_LOOT :: u8 where "GROUP_LOOT = 3"
definition NEED_BEFORE_GREED :: u8 where "NEED_BEFORE_GREED = 4"

definition ITEM_QUALITY_UNCOMMON :: u8 where "ITEM_QUALITY_UNCOMMON = 2"
definition ITEM_FLAGS_EXTRA_NEED_ROLL_DISABLED :: u32 where "ITEM_FLAGS_EXTRA_NEED_ROLL_DISABLED = 0x100"

definition GROUPTYPE_NORMAL :: u8 where "GROUPTYPE_NORMAL = 0x00"
definition GROUPTYPE_RAID :: u8 where "GROUPTYPE_RAID = 0x02"
definition GROUPTYPE_BGRAID :: u8 where "GROUPTYPE_BGRAID = 0x03"
definition GROUPTYPE_LFG_RESTRICTED :: u8 where "GROUPTYPE_LFG_RESTRICTED = 0x04"
definition GROUPTYPE_LFG :: u8 where "GROUPTYPE_LFG = 0x08"

lemmas group_types = GROUPTYPE_NORMAL_def GROUPTYPE_RAID_def GROUPTYPE_BGRAID_def GROUPTYPE_LFG_RESTRICTED_def GROUPTYPE_LFG_def

definition MEMBER_FLAG_ASSISTANT :: u8 where "MEMBER_FLAG_ASSISTANT = 0x01"
definition MEMBER_FLAG_MAINTANK :: u8 where "MEMBER_FLAG_MAINTANK = 0x02"
definition MEMBER_FLAG_MAINASSIST :: u8 where "MEMBER_FLAG_MAINASSIST = 0x04"

lemmas group_member_flags = MEMBER_FLAG_ASSISTANT_def MEMBER_FLAG_MAINTANK_def MEMBER_FLAG_MAINASSIST_def

definition MAXGROUPSIZE :: nat where "MAXGROUPSIZE = 5"
definition MAXRAIDSIZE :: nat where "MAXRAIDSIZE = 40"
definition MAX_RAID_SUBGROUPS :: nat where "MAX_RAID_SUBGROUPS = MAXRAIDSIZE div MAXGROUPSIZE"
definition TARGETICONCOUNT :: nat where "TARGETICONCOUNT = 8"

lemma MAX_RAID_SUBGROUPS_8: "MAX_RAID_SUBGROUPS = 8"
  by (simp add: MAX_RAID_SUBGROUPS_def MAXRAIDSIZE_def MAXGROUPSIZE_def)

section \<open>Loot\<close>

record lootItem =
  liItemid :: u32
  liRandomSuffix :: u32
  liRandomPropertyId :: int
  liAllowedGUIDs :: "u32 list"
  rollWinnerGUID :: u64
  liCount :: u8
  is_looted :: bool
  is_blocked :: bool
  freeforall :: bool
  is_underthreshold :: bool
  is_counted :: bool
  needs_quest :: bool
  follow_loot_rules :: bool

record loot =
  ltItems :: "lootItem list"
  ltQuestItems :: "lootItem list"
  ltGold :: u32
  unlootedCount :: u8
  roundRobinPlayer :: u64
  PlayersLooting :: "u64 list"

record itemTemplate =
  itQuality :: u32
  itDisenchantID :: u32
  itRequiredDisenchantSkill :: u32
  itFlags2 :: u32

record roll =
  rlItemGUID :: u64
  rlItemid :: u32
  rlRandomPropId :: int
  rlRandomSuffix :: u32
  rlItemCount :: u8
  playerVote :: "(u64 \<times> rollVote) list"
  totalPlayersRolling :: u8
  totalNeed :: u8
  totalGreed :: u8
  totalPass :: u8
  rlItemSlot :: u8
  rollVoteMask :: u8
  rlLoot :: "nat option"

definition Roll_new :: "u64 \<Rightarrow> lootItem \<Rightarrow> roll" where
  "Roll_new guid li = \<lparr>rlItemGUID = guid, rlItemid = liItemid li, rlRandomPropId = liRandomPropertyId li,
     rlRandomSuffix = liRandomSuffix li, rlItemCount = liCount li, playerVote = [], totalPlayersRolling = 0,
     totalNeed = 0, totalGreed = 0, totalPass = 0, rlItemSlot = 0, rollVoteMask = ROLL_ALL_TYPE_NO_DISENCHANT,
     rlLoot = None\<rparr>"

section \<open>Groups\<close>

record memberSlot =
  msGuid :: u64
  msName :: string
  msGroup :: u8
  msFlags :: u8
  msRoles :: u8

text \<open>
  A reference of a player to a group: the player's \<^verbatim>\<open>m_group\<close>, or \<^verbatim>\<open>m_originalGroup\<close> when
  the second component holds. The list of a group's references is that of
  \<^verbatim>\<open>GroupRefManager\<close>, first to last.
\<close>

type_synonym gref = "u64 \<times> bool"

record grp =
  memberSlots :: "memberSlot list"
  memberMgr :: "gref list"
  invitees :: "u64 list"
  leaderGuid :: u64
  leaderName :: string
  groupType :: u8
  dungeonDifficulty :: u8
  raidDifficulty :: u8
  bfGroup :: bool
  bgGroup :: bool
  targetIcons :: "u64 list"
  lootMethod :: u8
  lootThreshold :: u8
  looterGuid :: u64
  masterLooterGuid :: u64
  RollId :: "roll list"
  subGroupsCounts :: "u8 list option"
  grpGuid :: u64
  grpCounter :: u32
  maxEnchantingLevel :: u32
  lfgGroupFlags :: u8
  preventionTime :: u32
  preventionType :: u8

text \<open>The parts of players and loots that a group changes, and the numbers it draws.\<close>

record gio =
  refTo :: "gref \<Rightarrow> nat option"
  refSub :: "gref \<Rightarrow> u8"
  invitedTo :: "u64 \<Rightarrow> nat option"
  leaderFlag :: "u64 \<Rightarrow> bool"
  plDungeonDifficulty :: "u64 \<Rightarrow> u8"
  plRaidDifficulty :: "u64 \<Rightarrow> u8"
  loots :: "nat \<Rightarrow> loot option"
  draws :: nat
  hiItemGuid :: u32
  gout :: "grpEffect list"

text \<open>
  What a group asks: \<^verbatim>\<open>inWorld\<close> is \<^verbatim>\<open>FindPlayer\<close> and \<^verbatim>\<open>online\<close> is \<^verbatim>\<open>FindPlayerInOrOutOfWorld\<close>;
  \<^verbatim>\<open>inSight m p\<close> says that the member is on the player's map and within sight of it,
  \<^verbatim>\<open>valuesFor p m\<close> that the update block of the player for the member has data.
\<close>

record grpEnv =
  inWorld :: "u64 \<Rightarrow> bool"
  online :: "u64 \<Rightarrow> bool"
  loggingOut :: "u64 \<Rightarrow> bool"
  plName :: "u64 \<Rightarrow> string"
  plMap :: "u64 \<Rightarrow> nat option"
  enchanting :: "u64 \<Rightarrow> u16"
  passOnLoot :: "u64 \<Rightarrow> bool"
  canStore :: "u64 \<Rightarrow> u32 \<Rightarrow> u8 \<Rightarrow> u8"
  allowedFor :: "lootItem \<Rightarrow> u64 \<Rightarrow> bool"
  template :: "u32 \<Rightarrow> itemTemplate option"
  urandDraw :: "nat \<Rightarrow> u32 \<Rightarrow> u32 \<Rightarrow> u32"
  nameOfGuid :: "u64 \<Rightarrow> string option"
  isGameMaster :: "u64 \<Rightarrow> bool"
  onDungeonMap :: "u64 \<Rightarrow> bool"
  boundHere :: "u64 \<Rightarrow> bool"
  isAlive :: "u64 \<Rightarrow> bool"
  plMapId :: "u64 \<Rightarrow> u32"
  inSight :: "u64 \<Rightarrow> u64 \<Rightarrow> bool"
  haveAtClient :: "u64 \<Rightarrow> u64 \<Rightarrow> bool"
  valuesFor :: "u64 \<Rightarrow> u64 \<Rightarrow> bool"
  lfgState :: "u64 \<Rightarrow> u8"
  lfgDungeon :: "u64 \<Rightarrow> u32"
  lfgDungeonMap :: "u64 \<Rightarrow> u32"

definition geff :: "grpEffect \<Rightarrow> gio \<Rightarrow> gio" where
  "geff e io = io\<lparr>gout := gout io @ [e]\<rparr>"

definition urand :: "grpEnv \<Rightarrow> u32 \<Rightarrow> u32 \<Rightarrow> gio \<Rightarrow> u32 \<times> gio" where
  "urand E a b io = (urandDraw E (draws io) a b, io\<lparr>draws := Suc (draws io)\<rparr>)"

text \<open>
  \<^verbatim>\<open>Group::Group\<close>. Its initializers leave out \<^verbatim>\<open>m_lfgGroupFlags\<close>: the member starts as the
  byte that happens to be there, the argument.
\<close>

definition Group_new :: "u8 \<Rightarrow> grp" where
  "Group_new lfg = \<lparr>memberSlots = [], memberMgr = [], invitees = [], leaderGuid = 0, leaderName = [],
     groupType = GROUPTYPE_NORMAL, dungeonDifficulty = 0, raidDifficulty = 0, bfGroup = False, bgGroup = False,
     targetIcons = replicate TARGETICONCOUNT 0, lootMethod = FREE_FOR_ALL, lootThreshold = ITEM_QUALITY_UNCOMMON,
     looterGuid = 0, masterLooterGuid = 0, RollId = [], subGroupsCounts = None, grpGuid = 0, grpCounter = 0,
     maxEnchantingLevel = 0, lfgGroupFlags = lfg, preventionTime = 0, preventionType = 0\<rparr>"

definition isLFGGroup :: "grp \<Rightarrow> bool" where
  "isLFGGroup g = (groupType g AND GROUPTYPE_LFG \<noteq> 0)"

definition isRaidGroup :: "grp \<Rightarrow> bool" where
  "isRaidGroup g = (groupType g AND GROUPTYPE_RAID \<noteq> 0)"

definition isBGGroup :: "grp \<Rightarrow> bool" where
  "isBGGroup g = bgGroup g"

definition isBFGroup :: "grp \<Rightarrow> bool" where
  "isBFGroup g = bfGroup g"

definition GetLowGUID :: "grp \<Rightarrow> u32" where
  "GetLowGUID g = GUID_LOPART (grpGuid g)"

definition GetMembersCount :: "grp \<Rightarrow> u32" where
  "GetMembersCount g = of_nat (length (memberSlots g))"

definition IsLeader :: "u64 \<Rightarrow> grp \<Rightarrow> bool" where
  "IsLeader guid g = (leaderGuid g = guid)"

text \<open>\<^verbatim>\<open>_getMemberWSlot\<close> and \<^verbatim>\<open>_getMemberCSlot\<close>: the position of a member's slot.\<close>

fun getMemberSlot :: "u64 \<Rightarrow> memberSlot list \<Rightarrow> nat option" where
  "getMemberSlot guid [] = None"
| "getMemberSlot guid (s # ss) = (if msGuid s = guid then Some 0 else map_option Suc (getMemberSlot guid ss))"

definition erase_nth :: "nat \<Rightarrow> 'a list \<Rightarrow> 'a list" where
  "erase_nth i xs = take i xs @ drop (Suc i) xs"

end
