(* ===== verification/GroupRoll.thy ===== *)
theory GroupRoll
  imports GroupData
begin

text \<open>
  Loot rolls, the loot system of src/src/server/game/Groups/Group.cpp: starting the rolls of
  a loot, the players' votes, and the count that gives the item away. A step that follows a
  null pointer or reads outside a vector is \<^const>\<open>None\<close>.
\<close>

section \<open>Packets\<close>

definition SMSG_LOOT_START_ROLL :: u16 where "SMSG_LOOT_START_ROLL = 0x2A1"
definition SMSG_LOOT_ROLL :: u16 where "SMSG_LOOT_ROLL = 0x2A2"
definition SMSG_LOOT_ROLL_WON :: u16 where "SMSG_LOOT_ROLL_WON = 0x29F"
definition SMSG_LOOT_ALL_PASSED :: u16 where "SMSG_LOOT_ALL_PASSED = 0x29E"
definition SMSG_LOOT_REMOVED :: u16 where "SMSG_LOOT_REMOVED = 0x162"
definition SMSG_LOOT_MASTER_LIST :: u16 where "SMSG_LOOT_MASTER_LIST = 0x2A4"

text \<open>A packet to those of a list of players that the condition holds for.\<close>

definition send_each :: "(u64 \<times> rollVote \<Rightarrow> bool) \<Rightarrow> u16 \<Rightarrow> gfield list \<Rightarrow> (u64 \<times> rollVote) list \<Rightarrow> gio \<Rightarrow> gio" where
  "send_each P opcode fs vs io = fold (\<lambda>v. geff (Send (fst v) opcode fs)) (filter P vs) io"

definition SendLootStartRoll :: "grpEnv \<Rightarrow> u32 \<Rightarrow> u32 \<Rightarrow> roll \<Rightarrow> gio \<Rightarrow> gio" where
  "SendLootStartRoll E CountDown mapid r io =
     send_each (\<lambda>v. online E (fst v) \<and> snd v = NOT_EMITED_YET) SMSG_LOOT_START_ROLL
       [G64 (rlItemGUID r), G32 mapid, G32 (ucast (rlItemSlot r)), G32 (rlItemid r), G32 (rlRandomSuffix r),
        G32 (word_of_int (rlRandomPropId r)), G32 (ucast (rlItemCount r)), G32 CountDown, G8 (rollVoteMask r)]
       (playerVote r) io"

definition SendLootStartRollToPlayer :: "u32 \<Rightarrow> u32 \<Rightarrow> u64 \<Rightarrow> bool \<Rightarrow> roll \<Rightarrow> gio \<Rightarrow> gio" where
  "SendLootStartRollToPlayer countDown mapId p canNeed r io =
     (let voteMask = rollVoteMask r;
          voteMask = (if \<not> canNeed then voteMask AND NOT ROLL_FLAG_TYPE_NEED else voteMask)
      in geff (Send p SMSG_LOOT_START_ROLL
        [G64 (rlItemGUID r), G32 mapId, G32 (ucast (rlItemSlot r)), G32 (rlItemid r), G32 (rlRandomSuffix r),
         G32 (word_of_int (rlRandomPropId r)), G32 (ucast (rlItemCount r)), G32 countDown, G8 voteMask]) io)"

definition SendLootRoll :: "grpEnv \<Rightarrow> u64 \<Rightarrow> u64 \<Rightarrow> u8 \<Rightarrow> u8 \<Rightarrow> roll \<Rightarrow> gio \<Rightarrow> gio" where
  "SendLootRoll E sourceGuid targetGuid rollNumber rollType r io =
     send_each (\<lambda>v. online E (fst v) \<and> snd v \<noteq> NOT_VALID) SMSG_LOOT_ROLL
       [G64 sourceGuid, G32 (ucast (rlItemSlot r)), G64 targetGuid, G32 (rlItemid r), G32 (rlRandomSuffix r),
        G32 (word_of_int (rlRandomPropId r)), G8 rollNumber, G8 rollType, G8 0]
       (playerVote r) io"

definition SendLootRollWon :: "grpEnv \<Rightarrow> u64 \<Rightarrow> u64 \<Rightarrow> u8 \<Rightarrow> u8 \<Rightarrow> roll \<Rightarrow> gio \<Rightarrow> gio" where
  "SendLootRollWon E sourceGuid targetGuid rollNumber rollType r io =
     send_each (\<lambda>v. online E (fst v) \<and> snd v \<noteq> NOT_VALID) SMSG_LOOT_ROLL_WON
       [G64 sourceGuid, G32 (ucast (rlItemSlot r)), G32 (rlItemid r), G32 (rlRandomSuffix r),
        G32 (word_of_int (rlRandomPropId r)), G64 targetGuid, G8 rollNumber, G8 rollType]
       (playerVote r) io"

definition SendLootAllPassed :: "grpEnv \<Rightarrow> roll \<Rightarrow> gio \<Rightarrow> gio" where
  "SendLootAllPassed E r io =
     send_each (\<lambda>v. online E (fst v) \<and> snd v \<noteq> NOT_VALID) SMSG_LOOT_ALL_PASSED
       [G64 (rlItemGUID r), G32 (ucast (rlItemSlot r)), G32 (rlItemid r), G32 (word_of_int (rlRandomPropId r)),
        G32 (rlRandomSuffix r)]
       (playerVote r) io"

section \<open>The loot\<close>

text \<open>
  \<^verbatim>\<open>&(slot >= items.size() ? quest_items[slot - items.size()] : items[slot])\<close>, read and
  changed in place.
\<close>

definition item_at :: "u8 \<Rightarrow> loot \<Rightarrow> lootItem option" where
  "item_at slot l =
     (let n = unat slot; k = length (ltItems l)
      in if n \<ge> k then (if n - k < length (ltQuestItems l) then Some (ltQuestItems l ! (n - k)) else None)
         else Some (ltItems l ! n))"

definition change_item :: "u8 \<Rightarrow> (lootItem \<Rightarrow> lootItem) \<Rightarrow> loot \<Rightarrow> loot" where
  "change_item slot f l =
     (let n = unat slot; k = length (ltItems l)
      in if n \<ge> k then l\<lparr>ltQuestItems := (ltQuestItems l)[n - k := f (ltQuestItems l ! (n - k))]\<rparr>
         else l\<lparr>ltItems := (ltItems l)[n := f (ltItems l ! n)]\<rparr>)"

text \<open>\<^verbatim>\<open>Loot::NotifyItemRemoved\<close>; those who left the world stop looting.\<close>

definition NotifyItemRemoved :: "grpEnv \<Rightarrow> u8 \<Rightarrow> loot \<Rightarrow> gio \<Rightarrow> loot \<times> gio" where
  "NotifyItemRemoved E lootIndex l io =
     (l\<lparr>PlayersLooting := filter (inWorld E) (PlayersLooting l)\<rparr>,
      fold (\<lambda>p. geff (Send p SMSG_LOOT_REMOVED [G8 lootIndex])) (filter (inWorld E) (PlayersLooting l)) io)"

definition with_loot :: "nat \<Rightarrow> (loot \<Rightarrow> gio \<Rightarrow> (loot \<times> gio) option) \<Rightarrow> gio \<Rightarrow> gio option" where
  "with_loot i f io = do {
     l \<leftarrow> loots io i; (l, io) \<leftarrow> f l io; Some (io\<lparr>loots := (loots io)(i \<mapsto> l)\<rparr>) }"

text \<open>The winner takes the item, or keeps the right to it when the bags are full.\<close>

definition take_item :: "grpEnv \<Rightarrow> roll \<Rightarrow> u64 \<Rightarrow> loot \<Rightarrow> gio \<Rightarrow> (loot \<times> gio) option" where
  "take_item E r player l io = do {
     li \<leftarrow> item_at (rlItemSlot r) l;
     let msg = canStore E player (rlItemid r) (liCount li);
     if msg = 0 then
       let l = change_item (rlItemSlot r) (\<lambda>li. li\<lparr>is_looted := True\<rparr>) l;
           (l, io) = NotifyItemRemoved E (rlItemSlot r) l io;
           l = l\<lparr>unlootedCount := unlootedCount l - 1\<rparr>;
           io = geff (Call ''StoreNewItem'' (G64 player # G32 (rlItemid r) # G32 (word_of_int (liRandomPropertyId li)) #
                  map G32 (liAllowedGUIDs li))) io;
           io = geff (Call ''UpdateLootAchievements'' [G64 player, G32 (rlItemid r)]) io
       in Some (l, io)
     else
       let l = change_item (rlItemSlot r) (\<lambda>li. li\<lparr>is_blocked := False, rollWinnerGUID := player\<rparr>) l
       in Some (l, geff (Call ''SendEquipError'' [G64 player, G8 msg, G32 (rlItemid r)]) io) }"

definition disenchant_item :: "grpEnv \<Rightarrow> roll \<Rightarrow> u64 \<Rightarrow> loot \<Rightarrow> gio \<Rightarrow> (loot \<times> gio) option" where
  "disenchant_item E r player l io = do {
     _ \<leftarrow> item_at (rlItemSlot r) l;
     let l = change_item (rlItemSlot r) (\<lambda>li. li\<lparr>is_looted := True\<rparr>) l;
     let (l, io) = NotifyItemRemoved E (rlItemSlot r) l io;
     let l = l\<lparr>unlootedCount := unlootedCount l - 1\<rparr>;
     pProto \<leftarrow> template E (rlItemid r);
     let io = geff (Call ''AutoStoreLoot'' [G64 player, G32 (itDisenchantID pProto)]) io;
     let io = geff (Call ''UpdateAchievementCriteria'' [G64 player, GStr ''CAST_SPELL'', G32 13262]) io;
     Some (l, io) }"

section \<open>Counting\<close>

definition eligible :: "grpEnv \<Rightarrow> nat option \<Rightarrow> u64 \<Rightarrow> bool" where
  "eligible E allowedMap p = (inWorld E p \<and> (allowedMap \<noteq> None \<longrightarrow> plMap E p = allowedMap))"

text \<open>
  One loop over the votes, for need and for greed and disenchanting: who votes so and is there
  draws a number, who is not there is taken off the total. The result is the total, the
  highest number, who drew it first and with which vote.
\<close>

fun draw_loop :: "grpEnv \<Rightarrow> nat option \<Rightarrow> roll \<Rightarrow> (rollVote \<Rightarrow> bool) \<Rightarrow> (u64 \<times> rollVote) list \<Rightarrow>
    u8 \<times> u8 \<times> u64 \<times> rollVote \<times> gio \<Rightarrow> u8 \<times> u8 \<times> u64 \<times> rollVote \<times> gio" where
  "draw_loop E allowedMap r P [] s = s"
| "draw_loop E allowedMap r P ((p, v) # vs) (tot, maxresul, maxguid, rollvote, io) =
     (if \<not> P v then draw_loop E allowedMap r P vs (tot, maxresul, maxguid, rollvote, io)
      else if \<not> eligible E allowedMap p then draw_loop E allowedMap r P vs (tot - 1, maxresul, maxguid, rollvote, io)
      else let (n, io) = urand E 1 100 io; randomN = ucast n;
               io = SendLootRoll E 0 p randomN (voteNum v) r io
           in if maxresul < randomN then draw_loop E allowedMap r P vs (tot, randomN, p, v, io)
              else draw_loop E allowedMap r P vs (tot, maxresul, maxguid, rollvote, io))"

definition count_need :: "grpEnv \<Rightarrow> nat option \<Rightarrow> nat \<Rightarrow> roll \<Rightarrow> gio \<Rightarrow> (roll \<times> gio) option" where
  "count_need E allowedMap l r io =
     (if totalNeed r > 0 \<and> playerVote r \<noteq> [] then
        case draw_loop E allowedMap r (\<lambda>v. v = NEED) (playerVote r) (totalNeed r, 0, 0, NEED, io) of
          (tot, maxresul, maxguid, _, io) \<Rightarrow>
            let r = r\<lparr>totalNeed := tot\<rparr>
            in if maxguid \<noteq> 0 then
                 let io = SendLootRollWon E 0 maxguid maxresul ROLL_NEED r io
                 in if inWorld E maxguid then do {
                      let io = geff (Call ''UpdateAchievementCriteria''
                        [G64 maxguid, GStr ''ROLL_NEED_ON_LOOT'', G32 (rlItemid r), G32 (ucast maxresul)]) io;
                      io \<leftarrow> with_loot l (take_item E r maxguid) io;
                      Some (r, io) }
                    else Some (r, io)
               else Some (r\<lparr>totalNeed := 0\<rparr>, io)
      else Some (r, io))"

definition count_greed :: "grpEnv \<Rightarrow> nat option \<Rightarrow> nat \<Rightarrow> roll \<Rightarrow> gio \<Rightarrow> (roll \<times> gio) option" where
  "count_greed E allowedMap l r io =
     (if totalNeed r = 0 \<and> totalGreed r > 0 \<and> playerVote r \<noteq> [] then
        case draw_loop E allowedMap r (\<lambda>v. v = GREED \<or> v = DISENCHANT) (playerVote r) (totalGreed r, 0, 0, NOT_VALID, io) of
          (tot, maxresul, maxguid, rollvote, io) \<Rightarrow>
            let r = r\<lparr>totalGreed := tot\<rparr>
            in if maxguid \<noteq> 0 then
                 let io = SendLootRollWon E 0 maxguid maxresul (voteNum rollvote) r io
                 in if inWorld E maxguid then do {
                      let io = geff (Call ''UpdateAchievementCriteria''
                        [G64 maxguid, GStr ''ROLL_GREED_ON_LOOT'', G32 (rlItemid r), G32 (ucast maxresul)]) io;
                      io \<leftarrow> (if rollvote = GREED then with_loot l (take_item E r maxguid) io
                             else if rollvote = DISENCHANT then with_loot l (disenchant_item E r maxguid) io
                             else Some io);
                      Some (r, io) }
                    else Some (r, io)
               else Some (r\<lparr>totalGreed := 0\<rparr>, io)
      else Some (r, io))"

definition all_passed :: "grpEnv \<Rightarrow> nat \<Rightarrow> roll \<Rightarrow> gio \<Rightarrow> gio option" where
  "all_passed E l r io =
     (if totalNeed r = 0 \<and> totalGreed r = 0 then
        let io = SendLootAllPassed E r io
        in with_loot l (\<lambda>l io. do {
             _ \<leftarrow> item_at (rlItemSlot r) l;
             Some (change_item (rlItemSlot r) (\<lambda>li. li\<lparr>is_blocked := False\<rparr>) l, io) }) io
      else Some io)"

text \<open>The roll is erased and deleted at the end of every path.\<close>

definition CountTheRoll :: "grpEnv \<Rightarrow> nat option \<Rightarrow> nat \<Rightarrow> grp \<Rightarrow> gio \<Rightarrow> (grp \<times> gio) option" where
  "CountTheRoll E allowedMap i g io =
     (if i < length (RollId g) then
        let r = RollId g ! i; g' = g\<lparr>RollId := erase_nth i (RollId g)\<rparr>
        in case rlLoot r of
             None \<Rightarrow> Some (g', io)
           | Some l \<Rightarrow> do {
               (r, io) \<leftarrow> count_need E allowedMap l r io;
               (r, io) \<leftarrow> count_greed E allowedMap l r io;
               io \<leftarrow> all_passed E l r io;
               Some (g', io) }
      else None)"

section \<open>Votes\<close>

fun GetRoll :: "u64 \<Rightarrow> roll list \<Rightarrow> nat option" where
  "GetRoll guid [] = None"
| "GetRoll guid (r # rs) = (if rlItemGUID r = guid \<and> rlLoot r \<noteq> None then Some 0 else map_option Suc (GetRoll guid rs))"

definition cast_vote :: "grpEnv \<Rightarrow> u64 \<Rightarrow> u8 \<Rightarrow> roll \<Rightarrow> gio \<Rightarrow> roll \<times> gio" where
  "cast_vote E playerGUID Choice r io =
     (if Choice = ROLL_PASS then
        (r\<lparr>totalPass := totalPass r + 1, playerVote := smap_put playerGUID PASS (playerVote r)\<rparr>,
         SendLootRoll E 0 playerGUID 128 ROLL_PASS r io)
      else if Choice = ROLL_NEED then
        (r\<lparr>totalNeed := totalNeed r + 1, playerVote := smap_put playerGUID NEED (playerVote r)\<rparr>,
         SendLootRoll E 0 playerGUID 0 0 r io)
      else if Choice = ROLL_GREED then
        (r\<lparr>totalGreed := totalGreed r + 1, playerVote := smap_put playerGUID GREED (playerVote r)\<rparr>,
         SendLootRoll E 0 playerGUID 128 ROLL_GREED r io)
      else if Choice = ROLL_DISENCHANT then
        (r\<lparr>totalGreed := totalGreed r + 1, playerVote := smap_put playerGUID DISENCHANT (playerVote r)\<rparr>,
         SendLootRoll E 0 playerGUID 128 ROLL_DISENCHANT r io)
      else (r, io))"

definition roll_complete :: "roll \<Rightarrow> bool" where
  "roll_complete r = (unat (totalPass r) + unat (totalNeed r) + unat (totalGreed r) \<ge> unat (totalPlayersRolling r))"

definition CountRollVote :: "grpEnv \<Rightarrow> u64 \<Rightarrow> u64 \<Rightarrow> u8 \<Rightarrow> grp \<Rightarrow> gio \<Rightarrow> (bool \<times> grp \<times> gio) option" where
  "CountRollVote E playerGUID guid Choice g io =
     (case GetRoll guid (RollId g) of
        None \<Rightarrow> Some (False, g, io)
      | Some i \<Rightarrow>
          let r = RollId g ! i
          in if Choice < MAX_ROLL_TYPE \<and> map_of (playerVote r) playerGUID = None then Some (False, g, io)
             else do {
               l \<leftarrow> rlLoot r;
               l \<leftarrow> loots io l;
               if ltItems l = [] then Some (False, g, io)
               else
                 let (r, io) = cast_vote E playerGUID Choice r io;
                     g = g\<lparr>RollId := (RollId g)[i := r]\<rparr>
                 in if roll_complete r then do { (g, io) \<leftarrow> CountTheRoll E None i g io; Some (True, g, io) }
                    else Some (False, g, io) })"

text \<open>The timer of the loot has run out; the loop starts again after every roll it counts.\<close>

partial_function (option) end_loop :: "grpEnv \<Rightarrow> nat \<Rightarrow> nat option \<Rightarrow> nat \<Rightarrow> grp \<Rightarrow> gio \<Rightarrow> (grp \<times> gio) option" where
  "end_loop E pLoot allowedMap i g io =
     (if i < length (RollId g) then
        if rlLoot (RollId g ! i) = Some pLoot then do {
          (g, io) \<leftarrow> CountTheRoll E allowedMap i g io;
          end_loop E pLoot allowedMap 0 g io }
        else end_loop E pLoot allowedMap (Suc i) g io
      else Some (g, io))"

declare end_loop.simps [code]

definition EndRoll :: "grpEnv \<Rightarrow> nat \<Rightarrow> nat option \<Rightarrow> grp \<Rightarrow> gio \<Rightarrow> (grp \<times> gio) option" where
  "EndRoll E pLoot allowedMap g io = end_loop E pLoot allowedMap 0 g io"

text \<open>\<^verbatim>\<open>Loot::clear\<close> as the rolls see it: their reference becomes invalid.\<close>

definition loot_gone :: "nat \<Rightarrow> grp \<Rightarrow> grp" where
  "loot_gone l g = g\<lparr>RollId := map (\<lambda>r. if rlLoot r = Some l then r\<lparr>rlLoot := None\<rparr> else r) (RollId g)\<rparr>"

definition isRollLootActive :: "grp \<Rightarrow> bool" where
  "isRollLootActive g = (RollId g \<noteq> [])"

section \<open>Starting the rolls\<close>

text \<open>What the rolls ask of the looted object.\<close>

record lootedObject =
  rewardDistance :: "u64 \<Rightarrow> bool"
  objMapId :: u32
  hasLootTimer :: bool
  canRollInLFG :: "itemTemplate option \<Rightarrow> u64 \<Rightarrow> bool"

text \<open>The members near the object that may have the item; a pass set beforehand counts at once.\<close>

definition collect_vote :: "grpEnv \<Rightarrow> lootedObject \<Rightarrow> lootItem \<Rightarrow> bool \<Rightarrow> u64 \<Rightarrow> roll \<Rightarrow> roll" where
  "collect_vote E obj li passes p r =
     (if rewardDistance obj p \<and> allowedFor E li p then
        let r = r\<lparr>totalPlayersRolling := totalPlayersRolling r + 1\<rparr>
        in if passes \<and> passOnLoot E p
           then r\<lparr>playerVote := smap_put p PASS (playerVote r), totalPass := totalPass r + 1\<rparr>
           else r\<lparr>playerVote := smap_put p NOT_EMITED_YET (playerVote r)\<rparr>
      else r)"

definition collect_votes :: "grpEnv \<Rightarrow> lootedObject \<Rightarrow> lootItem \<Rightarrow> bool \<Rightarrow> gref list \<Rightarrow> roll \<Rightarrow> roll" where
  "collect_votes E obj li passes refs r = fold (\<lambda>ref. collect_vote E obj li passes (fst ref)) refs r"

text \<open>\<^verbatim>\<open>ObjectMgr::GenerateLowGuid(HIGHGUID_ITEM)\<close>.\<close>

definition GenerateItemGuid :: "gio \<Rightarrow> (u32 \<times> gio) option" where
  "GenerateItemGuid io =
     (if hiItemGuid io < 0xFFFFFFFE then Some (hiItemGuid io, io\<lparr>hiItemGuid := hiItemGuid io + 1\<rparr>) else None)"

definition broadcast_passes :: "grpEnv \<Rightarrow> roll \<Rightarrow> gio \<Rightarrow> gio" where
  "broadcast_passes E r io =
     fold (\<lambda>v. SendLootRoll E (rlItemGUID r) (fst v) 128 ROLL_PASS r)
       (filter (\<lambda>v. inWorld E (fst v) \<and> snd v = PASS) (playerVote r)) io"

definition invite_rolls :: "grpEnv \<Rightarrow> lootedObject \<Rightarrow> itemTemplate option \<Rightarrow> roll \<Rightarrow> gio \<Rightarrow> gio" where
  "invite_rolls E obj item r io =
     fold (\<lambda>v. if snd v = PASS then SendLootRoll E (rlItemGUID r) (fst v) 128 ROLL_PASS r
               else SendLootStartRollToPlayer 60000 (objMapId obj) (fst v) (canRollInLFG obj item (fst v)) r)
       (filter (\<lambda>v. inWorld E (fst v)) (playerVote r)) io"

text \<open>\<^verbatim>\<open>loot->items[itemSlot].is_blocked = true\<close>, or the quest item of the slot.\<close>

definition block_item :: "nat \<Rightarrow> u8 \<Rightarrow> bool \<Rightarrow> gio \<Rightarrow> gio option" where
  "block_item lid slot quest io =
     with_loot lid (\<lambda>l io. do {
       _ \<leftarrow> (if quest = (unat slot \<ge> length (ltItems l)) then item_at slot l else None);
       Some (change_item slot (\<lambda>li. li\<lparr>is_blocked := True\<rparr>) l, io) }) io"

definition loot_timer :: "lootedObject \<Rightarrow> grp \<Rightarrow> gio \<Rightarrow> gio" where
  "loot_timer obj g io =
     (if hasLootTimer obj then geff (Call ''m_groupLootTimer'' [G32 60000, G32 (GetLowGUID g)]) io else io)"

definition disenchant_mask :: "itemTemplate \<Rightarrow> grp \<Rightarrow> roll \<Rightarrow> roll" where
  "disenchant_mask item g r =
     (if itDisenchantID item \<noteq> 0 \<and> maxEnchantingLevel g \<ge> itRequiredDisenchantSkill item
      then r\<lparr>rollVoteMask := rollVoteMask r OR ROLL_FLAG_TYPE_DISENCHANT\<rparr> else r)"

text \<open>One item of \<^verbatim>\<open>GroupLoot\<close>, at its slot, and one quest item.\<close>

definition group_item :: "grpEnv \<Rightarrow> lootedObject \<Rightarrow> nat \<Rightarrow> nat \<Rightarrow> grp \<times> gio \<Rightarrow> (grp \<times> gio) option" where
  "group_item E obj lid i = (\<lambda>(g, io). do {
     l \<leftarrow> loots io lid;
     let li = ltItems l ! i;
     if freeforall li then Some (g, io)
     else case template E (liItemid li) of
         None \<Rightarrow> Some (g, io)
       | Some item \<Rightarrow>
           if itQuality item \<ge> ucast (lootThreshold g) then do {
             (low, io) \<leftarrow> GenerateItemGuid io;
             let r = collect_votes E obj li True (memberMgr g) (Roll_new (MAKE_NEW_GUID low 0 HIGHGUID_ITEM) li);
             if totalPlayersRolling r > 0 then do {
               let r = disenchant_mask item g (r\<lparr>rlLoot := Some lid, rlItemSlot := of_nat i\<rparr>);
               io \<leftarrow> block_item lid (of_nat i) False io;
               let io = (if totalPass r \<noteq> 0 then broadcast_passes E r io else io);
               let io = SendLootStartRoll E 60000 (objMapId obj) r io;
               Some (g\<lparr>RollId := RollId g @ [r]\<rparr>, loot_timer obj g io) }
             else Some (g, io) }
           else Some (g, io\<lparr>loots := (loots io)(lid \<mapsto> l\<lparr>ltItems := (ltItems l)[i := li\<lparr>is_underthreshold := True\<rparr>]\<rparr>)\<rparr>) })"

definition group_quest_item :: "grpEnv \<Rightarrow> lootedObject \<Rightarrow> nat \<Rightarrow> nat \<Rightarrow> grp \<times> gio \<Rightarrow> (grp \<times> gio) option" where
  "group_quest_item E obj lid i = (\<lambda>(g, io). do {
     l \<leftarrow> loots io lid;
     let li = ltQuestItems l ! i;
     let slot = of_nat (length (ltItems l) + i);
     if \<not> follow_loot_rules li \<or> template E (liItemid li) = None then Some (g, io)
     else do {
       (low, io) \<leftarrow> GenerateItemGuid io;
       let r = collect_votes E obj li False (memberMgr g) (Roll_new (MAKE_NEW_GUID low 0 HIGHGUID_ITEM) li);
       if totalPlayersRolling r > 0 then do {
         let r = r\<lparr>rlLoot := Some lid, rlItemSlot := slot\<rparr>;
         io \<leftarrow> block_item lid slot True io;
         let io = SendLootStartRoll E 60000 (objMapId obj) r io;
         Some (g\<lparr>RollId := RollId g @ [r]\<rparr>, loot_timer obj g io) }
       else Some (g, io) } })"

fun each_item :: "(nat \<Rightarrow> 's \<Rightarrow> 's option) \<Rightarrow> nat list \<Rightarrow> 's \<Rightarrow> 's option" where
  "each_item f [] s = Some s"
| "each_item f (i # is) s = do { s \<leftarrow> f i s; each_item f is s }"

definition GroupLoot :: "grpEnv \<Rightarrow> nat \<Rightarrow> lootedObject \<Rightarrow> grp \<Rightarrow> gio \<Rightarrow> (grp \<times> gio) option" where
  "GroupLoot E lid obj g io = do {
     l \<leftarrow> loots io lid;
     s \<leftarrow> each_item (group_item E obj lid) [0..<length (ltItems l)] (g, io);
     each_item (group_quest_item E obj lid) [0..<length (ltQuestItems l)] s }"

text \<open>One item of \<^verbatim>\<open>NeedBeforeGreed\<close>; the template is read without a check.\<close>

definition need_item :: "grpEnv \<Rightarrow> lootedObject \<Rightarrow> nat \<Rightarrow> nat \<Rightarrow> grp \<times> gio \<Rightarrow> (grp \<times> gio) option" where
  "need_item E obj lid i = (\<lambda>(g, io). do {
     l \<leftarrow> loots io lid;
     let li = ltItems l ! i;
     if freeforall li then Some (g, io)
     else do {
       item \<leftarrow> template E (liItemid li);
       if itQuality item \<ge> ucast (lootThreshold g) then do {
         (low, io) \<leftarrow> GenerateItemGuid io;
         let r = collect_votes E obj li True (memberMgr g) (Roll_new (MAKE_NEW_GUID low 0 HIGHGUID_ITEM) li);
         if totalPlayersRolling r > 0 then do {
           let r = disenchant_mask item g (r\<lparr>rlLoot := Some lid, rlItemSlot := of_nat i\<rparr>);
           let r = (if itFlags2 item AND ITEM_FLAGS_EXTRA_NEED_ROLL_DISABLED \<noteq> 0
                    then r\<lparr>rollVoteMask := rollVoteMask r AND NOT ROLL_FLAG_TYPE_NEED\<rparr> else r);
           io \<leftarrow> block_item lid (of_nat i) False io;
           let io = invite_rolls E obj (Some item) r io;
           Some (g\<lparr>RollId := RollId g @ [r]\<rparr>, loot_timer obj g io) }
         else Some (g, io) }
       else Some (g, io\<lparr>loots := (loots io)(lid \<mapsto> l\<lparr>ltItems := (ltItems l)[i := li\<lparr>is_underthreshold := True\<rparr>]\<rparr>)\<rparr>) } })"

definition need_quest_item :: "grpEnv \<Rightarrow> lootedObject \<Rightarrow> nat \<Rightarrow> nat \<Rightarrow> grp \<times> gio \<Rightarrow> (grp \<times> gio) option" where
  "need_quest_item E obj lid i = (\<lambda>(g, io). do {
     l \<leftarrow> loots io lid;
     let li = ltQuestItems l ! i;
     let slot = of_nat (length (ltItems l) + i);
     if \<not> follow_loot_rules li then Some (g, io)
     else do {
       (low, io) \<leftarrow> GenerateItemGuid io;
       let r = collect_votes E obj li False (memberMgr g) (Roll_new (MAKE_NEW_GUID low 0 HIGHGUID_ITEM) li);
       if totalPlayersRolling r > 0 then do {
         let r = r\<lparr>rlLoot := Some lid, rlItemSlot := slot\<rparr>;
         io \<leftarrow> block_item lid slot True io;
         let io = invite_rolls E obj (template E (liItemid li)) r io;
         Some (g\<lparr>RollId := RollId g @ [r]\<rparr>, loot_timer obj g io) }
       else Some (g, io) } })"

definition NeedBeforeGreed :: "grpEnv \<Rightarrow> nat \<Rightarrow> lootedObject \<Rightarrow> grp \<Rightarrow> gio \<Rightarrow> (grp \<times> gio) option" where
  "NeedBeforeGreed E lid obj g io = do {
     l \<leftarrow> loots io lid;
     s \<leftarrow> each_item (need_item E obj lid) [0..<length (ltItems l)] (g, io);
     each_item (need_quest_item E obj lid) [0..<length (ltQuestItems l)] s }"

definition MasterLoot :: "grpEnv \<Rightarrow> nat \<Rightarrow> lootedObject \<Rightarrow> grp \<Rightarrow> gio \<Rightarrow> (grp \<times> gio) option" where
  "MasterLoot E lid obj g io = do {
     l \<leftarrow> loots io lid;
     let l = l\<lparr>ltItems := map (\<lambda>i. if freeforall i then i else i\<lparr>is_blocked := \<not> is_underthreshold i\<rparr>) (ltItems l),
               ltQuestItems := map (\<lambda>i. if \<not> follow_loot_rules i then i else i\<lparr>is_blocked := \<not> is_underthreshold i\<rparr>)
                                 (ltQuestItems l)\<rparr>;
     let io = io\<lparr>loots := (loots io)(lid \<mapsto> l)\<rparr>;
     let near = filter (rewardDistance obj) (map fst (memberMgr g));
     let listed = filter (inWorld E) near;
     let data = G8 (of_nat (length listed)) # map G64 listed;
     Some (g, fold (\<lambda>p. geff (Send p SMSG_LOOT_MASTER_LIST data)) near io) }"

end
