(* ===== verification/GroupRollProps.thy ===== *)
theory GroupRollProps
  imports GroupRoll
begin

text \<open>
  What loot rolls do: the tallies against the votes, who wins, that a roll ends when everyone
  has voted or the timer runs out, and that nothing keeps one player from voting twice.
\<close>

section \<open>Lists of rolls\<close>

lemma erase_nth_simps [simp]:
  "length (erase_nth i xs) = (if i < length xs then length xs - 1 else length xs)"
  "erase_nth 0 (x # xs) = xs" "erase_nth (Suc i) (x # xs) = x # erase_nth i xs"
  by (auto simp: erase_nth_def)

lemma set_erase_nth: "set (erase_nth i xs) \<subseteq> set xs"
  by (auto simp: erase_nth_def dest: in_set_takeD in_set_dropD)

lemma erase_nth_update: "i < length xs \<Longrightarrow> erase_nth i (xs[i := x]) = erase_nth i xs"
  by (simp add: erase_nth_def)

lemma GetRoll_Some:
  "GetRoll guid rs = Some i \<Longrightarrow> i < length rs \<and> rlItemGUID (rs ! i) = guid \<and> (\<exists>l. rlLoot (rs ! i) = Some l)"
  by (induction rs arbitrary: i) (auto split: if_splits)

lemma GetRoll_update:
  "GetRoll guid rs = Some i \<Longrightarrow> rlItemGUID r = rlItemGUID (rs ! i) \<Longrightarrow> rlLoot r = rlLoot (rs ! i) \<Longrightarrow>
    GetRoll guid (rs[i := r]) = Some i"
  by (induction rs arbitrary: i) (auto split: if_splits nat.split)

section \<open>Counting always finishes\<close>

text \<open>The sizes of the loots, which no count changes.\<close>

definition same_shape :: "gio \<Rightarrow> gio \<Rightarrow> bool" where
  "same_shape io io' \<longleftrightarrow>
     (\<forall>l. map_option (\<lambda>t. (length (ltItems t), length (ltQuestItems t))) (loots io' l) =
          map_option (\<lambda>t. (length (ltItems t), length (ltQuestItems t))) (loots io l))"

definition loot_ready :: "grpEnv \<Rightarrow> roll \<Rightarrow> gio \<Rightarrow> bool" where
  "loot_ready E r io \<longleftrightarrow> template E (rlItemid r) \<noteq> None \<and>
     (\<forall>l. rlLoot r = Some l \<longrightarrow> (\<exists>t. loots io l = Some t \<and> item_at (rlItemSlot r) t \<noteq> None))"

text \<open>The template and the loot of every open roll are there.\<close>

definition rolls_ready :: "grpEnv \<Rightarrow> grp \<Rightarrow> gio \<Rightarrow> bool" where
  "rolls_ready E g io \<longleftrightarrow> (\<forall>r\<in>set (RollId g). loot_ready E r io)"

lemma item_at_shape:
  "length (ltItems t') = length (ltItems t) \<Longrightarrow> length (ltQuestItems t') = length (ltQuestItems t) \<Longrightarrow>
    (item_at s t' = None) = (item_at s t = None)"
  by (simp add: item_at_def Let_def)

lemma same_shape_refl [simp]: "same_shape io io"
  by (simp add: same_shape_def)

lemma same_shape_trans: "same_shape a b \<Longrightarrow> same_shape b c \<Longrightarrow> same_shape a c"
  by (simp add: same_shape_def)

lemma same_shape_ready:
  assumes "same_shape io io'" "loot_ready E r io" shows "loot_ready E r io'"
proof -
  have "\<exists>t. loots io' l = Some t \<and> item_at (rlItemSlot r) t \<noteq> None" if "rlLoot r = Some l" for l
  proof -
    from assms(2) that obtain t where t: "loots io l = Some t" "item_at (rlItemSlot r) t \<noteq> None"
      by (auto simp: loot_ready_def)
    from assms(1) have "map_option (\<lambda>t. (length (ltItems t), length (ltQuestItems t))) (loots io' l) =
        map_option (\<lambda>t. (length (ltItems t), length (ltQuestItems t))) (loots io l)" by (simp add: same_shape_def)
    with t(1) obtain t' where "loots io' l = Some t'" "length (ltItems t') = length (ltItems t)"
        "length (ltQuestItems t') = length (ltQuestItems t)" by auto
    with t(2) item_at_shape [of t' t "rlItemSlot r"] show ?thesis by auto
  qed
  with assms(2) show ?thesis by (simp add: loot_ready_def)
qed

lemma geff_fields [simp]:
  "loots (geff e io) = loots io" "draws (geff e io) = draws io" "refTo (geff e io) = refTo io"
  "refSub (geff e io) = refSub io" "gout (geff e io) = gout io @ [e]"
  by (simp_all add: geff_def)

lemma fold_geff:
  "loots (fold (\<lambda>x. geff (f x)) xs io) = loots io" "draws (fold (\<lambda>x. geff (f x)) xs io) = draws io"
  "gout (fold (\<lambda>x. geff (f x)) xs io) = gout io @ map f xs"
  by (induction xs arbitrary: io) auto

lemma senders_fields [simp]:
  "loots (SendLootRoll E s t n k r io) = loots io" "draws (SendLootRoll E s t n k r io) = draws io"
  "loots (SendLootRollWon E s t n k r io) = loots io" "draws (SendLootRollWon E s t n k r io) = draws io"
  "loots (SendLootAllPassed E r io) = loots io"
  by (simp_all add: SendLootRoll_def SendLootRollWon_def SendLootAllPassed_def send_each_def fold_geff)

lemma change_item_shape [simp]:
  "length (ltItems (change_item s f t)) = length (ltItems t)" "length (ltQuestItems (change_item s f t)) = length (ltQuestItems t)"
  by (simp_all add: change_item_def Let_def)

lemma NotifyItemRemoved_fields [simp]:
  "length (ltItems (fst (NotifyItemRemoved E k t io))) = length (ltItems t)"
  "length (ltQuestItems (fst (NotifyItemRemoved E k t io))) = length (ltQuestItems t)"
  "loots (snd (NotifyItemRemoved E k t io)) = loots io" "draws (snd (NotifyItemRemoved E k t io)) = draws io"
  by (simp_all add: NotifyItemRemoved_def fold_geff)

text \<open>A step on the loot of a roll that is there and keeps its sizes.\<close>

definition loot_step :: "loot \<Rightarrow> gio \<Rightarrow> (loot \<times> gio) option \<Rightarrow> bool" where
  "loot_step t io r \<longleftrightarrow> (\<exists>t' io'. r = Some (t', io') \<and> loots io' = loots io \<and>
     length (ltItems t') = length (ltItems t) \<and> length (ltQuestItems t') = length (ltQuestItems t))"

lemma with_loot_step:
  assumes "loots io l = Some t" "loot_step t io (f t io)"
  shows "\<exists>io'. with_loot l f io = Some io' \<and> same_shape io io'"
proof -
  from assms(2) obtain t' io' where r: "f t io = Some (t', io')" "loots io' = loots io"
      "length (ltItems t') = length (ltItems t)" "length (ltQuestItems t') = length (ltQuestItems t)"
    by (auto simp: loot_step_def)
  then have "with_loot l f io = Some (io'\<lparr>loots := (loots io')(l \<mapsto> t')\<rparr>)" using assms(1) by (simp add: with_loot_def)
  moreover have "same_shape io (io'\<lparr>loots := (loots io')(l \<mapsto> t')\<rparr>)" using r assms(1) by (auto simp: same_shape_def)
  ultimately show ?thesis by blast
qed

lemma take_item_step:
  assumes "item_at (rlItemSlot r) t = Some li" shows "loot_step t io (take_item E r p t io)"
  unfolding take_item_def assms bind.bind_lunit loot_step_def Let_def
  by (cases "canStore E p (rlItemid r) (liCount li) = 0") (simp_all add: case_prod_unfold)

lemma disenchant_item_step:
  assumes "item_at (rlItemSlot r) t = Some li" "template E (rlItemid r) = Some p"
  shows "loot_step t io (disenchant_item E r q t io)"
  unfolding disenchant_item_def assms bind.bind_lunit loot_step_def Let_def by (simp add: case_prod_unfold assms)

lemma draw_loop_loots: "draw_loop E m r P vs (a, b, c, d, io) = (a', b', c', d', io') \<Longrightarrow> loots io' = loots io"
proof (induction vs arbitrary: a b c d io)
  case (Cons v vs)
  obtain p w where v: "v = (p, w)" by (cases v)
  show ?case
  proof (cases "P w \<and> eligible E m p")
    case False
    then show ?thesis using Cons v by (auto split: if_splits)
  next
    case True
    let ?n = "ucast (fst (urand E 1 100 io)) :: u8"
    let ?io = "SendLootRoll E 0 p ?n (voteNum w) r (snd (urand E 1 100 io))"
    have "loots ?io = loots io" by (simp add: urand_def)
    with Cons.IH [of a ?n p w ?io] Cons.IH [of a b c d ?io] Cons.prems True v show ?thesis
      by (auto simp: Let_def case_prod_unfold split: if_splits)
  qed
qed simp

text \<open>The three phases succeed on a loot that is ready, and keep it so.\<close>

lemma ready_loot:
  assumes "loot_ready E r io" "rlLoot r = Some l"
  obtains t li p where "loots io l = Some t" "item_at (rlItemSlot r) t = Some li" "template E (rlItemid r) = Some p"
  using assms unfolding loot_ready_def by blast

definition phase_ok :: "grpEnv \<Rightarrow> nat \<Rightarrow> roll \<Rightarrow> gio \<Rightarrow> (roll \<times> gio) option \<Rightarrow> bool" where
  "phase_ok E l r io x \<longleftrightarrow> (\<exists>r' io'. x = Some (r', io') \<and> same_shape io io' \<and> rlLoot r' = rlLoot r \<and>
     rlItemSlot r' = rlItemSlot r \<and> rlItemid r' = rlItemid r)"

lemma count_need_ok:
  assumes R: "loot_ready E r io" "rlLoot r = Some l" shows "phase_ok E l r io (count_need E m l r io)"
proof (cases "totalNeed r > 0 \<and> playerVote r \<noteq> []")
  case True
  obtain tot mx g v io1 where d: "draw_loop E m r (\<lambda>v. v = NEED) (playerVote r) (totalNeed r, 0, 0, NEED, io) = (tot, mx, g, v, io1)"
    by (rule prod_cases5)
  from draw_loop_loots [OF d] have l1: "loots io1 = loots io" .
  from R obtain t li where t: "loots io l = Some t" "item_at (rlItemSlot r) t = Some li" by (rule ready_loot)
  let ?r = "r\<lparr>totalNeed := tot\<rparr>"
  let ?io = "geff (Call ''UpdateAchievementCriteria'' [G64 g, GStr ''ROLL_NEED_ON_LOOT'', G32 (rlItemid r), G32 (ucast mx)])
    (SendLootRollWon E 0 g mx ROLL_NEED ?r io1)"
  have "\<exists>io'. with_loot l (take_item E ?r g) ?io = Some io' \<and> same_shape ?io io'"
    by (rule with_loot_step [where t = t]) (use t l1 in \<open>simp_all add: take_item_step\<close>)
  moreover have "same_shape io ?io" "same_shape io (SendLootRollWon E 0 g mx ROLL_NEED ?r io1)" "same_shape io io1"
    using l1 by (simp_all add: same_shape_def)
  ultimately show ?thesis using True d
    by (auto simp: count_need_def phase_ok_def Let_def intro: same_shape_trans)
qed (auto simp: count_need_def phase_ok_def)

lemma count_greed_ok:
  assumes R: "loot_ready E r io" "rlLoot r = Some l" shows "phase_ok E l r io (count_greed E m l r io)"
proof (cases "totalNeed r = 0 \<and> totalGreed r > 0 \<and> playerVote r \<noteq> []")
  case True
  obtain tot mx g v io1 where d: "draw_loop E m r (\<lambda>v. v = GREED \<or> v = DISENCHANT) (playerVote r)
      (totalGreed r, 0, 0, NOT_VALID, io) = (tot, mx, g, v, io1)"
    by (rule prod_cases5)
  from draw_loop_loots [OF d] have l1: "loots io1 = loots io" .
  from R obtain t li p where t: "loots io l = Some t" "item_at (rlItemSlot r) t = Some li" "template E (rlItemid r) = Some p"
    by (rule ready_loot)
  let ?r = "r\<lparr>totalGreed := tot\<rparr>"
  let ?w = "SendLootRollWon E 0 g mx (voteNum v) ?r io1"
  let ?io = "geff (Call ''UpdateAchievementCriteria'' [G64 g, GStr ''ROLL_GREED_ON_LOOT'', G32 (rlItemid r), G32 (ucast mx)]) ?w"
  let ?f = "if v = GREED then with_loot l (take_item E ?r g) ?io
    else if v = DISENCHANT then with_loot l (disenchant_item E ?r g) ?io else Some ?io"
  have "\<exists>io'. with_loot l (take_item E ?r g) ?io = Some io' \<and> same_shape ?io io'"
    by (rule with_loot_step [where t = t]) (use t l1 in \<open>simp_all add: take_item_step\<close>)
  moreover have "\<exists>io'. with_loot l (disenchant_item E ?r g) ?io = Some io' \<and> same_shape ?io io'"
    by (rule with_loot_step [where t = t]) (use t l1 in \<open>simp_all add: disenchant_item_step\<close>)
  ultimately have "\<exists>io'. ?f = Some io' \<and> same_shape ?io io'"
    using same_shape_refl by (simp only: split: if_split) blast
  moreover have s: "same_shape io ?io" "same_shape io ?w" "same_shape io io1"
    using l1 by (simp_all add: same_shape_def)
  ultimately obtain io' where f: "?f = Some io'" "same_shape io io'" using same_shape_trans by blast
  have "count_greed E m l r io = (if g \<noteq> 0 then if inWorld E g then do { io \<leftarrow> ?f; Some (?r, io) } else Some (?r, ?w)
      else Some (r\<lparr>totalGreed := 0\<rparr>, io1))"
    using True d by (simp add: count_greed_def Let_def)
  with f s show ?thesis by (simp add: phase_ok_def)
qed (auto simp: count_greed_def phase_ok_def)

lemma all_passed_ok:
  assumes R: "loot_ready E r io" "rlLoot r = Some l"
  shows "\<exists>io'. all_passed E l r io = Some io' \<and> same_shape io io'"
proof (cases "totalNeed r = 0 \<and> totalGreed r = 0")
  case True
  from R obtain t li where t: "loots io l = Some t" "item_at (rlItemSlot r) t = Some li" by (rule ready_loot)
  let ?io = "SendLootAllPassed E r io"
  have "\<exists>io'. with_loot l (\<lambda>l io. do { _ \<leftarrow> item_at (rlItemSlot r) l;
      Some (change_item (rlItemSlot r) (\<lambda>li. li\<lparr>is_blocked := False\<rparr>) l, io) }) ?io = Some io' \<and> same_shape ?io io'"
    by (rule with_loot_step [where t = t]) (use t in \<open>simp_all add: loot_step_def\<close>)
  moreover have "same_shape io ?io" by (simp add: same_shape_def)
  ultimately show ?thesis using True same_shape_trans by (auto simp: all_passed_def Let_def)
qed (auto simp: all_passed_def)

lemma CountTheRoll_ok:
  assumes i: "i < length (RollId g)" and R: "loot_ready E (RollId g ! i) io"
  shows "\<exists>io'. CountTheRoll E m i g io = Some (g\<lparr>RollId := erase_nth i (RollId g)\<rparr>, io') \<and> same_shape io io'"
proof (cases "rlLoot (RollId g ! i)")
  case None
  then show ?thesis using i by (simp add: CountTheRoll_def)
next
  case (Some l)
  let ?r = "RollId g ! i"
  from count_need_ok [OF R Some, of m] obtain r1 io1 where 1: "count_need E m l ?r io = Some (r1, io1)" "same_shape io io1"
      "rlLoot r1 = Some l" "rlItemSlot r1 = rlItemSlot ?r" "rlItemid r1 = rlItemid ?r"
    using Some by (auto simp: phase_ok_def)
  have R1: "loot_ready E r1 io1" using same_shape_ready [OF 1(2) R] 1(3-5) Some by (simp add: loot_ready_def)
  from count_greed_ok [OF R1 1(3), of m] obtain r2 io2 where 2: "count_greed E m l r1 io1 = Some (r2, io2)" "same_shape io1 io2"
      "rlLoot r2 = Some l" "rlItemSlot r2 = rlItemSlot r1" "rlItemid r2 = rlItemid r1"
    using 1(3) by (auto simp: phase_ok_def)
  have "loot_ready E r2 io2" using same_shape_ready [OF 2(2) R1] 2(3-5) 1(3) by (simp add: loot_ready_def)
  from all_passed_ok [OF this 2(3)] obtain io3 where 3: "all_passed E l r2 io2 = Some io3" "same_shape io2 io3" by blast
  have "CountTheRoll E m i g io = Some (g\<lparr>RollId := erase_nth i (RollId g)\<rparr>, io3)"
    using i Some 1(1) 2(1) 3(1) by (simp add: CountTheRoll_def Let_def)
  with 1(2) 2(2) 3(2) show ?thesis using same_shape_trans by blast
qed

text \<open>The timer's loop: what it has left behind is on other loots, and each count takes one away.\<close>

lemma end_loop_ok:
  "\<forall>r\<in>set (RollId g). loot_ready E r io \<Longrightarrow> i \<le> length (RollId g) \<Longrightarrow> \<forall>r\<in>set (take i (RollId g)). rlLoot r \<noteq> Some l \<Longrightarrow>
    \<exists>io'. end_loop E l m i g io = Some (g\<lparr>RollId := filter (\<lambda>r. rlLoot r \<noteq> Some l) (RollId g)\<rparr>, io') \<and> same_shape io io'"
proof (induction "length (RollId g) * Suc (length (RollId g)) + (length (RollId g) - i)" arbitrary: g io i rule: less_induct)
  case less
  show ?case
  proof (cases "i < length (RollId g)")
    case False
    then have "filter (\<lambda>r. rlLoot r \<noteq> Some l) (RollId g) = RollId g" using less.prems by simp
    moreover from this have "g\<lparr>RollId := filter (\<lambda>r. rlLoot r \<noteq> Some l) (RollId g)\<rparr> = g" by simp
    ultimately show ?thesis using False by (simp add: end_loop.simps)
  next
    case i: True
    show ?thesis
    proof (cases "rlLoot (RollId g ! i) = Some l")
      case True
      let ?g = "g\<lparr>RollId := erase_nth i (RollId g)\<rparr>"
      from CountTheRoll_ok [OF i, of E io m] less.prems(1) i obtain io1 where
        c: "CountTheRoll E m i g io = Some (?g, io1)" "same_shape io io1" by auto
      have "\<forall>r\<in>set (RollId ?g). loot_ready E r io1"
        using less.prems(1) same_shape_ready [OF c(2)] set_erase_nth by fastforce
      moreover have "length (RollId ?g) * Suc (length (RollId ?g)) + (length (RollId ?g) - 0) <
          length (RollId g) * Suc (length (RollId g)) + (length (RollId g) - i)"
        using i by (cases "length (RollId g)") auto
      ultimately obtain io' where
        e: "end_loop E l m 0 ?g io1 = Some (?g\<lparr>RollId := filter (\<lambda>r. rlLoot r \<noteq> Some l) (RollId ?g)\<rparr>, io')" "same_shape io1 io'"
        using less.hyps [of ?g 0 io1] by auto
      have "filter (\<lambda>r. rlLoot r \<noteq> Some l) (erase_nth i (RollId g)) = filter (\<lambda>r. rlLoot r \<noteq> Some l) (RollId g)"
        using True i id_take_nth_drop [OF i] by (metis (mono_tags, lifting) erase_nth_def filter.simps(2) filter_append)
      with e c i True same_shape_trans [OF c(2) e(2)] show ?thesis by (simp add: end_loop.simps [of E l m i])
    next
      case False
      then have "\<forall>r\<in>set (take (Suc i) (RollId g)). rlLoot r \<noteq> Some l"
        using less.prems(3) i by (auto simp: take_Suc_conv_app_nth)
      with less.hyps [of g "Suc i" io] less.prems(1) i False show ?thesis by (auto simp: end_loop.simps [of E l m i])
    qed
  qed
qed

section \<open>Tallies\<close>

definition votes :: "(rollVote \<Rightarrow> bool) \<Rightarrow> ('k \<times> rollVote) list \<Rightarrow> nat" where
  "votes P vs = length (filter (\<lambda>v. P (snd v)) vs)"

lemma votes_simps [simp]: "votes P [] = 0" "votes P (v # vs) = (if P (snd v) then 1 else 0) + votes P vs"
  by (simp_all add: votes_def)

lemma votes_le: "votes P vs \<le> length vs"
  by (simp add: votes_def)

lemma votes_put:
  "key_sorted m \<Longrightarrow> map_of m k = Some w \<Longrightarrow>
    votes P (smap_put k v m) + (if P w then 1 else 0) = votes P m + (if P v then 1 else 0)"
proof (induction k v m rule: smap_put.induct)
  case (2 k v k' v' m)
  have "\<not> k < k'" if "k \<noteq> k'"
  proof
    assume "k < k'"
    with 2(3) that have "(k, w) \<in> set m" by (auto dest: map_of_SomeD)
    with 2(2) have "k' < k" by (auto simp: key_sorted_def)
    with \<open>k < k'\<close> show False by simp
  qed
  with 2 show ?case by (auto simp: key_sorted_def)
qed simp

lemma length_put: "map_of m k = Some (w :: rollVote) \<Longrightarrow> key_sorted m \<Longrightarrow> length (smap_put k v m) = length m"
  using votes_put [of m k w "\<lambda>_. True" v] by (simp add: votes_def)

lemma votes_pos: "map_of m k = Some w \<Longrightarrow> P w \<Longrightarrow> 0 < votes P m"
  by (induction m) (auto split: if_splits)

lemma u8_bound: "unat (x :: u8) < 256"
  using unsigned_less [of x] by simp

text \<open>The tallies of a roll in which nobody has voted twice.\<close>

definition roll_ok :: "roll \<Rightarrow> bool" where
  "roll_ok r \<longleftrightarrow> key_sorted (playerVote r) \<and> votes (\<lambda>v. v = NOT_VALID) (playerVote r) = 0 \<and>
     unat (totalPlayersRolling r) = length (playerVote r) \<and>
     unat (totalNeed r) = votes (\<lambda>v. v = NEED) (playerVote r) \<and>
     unat (totalGreed r) = votes (\<lambda>v. v = GREED \<or> v = DISENCHANT) (playerVote r) \<and>
     unat (totalPass r) = votes (\<lambda>v. v = PASS) (playerVote r)"

definition silent :: "roll \<Rightarrow> nat" where
  "silent r = votes (\<lambda>v. v = NOT_EMITED_YET) (playerVote r)"

lemma votes_partition:
  "votes (\<lambda>v. v = NEED) vs + votes (\<lambda>v. v = GREED \<or> v = DISENCHANT) vs + votes (\<lambda>v. v = PASS) vs +
    votes (\<lambda>v. v = NOT_EMITED_YET) vs + votes (\<lambda>v. v = NOT_VALID) vs = length vs"
proof (induction vs)
  case (Cons v vs)
  then show ?case by (cases "snd v") auto
qed simp

lemma roll_complete_silent: "roll_ok r \<Longrightarrow> roll_complete r \<longleftrightarrow> silent r = 0"
  using votes_partition [of "playerVote r"] by (auto simp: roll_ok_def roll_complete_def silent_def)

lemma u8_suc: "unat (a :: u8) < 255 \<Longrightarrow> unat (a + 1) = Suc (unat a)"
  by (simp add: unat_word_ariths(1))

lemma choice_cases: "(c :: u8) < MAX_ROLL_TYPE \<Longrightarrow> c = ROLL_PASS \<or> c = ROLL_NEED \<or> c = ROLL_GREED \<or> c = ROLL_DISENCHANT"
proof -
  assume "c < MAX_ROLL_TYPE"
  then have "unat c < 4" by (simp add: roll_types word_less_nat_alt)
  then have "unat c = 0 \<or> unat c = 1 \<or> unat c = 2 \<or> unat c = 3" by auto
  then show ?thesis by (elim disjE) (drule arg_cong [where f = "of_nat :: nat \<Rightarrow> u8"], simp add: roll_types)+
qed

text \<open>A first vote keeps the tallies, and leaves one silent player fewer.\<close>

lemma first_vote:
  assumes ok: "roll_ok r" and p: "map_of (playerVote r) p = Some NOT_EMITED_YET" and c: "c < MAX_ROLL_TYPE"
  shows "roll_ok (fst (cast_vote E p c r io)) \<and> Suc (silent (fst (cast_vote E p c r io))) = silent r"
proof -
  have k: "key_sorted (playerVote r)" using ok by (simp add: roll_ok_def)
  note put = votes_put [OF k p]
  have len: "length (smap_put p v (playerVote r)) = length (playerVote r)" for v by (rule length_put [OF p k])
  have "length (playerVote r) < 256" using ok u8_bound [of "totalPlayersRolling r"] by (simp add: roll_ok_def)
  moreover have "0 < votes (\<lambda>v. v = NOT_EMITED_YET) (playerVote r)" using votes_pos [OF p] by simp
  ultimately have small: "unat (totalNeed r) < 255" "unat (totalGreed r) < 255" "unat (totalPass r) < 255"
    using ok votes_partition [of "playerVote r"] by (auto simp: roll_ok_def)
  from choice_cases [OF c] show ?thesis
    using ok len put [of "\<lambda>v. v = NEED" PASS] put [of "\<lambda>v. v = NEED" NEED] put [of "\<lambda>v. v = NEED" GREED]
      put [of "\<lambda>v. v = NEED" DISENCHANT] put [of "\<lambda>v. v = PASS" PASS] put [of "\<lambda>v. v = PASS" NEED]
      put [of "\<lambda>v. v = PASS" GREED] put [of "\<lambda>v. v = PASS" DISENCHANT]
      put [of "\<lambda>v. v = GREED \<or> v = DISENCHANT" PASS] put [of "\<lambda>v. v = GREED \<or> v = DISENCHANT" NEED]
      put [of "\<lambda>v. v = GREED \<or> v = DISENCHANT" GREED] put [of "\<lambda>v. v = GREED \<or> v = DISENCHANT" DISENCHANT]
      put [of "\<lambda>v. v = NOT_VALID" PASS] put [of "\<lambda>v. v = NOT_VALID" NEED] put [of "\<lambda>v. v = NOT_VALID" GREED]
      put [of "\<lambda>v. v = NOT_VALID" DISENCHANT] put [of "\<lambda>v. v = NOT_EMITED_YET" PASS]
      put [of "\<lambda>v. v = NOT_EMITED_YET" NEED] put [of "\<lambda>v. v = NOT_EMITED_YET" GREED] put [of "\<lambda>v. v = NOT_EMITED_YET" DISENCHANT]
      u8_suc [OF small(1)] u8_suc [OF small(2)] u8_suc [OF small(3)] key_sorted_put [OF k]
    by (elim disjE) (simp_all add: cast_vote_def roll_types roll_ok_def silent_def)
qed

lemma cast_vote_fields:
  "rlItemGUID (fst (cast_vote E p c r io)) = rlItemGUID r" "rlLoot (fst (cast_vote E p c r io)) = rlLoot r"
  "rlItemSlot (fst (cast_vote E p c r io)) = rlItemSlot r" "rlItemid (fst (cast_vote E p c r io)) = rlItemid r"
  "loots (snd (cast_vote E p c r io)) = loots io"
  "map_of (playerVote r) q = Some v \<Longrightarrow> q \<noteq> p \<Longrightarrow> map_of (playerVote (fst (cast_vote E p c r io))) q = Some v"
  "totalPlayersRolling (fst (cast_vote E p c r io)) = totalPlayersRolling r"
  by (simp_all add: cast_vote_def)

text \<open>A vote on a roll whose loot is there: the roll changes, or ends and goes.\<close>

definition loot_open :: "grpEnv \<Rightarrow> roll \<Rightarrow> gio \<Rightarrow> bool" where
  "loot_open E r io \<longleftrightarrow> loot_ready E r io \<and> (\<forall>l t. rlLoot r = Some l \<longrightarrow> loots io l = Some t \<longrightarrow> ltItems t \<noteq> [])"

lemma CountRollVote_open:
  fixes c :: u8
  assumes i: "GetRoll guid (RollId g) = Some i" and L: "loot_open E (RollId g ! i) io"
    and p: "map_of (playerVote (RollId g ! i)) p \<noteq> None"
  defines "r \<equiv> fst (cast_vote E p c (RollId g ! i) io)"
  shows "\<exists>io'. CountRollVote E p guid c g io = Some (if roll_complete r then (True, g\<lparr>RollId := erase_nth i (RollId g)\<rparr>, io')
      else (False, g\<lparr>RollId := (RollId g)[i := r]\<rparr>, io')) \<and> (\<not> roll_complete r \<longrightarrow> loots io' = loots io)"
proof -
  let ?io = "snd (cast_vote E p c (RollId g ! i) io)"
  from GetRoll_Some [OF i] obtain l where l: "i < length (RollId g)" "rlLoot (RollId g ! i) = Some l" by blast
  from L l(2) obtain t where t: "loots io l = Some t" "ltItems t \<noteq> []" by (auto simp: loot_open_def loot_ready_def)
  let ?g = "g\<lparr>RollId := (RollId g)[i := r]\<rparr>"
  have run: "CountRollVote E p guid c g io =
      (if roll_complete r then do { (g, io) \<leftarrow> CountTheRoll E None i ?g ?io; Some (True, g, io) } else Some (False, ?g, ?io))"
    using i l t p by (auto simp: CountRollVote_def Let_def case_prod_unfold r_def)
  have "loot_ready E r ?io" using L l(2) by (auto simp: loot_open_def loot_ready_def r_def cast_vote_fields)
  then have "loot_ready E (RollId ?g ! i) ?io" using l(1) by simp
  with CountTheRoll_ok [of i ?g E ?io None] l(1) obtain io' where
    "CountTheRoll E None i ?g ?io = Some (?g\<lparr>RollId := erase_nth i (RollId g)\<rparr>, io')" by (auto simp: erase_nth_update)
  with run show ?thesis by (auto simp: cast_vote_fields)
qed

section \<open>Everyone votes once\<close>

fun vote_all :: "grpEnv \<Rightarrow> u64 \<Rightarrow> (u64 \<times> u8) list \<Rightarrow> grp \<times> gio \<Rightarrow> (grp \<times> gio) option" where
  "vote_all E guid [] s = Some s"
| "vote_all E guid ((p, c) # vs) s = do { (_, s) \<leftarrow> CountRollVote E p guid c (fst s) (snd s); vote_all E guid vs s }"

definition silent_players :: "roll \<Rightarrow> u64 set" where
  "silent_players r = {p. map_of (playerVote r) p = Some NOT_EMITED_YET}"

lemma silent_iff: "key_sorted (playerVote r) \<Longrightarrow> silent r = 0 \<longleftrightarrow> silent_players r = {}"
  using key_sorted_distinct [of "playerVote r"]
  by (auto simp: silent_def silent_players_def votes_def filter_empty_conv map_of_eq_Some_iff)

lemma cast_silent_players:
  assumes "p \<in> silent_players r" "c < MAX_ROLL_TYPE"
  shows "silent_players (fst (cast_vote E p c r io)) = silent_players r - {p}"
  using choice_cases [OF assms(2)] by (auto simp: silent_players_def cast_vote_def roll_types split: if_splits)

lemma vote_all_open:
  assumes "GetRoll guid (RollId g) = Some i" "loot_open E (RollId g ! i) io" "roll_ok (RollId g ! i)"
    and "distinct (map fst vs)" "set (map fst vs) \<subseteq> silent_players (RollId g ! i)" "\<forall>v\<in>set vs. snd v < MAX_ROLL_TYPE"
    and "set (map fst vs) \<noteq> silent_players (RollId g ! i)"
  shows "\<exists>r io'. vote_all E guid vs (g, io) = Some (g\<lparr>RollId := (RollId g)[i := r]\<rparr>, io') \<and> loots io' = loots io \<and>
    roll_ok r \<and> rlItemGUID r = guid \<and> rlLoot r = rlLoot (RollId g ! i) \<and> rlItemSlot r = rlItemSlot (RollId g ! i) \<and>
    rlItemid r = rlItemid (RollId g ! i) \<and> silent_players r = silent_players (RollId g ! i) - set (map fst vs)"
  using assms
proof (induction vs arbitrary: g io)
  case Nil
  from GetRoll_Some [OF Nil.prems(1)] have "g\<lparr>RollId := (RollId g)[i := RollId g ! i]\<rparr> = g" "rlItemGUID (RollId g ! i) = guid"
    by simp_all
  with Nil.prems(3) show ?case by (intro exI [of _ "RollId g ! i"] exI [of _ io]) simp
next
  case (Cons v vs)
  obtain p c where v: "v = (p, c)" by (cases v)
  let ?old = "RollId g ! i"
  let ?r = "fst (cast_vote E p c ?old io)"
  have p: "p \<in> silent_players ?old" "c < MAX_ROLL_TYPE" "p \<notin> fst ` set vs" using Cons.prems(4-6) v by auto
  then have m: "map_of (playerVote ?old) p = Some NOT_EMITED_YET" by (simp add: silent_players_def)
  from first_vote [OF Cons.prems(3) m p(2)] have ok: "roll_ok ?r" by blast
  have s: "silent_players ?r = silent_players ?old - {p}" by (rule cast_silent_players [OF p(1,2)])
  have "silent_players ?r \<noteq> {}" unfolding s using Cons.prems(5,7) v by auto
  then have "\<not> roll_complete ?r" using roll_complete_silent [OF ok] silent_iff [of ?r] ok by (simp add: roll_ok_def)
  with CountRollVote_open [OF Cons.prems(1,2), of p c] m obtain io1 where
    c: "CountRollVote E p guid c g io = Some (False, g\<lparr>RollId := (RollId g)[i := ?r]\<rparr>, io1)" "loots io1 = loots io" by auto
  let ?g = "g\<lparr>RollId := (RollId g)[i := ?r]\<rparr>"
  have i: "i < length (RollId g)" using GetRoll_Some [OF Cons.prems(1)] by blast
  then have nth: "RollId ?g ! i = ?r" by simp
  have "GetRoll guid (RollId ?g) = Some i"
    using GetRoll_update [OF Cons.prems(1)] by (simp add: cast_vote_fields)
  moreover have "loot_open E (RollId ?g ! i) io1" using Cons.prems(2) c(2) unfolding nth
    by (simp add: loot_open_def loot_ready_def cast_vote_fields)
  moreover have "set (map fst vs) \<subseteq> silent_players ?r" "set (map fst vs) \<noteq> silent_players ?r"
    unfolding s using Cons.prems(5,7) v p by auto
  ultimately obtain r io' where "vote_all E guid vs (?g, io1) = Some (?g\<lparr>RollId := (RollId ?g)[i := r]\<rparr>, io')" "loots io' = loots io1"
      "roll_ok r" "rlItemGUID r = guid" "rlLoot r = rlLoot ?r" "rlItemSlot r = rlItemSlot ?r" "rlItemid r = rlItemid ?r"
      "silent_players r = silent_players ?r - set (map fst vs)"
    using Cons.IH [of ?g io1] Cons.prems(4,6) ok v unfolding nth by auto
  with c v s show ?case by (auto simp: cast_vote_fields)
qed

section \<open>Who wins\<close>

text \<open>
  The first of the highest numbers, in a list of numbers; and what the loop over the votes
  makes of the players that take part, each with the number drawn for it.
\<close>

definition first_highest :: "u8 list \<Rightarrow> nat \<Rightarrow> bool" where
  "first_highest ns j \<longleftrightarrow> j < length ns \<and> (\<forall>k<length ns. ns ! k \<le> ns ! j) \<and> (\<forall>k<j. ns ! k < ns ! j)"

definition drawn :: "grpEnv \<Rightarrow> nat \<Rightarrow> nat \<Rightarrow> u8 list" where
  "drawn E d n = map (\<lambda>j. ucast (urandDraw E (d + j) 1 100)) [0..<n]"

definition takers :: "grpEnv \<Rightarrow> nat option \<Rightarrow> (rollVote \<Rightarrow> bool) \<Rightarrow> (u64 \<times> rollVote) list \<Rightarrow> (u64 \<times> rollVote) list" where
  "takers E m P vs = filter (\<lambda>v. P (snd v) \<and> eligible E m (fst v)) vs"

lemma drawn_Suc: "drawn E d (Suc n) = ucast (urandDraw E d 1 100) # drawn E (Suc d) n"
  unfolding drawn_def by (rule nth_equalityI) (auto simp: nth_Cons' less_Suc_eq_0_disj simp del: upt_Suc)

lemma first_highest_Cons:
  "first_highest (n # ns) (Suc j) \<longleftrightarrow> first_highest ns j \<and> n < ns ! j"
  unfolding first_highest_def by (auto simp: less_Suc_eq_0_disj All_less_Suc2 intro: less_imp_le)

lemma first_highest_0: "first_highest (n # ns) 0 \<longleftrightarrow> (\<forall>k<length ns. ns ! k \<le> n)"
  unfolding first_highest_def by (auto simp: less_Suc_eq_0_disj)

lemma draw_loop_winner:
  assumes "draw_loop E m r P vs (tot, mx, g, v, io) = (tot', mx', g', v', io')"
  defines "es \<equiv> takers E m P vs" and "ns \<equiv> drawn E (draws io) (length (takers E m P vs))"
  shows "tot' = tot - of_nat (votes P vs - length es) \<and> draws io' = draws io + length es \<and>
    ((\<forall>k<length ns. ns ! k \<le> mx) \<and> mx' = mx \<and> g' = g \<and> v' = v \<or>
     (\<exists>j. first_highest ns j \<and> mx < ns ! j \<and> mx' = ns ! j \<and> (g', v') = es ! j))"
  using assms(1) unfolding es_def ns_def
proof (induction vs arbitrary: tot mx g v io)
  case Nil
  then show ?case by (simp add: takers_def drawn_def)
next
  case (Cons x vs)
  obtain p w where x: "x = (p, w)" by (cases x)
  have le: "length (takers E m P vs) \<le> votes P vs"
    by (induction vs) (auto simp: takers_def)
  show ?case
  proof (cases "P w \<and> eligible E m p")
    case False
    then have "takers E m P (x # vs) = takers E m P vs" by (auto simp: takers_def x)
    with Cons False x le show ?thesis by (cases "P w") (auto simp: algebra_simps)
  next
    case True
    let ?n = "ucast (urandDraw E (draws io) 1 100) :: u8"
    let ?io = "SendLootRoll E 0 p ?n (voteNum w) r (snd (urand E 1 100 io))"
    have d: "draws ?io = Suc (draws io)" by (simp add: urand_def)
    have d': "Suc (draws io) = draws (snd (urand E 1 100 io))" by (simp add: urand_def)
    have t: "takers E m P (x # vs) = (p, w) # takers E m P vs" using True by (simp add: takers_def x)
    then have n: "drawn E (draws io) (length (takers E m P (x # vs))) =
        ?n # drawn E (draws ?io) (length (takers E m P vs))" by (simp add: drawn_Suc d')
    let ?ns = "drawn E (draws ?io) (length (takers E m P vs))"
    show ?thesis
    proof (cases "mx < ?n")
      case better: True
      then have "draw_loop E m r P vs (tot, ?n, p, w, ?io) = (tot', mx', g', v', io')"
        using Cons.prems True x by (simp add: Let_def urand_def)
      note IH = Cons.IH [OF this]
      show ?thesis
      proof (cases "\<forall>k<length ?ns. ?ns ! k \<le> ?n")
        case high: True
        have "\<not> (\<exists>j. first_highest ?ns j \<and> ?n < ?ns ! j)" using high by (auto simp: first_highest_def not_less)
        with IH d high better t n True x show ?thesis
          by (auto simp: first_highest_0 intro!: exI [of _ 0])
      next
        case False
        then obtain j where "first_highest ?ns j" "?n < ?ns ! j" "mx' = ?ns ! j" "(g', v') = takers E m P vs ! j"
          using IH by blast
        then have "\<exists>j. first_highest (?n # ?ns) j \<and> mx < (?n # ?ns) ! j \<and> mx' = (?n # ?ns) ! j \<and>
            (g', v') = ((p, w) # takers E m P vs) ! j"
          using better by (intro exI [of _ "Suc j"]) (simp add: first_highest_Cons)
        with IH d t n True x show ?thesis by auto
      qed
    next
      case worse: False
      then have "draw_loop E m r P vs (tot, mx, g, v, ?io) = (tot', mx', g', v', io')"
        using Cons.prems True x by (simp add: Let_def urand_def)
      note IH = Cons.IH [OF this]
      show ?thesis
      proof (cases "\<forall>k<length ?ns. ?ns ! k \<le> mx")
        case low: True
        then have "\<not> (\<exists>j. first_highest ?ns j \<and> mx < ?ns ! j)" by (auto simp: first_highest_def not_less)
        with IH d low worse t n True x show ?thesis by (auto simp: less_Suc_eq_0_disj)
      next
        case False
        then obtain j where "first_highest ?ns j" "mx < ?ns ! j" "mx' = ?ns ! j" "(g', v') = takers E m P vs ! j"
          using IH by blast
        then have "\<exists>j. first_highest (?n # ?ns) j \<and> mx < (?n # ?ns) ! j \<and> mx' = (?n # ?ns) ! j \<and>
            (g', v') = ((p, w) # takers E m P vs) ! j"
          using worse by (intro exI [of _ "Suc j"]) (auto simp: first_highest_Cons)
        with IH d t n True x show ?thesis by auto
      qed
    qed
  qed
qed


section \<open>The whole count\<close>

lemma item_at_change:
  "item_at s t = Some li \<Longrightarrow> item_at s (change_item s f t) = Some (f li)"
  by (auto simp: item_at_def change_item_def Let_def split: if_splits)

lemma item_at_more [simp]:
  "item_at s (t\<lparr>unlootedCount := n\<rparr>) = item_at s t" "item_at s (t\<lparr>PlayersLooting := ps\<rparr>) = item_at s t"
  by (simp_all add: item_at_def Let_def)

text \<open>What becomes of the item when the player \<^verbatim>\<open>p\<close> wins it with the vote \<^verbatim>\<open>v\<close>.\<close>

definition roll_award :: "grpEnv \<Rightarrow> roll \<Rightarrow> u64 \<times> rollVote \<Rightarrow> lootItem \<Rightarrow> lootItem" where
  "roll_award E r w li =
     (if snd w = DISENCHANT \<or> canStore E (fst w) (rlItemid r) (liCount li) = 0 then li\<lparr>is_looted := True\<rparr>
      else li\<lparr>is_blocked := False, rollWinnerGUID := fst w\<rparr>)"

definition item_of :: "nat \<Rightarrow> u8 \<Rightarrow> gio \<Rightarrow> lootItem option" where
  "item_of l s io = (case loots io l of None \<Rightarrow> None | Some t \<Rightarrow> item_at s t)"

text \<open>
  What reaches the players of an outcome: the items stored in their bags, the loot of a
  disenchanted item, and the refusals of full bags.
\<close>

definition is_handout :: "grpEffect \<Rightarrow> bool" where
  "is_handout e \<longleftrightarrow> (case e of Call n xs \<Rightarrow> n \<in> {''StoreNewItem'', ''AutoStoreLoot'', ''SendEquipError''} | _ \<Rightarrow> False)"

definition handed :: "gio \<Rightarrow> grpEffect list" where
  "handed io = filter is_handout (gout io)"

definition roll_handout :: "grpEnv \<Rightarrow> roll \<Rightarrow> u64 \<times> rollVote \<Rightarrow> lootItem \<Rightarrow> grpEffect" where
  "roll_handout E r w li =
     (let msg = canStore E (fst w) (rlItemid r) (liCount li)
      in if snd w = DISENCHANT then Call ''AutoStoreLoot'' [G64 (fst w), G32 (itDisenchantID (the (template E (rlItemid r))))]
         else if msg = 0 then Call ''StoreNewItem'' (G64 (fst w) # G32 (rlItemid r) # G32 (word_of_int (liRandomPropertyId li)) #
           map G32 (liAllowedGUIDs li))
         else Call ''SendEquipError'' [G64 (fst w), G8 msg, G32 (rlItemid r)])"

lemma handed_loots [simp]: "handed (io\<lparr>loots := x\<rparr>) = handed io"
  by (simp add: handed_def)

lemma handed_geff: "handed (geff e io) = (if is_handout e then handed io @ [e] else handed io)"
  by (simp add: handed_def)

lemma handed_fold: "(\<And>x. \<not> is_handout (f x)) \<Longrightarrow> handed (fold (\<lambda>x. geff (f x)) xs io) = handed io"
  by (simp add: handed_def fold_geff filter_empty_conv)

lemma handed_senders [simp]:
  "handed (SendLootRoll E a t n k r io) = handed io" "handed (SendLootRollWon E a t n k r io) = handed io"
  "handed (SendLootAllPassed E r io) = handed io" "handed (snd (NotifyItemRemoved E j lt io)) = handed io"
  by (simp_all add: SendLootRoll_def SendLootRollWon_def SendLootAllPassed_def NotifyItemRemoved_def send_each_def handed_fold is_handout_def)

lemma roll_handout_roll [simp]:
  "roll_handout E (r\<lparr>totalNeed := a\<rparr>) = roll_handout E r" "roll_handout E (r\<lparr>totalGreed := a\<rparr>) = roll_handout E r"
  by (simp_all add: roll_handout_def fun_eq_iff Let_def)

lemma draw_loop_handed: "draw_loop E m r P vs (a, b, c, d, io) = (a', b', c', d', io') \<Longrightarrow> handed io' = handed io"
proof (induction vs arbitrary: a b c d io)
  case (Cons v vs)
  obtain p w where v: "v = (p, w)" by (cases v)
  show ?case
  proof (cases "P w \<and> eligible E m p")
    case False
    then show ?thesis using Cons v by (auto split: if_splits)
  next
    case True
    let ?n = "ucast (fst (urand E 1 100 io)) :: u8"
    let ?io = "SendLootRoll E 0 p ?n (voteNum w) r (snd (urand E 1 100 io))"
    have "handed ?io = handed io" by (simp add: urand_def) (simp add: handed_def)
    with Cons.IH [of a ?n p w ?io] Cons.IH [of a b c d ?io] Cons.prems True v show ?thesis
      by (auto simp: Let_def case_prod_unfold split: if_splits)
  qed
qed simp

lemma with_take_item:
  assumes "item_of l (rlItemSlot r) io = Some li" "v \<noteq> DISENCHANT"
  shows "\<exists>io'. with_loot l (take_item E r p) io = Some io' \<and> draws io' = draws io \<and>
    item_of l (rlItemSlot r) io' = Some (roll_award E r (p, v) li) \<and> handed io' = handed io @ [roll_handout E r (p, v) li]"
proof -
  from assms(1) obtain t where t: "loots io l = Some t" "item_at (rlItemSlot r) t = Some li"
    by (auto simp: item_of_def split: option.splits)
  show ?thesis using assms(2)
    by (auto simp: with_loot_def take_item_def t Let_def case_prod_unfold item_of_def roll_award_def NotifyItemRemoved_def
        fold_geff item_at_change [OF t(2)] roll_handout_def handed_geff handed_fold is_handout_def)
qed

lemma with_disenchant_item:
  assumes "item_of l (rlItemSlot r) io = Some li" "template E (rlItemid r) \<noteq> None"
  shows "\<exists>io'. with_loot l (disenchant_item E r p) io = Some io' \<and> draws io' = draws io \<and>
    item_of l (rlItemSlot r) io' = Some (roll_award E r (p, DISENCHANT) li) \<and>
    handed io' = handed io @ [roll_handout E r (p, DISENCHANT) li]"
proof -
  from assms obtain t q where t: "loots io l = Some t" "item_at (rlItemSlot r) t = Some li" "template E (rlItemid r) = Some q"
    by (auto simp: item_of_def split: option.splits)
  then show ?thesis
    by (auto simp: with_loot_def disenchant_item_def Let_def case_prod_unfold item_of_def roll_award_def NotifyItemRemoved_def
        fold_geff item_at_change [OF t(2)] roll_handout_def handed_geff handed_fold is_handout_def)
qed

lemma draw_loop_idle:
  "takers E m P vs = [] \<Longrightarrow> draw_loop E m r P vs (tot, mx, g, v, io) = (tot - of_nat (votes P vs), mx, g, v, io)"
proof (induction vs arbitrary: tot)
  case (Cons x vs)
  then show ?case by (cases x) (auto simp: takers_def algebra_simps split: if_splits)
qed simp

lemma takers_le: "length (takers E m P vs) \<le> votes P vs"
  by (induction vs) (auto simp: takers_def)

lemma u8_of_nat: "n \<le> unat (w :: u8) \<Longrightarrow> unat (of_nat n :: u8) = n"
  using u8_bound [of w] by (simp add: unat_of_nat)

lemma total_left: "unat (tot :: u8) = votes P vs \<Longrightarrow> tot - of_nat (votes P vs - length (takers E m P vs)) = of_nat (length (takers E m P vs))"
proof -
  assume "unat tot = votes P vs"
  then have "tot = of_nat (votes P vs)" using u8_bound [of tot] by (simp add: word_unat_eq_iff unat_of_nat)
  with takers_le [of E m P vs] show ?thesis by (simp add: of_nat_diff)
qed

text \<open>The environment of a count: numbers between 1 and 100, and nobody has the guid zero.\<close>

definition fair_env :: "grpEnv \<Rightarrow> bool" where
  "fair_env E \<longleftrightarrow> (\<forall>d. 1 \<le> urandDraw E d 1 100 \<and> urandDraw E d 1 100 \<le> 100) \<and> \<not> inWorld E 0"

lemma drawn_pos: "fair_env E \<Longrightarrow> k < n \<Longrightarrow> 0 < drawn E d n ! k"
proof -
  assume "fair_env E" "k < n"
  then have d: "1 \<le> urandDraw E (d + k) 1 100" "urandDraw E (d + k) 1 100 \<le> 100" by (simp_all add: fair_env_def)
  then have "(ucast (urandDraw E (d + k) 1 100) :: u8) \<noteq> 0"
    by (simp add: word_le_nat_alt word_unat_eq_iff unsigned_ucast_eq take_bit_eq_mod)
  with \<open>k < n\<close> show ?thesis by (simp add: drawn_def word_neq_0_conv)
qed

text \<open>When somebody takes part, the loop ends with the first of the highest numbers.\<close>

lemma draw_loop_best:
  assumes "fair_env E" "takers E m P vs \<noteq> []" "unat tot = votes P vs"
  shows "\<exists>j mx io'. draw_loop E m r P vs (tot, 0, 0, v, io) =
      (of_nat (length (takers E m P vs)), mx, fst (takers E m P vs ! j), snd (takers E m P vs ! j), io') \<and>
    j < length (takers E m P vs) \<and> first_highest (drawn E (draws io) (length (takers E m P vs))) j \<and>
    draws io' = draws io + length (takers E m P vs) \<and> loots io' = loots io \<and> handed io' = handed io"
proof -
  let ?es = "takers E m P vs"
  obtain tot' mx g v' io' where d: "draw_loop E m r P vs (tot, 0, 0, v, io) = (tot', mx, g, v', io')" by (rule prod_cases5)
  have "0 < length ?es" "length (drawn E (draws io) (length ?es)) = length ?es" using assms(2) by (auto simp: drawn_def)
  then have "\<not> (\<forall>k<length (drawn E (draws io) (length ?es)). drawn E (draws io) (length ?es) ! k \<le> 0)"
    using drawn_pos [OF assms(1), of 0 "length ?es" "draws io"] by auto
  with draw_loop_winner [OF d] obtain j where j: "first_highest (drawn E (draws io) (length ?es)) j" "(g, v') = ?es ! j"
      "draws io' = draws io + length ?es" "tot' = tot - of_nat (votes P vs - length ?es)" by blast
  moreover have "j < length ?es" using j(1) by (simp add: first_highest_def drawn_def)
  ultimately show ?thesis using d draw_loop_loots [OF d] draw_loop_handed [OF d] total_left [OF assms(3)] by (metis fst_conv snd_conv)
qed


lemma taker_at: "j < length (takers E m P vs) \<Longrightarrow> fair_env E \<Longrightarrow>
    P (snd (takers E m P vs ! j)) \<and> inWorld E (fst (takers E m P vs ! j)) \<and> fst (takers E m P vs ! j) \<noteq> 0"
  using nth_mem [of j "takers E m P vs"] by (fastforce simp: takers_def eligible_def fair_env_def)

lemma item_of_loots: "loots io' = loots io \<Longrightarrow> item_of l s io' = item_of l s io"
  by (simp add: item_of_def)

lemma roll_award_roll [simp]: "roll_award E (r\<lparr>totalNeed := a\<rparr>) = roll_award E r" "roll_award E (r\<lparr>totalGreed := a\<rparr>) = roll_award E r"
  by (auto simp: roll_award_def fun_eq_iff)

lemma votes_some: "0 < votes P vs \<Longrightarrow> vs \<noteq> []"
  by auto

lemma takers_some: "takers E m P vs \<noteq> [] \<Longrightarrow> 0 < votes P vs"
  using takers_le [of E m P vs] by (metis length_greater_0_conv less_le_trans)

lemma count_need_best:
  fixes m :: "nat option"
  assumes "fair_env E" "takers E m (\<lambda>v. v = NEED) (playerVote r) \<noteq> []" "unat (totalNeed r) = votes (\<lambda>v. v = NEED) (playerVote r)"
    "item_of l (rlItemSlot r) io = Some li"
  defines "es \<equiv> takers E m (\<lambda>v. v = NEED) (playerVote r)"
  shows "\<exists>j io'. count_need E m l r io = Some (r\<lparr>totalNeed := of_nat (length es)\<rparr>, io') \<and> j < length es \<and>
    first_highest (drawn E (draws io) (length es)) j \<and> draws io' = draws io + length es \<and>
    item_of l (rlItemSlot r) io' = Some (roll_award E r (es ! j) li) \<and> handed io' = handed io @ [roll_handout E r (es ! j) li]"
proof -
  have es: "es \<noteq> []" "0 < votes (\<lambda>v. v = NEED) (playerVote r)" using assms(2) takers_some by (auto simp: es_def)
  then have t: "0 < totalNeed r \<and> playerVote r \<noteq> []" using votes_some assms(3) by (auto simp: word_less_nat_alt)
  from draw_loop_best [OF assms(1-3), of r NEED io] obtain j mx io1 where d: "draw_loop E m r (\<lambda>v. v = NEED) (playerVote r)
      (totalNeed r, 0, 0, NEED, io) = (of_nat (length es), mx, fst (es ! j), snd (es ! j), io1)"
    "j < length es" "first_highest (drawn E (draws io) (length es)) j" "draws io1 = draws io + length es" "loots io1 = loots io"
    "handed io1 = handed io"
    unfolding es_def by blast
  have w: "snd (es ! j) = NEED" "inWorld E (fst (es ! j))" "fst (es ! j) \<noteq> 0"
    using taker_at [OF d(2) [unfolded es_def] assms(1)] by (auto simp: es_def)
  let ?r = "r\<lparr>totalNeed := of_nat (length es)\<rparr>"
  let ?io = "geff (Call ''UpdateAchievementCriteria'' [G64 (fst (es ! j)), GStr ''ROLL_NEED_ON_LOOT'', G32 (rlItemid r), G32 (ucast mx)])
    (SendLootRollWon E 0 (fst (es ! j)) mx ROLL_NEED ?r io1)"
  have "item_of l (rlItemSlot ?r) ?io = Some li" using assms(4) d(5) by (simp add: item_of_def)
  from with_take_item [OF this, of NEED E "fst (es ! j)"] obtain io' where
    "with_loot l (take_item E ?r (fst (es ! j))) ?io = Some io'" "draws io' = draws ?io"
    "item_of l (rlItemSlot r) io' = Some (roll_award E ?r (fst (es ! j), NEED) li)"
    "handed io' = handed ?io @ [roll_handout E ?r (fst (es ! j), NEED) li]" by auto
  moreover have "handed ?io = handed io" using d(6) by (simp add: handed_geff is_handout_def)
  moreover have "(fst (es ! j), NEED) = es ! j" using w(1) by (metis prod.collapse)
  ultimately show ?thesis using d t w by (intro exI [of _ j] exI [of _ io']) (simp add: count_need_def Let_def)
qed

lemma count_need_idle:
  assumes "takers E m (\<lambda>v. v = NEED) (playerVote r) = []" "unat (totalNeed r) = votes (\<lambda>v. v = NEED) (playerVote r)"
  shows "count_need E m l r io = Some (r\<lparr>totalNeed := 0\<rparr>, io)"
proof (cases "totalNeed r > 0 \<and> playerVote r \<noteq> []")
  case True
  then show ?thesis by (simp add: count_need_def draw_loop_idle [OF assms(1)] Let_def)
next
  case False
  then have "totalNeed r = 0" using assms(2) by (auto simp: word_less_nat_alt word_unat_eq_iff)
  then show ?thesis by (simp add: count_need_def)
qed

lemma count_greed_best:
  fixes E :: grpEnv and m :: "nat option" and r :: roll
  defines "es \<equiv> takers E m (\<lambda>v. v = GREED \<or> v = DISENCHANT) (playerVote r)"
  assumes "fair_env E" "es \<noteq> []" "unat (totalGreed r) = votes (\<lambda>v. v = GREED \<or> v = DISENCHANT) (playerVote r)"
    "totalNeed r = 0" "item_of l (rlItemSlot r) io = Some li" "template E (rlItemid r) \<noteq> None"
  shows "\<exists>j io'. count_greed E m l r io = Some (r\<lparr>totalGreed := of_nat (length es)\<rparr>, io') \<and> j < length es \<and>
    first_highest (drawn E (draws io) (length es)) j \<and> draws io' = draws io + length es \<and>
    item_of l (rlItemSlot r) io' = Some (roll_award E r (es ! j) li) \<and> handed io' = handed io @ [roll_handout E r (es ! j) li]"
proof -
  let ?P = "\<lambda>v. v = GREED \<or> v = DISENCHANT"
  have "0 < votes ?P (playerVote r)" using assms(3) takers_some by (auto simp: es_def)
  then have t: "0 < totalGreed r \<and> playerVote r \<noteq> []" using votes_some assms(4) by (auto simp: word_less_nat_alt)
  from draw_loop_best [OF assms(2) assms(3,4) [unfolded es_def], of r NOT_VALID io] obtain j mx io1 where
    d: "draw_loop E m r ?P (playerVote r)
      (totalGreed r, 0, 0, NOT_VALID, io) = (of_nat (length es), mx, fst (es ! j), snd (es ! j), io1)"
    "j < length es" "first_highest (drawn E (draws io) (length es)) j" "draws io1 = draws io + length es" "loots io1 = loots io"
    "handed io1 = handed io"
    unfolding es_def by blast
  have w: "?P (snd (es ! j))" "inWorld E (fst (es ! j))" "fst (es ! j) \<noteq> 0"
    using taker_at [OF d(2) [unfolded es_def] assms(2)] by (auto simp: es_def)
  let ?r = "r\<lparr>totalGreed := of_nat (length es)\<rparr>"
  let ?io = "geff (Call ''UpdateAchievementCriteria'' [G64 (fst (es ! j)), GStr ''ROLL_GREED_ON_LOOT'', G32 (rlItemid r), G32 (ucast mx)])
    (SendLootRollWon E 0 (fst (es ! j)) mx (voteNum (snd (es ! j))) ?r io1)"
  have i: "item_of l (rlItemSlot ?r) ?io = Some li" using assms(6) d(5) by (simp add: item_of_def)
  from with_take_item [OF i, of GREED E "fst (es ! j)"] obtain io' where
    g: "with_loot l (take_item E ?r (fst (es ! j))) ?io = Some io'" "draws io' = draws ?io"
    "item_of l (rlItemSlot r) io' = Some (roll_award E ?r (fst (es ! j), GREED) li)"
    "handed io' = handed ?io @ [roll_handout E ?r (fst (es ! j), GREED) li]" by auto
  have h: "handed ?io = handed io" using d(6) by (simp add: handed_geff is_handout_def)
  have "template E (rlItemid ?r) \<noteq> None" using assms(7) by simp
  from with_disenchant_item [OF i this, of "fst (es ! j)"] obtain io'' where
    de: "with_loot l (disenchant_item E ?r (fst (es ! j))) ?io = Some io''" "draws io'' = draws ?io"
    "item_of l (rlItemSlot r) io'' = Some (roll_award E ?r (fst (es ! j), DISENCHANT) li)"
    "handed io'' = handed ?io @ [roll_handout E ?r (fst (es ! j), DISENCHANT) li]" by auto
  have "es ! j = (fst (es ! j), snd (es ! j))" by simp
  with g de d t w h assms(5) show ?thesis
    by (elim disjE) (intro exI [of _ j] exI [of _ io'], simp add: count_greed_def Let_def,
      intro exI [of _ j] exI [of _ io''], simp add: count_greed_def Let_def)
qed

lemma count_greed_idle:
  assumes "takers E m (\<lambda>v. v = GREED \<or> v = DISENCHANT) (playerVote r) = []"
    "unat (totalGreed r) = votes (\<lambda>v. v = GREED \<or> v = DISENCHANT) (playerVote r)" "totalNeed r = 0"
  shows "count_greed E m l r io = Some (r\<lparr>totalGreed := 0\<rparr>, io)"
proof (cases "totalGreed r > 0 \<and> playerVote r \<noteq> []")
  case True
  then show ?thesis by (simp add: count_greed_def draw_loop_idle [OF assms(1)] Let_def assms(3))
next
  case False
  then have "totalGreed r = 0" using assms(2) by (auto simp: word_less_nat_alt word_unat_eq_iff)
  then show ?thesis by (simp add: count_greed_def)
qed

text \<open>
  Who the loot goes to: the players with a vote for need that are there draw first; those for
  greed and disenchanting only when there is nobody; and nobody else.
\<close>

definition contenders :: "grpEnv \<Rightarrow> nat option \<Rightarrow> roll \<Rightarrow> (u64 \<times> rollVote) list" where
  "contenders E m r =
     (let need = takers E m (\<lambda>v. v = NEED) (playerVote r);
          greed = takers E m (\<lambda>v. v = GREED \<or> v = DISENCHANT) (playerVote r)
      in if need \<noteq> [] then need else greed)"

lemma all_passed_idle: "totalNeed r \<noteq> 0 \<or> totalGreed r \<noteq> 0 \<Longrightarrow> all_passed E l r io = Some io"
  by (auto simp: all_passed_def)

lemma all_passed_open:
  assumes "totalNeed r = 0" "totalGreed r = 0" "item_of l (rlItemSlot r) io = Some li"
  shows "\<exists>io'. all_passed E l r io = Some io' \<and> item_of l (rlItemSlot r) io' = Some (li\<lparr>is_blocked := False\<rparr>) \<and> draws io' = draws io \<and>
    handed io' = handed io"
proof -
  from assms(3) obtain t where t: "loots io l = Some t" "item_at (rlItemSlot r) t = Some li"
    by (auto simp: item_of_def split: option.splits)
  then show ?thesis using assms(1,2)
    by (simp add: all_passed_def with_loot_def item_of_def item_at_change [OF t(2)] Let_def SendLootAllPassed_def send_each_def
        fold_geff handed_fold is_handout_def)
qed

lemma len_takers_nonzero:
  "takers E m P vs \<noteq> [] \<Longrightarrow> unat (tot :: u8) = votes P vs \<Longrightarrow> of_nat (length (takers E m P vs)) \<noteq> (0 :: u8)"
  using takers_le [of E m P vs] u8_bound [of tot] by (auto simp: word_unat_eq_iff unat_of_nat)

lemma count_phases:
  assumes F: "fair_env E" and ok: "roll_ok r" and li: "item_of l (rlItemSlot r) io = Some li" and tm: "template E (rlItemid r) \<noteq> None"
  shows "\<exists>r1 io1 r2 io2 io'. count_need E m l r io = Some (r1, io1) \<and> count_greed E m l r1 io1 = Some (r2, io2) \<and>
      all_passed E l r2 io2 = Some io' \<and> draws io' = draws io + length (contenders E m r) \<and>
      (contenders E m r = [] \<longrightarrow> item_of l (rlItemSlot r) io' = Some (li\<lparr>is_blocked := False\<rparr>) \<and> handed io' = handed io) \<and>
      (contenders E m r \<noteq> [] \<longrightarrow> (\<exists>j<length (contenders E m r).
         first_highest (drawn E (draws io) (length (contenders E m r))) j \<and>
         item_of l (rlItemSlot r) io' = Some (roll_award E r (contenders E m r ! j) li) \<and>
         handed io' = handed io @ [roll_handout E r (contenders E m r ! j) li]))"
proof -
  let ?need = "takers E m (\<lambda>v. v = NEED) (playerVote r)" and ?greed = "takers E m (\<lambda>v. v = GREED \<or> v = DISENCHANT) (playerVote r)"
  have n: "unat (totalNeed r) = votes (\<lambda>v. v = NEED) (playerVote r)"
    and g: "unat (totalGreed r) = votes (\<lambda>v. v = GREED \<or> v = DISENCHANT) (playerVote r)" using ok by (simp_all add: roll_ok_def)
  show ?thesis
  proof (cases "?need = []")
    case False
    from count_need_best [OF F this n li] obtain j io1 where c: "count_need E m l r io = Some (r\<lparr>totalNeed := of_nat (length ?need)\<rparr>, io1)"
      "j < length ?need" "first_highest (drawn E (draws io) (length ?need)) j" "draws io1 = draws io + length ?need"
      "item_of l (rlItemSlot r) io1 = Some (roll_award E r (?need ! j) li)"
      "handed io1 = handed io @ [roll_handout E r (?need ! j) li]" by blast
    have z: "of_nat (length ?need) \<noteq> (0 :: u8)" by (rule len_takers_nonzero [OF False n])
    let ?r = "r\<lparr>totalNeed := of_nat (length ?need)\<rparr>"
    have "count_greed E m l ?r io1 = Some (?r, io1)" "all_passed E l ?r io1 = Some io1"
      using z by (simp_all add: count_greed_def all_passed_idle)
    moreover have "contenders E m r = ?need" using False by (simp add: contenders_def Let_def)
    ultimately show ?thesis using c False by (intro exI [of _ ?r] exI [of _ io1]) auto
  next
    case True
    let ?r = "r\<lparr>totalNeed := 0\<rparr>"
    have c: "count_need E m l r io = Some (?r, io)" by (rule count_need_idle [OF True n])
    have co: "contenders E m r = ?greed" using True by (simp add: contenders_def Let_def)
    show ?thesis
    proof (cases "?greed = []")
      case False
      from count_greed_best [of E m ?r l io li] F g li tm False obtain j io1 where
        d: "count_greed E m l ?r io = Some (?r\<lparr>totalGreed := of_nat (length ?greed)\<rparr>, io1)" "j < length ?greed"
        "first_highest (drawn E (draws io) (length ?greed)) j" "draws io1 = draws io + length ?greed"
        "item_of l (rlItemSlot r) io1 = Some (roll_award E r (?greed ! j) li)"
        "handed io1 = handed io @ [roll_handout E r (?greed ! j) li]" by auto
      moreover have "all_passed E l (?r\<lparr>totalGreed := of_nat (length ?greed)\<rparr>) io1 = Some io1"
        using len_takers_nonzero [OF False g] by (simp add: all_passed_idle)
      ultimately show ?thesis using c False unfolding co
        by (intro exI [of _ ?r] exI [of _ io] exI [of _ "?r\<lparr>totalGreed := of_nat (length ?greed)\<rparr>"] exI [of _ io1]) auto
    next
      case none: True
      let ?r2 = "?r\<lparr>totalGreed := 0\<rparr>"
      have d: "count_greed E m l ?r io = Some (?r2, io)" by (rule count_greed_idle) (use none g in simp_all)
      from all_passed_open [of ?r2 l io li E] li obtain io' where "all_passed E l ?r2 io = Some io'"
        "item_of l (rlItemSlot r) io' = Some (li\<lparr>is_blocked := False\<rparr>)" "draws io' = draws io" "handed io' = handed io" by auto
      with c d none show ?thesis unfolding co
        by (intro exI [of _ ?r] exI [of _ io] exI [of _ ?r2] exI [of _ io']) auto
    qed
  qed
qed

section \<open>Votes are counted, not voters\<close>

definition tally :: "roll \<Rightarrow> nat" where
  "tally r = unat (totalPass r) + unat (totalNeed r) + unat (totalGreed r)"

lemma roll_complete_tally: "roll_complete r \<longleftrightarrow> unat (totalPlayersRolling r) \<le> tally r"
  by (simp add: roll_complete_def tally_def)

lemma cast_vote_tally:
  assumes "c < MAX_ROLL_TYPE" "tally r < unat (totalPlayersRolling r)"
  shows "tally (fst (cast_vote E p c r io)) = Suc (tally r)"
proof -
  have "unat (totalPass r) < 255" "unat (totalNeed r) < 255" "unat (totalGreed r) < 255"
    using assms(2) u8_bound [of "totalPlayersRolling r"] by (auto simp: tally_def)
  with choice_cases [OF assms(1)] show ?thesis
    by (elim disjE) (simp_all add: cast_vote_def tally_def roll_types u8_suc)
qed

lemma tally_silent: "roll_ok r \<Longrightarrow> unat (totalPlayersRolling r) = tally r + silent r"
  using votes_partition [of "playerVote r"] by (auto simp: roll_ok_def tally_def silent_def)

lemma vote_all_append: "vote_all E guid (xs @ ys) s = do { s \<leftarrow> vote_all E guid xs s; vote_all E guid ys s }"
proof (induction xs arbitrary: s)
  case (Cons x xs)
  then show ?case by (cases x) (auto simp: case_prod_unfold split: Option.bind_splits)
qed simp

lemma vote_again:
  assumes "GetRoll guid (RollId g) = Some i" "loot_open E (RollId g ! i) io" "map_of (playerVote (RollId g ! i)) p \<noteq> None"
    "c < MAX_ROLL_TYPE" "tally (RollId g ! i) + n < unat (totalPlayersRolling (RollId g ! i))"
  shows "\<exists>r io'. vote_all E guid (replicate n (p, c)) (g, io) = Some (g\<lparr>RollId := (RollId g)[i := r]\<rparr>, io') \<and> loots io' = loots io \<and>
    rlItemGUID r = guid \<and> rlLoot r = rlLoot (RollId g ! i) \<and> rlItemSlot r = rlItemSlot (RollId g ! i) \<and>
    rlItemid r = rlItemid (RollId g ! i) \<and> tally r = tally (RollId g ! i) + n \<and> map_of (playerVote r) p \<noteq> None \<and>
    totalPlayersRolling r = totalPlayersRolling (RollId g ! i) \<and>
    (\<forall>q. q \<noteq> p \<longrightarrow> map_of (playerVote r) q = map_of (playerVote (RollId g ! i)) q)"
  using assms
proof (induction n arbitrary: g io)
  case 0
  from GetRoll_Some [OF 0(1)] have "g\<lparr>RollId := (RollId g)[i := RollId g ! i]\<rparr> = g" "rlItemGUID (RollId g ! i) = guid" by simp_all
  with 0 show ?case by (intro exI [of _ "RollId g ! i"] exI [of _ io]) simp
next
  case (Suc n)
  let ?old = "RollId g ! i"
  let ?r = "fst (cast_vote E p c ?old io)"
  have t: "tally ?r = Suc (tally ?old)" using Suc.prems(4,5) by (simp add: cast_vote_tally)
  then have "\<not> roll_complete ?r" using Suc.prems(5) by (simp add: roll_complete_tally cast_vote_fields)
  with CountRollVote_open [OF Suc.prems(1-3), of c] obtain io1 where
    c: "CountRollVote E p guid c g io = Some (False, g\<lparr>RollId := (RollId g)[i := ?r]\<rparr>, io1)" "loots io1 = loots io" by auto
  let ?g = "g\<lparr>RollId := (RollId g)[i := ?r]\<rparr>"
  have i: "i < length (RollId g)" using GetRoll_Some [OF Suc.prems(1)] by blast
  then have nth: "RollId ?g ! i = ?r" by simp
  have q: "map_of (playerVote ?r) q = map_of (playerVote ?old) q" if "q \<noteq> p" for q
    using that by (simp add: cast_vote_def)
  have p: "map_of (playerVote ?r) p \<noteq> None" using Suc.prems(3) by (simp add: cast_vote_def)
  have "GetRoll guid (RollId ?g) = Some i"
    using GetRoll_update [OF Suc.prems(1)] by (simp add: cast_vote_fields)
  moreover have "loot_open E (RollId ?g ! i) io1" using Suc.prems(2) c(2) unfolding nth
    by (simp add: loot_open_def loot_ready_def cast_vote_fields)
  ultimately obtain r io' where "vote_all E guid (replicate n (p, c)) (?g, io1) = Some (?g\<lparr>RollId := (RollId ?g)[i := r]\<rparr>, io')"
      "loots io' = loots io1" "rlItemGUID r = guid" "rlLoot r = rlLoot ?r" "rlItemSlot r = rlItemSlot ?r" "rlItemid r = rlItemid ?r"
      "tally r = tally ?r + n" "map_of (playerVote r) p \<noteq> None" "totalPlayersRolling r = totalPlayersRolling ?r"
      "\<forall>q. q \<noteq> p \<longrightarrow> map_of (playerVote r) q = map_of (playerVote ?r) q"
    using Suc.IH [of ?g io1] Suc.prems(4,5) t p unfolding nth by (auto simp: cast_vote_fields)
  with c t q show ?case
    by (intro exI [of _ r] exI [of _ io']) (simp add: cast_vote_fields)
qed

text \<open>The last vote, whoever casts it, counts the roll.\<close>

lemma last_vote:
  assumes "GetRoll guid (RollId g) = Some i" "loot_open E (RollId g ! i) io" "map_of (playerVote (RollId g ! i)) p \<noteq> None"
    "c < MAX_ROLL_TYPE" "Suc (tally (RollId g ! i)) = unat (totalPlayersRolling (RollId g ! i))"
  shows "\<exists>io'. CountRollVote E p guid c g io = Some (True, g\<lparr>RollId := erase_nth i (RollId g)\<rparr>, io')"
proof -
  have "tally (fst (cast_vote E p c (RollId g ! i) io)) = Suc (tally (RollId g ! i))"
    using assms(4,5) by (intro cast_vote_tally) auto
  then have "roll_complete (fst (cast_vote E p c (RollId g ! i) io))"
    using assms(5) by (simp add: roll_complete_tally cast_vote_fields)
  with CountRollVote_open [OF assms(1-3), of c] show ?thesis by auto
qed

end
