(* ===== verification/LootRolls.thy ===== *)
theory LootRolls
  imports GroupRollProps
begin

text \<open>
  The properties of loot rolls: how they start, that they end once everyone has voted or the
  time is up, who gets the item, and what a player that votes again can do.
\<close>

section \<open>Starting rolls\<close>

text \<open>
  Collecting the votes keeps the tallies, when no player is in the list of references twice.
\<close>

lemma smap_put_new: "map_of m k = None \<Longrightarrow> key_sorted m \<Longrightarrow>
    length (smap_put k v m) = Suc (length m) \<and> votes P (smap_put k v m) = votes P m + (if P v then 1 else 0)"
  by (induction k v m rule: smap_put.induct) (auto simp: key_sorted_def)

lemma collect_vote_ok:
  assumes "roll_ok r" "length (playerVote r) < 255" "map_of (playerVote r) p = None"
  shows "roll_ok (collect_vote E obj li b p r)"
proof -
  have k: "key_sorted (playerVote r)" using assms(1) by (simp add: roll_ok_def)
  have "unat (totalPass r) \<le> length (playerVote r)" "unat (totalPlayersRolling r) = length (playerVote r)"
    using assms(1) votes_le [of "\<lambda>v. v = PASS" "playerVote r"] by (auto simp: roll_ok_def)
  with assms(2) have "unat (totalPass r + 1) = Suc (unat (totalPass r))"
      "unat (totalPlayersRolling r + 1) = Suc (unat (totalPlayersRolling r))" by (simp_all add: u8_suc)
  with assms(1) smap_put_new [OF assms(3) k] key_sorted_put [OF k] show ?thesis
    by (auto simp: collect_vote_def roll_ok_def Let_def)
qed

lemma collect_vote_voters: "set (map fst (playerVote (collect_vote E obj li b p r))) \<subseteq> insert p (set (map fst (playerVote r)))"
  by (auto simp: collect_vote_def Let_def fst_smap_put)

lemma collect_votes_ok:
  assumes "roll_ok r" "distinct (map fst refs)" "set (map fst refs) \<inter> set (map fst (playerVote r)) = {}"
    "length (playerVote r) + length refs \<le> 255"
  shows "roll_ok (collect_votes E obj li b refs r)"
  using assms
proof (induction refs arbitrary: r)
  case Nil
  then show ?case by (simp add: collect_votes_def)
next
  case (Cons x xs)
  let ?r = "collect_vote E obj li b (fst x) r"
  have n: "map_of (playerVote r) (fst x) = None" using Cons.prems(3) by (auto simp: map_of_eq_None_iff)
  have "roll_ok ?r" by (rule collect_vote_ok) (use Cons.prems n in auto)
  moreover have "length (playerVote ?r) \<le> Suc (length (playerVote r))"
    using smap_put_new [OF n] Cons.prems(1) by (auto simp: collect_vote_def Let_def roll_ok_def)
  moreover have "set (map fst xs) \<inter> set (map fst (playerVote ?r)) = {}"
    using Cons.prems(2,3) collect_vote_voters [of E obj li b "fst x" r] unfolding list.map distinct.simps list.set by blast
  ultimately have "roll_ok (collect_votes E obj li b xs ?r)" using Cons.IH [of ?r] Cons.prems(2,4) by auto
  then show ?case by (simp add: collect_votes_def)
qed

text \<open>One item starts at most one roll, and its tallies are right.\<close>

definition rolls_ok :: "grp \<Rightarrow> bool" where
  "rolls_ok g \<longleftrightarrow> (\<forall>r\<in>set (RollId g). roll_ok r)"

definition members_ok :: "grp \<Rightarrow> bool" where
  "members_ok g \<longleftrightarrow> distinct (map fst (memberMgr g)) \<and> length (memberMgr g) \<le> 255"

text \<open>What a start of the rolls reads of an item and does not change.\<close>

definition item_key :: "lootItem \<Rightarrow> bool \<times> u32" where
  "item_key li = (freeforall li, liItemid li)"

lemma item_keys_update:
  assumes "i < length xs" "item_key x = item_key (xs ! i)"
  shows "map item_key (xs[i := x]) = map item_key xs"
  using assms by (simp add: map_update list_update_same_conv)

definition start_ok :: "grpEnv \<Rightarrow> ((bool \<times> u32) list \<Rightarrow> (bool \<times> u32) list \<Rightarrow> bool) \<Rightarrow> nat \<Rightarrow> nat \<Rightarrow> nat \<Rightarrow> nat \<Rightarrow> grp \<times> gio \<Rightarrow> bool" where
  "start_ok E T lid a b n s \<longleftrightarrow> rolls_ok (fst s) \<and> rolls_ready E (fst s) (snd s) \<and> members_ok (fst s) \<and> unat (hiItemGuid (snd s)) + n < 0xFFFFFFFE \<and>
     (\<exists>t. loots (snd s) lid = Some t \<and> length (ltItems t) = a \<and> length (ltQuestItems t) = b \<and>
       T (map item_key (ltItems t)) (map item_key (ltQuestItems t)))"

lemma Roll_new_ok: "members_ok g \<Longrightarrow> roll_ok (collect_votes E obj li b (memberMgr g) (Roll_new guid li))"
  by (rule collect_votes_ok) (auto simp: members_ok_def Roll_new_def roll_ok_def key_sorted_def)

lemma roll_ok_fields [simp]:
  "roll_ok (r\<lparr>rlLoot := l\<rparr>) = roll_ok r" "roll_ok (r\<lparr>rlItemSlot := s\<rparr>) = roll_ok r" "roll_ok (r\<lparr>rollVoteMask := m\<rparr>) = roll_ok r"
  "roll_ok (disenchant_mask item g r) = roll_ok r"
  by (simp_all add: roll_ok_def disenchant_mask_def)

lemma item_guid_step:
  "unat (hiItemGuid io) + Suc n < 0xFFFFFFFE \<Longrightarrow>
    GenerateItemGuid io = Some (hiItemGuid io, io\<lparr>hiItemGuid := hiItemGuid io + 1\<rparr>) \<and>
    unat (hiItemGuid io + 1) = Suc (unat (hiItemGuid io))"
  by (simp add: GenerateItemGuid_def word_less_nat_alt unat_word_ariths(1))

text \<open>What the packets and the timer leave alone.\<close>

definition quiet :: "gio \<Rightarrow> gio \<Rightarrow> bool" where
  "quiet io io' \<longleftrightarrow> loots io' = loots io \<and> hiItemGuid io' = hiItemGuid io"

lemma quiet_simps [simp]:
  "quiet io io" "quiet io (geff e io') = quiet io io'"
  by (simp_all add: quiet_def geff_def)

lemma quiet_trans: "quiet a b \<Longrightarrow> quiet b c \<Longrightarrow> quiet a c"
  by (simp add: quiet_def)

lemma quiet_fold: "(\<And>x io. quiet io (f x io)) \<Longrightarrow> quiet io (fold f xs io)"
  by (induction xs arbitrary: io) (auto intro: quiet_trans)

lemma quiet_send [simp]:
  "quiet io (SendLootRoll E s t n k r io)" "quiet io (SendLootStartRoll E a b r io)"
  "quiet io (SendLootStartRollToPlayer a b p c r io)" "quiet io (loot_timer obj g io)"
  by (simp_all add: SendLootRoll_def SendLootStartRoll_def SendLootStartRollToPlayer_def loot_timer_def send_each_def
      quiet_fold Let_def)

lemma quiet_starts [simp]: "quiet io (broadcast_passes E r io)" "quiet io (invite_rolls E obj item r io)"
  by (simp_all add: broadcast_passes_def invite_rolls_def quiet_fold)

lemma block_item_ok:
  assumes "loots io lid = Some t" "quest = (unat slot \<ge> length (ltItems t))" "unat slot < length (ltItems t) + length (ltQuestItems t)"
  shows "\<exists>t'. block_item lid slot quest io = Some (io\<lparr>loots := (loots io)(lid \<mapsto> t')\<rparr>) \<and>
    length (ltItems t') = length (ltItems t) \<and> length (ltQuestItems t') = length (ltQuestItems t) \<and>
    map item_key (ltItems t') = map item_key (ltItems t) \<and> map item_key (ltQuestItems t') = map item_key (ltQuestItems t)"
  using assms by (auto simp: block_item_def with_loot_def item_at_def Let_def change_item_def item_key_def item_keys_update)

lemma start_ok_mono: "start_ok E T lid a b (Suc n) s \<Longrightarrow> start_ok E T lid a b n s"
  by (auto simp: start_ok_def)

text \<open>The end of every branch that starts a roll.\<close>

lemma start_roll_ok:
  assumes S: "start_ok E T lid a b (Suc n) (g, io)" and t: "loots io lid = Some t"
    and io1: "io1 = io\<lparr>hiItemGuid := hiItemGuid io + 1\<rparr>" and r: "roll_ok r" "rlLoot r = Some lid" "rlItemSlot r = slot"
    and tm: "template E (rlItemid r) \<noteq> None" and slot: "quest = (unat slot \<ge> a)" "unat slot < a + b" and Q: "\<And>io. quiet io (F io)"
  shows "\<exists>s'. do { io \<leftarrow> block_item lid slot quest io1; Some (g\<lparr>RollId := RollId g @ [r]\<rparr>, F io) } = Some s' \<and> start_ok E T lid a b n s'"
proof -
  have l: "length (ltItems t) = a" "length (ltQuestItems t) = b" using S t by (auto simp: start_ok_def)
  obtain t' where b: "block_item lid slot quest io1 = Some (io1\<lparr>loots := (loots io1)(lid \<mapsto> t')\<rparr>)"
      "length (ltItems t') = length (ltItems t)" "length (ltQuestItems t') = length (ltQuestItems t)" "map item_key (ltItems t') = map item_key (ltItems t)"
      "map item_key (ltQuestItems t') = map item_key (ltQuestItems t)"
    using block_item_ok [of io1 lid t quest slot] t slot l io1 by auto
  let ?F = "F (io1\<lparr>loots := (loots io1)(lid \<mapsto> t')\<rparr>)"
  have F: "loots ?F = (loots io)(lid \<mapsto> t')" using Q [of "io1\<lparr>loots := (loots io1)(lid \<mapsto> t')\<rparr>"] by (simp add: quiet_def io1)
  then have "same_shape io ?F" using b(2,3) t by (auto simp: same_shape_def)
  moreover have "item_at slot t' \<noteq> None" using slot(2) b(2,3) l by (auto simp: item_at_def Let_def)
  then have "loot_ready E r ?F" using r(2,3) tm F by (simp add: loot_ready_def)
  ultimately have "rolls_ready E (g\<lparr>RollId := RollId g @ [r]\<rparr>) ?F"
    using S same_shape_ready by (auto simp: start_ok_def rolls_ready_def)
  moreover have "rolls_ok (g\<lparr>RollId := RollId g @ [r]\<rparr>)" "members_ok (g\<lparr>RollId := RollId g @ [r]\<rparr>)"
    using S r(1) by (auto simp: start_ok_def rolls_ok_def members_ok_def)
  moreover have "unat (hiItemGuid ?F) + n < 0xFFFFFFFE"
    using S Q [of "io1\<lparr>loots := (loots io1)(lid \<mapsto> t')\<rparr>"] item_guid_step [of io n] by (simp add: start_ok_def quiet_def io1)
  moreover have "T (map item_key (ltItems t')) (map item_key (ltQuestItems t'))" using S t b by (simp add: start_ok_def)
  ultimately have "start_ok E T lid a b n (g\<lparr>RollId := RollId g @ [r]\<rparr>, ?F)"
    using F b(2,3) l by (simp add: start_ok_def)
  then show ?thesis using b by simp
qed

lemma start_skip_ok:
  assumes S: "start_ok E T lid a b (Suc n) (g, io)" and io1: "io1 = io\<lparr>hiItemGuid := hiItemGuid io + 1\<rparr>"
  shows "start_ok E T lid a b n (g, io1)"
  using S item_guid_step [of io n] by (auto simp: start_ok_def io1 rolls_ready_def loot_ready_def)

lemma start_mark_ok:
  assumes S: "start_ok E T lid a b (Suc n) (g, io)" "loots io lid = Some t" "i < a" "item_key x = item_key (ltItems t ! i)"
  shows "start_ok E T lid a b n (g, io\<lparr>loots := (loots io)(lid \<mapsto> t\<lparr>ltItems := (ltItems t)[i := x]\<rparr>)\<rparr>)"
proof -
  have "same_shape io (io\<lparr>loots := (loots io)(lid \<mapsto> t\<lparr>ltItems := (ltItems t)[i := x]\<rparr>)\<rparr>)" using S(2) by (auto simp: same_shape_def)
  then have "rolls_ready E g (io\<lparr>loots := (loots io)(lid \<mapsto> t\<lparr>ltItems := (ltItems t)[i := x]\<rparr>)\<rparr>)"
    using S(1) same_shape_ready by (auto simp: start_ok_def rolls_ready_def)
  then show ?thesis using S item_keys_update [of i "ltItems t" x] by (auto simp: start_ok_def)
qed

lemma roll_item [simp]:
  "rlItemid (collect_votes E obj li b refs r) = rlItemid r" "rlLoot (collect_votes E obj li b refs r) = rlLoot r"
  "rlItemid (disenchant_mask item g r) = rlItemid r" "rlLoot (disenchant_mask item g r) = rlLoot r"
  "rlItemSlot (disenchant_mask item g r) = rlItemSlot r"
proof -
  have "rlItemid (collect_votes E obj li b refs r) = rlItemid r \<and> rlLoot (collect_votes E obj li b refs r) = rlLoot r"
    unfolding collect_votes_def by (induction refs arbitrary: r) (auto simp: collect_vote_def Let_def)
  then show "rlItemid (collect_votes E obj li b refs r) = rlItemid r" "rlLoot (collect_votes E obj li b refs r) = rlLoot r" by auto
qed (simp_all add: disenchant_mask_def)

lemma u8_slot: "i < a \<Longrightarrow> a + b \<le> 256 \<Longrightarrow> unat (of_nat i :: u8) = i"
  by (simp add: unat_of_nat)

definition item_ok :: "grpEnv \<Rightarrow> ((bool \<times> u32) list \<Rightarrow> (bool \<times> u32) list \<Rightarrow> bool) \<Rightarrow> nat \<Rightarrow> nat \<Rightarrow> nat \<Rightarrow> nat \<Rightarrow> (nat \<Rightarrow> grp \<times> gio \<Rightarrow> (grp \<times> gio) option) \<Rightarrow> bool" where
  "item_ok E T lid a b k f \<longleftrightarrow> (\<forall>i<k. \<forall>n s. start_ok E T lid a b (Suc n) s \<longrightarrow> (\<exists>s'. f i s = Some s' \<and> start_ok E T lid a b n s'))"

lemma group_item_ok:
  assumes ab: "a + b \<le> 256" shows "item_ok E T lid a b a (group_item E obj lid)"
  unfolding item_ok_def
proof (intro allI impI)
  fix i n s assume i: "i < a" and S: "start_ok E T lid a b (Suc n) s"
  obtain g io where s: "s = (g, io)" by (cases s)
  obtain t where t: "loots io lid = Some t" "length (ltItems t) = a" using S s by (auto simp: start_ok_def)
  let ?li = "ltItems t ! i"
  show "\<exists>s'. group_item E obj lid i s = Some s' \<and> start_ok E T lid a b n s'"
  proof (cases "freeforall ?li \<or> template E (liItemid ?li) = None")
    case True
    then have "group_item E obj lid i s = Some s" using t s by (auto simp: group_item_def Let_def)
    with start_ok_mono [OF S] show ?thesis by blast
  next
    case False
    then obtain item where it: "template E (liItemid ?li) = Some item" "\<not> freeforall ?li" by auto
    show ?thesis
    proof (cases "itQuality item \<ge> ucast (lootThreshold g)")
      case q: True
      let ?io = "io\<lparr>hiItemGuid := hiItemGuid io + 1\<rparr>"
      let ?r = "collect_votes E obj ?li True (memberMgr g) (Roll_new (MAKE_NEW_GUID (hiItemGuid io) 0 HIGHGUID_ITEM) ?li)"
      let ?r' = "disenchant_mask item g (?r\<lparr>rlLoot := Some lid, rlItemSlot := of_nat i\<rparr>)"
      have gen: "GenerateItemGuid io = Some (hiItemGuid io, ?io)"
        using item_guid_step [of io n] S s by (simp add: start_ok_def)
      have run: "group_item E obj lid i s = (if totalPlayersRolling ?r > 0 then
          do { io \<leftarrow> block_item lid (of_nat i) False ?io;
            Some (g\<lparr>RollId := RollId g @ [?r']\<rparr>, loot_timer obj g (SendLootStartRoll E 60000 (objMapId obj) ?r'
              (if totalPass ?r' \<noteq> 0 then broadcast_passes E ?r' io else io))) } else Some (g, ?io))"
        using t it q s gen by (simp add: group_item_def Let_def)
      have "roll_ok ?r'" using S s Roll_new_ok by (simp add: start_ok_def)
      then have "\<exists>s'. do { io \<leftarrow> block_item lid (of_nat i) False ?io;
            Some (g\<lparr>RollId := RollId g @ [?r']\<rparr>, loot_timer obj g (SendLootStartRoll E 60000 (objMapId obj) ?r'
              (if totalPass ?r' \<noteq> 0 then broadcast_passes E ?r' io else io))) } = Some s' \<and> start_ok E T lid a b n s'"
        by (intro start_roll_ok [OF S [unfolded s] t(1) refl])
          (use i u8_slot [OF i ab] it(1) in \<open>auto simp: Roll_new_def intro: quiet_trans [OF quiet_send(2) quiet_send(4)]
             quiet_trans [OF quiet_starts(1) quiet_trans [OF quiet_send(2) quiet_send(4)]]\<close>)
      with start_skip_ok [OF S [unfolded s] refl] run show ?thesis by auto
    next
      case False
      then have "group_item E obj lid i s = Some (g, io\<lparr>loots := (loots io)(lid \<mapsto> t\<lparr>ltItems := (ltItems t)[i := ?li\<lparr>is_underthreshold := True\<rparr>]\<rparr>)\<rparr>)"
        using t it s by (simp add: group_item_def Let_def)
      moreover have "item_key (?li\<lparr>is_underthreshold := True\<rparr>) = item_key ?li" by (simp add: item_key_def)
      ultimately show ?thesis using start_mark_ok [OF S [unfolded s] t(1) i] by blast
    qed
  qed
qed

lemma quest_slot:
  assumes "i < b" "a + b \<le> 256"
  shows "True = (unat (of_nat (a + i) :: u8) \<ge> a)" "unat (of_nat (a + i) :: u8) < a + b"
  using assms u8_slot [of "a + i" "a + b" 0] by auto

lemma group_quest_item_ok:
  assumes ab: "a + b \<le> 256" shows "item_ok E T lid a b b (group_quest_item E obj lid)"
  unfolding item_ok_def
proof (intro allI impI)
  fix i n s assume i: "i < b" and S: "start_ok E T lid a b (Suc n) s"
  obtain g io where s: "s = (g, io)" by (cases s)
  obtain t where t: "loots io lid = Some t" "length (ltItems t) = a" using S s by (auto simp: start_ok_def)
  let ?li = "ltQuestItems t ! i" and ?io = "io\<lparr>hiItemGuid := hiItemGuid io + 1\<rparr>"
  let ?r = "collect_votes E obj ?li False (memberMgr g) (Roll_new (MAKE_NEW_GUID (hiItemGuid io) 0 HIGHGUID_ITEM) ?li)"
  let ?r' = "?r\<lparr>rlLoot := Some lid, rlItemSlot := of_nat (a + i)\<rparr>"
  let ?F = "\<lambda>io. loot_timer obj g (SendLootStartRoll E 60000 (objMapId obj) ?r' io)"
  have gen: "GenerateItemGuid io = Some (hiItemGuid io, ?io)"
    using item_guid_step [of io n] S s by (simp add: start_ok_def)
  have run: "group_quest_item E obj lid i s = (if \<not> follow_loot_rules ?li \<or> template E (liItemid ?li) = None then Some (g, io)
      else if totalPlayersRolling ?r > 0 then
        do { io \<leftarrow> block_item lid (of_nat (a + i)) True ?io; Some (g\<lparr>RollId := RollId g @ [?r']\<rparr>, ?F io) } else Some (g, ?io))"
    using t s gen by (simp add: group_quest_item_def Let_def)
  have "\<exists>s'. do { io \<leftarrow> block_item lid (of_nat (a + i)) True ?io; Some (g\<lparr>RollId := RollId g @ [?r']\<rparr>, ?F io) } = Some s' \<and>
      start_ok E T lid a b n s'" if "template E (liItemid ?li) \<noteq> None"
    by (intro start_roll_ok [OF S [unfolded s] t(1) refl] quest_slot [OF i ab] quiet_trans [OF quiet_send(2) quiet_send(4)])
      (use S s Roll_new_ok that in \<open>simp_all add: start_ok_def Roll_new_def\<close>)
  with start_skip_ok [OF S [unfolded s] refl] start_ok_mono [OF S [unfolded s]] run
  show "\<exists>s'. group_quest_item E obj lid i s = Some s' \<and> start_ok E T lid a b n s'" by auto
qed

text \<open>
  The same for \<^verbatim>\<open>NeedBeforeGreed\<close>, which needs the template of every item that is not free
  for all.
\<close>

definition all_known :: "grpEnv \<Rightarrow> (bool \<times> u32) list \<Rightarrow> (bool \<times> u32) list \<Rightarrow> bool" where
  "all_known E ks qs \<longleftrightarrow> (\<forall>(ffa, itemid)\<in>set ks. ffa \<or> template E itemid \<noteq> None) \<and> (\<forall>(ffa, itemid)\<in>set qs. template E itemid \<noteq> None)"

lemma some_ok: "start_ok E T lid a b n s \<Longrightarrow> \<exists>s'. Some s = Some s' \<and> start_ok E T lid a b n s'"
  by simp

lemma if_both: "P x \<Longrightarrow> P y \<Longrightarrow> P (if c then x else y)"
  by simp

lemma need_item_ok:
  assumes ab: "a + b \<le> 256" shows "item_ok E (all_known E) lid a b a (need_item E obj lid)"
  unfolding item_ok_def
proof (intro allI impI)
  fix i n s assume i: "i < a" and S: "start_ok E (all_known E) lid a b (Suc n) s"
  obtain g io where s: "s = (g, io)" by (cases s)
  obtain t where t: "loots io lid = Some t" "length (ltItems t) = a" using S s by (auto simp: start_ok_def)
  let ?li = "ltItems t ! i" and ?io = "io\<lparr>hiItemGuid := hiItemGuid io + 1\<rparr>"
  show "\<exists>s'. need_item E obj lid i s = Some s' \<and> start_ok E (all_known E) lid a b n s'"
  proof (cases "freeforall ?li")
  case True
  then have "need_item E obj lid i s = Some s" using t s by (simp add: need_item_def Let_def)
  with start_ok_mono [OF S] show ?thesis by blast
  next
  case False
  have "all_known E (map item_key (ltItems t)) (map item_key (ltQuestItems t))" "?li \<in> set (ltItems t)" using S s t i by (auto simp: start_ok_def)
  with False obtain item where it: "template E (liItemid ?li) = Some item" by (auto simp: all_known_def item_key_def)
  let ?mark = "(g, io\<lparr>loots := (loots io)(lid \<mapsto> t\<lparr>ltItems := (ltItems t)[i := ?li\<lparr>is_underthreshold := True\<rparr>]\<rparr>)\<rparr>)"
  let ?r = "collect_votes E obj ?li True (memberMgr g) (Roll_new (MAKE_NEW_GUID (hiItemGuid io) 0 HIGHGUID_ITEM) ?li)"
  let ?d = "disenchant_mask item g (?r\<lparr>rlLoot := Some lid, rlItemSlot := of_nat i\<rparr>)"
  let ?r' = "if itFlags2 item AND ITEM_FLAGS_EXTRA_NEED_ROLL_DISABLED \<noteq> 0
    then ?d\<lparr>rollVoteMask := rollVoteMask ?d AND NOT ROLL_FLAG_TYPE_NEED\<rparr> else ?d"
  let ?F = "\<lambda>io. loot_timer obj g (invite_rolls E obj (Some item) ?r' io)"
  let ?roll = "do { io \<leftarrow> block_item lid (of_nat i) False ?io; Some (g\<lparr>RollId := RollId g @ [?r']\<rparr>, ?F io) }"
  have gen: "GenerateItemGuid io = Some (hiItemGuid io, ?io)"
    using item_guid_step [of io n] S s by (simp add: start_ok_def)
  have run: "need_item E obj lid i s = (if itQuality item \<ge> ucast (lootThreshold g) then (if totalPlayersRolling ?r > 0 then ?roll else Some (g, ?io))
      else Some ?mark)"
    using t it s gen False by (simp add: need_item_def Let_def)
  have roll: "\<exists>s'. ?roll = Some s' \<and> start_ok E (all_known E) lid a b n s'"
  proof (rule start_roll_ok [OF S [unfolded s] t(1) refl])
    show "roll_ok ?r'" using S s Roll_new_ok by (simp add: start_ok_def)
    show "quiet io (?F io)" for io by (rule quiet_trans [OF quiet_starts(2) quiet_send(4)])
  qed (use i u8_slot [OF i ab] it in \<open>auto simp: Roll_new_def\<close>)
  have m: "start_ok E (all_known E) lid a b n ?mark"
    by (rule start_mark_ok [OF S [unfolded s] t(1) i]) (simp add: item_key_def)
  show ?thesis unfolding run
    by (intro if_both [where P = "\<lambda>x. \<exists>s'. x = Some s' \<and> start_ok E (all_known E) lid a b n s'"] roll some_ok
        start_skip_ok [OF S [unfolded s] refl] m)
  qed
qed

lemma need_quest_item_ok:
  assumes ab: "a + b \<le> 256" shows "item_ok E (all_known E) lid a b b (need_quest_item E obj lid)"
  unfolding item_ok_def
proof (intro allI impI)
  fix i n s assume i: "i < b" and S: "start_ok E (all_known E) lid a b (Suc n) s"
  obtain g io where s: "s = (g, io)" by (cases s)
  obtain t where t: "loots io lid = Some t" "length (ltItems t) = a" "length (ltQuestItems t) = b"
      "all_known E (map item_key (ltItems t)) (map item_key (ltQuestItems t))"
    using S s by (auto simp: start_ok_def)
  then have tm: "template E (liItemid (ltQuestItems t ! i)) \<noteq> None" using i by (auto simp: all_known_def item_key_def)
  let ?li = "ltQuestItems t ! i" and ?io = "io\<lparr>hiItemGuid := hiItemGuid io + 1\<rparr>"
  let ?r = "collect_votes E obj ?li False (memberMgr g) (Roll_new (MAKE_NEW_GUID (hiItemGuid io) 0 HIGHGUID_ITEM) ?li)"
  let ?r' = "?r\<lparr>rlLoot := Some lid, rlItemSlot := of_nat (a + i)\<rparr>"
  let ?F = "\<lambda>io. loot_timer obj g (invite_rolls E obj (template E (liItemid ?li)) ?r' io)"
  have gen: "GenerateItemGuid io = Some (hiItemGuid io, ?io)"
    using item_guid_step [of io n] S s by (simp add: start_ok_def)
  have run: "need_quest_item E obj lid i s = (if \<not> follow_loot_rules ?li then Some (g, io)
      else if totalPlayersRolling ?r > 0 then
        do { io \<leftarrow> block_item lid (of_nat (a + i)) True ?io; Some (g\<lparr>RollId := RollId g @ [?r']\<rparr>, ?F io) } else Some (g, ?io))"
    using t s gen by (simp add: need_quest_item_def Let_def)
  have "\<exists>s'. do { io \<leftarrow> block_item lid (of_nat (a + i)) True ?io; Some (g\<lparr>RollId := RollId g @ [?r']\<rparr>, ?F io) } = Some s' \<and>
      start_ok E (all_known E) lid a b n s'"
    by (intro start_roll_ok [OF S [unfolded s] t(1) refl] quest_slot [OF i ab] quiet_trans [OF quiet_starts(2) quiet_send(4)])
      (use S s Roll_new_ok tm in \<open>simp_all add: start_ok_def Roll_new_def\<close>)
  with start_skip_ok [OF S [unfolded s] refl] start_ok_mono [OF S [unfolded s]] run
  show "\<exists>s'. need_quest_item E obj lid i s = Some s' \<and> start_ok E (all_known E) lid a b n s'" by auto
qed

lemma item_okD:
  "item_ok E T lid a b k f \<Longrightarrow> i < k \<Longrightarrow> start_ok E T lid a b (Suc n) s \<Longrightarrow> \<exists>s'. f i s = Some s' \<and> start_ok E T lid a b n s'"
  unfolding item_ok_def by blast

lemma each_item_ok:
  assumes "item_ok E T lid a b k f" "set is \<subseteq> {..<k}" "start_ok E T lid a b (length is + n) s"
  shows "\<exists>s'. each_item f is s = Some s' \<and> start_ok E T lid a b n s'"
  using assms(2,3)
proof (induction "is" arbitrary: s)
  case (Cons i js)
  then have "\<exists>s'. f i s = Some s' \<and> start_ok E T lid a b (length js + n) s'" by (intro item_okD [OF assms(1)]) simp_all
  then obtain s' where "f i s = Some s'" "start_ok E T lid a b (length js + n) s'" by blast
  with Cons show ?case by auto
qed auto

lemma both_lists_ok:
  assumes "item_ok E T lid a b a f" "item_ok E T lid a b b h" "start_ok E T lid a b (a + b + n) s"
  shows "\<exists>s'. do { s \<leftarrow> each_item f [0..<a] s; each_item h [0..<b] s } = Some s' \<and> start_ok E T lid a b n s'"
proof -
  have "\<exists>s'. each_item f [0..<a] s = Some s' \<and> start_ok E T lid a b (b + n) s'"
    by (rule each_item_ok [OF assms(1)]) (use assms(3) in \<open>auto simp: add.assoc\<close>)
  then obtain s1 where 1: "each_item f [0..<a] s = Some s1" "start_ok E T lid a b (b + n) s1" by blast
  have "\<exists>s'. each_item h [0..<b] s1 = Some s' \<and> start_ok E T lid a b n s'"
    by (rule each_item_ok [OF assms(2)]) (use 1(2) in auto)
  with 1(1) show ?thesis by simp
qed

section \<open>The properties\<close>

text \<open>A group of three with one roll on its first item, for the witnesses.\<close>

definition demo_item :: lootItem where
  "demo_item = \<lparr>liItemid = 25, liRandomSuffix = 0, liRandomPropertyId = 0, liAllowedGUIDs = [], rollWinnerGUID = 0, liCount = 1,
     is_looted = False, is_blocked = True, freeforall = False, is_underthreshold = False, is_counted = False,
     needs_quest = False, follow_loot_rules = False\<rparr>"

definition demo_roll :: "u64 list \<Rightarrow> roll" where
  "demo_roll ps = (Roll_new 77 demo_item)\<lparr>rlLoot := Some 0, playerVote := map (\<lambda>p. (p, NOT_EMITED_YET)) ps,
     totalPlayersRolling := of_nat (length ps)\<rparr>"

definition demo_grp :: "u64 list \<Rightarrow> grp" where
  "demo_grp ps = (Group_new 0)\<lparr>RollId := [demo_roll ps]\<rparr>"

definition demo_gio :: gio where
  "demo_gio = \<lparr>refTo = Map.empty, refSub = (\<lambda>_. 0), invitedTo = Map.empty, leaderFlag = (\<lambda>_. False),
     plDungeonDifficulty = (\<lambda>_. 0), plRaidDifficulty = (\<lambda>_. 0),
     loots = [0 \<mapsto> \<lparr>ltItems = [demo_item], ltQuestItems = [], ltGold = 0, unlootedCount = 1, roundRobinPlayer = 0, PlayersLooting = []\<rparr>],
     draws = 0, hiItemGuid = 100, gout = []\<rparr>"

definition demo_gEnv :: grpEnv where
  "demo_gEnv = \<lparr>inWorld = (\<lambda>p. p \<noteq> 0), online = (\<lambda>p. p \<noteq> 0), loggingOut = (\<lambda>_. False), plName = (\<lambda>_. ''A''),
     plMap = (\<lambda>_. Some 1), enchanting = (\<lambda>_. 0), passOnLoot = (\<lambda>_. False), canStore = (\<lambda>_ _ _. 0),
     allowedFor = (\<lambda>_ _. True),
     template = (\<lambda>_. Some \<lparr>itQuality = 3, itDisenchantID = 0, itRequiredDisenchantSkill = 0, itFlags2 = 0\<rparr>),
     urandDraw = (\<lambda>_ a b. if a \<le> b then b else a), nameOfGuid = Map.empty,
     isGameMaster = (\<lambda>_. False), onDungeonMap = (\<lambda>_. False), boundHere = (\<lambda>_. False), isAlive = (\<lambda>_. True),
     plMapId = (\<lambda>_. 1), inSight = (\<lambda>_ _. True), haveAtClient = (\<lambda>_ _. True), valuesFor = (\<lambda>_ _. True),
     lfgState = (\<lambda>_. 0), lfgDungeon = (\<lambda>_. 0), lfgDungeonMap = (\<lambda>_. 0)\<rparr>"

lemmas demo_loot = demo_item_def demo_roll_def demo_grp_def demo_gio_def demo_gEnv_def Group_new_def Roll_new_def

lemma demo_roll_ready:
  "GetRoll 77 (RollId (demo_grp ps)) = Some 0" "loot_open demo_gEnv (demo_roll ps) demo_gio" "fair_env demo_gEnv"
  "RollId (demo_grp ps) = [demo_roll ps]" "rlItemGUID (demo_roll ps) = 77" "rlLoot (demo_roll ps) = Some 0" "item_of 0 0 demo_gio = Some demo_item"
  by (simp_all add: demo_loot loot_open_def loot_ready_def item_at_def fair_env_def item_of_def)


lemma demo_roll_silent:
  "silent_players (demo_roll [3, 5, 9]) = {3, 5, 9}" "roll_ok (demo_roll [3, 5, 9])" "silent (demo_roll [3, 5, 9]) = 3"
  by (auto simp: silent_players_def demo_roll_def Roll_new_def roll_ok_def key_sorted_def silent_def)

text \<open>
  C29. Starting the rolls of a loot, by group loot or need before greed, goes through every
  item without a fault and leaves the tallies of every roll right and the item and the template
  of every roll there, if they were before, as long as no player is listed twice, the slots fit
  in a byte, the item guids do not run out and, for need before greed, which does not check it,
  every quest item and every other item of the loot that is not free for all has its template.
\<close>

theorem rolls_started:
  assumes "rolls_ok g" "rolls_ready E g io" "members_ok g" "loots io lid = Some t" "length (ltItems t) + length (ltQuestItems t) \<le> 256"
    "unat (hiItemGuid io) + length (ltItems t) + length (ltQuestItems t) < 0xFFFFFFFE"
  shows "(\<exists>g1 io1. GroupLoot E lid obj g io = Some (g1, io1) \<and> rolls_ok g1 \<and> rolls_ready E g1 io1) \<and>
    ((\<forall>li\<in>set (ltItems t). freeforall li \<or> template E (liItemid li) \<noteq> None) \<and>
     (\<forall>li\<in>set (ltQuestItems t). template E (liItemid li) \<noteq> None) \<longrightarrow>
      (\<exists>g2 io2. NeedBeforeGreed E lid obj g io = Some (g2, io2) \<and> rolls_ok g2 \<and> rolls_ready E g2 io2))"
proof -
  let ?a = "length (ltItems t)" and ?b = "length (ltQuestItems t)"
  have "start_ok E (\<lambda>_ _. True) lid ?a ?b (?a + ?b + 0) (g, io)" using assms by (simp add: start_ok_def)
  from both_lists_ok [OF group_item_ok [where E = E and obj = obj, OF assms(5)] group_quest_item_ok [where E = E and obj = obj, OF assms(5)] this]
  have 1: "\<exists>g1 io1. GroupLoot E lid obj g io = Some (g1, io1) \<and> rolls_ok g1 \<and> rolls_ready E g1 io1"
    using assms(4) by (auto simp: GroupLoot_def start_ok_def)
  have 2: "\<exists>g2 io2. NeedBeforeGreed E lid obj g io = Some (g2, io2) \<and> rolls_ok g2 \<and> rolls_ready E g2 io2"
    if "\<forall>li\<in>set (ltItems t). freeforall li \<or> template E (liItemid li) \<noteq> None" "\<forall>li\<in>set (ltQuestItems t). template E (liItemid li) \<noteq> None"
  proof -
    have "start_ok E (all_known E) lid ?a ?b (?a + ?b + 0) (g, io)"
      using assms that by (auto simp: start_ok_def all_known_def item_key_def)
    from both_lists_ok [OF need_item_ok [where obj = obj, OF assms(5)] need_quest_item_ok [where E = E and obj = obj, OF assms(5)] this]
    show ?thesis using assms(4) by (auto simp: NeedBeforeGreed_def start_ok_def)
  qed
  from 1 2 show ?thesis by blast
qed

definition demo_members :: grp where
  "demo_members = (Group_new 0)\<lparr>memberMgr := [(3, False), (5, False), (9, False)]\<rparr>"

definition demo_object :: lootedObject where
  "demo_object = \<lparr>rewardDistance = (\<lambda>_. True), objMapId = 0, hasLootTimer = True, canRollInLFG = (\<lambda>_ _. True)\<rparr>"

theorem rolls_started_witness:
  "(\<exists>g1 io1. GroupLoot demo_gEnv 0 demo_object demo_members demo_gio = Some (g1, io1) \<and> rolls_ok g1 \<and> rolls_ready demo_gEnv g1 io1) \<and>
    (\<exists>g2 io2. NeedBeforeGreed demo_gEnv 0 demo_object demo_members demo_gio = Some (g2, io2) \<and> rolls_ok g2 \<and>
      rolls_ready demo_gEnv g2 io2)"
  using rolls_started [where E = demo_gEnv and lid = 0 and obj = demo_object and g = demo_members and io = demo_gio
    and t = "\<lparr>ltItems = [demo_item], ltQuestItems = [], ltGold = 0, unlootedCount = 1, roundRobinPlayer = 0, PlayersLooting = []\<rparr>"]
  by (simp add: demo_members_def demo_loot rolls_ok_def members_ok_def rolls_ready_def)

text \<open>
  C28. A roll waits for the players it asked: as long as not all of them have voted it stays
  where it is, with exactly the others silent, and the vote of the last one ends it, takes it
  off the group's list and leaves the other rolls alone.
\<close>

theorem roll_ends_when_all_voted:
  fixes E :: grpEnv
  assumes "GetRoll guid (RollId g) = Some i" "loot_open E (RollId g ! i) io" "roll_ok (RollId g ! i)"
    and "distinct (map fst (vs @ [(p, c)]))" "set (map fst (vs @ [(p, c)])) = silent_players (RollId g ! i)"
    and "\<forall>v\<in>set (vs @ [(p, c)]). snd v < MAX_ROLL_TYPE"
  shows "\<exists>r io1 io2. vote_all E guid vs (g, io) = Some (g\<lparr>RollId := (RollId g)[i := r]\<rparr>, io1) \<and> silent_players r = {p} \<and>
    CountRollVote E p guid c (g\<lparr>RollId := (RollId g)[i := r]\<rparr>) io1 = Some (True, g\<lparr>RollId := erase_nth i (RollId g)\<rparr>, io2)"
proof -
  have p: "p \<notin> set (map fst vs)" "p \<in> silent_players (RollId g ! i)" "distinct (map fst vs)" "c < MAX_ROLL_TYPE"
    using assms(4-6) by auto
  from vote_all_open [OF assms(1-3) p(3)] obtain r io1 where
    v: "vote_all E guid vs (g, io) = Some (g\<lparr>RollId := (RollId g)[i := r]\<rparr>, io1)" "loots io1 = loots io" "roll_ok r"
    "rlItemGUID r = guid" "rlLoot r = rlLoot (RollId g ! i)" "rlItemSlot r = rlItemSlot (RollId g ! i)"
    "rlItemid r = rlItemid (RollId g ! i)" "silent_players r = silent_players (RollId g ! i) - set (map fst vs)"
    using assms(5,6) p by auto
  have s: "silent_players r = {p}" using v(8) assms(5) p(1) by auto
  let ?g = "g\<lparr>RollId := (RollId g)[i := r]\<rparr>"
  have i: "i < length (RollId g)" "rlItemGUID (RollId g ! i) = guid" using GetRoll_Some [OF assms(1)] by blast+
  have "GetRoll guid (RollId ?g) = Some i" using GetRoll_update [OF assms(1), of r] v(4,5) i by simp
  moreover have "loot_open E (RollId ?g ! i) io1" using assms(2) v i by (simp add: loot_open_def loot_ready_def)
  moreover have m: "map_of (playerVote r) p = Some NOT_EMITED_YET" using s by (auto simp: silent_players_def)
  moreover have "roll_complete (fst (cast_vote E p c r io1))"
    using first_vote [OF v(3) m p(4), of E io1] roll_complete_silent silent_iff [of "fst (cast_vote E p c r io1)"]
      cast_silent_players [of p r c E io1] s p(4) by (auto simp: roll_ok_def)
  ultimately obtain io2 where "CountRollVote E p guid c ?g io1 = Some (True, g\<lparr>RollId := erase_nth i (RollId g)\<rparr>, io2)"
    using CountRollVote_open [of guid ?g i E io1 p c] i by (auto simp: erase_nth_update)
  with v(1) s show ?thesis by blast
qed

theorem roll_ends_when_all_voted_witness:
  "\<exists>r io1 io2. vote_all demo_gEnv 77 [(5, ROLL_NEED), (3, ROLL_PASS)] (demo_grp [3, 5, 9], demo_gio) =
      Some ((demo_grp [3, 5, 9])\<lparr>RollId := (RollId (demo_grp [3, 5, 9]))[0 := r]\<rparr>, io1) \<and> silent_players r = {9} \<and>
    CountRollVote demo_gEnv 9 77 ROLL_GREED ((demo_grp [3, 5, 9])\<lparr>RollId := (RollId (demo_grp [3, 5, 9]))[0 := r]\<rparr>) io1 =
      Some (True, (demo_grp [3, 5, 9])\<lparr>RollId := erase_nth 0 (RollId (demo_grp [3, 5, 9]))\<rparr>, io2)"
  by (intro roll_ends_when_all_voted) (auto simp: demo_roll_ready demo_roll_silent roll_types)

text \<open>
  C30. When the time of a loot is up, counting its rolls always comes to an end, takes exactly
  the rolls of that loot off the list, and every one of them is counted on the way.
\<close>

theorem end_roll_ends:
  assumes "\<forall>r\<in>set (RollId g). loot_ready E r io"
  shows "\<exists>io'. EndRoll E l m g io = Some (g\<lparr>RollId := filter (\<lambda>r. rlLoot r \<noteq> Some l) (RollId g)\<rparr>, io')"
  using end_loop_ok [of g E io 0 l m] assms by (auto simp: EndRoll_def)

theorem end_roll_ends_witness:
  "\<exists>io'. EndRoll demo_gEnv 0 (Some 1) (demo_grp [3, 5, 9]) demo_gio =
    Some ((demo_grp [3, 5, 9])\<lparr>RollId := filter (\<lambda>r. rlLoot r \<noteq> Some 0) (RollId (demo_grp [3, 5, 9]))\<rparr>, io')"
  by (rule end_roll_ends) (use demo_roll_ready in \<open>simp add: loot_open_def\<close>)

text \<open>
  C27. A counted roll gives its item to the first of the highest numbers among those who need
  it and are there, and among greed and disenchanting only when nobody needs it: it is stored in
  this player's bags, or disenchanted for this player, and looted; when the bags are full, the
  player is told so and the item is kept for this player. Nothing is handed to anybody else.
  Numbers are drawn for these players only. When there is nobody the item is open to all and
  nobody receives anything. Assumed: the item and its template are there, the tallies of the roll
  are right, the numbers drawn are between 1 and 100, and no player has the guid zero.
\<close>

theorem roll_outcome:
  assumes "i < length (RollId g)" "rlLoot (RollId g ! i) = Some l" "fair_env E" "roll_ok (RollId g ! i)"
    "item_of l (rlItemSlot (RollId g ! i)) io = Some li" "template E (rlItemid (RollId g ! i)) \<noteq> None"
  shows "\<exists>io'. CountTheRoll E m i g io = Some (g\<lparr>RollId := erase_nth i (RollId g)\<rparr>, io') \<and>
    draws io' = draws io + length (contenders E m (RollId g ! i)) \<and>
    (case contenders E m (RollId g ! i) of
       [] \<Rightarrow> item_of l (rlItemSlot (RollId g ! i)) io' = Some (li\<lparr>is_blocked := False\<rparr>) \<and> handed io' = handed io
     | _ \<Rightarrow> \<exists>j<length (contenders E m (RollId g ! i)).
         first_highest (drawn E (draws io) (length (contenders E m (RollId g ! i)))) j \<and>
         item_of l (rlItemSlot (RollId g ! i)) io' = Some (roll_award E (RollId g ! i) (contenders E m (RollId g ! i) ! j) li) \<and>
         handed io' = handed io @ [roll_handout E (RollId g ! i) (contenders E m (RollId g ! i) ! j) li])"
proof -
  from count_phases [where m = m, OF assms(3-6)] obtain r1 io1 r2 io2 io' where
    c: "count_need E m l (RollId g ! i) io = Some (r1, io1)" "count_greed E m l r1 io1 = Some (r2, io2)" "all_passed E l r2 io2 = Some io'"
    and d: "draws io' = draws io + length (contenders E m (RollId g ! i))"
    and e: "contenders E m (RollId g ! i) = [] \<longrightarrow> item_of l (rlItemSlot (RollId g ! i)) io' = Some (li\<lparr>is_blocked := False\<rparr>) \<and>
         handed io' = handed io"
    and w: "contenders E m (RollId g ! i) \<noteq> [] \<longrightarrow> (\<exists>j<length (contenders E m (RollId g ! i)).
         first_highest (drawn E (draws io) (length (contenders E m (RollId g ! i)))) j \<and>
         item_of l (rlItemSlot (RollId g ! i)) io' = Some (roll_award E (RollId g ! i) (contenders E m (RollId g ! i) ! j) li) \<and>
         handed io' = handed io @ [roll_handout E (RollId g ! i) (contenders E m (RollId g ! i) ! j) li])"
    by blast
  have "CountTheRoll E m i g io = Some (g\<lparr>RollId := erase_nth i (RollId g)\<rparr>, io')"
    using assms(1,2) c by (simp add: CountTheRoll_def Let_def)
  with d e w show ?thesis by (intro exI [of _ io']) (cases "contenders E m (RollId g ! i)"; simp)
qed

definition demo_voted :: grp where
  "demo_voted = (Group_new 0)\<lparr>RollId := [(demo_roll [3, 5, 9])\<lparr>playerVote := [(3, NEED), (5, GREED), (9, NEED)],
     totalNeed := 2, totalGreed := 1\<rparr>]\<rparr>"

theorem roll_outcome_witness:
  "\<exists>io'. CountTheRoll demo_gEnv None 0 demo_voted demo_gio = Some (demo_voted\<lparr>RollId := erase_nth 0 (RollId demo_voted)\<rparr>, io') \<and>
    draws io' = draws demo_gio + length (contenders demo_gEnv None (RollId demo_voted ! 0)) \<and>
    (case contenders demo_gEnv None (RollId demo_voted ! 0) of
       [] \<Rightarrow> item_of 0 (rlItemSlot (RollId demo_voted ! 0)) io' = Some (demo_item\<lparr>is_blocked := False\<rparr>) \<and> handed io' = handed demo_gio
     | _ \<Rightarrow> \<exists>j<length (contenders demo_gEnv None (RollId demo_voted ! 0)).
         first_highest (drawn demo_gEnv (draws demo_gio) (length (contenders demo_gEnv None (RollId demo_voted ! 0)))) j \<and>
         item_of 0 (rlItemSlot (RollId demo_voted ! 0)) io' =
           Some (roll_award demo_gEnv (RollId demo_voted ! 0) (contenders demo_gEnv None (RollId demo_voted ! 0) ! j) demo_item) \<and>
         handed io' = handed demo_gio @
           [roll_handout demo_gEnv (RollId demo_voted ! 0) (contenders demo_gEnv None (RollId demo_voted ! 0) ! j) demo_item])"
proof (rule roll_outcome)
  show "roll_ok (RollId demo_voted ! 0)"
    by (simp add: demo_voted_def demo_roll_def Roll_new_def roll_ok_def key_sorted_def)
  show "item_of 0 (rlItemSlot (RollId demo_voted ! 0)) demo_gio = Some demo_item"
    using demo_roll_ready by (simp add: demo_voted_def demo_roll_def Roll_new_def)
  show "fair_env demo_gEnv" by (rule demo_roll_ready)
qed (simp_all add: demo_voted_def demo_roll_def Roll_new_def demo_gEnv_def)

text \<open>
  C34. Votes are counted, not voters: a player may vote again, and as many votes as there are
  silent players end the roll. One player's votes for need close a roll in which another
  player has not voted at all.
\<close>

theorem repeated_votes_end_roll:
  assumes "GetRoll guid (RollId g) = Some i" "loot_open E (RollId g ! i) io" "roll_ok (RollId g ! i)"
    and "{p, q} \<subseteq> silent_players (RollId g ! i)" "p \<noteq> q" "silent (RollId g ! i) = Suc n"
  shows "\<exists>r io1 io2. vote_all E guid (replicate n (p, ROLL_NEED)) (g, io) = Some (g\<lparr>RollId := (RollId g)[i := r]\<rparr>, io1) \<and>
    q \<in> silent_players r \<and>
    CountRollVote E p guid ROLL_NEED (g\<lparr>RollId := (RollId g)[i := r]\<rparr>) io1 = Some (True, g\<lparr>RollId := erase_nth i (RollId g)\<rparr>, io2)"
proof -
  have t: "unat (totalPlayersRolling (RollId g ! i)) = Suc (tally (RollId g ! i) + n)"
    using tally_silent [OF assms(3)] assms(6) by simp
  have p: "map_of (playerVote (RollId g ! i)) p \<noteq> None" "ROLL_NEED < MAX_ROLL_TYPE"
    using assms(4) by (auto simp: silent_players_def roll_types)
  from vote_again [OF assms(1,2) p, of n] t obtain r io1 where
    v: "vote_all E guid (replicate n (p, ROLL_NEED)) (g, io) = Some (g\<lparr>RollId := (RollId g)[i := r]\<rparr>, io1)" "loots io1 = loots io"
    "rlItemGUID r = guid" "rlLoot r = rlLoot (RollId g ! i)" "rlItemSlot r = rlItemSlot (RollId g ! i)"
    "rlItemid r = rlItemid (RollId g ! i)" "tally r = tally (RollId g ! i) + n" "map_of (playerVote r) p \<noteq> None"
    "totalPlayersRolling r = totalPlayersRolling (RollId g ! i)"
    "\<forall>q. q \<noteq> p \<longrightarrow> map_of (playerVote r) q = map_of (playerVote (RollId g ! i)) q" by auto
  let ?g = "g\<lparr>RollId := (RollId g)[i := r]\<rparr>"
  have i: "i < length (RollId g)" "rlItemGUID (RollId g ! i) = guid" using GetRoll_Some [OF assms(1)] by blast+
  have "GetRoll guid (RollId ?g) = Some i" using GetRoll_update [OF assms(1), of r] v(3,4) i by simp
  moreover have "loot_open E (RollId ?g ! i) io1" using assms(2) v i by (simp add: loot_open_def loot_ready_def)
  ultimately obtain io2 where "CountRollVote E p guid ROLL_NEED ?g io1 = Some (True, g\<lparr>RollId := erase_nth i (RollId g)\<rparr>, io2)"
    using last_vote [of guid ?g i E io1 p ROLL_NEED] i v t p(2) by (auto simp: erase_nth_update)
  moreover have "q \<in> silent_players r" using v(10) assms(4,5) by (simp add: silent_players_def)
  ultimately show ?thesis using v(1) by blast
qed

theorem repeated_votes_end_roll_witness:
  "\<exists>r io1 io2. vote_all demo_gEnv 77 (replicate 2 (5, ROLL_NEED)) (demo_grp [3, 5, 9], demo_gio) =
      Some ((demo_grp [3, 5, 9])\<lparr>RollId := (RollId (demo_grp [3, 5, 9]))[0 := r]\<rparr>, io1) \<and> 9 \<in> silent_players r \<and>
    CountRollVote demo_gEnv 5 77 ROLL_NEED ((demo_grp [3, 5, 9])\<lparr>RollId := (RollId (demo_grp [3, 5, 9]))[0 := r]\<rparr>) io1 =
      Some (True, (demo_grp [3, 5, 9])\<lparr>RollId := erase_nth 0 (RollId (demo_grp [3, 5, 9]))\<rparr>, io2)"
  by (intro repeated_votes_end_roll) (auto simp: demo_roll_ready demo_roll_silent)

end
