(* ===== verification/GroupOps.thy ===== *)
theory GroupOps
  imports GroupRoll
begin

text \<open>
  The operations of a group on itself, src/src/server/game/Groups/Group.cpp: packets, target
  icons, sub-groups, flags, leader, looter and settings. Each takes the group's address
  \<^verbatim>\<open>this\<close>, which players' references hold, and returns the changed group and outputs.
\<close>

section \<open>Constants\<close>

definition SMSG_GROUP_UNINVITE :: u16 where "SMSG_GROUP_UNINVITE = 0x077"
definition SMSG_GROUP_SET_LEADER :: u16 where "SMSG_GROUP_SET_LEADER = 0x079"
definition SMSG_GROUP_DESTROYED :: u16 where "SMSG_GROUP_DESTROYED = 0x07C"
definition SMSG_GROUP_LIST :: u16 where "SMSG_GROUP_LIST = 0x07D"
definition SMSG_PARTY_MEMBER_STATS :: u16 where "SMSG_PARTY_MEMBER_STATS = 0x07E"
definition MSG_RAID_TARGET_UPDATE :: u16 where "MSG_RAID_TARGET_UPDATE = 0x321"
definition MSG_RAID_READY_CHECK_CONFIRM :: u16 where "MSG_RAID_READY_CHECK_CONFIRM = 0x3AE"

definition MEMBER_STATUS_OFFLINE :: u8 where "MEMBER_STATUS_OFFLINE = 0"
definition MEMBER_STATUS_ONLINE :: u8 where "MEMBER_STATUS_ONLINE = 1"
definition MEMBER_STATUS_PVP :: u8 where "MEMBER_STATUS_PVP = 2"

definition RAID_DIFFICULTY_10MAN_HEROIC :: u8 where "RAID_DIFFICULTY_10MAN_HEROIC = 2"
definition MAX_DUNGEON_DIFFICULTY :: u8 where "MAX_DUNGEON_DIFFICULTY = 3"
definition MAX_RAID_DIFFICULTY :: u8 where "MAX_RAID_DIFFICULTY = 4"

definition LFG_STATE_NONE :: u8 where "LFG_STATE_NONE = 0"
definition LFG_STATE_FINISHED_DUNGEON :: u8 where "LFG_STATE_FINISHED_DUNGEON = 6"
definition LFG_STATE_RAIDBROWSER :: u8 where "LFG_STATE_RAIDBROWSER = 7"

definition GROUP_LFG_FLAG_APPLY_RANDOM_BUFF :: u8 where "GROUP_LFG_FLAG_APPLY_RANDOM_BUFF = 0x001"
definition GROUP_LFG_FLAG_IS_RANDOM_INSTANCE :: u8 where "GROUP_LFG_FLAG_IS_RANDOM_INSTANCE = 0x002"
definition GROUP_LFG_FLAG_IS_HEROIC :: u8 where "GROUP_LFG_FLAG_IS_HEROIC = 0x004"

text \<open>Neither a battleground's nor a battlefield's raid.\<close>

definition normal_grp :: "grp \<Rightarrow> bool" where
  "normal_grp g = (\<not> isBGGroup g \<and> \<not> isBFGroup g)"

definition slot_of :: "u64 \<Rightarrow> grp \<Rightarrow> memberSlot option" where
  "slot_of guid g = (case getMemberSlot guid (memberSlots g) of None \<Rightarrow> None | Some i \<Rightarrow> Some (memberSlots g ! i))"

section \<open>Accessors\<close>

definition IsFull :: "grp \<Rightarrow> bool" where
  "IsFull g = (if isRaidGroup g then length (memberSlots g) \<ge> MAXRAIDSIZE else length (memberSlots g) \<ge> MAXGROUPSIZE)"

definition IsCreated :: "grp \<Rightarrow> bool" where
  "IsCreated g = (GetMembersCount g > 0)"

definition IsMember :: "u64 \<Rightarrow> grp \<Rightarrow> bool" where
  "IsMember guid g = (slot_of guid g \<noteq> None)"

definition GetMemberGUID :: "string \<Rightarrow> grp \<Rightarrow> u64" where
  "GetMemberGUID name g = (case find (\<lambda>s. msName s = name) (memberSlots g) of None \<Rightarrow> 0 | Some s \<Rightarrow> msGuid s)"

definition IsAssistant :: "u64 \<Rightarrow> grp \<Rightarrow> bool" where
  "IsAssistant guid g = (case slot_of guid g of None \<Rightarrow> False | Some s \<Rightarrow> msFlags s AND MEMBER_FLAG_ASSISTANT \<noteq> 0)"

definition SameSubGroup_slot :: "u64 \<Rightarrow> memberSlot option \<Rightarrow> grp \<Rightarrow> bool" where
  "SameSubGroup_slot guid1 slot2 g =
     (case (slot_of guid1 g, slot2) of (Some s1, Some s2) \<Rightarrow> msGroup s1 = msGroup s2 | _ \<Rightarrow> False)"

definition SameSubGroup :: "u64 \<Rightarrow> u64 \<Rightarrow> grp \<Rightarrow> bool" where
  "SameSubGroup guid1 guid2 g =
     (case slot_of guid2 g of None \<Rightarrow> False | Some s2 \<Rightarrow> SameSubGroup_slot guid1 (Some s2) g)"

text \<open>The overload on players, null or not.\<close>

definition SameSubGroup_players :: "nat \<Rightarrow> u64 option \<Rightarrow> u64 option \<Rightarrow> gio \<Rightarrow> bool" where
  "SameSubGroup_players this member1 member2 io =
     (case (member1, member2) of
        (Some p, Some q) \<Rightarrow>
          if refTo io (p, False) \<noteq> Some this \<or> refTo io (q, False) \<noteq> Some this then False
          else refSub io (p, False) = refSub io (q, False)
      | _ \<Rightarrow> False)"

text \<open>The array's bounds are the caller's business: \<^const>\<open>None\<close> is a read outside of it.\<close>

definition HasFreeSlotSubGroup :: "u8 \<Rightarrow> grp \<Rightarrow> bool option" where
  "HasFreeSlotSubGroup subgroup g =
     (case subGroupsCounts g of
        None \<Rightarrow> Some False
      | Some cs \<Rightarrow> if unat subgroup < length cs then Some (unat (cs ! unat subgroup) < MAXGROUPSIZE) else None)"

definition GetMemberGroup :: "u64 \<Rightarrow> grp \<Rightarrow> u8" where
  "GetMemberGroup guid g = (case slot_of guid g of None \<Rightarrow> of_nat MAX_RAID_SUBGROUPS + 1 | Some s \<Rightarrow> msGroup s)"

definition GetDifficulty :: "bool \<Rightarrow> grp \<Rightarrow> u8" where
  "GetDifficulty isRaid g = (if isRaid then raidDifficulty g else dungeonDifficulty g)"

definition SetLootMethod :: "u8 \<Rightarrow> grp \<Rightarrow> grp" where
  "SetLootMethod m g = g\<lparr>lootMethod := m\<rparr>"

definition SetLooterGuid :: "u64 \<Rightarrow> grp \<Rightarrow> grp" where
  "SetLooterGuid guid g = g\<lparr>looterGuid := guid\<rparr>"

definition SetMasterLooterGuid :: "u64 \<Rightarrow> grp \<Rightarrow> grp" where
  "SetMasterLooterGuid guid g = g\<lparr>masterLooterGuid := guid\<rparr>"

definition SetLootThreshold :: "u8 \<Rightarrow> grp \<Rightarrow> grp" where
  "SetLootThreshold t g = g\<lparr>lootThreshold := t\<rparr>"

definition SetBattlegroundGroup :: "bool \<Rightarrow> grp \<Rightarrow> grp" where
  "SetBattlegroundGroup bg g = g\<lparr>bgGroup := bg\<rparr>"

definition SetBattlefieldGroup :: "bool \<Rightarrow> grp \<Rightarrow> grp" where
  "SetBattlefieldGroup bf g = g\<lparr>bfGroup := bf\<rparr>"

definition AddLfgFlag :: "u8 \<Rightarrow> grp \<Rightarrow> grp" where
  "AddLfgFlag flag g = g\<lparr>lfgGroupFlags := lfgGroupFlags g OR flag\<rparr>"

definition IsLfgWith :: "u8 \<Rightarrow> grp \<Rightarrow> bool" where
  "IsLfgWith flag g = (isLFGGroup g \<and> lfgGroupFlags g AND flag \<noteq> 0)"

text \<open>The clock is 64 bits wide, its difference is cut to 32.\<close>

definition GetDifficultyChangePreventionTime :: "int \<Rightarrow> grp \<Rightarrow> u32" where
  "GetDifficultyChangePreventionTime now g =
     (if uint (preventionTime g) > now then word_of_int (uint (preventionTime g) - now) else 0)"

definition SetDifficultyChangePrevention :: "int \<Rightarrow> u8 \<Rightarrow> grp \<Rightarrow> grp" where
  "SetDifficultyChangePrevention now t g = g\<lparr>preventionTime := word_of_int (now + 60), preventionType := t\<rparr>"

section \<open>Packets\<close>

text \<open>
  \<^verbatim>\<open>BroadcastPacket\<close>: to the group's references first to last, to one sub-group or to all.
\<close>

definition BroadcastPacket :: "nat \<Rightarrow> u16 \<Rightarrow> gfield list \<Rightarrow> bool \<Rightarrow> u8 option \<Rightarrow> u64 \<Rightarrow> grp \<Rightarrow> gio \<Rightarrow> gio" where
  "BroadcastPacket this opcode fs ignorePlayersInBGRaid subgroup ignore g io =
     fold (\<lambda>r. geff (Send (fst r) opcode fs))
       (filter (\<lambda>r. \<not> (ignore \<noteq> 0 \<and> fst r = ignore \<or> ignorePlayersInBGRaid \<and> refTo io (fst r, False) \<noteq> Some this) \<and>
                    (subgroup = None \<or> subgroup = Some (refSub io r))) (memberMgr g)) io"

definition BroadcastReadyCheck :: "u16 \<Rightarrow> gfield list \<Rightarrow> grp \<Rightarrow> gio \<Rightarrow> gio" where
  "BroadcastReadyCheck opcode fs g io =
     fold (\<lambda>r. geff (Send (fst r) opcode fs)) (filter (\<lambda>r. IsLeader (fst r) g \<or> IsAssistant (fst r) g) (memberMgr g)) io"

definition OfflineReadyCheck :: "grpEnv \<Rightarrow> grp \<Rightarrow> gio \<Rightarrow> gio" where
  "OfflineReadyCheck E g io =
     fold (\<lambda>s. BroadcastReadyCheck MSG_RAID_READY_CHECK_CONFIRM [G64 (msGuid s), G8 0] g)
       (filter (\<lambda>s. \<not> online E (msGuid s)) (memberSlots g)) io"

definition member_entry :: "grpEnv \<Rightarrow> grp \<Rightarrow> memberSlot \<Rightarrow> gfield list" where
  "member_entry E g c =
     (let onlineState = (if online E (msGuid c) \<and> \<not> loggingOut E (msGuid c) then MEMBER_STATUS_ONLINE else MEMBER_STATUS_OFFLINE);
          onlineState = onlineState OR (if isBGGroup g \<or> isBFGroup g then MEMBER_STATUS_PVP else 0)
      in [GStr (msName c), G64 (msGuid c), G8 onlineState, G8 (msGroup c), G8 (msFlags c), G8 (msRoles c)])"

definition group_list :: "grpEnv \<Rightarrow> memberSlot \<Rightarrow> grp \<Rightarrow> gfield list" where
  "group_list E slot g =
     [G8 (groupType g), G8 (msGroup slot), G8 (msFlags slot), G8 (msRoles slot)] @
     (if isLFGGroup g
      then [G8 (if lfgState E (grpGuid g) = LFG_STATE_FINISHED_DUNGEON then 2 else 0), G32 (lfgDungeon E (grpGuid g))] else []) @
     [G64 (grpGuid g), G32 (grpCounter g), G32 (GetMembersCount g - 1)] @
     concat (map (member_entry E g) (filter (\<lambda>c. msGuid c \<noteq> msGuid slot) (memberSlots g))) @
     [G64 (leaderGuid g)] @
     (if GetMembersCount g - 1 \<noteq> 0
      then [G8 (lootMethod g), G64 (if lootMethod g = MASTER_LOOT then masterLooterGuid g else 0), G8 (lootThreshold g),
            G8 (dungeonDifficulty g), G8 (raidDifficulty g), G8 (if raidDifficulty g \<ge> RAID_DIFFICULTY_10MAN_HEROIC then 1 else 0)]
      else [])"

definition SendUpdateToPlayer :: "grpEnv \<Rightarrow> nat \<Rightarrow> u64 \<Rightarrow> memberSlot option \<Rightarrow> grp \<Rightarrow> gio \<Rightarrow> grp \<times> gio" where
  "SendUpdateToPlayer E this p slot g io =
     (if \<not> online E p \<or> refTo io (p, False) \<noteq> Some this then (g, io)
      else case (if slot = None then slot_of p g else slot) of
          None \<Rightarrow> (g, io)
        | Some slot \<Rightarrow> (g\<lparr>grpCounter := grpCounter g + 1\<rparr>, geff (Send p SMSG_GROUP_LIST (group_list E slot g)) io))"

definition SendUpdate :: "grpEnv \<Rightarrow> nat \<Rightarrow> grp \<Rightarrow> gio \<Rightarrow> grp \<times> gio" where
  "SendUpdate E this g io =
     fold (\<lambda>slot (g, io). SendUpdateToPlayer E this (msGuid slot) (Some slot) g io) (memberSlots g) (g, io)"

text \<open>The list a player that is in no group any more gets.\<close>

definition empty_list :: "u64 \<Rightarrow> grp \<Rightarrow> grpEffect" where
  "empty_list p g = Send p SMSG_GROUP_LIST [G8 0x10, G8 0, G8 0, G8 0, G64 (grpGuid g), G32 (grpCounter g), G32 0, G64 0]"

definition UpdatePlayerOutOfRange :: "grpEnv \<Rightarrow> u64 \<Rightarrow> grp \<Rightarrow> gio \<Rightarrow> gio" where
  "UpdatePlayerOutOfRange E p g io =
     (if \<not> inWorld E p then io
      else fold (\<lambda>r. geff (Send (fst r) SMSG_PARTY_MEMBER_STATS [GPack p])) (filter (\<lambda>r. \<not> inSight E (fst r) p) (memberMgr g)) io)"

definition BroadcastGroupUpdate :: "grpEnv \<Rightarrow> grp \<Rightarrow> gio \<Rightarrow> gio" where
  "BroadcastGroupUpdate E g io =
     fold (\<lambda>s. geff (Call ''ForceValuesUpdate'' [G64 (msGuid s)])) (filter (\<lambda>s. inWorld E (msGuid s)) (memberSlots g)) io"

section \<open>Target icons\<close>

definition put_icon :: "nat \<Rightarrow> u8 \<Rightarrow> u64 \<Rightarrow> u64 \<Rightarrow> grp \<Rightarrow> gio \<Rightarrow> grp \<times> gio" where
  "put_icon this icon whoGuid targetGuid g io =
     (g\<lparr>targetIcons := (targetIcons g)[unat icon := targetGuid]\<rparr>,
      BroadcastPacket this MSG_RAID_TARGET_UPDATE [G8 0, G64 whoGuid, G8 icon, G64 targetGuid] True None 0 g io)"

text \<open>
  The call of \<^verbatim>\<open>SetTargetIcon(i, 0, 0)\<close> for the other icons of the target takes the branch
  that cleans nothing, so it is \<^const>\<open>put_icon\<close>.
\<close>

definition SetTargetIcon :: "nat \<Rightarrow> u8 \<Rightarrow> u64 \<Rightarrow> u64 \<Rightarrow> grp \<Rightarrow> gio \<Rightarrow> grp \<times> gio" where
  "SetTargetIcon this icon whoGuid targetGuid g io =
     (if unat icon \<ge> TARGETICONCOUNT then (g, io)
      else let (g, io) =
             (if targetGuid \<noteq> 0
              then fold (\<lambda>i (g, io). if targetIcons g ! i = targetGuid then put_icon this (of_nat i) 0 0 g io else (g, io))
                     [0..<TARGETICONCOUNT] (g, io)
              else (g, io))
           in put_icon this icon whoGuid targetGuid g io)"

definition SendTargetIconList :: "u64 \<Rightarrow> grp \<Rightarrow> gio \<Rightarrow> gio" where
  "SendTargetIconList p g io =
     geff (Send p MSG_RAID_TARGET_UPDATE (G8 1 # concat (map (\<lambda>i. [G8 (of_nat i), G64 (targetIcons g ! i)])
       (filter (\<lambda>i. targetIcons g ! i \<noteq> 0) [0..<TARGETICONCOUNT])))) io"

section \<open>Sub-groups\<close>

text \<open>A counter that is written outside of the array would be undefined; the model leaves the array alone there.\<close>

definition SubGroupCounterIncrease :: "u8 \<Rightarrow> grp \<Rightarrow> grp" where
  "SubGroupCounterIncrease s g =
     g\<lparr>subGroupsCounts := map_option (\<lambda>cs. cs[unat s := cs ! unat s + 1]) (subGroupsCounts g)\<rparr>"

definition SubGroupCounterDecrease :: "u8 \<Rightarrow> grp \<Rightarrow> grp" where
  "SubGroupCounterDecrease s g =
     g\<lparr>subGroupsCounts := map_option (\<lambda>cs. cs[unat s := cs ! unat s - 1]) (subGroupsCounts g)\<rparr>"

definition initRaidSubGroupsCounter :: "grp \<Rightarrow> grp" where
  "initRaidSubGroupsCounter g =
     g\<lparr>subGroupsCounts := Some (fold (\<lambda>m cs. cs[unat (msGroup m) := cs ! unat (msGroup m) + 1]) (memberSlots g)
         (replicate MAX_RAID_SUBGROUPS 0))\<rparr>"

definition ChangeMembersGroup :: "grpEnv \<Rightarrow> nat \<Rightarrow> u64 \<Rightarrow> u8 \<Rightarrow> grp \<Rightarrow> gio \<Rightarrow> grp \<times> gio" where
  "ChangeMembersGroup E this guid subgroup g io =
     (if \<not> isRaidGroup g then (g, io)
      else case getMemberSlot guid (memberSlots g) of
          None \<Rightarrow> (g, io)
        | Some i \<Rightarrow>
            let prevSubGroup = GetMemberGroup guid g
            in if prevSubGroup = subgroup then (g, io)
               else let g = g\<lparr>memberSlots := (memberSlots g)[i := (memberSlots g ! i)\<lparr>msGroup := subgroup\<rparr>]\<rparr>;
                        g = SubGroupCounterDecrease prevSubGroup (SubGroupCounterIncrease subgroup g);
                        io = (if normal_grp g
                              then geff (Stmt ''CHAR_UPD_GROUP_MEMBER_SUBGROUP'' [G8 subgroup, G32 (GUID_LOPART guid)]) io else io);
                        io = (if online E guid
                              then if refTo io (guid, False) = Some this then io\<lparr>refSub := (refSub io)((guid, False) := subgroup)\<rparr>
                                   else io\<lparr>refSub := (refSub io)((guid, True) := subgroup)\<rparr>
                              else io)
                    in SendUpdate E this g io)"

section \<open>Flags and roles\<close>

definition RemoveUniqueGroupMemberFlag :: "u8 \<Rightarrow> grp \<Rightarrow> grp" where
  "RemoveUniqueGroupMemberFlag flag g =
     g\<lparr>memberSlots := map (\<lambda>s. if msFlags s AND flag \<noteq> 0 then s\<lparr>msFlags := msFlags s AND NOT flag\<rparr> else s) (memberSlots g)\<rparr>"

definition ToggleGroupMemberFlag :: "nat \<Rightarrow> u8 \<Rightarrow> bool \<Rightarrow> grp \<Rightarrow> grp" where
  "ToggleGroupMemberFlag i flag apply' g =
     g\<lparr>memberSlots := (memberSlots g)[i := (let s = memberSlots g ! i in
       s\<lparr>msFlags := if apply' then msFlags s OR flag else msFlags s AND NOT flag\<rparr>)]\<rparr>"

definition SetGroupMemberFlag :: "grpEnv \<Rightarrow> nat \<Rightarrow> u64 \<Rightarrow> bool \<Rightarrow> u8 \<Rightarrow> grp \<Rightarrow> gio \<Rightarrow> grp \<times> gio" where
  "SetGroupMemberFlag E this guid apply' flag g io =
     (if \<not> isRaidGroup g then (g, io)
      else case getMemberSlot guid (memberSlots g) of
          None \<Rightarrow> (g, io)
        | Some i \<Rightarrow>
            if flag \<notin> {MEMBER_FLAG_MAINASSIST, MEMBER_FLAG_MAINTANK, MEMBER_FLAG_ASSISTANT} then (g, io)
            else let g = (if flag = MEMBER_FLAG_MAINASSIST \<or> flag = MEMBER_FLAG_MAINTANK
                          then RemoveUniqueGroupMemberFlag flag g else g);
                     g = ToggleGroupMemberFlag i flag apply' g;
                     io = geff (Stmt ''CHAR_UPD_GROUP_MEMBER_FLAG'' [G8 (msFlags (memberSlots g ! i)), G32 (GUID_LOPART guid)]) io
                 in SendUpdate E this g io)"

definition SetLfgRoles :: "grpEnv \<Rightarrow> nat \<Rightarrow> u64 \<Rightarrow> u8 \<Rightarrow> grp \<Rightarrow> gio \<Rightarrow> grp \<times> gio" where
  "SetLfgRoles E this guid roles g io =
     (case getMemberSlot guid (memberSlots g) of
        None \<Rightarrow> (g, io)
      | Some i \<Rightarrow> SendUpdate E this (g\<lparr>memberSlots := (memberSlots g)[i := (memberSlots g ! i)\<lparr>msRoles := roles\<rparr>]\<rparr>) io)"

section \<open>The leader\<close>

text \<open>The script hook is handed the new leader's guid twice: \<^verbatim>\<open>m_leaderGuid\<close> is already the new one.\<close>

definition ChangeLeader :: "grpEnv \<Rightarrow> nat \<Rightarrow> u64 \<Rightarrow> grp \<Rightarrow> gio \<Rightarrow> grp \<times> gio" where
  "ChangeLeader E this newLeaderGuid g io =
     (case getMemberSlot newLeaderGuid (memberSlots g) of
        None \<Rightarrow> (g, io)
      | Some i \<Rightarrow>
          if \<not> online E newLeaderGuid then (g, io)
          else let io = (if normal_grp g
                 then geff (Call ''CopyBinds'' [G64 (leaderGuid g), G64 newLeaderGuid])
                   (geff (Stmt ''CHAR_UPD_GROUP_LEADER'' [G32 (GUID_LOPART newLeaderGuid), G32 (GetLowGUID g)]) io) else io);
               io = (if online E (leaderGuid g) then io\<lparr>leaderFlag := (leaderFlag io)(leaderGuid g := False)\<rparr> else io);
               io = io\<lparr>leaderFlag := (leaderFlag io)(newLeaderGuid := True)\<rparr>;
               g = g\<lparr>leaderGuid := newLeaderGuid, leaderName := plName E newLeaderGuid\<rparr>;
               g = ToggleGroupMemberFlag i MEMBER_FLAG_ASSISTANT False g;
               io = BroadcastPacket this SMSG_GROUP_SET_LEADER [GStr (msName (memberSlots g ! i))] True None 0 g io;
               io = geff (Hook ''OnGroupChangeLeader'' [G64 (grpGuid g), G64 newLeaderGuid, G64 (leaderGuid g)]) io
           in (g, io))"

text \<open>The first member that is there becomes the leader.\<close>

definition pick_leader :: "grpEnv \<Rightarrow> nat \<Rightarrow> grp \<Rightarrow> gio \<Rightarrow> grp \<times> gio" where
  "pick_leader E this g io =
     (case find (\<lambda>s. online E (msGuid s)) (memberSlots g) of
        None \<Rightarrow> (g, io) | Some s \<Rightarrow> ChangeLeader E this (msGuid s) g io)"

section \<open>Looting\<close>

definition ResetMaxEnchantingLevel :: "grpEnv \<Rightarrow> grp \<Rightarrow> grp" where
  "ResetMaxEnchantingLevel E g =
     fold (\<lambda>s g. if inWorld E (msGuid s) \<and> maxEnchantingLevel g < ucast (enchanting E (msGuid s))
                 then g\<lparr>maxEnchantingLevel := ucast (enchanting E (msGuid s))\<rparr> else g)
       (memberSlots g) (g\<lparr>maxEnchantingLevel := 0\<rparr>)"

definition UpdateLooterGuid :: "grpEnv \<Rightarrow> nat \<Rightarrow> (u64 \<Rightarrow> bool) \<Rightarrow> bool \<Rightarrow> grp \<Rightarrow> gio \<Rightarrow> grp \<times> gio" where
  "UpdateLooterGuid E this reward ifneed g io =
     (if lootMethod g = FREE_FOR_ALL then (g, io)
      else let near = (\<lambda>s. inWorld E (msGuid s) \<and> reward (msGuid s)); at = getMemberSlot (looterGuid g) (memberSlots g)
        in if ifneed \<and> at \<noteq> None \<and> near (memberSlots g ! the at) then (g, io)
           else let i = (case at of None \<Rightarrow> length (memberSlots g) | Some i \<Rightarrow> Suc i);
                    new = (case find near (drop i (memberSlots g)) of
                             None \<Rightarrow> find near (take i (memberSlots g)) | Some s \<Rightarrow> Some s)
                in case new of
                     Some s \<Rightarrow> if looterGuid g \<noteq> msGuid s then SendUpdate E this (SetLooterGuid (msGuid s) g) io else (g, io)
                   | None \<Rightarrow> SendUpdate E this (SetLooterGuid 0 g) io)"

section \<open>Kind and difficulty\<close>

definition type_statement :: "grp \<Rightarrow> gio \<Rightarrow> gio" where
  "type_statement g io =
     (if normal_grp g then geff (Stmt ''CHAR_UPD_GROUP_TYPE'' [G8 (groupType g), G32 (GetLowGUID g)]) io else io)"

definition ConvertToLFG :: "grpEnv \<Rightarrow> nat \<Rightarrow> grp \<Rightarrow> gio \<Rightarrow> grp \<times> gio" where
  "ConvertToLFG E this g io =
     (let g = g\<lparr>groupType := groupType g OR GROUPTYPE_LFG OR GROUPTYPE_LFG_RESTRICTED, lootMethod := NEED_BEFORE_GREED\<rparr>
      in SendUpdate E this g (type_statement g io))"

definition ConvertToRaid :: "grpEnv \<Rightarrow> nat \<Rightarrow> grp \<Rightarrow> gio \<Rightarrow> grp \<times> gio" where
  "ConvertToRaid E this g io =
     (let g = initRaidSubGroupsCounter (g\<lparr>groupType := groupType g OR GROUPTYPE_RAID\<rparr>);
          (g, io) = SendUpdate E this g (type_statement g io);
          io = fold (\<lambda>s. geff (Call ''UpdateForQuestWorldObjects'' [G64 (msGuid s)]))
                 (filter (\<lambda>s. inWorld E (msGuid s)) (memberSlots g)) io;
          io = (if lfgState E (leaderGuid g) = LFG_STATE_RAIDBROWSER then geff (Call ''LeaveLfg'' [G64 (leaderGuid g)]) io else io)
      in (g, io))"

definition SetDungeonDifficulty :: "u8 \<Rightarrow> grp \<Rightarrow> gio \<Rightarrow> grp \<times> gio" where
  "SetDungeonDifficulty d g io =
     (let g = g\<lparr>dungeonDifficulty := d\<rparr>;
          io = (if normal_grp g then geff (Stmt ''CHAR_UPD_GROUP_DIFFICULTY'' [G8 d, G32 (GetLowGUID g)]) io else io)
      in (g, fold (\<lambda>r io. geff (Call ''SendDungeonDifficulty'' [G64 (fst r)])
                    (io\<lparr>plDungeonDifficulty := (plDungeonDifficulty io)(fst r := d)\<rparr>)) (memberMgr g) io))"

definition SetRaidDifficulty :: "u8 \<Rightarrow> grp \<Rightarrow> gio \<Rightarrow> grp \<times> gio" where
  "SetRaidDifficulty d g io =
     (let g = g\<lparr>raidDifficulty := d\<rparr>;
          io = (if normal_grp g then geff (Stmt ''CHAR_UPD_GROUP_RAID_DIFFICULTY'' [G8 d, G32 (GetLowGUID g)]) io else io)
      in (g, fold (\<lambda>r io. geff (Call ''SendRaidDifficulty'' [G64 (fst r)])
                    (io\<lparr>plRaidDifficulty := (plRaidDifficulty io)(fst r := d)\<rparr>)) (memberMgr g) io))"

end
