(* ===== verification/GroupMembers.thy ===== *)
theory GroupMembers
  imports GroupOps
begin

text \<open>
  Groups and players together: invitations, joining, leaving, disbanding and the group
  manager, src/src/server/game/Groups/Group.cpp and GroupMgr.cpp, with the player's references
  to its groups, src/src/server/game/Entities/Player/Player.cpp. The list of a group's
  references is the one \<^verbatim>\<open>RefManager\<close> refines: a link puts the reference first, an unlink
  takes it out. \<^const>\<open>None\<close> is a failed assertion or a pointer to a group that is gone.
\<close>

record gw =
  groups :: "nat \<Rightarrow> grp option"
  gwIo :: gio
  nextGroupId :: u32
  groupIds :: "bool list"
  groupStore :: "u32 \<Rightarrow> nat option"

definition weff :: "grpEffect \<Rightarrow> gw \<Rightarrow> gw" where
  "weff e w = w\<lparr>gwIo := geff e (gwIo w)\<rparr>"

text \<open>A step of one group, which must be there.\<close>

definition on_grp :: "nat \<Rightarrow> (grp \<Rightarrow> gio \<Rightarrow> grp \<times> gio) \<Rightarrow> gw \<Rightarrow> gw option" where
  "on_grp t f w = do { g \<leftarrow> groups w t; let (g, io) = f g (gwIo w); Some (w\<lparr>groups := (groups w)(t \<mapsto> g), gwIo := io\<rparr>) }"

definition on_grp_opt :: "nat \<Rightarrow> (grp \<Rightarrow> gio \<Rightarrow> (grp \<times> gio) option) \<Rightarrow> gw \<Rightarrow> gw option" where
  "on_grp_opt t f w = do { g \<leftarrow> groups w t; (g, io) \<leftarrow> f g (gwIo w); Some (w\<lparr>groups := (groups w)(t \<mapsto> g), gwIo := io\<rparr>) }"

section \<open>References\<close>

definition gref_unlink :: "gref \<Rightarrow> gw \<Rightarrow> gw" where
  "gref_unlink r w =
     (case refTo (gwIo w) r of
        None \<Rightarrow> w
      | Some t \<Rightarrow> w\<lparr>groups := (groups w)(t := map_option (\<lambda>g. g\<lparr>memberMgr := remove1 r (memberMgr g)\<rparr>) (groups w t)),
                    gwIo := (gwIo w)\<lparr>refTo := (refTo (gwIo w))(r := None)\<rparr>\<rparr>)"

definition gref_link :: "gref \<Rightarrow> nat \<Rightarrow> u8 \<Rightarrow> gw \<Rightarrow> gw option" where
  "gref_link r t subgroup w = do {
     let w = gref_unlink r w;
     g \<leftarrow> groups w t;
     Some (w\<lparr>groups := (groups w)(t \<mapsto> g\<lparr>memberMgr := r # memberMgr g\<rparr>),
             gwIo := (gwIo w)\<lparr>refTo := (refTo (gwIo w))(r \<mapsto> t), refSub := (refSub (gwIo w))(r := subgroup)\<rparr>\<rparr>) }"

definition GetGroup :: "u64 \<Rightarrow> gw \<Rightarrow> nat option" where
  "GetGroup p w = refTo (gwIo w) (p, False)"

definition GetOriginalGroup :: "u64 \<Rightarrow> gw \<Rightarrow> nat option" where
  "GetOriginalGroup p w = refTo (gwIo w) (p, True)"

definition GetSubGroup :: "u64 \<Rightarrow> gw \<Rightarrow> u8" where
  "GetSubGroup p w = refSub (gwIo w) (p, False)"

definition GetOriginalSubGroup :: "u64 \<Rightarrow> gw \<Rightarrow> u8" where
  "GetOriginalSubGroup p w = refSub (gwIo w) (p, True)"

text \<open>The sub-group is only asked for a link: its assertion \<^verbatim>\<open>subgroup >= 0\<close> holds for a byte below 128.\<close>

definition SetGroup :: "u64 \<Rightarrow> (nat \<times> u8) option \<Rightarrow> gw \<Rightarrow> gw option" where
  "SetGroup p target w = do {
     w \<leftarrow> (case target of
        None \<Rightarrow> Some (gref_unlink (p, False) w)
      | Some (t, subgroup) \<Rightarrow> if unat subgroup < 128 then gref_link (p, False) t subgroup w else None);
     Some (weff (Call ''UpdateObjectVisibility'' [G64 p]) w) }"

definition SetOriginalGroup :: "u64 \<Rightarrow> (nat \<times> u8) option \<Rightarrow> gw \<Rightarrow> gw option" where
  "SetOriginalGroup p target w =
     (case target of
        None \<Rightarrow> Some (gref_unlink (p, True) w)
      | Some (t, subgroup) \<Rightarrow> if unat subgroup < 128 then gref_link (p, True) t subgroup w else None)"

definition SetBattlegroundOrBattlefieldRaid :: "u64 \<Rightarrow> nat \<Rightarrow> u8 \<Rightarrow> gw \<Rightarrow> gw option" where
  "SetBattlegroundOrBattlefieldRaid p t subgroup w = do {
     w \<leftarrow> SetOriginalGroup p (map_option (\<lambda>u. (u, GetSubGroup p w)) (GetGroup p w)) w;
     gref_link (p, False) t subgroup (gref_unlink (p, False) w) }"

definition RemoveFromBattlegroundOrBattlefieldRaid :: "u64 \<Rightarrow> gw \<Rightarrow> gw option" where
  "RemoveFromBattlegroundOrBattlefieldRaid p w = do {
     let w = gref_unlink (p, False) w;
     w \<leftarrow> (case GetOriginalGroup p w of
        None \<Rightarrow> Some w
      | Some t \<Rightarrow> gref_link (p, False) t (GetOriginalSubGroup p w) w);
     SetOriginalGroup p None w }"

section \<open>Ids and the store\<close>

text \<open>
  The vector of registered ids, as wide as the largest saved id; a write outside of it is
  \<^const>\<open>None\<close>. The search stops at the end of the vector or at the last id.
\<close>

definition InitGroupIds :: "u32 option \<Rightarrow> gw \<Rightarrow> gw" where
  "InitGroupIds maxId w =
     (case maxId of
        None \<Rightarrow> w\<lparr>nextGroupId := 1\<rparr>
      | Some m \<Rightarrow> w\<lparr>nextGroupId := 1, groupIds := take (unat (m + 1)) (groupIds w) @
                      replicate (unat (m + 1) - length (groupIds w)) False\<rparr>)"

definition RegisterGroupId :: "u32 \<Rightarrow> gw \<Rightarrow> gw option" where
  "RegisterGroupId groupId w =
     (if unat groupId < length (groupIds w)
      then Some (w\<lparr>groupIds := (groupIds w)[unat groupId := True],
                   nextGroupId := if nextGroupId w = groupId then nextGroupId w + 1 else nextGroupId w\<rparr>)
      else None)"

function skip_ids :: "bool list \<Rightarrow> u32 \<Rightarrow> u32" where
  "skip_ids ids next =
     (if next < 0xFFFFFFFF then
        if unat (next + 1) < length ids \<and> ids ! unat (next + 1) then skip_ids ids (next + 1) else next + 1
      else next)"
  by pat_completeness auto

termination
  by (relation "measure (\<lambda>(ids, next). 2 ^ 32 - unat (next :: u32))")
    (auto simp: word_less_nat_alt unat_word_ariths(1))

definition GenerateGroupId :: "gw \<Rightarrow> u32 \<times> gw" where
  "GenerateGroupId w =
     (let newGroupId = nextGroupId w; w = w\<lparr>nextGroupId := skip_ids (groupIds w) (nextGroupId w)\<rparr>
      in (newGroupId, if nextGroupId w = 0xFFFFFFFF then weff (Call ''StopNow'' []) w else w))"

definition GetGroupByGUID :: "u32 \<Rightarrow> gw \<Rightarrow> nat option" where
  "GetGroupByGUID groupId w = groupStore w groupId"

definition AddGroup :: "nat \<Rightarrow> gw \<Rightarrow> gw option" where
  "AddGroup t w = do { g \<leftarrow> groups w t; Some (w\<lparr>groupStore := (groupStore w)(GetLowGUID g \<mapsto> t)\<rparr>) }"

definition RemoveGroup :: "nat \<Rightarrow> gw \<Rightarrow> gw option" where
  "RemoveGroup t w = do { g \<leftarrow> groups w t; Some (w\<lparr>groupStore := (groupStore w)(GetLowGUID g := None)\<rparr>) }"

section \<open>Invitations\<close>

definition RemoveInvite :: "u64 \<Rightarrow> grp \<Rightarrow> gio \<Rightarrow> grp \<times> gio" where
  "RemoveInvite p g io =
     (g\<lparr>invitees := filter (\<lambda>q. q \<noteq> p) (invitees g)\<rparr>, io\<lparr>invitedTo := (invitedTo io)(p := None)\<rparr>)"

definition RemoveAllInvites :: "grp \<Rightarrow> gio \<Rightarrow> grp \<times> gio" where
  "RemoveAllInvites g io =
     (g\<lparr>invitees := []\<rparr>, fold (\<lambda>p io. io\<lparr>invitedTo := (invitedTo io)(p := None)\<rparr>) (invitees g) io)"

definition GetInvited :: "u64 \<Rightarrow> grp \<Rightarrow> u64 option" where
  "GetInvited guid g = find (\<lambda>p. p = guid) (invitees g)"

definition GetInvited_name :: "grpEnv \<Rightarrow> string \<Rightarrow> grp \<Rightarrow> u64 option" where
  "GetInvited_name E name g = find (\<lambda>p. plName E p = name) (invitees g)"

definition AddInvite :: "nat \<Rightarrow> u64 option \<Rightarrow> gw \<Rightarrow> (bool \<times> gw) option" where
  "AddInvite this player w =
     (case player of
        None \<Rightarrow> Some (False, w)
      | Some p \<Rightarrow>
          if invitedTo (gwIo w) p \<noteq> None then Some (False, w)
          else do {
            in_group \<leftarrow> (case GetGroup p w of
               None \<Rightarrow> Some False
             | Some t \<Rightarrow> do { g \<leftarrow> groups w t;
                              Some (if isBGGroup g \<or> isBFGroup g then GetOriginalGroup p w \<noteq> None else True) });
            if in_group then Some (False, w)
            else do {
              w \<leftarrow> on_grp this (\<lambda>g io.
                let (g, io) = RemoveInvite p g io;
                    g = g\<lparr>invitees := p # invitees g\<rparr>;
                    io = io\<lparr>invitedTo := (invitedTo io)(p \<mapsto> this)\<rparr>
                in (g, geff (Hook ''OnGroupInviteMember'' [G64 (grpGuid g), G64 p]) io)) w;
              Some (True, w) } })"

definition AddLeaderInvite :: "grpEnv \<Rightarrow> nat \<Rightarrow> u64 option \<Rightarrow> gw \<Rightarrow> (bool \<times> gw) option" where
  "AddLeaderInvite E this player w = do {
     (ok, w) \<leftarrow> AddInvite this player w;
     case (ok, player) of
       (True, Some p) \<Rightarrow> do {
         w \<leftarrow> on_grp this (\<lambda>g io. (g\<lparr>leaderGuid := p, leaderName := plName E p\<rparr>, io)) w;
         Some (True, w) }
     | _ \<Rightarrow> Some (False, w) }"

section \<open>Joining\<close>

text \<open>The first sub-group that is not full; none for a group without counters is sub-group 0.\<close>

definition first_free_subgroup :: "grp \<Rightarrow> nat option" where
  "first_free_subgroup g =
     (case subGroupsCounts g of
        None \<Rightarrow> Some 0
      | Some cs \<Rightarrow> find (\<lambda>i. unat (cs ! i) < MAXGROUPSIZE) [0..<MAX_RAID_SUBGROUPS])"

definition cancel_homebind :: "grpEnv \<Rightarrow> u64 \<Rightarrow> gio \<Rightarrow> gio" where
  "cancel_homebind E p io =
     (if \<not> onDungeonMap E p then io
      else if boundHere E p then geff (Call ''m_InstanceValid'' [G64 p, G8 1]) io else io)"

definition homebind_if_instance :: "grpEnv \<Rightarrow> u64 \<Rightarrow> gio \<Rightarrow> gio" where
  "homebind_if_instance E p io =
     (if online E p \<and> \<not> isGameMaster E p \<and> onDungeonMap E p then geff (Call ''m_InstanceValid'' [G64 p, G8 0]) io else io)"

text \<open>The new slot, its counter and, in a normal group, the entry in the table of all players.\<close>

definition push_member :: "grpEnv \<Rightarrow> u64 \<Rightarrow> u8 \<Rightarrow> grp \<Rightarrow> gio \<Rightarrow> grp \<times> gio" where
  "push_member E p subgroup g io =
     (let g = g\<lparr>memberSlots := memberSlots g @ [\<lparr>msGuid = p, msName = plName E p, msGroup = subgroup, msFlags = 0, msRoles = 0\<rparr>]\<rparr>;
          io = (if normal_grp g then geff (Call ''UpdateGlobalPlayerGroup'' [G32 (GUID_LOPART p), G32 (GetLowGUID g)]) io else io)
      in (SubGroupCounterIncrease subgroup g, io\<lparr>invitedTo := (invitedTo io)(p := None)\<rparr>))"

definition point_player :: "nat \<Rightarrow> u64 \<Rightarrow> u8 \<Rightarrow> gw \<Rightarrow> gw option" where
  "point_player this p subgroup w = do {
     g \<leftarrow> groups w this;
     if GetGroup p w \<noteq> None then
       if isBGGroup g \<or> isBFGroup g then SetBattlegroundOrBattlefieldRaid p this subgroup w
       else SetOriginalGroup p (Some (this, subgroup)) w
     else SetGroup p (Some (this, subgroup)) w }"

definition announce_member :: "grpEnv \<Rightarrow> nat \<Rightarrow> u64 \<Rightarrow> u8 \<Rightarrow> grp \<Rightarrow> gio \<Rightarrow> grp \<times> gio" where
  "announce_member E this p subgroup g io =
     (let io = cancel_homebind E p io;
          g = (if \<not> isRaidGroup g then g\<lparr>targetIcons := replicate TARGETICONCOUNT 0\<rparr> else g);
          io = (if normal_grp g
                then geff (Stmt ''CHAR_REP_GROUP_MEMBER'' [G32 (GetLowGUID g), G32 (GUID_LOPART p), G8 0, G8 subgroup, G8 0]) io else io);
          (g, io) = SendUpdate E this g io
      in (g, geff (Hook ''OnGroupAddMember'' [G64 (grpGuid g), G64 p]) io))"

definition adopt_difficulty :: "u64 \<Rightarrow> grp \<Rightarrow> gio \<Rightarrow> gio" where
  "adopt_difficulty p g io =
     (if \<not> IsLeader p g \<and> normal_grp g then
        let io = geff (Call ''ResetInstances'' [G32 (GUID_LOPART p), GStr ''INSTANCE_RESET_GROUP_JOIN'']) io;
            io = (if plDungeonDifficulty io p \<noteq> dungeonDifficulty g
                  then geff (Call ''SendDungeonDifficulty'' [G64 p])
                         (io\<lparr>plDungeonDifficulty := (plDungeonDifficulty io)(p := dungeonDifficulty g)\<rparr>) else io)
        in if plRaidDifficulty io p \<noteq> raidDifficulty g
           then geff (Call ''SendRaidDifficulty'' [G64 p])
                  (io\<lparr>plRaidDifficulty := (plRaidDifficulty io)(p := raidDifficulty g)\<rparr>) else io
      else if IsLeader p g \<and> isLFGGroup g
        then geff (Call ''ResetInstances'' [G32 (GUID_LOPART p), GStr ''INSTANCE_RESET_GROUP_JOIN'']) io
      else io)"

text \<open>The update fields of the members for the new one, and of the new one for the members.\<close>

definition exchange_fields :: "grpEnv \<Rightarrow> u64 \<Rightarrow> grp \<Rightarrow> gio \<Rightarrow> gio" where
  "exchange_fields E p g io =
     (let others = filter (\<lambda>m. m \<noteq> p) (map fst (memberMgr g));
          io = fold (\<lambda>m io. if haveAtClient E m p \<and> valuesFor E p m then geff (Call ''SendValues'' [G64 p, G64 m]) io else io) others io;
          blocks = filter (\<lambda>m. haveAtClient E p m \<and> valuesFor E m p) others
      in if blocks \<noteq> [] then geff (Call ''SendGroupValues'' (G64 p # map G64 blocks)) io else io)"

definition greet_member :: "grpEnv \<Rightarrow> u64 \<Rightarrow> grp \<Rightarrow> gio \<Rightarrow> grp \<times> gio" where
  "greet_member E p g io =
     (let io = adopt_difficulty p g io;
          io = geff (Call ''SetGroupUpdateFlag'' [G64 p]) io;
          io = UpdatePlayerOutOfRange E p g io;
          io = (if isRaidGroup g then geff (Call ''UpdateForQuestWorldObjects'' [G64 p]) io else io);
          io = exchange_fields E p g io
      in (if maxEnchantingLevel g < ucast (enchanting E p) then g\<lparr>maxEnchantingLevel := ucast (enchanting E p)\<rparr> else g, io))"

definition AddMember :: "grpEnv \<Rightarrow> nat \<Rightarrow> u64 \<Rightarrow> gw \<Rightarrow> (bool \<times> gw) option" where
  "AddMember E this p w = do {
     g \<leftarrow> groups w this;
     case first_free_subgroup g of
       None \<Rightarrow> Some (False, w)
     | Some i \<Rightarrow> do {
         w \<leftarrow> on_grp this (push_member E p (of_nat i)) w;
         w \<leftarrow> point_player this p (of_nat i) w;
         w \<leftarrow> on_grp this (announce_member E this p (of_nat i)) w;
         w \<leftarrow> on_grp this (greet_member E p) w;
         Some (True, w) } }"

text \<open>A raid of a battleground, and the counters of a raid.\<close>

definition found_kind :: "grp \<Rightarrow> grp" where
  "found_kind g =
     (let g = (if isBGGroup g \<or> isBFGroup g then g\<lparr>groupType := GROUPTYPE_BGRAID\<rparr> else g)
      in if groupType g AND GROUPTYPE_RAID \<noteq> 0 then initRaidSubGroupsCounter g else g)"

definition found_group :: "grpEnv \<Rightarrow> u64 \<Rightarrow> u32 \<Rightarrow> grp \<Rightarrow> gio \<Rightarrow> grp \<times> gio" where
  "found_group E p lowguid g io =
     (let g = g\<lparr>grpGuid := MAKE_NEW_GUID lowguid 0 HIGHGUID_GROUP, leaderGuid := p, leaderName := plName E p\<rparr>;
          io = io\<lparr>leaderFlag := (leaderFlag io)(p := True)\<rparr>;
          g = found_kind g;
          g = (if \<not> isLFGGroup g then g\<lparr>lootMethod := GROUP_LOOT\<rparr> else g);
          g = g\<lparr>lootThreshold := ITEM_QUALITY_UNCOMMON, looterGuid := p, masterLooterGuid := 0,
                 dungeonDifficulty := 0, raidDifficulty := 0\<rparr>
      in if normal_grp g then
           let g = g\<lparr>dungeonDifficulty := plDungeonDifficulty io p, raidDifficulty := plRaidDifficulty io p\<rparr>
           in (g, geff (Stmt ''CHAR_INS_GROUP'' ([G32 lowguid, G32 (GUID_LOPART (leaderGuid g)), G8 (lootMethod g),
                 G32 (GUID_LOPART (looterGuid g)), G8 (lootThreshold g)] @ map (\<lambda>i. G32 (ucast i)) (targetIcons g) @
                 [G8 (groupType g), G32 (ucast (dungeonDifficulty g)), G32 (ucast (raidDifficulty g)),
                  G32 (GUID_LOPART (masterLooterGuid g))])) io)
         else (g, io))"

definition Create :: "grpEnv \<Rightarrow> nat \<Rightarrow> u64 \<Rightarrow> gw \<Rightarrow> (bool \<times> gw) option" where
  "Create E this p w = do {
     let (lowguid, w) = GenerateGroupId w;
     w \<leftarrow> on_grp this (found_group E p lowguid) w;
     g \<leftarrow> groups w this;
     (ok, w) \<leftarrow> AddMember E this p w;
     if normal_grp g then
       if ok then Some (True, weff (Hook ''OnCreate'' [G64 (grpGuid g), G64 p]) w) else None
     else Some (ok, w) }"

section \<open>Disbanding\<close>

text \<open>A player leaves the group, which is its current or its original one.\<close>

definition detach_player :: "nat \<Rightarrow> u64 \<Rightarrow> gw \<Rightarrow> gw option" where
  "detach_player this p w = do {
     g \<leftarrow> groups w this;
     if isBGGroup g \<or> isBFGroup g then RemoveFromBattlegroundOrBattlefieldRaid p w
     else if GetOriginalGroup p w = Some this then SetOriginalGroup p None w
     else SetGroup p None w }"

definition disband_member :: "grpEnv \<Rightarrow> nat \<Rightarrow> bool \<Rightarrow> u64 \<Rightarrow> gw \<Rightarrow> gw option" where
  "disband_member E this hideDestroy p w = do {
     w \<leftarrow> on_grp this (\<lambda>g io.
       let io = (if normal_grp g then geff (Call ''UpdateGlobalPlayerGroup'' [G32 (GUID_LOPART p), G32 0]) io else io);
           io = homebind_if_instance E p io;
           io = (if normal_grp g then geff (Call ''ResetInstances'' [G64 p, GStr ''INSTANCE_RESET_GROUP_LEAVE'']) io else io)
       in (g, io)) w;
     if \<not> online E p then Some w
     else do {
       w \<leftarrow> detach_player this p w;
       w \<leftarrow> on_grp this (\<lambda>g io.
         let io = (if isRaidGroup g then geff (Call ''UpdateForQuestWorldObjects'' [G64 p]) io else io);
             io = (if \<not> hideDestroy then geff (Send p SMSG_GROUP_DESTROYED []) io else io)
         in (g, io)) w;
       case GetGroup p w of
         Some t \<Rightarrow> on_grp t (SendUpdate E t) w
       | None \<Rightarrow> on_grp this (\<lambda>g io. (g, geff (empty_list p g) io)) w } }"

fun disband_members :: "grpEnv \<Rightarrow> nat \<Rightarrow> bool \<Rightarrow> u64 list \<Rightarrow> gw \<Rightarrow> gw option" where
  "disband_members E this hideDestroy [] w = Some w"
| "disband_members E this hideDestroy (p # ps) w = do {
     w \<leftarrow> disband_member E this hideDestroy p w; disband_members E this hideDestroy ps w }"

text \<open>
  The destructor: the battleground forgets its raid, and the references that are left point
  nowhere. The rolls are deleted and leave the loot.
\<close>

definition delete_group :: "nat \<Rightarrow> gw \<Rightarrow> gw option" where
  "delete_group this w = do {
     g \<leftarrow> groups w this;
     let io = geff (Hook ''OnDestructGroup'' [G64 (grpGuid g)]) (gwIo w);
     let io = (if bgGroup g then geff (Call ''SetBgRaid'' [G64 (grpGuid g)]) io else io);
     Some (w\<lparr>groups := (groups w)(this := None),
             gwIo := io\<lparr>refTo := (\<lambda>r. if r \<in> set (memberMgr g) then None else refTo io r)\<rparr>\<rparr>) }"

definition disband_end :: "grp \<Rightarrow> gio \<Rightarrow> grp \<times> gio" where
  "disband_end g io =
     (let g = g\<lparr>RollId := [], memberSlots := []\<rparr>;
          (g, io) = RemoveAllInvites g io;
          io = (if normal_grp g
                then geff (Stmt ''CHAR_DEL_LFG_DATA'' [G32 (GetLowGUID g)])
                       (geff (Stmt ''CHAR_DEL_GROUP_MEMBER_ALL'' [G32 (GetLowGUID g)])
                         (geff (Stmt ''CHAR_DEL_GROUP'' [G32 (GetLowGUID g)]) io)) else io)
      in (g, io))"

definition Disband :: "grpEnv \<Rightarrow> nat \<Rightarrow> bool \<Rightarrow> gw \<Rightarrow> gw option" where
  "Disband E this hideDestroy w = do {
     g \<leftarrow> groups w this;
     let w = weff (Hook ''OnGroupDisband'' [G64 (grpGuid g)]) w;
     w \<leftarrow> disband_members E this hideDestroy (map msGuid (memberSlots g)) w;
     w \<leftarrow> on_grp this disband_end w;
     w \<leftarrow> RemoveGroup this w;
     delete_group this w }"

section \<open>Leaving\<close>

datatype removeMethod = RM_DEFAULT | RM_KICK | RM_LEAVE | RM_KICK_LFG

fun methodNum :: "removeMethod \<Rightarrow> u8" where
  "methodNum RM_DEFAULT = 0" | "methodNum RM_KICK = 1" | "methodNum RM_LEAVE = 2" | "methodNum RM_KICK_LFG = 3"

definition drop_vote :: "u64 \<Rightarrow> rollVote \<Rightarrow> roll \<Rightarrow> roll" where
  "drop_vote guid v r =
     (let r = (if v = GREED \<or> v = DISENCHANT then r\<lparr>totalGreed := totalGreed r - 1\<rparr>
               else if v = NEED then r\<lparr>totalNeed := totalNeed r - 1\<rparr>
               else if v = PASS then r\<lparr>totalPass := totalPass r - 1\<rparr> else r);
          r = (if v \<noteq> NOT_VALID then r\<lparr>totalPlayersRolling := totalPlayersRolling r - 1\<rparr> else r)
      in r\<lparr>playerVote := filter (\<lambda>w. fst w \<noteq> guid) (playerVote r)\<rparr>)"

text \<open>A roll that the player's leaving completes is counted, and the loop starts again.\<close>

partial_function (option) remove_votes :: "grpEnv \<Rightarrow> u64 \<Rightarrow> nat \<Rightarrow> grp \<Rightarrow> gio \<Rightarrow> (grp \<times> gio) option" where
  "remove_votes E guid i g io =
     (if i < length (RollId g) then
        case map_of (playerVote (RollId g ! i)) guid of
          None \<Rightarrow> remove_votes E guid (Suc i) g io
        | Some v \<Rightarrow> do {
            let r = drop_vote guid v (RollId g ! i);
            (counted, g, io) \<leftarrow> CountRollVote E guid (rlItemGUID r) MAX_ROLL_TYPE (g\<lparr>RollId := (RollId g)[i := r]\<rparr>) io;
            remove_votes E guid (if counted then 0 else Suc i) g io }
      else Some (g, io))"

declare remove_votes.simps [code]

definition leave_notice :: "grpEnv \<Rightarrow> removeMethod \<Rightarrow> u64 \<Rightarrow> grp \<Rightarrow> gio \<Rightarrow> grp \<times> gio" where
  "leave_notice E method p g io =
     (let io = (if normal_grp g then geff (Call ''UpdateForQuestWorldObjects'' [G64 p]) io else io);
          io = (if method = RM_KICK \<or> method = RM_KICK_LFG then geff (Send p SMSG_GROUP_UNINVITE []) io else io)
      in (g, geff (empty_list p g) io))"

definition drop_record :: "grpEnv \<Rightarrow> u64 \<Rightarrow> grp \<Rightarrow> gio \<Rightarrow> grp \<times> gio" where
  "drop_record E guid g io =
     (let io = (if normal_grp g then geff (Stmt ''CHAR_DEL_GROUP_MEMBER'' [G32 (GUID_LOPART guid), G32 (GetLowGUID g)]) io else io)
      in (if online E guid \<and> enchanting E guid \<noteq> 0 \<or> \<not> online E guid then ResetMaxEnchantingLevel E g else g, io))"

definition drop_slot :: "u64 \<Rightarrow> grp \<Rightarrow> gio \<Rightarrow> grp \<times> gio" where
  "drop_slot guid g io =
     (case getMemberSlot guid (memberSlots g) of
        None \<Rightarrow> (g, io)
      | Some i \<Rightarrow>
          let g = SubGroupCounterDecrease (msGroup (memberSlots g ! i)) g;
              g = g\<lparr>memberSlots := erase_nth i (memberSlots g)\<rparr>;
              io = (if normal_grp g then geff (Call ''UpdateGlobalPlayerGroup'' [G32 (GUID_LOPART guid), G32 0]) io else io)
          in (g, io))"

definition farewell :: "grpEnv \<Rightarrow> nat \<Rightarrow> u64 \<Rightarrow> removeMethod \<Rightarrow> u64 \<Rightarrow> string option \<Rightarrow> grp \<Rightarrow> gio \<Rightarrow> grp \<times> gio" where
  "farewell E this guid method kicker reason g io =
     (let (g, io) = (if leaderGuid g = guid then pick_leader E this g io else (g, io));
          io = homebind_if_instance E guid io;
          io = (if normal_grp g then geff (Call ''ResetInstances'' [G64 guid, GStr ''INSTANCE_RESET_GROUP_LEAVE'']) io else io);
          io = geff (Hook ''OnGroupRemoveMember''
                 ([G64 (grpGuid g), G64 guid, G8 (methodNum method), G64 kicker] @ (case reason of None \<Rightarrow> [] | Some s \<Rightarrow> [GStr s]))) io
      in SendUpdate E this g io)"

text \<open>The last member of a finder's group that is not in its dungeon any more.\<close>

definition lfg_left :: "grpEnv \<Rightarrow> grp \<Rightarrow> bool" where
  "lfg_left E g =
     (isLFGGroup g \<and> GetMembersCount g = 1 \<and>
      (lfgDungeonMap E (grpGuid g) = 0 \<or> \<not> online E (leaderGuid g) \<or>
       isAlive E (leaderGuid g) \<and> plMapId E (leaderGuid g) \<noteq> lfgDungeonMap E (grpGuid g) \<or>
       lfgState E (grpGuid g) = LFG_STATE_NONE))"

definition RemoveMember :: "grpEnv \<Rightarrow> nat \<Rightarrow> u64 \<Rightarrow> removeMethod \<Rightarrow> u64 \<Rightarrow> string option \<Rightarrow> gw \<Rightarrow> (bool \<times> gw) option" where
  "RemoveMember E this guid method kicker reason w = do {
     w \<leftarrow> on_grp this (\<lambda>g io. (g, BroadcastGroupUpdate E g io)) w;
     g \<leftarrow> groups w this;
     if isLFGGroup g \<and> method = RM_KICK then
       Some (memberSlots g \<noteq> [],
             weff (Call ''InitBoot'' [G64 (grpGuid g), G64 kicker, G64 guid, GStr (case reason of None \<Rightarrow> [] | Some s \<Rightarrow> s)]) w)
     else if GetMembersCount g > (if isBGGroup g \<or> isLFGGroup g \<or> isBFGroup g then 1 else 2) then do {
       w \<leftarrow> (if online E guid then do { w \<leftarrow> detach_player this guid w; on_grp this (leave_notice E method guid) w } else Some w);
       w \<leftarrow> on_grp this (drop_record E guid) w;
       w \<leftarrow> on_grp_opt this (remove_votes E guid 0) w;
       w \<leftarrow> on_grp this (drop_slot guid) w;
       w \<leftarrow> on_grp this (farewell E this guid method kicker reason) w;
       g \<leftarrow> groups w this;
       if lfg_left E g then do { w \<leftarrow> Disband E this False w; Some (False, w) }
       else if length (memberMgr g) < (if isLFGGroup g \<or> isBGGroup g \<or> isBFGroup g then 1 else 2)
         then do { w \<leftarrow> Disband E this False w; Some (False, w) }
       else Some (True, w) }
     else do {
       let w = weff (Hook ''OnGroupRemoveMember''
         ([G64 (grpGuid g), G64 guid, G8 (methodNum method), G64 kicker] @ (case reason of None \<Rightarrow> [] | Some s \<Rightarrow> [GStr s]))) w;
       w \<leftarrow> Disband E this False w;
       Some (False, w) } }"

section \<open>Loading\<close>

record grpRow =
  rowLeader :: u32
  rowLootMethod :: u8
  rowLooter :: u32
  rowThreshold :: u8
  rowIcons :: "u32 list"
  rowType :: u8
  rowDifficulty :: u8
  rowRaidDifficulty :: u8
  rowMasterLooter :: u32
  rowGuid :: u32

definition player_guid :: "u32 \<Rightarrow> u64" where
  "player_guid low = MAKE_NEW_GUID low 0 HIGHGUID_PLAYER"

text \<open>\<^verbatim>\<open>GetPlayerNameByGUID\<close> is given the low part of the leader's guid.\<close>

definition LoadGroupFromDB :: "grpEnv \<Rightarrow> grpRow \<Rightarrow> grp \<Rightarrow> gio \<Rightarrow> bool \<times> grp \<times> gio" where
  "LoadGroupFromDB E row g io =
     (let g = g\<lparr>grpGuid := MAKE_NEW_GUID (rowGuid row) 0 HIGHGUID_GROUP, leaderGuid := player_guid (rowLeader row)\<rparr>
      in case nameOfGuid E (ucast (rowLeader row)) of
           None \<Rightarrow> (False, g, geff (Stmt ''CHAR_DEL_LFG_DATA'' [G32 (rowGuid row)])
             (geff (Stmt ''CHAR_DEL_GROUP_MEMBER_ALL'' [G32 (rowGuid row)]) (geff (Stmt ''CHAR_DEL_GROUP'' [G32 (rowGuid row)]) io)))
         | Some name \<Rightarrow>
             let g = g\<lparr>leaderName := name, lootMethod := rowLootMethod row, looterGuid := player_guid (rowLooter row),
                       lootThreshold := rowThreshold row,
                       targetIcons := map (\<lambda>i. ucast (rowIcons row ! i)) [0..<TARGETICONCOUNT], groupType := rowType row\<rparr>;
                 g = (if groupType g AND GROUPTYPE_RAID \<noteq> 0 then initRaidSubGroupsCounter g else g);
                 g = g\<lparr>dungeonDifficulty := if rowDifficulty row \<ge> MAX_DUNGEON_DIFFICULTY then 0 else rowDifficulty row,
                       raidDifficulty := if rowRaidDifficulty row \<ge> MAX_RAID_DIFFICULTY then 0 else rowRaidDifficulty row,
                       masterLooterGuid := player_guid (rowMasterLooter row)\<rparr>;
                 io = (if groupType g AND GROUPTYPE_LFG \<noteq> 0 then geff (Call ''LFGMgr_LoadFromDB'' [G64 (grpGuid g)]) io else io)
             in (True, g, io))"

definition LoadMemberFromDB :: "grpEnv \<Rightarrow> u32 \<Rightarrow> u8 \<Rightarrow> u8 \<Rightarrow> u8 \<Rightarrow> grp \<Rightarrow> gio \<Rightarrow> grp \<times> gio" where
  "LoadMemberFromDB E guidLow memberFlags subgroup roles g io =
     (let guid = player_guid guidLow
      in case nameOfGuid E guid of
           None \<Rightarrow> (g, geff (Stmt ''CHAR_DEL_GROUP_MEMBER'' [G32 guidLow, G32 (GetLowGUID g)]) io)
         | Some name \<Rightarrow>
             let g = g\<lparr>memberSlots := memberSlots g @
                   [\<lparr>msGuid = guid, msName = name, msGroup = subgroup, msFlags = memberFlags, msRoles = roles\<rparr>]\<rparr>;
                 io = (if normal_grp g then geff (Call ''UpdateGlobalPlayerGroup'' [G32 guidLow, G32 (GetLowGUID g)]) io else io);
                 g = SubGroupCounterIncrease subgroup g
             in (g, geff (Call ''SetupGroupMember'' [G64 guid, G64 (grpGuid g)]) io))"

text \<open>
  \<^verbatim>\<open>GroupMgr::LoadGroups\<close>: each row makes a group at a new address, with the byte of lfg
  flags that is there; then the members join the groups that are known.
\<close>

definition load_group :: "grpEnv \<Rightarrow> nat \<times> u8 \<times> grpRow \<Rightarrow> gw \<Rightarrow> gw option" where
  "load_group E = (\<lambda>(t, lfg, row) w.
     case LoadGroupFromDB E row (Group_new lfg) (geff (Hook ''OnConstructGroup'' []) (gwIo w)) of
       (False, g, io) \<Rightarrow> Some (weff (Hook ''OnDestructGroup'' [G64 (grpGuid g)]) (w\<lparr>gwIo := io\<rparr>))
     | (True, g, io) \<Rightarrow> do {
         w \<leftarrow> AddGroup t (w\<lparr>groups := (groups w)(t \<mapsto> g), gwIo := io\<rparr>);
         RegisterGroupId (GetLowGUID g) w })"

fun load_groups :: "grpEnv \<Rightarrow> (nat \<times> u8 \<times> grpRow) list \<Rightarrow> gw \<Rightarrow> gw option" where
  "load_groups E [] w = Some w"
| "load_groups E (r # rs) w = do { w \<leftarrow> load_group E r w; load_groups E rs w }"

fun load_members :: "grpEnv \<Rightarrow> (u32 \<times> u32 \<times> u8 \<times> u8 \<times> u8) list \<Rightarrow> gw \<Rightarrow> gw option" where
  "load_members E [] w = Some w"
| "load_members E ((guid, low, flags, subgroup, roles) # rs) w =
     (case GetGroupByGUID guid w of
        None \<Rightarrow> load_members E rs w
      | Some t \<Rightarrow> do { w \<leftarrow> on_grp t (LoadMemberFromDB E low flags subgroup roles) w; load_members E rs w })"

definition LoadGroups :: "grpEnv \<Rightarrow> u32 option \<Rightarrow> (nat \<times> u8 \<times> grpRow) list \<Rightarrow> (u32 \<times> u32 \<times> u8 \<times> u8 \<times> u8) list \<Rightarrow> gw \<Rightarrow> gw option" where
  "LoadGroups E maxId rows members w = do { w \<leftarrow> load_groups E rows (InitGroupIds maxId w); load_members E members w }"

end
