(* ===== verification/GroupShape.thy ===== *)
theory GroupShape
  imports GroupMembers GroupRollProps
begin

text \<open>
  What holds inside one group: its members are distinct, the counters of a raid's sub-groups
  are right and at most five, a target has one icon, and there is one main tank and one main
  assistant. Each operation on a group is shown to keep it.
\<close>

section \<open>Packets\<close>

definition refs_of :: "gio \<Rightarrow> (gref \<Rightarrow> nat option) \<times> (gref \<Rightarrow> u8)" where
  "refs_of io = (refTo io, refSub io)"

text \<open>What the packets and the database leave alone.\<close>

lemma geff_refs [simp]:
  "refTo (geff e io) = refTo io" "refSub (geff e io) = refSub io" "invitedTo (geff e io) = invitedTo io"
  "leaderFlag (geff e io) = leaderFlag io" "loots (geff e io) = loots io"
  "plDungeonDifficulty (geff e io) = plDungeonDifficulty io" "plRaidDifficulty (geff e io) = plRaidDifficulty io"
  by (simp_all add: geff_def)

lemma refs_geff [simp]: "refs_of (geff e io) = refs_of io"
  by (simp add: refs_of_def)

lemma refs_of_upd [simp]:
  "refs_of (io\<lparr>invitedTo := a\<rparr>) = refs_of io" "refs_of (io\<lparr>leaderFlag := b\<rparr>) = refs_of io"
  "refs_of (io\<lparr>plDungeonDifficulty := c\<rparr>) = refs_of io" "refs_of (io\<lparr>plRaidDifficulty := c\<rparr>) = refs_of io"
  "refs_of (io\<lparr>loots := l\<rparr>) = refs_of io"
  by (simp_all add: refs_of_def)

lemma refs_fold: "(\<And>x io. refs_of (f x io) = refs_of io) \<Longrightarrow> refs_of (fold f xs io) = refs_of io"
  by (induction xs arbitrary: io) auto

lemma refs_senders [simp]:
  "refs_of (BroadcastPacket t opcode fs b s i g io) = refs_of io" "refs_of (UpdatePlayerOutOfRange E p g io) = refs_of io"
  "refs_of (BroadcastGroupUpdate E g io) = refs_of io" "refs_of (cancel_homebind E p io) = refs_of io"
  "refs_of (homebind_if_instance E p io) = refs_of io"
  by (simp_all add: BroadcastPacket_def UpdatePlayerOutOfRange_def BroadcastGroupUpdate_def refs_fold cancel_homebind_def
      homebind_if_instance_def)

text \<open>An update only counts the packets and sends them.\<close>

definition only_out :: "gio \<Rightarrow> gio \<Rightarrow> bool" where
  "only_out io io' \<longleftrightarrow> (\<exists>xs. io' = io\<lparr>gout := gout io @ xs\<rparr>)"

lemma only_out_refl [simp]: "only_out io io"
  unfolding only_out_def by (rule exI [of _ "[]"]) simp

lemma only_out_step: "only_out io io' \<Longrightarrow> only_out io (geff e io')"
  by (auto simp: only_out_def geff_def)

lemma only_out_fold: "only_out io io' \<Longrightarrow> (\<And>x io'. only_out io io' \<Longrightarrow> only_out io (f x io')) \<Longrightarrow> only_out io (fold f xs io')"
  by (induction xs arbitrary: io') auto

lemma counter_same: "\<exists>c. g = g\<lparr>grpCounter := c\<rparr>"
  by (rule exI [of _ "grpCounter g"]) simp

lemma SendUpdate_only:
  "\<exists>c. fst (SendUpdate E t g io) = g\<lparr>grpCounter := c\<rparr> \<and> only_out io (snd (SendUpdate E t g io))"
proof -
  have one: "\<exists>c. fst (SendUpdateToPlayer E t p s g io) = g\<lparr>grpCounter := c\<rparr> \<and> only_out io (snd (SendUpdateToPlayer E t p s g io))"
    for p s g io
  proof -
    have "SendUpdateToPlayer E t p s g io = (g, io) \<or>
        (\<exists>e. SendUpdateToPlayer E t p s g io = (g\<lparr>grpCounter := grpCounter g + 1\<rparr>, geff e io))"
      unfolding SendUpdateToPlayer_def by (simp only: split: if_split option.split) blast
    then show ?thesis
    proof (elim disjE exE)
      assume "SendUpdateToPlayer E t p s g io = (g, io)"
      then show ?thesis using counter_same [of g] by simp
    next
      fix e assume "SendUpdateToPlayer E t p s g io = (g\<lparr>grpCounter := grpCounter g + 1\<rparr>, geff e io)"
      then show ?thesis by (intro exI [of _ "grpCounter g + 1"]) (simp add: only_out_step)
    qed
  qed
  have "\<exists>c. fst (fold (\<lambda>s (g, io). SendUpdateToPlayer E t (msGuid s) (Some s) g io) xs (g\<lparr>grpCounter := c0\<rparr>, io')) = g\<lparr>grpCounter := c\<rparr> \<and>
      only_out io (snd (fold (\<lambda>s (g, io). SendUpdateToPlayer E t (msGuid s) (Some s) g io) xs (g\<lparr>grpCounter := c0\<rparr>, io')))"
    if "only_out io io'" for xs c0 io'
    using that
  proof (induction xs arbitrary: c0 io')
    case (Cons s xs)
    from one [of "msGuid s" "Some s" "g\<lparr>grpCounter := c0\<rparr>" io'] obtain c1 where
      c: "fst (SendUpdateToPlayer E t (msGuid s) (Some s) (g\<lparr>grpCounter := c0\<rparr>) io') = g\<lparr>grpCounter := c1\<rparr>"
      "only_out io' (snd (SendUpdateToPlayer E t (msGuid s) (Some s) (g\<lparr>grpCounter := c0\<rparr>) io'))" by auto
    then have "only_out io (snd (SendUpdateToPlayer E t (msGuid s) (Some s) (g\<lparr>grpCounter := c0\<rparr>) io'))"
      using Cons.prems by (auto simp: only_out_def)
    from Cons.IH [OF this, of c1] c(1) show ?case
      by (cases "SendUpdateToPlayer E t (msGuid s) (Some s) (g\<lparr>grpCounter := c0\<rparr>) io'") auto
  qed auto
  from this [of io "memberSlots g" "grpCounter g"] show ?thesis by (simp add: SendUpdate_def)
qed

lemma only_out_fields:
  "only_out io io' \<Longrightarrow> refs_of io' = refs_of io \<and> refTo io' = refTo io \<and> refSub io' = refSub io \<and> invitedTo io' = invitedTo io \<and> loots io' = loots io \<and>
    leaderFlag io' = leaderFlag io \<and> plDungeonDifficulty io' = plDungeonDifficulty io \<and> plRaidDifficulty io' = plRaidDifficulty io"
  by (auto simp: only_out_def refs_of_def)

lemma SendUpdate_fields [simp]:
  "memberMgr (fst (SendUpdate E t g io)) = memberMgr g \<and>
   memberSlots (fst (SendUpdate E t g io)) = memberSlots g \<and>
   bgGroup (fst (SendUpdate E t g io)) = bgGroup g \<and>
   bfGroup (fst (SendUpdate E t g io)) = bfGroup g \<and>
   groupType (fst (SendUpdate E t g io)) = groupType g \<and>
   subGroupsCounts (fst (SendUpdate E t g io)) = subGroupsCounts g \<and>
   targetIcons (fst (SendUpdate E t g io)) = targetIcons g \<and>
   RollId (fst (SendUpdate E t g io)) = RollId g \<and>
   leaderGuid (fst (SendUpdate E t g io)) = leaderGuid g \<and>
   grpGuid (fst (SendUpdate E t g io)) = grpGuid g \<and>
   looterGuid (fst (SendUpdate E t g io)) = looterGuid g \<and>
   invitees (fst (SendUpdate E t g io)) = invitees g \<and>
   refs_of (snd (SendUpdate E t g io)) = refs_of io \<and>
   refTo (snd (SendUpdate E t g io)) = refTo io \<and>
   loots (snd (SendUpdate E t g io)) = loots io \<and>
   refSub (snd (SendUpdate E t g io)) = refSub io \<and>
   invitedTo (snd (SendUpdate E t g io)) = invitedTo io"
proof -
  obtain c where c: "fst (SendUpdate E t g io) = g\<lparr>grpCounter := c\<rparr>" "only_out io (snd (SendUpdate E t g io))"
    using SendUpdate_only by blast
  then show ?thesis by (simp add: only_out_fields [OF c(2)])
qed

section \<open>Slots\<close>

lemma getMemberSlot_Some: "getMemberSlot p ss = Some i \<Longrightarrow> i < length ss \<and> msGuid (ss ! i) = p"
  by (induction ss arbitrary: i) (auto split: if_splits)

lemma getMemberSlot_None: "getMemberSlot p ss = None \<longleftrightarrow> p \<notin> msGuid ` set ss"
  by (induction ss) auto

lemma IsMember_iff: "IsMember p g \<longleftrightarrow> p \<in> msGuid ` set (memberSlots g)"
  using getMemberSlot_None [of p "memberSlots g"] by (auto simp: IsMember_def slot_of_def split: option.splits)

section \<open>The invariant of a group\<close>

definition in_sub :: "nat \<Rightarrow> memberSlot list \<Rightarrow> nat" where
  "in_sub i ss = length (filter (\<lambda>s. unat (msGroup s) = i) ss)"

definition subs_right :: "u8 list option \<Rightarrow> bool \<Rightarrow> memberSlot list \<Rightarrow> bool" where
  "subs_right counts raid ss =
     (case counts of
        None \<Rightarrow> \<not> raid \<and> length ss \<le> MAXGROUPSIZE \<and> (\<forall>s\<in>set ss. msGroup s = 0)
      | Some cs \<Rightarrow> length cs = MAX_RAID_SUBGROUPS \<and> (\<forall>s\<in>set ss. unat (msGroup s) < MAX_RAID_SUBGROUPS) \<and>
          (\<forall>i<MAX_RAID_SUBGROUPS. unat (cs ! i) = in_sub i ss \<and> in_sub i ss \<le> MAXGROUPSIZE))"

definition icons_ok :: "u64 list \<Rightarrow> bool" where
  "icons_ok icons \<longleftrightarrow> length icons = TARGETICONCOUNT \<and>
     (\<forall>i<TARGETICONCOUNT. \<forall>j<TARGETICONCOUNT. i \<noteq> j \<longrightarrow> icons ! i \<noteq> 0 \<longrightarrow> icons ! i \<noteq> icons ! j)"

definition flagged :: "u8 \<Rightarrow> memberSlot list \<Rightarrow> u64 list" where
  "flagged flag ss = map msGuid (filter (\<lambda>s. msFlags s AND flag \<noteq> 0) ss)"

definition grp_ok :: "grp \<Rightarrow> bool" where
  "grp_ok g \<longleftrightarrow> distinct (map msGuid (memberSlots g)) \<and>
     subs_right (subGroupsCounts g) (isRaidGroup g) (memberSlots g) \<and> icons_ok (targetIcons g) \<and>
     length (flagged MEMBER_FLAG_MAINTANK (memberSlots g)) \<le> 1 \<and> length (flagged MEMBER_FLAG_MAINASSIST (memberSlots g)) \<le> 1"

lemma MAX_RAID [simp]: "MAX_RAID_SUBGROUPS = 8" "MAXGROUPSIZE = 5" "TARGETICONCOUNT = 8"
  by (simp_all add: MAX_RAID_SUBGROUPS_8 MAXGROUPSIZE_def TARGETICONCOUNT_def)

lemma in_sub_simps [simp]:
  "in_sub i [] = 0" "in_sub i (s # ss) = (if unat (msGroup s) = i then 1 else 0) + in_sub i ss"
  "in_sub i (xs @ ys) = in_sub i xs + in_sub i ys"
  by (simp_all add: in_sub_def)

text \<open>A raid holds at most forty members.\<close>

lemma members_by_sub:
  "\<forall>s\<in>set ss. unat (msGroup s) < n \<Longrightarrow> length ss = (\<Sum>i<n. in_sub i ss)"
proof (induction ss)
  case (Cons s ss)
  have "(\<Sum>i<n. if unat (msGroup s) = i then 1 else 0) = (1 :: nat)" using Cons.prems by simp
  then show ?case using Cons by (simp add: sum.distrib)
qed simp

lemma raid_size:
  assumes "grp_ok g"
  shows "length (memberSlots g) \<le> MAXRAIDSIZE"
proof (cases "subGroupsCounts g")
  case None
  then show ?thesis using assms by (simp add: grp_ok_def subs_right_def MAXRAIDSIZE_def)
next
  case (Some cs)
  then have "length (memberSlots g) = (\<Sum>i<8. in_sub i (memberSlots g))" "\<forall>i<8. in_sub i (memberSlots g) \<le> 5"
    using assms by (auto simp: grp_ok_def subs_right_def intro!: members_by_sub)
  moreover have "(\<Sum>i<8. in_sub i (memberSlots g)) \<le> (\<Sum>i<(8::nat). 5)" by (rule sum_mono) (use calculation(2) in auto)
  ultimately show ?thesis by (simp add: MAXRAIDSIZE_def)
qed

lemma grp_ok_SendUpdate [simp]: "grp_ok (fst (SendUpdate E t g io)) = grp_ok g"
  by (simp add: grp_ok_def isRaidGroup_def)

section \<open>Joining and leaving\<close>

lemma u8_plus: "unat (x :: u8) < 255 \<Longrightarrow> unat (x + 1) = unat x + 1"
  by (simp add: u8_suc)

lemma u8_minus: "0 < unat (x :: u8) \<Longrightarrow> unat (x - 1) = unat x - 1"
  by (metis One_nat_def Suc_leI unat_1 word_le_nat_alt unat_sub)

lemma first_free_Some:
  assumes "first_free_subgroup g = Some i"
  shows "i < 8" "subGroupsCounts g = None \<Longrightarrow> i = 0"
    "subGroupsCounts g = Some cs \<Longrightarrow> unat (cs ! i) < 5" "subGroupsCounts g = Some cs \<Longrightarrow> j < i \<Longrightarrow> 5 \<le> unat (cs ! j)"
  using assms by (auto simp: first_free_subgroup_def find_Some_iff nth_Cons' less_Suc_eq split: option.splits if_splits)

lemma push_ok:
  assumes ok: "grp_ok g" and f: "first_free_subgroup g = Some i" and p: "\<not> IsMember p g" and full: "\<not> IsFull g"
  shows "grp_ok (fst (push_member E p (of_nat i) g io))"
proof -
  let ?s = "\<lparr>msGuid = p, msName = plName E p, msGroup = of_nat i :: u8, msFlags = 0 :: u8, msRoles = 0 :: u8\<rparr>"
  have i8: "i < 8" by (rule first_free_Some(1) [OF f])
  then have ui: "unat (of_nat i :: u8) = i" by (simp add: unat_of_nat)
  have "p \<notin> msGuid ` set (memberSlots g)" using p by (auto simp: IsMember_def slot_of_def getMemberSlot_None split: option.splits)
  moreover have "subs_right (map_option (\<lambda>cs. cs[i := cs ! i + 1]) (subGroupsCounts g)) (isRaidGroup g) (memberSlots g @ [?s])"
  proof (cases "subGroupsCounts g")
    case None
    then have "\<not> isRaidGroup g" "i = 0" using ok first_free_Some(2) [OF f] by (auto simp: grp_ok_def subs_right_def)
    with None ok full show ?thesis by (auto simp: grp_ok_def subs_right_def IsFull_def)
  next
    case (Some cs)
    then have cs: "length cs = 8" "\<forall>s\<in>set (memberSlots g). unat (msGroup s) < 8"
      "\<forall>j<8. unat (cs ! j) = in_sub j (memberSlots g) \<and> in_sub j (memberSlots g) \<le> 5"
      using ok by (auto simp: grp_ok_def subs_right_def)
    have lt: "unat (cs ! i) < 5" by (rule first_free_Some(3) [OF f Some])
    then have "unat (cs ! i + 1) = unat (cs ! i) + 1" by (intro u8_plus) simp
    with cs lt i8 ui Some show ?thesis by (auto simp: subs_right_def nth_list_update)
  qed
  ultimately show ?thesis using ok ui
    by (simp add: grp_ok_def push_member_def Let_def SubGroupCounterIncrease_def flagged_def isRaidGroup_def)
qed

lemma nth_split: "i < length xs \<Longrightarrow> xs = take i xs @ xs ! i # drop (Suc i) xs"
  by (rule id_take_nth_drop)

lemma update_same: "i < length xs \<Longrightarrow> f y = f (xs ! i) \<Longrightarrow> map f (xs[i := y]) = map f xs"
  by (simp add: map_update list_update_same_conv)

lemma flagged_simps [simp]:
  "flagged f [] = []" "flagged f (s # ss) = (if msFlags s AND f \<noteq> 0 then msGuid s # flagged f ss else flagged f ss)"
  "flagged f (xs @ ys) = flagged f xs @ flagged f ys"
  by (simp_all add: flagged_def)

lemma flagged_update:
  assumes "i < length ss" "msFlags s = msFlags (ss ! i)" "msGuid s = msGuid (ss ! i)"
  shows "flagged f (ss[i := s]) = flagged f ss"
proof -
  have "flagged f (ss[i := s]) = flagged f (take i ss @ ss ! i # drop (Suc i) ss)"
    using assms by (simp add: upd_conv_take_nth_drop)
  then show ?thesis using nth_split [OF assms(1)] by simp
qed

lemma in_sub_erase: "i < length ss \<Longrightarrow> in_sub j (erase_nth i ss) + (if unat (msGroup (ss ! i)) = j then 1 else 0) = in_sub j ss"
  using arg_cong [OF nth_split, of i ss "in_sub j"] by (simp add: erase_nth_def)

lemma in_sub_update:
  "i < length ss \<Longrightarrow> in_sub j (ss[i := s]) + (if unat (msGroup (ss ! i)) = j then 1 else 0) =
    in_sub j ss + (if unat (msGroup s) = j then 1 else 0)"
  using arg_cong [OF nth_split, of i ss "in_sub j"] by (simp add: upd_conv_take_nth_drop)

lemma flagged_erase: "length (flagged f (erase_nth i ss)) \<le> length (flagged f ss)"
proof (cases "i < length ss")
  case True
  then show ?thesis using arg_cong [OF nth_split, of i ss "\<lambda>x. length (flagged f x)"] by (simp add: flagged_def erase_nth_def)
qed (simp add: erase_nth_def)

lemma distinct_erase: "distinct (map f xs) \<Longrightarrow> distinct (map f (erase_nth i xs))"
proof (cases "i < length xs")
  case True
  assume "distinct (map f xs)"
  then have "distinct (map f (take i xs @ xs ! i # drop (Suc i) xs))" using nth_split [OF True] by simp
  then show ?thesis by (simp add: erase_nth_def disjoint_iff)
qed (simp add: erase_nth_def)

lemma drop_slot_ok:
  assumes ok: "grp_ok g" shows "grp_ok (fst (drop_slot guid g io))"
proof (cases "getMemberSlot guid (memberSlots g)")
  case None
  then show ?thesis using ok by (simp add: drop_slot_def)
next
  case (Some i)
  let ?ss = "memberSlots g"
  have i: "i < length ?ss" using getMemberSlot_Some [OF Some] by blast
  let ?k = "msGroup (?ss ! i)"
  have "subs_right (map_option (\<lambda>cs. cs[unat ?k := cs ! unat ?k - 1]) (subGroupsCounts g)) (isRaidGroup g) (erase_nth i ?ss)"
  proof (cases "subGroupsCounts g")
    case None
    then show ?thesis using ok set_erase_nth [of i ?ss] by (auto simp: grp_ok_def subs_right_def)
  next
    case c: (Some cs)
    then have cs: "length cs = 8" "\<forall>s\<in>set ?ss. unat (msGroup s) < 8" "\<forall>j<8. unat (cs ! j) = in_sub j ?ss \<and> in_sub j ?ss \<le> 5"
      using ok by (auto simp: grp_ok_def subs_right_def)
    have k: "unat ?k < 8" using cs(2) i by simp
    have "0 < unat (cs ! unat ?k)" using in_sub_erase [OF i, of "unat ?k"] cs(3) k by simp
    then have d: "unat (cs ! unat ?k - 1) = unat (cs ! unat ?k) - 1" by (rule u8_minus)
    have "unat (cs[unat ?k := cs ! unat ?k - 1] ! j) = in_sub j (erase_nth i ?ss) \<and> in_sub j (erase_nth i ?ss) \<le> 5" if "j < 8" for j
    proof (cases "j = unat ?k")
      case True
      have "in_sub j (erase_nth i ?ss) + 1 = unat (cs ! j)" "unat (cs ! j) \<le> 5"
        using in_sub_erase [OF i, of j] cs(3) that True by simp_all
      moreover have "cs[unat ?k := cs ! unat ?k - 1] ! j = cs ! unat ?k - 1" using True cs(1) that by simp
      ultimately show ?thesis using d True by simp
    next
      case False
      then show ?thesis using in_sub_erase [OF i, of j] cs(3) that by simp
    qed
    with c cs(1,2) set_erase_nth [of i ?ss] show ?thesis by (auto simp: subs_right_def)
  qed
  moreover have "length (flagged f (erase_nth i ?ss)) \<le> 1" if "length (flagged f ?ss) \<le> 1" for f
    using flagged_erase [of f i ?ss] that by linarith
  ultimately show ?thesis using ok Some distinct_erase [of msGuid ?ss i]
    by (simp add: drop_slot_def Let_def grp_ok_def SubGroupCounterDecrease_def isRaidGroup_def)
qed

lemma drop_slot_guids:
  assumes "distinct (map msGuid (memberSlots g))"
  shows "msGuid ` set (memberSlots (fst (drop_slot guid g io))) = msGuid ` set (memberSlots g) - {guid}"
proof (cases "getMemberSlot guid (memberSlots g)")
  case None
  then have "guid \<notin> msGuid ` set (memberSlots g)" by (simp add: getMemberSlot_None)
  with None show ?thesis by (simp add: drop_slot_def)
next
  case (Some i)
  let ?ss = "memberSlots g"
  have i: "i < length ?ss" "msGuid (?ss ! i) = guid" using getMemberSlot_Some [OF Some] by blast+
  have s: "map msGuid ?ss = map msGuid (take i ?ss) @ guid # map msGuid (drop (Suc i) ?ss)"
    using arg_cong [OF nth_split [OF i(1)], of "map msGuid"] i(2) by simp
  with assms have "guid \<notin> msGuid ` set (erase_nth i ?ss)" by (simp add: erase_nth_def image_Un)
  moreover have "msGuid ` set ?ss = insert guid (msGuid ` set (erase_nth i ?ss))"
    using arg_cong [OF s, of set] by (simp add: erase_nth_def image_Un)
  ultimately show ?thesis using Some by (simp add: drop_slot_def Let_def SubGroupCounterDecrease_def)
qed

section \<open>Sub-groups\<close>

lemma change_group_ok:
  assumes ok: "grp_ok g" and s: "unat subgroup < 8" and free: "HasFreeSlotSubGroup subgroup g = Some True"
  shows "grp_ok (fst (ChangeMembersGroup E t guid subgroup g io))"
proof (cases "\<not> isRaidGroup g \<or> getMemberSlot guid (memberSlots g) = None \<or> GetMemberGroup guid g = subgroup")
  case True
  then show ?thesis using ok by (auto simp: ChangeMembersGroup_def split: option.splits)
next
  case False
  then obtain i where gi: "getMemberSlot guid (memberSlots g) = Some i" and r: "isRaidGroup g" by auto
  let ?ss = "memberSlots g"
  let ?s = "(?ss ! i)\<lparr>msGroup := subgroup\<rparr>"
  have i: "i < length ?ss" using getMemberSlot_Some [OF gi] by blast
  have prev: "GetMemberGroup guid g = msGroup (?ss ! i)" using gi by (simp add: GetMemberGroup_def slot_of_def)
  let ?k = "msGroup (?ss ! i)"
  have nk: "?k \<noteq> subgroup" using False prev by simp
  from ok r obtain cs where c: "subGroupsCounts g = Some cs" by (auto simp: grp_ok_def subs_right_def split: option.splits)
  then have cs: "length cs = 8" "\<forall>s\<in>set ?ss. unat (msGroup s) < 8" "\<forall>j<8. unat (cs ! j) = in_sub j ?ss \<and> in_sub j ?ss \<le> 5"
    using ok by (auto simp: grp_ok_def subs_right_def)
  have lt: "unat (cs ! unat subgroup) < 5" using free c cs(1) s by (auto simp: HasFreeSlotSubGroup_def)
  have k: "unat ?k < 8" using cs(2) i by simp
  have ne: "unat subgroup \<noteq> unat ?k" using nk by (simp add: word_unat_eq_iff)
  let ?cs = "cs[unat subgroup := cs ! unat subgroup + 1, unat ?k := cs[unat subgroup := cs ! unat subgroup + 1] ! unat ?k - 1]"
  have "0 < in_sub (unat ?k) ?ss" using in_sub_erase [OF i, of "unat ?k"] by simp
  then have d: "unat (cs ! unat ?k - 1) = unat (cs ! unat ?k) - 1" using cs(3) k by (intro u8_minus) simp
  have u: "unat (cs ! unat subgroup + 1) = unat (cs ! unat subgroup) + 1" using lt by (intro u8_plus) simp
  have "unat (?cs ! j) = in_sub j (?ss[i := ?s]) \<and> in_sub j (?ss[i := ?s]) \<le> 5" if j: "j < 8" for j
  proof -
    have e: "in_sub j (?ss[i := ?s]) + (if unat ?k = j then 1 else 0) = in_sub j ?ss + (if unat subgroup = j then 1 else 0)"
      using in_sub_update [OF i, of j ?s] by simp
    have b: "unat (cs ! j) = in_sub j ?ss" "in_sub j ?ss \<le> 5" using cs(3) j by auto
    show ?thesis using e b d u lt ne k s cs(1) j by (auto simp: nth_list_update split: if_splits)
  qed
  moreover have "\<forall>x\<in>set (?ss[i := ?s]). unat (msGroup x) < 8" using cs(2) s by (auto dest!: set_update_subset_insert [THEN subsetD])
  moreover have "map msGuid (?ss[i := ?s]) = map msGuid ?ss" using i by (intro update_same) simp_all
  moreover have "flagged f (?ss[i := ?s]) = flagged f ?ss" for f using i by (intro flagged_update) simp_all
  ultimately have "grp_ok (g\<lparr>memberSlots := ?ss[i := ?s], subGroupsCounts := Some ?cs\<rparr>)"
    using ok cs(1) by (simp add: grp_ok_def subs_right_def isRaidGroup_def)
  then show ?thesis using gi r nk prev c
    by (simp add: ChangeMembersGroup_def Let_def SubGroupCounterIncrease_def SubGroupCounterDecrease_def)
qed

lemma init_counts:
  fixes cs :: "u8 list"
  assumes "length cs = 8" "\<forall>s\<in>set ss. unat (msGroup s) < 8"
  shows "length (fold (\<lambda>m cs. cs[unat (msGroup m) := cs ! unat (msGroup m) + 1]) ss cs) = 8 \<and>
    (\<forall>i<8. fold (\<lambda>m cs. cs[unat (msGroup m) := cs ! unat (msGroup m) + 1]) ss cs ! i = cs ! i + of_nat (in_sub i ss))"
  using assms
proof (induction ss arbitrary: cs)
  case (Cons s ss)
  let ?cs = "cs[unat (msGroup s) := cs ! unat (msGroup s) + 1]"
  from Cons.IH [of ?cs] Cons.prems show ?case by (auto simp: nth_list_update)
qed simp

lemma init_raid_ok:
  assumes ok: "grp_ok g" and sub: "\<forall>i<8. in_sub i (memberSlots g) \<le> 5" "\<forall>s\<in>set (memberSlots g). unat (msGroup s) < 8"
  shows "grp_ok (initRaidSubGroupsCounter (g\<lparr>groupType := ty\<rparr>))"
proof -
  let ?cs = "fold (\<lambda>m cs. cs[unat (msGroup m) := cs ! unat (msGroup m) + 1]) (memberSlots g) (replicate 8 (0 :: u8))"
  have c: "length ?cs = 8" "\<forall>i<8. ?cs ! i = of_nat (in_sub i (memberSlots g))"
    using init_counts [of "replicate 8 0" "memberSlots g"] sub(2) by auto
  have "unat (?cs ! i) = in_sub i (memberSlots g)" if "i < 8" for i
  proof -
    have "in_sub i (memberSlots g) \<le> 5" using sub(1) that by blast
    then show ?thesis using c(2) that by (simp add: unat_of_nat)
  qed
  with c(1) sub ok show ?thesis by (simp add: grp_ok_def initRaidSubGroupsCounter_def subs_right_def isRaidGroup_def)
qed

lemma grp_ok_subs:
  assumes "grp_ok g"
  shows "\<forall>i<8. in_sub i (memberSlots g) \<le> 5" "\<forall>s\<in>set (memberSlots g). unat (msGroup s) < 8"
proof -
  have l: "in_sub i (memberSlots g) \<le> length (memberSlots g)" for i by (simp add: in_sub_def)
  show "\<forall>i<8. in_sub i (memberSlots g) \<le> 5" "\<forall>s\<in>set (memberSlots g). unat (msGroup s) < 8"
    using assms le_trans [OF l] by (auto simp: grp_ok_def subs_right_def split: option.splits)
qed

lemma convert_raid_ok: "grp_ok g \<Longrightarrow> grp_ok (fst (ConvertToRaid E t g io))"
  using init_raid_ok [OF _ grp_ok_subs, of g "groupType g OR GROUPTYPE_RAID"]
  by (simp add: ConvertToRaid_def Let_def case_prod_unfold)

lemma lfg_raid: "(x OR GROUPTYPE_LFG OR GROUPTYPE_LFG_RESTRICTED) AND GROUPTYPE_RAID = x AND GROUPTYPE_RAID"
  by (simp add: group_types bit.conj_disj_distrib2)

lemma convert_lfg_ok: "grp_ok g \<Longrightarrow> grp_ok (fst (ConvertToLFG E t g io))"
  by (simp add: ConvertToLFG_def Let_def grp_ok_def isRaidGroup_def lfg_raid)

section \<open>Target icons\<close>

lemma put_icon_fields:
  "fst (put_icon t i w x g io) = g\<lparr>targetIcons := (targetIcons g)[unat i := x]\<rparr>"
  by (simp add: put_icon_def)

lemma atLeastLessThan_8: "set [0..<8] \<subseteq> {..<8}"
  by auto

lemma clear_icons:
  assumes "length (targetIcons g) = 8" "x \<noteq> 0" "set is \<subseteq> {..<8}"
  shows "\<exists>icons. fst (fold (\<lambda>i (g, io). if targetIcons g ! i = x then put_icon t (of_nat i) 0 0 g io else (g, io)) is (g, io)) =
      g\<lparr>targetIcons := icons\<rparr> \<and> length icons = 8 \<and>
      (\<forall>j<8. icons ! j = (if j \<in> set is \<and> targetIcons g ! j = x then 0 else targetIcons g ! j))"
  using assms
proof (induction "is" arbitrary: g io)
  case Nil
  then show ?case by (intro exI [of _ "targetIcons g"]) simp
next
  case (Cons i js)
  let ?s = "if targetIcons g ! i = x then put_icon t (of_nat i) 0 0 g io else (g, io)"
  let ?icons = "if targetIcons g ! i = x then (targetIcons g)[i := 0] else targetIcons g"
  have "unat (of_nat i :: u8) = i" using Cons.prems(3) by (simp add: unat_of_nat)
  then have s: "fst ?s = g\<lparr>targetIcons := ?icons\<rparr>" by (simp add: put_icon_fields)
  have "length (targetIcons (fst ?s)) = 8" unfolding s using Cons.prems(1) by simp
  from Cons.IH [OF this Cons.prems(2), of "snd ?s"] Cons.prems(3) obtain icons where
    r: "fst (fold (\<lambda>i (g, io). if targetIcons g ! i = x then put_icon t (of_nat i) 0 0 g io else (g, io)) js (fst ?s, snd ?s)) =
        (fst ?s)\<lparr>targetIcons := icons\<rparr>" "length icons = 8"
      "\<forall>j<8. icons ! j = (if j \<in> set js \<and> ?icons ! j = x then 0 else ?icons ! j)" unfolding s by auto
  have "fold (\<lambda>i (g, io). if targetIcons g ! i = x then put_icon t (of_nat i) 0 0 g io else (g, io)) (i # js) (g, io) =
      fold (\<lambda>i (g, io). if targetIcons g ! i = x then put_icon t (of_nat i) 0 0 g io else (g, io)) js (fst ?s, snd ?s)" by simp
  moreover have "(if j \<in> set js \<and> ?icons ! j = x then 0 else ?icons ! j) =
      (if j \<in> set (i # js) \<and> targetIcons g ! j = x then 0 else targetIcons g ! j)" if "j < 8" for j
    using that Cons.prems by (auto simp: nth_list_update)
  ultimately show ?case using r unfolding s by (intro exI [of _ icons]) simp
qed

text \<open>The icon goes to its target, is taken off every other, and nothing else changes.\<close>

lemma SetTargetIcon_icons:
  assumes "length (targetIcons g) = 8" "unat k < 8"
  shows "\<exists>icons. fst (SetTargetIcon t k who x g io) = g\<lparr>targetIcons := icons\<rparr> \<and> length icons = 8 \<and>
    (\<forall>j<8. icons ! j = (if j = unat k then x else if x \<noteq> 0 \<and> targetIcons g ! j = x then 0 else targetIcons g ! j))"
proof (cases "x = 0")
  case True
  then show ?thesis using assms
    by (intro exI [of _ "(targetIcons g)[unat k := 0]"]) (simp add: SetTargetIcon_def put_icon_fields nth_list_update)
next
  case False
  let ?s = "fold (\<lambda>i (g, io). if targetIcons g ! i = x then put_icon t (of_nat i) 0 0 g io else (g, io)) [0..<8] (g, io)"
  obtain icons where i: "fst ?s = g\<lparr>targetIcons := icons\<rparr>" "length icons = 8"
      "\<forall>j<8. icons ! j = (if targetIcons g ! j = x then 0 else targetIcons g ! j)"
    using clear_icons [OF assms(1) False atLeastLessThan_8, of t io] by auto
  have "fst (SetTargetIcon t k who x g io) = (fst ?s)\<lparr>targetIcons := (targetIcons (fst ?s))[unat k := x]\<rparr>"
    using assms False by (simp add: SetTargetIcon_def Let_def case_prod_unfold put_icon_fields del: upt_conv_Cons_Cons)
  with i False show ?thesis by (intro exI [of _ "icons[unat k := x]"]) (simp add: nth_list_update)
qed

lemma icons_unique:
  assumes "icons_ok icons" "length icons' = 8"
    "\<forall>j<8. icons' ! j = (if j = k then x else if x \<noteq> 0 \<and> icons ! j = x then 0 else icons ! j)"
  shows "icons_ok icons'"
  using assms by (auto simp: icons_ok_def)

lemma set_icon_ok: "grp_ok g \<Longrightarrow> grp_ok (fst (SetTargetIcon t k who x g io))"
proof (cases "unat k < 8")
  case True
  assume ok: "grp_ok g"
  then have "length (targetIcons g) = 8" by (simp add: grp_ok_def icons_ok_def)
  from SetTargetIcon_icons [OF this True] obtain icons where i: "fst (SetTargetIcon t k who x g io) = g\<lparr>targetIcons := icons\<rparr>"
    "length icons = 8" "\<forall>j<8. icons ! j = (if j = unat k then x else if x \<noteq> 0 \<and> targetIcons g ! j = x then 0 else targetIcons g ! j)"
    by blast
  from icons_unique [OF _ i(2,3)] i(1) ok show ?thesis by (simp add: grp_ok_def isRaidGroup_def)
next
  case False
  assume "grp_ok g"
  with False show ?thesis by (simp add: SetTargetIcon_def)
qed

section \<open>Member flags\<close>

definition member_flag :: "u8 \<Rightarrow> bool" where
  "member_flag f \<longleftrightarrow> f = MEMBER_FLAG_ASSISTANT \<or> f = MEMBER_FLAG_MAINTANK \<or> f = MEMBER_FLAG_MAINASSIST"

lemma member_flag_bits:
  assumes "member_flag f" "member_flag f'" "f \<noteq> f'"
  shows "(x AND NOT f) AND f' = x AND f'" "(x OR f) AND f' = x AND f'"
  using assms by (auto simp: member_flag_def group_member_flags and.assoc bit.conj_disj_distrib2)

lemma member_flag_same: "member_flag f \<Longrightarrow> (x OR f) AND f \<noteq> 0" "(x AND NOT f) AND f = 0"
  by (auto simp: member_flag_def group_member_flags and.assoc bit.conj_disj_distrib2)

lemma Toggle_fields:
  "ToggleGroupMemberFlag i f b g = g\<lparr>memberSlots := (memberSlots g)[i := (memberSlots g ! i)\<lparr>msFlags :=
     if b then msFlags (memberSlots g ! i) OR f else msFlags (memberSlots g ! i) AND NOT f\<rparr>]\<rparr>"
  by (simp add: ToggleGroupMemberFlag_def Let_def)

lemma flagged_other:
  assumes "member_flag f" "member_flag f'" "f \<noteq> f'"
  shows "flagged f' (memberSlots (RemoveUniqueGroupMemberFlag f g)) = flagged f' (memberSlots g)"
    "i < length (memberSlots g) \<Longrightarrow> flagged f' (memberSlots (ToggleGroupMemberFlag i f b g)) = flagged f' (memberSlots g)"
proof -
  have "flagged f' (map (\<lambda>s. if msFlags s AND f \<noteq> 0 then s\<lparr>msFlags := msFlags s AND NOT f\<rparr> else s) ss) = flagged f' ss" for ss
    by (induction ss) (simp_all add: member_flag_bits [OF assms])
  then show "flagged f' (memberSlots (RemoveUniqueGroupMemberFlag f g)) = flagged f' (memberSlots g)"
    by (simp add: RemoveUniqueGroupMemberFlag_def)
next
  assume i: "i < length (memberSlots g)"
  let ?ss = "memberSlots g"
  let ?s = "(?ss ! i)\<lparr>msFlags := if b then msFlags (?ss ! i) OR f else msFlags (?ss ! i) AND NOT f\<rparr>"
  have "flagged f' (?ss[i := ?s]) = flagged f' (take i ?ss @ ?ss ! i # drop (Suc i) ?ss)"
    using i by (simp add: upd_conv_take_nth_drop member_flag_bits [OF assms])
  then show "flagged f' (memberSlots (ToggleGroupMemberFlag i f b g)) = flagged f' (memberSlots g)"
    using nth_split [OF i] by (simp add: Toggle_fields)
qed

lemma flagged_removed: "member_flag f \<Longrightarrow> flagged f (memberSlots (RemoveUniqueGroupMemberFlag f g)) = []"
proof -
  assume f: "member_flag f"
  have "flagged f (map (\<lambda>s. if msFlags s AND f \<noteq> 0 then s\<lparr>msFlags := msFlags s AND NOT f\<rparr> else s) ss) = []" for ss
    by (induction ss) (simp_all add: member_flag_same(2))
  then show ?thesis by (simp add: RemoveUniqueGroupMemberFlag_def)
qed

lemma flagged_toggled:
  assumes "member_flag f" "flagged f (memberSlots g) = []" "i < length (memberSlots g)"
  shows "flagged f (memberSlots (ToggleGroupMemberFlag i f b g)) = (if b then [msGuid (memberSlots g ! i)] else [])"
proof -
  let ?ss = "memberSlots g"
  have "flagged f (take i ?ss @ ?ss ! i # drop (Suc i) ?ss) = []" using assms(2) nth_split [OF assms(3)] by simp
  moreover have "f \<noteq> 0" using assms(1) by (auto simp: member_flag_def group_member_flags)
  ultimately show ?thesis using assms(3)
    by (auto simp: Toggle_fields upd_conv_take_nth_drop member_flag_same(1) [OF assms(1)] member_flag_same(2) split: if_splits)
qed

lemma remove_flag_guids [simp]: "map msGuid (memberSlots (RemoveUniqueGroupMemberFlag f g)) = map msGuid (memberSlots g)"
  by (simp add: RemoveUniqueGroupMemberFlag_def)

lemma in_sub_map: "(\<And>s. msGroup (f s) = msGroup s) \<Longrightarrow> in_sub i (map f ss) = in_sub i ss"
  by (induction ss) auto

text \<open>A step that keeps guids and sub-groups of the slots keeps the counters right.\<close>

definition slot_ids :: "memberSlot list \<Rightarrow> (u64 \<times> u8) list" where
  "slot_ids ss = map (\<lambda>s. (msGuid s, msGroup s)) ss"

lemma subs_right_ids: "slot_ids ss' = slot_ids ss \<Longrightarrow> subs_right c r ss' = subs_right c r ss"
proof -
  assume e: "slot_ids ss' = slot_ids ss"
  have g: "map msGroup ss' = map msGroup ss" using arg_cong [OF e, of "map snd"] by (simp add: slot_ids_def comp_def)
  have "in_sub i ss' = in_sub i ss" for i
    using arg_cong [OF g, of "\<lambda>ks. length (filter (\<lambda>k. unat k = i) ks)"] by (simp add: in_sub_def filter_map comp_def)
  moreover have "msGroup ` set ss' = msGroup ` set ss" using arg_cong [OF g, of set] by simp
  then have "(\<forall>s\<in>set ss'. P (msGroup s)) \<longleftrightarrow> (\<forall>s\<in>set ss. P (msGroup s))" for P
    using ball_simps(9) [of msGroup "set ss'" P] ball_simps(9) [of msGroup "set ss" P] by simp
  from this [of "\<lambda>k. k = 0"] this [of "\<lambda>k. unat k < 8"]
  have "(\<forall>s\<in>set ss'. msGroup s = 0) \<longleftrightarrow> (\<forall>s\<in>set ss. msGroup s = 0)"
    "(\<forall>s\<in>set ss'. unat (msGroup s) < 8) \<longleftrightarrow> (\<forall>s\<in>set ss. unat (msGroup s) < 8)" .
  moreover have "length ss' = length ss" using arg_cong [OF g, of length] by simp
  ultimately show ?thesis by (cases c) (simp_all add: subs_right_def)
qed

lemma guids_ids: "slot_ids ss' = slot_ids ss \<Longrightarrow> map msGuid ss' = map msGuid ss"
proof -
  assume "slot_ids ss' = slot_ids ss"
  from arg_cong [OF this, of "map fst"] show ?thesis by (simp add: slot_ids_def comp_def)
qed

lemma ids_update: "i < length ss \<Longrightarrow> msGuid s = msGuid (ss ! i) \<Longrightarrow> msGroup s = msGroup (ss ! i) \<Longrightarrow> slot_ids (ss[i := s]) = slot_ids ss"
  unfolding slot_ids_def by (intro update_same) simp_all

lemma ids_flag: "slot_ids (memberSlots (RemoveUniqueGroupMemberFlag f g)) = slot_ids (memberSlots g)"
  "i < length (memberSlots g) \<Longrightarrow> slot_ids (memberSlots (ToggleGroupMemberFlag i f b g)) = slot_ids (memberSlots g)"
  by (simp_all add: RemoveUniqueGroupMemberFlag_def slot_ids_def Toggle_fields update_same)

lemma grp_ok_ids:
  assumes "grp_ok g" "slot_ids (memberSlots g') = slot_ids (memberSlots g)" "subGroupsCounts g' = subGroupsCounts g"
    "isRaidGroup g' = isRaidGroup g" "icons_ok (targetIcons g')"
    "length (flagged MEMBER_FLAG_MAINTANK (memberSlots g')) \<le> 1" "length (flagged MEMBER_FLAG_MAINASSIST (memberSlots g')) \<le> 1"
  shows "grp_ok g'"
  using assms guids_ids [OF assms(2)] subs_right_ids [OF assms(2)] by (simp add: grp_ok_def)

lemma flag_fields [simp]:
  "subGroupsCounts (RemoveUniqueGroupMemberFlag f g) = subGroupsCounts g" "isRaidGroup (RemoveUniqueGroupMemberFlag f g) = isRaidGroup g"
  "targetIcons (RemoveUniqueGroupMemberFlag f g) = targetIcons g"
  "subGroupsCounts (ToggleGroupMemberFlag i f b g) = subGroupsCounts g" "isRaidGroup (ToggleGroupMemberFlag i f b g) = isRaidGroup g"
  "targetIcons (ToggleGroupMemberFlag i f b g) = targetIcons g"
  "groupType (RemoveUniqueGroupMemberFlag f g) = groupType g" "groupType (ToggleGroupMemberFlag i f b g) = groupType g"
  "length (memberSlots (RemoveUniqueGroupMemberFlag f g)) = length (memberSlots g)"
  by (simp_all add: RemoveUniqueGroupMemberFlag_def ToggleGroupMemberFlag_def isRaidGroup_def)

text \<open>Setting a unique flag leaves it with the one member, or nobody, and the other flags alone.\<close>

lemma SetGroupMemberFlag_flags:
  fixes E :: grpEnv and t :: nat and b :: bool and io :: gio
  assumes "isRaidGroup g" "getMemberSlot guid (memberSlots g) = Some i" "member_flag f"
  defines "g' \<equiv> fst (SetGroupMemberFlag E t guid b f g io)"
  shows "slot_ids (memberSlots g') = slot_ids (memberSlots g)"
    "f \<noteq> MEMBER_FLAG_ASSISTANT \<Longrightarrow> flagged f (memberSlots g') = (if b then [guid] else [])"
    "member_flag f' \<Longrightarrow> f' \<noteq> f \<Longrightarrow> flagged f' (memberSlots g') = flagged f' (memberSlots g)"
    "subGroupsCounts g' = subGroupsCounts g" "isRaidGroup g' = isRaidGroup g" "targetIcons g' = targetIcons g"
proof -
  let ?h = "if f = MEMBER_FLAG_MAINASSIST \<or> f = MEMBER_FLAG_MAINTANK then RemoveUniqueGroupMemberFlag f g else g"
  have m: "f \<in> {MEMBER_FLAG_MAINASSIST, MEMBER_FLAG_MAINTANK, MEMBER_FLAG_ASSISTANT}" using assms(3) by (auto simp: member_flag_def)
  have i: "i < length (memberSlots g)" "msGuid (memberSlots g ! i) = guid" using getMemberSlot_Some [OF assms(2)] by blast+
  then have ih: "i < length (memberSlots ?h)" "msGuid (memberSlots ?h ! i) = guid"
    by (simp_all add: RemoveUniqueGroupMemberFlag_def)
  have g': "g' = fst (SendUpdate E t (ToggleGroupMemberFlag i f b ?h)
      (geff (Stmt ''CHAR_UPD_GROUP_MEMBER_FLAG'' [G8 (msFlags (memberSlots (ToggleGroupMemberFlag i f b ?h) ! i)), G32 (GUID_LOPART guid)]) io))"
    unfolding g'_def SetGroupMemberFlag_def using assms(1,2) m by (simp only: Let_def if_False if_True option.case simp_thms not_not)
  then show "subGroupsCounts g' = subGroupsCounts g" "targetIcons g' = targetIcons g" by simp_all
  have s: "memberSlots g' = memberSlots (ToggleGroupMemberFlag i f b ?h)" "groupType g' = groupType (ToggleGroupMemberFlag i f b ?h)"
    using g' by simp_all
  then show "isRaidGroup g' = isRaidGroup g" by (simp add: isRaidGroup_def ToggleGroupMemberFlag_def RemoveUniqueGroupMemberFlag_def)
  show "slot_ids (memberSlots g') = slot_ids (memberSlots g)" unfolding s using ids_flag(2) [OF ih(1)] ids_flag(1) by auto
  show "flagged f' (memberSlots g') = flagged f' (memberSlots g)" if "member_flag f'" "f' \<noteq> f"
    unfolding s using flagged_other(2) [OF assms(3) that(1) that(2) [symmetric] ih(1)] flagged_other(1) [OF assms(3) that(1) that(2) [symmetric]]
    by auto
  show "flagged f (memberSlots g') = (if b then [guid] else [])" if "f \<noteq> MEMBER_FLAG_ASSISTANT"
  proof -
    have "?h = RemoveUniqueGroupMemberFlag f g" using assms(3) that by (auto simp: member_flag_def)
    then show ?thesis unfolding s using flagged_toggled [OF assms(3) _ ih(1), of b] flagged_removed [OF assms(3)] ih(2) by simp
  qed
qed

lemma set_flag_ok: "grp_ok g \<Longrightarrow> grp_ok (fst (SetGroupMemberFlag E t guid b f g io))"
proof (cases "isRaidGroup g \<and> getMemberSlot guid (memberSlots g) \<noteq> None \<and> member_flag f")
  case True
  assume ok: "grp_ok g"
  from True obtain i where i: "getMemberSlot guid (memberSlots g) = Some i" by blast
  note F = SetGroupMemberFlag_flags [where g = g and guid = guid and i = i and f = f and E = E and t = t and b = b and io = io]
  have fl: "member_flag MEMBER_FLAG_MAINTANK" "member_flag MEMBER_FLAG_MAINASSIST" "MEMBER_FLAG_MAINTANK \<noteq> MEMBER_FLAG_ASSISTANT"
    "MEMBER_FLAG_MAINASSIST \<noteq> MEMBER_FLAG_ASSISTANT" by (simp_all add: member_flag_def group_member_flags)
  show ?thesis
  proof (rule grp_ok_ids [OF ok])
    show "length (flagged MEMBER_FLAG_MAINTANK (memberSlots (fst (SetGroupMemberFlag E t guid b f g io)))) \<le> 1"
      using F(2,3) True i ok fl by (cases "f = MEMBER_FLAG_MAINTANK") (simp_all add: grp_ok_def)
    show "length (flagged MEMBER_FLAG_MAINASSIST (memberSlots (fst (SetGroupMemberFlag E t guid b f g io)))) \<le> 1"
      using F(2,3) True i ok fl by (cases "f = MEMBER_FLAG_MAINASSIST") (simp_all add: grp_ok_def)
  qed (use F(1,4-6) True i ok in \<open>simp_all add: grp_ok_def\<close>)
next
  case False
  assume "grp_ok g"
  moreover have "SetGroupMemberFlag E t guid b f g io = (g, io)"
    using False by (auto simp: SetGroupMemberFlag_def member_flag_def split: option.split)
  ultimately show ?thesis by simp
qed

section \<open>The other operations\<close>

lemma lead_flags:
  "i < length (memberSlots g) \<Longrightarrow> flagged MEMBER_FLAG_MAINTANK (memberSlots (ToggleGroupMemberFlag i MEMBER_FLAG_ASSISTANT b g)) = flagged MEMBER_FLAG_MAINTANK (memberSlots g)"
  "i < length (memberSlots g) \<Longrightarrow> flagged MEMBER_FLAG_MAINASSIST (memberSlots (ToggleGroupMemberFlag i MEMBER_FLAG_ASSISTANT b g)) = flagged MEMBER_FLAG_MAINASSIST (memberSlots g)"
  by (rule flagged_other(2); simp add: member_flag_def group_member_flags)+

text \<open>The group that a change of leaders leaves.\<close>

lemma ChangeLeader_grp:
  "fst (ChangeLeader E t p g io) = (case getMemberSlot p (memberSlots g) of None \<Rightarrow> g | Some i \<Rightarrow>
     if online E p then ToggleGroupMemberFlag i MEMBER_FLAG_ASSISTANT False (g\<lparr>leaderGuid := p, leaderName := plName E p\<rparr>) else g)"
  by (simp add: ChangeLeader_def Let_def split: option.split)

lemma change_leader_ok: "grp_ok g \<Longrightarrow> grp_ok (fst (ChangeLeader E t p g io))"
proof (cases "getMemberSlot p (memberSlots g)")
  case (Some i)
  assume ok: "grp_ok g"
  let ?g = "g\<lparr>leaderGuid := p, leaderName := plName E p\<rparr>"
  have i: "i < length (memberSlots ?g)" using getMemberSlot_Some [OF Some] by simp
  have "grp_ok (ToggleGroupMemberFlag i MEMBER_FLAG_ASSISTANT False ?g)"
    by (rule grp_ok_ids [OF ok]) (use ok lead_flags [OF i, of False] ids_flag(2) [OF i, of _ False] in \<open>simp_all add: grp_ok_def isRaidGroup_def\<close>)
  with ok Some show ?thesis by (simp add: ChangeLeader_grp)
qed (simp add: ChangeLeader_grp)

lemma pick_leader_ok: "grp_ok g \<Longrightarrow> grp_ok (fst (pick_leader E t g io))"
  by (simp add: pick_leader_def change_leader_ok split: option.split)

lemma farewell_ok: "grp_ok g \<Longrightarrow> grp_ok (fst (farewell E t guid m k r g io))"
  by (simp add: farewell_def Let_def case_prod_unfold pick_leader_ok)

lemma grp_ok_upd [simp]:
  "grp_ok (g\<lparr>maxEnchantingLevel := l\<rparr>) = grp_ok g" "grp_ok (g\<lparr>looterGuid := a\<rparr>) = grp_ok g" "grp_ok (g\<lparr>invitees := ps\<rparr>) = grp_ok g"
  "grp_ok (g\<lparr>memberMgr := m\<rparr>) = grp_ok g" "grp_ok (g\<lparr>RollId := rs\<rparr>) = grp_ok g" "grp_ok (g\<lparr>leaderGuid := a, leaderName := n\<rparr>) = grp_ok g"
  "grp_ok (g\<lparr>grpCounter := c\<rparr>) = grp_ok g" "grp_ok (g\<lparr>dungeonDifficulty := d\<rparr>) = grp_ok g" "grp_ok (g\<lparr>raidDifficulty := d\<rparr>) = grp_ok g"
  "grp_ok (g\<lparr>lootMethod := lm\<rparr>) = grp_ok g" "grp_ok (g\<lparr>lootThreshold := th\<rparr>) = grp_ok g" "grp_ok (g\<lparr>masterLooterGuid := a\<rparr>) = grp_ok g"
  by (simp_all add: grp_ok_def isRaidGroup_def)

lemma no_icons: "icons_ok (replicate 8 0)"
  by (simp add: icons_ok_def)

lemma announce_ok: "grp_ok g \<Longrightarrow> grp_ok (fst (announce_member E t p s g io))"
proof -
  assume "grp_ok g"
  then have "grp_ok (g\<lparr>targetIcons := replicate 8 0\<rparr>)" using no_icons by (simp add: grp_ok_def isRaidGroup_def)
  with \<open>grp_ok g\<close> show ?thesis by (simp add: announce_member_def Let_def case_prod_unfold)
qed

lemma greet_ok: "grp_ok g \<Longrightarrow> grp_ok (fst (greet_member E p g io))"
  by (simp add: greet_member_def Let_def)

lemma ResetMaxEnchantingLevel_only: "\<exists>l. ResetMaxEnchantingLevel E g = g\<lparr>maxEnchantingLevel := l\<rparr>"
proof -
  have "\<exists>l. fold (\<lambda>s g. if inWorld E (msGuid s) \<and> maxEnchantingLevel g < ucast (enchanting E (msGuid s))
      then g\<lparr>maxEnchantingLevel := ucast (enchanting E (msGuid s))\<rparr> else g) xs (g\<lparr>maxEnchantingLevel := n\<rparr>) =
      g\<lparr>maxEnchantingLevel := l\<rparr>" for xs n
    by (induction xs arbitrary: n) auto
  then show ?thesis by (simp add: ResetMaxEnchantingLevel_def)
qed

lemma drop_record_only: "\<exists>l io'. drop_record E guid g io = (g\<lparr>maxEnchantingLevel := l\<rparr>, io') \<and> only_out io io'"
proof -
  let ?io = "snd (drop_record E guid g io)"
  have "\<exists>l. fst (drop_record E guid g io) = g\<lparr>maxEnchantingLevel := l\<rparr>"
  proof (cases "online E guid \<and> enchanting E guid \<noteq> 0 \<or> \<not> online E guid")
    case True
    then show ?thesis using ResetMaxEnchantingLevel_only [of E g] by (simp add: drop_record_def Let_def)
  next
    case False
    then show ?thesis by (intro exI [of _ "maxEnchantingLevel g"]) (simp add: drop_record_def Let_def)
  qed
  moreover have "only_out io ?io" by (simp add: drop_record_def Let_def only_out_step)
  ultimately show ?thesis by (metis prod.collapse)
qed

lemma drop_record_ok: "grp_ok g \<Longrightarrow> grp_ok (fst (drop_record E guid g io))"
  using drop_record_only [of E guid g io] by auto

lemma leave_notice_ok: "grp_ok g \<Longrightarrow> grp_ok (fst (leave_notice E m p g io))"
  by (simp add: leave_notice_def Let_def)

lemma set_roles_ok: "grp_ok g \<Longrightarrow> grp_ok (fst (SetLfgRoles E t guid roles g io))"
proof (cases "getMemberSlot guid (memberSlots g)")
  case (Some i)
  assume ok: "grp_ok g"
  have i: "i < length (memberSlots g)" using getMemberSlot_Some [OF Some] by blast
  let ?g = "g\<lparr>memberSlots := (memberSlots g)[i := (memberSlots g ! i)\<lparr>msRoles := roles\<rparr>]\<rparr>"
  have f: "flagged f (memberSlots ?g) = flagged f (memberSlots g)" for f using i by (simp add: flagged_update)
  have "grp_ok ?g" by (rule grp_ok_ids [OF ok]) (use ok f i in \<open>simp_all add: grp_ok_def isRaidGroup_def ids_update\<close>)
  with Some show ?thesis by (simp add: SetLfgRoles_def)
qed (simp add: SetLfgRoles_def)

lemma update_looter_ok: "grp_ok g \<Longrightarrow> grp_ok (fst (UpdateLooterGuid E t reward b g io))"
  by (simp add: UpdateLooterGuid_def Let_def SetLooterGuid_def split: option.split)

end
