(* ===== verification/GroupInv.thy ===== *)
theory GroupInv
  imports GroupShape
begin

text \<open>
  What holds between groups and players whatever happens: the references of players and the
  lists of groups agree, lead to groups that are there, and belong to members. Each step is
  shown to keep this, and to follow no pointer that leads nowhere.
\<close>

section \<open>The invariant\<close>

definition links_ok :: "gw \<Rightarrow> bool" where
  "links_ok w \<longleftrightarrow>
     (\<forall>t g. groups w t = Some g \<longrightarrow> distinct (memberMgr g) \<and> (\<forall>r. r \<in> set (memberMgr g) \<longleftrightarrow> refTo (gwIo w) r = Some t)) \<and>
     (\<forall>r t. refTo (gwIo w) r = Some t \<longrightarrow> groups w t \<noteq> None)"

text \<open>
  A reference belongs to a member, the original group is no raid of a battleground; and, but
  for a moment when a raid is left, a player has only one reference to a group.
\<close>

definition owners_ok :: "gw \<Rightarrow> bool" where
  "owners_ok w \<longleftrightarrow>
     (\<forall>p b t g. refTo (gwIo w) (p, b) = Some t \<longrightarrow> groups w t = Some g \<longrightarrow>
        p \<in> msGuid ` set (memberSlots g) \<and> (b \<longrightarrow> normal_grp g))"

definition single_ok :: "gw \<Rightarrow> bool" where
  "single_ok w \<longleftrightarrow> (\<forall>p t. refTo (gwIo w) (p, False) = Some t \<longrightarrow> refTo (gwIo w) (p, True) \<noteq> Some t)"

text \<open>A sub-group fits in a signed byte, as the setters of the references assert.\<close>

definition subs_ok :: "gw \<Rightarrow> bool" where
  "subs_ok w \<longleftrightarrow> (\<forall>r. unat (refSub (gwIo w) r) < 128)"

definition world_ok :: "gw \<Rightarrow> bool" where
  "world_ok w \<longleftrightarrow> links_ok w \<and> owners_ok w \<and> subs_ok w"

text \<open>Players that are gone have no references: their destructor has cut them.\<close>

definition env_ok :: "grpEnv \<Rightarrow> gw \<Rightarrow> bool" where
  "env_ok E w \<longleftrightarrow> (\<forall>p b. refTo (gwIo w) (p, b) \<noteq> None \<longrightarrow> online E p)"

section \<open>Steps that leave the references alone\<close>

definition frame :: "(grp \<Rightarrow> gio \<Rightarrow> grp \<times> gio) \<Rightarrow> bool" where
  "frame f \<longleftrightarrow> (\<forall>g io. memberMgr (fst (f g io)) = memberMgr g \<and> refs_of (snd (f g io)) = refs_of io \<and>
     bgGroup (fst (f g io)) = bgGroup g \<and> bfGroup (fst (f g io)) = bfGroup g \<and>
     msGuid ` set (memberSlots g) \<subseteq> msGuid ` set (memberSlots (fst (f g io))))"

lemma frameI:
  assumes "\<And>g io. memberMgr (fst (f g io)) = memberMgr g" "\<And>g io. refs_of (snd (f g io)) = refs_of io"
    "\<And>g io. bgGroup (fst (f g io)) = bgGroup g" "\<And>g io. bfGroup (fst (f g io)) = bfGroup g"
    "\<And>g io. msGuid ` set (memberSlots g) \<subseteq> msGuid ` set (memberSlots (fst (f g io)))"
  shows "frame f"
  using assms by (simp add: frame_def)

lemma on_grp_some:
  "groups w t = Some g \<Longrightarrow> on_grp t f w = Some (w\<lparr>groups := (groups w)(t \<mapsto> fst (f g (gwIo w))), gwIo := snd (f g (gwIo w))\<rparr>)"
  by (simp add: on_grp_def case_prod_unfold Let_def)

lemma on_grp_world:
  assumes "world_ok w" "groups w t \<noteq> None" "frame f"
  shows "\<exists>w'. on_grp t f w = Some w' \<and> world_ok w' \<and> dom (groups w') = dom (groups w) \<and> refTo (gwIo w') = refTo (gwIo w)"
proof -
  from assms(2) obtain g where g: "groups w t = Some g" by blast
  have fr: "memberMgr (fst (f g (gwIo w))) = memberMgr g" "refTo (snd (f g (gwIo w))) = refTo (gwIo w)"
    "refSub (snd (f g (gwIo w))) = refSub (gwIo w)"
    "bgGroup (fst (f g (gwIo w))) = bgGroup g" "bfGroup (fst (f g (gwIo w))) = bfGroup g"
    "msGuid ` set (memberSlots g) \<subseteq> msGuid ` set (memberSlots (fst (f g (gwIo w))))"
    using assms(3) by (simp_all add: frame_def refs_of_def)
  let ?w = "w\<lparr>groups := (groups w)(t \<mapsto> fst (f g (gwIo w))), gwIo := snd (f g (gwIo w))\<rparr>"
  have "links_ok ?w" using assms(1) g fr(1,2) by (auto simp: world_ok_def links_ok_def)
  moreover have "owners_ok ?w"
    using assms(1) g fr by (fastforce simp: world_ok_def owners_ok_def normal_grp_def isBGGroup_def isBFGroup_def)
  moreover have "subs_ok ?w" using assms(1) fr(3) by (simp add: world_ok_def subs_ok_def)
  ultimately show ?thesis using on_grp_some [OF g, of f] fr(2) g by (auto simp: world_ok_def)
qed

section \<open>Links\<close>

lemma links_okD:
  assumes "links_ok w"
  shows "refTo (gwIo w) r = Some t \<Longrightarrow> \<exists>g. groups w t = Some g"
    and "groups w t = Some g \<Longrightarrow> distinct (memberMgr g)"
    and "groups w t = Some g \<Longrightarrow> r \<in> set (memberMgr g) \<longleftrightarrow> refTo (gwIo w) r = Some t"
  using assms unfolding links_ok_def by blast+

lemma links_okI:
  assumes "\<And>r t. refTo (gwIo w) r = Some t \<Longrightarrow> \<exists>g. groups w t = Some g"
    and "\<And>t g. groups w t = Some g \<Longrightarrow> distinct (memberMgr g)"
    and "\<And>t g r. groups w t = Some g \<Longrightarrow> r \<in> set (memberMgr g) \<longleftrightarrow> refTo (gwIo w) r = Some t"
  shows "links_ok w"
  using assms unfolding links_ok_def by blast

lemma gref_unlink_groups:
  "groups (gref_unlink r w) t =
    (if refTo (gwIo w) r = Some t then map_option (\<lambda>g. g\<lparr>memberMgr := remove1 r (memberMgr g)\<rparr>) (groups w t) else groups w t)"
  by (auto simp: gref_unlink_def split: option.split)

lemma gref_unlink_world:
  assumes "world_ok w"
  shows "world_ok (gref_unlink r w) \<and> dom (groups (gref_unlink r w)) = dom (groups w) \<and>
    refTo (gwIo (gref_unlink r w)) = (refTo (gwIo w))(r := None)"
proof (cases "refTo (gwIo w) r")
  case None
  then show ?thesis using assms by (simp add: gref_unlink_def fun_upd_idem)
next
  case (Some t)
  have L: "links_ok w" using assms by (simp add: world_ok_def)
  obtain g where g: "groups w t = Some g" using links_okD(1) [OF L Some] by blast
  have m: "distinct (memberMgr g)" "r \<in> set (memberMgr g)" using links_okD(2,3) [OF L g] Some by blast+
  let ?w = "w\<lparr>groups := (groups w)(t \<mapsto> g\<lparr>memberMgr := remove1 r (memberMgr g)\<rparr>), gwIo := (gwIo w)\<lparr>refTo := (refTo (gwIo w))(r := None)\<rparr>\<rparr>"
  have w: "gref_unlink r w = ?w" using Some g by (simp add: gref_unlink_def)
  have "links_ok ?w" using assms g m Some by (auto simp: world_ok_def links_ok_def set_remove1_eq)
  moreover have "owners_ok ?w"
    using assms g by (fastforce simp: world_ok_def owners_ok_def normal_grp_def isBGGroup_def isBFGroup_def)
  moreover have "subs_ok ?w" using assms by (simp add: world_ok_def subs_ok_def)
  ultimately show ?thesis using w g by (auto simp: world_ok_def)
qed

text \<open>A link needs its group, whose member the player is.\<close>

definition may_link :: "gref \<Rightarrow> nat \<Rightarrow> gw \<Rightarrow> bool" where
  "may_link r t w \<longleftrightarrow> (\<exists>g. groups w t = Some g \<and> fst r \<in> msGuid ` set (memberSlots g) \<and> (snd r \<longrightarrow> normal_grp g))"

lemma gref_link_world:
  assumes "world_ok w" "may_link r t w" "unat s < 128"
  shows "\<exists>w'. gref_link r t s w = Some w' \<and> world_ok w' \<and> dom (groups w') = dom (groups w) \<and>
    refTo (gwIo w') = (refTo (gwIo w))(r \<mapsto> t)"
proof -
  let ?u = "gref_unlink r w"
  have u: "world_ok ?u" "dom (groups ?u) = dom (groups w)" "refTo (gwIo ?u) = (refTo (gwIo w))(r := None)"
    using gref_unlink_world [OF assms(1), of r] by blast+
  from assms(2) obtain g where g: "groups w t = Some g" "fst r \<in> msGuid ` set (memberSlots g)" "snd r \<longrightarrow> normal_grp g"
    by (auto simp: may_link_def)
  obtain h where h: "groups ?u t = Some h" "memberSlots h = memberSlots g" "normal_grp h = normal_grp g"
    using g(1) by (cases "refTo (gwIo w) r = Some t") (simp_all add: gref_unlink_groups normal_grp_def isBGGroup_def isBFGroup_def)
  let ?w = "?u\<lparr>groups := (groups ?u)(t \<mapsto> h\<lparr>memberMgr := r # memberMgr h\<rparr>),
      gwIo := (gwIo ?u)\<lparr>refTo := (refTo (gwIo ?u))(r \<mapsto> t), refSub := (refSub (gwIo ?u))(r := s)\<rparr>\<rparr>"
  have l: "gref_link r t s w = Some ?w" using h by (simp add: gref_link_def Let_def)
  have U: "links_ok ?u" using u(1) by (simp add: world_ok_def)
  have "links_ok ?w"
  proof (rule links_okI)
    show "\<exists>g. groups ?w t' = Some g" if "refTo (gwIo ?w) r' = Some t'" for r' t'
      using that links_okD(1) [OF U, of r' t'] by (auto simp: u(3) split: if_splits)
    show "distinct (memberMgr g')" if "groups ?w t' = Some g'" for t' g'
      using that links_okD(2) [OF U, of t'] links_okD(3) [OF U, of t' _ r] h(1) by (auto simp: u(3) split: if_splits)
    show "r' \<in> set (memberMgr g') \<longleftrightarrow> refTo (gwIo ?w) r' = Some t'" if "groups ?w t' = Some g'" for t' g' r'
      using that links_okD(3) [OF U, of t' _ r'] h(1) by (auto simp: u(3) split: if_splits)
  qed
  moreover have "owners_ok ?w" unfolding owners_ok_def
  proof (intro allI impI conjI)
    fix p b t' g' assume a: "refTo (gwIo ?w) (p, b) = Some t'" "groups ?w t' = Some g'"
    have O: "p \<in> msGuid ` set (memberSlots g'') \<and> (b \<longrightarrow> normal_grp g'')"
      if "refTo (gwIo ?u) (p, b) = Some t'" "groups ?u t' = Some g''" for g''
      using that u(1) unfolding world_ok_def owners_ok_def by blast
    have n: "normal_grp (h\<lparr>memberMgr := x\<rparr>) = normal_grp h" for x by (simp add: normal_grp_def isBGGroup_def isBFGroup_def)
    have "p \<in> msGuid ` set (memberSlots g') \<and> (b \<longrightarrow> normal_grp g')"
    proof (cases "r = (p, b)")
      case True
      then show ?thesis using a g h n by auto
    next
      case False
      then show ?thesis using a O [of h] O [of g'] h n u(3) by (auto split: if_splits)
    qed
    then show "p \<in> msGuid ` set (memberSlots g')" "b \<Longrightarrow> normal_grp g'" by blast+
  qed
  moreover have "subs_ok ?w" using u(1) assms(3) by (simp add: world_ok_def subs_ok_def)
  ultimately show ?thesis using l u h by (auto simp: world_ok_def)
qed

text \<open>Steps that change no group but in its list of references and its packet counter.\<close>

definition bare :: "grp \<Rightarrow> grp" where
  "bare g = g\<lparr>memberMgr := [], grpCounter := 0\<rparr>"

definition same_groups :: "gw \<Rightarrow> gw \<Rightarrow> bool" where
  "same_groups w w' \<longleftrightarrow> (\<forall>t. map_option bare (groups w' t) = map_option bare (groups w t)) \<and> loots (gwIo w') = loots (gwIo w)"

lemma same_groups_refl [simp]: "same_groups w w"
  by (simp add: same_groups_def)

lemma same_groups_trans [trans]: "same_groups a b \<Longrightarrow> same_groups b c \<Longrightarrow> same_groups a c"
  by (simp add: same_groups_def)

lemma same_groups_dom: "same_groups w w' \<Longrightarrow> dom (groups w') = dom (groups w)"
proof -
  assume "same_groups w w'"
  then have "groups w' t = None \<longleftrightarrow> groups w t = None" for t
    unfolding same_groups_def by (metis option.map_disc_iff)
  then show ?thesis unfolding dom_def by simp
qed

lemma same_groups_some:
  assumes "same_groups w w'" "groups w t = Some g"
  obtains g' where "groups w' t = Some g'" "bare g' = bare g"
proof -
  have "map_option bare (groups w' t) = Some (bare g)" using assms by (simp add: same_groups_def)
  with that show thesis by auto
qed

lemma bare_fields:
  assumes "bare g' = bare g"
  shows "memberSlots g' = memberSlots g" "bgGroup g' = bgGroup g" "bfGroup g' = bfGroup g" "groupType g' = groupType g"
    "subGroupsCounts g' = subGroupsCounts g" "targetIcons g' = targetIcons g" "RollId g' = RollId g" "leaderGuid g' = leaderGuid g"
    "grpGuid g' = grpGuid g" "invitees g' = invitees g" "normal_grp g' = normal_grp g" "looterGuid g' = looterGuid g"
proof -
  show "memberSlots g' = memberSlots g" using arg_cong [OF assms, of memberSlots] by (simp add: bare_def)
  show "bgGroup g' = bgGroup g" using arg_cong [OF assms, of bgGroup] by (simp add: bare_def)
  show "bfGroup g' = bfGroup g" using arg_cong [OF assms, of bfGroup] by (simp add: bare_def)
  show "groupType g' = groupType g" using arg_cong [OF assms, of groupType] by (simp add: bare_def)
  show "subGroupsCounts g' = subGroupsCounts g" using arg_cong [OF assms, of subGroupsCounts] by (simp add: bare_def)
  show "targetIcons g' = targetIcons g" using arg_cong [OF assms, of targetIcons] by (simp add: bare_def)
  show "RollId g' = RollId g" using arg_cong [OF assms, of RollId] by (simp add: bare_def)
  show "leaderGuid g' = leaderGuid g" using arg_cong [OF assms, of leaderGuid] by (simp add: bare_def)
  show "grpGuid g' = grpGuid g" using arg_cong [OF assms, of grpGuid] by (simp add: bare_def)
  show "invitees g' = invitees g" using arg_cong [OF assms, of invitees] by (simp add: bare_def)
  show "normal_grp g' = normal_grp g" using arg_cong [OF assms, of normal_grp] by (simp add: bare_def normal_grp_def isBGGroup_def isBFGroup_def)
  show "looterGuid g' = looterGuid g" using arg_cong [OF assms, of looterGuid] by (simp add: bare_def)
qed

lemma bare_simps [simp]: "bare (g\<lparr>memberMgr := m\<rparr>) = bare g" "bare (g\<lparr>grpCounter := c\<rparr>) = bare g"
  by (simp_all add: bare_def)

lemma gref_unlink_same: "same_groups w (gref_unlink r w)"
  by (auto simp: same_groups_def gref_unlink_def option.map_comp comp_def split: option.split)

lemma gref_link_same: "gref_link r t s w = Some w' \<Longrightarrow> same_groups w w'"
proof -
  assume "gref_link r t s w = Some w'"
  then obtain h where h: "groups (gref_unlink r w) t = Some h"
    and w: "w' = (gref_unlink r w)\<lparr>groups := (groups (gref_unlink r w))(t \<mapsto> h\<lparr>memberMgr := r # memberMgr h\<rparr>),
      gwIo := (gwIo (gref_unlink r w))\<lparr>refTo := (refTo (gwIo (gref_unlink r w)))(r \<mapsto> t), refSub := (refSub (gwIo (gref_unlink r w)))(r := s)\<rparr>\<rparr>"
    by (auto simp: gref_link_def Let_def split: Option.bind_splits)
  have "same_groups (gref_unlink r w) w'" using h by (simp add: w same_groups_def)
  with gref_unlink_same same_groups_trans show ?thesis by blast
qed

lemma weff_fields [simp]:
  "groups (weff e w) = groups w" "refTo (gwIo (weff e w)) = refTo (gwIo w)" "loots (gwIo (weff e w)) = loots (gwIo w)"
  "gwIo (weff e w) = geff e (gwIo w)"
  by (simp_all add: weff_def)

lemma weff_world [simp]: "world_ok (weff e w) = world_ok w" "same_groups w (weff e w')  = same_groups w w'"
  by (simp_all add: world_ok_def links_ok_def owners_ok_def subs_ok_def same_groups_def)

section \<open>Players and their groups\<close>

text \<open>What a step on the references of one player promises.\<close>

definition player_step :: "u64 \<Rightarrow> gw \<Rightarrow> gw option \<Rightarrow> (nat option \<times> nat option) \<Rightarrow> bool" where
  "player_step p w r to \<longleftrightarrow> (\<exists>w'. r = Some w' \<and> world_ok w' \<and> same_groups w w' \<and>
     refTo (gwIo w') = (refTo (gwIo w))((p, False) := fst to, (p, True) := snd to))"

lemma player_step_unlink:
  assumes "world_ok w"
  shows "player_step p w (Some (gref_unlink (p, False) w)) (None, refTo (gwIo w) (p, True))"
    "player_step p w (Some (gref_unlink (p, True) w)) (refTo (gwIo w) (p, False), None)"
  using gref_unlink_world [OF assms] gref_unlink_same [of w] unfolding player_step_def by (auto simp: fun_eq_iff)

lemma player_step_link:
  assumes "world_ok w" "may_link (p, b) t w" "unat s < 128"
  shows "player_step p w (gref_link (p, b) t s w) (if b then refTo (gwIo w) (p, False) else Some t, if b then Some t else refTo (gwIo w) (p, True))"
  using gref_link_world [OF assms] gref_link_same [of "(p, b)" t s w] unfolding player_step_def by (auto simp: fun_eq_iff)

lemma player_step_weff: "player_step p w r to \<Longrightarrow> player_step p w (do { w \<leftarrow> r; Some (weff e w) }) to"
  by (auto simp: player_step_def)

lemma player_step_bind:
  assumes "player_step p w r (a, b)" and "\<And>w'. r = Some w' \<Longrightarrow> world_ok w' \<Longrightarrow> same_groups w w' \<Longrightarrow>
      refTo (gwIo w') = (refTo (gwIo w))((p, False) := a, (p, True) := b) \<Longrightarrow> player_step p w' (f w') (c, d)"
  shows "player_step p w (do { w \<leftarrow> r; f w }) (c, d)"
proof -
  from assms(1) obtain w1 where 1: "r = Some w1" "world_ok w1" "same_groups w w1"
    "refTo (gwIo w1) = (refTo (gwIo w))((p, False) := a, (p, True) := b)" by (auto simp: player_step_def)
  from assms(2) [OF this] obtain w2 where "f w1 = Some w2" "world_ok w2" "same_groups w1 w2"
    "refTo (gwIo w2) = (refTo (gwIo w1))((p, False) := c, (p, True) := d)" by (auto simp: player_step_def)
  with 1 same_groups_trans [OF 1(3)] show ?thesis by (auto simp: player_step_def fun_eq_iff)
qed

lemma owners_okD:
  assumes "world_ok w" "refTo (gwIo w) (p, b) = Some t"
  obtains g where "groups w t = Some g" "p \<in> msGuid ` set (memberSlots g)" "b \<longrightarrow> normal_grp g"
proof -
  have L: "links_ok w" using assms(1) by (simp add: world_ok_def)
  from links_okD(1) [OF L assms(2)] obtain g where "groups w t = Some g" by blast
  then show thesis using assms that unfolding world_ok_def owners_ok_def by blast
qed

lemma may_link_same:
  assumes "same_groups w w'" "groups w t = Some g" "p \<in> msGuid ` set (memberSlots g)" "b \<longrightarrow> normal_grp g"
  shows "may_link (p, b) t w'"
proof -
  from same_groups_some [OF assms(1,2)] obtain g' where "groups w' t = Some g'" "bare g' = bare g" .
  with assms(3,4) bare_fields [of g' g] show ?thesis by (simp add: may_link_def)
qed

lemma RemoveFromRaid_step:
  assumes W: "world_ok w"
  shows "player_step p w (RemoveFromBattlegroundOrBattlefieldRaid p w) (refTo (gwIo w) (p, True), None)"
proof -
  let ?o = "refTo (gwIo w) (p, True)"
  let ?u = "gref_unlink (p, False) w"
  let ?f = "case ?o of None \<Rightarrow> Some ?u | Some t \<Rightarrow> gref_link (p, False) t (GetOriginalSubGroup p ?u) ?u"
  have u: "world_ok ?u" "same_groups w ?u" "refTo (gwIo ?u) = (refTo (gwIo w))((p, False) := None)"
    using gref_unlink_world [OF W, of "(p, False)"] gref_unlink_same [of w] by auto
  have run: "RemoveFromBattlegroundOrBattlefieldRaid p w = do { w \<leftarrow> ?f; Some (gref_unlink (p, True) w) }"
    by (simp add: RemoveFromBattlegroundOrBattlefieldRaid_def Let_def SetOriginalGroup_def GetOriginalGroup_def u(3))
  have 1: "player_step p w ?f (?o, ?o)"
  proof (cases ?o)
    case None
    then show ?thesis using player_step_unlink(1) [OF W, of p] by simp
  next
    case (Some t)
    from owners_okD [OF W this] obtain g where "groups w t = Some g" "p \<in> msGuid ` set (memberSlots g)" .
    then have "may_link (p, False) t ?u" by (intro may_link_same [OF u(2)]) auto
    moreover have "unat (GetOriginalSubGroup p ?u) < 128" using u(1) by (simp add: world_ok_def subs_ok_def GetOriginalSubGroup_def)
    ultimately obtain w' where
      w': "gref_link (p, False) t (GetOriginalSubGroup p ?u) ?u = Some w'" "world_ok w'" "refTo (gwIo w') = (refTo (gwIo ?u))((p, False) \<mapsto> t)"
      using gref_link_world [OF u(1), of "(p, False)" t "GetOriginalSubGroup p ?u"] by blast
    then show ?thesis using Some u(3) same_groups_trans [OF u(2) gref_link_same [OF w'(1)]] by (auto simp: player_step_def fun_eq_iff)
  qed
  show ?thesis unfolding run
    by (rule player_step_bind [OF 1]) (use player_step_unlink(2) in \<open>fastforce simp: player_step_def\<close>)
qed

text \<open>A player detached from a group points to it no more, and nobody else's references change.\<close>

lemma detach_player_step:
  assumes W: "world_ok w" and S: "single_ok w" and g: "groups w this = Some g"
  shows "\<exists>a b. player_step p w (detach_player this p w) (a, b) \<and> a \<noteq> Some this \<and> b \<noteq> Some this \<and> (a = None \<or> a \<noteq> b) \<and>
    (a = refTo (gwIo w) (p, False) \<or> a = refTo (gwIo w) (p, True) \<or> a = None) \<and> (b = refTo (gwIo w) (p, True) \<or> b = None)"
proof (cases "normal_grp g")
  case False
  have "refTo (gwIo w) (p, True) \<noteq> Some this" using owners_okD [OF W, of p True this] g False by auto
  moreover have "detach_player this p w = RemoveFromBattlegroundOrBattlefieldRaid p w"
    using False g by (auto simp: detach_player_def normal_grp_def)
  ultimately show ?thesis using RemoveFromRaid_step [OF W, of p] by auto
next
  case True
  show ?thesis
  proof (cases "refTo (gwIo w) (p, True) = Some this")
    case o: True
    then have "detach_player this p w = Some (gref_unlink (p, True) w)"
      using True g by (simp add: detach_player_def normal_grp_def GetOriginalGroup_def SetOriginalGroup_def)
    moreover have "refTo (gwIo w) (p, False) \<noteq> Some this" using S o unfolding single_ok_def by blast
    ultimately show ?thesis using player_step_unlink(2) [OF W, of p] by auto
  next
    case o: False
    then have "detach_player this p w = Some (weff (Call ''UpdateObjectVisibility'' [G64 p]) (gref_unlink (p, False) w))"
      using True g by (simp add: detach_player_def normal_grp_def GetOriginalGroup_def SetGroup_def)
    then have "player_step p w (detach_player this p w) (None, refTo (gwIo w) (p, True))"
      using player_step_weff [OF player_step_unlink(1) [OF W, of p]] by simp
    with o show ?thesis by auto
  qed
qed

section \<open>Joining keeps the world\<close>

definition may_join :: "nat \<Rightarrow> u64 \<Rightarrow> gw \<Rightarrow> bool" where
  "may_join this p w \<longleftrightarrow> (\<exists>g. groups w this = Some g \<and> \<not> IsMember p g \<and> \<not> IsFull g \<and>
     (\<not> normal_grp g \<longrightarrow> (\<forall>t h. refTo (gwIo w) (p, False) = Some t \<longrightarrow> groups w t = Some h \<longrightarrow> normal_grp h)))"

text \<open>Where the references of a player lead that has joined.\<close>

definition joined_refs :: "nat \<Rightarrow> bool \<Rightarrow> nat option \<times> nat option \<Rightarrow> nat option \<times> nat option" where
  "joined_refs this raid = (\<lambda>(a, b). if a = None then (Some this, b) else if raid then (Some this, a) else (a, Some this))"

lemma joined_single: "joined_refs this r (x, y) = (a, b) \<Longrightarrow> x \<noteq> Some this \<Longrightarrow> y \<noteq> Some this \<Longrightarrow> a = None \<or> a \<noteq> b"
  by (auto simp: joined_refs_def split: if_splits)

text \<open>Into the raid of a battleground or battlefield: the group the player had becomes the original one.\<close>

lemma raid_step:
  assumes W: "world_ok w" and g: "groups w this = Some g" and p: "p \<in> msGuid ` set (memberSlots g)" and s: "unat s < 128"
    and old: "\<And>t h. refTo (gwIo w) (p, False) = Some t \<Longrightarrow> groups w t = Some h \<Longrightarrow> normal_grp h"
  shows "player_step p w (SetBattlegroundOrBattlefieldRaid p this s w) (Some this, refTo (gwIo w) (p, False))"
proof -
  let ?a = "refTo (gwIo w) (p, False)"
  have 1: "player_step p w (SetOriginalGroup p (map_option (\<lambda>u. (u, GetSubGroup p w)) (GetGroup p w)) w) (?a, ?a)"
  proof (cases ?a)
    case None
    then show ?thesis using player_step_unlink(2) [OF W, of p] by (simp add: SetOriginalGroup_def GetGroup_def)
  next
    case (Some t)
    from owners_okD [OF W Some] obtain h where h: "groups w t = Some h" "p \<in> msGuid ` set (memberSlots h)" .
    have m: "may_link (p, True) t w" using h old [OF Some h(1)] by (simp add: may_link_def)
    have sub: "unat (GetSubGroup p w) < 128" using W by (simp add: world_ok_def subs_ok_def GetSubGroup_def)
    show ?thesis using player_step_link [OF W m sub] sub Some by (simp add: SetOriginalGroup_def GetGroup_def)
  qed
  show ?thesis
    unfolding SetBattlegroundOrBattlefieldRaid_def
  proof (rule player_step_bind [OF 1])
    fix w' assume w': "world_ok w'" "same_groups w w'" "refTo (gwIo w') = (refTo (gwIo w))((p, False) := ?a, (p, True) := ?a)"
    let ?u = "gref_unlink (p, False) w'"
    have u: "world_ok ?u" "refTo (gwIo ?u) = (refTo (gwIo w'))((p, False) := None)"
      using gref_unlink_world [OF w'(1), of "(p, False)"] by auto
    have su: "same_groups w ?u" using same_groups_trans [OF w'(2) gref_unlink_same] .
    have "may_link (p, False) this ?u" by (rule may_link_same [OF su g p]) simp
    from gref_link_world [OF u(1) this s] obtain w'' where
      l: "gref_link (p, False) this s ?u = Some w''" "world_ok w''" "refTo (gwIo w'') = (refTo (gwIo ?u))((p, False) \<mapsto> this)" by blast
    have "same_groups w' w''" using same_groups_trans [OF gref_unlink_same gref_link_same [OF l(1)]] .
    with l u w' show "player_step p w' (gref_link (p, False) this s ?u) (Some this, ?a)"
      by (auto simp: player_step_def fun_eq_iff)
  qed
qed

lemma point_player_step:
  assumes W: "world_ok w" and g: "groups w this = Some g" and p: "p \<in> msGuid ` set (memberSlots g)" and s: "unat s < 128"
    and old: "\<not> normal_grp g \<longrightarrow> (\<forall>t h. refTo (gwIo w) (p, False) = Some t \<longrightarrow> groups w t = Some h \<longrightarrow> normal_grp h)"
  shows "player_step p w (point_player this p s w) (joined_refs this (\<not> normal_grp g) (refTo (gwIo w) (p, False), refTo (gwIo w) (p, True)))"
proof (cases "refTo (gwIo w) (p, False)")
  case None
  have m: "may_link (p, False) this w" using g p by (simp add: may_link_def)
  have "player_step p w (SetGroup p (Some (this, s)) w) (Some this, refTo (gwIo w) (p, True))"
    using player_step_weff [OF player_step_link [OF W m s]] s by (simp add: SetGroup_def)
  with None g show ?thesis by (simp add: point_player_def GetGroup_def joined_refs_def)
next
  case (Some t)
  show ?thesis
  proof (cases "normal_grp g")
    case True
    then have "may_link (p, True) this w" using g p by (simp add: may_link_def)
    then have "player_step p w (SetOriginalGroup p (Some (this, s)) w) (refTo (gwIo w) (p, False), Some this)"
      using player_step_link [OF W _ s, of p True this] s by (simp add: SetOriginalGroup_def)
    with Some True g show ?thesis by (simp add: point_player_def GetGroup_def joined_refs_def normal_grp_def)
  next
    case False
    have "player_step p w (SetBattlegroundOrBattlefieldRaid p this s w) (Some this, refTo (gwIo w) (p, False))"
      by (rule raid_step [OF W g p s]) (use old False in blast)
    with Some False g show ?thesis by (auto simp: point_player_def GetGroup_def joined_refs_def normal_grp_def)
  qed
qed

section \<open>Frames\<close>

lemma counter_fields [simp]:
  "memberMgr (SubGroupCounterIncrease s g) = memberMgr g" "bgGroup (SubGroupCounterIncrease s g) = bgGroup g"
  "bfGroup (SubGroupCounterIncrease s g) = bfGroup g" "memberSlots (SubGroupCounterIncrease s g) = memberSlots g"
  "memberMgr (SubGroupCounterDecrease s g) = memberMgr g" "bgGroup (SubGroupCounterDecrease s g) = bgGroup g"
  "bfGroup (SubGroupCounterDecrease s g) = bfGroup g" "memberSlots (SubGroupCounterDecrease s g) = memberSlots g"
  by (simp_all add: SubGroupCounterIncrease_def SubGroupCounterDecrease_def)

lemma frame_push: "frame (push_member E p s)"
  by (rule frameI) (auto simp: push_member_def Let_def)

lemma frame_announce: "frame (announce_member E t p s)"
  by (rule frameI) (auto simp: announce_member_def Let_def case_prod_unfold)

lemma refs_exchange [simp]: "refs_of (exchange_fields E p g io) = refs_of io"
  by (simp add: exchange_fields_def Let_def refs_fold)

lemma refs_adopt [simp]: "refs_of (adopt_difficulty p g io) = refs_of io"
  by (simp add: adopt_difficulty_def Let_def)

lemma frame_greet: "frame (greet_member E p)"
  by (rule frameI) (auto simp: greet_member_def Let_def)

lemma guids_update: "i < length ss \<Longrightarrow> msGuid s = msGuid (ss ! i) \<Longrightarrow> map msGuid (ss[i := s]) = map msGuid ss"
  by (simp add: map_update list_update_id list_update_same_conv)

lemma ChangeLeader_fields [simp]:
  "memberMgr (fst (ChangeLeader E t p g io)) = memberMgr g" "bgGroup (fst (ChangeLeader E t p g io)) = bgGroup g"
  "bfGroup (fst (ChangeLeader E t p g io)) = bfGroup g" "refs_of (snd (ChangeLeader E t p g io)) = refs_of io"
  "map msGuid (memberSlots (fst (ChangeLeader E t p g io))) = map msGuid (memberSlots g)"
  by (auto simp: ChangeLeader_def ToggleGroupMemberFlag_def Let_def guids_update split: option.split dest: getMemberSlot_Some)

lemma pick_leader_fields [simp]:
  "memberMgr (fst (pick_leader E t g io)) = memberMgr g" "bgGroup (fst (pick_leader E t g io)) = bgGroup g"
  "bfGroup (fst (pick_leader E t g io)) = bfGroup g" "refs_of (snd (pick_leader E t g io)) = refs_of io"
  "map msGuid (memberSlots (fst (pick_leader E t g io))) = map msGuid (memberSlots g)"
  by (simp_all add: pick_leader_def split: option.split)

lemma frameI_guids:
  assumes "\<And>g io. memberMgr (fst (f g io)) = memberMgr g" "\<And>g io. refs_of (snd (f g io)) = refs_of io"
    "\<And>g io. bgGroup (fst (f g io)) = bgGroup g" "\<And>g io. bfGroup (fst (f g io)) = bfGroup g"
    "\<And>g io. map msGuid (memberSlots (fst (f g io))) = map msGuid (memberSlots g)"
  shows "frame f"
proof (rule frameI)
  have "set (map msGuid (memberSlots (fst (f g io)))) = set (map msGuid (memberSlots g))" for g io using assms(5) by simp
  then show "msGuid ` set (memberSlots g) \<subseteq> msGuid ` set (memberSlots (fst (f g io)))" for g io by simp
qed (use assms in simp_all)

lemma frame_farewell: "frame (farewell E t guid m k r)"
  by (rule frameI_guids) (auto simp: farewell_def Let_def case_prod_unfold)

lemma frame_out: "(\<And>g io. refs_of (h g io) = refs_of io) \<Longrightarrow> frame (\<lambda>g io. (g, h g io))"
  by (rule frameI) auto

lemma frame_leave: "frame (leave_notice E m p)"
  by (rule frameI) (auto simp: leave_notice_def Let_def)

lemma frame_drop_record: "frame (drop_record E guid)"
proof (rule frameI)
  fix g io
  obtain l io' where "drop_record E guid g io = (g\<lparr>maxEnchantingLevel := l\<rparr>, io')" "only_out io io'"
    using drop_record_only by blast
  then show "memberMgr (fst (drop_record E guid g io)) = memberMgr g" "refs_of (snd (drop_record E guid g io)) = refs_of io"
    "bgGroup (fst (drop_record E guid g io)) = bgGroup g" "bfGroup (fst (drop_record E guid g io)) = bfGroup g"
    "msGuid ` set (memberSlots g) \<subseteq> msGuid ` set (memberSlots (fst (drop_record E guid g io)))"
    by (auto dest: only_out_fields)
qed

lemma frame_SendUpdate: "frame (SendUpdate E t)"
  by (rule frameI) auto

section \<open>The whole invariant\<close>

definition wld_inv :: "gw \<Rightarrow> bool" where
  "wld_inv w \<longleftrightarrow> world_ok w \<and> single_ok w \<and> (\<forall>t g. groups w t = Some g \<longrightarrow> grp_ok g)"

lemma invD: "wld_inv w \<Longrightarrow> world_ok w" "wld_inv w \<Longrightarrow> single_ok w" "wld_inv w \<Longrightarrow> groups w t = Some g \<Longrightarrow> grp_ok g"
  by (simp_all add: wld_inv_def)

lemma grp_ok_bare: "bare g' = bare g \<Longrightarrow> grp_ok g' = grp_ok g"
proof -
  assume "bare g' = bare g"
  moreover have "grp_ok (bare g) = grp_ok g" for g by (simp add: bare_def grp_ok_def isRaidGroup_def)
  ultimately show ?thesis by metis
qed

lemma on_grp_inv:
  assumes "wld_inv w" "groups w t = Some g" "frame f" "grp_ok (fst (f g (gwIo w)))"
  shows "\<exists>w'. on_grp t f w = Some w' \<and> wld_inv w' \<and> groups w' = (groups w)(t \<mapsto> fst (f g (gwIo w))) \<and>
    gwIo w' = snd (f g (gwIo w)) \<and> refTo (gwIo w') = refTo (gwIo w)"
proof -
  let ?w = "w\<lparr>groups := (groups w)(t \<mapsto> fst (f g (gwIo w))), gwIo := snd (f g (gwIo w))\<rparr>"
  have r: "on_grp t f w = Some ?w" by (rule on_grp_some [OF assms(2)])
  then have "world_ok ?w" "refTo (gwIo ?w) = refTo (gwIo w)"
    using on_grp_world [OF invD(1) [OF assms(1)] _ assms(3), of t] assms(2) by auto
  with assms r show ?thesis by (simp add: wld_inv_def single_ok_def)
qed

lemma player_step_inv:
  assumes "wld_inv w" "player_step p w r (a, b)" "a = None \<or> a \<noteq> b"
  shows "\<exists>w'. r = Some w' \<and> wld_inv w' \<and> same_groups w w' \<and> refTo (gwIo w') = (refTo (gwIo w))((p, False) := a, (p, True) := b)"
proof -
  from assms(2) obtain w' where w': "r = Some w'" "world_ok w'" "same_groups w w'"
    "refTo (gwIo w') = (refTo (gwIo w))((p, False) := a, (p, True) := b)" by (auto simp: player_step_def)
  have "single_ok w'" using invD(2) [OF assms(1)] w'(4) assms(3) by (auto simp: single_ok_def)
  moreover have "grp_ok g'" if g': "groups w' t = Some g'" for t g'
  proof -
    have "map_option bare (groups w' t) = map_option bare (groups w t)" using w'(3) unfolding same_groups_def by blast
    with g' obtain g where "groups w t = Some g" "bare g' = bare g" by (cases "groups w t") auto
    with grp_ok_bare invD(3) [OF assms(1)] show ?thesis by metis
  qed
  ultimately show ?thesis using w' by (simp add: wld_inv_def)
qed

lemma not_ref_to:
  assumes "wld_inv w" "groups w t = Some g" "\<not> IsMember p g"
  shows "refTo (gwIo w) (p, b) \<noteq> Some t"
proof
  assume r: "refTo (gwIo w) (p, b) = Some t"
  show False using owners_okD [OF invD(1) [OF assms(1)] r] assms(2,3) by (auto simp: IsMember_iff)
qed

lemma loots_fold: "(\<And>x io. loots (f x io) = loots io) \<Longrightarrow> loots (fold f xs io) = loots io"
  by (induction xs arbitrary: io) auto

lemma greet_loots: "loots (snd (greet_member E p g io)) = loots io"
  by (simp add: greet_member_def Let_def exchange_fields_def adopt_difficulty_def UpdatePlayerOutOfRange_def loots_fold)

text \<open>
  Adding a player that is in neither the group nor, for a raid of a battleground, in another
  such raid: either every sub-group is full and nothing happens, or the player is the last
  member, in the first sub-group that has room, and points to the group.
\<close>

lemma AddMember_inv:
  assumes I: "wld_inv w" and J: "may_join this p w" and g: "groups w this = Some g"
  shows "case first_free_subgroup g of
      None \<Rightarrow> AddMember E this p w = Some (False, w)
    | Some i \<Rightarrow> \<exists>w' g'. AddMember E this p w = Some (True, w') \<and> wld_inv w' \<and> groups w' this = Some g' \<and>
        memberSlots g' = memberSlots g @ [\<lparr>msGuid = p, msName = plName E p, msGroup = of_nat i, msFlags = 0, msRoles = 0\<rparr>] \<and>
        (\<forall>t. t \<noteq> this \<longrightarrow> map_option bare (groups w' t) = map_option bare (groups w t)) \<and>
        refTo (gwIo w') = (let (a, b) = joined_refs this (\<not> normal_grp g) (refTo (gwIo w) (p, False), refTo (gwIo w) (p, True))
          in (refTo (gwIo w))((p, False) := a, (p, True) := b)) \<and>
        loots (gwIo w') = loots (gwIo w)"
proof (cases "first_free_subgroup g")
  case None
  then show ?thesis using g by (simp add: AddMember_def)
next
  case (Some i)
  let ?s = "\<lparr>msGuid = p, msName = plName E p, msGroup = of_nat i :: u8, msFlags = 0 :: u8, msRoles = 0 :: u8\<rparr>"
  have i: "i < 8" by (rule first_free_Some(1) [OF Some])
  have np: "\<not> IsMember p g" "\<not> IsFull g" using J g by (auto simp: may_join_def)
  have ok: "grp_ok g" by (rule invD(3) [OF I g])
  let ?f = "push_member E p (of_nat i)"
  from on_grp_inv [OF I g frame_push push_ok [OF ok Some np]] obtain w1 where
    w1: "on_grp this ?f w = Some w1" "wld_inv w1" "groups w1 = (groups w)(this \<mapsto> fst (?f g (gwIo w)))"
    "gwIo w1 = snd (?f g (gwIo w))" "refTo (gwIo w1) = refTo (gwIo w)" by blast
  let ?g1 = "fst (?f g (gwIo w))"
  have g1: "groups w1 this = Some ?g1" "memberSlots ?g1 = memberSlots g @ [?s]" "normal_grp ?g1 = normal_grp g" "loots (gwIo w1) = loots (gwIo w)"
    using w1(3,4) by (simp_all add: push_member_def Let_def normal_grp_def isBGGroup_def isBFGroup_def)
  have "unat (of_nat i :: u8) < 128" using i by (simp add: unat_of_nat)
  moreover have "\<not> normal_grp ?g1 \<longrightarrow> (\<forall>t h. refTo (gwIo w1) (p, False) = Some t \<longrightarrow> groups w1 t = Some h \<longrightarrow> normal_grp h)"
    using J g g1(3) w1(3,5) not_ref_to [OF I g np(1), of False] by (auto simp: may_join_def)
  ultimately have st: "player_step p w1 (point_player this p (of_nat i) w1) (joined_refs this (\<not> normal_grp g)
      (refTo (gwIo w) (p, False), refTo (gwIo w) (p, True)))"
    using point_player_step [OF invD(1) [OF w1(2)] g1(1), of p "of_nat i"] g1(2,3) w1(5) by simp
  obtain a b where ab: "joined_refs this (\<not> normal_grp g) (refTo (gwIo w) (p, False), refTo (gwIo w) (p, True)) = (a, b)"
    by (rule prod.exhaust)
  have "a = None \<or> a \<noteq> b"
    using joined_single [OF ab] not_ref_to [OF I g np(1)] by blast
  from player_step_inv [OF w1(2) st [unfolded ab] this] obtain w2 where
    w2: "point_player this p (of_nat i) w1 = Some w2" "wld_inv w2" "same_groups w1 w2"
    "refTo (gwIo w2) = (refTo (gwIo w1))((p, False) := a, (p, True) := b)" by blast
  from same_groups_some [OF w2(3) g1(1)] obtain g2 where g2: "groups w2 this = Some g2" "bare g2 = bare ?g1" .
  from on_grp_inv [OF w2(2) g2(1) frame_announce announce_ok [OF invD(3) [OF w2(2) g2(1)]]] obtain w3 where
    w3: "on_grp this (announce_member E this p (of_nat i)) w2 = Some w3" "wld_inv w3"
    "groups w3 = (groups w2)(this \<mapsto> fst (announce_member E this p (of_nat i) g2 (gwIo w2)))"
    "gwIo w3 = snd (announce_member E this p (of_nat i) g2 (gwIo w2))" "refTo (gwIo w3) = refTo (gwIo w2)" by blast
  let ?g3 = "fst (announce_member E this p (of_nat i) g2 (gwIo w2))"
  have g3: "groups w3 this = Some ?g3" "memberSlots ?g3 = memberSlots g2" "loots (gwIo w3) = loots (gwIo w2)"
    using w3(3,4) by (simp_all add: announce_member_def Let_def case_prod_unfold cancel_homebind_def)
  from on_grp_inv [OF w3(2) g3(1) frame_greet greet_ok [OF invD(3) [OF w3(2) g3(1)]]] obtain w4 where
    w4: "on_grp this (greet_member E p) w3 = Some w4" "wld_inv w4" "groups w4 = (groups w3)(this \<mapsto> fst (greet_member E p ?g3 (gwIo w3)))"
    "gwIo w4 = snd (greet_member E p ?g3 (gwIo w3))" "refTo (gwIo w4) = refTo (gwIo w3)" by blast
  let ?g4 = "fst (greet_member E p ?g3 (gwIo w3))"
  have g4: "groups w4 this = Some ?g4" "memberSlots ?g4 = memberSlots ?g3" using w4(3) by (simp_all add: greet_member_def Let_def)
  have "loots (gwIo w4) = loots (gwIo w3)" unfolding w4(4) by (rule greet_loots)
  then have L: "loots (gwIo w4) = loots (gwIo w)" using g3(3) w2(3) g1(4) by (simp add: same_groups_def)
  have "AddMember E this p w = Some (True, w4)" using g Some w1(1) w2(1) w3(1) w4(1) by (simp add: AddMember_def)
  moreover have "memberSlots ?g4 = memberSlots g @ [?s]" using g4(2) g3(2) bare_fields(1) [OF g2(2)] g1(2) by simp
  moreover have "map_option bare (groups w4 t) = map_option bare (groups w t)" if "t \<noteq> this" for t
    using that w4(3) w3(3) w2(3) w1(3) by (simp add: same_groups_def)
  moreover have "refTo (gwIo w4) = (refTo (gwIo w))((p, False) := a, (p, True) := b)"
    using w4(5) w3(5) w2(4) w1(5) by simp
  ultimately show ?thesis using Some w4(2) g4(1) L ab by auto
qed

end
