(* ===== verification/GroupLeave.thy ===== *)
theory GroupLeave
  imports GroupInv
begin

text \<open>
  Leaving and disbanding always come to an end, follow no pointer that leads nowhere and keep
  the invariant: a member that has left is in no list of the group any more, and a group that
  is gone is pointed to by nobody.
\<close>

section \<open>Counting leaves the references and the leaders' flags alone\<close>

definition kept_of :: "gio \<Rightarrow> ((gref \<Rightarrow> nat option) \<times> (gref \<Rightarrow> u8)) \<times> (u64 \<Rightarrow> bool)" where
  "kept_of io = (refs_of io, leaderFlag io)"

lemma kept_ofD: "kept_of io' = kept_of io \<Longrightarrow> refs_of io' = refs_of io \<and> leaderFlag io' = leaderFlag io"
  by (simp add: kept_of_def)

lemma kept_geff [simp]: "kept_of (geff e io) = kept_of io" "kept_of (io\<lparr>loots := l\<rparr>) = kept_of io"
  by (simp_all add: kept_of_def)

lemma kept_fold: "(\<And>x io. kept_of (f x io) = kept_of io) \<Longrightarrow> kept_of (fold f xs io) = kept_of io"
  by (induction xs arbitrary: io) auto

lemma kept_draws [simp]: "kept_of (io\<lparr>draws := d\<rparr>) = kept_of io"
  by (simp add: kept_of_def refs_of_def)

lemma kept_send [simp]:
  "kept_of (SendLootRoll E s t n k r io) = kept_of io" "kept_of (SendLootRollWon E s t n k r io) = kept_of io"
  "kept_of (SendLootAllPassed E r io) = kept_of io" "kept_of (snd (NotifyItemRemoved E k tt io)) = kept_of io"
  "kept_of (snd (urand E a b io)) = kept_of io"
  by (simp_all add: SendLootRoll_def SendLootRollWon_def SendLootAllPassed_def send_each_def NotifyItemRemoved_def kept_fold urand_def)

lemma kept_with_loot:
  assumes "with_loot l f io = Some io'" "\<And>t t' io io'. f t io = Some (t', io') \<Longrightarrow> kept_of io' = kept_of io"
  shows "kept_of io' = kept_of io"
proof -
  from assms(1) obtain t t' io1 where "f t io = Some (t', io1)" "io' = io1\<lparr>loots := (loots io1)(l \<mapsto> t')\<rparr>"
    by (auto simp: with_loot_def split: Option.bind_splits)
  with assms(2) [of t io t' io1] show ?thesis by simp
qed

lemma kept_take_item: "take_item E r p t io = Some (t', io') \<Longrightarrow> kept_of io' = kept_of io"
  by (auto simp: take_item_def Let_def case_prod_unfold split: Option.bind_splits if_splits)

lemma kept_disenchant_item: "disenchant_item E r p t io = Some (t', io') \<Longrightarrow> kept_of io' = kept_of io"
  by (auto simp: disenchant_item_def Let_def case_prod_unfold split: Option.bind_splits)

lemma kept_with_item:
  "with_loot l (take_item E r p) io = Some io' \<Longrightarrow> kept_of io' = kept_of io"
  "with_loot l (disenchant_item E r p) io = Some io' \<Longrightarrow> kept_of io' = kept_of io"
  by (erule kept_with_loot, erule kept_take_item) (erule kept_with_loot, erule kept_disenchant_item)

lemma kept_draw_loop: "draw_loop E m r P vs (a, b, c, d, io) = (a', b', c', d', io') \<Longrightarrow> kept_of io' = kept_of io"
proof (induction vs arbitrary: a b c d io)
  case (Cons v vs)
  obtain p w where v: "v = (p, w)" by (cases v)
  show ?case
  proof (cases "P w \<and> eligible E m p")
    case False
    then show ?thesis using Cons v by (auto split: if_splits)
  next
    case True
    let ?n = "ucast (fst (urand E 1 100 io)) :: u8"
    let ?io = "SendLootRoll E 0 p ?n (voteNum w) r (snd (urand E 1 100 io))"
    have "kept_of ?io = kept_of io" by simp
    with Cons.IH [of a ?n p w ?io] Cons.IH [of a b c d ?io] Cons.prems True v show ?thesis
      by (auto simp: Let_def case_prod_unfold split: if_splits)
  qed
qed simp

lemma kept_count_need: "count_need E m l r io = Some (r', io') \<Longrightarrow> kept_of io' = kept_of io"
proof -
  assume c: "count_need E m l r io = Some (r', io')"
  obtain tot mx g v io1 where d: "draw_loop E m r (\<lambda>v. v = NEED) (playerVote r) (totalNeed r, 0, 0, NEED, io) = (tot, mx, g, v, io1)"
    by (rule prod_cases5)
  from c kept_draw_loop [OF d] show ?thesis
    by (auto simp: count_need_def d Let_def split: if_splits Option.bind_splits dest!: kept_with_item)
qed

lemma kept_count_greed: "count_greed E m l r io = Some (r', io') \<Longrightarrow> kept_of io' = kept_of io"
proof -
  assume c: "count_greed E m l r io = Some (r', io')"
  obtain tot mx g v io1 where d: "draw_loop E m r (\<lambda>v. v = GREED \<or> v = DISENCHANT) (playerVote r) (totalGreed r, 0, 0, NOT_VALID, io) =
      (tot, mx, g, v, io1)" by (rule prod_cases5)
  from c kept_draw_loop [OF d] show ?thesis
    by (auto simp: count_greed_def d Let_def split: if_splits Option.bind_splits
        dest!: kept_with_item)
qed

lemma kept_all_passed: "all_passed E l r io = Some io' \<Longrightarrow> kept_of io' = kept_of io"
proof -
  assume c: "all_passed E l r io = Some io'"
  have s: "do { _ \<leftarrow> item_at (rlItemSlot r) t; Some (change_item (rlItemSlot r) (\<lambda>li. li\<lparr>is_blocked := False\<rparr>) t, i) } = Some (t', i') \<Longrightarrow>
      kept_of i' = kept_of i" for t i t' i' by (auto split: Option.bind_splits)
  from c kept_with_loot [OF _ s] show ?thesis by (fastforce simp: all_passed_def Let_def split: if_splits)
qed

lemma kept_CountTheRoll: "CountTheRoll E m i g io = Some (g', io') \<Longrightarrow> kept_of io' = kept_of io"
  by (auto simp: CountTheRoll_def Let_def split: if_splits option.splits Option.bind_splits
      dest!: kept_count_need kept_count_greed kept_all_passed)

section \<open>Votes of one who leaves\<close>

lemma drop_vote_fields [simp]:
  "rlItemGUID (drop_vote guid v r) = rlItemGUID r" "rlLoot (drop_vote guid v r) = rlLoot r"
  "rlItemSlot (drop_vote guid v r) = rlItemSlot r" "rlItemid (drop_vote guid v r) = rlItemid r"
  by (simp_all add: drop_vote_def Let_def)

lemma loot_ready_drop [simp]: "loot_ready E (drop_vote guid v r) io = loot_ready E r io"
  by (simp add: loot_ready_def)

lemma cast_vote_none: "cast_vote E p MAX_ROLL_TYPE r io = (r, io)"
  by (simp add: cast_vote_def roll_types)

text \<open>A vote of the number past the last kind only looks whether the roll is complete.\<close>

lemma CountRollVote_check:
  assumes "rolls_ready E g io"
  shows "\<exists>b rs io'. CountRollVote E p guid MAX_ROLL_TYPE g io = Some (b, g\<lparr>RollId := rs\<rparr>, io') \<and> same_shape io io' \<and>
    kept_of io' = kept_of io \<and> set rs \<subseteq> set (RollId g) \<and> (if b then length rs < length (RollId g) else rs = RollId g)"
proof (cases "GetRoll guid (RollId g)")
  case None
  then show ?thesis by (intro exI [of _ False] exI [of _ "RollId g"] exI [of _ io]) (simp add: CountRollVote_def)
next
  case (Some i)
  from GetRoll_Some [OF Some] obtain l where i: "i < length (RollId g)" and l: "rlLoot (RollId g ! i) = Some l" by blast
  have R: "loot_ready E (RollId g ! i) io" using assms i by (simp add: rolls_ready_def)
  then obtain t where t: "loots io l = Some t" using l by (auto simp: loot_ready_def)
  have same: "g\<lparr>RollId := (RollId g)[i := RollId g ! i]\<rparr> = g" by simp
  show ?thesis
  proof (cases "ltItems t = [] \<or> \<not> roll_complete (RollId g ! i)")
    case True
    then have "CountRollVote E p guid MAX_ROLL_TYPE g io = Some (False, g, io)"
      using Some l t same by (auto simp: CountRollVote_def Let_def cast_vote_none)
    then show ?thesis by (intro exI [of _ False] exI [of _ "RollId g"] exI [of _ io]) simp
  next
    case False
    from CountTheRoll_ok [OF i R, of None] obtain io' where
      c: "CountTheRoll E None i g io = Some (g\<lparr>RollId := erase_nth i (RollId g)\<rparr>, io')" "same_shape io io'" by blast
    then have "CountRollVote E p guid MAX_ROLL_TYPE g io = Some (True, g\<lparr>RollId := erase_nth i (RollId g)\<rparr>, io')"
      using Some l t same False by (auto simp: CountRollVote_def Let_def cast_vote_none)
    with c kept_CountTheRoll [OF c(1)] set_erase_nth [of i "RollId g"] i show ?thesis
      by (intro exI [of _ True] exI [of _ "erase_nth i (RollId g)"] exI [of _ io']) auto
  qed
qed

lemma rolls_ready_mono: "rolls_ready E g io \<Longrightarrow> same_shape io io' \<Longrightarrow> set rs \<subseteq> set (RollId g) \<Longrightarrow> rolls_ready E (g\<lparr>RollId := rs\<rparr>) io'"
  unfolding rolls_ready_def by (auto intro: same_shape_ready)

text \<open>The loop ends: it goes on, or starts again with one roll fewer.\<close>

lemma remove_votes_ok:
  "rolls_ready E g io \<Longrightarrow> i \<le> length (RollId g) \<Longrightarrow>
    \<exists>rs io'. remove_votes E guid i g io = Some (g\<lparr>RollId := rs\<rparr>, io') \<and> kept_of io' = kept_of io"
proof (induction "length (RollId g) * Suc (length (RollId g)) + (length (RollId g) - i)" arbitrary: g io i rule: less_induct)
  case less
  show ?case
  proof (cases "i < length (RollId g)")
    case False
    then show ?thesis by (intro exI [of _ "RollId g"] exI [of _ io]) (simp add: remove_votes.simps)
  next
    case i: True
    show ?thesis
    proof (cases "map_of (playerVote (RollId g ! i)) guid")
      case None
      with less.hyps [of g "Suc i" io] less.prems i show ?thesis by (auto simp: remove_votes.simps [of E guid i])
    next
      case (Some v)
      let ?r = "drop_vote guid v (RollId g ! i)"
      let ?g = "g\<lparr>RollId := (RollId g)[i := ?r]\<rparr>"
      have "rolls_ready E ?g io" using less.prems(1) i set_update_subset_insert [of "RollId g" i ?r]
        unfolding rolls_ready_def by (auto dest!: subsetD [OF set_update_subset_insert])
      from CountRollVote_check [OF this, of guid "rlItemGUID ?r"] obtain b rs io1 where
        c: "CountRollVote E guid (rlItemGUID ?r) MAX_ROLL_TYPE ?g io = Some (b, ?g\<lparr>RollId := rs\<rparr>, io1)" "same_shape io io1"
        "kept_of io1 = kept_of io" "set rs \<subseteq> set (RollId ?g)" "if b then length rs < length (RollId ?g) else rs = RollId ?g" by blast
      have R: "rolls_ready E (?g\<lparr>RollId := rs\<rparr>) io1"
        by (rule rolls_ready_mono [OF \<open>rolls_ready E ?g io\<close> c(2,4)])
      let ?j = "if b then 0 else Suc i"
      have "\<exists>rs' io'. remove_votes E guid ?j (?g\<lparr>RollId := rs\<rparr>) io1 = Some (?g\<lparr>RollId := rs\<rparr>\<lparr>RollId := rs'\<rparr>, io') \<and>
          kept_of io' = kept_of io1"
      proof (rule less.hyps [OF _ R])
        show "?j \<le> length (RollId (?g\<lparr>RollId := rs\<rparr>))" using c(5) i by auto
        show "length (RollId (?g\<lparr>RollId := rs\<rparr>)) * Suc (length (RollId (?g\<lparr>RollId := rs\<rparr>))) +
            (length (RollId (?g\<lparr>RollId := rs\<rparr>)) - ?j) <
          length (RollId g) * Suc (length (RollId g)) + (length (RollId g) - i)"
        proof (cases b)
          case True
          then have "Suc (length rs) * Suc (Suc (length rs)) \<le> length (RollId g) * Suc (length (RollId g))"
            using c(5) by (intro mult_le_mono) auto
          with True show ?thesis by simp
        next
          case False
          with c(5) i show ?thesis by simp
        qed
      qed
      with c(1,3) i Some show ?thesis by (auto simp: remove_votes.simps [of E guid i] Let_def)
    qed
  qed
qed

section \<open>References only go\<close>

definition shrink :: "gw \<Rightarrow> gw \<Rightarrow> bool" where
  "shrink w w' \<longleftrightarrow> (\<forall>q b t. refTo (gwIo w') (q, b) = Some t \<longrightarrow> (\<exists>c. refTo (gwIo w) (q, c) = Some t))"

lemma shrink_same: "refTo (gwIo w') = refTo (gwIo w) \<Longrightarrow> shrink w w'"
  by (auto simp: shrink_def)

lemma shrink_trans: "shrink a b \<Longrightarrow> shrink b c \<Longrightarrow> shrink a c"
  unfolding shrink_def by metis

definition away :: "u64 \<Rightarrow> nat \<Rightarrow> gw \<Rightarrow> bool" where
  "away p t w \<longleftrightarrow> (\<forall>b. refTo (gwIo w) (p, b) \<noteq> Some t)"

lemma away_shrink: "away p t w \<Longrightarrow> shrink w w' \<Longrightarrow> away p t w'"
  unfolding away_def shrink_def by metis

lemma env_ok_shrink: "env_ok E w \<Longrightarrow> shrink w w' \<Longrightarrow> env_ok E w'"
  unfolding env_ok_def shrink_def by (metis not_None_eq)

text \<open>Steps that keep every group but for its list of references and its packet counter.\<close>

definition quiet_step :: "gw \<Rightarrow> gw option \<Rightarrow> (gw \<Rightarrow> bool) \<Rightarrow> bool" where
  "quiet_step w r P \<longleftrightarrow> (\<exists>w'. r = Some w' \<and> wld_inv w' \<and> same_groups w w' \<and> shrink w w' \<and> P w')"

lemma quiet_on_grp:
  assumes "wld_inv w" "groups w t = Some g" "frame f" "bare (fst (f g (gwIo w))) = bare g" "loots (snd (f g (gwIo w))) = loots (gwIo w)"
  shows "quiet_step w (on_grp t f w) (\<lambda>w'. refTo (gwIo w') = refTo (gwIo w))"
proof -
  have "grp_ok (fst (f g (gwIo w)))" using grp_ok_bare [OF assms(4)] invD(3) [OF assms(1,2)] by simp
  from on_grp_inv [OF assms(1-3) this] obtain w' where w': "on_grp t f w = Some w'" "wld_inv w'"
    "groups w' = (groups w)(t \<mapsto> fst (f g (gwIo w)))" "gwIo w' = snd (f g (gwIo w))" "refTo (gwIo w') = refTo (gwIo w)" by blast
  have "same_groups w w'" using w'(3,4) assms(2,4,5) by (simp add: same_groups_def)
  with w' shrink_same show ?thesis by (auto simp: quiet_step_def)
qed

lemma quiet_bind:
  assumes "quiet_step w r P" "\<And>w'. wld_inv w' \<Longrightarrow> same_groups w w' \<Longrightarrow> shrink w w' \<Longrightarrow> P w' \<Longrightarrow> quiet_step w' (f w') Q"
  shows "quiet_step w (do { w \<leftarrow> r; f w }) Q"
proof -
  from assms(1) obtain w1 where 1: "r = Some w1" "wld_inv w1" "same_groups w w1" "shrink w w1" "P w1" by (auto simp: quiet_step_def)
  from assms(2) [OF this(2-5)] obtain w2 where 2: "f w1 = Some w2" "wld_inv w2" "same_groups w1 w2" "shrink w1 w2" "Q w2"
    by (auto simp: quiet_step_def)
  from 1 2 same_groups_trans [OF 1(3) 2(3)] shrink_trans [OF 1(4) 2(4)] show ?thesis by (auto simp: quiet_step_def)
qed

lemma quiet_weaken: "quiet_step w r P \<Longrightarrow> (\<And>w'. shrink w w' \<Longrightarrow> P w' \<Longrightarrow> Q w') \<Longrightarrow> quiet_step w r Q"
  by (auto simp: quiet_step_def)

lemma quiet_detach:
  assumes I: "wld_inv w" and g: "groups w this = Some g"
  shows "quiet_step w (detach_player this p w) (\<lambda>w'. away p this w')"
proof -
  from detach_player_step [OF invD(1,2) [OF I] g, of p] obtain a b where
    ab: "player_step p w (detach_player this p w) (a, b)" "a \<noteq> Some this" "b \<noteq> Some this" "a = None \<or> a \<noteq> b"
    "a = refTo (gwIo w) (p, False) \<or> a = refTo (gwIo w) (p, True) \<or> a = None" "b = refTo (gwIo w) (p, True) \<or> b = None" by blast
  from player_step_inv [OF I ab(1,4)] obtain w' where w': "detach_player this p w = Some w'" "wld_inv w'" "same_groups w w'"
    "refTo (gwIo w') = (refTo (gwIo w))((p, False) := a, (p, True) := b)" by blast
  have "shrink w w'" unfolding shrink_def w'(4) using ab(5,6) by (auto split: if_splits)
  moreover have "away p this w'" using ab(2,3) by (simp add: away_def w'(4))
  ultimately show ?thesis using w' by (auto simp: quiet_step_def)
qed

section \<open>Disbanding\<close>

lemma bare_SendUpdate [simp]: "bare (fst (SendUpdate E t g io)) = bare g"
  using SendUpdate_only [of E t g io] by auto

lemma frame_same: "(\<And>g io. fst (f g io) = g) \<Longrightarrow> (\<And>g io. refs_of (snd (f g io)) = refs_of io) \<Longrightarrow> frame f"
  by (rule frameI) auto

lemma loots_homebind [simp]: "loots (homebind_if_instance E p io) = loots io"
  by (simp add: homebind_if_instance_def)

lemma quiet_disband_member:
  assumes I: "wld_inv w" and g: "groups w this = Some g"
  shows "quiet_step w (disband_member E this h p w) (\<lambda>w'. online E p \<longrightarrow> away p this w')"
proof -
  let ?f1 = "\<lambda>g io. let io = (if normal_grp g then geff (Call ''UpdateGlobalPlayerGroup'' [G32 (GUID_LOPART p), G32 0]) io else io);
      io = homebind_if_instance E p io;
      io = (if normal_grp g then geff (Call ''ResetInstances'' [G64 p, GStr ''INSTANCE_RESET_GROUP_LEAVE'']) io else io) in (g, io)"
  let ?f2 = "\<lambda>g io. let io = (if isRaidGroup g then geff (Call ''UpdateForQuestWorldObjects'' [G64 p]) io else io);
      io = (if \<not> h then geff (Send p SMSG_GROUP_DESTROYED []) io else io) in (g, io)"
  let ?rest = "\<lambda>w. if \<not> online E p then Some w else do { w \<leftarrow> detach_player this p w; w \<leftarrow> on_grp this ?f2 w;
      case GetGroup p w of Some t \<Rightarrow> on_grp t (SendUpdate E t) w | None \<Rightarrow> on_grp this (\<lambda>g io. (g, geff (empty_list p g) io)) w }"
  have run: "disband_member E this h p w = do { w \<leftarrow> on_grp this ?f1 w; ?rest w }" by (simp add: disband_member_def)
  have f: "frame ?f1" "frame ?f2" "frame (\<lambda>g io. (g, geff (empty_list p g) io))"
    by (auto intro!: frame_same simp: Let_def)
  show ?thesis unfolding run
  proof (rule quiet_bind [OF quiet_on_grp [OF I g f(1)]])
    fix w1 assume w1: "wld_inv w1" "same_groups w w1" "shrink w w1"
    from same_groups_some [OF w1(2) g] obtain g1 where g1: "groups w1 this = Some g1" .
    show "quiet_step w1 (?rest w1) (\<lambda>w'. online E p \<longrightarrow> away p this w')"
    proof (cases "online E p")
      case False
      then show ?thesis using w1(1) shrink_same [of w1 w1] by (simp add: quiet_step_def)
    next
      case True
      have "quiet_step w1 (do { w \<leftarrow> detach_player this p w1; w \<leftarrow> on_grp this ?f2 w;
        case GetGroup p w of Some t \<Rightarrow> on_grp t (SendUpdate E t) w | None \<Rightarrow> on_grp this (\<lambda>g io. (g, geff (empty_list p g) io)) w })
        (\<lambda>w'. away p this w')"
      proof (rule quiet_bind [OF quiet_detach [OF w1(1) g1]])
        fix w2 assume w2: "wld_inv w2" "same_groups w1 w2" "shrink w1 w2" "away p this w2"
        from same_groups_some [OF w2(2) g1] obtain g2 where g2: "groups w2 this = Some g2" .
        show "quiet_step w2 (do { w \<leftarrow> on_grp this ?f2 w2;
          case GetGroup p w of Some t \<Rightarrow> on_grp t (SendUpdate E t) w | None \<Rightarrow> on_grp this (\<lambda>g io. (g, geff (empty_list p g) io)) w })
          (\<lambda>w'. away p this w')"
        proof (rule quiet_bind [OF quiet_on_grp [OF w2(1) g2 f(2)]])
          fix w3 assume w3: "wld_inv w3" "same_groups w2 w3" "shrink w2 w3"
          have a: "away p this w3" using away_shrink [OF w2(4) w3(3)] .
          from same_groups_some [OF w3(2) g2] obtain g3 where g3: "groups w3 this = Some g3" .
          show "quiet_step w3 (case GetGroup p w3 of Some t \<Rightarrow> on_grp t (SendUpdate E t) w3
              | None \<Rightarrow> on_grp this (\<lambda>g io. (g, geff (empty_list p g) io)) w3) (\<lambda>w'. away p this w')"
          proof (cases "GetGroup p w3")
            case None
            then show ?thesis using quiet_on_grp [OF w3(1) g3 f(3)] a by (auto elim!: quiet_weaken intro: away_shrink)
          next
            case (Some t)
            then obtain h where h: "groups w3 t = Some h"
              using owners_okD [OF invD(1) [OF w3(1)], of p False t] by (auto simp: GetGroup_def)
            have "quiet_step w3 (on_grp t (SendUpdate E t) w3) (\<lambda>w'. refTo (gwIo w') = refTo (gwIo w3))"
              by (rule quiet_on_grp [OF w3(1) h frame_SendUpdate]) simp_all
            with Some a show ?thesis by (auto elim!: quiet_weaken intro: away_shrink)
          qed
        qed (simp_all add: Let_def)
      qed
      with True show ?thesis by (auto elim!: quiet_weaken)
    qed
  qed (simp_all add: Let_def)
qed

lemma quiet_disband_members:
  assumes "wld_inv w" "groups w this = Some g"
  shows "quiet_step w (disband_members E this h ps w) (\<lambda>w'. \<forall>p\<in>set ps. online E p \<longrightarrow> away p this w')"
  using assms
proof (induction ps arbitrary: w g)
  case Nil
  then show ?case using shrink_same [of w w] by (simp add: quiet_step_def)
next
  case (Cons p ps)
  have "quiet_step w (do { w \<leftarrow> disband_member E this h p w; disband_members E this h ps w })
      (\<lambda>w'. \<forall>q\<in>set (p # ps). online E q \<longrightarrow> away q this w')"
  proof (rule quiet_bind [OF quiet_disband_member [OF Cons.prems]])
    fix w1 assume w1: "wld_inv w1" "same_groups w w1" "online E p \<longrightarrow> away p this w1"
    from same_groups_some [OF w1(2) Cons.prems(2)] obtain g1 where "groups w1 this = Some g1" .
    show "quiet_step w1 (disband_members E this h ps w1) (\<lambda>w'. \<forall>q\<in>set (p # ps). online E q \<longrightarrow> away q this w')"
      by (rule quiet_weaken [OF Cons.IH [OF w1(1) \<open>groups w1 this = Some g1\<close>]]) (use w1(3) in \<open>auto intro: away_shrink\<close>)
  qed
  then show ?case by simp
qed


text \<open>Nobody refers to a group when its online members have left it.\<close>

lemma nobody_left:
  assumes "wld_inv w" "env_ok E w" "groups w this = Some g" "\<And>p. p \<in> msGuid ` set (memberSlots g) \<Longrightarrow> online E p \<Longrightarrow> away p this w"
  shows "refTo (gwIo w) r \<noteq> Some this"
proof
  obtain p b where r: "r = (p, b)" by (cases r)
  assume a: "refTo (gwIo w) r = Some this"
  then have "online E p" using assms(2) r by (auto simp: env_ok_def)
  moreover have "p \<in> msGuid ` set (memberSlots g)"
    using owners_okD [OF invD(1) [OF assms(1)], of p b this] a r assms(3) by auto
  ultimately show False using assms(4) [of p] a r by (auto simp: away_def)
qed

lemma disband_end_fields [simp]:
  "memberMgr (fst (disband_end g io)) = memberMgr g" "grpGuid (fst (disband_end g io)) = grpGuid g"
  "refs_of (snd (disband_end g io)) = refs_of io"
  by (simp_all add: disband_end_def RemoveAllInvites_def Let_def case_prod_unfold refs_fold)

text \<open>The end of a group nobody refers to.\<close>

lemma delete_ok:
  assumes I: "wld_inv w" and g: "groups w this = Some g" and none: "\<And>r. refTo (gwIo w) r \<noteq> Some this"
  shows "\<exists>w'. do { w \<leftarrow> on_grp this disband_end w; w \<leftarrow> RemoveGroup this w; delete_group this w } = Some w' \<and> wld_inv w' \<and>
    groups w' = (groups w)(this := None) \<and> refTo (gwIo w') = refTo (gwIo w) \<and> GetGroupByGUID (GetLowGUID g) w' = None"
proof -
  let ?r = "do { w \<leftarrow> on_grp this disband_end w; w \<leftarrow> RemoveGroup this w; delete_group this w }"
  let ?d = "disband_end g (gwIo w)"
  have L: "links_ok w" using invD(1) [OF I] by (simp add: world_ok_def)
  have m: "memberMgr g = []" using links_okD(3) [OF L g] none by (cases "memberMgr g") auto
  have f: "refTo (snd ?d) = refTo (gwIo w)" "refSub (snd ?d) = refSub (gwIo w)"
    using disband_end_fields(3) [of g "gwIo w"] by (simp_all add: refs_of_def)
  obtain w' where w': "?r = Some w'" "groups w' = (groups w)(this := None)" "refTo (gwIo w') = refTo (gwIo w)"
    "refSub (gwIo w') = refSub (gwIo w)" "GetGroupByGUID (GetLowGUID g) w' = None"
    using g m f by (simp add: on_grp_some RemoveGroup_def delete_group_def Let_def GetGroupByGUID_def GetLowGUID_def)
  have G: "groups w' t = Some g' \<longleftrightarrow> t \<noteq> this \<and> groups w t = Some g'" for t g' using w'(2) by auto
  have "links_ok w'"
  proof (rule links_okI)
    show "\<exists>g. groups w' t = Some g" if "refTo (gwIo w') r = Some t" for r t
      using that links_okD(1) [OF L, of r t] none [of r] unfolding G w'(3) by auto
    show "distinct (memberMgr g')" if "groups w' t = Some g'" for t g'
      using that links_okD(2) [OF L] unfolding G by blast
    show "r \<in> set (memberMgr g') \<longleftrightarrow> refTo (gwIo w') r = Some t" if "groups w' t = Some g'" for t g' r
      using that links_okD(3) [OF L] unfolding G w'(3) by blast
  qed
  moreover have "owners_ok w'" using invD(1) [OF I] unfolding world_ok_def owners_ok_def G w'(3) by blast
  moreover have "subs_ok w'" using invD(1) [OF I] w'(4) by (simp add: world_ok_def subs_ok_def)
  moreover have "single_ok w'" using invD(2) [OF I] w'(3) by (simp add: single_ok_def)
  ultimately have "wld_inv w'" using invD(3) [OF I] unfolding wld_inv_def world_ok_def G by blast
  with w' show ?thesis by blast
qed

lemma Disband_ok:
  assumes I: "wld_inv w" and E: "env_ok E w" and g: "groups w this = Some g"
  shows "\<exists>w'. Disband E this h w = Some w' \<and> wld_inv w' \<and> groups w' this = None \<and> (\<forall>r. refTo (gwIo w') r \<noteq> Some this) \<and>
    (\<forall>t. t \<noteq> this \<longrightarrow> map_option bare (groups w' t) = map_option bare (groups w t)) \<and> shrink w w' \<and>
    GetGroupByGUID (GetLowGUID g) w' = None"
proof -
  let ?w = "weff (Hook ''OnGroupDisband'' [G64 (grpGuid g)]) w"
  have I': "wld_inv ?w" using I by (simp add: wld_inv_def single_ok_def)
  from quiet_disband_members [OF I', of this g E h "map msGuid (memberSlots g)"] g obtain w1 where
    w1: "disband_members E this h (map msGuid (memberSlots g)) ?w = Some w1" "wld_inv w1" "same_groups ?w w1" "shrink ?w w1"
    "\<forall>p\<in>msGuid ` set (memberSlots g). online E p \<longrightarrow> away p this w1" by (auto simp: quiet_step_def)
  have s: "shrink w w1" using w1(4) by (simp add: shrink_def)
  from same_groups_some [OF w1(3)] g obtain g1 where g1: "groups w1 this = Some g1" "bare g1 = bare g" by auto
  have none: "refTo (gwIo w1) r \<noteq> Some this" for r
    using nobody_left [OF w1(2) env_ok_shrink [OF E s] g1(1)] w1(5) bare_fields(1) [OF g1(2)] by auto
  from delete_ok [OF w1(2) g1(1) none] obtain w' where
    w': "do { w \<leftarrow> on_grp this disband_end w1; w \<leftarrow> RemoveGroup this w; delete_group this w } = Some w'" "wld_inv w'"
    "groups w' = (groups w1)(this := None)" "refTo (gwIo w') = refTo (gwIo w1)" "GetGroupByGUID (GetLowGUID g1) w' = None" by blast
  have "Disband E this h w = Some w'" using g w1(1) w'(1) by (simp add: Disband_def Let_def)
  moreover have "map_option bare (groups w' t) = map_option bare (groups w t)" if "t \<noteq> this" for t
    using that w'(3) w1(3) by (simp add: same_groups_def)
  moreover have "shrink w w'" using shrink_trans [OF s shrink_same] w'(4) by blast
  moreover have "GetLowGUID g1 = GetLowGUID g" using bare_fields(9) [OF g1(2)] by (simp add: GetLowGUID_def)
  ultimately show ?thesis using w' none by auto
qed

section \<open>Leaving\<close>

lemma loots_leave: "fst (leave_notice E m p g io) = g" "loots (snd (leave_notice E m p g io)) = loots io"
  by (simp_all add: leave_notice_def Let_def)

lemma quiet_leave_start:
  assumes I: "wld_inv w" and E: "env_ok E w" and g: "groups w this = Some g"
  shows "quiet_step w (if online E p then do { w \<leftarrow> detach_player this p w; on_grp this (leave_notice E m p) w } else Some w)
    (\<lambda>w'. away p this w')"
proof (cases "online E p")
  case True
  have "quiet_step w (do { w \<leftarrow> detach_player this p w; on_grp this (leave_notice E m p) w }) (\<lambda>w'. away p this w')"
  proof (rule quiet_bind [OF quiet_detach [OF I g]])
    fix w1 assume w1: "wld_inv w1" "same_groups w w1" "away p this w1"
    from same_groups_some [OF w1(2) g] obtain g1 where g1: "groups w1 this = Some g1" .
    show "quiet_step w1 (on_grp this (leave_notice E m p) w1) (\<lambda>w'. away p this w')"
      by (rule quiet_weaken [OF quiet_on_grp [OF w1(1) g1 frame_leave]])
        (use w1(3) away_shrink in \<open>auto simp: loots_leave\<close>)
  qed
  with True show ?thesis by simp
next
  case False
  then have "away p this w" using E by (auto simp: env_ok_def away_def)
  with False I show ?thesis using shrink_same [of w w] by (simp add: quiet_step_def)
qed

lemma drop_slot_fields [simp]:
  "memberMgr (fst (drop_slot p g io)) = memberMgr g" "bgGroup (fst (drop_slot p g io)) = bgGroup g"
  "bfGroup (fst (drop_slot p g io)) = bfGroup g" "refs_of (snd (drop_slot p g io)) = refs_of io"
  "normal_grp (fst (drop_slot p g io)) = normal_grp g" "isLFGGroup (fst (drop_slot p g io)) = isLFGGroup g"
  by (auto simp: drop_slot_def Let_def SubGroupCounterDecrease_def normal_grp_def isBGGroup_def isBFGroup_def isLFGGroup_def split: option.split)

text \<open>The slot of a member goes when the member has no reference to the group.\<close>

lemma drop_slot_inv:
  assumes I: "wld_inv w" and g: "groups w this = Some g" and a: "away p this w"
  shows "\<exists>w'. on_grp this (drop_slot p) w = Some w' \<and> wld_inv w' \<and> groups w' = (groups w)(this \<mapsto> fst (drop_slot p g (gwIo w))) \<and>
    refTo (gwIo w') = refTo (gwIo w)"
proof -
  let ?d = "drop_slot p g (gwIo w)"
  let ?w = "w\<lparr>groups := (groups w)(this \<mapsto> fst ?d), gwIo := snd ?d\<rparr>"
  have f: "refTo (snd ?d) = refTo (gwIo w)" "refSub (snd ?d) = refSub (gwIo w)"
    using drop_slot_fields(4) [of p g "gwIo w"] by (simp_all add: refs_of_def)
  have W: "world_ok w" and ok: "grp_ok g" using invD [OF I] g by blast+
  have L: "links_ok w" using W by (simp add: world_ok_def)
  have G: "groups ?w t = Some g' \<longleftrightarrow> (if t = this then g' = fst ?d else groups w t = Some g')" for t g' by auto
  have R: "refTo (gwIo ?w) = refTo (gwIo w)" using f by simp
  have "links_ok ?w"
  proof (rule links_okI)
    show "\<exists>g. groups ?w t = Some g" if "refTo (gwIo ?w) r = Some t" for r t
      using that links_okD(1) [OF L, of r t] unfolding R by auto
    show "distinct (memberMgr g')" if "groups ?w t = Some g'" for t g'
      using that links_okD(2) [OF L] g unfolding G by (metis drop_slot_fields(1))
    show "r \<in> set (memberMgr g') \<longleftrightarrow> refTo (gwIo ?w) r = Some t" if "groups ?w t = Some g'" for t g' r
      using that links_okD(3) [OF L] g unfolding G R by (metis drop_slot_fields(1))
  qed
  moreover have "owners_ok ?w" unfolding owners_ok_def
  proof (intro allI impI)
    fix q b t g' assume r: "refTo (gwIo ?w) (q, b) = Some t" and g': "groups ?w t = Some g'"
    from owners_okD [OF W r [unfolded R]] obtain h where h: "groups w t = Some h" "q \<in> msGuid ` set (memberSlots h)" "b \<longrightarrow> normal_grp h" .
    show "q \<in> msGuid ` set (memberSlots g') \<and> (b \<longrightarrow> normal_grp g')"
    proof (cases "t = this")
      case True
      have "q \<noteq> p" using a r unfolding R True away_def by auto
      with True g' g h drop_slot_guids [of g p "gwIo w"] ok show ?thesis by (auto simp: grp_ok_def)
    next
      case False
      with g' h show ?thesis by simp
    qed
  qed
  moreover have "subs_ok ?w" using W f by (simp add: world_ok_def subs_ok_def)
  moreover have "single_ok ?w" using invD(2) [OF I] f by (simp add: single_ok_def)
  moreover have "grp_ok g'" if "groups ?w t = Some g'" for t g'
    using that drop_slot_ok [OF ok] invD(3) [OF I] unfolding G by (metis (no_types))
  ultimately have "wld_inv ?w" unfolding wld_inv_def world_ok_def by blast
  with on_grp_some [OF g] f show ?thesis by auto
qed

text \<open>The votes of the one who leaves are counted out of the rolls.\<close>

lemma remove_votes_inv:
  assumes I: "wld_inv w" and g: "groups w this = Some g" and r: "rolls_ready E g (gwIo w)"
  shows "\<exists>w' rs. on_grp_opt this (remove_votes E p 0) w = Some w' \<and> wld_inv w' \<and> groups w' = (groups w)(this \<mapsto> g\<lparr>RollId := rs\<rparr>) \<and>
    refTo (gwIo w') = refTo (gwIo w) \<and> leaderFlag (gwIo w') = leaderFlag (gwIo w)"
proof -
  from remove_votes_ok [OF r, of 0 p] obtain rs io' where
    v: "remove_votes E p 0 g (gwIo w) = Some (g\<lparr>RollId := rs\<rparr>, io')" "refs_of io' = refs_of (gwIo w)" "leaderFlag io' = leaderFlag (gwIo w)"
    using kept_ofD by blast
  let ?w = "w\<lparr>groups := (groups w)(this \<mapsto> g\<lparr>RollId := rs\<rparr>), gwIo := io'\<rparr>"
  have f: "refTo io' = refTo (gwIo w)" "refSub io' = refSub (gwIo w)" using v(2) by (simp_all add: refs_of_def)
  have same: "frame (\<lambda>h io. (h\<lparr>RollId := rs\<rparr>, io\<lparr>loots := loots io', draws := draws io', hiItemGuid := hiItemGuid io', gout := gout io',
      invitedTo := invitedTo io', leaderFlag := leaderFlag io', plDungeonDifficulty := plDungeonDifficulty io',
      plRaidDifficulty := plRaidDifficulty io'\<rparr>))"
    by (rule frameI) (auto simp: refs_of_def)
  have "gwIo w\<lparr>loots := loots io', draws := draws io', hiItemGuid := hiItemGuid io', gout := gout io',
      invitedTo := invitedTo io', leaderFlag := leaderFlag io', plDungeonDifficulty := plDungeonDifficulty io',
      plRaidDifficulty := plRaidDifficulty io'\<rparr> = io'" using f by (simp add: gio.equality)
  with on_grp_inv [OF I g same] invD(3) [OF I g] on_grp_some [OF g] have "wld_inv ?w" by fastforce
  moreover have "on_grp_opt this (remove_votes E p 0) w = Some ?w" using g v(1) by (simp add: on_grp_opt_def)
  ultimately show ?thesis using f v(3) by (intro exI [of _ ?w] exI [of _ rs]) simp
qed

lemma drop_slot_order:
  assumes "distinct (map msGuid (memberSlots g))"
  shows "map msGuid (memberSlots (fst (drop_slot p g io))) = filter (\<lambda>q. q \<noteq> p) (map msGuid (memberSlots g))"
    "leaderGuid (fst (drop_slot p g io)) = leaderGuid g" "leaderFlag (snd (drop_slot p g io)) = leaderFlag io"
proof -
  show "map msGuid (memberSlots (fst (drop_slot p g io))) = filter (\<lambda>q. q \<noteq> p) (map msGuid (memberSlots g))"
  proof (cases "getMemberSlot p (memberSlots g)")
    case None
    then have "p \<notin> msGuid ` set (memberSlots g)" by (simp add: getMemberSlot_None)
    then have "filter (\<lambda>q. q \<noteq> p) (map msGuid (memberSlots g)) = map msGuid (memberSlots g)" by (auto simp: filter_id_conv)
    with None show ?thesis by (simp add: drop_slot_def)
  next
    case (Some i)
    let ?ss = "memberSlots g"
    have i: "i < length ?ss" "msGuid (?ss ! i) = p" using getMemberSlot_Some [OF Some] by blast+
    have s: "map msGuid ?ss = map msGuid (take i ?ss) @ p # map msGuid (drop (Suc i) ?ss)"
      using arg_cong [OF id_take_nth_drop [OF i(1)], of "map msGuid"] i(2) by simp
    with assms have "p \<notin> set (map msGuid (take i ?ss))" "p \<notin> set (map msGuid (drop (Suc i) ?ss))" by (simp_all del: set_map)
    moreover have "p \<notin> set xs \<Longrightarrow> filter (\<lambda>q. q \<noteq> p) xs = xs" for xs :: "u64 list" by (auto simp: filter_id_conv)
    ultimately have "filter (\<lambda>q. q \<noteq> p) (map msGuid ?ss) = map msGuid (take i ?ss) @ map msGuid (drop (Suc i) ?ss)"
      by (subst s) (simp only: filter_append filter.simps simp_thms if_True if_False)
    with Some show ?thesis
      by (simp add: drop_slot_def Let_def SubGroupCounterDecrease_def erase_nth_def split: option.split)
  qed
  show "leaderGuid (fst (drop_slot p g io)) = leaderGuid g" "leaderFlag (snd (drop_slot p g io)) = leaderFlag io"
    by (auto simp: drop_slot_def Let_def SubGroupCounterDecrease_def split: option.split)
qed

text \<open>The pointers of a player move without a change of the leaders' flags.\<close>

lemma flag_links:
  "leaderFlag (gwIo (gref_unlink r w)) = leaderFlag (gwIo w)"
  "gref_link r t s w = Some w' \<Longrightarrow> leaderFlag (gwIo w') = leaderFlag (gwIo w)"
  by (auto simp: gref_unlink_def gref_link_def Let_def split: option.split option.splits Option.bind_splits if_splits)

lemma flag_detach: "detach_player this p w = Some w' \<Longrightarrow> leaderFlag (gwIo w') = leaderFlag (gwIo w)"
  by (auto simp: detach_player_def RemoveFromBattlegroundOrBattlefieldRaid_def SetOriginalGroup_def SetGroup_def Let_def weff_def
      flag_links split: Option.bind_splits if_splits option.splits dest!: flag_links(2))

definition left_members :: "u64 \<Rightarrow> grp \<Rightarrow> u64 set" where
  "left_members p g = msGuid ` set (memberSlots g) - {p}"

lemma farewell_guids: "map msGuid (memberSlots (fst (farewell E t guid m k r g io))) = map msGuid (memberSlots g)"
  by (auto simp: farewell_def Let_def case_prod_unfold)

definition leave_steps :: "grpEnv \<Rightarrow> nat \<Rightarrow> u64 \<Rightarrow> removeMethod \<Rightarrow> u64 \<Rightarrow> string option \<Rightarrow> gw \<Rightarrow> gw option" where
  "leave_steps E this guid meth kicker reason w = do {
       w \<leftarrow> (if online E guid then do { w \<leftarrow> detach_player this guid w; on_grp this (leave_notice E meth guid) w } else Some w);
       w \<leftarrow> on_grp this (drop_record E guid) w;
       w \<leftarrow> on_grp_opt this (remove_votes E guid 0) w;
       w \<leftarrow> on_grp this (drop_slot guid) w;
       on_grp this (farewell E this guid meth kicker reason) w }"

lemma RemoveMember_steps:
  assumes "on_grp this (\<lambda>g io. (g, BroadcastGroupUpdate E g io)) w = Some w0" "groups w0 this = Some g0"
    "\<not> (isLFGGroup g0 \<and> meth = RM_KICK)" "GetMembersCount g0 > (if isBGGroup g0 \<or> isLFGGroup g0 \<or> isBFGroup g0 then 1 else 2)"
  shows "RemoveMember E this guid meth kicker reason w = do {
     w \<leftarrow> leave_steps E this guid meth kicker reason w0;
     g \<leftarrow> groups w this;
     if lfg_left E g then do { w \<leftarrow> Disband E this False w; Some (False, w) }
     else if length (memberMgr g) < (if isLFGGroup g \<or> isBGGroup g \<or> isBFGroup g then 1 else 2)
       then do { w \<leftarrow> Disband E this False w; Some (False, w) }
     else Some (True, w) }"
  unfolding RemoveMember_def leave_steps_def assms(1) bind.bind_lunit assms(2) if_P [OF assms(4)] if_not_P [OF assms(3)] Option.bind_assoc ..

text \<open>A group of enough members: the one who leaves is in no list of it any more.\<close>

lemma leave_run:
  assumes I: "wld_inv w" and E: "env_ok E w" and g: "groups w this = Some g" and r: "rolls_ready E g (gwIo w)"
  shows "\<exists>w' g'. leave_steps E this guid meth kicker reason w = Some w' \<and> wld_inv w' \<and> shrink w w' \<and> groups w' this = Some g' \<and>
     msGuid ` set (memberSlots g') = left_members guid g \<and> away guid this w' \<and>
     (\<forall>t. t \<noteq> this \<longrightarrow> map_option bare (groups w' t) = map_option bare (groups w t)) \<and>
     (\<exists>h io. g' = fst (farewell E this guid meth kicker reason h io) \<and> gwIo w' = snd (farewell E this guid meth kicker reason h io) \<and>
       map msGuid (memberSlots h) = filter (\<lambda>q. q \<noteq> guid) (map msGuid (memberSlots g)) \<and>
       leaderGuid h = leaderGuid g \<and> leaderFlag io = leaderFlag (gwIo w))"
proof -
  from quiet_leave_start [OF I E g, of guid meth] obtain w1 where
    w1: "(if online E guid then do { w \<leftarrow> detach_player this guid w; on_grp this (leave_notice E meth guid) w } else Some w) = Some w1"
    "wld_inv w1" "same_groups w w1" "shrink w w1" "away guid this w1" unfolding quiet_step_def by blast
  from same_groups_some [OF w1(3) g] obtain g1 where g1: "groups w1 this = Some g1" "bare g1 = bare g" .
  from on_grp_inv [OF w1(2) g1(1) frame_drop_record drop_record_ok [OF invD(3) [OF w1(2) g1(1)]]] obtain w2 where
    w2: "on_grp this (drop_record E guid) w1 = Some w2" "wld_inv w2" "groups w2 = (groups w1)(this \<mapsto> fst (drop_record E guid g1 (gwIo w1)))"
    "gwIo w2 = snd (drop_record E guid g1 (gwIo w1))" "refTo (gwIo w2) = refTo (gwIo w1)" by blast
  obtain l io2 where d: "drop_record E guid g1 (gwIo w1) = (g1\<lparr>maxEnchantingLevel := l\<rparr>, io2)" "only_out (gwIo w1) io2"
    using drop_record_only by blast
  let ?g2 = "g1\<lparr>maxEnchantingLevel := l\<rparr>"
  have g2: "groups w2 this = Some ?g2" using w2(3) d(1) by simp
  have "loots (gwIo w2) = loots (gwIo w)" using w1(3) w2(4) d only_out_fields [OF d(2)] by (simp add: same_groups_def)
  then have "rolls_ready E ?g2 (gwIo w2)" using r bare_fields(7) [OF g1(2)] by (simp add: rolls_ready_def loot_ready_def)
  from remove_votes_inv [OF w2(2) g2 this, of guid] obtain w3 rs where
    w3: "on_grp_opt this (remove_votes E guid 0) w2 = Some w3" "wld_inv w3" "groups w3 = (groups w2)(this \<mapsto> ?g2\<lparr>RollId := rs\<rparr>)"
    "refTo (gwIo w3) = refTo (gwIo w2)" "leaderFlag (gwIo w3) = leaderFlag (gwIo w2)" by blast
  let ?g3 = "?g2\<lparr>RollId := rs\<rparr>"
  have g3: "groups w3 this = Some ?g3" using w3(3) by simp
  have a3: "away guid this w3" using w1(5) w2(5) w3(4) by (simp add: away_def)
  from drop_slot_inv [OF w3(2) g3 a3] obtain w4 where
    w4: "on_grp this (drop_slot guid) w3 = Some w4" "wld_inv w4" "groups w4 = (groups w3)(this \<mapsto> fst (drop_slot guid ?g3 (gwIo w3)))"
    "refTo (gwIo w4) = refTo (gwIo w3)" by blast
  let ?g4 = "fst (drop_slot guid ?g3 (gwIo w3))"
  have g4: "groups w4 this = Some ?g4" using w4(3) by simp
  have d3: "distinct (map msGuid (memberSlots ?g3))" using invD(3) [OF w3(2) g3] by (simp add: grp_ok_def)
  from drop_slot_guids [OF this] have m4: "msGuid ` set (memberSlots ?g4) = left_members guid g"
    using bare_fields(1) [OF g1(2)] by (simp add: left_members_def)
  from on_grp_inv [OF w4(2) g4 frame_farewell farewell_ok [OF invD(3) [OF w4(2) g4]]] obtain w5 where
    w5: "on_grp this (farewell E this guid meth kicker reason) w4 = Some w5" "wld_inv w5"
    "groups w5 = (groups w4)(this \<mapsto> fst (farewell E this guid meth kicker reason ?g4 (gwIo w4)))" "refTo (gwIo w5) = refTo (gwIo w4)"
    "gwIo w5 = snd (farewell E this guid meth kicker reason ?g4 (gwIo w4))" by blast
  have io4: "gwIo w4 = snd (drop_slot guid ?g3 (gwIo w3))" using w4(1) on_grp_some [OF g3] by auto
  have f1: "leaderFlag (gwIo w1) = leaderFlag (gwIo w)"
    using w1(1) by (auto simp: on_grp_def case_prod_unfold Let_def leave_notice_def split: if_splits Option.bind_splits dest!: flag_detach)
  have "map msGuid (memberSlots ?g4) = filter (\<lambda>q. q \<noteq> guid) (map msGuid (memberSlots g))" "leaderGuid ?g4 = leaderGuid g"
    using drop_slot_order(1,2) [OF d3, of guid "gwIo w3"] bare_fields(1,8) [OF g1(2)] by simp_all
  moreover have "leaderFlag (gwIo w4) = leaderFlag (gwIo w)"
    using drop_slot_order(3) [OF d3, of guid "gwIo w3"] io4 w3(5) w2(4) d only_out_fields [OF d(2)] f1 by simp
  ultimately have tail: "\<exists>h io. fst (farewell E this guid meth kicker reason ?g4 (gwIo w4)) = fst (farewell E this guid meth kicker reason h io) \<and>
      gwIo w5 = snd (farewell E this guid meth kicker reason h io) \<and>
      map msGuid (memberSlots h) = filter (\<lambda>q. q \<noteq> guid) (map msGuid (memberSlots g)) \<and>
      leaderGuid h = leaderGuid g \<and> leaderFlag io = leaderFlag (gwIo w)"
    using w5(5) by blast
  let ?g5 = "fst (farewell E this guid meth kicker reason ?g4 (gwIo w4))"
  have "msGuid ` set (memberSlots ?g5) = left_members guid g"
    using m4 arg_cong [OF farewell_guids [of E this guid meth kicker reason ?g4 "gwIo w4"], of set] by simp
  moreover have R: "refTo (gwIo w5) = refTo (gwIo w1)" using w5(4) w4(4) w3(4) w2(5) by simp
  moreover have "shrink w w5" using shrink_trans [OF w1(4) shrink_same] R by blast
  moreover have "away guid this w5" using w1(5) R by (simp add: away_def)
  moreover have "map_option bare (groups w5 t) = map_option bare (groups w t)" if "t \<noteq> this" for t
    using that w5(3) w4(3) w3(3) w2(3) w1(3) by (simp add: same_groups_def)
  ultimately show ?thesis using w1(1) w2(1) w3(1) w4(1) w5(1,2,3) tail
    by (intro exI [of _ w5] exI [of _ ?g5]) (simp add: leave_steps_def)
qed

text \<open>What is left of a group that a player leaves or is removed from.\<close>

definition after_leave :: "nat \<Rightarrow> u64 \<Rightarrow> gw \<Rightarrow> gw \<Rightarrow> bool \<Rightarrow> bool" where
  "after_leave this p w w' b \<longleftrightarrow> wld_inv w' \<and> shrink w w' \<and> away p this w' \<and>
     (case (groups w this, groups w' this) of
        (Some g, Some g') \<Rightarrow> b \<and> msGuid ` set (memberSlots g') = left_members p g
      | (Some g, None) \<Rightarrow> \<not> b \<and> (\<forall>r. refTo (gwIo w') r \<noteq> Some this)
      | _ \<Rightarrow> False) \<and>
     (\<forall>t. t \<noteq> this \<longrightarrow> map_option bare (groups w' t) = map_option bare (groups w t))"

lemma disbanded_after:
  assumes I: "wld_inv w1" and E: "env_ok E w1" and g1: "groups w1 this = Some g1" and g: "groups w this = Some g"
    and s: "shrink w w1" "\<And>t. t \<noteq> this \<Longrightarrow> map_option bare (groups w1 t) = map_option bare (groups w t)"
  shows "\<exists>w'. do { w \<leftarrow> Disband E this False w1; Some (False, w) } = Some (False, w') \<and> after_leave this p w w' False"
proof -
  from Disband_ok [OF I E g1, of False] obtain w' where
    w': "Disband E this False w1 = Some w'" "wld_inv w'" "groups w' this = None" "\<forall>r. refTo (gwIo w') r \<noteq> Some this"
    "\<forall>t. t \<noteq> this \<longrightarrow> map_option bare (groups w' t) = map_option bare (groups w1 t)" "shrink w1 w'" by blast
  then have "after_leave this p w w' False"
    using shrink_trans [OF s(1)] s(2) g by (auto simp: after_leave_def away_def)
  with w'(1) show ?thesis by auto
qed

lemma RemoveMember_ok:
  assumes I: "wld_inv w" and E: "env_ok E w" and g: "groups w this = Some g" and r: "rolls_ready E g (gwIo w)"
    and boot: "\<not> (isLFGGroup g \<and> meth = RM_KICK)"
  shows "\<exists>b w'. RemoveMember E this guid meth kicker reason w = Some (b, w') \<and> after_leave this guid w w' b"
proof -
  have "loots (BroadcastGroupUpdate E g io) = loots io" for io by (simp add: BroadcastGroupUpdate_def loots_fold)
  with quiet_on_grp [OF I g frame_out, of "BroadcastGroupUpdate E"] obtain w0 where
    w0: "on_grp this (\<lambda>g io. (g, BroadcastGroupUpdate E g io)) w = Some w0" "wld_inv w0" "same_groups w w0" "shrink w w0"
    by (auto simp: quiet_step_def)
  from same_groups_some [OF w0(3) g] obtain g0 where g0: "groups w0 this = Some g0" "bare g0 = bare g" .
  have E0: "env_ok E w0" by (rule env_ok_shrink [OF E w0(4)])
  have other: "map_option bare (groups w0 t) = map_option bare (groups w t)" for t using w0(3) by (simp add: same_groups_def)
  have L: "left_members guid g0 = left_members guid g" using bare_fields(1) [OF g0(2)] by (simp add: left_members_def)
  have boot0: "\<not> (isLFGGroup g0 \<and> meth = RM_KICK)" using boot bare_fields(4) [OF g0(2)] by (simp add: isLFGGroup_def)
  show ?thesis
  proof (cases "GetMembersCount g0 > (if isBGGroup g0 \<or> isLFGGroup g0 \<or> isBFGroup g0 then 1 else 2)")
    case True
    have r0: "rolls_ready E g0 (gwIo w0)"
      using r bare_fields(7) [OF g0(2)] w0(3) by (simp add: rolls_ready_def loot_ready_def same_groups_def)
    from leave_run [OF w0(2) E0 g0(1) r0, of guid meth kicker reason] obtain w1 g1 where
      w1: "leave_steps E this guid meth kicker reason w0 = Some w1" "wld_inv w1" "shrink w0 w1" "groups w1 this = Some g1"
      "msGuid ` set (memberSlots g1) = left_members guid g0" "away guid this w1"
      "\<forall>t. t \<noteq> this \<longrightarrow> map_option bare (groups w1 t) = map_option bare (groups w0 t)" by blast
    have run: "RemoveMember E this guid meth kicker reason w =
        (if lfg_left E g1 then do { w \<leftarrow> Disband E this False w1; Some (False, w) }
         else if length (memberMgr g1) < (if isLFGGroup g1 \<or> isBGGroup g1 \<or> isBFGroup g1 then 1 else 2)
           then do { w \<leftarrow> Disband E this False w1; Some (False, w) }
         else Some (True, w1))"
      unfolding RemoveMember_steps [OF w0(1) g0(1) boot0 True] w1(1) by (simp add: w1(4))
    have s: "shrink w w1" by (rule shrink_trans [OF w0(4) w1(3)])
    have o1: "map_option bare (groups w1 t) = map_option bare (groups w t)" if "t \<noteq> this" for t using w1(7) other that by simp
    have "after_leave this guid w w1 True" using w1(2,4,5,6) s o1 L g by (simp add: after_leave_def)
    moreover from disbanded_after [OF w1(2) env_ok_shrink [OF E s] w1(4) g s o1] obtain w2 where
      "do { w \<leftarrow> Disband E this False w1; Some (False, w) } = Some (False, w2)" "after_leave this guid w w2 False" by blast
    ultimately show ?thesis unfolding run by (auto split: if_splits)
  next
    case False
    let ?w = "weff (Hook ''OnGroupRemoveMember''
         ([G64 (grpGuid g0), G64 guid, G8 (methodNum meth), G64 kicker] @ (case reason of None \<Rightarrow> [] | Some s \<Rightarrow> [GStr s]))) w0"
    have I': "wld_inv ?w" using w0(2) by (simp add: wld_inv_def single_ok_def)
    have s: "shrink w ?w" using w0(4) by (simp add: shrink_def)
    from disbanded_after [OF I' env_ok_shrink [OF E s] _ g s, of g0 guid] g0(1) other obtain w2 where
      "do { w \<leftarrow> Disband E this False ?w; Some (False, w) } = Some (False, w2)" "after_leave this guid w w2 False" by auto
    moreover have "RemoveMember E this guid meth kicker reason w = do { w \<leftarrow> Disband E this False ?w; Some (False, w) }"
      unfolding RemoveMember_def w0(1) bind.bind_lunit g0(1) if_not_P [OF boot0] if_not_P [OF False] Let_def ..
    ultimately show ?thesis by auto
  qed
qed

text \<open>When the group stays, it is what \<^const>\<open>farewell\<close> made of the group without the one who left.\<close>

lemma RemoveMember_stays:
  assumes I: "wld_inv w" and E: "env_ok E w" and g: "groups w this = Some g" and r: "rolls_ready E g (gwIo w)"
    and boot: "\<not> (isLFGGroup g \<and> meth = RM_KICK)" and run: "RemoveMember E this guid meth kicker reason w = Some (b, w')"
    and stays: "groups w' this = Some g'"
  shows "\<exists>h io. g' = fst (farewell E this guid meth kicker reason h io) \<and> gwIo w' = snd (farewell E this guid meth kicker reason h io) \<and>
    map msGuid (memberSlots h) = filter (\<lambda>q. q \<noteq> guid) (map msGuid (memberSlots g)) \<and>
    leaderGuid h = leaderGuid g \<and> leaderFlag io = leaderFlag (gwIo w)"
proof -
  have "loots (BroadcastGroupUpdate E g io) = loots io" for io by (simp add: BroadcastGroupUpdate_def loots_fold)
  with quiet_on_grp [OF I g frame_out, of "BroadcastGroupUpdate E"] obtain w0 where
    w0: "on_grp this (\<lambda>g io. (g, BroadcastGroupUpdate E g io)) w = Some w0" "wld_inv w0" "same_groups w w0" "shrink w w0"
    by (auto simp: quiet_step_def)
  from same_groups_some [OF w0(3) g] obtain g0 where g0: "groups w0 this = Some g0" "bare g0 = bare g" .
  note E0 = env_ok_shrink [OF E w0(4)]
  have "gwIo w0 = BroadcastGroupUpdate E g (gwIo w)" using w0(1) unfolding on_grp_some [OF g] by auto
  moreover have "kept_of (BroadcastGroupUpdate E g io) = kept_of io" for io by (simp add: BroadcastGroupUpdate_def kept_fold)
  ultimately have f0: "leaderFlag (gwIo w0) = leaderFlag (gwIo w)" by (simp add: kept_of_def)
  have boot0: "\<not> (isLFGGroup g0 \<and> meth = RM_KICK)" using boot bare_fields(4) [OF g0(2)] by (simp add: isLFGGroup_def)
  have gone: False if "do { w \<leftarrow> Disband E this False w1; Some (False, w) } = Some (b, w')" "wld_inv w1" "env_ok E w1" "groups w1 this = Some g1" for w1 g1
    using Disband_ok [OF that(2-4), of False] that(1) stays by (auto split: Option.bind_splits)
  show ?thesis
  proof (cases "GetMembersCount g0 > (if isBGGroup g0 \<or> isLFGGroup g0 \<or> isBFGroup g0 then 1 else 2)")
    case True
    have r0: "rolls_ready E g0 (gwIo w0)"
      using r bare_fields(7) [OF g0(2)] w0(3) by (simp add: rolls_ready_def loot_ready_def same_groups_def)
    from leave_run [OF w0(2) E0 g0(1) r0, of guid meth kicker reason] obtain w1 g1 where
      w1: "leave_steps E this guid meth kicker reason w0 = Some w1" "wld_inv w1" "shrink w0 w1" "groups w1 this = Some g1"
      and tail: "\<exists>h io. g1 = fst (farewell E this guid meth kicker reason h io) \<and> gwIo w1 = snd (farewell E this guid meth kicker reason h io) \<and>
       map msGuid (memberSlots h) = filter (\<lambda>q. q \<noteq> guid) (map msGuid (memberSlots g0)) \<and>
       leaderGuid h = leaderGuid g0 \<and> leaderFlag io = leaderFlag (gwIo w0)" by blast
    have "RemoveMember E this guid meth kicker reason w =
        (if lfg_left E g1 then do { w \<leftarrow> Disband E this False w1; Some (False, w) }
         else if length (memberMgr g1) < (if isLFGGroup g1 \<or> isBGGroup g1 \<or> isBFGroup g1 then 1 else 2)
           then do { w \<leftarrow> Disband E this False w1; Some (False, w) }
         else Some (True, w1))"
      unfolding RemoveMember_steps [OF w0(1) g0(1) boot0 True] w1(1) by (simp only: bind.bind_lunit w1(4))
    from run [unfolded this] have "do { w \<leftarrow> Disband E this False w1; Some (False, w) } = Some (b, w') \<or> Some (True, w1) = Some (b, w')"
      by presburger
    with gone [OF _ w1(2) env_ok_shrink [OF E0 w1(3)] w1(4)] have "w' = w1" by blast
    with w1(4) stays have "g1 = g'" by simp
    show ?thesis using tail unfolding \<open>g1 = g'\<close> \<open>w' = w1\<close> f0 bare_fields(1,8) [OF g0(2)] .
  next
    case False
    let ?w = "weff (Hook ''OnGroupRemoveMember''
         ([G64 (grpGuid g0), G64 guid, G8 (methodNum meth), G64 kicker] @ (case reason of None \<Rightarrow> [] | Some s \<Rightarrow> [GStr s]))) w0"
    have "RemoveMember E this guid meth kicker reason w = do { w \<leftarrow> Disband E this False ?w; Some (False, w) }"
      unfolding RemoveMember_def w0(1) bind.bind_lunit g0(1) if_not_P [OF boot0] if_not_P [OF False] Let_def ..
    moreover have "wld_inv ?w" using w0(2) by (simp add: wld_inv_def single_ok_def)
    moreover have "env_ok E ?w" using E0 by (simp add: env_ok_def)
    ultimately show ?thesis using run gone [of ?w g0] g0(1) by simp
  qed
qed

end
