(* ===== verification/GroupWorld.thy ===== *)
theory GroupWorld
  imports GroupLeave
begin

text \<open>
  The life of the groups as a step relation over groups and players: a group is founded, invites,
  takes members, works, loses members and is disbanded, while players log in and out, which cuts
  and rebuilds their references (src/src/server/game/Entities/Player/Player.cpp). Every state
  that can be reached is shown to hold the invariant.
\<close>

section \<open>Players that come and go\<close>

definition set_leader_flag :: "u64 \<Rightarrow> bool \<Rightarrow> gw \<Rightarrow> gw" where
  "set_leader_flag p b w = w\<lparr>gwIo := (gwIo w)\<lparr>leaderFlag := (leaderFlag (gwIo w))(p := b)\<rparr>\<rparr>"

text \<open>\<^verbatim>\<open>Player::_LoadGroup\<close>, given the id of the group in the table of all players.\<close>

definition Player_LoadGroup :: "u64 \<Rightarrow> u32 \<Rightarrow> gw \<Rightarrow> gw option" where
  "Player_LoadGroup p groupId w = do {
     w \<leftarrow> (case (if groupId \<noteq> 0 then GetGroupByGUID groupId w else None) of
        None \<Rightarrow> Some w
      | Some t \<Rightarrow> do {
          g \<leftarrow> groups w t;
          if unat (GetMemberGroup p g) \<le> MAX_RAID_SUBGROUPS then do {
            w \<leftarrow> SetGroup p (Some (t, GetMemberGroup p g)) (if IsLeader p g then set_leader_flag p True w else w);
            Some (w\<lparr>gwIo := (gwIo w)\<lparr>plDungeonDifficulty := (plDungeonDifficulty (gwIo w))(p := GetDifficulty False g),
                                      plRaidDifficulty := (plRaidDifficulty (gwIo w))(p := GetDifficulty True g)\<rparr>\<rparr>) }
          else Some w });
     leads \<leftarrow> (case GetGroup p w of None \<Rightarrow> Some False | Some t \<Rightarrow> do { g \<leftarrow> groups w t; Some (IsLeader p g) });
     Some (if leads then w else set_leader_flag p False w) }"

text \<open>A player that is deleted cuts its two references, as their destructor does.\<close>

definition player_gone :: "u64 \<Rightarrow> gw \<Rightarrow> gw" where
  "player_gone p w = gref_unlink (p, True) (gref_unlink (p, False) w)"

section \<open>The store of the manager\<close>

definition store_ok :: "gw \<Rightarrow> bool" where
  "store_ok w \<longleftrightarrow> (\<forall>i t. groupStore w i = Some t \<longrightarrow> (\<exists>g. groups w t = Some g \<and> GetLowGUID g = i))"

text \<open>Steps that leave the store, the ids and the guids of the groups alone.\<close>

definition frozen :: "gw \<Rightarrow> (u32 \<Rightarrow> nat option) \<times> bool list \<times> u32 \<times> (nat \<Rightarrow> u64 option)" where
  "frozen w = (groupStore w, groupIds w, nextGroupId w, \<lambda>t. map_option grpGuid (groups w t))"

definition keeps :: "gw \<Rightarrow> gw option \<Rightarrow> bool" where
  "keeps w r \<longleftrightarrow> (\<forall>w'. r = Some w' \<longrightarrow> frozen w' = frozen w)"

lemma keeps_base [simp, intro]: "keeps w None" "keeps w (Some w)" "keeps w (Some (weff e w))"
  by (simp_all add: keeps_def frozen_def weff_def)

lemma keeps_io [simp, intro]: "keeps w (Some (w\<lparr>gwIo := io\<rparr>))"
  by (simp add: keeps_def frozen_def)

lemma keeps_bind: "keeps w r \<Longrightarrow> (\<And>w'. keeps w' (f w')) \<Longrightarrow> keeps w (r \<bind> f)"
  by (cases r) (simp_all add: keeps_def)

lemma keeps_read: "(\<And>g. keeps w (f g)) \<Longrightarrow> keeps w (r \<bind> f)"
  by (cases r) (simp_all add: keeps_def)

lemma keeps_if: "keeps w a \<Longrightarrow> keeps w b \<Longrightarrow> keeps w (if c then a else b)"
  by simp

lemma keeps_option: "keeps w a \<Longrightarrow> (\<And>x. keeps w (b x)) \<Longrightarrow> keeps w (case c of None \<Rightarrow> a | Some x \<Rightarrow> b x)"
  by (cases c) simp_all

lemma frozen_update: "groups w t = Some g \<Longrightarrow> grpGuid g' = grpGuid g \<Longrightarrow>
    (\<lambda>t'. map_option grpGuid (((groups w)(t \<mapsto> g')) t')) = (\<lambda>t. map_option grpGuid (groups w t))"
  by (rule ext) simp

lemma keeps_on_grp_opt: "(\<And>g io g' io'. f g io = Some (g', io') \<Longrightarrow> grpGuid g' = grpGuid g) \<Longrightarrow> keeps w (on_grp_opt t f w)"
  by (cases "groups w t") (auto simp: keeps_def frozen_def on_grp_opt_def frozen_update simp del: fun_upd_apply split: Option.bind_splits)

lemma keeps_on_grp: "(\<And>g io. grpGuid (fst (f g io)) = grpGuid g) \<Longrightarrow> keeps w (on_grp t f w)"
  by (cases "groups w t") (simp_all add: keeps_def frozen_def on_grp_def case_prod_unfold Let_def frozen_update del: fun_upd_apply)

lemma keeps_unlink: "keeps w (Some (gref_unlink r w))"
  by (auto simp: keeps_def frozen_def gref_unlink_def option.map_comp comp_def fun_eq_iff split: option.split)

lemma keeps_after: "keeps w (Some w') \<Longrightarrow> keeps w' r \<Longrightarrow> keeps w r"
  unfolding keeps_def by auto

lemma keeps_link: "keeps w (gref_link r t s w)"
proof (rule keeps_after [OF keeps_unlink [of w r]])
  show "keeps (gref_unlink r w) (gref_link r t s w)"
    by (cases "groups (gref_unlink r w) t") (simp_all add: keeps_def frozen_def gref_link_def Let_def frozen_update del: fun_upd_apply)
qed

lemmas keeps_rules = keeps_base keeps_io keeps_bind keeps_if keeps_option keeps_on_grp keeps_unlink keeps_link

lemma keeps_SetGroup: "keeps w (SetGroup p target w)" "keeps w (SetOriginalGroup p target w)"
  unfolding SetGroup_def SetOriginalGroup_def by (auto intro!: keeps_rules split: prod.split)

lemma keeps_raid: "keeps w (SetBattlegroundOrBattlefieldRaid p t s w)" "keeps w (RemoveFromBattlegroundOrBattlefieldRaid p w)"
proof -
  show "keeps w (SetBattlegroundOrBattlefieldRaid p t s w)"
    unfolding SetBattlegroundOrBattlefieldRaid_def
    by (rule keeps_bind [OF keeps_SetGroup(2)], rule keeps_after [OF keeps_unlink], rule keeps_link)
  show "keeps w (RemoveFromBattlegroundOrBattlefieldRaid p w)"
    unfolding RemoveFromBattlegroundOrBattlefieldRaid_def Let_def
    by (rule keeps_after [OF keeps_unlink], rule keeps_bind [OF keeps_option keeps_SetGroup(2)]) (auto intro: keeps_link)
qed

lemma keeps_detach: "keeps w (detach_player t p w)" "keeps w (point_player t p s w)"
  unfolding detach_player_def point_player_def by (auto intro!: keeps_read keeps_SetGroup keeps_raid)

section \<open>The guid of a group\<close>

lemma SendUpdate_guid [simp]: "grpGuid (fst (SendUpdate E t g io)) = grpGuid g"
  by simp

lemma guid_pieces [simp]:
  "grpGuid (fst (push_member E p s g io)) = grpGuid g" "grpGuid (fst (announce_member E t p s g io)) = grpGuid g"
  "grpGuid (fst (greet_member E p g io)) = grpGuid g" "grpGuid (fst (leave_notice E m p g io)) = grpGuid g"
  "grpGuid (fst (drop_slot p g io)) = grpGuid g" "grpGuid (fst (ChangeLeader E t p g io)) = grpGuid g"
  "grpGuid (fst (drop_record E p g io)) = grpGuid g"
proof -
  show "grpGuid (fst (drop_record E p g io)) = grpGuid g" using drop_record_only [of E p g io] by auto
qed (auto simp: push_member_def announce_member_def greet_member_def leave_notice_def drop_slot_def ChangeLeader_def ToggleGroupMemberFlag_def
    SubGroupCounterIncrease_def SubGroupCounterDecrease_def Let_def case_prod_unfold split: option.split)

lemma farewell_guid [simp]: "grpGuid (fst (farewell E t p m k r g io)) = grpGuid g"
  by (simp add: farewell_def pick_leader_def Let_def case_prod_unfold split: option.split)

lemma Count_guid: "CountTheRoll E m i g io = Some (g', io') \<Longrightarrow> grpGuid g' = grpGuid g"
  by (auto simp: CountTheRoll_def Let_def split: if_splits option.splits Option.bind_splits)

lemma Vote_guid: "CountRollVote E p q c g io = Some (b, g', io') \<Longrightarrow> grpGuid g' = grpGuid g"
  by (auto simp: CountRollVote_def Let_def case_prod_unfold split: if_splits option.splits Option.bind_splits dest!: Count_guid)

lemma remove_votes_guid: "remove_votes E guid i g io = Some y \<Longrightarrow> grpGuid (fst y) = grpGuid g"
  by (erule remove_votes.raw_induct [where P = "\<lambda>E guid i g io y. grpGuid (fst y) = grpGuid g", rotated])
    (auto simp: Let_def split: if_splits option.splits Option.bind_splits dest!: Vote_guid)

lemma keeps_AddMember: "AddMember E t p w = Some (b, w') \<Longrightarrow> frozen w' = frozen w"
proof -
  assume a: "AddMember E t p w = Some (b, w')"
  show ?thesis
  proof (cases b)
    case False
    then show ?thesis using a by (auto simp: AddMember_def split: Option.bind_splits option.splits)
  next
    case True
    let ?block = "\<lambda>i. do { w \<leftarrow> on_grp t (push_member E p (of_nat i)) w; w \<leftarrow> point_player t p (of_nat i) w;
        w \<leftarrow> on_grp t (announce_member E t p (of_nat i)) w; on_grp t (greet_member E p) w }"
    from a True obtain g i where gi: "groups w t = Some g" "first_free_subgroup g = Some i"
      by (auto simp: AddMember_def split: Option.bind_splits option.splits)
    then have "AddMember E t p w = do { w \<leftarrow> ?block i; Some (True, w) }" by (simp add: AddMember_def)
    with a have "?block i = Some w'" by (auto simp del: Option.bind_assoc split: Option.bind_splits)
    moreover have "keeps w (do { w \<leftarrow> on_grp t (push_member E p (of_nat i)) w; w \<leftarrow> point_player t p (of_nat i) w;
        w \<leftarrow> on_grp t (announce_member E t p (of_nat i)) w; on_grp t (greet_member E p) w })"
      by (intro keeps_bind keeps_on_grp keeps_detach) simp_all
    ultimately show ?thesis by (simp add: keeps_def)
  qed
qed

lemma keeps_leave_steps: "keeps w (leave_steps E t p m k r w)"
  unfolding leave_steps_def
  by (intro keeps_bind keeps_if keeps_base keeps_on_grp keeps_on_grp_opt keeps_detach) (auto dest: remove_votes_guid)

lemma keeps_disband_members: "keeps w (disband_members E t h ps w)"
proof (induction ps arbitrary: w)
  case (Cons p ps)
  have "keeps w (disband_member E t h p w)" for w
    unfolding disband_member_def by (intro keeps_bind keeps_if keeps_base keeps_on_grp keeps_detach keeps_option) (simp_all add: Let_def)
  then show ?case using Cons.IH by (auto intro: keeps_bind)
qed simp

section \<open>The store through every operation\<close>

lemma store_ok_guids: "store_ok w \<longleftrightarrow> (\<forall>i t. groupStore w i = Some t \<longrightarrow> (\<exists>q. map_option grpGuid (groups w t) = Some q \<and> GUID_LOPART q = i))"
proof -
  have "(\<exists>g. groups w t = Some g \<and> GetLowGUID g = i) \<longleftrightarrow> (\<exists>q. map_option grpGuid (groups w t) = Some q \<and> GUID_LOPART q = i)" for i t
    by (cases "groups w t") (simp_all add: GetLowGUID_def)
  then show ?thesis by (simp add: store_ok_def)
qed

lemma frozen_store: "frozen w' = frozen w \<Longrightarrow> store_ok w' = store_ok w"
proof -
  assume f: "frozen w' = frozen w"
  then have "groupStore w' = groupStore w" by (simp add: frozen_def)
  moreover have "map_option grpGuid (groups w' t) = map_option grpGuid (groups w t)" for t
    using arg_cong [OF f, of "\<lambda>x. snd (snd (snd x)) t"] by (simp add: frozen_def)
  ultimately show ?thesis unfolding store_ok_guids by simp
qed

lemma keepsD: "keeps w r \<Longrightarrow> r = Some w' \<Longrightarrow> frozen w' = frozen w"
  by (simp add: keeps_def)

lemma frozen_weff [simp]: "frozen (weff e w) = frozen w"
  by (simp add: frozen_def weff_def)

lemma store_without:
  assumes "store_ok w" "groups w t = Some g" "groupStore w' = (groupStore w)(GetLowGUID g := None)"
    "\<And>t'. t' \<noteq> t \<Longrightarrow> map_option grpGuid (groups w' t') = map_option grpGuid (groups w t')"
  shows "store_ok w'"
  unfolding store_ok_guids
proof (intro allI impI)
  fix i t' assume i: "groupStore w' i = Some t'"
  then have s: "groupStore w i = Some t'" "i \<noteq> GetLowGUID g" using assms(3) by (auto split: if_splits)
  then obtain g' where g': "groups w t' = Some g'" "GetLowGUID g' = i" using assms(1) by (auto simp: store_ok_def)
  then have "t' \<noteq> t" using s(2) assms(2) by auto
  with assms(4) g' show "\<exists>q. map_option grpGuid (groups w' t') = Some q \<and> GUID_LOPART q = i" by (simp add: GetLowGUID_def)
qed

lemma Disband_store:
  assumes "store_ok w" "Disband E t h w = Some w'"
  shows "store_ok w'"
proof -
  from assms(2) obtain g w1 w2 g2 where g: "groups w t = Some g"
    and w1: "disband_members E t h (map msGuid (memberSlots g)) (weff (Hook ''OnGroupDisband'' [G64 (grpGuid g)]) w) = Some w1"
    and w2: "on_grp t disband_end w1 = Some w2" and g2: "groups w2 t = Some g2"
    and w': "groupStore w' = (groupStore w2)(GetLowGUID g2 := None)" "groups w' = (groups w2)(t := None)"
    by (auto simp: Disband_def RemoveGroup_def delete_group_def Let_def split: Option.bind_splits)
  have "frozen w1 = frozen w" using keepsD [OF keeps_disband_members w1] by simp
  moreover have "frozen w2 = frozen w1" by (rule keepsD [OF keeps_on_grp w2]) simp
  ultimately have "store_ok w2" using frozen_store assms(1) by metis
  from store_without [OF this g2 w'(1)] w'(2) show ?thesis by simp
qed

lemma RemoveMember_store:
  assumes s: "store_ok w" and r: "RemoveMember E t p m k re w = Some (b, w')"
  shows "store_ok w'"
proof -
  from r obtain w0 where w0: "on_grp t (\<lambda>g io. (g, BroadcastGroupUpdate E g io)) w = Some w0"
    by (auto simp: RemoveMember_def split: Option.bind_splits)
  from r w0 obtain g0 where g0: "groups w0 t = Some g0" by (auto simp: RemoveMember_def split: Option.bind_splits)
  have "frozen w0 = frozen w" by (rule keepsD [OF keeps_on_grp w0]) simp
  with s frozen_store have s0: "store_ok w0" by metis
  have end_ok: "store_ok w2" if "do { w \<leftarrow> Disband E t False w1; Some (False, w) } = Some (b, w2)" "store_ok w1" for w1 w2
    using that Disband_store by (auto split: Option.bind_splits)
  show ?thesis
  proof (cases "isLFGGroup g0 \<and> m = RM_KICK")
    case True
    then show ?thesis using r w0 g0 frozen_store [of w' w0] s0 by (auto simp: RemoveMember_def)
  next
    case boot: False
    show ?thesis
    proof (cases "GetMembersCount g0 > (if isBGGroup g0 \<or> isLFGGroup g0 \<or> isBFGroup g0 then 1 else 2)")
      case True
      from r obtain w1 where w1: "leave_steps E t p m k re w0 = Some w1"
        unfolding RemoveMember_steps [OF w0 g0 boot True] by (auto split: Option.bind_splits)
      have s1: "store_ok w1" using keepsD [OF keeps_leave_steps w1] frozen_store s0 by metis
      have "w' = w1 \<or> do { w \<leftarrow> Disband E t False w1; Some (False, w) } = Some (b, w')"
        using r unfolding RemoveMember_steps [OF w0 g0 boot True] w1 bind.bind_lunit by (cases "groups w1 t") (auto split: if_splits)
      then show ?thesis using s1 end_ok by blast
    next
      case False
      let ?w = "weff (Hook ''OnGroupRemoveMember'' ([G64 (grpGuid g0), G64 p, G8 (methodNum m), G64 k] @
          (case re of None \<Rightarrow> [] | Some s \<Rightarrow> [GStr s]))) w0"
      have "store_ok ?w" using frozen_store [of ?w w0] s0 by simp
      moreover have "do { w \<leftarrow> Disband E t False ?w; Some (False, w) } = Some (b, w')"
        using r unfolding RemoveMember_def w0 bind.bind_lunit g0 if_not_P [OF boot] if_not_P [OF False] Let_def .
      ultimately show ?thesis using end_ok by blast
    qed
  qed
qed

section \<open>Operations on one group\<close>

inductive own_op :: "grpEnv \<Rightarrow> nat \<Rightarrow> (grp \<Rightarrow> gio \<Rightarrow> grp \<times> gio) \<Rightarrow> bool" for E t where
  "own_op E t (SetTargetIcon t k who x)"
| "own_op E t (SetGroupMemberFlag E t p b f)"
| "own_op E t (ChangeLeader E t p)"
| "own_op E t (SetLfgRoles E t p r)"
| "own_op E t (UpdateLooterGuid E t reward b)"
| "own_op E t (ConvertToRaid E t)"
| "own_op E t (ConvertToLFG E t)"
| "own_op E t (SetDungeonDifficulty d)"
| "own_op E t (SetRaidDifficulty d)"
| "own_op E t (\<lambda>g io. (SetLootMethod m g, io))"
| "own_op E t (\<lambda>g io. (SetLooterGuid p g, io))"
| "own_op E t (\<lambda>g io. (SetMasterLooterGuid p g, io))"
| "own_op E t (\<lambda>g io. (SetLootThreshold d g, io))"
| "own_op E t (\<lambda>g io. (SetDifficultyChangePrevention now d g, io))"
| "own_op E t (\<lambda>g io. (AddLfgFlag d g, io))"
| "own_op E t (\<lambda>g io. (ResetMaxEnchantingLevel E g, io))"
| "own_op E t (RemoveInvite p)"
| "own_op E t RemoveAllInvites"
| "own_op E t (SendUpdate E t)"

definition good_op :: "(grp \<Rightarrow> gio \<Rightarrow> grp \<times> gio) \<Rightarrow> bool" where
  "good_op f \<longleftrightarrow> frame f \<and> (\<forall>g io. (grp_ok g \<longrightarrow> grp_ok (fst (f g io))) \<and> grpGuid (fst (f g io)) = grpGuid g)"

text \<open>An operation that sends an update after a change of the group.\<close>

lemma put_icon_same: "memberMgr (fst (put_icon t k who x g io)) = memberMgr g" "bgGroup (fst (put_icon t k who x g io)) = bgGroup g"
  "bfGroup (fst (put_icon t k who x g io)) = bfGroup g" "memberSlots (fst (put_icon t k who x g io)) = memberSlots g"
  "grpGuid (fst (put_icon t k who x g io)) = grpGuid g" "refs_of (snd (put_icon t k who x g io)) = refs_of io"
  by (simp_all add: put_icon_def)

definition grp_same :: "grp \<times> gio \<Rightarrow> grp \<times> gio \<Rightarrow> bool" where
  "grp_same = (\<lambda>(g, io) (g', io'). memberMgr g' = memberMgr g \<and> bgGroup g' = bgGroup g \<and> bfGroup g' = bfGroup g \<and>
     map msGuid (memberSlots g') = map msGuid (memberSlots g) \<and> grpGuid g' = grpGuid g \<and> refs_of io' = refs_of io)"

lemma grp_same_trans: "grp_same a b \<Longrightarrow> grp_same b c \<Longrightarrow> grp_same a c"
  by (auto simp: grp_same_def split: prod.splits)

lemma grp_same_fold: "(\<And>x a. grp_same a (f x a)) \<Longrightarrow> grp_same a (fold f xs a)"
proof (induction xs arbitrary: a)
  case Nil
  show ?case by (cases a) (simp add: grp_same_def)
next
  case (Cons x xs)
  then show ?case using grp_same_trans by (metis fold_simps(2))
qed

lemma good_opI:
  assumes "\<And>g io. grp_same (g, io) (f g io)" "\<And>g io. grp_ok g \<Longrightarrow> grp_ok (fst (f g io))"
  shows "good_op f"
proof -
  have s: "memberMgr (fst (f g io)) = memberMgr g" "refs_of (snd (f g io)) = refs_of io" "bgGroup (fst (f g io)) = bgGroup g"
    "bfGroup (fst (f g io)) = bfGroup g" "map msGuid (memberSlots (fst (f g io))) = map msGuid (memberSlots g)"
    "grpGuid (fst (f g io)) = grpGuid g" for g io
    using assms(1) [of g io] by (auto simp: grp_same_def split: prod.splits)
  have "frame f" by (rule frameI_guids) (rule s)+
  moreover note s(6)
  ultimately show ?thesis using assms(2) by (simp add: good_op_def)
qed

lemma same_icon: "grp_same (g, io) (SetTargetIcon t k who x g io)"
proof -
  have one: "grp_same a (put_icon t k who x (fst a) (snd a))" for k who x a
    by (cases a) (simp add: grp_same_def put_icon_same case_prod_unfold)
  have refl: "grp_same a a" for a by (cases a) (simp add: grp_same_def)
  have "grp_same (g, io) (fold (\<lambda>i (g, io). if targetIcons g ! i = x then put_icon t (of_nat i) 0 0 g io else (g, io)) xs (g, io))" for xs
    by (rule grp_same_fold) (use one refl in \<open>force split: prod.splits\<close>)
  then show ?thesis using grp_same_trans [OF _ one] refl by (fastforce simp: SetTargetIcon_def Let_def case_prod_unfold)
qed

lemma same_flag: "grp_same (g, io) (SetGroupMemberFlag E t p b f g io)"
proof (cases "isRaidGroup g \<and> getMemberSlot p (memberSlots g) \<noteq> None \<and> member_flag f")
  case True
  then obtain i where i: "isRaidGroup g" "getMemberSlot p (memberSlots g) = Some i" "member_flag f" by blast
  from guids_ids [OF SetGroupMemberFlag_flags(1) [OF i]]
  have "map msGuid (memberSlots (fst (SetGroupMemberFlag E t p b f g io))) = map msGuid (memberSlots g)" .
  moreover have m: "f \<in> {MEMBER_FLAG_MAINASSIST, MEMBER_FLAG_MAINTANK, MEMBER_FLAG_ASSISTANT}" using i(3) by (auto simp: member_flag_def)
  let ?h = "ToggleGroupMemberFlag i f b (if f = MEMBER_FLAG_MAINASSIST \<or> f = MEMBER_FLAG_MAINTANK then RemoveUniqueGroupMemberFlag f g else g)"
  have "\<exists>io'. refs_of io' = refs_of io \<and> SetGroupMemberFlag E t p b f g io = SendUpdate E t ?h io'"
    unfolding SetGroupMemberFlag_def using i(1,2) m
    by (simp only: Let_def if_False if_True option.case simp_thms not_not) (intro exI conjI [rotated], rule refl, simp)
  moreover have "memberMgr ?h = memberMgr g \<and> bgGroup ?h = bgGroup g \<and> bfGroup ?h = bfGroup g \<and> grpGuid ?h = grpGuid g"
    by (simp add: ToggleGroupMemberFlag_def RemoveUniqueGroupMemberFlag_def)
  ultimately show ?thesis by (auto simp: grp_same_def case_prod_unfold)
next
  case False
  then have "SetGroupMemberFlag E t p b f g io = (g, io)"
    by (auto simp: SetGroupMemberFlag_def member_flag_def split: option.split)
  then show ?thesis by (simp add: grp_same_def)
qed

lemma roles_guids:
  "getMemberSlot p ss = Some i \<Longrightarrow> map msGuid (ss[i := (ss ! i)\<lparr>msRoles := r\<rparr>]) = map msGuid ss"
  by (rule guids_update) (auto dest: getMemberSlot_Some)

lemma same_roles: "grp_same (g, io) (SetLfgRoles E t p r g io)"
proof (cases "getMemberSlot p (memberSlots g)")
  case (Some i)
  with roles_guids [OF Some, of r] show ?thesis by (simp add: grp_same_def SetLfgRoles_def case_prod_unfold)
qed (simp add: grp_same_def SetLfgRoles_def)

lemma grp_ok_rest:
  "grp_ok (g\<lparr>preventionTime := x, preventionType := y\<rparr>) = grp_ok g" "grp_ok (g\<lparr>lfgGroupFlags := z\<rparr>) = grp_ok g"
  by (simp_all add: grp_ok_def isRaidGroup_def)

lemma same_enchanting: "grp_same (g, io) (ResetMaxEnchantingLevel E g, io)" "grp_ok (ResetMaxEnchantingLevel E g) = grp_ok g"
proof -
  obtain l where "ResetMaxEnchantingLevel E g = g\<lparr>maxEnchantingLevel := l\<rparr>" using ResetMaxEnchantingLevel_only by blast
  then show "grp_same (g, io) (ResetMaxEnchantingLevel E g, io)" "grp_ok (ResetMaxEnchantingLevel E g) = grp_ok g"
    by (simp_all add: grp_same_def)
qed

lemma own_op_good: "own_op E t f \<Longrightarrow> good_op f"
proof (induction rule: own_op.induct)
  case (1 k who x)
  show ?case by (rule good_opI [OF same_icon set_icon_ok])
next
  case (2 p b f)
  show ?case by (rule good_opI [OF same_flag set_flag_ok])
next
  case (3 p)
  show ?case by (rule good_opI [OF _ change_leader_ok]) (simp add: grp_same_def case_prod_unfold)
next
  case (4 p r)
  show ?case by (rule good_opI [OF same_roles set_roles_ok])
next
  case (5 reward b)
  show ?case by (rule good_opI [OF _ update_looter_ok])
    (auto simp: grp_same_def UpdateLooterGuid_def SetLooterGuid_def Let_def case_prod_unfold split: option.split)
next
  case 6
  show ?case by (rule good_opI [OF _ convert_raid_ok])
    (simp add: grp_same_def ConvertToRaid_def initRaidSubGroupsCounter_def type_statement_def Let_def case_prod_unfold refs_fold)
next
  case 7
  show ?case by (rule good_opI [OF _ convert_lfg_ok]) (simp add: grp_same_def ConvertToLFG_def type_statement_def Let_def case_prod_unfold)
next
  case 16
  show ?case by (rule good_opI [OF same_enchanting(1)]) (simp add: same_enchanting(2))
qed (auto intro!: good_opI simp: grp_ok_rest grp_same_def SetDungeonDifficulty_def SetRaidDifficulty_def SetLootMethod_def SetLooterGuid_def
    SetMasterLooterGuid_def SetLootThreshold_def SetDifficultyChangePrevention_def AddLfgFlag_def RemoveInvite_def RemoveAllInvites_def
    Let_def refs_fold case_prod_unfold)

section \<open>Founding\<close>

lemma kind_fields [simp]:
  "memberSlots (found_kind g) = memberSlots g" "memberMgr (found_kind g) = memberMgr g" "targetIcons (found_kind g) = targetIcons g"
  "bgGroup (found_kind g) = bgGroup g" "bfGroup (found_kind g) = bfGroup g" "leaderGuid (found_kind g) = leaderGuid g"
  "groupType (found_kind g) = (if normal_grp g then groupType g else GROUPTYPE_BGRAID)"
  "subGroupsCounts (found_kind g) =
     (if (if normal_grp g then groupType g else GROUPTYPE_BGRAID) AND GROUPTYPE_RAID \<noteq> 0
      then subGroupsCounts (initRaidSubGroupsCounter g) else subGroupsCounts g)"
  by (simp_all add: found_kind_def initRaidSubGroupsCounter_def normal_grp_def isBGGroup_def isBFGroup_def Let_def)

lemma found_fields [simp]:
  "memberSlots (fst (found_group E p low g io)) = memberSlots g" "memberMgr (fst (found_group E p low g io)) = memberMgr g"
  "targetIcons (fst (found_group E p low g io)) = targetIcons g"
  "bgGroup (fst (found_group E p low g io)) = bgGroup g" "bfGroup (fst (found_group E p low g io)) = bfGroup g"
  "leaderGuid (fst (found_group E p low g io)) = p"
  "groupType (fst (found_group E p low g io)) = (if normal_grp g then groupType g else GROUPTYPE_BGRAID)"
  "subGroupsCounts (fst (found_group E p low g io)) =
     (if (if normal_grp g then groupType g else GROUPTYPE_BGRAID) AND GROUPTYPE_RAID \<noteq> 0
      then subGroupsCounts (initRaidSubGroupsCounter g) else subGroupsCounts g)"
  "refs_of (snd (found_group E p low g io)) = refs_of io"
  by (simp_all add: found_group_def Let_def normal_grp_def isBGGroup_def isBFGroup_def initRaidSubGroupsCounter_def)

lemma found_frame: "frame (found_group E p low)"
  by (rule frameI) auto

lemma found_ok:
  assumes ok: "grp_ok g" and none: "memberSlots g = []"
  shows "grp_ok (fst (found_group E p low g io))" "memberSlots (fst (found_group E p low g io)) = []"
    "normal_grp (fst (found_group E p low g io)) = normal_grp g" "first_free_subgroup (fst (found_group E p low g io)) = Some 0"
proof -
  let ?g = "fst (found_group E p low g io)"
  have find0: "find (\<lambda>i. unat (cs ! i) < 5) [0..<8] = Some 0" if "unat (cs ! 0) = 0" for cs :: "u8 list"
    using that by (simp add: upt_rec)
  show none': "memberSlots ?g = []" using none by (simp add: found_fields)
  show "normal_grp ?g = normal_grp g" by (simp add: normal_grp_def isBGGroup_def isBFGroup_def found_fields)
  have c: "subs_right (subGroupsCounts ?g) (isRaidGroup ?g) []"
    using ok none by (auto simp: found_fields isRaidGroup_def initRaidSubGroupsCounter_def subs_right_def grp_ok_def split: option.splits)
  show "grp_ok ?g" using ok none' c by (simp add: grp_ok_def found_fields)
  show "first_free_subgroup ?g = Some 0"
    using c find0 by (auto simp: first_free_subgroup_def subs_right_def split: option.splits)
qed

lemma GenerateGroupId_fields:
  "groups (snd (GenerateGroupId w)) = groups w" "refTo (gwIo (snd (GenerateGroupId w))) = refTo (gwIo w)"
  "refSub (gwIo (snd (GenerateGroupId w))) = refSub (gwIo w)" "groupStore (snd (GenerateGroupId w)) = groupStore w"
  by (simp_all add: GenerateGroupId_def Let_def weff_def)

lemma Create_ok:
  assumes I: "wld_inv w" and g: "groups w this = Some g" and none: "memberSlots g = []" and J: "may_join this p w"
  shows "\<exists>w' g'. Create E this p w = Some (True, w') \<and> wld_inv w' \<and> groups w' this = Some g' \<and>
    memberSlots g' = [\<lparr>msGuid = p, msName = plName E p, msGroup = 0, msFlags = 0, msRoles = 0\<rparr>] \<and> groupStore w' = groupStore w \<and>
    (\<forall>t. t \<noteq> this \<longrightarrow> map_option bare (groups w' t) = map_option bare (groups w t))"
proof -
  let ?low = "fst (GenerateGroupId w)"
  let ?w1 = "snd (GenerateGroupId w)"
  have I1: "wld_inv ?w1" using I by (simp add: wld_inv_def world_ok_def links_ok_def owners_ok_def subs_ok_def single_ok_def GenerateGroupId_fields)
  have g1: "groups ?w1 this = Some g" using g by (simp add: GenerateGroupId_fields)
  let ?g2 = "fst (found_group E p ?low g (gwIo ?w1))"
  from on_grp_inv [OF I1 g1 found_frame found_ok(1) [OF invD(3) [OF I g] none]] obtain w2 where
    w2: "on_grp this (found_group E p ?low) ?w1 = Some w2" "wld_inv w2" "groups w2 = (groups ?w1)(this \<mapsto> ?g2)" "refTo (gwIo w2) = refTo (gwIo ?w1)"
    by blast
  note F = found_ok [OF invD(3) [OF I g] none, of E p ?low "gwIo ?w1"]
  have g2: "groups w2 this = Some ?g2" using w2(3) by simp
  have "\<not> IsMember p ?g2" "\<not> IsFull ?g2" using F(2) by (simp_all add: IsMember_iff IsFull_def MAXRAIDSIZE_def)
  moreover have "normal_grp h" if n: "\<not> normal_grp ?g2" "refTo (gwIo w2) (p, False) = Some t" "groups w2 t = Some h" for t h
  proof -
    have r: "refTo (gwIo w) (p, False) = Some t" using n(2) w2(4) by (simp add: GenerateGroupId_fields)
    have "t \<noteq> this" using not_ref_to [OF I g, of p False] r none by (auto simp: IsMember_iff)
    then have "groups w t = Some h" using n(3) w2(3) by (simp add: GenerateGroupId_fields)
    then show ?thesis using J r n(1) F(3) g by (auto simp: may_join_def)
  qed
  ultimately have "may_join this p w2" using g2 unfolding may_join_def by blast
  from AddMember_inv [OF w2(2) this g2, of E] F(4) obtain w3 g3 where
    w3: "AddMember E this p w2 = Some (True, w3)" "wld_inv w3" "groups w3 this = Some g3"
    "memberSlots g3 = memberSlots ?g2 @ [\<lparr>msGuid = p, msName = plName E p, msGroup = of_nat 0, msFlags = 0, msRoles = 0\<rparr>]"
    "\<forall>t. t \<noteq> this \<longrightarrow> map_option bare (groups w3 t) = map_option bare (groups w2 t)" by auto
  let ?e = "Hook ''OnCreate'' [G64 (grpGuid ?g2), G64 p]"
  have run: "Create E this p w = Some (True, if normal_grp ?g2 then weff ?e w3 else w3)"
    using w2(1) w3(1) g2 by (simp add: Create_def case_prod_unfold Let_def)
  have "groupStore w2 = groupStore w" using w2(1) g1 by (auto simp: on_grp_some GenerateGroupId_fields)
  then have st: "groupStore w3 = groupStore w" using keeps_AddMember [OF w3(1)] by (simp add: frozen_def)
  have "wld_inv (weff ?e w3)" using w3(2) by (simp add: wld_inv_def single_ok_def)
  moreover have "map_option bare (groups w3 t) = map_option bare (groups w t)" if "t \<noteq> this" for t
    using that w3(5) w2(3) by (simp add: GenerateGroupId_fields)
  ultimately show ?thesis using w3(2,3,4) F(2) st run
    by (intro exI [of _ "if normal_grp ?g2 then weff ?e w3 else w3"] exI [of _ g3]) (simp add: weff_def)
qed

section \<open>Steps\<close>

definition change_subgroup :: "grpEnv \<Rightarrow> nat \<Rightarrow> u64 \<Rightarrow> u8 \<Rightarrow> gw \<Rightarrow> gw option" where
  "change_subgroup E t p s w = do {
     g \<leftarrow> groups w t;
     if unat s < MAX_RAID_SUBGROUPS \<and> HasFreeSlotSubGroup s g = Some True then on_grp t (ChangeMembersGroup E t p s) w else Some w }"

text \<open>
  The conditions are those of the callers: a group is created once, a player is added who is
  not in it, a roll looks at loot that is there, and players with references are online.
\<close>

inductive group_step :: "gw \<Rightarrow> gw \<Rightarrow> bool" where
  fresh: "groups w t = None \<Longrightarrow>
    group_step w (weff (Hook ''OnConstructGroup'' []) (w\<lparr>groups := (groups w)(t \<mapsto> SetBattlefieldGroup bf (SetBattlegroundGroup bg (Group_new lfg)))\<rparr>))"
| found: "groups w t = Some g \<Longrightarrow> \<not> IsCreated g \<Longrightarrow> (\<And>i. GetGroupByGUID i w \<noteq> Some t) \<Longrightarrow> may_join t p w \<Longrightarrow>
    Create E t p w = Some (b, w') \<Longrightarrow> group_step w w'"
| register: "AddGroup t w = Some w' \<Longrightarrow> group_step w w'"
| invite: "AddInvite t p w = Some (b, w') \<Longrightarrow> group_step w w'"
| invite_leader: "AddLeaderInvite E t p w = Some (b, w') \<Longrightarrow> group_step w w'"
| join: "may_join t p w \<Longrightarrow> AddMember E t p w = Some (b, w') \<Longrightarrow> group_step w w'"
| reenter: "groups w t = Some g \<Longrightarrow> IsMember p g \<Longrightarrow> \<not> normal_grp g \<Longrightarrow> GetGroup p w \<noteq> Some t \<Longrightarrow>
    (\<And>u h. GetGroup p w = Some u \<Longrightarrow> groups w u = Some h \<Longrightarrow> normal_grp h) \<Longrightarrow>
    SetBattlegroundOrBattlefieldRaid p t (GetMemberGroup p g) w = Some w' \<Longrightarrow> group_step w w'"
| leave: "env_ok E w \<Longrightarrow> groups w t = Some g \<Longrightarrow> rolls_ready E g (gwIo w) \<Longrightarrow> RemoveMember E t p m k r w = Some (b, w') \<Longrightarrow> group_step w w'"
| disband: "env_ok E w \<Longrightarrow> Disband E t h w = Some w' \<Longrightarrow> group_step w w'"
| work: "own_op E t f \<Longrightarrow> on_grp t f w = Some w' \<Longrightarrow> group_step w w'"
| regroup: "change_subgroup E t p s w = Some w' \<Longrightarrow> group_step w w'"
| rolls: "groups w t = Some g \<Longrightarrow> group_step w (w\<lparr>groups := (groups w)(t \<mapsto> g\<lparr>RollId := rs\<rparr>)\<rparr>)"
| login: "refTo (gwIo w) (p, False) = None \<Longrightarrow> refTo (gwIo w) (p, True) = None \<Longrightarrow> Player_LoadGroup p i w = Some w' \<Longrightarrow> group_step w w'"
| logout: "group_step w (player_gone p w)"
| world: "refs_of io = refs_of (gwIo w) \<Longrightarrow> group_step w (w\<lparr>gwIo := io\<rparr>)"

definition no_groups :: "gw \<Rightarrow> bool" where
  "no_groups w \<longleftrightarrow> (\<forall>t. groups w t = None) \<and> (\<forall>r. refTo (gwIo w) r = None \<and> refSub (gwIo w) r = 0) \<and> (\<forall>i. groupStore w i = None)"

inductive group_reach :: "gw \<Rightarrow> bool" where
  start: "no_groups w \<Longrightarrow> group_reach w"
| step: "group_reach w \<Longrightarrow> group_step w w' \<Longrightarrow> group_reach w'"

section \<open>Every step keeps the invariant\<close>

definition groups_inv :: "gw \<Rightarrow> bool" where
  "groups_inv w \<longleftrightarrow> wld_inv w \<and> store_ok w"

lemma inv_weff [simp]: "wld_inv (weff e w) = wld_inv w" "store_ok (weff e w) = store_ok w"
  by (simp_all add: wld_inv_def single_ok_def store_ok_def) (simp add: store_ok_def weff_def)?

lemma good_inv:
  assumes "groups_inv w" "good_op f" "on_grp t f w = Some w'"
  shows "groups_inv w'"
proof -
  from assms(3) obtain g where g: "groups w t = Some g" by (auto simp: on_grp_def split: Option.bind_splits)
  from on_grp_inv [OF _ g, of f] assms invD(3) [OF _ g] have "wld_inv w'" by (auto simp: groups_inv_def good_op_def)
  moreover have "frozen w' = frozen w" by (rule keepsD [OF keeps_on_grp assms(3)]) (use assms(2) in \<open>simp add: good_op_def\<close>)
  ultimately show ?thesis using frozen_store assms(1) unfolding groups_inv_def by blast
qed

lemma Some_inv: "\<exists>w'. r = Some w' \<and> wld_inv w' \<and> P w' \<Longrightarrow> r = Some w'' \<Longrightarrow> wld_inv w''"
  by auto

lemma io_inv: "refs_of io = refs_of (gwIo w) \<Longrightarrow> groups_inv (w\<lparr>gwIo := io\<rparr>) = groups_inv w"
  by (simp add: groups_inv_def wld_inv_def world_ok_def links_ok_def owners_ok_def subs_ok_def single_ok_def store_ok_def refs_of_def)

lemma fresh_ok: "grp_ok (SetBattlefieldGroup bf (SetBattlegroundGroup bg (Group_new lfg)))"
  by (simp add: grp_ok_def Group_new_def SetBattlefieldGroup_def SetBattlegroundGroup_def subs_right_def isRaidGroup_def group_types icons_ok_def)

lemma fresh_inv:
  assumes I: "groups_inv w" and n: "groups w t = None"
  shows "groups_inv (weff e (w\<lparr>groups := (groups w)(t \<mapsto> SetBattlefieldGroup bf (SetBattlegroundGroup bg (Group_new lfg)))\<rparr>))"
proof -
  let ?n = "SetBattlefieldGroup bf (SetBattlegroundGroup bg (Group_new lfg))"
  let ?w = "w\<lparr>groups := (groups w)(t \<mapsto> ?n)\<rparr>"
  have W: "world_ok w" and L: "links_ok w" using I by (auto simp: groups_inv_def wld_inv_def world_ok_def)
  have nr: "refTo (gwIo w) r \<noteq> Some t" for r using links_okD(1) [OF L, of r t] n by auto
  have m: "memberMgr ?n = []" by (simp add: SetBattlefieldGroup_def SetBattlegroundGroup_def Group_new_def)
  have "links_ok ?w"
  proof (rule links_okI)
    show "\<exists>g. groups ?w t' = Some g" if "refTo (gwIo ?w) r = Some t'" for r t' using that links_okD(1) [OF L, of r t'] by auto
    show "distinct (memberMgr g)" if "groups ?w t' = Some g" for t' g using that m links_okD(2) [OF L] by (auto split: if_splits)
    show "r \<in> set (memberMgr g) \<longleftrightarrow> refTo (gwIo ?w) r = Some t'" if "groups ?w t' = Some g" for t' g r
      using that m nr [of r] links_okD(3) [OF L] by (auto split: if_splits)
  qed
  moreover have "owners_ok ?w" using W nr by (auto simp: world_ok_def owners_ok_def)
  ultimately have "wld_inv ?w" using I fresh_ok by (auto simp: groups_inv_def wld_inv_def world_ok_def subs_ok_def single_ok_def)
  moreover have "store_ok ?w" unfolding store_ok_def
  proof (intro allI impI)
    fix i t' assume "groupStore ?w i = Some t'"
    then obtain g where "groups w t' = Some g" "GetLowGUID g = i" using I by (auto simp: groups_inv_def store_ok_def)
    then show "\<exists>g. groups ?w t' = Some g \<and> GetLowGUID g = i" using n by auto
  qed
  ultimately show ?thesis by (simp add: groups_inv_def)
qed

lemma found_inv:
  assumes I: "groups_inv w" and g: "groups w t = Some g" and c: "\<not> IsCreated g" and s: "\<And>i. GetGroupByGUID i w \<noteq> Some t"
    and J: "may_join t p w" and r: "Create E t p w = Some (b, w')"
  shows "groups_inv w'"
proof -
  have W: "wld_inv w" using I by (simp add: groups_inv_def)
  have "length (memberSlots g) \<le> 40" using raid_size [OF invD(3) [OF W g]] by (simp add: MAXRAIDSIZE_def)
  then have "unat (of_nat (length (memberSlots g)) :: u32) = length (memberSlots g)" by (simp add: unat_of_nat)
  moreover have "unat (of_nat (length (memberSlots g)) :: u32) = 0" using c by (simp add: IsCreated_def GetMembersCount_def word_gt_0)
  ultimately have "memberSlots g = []" by simp
  from Create_ok [OF W g this J, of E] r have w': "wld_inv w'" "groupStore w' = groupStore w"
    "\<forall>t'. t' \<noteq> t \<longrightarrow> map_option bare (groups w' t') = map_option bare (groups w t')" by auto
  have q: "map_option grpGuid (groups w' t') = map_option grpGuid (groups w t')" if "t' \<noteq> t" for t'
  proof -
    have "grpGuid = grpGuid \<circ> bare" by (rule ext) (simp add: bare_def)
    with w'(3) that show ?thesis by (metis option.map_comp)
  qed
  have "store_ok w'" using I s q unfolding groups_inv_def store_ok_guids w'(2) GetGroupByGUID_def by metis
  with w'(1) show ?thesis by (simp add: groups_inv_def)
qed

lemma invite_inv:
  assumes I: "groups_inv w" and r: "AddInvite t p w = Some (b, w')"
  shows "groups_inv w'"
proof (cases "w' = w")
  case False
  let ?f = "\<lambda>q g io. let (g, io) = RemoveInvite q g io; g = g\<lparr>invitees := q # invitees g\<rparr>; io = io\<lparr>invitedTo := (invitedTo io)(q \<mapsto> t)\<rparr>
     in (g, geff (Hook ''OnGroupInviteMember'' [G64 (grpGuid g), G64 q]) io)"
  from r False obtain q where q: "on_grp t (?f q) w = Some w'"
    by (auto simp: AddInvite_def split: option.splits if_splits Option.bind_splits)
  have "good_op (?f q)" by (rule good_opI) (simp_all add: grp_same_def RemoveInvite_def Let_def)
  from good_inv [OF I this q] show ?thesis .
qed (use I in simp)

lemma invite_leader_inv:
  assumes I: "groups_inv w" and r: "AddLeaderInvite E t p w = Some (b, w')"
  shows "groups_inv w'"
proof -
  from r obtain ok w1 where w1: "AddInvite t p w = Some (ok, w1)" by (auto simp: AddLeaderInvite_def split: Option.bind_splits)
  have I1: "groups_inv w1" by (rule invite_inv [OF I w1])
  show ?thesis
  proof (cases "w' = w1")
    case False
    with r w1 obtain q where q: "on_grp t (\<lambda>g io. (g\<lparr>leaderGuid := q, leaderName := plName E q\<rparr>, io)) w1 = Some w'"
      by (auto simp: AddLeaderInvite_def split: option.splits bool.splits Option.bind_splits)
    have "good_op (\<lambda>g io. (g\<lparr>leaderGuid := q, leaderName := plName E q\<rparr>, io))" by (rule good_opI) (simp_all add: grp_same_def)
    from good_inv [OF I1 this q] show ?thesis .
  qed (use I1 in simp)
qed

lemma keeps_inv: "groups_inv w \<Longrightarrow> wld_inv w' \<Longrightarrow> frozen w' = frozen w \<Longrightarrow> groups_inv w'"
  using frozen_store unfolding groups_inv_def by blast

lemma join_inv:
  assumes I: "groups_inv w" and J: "may_join t p w" and r: "AddMember E t p w = Some (b, w')"
  shows "groups_inv w'"
proof -
  have W: "wld_inv w" using I by (simp add: groups_inv_def)
  from J obtain g where g: "groups w t = Some g" by (auto simp: may_join_def)
  have "wld_inv w'" using AddMember_inv [OF W J g, of E] r W by (auto split: option.splits)
  with keeps_inv [OF I] keeps_AddMember [OF r] show ?thesis by blast
qed

lemma reenter_inv:
  assumes I: "groups_inv w" and g: "groups w t = Some g" and p: "IsMember p g" and n: "GetGroup p w \<noteq> Some t"
    and old: "\<And>u h. GetGroup p w = Some u \<Longrightarrow> groups w u = Some h \<Longrightarrow> normal_grp h"
    and r: "SetBattlegroundOrBattlefieldRaid p t (GetMemberGroup p g) w = Some w'"
  shows "groups_inv w'"
proof -
  have W: "wld_inv w" using I by (simp add: groups_inv_def)
  have m: "p \<in> msGuid ` set (memberSlots g)" using p by (simp add: IsMember_iff)
  then obtain i where i: "getMemberSlot p (memberSlots g) = Some i"
    by (cases "getMemberSlot p (memberSlots g)") (auto simp: getMemberSlot_None)
  have "unat (GetMemberGroup p g) < 8"
    using grp_ok_subs(2) [OF invD(3) [OF W g]] getMemberSlot_Some [OF i] i by (auto simp: GetMemberGroup_def slot_of_def)
  then have "player_step p w (SetBattlegroundOrBattlefieldRaid p t (GetMemberGroup p g) w) (Some t, refTo (gwIo w) (p, False))"
    by (intro raid_step [OF invD(1) [OF W] g m]) (use old in \<open>auto simp: GetGroup_def\<close>)
  with player_step_inv [OF W this] n r have "wld_inv w'" by (auto simp: GetGroup_def)
  with keeps_inv [OF I] keepsD [OF keeps_raid(1) r] show ?thesis by blast
qed

lemma leave_inv:
  assumes I: "groups_inv w" and E: "env_ok E w" and g: "groups w t = Some g" and R: "rolls_ready E g (gwIo w)"
    and r: "RemoveMember E t p m k re w = Some (b, w')"
  shows "groups_inv w'"
proof (cases "isLFGGroup g \<and> m = RM_KICK")
  case True
  have "good_op (\<lambda>g io. (g, BroadcastGroupUpdate E g io))" by (rule good_opI) (simp_all add: grp_same_def)
  moreover obtain w0 where w0: "on_grp t (\<lambda>g io. (g, BroadcastGroupUpdate E g io)) w = Some w0" "groups w0 t = Some g"
    using g by (simp add: on_grp_def Let_def)
  ultimately have "groups_inv w0" using good_inv [OF I] by blast
  moreover have "\<exists>e. w' = weff e w0" using r w0 True by (auto simp: RemoveMember_def)
  ultimately show ?thesis by (auto simp: groups_inv_def)
next
  case False
  from RemoveMember_ok [OF _ E g R False, of p k re] r I have "wld_inv w'" by (auto simp: groups_inv_def after_leave_def)
  with RemoveMember_store [OF _ r] I show ?thesis by (simp add: groups_inv_def)
qed

lemma disband_inv:
  assumes I: "groups_inv w" and E: "env_ok E w" and r: "Disband E t h w = Some w'"
  shows "groups_inv w'"
proof -
  from r obtain g where g: "groups w t = Some g" by (auto simp: Disband_def split: Option.bind_splits)
  from Disband_ok [OF _ E g, of h] I r have "wld_inv w'" by (auto simp: groups_inv_def)
  with Disband_store [OF _ r] I show ?thesis by (simp add: groups_inv_def)
qed

text \<open>A change of sub-groups also tells the reference of the player.\<close>

lemma ChangeMembersGroup_fields:
  "grp_same (g, io) (fst (ChangeMembersGroup E t p s g io), io)"
  "refTo (snd (ChangeMembersGroup E t p s g io)) = refTo io"
  "unat s < 8 \<Longrightarrow> \<forall>r. unat (refSub io r) < 128 \<Longrightarrow> \<forall>r. unat (refSub (snd (ChangeMembersGroup E t p s g io)) r) < 128"
proof -
  have "\<exists>g' io'. ChangeMembersGroup E t p s g io = SendUpdate E t g' io' \<and> grp_same (g, io) (g', io) \<and> refTo io' = refTo io \<and>
      (\<forall>r. refSub io' r = refSub io r \<or> refSub io' r = s) \<or> ChangeMembersGroup E t p s g io = (g, io)"
  proof (cases "\<not> isRaidGroup g \<or> getMemberSlot p (memberSlots g) = None \<or> GetMemberGroup p g = s")
    case True
    then show ?thesis by (auto simp: ChangeMembersGroup_def split: option.splits)
  next
    case False
    then obtain i where i: "getMemberSlot p (memberSlots g) = Some i" by auto
    let ?g = "SubGroupCounterDecrease (GetMemberGroup p g) (SubGroupCounterIncrease s
        (g\<lparr>memberSlots := (memberSlots g)[i := (memberSlots g ! i)\<lparr>msGroup := s\<rparr>]\<rparr>))"
    have "grp_same (g, io) (?g, io)"
      using getMemberSlot_Some [OF i] by (simp add: grp_same_def SubGroupCounterDecrease_def SubGroupCounterIncrease_def guids_update)
    moreover let ?io = "let io = (if normal_grp ?g then geff (Stmt ''CHAR_UPD_GROUP_MEMBER_SUBGROUP'' [G8 s, G32 (GUID_LOPART p)]) io else io)
        in if online E p then if refTo io (p, False) = Some t then io\<lparr>refSub := (refSub io)((p, False) := s)\<rparr>
             else io\<lparr>refSub := (refSub io)((p, True) := s)\<rparr> else io"
    have "ChangeMembersGroup E t p s g io = SendUpdate E t ?g ?io" using False i by (simp add: ChangeMembersGroup_def Let_def)
    moreover have "refTo ?io = refTo io" "\<forall>r. refSub ?io r = refSub io r \<or> refSub ?io r = s" by (simp_all add: Let_def)
    ultimately show ?thesis by blast
  qed
  then have "grp_same (g, io) (fst (ChangeMembersGroup E t p s g io), io) \<and> refTo (snd (ChangeMembersGroup E t p s g io)) = refTo io \<and>
      (\<forall>r. refSub (snd (ChangeMembersGroup E t p s g io)) r = refSub io r \<or> refSub (snd (ChangeMembersGroup E t p s g io)) r = s)"
  proof (elim disjE exE conjE)
    fix g' io' assume "ChangeMembersGroup E t p s g io = SendUpdate E t g' io'" "grp_same (g, io) (g', io)" "refTo io' = refTo io"
      "\<forall>r. refSub io' r = refSub io r \<or> refSub io' r = s"
    then show ?thesis using SendUpdate_only [of E t g' io'] only_out_fields by (fastforce simp: grp_same_def)
  qed (simp add: grp_same_def)
  then show "grp_same (g, io) (fst (ChangeMembersGroup E t p s g io), io)"
    "refTo (snd (ChangeMembersGroup E t p s g io)) = refTo io"
    "unat s < 8 \<Longrightarrow> \<forall>r. unat (refSub io r) < 128 \<Longrightarrow> \<forall>r. unat (refSub (snd (ChangeMembersGroup E t p s g io)) r) < 128"
    by (auto, metis less_trans numeral_less_iff semiring_norm(68,71,76,78))
qed

lemma regroup_inv:
  assumes I: "groups_inv w" and r: "change_subgroup E t p s w = Some w'"
  shows "groups_inv w'"
proof (cases "w' = w")
  case False
  let ?f = "ChangeMembersGroup E t p s"
  from r False obtain g where g: "groups w t = Some g" and s: "unat s < 8" "HasFreeSlotSubGroup s g = Some True" and o: "on_grp t ?f w = Some w'"
    by (auto simp: change_subgroup_def split: Option.bind_splits if_splits)
  have W: "wld_inv w" using I by (simp add: groups_inv_def)
  let ?h = "\<lambda>g io. (fst (?f g io), io)"
  have "frame ?h"
  proof (rule frameI_guids)
    fix g io
    note c = ChangeMembersGroup_fields(1) [of g io E t p s]
    show "memberMgr (fst (?h g io)) = memberMgr g" "refs_of (snd (?h g io)) = refs_of io" "bgGroup (fst (?h g io)) = bgGroup g"
      "bfGroup (fst (?h g io)) = bfGroup g" "map msGuid (memberSlots (fst (?h g io))) = map msGuid (memberSlots g)"
      using c by (auto simp: grp_same_def)
  qed
  from on_grp_inv [OF W g this] change_group_ok [OF invD(3) [OF W g] s] obtain w1 where
    w1: "on_grp t ?h w = Some w1" "wld_inv w1" "groups w1 = (groups w)(t \<mapsto> fst (?f g (gwIo w)))" "gwIo w1 = gwIo w" by auto
  have w': "w' = w1\<lparr>gwIo := snd (?f g (gwIo w))\<rparr>" using o w1(1) on_grp_some [OF g] by auto
  have "\<forall>r. unat (refSub (gwIo w) r) < 128" using W by (simp add: wld_inv_def world_ok_def subs_ok_def)
  then have "wld_inv w'" using w1(2,4) s(1) ChangeMembersGroup_fields(2,3) [where E = E and t = t and p = p and s = s and g = g and io = "gwIo w"]
    by (simp add: w' wld_inv_def world_ok_def links_ok_def owners_ok_def subs_ok_def single_ok_def)
  moreover have "frozen w' = frozen w"
    by (rule keepsD [OF keeps_on_grp o]) (use ChangeMembersGroup_fields(1) in \<open>auto simp: grp_same_def\<close>)
  ultimately show ?thesis by (rule keeps_inv [OF I])
qed (use I in simp)

lemma rolls_inv:
  assumes I: "groups_inv w" and g: "groups w t = Some g"
  shows "groups_inv (w\<lparr>groups := (groups w)(t \<mapsto> g\<lparr>RollId := rs\<rparr>)\<rparr>)"
proof -
  have "good_op (\<lambda>g io. (g\<lparr>RollId := rs\<rparr>, io))" by (rule good_opI) (simp_all add: grp_same_def)
  from good_inv [OF I this, of t] show ?thesis using g by (simp add: on_grp_some)
qed

lemma flag_inv: "groups_inv (set_leader_flag p b w) = groups_inv w"
  unfolding set_leader_flag_def by (rule io_inv) simp

lemma logout_inv:
  assumes I: "groups_inv w"
  shows "groups_inv (player_gone p w)"
proof -
  have step: "groups_inv (gref_unlink (q, b) w)" if I: "groups_inv w" for q b w
  proof -
    have W: "wld_inv w" using I by (simp add: groups_inv_def)
    have "player_step q w (Some (gref_unlink (q, b) w)) (if b then refTo (gwIo w) (q, False) else None, if b then None else refTo (gwIo w) (q, True))"
      using player_step_unlink [OF invD(1) [OF W], of q] by simp
    moreover have "(if b then refTo (gwIo w) (q, False) else None) = None \<or>
        (if b then refTo (gwIo w) (q, False) else None) \<noteq> (if b then None else refTo (gwIo w) (q, True))" by auto
    ultimately have "wld_inv (gref_unlink (q, b) w)" using player_step_inv [OF W] by blast
    moreover have "frozen (gref_unlink (q, b) w) = frozen w" using keeps_unlink by (simp add: keeps_def)
    ultimately show ?thesis by (intro keeps_inv [OF I])
  qed
  show ?thesis unfolding player_gone_def by (intro step I)
qed

lemma login_inv:
  assumes I: "groups_inv w" and n: "refTo (gwIo w) (p, False) = None" "refTo (gwIo w) (p, True) = None"
    and r: "Player_LoadGroup p i w = Some w'"
  shows "groups_inv w'"
proof -
  from r obtain w1 where w1: "(case (if i \<noteq> 0 then GetGroupByGUID i w else None) of
        None \<Rightarrow> Some w
      | Some t \<Rightarrow> do {
          g \<leftarrow> groups w t;
          if unat (GetMemberGroup p g) \<le> MAX_RAID_SUBGROUPS then do {
            w \<leftarrow> SetGroup p (Some (t, GetMemberGroup p g)) (if IsLeader p g then set_leader_flag p True w else w);
            Some (w\<lparr>gwIo := (gwIo w)\<lparr>plDungeonDifficulty := (plDungeonDifficulty (gwIo w))(p := GetDifficulty False g),
                                      plRaidDifficulty := (plRaidDifficulty (gwIo w))(p := GetDifficulty True g)\<rparr>\<rparr>) }
          else Some w }) = Some w1" and w': "w' = w1 \<or> w' = set_leader_flag p False w1"
    unfolding Player_LoadGroup_def by (auto split: Option.bind_splits if_splits)
  have "groups_inv w1"
  proof (cases "w1 = w")
    case False
    with w1 obtain t g where g: "groups w t = Some g" and u: "unat (GetMemberGroup p g) \<le> 8"
      and e: "do { w \<leftarrow> SetGroup p (Some (t, GetMemberGroup p g)) (if IsLeader p g then set_leader_flag p True w else w);
            Some (w\<lparr>gwIo := (gwIo w)\<lparr>plDungeonDifficulty := (plDungeonDifficulty (gwIo w))(p := GetDifficulty False g),
                                      plRaidDifficulty := (plRaidDifficulty (gwIo w))(p := GetDifficulty True g)\<rparr>\<rparr>) } = Some w1"
      by (cases "if i \<noteq> 0 then GetGroupByGUID i w else None") (auto simp del: not_None_eq split: Option.bind_splits if_splits)
    let ?w0 = "if IsLeader p g then set_leader_flag p True w else w"
    have I0: "groups_inv ?w0" using I flag_inv by simp
    have f0: "groups ?w0 = groups w" "refTo (gwIo ?w0) = refTo (gwIo w)" by (simp_all add: set_leader_flag_def)
    from e obtain w2 where w2: "SetGroup p (Some (t, GetMemberGroup p g)) ?w0 = Some w2"
      and w1': "w1 = w2\<lparr>gwIo := (gwIo w2)\<lparr>plDungeonDifficulty := (plDungeonDifficulty (gwIo w2))(p := GetDifficulty False g),
          plRaidDifficulty := (plRaidDifficulty (gwIo w2))(p := GetDifficulty True g)\<rparr>\<rparr>"
      by (auto split: Option.bind_splits)
    have "p \<in> msGuid ` set (memberSlots g)"
    proof (rule ccontr)
      assume "p \<notin> msGuid ` set (memberSlots g)"
      then have "getMemberSlot p (memberSlots g) = None" by (simp add: getMemberSlot_None)
      with u show False by (simp add: GetMemberGroup_def slot_of_def)
    qed
    then have m: "may_link (p, False) t ?w0" using g f0(1) by (auto simp: may_link_def)
    have W0: "wld_inv ?w0" using I0 by (simp add: groups_inv_def)
    have "player_step p ?w0 (SetGroup p (Some (t, GetMemberGroup p g)) ?w0) (Some t, refTo (gwIo ?w0) (p, True))"
      using player_step_weff [OF player_step_link [OF invD(1) [OF W0] m]] u by (simp add: SetGroup_def)
    from player_step_inv [OF W0 this] n(2) f0(2) w2 have "wld_inv w2" by auto
    moreover have "frozen w2 = frozen ?w0" by (rule keepsD [OF keeps_SetGroup(1) w2])
    ultimately have "groups_inv w2" by (rule keeps_inv [OF I0])
    then show ?thesis unfolding w1' by (subst io_inv) (simp_all add: refs_of_def)
  qed (use I in simp)
  with w' flag_inv show ?thesis by auto
qed

lemma register_inv: "groups_inv w \<Longrightarrow> AddGroup t w = Some w' \<Longrightarrow> groups_inv w'"
proof -
  assume I: "groups_inv w" and r: "AddGroup t w = Some w'"
  then obtain g where g: "groups w t = Some g" "w' = w\<lparr>groupStore := (groupStore w)(GetLowGUID g \<mapsto> t)\<rparr>"
    by (auto simp: AddGroup_def split: Option.bind_splits)
  with I show ?thesis
    by (auto simp: groups_inv_def wld_inv_def world_ok_def links_ok_def owners_ok_def subs_ok_def single_ok_def store_ok_def)
qed

theorem group_step_inv: "group_step w w' \<Longrightarrow> groups_inv w \<Longrightarrow> groups_inv w'"
proof (induction rule: group_step.induct)
  case (fresh w t bf bg lfg)
  then show ?case by (intro fresh_inv)
next
  case (found w t g p E b w')
  show ?case by (rule found_inv [OF found(6,1-5)])
next
  case (work E t f w w')
  then show ?case using good_inv own_op_good by blast
next
  case (world io w)
  then show ?case using io_inv by blast
qed (blast intro: register_inv invite_inv invite_leader_inv join_inv reenter_inv leave_inv disband_inv regroup_inv rolls_inv login_inv logout_inv)+

lemma start_inv: "no_groups w \<Longrightarrow> groups_inv w"
  by (simp add: no_groups_def groups_inv_def wld_inv_def world_ok_def links_ok_def owners_ok_def subs_ok_def single_ok_def store_ok_def)

theorem group_reach_inv: "group_reach w \<Longrightarrow> groups_inv w"
  by (induction rule: group_reach.induct) (auto intro: start_inv group_step_inv)

end
