(* ===== verification/GroupProps.thy ===== *)
theory GroupProps
  imports GroupWorld
begin

text \<open>
  What the model of groups is worth to the server: pointers between players, groups and the
  manager never dangle, the shape of a group is kept, and what joining, leaving, disbanding,
  marking, looting in turn, succession and the ids do.
\<close>

section \<open>A small world\<close>

definition live_env :: grpEnv where
  "live_env = \<lparr>inWorld = (\<lambda>_. True), online = (\<lambda>_. True), loggingOut = (\<lambda>_. False), plName = (\<lambda>_. ''A''),
     plMap = (\<lambda>_. Some 1), enchanting = (\<lambda>_. 0), passOnLoot = (\<lambda>_. False), canStore = (\<lambda>_ _ _. 0),
     allowedFor = (\<lambda>_ _. True), template = (\<lambda>_. None), urandDraw = (\<lambda>_ a b. if a \<le> b then b else a), nameOfGuid = (\<lambda>_. None),
     isGameMaster = (\<lambda>_. False), onDungeonMap = (\<lambda>_. False), boundHere = (\<lambda>_. False), isAlive = (\<lambda>_. True),
     plMapId = (\<lambda>_. 1), inSight = (\<lambda>_ _. True), haveAtClient = (\<lambda>_ _. True), valuesFor = (\<lambda>_ _. True),
     lfgState = (\<lambda>_. 0), lfgDungeon = (\<lambda>_. 0), lfgDungeonMap = (\<lambda>_. 0)\<rparr>"

definition empty_gw :: gw where
  "empty_gw = \<lparr>groups = (\<lambda>_. None),
     gwIo = \<lparr>refTo = (\<lambda>_. None), refSub = (\<lambda>_. 0), invitedTo = (\<lambda>_. None), leaderFlag = (\<lambda>_. False), plDungeonDifficulty = (\<lambda>_. 0),
       plRaidDifficulty = (\<lambda>_. 0), loots = (\<lambda>_. None), draws = 0, hiItemGuid = 1, gout = []\<rparr>,
     nextGroupId = 1, groupIds = [], groupStore = (\<lambda>_. None)\<rparr>"

definition fresh_gw :: gw where
  "fresh_gw = weff (Hook ''OnConstructGroup'' [])
     (empty_gw\<lparr>groups := (groups empty_gw)(0 \<mapsto> SetBattlefieldGroup False (SetBattlegroundGroup False (Group_new 0)))\<rparr>)"

definition solo_gw :: gw where "solo_gw = snd (the (Create live_env 0 1 fresh_gw))"
definition listed_gw :: gw where "listed_gw = the (AddGroup 0 solo_gw)"
definition pair_gw :: gw where "pair_gw = snd (the (AddMember live_env 0 2 listed_gw))"
definition party_gw :: gw where "party_gw = snd (the (AddMember live_env 0 3 pair_gw))"

definition ran :: "(bool \<times> gw) option \<Rightarrow> bool" where
  "ran r = (case r of None \<Rightarrow> False | Some (b, _) \<Rightarrow> b)"

lemma ran_Some: "ran r \<Longrightarrow> r = Some (True, snd (the r))"
  by (auto simp: ran_def split: option.splits)

text \<open>What a group shows of a member and its references, as values.\<close>

definition seen :: "gw \<Rightarrow> u64 \<Rightarrow> (u64 list \<times> bool \<times> bool \<times> bool) option \<times> nat option \<times> nat option \<times> nat option" where
  "seen w p = (map_option (\<lambda>g. (map msGuid (memberSlots g), IsMember p g, IsFull g, normal_grp g)) (groups w 0),
     refTo (gwIo w) (p, False), refTo (gwIo w) (p, True), GetGroupByGUID 1 w)"

lemma runs: "ran (Create live_env 0 1 fresh_gw)" "AddGroup 0 solo_gw \<noteq> None" "ran (AddMember live_env 0 2 listed_gw)"
    "ran (AddMember live_env 0 3 pair_gw)"
  by code_simp+

lemma views:
  "seen fresh_gw 1 = (Some ([], False, False, True), None, None, None)"
  "seen listed_gw 2 = (Some ([1], False, False, True), None, None, Some 0)"
  "seen pair_gw 3 = (Some ([1, 2], False, False, True), None, None, Some 0)"
  "seen party_gw 2 = (Some ([1, 2, 3], True, False, True), Some 0, None, Some 0)"
  by code_simp+

lemma seen_join: "seen w p = (Some (ps, False, False, True), None, b, c) \<Longrightarrow> may_join 0 p w"
  by (auto simp: seen_def may_join_def)

lemma fresh_reach: "group_reach fresh_gw"
proof -
  have "no_groups empty_gw" by (simp add: no_groups_def empty_gw_def)
  moreover have "group_step empty_gw fresh_gw" unfolding fresh_gw_def by (rule group_step.fresh) (simp add: empty_gw_def)
  ultimately show ?thesis by (blast intro: group_reach.intros)
qed

lemma party_reach: "group_reach listed_gw" "group_reach pair_gw" "group_reach party_gw"
proof -
  obtain g where g: "groups fresh_gw 0 = Some g" "map msGuid (memberSlots g) = []" using views(1) by (auto simp: seen_def)
  have "group_step fresh_gw solo_gw"
  proof (rule group_step.found [OF g(1)])
    show "\<not> IsCreated g" using g(2) by (simp add: IsCreated_def GetMembersCount_def)
    show "GetGroupByGUID i fresh_gw \<noteq> Some 0" for i by (simp add: GetGroupByGUID_def fresh_gw_def empty_gw_def weff_def)
    show "may_join 0 1 fresh_gw" by (rule seen_join [OF views(1)])
    show "Create live_env 0 1 fresh_gw = Some (True, solo_gw)" using ran_Some [OF runs(1)] by (simp add: solo_gw_def)
  qed
  then have s: "group_reach solo_gw" using fresh_reach by (blast intro: group_reach.intros)
  have "AddGroup 0 solo_gw = Some listed_gw" using runs(2) by (simp add: listed_gw_def)
  then show l: "group_reach listed_gw" using s by (blast intro: group_reach.intros group_step.register)
  have "AddMember live_env 0 2 listed_gw = Some (True, pair_gw)" using ran_Some [OF runs(3)] by (simp add: pair_gw_def)
  then show p: "group_reach pair_gw" using l seen_join [OF views(2)] by (blast intro: group_reach.intros group_step.join)
  have "AddMember live_env 0 3 pair_gw = Some (True, party_gw)" using ran_Some [OF runs(4)] by (simp add: party_gw_def)
  then show "group_reach party_gw" using p seen_join [OF views(3)] by (blast intro: group_reach.intros group_step.join)
qed

section \<open>Pointers\<close>

text \<open>
  C5. Whatever happens to groups and players, a player's pointer to its group, the current or
  the original one, leads to a group that exists, that has the player in its table of members
  and the reference exactly once in its list; and the manager finds under an id only a group
  that exists and has the id.
\<close>

theorem group_pointers_live:
  assumes "group_reach w"
  shows "(refTo (gwIo w) (p, b) = Some t \<longrightarrow>
      (\<exists>g. groups w t = Some g \<and> IsMember p g \<and> (b \<longrightarrow> normal_grp g) \<and> filter (\<lambda>r. r = (p, b)) (memberMgr g) = [(p, b)])) \<and>
    (GetGroupByGUID i w = Some u \<longrightarrow> (\<exists>g. groups w u = Some g \<and> GetLowGUID g = i))"
proof -
  have I: "wld_inv w" "store_ok w" using group_reach_inv [OF assms] by (simp_all add: groups_inv_def)
  have L: "links_ok w" using invD(1) [OF I(1)] by (simp add: world_ok_def)
  have "\<exists>g. groups w t = Some g \<and> IsMember p g \<and> (b \<longrightarrow> normal_grp g) \<and> filter (\<lambda>r. r = (p, b)) (memberMgr g) = [(p, b)]"
    if r: "refTo (gwIo w) (p, b) = Some t"
  proof -
    from owners_okD [OF invD(1) [OF I(1)] r] obtain g where g: "groups w t = Some g" "p \<in> msGuid ` set (memberSlots g)" "b \<longrightarrow> normal_grp g" .
    have one: "distinct xs \<Longrightarrow> x \<in> set xs \<Longrightarrow> filter (\<lambda>r. r = x) xs = [x]" for xs and x :: "u64 \<times> bool"
    proof (induction xs)
      case (Cons y ys)
      then show ?case by (cases "x = y") (auto simp: filter_empty_conv)
    qed simp
    from one [of "memberMgr g" "(p, b)"] links_okD(2,3) [OF L g(1)] r g show ?thesis by (auto simp: IsMember_iff)
  qed
  with I(2) show ?thesis by (auto simp: store_ok_def GetGroupByGUID_def)
qed

theorem group_pointers_live_witness:
  "(\<exists>g. groups party_gw 0 = Some g \<and> IsMember 2 g \<and> filter (\<lambda>r. r = (2, False)) (memberMgr g) = [(2, False)]) \<and>
   (\<exists>g. groups party_gw 0 = Some g \<and> GetLowGUID g = 1)"
  using group_pointers_live [OF party_reach(3), of 2 False 0 1 0] views(4) by (auto simp: seen_def)

section \<open>The shape of a group\<close>

text \<open>
  C6. From a start without saved groups until the next restart, every group has distinct members,
  at most forty; no sub-group has more than five, and the counters of a raid's sub-groups are the
  numbers of members in them; there is at most one main tank and one main assistant, and a target
  has at most one icon. (A restart can bring back a second main tank, as the end of this theory shows.)
\<close>

theorem group_shape_kept:
  assumes "group_reach w" "groups w t = Some g"
  shows "distinct (map msGuid (memberSlots g)) \<and> length (memberSlots g) \<le> MAXRAIDSIZE \<and>
    (\<forall>s. length (filter (\<lambda>m. msGroup m = s) (memberSlots g)) \<le> MAXGROUPSIZE) \<and>
    (isRaidGroup g \<longrightarrow> map_option (map unat) (subGroupsCounts g) =
       Some (map (\<lambda>i. length (filter (\<lambda>m. unat (msGroup m) = i) (memberSlots g))) [0..<MAX_RAID_SUBGROUPS])) \<and>
    length (filter (\<lambda>m. msFlags m AND MEMBER_FLAG_MAINTANK \<noteq> 0) (memberSlots g)) \<le> 1 \<and>
    length (filter (\<lambda>m. msFlags m AND MEMBER_FLAG_MAINASSIST \<noteq> 0) (memberSlots g)) \<le> 1 \<and>
    distinct (filter (\<lambda>x. x \<noteq> 0) (targetIcons g))"
proof -
  have ok: "grp_ok g" using group_reach_inv [OF assms(1)] invD(3) [OF _ assms(2)] by (simp add: groups_inv_def)
  have sub: "length (filter (\<lambda>m. msGroup m = s) (memberSlots g)) = in_sub (unat s) (memberSlots g)" for s
    by (simp add: in_sub_def word_unat_eq_iff)
  have five: "in_sub i (memberSlots g) \<le> 5" for i
  proof (cases "i < 8")
    case False
    then have "in_sub i (memberSlots g) = 0" using grp_ok_subs(2) [OF ok] by (auto simp: in_sub_def filter_empty_conv)
    then show ?thesis by simp
  qed (use grp_ok_subs(1) [OF ok] in simp)
  have raid: "map_option (map unat) (subGroupsCounts g) =
      Some (map (\<lambda>i. length (filter (\<lambda>m. unat (msGroup m) = i) (memberSlots g))) [0..<MAX_RAID_SUBGROUPS])" if "isRaidGroup g"
    using ok that by (auto simp: grp_ok_def subs_right_def in_sub_def intro!: nth_equalityI split: option.splits)
  have icons: "distinct (filter (\<lambda>x. x \<noteq> 0) xs)" if "\<forall>i<length xs. \<forall>j<length xs. i \<noteq> j \<longrightarrow> xs ! i \<noteq> 0 \<longrightarrow> xs ! i \<noteq> xs ! j" for xs :: "u64 list"
    using that
  proof (induction xs)
    case (Cons x xs)
    have "\<forall>i<length xs. \<forall>j<length xs. i \<noteq> j \<longrightarrow> xs ! i \<noteq> 0 \<longrightarrow> xs ! i \<noteq> xs ! j"
    proof (intro allI impI)
      fix i j assume "i < length xs" "j < length xs" "i \<noteq> j" "xs ! i \<noteq> 0"
      then show "xs ! i \<noteq> xs ! j" using Cons.prems [rule_format, of "Suc i" "Suc j"] by simp
    qed
    moreover have "x \<notin> set xs" if "x \<noteq> 0"
    proof
      assume "x \<in> set xs"
      then obtain j where "j < length xs" "xs ! j = x" by (auto simp: in_set_conv_nth)
      with Cons.prems [rule_format, of 0 "Suc j"] that show False by simp
    qed
    ultimately show ?case using Cons.IH by auto
  qed simp
  have "distinct (filter (\<lambda>x. x \<noteq> 0) (targetIcons g))" using ok icons [of "targetIcons g"] by (simp add: grp_ok_def icons_ok_def)
  then show ?thesis using ok raid_size [OF ok] sub five raid by (simp add: grp_ok_def flagged_def)
qed

theorem group_shape_kept_witness:
  "\<exists>g. groups party_gw 0 = Some g \<and> distinct (map msGuid (memberSlots g)) \<and>
    length (filter (\<lambda>m. msGroup m = 0) (memberSlots g)) \<le> MAXGROUPSIZE"
proof -
  obtain g where g: "groups party_gw 0 = Some g" using views(4) by (auto simp: seen_def)
  from group_shape_kept [OF party_reach(3) this] g show ?thesis by blast
qed

section \<open>Joining\<close>

lemma room_somewhere:
  assumes ok: "grp_ok g" and f: "\<not> IsFull g"
  obtains i where "first_free_subgroup g = Some i" "i < 8" "in_sub i (memberSlots g) < 5" "\<And>j. j < i \<Longrightarrow> in_sub j (memberSlots g) = 5"
proof (cases "first_free_subgroup g")
  case None
  then obtain cs where s: "subGroupsCounts g = Some cs" and n: "find (\<lambda>i. unat (cs ! i) < 5) [0..<8] = None"
    by (auto simp: first_free_subgroup_def split: option.splits)
  have cs: "subGroupsCounts g = Some cs" "\<forall>i<8. 5 \<le> unat (cs ! i)" using s n by (auto simp: find_None_iff)
  then have "\<forall>i<8. in_sub i (memberSlots g) = 5" using ok by (fastforce simp: grp_ok_def subs_right_def intro: le_antisym)
  moreover have "length (memberSlots g) = (\<Sum>i<8. in_sub i (memberSlots g))" using grp_ok_subs(2) [OF ok] by (rule members_by_sub)
  ultimately have "length (memberSlots g) = 40" by simp
  with f show ?thesis by (simp add: IsFull_def MAXRAIDSIZE_def split: if_splits)
next
  case (Some i)
  show ?thesis
  proof (rule that [OF Some first_free_Some(1) [OF Some]])
    show "in_sub i (memberSlots g) < 5"
    proof (cases "subGroupsCounts g")
      case None
      have "in_sub i (memberSlots g) \<le> length (memberSlots g)" by (simp add: in_sub_def)
      moreover have "length (memberSlots g) < 5" using ok f None by (auto simp: grp_ok_def subs_right_def IsFull_def)
      ultimately show ?thesis by simp
    next
      case s: (Some cs)
      then show ?thesis using first_free_Some(1) [OF Some] first_free_Some(3) [OF Some s] ok by (auto simp: grp_ok_def subs_right_def)
    qed
    fix j assume j: "j < i"
    show "in_sub j (memberSlots g) = 5"
    proof (cases "subGroupsCounts g")
      case None
      then show ?thesis using first_free_Some(2) [OF Some] j by simp
    next
      case s: (Some cs)
      have "j < 8" using j first_free_Some(1) [OF Some] by simp
      then show ?thesis using first_free_Some(4) [OF Some s j] ok s by (fastforce simp: grp_ok_def subs_right_def intro: le_antisym)
    qed
  qed
qed

text \<open>
  C14. A player that is not in a group that is not full can always join it: it becomes the last
  member, in the first sub-group that has room, and its pointers lead to the group, where a raid
  of a battleground moves the old group to the original one. No other group changes its members.
\<close>

theorem join_first_free:
  assumes "group_reach w" "may_join t p w" "groups w t = Some g"
  shows "\<exists>i w' g'. i < 8 \<and> in_sub i (memberSlots g) < 5 \<and> (\<forall>j<i. in_sub j (memberSlots g) = 5) \<and>
    AddMember E t p w = Some (True, w') \<and> groups w' t = Some g' \<and>
    memberSlots g' = memberSlots g @ [\<lparr>msGuid = p, msName = plName E p, msGroup = of_nat i, msFlags = 0, msRoles = 0\<rparr>] \<and>
    (GetGroup p w', GetOriginalGroup p w') =
      (if GetGroup p w = None then (Some t, GetOriginalGroup p w)
       else if normal_grp g then (GetGroup p w, Some t) else (Some t, GetGroup p w)) \<and>
    (\<forall>q. q \<noteq> p \<longrightarrow> GetGroup q w' = GetGroup q w) \<and>
    (\<forall>u. u \<noteq> t \<longrightarrow> map_option memberSlots (groups w' u) = map_option memberSlots (groups w u))"
proof -
  have I: "wld_inv w" using group_reach_inv [OF assms(1)] by (simp add: groups_inv_def)
  have "\<not> IsFull g" using assms(2,3) by (auto simp: may_join_def)
  from room_somewhere [OF invD(3) [OF I assms(3)] this] obtain i where
    i: "first_free_subgroup g = Some i" "i < 8" "in_sub i (memberSlots g) < 5" "\<And>j. j < i \<Longrightarrow> in_sub j (memberSlots g) = 5" by blast
  from AddMember_inv [OF I assms(2,3), of E] i(1) obtain w' g' where w': "AddMember E t p w = Some (True, w')" "groups w' t = Some g'"
    "memberSlots g' = memberSlots g @ [\<lparr>msGuid = p, msName = plName E p, msGroup = of_nat i, msFlags = 0, msRoles = 0\<rparr>]"
    "\<forall>u. u \<noteq> t \<longrightarrow> map_option bare (groups w' u) = map_option bare (groups w u)"
    "refTo (gwIo w') = (let (a, b) = joined_refs t (\<not> normal_grp g) (refTo (gwIo w) (p, False), refTo (gwIo w) (p, True))
          in (refTo (gwIo w))((p, False) := a, (p, True) := b))" by auto
  have m: "map_option memberSlots (groups w' u) = map_option memberSlots (groups w u)" if "u \<noteq> t" for u
  proof -
    have "memberSlots = memberSlots \<circ> bare" by (rule ext) (simp add: bare_def)
    with w'(4) that show ?thesis by (metis option.map_comp)
  qed
  have "(GetGroup p w', GetOriginalGroup p w') = (if GetGroup p w = None then (Some t, GetOriginalGroup p w)
       else if normal_grp g then (GetGroup p w, Some t) else (Some t, GetGroup p w))"
    "\<forall>q. q \<noteq> p \<longrightarrow> GetGroup q w' = GetGroup q w"
    by (auto simp: GetGroup_def GetOriginalGroup_def w'(5) joined_refs_def)
  with w'(1-3) m i(2-4) show ?thesis by blast
qed

theorem join_first_free_witness:
  "\<exists>w' g'. AddMember live_env 0 3 pair_gw = Some (True, w') \<and> groups w' 0 = Some g' \<and> map msGuid (memberSlots g') = [1, 2, 3] \<and>
    GetGroup 3 w' = Some 0"
proof -
  obtain g where g: "groups pair_gw 0 = Some g" "map msGuid (memberSlots g) = [1, 2]" "refTo (gwIo pair_gw) (3, False) = None"
    using views(3) by (auto simp: seen_def)
  from join_first_free [OF party_reach(2) seen_join [OF views(3)] g(1), of live_env] g(2,3) show ?thesis by (auto simp: GetGroup_def)
qed

section \<open>Leaving and disbanding\<close>

lemma slots_bare: "map_option bare a = map_option bare b \<Longrightarrow> map_option memberSlots a = map_option memberSlots b"
proof -
  have "memberSlots = memberSlots \<circ> bare" by (rule ext) (simp add: bare_def)
  then show "map_option bare a = map_option bare b \<Longrightarrow> map_option memberSlots a = map_option memberSlots b" by (metis option.map_comp)
qed

text \<open>
  C10. Removing a member completes, whatever votes it leaves behind in open rolls: the
  player points to the group no more, and either the group goes on with exactly the others, or
  it is gone, which is reported, and nobody points to it. No other group changes its members.
  Assumed: the item template and the loot slot of every open roll are there, only players that
  are online have references to groups, and it is not a kick from a group of the dungeon finder,
  where the member stays until the finder's vote is over.
\<close>

theorem member_removed:
  assumes "group_reach w" "env_ok E w" "groups w t = Some g" "rolls_ready E g (gwIo w)" "\<not> (isLFGGroup g \<and> m = RM_KICK)"
  shows "\<exists>b w'. RemoveMember E t p m k r w = Some (b, w') \<and> GetGroup p w' \<noteq> Some t \<and> GetOriginalGroup p w' \<noteq> Some t \<and>
    (case groups w' t of
       Some g' \<Rightarrow> b \<and> msGuid ` set (memberSlots g') = msGuid ` set (memberSlots g) - {p}
     | None \<Rightarrow> \<not> b \<and> (\<forall>q. GetGroup q w' \<noteq> Some t \<and> GetOriginalGroup q w' \<noteq> Some t)) \<and>
    (\<forall>u. u \<noteq> t \<longrightarrow> map_option memberSlots (groups w' u) = map_option memberSlots (groups w u))"
proof -
  have I: "wld_inv w" using group_reach_inv [OF assms(1)] by (simp add: groups_inv_def)
  from RemoveMember_ok [OF I assms(2-5), of p k r] obtain b w' where
    w': "RemoveMember E t p m k r w = Some (b, w')" "after_leave t p w w' b" by blast
  then have "\<forall>u. u \<noteq> t \<longrightarrow> map_option memberSlots (groups w' u) = map_option memberSlots (groups w u)"
    by (auto simp: after_leave_def intro: slots_bare)
  with w' assms(3) show ?thesis
    by (auto simp: after_leave_def away_def GetGroup_def GetOriginalGroup_def left_members_def split: option.splits)
qed

lemma party_ready:
  obtains g where "groups party_gw 0 = Some g" "env_ok live_env party_gw" "rolls_ready live_env g (gwIo party_gw)"
    "map msGuid (memberSlots g) = [1, 2, 3]" "isLFGGroup g = False"
proof -
  have "map_option (\<lambda>g. (RollId g, groupType g)) (groups party_gw 0) = Some ([], 0)" by code_simp
  moreover have "env_ok live_env party_gw" by (simp add: env_ok_def live_env_def)
  ultimately show thesis using that views(4) by (auto simp: seen_def rolls_ready_def isLFGGroup_def)
qed

text \<open>
  C13. Disbanding a group always completes: the group is gone, the manager does not know its id,
  nobody points to it, and no other group changes its members.
\<close>

theorem disband_clears:
  assumes "group_reach w" "env_ok E w" "groups w t = Some g"
  shows "\<exists>w'. Disband E t h w = Some w' \<and> groups w' t = None \<and> GetGroupByGUID (GetLowGUID g) w' = None \<and>
    (\<forall>q. GetGroup q w' \<noteq> Some t \<and> GetOriginalGroup q w' \<noteq> Some t) \<and>
    (\<forall>u. u \<noteq> t \<longrightarrow> map_option memberSlots (groups w' u) = map_option memberSlots (groups w u))"
proof -
  have I: "wld_inv w" using group_reach_inv [OF assms(1)] by (simp add: groups_inv_def)
  from Disband_ok [OF I assms(2,3), of h] obtain w' where w': "Disband E t h w = Some w'" "groups w' t = None"
    "\<forall>r. refTo (gwIo w') r \<noteq> Some t" "GetGroupByGUID (GetLowGUID g) w' = None"
    "\<forall>u. u \<noteq> t \<longrightarrow> map_option bare (groups w' u) = map_option bare (groups w u)" by blast
  moreover have "\<forall>u. u \<noteq> t \<longrightarrow> map_option memberSlots (groups w' u) = map_option memberSlots (groups w u)"
    using w'(5) by (blast intro: slots_bare)
  ultimately show ?thesis unfolding GetGroup_def GetOriginalGroup_def by blast
qed


theorem member_removed_witness:
  "\<exists>b w'. RemoveMember live_env 0 2 RM_LEAVE 0 None party_gw = Some (b, w') \<and> GetGroup 2 w' \<noteq> Some 0"
proof -
  obtain g where g: "groups party_gw 0 = Some g" "env_ok live_env party_gw" "rolls_ready live_env g (gwIo party_gw)"
    "isLFGGroup g = False" by (rule party_ready)
  from member_removed [OF party_reach(3) g(2,1,3), of RM_LEAVE 2 0 None] g(4) show ?thesis by auto
qed

theorem disband_clears_witness:
  "\<exists>w'. Disband live_env 0 False party_gw = Some w' \<and> groups w' 0 = None \<and> GetGroup 2 w' \<noteq> Some 0"
proof -
  obtain g where g: "groups party_gw 0 = Some g" "env_ok live_env party_gw" by (rule party_ready)
  from disband_clears [OF party_reach(3) g(2,1), of False] show ?thesis by blast
qed

section \<open>Marks and flags\<close>

text \<open>
  Setting a target icon puts the target under the icon, takes it off every other icon, and
  changes no other icon and nothing else of the group; clearing an icon clears that icon only.
\<close>

theorem icon_moves:
  assumes "length (targetIcons g) = TARGETICONCOUNT" "unat k < TARGETICONCOUNT"
  shows "fst (SetTargetIcon t k who x g io) =
    g\<lparr>targetIcons := (map (\<lambda>y. if x \<noteq> 0 \<and> y = x then 0 else y) (targetIcons g))[unat k := x]\<rparr>"
proof -
  have l: "length (targetIcons g) = 8" "unat k < 8" using assms by simp_all
  from SetTargetIcon_icons [OF l] obtain icons where i: "fst (SetTargetIcon t k who x g io) = g\<lparr>targetIcons := icons\<rparr>" "length icons = 8"
    "\<forall>j<8. icons ! j = (if j = unat k then x else if x \<noteq> 0 \<and> targetIcons g ! j = x then 0 else targetIcons g ! j)" by blast
  have "icons = (map (\<lambda>y. if x \<noteq> 0 \<and> y = x then 0 else y) (targetIcons g))[unat k := x]"
    by (rule nth_equalityI) (use i(2,3) l in \<open>auto simp: nth_list_update\<close>)
  with i(1) show ?thesis by simp
qed

theorem icon_moves_witness:
  "targetIcons (fst (SetTargetIcon 0 2 1 7 (Group_new 0\<lparr>targetIcons := [7, 9, 0, 0, 0, 0, 0, 0]\<rparr>) (gwIo empty_gw))) = [0, 9, 7, 0, 0, 0, 0, 0]"
  by (subst icon_moves) simp_all

text \<open>
  In a raid, giving a member the main tank's or the main assistant's flag takes it from
  whoever had it; taking it leaves nobody with it. The other flags, the members and their
  sub-groups stay.
\<close>

theorem unique_flag_moves:
  assumes "isRaidGroup g" "IsMember p g" "f \<in> {MEMBER_FLAG_MAINTANK, MEMBER_FLAG_MAINASSIST}"
    "f' \<in> {MEMBER_FLAG_ASSISTANT, MEMBER_FLAG_MAINTANK, MEMBER_FLAG_MAINASSIST} - {f}"
  shows "flagged f (memberSlots (fst (SetGroupMemberFlag E t p b f g io))) = (if b then [p] else []) \<and>
    flagged f' (memberSlots (fst (SetGroupMemberFlag E t p b f g io))) = flagged f' (memberSlots g) \<and>
    map (\<lambda>s. (msGuid s, msGroup s)) (memberSlots (fst (SetGroupMemberFlag E t p b f g io))) =
      map (\<lambda>s. (msGuid s, msGroup s)) (memberSlots g)"
proof -
  from assms(2) obtain i where i: "getMemberSlot p (memberSlots g) = Some i"
    by (auto simp: IsMember_def slot_of_def split: option.splits)
  have f: "member_flag f" "f \<noteq> MEMBER_FLAG_ASSISTANT" "member_flag f'" "f' \<noteq> f"
    using assms(3,4) by (auto simp: member_flag_def group_member_flags)
  from SetGroupMemberFlag_flags(1) [OF assms(1) i f(1)] SetGroupMemberFlag_flags(2) [OF assms(1) i f(1,2)]
    SetGroupMemberFlag_flags(3) [OF assms(1) i f(1) f(3,4)] show ?thesis by (simp add: slot_ids_def)
qed

definition demo_raid :: grp where
  "demo_raid = Group_new 0\<lparr>groupType := GROUPTYPE_RAID, subGroupsCounts := Some [2, 0, 0, 0, 0, 0, 0, 0],
     memberSlots := [\<lparr>msGuid = 1, msName = ''A'', msGroup = 0, msFlags = MEMBER_FLAG_MAINTANK, msRoles = 0\<rparr>,
       \<lparr>msGuid = 2, msName = ''B'', msGroup = 0, msFlags = 0, msRoles = 0\<rparr>]\<rparr>"

theorem unique_flag_moves_witness:
  "flagged MEMBER_FLAG_MAINTANK (memberSlots demo_raid) = [1] \<and>
   flagged MEMBER_FLAG_MAINTANK (memberSlots (fst (SetGroupMemberFlag live_env 0 2 True MEMBER_FLAG_MAINTANK demo_raid (gwIo empty_gw)))) = [2]"
proof -
  have "flagged MEMBER_FLAG_MAINTANK (memberSlots demo_raid) = [1]" by code_simp
  moreover have "isRaidGroup demo_raid" "IsMember 2 demo_raid" by code_simp+
  ultimately show ?thesis
    using unique_flag_moves [of demo_raid 2 MEMBER_FLAG_MAINTANK MEMBER_FLAG_ASSISTANT live_env 0 True "gwIo empty_gw"]
    by (simp add: group_member_flags)
qed

section \<open>What a restart makes of the flags\<close>

text \<open>The statements among the effects, and what they make of the column of the members' flags.\<close>

definition is_stmt :: "grpEffect \<Rightarrow> bool" where
  "is_stmt e \<longleftrightarrow> (case e of Stmt n xs \<Rightarrow> True | _ \<Rightarrow> False)"

definition stmts :: "gio \<Rightarrow> grpEffect list" where
  "stmts io = filter is_stmt (gout io)"

definition flag_stmt :: "grpEffect \<Rightarrow> (u32 \<rightharpoonup> u8) \<Rightarrow> (u32 \<rightharpoonup> u8)" where
  "flag_stmt e tbl =
     (case e of
        Stmt n [G8 f, G32 low] \<Rightarrow> if n = ''CHAR_UPD_GROUP_MEMBER_FLAG'' \<and> tbl low \<noteq> None then tbl(low \<mapsto> f) else tbl
      | _ \<Rightarrow> tbl)"

lemma stmts_fold: "(\<And>x s. stmts (snd (f x s)) = stmts (snd s)) \<Longrightarrow> stmts (snd (fold f xs s)) = stmts (snd s)"
  by (induction xs arbitrary: s) auto

lemma stmts_SendUpdate: "stmts (snd (SendUpdate E t g io)) = stmts io"
proof -
  have "stmts (snd (SendUpdateToPlayer E t p sl h io)) = stmts io" for p sl h io
    by (auto simp: SendUpdateToPlayer_def stmts_def is_stmt_def geff_def split: option.split)
  then have "stmts (snd (fold (\<lambda>slot (g, io). SendUpdateToPlayer E t (msGuid slot) (Some slot) g io) xs s)) = stmts (snd s)" for xs s
    by (intro stmts_fold) (auto simp: split_def)
  then show ?thesis by (simp add: SendUpdate_def)
qed

lemma load_members_slots:
  assumes "load_members E rows w = Some w'" "GetGroupByGUID i w = Some t" "groups w t = Some h"
  shows "\<exists>h'. groups w' t = Some h' \<and> set (memberSlots h) \<subseteq> set (memberSlots h') \<and>
    (\<forall>(j, low, f, sub, rl)\<in>set rows. j = i \<and> nameOfGuid E (player_guid low) \<noteq> None \<longrightarrow>
      (\<exists>sl\<in>set (memberSlots h'). msGuid sl = player_guid low \<and> msFlags sl = f))"
  using assms
proof (induction rows arbitrary: w h)
  case (Cons r rows)
  obtain j low f sub rl where r: "r = (j, low, f, sub, rl)" by (cases r)
  show ?case
  proof (cases "GetGroupByGUID j w")
    case None
    then have "j \<noteq> i" "load_members E rows w = Some w'" using Cons.prems r by auto
    with Cons.IH [OF this(2) Cons.prems(2,3)] r show ?thesis by auto
  next
    case (Some u)
    with Cons.prems(1) r obtain w1 where
      w1: "on_grp u (LoadMemberFromDB E low f sub rl) w = Some w1" "load_members E rows w1 = Some w'"
      by (auto split: Option.bind_splits)
    from w1(1) obtain k where k: "groups w u = Some k" by (auto simp: on_grp_def split: Option.bind_splits)
    let ?k = "fst (LoadMemberFromDB E low f sub rl k (gwIo w))"
    have e: "groups w1 = (groups w)(u \<mapsto> ?k)" "groupStore w1 = groupStore w" using w1(1) unfolding on_grp_some [OF k] by auto
    have sl: "memberSlots ?k = (case nameOfGuid E (player_guid low) of None \<Rightarrow> memberSlots k
        | Some n \<Rightarrow> memberSlots k @ [\<lparr>msGuid = player_guid low, msName = n, msGroup = sub, msFlags = f, msRoles = rl\<rparr>])"
      by (simp add: LoadMemberFromDB_def Let_def SubGroupCounterIncrease_def split: option.split)
    have i: "GetGroupByGUID i w1 = Some t" using Cons.prems(2) e(2) by (simp add: GetGroupByGUID_def)
    obtain h1 where h1: "groups w1 t = Some h1" "h1 = (if t = u then ?k else h)" using Cons.prems(3) e(1) by auto
    from Cons.IH [OF w1(2) i h1(1)] obtain h' where h': "groups w' t = Some h'" "set (memberSlots h1) \<subseteq> set (memberSlots h')"
      "\<forall>(j, low, f, sub, rl)\<in>set rows. j = i \<and> nameOfGuid E (player_guid low) \<noteq> None \<longrightarrow>
        (\<exists>sl\<in>set (memberSlots h'). msGuid sl = player_guid low \<and> msFlags sl = f)" by blast
    have "set (memberSlots h) \<subseteq> set (memberSlots h1)" using h1(2) sl k Cons.prems(3) by (auto split: option.splits)
    moreover have "\<exists>sl\<in>set (memberSlots h'). msGuid sl = player_guid low \<and> msFlags sl = f"
      if "j = i" "nameOfGuid E (player_guid low) \<noteq> None"
    proof -
      have "u = t" using Some Cons.prems(2) that(1) by simp
      then have "\<exists>sl\<in>set (memberSlots h1). msGuid sl = player_guid low \<and> msFlags sl = f" using h1(2) sl that(2) by auto
      with h'(2) show ?thesis by blast
    qed
    ultimately show ?thesis using h' r by (intro exI [of _ h']) auto
  qed
qed auto

text \<open>
  C40. The main tank's flag is taken from its old holder in memory only: the one statement written
  when it goes from \<open>q\<close> to \<open>p\<close> sets the row of \<open>p\<close>. The next start loads the group with two
  main tanks, for any table of the members' flags that has \<open>q\<close> as a tank.
\<close>

theorem restart_restores_tanks:
  fixes tbl :: "u32 \<rightharpoonup> u8"
  assumes "isRaidGroup g" "IsMember p g" "SetGroupMemberFlag E t p True MEMBER_FLAG_MAINTANK g io = (g', io')"
    and "tbl (GUID_LOPART p) \<noteq> None" "tbl (GUID_LOPART q) = Some f" "f AND MEMBER_FLAG_MAINTANK \<noteq> 0" "GUID_LOPART q \<noteq> GUID_LOPART p"
    and "tbl' = fold flag_stmt (drop (length (stmts io)) (stmts io')) tbl"
    and "GetGroupByGUID i w = Some u" "groups w u = Some h" "load_members E' rows w = Some w'"
    and "\<forall>x\<in>{p, q}. nameOfGuid E' (player_guid (GUID_LOPART x)) \<noteq> None \<and>
      (\<exists>s r. (i, GUID_LOPART x, the (tbl' (GUID_LOPART x)), s, r) \<in> set rows)"
  shows "flagged MEMBER_FLAG_MAINTANK (memberSlots g') = [p] \<and>
    (\<exists>h'. groups w' u = Some h' \<and>
      {player_guid (GUID_LOPART p), player_guid (GUID_LOPART q)} \<subseteq> set (flagged MEMBER_FLAG_MAINTANK (memberSlots h')))"
proof -
  from assms(2) obtain j where j: "getMemberSlot p (memberSlots g) = Some j"
    by (auto simp: IsMember_def slot_of_def split: option.splits)
  have m: "member_flag MEMBER_FLAG_MAINTANK" "MEMBER_FLAG_MAINTANK \<noteq> MEMBER_FLAG_ASSISTANT"
    by (simp_all add: member_flag_def group_member_flags)
  have one: "flagged MEMBER_FLAG_MAINTANK (memberSlots g') = [p]"
    using SetGroupMemberFlag_flags(2) [OF assms(1) j m, of E t True io] assms(3) by simp
  have jl: "j < length (memberSlots g)" using getMemberSlot_Some [OF j] by blast
  let ?h = "ToggleGroupMemberFlag j MEMBER_FLAG_MAINTANK True (RemoveUniqueGroupMemberFlag MEMBER_FLAG_MAINTANK g)"
  let ?f = "msFlags (memberSlots ?h ! j)"
  have run: "SetGroupMemberFlag E t p True MEMBER_FLAG_MAINTANK g io =
      SendUpdate E t ?h (geff (Stmt ''CHAR_UPD_GROUP_MEMBER_FLAG'' [G8 ?f, G32 (GUID_LOPART p)]) io)"
    using assms(1) j m(2) by (simp add: SetGroupMemberFlag_def Let_def)
  have "stmts io' = stmts io @ [Stmt ''CHAR_UPD_GROUP_MEMBER_FLAG'' [G8 ?f, G32 (GUID_LOPART p)]]"
    using stmts_SendUpdate [of E t ?h "geff (Stmt ''CHAR_UPD_GROUP_MEMBER_FLAG'' [G8 ?f, G32 (GUID_LOPART p)]) io"] assms(3)
    unfolding run by (simp add: stmts_def is_stmt_def)
  then have t: "tbl' (GUID_LOPART p) = Some ?f" "tbl' (GUID_LOPART q) = Some f"
    using assms(4,5,7) by (auto simp: assms(8) flag_stmt_def)
  have fp: "?f AND MEMBER_FLAG_MAINTANK \<noteq> 0"
    using jl by (simp add: ToggleGroupMemberFlag_def RemoveUniqueGroupMemberFlag_def Let_def group_member_flags bit.conj_disj_distrib2)
  from load_members_slots [OF assms(11,9,10)] obtain h' where h': "groups w' u = Some h'"
    "\<forall>(j, low, f, sub, rl)\<in>set rows. j = i \<and> nameOfGuid E' (player_guid low) \<noteq> None \<longrightarrow>
      (\<exists>sl\<in>set (memberSlots h'). msGuid sl = player_guid low \<and> msFlags sl = f)" by blast
  have "player_guid (GUID_LOPART x) \<in> set (flagged MEMBER_FLAG_MAINTANK (memberSlots h'))"
    if "x \<in> {p, q}" "the (tbl' (GUID_LOPART x)) AND MEMBER_FLAG_MAINTANK \<noteq> 0" for x
  proof -
    from assms(12) that(1) obtain s r where "(i, GUID_LOPART x, the (tbl' (GUID_LOPART x)), s, r) \<in> set rows"
      "nameOfGuid E' (player_guid (GUID_LOPART x)) \<noteq> None" by blast
    with h'(2) obtain sl where "sl \<in> set (memberSlots h')" "msGuid sl = player_guid (GUID_LOPART x)" "msFlags sl = the (tbl' (GUID_LOPART x))"
      by fast
    with that(2) show ?thesis by (force simp: flagged_def)
  qed
  with one h'(1) t fp assms(6) show ?thesis by simp
qed

text \<open>Player 2 becomes the tank in place of player 1; both rows are loaded into the empty group of id 1.\<close>

definition named_env :: grpEnv where
  "named_env = live_env\<lparr>nameOfGuid := (\<lambda>_. Some ''A'')\<rparr>"

definition tank_rows :: "(u32 \<times> u32 \<times> u8 \<times> u8 \<times> u8) list" where
  "tank_rows = [(1, 1, MEMBER_FLAG_MAINTANK, 0, 0), (1, 2, MEMBER_FLAG_MAINTANK, 0, 0)]"

definition loading_gw :: gw where
  "loading_gw = empty_gw\<lparr>groups := [0 \<mapsto> (Group_new 0)\<lparr>grpGuid := MAKE_NEW_GUID 1 0 HIGHGUID_GROUP\<rparr>], groupStore := [1 \<mapsto> 0]\<rparr>"

theorem restart_restores_tanks_witness:
  "flagged MEMBER_FLAG_MAINTANK (memberSlots (fst (SetGroupMemberFlag live_env 0 2 True MEMBER_FLAG_MAINTANK demo_raid (gwIo empty_gw)))) = [2] \<and>
   (\<exists>h. groups (the (load_members named_env tank_rows loading_gw)) 0 = Some h \<and>
      {2, 1} \<subseteq> set (flagged MEMBER_FLAG_MAINTANK (memberSlots h)))"
proof -
  let ?r = "SetGroupMemberFlag live_env 0 2 True MEMBER_FLAG_MAINTANK demo_raid (gwIo empty_gw)"
  let ?tbl = "[1 \<mapsto> MEMBER_FLAG_MAINTANK, 2 \<mapsto> 0] :: u32 \<rightharpoonup> u8"
  let ?tbl' = "fold flag_stmt (drop (length (stmts (gwIo empty_gw))) (stmts (snd ?r))) ?tbl"
  have g: "isRaidGroup demo_raid" "IsMember 2 demo_raid" by code_simp+
  have low: "GUID_LOPART 2 = 2" "GUID_LOPART 1 = 1" "player_guid 1 = 1" "player_guid 2 = 2" by code_simp+
  have t: "?tbl' 1 = Some MEMBER_FLAG_MAINTANK" "?tbl' 2 = Some MEMBER_FLAG_MAINTANK" by code_simp+
  have l: "load_members named_env tank_rows loading_gw \<noteq> None" "GetGroupByGUID 1 loading_gw = Some 0" by code_simp+
  obtain h where h: "groups loading_gw 0 = Some h" by (simp add: loading_gw_def)
  from l(1) have run: "load_members named_env tank_rows loading_gw = Some (the (load_members named_env tank_rows loading_gw))" by auto
  have "\<forall>x\<in>{2, 1}. nameOfGuid named_env (player_guid (GUID_LOPART x)) \<noteq> None \<and>
      (\<exists>s r. (1, GUID_LOPART x, the (?tbl' (GUID_LOPART x)), s, r) \<in> set tank_rows)"
    by (simp only: ball_simps low t option.sel tank_rows_def) (simp add: named_env_def)
  from restart_restores_tanks [OF g prod.collapse [symmetric] _ _ _ _ refl l(2) h run this] show ?thesis
    by (simp add: low group_member_flags)
qed

section \<open>Turns\<close>

lemma find_filter: "find P xs = (case filter P xs of [] \<Rightarrow> None | y # ys \<Rightarrow> Some y)"
  by (induction xs) simp_all

lemma slot_split:
  assumes "distinct (map msGuid ss)" "k < length (filter P ss)"
  obtains i where "getMemberSlot (msGuid (filter P ss ! k)) ss = Some i" "P (ss ! i)" "i < length ss"
    "filter P (take (Suc i) ss) = take (Suc k) (filter P ss)" "filter P (drop (Suc i) ss) = drop (Suc k) (filter P ss)"
proof -
  let ?s = "filter P ss ! k"
  have s: "?s \<in> set ss" "P ?s" using assms(2) nth_mem [OF assms(2)] by auto
  then obtain i where i: "i < length ss" "ss ! i = ?s" by (auto simp: in_set_conv_nth)
  have split: "ss = take i ss @ ?s # drop (Suc i) ss" using id_take_nth_drop [OF i(1)] i(2) by simp
  have g: "getMemberSlot (msGuid ?s) ss = Some i"
  proof (cases "getMemberSlot (msGuid ?s) ss")
    case None
    then show ?thesis using s(1) by (auto simp: getMemberSlot_None)
  next
    case (Some j)
    from getMemberSlot_Some [OF this] have "j < length ss" "map msGuid ss ! j = map msGuid ss ! i" using i by auto
    with nth_eq_iff_index_eq [OF assms(1), of j i] i(1) have "j = i" by simp
    with Some show ?thesis by simp
  qed
  have f: "filter P ss = filter P (take i ss) @ ?s # filter P (drop (Suc i) ss)"
    using arg_cong [OF split, of "filter P"] s(2) by simp
  have d: "distinct (filter P ss)" using assms(1) distinct_map distinct_filter by blast
  let ?a = "filter P (take i ss)"
  have "filter P ss ! length ?a = ?s" by (subst f) simp
  moreover have "length ?a < length (filter P ss)" by (subst f) simp
  ultimately have "k = length ?a" using d assms(2) nth_eq_iff_index_eq by metis
  then have "take (Suc k) (filter P ss) = ?a @ [?s]" "drop (Suc k) (filter P ss) = filter P (drop (Suc i) ss)"
    by (subst f, simp)+
  moreover have "filter P (take (Suc i) ss) = ?a @ [?s]" using i s(2) by (simp add: take_Suc_conv_app_nth)
  ultimately show thesis using that [OF g] s(2) i by simp
qed

definition near_slots :: "grpEnv \<Rightarrow> (u64 \<Rightarrow> bool) \<Rightarrow> grp \<Rightarrow> memberSlot list" where
  "near_slots E reward g = filter (\<lambda>s. inWorld E (msGuid s) \<and> reward (msGuid s)) (memberSlots g)"

text \<open>One update hands the turn to the next of the members that are near.\<close>

lemma next_looter:
  fixes E :: grpEnv and t :: nat and io :: gio
  assumes "lootMethod g \<noteq> FREE_FOR_ALL" "distinct (map msGuid (memberSlots g))"
    "k < length (near_slots E reward g)" "looterGuid g = msGuid (near_slots E reward g ! k)"
  defines "g' \<equiv> fst (UpdateLooterGuid E t reward False g io)"
  shows "looterGuid g' = msGuid (near_slots E reward g ! (Suc k mod length (near_slots E reward g)))"
    "memberSlots g' = memberSlots g" "lootMethod g' = lootMethod g"
proof -
  let ?near = "\<lambda>s. inWorld E (msGuid s) \<and> reward (msGuid s)"
  let ?ss = "memberSlots g" and ?N = "near_slots E reward g"
  have N: "?N = filter ?near ?ss" by (simp add: near_slots_def)
  from slot_split [OF assms(2), of k ?near] assms(3) obtain i where
    i: "getMemberSlot (looterGuid g) ?ss = Some i" "?near (?ss ! i)" "filter ?near (take (Suc i) ?ss) = take (Suc k) ?N"
      "filter ?near (drop (Suc i) ?ss) = drop (Suc k) ?N"
    unfolding assms(4) N by blast
  let ?new = "case find ?near (drop (Suc i) ?ss) of None \<Rightarrow> find ?near (take (Suc i) ?ss) | Some s \<Rightarrow> Some s"
  have new: "?new = Some (?N ! (Suc k mod length ?N))"
  proof (cases "Suc k = length ?N")
    case True
    then show ?thesis using i(3,4) assms(3) by (cases ?N) (simp_all add: find_filter)
  next
    case False
    then have "Suc k < length ?N" using assms(3) by simp
    then show ?thesis using i(4) by (simp add: find_filter Cons_nth_drop_Suc [symmetric])
  qed
  have run: "UpdateLooterGuid E t reward False g io =
      (if looterGuid g \<noteq> msGuid (?N ! (Suc k mod length ?N))
       then SendUpdate E t (SetLooterGuid (msGuid (?N ! (Suc k mod length ?N))) g) io else (g, io))"
    unfolding UpdateLooterGuid_def Let_def i(1) option.case new using assms(1) by simp
  have c: "looterGuid (fst (SendUpdate E t h io)) = looterGuid h \<and> memberSlots (fst (SendUpdate E t h io)) = memberSlots h \<and>
      lootMethod (fst (SendUpdate E t h io)) = lootMethod h" for h
    using SendUpdate_only [of E t h io] by auto
  show "looterGuid g' = msGuid (?N ! (Suc k mod length ?N))" "memberSlots g' = memberSlots g" "lootMethod g' = lootMethod g"
    unfolding g'_def run using c by (simp_all add: SetLooterGuid_def)
qed

text \<open>
  C31. Outside of free for all, updating the looter goes round the members that are near the
  loot in the order of the group's table: after any number of updates the turn has moved on by
  that number, and after as many as there are near members it is back.
\<close>

theorem looter_round_robin:
  assumes "lootMethod g \<noteq> FREE_FOR_ALL" "distinct (map msGuid (memberSlots g))"
    "k < length (near_slots E reward g)" "looterGuid g = msGuid (near_slots E reward g ! k)"
  shows "looterGuid (fst (((\<lambda>(g, io). UpdateLooterGuid E t reward False g io) ^^ n) (g, io))) =
    msGuid (near_slots E reward g ! ((k + n) mod length (near_slots E reward g)))"
proof -
  let ?N = "near_slots E reward g"
  let ?it = "\<lambda>n. ((\<lambda>(g, io). UpdateLooterGuid E t reward False g io) ^^ n) (g, io)"
  have "looterGuid (fst (?it n)) = msGuid (?N ! ((k + n) mod length ?N)) \<and> memberSlots (fst (?it n)) = memberSlots g \<and>
      lootMethod (fst (?it n)) = lootMethod g"
  proof (induction n)
    case 0
    then show ?case using assms by simp
  next
    case (Suc n)
    obtain h io' where h: "?it n = (h, io')" by (rule prod.exhaust)
    then have hs: "memberSlots h = memberSlots g" "lootMethod h = lootMethod g" "looterGuid h = msGuid (?N ! ((k + n) mod length ?N))"
      using Suc by simp_all
    have N: "near_slots E reward h = ?N" using hs(1) by (simp add: near_slots_def)
    have "(k + n) mod length ?N < length ?N" using assms(3) by (intro mod_less_divisor) auto
    with next_looter [of h "(k + n) mod length ?N" E reward t io'] hs assms(1,2) N
    show ?case by (simp add: h mod_Suc_eq)
  qed
  then show ?thesis by blast
qed

theorem looter_round_robin_witness:
  "looterGuid (fst (((\<lambda>(g, io). UpdateLooterGuid live_env 0 (\<lambda>_. True) False g io) ^^ 3)
     (demo_raid\<lparr>lootMethod := GROUP_LOOT, looterGuid := 1\<rparr>, gwIo empty_gw))) = 2"
  by (subst looter_round_robin [where k = 0])
    (simp_all add: demo_raid_def near_slots_def live_env_def GROUP_LOOT_def FREE_FOR_ALL_def numeral_2_eq_2 [symmetric])

text \<open>What the end of a leaving makes of the leader and the leaders' flags.\<close>

lemma farewell_leader:
  "leaderGuid (fst (farewell E t guid m k r g io)) =
      (if leaderGuid g = guid
       then case find (\<lambda>s. online E (msGuid s)) (memberSlots g) of None \<Rightarrow> guid | Some s \<Rightarrow> msGuid s
       else leaderGuid g) \<and>
    leaderFlag (snd (farewell E t guid m k r g io)) =
      (if leaderGuid g = guid
       then case find (\<lambda>s. online E (msGuid s)) (memberSlots g) of None \<Rightarrow> leaderFlag io
            | Some s \<Rightarrow> (if online E guid then (leaderFlag io)(guid := False) else leaderFlag io)(msGuid s := True)
       else leaderFlag io)"
proof -
  have hb: "leaderFlag (homebind_if_instance E q io') = leaderFlag io'" for q io' by (simp add: homebind_if_instance_def)
  have su: "leaderGuid (fst (SendUpdate E t h io')) = leaderGuid h" "leaderFlag (snd (SendUpdate E t h io')) = leaderFlag io'" for h io'
    using SendUpdate_only [of E t h io'] only_out_fields by fastforce+
  have fw: "leaderGuid (fst (farewell E t guid m k r g io)) = leaderGuid (fst (if leaderGuid g = guid then pick_leader E t g io else (g, io)))"
    "leaderFlag (snd (farewell E t guid m k r g io)) = leaderFlag (snd (if leaderGuid g = guid then pick_leader E t g io else (g, io)))"
    by (simp_all add: farewell_def Let_def case_prod_unfold su hb)
  have bp: "leaderFlag (BroadcastPacket t op fs ig sg ign h io') = leaderFlag io'" for op fs ig sg ign h io'
  proof -
    have "leaderFlag (fold (\<lambda>x. geff (Send (fst x) op fs)) xs io') = leaderFlag io'" for xs :: "gref list"
      by (induction xs arbitrary: io') simp_all
    then show ?thesis by (simp add: BroadcastPacket_def)
  qed
  show ?thesis
  proof (cases "leaderGuid g = guid")
    case True
    show ?thesis
    proof (cases "find (\<lambda>s. online E (msGuid s)) (memberSlots g)")
      case None
      then show ?thesis using True by (simp add: fw pick_leader_def)
    next
      case (Some s)
      then have s: "s \<in> set (memberSlots g)" "online E (msGuid s)" by (auto simp: find_Some_iff)
      then obtain i where i: "getMemberSlot (msGuid s) (memberSlots g) = Some i"
        by (cases "getMemberSlot (msGuid s) (memberSlots g)") (auto simp: getMemberSlot_None)
      show ?thesis using True Some s(2) i
        by (simp add: fw pick_leader_def ChangeLeader_def Let_def ToggleGroupMemberFlag_def bp)
    qed
  qed (simp add: fw)
qed

lemma find_guid: "find (\<lambda>s. P (msGuid s)) ss = None \<longleftrightarrow> find P (map msGuid ss) = None"
  "find (\<lambda>s. P (msGuid s)) ss = Some s \<Longrightarrow> find P (map msGuid ss) = Some (msGuid s)"
  by (induction ss) auto

text \<open>
  C32. When a member is removed and the group goes on, its slots are those of the others in their
  old order. A group the removed member led then belongs to the first of these that is online,
  with the leader's flag on that player and, if the old leader is online, off the old leader; it
  keeps its leader and every flag when none of them is online. Removing any other member changes
  neither leader nor flag. Assumed: the template and the loot of every open roll are there, only
  players that are online have references to groups, and it is no vote kick of the dungeon finder.
\<close>

theorem leader_succession:
  assumes "group_reach w" "env_ok E w" "groups w t = Some g" "rolls_ready E g (gwIo w)" "\<not> (isLFGGroup g \<and> m = RM_KICK)"
    and "RemoveMember E t p m k r w = Some (b, w')" "groups w' t = Some g'"
  shows "map msGuid (memberSlots g') = filter (\<lambda>q. q \<noteq> p) (map msGuid (memberSlots g)) \<and>
    (leaderGuid g', leaderFlag (gwIo w')) =
      (if leaderGuid g = p
       then case find (online E) (filter (\<lambda>q. q \<noteq> p) (map msGuid (memberSlots g))) of
              None \<Rightarrow> (p, leaderFlag (gwIo w))
            | Some q \<Rightarrow> (q, (if online E p then (leaderFlag (gwIo w))(p := False) else leaderFlag (gwIo w))(q := True))
       else (leaderGuid g, leaderFlag (gwIo w)))"
proof -
  have I: "wld_inv w" using group_reach_inv [OF assms(1)] by (simp add: groups_inv_def)
  from RemoveMember_stays [OF I assms(2-7)] obtain h io where
    h: "g' = fst (farewell E t p m k r h io)" "gwIo w' = snd (farewell E t p m k r h io)"
      "map msGuid (memberSlots h) = filter (\<lambda>q. q \<noteq> p) (map msGuid (memberSlots g))" "leaderGuid h = leaderGuid g"
      "leaderFlag io = leaderFlag (gwIo w)" by blast
  note L = farewell_leader [of E t p m k r h io, folded h(1,2), unfolded h(4,5)]
  have o: "map msGuid (memberSlots g') = filter (\<lambda>q. q \<noteq> p) (map msGuid (memberSlots g))"
    using farewell_guids [of E t p m k r h io] h(1,3) by simp
  show ?thesis
  proof (cases "find (\<lambda>s. online E (msGuid s)) (memberSlots h)")
    case None
    then have "find (online E) (map msGuid (memberSlots h)) = None" by (simp add: find_guid(1))
    with L o None show ?thesis by (simp add: h(3))
  next
    case (Some s)
    from find_guid(2) [OF this] L o Some show ?thesis by (simp add: h(3))
  qed
qed

text \<open>The leader of the party of three leaves it: the second member leads it.\<close>

definition left_gw :: gw where "left_gw = snd (the (RemoveMember live_env 0 1 RM_LEAVE 0 None party_gw))"

theorem leader_succession_witness:
  "\<exists>g. groups left_gw 0 = Some g \<and> map msGuid (memberSlots g) = [2, 3] \<and> leaderGuid g = 2 \<and> leaderFlag (gwIo left_gw) 2"
proof -
  obtain g where g: "groups party_gw 0 = Some g" "env_ok live_env party_gw" "rolls_ready live_env g (gwIo party_gw)"
    "map msGuid (memberSlots g) = [1, 2, 3]" "isLFGGroup g = False" by (rule party_ready)
  have run: "ran (RemoveMember live_env 0 1 RM_LEAVE 0 None party_gw)" "groups left_gw 0 \<noteq> None" "map_option leaderGuid (groups party_gw 0) = Some 1"
    by code_simp+
  from run(2) obtain g' where g': "groups left_gw 0 = Some g'" by blast
  have "leaderGuid g = 1" using run(3) g(1) by simp
  moreover have "find (online live_env) [2, 3 :: u64] = Some 2" by (simp add: live_env_def)
  ultimately show ?thesis
    using leader_succession [OF party_reach(3) g(2,1,3) _ ran_Some [OF run(1), folded left_gw_def] g'] g(4,5) g' by simp
qed


section \<open>Ids\<close>

fun register_ids :: "u32 list \<Rightarrow> gw \<Rightarrow> gw option" where
  "register_ids [] w = Some w"
| "register_ids (i # is) w = do { w \<leftarrow> RegisterGroupId i w; register_ids is w }"

fun generate_ids :: "nat \<Rightarrow> gw \<Rightarrow> u32 list \<times> gw" where
  "generate_ids 0 w = ([], w)"
| "generate_ids (Suc n) w = (let (i, w) = GenerateGroupId w; (is, w) = generate_ids n w in (i # is, w))"

definition taken :: "gw \<Rightarrow> u32 \<Rightarrow> bool" where
  "taken w i \<longleftrightarrow> unat i < length (groupIds w) \<and> groupIds w ! unat i"

lemma id_suc: "unat (i :: u32) < 0xFFFFFFFF \<Longrightarrow> unat (i + 1) = unat i + 1"
  by (simp add: unat_word_ariths(1))

lemma register_taken: "RegisterGroupId i w = Some w' \<Longrightarrow> taken w' j \<longleftrightarrow> j = i \<or> taken w j"
  by (auto simp: RegisterGroupId_def taken_def nth_list_update word_unat_eq_iff split: if_splits)

text \<open>Registered in ascending order, the ids leave the next one free.\<close>

lemma register_ids_free:
  assumes "register_ids is w = Some w'" "sorted_wrt (<) is" "\<not> taken w (nextGroupId w)" "length (groupIds w) \<le> 0xFFFFFFFF" "\<And>j i. taken w j \<Longrightarrow> i \<in> set is \<Longrightarrow> j < i"
  shows "\<not> taken w' (nextGroupId w') \<and> (\<forall>j. taken w' j \<longleftrightarrow> j \<in> set is \<or> taken w j)"
  using assms
proof (induction "is" arbitrary: w)
  case (Cons i "is")
  from Cons.prems(1) obtain w1 where w1: "RegisterGroupId i w = Some w1" "register_ids is w1 = Some w'"
    by (auto split: Option.bind_splits)
  have nx: "nextGroupId w1 = (if nextGroupId w = i then i + 1 else nextGroupId w)" "unat i < length (groupIds w)" "length (groupIds w1) = length (groupIds w)"
    using w1(1) by (auto simp: RegisterGroupId_def split: if_splits)
  have "\<not> taken w1 (nextGroupId w1)"
  proof (cases "nextGroupId w = i")
    case True
    have u: "unat (i + 1) = unat i + 1" using nx(2) Cons.prems(4) by (simp add: id_suc)
    have "i + 1 \<noteq> i" by simp
    moreover have "\<not> taken w (i + 1)"
    proof
      assume "taken w (i + 1)"
      then have "i + 1 < i" using Cons.prems(5) by auto
      with u show False by (simp add: word_less_nat_alt)
    qed
    ultimately show ?thesis using register_taken [OF w1(1)] nx(1) True by simp
  next
    case False
    then show ?thesis using register_taken [OF w1(1)] nx(1) Cons.prems(3) by simp
  qed
  moreover have "j < i'" if "taken w1 j" "i' \<in> set is" for j i'
    using that register_taken [OF w1(1)] Cons.prems(2,5) by auto
  ultimately show ?case using Cons.IH [OF w1(2)] Cons.prems(2,4) nx(3) register_taken [OF w1(1)] by auto
qed simp

declare skip_ids.simps [simp del]

lemma skip_ids_free:
  "n < 0xFFFFFFFF \<Longrightarrow> n < skip_ids ids n \<and> (skip_ids ids n = 0xFFFFFFFF \<or> \<not> (unat (skip_ids ids n) < length ids \<and> ids ! unat (skip_ids ids n)))"
proof (induction ids n rule: skip_ids.induct)
  case (1 ids n)
  have u: "unat (n + 1) = unat n + 1" using 1(2) by (intro id_suc) (simp add: word_less_nat_alt)
  then have lt: "n < n + 1" by (simp add: word_less_nat_alt)
  show ?case
  proof (cases "unat (n + 1) < length ids \<and> ids ! unat (n + 1)")
    case False
    then show ?thesis using 1(2) lt by (auto simp: skip_ids.simps [of ids n])
  next
    case t: True
    then have s: "skip_ids ids n = skip_ids ids (n + 1)" using 1(2) by (simp add: skip_ids.simps [of ids n])
    show ?thesis
    proof (cases "n + 1 < 0xFFFFFFFF")
      case True
      from 1(1) [OF 1(2) t True] lt show ?thesis unfolding s by auto
    next
      case False
      then have "skip_ids ids (n + 1) = n + 1" by (simp add: skip_ids.simps [of ids "n + 1"])
      moreover have "n + 1 = 0xFFFFFFFF" using False 1(2) u by (simp add: word_less_nat_alt word_unat_eq_iff)
      ultimately show ?thesis using lt unfolding s by simp
    qed
  qed
qed

lemma GenerateGroupId_run:
  "fst (GenerateGroupId w) = nextGroupId w" "nextGroupId (snd (GenerateGroupId w)) = skip_ids (groupIds w) (nextGroupId w)"
  "groupIds (snd (GenerateGroupId w)) = groupIds w" "taken (snd (GenerateGroupId w)) = taken w"
  by (simp_all add: GenerateGroupId_def Let_def weff_def taken_def fun_eq_iff)

lemma ids_run_out: "generate_ids n w = (out, w') \<Longrightarrow> nextGroupId w = 0xFFFFFFFF \<Longrightarrow> nextGroupId w' = 0xFFFFFFFF"
proof (induction n arbitrary: w out)
  case (Suc n)
  have "nextGroupId (snd (GenerateGroupId w)) = 0xFFFFFFFF"
    using Suc.prems(2) by (simp add: GenerateGroupId_run skip_ids.simps [of _ "0xFFFFFFFF"])
  with Suc show ?case by (auto simp: case_prod_unfold Let_def prod_eq_iff)
qed simp

lemma generate_ids_free:
  assumes "generate_ids n w = (out, w')" "\<not> taken w (nextGroupId w)" "nextGroupId w' \<noteq> 0xFFFFFFFF"
  shows "length out = n \<and> sorted_wrt (<) out \<and> (\<forall>i\<in>set out. nextGroupId w \<le> i \<and> \<not> taken w i)"
  using assms
proof (induction n arbitrary: w out)
  case (Suc n)
  let ?w = "snd (GenerateGroupId w)"
  from Suc.prems(1) obtain out1 where o: "generate_ids n ?w = (out1, w')" "out = nextGroupId w # out1"
    by (auto simp: case_prod_unfold Let_def GenerateGroupId_run prod_eq_iff)
  have "nextGroupId w \<noteq> 0xFFFFFFFF" using ids_run_out [OF Suc.prems(1)] Suc.prems(3) by blast
  moreover have "(0xFFFFFFFF :: u32) = - 1" by simp
  ultimately have lt: "nextGroupId w < 0xFFFFFFFF" by (metis word_order.not_eq_extremum)
  have "nextGroupId ?w \<noteq> 0xFFFFFFFF" using ids_run_out [OF o(1)] Suc.prems(3) by blast
  with skip_ids_free [OF lt, of "groupIds w"] have nx: "nextGroupId w < nextGroupId ?w" "\<not> taken ?w (nextGroupId ?w)"
    by (auto simp: GenerateGroupId_run taken_def)
  from Suc.IH [OF o(1) nx(2) Suc.prems(3)] nx(1) show ?case using Suc.prems(2) o(2)
    by (auto simp: GenerateGroupId_run intro: less_imp_le less_le_trans order_trans)
qed simp

text \<open>
  C33. After the ids of the saved groups were registered in ascending order, the ids given to new
  groups are strictly ascending and none of them is a saved one, as long as the ids do not run
  out, which stops the server.
\<close>

theorem group_ids_unique:
  assumes "register_ids is (InitGroupIds (Some m) w) = Some w1" "groupIds w = []" "sorted_wrt (<) is"
    "generate_ids n w1 = (out, w2)" "nextGroupId w2 \<noteq> 0xFFFFFFFF"
  shows "length out = n \<and> sorted_wrt (<) out \<and> set out \<inter> set is = {}"
proof -
  let ?w = "InitGroupIds (Some m) w"
  have none: "\<not> taken ?w j" for j using assms(2) by (simp add: InitGroupIds_def taken_def)
  have "unat (m + 1) < 4294967296" by (rule order_less_le_trans [OF unsigned_less]) simp
  then have "length (groupIds ?w) \<le> 0xFFFFFFFF" using assms(2) by (simp add: InitGroupIds_def)
  with register_ids_free [OF assms(1,3)] none have "\<not> taken w1 (nextGroupId w1)" "\<And>j. j \<in> set is \<Longrightarrow> taken w1 j" by auto
  with generate_ids_free [OF assms(4) _ assms(5)] show ?thesis by auto
qed

theorem group_ids_unique_witness:
  "fst (generate_ids 3 (the (register_ids [1, 3, 5] (InitGroupIds (Some 5) empty_gw)))) = [2, 4, 6] \<and> set [2, 4, 6 :: u32] \<inter> set [1, 3, 5] = {}"
proof -
  have r: "register_ids [1, 3, 5] (InitGroupIds (Some 5) empty_gw) \<noteq> None" by code_simp
  then have r': "register_ids [1, 3, 5] (InitGroupIds (Some 5) empty_gw) = Some (the (register_ids [1, 3, 5] (InitGroupIds (Some 5) empty_gw)))"
    by simp
  let ?g = "generate_ids 3 (the (register_ids [1, 3, 5] (InitGroupIds (Some 5) empty_gw)))"
  have g: "fst ?g = [2, 4, 6]" "nextGroupId (snd ?g) \<noteq> 0xFFFFFFFF" by code_simp+
  have e: "groupIds empty_gw = []" by (simp add: empty_gw_def)
  have s: "sorted_wrt (<) [1, 3, 5 :: u32]" by simp
  have "set (fst ?g) \<inter> set [1, 3, 5] = {}"
    using group_ids_unique [OF r' e s surjective_pairing g(2)] by blast
  then show ?thesis using g(1) by simp
qed

end
