(* ===== verification/CalendarData.thy ===== *)
theory CalendarData
  imports Guid PackedFields
begin

text \<open>
  The data of the in-game calendar, src/src/server/game/Calendar/CalendarMgr.h: the enums as the
  numbers the packets and the database carry, an invite, an event, and the manager with its two
  stores, its two lists of free ids and the effects it has had. What the calendar asks of
  players, guilds, clocks and the C library is the record \<^verbatim>\<open>calEnv\<close>.
\<close>

section \<open>Enums\<close>

definition CALENDAR_FLAG_INVITES_LOCKED :: u32 where "CALENDAR_FLAG_INVITES_LOCKED = 0x010"
definition CALENDAR_FLAG_WITHOUT_INVITES :: u32 where "CALENDAR_FLAG_WITHOUT_INVITES = 0x040"
definition CALENDAR_FLAG_GUILD_EVENT :: u32 where "CALENDAR_FLAG_GUILD_EVENT = 0x400"

definition CALENDAR_RANK_PLAYER :: u32 where "CALENDAR_RANK_PLAYER = 0"

definition CALENDAR_SENDTYPE_GET :: u8 where "CALENDAR_SENDTYPE_GET = 0"
definition CALENDAR_SENDTYPE_ADD :: u8 where "CALENDAR_SENDTYPE_ADD = 1"
definition CALENDAR_SENDTYPE_COPY :: u8 where "CALENDAR_SENDTYPE_COPY = 2"

definition CALENDAR_REPEAT_NEVER :: u8 where "CALENDAR_REPEAT_NEVER = 0"

definition CALENDAR_STATUS_INVITED :: u32 where "CALENDAR_STATUS_INVITED = 0"
definition CALENDAR_STATUS_SIGNED_UP :: u32 where "CALENDAR_STATUS_SIGNED_UP = 6"
definition CALENDAR_STATUS_NOT_SIGNED_UP :: u32 where "CALENDAR_STATUS_NOT_SIGNED_UP = 7"
definition CALENDAR_STATUS_TENTATIVE :: u32 where "CALENDAR_STATUS_TENTATIVE = 8"
definition CALENDAR_STATUS_REMOVED :: u32 where "CALENDAR_STATUS_REMOVED = 9"

definition CALENDAR_ERROR_OTHER_INVITES_EXCEEDED :: u32 where "CALENDAR_ERROR_OTHER_INVITES_EXCEEDED = 4"
definition CALENDAR_ERROR_EVENT_INVALID :: u32 where "CALENDAR_ERROR_EVENT_INVALID = 6"
definition CALENDAR_ERROR_GUILD_PLAYER_NOT_IN_GUILD :: u32 where "CALENDAR_ERROR_GUILD_PLAYER_NOT_IN_GUILD = 9"
definition CALENDAR_ERROR_ALREADY_INVITED_TO_EVENT_S :: u32 where "CALENDAR_ERROR_ALREADY_INVITED_TO_EVENT_S = 10"
definition CALENDAR_ERROR_PLAYER_NOT_FOUND :: u32 where "CALENDAR_ERROR_PLAYER_NOT_FOUND = 11"
definition CALENDAR_ERROR_NOT_ALLIED :: u32 where "CALENDAR_ERROR_NOT_ALLIED = 12"
definition CALENDAR_ERROR_IGNORING_YOU_S :: u32 where "CALENDAR_ERROR_IGNORING_YOU_S = 13"
definition CALENDAR_ERROR_EVENT_LOCKED :: u32 where "CALENDAR_ERROR_EVENT_LOCKED = 21"
definition CALENDAR_ERROR_DELETE_CREATOR_FAILED :: u32 where "CALENDAR_ERROR_DELETE_CREATOR_FAILED = 22"
definition CALENDAR_ERROR_NO_INVITE :: u32 where "CALENDAR_ERROR_NO_INVITE = 29"
definition CALENDAR_ERROR_NO_GUILD_INVITES :: u32 where "CALENDAR_ERROR_NO_GUILD_INVITES = 38"

definition CALENDAR_MAX_INVITES :: u32 where "CALENDAR_MAX_INVITES = 100"

lemmas calendar_flags = CALENDAR_FLAG_INVITES_LOCKED_def CALENDAR_FLAG_WITHOUT_INVITES_def CALENDAR_FLAG_GUILD_EVENT_def

lemmas calendar_errors = CALENDAR_ERROR_OTHER_INVITES_EXCEEDED_def CALENDAR_ERROR_EVENT_INVALID_def
  CALENDAR_ERROR_GUILD_PLAYER_NOT_IN_GUILD_def CALENDAR_ERROR_ALREADY_INVITED_TO_EVENT_S_def
  CALENDAR_ERROR_PLAYER_NOT_FOUND_def CALENDAR_ERROR_NOT_ALLIED_def CALENDAR_ERROR_IGNORING_YOU_S_def
  CALENDAR_ERROR_EVENT_LOCKED_def CALENDAR_ERROR_DELETE_CREATOR_FAILED_def CALENDAR_ERROR_NO_INVITE_def
  CALENDAR_ERROR_NO_GUILD_INVITES_def

section \<open>Invites and events\<close>

text \<open>
  The enums of the members are not fixed in C++: a cast of any byte or word of a packet is kept,
  so they are words. \<^verbatim>\<open>time_t\<close> is an integer.
\<close>

record calInvite =
  ciInviteId :: u64
  ciEventId :: u64
  ciInvitee :: u64
  ciSender :: u64
  ciStatusTime :: int
  ciStatus :: u32
  ciRank :: u32
  ciText :: string

record calEvent =
  ceEventId :: u64
  ceCreator :: u64
  ceGuildId :: u32
  ceType :: u32
  ceDungeonId :: u32
  ceEventTime :: int
  ceFlags :: u32
  ceTimeZone :: int
  ceTitle :: string
  ceDescription :: string

definition CalendarInvite_copy :: "calInvite \<Rightarrow> u64 \<Rightarrow> u64 \<Rightarrow> calInvite" where
  "CalendarInvite_copy c inviteId eventId =
     \<lparr>ciInviteId = inviteId, ciEventId = eventId, ciInvitee = ciInvitee c, ciSender = ciSender c,
      ciStatusTime = ciStatusTime c, ciStatus = ciStatus c, ciRank = ciRank c, ciText = ciText c\<rparr>"

definition CalendarInvite_new :: "u64 \<Rightarrow> u64 \<Rightarrow> u64 \<Rightarrow> u64 \<Rightarrow> int \<Rightarrow> u32 \<Rightarrow> u32 \<Rightarrow> string \<Rightarrow> calInvite" where
  "CalendarInvite_new inviteId eventId invitee senderGUID statusTime status rank txt =
     \<lparr>ciInviteId = inviteId, ciEventId = eventId, ciInvitee = invitee, ciSender = senderGUID,
      ciStatusTime = statusTime, ciStatus = status, ciRank = rank, ciText = txt\<rparr>"

definition CalendarEvent_copy :: "calEvent \<Rightarrow> u64 \<Rightarrow> calEvent" where
  "CalendarEvent_copy c eventId =
     \<lparr>ceEventId = eventId, ceCreator = ceCreator c, ceGuildId = ceGuildId c, ceType = ceType c,
      ceDungeonId = ceDungeonId c, ceEventTime = ceEventTime c, ceFlags = ceFlags c,
      ceTimeZone = ceTimeZone c, ceTitle = ceTitle c, ceDescription = ceDescription c\<rparr>"

definition CalendarEvent_new :: "u64 \<Rightarrow> u64 \<Rightarrow> u32 \<Rightarrow> u32 \<Rightarrow> u32 \<Rightarrow> int \<Rightarrow> u32 \<Rightarrow> int \<Rightarrow> string \<Rightarrow> string \<Rightarrow> calEvent" where
  "CalendarEvent_new eventId creatorGUID guildId typ dungeonId eventTime flags timezoneTime title description =
     \<lparr>ceEventId = eventId, ceCreator = creatorGUID, ceGuildId = guildId, ceType = typ,
      ceDungeonId = dungeonId, ceEventTime = eventTime, ceFlags = flags,
      ceTimeZone = timezoneTime, ceTitle = title, ceDescription = description\<rparr>"

definition IsGuildEvent :: "calEvent \<Rightarrow> bool" where
  "IsGuildEvent e = (ceFlags e AND CALENDAR_FLAG_GUILD_EVENT \<noteq> 0)"

definition IsGuildAnnouncement :: "calEvent \<Rightarrow> bool" where
  "IsGuildAnnouncement e = (ceFlags e AND CALENDAR_FLAG_WITHOUT_INVITES \<noteq> 0)"

section \<open>Rows and effects\<close>

text \<open>
  A row of \<^verbatim>\<open>calendar_events\<close> and of \<^verbatim>\<open>calendar_invites\<close>, at the widths of the values the
  statements set: the id of a player without the high part, the times as 32-bit numbers.
\<close>

record eventRow =
  erId :: u64
  erCreator :: u32
  erTitle :: string
  erDescription :: string
  erType :: u8
  erDungeon :: u32
  erTime :: u32
  erFlags :: u32
  erTime2 :: u32

record inviteRow =
  irId :: u64
  irEvent :: u64
  irInvitee :: u32
  irSender :: u32
  irStatus :: u8
  irStatusTime :: u32
  irRank :: u8
  irText :: string

datatype calStmt = RepEvent eventRow | DelEvent u64 | RepInvite inviteRow | DelInvite u64

text \<open>
  A packet to a player and to the members of a guild, a statement, and a mail by its subject,
  its body and the receiver.
\<close>

datatype calEffect =
    CalSend u64 u16 "cfield list"
  | CalGuild u32 u16 "cfield list"
  | CalSql calStmt
  | CalMail string string u64

section \<open>The manager and its environment\<close>

text \<open>
  \<^verbatim>\<open>_events\<close> and \<^verbatim>\<open>_invites\<close> are hash tables: the lists are in the order an iteration goes
  through them. The free ids are the two deques, front first.
\<close>

record calMgr =
  cmEvents :: "calEvent list"
  cmInvites :: "(u64 \<times> calInvite list) list"
  cmFreeEvents :: "u64 list"
  cmFreeInvites :: "u64 list"
  cmMaxEvent :: u64
  cmMaxInvite :: u64
  cmOut :: "calEffect list"

definition CalendarMgr_new :: calMgr where
  "CalendarMgr_new = \<lparr>cmEvents = [], cmInvites = [], cmFreeEvents = [], cmFreeInvites = [],
     cmMaxEvent = 0, cmMaxInvite = 0, cmOut = []\<rparr>"

text \<open>
  The players in or out of the world with level and guild, what is stored of the others, the
  guilds, the clock, \<^verbatim>\<open>localtime_r\<close> and \<^verbatim>\<open>mktime\<close>, the order of the hash tables after an
  insertion, and what an invitation looks up: a player by name with guid, team and guild, the
  global data of a name, the team of a race, the flags of the social list, and the
  configuration of two-side interaction.
\<close>

record calEnv =
  envPlayer :: "u64 \<Rightarrow> (u8 \<times> u32) option"
  envLevel :: "u64 \<Rightarrow> u8"
  envGuildOf :: "u32 \<Rightarrow> u32"
  envGuild :: "u32 \<Rightarrow> bool"
  envNow :: int
  envLocaltime :: "int \<Rightarrow> tm"
  envMktime :: "tm \<Rightarrow> int"
  envEventOrder :: "calEvent list \<Rightarrow> calEvent list"
  envInviteOrder :: "(u64 \<times> calInvite list) list \<Rightarrow> (u64 \<times> calInvite list) list"
  envByName :: "string \<Rightarrow> (u64 \<times> u32 \<times> u32) option"
  envGlobalGuid :: "string \<Rightarrow> u32"
  envGlobalData :: "u32 \<Rightarrow> (u8 \<times> u32) option"
  envTeamOfRace :: "u8 \<Rightarrow> u32"
  envSocialFlags :: "u64 \<Rightarrow> u64 \<Rightarrow> u8 option"
  envTwoSide :: bool

definition hash_env :: "calEnv \<Rightarrow> bool" where
  "hash_env E \<longleftrightarrow> (\<forall>es. mset (envEventOrder E es) = mset es) \<and> (\<forall>vs. mset (envInviteOrder E vs) = mset vs)"

lemma hash_env_sets:
  assumes "hash_env E"
  shows "set (envEventOrder E es) = set es" "set (envInviteOrder E vs) = set vs"
  using assms unfolding hash_env_def by (metis mset_eq_setD)+

definition ceff :: "calEffect \<Rightarrow> calMgr \<Rightarrow> calMgr" where
  "ceff e w = w\<lparr>cmOut := cmOut w @ [e]\<rparr>"

definition all_invites :: "calMgr \<Rightarrow> calInvite list" where
  "all_invites w = concat (map snd (cmInvites w))"

section \<open>Opcodes\<close>

definition SMSG_CALENDAR_SEND_EVENT :: u16 where "SMSG_CALENDAR_SEND_EVENT = 0x437"
definition SMSG_CALENDAR_EVENT_INVITE :: u16 where "SMSG_CALENDAR_EVENT_INVITE = 0x43A"
definition SMSG_CALENDAR_EVENT_INVITE_REMOVED :: u16 where "SMSG_CALENDAR_EVENT_INVITE_REMOVED = 0x43B"
definition SMSG_CALENDAR_EVENT_STATUS :: u16 where "SMSG_CALENDAR_EVENT_STATUS = 0x43C"
definition SMSG_CALENDAR_COMMAND_RESULT :: u16 where "SMSG_CALENDAR_COMMAND_RESULT = 0x43D"
definition SMSG_CALENDAR_EVENT_INVITE_ALERT :: u16 where "SMSG_CALENDAR_EVENT_INVITE_ALERT = 0x440"
definition SMSG_CALENDAR_EVENT_INVITE_REMOVED_ALERT :: u16 where "SMSG_CALENDAR_EVENT_INVITE_REMOVED_ALERT = 0x441"
definition SMSG_CALENDAR_EVENT_REMOVED_ALERT :: u16 where "SMSG_CALENDAR_EVENT_REMOVED_ALERT = 0x443"
definition SMSG_CALENDAR_EVENT_UPDATED_ALERT :: u16 where "SMSG_CALENDAR_EVENT_UPDATED_ALERT = 0x444"
definition SMSG_CALENDAR_EVENT_MODERATOR_STATUS_ALERT :: u16 where "SMSG_CALENDAR_EVENT_MODERATOR_STATUS_ALERT = 0x445"
definition SMSG_CALENDAR_SEND_NUM_PENDING :: u16 where "SMSG_CALENDAR_SEND_NUM_PENDING = 0x448"
definition SMSG_CALENDAR_CLEAR_PENDING_ACTION :: u16 where "SMSG_CALENDAR_CLEAR_PENDING_ACTION = 0x4BB"

end
