(* ===== verification/CalendarStore.thy ===== *)
theory CalendarStore
  imports CalendarData
begin

text \<open>
  The stores of the calendar manager and the packets about them,
  src/src/server/game/Calendar/CalendarMgr.cpp: the pools of ids, the look-ups, the statements
  that keep the tables, and the Send functions.
\<close>

section \<open>Ids\<close>

definition FreeEventId :: "u64 \<Rightarrow> calMgr \<Rightarrow> calMgr" where
  "FreeEventId i w =
     (if i = cmMaxEvent w then w\<lparr>cmMaxEvent := cmMaxEvent w - 1\<rparr>
      else w\<lparr>cmFreeEvents := cmFreeEvents w @ [i]\<rparr>)"

definition GetFreeEventId :: "calMgr \<Rightarrow> u64 \<times> calMgr" where
  "GetFreeEventId w =
     (case cmFreeEvents w of
        [] \<Rightarrow> (cmMaxEvent w + 1, w\<lparr>cmMaxEvent := cmMaxEvent w + 1\<rparr>)
      | eventId # rest \<Rightarrow> (eventId, w\<lparr>cmFreeEvents := rest\<rparr>))"

definition FreeInviteId :: "u64 \<Rightarrow> calMgr \<Rightarrow> calMgr" where
  "FreeInviteId i w =
     (if i = cmMaxInvite w then w\<lparr>cmMaxInvite := cmMaxInvite w - 1\<rparr>
      else w\<lparr>cmFreeInvites := cmFreeInvites w @ [i]\<rparr>)"

definition GetFreeInviteId :: "calMgr \<Rightarrow> u64 \<times> calMgr" where
  "GetFreeInviteId w =
     (case cmFreeInvites w of
        [] \<Rightarrow> (cmMaxInvite w + 1, w\<lparr>cmMaxInvite := cmMaxInvite w + 1\<rparr>)
      | inviteId # rest \<Rightarrow> (inviteId, w\<lparr>cmFreeInvites := rest\<rparr>))"

section \<open>Look-ups\<close>

text \<open>\<^verbatim>\<open>GetEvent\<close> with the position of the event, for the iterator it also gives.\<close>

fun find_event :: "u64 \<Rightarrow> calEvent list \<Rightarrow> (nat \<times> calEvent) option" where
  "find_event eventId [] = None"
| "find_event eventId (e # es) =
     (if ceEventId e = eventId then Some (0, e) else map_option (\<lambda>(i, e). (Suc i, e)) (find_event eventId es))"

definition GetEvent :: "u64 \<Rightarrow> calMgr \<Rightarrow> calEvent option" where
  "GetEvent eventId w = map_option snd (find_event eventId (cmEvents w))"

definition GetInvite :: "u64 \<Rightarrow> calMgr \<Rightarrow> calInvite option" where
  "GetInvite inviteId w = find (\<lambda>v. ciInviteId v = inviteId) (all_invites w)"

text \<open>\<^verbatim>\<open>_invites[eventId]\<close>: a key that is not there is inserted with an empty vector.\<close>

definition invites_at :: "calEnv \<Rightarrow> u64 \<Rightarrow> calMgr \<Rightarrow> calInvite list \<times> calMgr" where
  "invites_at E eventId w =
     (case map_of (cmInvites w) eventId of
        Some vs \<Rightarrow> (vs, w)
      | None \<Rightarrow> ([], w\<lparr>cmInvites := envInviteOrder E (cmInvites w @ [(eventId, [])])\<rparr>))"

definition GetEventInvites :: "calEnv \<Rightarrow> u64 \<Rightarrow> calMgr \<Rightarrow> calInvite list \<times> calMgr" where
  "GetEventInvites E eventId w = invites_at E eventId w"

definition GetPlayerInvites :: "u64 \<Rightarrow> calMgr \<Rightarrow> calInvite list" where
  "GetPlayerInvites guid w = filter (\<lambda>v. ciInvitee v = guid) (all_invites w)"

text \<open>The result is a set of pointers; two events are the same pointer when they are equal.\<close>

definition GetPlayerEvents :: "calEnv \<Rightarrow> u64 \<Rightarrow> calMgr \<Rightarrow> calEvent set" where
  "GetPlayerEvents E guid w =
     set (List.map_filter (\<lambda>(k, v). if ciInvitee v = guid then GetEvent k w else None)
       (concat (map (\<lambda>(k, vs). map (Pair k) vs) (cmInvites w)))) \<union>
     (case envPlayer E guid of None \<Rightarrow> {}
      | Some (level, guildId) \<Rightarrow> set (filter (\<lambda>e. ceGuildId e = guildId) (cmEvents w)))"

definition is_pending :: "u32 \<Rightarrow> bool" where
  "is_pending status \<longleftrightarrow> status = CALENDAR_STATUS_INVITED \<or> status = CALENDAR_STATUS_TENTATIVE \<or>
     status = CALENDAR_STATUS_NOT_SIGNED_UP"

definition GetPlayerNumPending :: "u64 \<Rightarrow> calMgr \<Rightarrow> u32" where
  "GetPlayerNumPending guid w =
     fold (\<lambda>v pendingNum. if is_pending (ciStatus v) then pendingNum + 1 else pendingNum) (GetPlayerInvites guid w) 0"

section \<open>Statements\<close>

definition event_row :: "calEvent \<Rightarrow> eventRow" where
  "event_row e = \<lparr>erId = ceEventId e, erCreator = GUID_LOPART (ceCreator e), erTitle = ceTitle e,
     erDescription = ceDescription e, erType = ucast (ceType e), erDungeon = ceDungeonId e,
     erTime = word_of_int (ceEventTime e), erFlags = ceFlags e, erTime2 = word_of_int (ceTimeZone e)\<rparr>"

definition invite_row :: "calInvite \<Rightarrow> inviteRow" where
  "invite_row v = \<lparr>irId = ciInviteId v, irEvent = ciEventId v, irInvitee = GUID_LOPART (ciInvitee v),
     irSender = GUID_LOPART (ciSender v), irStatus = ucast (ciStatus v),
     irStatusTime = word_of_int (ciStatusTime v), irRank = ucast (ciRank v), irText = ciText v\<rparr>"

definition UpdateEvent :: "calEvent \<Rightarrow> calMgr \<Rightarrow> calMgr" where
  "UpdateEvent e w = ceff (CalSql (RepEvent (event_row e))) w"

definition UpdateInvite :: "calInvite \<Rightarrow> calMgr \<Rightarrow> calMgr" where
  "UpdateInvite v w = ceff (CalSql (RepInvite (invite_row v))) w"

section \<open>Mail texts\<close>

definition BuildCalendarMailSubject :: "u64 \<Rightarrow> calEvent \<Rightarrow> string" where
  "BuildCalendarMailSubject remover e = dec_string (unat remover) @ '':'' @ ceTitle e"

definition packed_time :: "calEnv \<Rightarrow> int \<Rightarrow> u32" where
  "packed_time E t = pack_tm (envLocaltime E t)"

definition BuildCalendarMailBody :: "calEnv \<Rightarrow> calEvent \<Rightarrow> string" where
  "BuildCalendarMailBody E e = dec_string (unat (packed_time E (ceEventTime e)))"

section \<open>Packets\<close>

definition send_to :: "calEnv \<Rightarrow> u64 \<Rightarrow> u16 \<Rightarrow> cfield list \<Rightarrow> calMgr \<Rightarrow> calMgr" where
  "send_to E guid opcode fs w = (if envPlayer E guid = None then w else ceff (CalSend guid opcode fs) w)"

definition send_guild :: "calEnv \<Rightarrow> u32 \<Rightarrow> u16 \<Rightarrow> cfield list \<Rightarrow> calMgr \<Rightarrow> calMgr" where
  "send_guild E guildId opcode fs w = (if envGuild E guildId then ceff (CalGuild guildId opcode fs) w else w)"

definition SendPacketToAllEventRelatives :: "calEnv \<Rightarrow> u16 \<Rightarrow> cfield list \<Rightarrow> calEvent \<Rightarrow> calMgr \<Rightarrow> calMgr" where
  "SendPacketToAllEventRelatives E opcode fs e w =
     (let w = (if IsGuildEvent e \<or> IsGuildAnnouncement e then send_guild E (ceGuildId e) opcode fs w else w);
          (invites, w) = invites_at E (ceEventId e) w
      in fold (\<lambda>v w. case envPlayer E (ciInvitee v) of
           None \<Rightarrow> w
         | Some (level, guildId) \<Rightarrow>
             (if \<not> IsGuildEvent e \<or> (IsGuildEvent e \<and> guildId \<noteq> ceGuildId e)
              then ceff (CalSend (ciInvitee v) opcode fs) w else w)) invites w)"

definition bool8 :: "bool \<Rightarrow> u8" where
  "bool8 b = (if b then 1 else 0)"

definition player_level :: "calEnv \<Rightarrow> u64 \<Rightarrow> u8" where
  "player_level E guid = (case envPlayer E guid of Some (level, guildId) \<Rightarrow> level | None \<Rightarrow> envLevel E guid)"

definition player_guild :: "calEnv \<Rightarrow> u64 \<Rightarrow> u32" where
  "player_guild E guid =
     (case envPlayer E guid of Some (level, guildId) \<Rightarrow> guildId | None \<Rightarrow> envGuildOf E (GUID_LOPART guid))"

definition SendCalendarEventInvite :: "calEnv \<Rightarrow> calInvite \<Rightarrow> calMgr \<Rightarrow> calMgr" where
  "SendCalendarEventInvite E v w =
     (let hasStatusTime = (ciStatusTime v \<noteq> 946684800);
          fs = [CPack (ciInvitee v), C64 (ciEventId v), C64 (ciInviteId v), C8 (player_level E (ciInvitee v)),
                C8 (ucast (ciStatus v)), C8 (bool8 hasStatusTime)] @
               (if hasStatusTime then [C32 (packed_time E (ciStatusTime v))] else []) @
               [C8 (bool8 (ciSender v \<noteq> ciInvitee v))]
      in case GetEvent (ciEventId v) w of
           None \<Rightarrow> send_to E (ciSender v) SMSG_CALENDAR_EVENT_INVITE fs w
         | Some e \<Rightarrow>
             (if ceCreator e \<noteq> ciInvitee v then SendPacketToAllEventRelatives E SMSG_CALENDAR_EVENT_INVITE fs e w
              else w))"

definition SendCalendarEventUpdateAlert :: "calEnv \<Rightarrow> calEvent \<Rightarrow> int \<Rightarrow> calMgr \<Rightarrow> calMgr" where
  "SendCalendarEventUpdateAlert E e oldEventTime w =
     SendPacketToAllEventRelatives E SMSG_CALENDAR_EVENT_UPDATED_ALERT
       [C8 1, C64 (ceEventId e), C32 (packed_time E oldEventTime), C32 (ceFlags e),
        C32 (packed_time E (ceEventTime e)), C8 (ucast (ceType e)), C32 (ceDungeonId e), CStr (ceTitle e),
        CStr (ceDescription e), C8 CALENDAR_REPEAT_NEVER, C32 CALENDAR_MAX_INVITES, C32 0] e w"

definition SendCalendarEventStatus :: "calEnv \<Rightarrow> calEvent \<Rightarrow> calInvite \<Rightarrow> calMgr \<Rightarrow> calMgr" where
  "SendCalendarEventStatus E e v w =
     SendPacketToAllEventRelatives E SMSG_CALENDAR_EVENT_STATUS
       [CPack (ciInvitee v), C64 (ceEventId e), C32 (packed_time E (ceEventTime e)), C32 (ceFlags e),
        C8 (ucast (ciStatus v)), C8 (ucast (ciRank v)), C32 (packed_time E (ciStatusTime v))] e w"

definition SendCalendarEventRemovedAlert :: "calEnv \<Rightarrow> calEvent \<Rightarrow> calMgr \<Rightarrow> calMgr" where
  "SendCalendarEventRemovedAlert E e w =
     SendPacketToAllEventRelatives E SMSG_CALENDAR_EVENT_REMOVED_ALERT
       [C8 1, C64 (ceEventId e), C32 (packed_time E (ceEventTime e))] e w"

definition SendCalendarEventInviteRemove :: "calEnv \<Rightarrow> calEvent \<Rightarrow> calInvite \<Rightarrow> u32 \<Rightarrow> calMgr \<Rightarrow> calMgr" where
  "SendCalendarEventInviteRemove E e v flags w =
     SendPacketToAllEventRelatives E SMSG_CALENDAR_EVENT_INVITE_REMOVED
       [CPack (ciInvitee v), C64 (ciEventId v), C32 flags, C8 1] e w"

definition SendCalendarEventModeratorStatusAlert :: "calEnv \<Rightarrow> calEvent \<Rightarrow> calInvite \<Rightarrow> calMgr \<Rightarrow> calMgr" where
  "SendCalendarEventModeratorStatusAlert E e v w =
     SendPacketToAllEventRelatives E SMSG_CALENDAR_EVENT_MODERATOR_STATUS_ALERT
       [CPack (ciInvitee v), C64 (ciEventId v), C8 (ucast (ciRank v)), C8 1] e w"

definition SendCalendarEventInviteAlert :: "calEnv \<Rightarrow> calEvent \<Rightarrow> calInvite \<Rightarrow> calMgr \<Rightarrow> calMgr" where
  "SendCalendarEventInviteAlert E e v w =
     (let fs = [C64 (ceEventId e), CStr (ceTitle e), C32 (packed_time E (ceEventTime e)), C32 (ceFlags e),
                C32 (ceType e), C32 (ceDungeonId e), C64 (ciInviteId v), C8 (ucast (ciStatus v)),
                C8 (ucast (ciRank v)), CPack (ceCreator e), CPack (ciSender v)]
      in if IsGuildEvent e \<or> IsGuildAnnouncement e
         then send_guild E (ceGuildId e) SMSG_CALENDAR_EVENT_INVITE_ALERT fs w
         else send_to E (ciInvitee v) SMSG_CALENDAR_EVENT_INVITE_ALERT fs w)"

definition invitee_fields :: "calEnv \<Rightarrow> calEvent \<Rightarrow> calInvite \<Rightarrow> cfield list" where
  "invitee_fields E e v =
     [CPack (ciInvitee v), C8 (player_level E (ciInvitee v)), C8 (ucast (ciStatus v)), C8 (ucast (ciRank v)),
      C8 (bool8 (IsGuildEvent e \<and> ceGuildId e = player_guild E (ciInvitee v))), C64 (ciInviteId v),
      C32 (packed_time E (ciStatusTime v)), CStr (ciText v)]"

definition SendCalendarEvent :: "calEnv \<Rightarrow> u64 \<Rightarrow> calEvent \<Rightarrow> u8 \<Rightarrow> calMgr \<Rightarrow> calMgr" where
  "SendCalendarEvent E guid e sendType w =
     (if envPlayer E guid = None then w
      else let (eventInviteeList, w) = invites_at E (ceEventId e) w
           in ceff (CalSend guid SMSG_CALENDAR_SEND_EVENT
                ([C8 sendType, CPack (ceCreator e), C64 (ceEventId e), CStr (ceTitle e), CStr (ceDescription e),
                  C8 (ucast (ceType e)), C8 CALENDAR_REPEAT_NEVER, C32 CALENDAR_MAX_INVITES, C32 (ceDungeonId e),
                  C32 (ceFlags e), C32 (packed_time E (ceEventTime e)), C32 (packed_time E (ceTimeZone e)),
                  C32 (ceGuildId e), C32 (of_nat (length eventInviteeList))] @
                 concat (map (invitee_fields E e) eventInviteeList))) w)"

definition SendCalendarEventInviteRemoveAlert :: "calEnv \<Rightarrow> u64 \<Rightarrow> calEvent \<Rightarrow> u32 \<Rightarrow> calMgr \<Rightarrow> calMgr" where
  "SendCalendarEventInviteRemoveAlert E guid e status w =
     send_to E guid SMSG_CALENDAR_EVENT_INVITE_REMOVED_ALERT
       [C64 (ceEventId e), C32 (packed_time E (ceEventTime e)), C32 (ceFlags e), C8 (ucast status)] w"

definition SendCalendarClearPendingAction :: "calEnv \<Rightarrow> u64 \<Rightarrow> calMgr \<Rightarrow> calMgr" where
  "SendCalendarClearPendingAction E guid w = send_to E guid SMSG_CALENDAR_CLEAR_PENDING_ACTION [] w"

definition SendCalendarCommandResult :: "calEnv \<Rightarrow> u64 \<Rightarrow> u32 \<Rightarrow> string \<Rightarrow> calMgr \<Rightarrow> calMgr" where
  "SendCalendarCommandResult E guid err param w =
     send_to E guid SMSG_CALENDAR_COMMAND_RESULT
       [C32 0, C8 0,
        (if err \<in> {CALENDAR_ERROR_OTHER_INVITES_EXCEEDED, CALENDAR_ERROR_ALREADY_INVITED_TO_EVENT_S, CALENDAR_ERROR_IGNORING_YOU_S}
         then CStr param else C8 0), C32 err] w"

end
