(* ===== verification/CalendarOps.thy ===== *)
theory CalendarOps
  imports CalendarStore
begin

text \<open>
  The operations of the calendar manager that change its stores, src/src/server/game/Calendar/CalendarMgr.cpp:
  loading, adding and removing events and invites, and taking a player out of the calendar.
\<close>

section \<open>Adding\<close>

definition AddEvent :: "calEnv \<Rightarrow> calEvent \<Rightarrow> u8 \<Rightarrow> calMgr \<Rightarrow> calMgr" where
  "AddEvent E e sendType w =
     (let w = w\<lparr>cmEvents := envEventOrder E (e # cmEvents w)\<rparr>;
          w = UpdateEvent e w
      in SendCalendarEvent E (ceCreator e) e sendType w)"

definition push_invite :: "calEnv \<Rightarrow> calInvite \<Rightarrow> calMgr \<Rightarrow> calMgr" where
  "push_invite E v w =
     (let (vs, w) = invites_at E (ciEventId v) w
      in w\<lparr>cmInvites := map (\<lambda>(k, us). if k = ciEventId v then (k, us @ [v]) else (k, us)) (cmInvites w)\<rparr>)"

text \<open>
  A transaction only groups the statements; they are written in the order in which they are
  executed, and appended otherwise, so the effects do not depend on it.
\<close>

definition CalendarMgr_AddInvite :: "calEnv \<Rightarrow> calEvent \<Rightarrow> calInvite \<Rightarrow> calMgr \<Rightarrow> calMgr" where
  "CalendarMgr_AddInvite E e v w =
     (let w = (if \<not> IsGuildAnnouncement e then SendCalendarEventInvite E v w else w);
          w = (if \<not> IsGuildEvent e \<or> ciInvitee v = ceCreator e then SendCalendarEventInviteAlert E e v w else w)
      in if \<not> IsGuildAnnouncement e then UpdateInvite v (push_invite E v w) else w)"

section \<open>Removing\<close>

text \<open>The loop over the invites of an event: the row, a mail, and \<^verbatim>\<open>delete invite\<close>, whose destructor frees the id.\<close>

definition remove_event_invite :: "calEnv \<Rightarrow> calEvent \<Rightarrow> u64 \<Rightarrow> calInvite \<Rightarrow> calMgr \<Rightarrow> calMgr" where
  "remove_event_invite E e remover v w =
     (let w = ceff (CalSql (DelInvite (ciInviteId v))) w;
          w = (if remover \<noteq> 0 \<and> ciInvitee v \<noteq> remover
               then ceff (CalMail (BuildCalendarMailSubject remover e) (BuildCalendarMailBody E e) (ciInvitee v)) w
               else w)
      in FreeInviteId (ciInviteId v) w)"

text \<open>
  \<^verbatim>\<open>RemoveEvent\<close> returns an iterator: the position behind the erased event, which is the event's
  own, or the end.
\<close>

definition RemoveEvent :: "calEnv \<Rightarrow> u64 \<Rightarrow> u64 \<Rightarrow> calMgr \<Rightarrow> nat \<times> calMgr" where
  "RemoveEvent E eventId remover w =
     (case find_event eventId (cmEvents w) of
        None \<Rightarrow> (length (cmEvents w), SendCalendarCommandResult E remover CALENDAR_ERROR_EVENT_INVALID '''' w)
      | Some (current, e) \<Rightarrow>
          (let w = SendCalendarEventRemovedAlert E e w;
               (eventInvites, w) = invites_at E eventId w;
               w = fold (remove_event_invite E e remover) eventInvites w;
               w = w\<lparr>cmInvites := filter (\<lambda>(k, vs). k \<noteq> eventId) (cmInvites w)\<rparr>;
               w = ceff (CalSql (DelEvent eventId)) w;
               w = FreeEventId eventId w
           in (current, w\<lparr>cmEvents := take current (cmEvents w) @ drop (Suc current) (cmEvents w)\<rparr>)))"

fun remove_first :: "('a \<Rightarrow> bool) \<Rightarrow> 'a list \<Rightarrow> 'a list" where
  "remove_first P [] = []"
| "remove_first P (x # xs) = (if P x then xs else x # remove_first P xs)"

definition CalendarMgr_RemoveInvite :: "calEnv \<Rightarrow> u64 \<Rightarrow> u64 \<Rightarrow> u64 \<Rightarrow> calMgr \<Rightarrow> calMgr" where
  "CalendarMgr_RemoveInvite E inviteId eventId remover w =
     (case GetEvent eventId w of
        None \<Rightarrow> w
      | Some e \<Rightarrow>
          (let (vs, w) = invites_at E eventId w
           in case find (\<lambda>v. ciInviteId v = inviteId) vs of
                None \<Rightarrow> w
              | Some v \<Rightarrow>
                  (let w = ceff (CalSql (DelInvite (ciInviteId v))) w;
                       w = (if \<not> IsGuildEvent e
                            then SendCalendarEventInviteRemoveAlert E (ciInvitee v) e CALENDAR_STATUS_REMOVED w else w);
                       w = SendCalendarEventInviteRemove E e v (ceFlags e) w;
                       w = FreeInviteId (ciInviteId v) w
                   in w\<lparr>cmInvites := map (\<lambda>(k, us). if k = eventId
                        then (k, remove_first (\<lambda>v. ciInviteId v = inviteId) us) else (k, us)) (cmInvites w)\<rparr>)))"

section \<open>Leaving players\<close>

text \<open>
  The loop over \<^verbatim>\<open>_events\<close> that removes the events of a condition: the iterator is a position,
  and \<^const>\<open>RemoveEvent\<close> gives the next one.
\<close>

lemma find_event_nth:
  "find_event k es = Some (i, e) \<Longrightarrow> i < length es \<and> es ! i = e \<and> ceEventId e = k"
  by (induction k es arbitrary: i e rule: find_event.induct) (auto split: if_splits)

lemma find_event_None: "find_event k es = None \<longleftrightarrow> k \<notin> ceEventId ` set es"
  by (induction k es rule: find_event.induct) auto

lemma cmEvents_invites_at [simp]: "cmEvents (snd (invites_at E k w)) = cmEvents w"
  by (simp add: invites_at_def split: option.split)

lemma cmEvents_relatives [simp]: "cmEvents (SendPacketToAllEventRelatives E opcode fs e w) = cmEvents w"
proof -
  have fold: "cmEvents (fold (\<lambda>v w. case envPlayer E (ciInvitee v) of None \<Rightarrow> w
      | Some (level, guildId) \<Rightarrow> (if c v guildId then ceff (f v) w else w)) vs w) = cmEvents w" for c f vs w
    by (induction vs arbitrary: w) (auto simp: ceff_def split: option.split)
  show ?thesis
    by (auto simp: SendPacketToAllEventRelatives_def Let_def split_def fold send_guild_def ceff_def)
qed

lemma cmEvents_remove_invites [simp]:
  "cmEvents (fold (remove_event_invite E e remover) vs w) = cmEvents w"
  by (induction vs arbitrary: w) (auto simp: remove_event_invite_def Let_def ceff_def FreeInviteId_def)

lemma RemoveEvent_events:
  "cmEvents (snd (RemoveEvent E k remover w)) =
     (case find_event k (cmEvents w) of None \<Rightarrow> cmEvents w
      | Some (i, e) \<Rightarrow> take i (cmEvents w) @ drop (Suc i) (cmEvents w))"
  "fst (RemoveEvent E k remover w) =
     (case find_event k (cmEvents w) of None \<Rightarrow> length (cmEvents w) | Some (i, e) \<Rightarrow> i)"
  by (simp_all add: RemoveEvent_def Let_def split_def SendCalendarEventRemovedAlert_def ceff_def FreeEventId_def
      SendCalendarCommandResult_def send_to_def split: option.split)

function remove_events :: "calEnv \<Rightarrow> (calEvent \<Rightarrow> bool) \<Rightarrow> u64 \<Rightarrow> nat \<Rightarrow> calMgr \<Rightarrow> calMgr" where
  "remove_events E P remover itr w =
     (if itr < length (cmEvents w)
      then if P (cmEvents w ! itr)
           then let (itr, w) = RemoveEvent E (ceEventId (cmEvents w ! itr)) remover w
                in remove_events E P remover itr w
           else remove_events E P remover (Suc itr) w
      else w)"
  by pat_completeness auto
termination
proof (relation "measures [\<lambda>(E, P, r, i, w). length (cmEvents w), \<lambda>(E, P, r, i, w). length (cmEvents w) - i]", goal_cases)
  case (2 E P r i w x j w')
  obtain n e where f: "find_event (ceEventId (cmEvents w ! i)) (cmEvents w) = Some (n, e)"
    using find_event_None 2(1) by (metis imageI nth_mem not_None_eq surj_pair)
  have w': "cmEvents w' = take n (cmEvents w) @ drop (Suc n) (cmEvents w)"
    using RemoveEvent_events(1) [of E "ceEventId (cmEvents w ! i)" r w] 2(3,4) by (simp add: f) (metis snd_conv)
  show ?case using find_event_nth [OF f] by (auto simp: w')
qed auto

declare remove_events.simps [simp del]

definition RemoveAllPlayerEventsAndInvites :: "calEnv \<Rightarrow> u64 \<Rightarrow> calMgr \<Rightarrow> calMgr" where
  "RemoveAllPlayerEventsAndInvites E guid w =
     (let w = remove_events E (\<lambda>e. ceCreator e = guid) 0 0 w
      in fold (\<lambda>v. CalendarMgr_RemoveInvite E (ciInviteId v) (ciEventId v) guid) (GetPlayerInvites guid w) w)"

definition RemovePlayerGuildEventsAndSignups :: "calEnv \<Rightarrow> u64 \<Rightarrow> u32 \<Rightarrow> calMgr \<Rightarrow> calMgr" where
  "RemovePlayerGuildEventsAndSignups E guid guildId w =
     (let w = remove_events E (\<lambda>e. ceCreator e = guid \<and> (IsGuildEvent e \<or> IsGuildAnnouncement e)) guid 0 w
      in fold (\<lambda>v w. case GetEvent (ciEventId v) w of
             None \<Rightarrow> w
           | Some e \<Rightarrow> (if IsGuildEvent e \<and> ceGuildId e = guildId
                        then CalendarMgr_RemoveInvite E (ciInviteId v) (ciEventId v) guid w else w))
           (GetPlayerInvites guid w) w)"

section \<open>Loading\<close>

definition load_event :: "calEnv \<Rightarrow> eventRow \<Rightarrow> calMgr \<Rightarrow> calMgr" where
  "load_event E r w =
     (let creatorGUID = MAKE_NEW_GUID (erCreator r) 0 HIGHGUID_PLAYER;
          flags = erFlags r;
          guildId = (if flags AND CALENDAR_FLAG_GUILD_EVENT \<noteq> 0 \<or> flags AND CALENDAR_FLAG_WITHOUT_INVITES \<noteq> 0
                     then envGuildOf E (GUID_LOPART creatorGUID) else 0);
          e = CalendarEvent_new (erId r) creatorGUID guildId (ucast (erType r)) (erDungeon r) (uint (erTime r)) flags
                (uint (erTime2 r)) (erTitle r) (erDescription r)
      in w\<lparr>cmEvents := envEventOrder E (e # cmEvents w), cmMaxEvent := max (cmMaxEvent w) (erId r)\<rparr>)"

definition load_invite :: "calEnv \<Rightarrow> inviteRow \<Rightarrow> calMgr \<Rightarrow> calMgr" where
  "load_invite E r w =
     (let invitee = MAKE_NEW_GUID (irInvitee r) 0 HIGHGUID_PLAYER;
          senderGUID = MAKE_NEW_GUID (irSender r) 0 HIGHGUID_PLAYER;
          v = CalendarInvite_new (irId r) (irEvent r) invitee senderGUID (uint (irStatusTime r)) (ucast (irStatus r))
                (ucast (irRank r)) (irText r);
          w = push_invite E v w
      in w\<lparr>cmMaxInvite := max (cmMaxInvite w) (irId r)\<rparr>)"

definition free_event_ids :: "calMgr \<Rightarrow> u64 list" where
  "free_event_ids w = filter (\<lambda>i. GetEvent i w = None) (map of_nat [1..<unat (cmMaxEvent w)])"

definition free_invite_ids :: "calMgr \<Rightarrow> u64 list" where
  "free_invite_ids w = filter (\<lambda>i. GetInvite i w = None) (map of_nat [1..<unat (cmMaxInvite w)])"

text \<open>\<^verbatim>\<open>LoadFromDB\<close> on the rows of the two queries.\<close>

definition CalendarMgr_LoadFromDB :: "calEnv \<Rightarrow> eventRow list \<Rightarrow> inviteRow list \<Rightarrow> calMgr \<Rightarrow> calMgr" where
  "CalendarMgr_LoadFromDB E events invites w =
     (let w = w\<lparr>cmMaxEvent := 0, cmMaxInvite := 0\<rparr>;
          w = fold (load_event E) events w;
          w = fold (load_invite E) invites w;
          w = w\<lparr>cmFreeEvents := cmFreeEvents w @ free_event_ids w\<rparr>
      in w\<lparr>cmFreeInvites := cmFreeInvites w @ free_invite_ids w\<rparr>)"

end
