(* ===== verification/CalendarHandlers.thy ===== *)
theory CalendarHandlers
  imports CalendarOps ByteBuffer
begin

text \<open>
  The packets a client sends about the calendar, src/src/server/game/Handlers/CalendarHandler.cpp:
  every handler reads its fields from the buffer, checks what the code checks, and changes the
  manager. A read past the end throws; the handler then ends with the error and the manager as
  it is at that point.
\<close>

record calSession =
  csGuid :: u64
  csTeam :: u32
  csGuild :: u32

type_synonym calResult = "calMgr \<times> bb_error option"

definition reading :: "'a bb \<Rightarrow> calMgr \<Rightarrow> ('a \<Rightarrow> calResult) \<Rightarrow> calResult" where
  "reading m w f = (case m of Inl e \<Rightarrow> (w, Some e) | Inr x \<Rightarrow> f x)"

definition handled :: "calMgr \<Rightarrow> calResult" where
  "handled w = (w, None)"

definition in_the_past :: "calEnv \<Rightarrow> u32 \<Rightarrow> bool" where
  "in_the_past E t \<longleftrightarrow> uint t < envNow E - 86400"

section \<open>Events\<close>

definition HandleCalendarGetEvent :: "calEnv \<Rightarrow> calSession \<Rightarrow> byteBuffer \<Rightarrow> calMgr \<Rightarrow> calResult" where
  "HandleCalendarGetEvent E me b w =
     reading (bb_get b) w (\<lambda>(eventId :: u64, b).
       handled (case GetEvent eventId w of
           Some e \<Rightarrow> SendCalendarEvent E (csGuid me) e CALENDAR_SENDTYPE_GET w
         | None \<Rightarrow> SendCalendarCommandResult E (csGuid me) CALENDAR_ERROR_EVENT_INVALID '''' w))"

text \<open>The fields that adding and updating an event have in common, from the title on.\<close>

record eventFields =
  efTitle :: string
  efDescription :: string
  efType :: u8
  efDungeonId :: u32
  efEventTime :: u32
  efTimeZone :: u32
  efFlags :: u32

definition read_event_fields :: "calEnv \<Rightarrow> byteBuffer \<Rightarrow> (eventFields \<times> byteBuffer) bb" where
  "read_event_fields E b =
     bindE (bb_read_string b) (\<lambda>(title, b).
     bindE (bb_read_string b) (\<lambda>(description, b).
     bindE (bb_get b) (\<lambda>(typ :: u8, b).
     bindE (bb_get b) (\<lambda>(repeatable :: u8, b).
     bindE (bb_get b) (\<lambda>(maxInvites :: u32, b).
     bindE (bb_get b) (\<lambda>(dungeonId :: u32, b).
     bindE (bb_ReadPackedTime (envMktime E) b) (\<lambda>(eventPackedTime, b).
     bindE (bb_ReadPackedTime (envMktime E) b) (\<lambda>(unkPackedTime, b).
     bindE (bb_get b) (\<lambda>(flags :: u32, b).
       Inr (\<lparr>efTitle = title, efDescription = description, efType = typ, efDungeonId = dungeonId,
             efEventTime = eventPackedTime, efTimeZone = unkPackedTime, efFlags = flags\<rparr>, b))))))))))"

text \<open>The loop that reads \<^verbatim>\<open>inviteCount\<close> invitees, at most a hundred, with status and rank.\<close>

fun read_invitees :: "nat \<Rightarrow> byteBuffer \<Rightarrow> ((u64 \<times> u8 \<times> u8) list \<times> byteBuffer) bb" where
  "read_invitees 0 b = Inr ([], b)"
| "read_invitees (Suc n) b =
     bindE (bb_read_packGUID b) (\<lambda>(invitee, b).
     bindE (bb_get b) (\<lambda>(status :: u8, b).
     bindE (bb_get b) (\<lambda>(rank :: u8, b).
     bindE (read_invitees n b) (\<lambda>(rest, b).
       Inr ((invitee, status, rank) # rest, b)))))"

definition MaxPlayerInvites :: nat where
  "MaxPlayerInvites = 100"

definition read_invite_list :: "byteBuffer \<Rightarrow> ((u64 \<times> u8 \<times> u8) list \<times> byteBuffer) bb" where
  "read_invite_list b =
     bindE (bb_get b) (\<lambda>(inviteCount :: u32, b). read_invitees (min (unat inviteCount) MaxPlayerInvites) b)"

text \<open>946684800 is the default response time.\<close>

definition invite_listed :: "calEnv \<Rightarrow> u64 \<Rightarrow> calEvent \<Rightarrow> u64 \<times> u8 \<times> u8 \<Rightarrow> calMgr \<Rightarrow> calMgr" where
  "invite_listed E guid e x w =
     (let (invitee, status, rank) = x;
          (i, w) = GetFreeInviteId w
      in CalendarMgr_AddInvite E e (CalendarInvite_new i (ceEventId e) invitee guid 946684800 (ucast status) (ucast rank) '''') w)"

definition HandleCalendarAddEvent :: "calEnv \<Rightarrow> calSession \<Rightarrow> byteBuffer \<Rightarrow> calMgr \<Rightarrow> calResult" where
  "HandleCalendarAddEvent E me b w =
     reading (read_event_fields E b) w (\<lambda>(f, b).
       if in_the_past E (efEventTime f) then handled w
       else
         let guid = csGuid me;
             (i, w) = GetFreeEventId w;
             e = CalendarEvent_new i guid 0 (ucast (efType f)) (efDungeonId f) (uint (efEventTime f)) (efFlags f)
                   (uint (efTimeZone f)) (efTitle f) (efDescription f);
             e = (if IsGuildEvent e \<or> IsGuildAnnouncement e
                  then case envPlayer E guid of Some (level, guildId) \<Rightarrow> e\<lparr>ceGuildId := guildId\<rparr> | None \<Rightarrow> e
                  else e)
         in if IsGuildAnnouncement e
            then handled (AddEvent E e CALENDAR_SENDTYPE_ADD
                   (CalendarMgr_AddInvite E e (CalendarInvite_new 0 i 0 guid 946684800 CALENDAR_STATUS_NOT_SIGNED_UP
                      CALENDAR_RANK_PLAYER '''') w))
            else case read_invite_list b of
                   Inl err \<Rightarrow> (FreeEventId i w, Some err)
                 | Inr (xs, b) \<Rightarrow>
                     handled (AddEvent E e CALENDAR_SENDTYPE_ADD (fold (invite_listed E guid e) xs w)))"

text \<open>
  Writing through the pointer that \<^const>\<open>GetEvent\<close> or \<^const>\<open>GetInvite\<close> gave: the first event, the
  first invite with the id in the order of the table.
\<close>

fun upd_event :: "u64 \<Rightarrow> (calEvent \<Rightarrow> calEvent) \<Rightarrow> calEvent list \<Rightarrow> calEvent list" where
  "upd_event eventId f [] = []"
| "upd_event eventId f (e # es) = (if ceEventId e = eventId then f e # es else e # upd_event eventId f es)"

fun upd_invite :: "u64 \<Rightarrow> (calInvite \<Rightarrow> calInvite) \<Rightarrow> calInvite list \<Rightarrow> calInvite list" where
  "upd_invite inviteId f [] = []"
| "upd_invite inviteId f (v # vs) = (if ciInviteId v = inviteId then f v # vs else v # upd_invite inviteId f vs)"

fun upd_invites :: "u64 \<Rightarrow> (calInvite \<Rightarrow> calInvite) \<Rightarrow> (u64 \<times> calInvite list) list \<Rightarrow> (u64 \<times> calInvite list) list" where
  "upd_invites inviteId f [] = []"
| "upd_invites inviteId f ((k, vs) # kvs) =
     (if \<exists>v\<in>set vs. ciInviteId v = inviteId then (k, upd_invite inviteId f vs) # kvs
      else (k, vs) # upd_invites inviteId f kvs)"

definition HandleCalendarUpdateEvent :: "calEnv \<Rightarrow> calSession \<Rightarrow> byteBuffer \<Rightarrow> calMgr \<Rightarrow> calResult" where
  "HandleCalendarUpdateEvent E me b w =
     reading (bb_get b) w (\<lambda>(eventId :: u64, b).
     reading (bb_get b) w (\<lambda>(inviteId :: u64, b).
     reading (read_event_fields E b) w (\<lambda>(f, b).
       if in_the_past E (efEventTime f) then handled w
       else case GetEvent eventId w of
         Some old \<Rightarrow>
           (let oldEventTime = ceEventTime old;
                e = old\<lparr>ceType := ucast (efType f), ceFlags := efFlags f, ceEventTime := uint (efEventTime f),
                        ceTimeZone := uint (efTimeZone f), ceDungeonId := efDungeonId f, ceTitle := efTitle f,
                        ceDescription := efDescription f\<rparr>;
                w = w\<lparr>cmEvents := upd_event eventId (\<lambda>_. e) (cmEvents w)\<rparr>
            in handled (SendCalendarEventUpdateAlert E e oldEventTime (UpdateEvent e w)))
       | None \<Rightarrow> handled (SendCalendarCommandResult E (csGuid me) CALENDAR_ERROR_EVENT_INVALID '''' w))))"

definition HandleCalendarRemoveEvent :: "calEnv \<Rightarrow> calSession \<Rightarrow> byteBuffer \<Rightarrow> calMgr \<Rightarrow> calResult" where
  "HandleCalendarRemoveEvent E me b w =
     reading (bb_get b) w (\<lambda>(eventId :: u64, b). handled (snd (RemoveEvent E eventId (csGuid me) w)))"

definition copy_invite :: "calEnv \<Rightarrow> calEvent \<Rightarrow> calInvite \<Rightarrow> calMgr \<Rightarrow> calMgr" where
  "copy_invite E newEvent v w =
     (let (i, w) = GetFreeInviteId w in CalendarMgr_AddInvite E newEvent (CalendarInvite_copy v i (ceEventId newEvent)) w)"

definition HandleCalendarCopyEvent :: "calEnv \<Rightarrow> calSession \<Rightarrow> byteBuffer \<Rightarrow> calMgr \<Rightarrow> calResult" where
  "HandleCalendarCopyEvent E me b w =
     reading (bb_get b) w (\<lambda>(eventId :: u64, b).
     reading (bb_get b) w (\<lambda>(inviteId :: u64, b).
     reading (bb_ReadPackedTime (envMktime E) b) w (\<lambda>(eventTime, b).
       if in_the_past E eventTime then handled w
       else case GetEvent eventId w of
         Some oldEvent \<Rightarrow>
           (let (i, w) = GetFreeEventId w;
                newEvent = (CalendarEvent_copy oldEvent i)\<lparr>ceEventTime := uint eventTime\<rparr>;
                w = AddEvent E newEvent CALENDAR_SENDTYPE_COPY w;
                (invites, w) = GetEventInvites E eventId w
            in handled (fold (copy_invite E newEvent) invites w))
       | None \<Rightarrow> handled (SendCalendarCommandResult E (csGuid me) CALENDAR_ERROR_EVENT_INVALID '''' w))))"

section \<open>Invites\<close>

text \<open>The invitee by name, online or from the global data: guid, team and guild.\<close>

definition find_invitee :: "calEnv \<Rightarrow> string \<Rightarrow> (u64 \<times> u32 \<times> u32) option" where
  "find_invitee E name =
     (case envByName E name of
        Some p \<Rightarrow> Some p
      | None \<Rightarrow>
          (let guidLow = envGlobalGuid E name
           in if guidLow = 0 then None
              else case envGlobalData E guidLow of
                     None \<Rightarrow> None
                   | Some (race, guildId) \<Rightarrow> Some (MAKE_NEW_GUID guidLow 0 HIGHGUID_PLAYER, envTeamOfRace E race, guildId)))"

definition SOCIAL_FLAG_IGNORED :: u8 where "SOCIAL_FLAG_IGNORED = 0x02"

definition event_invite :: "calEnv \<Rightarrow> calSession \<Rightarrow> u64 \<Rightarrow> u64 \<Rightarrow> string \<Rightarrow> bool \<Rightarrow> bool \<Rightarrow> calMgr \<Rightarrow> calMgr" where
  "event_invite E me eventId inviteId name isPreInvite isGuildEvent w =
     (let playerGuid = csGuid me;
          res = (\<lambda>err. SendCalendarCommandResult E playerGuid err name w)
      in case find_invitee E name of
           None \<Rightarrow> res CALENDAR_ERROR_PLAYER_NOT_FOUND
         | Some (inviteeGuid, inviteeTeamId, inviteeGuildId) \<Rightarrow>
             if inviteeGuid = 0 then res CALENDAR_ERROR_PLAYER_NOT_FOUND
             else if csTeam me \<noteq> inviteeTeamId \<and> \<not> envTwoSide E then res CALENDAR_ERROR_NOT_ALLIED
             else if (case envSocialFlags E inviteeGuid playerGuid of
                        Some fl \<Rightarrow> fl AND SOCIAL_FLAG_IGNORED \<noteq> 0 | None \<Rightarrow> False)
             then res CALENDAR_ERROR_IGNORING_YOU_S
             else if \<not> isPreInvite
             then case GetEvent eventId w of
                    Some e \<Rightarrow>
                      if IsGuildEvent e \<and> ceGuildId e = inviteeGuildId then res CALENDAR_ERROR_NO_GUILD_INVITES
                      else let (i, w) = GetFreeInviteId w
                           in CalendarMgr_AddInvite E e (CalendarInvite_new i eventId inviteeGuid playerGuid 946684800
                                CALENDAR_STATUS_INVITED CALENDAR_RANK_PLAYER '''') w
                  | None \<Rightarrow> res CALENDAR_ERROR_EVENT_INVALID
             else if isGuildEvent \<and> inviteeGuildId = csGuild me then res CALENDAR_ERROR_NO_GUILD_INVITES
             else SendCalendarEventInvite E (CalendarInvite_new inviteId 0 inviteeGuid playerGuid 946684800
                    CALENDAR_STATUS_INVITED CALENDAR_RANK_PLAYER '''') w)"

definition HandleCalendarEventInvite :: "calEnv \<Rightarrow> calSession \<Rightarrow> byteBuffer \<Rightarrow> calMgr \<Rightarrow> calResult" where
  "HandleCalendarEventInvite E me b w =
     reading (bb_get b) w (\<lambda>(eventId :: u64, b).
     reading (bb_get b) w (\<lambda>(inviteId :: u64, b).
     reading (bb_read_string b) w (\<lambda>(name, b).
     reading (bb_read_bool b) w (\<lambda>(isPreInvite, b).
     reading (bb_read_bool b) w (\<lambda>(isGuildEvent, b).
       handled (event_invite E me eventId inviteId name isPreInvite isGuildEvent w))))))"

definition event_signup :: "calEnv \<Rightarrow> calSession \<Rightarrow> u64 \<Rightarrow> bool \<Rightarrow> calMgr \<Rightarrow> calMgr" where
  "event_signup E me eventId tentative w =
     (let guid = csGuid me
      in case GetEvent eventId w of
           Some e \<Rightarrow>
             (if IsGuildEvent e \<and> ceGuildId e \<noteq> csGuild me
              then SendCalendarCommandResult E guid CALENDAR_ERROR_GUILD_PLAYER_NOT_IN_GUILD '''' w
              else let status = (if tentative then CALENDAR_STATUS_TENTATIVE else CALENDAR_STATUS_SIGNED_UP);
                       (i, w) = GetFreeInviteId w;
                       w = CalendarMgr_AddInvite E e (CalendarInvite_new i eventId guid guid (envNow E) status CALENDAR_RANK_PLAYER '''') w
                   in SendCalendarClearPendingAction E guid w)
         | None \<Rightarrow> SendCalendarCommandResult E guid CALENDAR_ERROR_EVENT_INVALID '''' w)"

definition HandleCalendarEventSignup :: "calEnv \<Rightarrow> calSession \<Rightarrow> byteBuffer \<Rightarrow> calMgr \<Rightarrow> calResult" where
  "HandleCalendarEventSignup E me b w =
     reading (bb_get b) w (\<lambda>(eventId :: u64, b).
     reading (bb_read_bool b) w (\<lambda>(tentative, b). handled (event_signup E me eventId tentative w)))"

definition write_invite :: "u64 \<Rightarrow> (calInvite \<Rightarrow> calInvite) \<Rightarrow> calMgr \<Rightarrow> calMgr" where
  "write_invite inviteId f w = w\<lparr>cmInvites := upd_invites inviteId f (cmInvites w)\<rparr>"

definition event_rsvp :: "calEnv \<Rightarrow> calSession \<Rightarrow> u64 \<Rightarrow> u64 \<Rightarrow> u32 \<Rightarrow> calMgr \<Rightarrow> calMgr" where
  "event_rsvp E me eventId inviteId status w =
     (let guid = csGuid me
      in case GetEvent eventId w of
           Some e \<Rightarrow>
             if status \<noteq> CALENDAR_STATUS_REMOVED \<and> ceFlags e AND CALENDAR_FLAG_INVITES_LOCKED \<noteq> 0
             then SendCalendarCommandResult E guid CALENDAR_ERROR_EVENT_LOCKED '''' w
             else (case GetInvite inviteId w of
                 Some v \<Rightarrow>
                   (let v = v\<lparr>ciStatus := status, ciStatusTime := envNow E\<rparr>;
                        w = write_invite inviteId (\<lambda>_. v) w;
                        w = UpdateInvite v w;
                        w = SendCalendarEventStatus E e v w
                    in SendCalendarClearPendingAction E guid w)
               | None \<Rightarrow> SendCalendarCommandResult E guid CALENDAR_ERROR_NO_INVITE '''' w)
         | None \<Rightarrow> SendCalendarCommandResult E guid CALENDAR_ERROR_EVENT_INVALID '''' w)"

definition HandleCalendarEventRsvp :: "calEnv \<Rightarrow> calSession \<Rightarrow> byteBuffer \<Rightarrow> calMgr \<Rightarrow> calResult" where
  "HandleCalendarEventRsvp E me b w =
     reading (bb_get b) w (\<lambda>(eventId :: u64, b).
     reading (bb_get b) w (\<lambda>(inviteId :: u64, b).
     reading (bb_get b) w (\<lambda>(status :: u32, b). handled (event_rsvp E me eventId inviteId status w))))"

definition event_remove_invite :: "calEnv \<Rightarrow> calSession \<Rightarrow> u64 \<Rightarrow> u64 \<Rightarrow> u64 \<Rightarrow> calMgr \<Rightarrow> calMgr" where
  "event_remove_invite E me invitee inviteId eventId w =
     (case GetEvent eventId w of
        Some e \<Rightarrow>
          (if ceCreator e = invitee then SendCalendarCommandResult E (csGuid me) CALENDAR_ERROR_DELETE_CREATOR_FAILED '''' w
           else CalendarMgr_RemoveInvite E inviteId eventId (csGuid me) w)
      | None \<Rightarrow> SendCalendarCommandResult E (csGuid me) CALENDAR_ERROR_NO_INVITE '''' w)"

definition HandleCalendarEventRemoveInvite :: "calEnv \<Rightarrow> calSession \<Rightarrow> byteBuffer \<Rightarrow> calMgr \<Rightarrow> calResult" where
  "HandleCalendarEventRemoveInvite E me b w =
     reading (bb_read_packGUID b) w (\<lambda>(invitee, b).
     reading (bb_get b) w (\<lambda>(inviteId :: u64, b).
     reading (bb_get b) w (\<lambda>(ownerInviteId :: u64, b).
     reading (bb_get b) w (\<lambda>(eventId :: u64, b).
       handled (event_remove_invite E me invitee inviteId eventId w)))))"

definition event_status :: "calEnv \<Rightarrow> calSession \<Rightarrow> u64 \<Rightarrow> u64 \<Rightarrow> u64 \<Rightarrow> u8 \<Rightarrow> calMgr \<Rightarrow> calMgr" where
  "event_status E me invitee eventId inviteId status w =
     (case GetEvent eventId w of
        Some e \<Rightarrow>
          (case GetInvite inviteId w of
             Some v \<Rightarrow>
               (let v = v\<lparr>ciStatus := ucast status\<rparr>;
                    w = write_invite inviteId (\<lambda>_. v) w;
                    w = UpdateInvite v w;
                    w = SendCalendarEventStatus E e v w
                in SendCalendarClearPendingAction E invitee w)
           | None \<Rightarrow> SendCalendarCommandResult E (csGuid me) CALENDAR_ERROR_NO_INVITE '''' w)
      | None \<Rightarrow> SendCalendarCommandResult E (csGuid me) CALENDAR_ERROR_EVENT_INVALID '''' w)"

definition HandleCalendarEventStatus :: "calEnv \<Rightarrow> calSession \<Rightarrow> byteBuffer \<Rightarrow> calMgr \<Rightarrow> calResult" where
  "HandleCalendarEventStatus E me b w =
     reading (bb_read_packGUID b) w (\<lambda>(invitee, b).
     reading (bb_get b) w (\<lambda>(eventId :: u64, b).
     reading (bb_get b) w (\<lambda>(inviteId :: u64, b).
     reading (bb_get b) w (\<lambda>(ownerInviteId :: u64, b).
     reading (bb_get b) w (\<lambda>(status :: u8, b).
       handled (event_status E me invitee eventId inviteId status w))))))"

definition event_moderator_status :: "calEnv \<Rightarrow> calSession \<Rightarrow> u64 \<Rightarrow> u64 \<Rightarrow> u8 \<Rightarrow> calMgr \<Rightarrow> calMgr" where
  "event_moderator_status E me eventId inviteId rank w =
     (case GetEvent eventId w of
        Some e \<Rightarrow>
          (case GetInvite inviteId w of
             Some v \<Rightarrow>
               (let v = v\<lparr>ciRank := ucast rank\<rparr>;
                    w = write_invite inviteId (\<lambda>_. v) w;
                    w = UpdateInvite v w
                in SendCalendarEventModeratorStatusAlert E e v w)
           | None \<Rightarrow> SendCalendarCommandResult E (csGuid me) CALENDAR_ERROR_NO_INVITE '''' w)
      | None \<Rightarrow> SendCalendarCommandResult E (csGuid me) CALENDAR_ERROR_EVENT_INVALID '''' w)"

definition HandleCalendarEventModeratorStatus :: "calEnv \<Rightarrow> calSession \<Rightarrow> byteBuffer \<Rightarrow> calMgr \<Rightarrow> calResult" where
  "HandleCalendarEventModeratorStatus E me b w =
     reading (bb_read_packGUID b) w (\<lambda>(invitee, b).
     reading (bb_get b) w (\<lambda>(eventId :: u64, b).
     reading (bb_get b) w (\<lambda>(inviteId :: u64, b).
     reading (bb_get b) w (\<lambda>(ownerInviteId :: u64, b).
     reading (bb_get b) w (\<lambda>(rank :: u8, b).
       handled (event_moderator_status E me eventId inviteId rank w))))))"

definition HandleCalendarGetNumPending :: "calSession \<Rightarrow> calMgr \<Rightarrow> calMgr" where
  "HandleCalendarGetNumPending me w =
     ceff (CalSend (csGuid me) SMSG_CALENDAR_SEND_NUM_PENDING [C32 (GetPlayerNumPending (csGuid me) w)]) w"

end
