(* ===== verification/CalendarInv.thy ===== *)
theory CalendarInv
  imports CalendarHandlers "HOL-Library.Multiset"
begin

text \<open>
  What the calendar keeps: an id is free, held by a handler or the id of one stored object, and
  never two of these; every invite lies under its event's id; and the statements issued so far
  have made the two tables hold exactly the rows of the objects in memory.
\<close>

section \<open>Id sources\<close>

definition id_pool :: "u64 \<Rightarrow> u64 list \<Rightarrow> u64 multiset \<Rightarrow> bool" where
  "id_pool mx fr live \<longleftrightarrow> distinct fr \<and> (\<forall>x. count live x \<le> 1) \<and> set fr \<inter> set_mset live = {} \<and>
     (\<forall>x\<in>set fr \<union> set_mset live. 0 < x \<and> x \<le> mx)"

lemma count_add_le_1: "(\<forall>x. count (add_mset i M) x \<le> 1) \<longleftrightarrow> (\<forall>x. count M x \<le> 1) \<and> i \<notin># M"
proof (intro iffI conjI allI)
  assume l: "\<forall>x. count (add_mset i M) x \<le> 1"
  show "count M x \<le> 1" for x using spec [OF l, of x] by (simp split: if_splits)
  show "i \<notin># M" using spec [OF l, of i] by (simp add: not_in_iff)
next
  show "count (add_mset i M) x \<le> 1" if "(\<forall>x. count M x \<le> 1) \<and> i \<notin># M" for x
    using that by (auto simp: not_in_iff)
qed

lemma id_pool_add:
  "id_pool mx fr (add_mset i live) \<longleftrightarrow> id_pool mx fr live \<and> i \<notin> set fr \<and> i \<notin># live \<and> 0 < i \<and> i \<le> mx"
  unfolding id_pool_def count_add_le_1 by auto

lemma id_pool_Cons:
  "id_pool mx (i # fr) live \<longleftrightarrow> id_pool mx fr live \<and> i \<notin> set fr \<and> i \<notin># live \<and> 0 < i \<and> i \<le> mx"
  unfolding id_pool_def by auto

lemma id_pool_snoc: "id_pool mx (fr @ [i]) live \<longleftrightarrow> id_pool mx (i # fr) live"
  unfolding id_pool_def by auto

lemma id_pool_bound: "id_pool mx fr live \<Longrightarrow> x \<in># live \<Longrightarrow> x \<le> mx"
  by (simp add: id_pool_def)

lemma id_pool_mono: "id_pool mx fr live \<Longrightarrow> (\<And>x. x \<in> set fr \<union> set_mset live \<Longrightarrow> x \<le> mx') \<Longrightarrow> id_pool mx' fr live"
  by (simp add: id_pool_def)

lemma word_le_pred:
  fixes x m :: "'a::len word"
  assumes "x \<le> m" "x \<noteq> m"
  shows "x \<le> m - 1"
proof -
  from assms have lt: "x < m" by simp
  then have "m \<noteq> 0" by auto
  then have "unat (m - 1) = unat m - 1" by (simp add: unat_minus_one)
  with lt show ?thesis by (simp add: word_le_nat_alt word_less_nat_alt)
qed

lemma word_less_suc:
  fixes x m :: "'a::len word"
  assumes "x \<le> m" "m + 1 \<noteq> 0"
  shows "x < m + 1"
proof -
  have "unat (m + 1) = Suc (unat m)" using assms(2) unatSuc by (metis add.commute)
  with assms(1) show ?thesis by (simp add: word_less_nat_alt word_le_nat_alt)
qed

locale id_source =
  fixes mx :: "'s \<Rightarrow> u64" and fr :: "'s \<Rightarrow> u64 list"
    and get :: "'s \<Rightarrow> u64 \<times> 's" and give :: "u64 \<Rightarrow> 's \<Rightarrow> 's"
  assumes get_new: "fr s = [] \<Longrightarrow> fst (get s) = mx s + 1 \<and> mx (snd (get s)) = mx s + 1 \<and> fr (snd (get s)) = []"
    and get_old: "fr s = i # rest \<Longrightarrow> fst (get s) = i \<and> mx (snd (get s)) = mx s \<and> fr (snd (get s)) = rest"
    and give_top: "mx (give (mx s) s) = mx s - 1 \<and> fr (give (mx s) s) = fr s"
    and give_other: "i \<noteq> mx s \<Longrightarrow> mx (give i s) = mx s \<and> fr (give i s) = fr s @ [i]"
begin

lemma get_pool:
  assumes pool: "id_pool (mx s) (fr s) live" and room: "mx s + 1 \<noteq> 0"
  shows "id_pool (mx (snd (get s))) (fr (snd (get s))) (add_mset (fst (get s)) live)"
proof (cases "fr s")
  case Nil
  have less: "x \<in># live \<Longrightarrow> x < mx s + 1" for x
    using pool word_less_suc [OF _ room] by (auto simp: id_pool_def)
  have "id_pool (mx s + 1) [] live"
    by (rule id_pool_mono [OF pool [unfolded Nil]]) (auto dest: less)
  moreover have "0 < mx s + 1" using room by (simp add: word_neq_0_conv)
  ultimately show ?thesis using get_new [OF Nil] less by (auto simp: id_pool_add)
next
  case (Cons i rest)
  then show ?thesis using pool get_old [OF Cons] by (simp add: id_pool_add id_pool_Cons)
qed

lemma get_fresh:
  assumes "id_pool (mx s) (fr s) live" and "mx s + 1 \<noteq> 0"
  shows "fst (get s) \<notin># live" "fst (get s) \<noteq> 0"
  using get_pool [OF assms] by (auto simp: id_pool_add)

lemma give_pool:
  assumes "id_pool (mx s) (fr s) (add_mset i live)"
  shows "id_pool (mx (give i s)) (fr (give i s)) live"
proof (cases "i = mx s")
  case True
  have "x \<le> mx s - 1" if "x \<in> set (fr s) \<union> set_mset live" for x
    using assms that id_pool_bound [of "mx s" "fr s" live x]
    by (intro word_le_pred) (auto simp: id_pool_add True, auto simp: id_pool_def)
  then show ?thesis
    using assms give_top [of s] True by (auto simp: id_pool_add intro: id_pool_mono)
next
  case False
  then show ?thesis using assms give_other by (simp add: id_pool_add id_pool_snoc id_pool_Cons)
qed

lemma get_room: "mx (snd (get s)) = mx s \<or> mx (snd (get s)) = mx s + 1"
  using get_new get_old by (cases "fr s") auto

end

interpretation eventIds: id_source cmMaxEvent cmFreeEvents GetFreeEventId FreeEventId
  by unfold_locales (auto simp: GetFreeEventId_def FreeEventId_def)

interpretation inviteIds: id_source cmMaxInvite cmFreeInvites GetFreeInviteId FreeInviteId
  by unfold_locales (auto simp: GetFreeInviteId_def FreeInviteId_def)

section \<open>Tables\<close>

type_synonym calTables = "(u64 \<rightharpoonup> eventRow) \<times> (u64 \<rightharpoonup> inviteRow)"

fun run_stmt :: "calStmt \<Rightarrow> calTables \<Rightarrow> calTables" where
  "run_stmt (RepEvent r) (evs, ins) = (evs(erId r \<mapsto> r), ins)"
| "run_stmt (DelEvent i) (evs, ins) = (evs(i := None), ins)"
| "run_stmt (RepInvite r) (evs, ins) = (evs, ins(irId r \<mapsto> r))"
| "run_stmt (DelInvite i) (evs, ins) = (evs, ins(i := None))"

fun run_effect :: "calEffect \<Rightarrow> calTables \<Rightarrow> calTables" where
  "run_effect (CalSql s) t = run_stmt s t"
| "run_effect e t = t"

definition run_effects :: "calEffect list \<Rightarrow> calTables \<Rightarrow> calTables" where
  "run_effects es t = fold run_effect es t"

lemma run_effects_snoc: "run_effects (es @ [e]) t = run_effect e (run_effects es t)"
  by (simp add: run_effects_def)

lemma run_stmt_simps:
  "fst (run_stmt (RepEvent r) t) = (fst t)(erId r \<mapsto> r)" "snd (run_stmt (RepEvent r) t) = snd t"
  "fst (run_stmt (DelEvent i) t) = (fst t)(i := None)" "snd (run_stmt (DelEvent i) t) = snd t"
  "fst (run_stmt (RepInvite v) t) = fst t" "snd (run_stmt (RepInvite v) t) = (snd t)(irId v \<mapsto> v)"
  "fst (run_stmt (DelInvite i) t) = fst t" "snd (run_stmt (DelInvite i) t) = (snd t)(i := None)"
  by (cases t, simp)+

section \<open>Steps that only tell\<close>

definition keyed :: "(u64 \<times> calInvite list) list \<Rightarrow> bool" where
  "keyed m \<longleftrightarrow> wf_store m \<and> (\<forall>(k, vs)\<in>set m. \<forall>v\<in>set vs. ciEventId v = k)"

definition store_mset :: "(u64 \<times> calInvite list) list \<Rightarrow> calInvite multiset" where
  "store_mset m = (\<Sum>\<^sub># (image_mset (mset \<circ> snd) (mset m)))"

lemma mset_all_invites: "mset (all_invites w) = store_mset (cmInvites w)"
proof -
  have "mset (concat (map snd m)) = store_mset m" for m
    by (induction m) (simp_all add: store_mset_def)
  then show ?thesis by (simp add: all_invites_def)
qed

lemma set_all_invites: "set (all_invites w) = set_mset (store_mset (cmInvites w))"
  by (metis mset_all_invites set_mset_mset)

fun is_mail :: "calEffect \<Rightarrow> bool" where
  "is_mail (CalMail subj body receiver) = True"
| "is_mail e = False"

definition mails :: "calMgr \<Rightarrow> calEffect list" where
  "mails w = filter is_mail (cmOut w)"

definition cal_quiet :: "calMgr \<Rightarrow> calMgr \<Rightarrow> bool" where
  "cal_quiet w w' \<longleftrightarrow> cmEvents w' = cmEvents w \<and> cmFreeEvents w' = cmFreeEvents w \<and> cmMaxEvent w' = cmMaxEvent w \<and>
     cmFreeInvites w' = cmFreeInvites w \<and> cmMaxInvite w' = cmMaxInvite w \<and>
     store_mset (cmInvites w') = store_mset (cmInvites w) \<and> (keyed (cmInvites w) \<longrightarrow> keyed (cmInvites w')) \<and>
     (\<forall>T. run_effects (cmOut w') T = run_effects (cmOut w) T) \<and> mails w' = mails w"

named_theorems cal_quiet_intros

lemma cal_quiet_refl [cal_quiet_intros, simp]: "cal_quiet w w"
  by (simp add: cal_quiet_def)

lemma cal_quiet_trans: "cal_quiet w w' \<Longrightarrow> cal_quiet w' w'' \<Longrightarrow> cal_quiet w w''"
  by (simp add: cal_quiet_def)

lemma quiet_tell [cal_quiet_intros, simp]:
  "cal_quiet w (ceff (CalSend guid opcode fs) w)" "cal_quiet w (ceff (CalGuild g opcode fs) w)"
  by (simp_all add: cal_quiet_def ceff_def run_effects_snoc mails_def)

lemma cal_quiet_fold:
  assumes "\<And>v w. v \<in> set vs \<Longrightarrow> cal_quiet w (f v w)"
  shows "cal_quiet w (fold f vs w)"
  using assms by (induction vs arbitrary: w) (auto intro: cal_quiet_trans)

lemma keyed_perm: "mset m = mset m' \<Longrightarrow> keyed m = keyed m'"
  unfolding keyed_def using mset_eq_imp_distinct_iff [of "map fst m" "map fst m'"] mset_eq_setD [of m m'] by simp

lemma cal_quiet_invites_at [cal_quiet_intros]: "hash_env E \<Longrightarrow> cal_quiet w (snd (invites_at E k w))"
proof (cases "map_of (cmInvites w) k")
  case None
  assume h: "hash_env E"
  have perm: "mset (envInviteOrder E (cmInvites w @ [(k, [])])) = mset (cmInvites w @ [(k, [])])"
    using h by (simp add: hash_env_def)
  have "keyed (cmInvites w) \<Longrightarrow> keyed (cmInvites w @ [(k, [])])"
    using None by (auto simp: keyed_def map_of_eq_None_iff)
  then show ?thesis
    using keyed_perm [OF perm] by (simp add: cal_quiet_def invites_at_def None store_mset_def perm mails_def)
qed (simp add: invites_at_def)

lemma cal_quiet_send [cal_quiet_intros, simp]: "cal_quiet w (send_to E guid opcode fs w)" "cal_quiet w (send_guild E g opcode fs w)"
  by (simp_all add: send_to_def send_guild_def)

lemma quiet_relatives [cal_quiet_intros]: "hash_env E \<Longrightarrow> cal_quiet w (SendPacketToAllEventRelatives E opcode fs e w)"
  unfolding SendPacketToAllEventRelatives_def Let_def split_def
  by (rule cal_quiet_trans [rotated], rule cal_quiet_fold)
    (auto intro!: cal_quiet_intros cal_quiet_trans [OF cal_quiet_send(2) cal_quiet_invites_at] split: option.split)

lemmas calendar_sends = SendCalendarEventUpdateAlert_def SendCalendarEventStatus_def SendCalendarEventRemovedAlert_def
  SendCalendarEventInviteRemove_def SendCalendarEventModeratorStatusAlert_def SendCalendarEventInviteAlert_def
  SendCalendarEventInviteRemoveAlert_def SendCalendarClearPendingAction_def SendCalendarCommandResult_def

lemma cal_quiet_sends [cal_quiet_intros]:
  assumes "hash_env E"
  shows "cal_quiet w (SendCalendarEventInvite E v w)" "cal_quiet w (SendCalendarEventUpdateAlert E e old w)"
    "cal_quiet w (SendCalendarEventStatus E e v w)" "cal_quiet w (SendCalendarEventRemovedAlert E e w)"
    "cal_quiet w (SendCalendarEventInviteRemove E e v fl w)" "cal_quiet w (SendCalendarEventModeratorStatusAlert E e v w)"
    "cal_quiet w (SendCalendarEventInviteAlert E e v w)" "cal_quiet w (SendCalendarEvent E guid e st w)"
    "cal_quiet w (SendCalendarEventInviteRemoveAlert E guid e status w)" "cal_quiet w (SendCalendarClearPendingAction E guid w)"
    "cal_quiet w (SendCalendarCommandResult E guid err param w)"
  using assms
  by (auto simp: calendar_sends SendCalendarEventInvite_def SendCalendarEvent_def Let_def split_def
      split: option.split intro: cal_quiet_intros cal_quiet_trans [OF cal_quiet_invites_at])

end
