(* ===== verification/CalendarGood.thy ===== *)
theory CalendarGood
  imports CalendarInv
begin

text \<open>
  The invariant of the calendar with the ids that a running handler holds; taking ids, adding
  events and adding invites keep it.
\<close>

definition ev_tab :: "calEvent set \<Rightarrow> (u64 \<times> eventRow) set" where
  "ev_tab S = (\<lambda>e. (ceEventId e, event_row e)) ` S"

definition inv_tab :: "calInvite set \<Rightarrow> (u64 \<times> inviteRow) set" where
  "inv_tab S = (\<lambda>v. (ciInviteId v, invite_row v)) ` S"

definition event_ids :: "calMgr \<Rightarrow> u64 multiset" where
  "event_ids w = image_mset ceEventId (mset (cmEvents w))"

definition invite_ids :: "calMgr \<Rightarrow> u64 multiset" where
  "invite_ids w = image_mset ciInviteId (store_mset (cmInvites w))"

definition cal_good :: "calTables \<Rightarrow> u64 multiset \<Rightarrow> u64 multiset \<Rightarrow> calMgr \<Rightarrow> bool" where
  "cal_good T hE hI w \<longleftrightarrow> keyed (cmInvites w) \<and>
     id_pool (cmMaxEvent w) (cmFreeEvents w) (hE + event_ids w) \<and>
     id_pool (cmMaxInvite w) (cmFreeInvites w) (hI + invite_ids w) \<and>
     Map.graph (fst (run_effects (cmOut w) T)) = ev_tab (set (cmEvents w)) \<and>
     Map.graph (snd (run_effects (cmOut w) T)) = inv_tab (set_mset (store_mset (cmInvites w)))"

definition roomy :: "nat \<Rightarrow> calMgr \<Rightarrow> bool" where
  "roomy n w \<longleftrightarrow> unat (cmMaxEvent w) + n < 2 ^ 64 \<and> unat (cmMaxInvite w) + n < 2 ^ 64"

lemma cal_good_quiet: "cal_quiet w w' \<Longrightarrow> cal_good T hE hI w \<Longrightarrow> cal_good T hE hI w'"
  by (cases T) (simp add: cal_quiet_def cal_good_def event_ids_def invite_ids_def)

lemma roomy_quiet: "cal_quiet w w' \<Longrightarrow> roomy n w \<Longrightarrow> roomy n w'"
  by (simp add: cal_quiet_def roomy_def)

lemma roomy_le: "roomy m w \<Longrightarrow> n \<le> m \<Longrightarrow> roomy n w"
  by (simp add: roomy_def)

lemma suc_room: "unat (m :: u64) + Suc n < 2 ^ 64 \<Longrightarrow> m + 1 \<noteq> 0"
proof
  assume l: "unat m + Suc n < 2 ^ 64" and z: "m + 1 = 0"
  have "unat (m + 1) = (unat m + 1) mod 2 ^ 64" by (simp add: unat_word_ariths)
  with l z show False by simp
qed

lemma suc_room_unat: "unat (m :: u64) + Suc n < 2 ^ 64 \<Longrightarrow> unat (m + 1) = Suc (unat m)"
  using suc_room unatSuc by (metis add.commute)

section \<open>Ids\<close>

lemma GetFreeEventId_frame:
  "cmEvents (snd (GetFreeEventId w)) = cmEvents w" "cmInvites (snd (GetFreeEventId w)) = cmInvites w"
  "cmFreeInvites (snd (GetFreeEventId w)) = cmFreeInvites w" "cmMaxInvite (snd (GetFreeEventId w)) = cmMaxInvite w"
  "cmOut (snd (GetFreeEventId w)) = cmOut w"
  by (simp_all add: GetFreeEventId_def split: list.split)

lemma GetFreeInviteId_frame:
  "cmEvents (snd (GetFreeInviteId w)) = cmEvents w" "cmInvites (snd (GetFreeInviteId w)) = cmInvites w"
  "cmFreeEvents (snd (GetFreeInviteId w)) = cmFreeEvents w" "cmMaxEvent (snd (GetFreeInviteId w)) = cmMaxEvent w"
  "cmOut (snd (GetFreeInviteId w)) = cmOut w"
  by (simp_all add: GetFreeInviteId_def split: list.split)

lemma FreeEventId_frame [simp]:
  "cmEvents (FreeEventId i w) = cmEvents w" "cmInvites (FreeEventId i w) = cmInvites w"
  "cmFreeInvites (FreeEventId i w) = cmFreeInvites w" "cmMaxInvite (FreeEventId i w) = cmMaxInvite w"
  "cmOut (FreeEventId i w) = cmOut w"
  by (simp_all add: FreeEventId_def)

lemma FreeInviteId_frame [simp]:
  "cmEvents (FreeInviteId i w) = cmEvents w" "cmInvites (FreeInviteId i w) = cmInvites w"
  "cmFreeEvents (FreeInviteId i w) = cmFreeEvents w" "cmMaxEvent (FreeInviteId i w) = cmMaxEvent w"
  "cmOut (FreeInviteId i w) = cmOut w"
  by (simp_all add: FreeInviteId_def)

lemma good_event_id:
  assumes "cal_good T hE hI w" and "roomy (Suc n) w" and "GetFreeEventId w = (i, w')"
  shows "cal_good T (add_mset i hE) hI w'" "roomy n w'" "i \<notin># event_ids w"
proof -
  have w': "w' = snd (GetFreeEventId w)" "i = fst (GetFreeEventId w)" using assms(3) by simp_all
  have room: "cmMaxEvent w + 1 \<noteq> 0" using assms(2) suc_room by (auto simp: roomy_def)
  have pool: "id_pool (cmMaxEvent w) (cmFreeEvents w) (hE + event_ids w)" using assms(1) by (simp add: cal_good_def)
  show "cal_good T (add_mset i hE) hI w'"
    using eventIds.get_pool [OF pool room] assms(1)
    by (simp add: w' cal_good_def GetFreeEventId_frame event_ids_def invite_ids_def)
  show "roomy n w'"
    using eventIds.get_room [of w] assms(2) suc_room_unat [of "cmMaxEvent w" n]
    by (auto simp: w' roomy_def GetFreeEventId_frame)
  show "i \<notin># event_ids w" using eventIds.get_fresh(1) [OF pool room] by (simp add: w')
qed

lemma good_invite_id:
  assumes "cal_good T hE hI w" and "roomy (Suc n) w" and "GetFreeInviteId w = (i, w')"
  shows "cal_good T hE (add_mset i hI) w'" "roomy n w'" "i \<notin># invite_ids w"
proof -
  have w': "w' = snd (GetFreeInviteId w)" "i = fst (GetFreeInviteId w)" using assms(3) by simp_all
  have room: "cmMaxInvite w + 1 \<noteq> 0" using assms(2) suc_room by (auto simp: roomy_def)
  have pool: "id_pool (cmMaxInvite w) (cmFreeInvites w) (hI + invite_ids w)" using assms(1) by (simp add: cal_good_def)
  show "cal_good T hE (add_mset i hI) w'"
    using inviteIds.get_pool [OF pool room] assms(1)
    by (simp add: w' cal_good_def GetFreeInviteId_frame event_ids_def invite_ids_def)
  show "roomy n w'"
    using inviteIds.get_room [of w] assms(2) suc_room_unat [of "cmMaxInvite w" n]
    by (auto simp: w' roomy_def GetFreeInviteId_frame)
  show "i \<notin># invite_ids w" using inviteIds.get_fresh(1) [OF pool room] by (simp add: w')
qed

lemma good_give_event: "cal_good T (add_mset i hE) hI w \<Longrightarrow> cal_good T hE hI (FreeEventId i w)"
  using eventIds.give_pool [of w i] by (simp add: cal_good_def event_ids_def invite_ids_def)

lemma good_leak: "cal_good T hE (add_mset i hI) w \<Longrightarrow> cal_good T hE hI w"
  by (simp add: cal_good_def id_pool_add)

section \<open>Adding\<close>

lemma tab_insert:
  "ev_tab (insert e S) = insert (ceEventId e, event_row e) (ev_tab S)"
  "inv_tab (insert v V) = insert (ciInviteId v, invite_row v) (inv_tab V)"
  by (simp_all add: ev_tab_def inv_tab_def)

lemma tab_without:
  "{p \<in> ev_tab S. fst p \<noteq> i} = ev_tab {e \<in> S. ceEventId e \<noteq> i}"
  "{p \<in> inv_tab V. fst p \<noteq> i} = inv_tab {v \<in> V. ciInviteId v \<noteq> i}"
proof -
  have "{p \<in> (\<lambda>x. (f x, g x)) ` A. fst p \<noteq> i} = (\<lambda>x. (f x, g x)) ` {x \<in> A. f x \<noteq> i}"
    for f :: "'a \<Rightarrow> u64" and g :: "'a \<Rightarrow> 'b" and A by force
  from this [of ceEventId] show "{p \<in> ev_tab S. fst p \<noteq> i} = ev_tab {e \<in> S. ceEventId e \<noteq> i}"
    unfolding ev_tab_def .
  have "{p \<in> (\<lambda>x. (f x, g x)) ` A. fst p \<noteq> i} = (\<lambda>x. (f x, g x)) ` {x \<in> A. f x \<noteq> i}"
    for f :: "'a \<Rightarrow> u64" and g :: "'a \<Rightarrow> 'b" and A by force
  from this [of ciInviteId] show "{p \<in> inv_tab V. fst p \<noteq> i} = inv_tab {v \<in> V. ciInviteId v \<noteq> i}"
    unfolding inv_tab_def .
qed

lemma erId_row [simp]: "erId (event_row e) = ceEventId e" "irId (invite_row v) = ciInviteId v"
  by (simp_all add: event_row_def invite_row_def)

lemma UpdateEvent_tables:
  "fst (run_effects (cmOut (UpdateEvent e w)) T) = (fst (run_effects (cmOut w) T))(ceEventId e \<mapsto> event_row e)"
  "snd (run_effects (cmOut (UpdateEvent e w)) T) = snd (run_effects (cmOut w) T)"
  by (simp_all add: UpdateEvent_def ceff_def run_effects_snoc run_stmt_simps)

lemma UpdateInvite_tables:
  "snd (run_effects (cmOut (UpdateInvite v w)) T) = (snd (run_effects (cmOut w) T))(ciInviteId v \<mapsto> invite_row v)"
  "fst (run_effects (cmOut (UpdateInvite v w)) T) = fst (run_effects (cmOut w) T)"
  by (simp_all add: UpdateInvite_def ceff_def run_effects_snoc run_stmt_simps)

lemma Update_frame [simp]:
  "cmEvents (UpdateEvent e w) = cmEvents w" "cmInvites (UpdateEvent e w) = cmInvites w"
  "cmFreeEvents (UpdateEvent e w) = cmFreeEvents w" "cmMaxEvent (UpdateEvent e w) = cmMaxEvent w"
  "cmFreeInvites (UpdateEvent e w) = cmFreeInvites w" "cmMaxInvite (UpdateEvent e w) = cmMaxInvite w"
  "cmEvents (UpdateInvite v w) = cmEvents w" "cmInvites (UpdateInvite v w) = cmInvites w"
  "cmFreeEvents (UpdateInvite v w) = cmFreeEvents w" "cmMaxEvent (UpdateInvite v w) = cmMaxEvent w"
  "cmFreeInvites (UpdateInvite v w) = cmFreeInvites w" "cmMaxInvite (UpdateInvite v w) = cmMaxInvite w"
  by (simp_all add: UpdateEvent_def UpdateInvite_def ceff_def)

lemma good_add_event:
  assumes h: "hash_env E" and g: "cal_good T (add_mset (ceEventId e) hE) hI w"
  shows "cal_good T hE hI (AddEvent E e st w)"
proof -
  let ?w = "UpdateEvent e (w\<lparr>cmEvents := envEventOrder E (e # cmEvents w)\<rparr>)"
  have perm: "mset (envEventOrder E (e # cmEvents w)) = add_mset e (mset (cmEvents w))" using h by (simp add: hash_env_def)
  have st: "set (envEventOrder E (e # cmEvents w)) = insert e (set (cmEvents w))" using hash_env_sets [OF h] by simp
  have "ceEventId e \<notin># event_ids w" using g by (auto simp: cal_good_def id_pool_add)
  then have same: "{x \<in> set (cmEvents w). ceEventId x \<noteq> ceEventId e} = set (cmEvents w)" by (auto simp: event_ids_def image_iff)
  have "cal_good T hE hI ?w"
    using g unfolding cal_good_def
    by (simp add: UpdateEvent_tables graph_map_upd graph_fun_upd_None tab_insert tab_without st same event_ids_def
        invite_ids_def perm)
  moreover have "cal_quiet ?w (AddEvent E e st w)" using cal_quiet_sends(8) [OF h] by (simp add: AddEvent_def)
  ultimately show ?thesis by (metis cal_good_quiet)
qed

lemma store_mset_Cons [simp]: "store_mset ((k, vs) # m) = mset vs + store_mset m" "store_mset [] = {#}"
  by (simp_all add: store_mset_def)

text \<open>A change of the vector under one key.\<close>

definition upd_key :: "u64 \<Rightarrow> (calInvite list \<Rightarrow> calInvite list) \<Rightarrow> (u64 \<times> calInvite list) list \<Rightarrow> (u64 \<times> calInvite list) list" where
  "upd_key k g m = map (\<lambda>(k', us). if k' = k then (k', g us) else (k', us)) m"

lemma upd_key_absent: "k \<notin> fst ` set m \<Longrightarrow> upd_key k g m = m"
  by (induction m) (auto simp: upd_key_def)

lemma store_mset_upd_key:
  "wf_store m \<Longrightarrow> map_of m k = Some vs \<Longrightarrow> store_mset (upd_key k g m) + mset vs = store_mset m + mset (g vs)"
proof (induction m)
  case (Cons p m)
  obtain k' us where p: "p = (k', us)" by (cases p)
  show ?case
  proof (cases "k' = k")
    case True
    with Cons.prems upd_key_absent [of k m g] have "upd_key k g (p # m) = (k, g vs) # m"
      by (auto simp: p upd_key_def)
    then show ?thesis using Cons.prems True by (simp add: p)
  next
    case False
    then show ?thesis using Cons by (simp add: p upd_key_def add_ac)
  qed
qed simp

lemma keyed_upd_key:
  assumes "keyed m" and "map_of m k = Some vs" and "\<And>v. v \<in> set (g vs) \<Longrightarrow> ciEventId v = k"
  shows "keyed (upd_key k g m)"
proof -
  have fst_eq: "map fst (upd_key k g m) = map fst m" by (auto simp: upd_key_def)
  have vs: "us = vs" if "(k, us) \<in> set m" for us
    using that assms(1,2) map_of_is_SomeI [of m k us] by (simp add: keyed_def)
  have el: "(k', us) \<in> set m \<and> k' \<noteq> k \<or> k' = k \<and> us = g vs" if "(k', us) \<in> set (upd_key k g m)" for k' us
    using that vs by (auto simp: upd_key_def split: if_splits)
  have "ciEventId v = k'" if "(k', us) \<in> set (upd_key k g m)" "v \<in> set us" for k' us v
    using el [OF that(1)] that(2) assms(1,3) by (auto simp: keyed_def)
  then show ?thesis using assms(1) fst_eq by (auto simp: keyed_def)
qed

lemma keyedD: "keyed m \<Longrightarrow> (k, vs) \<in> set m \<Longrightarrow> v \<in> set vs \<Longrightarrow> ciEventId v = k"
  unfolding keyed_def by blast

lemma invites_at_some:
  assumes "hash_env E" and "keyed (cmInvites w)" and "invites_at E k w = (vs, w')"
  shows "map_of (cmInvites w') k = Some vs" "keyed (cmInvites w')"
proof -
  show kd: "keyed (cmInvites w')" using cal_quiet_invites_at [OF assms(1), of w k] assms(2,3) by (simp add: cal_quiet_def)
  show m: "map_of (cmInvites w') k = Some vs"
  proof (cases "map_of (cmInvites w) k")
    case None
    then have w': "w' = w\<lparr>cmInvites := envInviteOrder E (cmInvites w @ [(k, [])])\<rparr>" "vs = []"
      using assms(3) by (auto simp: invites_at_def)
    have "(k, []) \<in> set (cmInvites w')" using hash_env_sets(2) [OF assms(1)] by (simp add: w')
    then show ?thesis using kd by (simp add: w' keyed_def)
  next
    case (Some us)
    then show ?thesis using assms(3) by (auto simp: invites_at_def)
  qed
qed

lemma store_mset_without:
  "wf_store m \<Longrightarrow> map_of m k = Some vs \<Longrightarrow>
     store_mset (filter (\<lambda>(k', us). k' \<noteq> k) m) + mset vs = store_mset m"
proof (induction m)
  case (Cons p m)
  obtain k' us where p: "p = (k', us)" by (cases p)
  show ?case
  proof (cases "k' = k")
    case True
    then have "filter (\<lambda>(k', us). k' \<noteq> k) m = m"
      using Cons.prems by (auto simp: p filter_id_conv image_iff)
    then show ?thesis using Cons.prems True by (simp add: p)
  next
    case False
    then show ?thesis using Cons by (simp add: p add_ac)
  qed
qed simp

lemma in_store_mset: "v \<in># store_mset m \<longleftrightarrow> (\<exists>(k, vs)\<in>set m. v \<in> set vs)"
  by (induction m) auto

lemma push_invite_store:
  assumes h: "hash_env E" and k: "keyed (cmInvites w)"
  shows "store_mset (cmInvites (push_invite E v w)) = add_mset v (store_mset (cmInvites w))"
    "keyed (cmInvites (push_invite E v w))"
proof -
  obtain vs w' where i: "invites_at E (ciEventId v) w = (vs, w')" by fastforce
  note m = invites_at_some [OF h k i]
  have eq: "cmInvites (push_invite E v w) = upd_key (ciEventId v) (\<lambda>us. us @ [v]) (cmInvites w')"
    by (simp add: push_invite_def i upd_key_def)
  have q: "store_mset (cmInvites w') = store_mset (cmInvites w)"
    using cal_quiet_invites_at [OF h, of w "ciEventId v"] by (simp add: i cal_quiet_def)
  show "store_mset (cmInvites (push_invite E v w)) = add_mset v (store_mset (cmInvites w))"
    using store_mset_upd_key [of "cmInvites w'" "ciEventId v" vs "\<lambda>us. us @ [v]"] m by (simp add: eq q keyed_def)
  have "u \<in> set vs \<Longrightarrow> ciEventId u = ciEventId v" for u
    using m by (auto simp: keyed_def dest!: map_of_SomeD)
  then show "keyed (cmInvites (push_invite E v w))"
    unfolding eq by (intro keyed_upd_key [OF m(2,1)]) auto
qed

lemma push_invite_frame [simp]:
  "cmEvents (push_invite E v w) = cmEvents w" "cmFreeEvents (push_invite E v w) = cmFreeEvents w"
  "cmMaxEvent (push_invite E v w) = cmMaxEvent w" "cmFreeInvites (push_invite E v w) = cmFreeInvites w"
  "cmMaxInvite (push_invite E v w) = cmMaxInvite w" "cmOut (push_invite E v w) = cmOut w"
  by (simp_all add: push_invite_def invites_at_def Let_def split_def split: option.split)

lemma CalendarMgr_AddInvite_quiet_part:
  assumes "hash_env E"
  obtains w' where "cal_quiet w w'"
    "CalendarMgr_AddInvite E e v w = (if IsGuildAnnouncement e then w' else UpdateInvite v (push_invite E v w'))"
proof
  let ?w = "if \<not> IsGuildAnnouncement e then SendCalendarEventInvite E v w else w"
  let ?w' = "if \<not> IsGuildEvent e \<or> ciInvitee v = ceCreator e then SendCalendarEventInviteAlert E e v ?w else ?w"
  have "cal_quiet w ?w" using cal_quiet_sends(1) [OF assms] by simp
  moreover have "cal_quiet ?w ?w'" using cal_quiet_sends(7) [OF assms] by simp
  ultimately show "cal_quiet w ?w'" by (rule cal_quiet_trans)
  show "CalendarMgr_AddInvite E e v w = (if IsGuildAnnouncement e then ?w' else UpdateInvite v (push_invite E v ?w'))"
    by (simp add: CalendarMgr_AddInvite_def)
qed

lemma good_add_invite:
  assumes h: "hash_env E" and g: "cal_good T hE (add_mset (ciInviteId v) hI) w" and r: "roomy n w"
  shows "cal_good T hE hI (CalendarMgr_AddInvite E e v w)" "roomy n (CalendarMgr_AddInvite E e v w)"
proof -
  obtain w' where q: "cal_quiet w w'"
    and eq: "CalendarMgr_AddInvite E e v w = (if IsGuildAnnouncement e then w' else UpdateInvite v (push_invite E v w'))"
    by (rule CalendarMgr_AddInvite_quiet_part [OF h])
  have g': "cal_good T hE (add_mset (ciInviteId v) hI) w'" by (rule cal_good_quiet [OF q g])
  then have k: "keyed (cmInvites w')" and "ciInviteId v \<notin># invite_ids w'" by (auto simp: cal_good_def id_pool_add)
  then have same: "{x. x \<in># store_mset (cmInvites w') \<and> ciInviteId x \<noteq> ciInviteId v} = set_mset (store_mset (cmInvites w'))"
    by (auto simp: invite_ids_def image_iff)
  have "cal_good T hE hI (UpdateInvite v (push_invite E v w'))"
    using g' unfolding cal_good_def
    by (simp add: UpdateInvite_tables graph_map_upd graph_fun_upd_None tab_insert tab_without same event_ids_def
        invite_ids_def push_invite_store [OF h k])
  then show "cal_good T hE hI (CalendarMgr_AddInvite E e v w)" using good_leak [OF g'] by (simp add: eq)
  show "roomy n (CalendarMgr_AddInvite E e v w)" using roomy_quiet [OF q r] by (simp add: eq roomy_def)
qed

end
