(* ===== verification/CalendarRemove.thy ===== *)
theory CalendarRemove
  imports CalendarGood
begin

text \<open>
  Removing events and invites keeps the invariant, and leaves exactly the other events, the
  other invites, and a mail to everybody invited but the remover.
\<close>

section \<open>Removing\<close>

lemma pool_disjoint:
  assumes "id_pool mx fr (h + (image_mset f A + image_mset f B))" and "x \<in># A" and "y \<in># B"
  shows "f x \<noteq> f y"
proof
  assume eq: "f x = f y"
  have "count (h + (image_mset f A + image_mset f B)) (f x) \<le> 1" using assms(1) by (simp add: id_pool_def)
  moreover have "0 < count (image_mset f A) (f x)" "0 < count (image_mset f B) (f x)"
    using assms(2,3) by (auto simp: eq count_greater_zero_iff) (auto simp: eq [symmetric])
  ultimately show False by simp
qed

lemma find_event_in: "find_event k es = Some (i, e) \<Longrightarrow> e \<in> set es \<and> ceEventId e = k"
  using find_event_nth nth_mem by metis

lemma GetEvent_in: "GetEvent k w = Some e \<Longrightarrow> e \<in> set (cmEvents w) \<and> ceEventId e = k"
  by (auto simp: GetEvent_def find_event_in)

lemma GetEvent_None: "GetEvent k w = None \<longleftrightarrow> k \<notin> ceEventId ` set (cmEvents w)"
  by (simp add: GetEvent_def find_event_None)

lemma mset_erase: "i < length xs \<Longrightarrow> add_mset (xs ! i) (mset (take i xs @ drop (Suc i) xs)) = mset xs"
  by (metis id_take_nth_drop mset.simps(2) mset_append union_mset_add_mset_right)

lemma remove_event_invite_effect:
  fixes T :: calTables
  assumes "id_pool (cmMaxInvite w) (cmFreeInvites w) (add_mset (ciInviteId v) live)"
  shows "id_pool (cmMaxInvite (remove_event_invite E e r v w)) (cmFreeInvites (remove_event_invite E e r v w)) live"
    "cmEvents (remove_event_invite E e r v w) = cmEvents w" "cmInvites (remove_event_invite E e r v w) = cmInvites w"
    "cmFreeEvents (remove_event_invite E e r v w) = cmFreeEvents w"
    "cmMaxEvent (remove_event_invite E e r v w) = cmMaxEvent w"
    "fst (run_effects (cmOut (remove_event_invite E e r v w)) T) = fst (run_effects (cmOut w) T)"
    "snd (run_effects (cmOut (remove_event_invite E e r v w)) T) = (snd (run_effects (cmOut w) T))(ciInviteId v := None)"
proof -
  let ?w = "if r \<noteq> 0 \<and> ciInvitee v \<noteq> r
    then ceff (CalMail (BuildCalendarMailSubject r e) (BuildCalendarMailBody E e) (ciInvitee v))
      (ceff (CalSql (DelInvite (ciInviteId v))) w) else ceff (CalSql (DelInvite (ciInviteId v))) w"
  have eq: "remove_event_invite E e r v w = FreeInviteId (ciInviteId v) ?w" by (simp add: remove_event_invite_def)
  have "id_pool (cmMaxInvite ?w) (cmFreeInvites ?w) (add_mset (ciInviteId v) live)" using assms by (simp add: ceff_def)
  then show "id_pool (cmMaxInvite (remove_event_invite E e r v w)) (cmFreeInvites (remove_event_invite E e r v w)) live"
    unfolding eq by (rule inviteIds.give_pool)
qed (simp_all add: remove_event_invite_def Let_def ceff_def run_effects_def run_stmt_simps)

definition event_mail :: "calEnv \<Rightarrow> calEvent \<Rightarrow> u64 \<Rightarrow> calInvite \<Rightarrow> calEffect" where
  "event_mail E e r v = CalMail (BuildCalendarMailSubject r e) (BuildCalendarMailBody E e) (ciInvitee v)"

lemma remove_event_invite_mails:
  "mails (remove_event_invite E e r v w) = mails w @ (if r \<noteq> 0 \<and> ciInvitee v \<noteq> r then [event_mail E e r v] else [])"
  by (simp add: remove_event_invite_def Let_def ceff_def mails_def event_mail_def)

lemma remove_event_invites_effect:
  fixes E :: calEnv and e :: calEvent and r :: u64 and T :: calTables
  assumes "id_pool (cmMaxInvite w) (cmFreeInvites w) (image_mset ciInviteId (mset vs) + live)"
  defines "w' \<equiv> fold (remove_event_invite E e r) vs w"
  shows "id_pool (cmMaxInvite w') (cmFreeInvites w') live \<and> cmEvents w' = cmEvents w \<and> cmInvites w' = cmInvites w \<and>
    cmFreeEvents w' = cmFreeEvents w \<and> cmMaxEvent w' = cmMaxEvent w \<and>
    fst (run_effects (cmOut w') T) = fst (run_effects (cmOut w) T) \<and>
    Map.graph (snd (run_effects (cmOut w') T)) =
      {p \<in> Map.graph (snd (run_effects (cmOut w) T)). fst p \<notin> ciInviteId ` set vs} \<and>
    mails w' = mails w @ map (event_mail E e r) (filter (\<lambda>v. r \<noteq> 0 \<and> ciInvitee v \<noteq> r) vs)"
  using assms(1) unfolding w'_def
proof (induction vs arbitrary: w)
  case (Cons v vs)
  let ?w = "remove_event_invite E e r v w"
  have p: "id_pool (cmMaxInvite w) (cmFreeInvites w) (add_mset (ciInviteId v) (image_mset ciInviteId (mset vs) + live))"
    using Cons.prems by simp
  note frame = remove_event_invite_effect(2-5) [OF p, where E = E and e = e and r = r]
  note tabs = remove_event_invite_effect(6,7) [OF p, where E = E and e = e and r = r and T = T]
  have g: "Map.graph ((snd (run_effects (cmOut w) T))(ciInviteId v := None)) =
      {p \<in> Map.graph (snd (run_effects (cmOut w) T)). fst p \<noteq> ciInviteId v}"
    by (rule graph_fun_upd_None)
  show ?case
    using Cons.IH [OF remove_event_invite_effect(1) [OF p, where E = E and e = e and r = r]]
    unfolding fold_Cons comp_apply frame tabs g remove_event_invite_mails by (auto simp del: split_paired_All)
qed simp

lemma inv_tab_rest:
  assumes "id_pool mx fr (h + (image_mset ciInviteId R + image_mset ciInviteId (mset vs)))"
  shows "{p \<in> inv_tab (set_mset (R + mset vs)). fst p \<notin> ciInviteId ` set vs} = inv_tab (set_mset R)"
proof -
  have d: "ciInviteId x \<noteq> ciInviteId y" if "x \<in># R" "y \<in> set vs" for x y
    using pool_disjoint [OF assms, of x y] that by simp
  show ?thesis by (auto simp: inv_tab_def dest: d)
qed

lemma ev_tab_rest:
  assumes "id_pool mx fr (h + add_mset (ceEventId e) (image_mset ceEventId R))"
  shows "{p \<in> ev_tab (insert e (set_mset R)). fst p \<noteq> ceEventId e} = ev_tab (set_mset R)"
proof -
  have d: "ceEventId x \<noteq> ceEventId e" if "x \<in># R" for x
    using pool_disjoint [of mx fr h ceEventId R "{#e#}" x e] assms that by simp
  show ?thesis by (auto simp: ev_tab_def dest: d)
qed

lemma keyed_filter: "keyed m \<Longrightarrow> keyed (filter P m)"
  unfolding keyed_def by (auto simp: distinct_map_filter)

text \<open>What \<^const>\<open>RemoveEvent\<close> leaves: the other events, and the invites of other events.\<close>

lemma RemoveEvent_found:
  fixes E :: calEnv and k r :: u64 and T :: calTables
  assumes h: "hash_env E" and g: "cal_good T hE hI w" and f: "find_event k (cmEvents w) = Some (i, e)"
  defines "w' \<equiv> snd (RemoveEvent E k r w)"
  shows "cal_good T hE hI w'" "add_mset e (mset (cmEvents w')) = mset (cmEvents w)"
    "set (all_invites w') = {v \<in> set (all_invites w). ciEventId v \<noteq> k}"
    "event_ids w = add_mset k (event_ids w')"
    "mset (mails w') = mset (mails w) + image_mset (event_mail E e r)
       {#v \<in># mset (all_invites w). ciEventId v = k \<and> r \<noteq> 0 \<and> ciInvitee v \<noteq> r#}"
proof -
  let ?w1 = "SendCalendarEventRemovedAlert E e w"
  obtain vs w2 where i2: "invites_at E k ?w1 = (vs, w2)" by fastforce
  let ?w3 = "fold (remove_event_invite E e r) vs w2"
  let ?m = "filter (\<lambda>(k', us). k' \<noteq> k) (cmInvites w2)"
  have w': "w' = (FreeEventId k (ceff (CalSql (DelEvent k)) (?w3\<lparr>cmInvites := filter (\<lambda>(k', us). k' \<noteq> k) (cmInvites ?w3)\<rparr>)))
      \<lparr>cmEvents := take i (cmEvents ?w3) @ drop (Suc i) (cmEvents ?w3)\<rparr>"
    by (simp add: w'_def RemoveEvent_def f i2 Let_def ceff_def)
  have q: "cal_quiet w w2"
    using cal_quiet_trans [OF cal_quiet_sends(4) [OF h, of w e] cal_quiet_invites_at [OF h, of ?w1 k]] by (simp add: i2)
  have g2: "cal_good T hE hI w2" by (rule cal_good_quiet [OF q g])
  have k1: "keyed (cmInvites ?w1)" using cal_quiet_sends(4) [OF h, of w e] g by (simp add: cal_quiet_def cal_good_def)
  note some = invites_at_some [OF h k1 i2]
  have st: "store_mset ?m + mset vs = store_mset (cmInvites w2)"
    using store_mset_without some by (simp add: keyed_def)
  have poolI: "id_pool (cmMaxInvite w2) (cmFreeInvites w2)
      (hI + (image_mset ciInviteId (store_mset ?m) + image_mset ciInviteId (mset vs)))"
    using g2 unfolding cal_good_def invite_ids_def st [symmetric] by simp
  then have "id_pool (cmMaxInvite w2) (cmFreeInvites w2)
      (image_mset ciInviteId (mset vs) + (hI + image_mset ciInviteId (store_mset ?m)))"
    by (simp add: add_ac)
  note fx = remove_event_invites_effect [OF this, where E = E and e = e and r = r and T = T]
  have ev2: "cmEvents w2 = cmEvents w" using q by (simp add: cal_quiet_def)
  have ek: "ceEventId e = k" "i < length (cmEvents w)" "cmEvents w ! i = e" using find_event_nth [OF f] by simp_all
  let ?R = "mset (take i (cmEvents w) @ drop (Suc i) (cmEvents w))"
  have evs: "add_mset e ?R = mset (cmEvents w)" using mset_erase [OF ek(2)] ek(3) by simp
  show e': "add_mset e (mset (cmEvents w')) = mset (cmEvents w)" using evs fx ev2 by (simp add: w')
  then show ids: "event_ids w = add_mset k (event_ids w')" unfolding event_ids_def by (metis ek(1) image_mset_add_mset)
  have setev: "set (cmEvents w) = insert e (set (cmEvents w'))" using e' by (metis set_mset_add_mset_insert set_mset_mset)
  have inv': "cmInvites w' = ?m" using fx by (simp add: w' ceff_def)
  have poolE: "id_pool (cmMaxEvent w2) (cmFreeEvents w2) (hE + add_mset k (event_ids w'))"
    using g2 unfolding cal_good_def event_ids_def ev2 using ids by (simp add: event_ids_def)
  have "id_pool (cmMaxEvent w') (cmFreeEvents w') (hE + event_ids w')"
  proof -
    let ?w5 = "ceff (CalSql (DelEvent k)) (?w3\<lparr>cmInvites := filter (\<lambda>(k', us). k' \<noteq> k) (cmInvites ?w3)\<rparr>)"
    have "id_pool (cmMaxEvent ?w5) (cmFreeEvents ?w5) (add_mset k (hE + event_ids w'))"
      using poolE fx by (simp add: ceff_def)
    from eventIds.give_pool [OF this] show ?thesis by (simp add: w')
  qed
  moreover have "id_pool (cmMaxInvite w') (cmFreeInvites w') (hI + invite_ids w')"
    unfolding invite_ids_def inv' using fx by (simp add: w' ceff_def)
  moreover have "Map.graph (snd (run_effects (cmOut w') T)) = inv_tab (set_mset (store_mset (cmInvites w')))"
  proof -
    have "Map.graph (snd (run_effects (cmOut w') T)) =
        {p \<in> inv_tab (set_mset (store_mset ?m + mset vs)). fst p \<notin> ciInviteId ` set vs}"
      using fx g2 by (simp add: w' ceff_def run_effects_snoc run_stmt_simps cal_good_def st)
    also have "\<dots> = inv_tab (set_mset (store_mset ?m))" by (rule inv_tab_rest [OF poolI])
    finally show ?thesis by (simp add: inv')
  qed
  moreover have "Map.graph (fst (run_effects (cmOut w') T)) = ev_tab (set (cmEvents w'))"
  proof -
    have "Map.graph (fst (run_effects (cmOut w') T)) = {p \<in> ev_tab (insert e (set (cmEvents w'))). fst p \<noteq> k}"
      using fx g2 setev by (simp add: w' ceff_def run_effects_snoc run_stmt_simps cal_good_def graph_fun_upd_None ev2)
    then show ?thesis
      using ev_tab_rest [of "cmMaxEvent w2" "cmFreeEvents w2" hE e "mset (cmEvents w')"] poolE
      by (simp add: ek event_ids_def)
  qed
  ultimately show "cal_good T hE hI w'"
    using g2 keyed_filter [of "cmInvites w2"] by (simp add: cal_good_def inv')
  have in_m: "v \<in># store_mset ?m \<longleftrightarrow> v \<in># store_mset (cmInvites w2) \<and> ciEventId v \<noteq> k" for v
    using some(2) by (force simp: in_store_mset keyed_def)
  then show "set (all_invites w') = {v \<in> set (all_invites w). ciEventId v \<noteq> k}"
    using q by (auto simp: set_all_invites inv' cal_quiet_def)
  have none: "{#v \<in># store_mset ?m. ciEventId v = k \<and> Q v#} = {#}" for Q
    using in_m by (auto simp: multiset_eq_iff count_eq_zero_iff)
  have every: "{#v \<in># mset vs. ciEventId v = k \<and> Q v#} = {#v \<in># mset vs. Q v#}" for Q
    using keyedD [OF some(2) map_of_SomeD [OF some(1)]] by (intro filter_mset_cong) auto
  have all: "mset (all_invites w) = store_mset ?m + mset vs" using q by (simp add: mset_all_invites cal_quiet_def st)
  have "mails w' = mails w @ map (event_mail E e r) (filter (\<lambda>v. r \<noteq> 0 \<and> ciInvitee v \<noteq> r) vs)"
    using fx q by (simp add: w' mails_def ceff_def cal_quiet_def)
  then show "mset (mails w') = mset (mails w) + image_mset (event_mail E e r)
      {#v \<in># mset (all_invites w). ciEventId v = k \<and> r \<noteq> 0 \<and> ciInvitee v \<noteq> r#}"
    unfolding all filter_union_mset none every by (simp add: mset_filter)
qed

lemma good_remove_event:
  assumes h: "hash_env E" and g: "cal_good T hE hI w"
  shows "cal_good T hE hI (snd (RemoveEvent E k r w))"
proof (cases "find_event k (cmEvents w)")
  case None
  then show ?thesis using cal_good_quiet [OF cal_quiet_sends(11) [OF h] g] by (simp add: RemoveEvent_def)
next
  case (Some p)
  then show ?thesis using RemoveEvent_found(1) [OF h g] by (cases p) simp
qed

lemma relatives_cmInvites:
  "map_of (cmInvites w) (ceEventId e) = Some vs \<Longrightarrow>
     cmInvites (SendPacketToAllEventRelatives E opcode fs e w) = cmInvites w"
proof -
  have fold: "cmInvites (fold (\<lambda>v w. case envPlayer E (ciInvitee v) of None \<Rightarrow> w
      | Some (level, guildId) \<Rightarrow> (if c v guildId then ceff (f v) w else w)) vs w) = cmInvites w" for c f vs w
    by (induction vs arbitrary: w) (auto simp: ceff_def split: option.split)
  have g: "cmInvites (send_guild E g opcode fs w) = cmInvites w" for g by (simp add: send_guild_def ceff_def)
  assume "map_of (cmInvites w) (ceEventId e) = Some vs"
  then show ?thesis by (simp add: SendPacketToAllEventRelatives_def Let_def split_def fold invites_at_def g)
qed

lemma remove_first_find:
  "find P vs = Some v \<Longrightarrow> add_mset v (mset (remove_first P vs)) = mset vs \<and> P v"
  by (induction vs) (auto split: if_splits)

lemma remove_first_set: "set (remove_first P vs) \<subseteq> set vs"
  by (induction vs) auto

lemma keyed_vector:
  assumes "keyed m" and "map_of m k = Some vs"
  shows "v \<in> set vs \<longleftrightarrow> v \<in># store_mset m \<and> ciEventId v = k"
proof
  assume "v \<in> set vs"
  then show "v \<in># store_mset m \<and> ciEventId v = k"
    using keyedD [OF assms(1) map_of_SomeD [OF assms(2)]] map_of_SomeD [OF assms(2)]
    unfolding in_store_mset by blast
next
  assume "v \<in># store_mset m \<and> ciEventId v = k"
  then obtain us where "(k, us) \<in> set m" "v \<in> set us"
    using keyedD [OF assms(1)] unfolding in_store_mset by blast
  moreover from this(1) have "map_of m k = Some us" using assms(1) by (simp add: keyed_def)
  ultimately show "v \<in> set vs" using assms(2) by simp
qed

lemma CalendarMgr_RemoveInvite_found:
  fixes E :: calEnv and i k r :: u64 and T :: calTables
  assumes h: "hash_env E" and g: "cal_good T hE hI w" and ge: "GetEvent k w = Some e"
  defines "w' \<equiv> CalendarMgr_RemoveInvite E i k r w"
  shows "cal_good T hE hI w'" "cmEvents w' = cmEvents w"
    "set (all_invites w') = {v \<in> set (all_invites w). \<not> (ciInviteId v = i \<and> ciEventId v = k)}"
proof -
  obtain vs w2 where i2: "invites_at E k w = (vs, w2)" by fastforce
  have q: "cal_quiet w w2" using cal_quiet_invites_at [OF h, of w k] by (simp add: i2)
  have g2: "cal_good T hE hI w2" by (rule cal_good_quiet [OF q g])
  have kd: "keyed (cmInvites w)" using g by (simp add: cal_good_def)
  note some = invites_at_some [OF h kd i2]
  have ek: "ceEventId e = k" using GetEvent_in [OF ge] by simp
  have in_vs: "v \<in> set vs \<longleftrightarrow> v \<in># store_mset (cmInvites w2) \<and> ciEventId v = k" for v
    by (rule keyed_vector [OF some(2,1)])
  show "cal_good T hE hI w'" "cmEvents w' = cmEvents w"
    "set (all_invites w') = {v \<in> set (all_invites w). \<not> (ciInviteId v = i \<and> ciEventId v = k)}"
  proof (atomize (full), cases "find (\<lambda>v. ciInviteId v = i) vs")
    case None
    then have "w' = w2" by (simp add: w'_def CalendarMgr_RemoveInvite_def ge i2)
    moreover have "\<not> (ciInviteId v = i \<and> ciEventId v = k)" if "v \<in> set (all_invites w)" for v
      using None that in_vs [of v] q by (auto simp: find_None_iff set_all_invites cal_quiet_def)
    ultimately show "cal_good T hE hI w' \<and> cmEvents w' = cmEvents w \<and>
        set (all_invites w') = {v \<in> set (all_invites w). \<not> (ciInviteId v = i \<and> ciEventId v = k)}"
      using g2 q by (auto simp: cal_quiet_def set_all_invites)
  next
    case (Some v)
    let ?w3 = "ceff (CalSql (DelInvite (ciInviteId v))) w2"
    let ?w4 = "if \<not> IsGuildEvent e then SendCalendarEventInviteRemoveAlert E (ciInvitee v) e CALENDAR_STATUS_REMOVED ?w3 else ?w3"
    let ?w5 = "SendCalendarEventInviteRemove E e v (ceFlags e) ?w4"
    let ?g = "remove_first (\<lambda>v. ciInviteId v = i)"
    have w': "w' = (FreeInviteId (ciInviteId v) ?w5)\<lparr>cmInvites := upd_key k ?g (cmInvites ?w5)\<rparr>"
      by (simp add: w'_def CalendarMgr_RemoveInvite_def ge i2 Some Let_def upd_key_def)
    have q34: "cal_quiet ?w3 ?w4" using cal_quiet_sends(9) [OF h] by simp
    have q35: "cal_quiet ?w3 ?w5" by (rule cal_quiet_trans [OF q34 cal_quiet_sends(5) [OF h]])
    have i4: "cmInvites ?w4 = cmInvites w2"
      by (simp add: SendCalendarEventInviteRemoveAlert_def send_to_def ceff_def)
    have i5: "cmInvites ?w5 = cmInvites w2"
      using relatives_cmInvites [of ?w4 e vs] some(1) unfolding SendCalendarEventInviteRemove_def i4 ek by simp
    have v: "v \<in> set vs" "ciInviteId v = i" using Some by (auto simp: find_Some_iff)
    have st: "store_mset (cmInvites w') + {#v#} = store_mset (cmInvites w2)"
    proof -
      have "wf_store (cmInvites w2)" using some(2) by (simp add: keyed_def)
      from store_mset_upd_key [OF this some(1), of ?g]
      have "store_mset (cmInvites w') + mset vs = store_mset (cmInvites w2) + mset (?g vs)" by (simp add: w' i5)
      moreover have "mset vs = add_mset v (mset (?g vs))" using remove_first_find [OF Some] by simp
      ultimately show ?thesis by simp
    qed
    have kd': "keyed (cmInvites w')"
      using keyed_upd_key [OF some(2,1), of ?g] remove_first_set [of _ vs] in_vs by (auto simp: w' i5)
    have poolI: "id_pool (cmMaxInvite w2) (cmFreeInvites w2)
        (hI + (image_mset ciInviteId (store_mset (cmInvites w')) + image_mset ciInviteId (mset [v])))"
      using g2 by (simp add: cal_good_def invite_ids_def st [symmetric])
    have "id_pool (cmMaxInvite ?w5) (cmFreeInvites ?w5) (add_mset (ciInviteId v) (hI + invite_ids w'))"
      using poolI q35 by (simp add: cal_quiet_def ceff_def invite_ids_def)
    from inviteIds.give_pool [OF this]
    have "id_pool (cmMaxInvite w') (cmFreeInvites w') (hI + invite_ids w')" by (simp add: w')
    moreover have ev: "cmEvents w' = cmEvents w" "cmMaxEvent w' = cmMaxEvent w" "cmFreeEvents w' = cmFreeEvents w"
      using q q35 by (simp_all add: w' cal_quiet_def ceff_def)
    have tabs: "run_effects (cmOut w') T = run_stmt (DelInvite i) (run_effects (cmOut w2) T)"
      using q35 v by (cases T) (simp add: w' cal_quiet_def ceff_def run_effects_snoc)
    moreover have "Map.graph (snd (run_effects (cmOut w') T)) = inv_tab (set_mset (store_mset (cmInvites w')))"
    proof -
      have "Map.graph (snd (run_effects (cmOut w') T)) =
          {p \<in> inv_tab (set_mset (store_mset (cmInvites w') + mset [v])). fst p \<notin> ciInviteId ` set [v]}"
        using g2 v st by (simp add: tabs run_stmt_simps graph_fun_upd_None cal_good_def)
      also have "\<dots> = inv_tab (set_mset (store_mset (cmInvites w')))" by (rule inv_tab_rest [OF poolI])
      finally show ?thesis .
    qed
    moreover have "Map.graph (fst (run_effects (cmOut w') T)) = ev_tab (set (cmEvents w'))"
      using g2 q ev by (simp add: tabs run_stmt_simps cal_good_def cal_quiet_def)
    ultimately have "cal_good T hE hI w'" using g kd' ev by (simp add: cal_good_def event_ids_def)
    moreover have "u \<in># store_mset (cmInvites w') \<longleftrightarrow> u \<in># store_mset (cmInvites w) \<and> \<not> (ciInviteId u = i \<and> ciEventId u = k)" for u
    proof -
      have d: "u \<in># store_mset (cmInvites w') \<Longrightarrow> ciInviteId u \<noteq> i"
        using pool_disjoint [OF poolI, of u v] v by simp
      have "store_mset (cmInvites w) = store_mset (cmInvites w') + {#v#}" using st q by (simp add: cal_quiet_def)
      then have "u \<in># store_mset (cmInvites w) \<longleftrightarrow> u \<in># store_mset (cmInvites w') \<or> u = v" by auto
      then show ?thesis using d v in_vs [of v] by auto
    qed
    ultimately show "cal_good T hE hI w' \<and> cmEvents w' = cmEvents w \<and>
        set (all_invites w') = {v \<in> set (all_invites w). \<not> (ciInviteId v = i \<and> ciEventId v = k)}"
      using ev by (auto simp: set_all_invites)
  qed
qed

lemma good_remove_invite:
  assumes "hash_env E" and "cal_good T hE hI w"
  shows "cal_good T hE hI (CalendarMgr_RemoveInvite E i k r w)" "cmEvents (CalendarMgr_RemoveInvite E i k r w) = cmEvents w"
proof -
  have "cal_good T hE hI (CalendarMgr_RemoveInvite E i k r w) \<and> cmEvents (CalendarMgr_RemoveInvite E i k r w) = cmEvents w"
    using CalendarMgr_RemoveInvite_found [OF assms] assms by (cases "GetEvent k w") (auto simp: CalendarMgr_RemoveInvite_def)
  then show "cal_good T hE hI (CalendarMgr_RemoveInvite E i k r w)" "cmEvents (CalendarMgr_RemoveInvite E i k r w) = cmEvents w" by simp_all
qed

end
