(* ===== verification/CalendarSteps.thy ===== *)
theory CalendarSteps
  imports CalendarRemove
begin

text \<open>
  Changes through the pointers that look-ups return, the loops over a player's events and
  invites, and the handlers: all of them keep the invariant of the calendar.
\<close>

section \<open>Writing\<close>

lemma upd_event_mset:
  "find_event k es = Some (i, old) \<Longrightarrow> add_mset old (mset (upd_event k (\<lambda>_. e) es)) = add_mset e (mset es)"
  by (induction k es arbitrary: i rule: find_event.induct) (auto split: if_splits)

lemma good_write_event:
  assumes g: "cal_good T hE hI w" and ge: "GetEvent k w = Some old" and e: "ceEventId e = k"
  shows "cal_good T hE hI (UpdateEvent e (w\<lparr>cmEvents := upd_event k (\<lambda>_. e) (cmEvents w)\<rparr>))"
proof -
  let ?es = "upd_event k (\<lambda>_. e) (cmEvents w)"
  obtain i where f: "find_event k (cmEvents w) = Some (i, old)" using ge by (auto simp: GetEvent_def)
  have old: "ceEventId old = k" "old \<in># mset (cmEvents w)" using GetEvent_in [OF ge] by simp_all
  define R where "R = mset (cmEvents w) - {#old#}"
  have w: "mset (cmEvents w) = add_mset old R" using old(2) by (simp add: R_def)
  have es: "mset ?es = add_mset e R" using upd_event_mset [OF f, of e] by (simp add: w)
  have ids: "image_mset ceEventId (mset ?es) = image_mset ceEventId (mset (cmEvents w))" by (simp add: w es e old)
  have sets: "set (cmEvents w) = insert old (set_mset R)" "set ?es = insert e (set_mset R)"
    using w es by (metis set_mset_add_mset_insert set_mset_mset)+
  have pool: "id_pool (cmMaxEvent w) (cmFreeEvents w) (hE + add_mset (ceEventId old) (image_mset ceEventId R))"
    using g by (simp add: cal_good_def event_ids_def w)
  show ?thesis
    using g ev_tab_rest [OF pool] unfolding cal_good_def
    by (simp add: UpdateEvent_tables graph_map_upd graph_fun_upd_None sets tab_insert e old event_ids_def ids invite_ids_def)
qed

lemma find_SomeD: "find P vs = Some u \<Longrightarrow> u \<in> set vs \<and> P u"
  by (auto simp: find_Some_iff)

lemma find_app: "find P (xs @ ys) = (case find P xs of None \<Rightarrow> find P ys | Some x \<Rightarrow> Some x)"
  by (induction xs) simp_all

lemma upd_invite_mset:
  "find (\<lambda>v. ciInviteId v = i) vs = Some v \<Longrightarrow> add_mset v (mset (upd_invite i (\<lambda>_. v') vs)) = add_mset v' (mset vs)"
  by (induction vs) (auto split: if_splits)

lemma upd_invite_set: "set (upd_invite i (\<lambda>_. v') vs) \<subseteq> insert v' (set vs)"
  by (induction vs) auto

lemma upd_invites_mset:
  "find (\<lambda>v. ciInviteId v = i) (concat (map snd m)) = Some v \<Longrightarrow>
     add_mset v (store_mset (upd_invites i (\<lambda>_. v') m)) = add_mset v' (store_mset m)"
proof (induction m)
  case (Cons p m)
  obtain k vs where p: "p = (k, vs)" by (cases p)
  show ?case
  proof (cases "find (\<lambda>v. ciInviteId v = i) vs")
    case None
    then have "\<not> (\<exists>v\<in>set vs. ciInviteId v = i)" by (auto simp: find_None_iff)
    then show ?thesis using Cons None by (simp add: p find_app)
  next
    case (Some u)
    then have "\<exists>v\<in>set vs. ciInviteId v = i" "u = v"
      using Cons.prems find_SomeD [OF Some] by (auto simp: p find_app)
    then show ?thesis using upd_invite_mset [of i vs v v'] Some by (simp add: p)
  qed
qed simp

lemma upd_invites_fst [simp]: "map fst (upd_invites i f m) = map fst m"
  by (induction i f m rule: upd_invites.induct) auto

lemma keyed_upd_invites:
  "keyed m \<Longrightarrow> find (\<lambda>v. ciInviteId v = i) (concat (map snd m)) = Some v \<Longrightarrow> ciEventId v' = ciEventId v \<Longrightarrow>
     keyed (upd_invites i (\<lambda>_. v') m)"
proof (induction m)
  case (Cons p m)
  obtain k vs where p: "p = (k, vs)" by (cases p)
  have tl: "keyed m" using Cons.prems(1) by (auto simp: keyed_def)
  show ?case
  proof (cases "find (\<lambda>v. ciInviteId v = i) vs")
    case None
    then have n: "\<not> (\<exists>v\<in>set vs. ciInviteId v = i)" by (auto simp: find_None_iff)
    have "keyed (upd_invites i (\<lambda>_. v') m)" using Cons.IH [OF tl] Cons.prems None by (simp add: p find_app)
    then show ?thesis using Cons.prems(1) n upd_invites_fst [of i "\<lambda>_. v'" m]
      by (auto simp: p keyed_def simp del: upd_invites_fst)
  next
    case (Some u)
    then have n: "\<exists>v\<in>set vs. ciInviteId v = i" "u = v" "v \<in> set vs"
      using Cons.prems find_SomeD [OF Some] by (auto simp: p find_app)
    have "ciEventId v' = k" using Cons.prems(1,3) n keyedD [OF Cons.prems(1), of k vs v] by (simp add: p)
    then show ?thesis using Cons.prems(1) n upd_invite_set [of i v' vs] by (auto simp: p keyed_def)
  qed
qed simp

lemma GetInvite_in: "GetInvite i w = Some v \<Longrightarrow> v \<in> set (all_invites w) \<and> ciInviteId v = i"
  by (auto simp: GetInvite_def find_Some_iff)

lemma good_write_invite:
  assumes g: "cal_good T hE hI w" and gi: "GetInvite i w = Some v"
    and v': "ciInviteId v' = ciInviteId v" "ciEventId v' = ciEventId v"
  shows "cal_good T hE hI (UpdateInvite v' (write_invite i (\<lambda>_. v') w))"
proof -
  let ?m = "upd_invites i (\<lambda>_. v') (cmInvites w)"
  have f: "find (\<lambda>v. ciInviteId v = i) (concat (map snd (cmInvites w))) = Some v"
    using gi by (simp add: GetInvite_def all_invites_def)
  have v: "v \<in># store_mset (cmInvites w)" "ciInviteId v = i" using GetInvite_in [OF gi] by (simp_all add: set_all_invites)
  define R where "R = store_mset (cmInvites w) - {#v#}"
  have w: "store_mset (cmInvites w) = add_mset v R" using v(1) by (simp add: R_def)
  have m: "store_mset ?m = add_mset v' R" using upd_invites_mset [OF f, of v'] by (simp add: w)
  have ids: "image_mset ciInviteId (store_mset ?m) = image_mset ciInviteId (store_mset (cmInvites w))"
    by (simp add: w m v v')
  have k: "keyed ?m" using g f v'(2) keyed_upd_invites by (auto simp: cal_good_def)
  have pool: "id_pool (cmMaxInvite w) (cmFreeInvites w) (hI + (image_mset ciInviteId R + image_mset ciInviteId (mset [v])))"
    using g by (simp add: cal_good_def invite_ids_def w)
  show ?thesis
    using g inv_tab_rest [OF pool] k unfolding cal_good_def
    by (simp add: UpdateInvite_tables graph_map_upd graph_fun_upd_None w m tab_insert v v' event_ids_def ids invite_ids_def
        write_invite_def)
qed

section \<open>Loops\<close>

lemma good_remove_events:
  "hash_env E \<Longrightarrow> cal_good T hE hI w \<Longrightarrow> cal_good T hE hI (remove_events E P r i w)"
proof (induction E P r i w rule: remove_events.induct)
  case (1 E P r i w)
  show ?case
    using 1 good_remove_event [OF 1(3,4), of "ceEventId (cmEvents w ! i)" r]
    by (subst remove_events.simps) (auto split: prod.splits)
qed

lemma good_fold:
  assumes "\<And>v w. cal_good T hE hI w \<Longrightarrow> cal_good T hE hI (f v w)" and "cal_good T hE hI w"
  shows "cal_good T hE hI (fold f vs w)"
  using assms(2) by (induction vs arbitrary: w) (auto intro: assms(1))

lemma good_remove_all:
  assumes h: "hash_env E" and g: "cal_good T hE hI w"
  shows "cal_good T hE hI (RemoveAllPlayerEventsAndInvites E guid w)"
  unfolding RemoveAllPlayerEventsAndInvites_def Let_def
  by (rule good_fold) (simp_all add: good_remove_invite [OF h] good_remove_events [OF h g])

lemma good_remove_guild:
  assumes h: "hash_env E" and g: "cal_good T hE hI w"
  shows "cal_good T hE hI (RemovePlayerGuildEventsAndSignups E guid guildId w)"
  unfolding RemovePlayerGuildEventsAndSignups_def Let_def
  by (rule good_fold) (auto simp: good_remove_invite [OF h] good_remove_events [OF h g] split: option.split)

lemma good_fold_room:
  assumes "\<And>v w n. cal_good T hE hI w \<Longrightarrow> roomy (Suc n) w \<Longrightarrow> cal_good T hE hI (f v w) \<and> roomy n (f v w)"
    and "cal_good T hE hI w" and "roomy (length vs + n) w"
  shows "cal_good T hE hI (fold f vs w)"
  using assms(2,3) by (induction vs arbitrary: w) (auto dest: assms(1))

lemma good_new_invite:
  assumes h: "hash_env E" and g: "cal_good T hE hI w" and r: "roomy (Suc n) w"
    and v: "\<And>i. ciInviteId (v i) = i"
  shows "cal_good T hE hI (let (i, w) = GetFreeInviteId w in CalendarMgr_AddInvite E e (v i) w) \<and>
    roomy n (let (i, w) = GetFreeInviteId w in CalendarMgr_AddInvite E e (v i) w)"
proof -
  obtain i w' where i: "GetFreeInviteId w = (i, w')" by fastforce
  note ok = good_invite_id [OF g r i]
  show ?thesis using good_add_invite [OF h _ ok(2), of T hE "v i" hI e] ok(1) by (simp add: i v)
qed

section \<open>Handlers\<close>

lemma good_reading:
  assumes "cal_good T hE hI w" and "\<And>x. cal_good T hE hI (fst (f x))"
  shows "cal_good T hE hI (fst (reading m w f))"
  using assms by (simp add: reading_def split: sum.split)

lemma read_invitees_length: "read_invitees n b = Inr (xs, b') \<Longrightarrow> length xs = n"
  by (induction n arbitrary: b xs b') (auto simp: bindE_def split: sum.splits prod.splits)

lemma good_invite_listed:
  assumes "hash_env E" and "cal_good T hE hI w" and "roomy (Suc n) w"
  shows "cal_good T hE hI (invite_listed E guid e x w) \<and> roomy n (invite_listed E guid e x w)"
  using good_new_invite [OF assms, of "\<lambda>i. CalendarInvite_new i (ceEventId e) (fst x) guid 946684800
    (ucast (fst (snd x))) (ucast (snd (snd x))) ''''" e]
  by (simp add: invite_listed_def split_def CalendarInvite_new_def)

lemma good_copy_invite:
  assumes "hash_env E" and "cal_good T hE hI w" and "roomy (Suc n) w"
  shows "cal_good T hE hI (copy_invite E e v w) \<and> roomy n (copy_invite E e v w)"
  using good_new_invite [OF assms, of "\<lambda>i. CalendarInvite_copy v i (ceEventId e)" e]
  by (simp add: copy_invite_def CalendarInvite_copy_def)

lemma good_result:
  assumes "hash_env E" and "cal_good T hE hI w"
  shows "cal_good T hE hI (SendCalendarCommandResult E guid err param w)"
  using cal_good_quiet [OF cal_quiet_sends(11)] assms by blast

lemma good_handle_add:
  assumes h: "hash_env E" and g: "cal_good T {#} {#} w" and r: "roomy 101 w"
  shows "cal_good T {#} {#} (fst (HandleCalendarAddEvent E me b w))"
proof (cases "read_event_fields E b")
  case (Inr fb)
  obtain f b' where fb: "fb = (f, b')" by (cases fb)
  obtain i w1 where i: "GetFreeEventId w = (i, w1)" by fastforce
  have "roomy (Suc 100) w" using r by simp
  note got = good_event_id [OF g this i]
  define e0 where "e0 = CalendarEvent_new i (csGuid me) 0 (ucast (efType f)) (efDungeonId f) (uint (efEventTime f)) (efFlags f)
    (uint (efTimeZone f)) (efTitle f) (efDescription f)"
  define e where "e = (if IsGuildEvent e0 \<or> IsGuildAnnouncement e0
    then case envPlayer E (csGuid me) of Some (level, guildId) \<Rightarrow> e0\<lparr>ceGuildId := guildId\<rparr> | None \<Rightarrow> e0 else e0)"
  define v where "v = CalendarInvite_new 0 i 0 (csGuid me) 946684800 CALENDAR_STATUS_NOT_SIGNED_UP CALENDAR_RANK_PLAYER ''''"
  have ei: "ceEventId e = i"
    by (simp add: e_def e0_def CalendarEvent_new_def split: option.split prod.split)
  show ?thesis
  proof (cases "in_the_past E (efEventTime f)")
    case True
    then show ?thesis using g by (simp add: HandleCalendarAddEvent_def reading_def Inr fb handled_def)
  next
    case False
    have eq: "HandleCalendarAddEvent E me b w =
        (if IsGuildAnnouncement e
         then handled (AddEvent E e CALENDAR_SENDTYPE_ADD (CalendarMgr_AddInvite E e v w1))
         else case read_invite_list b' of Inl err \<Rightarrow> (FreeEventId i w1, Some err)
           | Inr (xs, b) \<Rightarrow> handled (AddEvent E e CALENDAR_SENDTYPE_ADD (fold (invite_listed E (csGuid me) e) xs w1)))"
      using False unfolding e_def e0_def v_def
      by (simp only: HandleCalendarAddEvent_def reading_def Inr fb i sum.case prod.case if_False Let_def)
    show ?thesis
    proof (cases "IsGuildAnnouncement e")
      case True
      obtain w2 where "cal_quiet w1 w2" and w2: "CalendarMgr_AddInvite E e v w1 = w2"
        using CalendarMgr_AddInvite_quiet_part [OF h, of w1 e v] True by metis
      then have "cal_good T (add_mset (ceEventId e) {#}) {#} w2" using cal_good_quiet got(1) ei by simp
      then show ?thesis using good_add_event [OF h] True by (simp add: eq w2 handled_def)
    next
      case F: False
      show ?thesis
      proof (cases "read_invite_list b'")
        case (Inl err)
        then show ?thesis using good_give_event [OF got(1)] F by (simp add: eq)
      next
        case (Inr p)
        obtain xs b'' where p: "p = (xs, b'')" by (cases p)
        have "length xs \<le> MaxPlayerInvites"
          using Inr by (auto simp: p read_invite_list_def bindE_def dest: read_invitees_length split: sum.splits prod.splits)
        then have "roomy (length xs + 0) w1" using roomy_le [OF got(2)] by (simp add: MaxPlayerInvites_def)
        from good_fold_room [OF good_invite_listed [OF h] got(1) this]
        have "cal_good T (add_mset (ceEventId e) {#}) {#} (fold (invite_listed E (csGuid me) e) xs w1)" by (simp add: ei)
        then show ?thesis using good_add_event [OF h] F Inr by (simp add: eq p handled_def)
      qed
    qed
  qed
qed (simp add: HandleCalendarAddEvent_def reading_def g)

lemma good_handle_update:
  assumes h: "hash_env E" and g: "cal_good T hE hI w"
  shows "cal_good T hE hI (fst (HandleCalendarUpdateEvent E me b w))"
proof -
  have ev: "cal_good T hE hI (UpdateEvent e (w\<lparr>cmEvents := upd_event k (\<lambda>_. e) (cmEvents w)\<rparr>))"
    if "GetEvent k w = Some old" "ceEventId e = ceEventId old" for k old e
    using good_write_event [OF g that(1)] that GetEvent_in by metis
  show ?thesis
    unfolding HandleCalendarUpdateEvent_def Let_def split_def
    by (intro good_reading g)
      (auto simp: g handled_def good_result [OF h] split: option.split
        intro!: cal_good_quiet [OF cal_quiet_sends(2) [OF h]] ev good_result [OF h])
qed

lemma good_handle_copy:
  assumes h: "hash_env E" and g: "cal_good T {#} {#} w" and r: "roomy (length (all_invites w) + 1) w"
  shows "cal_good T {#} {#} (fst (HandleCalendarCopyEvent E me b w))"
proof -
  have cp: "cal_good T {#} {#} (fst (let (i, w) = GetFreeEventId w;
                newEvent = (CalendarEvent_copy oldEvent i)\<lparr>ceEventTime := t\<rparr>;
                w = AddEvent E newEvent CALENDAR_SENDTYPE_COPY w;
                (invites, w) = GetEventInvites E k w
            in handled (fold (copy_invite E newEvent) invites w)))" for oldEvent t k
  proof -
    obtain i w1 where i: "GetFreeEventId w = (i, w1)" by fastforce
    let ?e = "(CalendarEvent_copy oldEvent i)\<lparr>ceEventTime := t\<rparr>"
    let ?w2 = "AddEvent E ?e CALENDAR_SENDTYPE_COPY w1"
    obtain vs w3 where v: "invites_at E k ?w2 = (vs, w3)" by fastforce
    have "roomy (Suc (length (all_invites w))) w" using r by simp
    note got = good_event_id [OF g this i]
    have g2: "cal_good T {#} {#} ?w2"
      using good_add_event [OF h, of T ?e "{#}"] got(1) by (simp add: CalendarEvent_copy_def)
    have q1: "cal_quiet (UpdateEvent ?e (w1\<lparr>cmEvents := envEventOrder E (?e # cmEvents w1)\<rparr>)) ?w2"
      using cal_quiet_sends(8) [OF h] by (simp add: AddEvent_def)
    have q3: "cal_quiet ?w2 w3" using cal_quiet_invites_at [OF h, of ?w2 k] by (simp add: v)
    have g3: "cal_good T {#} {#} w3" by (rule cal_good_quiet [OF q3 g2])
    have "roomy (length (all_invites w)) ?w2" using roomy_quiet [OF q1] got(2) by (simp add: roomy_def)
    then have r3: "roomy (length (all_invites w)) w3" by (rule roomy_quiet [OF q3])
    have "cmInvites w1 = cmInvites w" using GetFreeEventId_frame(2) [of w] by (simp add: i)
    then have st: "store_mset (cmInvites w3) = store_mset (cmInvites w)" using q1 q3 by (simp add: cal_quiet_def)
    have kd: "keyed (cmInvites ?w2)" using g2 by (simp add: cal_good_def)
    note some = invites_at_some [OF h kd v]
    have "store_mset (filter (\<lambda>(k', us). k' \<noteq> k) (cmInvites w3)) + mset vs = store_mset (cmInvites w3)"
      using store_mset_without [OF _ some(1)] some(2) by (simp add: keyed_def)
    then have "length vs \<le> size (store_mset (cmInvites w3))" by (metis le_add2 size_mset size_union)
    moreover have "size (store_mset (cmInvites w)) = length (all_invites w)" by (simp flip: mset_all_invites)
    ultimately have "length vs \<le> length (all_invites w)" using st by simp
    then have "roomy (length vs + 0) w3" using roomy_le [OF r3] by simp
    from good_fold_room [OF good_copy_invite [OF h] g3 this] show ?thesis
      by (simp add: i v GetEventInvites_def handled_def Let_def)
  qed
  show ?thesis
    unfolding HandleCalendarCopyEvent_def split_def
    by (intro good_reading g)
      (auto simp: g handled_def Let_def intro!: good_result [OF h] split: option.split
        intro: cp [unfolded handled_def split_def Let_def fst_conv])
qed

lemma good_event_invite:
  assumes h: "hash_env E" and g: "cal_good T {#} {#} w" and r: "roomy 1 w"
  shows "cal_good T {#} {#} (event_invite E me k i name pre gu w)"
proof -
  have r1: "roomy (Suc 0) w" using r by simp
  have "cal_good T {#} {#} (let (j, w) = GetFreeInviteId w
      in CalendarMgr_AddInvite E e (CalendarInvite_new j k g' s 946684800 st rk '''') w)" for e g' s st rk
    using good_new_invite [OF h g r1, of "\<lambda>j. CalendarInvite_new j k g' s 946684800 st rk ''''" e]
    by (simp add: CalendarInvite_new_def)
  then show ?thesis
    by (auto simp: event_invite_def Let_def intro!: good_result [OF h] cal_good_quiet [OF cal_quiet_sends(1) [OF h]] g
        split: option.split)
qed

lemma good_event_signup:
  assumes h: "hash_env E" and g: "cal_good T {#} {#} w" and r: "roomy 1 w"
  shows "cal_good T {#} {#} (event_signup E me k tentative w)"
proof -
  have r1: "roomy (Suc 0) w" using r by simp
  have "cal_good T {#} {#} (let (j, w) = GetFreeInviteId w
      in CalendarMgr_AddInvite E e (CalendarInvite_new j k g' s t st rk '''') w)" for e g' s t st rk
    using good_new_invite [OF h g r1, of "\<lambda>j. CalendarInvite_new j k g' s t st rk ''''" e]
    by (simp add: CalendarInvite_new_def)
  then show ?thesis
    by (auto simp: event_signup_def Let_def split_def intro!: good_result [OF h] cal_good_quiet [OF cal_quiet_sends(10) [OF h]] g
        split: option.split)
qed

lemma good_event_rsvp:
  assumes h: "hash_env E" and g: "cal_good T hE hI w"
  shows "cal_good T hE hI (event_rsvp E me k i status w)"
proof -
  have "cal_good T hE hI (UpdateInvite (v\<lparr>ciStatus := s, ciStatusTime := t\<rparr>)
      (write_invite i (\<lambda>_. v\<lparr>ciStatus := s, ciStatusTime := t\<rparr>) w))" if "GetInvite i w = Some v" for v s t
    by (rule good_write_invite [OF g that]) simp_all
  then show ?thesis
    by (auto simp: event_rsvp_def Let_def split: option.split
        intro!: good_result [OF h] g cal_good_quiet [OF cal_quiet_sends(10) [OF h]] cal_good_quiet [OF cal_quiet_sends(3) [OF h]])
qed

lemma good_event_status:
  assumes h: "hash_env E" and g: "cal_good T hE hI w"
  shows "cal_good T hE hI (event_status E me invitee k i status w)"
proof -
  have "cal_good T hE hI (UpdateInvite (v\<lparr>ciStatus := s\<rparr>) (write_invite i (\<lambda>_. v\<lparr>ciStatus := s\<rparr>) w))"
    if "GetInvite i w = Some v" for v s
    by (rule good_write_invite [OF g that]) simp_all
  then show ?thesis
    by (auto simp: event_status_def Let_def split: option.split
        intro!: good_result [OF h] g cal_good_quiet [OF cal_quiet_sends(10) [OF h]] cal_good_quiet [OF cal_quiet_sends(3) [OF h]])
qed

lemma good_event_moderator_status:
  assumes h: "hash_env E" and g: "cal_good T hE hI w"
  shows "cal_good T hE hI (event_moderator_status E me k i rank w)"
proof -
  have "cal_good T hE hI (UpdateInvite (v\<lparr>ciRank := s\<rparr>) (write_invite i (\<lambda>_. v\<lparr>ciRank := s\<rparr>) w))"
    if "GetInvite i w = Some v" for v s
    by (rule good_write_invite [OF g that]) simp_all
  then show ?thesis
    by (auto simp: event_moderator_status_def Let_def split: option.split
        intro!: good_result [OF h] g cal_good_quiet [OF cal_quiet_sends(6) [OF h]])
qed

lemma good_event_remove_invite:
  assumes h: "hash_env E" and g: "cal_good T hE hI w"
  shows "cal_good T hE hI (event_remove_invite E me invitee i k w)"
  by (auto simp: event_remove_invite_def intro!: good_result [OF h] g good_remove_invite [OF h] split: option.split)

text \<open>
  A request of a client: the opcode, as the table of src/src/server/game/Server/Protocol/Opcodes.cpp
  routes it, and the packet.
\<close>

datatype calOpcode =
    CMSG_CALENDAR_GET_EVENT
  | CMSG_CALENDAR_ADD_EVENT
  | CMSG_CALENDAR_UPDATE_EVENT
  | CMSG_CALENDAR_REMOVE_EVENT
  | CMSG_CALENDAR_COPY_EVENT
  | CMSG_CALENDAR_EVENT_INVITE
  | CMSG_CALENDAR_EVENT_RSVP
  | CMSG_CALENDAR_EVENT_REMOVE_INVITE
  | CMSG_CALENDAR_EVENT_STATUS
  | CMSG_CALENDAR_EVENT_MODERATOR_STATUS
  | CMSG_CALENDAR_GET_NUM_PENDING
  | CMSG_CALENDAR_EVENT_SIGNUP

fun calendar_request :: "calOpcode \<Rightarrow> calEnv \<Rightarrow> calSession \<Rightarrow> byteBuffer \<Rightarrow> calMgr \<Rightarrow> calMgr" where
  "calendar_request CMSG_CALENDAR_GET_EVENT E me b w = fst (HandleCalendarGetEvent E me b w)"
| "calendar_request CMSG_CALENDAR_ADD_EVENT E me b w = fst (HandleCalendarAddEvent E me b w)"
| "calendar_request CMSG_CALENDAR_UPDATE_EVENT E me b w = fst (HandleCalendarUpdateEvent E me b w)"
| "calendar_request CMSG_CALENDAR_REMOVE_EVENT E me b w = fst (HandleCalendarRemoveEvent E me b w)"
| "calendar_request CMSG_CALENDAR_COPY_EVENT E me b w = fst (HandleCalendarCopyEvent E me b w)"
| "calendar_request CMSG_CALENDAR_EVENT_INVITE E me b w = fst (HandleCalendarEventInvite E me b w)"
| "calendar_request CMSG_CALENDAR_EVENT_RSVP E me b w = fst (HandleCalendarEventRsvp E me b w)"
| "calendar_request CMSG_CALENDAR_EVENT_REMOVE_INVITE E me b w = fst (HandleCalendarEventRemoveInvite E me b w)"
| "calendar_request CMSG_CALENDAR_EVENT_STATUS E me b w = fst (HandleCalendarEventStatus E me b w)"
| "calendar_request CMSG_CALENDAR_EVENT_MODERATOR_STATUS E me b w = fst (HandleCalendarEventModeratorStatus E me b w)"
| "calendar_request CMSG_CALENDAR_GET_NUM_PENDING E me b w = HandleCalendarGetNumPending me w"
| "calendar_request CMSG_CALENDAR_EVENT_SIGNUP E me b w = fst (HandleCalendarEventSignup E me b w)"

lemma good_handle_get:
  assumes h: "hash_env E" and g: "cal_good T hE hI w"
  shows "cal_good T hE hI (fst (HandleCalendarGetEvent E me b w))"
  unfolding HandleCalendarGetEvent_def split_def
  by (rule good_reading [OF g])
    (auto simp: handled_def intro!: good_result [OF h] g cal_good_quiet [OF cal_quiet_sends(8) [OF h]] split: option.split)

lemma good_handle_invites:
  assumes h: "hash_env E" and g: "cal_good T {#} {#} w" and r: "roomy 1 w"
  shows "cal_good T {#} {#} (fst (HandleCalendarEventInvite E me b w))"
    and "cal_good T {#} {#} (fst (HandleCalendarEventSignup E me b w))"
    and "cal_good T {#} {#} (fst (HandleCalendarEventRsvp E me b w))"
    and "cal_good T {#} {#} (fst (HandleCalendarEventStatus E me b w))"
    and "cal_good T {#} {#} (fst (HandleCalendarEventModeratorStatus E me b w))"
    and "cal_good T {#} {#} (fst (HandleCalendarEventRemoveInvite E me b w))"
    and "cal_good T {#} {#} (fst (HandleCalendarRemoveEvent E me b w))"
  unfolding HandleCalendarEventInvite_def HandleCalendarEventSignup_def HandleCalendarEventRsvp_def
    HandleCalendarEventStatus_def HandleCalendarEventModeratorStatus_def HandleCalendarEventRemoveInvite_def
    HandleCalendarRemoveEvent_def split_def handled_def
  by ((intro good_reading g)?, simp add: good_event_invite [OF h g r] good_event_signup [OF h g r] good_event_rsvp [OF h g]
    good_event_status [OF h g] good_event_moderator_status [OF h g] good_event_remove_invite [OF h g]
    good_remove_event [OF h g])+

lemma good_request:
  assumes h: "hash_env E" and g: "cal_good T {#} {#} w" and r: "roomy (length (all_invites w) + 101) w"
  shows "cal_good T {#} {#} (calendar_request oc E me b w)"
proof -
  have r1: "roomy 1 w" "roomy 101 w" "roomy (length (all_invites w) + 1) w" by (rule roomy_le [OF r]; simp)+
  have "cal_quiet w (HandleCalendarGetNumPending me w)" by (simp add: HandleCalendarGetNumPending_def)
  then have "cal_good T {#} {#} (HandleCalendarGetNumPending me w)" using g by (rule cal_good_quiet)
  then show ?thesis
    by (cases oc) (simp_all add: good_handle_add [OF h g r1(2)] good_handle_update [OF h g]
      good_handle_copy [OF h g r1(3)] good_handle_get [OF h g] good_handle_invites [OF h g r1(1)])
qed

section \<open>Reachable states\<close>

text \<open>
  A step is a client's request, the deletion of a character (src/src/server/game/Handlers/CharacterHandler.cpp)
  or a player's leaving a guild (src/src/server/game/Guilds/Guild.cpp). The players, guilds, clock
  and the order of the hash tables may differ from step to step. A request needs room in the
  64-bit counters of the ids.
\<close>

inductive cal_step :: "calMgr \<Rightarrow> calMgr \<Rightarrow> bool" where
  request: "hash_env E \<Longrightarrow> roomy (length (all_invites w) + 101) w \<Longrightarrow> cal_step w (calendar_request oc E me b w)"
| char_deleted: "hash_env E \<Longrightarrow> cal_step w (RemoveAllPlayerEventsAndInvites E guid w)"
| left_guild: "hash_env E \<Longrightarrow> cal_step w (RemovePlayerGuildEventsAndSignups E guid guildId w)"

inductive cal_reach :: "calMgr \<Rightarrow> calMgr \<Rightarrow> bool" for w0 where
  start: "cal_reach w0 w0"
| more: "cal_reach w0 w \<Longrightarrow> cal_step w w' \<Longrightarrow> cal_reach w0 w'"

lemma good_step: "cal_step w w' \<Longrightarrow> cal_good T {#} {#} w \<Longrightarrow> cal_good T {#} {#} w'"
  by (induction rule: cal_step.induct) (simp_all add: good_request good_remove_all good_remove_guild)

lemma good_reach: "cal_reach w0 w \<Longrightarrow> cal_good T {#} {#} w0 \<Longrightarrow> cal_good T {#} {#} w"
  by (induction rule: cal_reach.induct) (auto intro: good_step)

end
