(* ===== verification/CalendarLoad.thy ===== *)
theory CalendarLoad
  imports CalendarSteps
begin

text \<open>
  Loading the calendar from its two tables establishes the invariant, and loading the rows of
  the objects in memory brings the objects back.
\<close>

section \<open>Objects of rows\<close>

definition loaded_event :: "calEnv \<Rightarrow> eventRow \<Rightarrow> calEvent" where
  "loaded_event E r = (let creatorGUID = MAKE_NEW_GUID (erCreator r) 0 HIGHGUID_PLAYER; flags = erFlags r in
     CalendarEvent_new (erId r) creatorGUID
       (if flags AND CALENDAR_FLAG_GUILD_EVENT \<noteq> 0 \<or> flags AND CALENDAR_FLAG_WITHOUT_INVITES \<noteq> 0
        then envGuildOf E (GUID_LOPART creatorGUID) else 0)
       (ucast (erType r)) (erDungeon r) (uint (erTime r)) flags (uint (erTime2 r)) (erTitle r) (erDescription r))"

definition loaded_invite :: "inviteRow \<Rightarrow> calInvite" where
  "loaded_invite r = CalendarInvite_new (irId r) (irEvent r) (MAKE_NEW_GUID (irInvitee r) 0 HIGHGUID_PLAYER)
     (MAKE_NEW_GUID (irSender r) 0 HIGHGUID_PLAYER) (uint (irStatusTime r)) (ucast (irStatus r)) (ucast (irRank r)) (irText r)"

lemma load_event_eq:
  "load_event E r w = w\<lparr>cmEvents := envEventOrder E (loaded_event E r # cmEvents w), cmMaxEvent := max (cmMaxEvent w) (erId r)\<rparr>"
  by (simp add: load_event_def loaded_event_def Let_def)

lemma load_invite_eq:
  "load_invite E r w = (push_invite E (loaded_invite r) w)\<lparr>cmMaxInvite := max (cmMaxInvite w) (irId r)\<rparr>"
  by (simp add: load_invite_def loaded_invite_def Let_def)

lemma loaded_ids [simp]:
  "ceEventId (loaded_event E r) = erId r" "ciInviteId (loaded_invite q) = irId q"
  by (simp_all add: loaded_event_def loaded_invite_def CalendarEvent_new_def CalendarInvite_new_def Let_def)

lemma u8_up_down: "ucast (ucast (x :: u8) :: u32) = x"
  by (rule bit_word_eqI) (auto simp: bit_simps dest: bit_imp_le_length)

lemma row_of_loaded: "event_row (loaded_event E r) = r" "invite_row (loaded_invite q) = q"
  by (cases r; simp add: event_row_def loaded_event_def CalendarEvent_new_def u8_up_down Let_def)
    (cases q; simp add: invite_row_def loaded_invite_def CalendarInvite_new_def u8_up_down)

section \<open>The loops over the rows\<close>

lemma load_events_effect:
  fixes E :: calEnv and rows :: "eventRow list" and w :: calMgr
  assumes h: "hash_env E"
  defines "w' \<equiv> fold (load_event E) rows w"
  shows "mset (cmEvents w') = mset (map (loaded_event E) rows) + mset (cmEvents w) \<and>
    cmMaxEvent w' = fold (\<lambda>r m. max m (erId r)) rows (cmMaxEvent w) \<and> cmInvites w' = cmInvites w \<and>
    cmFreeEvents w' = cmFreeEvents w \<and> cmFreeInvites w' = cmFreeInvites w \<and> cmMaxInvite w' = cmMaxInvite w \<and>
    cmOut w' = cmOut w"
  unfolding w'_def
proof (induction rows arbitrary: w)
  case (Cons r rows)
  have "mset (envEventOrder E es) = mset es" for es using h by (simp add: hash_env_def)
  then show ?case using Cons.IH [of "load_event E r w"] by (simp add: load_event_eq)
qed simp

lemma load_invites_effect:
  fixes E :: calEnv and rows :: "inviteRow list" and w :: calMgr
  assumes h: "hash_env E" and k: "keyed (cmInvites w)"
  defines "w' \<equiv> fold (load_invite E) rows w"
  shows "store_mset (cmInvites w') = mset (map loaded_invite rows) + store_mset (cmInvites w) \<and> keyed (cmInvites w') \<and>
    cmMaxInvite w' = fold (\<lambda>r m. max m (irId r)) rows (cmMaxInvite w) \<and> cmEvents w' = cmEvents w \<and>
    cmFreeEvents w' = cmFreeEvents w \<and> cmFreeInvites w' = cmFreeInvites w \<and> cmMaxEvent w' = cmMaxEvent w \<and>
    cmOut w' = cmOut w"
  unfolding w'_def using k
proof (induction rows arbitrary: w)
  case (Cons r rows)
  note p = push_invite_store [OF h Cons.prems, of "loaded_invite r"]
  have k': "keyed (cmInvites (load_invite E r w))" using p by (simp add: load_invite_eq)
  show ?case using Cons.IH [OF k'] p by (simp add: load_invite_eq)
qed simp

lemma fold_max_up:
  fixes f :: "'a \<Rightarrow> u64"
  shows "m \<le> fold (\<lambda>r m. max m (f r)) rows m"
proof (induction rows arbitrary: m)
  case (Cons r rows)
  have "m \<le> max m (f r)" by (rule max.cobounded1)
  also have "\<dots> \<le> fold (\<lambda>r m. max m (f r)) rows (max m (f r))" by (rule Cons)
  finally show ?case unfolding fold_Cons comp_apply .
qed simp

lemma fold_max_ge:
  fixes f :: "'a \<Rightarrow> u64"
  shows "r \<in> set rows \<Longrightarrow> f r \<le> fold (\<lambda>r m. max m (f r)) rows m"
proof (induction rows arbitrary: m)
  case (Cons q rows)
  show ?case
  proof (cases "r = q")
    case True
    have "f q \<le> max m (f q)" by (rule max.cobounded2)
    also have "\<dots> \<le> fold (\<lambda>r m. max m (f r)) rows (max m (f q))" by (rule fold_max_up)
    finally show ?thesis unfolding fold_Cons comp_apply True .
  next
    case False
    then have "r \<in> set rows" using Cons.prems by simp
    from Cons.IH [OF this] show ?thesis unfolding fold_Cons comp_apply .
  qed
qed simp

text \<open>The ids below the highest one that no loaded object has.\<close>

lemma gaps_pool:
  assumes "\<And>x. x \<in># ids \<Longrightarrow> 0 < x \<and> x \<le> mx" and "\<And>x. count ids x \<le> 1"
  shows "id_pool mx (filter (\<lambda>i. i \<notin># ids) (map of_nat [1..<unat mx])) ids"
proof -
  have small: "unat (of_nat n :: u64) = n" if "n < unat mx" for n
  proof -
    have "unat mx < 2 ^ 64" using unsigned_less [of mx] by simp
    with that have "n < 2 ^ 64" by (rule less_trans)
    then show ?thesis by (simp add: unat_of_nat)
  qed
  have "inj_on (of_nat :: nat \<Rightarrow> u64) {1..<unat mx}" by (rule inj_onI) (metis atLeastLessThan_iff small)
  then have d: "distinct (map (of_nat :: nat \<Rightarrow> u64) [1..<unat mx])" by (simp add: distinct_map)
  have "0 < (of_nat n :: u64) \<and> of_nat n \<le> mx" if "1 \<le> n" "n < unat mx" for n
    using small [OF that(2)] that by (simp add: word_less_nat_alt word_le_nat_alt)
  then show ?thesis using d assms by (auto simp: id_pool_def)
qed

definition rows_ok :: "eventRow list \<Rightarrow> inviteRow list \<Rightarrow> bool" where
  "rows_ok evs ins \<longleftrightarrow> distinct (map erId evs) \<and> (\<forall>r\<in>set evs. 0 < erId r) \<and>
     distinct (map irId ins) \<and> (\<forall>r\<in>set ins. 0 < irId r)"

definition tables_of :: "eventRow list \<Rightarrow> inviteRow list \<Rightarrow> calTables" where
  "tables_of evs ins = (map_of (map (\<lambda>r. (erId r, r)) evs), map_of (map (\<lambda>r. (irId r, r)) ins))"

lemma LoadFromDB_effect:
  fixes E :: calEnv and evs :: "eventRow list" and ins :: "inviteRow list"
  assumes h: "hash_env E"
  defines "w \<equiv> CalendarMgr_LoadFromDB E evs ins CalendarMgr_new"
  shows "mset (cmEvents w) = mset (map (loaded_event E) evs)" "store_mset (cmInvites w) = mset (map loaded_invite ins)"
    "keyed (cmInvites w)" "cmOut w = []"
    "cmMaxEvent w = fold (\<lambda>r m. max m (erId r)) evs 0" "cmMaxInvite w = fold (\<lambda>r m. max m (irId r)) ins 0"
    "cmFreeEvents w = filter (\<lambda>i. i \<notin># event_ids w) (map of_nat [1..<unat (cmMaxEvent w)])"
    "cmFreeInvites w = filter (\<lambda>i. i \<notin># invite_ids w) (map of_nat [1..<unat (cmMaxInvite w)])"
proof -
  let ?w1 = "fold (load_event E) evs CalendarMgr_new"
  let ?w2 = "fold (load_invite E) ins ?w1"
  note e = load_events_effect [OF h, of evs CalendarMgr_new]
  have k1: "keyed (cmInvites ?w1)" using e by (simp add: CalendarMgr_new_def keyed_def)
  note i = load_invites_effect [OF h k1, of ins]
  have w: "w = ?w2\<lparr>cmFreeEvents := cmFreeEvents ?w2 @ free_event_ids ?w2,
      cmFreeInvites := cmFreeInvites ?w2 @ free_invite_ids (?w2\<lparr>cmFreeEvents := cmFreeEvents ?w2 @ free_event_ids ?w2\<rparr>)\<rparr>"
    by (simp add: w_def CalendarMgr_LoadFromDB_def CalendarMgr_new_def Let_def)
  have ge: "GetEvent x ?w2 = None \<longleftrightarrow> x \<notin># event_ids ?w2" for x
    by (simp add: GetEvent_None event_ids_def)
  have gi: "find (\<lambda>v. ciInviteId v = x) (all_invites ?w2) = None \<longleftrightarrow> x \<notin># invite_ids ?w2" for x
    by (auto simp: find_None_iff invite_ids_def set_all_invites)
  show "mset (cmEvents w) = mset (map (loaded_event E) evs)" "store_mset (cmInvites w) = mset (map loaded_invite ins)"
    "keyed (cmInvites w)" "cmOut w = []"
    "cmMaxEvent w = fold (\<lambda>r m. max m (erId r)) evs 0" "cmMaxInvite w = fold (\<lambda>r m. max m (irId r)) ins 0"
    using e i by (simp_all add: w CalendarMgr_new_def store_mset_def)
  show "cmFreeEvents w = filter (\<lambda>i. i \<notin># event_ids w) (map of_nat [1..<unat (cmMaxEvent w)])"
    using e i ge by (simp add: w CalendarMgr_new_def free_event_ids_def event_ids_def)
  show "cmFreeInvites w = filter (\<lambda>i. i \<notin># invite_ids w) (map of_nat [1..<unat (cmMaxInvite w)])"
    using e i gi by (simp add: w CalendarMgr_new_def free_invite_ids_def invite_ids_def GetInvite_def all_invites_def)
qed

lemma graph_tables_of:
  assumes "rows_ok evs ins"
  shows "Map.graph (fst (tables_of evs ins)) = (\<lambda>r. (erId r, r)) ` set evs"
    "Map.graph (snd (tables_of evs ins)) = (\<lambda>r. (irId r, r)) ` set ins"
proof -
  have "distinct (map fst (map (\<lambda>r. (erId r, r)) evs))" "distinct (map fst (map (\<lambda>r. (irId r, r)) ins))"
    using assms by (simp_all add: rows_ok_def comp_def)
  then show "Map.graph (fst (tables_of evs ins)) = (\<lambda>r. (erId r, r)) ` set evs"
    "Map.graph (snd (tables_of evs ins)) = (\<lambda>r. (irId r, r)) ` set ins"
    unfolding tables_of_def fst_conv snd_conv by (simp_all only: graph_map_of_if_distinct_dom set_map)
qed

lemma count_distinct: "distinct xs \<Longrightarrow> count (mset xs) x \<le> 1"
  by (simp add: distinct_count_atmost_1)

lemma good_LoadFromDB:
  assumes h: "hash_env E" and rows: "rows_ok evs ins"
  shows "cal_good (tables_of evs ins) {#} {#} (CalendarMgr_LoadFromDB E evs ins CalendarMgr_new)"
proof -
  let ?w = "CalendarMgr_LoadFromDB E evs ins CalendarMgr_new"
  note l = LoadFromDB_effect [OF h, of evs ins]
  have ids: "event_ids ?w = mset (map erId evs)" "invite_ids ?w = mset (map irId ins)"
    by (simp_all add: event_ids_def invite_ids_def l image_mset.compositionality comp_def)
  have "id_pool (cmMaxEvent ?w) (cmFreeEvents ?w) (event_ids ?w)"
    unfolding l(7)
  proof (rule gaps_pool)
    show "0 < x \<and> x \<le> cmMaxEvent ?w" if "x \<in># event_ids ?w" for x
      using that rows fold_max_ge [of _ evs erId 0] by (auto simp: ids l rows_ok_def)
    show "count (event_ids ?w) x \<le> 1" for x using rows by (simp only: ids count_distinct rows_ok_def)
  qed
  moreover have "id_pool (cmMaxInvite ?w) (cmFreeInvites ?w) (invite_ids ?w)"
    unfolding l(8)
  proof (rule gaps_pool)
    show "0 < x \<and> x \<le> cmMaxInvite ?w" if "x \<in># invite_ids ?w" for x
      using that rows fold_max_ge [of _ ins irId 0] by (auto simp: ids l rows_ok_def)
    show "count (invite_ids ?w) x \<le> 1" for x using rows by (simp only: ids count_distinct rows_ok_def)
  qed
  moreover have "set (cmEvents ?w) = loaded_event E ` set evs"
    using arg_cong [OF l(1), of set_mset] by simp
  moreover have "set_mset (store_mset (cmInvites ?w)) = loaded_invite ` set ins" by (simp add: l)
  ultimately show ?thesis
    using l(3) graph_tables_of [OF rows]
    by (simp add: cal_good_def l(4) run_effects_def ev_tab_def inv_tab_def image_image row_of_loaded)
qed

end
