(* ===== verification/CalendarProps.thy ===== *)
theory CalendarProps
  imports CalendarLoad
begin

text \<open>
  What the calendar guarantees in every state that requests, deletions of characters and
  leavings of guilds reach from the loaded tables, and what single operations do.
\<close>

section \<open>Ids and look-ups\<close>

lemma good_distinct:
  assumes "cal_good T hE hI w"
  shows "distinct (map ceEventId (cmEvents w))" "distinct (map ciInviteId (all_invites w))"
proof -
  have "count (event_ids w) x \<le> 1" "count (invite_ids w) x \<le> 1" for x
    using assms by (auto simp: cal_good_def id_pool_def elim: allE [of _ x])
  moreover have "event_ids w = mset (map ceEventId (cmEvents w))" "invite_ids w = mset (map ciInviteId (all_invites w))"
    by (simp_all add: event_ids_def invite_ids_def mset_all_invites)
  ultimately show "distinct (map ceEventId (cmEvents w))" "distinct (map ciInviteId (all_invites w))"
    by (metis One_nat_def distinct_count_atmost_1 le_Suc_eq le_zero_eq count_eq_zero_iff set_mset_mset)+
qed

lemma find_event_unique:
  "distinct (map ceEventId es) \<Longrightarrow> i < length es \<Longrightarrow> find_event (ceEventId (es ! i)) es = Some (i, es ! i)"
proof (induction es arbitrary: i)
  case (Cons e es)
  then show ?case using nth_mem by (cases i) (auto simp: image_iff)
qed simp

lemma GetEvent_iff:
  assumes "cal_good T hE hI w"
  shows "GetEvent k w = Some e \<longleftrightarrow> e \<in> set (cmEvents w) \<and> ceEventId e = k"
proof
  assume "e \<in> set (cmEvents w) \<and> ceEventId e = k"
  then obtain i where "i < length (cmEvents w)" "cmEvents w ! i = e" "ceEventId e = k" by (auto simp: in_set_conv_nth)
  then show "GetEvent k w = Some e"
    using find_event_unique [OF good_distinct(1) [OF assms]] by (fastforce simp: GetEvent_def)
qed (rule GetEvent_in)

lemma find_unique:
  "distinct (map f xs) \<Longrightarrow> x \<in> set xs \<Longrightarrow> find (\<lambda>y. f y = f x) xs = Some x"
  by (induction xs) (auto simp: image_iff)

lemma GetInvite_iff:
  assumes "cal_good T hE hI w"
  shows "GetInvite k w = Some v \<longleftrightarrow> v \<in> set (all_invites w) \<and> ciInviteId v = k"
  using find_unique [OF good_distinct(2) [OF assms], of v] GetInvite_in [of k w v] by (auto simp: GetInvite_def)

lemma graph_image_lookup:
  assumes "Map.graph m = (\<lambda>x. (f x, g x)) ` S" and "\<And>k x. l k = Some x \<longleftrightarrow> x \<in> S \<and> f x = k"
  shows "m = (\<lambda>k. map_option g (l k))"
proof
  fix k
  show "m k = map_option g (l k)"
  proof (cases "l k")
    case (Some x)
    then have "(k, g x) \<in> Map.graph m" using assms by auto
    then show ?thesis using Some by (simp add: in_graphD)
  next
    case None
    have "m k = None"
    proof (rule ccontr)
      assume "m k \<noteq> None"
      then obtain y where "(k, y) \<in> Map.graph m" by (auto intro: in_graphI)
      then obtain x where "x \<in> S" "f x = k" using assms(1) by auto
      then show False using assms(2) [of k x] None by simp
    qed
    then show ?thesis using None by simp
  qed
qed

lemma good_tables:
  assumes "cal_good T hE hI w"
  shows "run_effects (cmOut w) T = (\<lambda>k. map_option event_row (GetEvent k w), \<lambda>k. map_option invite_row (GetInvite k w))"
proof -
  have "fst (run_effects (cmOut w) T) = (\<lambda>k. map_option event_row (GetEvent k w))"
    by (rule graph_image_lookup [where S = "set (cmEvents w)" and f = ceEventId])
      (use assms in \<open>simp_all add: cal_good_def ev_tab_def GetEvent_iff [OF assms]\<close>)
  moreover have "snd (run_effects (cmOut w) T) = (\<lambda>k. map_option invite_row (GetInvite k w))"
    by (rule graph_image_lookup [where S = "set (all_invites w)" and f = ciInviteId])
      (use assms in \<open>simp_all add: cal_good_def inv_tab_def set_all_invites GetInvite_iff [OF assms]\<close>)
  ultimately show ?thesis by (simp add: prod_eq_iff)
qed

section \<open>A player's departure\<close>

lemma remove_events_effect:
  assumes "hash_env E" and "cal_good T hE hI w" and "\<forall>j<i. j < length (cmEvents w) \<longrightarrow> \<not> P (cmEvents w ! j)"
  shows "set (cmEvents (remove_events E P r i w)) = {e \<in> set (cmEvents w). \<not> P e} \<and>
    set (all_invites (remove_events E P r i w)) =
      {v \<in> set (all_invites w). \<forall>e\<in>set (cmEvents w). ceEventId e = ciEventId v \<longrightarrow> \<not> P e}"
  using assms
proof (induction E P r i w rule: remove_events.induct)
  case (1 E P r i w)
  let ?es = "cmEvents w"
  show ?case
  proof (cases "i < length ?es")
    case False
    then have "\<not> P e" if "e \<in> set ?es" for e using 1(5) that by (auto simp: in_set_conv_nth)
    then show ?thesis using False by (subst (1 2) remove_events.simps) auto
  next
    case i: True
    show ?thesis
    proof (cases "P (?es ! i)")
      case False
      have "\<forall>j<Suc i. j < length ?es \<longrightarrow> \<not> P (?es ! j)" using 1(5) False by (auto simp: less_Suc_eq)
      then show ?thesis using 1(2) [OF i False 1(3,4)] i False by (subst (1 2) remove_events.simps) simp
    next
      case True
      let ?k = "ceEventId (?es ! i)"
      obtain j w' where ev: "RemoveEvent E ?k r w = (j, w')" by fastforce
      have f: "find_event ?k ?es = Some (i, ?es ! i)"
        by (rule find_event_unique [OF good_distinct(1) [OF 1(4)] i])
      have w': "w' = snd (RemoveEvent E ?k r w)" "j = i" using RemoveEvent_events(2) [of E ?k r w] f ev by simp_all
      note found = RemoveEvent_found [OF 1(3,4) f, of r, folded w'(1)]
      have es': "cmEvents w' = take i ?es @ drop (Suc i) ?es" using RemoveEvent_events(1) [of E ?k r w] f ev by simp
      have "\<forall>j<i. j < length (cmEvents w') \<longrightarrow> \<not> P (cmEvents w' ! j)"
        using 1(5) i by (simp add: es' nth_append)
      from 1(1) [OF i True ev [symmetric] refl 1(3) found(1)] this
      have IH: "set (cmEvents (remove_events E P r i w')) = {e \<in> set (cmEvents w'). \<not> P e}"
        "set (all_invites (remove_events E P r i w')) =
          {v \<in> set (all_invites w'). \<forall>e\<in>set (cmEvents w'). ceEventId e = ciEventId v \<longrightarrow> \<not> P e}"
        by (simp_all add: w'(2))
      have rec: "remove_events E P r i w = remove_events E P r i w'"
        using i True ev w'(2) by (subst remove_events.simps) simp
      have "set ?es = insert (?es ! i) (set (cmEvents w'))"
        using found(2) by (metis set_mset_add_mset_insert set_mset_mset)
      moreover have "ceEventId e \<noteq> ?k" if "e \<in> set (cmEvents w')" for e
      proof -
        have "id_pool (cmMaxEvent w) (cmFreeEvents w) (hE + add_mset ?k (event_ids w'))"
          using 1(4) found(4) by (simp add: cal_good_def)
        then show ?thesis using that by (auto simp: id_pool_add event_ids_def image_iff)
      qed
      ultimately show ?thesis using True IH found(3) by (auto simp: rec)
    qed
  qed
qed

lemma remove_invites_effect:
  fixes E :: calEnv and guid :: u64 and Q :: "calInvite \<Rightarrow> calEvent \<Rightarrow> bool"
  assumes "hash_env E" and "cal_good T hE hI w"
  defines "f \<equiv> \<lambda>v w. case GetEvent (ciEventId v) w of None \<Rightarrow> w
      | Some e \<Rightarrow> (if Q v e then CalendarMgr_RemoveInvite E (ciInviteId v) (ciEventId v) guid w else w)"
  shows "cmEvents (fold f vs w) = cmEvents w \<and>
    set (all_invites (fold f vs w)) = {v \<in> set (all_invites w). \<forall>u\<in>set vs. ciInviteId u = ciInviteId v \<longrightarrow>
      ciEventId u = ciEventId v \<longrightarrow> (\<forall>e\<in>set (cmEvents w). ceEventId e = ciEventId v \<longrightarrow> \<not> Q u e)}"
  using assms(2)
proof (induction vs arbitrary: w)
  case (Cons u vs)
  let ?w = "f u w"
  have one: "cal_good T hE hI ?w \<and> cmEvents ?w = cmEvents w \<and>
    set (all_invites ?w) = {v \<in> set (all_invites w). ciInviteId u = ciInviteId v \<longrightarrow> ciEventId u = ciEventId v \<longrightarrow>
      (\<forall>e\<in>set (cmEvents w). ceEventId e = ciEventId v \<longrightarrow> \<not> Q u e)}"
  proof (cases "GetEvent (ciEventId u) w")
    case None
    then have "?w = w" by (simp add: f_def)
    moreover have "ciEventId u \<notin> ceEventId ` set (cmEvents w)" using None by (simp add: GetEvent_None)
    ultimately show ?thesis using Cons.prems by (auto simp: image_iff)
  next
    case (Some e)
    have e: "x = e" if "x \<in> set (cmEvents w)" "ceEventId x = ciEventId u" for x
      using that Some GetEvent_iff [OF Cons.prems, of "ciEventId u" x] by simp
    have "e \<in> set (cmEvents w)" "ceEventId e = ciEventId u" using GetEvent_in [OF Some] by simp_all
    then have all: "(\<forall>x\<in>set (cmEvents w). ceEventId x = ciEventId u \<longrightarrow> \<not> Q u x) \<longleftrightarrow> \<not> Q u e" using e by blast
    have kept: "(ciInviteId u = ciInviteId v \<longrightarrow> ciEventId u = ciEventId v \<longrightarrow>
        (\<forall>x\<in>set (cmEvents w). ceEventId x = ciEventId v \<longrightarrow> \<not> Q u x)) \<longleftrightarrow>
        \<not> (ciInviteId v = ciInviteId u \<and> ciEventId v = ciEventId u \<and> Q u e)" for v
    proof (cases "ciEventId v = ciEventId u")
      case True
      show ?thesis unfolding True all by auto
    qed auto
    show ?thesis
    proof (cases "Q u e")
      case True
      then have "?w = CalendarMgr_RemoveInvite E (ciInviteId u) (ciEventId u) guid w" by (simp add: f_def Some)
      then show ?thesis
        using CalendarMgr_RemoveInvite_found [OF assms(1) Cons.prems Some, of "ciInviteId u" guid] by (simp only: kept True) simp
    next
      case False
      then have "?w = w" by (simp add: f_def Some)
      then show ?thesis using Cons.prems False by (simp only: kept) simp
    qed
  qed
  show ?case using Cons.IH [of ?w] one by auto
qed simp

lemma CalendarMgr_RemoveInvite_guarded:
  "(\<lambda>v. CalendarMgr_RemoveInvite E (ciInviteId v) (ciEventId v) g) = (\<lambda>v w. case GetEvent (ciEventId v) w of None \<Rightarrow> w
      | Some e \<Rightarrow> (if True then CalendarMgr_RemoveInvite E (ciInviteId v) (ciEventId v) g w else w))"
  by (intro ext) (simp add: CalendarMgr_RemoveInvite_def split: option.split)

lemma same_invite:
  assumes "cal_good T hE hI w" and "u \<in> set (all_invites w)" and "v \<in> set (all_invites w)" and "ciInviteId u = ciInviteId v"
  shows "u = v"
  using assms GetInvite_iff [OF assms(1)] by (metis option.inject)

section \<open>Properties\<close>

text \<open>The calendar that starts from the rows of the tables.\<close>

abbreviation calendar_of :: "calEnv \<Rightarrow> eventRow list \<Rightarrow> inviteRow list \<Rightarrow> calMgr" where
  "calendar_of E evs ins \<equiv> CalendarMgr_LoadFromDB E evs ins CalendarMgr_new"

lemma reach_good:
  "hash_env E \<Longrightarrow> rows_ok evs ins \<Longrightarrow> cal_reach (calendar_of E evs ins) w \<Longrightarrow> cal_good (tables_of evs ins) {#} {#} w"
  using good_reach good_LoadFromDB by blast

text \<open>
  C7. In every reachable state the statements issued so far have made the two tables hold exactly
  the rows of the events and invites in memory: each look-up in a table is the look-up in the
  manager.
\<close>

theorem calendar_tables:
  assumes "hash_env E" and "rows_ok evs ins" and "cal_reach (calendar_of E evs ins) w"
  shows "run_effects (cmOut w) (tables_of evs ins) =
    (\<lambda>k. map_option event_row (GetEvent k w), \<lambda>k. map_option invite_row (GetInvite k w))"
  by (rule good_tables [OF reach_good [OF assms]])

text \<open>
  C8. In every reachable state no two events and no two invites have the same id, and the id that
  the next event or invite gets is not zero and not that of another.
\<close>

theorem calendar_ids_unique:
  assumes "hash_env E" and "rows_ok evs ins" and "cal_reach (calendar_of E evs ins) w" and "roomy 1 w"
  shows "distinct (map ceEventId (cmEvents w)) \<and> distinct (map ciInviteId (all_invites w)) \<and>
    fst (GetFreeEventId w) \<notin> insert 0 (ceEventId ` set (cmEvents w)) \<and>
    fst (GetFreeInviteId w) \<notin> insert 0 (ciInviteId ` set (all_invites w))"
proof -
  note g = reach_good [OF assms(1-3)]
  have room: "cmMaxEvent w + 1 \<noteq> 0" "cmMaxInvite w + 1 \<noteq> 0"
    using assms(4) suc_room [of _ 0] by (auto simp: roomy_def)
  have "fst (GetFreeEventId w) \<notin># event_ids w \<and> fst (GetFreeEventId w) \<noteq> 0"
    using eventIds.get_fresh [OF _ room(1), of "event_ids w"] g by (simp add: cal_good_def)
  moreover have "fst (GetFreeInviteId w) \<notin># invite_ids w \<and> fst (GetFreeInviteId w) \<noteq> 0"
    using inviteIds.get_fresh [OF _ room(2), of "invite_ids w"] g by (simp add: cal_good_def)
  ultimately show ?thesis
    using good_distinct [OF g] by (simp add: event_ids_def invite_ids_def set_all_invites)
qed

text \<open>What a row can hold: the creator is a player, the numbers fit, and the guild is the creator's.\<close>

text \<open>A text that a \<^verbatim>\<open>varchar(255)\<close> column returns as it was written: 255 ASCII characters fit in any case.\<close>

definition storable_text :: "string \<Rightarrow> bool" where
  "storable_text s \<longleftrightarrow> length s \<le> 255 \<and> (\<forall>c\<in>set s. 0 < (of_char c :: nat) \<and> (of_char c :: nat) < 128)"

definition storable_event :: "calEnv \<Rightarrow> calEvent \<Rightarrow> bool" where
  "storable_event E e \<longleftrightarrow> ceCreator e = MAKE_NEW_GUID (GUID_LOPART (ceCreator e)) 0 HIGHGUID_PLAYER \<and> ceType e < 256 \<and>
     0 \<le> ceEventTime e \<and> ceEventTime e < 2 ^ 32 \<and> 0 \<le> ceTimeZone e \<and> ceTimeZone e < 2 ^ 32 \<and>
     storable_text (ceTitle e) \<and> storable_text (ceDescription e) \<and>
     ceGuildId e = (if IsGuildEvent e \<or> IsGuildAnnouncement e then envGuildOf E (GUID_LOPART (ceCreator e)) else 0)"

definition storable_invite :: "calInvite \<Rightarrow> bool" where
  "storable_invite v \<longleftrightarrow> ciInvitee v = MAKE_NEW_GUID (GUID_LOPART (ciInvitee v)) 0 HIGHGUID_PLAYER \<and>
     ciSender v = MAKE_NEW_GUID (GUID_LOPART (ciSender v)) 0 HIGHGUID_PLAYER \<and> ciStatus v < 256 \<and> ciRank v < 256 \<and>
     0 \<le> ciStatusTime v \<and> ciStatusTime v < 2 ^ 32 \<and> storable_text (ciText v)"

lemma ucast_down_up: "x < 256 \<Longrightarrow> ucast (ucast (x :: u32) :: u8) = x"
proof -
  assume "x < 256"
  then have "x < 2 ^ 8" by simp
  then have "bit x n \<Longrightarrow> n < 8" for n by (rule bit_below)
  then show ?thesis by (intro bit_word_eqI) (auto simp: bit_simps)
qed

lemma loaded_of_event_row:
  assumes "storable_event E e"
  shows "loaded_event E (event_row e) = e"
proof -
  have "MAKE_NEW_GUID (GUID_LOPART (ceCreator e)) 0 HIGHGUID_PLAYER = ceCreator e"
    using assms unfolding storable_event_def by (elim conjE) (rule sym)
  then show ?thesis
    using assms by (intro calEvent.equality) (simp_all add: storable_event_def loaded_event_def event_row_def
      CalendarEvent_new_def Let_def ucast_down_up IsGuildEvent_def IsGuildAnnouncement_def uint_word_of_int_small)
qed

lemma loaded_of_invite_row:
  assumes "storable_invite v"
  shows "loaded_invite (invite_row v) = v"
proof -
  have "MAKE_NEW_GUID (GUID_LOPART (ciInvitee v)) 0 HIGHGUID_PLAYER = ciInvitee v"
    "MAKE_NEW_GUID (GUID_LOPART (ciSender v)) 0 HIGHGUID_PLAYER = ciSender v"
    using assms unfolding storable_invite_def by simp_all
  then show ?thesis
    using assms by (intro calInvite.equality) (simp_all add: storable_invite_def loaded_invite_def invite_row_def
      CalendarInvite_new_def ucast_down_up uint_word_of_int_small)
qed

lemma in_graph_iff: "(k, v) \<in> Map.graph m \<longleftrightarrow> m k = Some v"
  using in_graphI in_graphD by metis

lemma rows_of_tables:
  assumes "rows_ok evs ins" and "tables_of evs ins = (\<lambda>k. map_option f (l k), \<lambda>k. map_option g (m k))"
    and "\<And>k x. l k = Some x \<longleftrightarrow> x \<in> A \<and> ka x = k" and "\<And>k x. m k = Some x \<longleftrightarrow> x \<in> B \<and> kb x = k"
  shows "set evs = f ` A" "set ins = g ` B"
proof -
  note gr = graph_tables_of [OF assms(1)]
  have "r \<in> set evs \<longleftrightarrow> r \<in> f ` A" for r
  proof -
    have "r \<in> set evs \<longleftrightarrow> (\<exists>k. (k, r) \<in> Map.graph (fst (tables_of evs ins)))" by (auto simp: gr)
    also have "\<dots> \<longleftrightarrow> (\<exists>k. map_option f (l k) = Some r)" by (simp add: assms(2) in_graph_iff)
    also have "\<dots> \<longleftrightarrow> r \<in> f ` A" using assms(3) by auto
    finally show ?thesis .
  qed
  then show "set evs = f ` A" by blast
  have "r \<in> set ins \<longleftrightarrow> r \<in> g ` B" for r
  proof -
    have "r \<in> set ins \<longleftrightarrow> (\<exists>k. (k, r) \<in> Map.graph (snd (tables_of evs ins)))" by (auto simp: gr)
    also have "\<dots> \<longleftrightarrow> (\<exists>k. map_option g (m k) = Some r)" by (simp add: assms(2) in_graph_iff)
    also have "\<dots> \<longleftrightarrow> r \<in> g ` B" using assms(4) by auto
    finally show ?thesis .
  qed
  then show "set ins = g ` B" by blast
qed

text \<open>
  C9. A restart loses nothing: when the tables that the calendar has written are loaded again, in
  whatever order the queries list the rows, the manager holds the same events and the same
  invites, provided that they fit in the rows - characters by the low half of their id, types,
  states and ranks of one byte, times of 32 bits that are not negative, texts of at most 255 ASCII
  characters - and that the creator of a guild event or announcement is then in the guild the
  event has.
\<close>

theorem calendar_restart:
  assumes "hash_env E" and "rows_ok evs ins" and "cal_reach (calendar_of E evs ins) w"
    and "\<forall>e\<in>set (cmEvents w). storable_event E' e" and "\<forall>v\<in>set (all_invites w). storable_invite v"
    and "hash_env E'" and "rows_ok evs' ins'" and "tables_of evs' ins' = run_effects (cmOut w) (tables_of evs ins)"
  shows "set (cmEvents (calendar_of E' evs' ins')) = set (cmEvents w) \<and>
    set (all_invites (calendar_of E' evs' ins')) = set (all_invites w)"
proof -
  note g = reach_good [OF assms(1-3)]
  have rows: "set evs' = event_row ` set (cmEvents w)" "set ins' = invite_row ` set (all_invites w)"
    using rows_of_tables [OF assms(7) assms(8) [unfolded good_tables [OF g]] GetEvent_iff [OF g] GetInvite_iff [OF g]]
    by simp_all
  note l = LoadFromDB_effect [OF assms(6), of evs' ins']
  have "set (cmEvents (calendar_of E' evs' ins')) = loaded_event E' ` set evs'"
    using arg_cong [OF l(1), of set_mset] by simp
  also have "\<dots> = set (cmEvents w)" using assms(4) by (auto simp: rows image_image loaded_of_event_row)
  finally have "set (cmEvents (calendar_of E' evs' ins')) = set (cmEvents w)" .
  moreover have "set (all_invites (calendar_of E' evs' ins')) = loaded_invite ` set ins'"
    by (simp add: set_all_invites l)
  moreover have "loaded_invite ` set ins' = set (all_invites w)" using assms(5) by (auto simp: rows image_image loaded_of_invite_row)
  ultimately show ?thesis by simp
qed

text \<open>
  C17. Removing an event takes away the event and all its invites and nothing else, and mails
  everybody who was invited, the remover excepted.
\<close>

theorem calendar_event_removed:
  assumes "hash_env E" and "rows_ok evs ins" and "cal_reach (calendar_of E evs ins) w" and "hash_env E'"
    and "GetEvent k w = Some e"
  shows "set (cmEvents (snd (RemoveEvent E' k r w))) = {x \<in> set (cmEvents w). ceEventId x \<noteq> k} \<and>
    set (all_invites (snd (RemoveEvent E' k r w))) = {v \<in> set (all_invites w). ciEventId v \<noteq> k} \<and>
    mset (mails (snd (RemoveEvent E' k r w))) = mset (mails w) + image_mset (event_mail E' e r)
      {#v \<in># mset (all_invites w). ciEventId v = k \<and> r \<noteq> 0 \<and> ciInvitee v \<noteq> r#}"
proof -
  note g = reach_good [OF assms(1-3)]
  obtain i where f: "find_event k (cmEvents w) = Some (i, e)" using assms(5) by (auto simp: GetEvent_def)
  note found = RemoveEvent_found [OF assms(4) g f, of r]
  have e: "ceEventId e = k" using GetEvent_in [OF assms(5)] by simp
  have pool: "id_pool (cmMaxEvent w) (cmFreeEvents w) ({#} + add_mset k (event_ids (snd (RemoveEvent E' k r w))))"
    using g found(4) by (simp add: cal_good_def)
  have "set (cmEvents w) = insert e (set (cmEvents (snd (RemoveEvent E' k r w))))"
    using found(2) by (metis set_mset_add_mset_insert set_mset_mset)
  moreover have "ceEventId x \<noteq> k" if "x \<in> set (cmEvents (snd (RemoveEvent E' k r w)))" for x
    using pool that by (auto simp: id_pool_add event_ids_def image_iff)
  ultimately show ?thesis using found(3,5) e by auto
qed

text \<open>
  C18. When a character is deleted, exactly the events it created go, with their invites, and
  exactly its own invites to the events that remain.
\<close>

theorem calendar_char_deleted:
  fixes guid :: u64
  assumes "hash_env E" and "rows_ok evs ins" and "cal_reach (calendar_of E evs ins) w" and "hash_env E'"
  defines "w' \<equiv> RemoveAllPlayerEventsAndInvites E' guid w"
  shows "set (cmEvents w') = {e \<in> set (cmEvents w). ceCreator e \<noteq> guid} \<and>
    set (all_invites w') = {v \<in> set (all_invites w).
      \<forall>e\<in>set (cmEvents w). ceEventId e = ciEventId v \<longrightarrow> ceCreator e \<noteq> guid \<and> ciInvitee v \<noteq> guid}"
proof -
  note g = reach_good [OF assms(1-3)]
  let ?w1 = "remove_events E' (\<lambda>e. ceCreator e = guid) 0 0 w"
  have g1: "cal_good (tables_of evs ins) {#} {#} ?w1" by (rule good_remove_events [OF assms(4) g])
  have r: "set (cmEvents ?w1) = {e \<in> set (cmEvents w). ceCreator e \<noteq> guid}"
    "set (all_invites ?w1) = {v \<in> set (all_invites w). \<forall>e\<in>set (cmEvents w). ceEventId e = ciEventId v \<longrightarrow> ceCreator e \<noteq> guid}"
    using remove_events_effect [OF assms(4) g, of 0 "\<lambda>e. ceCreator e = guid" 0] by simp_all
  have w': "w' = fold (\<lambda>v w. case GetEvent (ciEventId v) w of None \<Rightarrow> w
      | Some e \<Rightarrow> (if True then CalendarMgr_RemoveInvite E' (ciInviteId v) (ciEventId v) guid w else w)) (GetPlayerInvites guid ?w1) ?w1"
    unfolding w'_def RemoveAllPlayerEventsAndInvites_def Let_def by (subst CalendarMgr_RemoveInvite_guarded) (rule refl)
  note i = remove_invites_effect [OF assms(4) g1, of "\<lambda>_ _. True" guid "GetPlayerInvites guid ?w1", folded w']
  have pl: "u \<in> set (GetPlayerInvites guid ?w1) \<longleftrightarrow> u \<in> set (all_invites ?w1) \<and> ciInvitee u = guid" for u
    by (auto simp: GetPlayerInvites_def)
  have "(\<forall>u\<in>set (GetPlayerInvites guid ?w1). ciInviteId u = ciInviteId v \<longrightarrow> ciEventId u = ciEventId v \<longrightarrow> R v) \<longleftrightarrow>
      (ciInvitee v = guid \<longrightarrow> R v)" if "v \<in> set (all_invites ?w1)" for v R
    using same_invite [OF g1 _ that] pl that by blast
  then have "set (all_invites w') = {v \<in> set (all_invites ?w1). ciInvitee v = guid \<longrightarrow>
      (\<forall>e\<in>set (cmEvents ?w1). ceEventId e = ciEventId v \<longrightarrow> \<not> True)}"
    unfolding conjunct2 [OF i] by (intro Collect_cong conj_cong refl) simp
  then show ?thesis using r i by auto
qed

text \<open>
  When a player leaves a guild, exactly the guild events and announcements it created go, with
  their invites, and exactly its own invites to the remaining events of that guild.
\<close>

theorem calendar_guild_left:
  fixes guid :: u64 and guildId :: u32
  assumes "hash_env E" and "rows_ok evs ins" and "cal_reach (calendar_of E evs ins) w" and "hash_env E'"
  defines "w' \<equiv> RemovePlayerGuildEventsAndSignups E' guid guildId w"
    and "P \<equiv> \<lambda>e. ceCreator e = guid \<and> (IsGuildEvent e \<or> IsGuildAnnouncement e)"
  shows "set (cmEvents w') = {e \<in> set (cmEvents w). \<not> P e} \<and>
    set (all_invites w') = {v \<in> set (all_invites w). \<forall>e\<in>set (cmEvents w). ceEventId e = ciEventId v \<longrightarrow>
      \<not> P e \<and> \<not> (ciInvitee v = guid \<and> IsGuildEvent e \<and> ceGuildId e = guildId)}"
proof -
  note g = reach_good [OF assms(1-3)]
  let ?w1 = "remove_events E' P guid 0 w"
  let ?Q = "\<lambda>(v :: calInvite) e. IsGuildEvent e \<and> ceGuildId e = guildId"
  have g1: "cal_good (tables_of evs ins) {#} {#} ?w1" by (rule good_remove_events [OF assms(4) g])
  have r: "set (cmEvents ?w1) = {e \<in> set (cmEvents w). \<not> P e}"
    "set (all_invites ?w1) = {v \<in> set (all_invites w). \<forall>e\<in>set (cmEvents w). ceEventId e = ciEventId v \<longrightarrow> \<not> P e}"
    using remove_events_effect [OF assms(4) g, of 0 P guid] by simp_all
  have w': "w' = fold (\<lambda>v w. case GetEvent (ciEventId v) w of None \<Rightarrow> w
      | Some e \<Rightarrow> (if ?Q v e then CalendarMgr_RemoveInvite E' (ciInviteId v) (ciEventId v) guid w else w)) (GetPlayerInvites guid ?w1) ?w1"
    unfolding w'_def P_def RemovePlayerGuildEventsAndSignups_def Let_def ..
  note i = remove_invites_effect [OF assms(4) g1, of ?Q guid "GetPlayerInvites guid ?w1", folded w']
  have pl: "u \<in> set (GetPlayerInvites guid ?w1) \<longleftrightarrow> u \<in> set (all_invites ?w1) \<and> ciInvitee u = guid" for u
    by (auto simp: GetPlayerInvites_def)
  have "(\<forall>u\<in>set (GetPlayerInvites guid ?w1). ciInviteId u = ciInviteId v \<longrightarrow> ciEventId u = ciEventId v \<longrightarrow> R v) \<longleftrightarrow>
      (ciInvitee v = guid \<longrightarrow> R v)" if "v \<in> set (all_invites ?w1)" for v R
    using same_invite [OF g1 _ that] pl that by blast
  then have "set (all_invites w') = {v \<in> set (all_invites ?w1). ciInvitee v = guid \<longrightarrow>
      (\<forall>e\<in>set (cmEvents ?w1). ceEventId e = ciEventId v \<longrightarrow> \<not> ?Q v e)}"
    unfolding conjunct2 [OF i] by (intro Collect_cong conj_cong refl) simp
  then show ?thesis using r i by auto
qed

section \<open>Requests\<close>

text \<open>
  C21. Signing up to a guild announcement adds no invite, but it takes an id: the id is below the
  counter, not free afterwards, and no invite has it.
\<close>

theorem signup_loses_id:
  fixes me :: calSession and tentative :: bool
  assumes "hash_env E" and "rows_ok evs ins" and "cal_reach (calendar_of E evs ins) w" and "hash_env E'" and "roomy 1 w"
    and "GetEvent k w = Some e" and "IsGuildAnnouncement e" and "\<not> IsGuildEvent e"
  defines "i \<equiv> fst (GetFreeInviteId w)" and "w' \<equiv> event_signup E' me k tentative w"
  shows "mset (all_invites w') = mset (all_invites w) \<and> i \<le> cmMaxInvite w' \<and> i \<notin> set (cmFreeInvites w') \<and>
    i \<notin> ciInviteId ` set (all_invites w')"
proof -
  note g = reach_good [OF assms(1-3)]
  obtain w1 where get: "GetFreeInviteId w = (i, w1)" unfolding i_def by (metis prod.collapse)
  have "roomy (Suc 0) w" using assms(5) by simp
  note got = good_invite_id [OF g this get]
  define v where "v = CalendarInvite_new i k (csGuid me) (csGuid me) (envNow E')
    (if tentative then CALENDAR_STATUS_TENTATIVE else CALENDAR_STATUS_SIGNED_UP) CALENDAR_RANK_PLAYER ''''"
  have w': "w' = SendCalendarClearPendingAction E' (csGuid me) (CalendarMgr_AddInvite E' e v w1)"
    using assms(6,8) by (simp add: w'_def event_signup_def get v_def Let_def)
  obtain w2 where "cal_quiet w1 w2" "CalendarMgr_AddInvite E' e v w1 = w2" using CalendarMgr_AddInvite_quiet_part [OF assms(4), of w1 e v] assms(7) by metis
  then have q: "cal_quiet w1 w'" using cal_quiet_sends(10) [OF assms(4)] by (auto simp: w' intro: cal_quiet_trans)
  have "cal_good (tables_of evs ins) {#} (add_mset i {#}) w'" by (rule cal_good_quiet [OF q got(1)])
  moreover have "cmInvites w1 = cmInvites w" using GetFreeInviteId_frame(2) [of w] by (simp add: get)
  ultimately show ?thesis
    using q by (simp add: cal_good_def id_pool_add mset_all_invites cal_quiet_def invite_ids_def set_all_invites)
qed

text \<open>
  C22. An answer to an invitation writes the named invite, and no other, whoever is invited and
  whatever event it belongs to: only the event that the packet names is asked whether it is locked.
\<close>

theorem rsvp_writes_any_invite:
  fixes me :: calSession and status :: u32
  assumes "hash_env E" and "rows_ok evs ins" and "cal_reach (calendar_of E evs ins) w" and "hash_env E'"
    and "GetEvent k w = Some e" and "ceFlags e AND CALENDAR_FLAG_INVITES_LOCKED = 0" and "GetInvite i w = Some v"
  defines "w' \<equiv> event_rsvp E' me k i status w"
  shows "GetInvite i w' = Some (v\<lparr>ciStatus := status, ciStatusTime := envNow E'\<rparr>) \<and> cmEvents w' = cmEvents w \<and>
    (\<forall>j. j \<noteq> i \<longrightarrow> GetInvite j w' = GetInvite j w)"
proof -
  note g = reach_good [OF assms(1-3)]
  let ?v = "v\<lparr>ciStatus := status, ciStatusTime := envNow E'\<rparr>"
  let ?w1 = "UpdateInvite ?v (write_invite i (\<lambda>_. ?v) w)"
  have v: "ciInviteId v = i" "v \<in># store_mset (cmInvites w)" using GetInvite_in [OF assms(7)] by (simp_all add: set_all_invites)
  have g1: "cal_good (tables_of evs ins) {#} {#} ?w1" by (rule good_write_invite [OF g assms(7)]) simp_all
  have w': "w' = SendCalendarClearPendingAction E' (csGuid me) (SendCalendarEventStatus E' e ?v ?w1)"
    using assms(5-7) by (simp add: w'_def event_rsvp_def Let_def)
  have q: "cal_quiet ?w1 w'"
    using cal_quiet_trans [OF cal_quiet_sends(3) cal_quiet_sends(10)] assms(4) by (simp add: w')
  have g': "cal_good (tables_of evs ins) {#} {#} w'" by (rule cal_good_quiet [OF q g1])
  have "find (\<lambda>v. ciInviteId v = i) (concat (map snd (cmInvites w))) = Some v"
    using assms(7) by (simp add: GetInvite_def all_invites_def)
  from upd_invites_mset [OF this, of ?v]
  have "add_mset v (store_mset (cmInvites w')) = add_mset ?v (store_mset (cmInvites w))"
    using q by (simp add: cal_quiet_def write_invite_def)
  then have m: "insert v (set (all_invites w')) = insert ?v (set (all_invites w))"
    unfolding set_all_invites by (metis set_mset_add_mset_insert)
  have vi: "v \<in> set (all_invites w)" using v by (simp add: set_all_invites)
  have "?v \<in> set (all_invites w')"
  proof (cases "?v = v")
    case True
    then have "store_mset (cmInvites w') = store_mset (cmInvites w)"
      using \<open>add_mset v (store_mset (cmInvites w')) = add_mset ?v (store_mset (cmInvites w))\<close> by simp
    then show ?thesis using True v(2) by (simp add: set_all_invites)
  next
    case False
    then show ?thesis using m by blast
  qed
  then have "GetInvite i w' = Some ?v" using GetInvite_iff [OF g'] v by simp
  moreover have "GetInvite j w' = Some u \<longleftrightarrow> GetInvite j w = Some u" if "j \<noteq> i" for j u
  proof -
    have "u \<in> set (all_invites w') \<longleftrightarrow> u \<in> set (all_invites w)" if "ciInviteId u \<noteq> i"
    proof -
      have "u \<noteq> v" "u \<noteq> ?v" using that v(1) by auto
      then show ?thesis using m by blast
    qed
    then show ?thesis using that by (auto simp: GetInvite_iff [OF g'] GetInvite_iff [OF g])
  qed
  then have "\<forall>j. j \<noteq> i \<longrightarrow> GetInvite j w' = GetInvite j w" by (metis option.exhaust option.discI)
  moreover have "cmEvents w' = cmEvents w" using q by (simp add: cal_quiet_def write_invite_def)
  ultimately show ?thesis by blast
qed

lemma new_invite_effect:
  fixes v :: "u64 \<Rightarrow> calInvite"
  assumes h: "hash_env E" and g: "cal_good T hE hI w" and na: "\<not> IsGuildAnnouncement e"
  defines "w' \<equiv> let (i, w) = GetFreeInviteId w in CalendarMgr_AddInvite E e (v i) w"
  shows "store_mset (cmInvites w') = add_mset (v (fst (GetFreeInviteId w))) (store_mset (cmInvites w)) \<and> cmEvents w' = cmEvents w"
proof -
  obtain i w1 where i: "GetFreeInviteId w = (i, w1)" by fastforce
  have f: "cmInvites w1 = cmInvites w" "cmEvents w1 = cmEvents w" using GetFreeInviteId_frame(1,2) [of w] by (simp_all add: i)
  obtain w2 where q: "cal_quiet w1 w2" and eq: "CalendarMgr_AddInvite E e (v i) w1 = UpdateInvite (v i) (push_invite E (v i) w2)"
    using CalendarMgr_AddInvite_quiet_part [OF h, of w1 e "v i"] na by metis
  have "keyed (cmInvites w2)" using g q f by (simp add: cal_good_def cal_quiet_def)
  then show ?thesis using push_invite_store(1) [OF h] q by (simp add: w'_def i eq cal_quiet_def f)
qed

lemma fold_new_invites:
  assumes step: "\<And>x w n. cal_good T hE hI w \<Longrightarrow> roomy (Suc n) w \<Longrightarrow> cal_good T hE hI (f x w) \<and> roomy n (f x w)"
    and one: "\<And>x w. cal_good T hE hI w \<Longrightarrow>
      \<exists>v. R x v \<and> store_mset (cmInvites (f x w)) = add_mset v (store_mset (cmInvites w)) \<and> cmEvents (f x w) = cmEvents w"
    and "cal_good T hE hI w" and "roomy (length xs + n) w"
  shows "\<exists>vs. list_all2 R xs vs \<and> store_mset (cmInvites (fold f xs w)) = mset vs + store_mset (cmInvites w) \<and>
    cmEvents (fold f xs w) = cmEvents w"
  using assms(3,4)
proof (induction xs arbitrary: w)
  case (Cons x xs)
  obtain v where v: "R x v" "store_mset (cmInvites (f x w)) = add_mset v (store_mset (cmInvites w))" "cmEvents (f x w) = cmEvents w"
    using one [OF Cons.prems(1)] by blast
  have "cal_good T hE hI (f x w) \<and> roomy (length xs + n) (f x w)" using step Cons.prems by simp
  then obtain vs where "list_all2 R xs vs" "store_mset (cmInvites (fold f xs (f x w))) = mset vs + store_mset (cmInvites (f x w))"
      "cmEvents (fold f xs (f x w)) = cmEvents (f x w)"
    using Cons.IH by blast
  then show ?case using v by (intro exI [of _ "v # vs"]) simp
qed simp

lemma AddEvent_effect:
  assumes "hash_env E"
  shows "set (cmEvents (AddEvent E e st w)) = insert e (set (cmEvents w))"
    "store_mset (cmInvites (AddEvent E e st w)) = store_mset (cmInvites w)"
proof -
  have "cal_quiet (UpdateEvent e (w\<lparr>cmEvents := envEventOrder E (e # cmEvents w)\<rparr>)) (AddEvent E e st w)"
    using cal_quiet_sends(8) [OF assms] by (simp add: AddEvent_def)
  then show "set (cmEvents (AddEvent E e st w)) = insert e (set (cmEvents w))"
    "store_mset (cmInvites (AddEvent E e st w)) = store_mset (cmInvites w)"
    using hash_env_sets(1) [OF assms] by (simp_all add: cal_quiet_def)
qed

text \<open>The copy constructors keep every field but the ids.\<close>

lemma copied_fields:
  "CalendarEvent_copy e i = e\<lparr>ceEventId := i\<rparr>" "CalendarInvite_copy v i k = v\<lparr>ciInviteId := i, ciEventId := k\<rparr>"
  by (simp_all add: CalendarEvent_copy_def CalendarInvite_copy_def)

text \<open>
  C19. A request to copy an event, at a time not more than a day past and of an event that is not a guild
  announcement, adds one event, equal to the old one in every field but for a new id and the new
  time, and one invite to it for every invite to the old event, equal in every field but for the
  ids of invite and event.
\<close>

theorem calendar_event_copied:
  fixes me :: calSession
  assumes "hash_env E" and "rows_ok evs ins" and "cal_reach (calendar_of E evs ins) w" and "hash_env E'"
    and "roomy (length (all_invites w) + 1) w" and "GetEvent k w = Some e" and "\<not> IsGuildAnnouncement e"
    and "bb_get b = Inr (k, b1)" and "bb_get b1 = Inr (inviteId :: u64, b2)"
    and "bb_ReadPackedTime (envMktime E') b2 = Inr (t, b3)" and "\<not> in_the_past E' t"
  defines "w' \<equiv> fst (HandleCalendarCopyEvent E' me b w)"
    and "e' \<equiv> e\<lparr>ceEventId := fst (GetFreeEventId w), ceEventTime := uint t\<rparr>"
  shows "set (cmEvents w') = insert e' (set (cmEvents w)) \<and> ceEventId e' \<notin> ceEventId ` set (cmEvents w) \<and>
    (\<exists>us vs. mset us = {#v \<in># mset (all_invites w). ciEventId v = k#} \<and> mset (all_invites w') = mset vs + mset (all_invites w) \<and>
      list_all2 (\<lambda>u v. v = u\<lparr>ciInviteId := ciInviteId v, ciEventId := ceEventId e'\<rparr>) us vs)"
proof -
  note g = reach_good [OF assms(1-3)]
  let ?T = "tables_of evs ins"
  obtain i w1 where i: "GetFreeEventId w = (i, w1)" by fastforce
  have ei: "e' = (CalendarEvent_copy e i)\<lparr>ceEventTime := uint t\<rparr>" "ceEventId e' = i" by (simp_all add: e'_def i copied_fields)
  have "roomy (Suc (length (all_invites w))) w" using assms(5) by simp
  note got = good_event_id [OF g this i]
  have f: "cmInvites w1 = cmInvites w" "cmEvents w1 = cmEvents w" using GetFreeEventId_frame(1,2) [of w] by (simp_all add: i)
  let ?w2 = "AddEvent E' e' CALENDAR_SENDTYPE_COPY w1"
  obtain us w3 where v: "invites_at E' k ?w2 = (us, w3)" by fastforce
  have g2: "cal_good ?T {#} {#} ?w2" using good_add_event [OF assms(4), of ?T e' "{#}"] got(1) by (simp add: ei(2))
  have q1: "cal_quiet (UpdateEvent e' (w1\<lparr>cmEvents := envEventOrder E' (e' # cmEvents w1)\<rparr>)) ?w2"
    using cal_quiet_sends(8) [OF assms(4)] by (simp add: AddEvent_def)
  have q3: "cal_quiet ?w2 w3" using cal_quiet_invites_at [OF assms(4), of ?w2 k] by (simp add: v)
  have g3: "cal_good ?T {#} {#} w3" by (rule cal_good_quiet [OF q3 g2])
  have "roomy (length (all_invites w)) ?w2" using roomy_quiet [OF q1] got(2) by (simp add: roomy_def)
  then have r3: "roomy (length (all_invites w)) w3" by (rule roomy_quiet [OF q3])
  have st: "store_mset (cmInvites w3) = store_mset (cmInvites w)" using q3 AddEvent_effect(2) [OF assms(4)] f by (simp add: cal_quiet_def)
  have evs3: "set (cmEvents w3) = insert e' (set (cmEvents w))" using q3 AddEvent_effect(1) [OF assms(4)] f by (simp add: cal_quiet_def)
  have kd: "keyed (cmInvites ?w2)" using g2 by (simp add: cal_good_def)
  note some = invites_at_some [OF assms(4) kd v]
  let ?m = "filter (\<lambda>(k', us). k' \<noteq> k) (cmInvites w3)"
  have all: "store_mset ?m + mset us = store_mset (cmInvites w)"
    using store_mset_without [OF _ some(1)] some(2) st by (simp add: keyed_def)
  have "v \<in># store_mset ?m \<Longrightarrow> ciEventId v \<noteq> k" for v using some(2) by (force simp: in_store_mset keyed_def)
  then have none: "{#v \<in># store_mset ?m. ciEventId v = k#} = {#}" by (auto simp: multiset_eq_iff count_eq_zero_iff)
  have every: "{#v \<in># mset us. ciEventId v = k#} = mset us"
    using keyedD [OF some(2) map_of_SomeD [OF some(1)]] by (simp add: filter_mset_eq_conv)
  have us: "mset us = {#v \<in># mset (all_invites w). ciEventId v = k#}"
    unfolding mset_all_invites all [symmetric] filter_union_mset none every by simp
  have "length us \<le> size (store_mset (cmInvites w))" using all by (metis le_add2 size_mset size_union)
  then have "length us \<le> length (all_invites w)" by (simp flip: mset_all_invites)
  then have room: "roomy (length us + 0) w3" using roomy_le [OF r3] by simp
  have na: "\<not> IsGuildAnnouncement e'" using assms(7) by (simp add: ei CalendarEvent_copy_def IsGuildAnnouncement_def)
  have one: "\<exists>v. v = CalendarInvite_copy u (ciInviteId v) (ceEventId e') \<and>
      store_mset (cmInvites (copy_invite E' e' u w)) = add_mset v (store_mset (cmInvites w)) \<and>
      cmEvents (copy_invite E' e' u w) = cmEvents w" if "cal_good ?T {#} {#} w" for u w
    using new_invite_effect [OF assms(4) that na, of "\<lambda>i. CalendarInvite_copy u i (ceEventId e')"]
    by (intro exI [of _ "CalendarInvite_copy u (fst (GetFreeInviteId w)) (ceEventId e')"])
      (simp add: copy_invite_def CalendarInvite_copy_def)
  have "\<exists>vs. list_all2 (\<lambda>u v. v = CalendarInvite_copy u (ciInviteId v) (ceEventId e')) us vs \<and>
      store_mset (cmInvites (fold (copy_invite E' e') us w3)) = mset vs + store_mset (cmInvites w3) \<and>
      cmEvents (fold (copy_invite E' e') us w3) = cmEvents w3"
  proof (rule fold_new_invites [OF _ _ g3 room])
    show "cal_good ?T {#} {#} (copy_invite E' e' x w) \<and> roomy n (copy_invite E' e' x w)"
      if "cal_good ?T {#} {#} w" "roomy (Suc n) w" for x w n
      by (rule good_copy_invite [OF assms(4) that])
  qed (rule one)
  then obtain vs where vs: "list_all2 (\<lambda>u v. v = CalendarInvite_copy u (ciInviteId v) (ceEventId e')) us vs"
    "store_mset (cmInvites (fold (copy_invite E' e') us w3)) = mset vs + store_mset (cmInvites w3)"
    "cmEvents (fold (copy_invite E' e') us w3) = cmEvents w3" by blast
  have w': "w' = fold (copy_invite E' e') us w3"
    unfolding w'_def HandleCalendarCopyEvent_def
    using assms(6,8-11) by (simp add: reading_def i GetEventInvites_def v handled_def Let_def flip: ei(1))
  have "ceEventId e' \<notin> ceEventId ` set (cmEvents w)" using got(3) by (simp add: ei(2) event_ids_def)
  then show ?thesis using us vs evs3 st by (auto simp: w' mset_all_invites simp flip: copied_fields(2))
qed

text \<open>The event that a request asks for, by the fields that were read.\<close>

definition asked_event :: "calEnv \<Rightarrow> u64 \<Rightarrow> eventFields \<Rightarrow> u64 \<Rightarrow> calEvent" where
  "asked_event E guid f i = \<lparr>ceEventId = i, ceCreator = guid,
     ceGuildId = (if efFlags f AND (CALENDAR_FLAG_GUILD_EVENT OR CALENDAR_FLAG_WITHOUT_INVITES) = 0 then 0
       else case envPlayer E guid of Some (level, guildId) \<Rightarrow> guildId | None \<Rightarrow> 0),
     ceType = ucast (efType f), ceDungeonId = efDungeonId f, ceEventTime = uint (efEventTime f),
     ceFlags = efFlags f, ceTimeZone = uint (efTimeZone f), ceTitle = efTitle f, ceDescription = efDescription f\<rparr>"

lemma flag_of_two: "(x :: u32) AND (a OR b) = 0 \<longleftrightarrow> x AND a = 0 \<and> x AND b = 0"
  by (simp add: bit.conj_disj_distrib or_eq_0_iff)

lemma event_added:
  fixes me :: calSession
  assumes "hash_env E" and "rows_ok evs ins" and "cal_reach (calendar_of E evs ins) w" and "hash_env E'"
    and "roomy 101 w" and "read_event_fields E' b = Inr (f, b1)" and "\<not> in_the_past E' (efEventTime f)"
    and "HandleCalendarAddEvent E' me b w = (w', err)"
  shows "(err \<noteq> None \<longrightarrow> cmEvents w' = cmEvents w \<and> cmInvites w' = cmInvites w \<and> cmOut w' = cmOut w) \<and>
    (err = None \<longrightarrow> (\<exists>i vs. i \<notin> ceEventId ` set (cmEvents w) \<and>
      set (cmEvents w') = insert (asked_event E' (csGuid me) f i) (set (cmEvents w)) \<and>
      mset (all_invites w') = mset vs + mset (all_invites w) \<and>
      (if efFlags f AND CALENDAR_FLAG_WITHOUT_INVITES \<noteq> 0 then vs = []
       else \<exists>xs b2. read_invite_list b1 = Inr (xs, b2) \<and> list_all2 (\<lambda>(g, s, r) v.
         v = CalendarInvite_new (ciInviteId v) i g (csGuid me) 946684800 (ucast s) (ucast r) '''') xs vs)))"
proof -
  note g = reach_good [OF assms(1-3)]
  let ?T = "tables_of evs ins"
  obtain i w1 where i: "GetFreeEventId w = (i, w1)" by fastforce
  have "roomy (Suc 100) w" using assms(5) by simp
  note got = good_event_id [OF g this i]
  have fr: "cmInvites w1 = cmInvites w" "cmEvents w1 = cmEvents w" "cmOut w1 = cmOut w"
    using GetFreeEventId_frame(1,2,5) [of w] by (simp_all add: i)
  define e0 where "e0 = CalendarEvent_new i (csGuid me) 0 (ucast (efType f)) (efDungeonId f) (uint (efEventTime f)) (efFlags f)
    (uint (efTimeZone f)) (efTitle f) (efDescription f)"
  define e where "e = (if IsGuildEvent e0 \<or> IsGuildAnnouncement e0
    then case envPlayer E' (csGuid me) of Some (level, guildId) \<Rightarrow> e0\<lparr>ceGuildId := guildId\<rparr> | None \<Rightarrow> e0 else e0)"
  define v where "v = CalendarInvite_new 0 i 0 (csGuid me) 946684800 CALENDAR_STATUS_NOT_SIGNED_UP CALENDAR_RANK_PLAYER ''''"
  have asked: "e = asked_event E' (csGuid me) f i"
    unfolding e_def e0_def by (auto simp: CalendarEvent_new_def asked_event_def IsGuildEvent_def IsGuildAnnouncement_def flag_of_two
      split: option.split)
  then have e: "ceEventId e = i" "ceFlags e = efFlags f" by (simp_all add: asked_event_def)
  have new: "i \<notin> ceEventId ` set (cmEvents w)" using got(3) by (simp add: event_ids_def)
  have ann: "IsGuildAnnouncement e \<longleftrightarrow> efFlags f AND CALENDAR_FLAG_WITHOUT_INVITES \<noteq> 0"
    by (simp add: IsGuildAnnouncement_def e)
  have eq: "HandleCalendarAddEvent E' me b w =
      (if IsGuildAnnouncement e
       then handled (AddEvent E' e CALENDAR_SENDTYPE_ADD (CalendarMgr_AddInvite E' e v w1))
       else case read_invite_list b1 of Inl err \<Rightarrow> (FreeEventId i w1, Some err)
         | Inr (xs, b) \<Rightarrow> handled (AddEvent E' e CALENDAR_SENDTYPE_ADD (fold (invite_listed E' (csGuid me) e) xs w1)))"
    using assms(7) unfolding e_def e0_def v_def
    by (simp only: HandleCalendarAddEvent_def reading_def assms(6) i sum.case prod.case if_False Let_def)
  note added = AddEvent_effect [OF assms(4), of e CALENDAR_SENDTYPE_ADD]
  show ?thesis
  proof (cases "IsGuildAnnouncement e")
    case True
    obtain w2 where q: "cal_quiet w1 w2" and w2: "CalendarMgr_AddInvite E' e v w1 = w2"
      using CalendarMgr_AddInvite_quiet_part [OF assms(4), of w1 e v] True by metis
    have w': "w' = AddEvent E' e CALENDAR_SENDTYPE_ADD w2" "err = None" using assms(8) True by (simp_all add: eq w2 handled_def)
    have "set (cmEvents w') = insert e (set (cmEvents w))" "mset (all_invites w') = mset [] + mset (all_invites w)"
      using added q fr by (simp_all add: w' cal_quiet_def mset_all_invites)
    then show ?thesis using True new w'(2) by (intro conjI impI exI [of _ i] exI [of _ "[]"]) (simp_all add: ann flip: asked)
  next
    case False
    show ?thesis
    proof (cases "read_invite_list b1")
      case (Inl x)
      then have "w' = FreeEventId i w1" "err = Some x" using assms(8) False by (simp_all add: eq)
      then show ?thesis using fr by simp
    next
      case (Inr p)
      obtain xs b2 where p: "p = (xs, b2)" by (cases p)
      let ?R = "\<lambda>(g, s, r) v. v = CalendarInvite_new (ciInviteId v) (ceEventId e) g (csGuid me) 946684800 (ucast s) (ucast r) ''''"
      have "length xs \<le> MaxPlayerInvites"
        using Inr by (auto simp: p read_invite_list_def bindE_def dest: read_invitees_length split: sum.splits prod.splits)
      then have room: "roomy (length xs + 0) w1" using roomy_le [OF got(2)] by (simp add: MaxPlayerInvites_def)
      have "\<exists>vs. list_all2 ?R xs vs \<and>
          store_mset (cmInvites (fold (invite_listed E' (csGuid me) e) xs w1)) = mset vs + store_mset (cmInvites w1) \<and>
          cmEvents (fold (invite_listed E' (csGuid me) e) xs w1) = cmEvents w1"
      proof (rule fold_new_invites [OF _ _ got(1) room])
        show "cal_good ?T {#i#} {#} (invite_listed E' (csGuid me) e x w) \<and> roomy n (invite_listed E' (csGuid me) e x w)"
          if "cal_good ?T {#i#} {#} w" "roomy (Suc n) w" for x w n
          by (rule good_invite_listed [OF assms(4) that])
        show "\<exists>v. ?R x v \<and> store_mset (cmInvites (invite_listed E' (csGuid me) e x w)) = add_mset v (store_mset (cmInvites w)) \<and>
            cmEvents (invite_listed E' (csGuid me) e x w) = cmEvents w" if "cal_good ?T {#i#} {#} w" for x w
        proof -
          obtain a s r where x: "x = (a, s, r)" by (cases x)
          let ?v = "\<lambda>i. CalendarInvite_new i (ceEventId e) a (csGuid me) 946684800 (ucast s) (ucast r) ''''"
          show ?thesis
            using new_invite_effect [OF assms(4) that False, of ?v]
            by (intro exI [of _ "?v (fst (GetFreeInviteId w))"]) (simp add: x invite_listed_def CalendarInvite_new_def)
        qed
      qed
      then obtain vs where vs: "list_all2 ?R xs vs"
        "store_mset (cmInvites (fold (invite_listed E' (csGuid me) e) xs w1)) = mset vs + store_mset (cmInvites w1)"
        "cmEvents (fold (invite_listed E' (csGuid me) e) xs w1) = cmEvents w1" by blast
      have w': "w' = AddEvent E' e CALENDAR_SENDTYPE_ADD (fold (invite_listed E' (csGuid me) e) xs w1)" "err = None"
        using assms(8) False Inr by (simp_all add: eq p handled_def)
      have "set (cmEvents w') = insert e (set (cmEvents w))" "mset (all_invites w') = mset vs + mset (all_invites w)"
        using added vs fr by (simp_all add: w' mset_all_invites)
      then show ?thesis
        using False Inr e(1) new w'(2) vs(1) by (intro conjI impI exI [of _ i] exI [of _ vs]) (simp_all add: ann p flip: asked)
    qed
  qed
qed

text \<open>
  C20. A request to add an event that cannot be read, or that is dated more than a day in the past,
  changes no event, no invite and sends nothing. Any other adds one event with a new id, the sender
  as its creator, the fields of the packet and, for a guild event or announcement, the guild of the
  sender, and exactly one invite for each of the at most hundred listed players - none for an
  announcement.
\<close>

theorem calendar_event_added:
  fixes me :: calSession
  assumes "hash_env E" and "rows_ok evs ins" and "cal_reach (calendar_of E evs ins) w" and "hash_env E'"
    and "roomy 101 w" and "HandleCalendarAddEvent E' me b w = (w', err)"
  shows "case read_event_fields E' b of Inl x \<Rightarrow> w' = w \<and> err = Some x
    | Inr (f, b1) \<Rightarrow>
        if in_the_past E' (efEventTime f) then w' = w \<and> err = None
        else (err \<noteq> None \<longrightarrow> cmEvents w' = cmEvents w \<and> cmInvites w' = cmInvites w \<and> cmOut w' = cmOut w) \<and>
          (err = None \<longrightarrow> (\<exists>i vs. i \<notin> ceEventId ` set (cmEvents w) \<and>
            set (cmEvents w') = insert (asked_event E' (csGuid me) f i) (set (cmEvents w)) \<and>
            mset (all_invites w') = mset vs + mset (all_invites w) \<and>
            (if efFlags f AND CALENDAR_FLAG_WITHOUT_INVITES \<noteq> 0 then vs = []
             else \<exists>xs b2. read_invite_list b1 = Inr (xs, b2) \<and> list_all2 (\<lambda>(g, s, r) v.
               v = \<lparr>ciInviteId = ciInviteId v, ciEventId = i, ciInvitee = g, ciSender = csGuid me,
                 ciStatusTime = 946684800, ciStatus = ucast s, ciRank = ucast r, ciText = []\<rparr>) xs vs)))"
proof (cases "read_event_fields E' b")
  case (Inl x)
  then show ?thesis using assms(6) by (simp add: HandleCalendarAddEvent_def reading_def)
next
  case (Inr p)
  obtain f b1 where p: "p = (f, b1)" by (cases p)
  show ?thesis
  proof (cases "in_the_past E' (efEventTime f)")
    case True
    then show ?thesis using assms(6) Inr p by (simp add: HandleCalendarAddEvent_def reading_def handled_def)
  next
    case False
    from event_added [OF assms(1-5) Inr [unfolded p] False assms(6)] False show ?thesis
      unfolding Inr p sum.case prod.case CalendarInvite_new_def by (simp only: if_False)
  qed
qed

section \<open>A small calendar\<close>

definition demo_cal_env :: calEnv where
  "demo_cal_env = \<lparr>envPlayer = (\<lambda>g. if g = 1 \<or> g = 2 then Some (80, 7) else None), envLevel = (\<lambda>_. 1), envGuildOf = (\<lambda>_. 7),
     envGuild = (\<lambda>g. g = 7), envNow = 1000, envLocaltime = (\<lambda>_. tm_zero), envMktime = (\<lambda>_. 5000), envEventOrder = id,
     envInviteOrder = id, envByName = (\<lambda>_. None), envGlobalGuid = (\<lambda>_. 0), envGlobalData = (\<lambda>_. None),
     envTeamOfRace = (\<lambda>_. 0), envSocialFlags = (\<lambda>_ _. None), envTwoSide = False\<rparr>"

definition demo_event :: "u64 \<Rightarrow> u32 \<Rightarrow> u32 \<Rightarrow> eventRow" where
  "demo_event i creator flags = \<lparr>erId = i, erCreator = creator, erTitle = ''raid'', erDescription = '''', erType = 0,
     erDungeon = 1, erTime = 2000, erFlags = flags, erTime2 = 2000\<rparr>"

definition demo_invite :: "u64 \<Rightarrow> u64 \<Rightarrow> u32 \<Rightarrow> inviteRow" where
  "demo_invite i event invitee = \<lparr>irId = i, irEvent = event, irInvitee = invitee, irSender = 1, irStatus = 0,
     irStatusTime = 946684800, irRank = 0, irText = ''''\<rparr>"

text \<open>An event of player 1 with two invites, an announcement of player 2, and a guild event of player 2.\<close>

definition demo_events :: "eventRow list" where
  "demo_events = [demo_event 2 1 0, demo_event 4 2 0x40, demo_event 5 2 0x400]"

definition demo_invites :: "inviteRow list" where
  "demo_invites = [demo_invite 1 2 1, demo_invite 3 2 2, demo_invite 4 5 1]"

definition demo_session :: calSession where
  "demo_session = \<lparr>csGuid = 2, csTeam = 0, csGuild = 7\<rparr>"

definition demo_signup :: byteBuffer where
  "demo_signup = \<lparr>rpos = 0, wpos = 9, storage = [5, 0, 0, 0, 0, 0, 0, 0, 0]\<rparr>"

definition demo_calendar :: calMgr where
  "demo_calendar = calendar_of demo_cal_env demo_events demo_invites"

text \<open>Player 2 signs up to the guild event.\<close>

definition demo_later :: calMgr where
  "demo_later = calendar_request CMSG_CALENDAR_EVENT_SIGNUP demo_cal_env demo_session demo_signup demo_calendar"

lemma demo_env_ok: "hash_env demo_cal_env"
  by (simp add: hash_env_def demo_cal_env_def)

lemma demo_rows_ok: "rows_ok demo_events demo_invites"
  by (simp add: rows_ok_def demo_events_def demo_invites_def demo_event_def demo_invite_def)

lemma demo_calendar_seen:
  "length (all_invites demo_calendar) = 3 \<and> cmMaxEvent demo_calendar = 5 \<and> cmMaxInvite demo_calendar = 4"
proof -
  note l = LoadFromDB_effect [OF demo_env_ok, of demo_events demo_invites, folded demo_calendar_def]
  have "length (all_invites demo_calendar) = size (store_mset (cmInvites demo_calendar))" by (simp flip: mset_all_invites)
  then show ?thesis using l(2,5,6) by (simp add: demo_events_def demo_invites_def demo_event_def demo_invite_def max_def)
qed

lemma demo_room: "roomy (length (all_invites demo_calendar) + 101) demo_calendar"
  using demo_calendar_seen by (simp add: roomy_def)

lemma demo_cal_reach: "cal_reach (calendar_of demo_cal_env demo_events demo_invites) demo_later"
proof -
  have "cal_step demo_calendar demo_later"
    unfolding demo_later_def by (rule cal_step.request [OF demo_env_ok demo_room])
  then show ?thesis unfolding demo_calendar_def by (rule cal_reach.more [OF cal_reach.start])
qed

lemmas demo = demo_env_ok demo_rows_ok demo_cal_reach

lemma demo_read:
  "bb_get demo_signup = Inr (5 :: u64, demo_signup\<lparr>rpos := 8\<rparr>)"
  "bb_read_bool (demo_signup\<lparr>rpos := 8\<rparr>) = Inr (False, demo_signup\<lparr>rpos := 9\<rparr>)"
  by (simp_all add: demo_signup_def bb_get_def bb_read_def bb_read_at_def bb_bytes_at_def bb_read_bool_def szadd_def
      bb_size_def from_le.simps)

lemma demo_later_eq: "demo_later = event_signup demo_cal_env demo_session 5 False demo_calendar"
  using demo_read by (simp add: demo_later_def HandleCalendarEventSignup_def reading_def handled_def)

lemma demo_later_seen:
  "(let w = event_signup demo_cal_env demo_session 5 False demo_calendar in (cmMaxInvite w, cmMaxEvent w)) = (4, 5)"
  by code_simp

lemma demo_later_room: "roomy 1 demo_later"
  using demo_later_seen by (simp add: demo_later_eq roomy_def Let_def)

lemma demo_start: "cal_reach (calendar_of demo_cal_env demo_events demo_invites) demo_calendar"
  unfolding demo_calendar_def by (rule cal_reach.start)

lemmas demo1 = demo_env_ok demo_rows_ok demo_start

lemma demo_sets:
  "set (cmEvents demo_calendar) = loaded_event demo_cal_env ` set demo_events"
  "set (all_invites demo_calendar) = loaded_invite ` set demo_invites"
proof -
  note l = LoadFromDB_effect [OF demo_env_ok, of demo_events demo_invites, folded demo_calendar_def]
  show "set (cmEvents demo_calendar) = loaded_event demo_cal_env ` set demo_events"
    using arg_cong [OF l(1), of set_mset] by simp
  show "set (all_invites demo_calendar) = loaded_invite ` set demo_invites" by (simp add: set_all_invites l)
qed

abbreviation demo_ev :: "u64 \<Rightarrow> u32 \<Rightarrow> u32 \<Rightarrow> calEvent" where
  "demo_ev i creator flags \<equiv> loaded_event demo_cal_env (demo_event i creator flags)"

abbreviation demo_inv :: "u64 \<Rightarrow> u64 \<Rightarrow> u32 \<Rightarrow> calInvite" where
  "demo_inv i event invitee \<equiv> loaded_invite (demo_invite i event invitee)"

lemma demo_cal_members:
  "set (cmEvents demo_calendar) = {demo_ev 2 1 0, demo_ev 4 2 0x40, demo_ev 5 2 0x400}"
  "set (all_invites demo_calendar) = {demo_inv 1 2 1, demo_inv 3 2 2, demo_inv 4 5 1}"
  by (simp_all add: demo_sets demo_events_def demo_invites_def)

lemma demo_fields:
  "erId (demo_event i c fl) = i" "irId (demo_invite j k g) = j"
  "ceEventId (demo_ev i c fl) = i" "ceFlags (demo_ev i c fl) = fl" "ceCreator (demo_ev i c fl) = ucast c"
  "ciInviteId (demo_inv j k g) = j" "ciEventId (demo_inv j k g) = k" "ciInvitee (demo_inv j k g) = ucast g"
  by (simp_all add: loaded_event_def loaded_invite_def demo_event_def demo_invite_def CalendarEvent_new_def
      CalendarInvite_new_def MAKE_NEW_GUID_def HIGHGUID_PLAYER_def Let_def)

lemma demo_lookups:
  "GetEvent 2 demo_calendar = Some (demo_ev 2 1 0)" "GetEvent 4 demo_calendar = Some (demo_ev 4 2 0x40)"
  "GetInvite 4 demo_calendar = Some (demo_inv 4 5 1)"
  using GetEvent_iff [OF reach_good [OF demo1]] GetInvite_iff [OF reach_good [OF demo1]]
  by (simp_all add: demo_cal_members demo_fields)

lemma demo_start_room: "roomy 101 demo_calendar" "roomy 1 demo_calendar" "roomy (length (all_invites demo_calendar) + 1) demo_calendar"
  using demo_calendar_seen by (simp_all add: roomy_def)

theorem calendar_tables_witness:
  "run_effects (cmOut demo_later) (tables_of demo_events demo_invites) =
    (\<lambda>k. map_option event_row (GetEvent k demo_later), \<lambda>k. map_option invite_row (GetInvite k demo_later))"
  by (rule calendar_tables [OF demo])

theorem calendar_ids_unique_witness:
  "distinct (map ceEventId (cmEvents demo_later)) \<and> distinct (map ciInviteId (all_invites demo_later)) \<and>
    fst (GetFreeEventId demo_later) \<notin> insert 0 (ceEventId ` set (cmEvents demo_later)) \<and>
    fst (GetFreeInviteId demo_later) \<notin> insert 0 (ciInviteId ` set (all_invites demo_later))"
  by (rule calendar_ids_unique [OF demo demo_later_room])

theorem calendar_restart_witness:
  "set (cmEvents (calendar_of demo_cal_env demo_events demo_invites)) = set (cmEvents demo_calendar) \<and>
    set (all_invites (calendar_of demo_cal_env demo_events demo_invites)) = set (all_invites demo_calendar)"
proof (rule calendar_restart [OF demo1 _ _ demo_env_ok demo_rows_ok])
  show "\<forall>e\<in>set (cmEvents demo_calendar). storable_event demo_cal_env e"
    by (simp add: demo_sets demo_events_def storable_event_def storable_text_def loaded_event_def demo_event_def CalendarEvent_new_def
        IsGuildEvent_def IsGuildAnnouncement_def calendar_flags demo_cal_env_def Let_def)
  show "\<forall>v\<in>set (all_invites demo_calendar). storable_invite v"
    by (simp add: demo_sets demo_invites_def storable_invite_def storable_text_def loaded_invite_def demo_invite_def CalendarInvite_new_def)
  show "tables_of demo_events demo_invites = run_effects (cmOut demo_calendar) (tables_of demo_events demo_invites)"
    using LoadFromDB_effect(4) [OF demo_env_ok, of demo_events demo_invites]
    by (simp add: demo_calendar_def run_effects_def)
qed

theorem calendar_event_removed_witness:
  "set (cmEvents (snd (RemoveEvent demo_cal_env 2 1 demo_calendar))) = {x \<in> set (cmEvents demo_calendar). ceEventId x \<noteq> 2} \<and>
    set (all_invites (snd (RemoveEvent demo_cal_env 2 1 demo_calendar))) = {demo_inv 4 5 1} \<and>
    mset (mails (snd (RemoveEvent demo_cal_env 2 1 demo_calendar))) =
      mset (mails demo_calendar) + image_mset (event_mail demo_cal_env (demo_ev 2 1 0) 1)
        {#v \<in># mset (all_invites demo_calendar). ciEventId v = 2 \<and> (1 :: u64) \<noteq> 0 \<and> ciInvitee v \<noteq> 1#}"
proof -
  have "{v \<in> set (all_invites demo_calendar). ciEventId v \<noteq> 2} = {demo_inv 4 5 1}"
    unfolding demo_cal_members by (auto simp: demo_fields)
  then show ?thesis
    using calendar_event_removed [OF demo1 demo_env_ok demo_lookups(1), of 1] by simp
qed

theorem calendar_char_deleted_witness:
  "set (cmEvents (RemoveAllPlayerEventsAndInvites demo_cal_env 1 demo_calendar)) = {demo_ev 4 2 0x40, demo_ev 5 2 0x400} \<and>
    set (all_invites (RemoveAllPlayerEventsAndInvites demo_cal_env 1 demo_calendar)) = {}"
proof -
  have "{e \<in> set (cmEvents demo_calendar). ceCreator e \<noteq> 1} = {demo_ev 4 2 0x40, demo_ev 5 2 0x400}"
    unfolding demo_cal_members by (auto simp: demo_fields)
  moreover have "{v \<in> set (all_invites demo_calendar). \<forall>e\<in>set (cmEvents demo_calendar).
      ceEventId e = ciEventId v \<longrightarrow> ceCreator e \<noteq> 1 \<and> ciInvitee v \<noteq> 1} = {}"
    unfolding demo_cal_members by (auto simp: demo_fields)
  ultimately show ?thesis using calendar_char_deleted [OF demo1 demo_env_ok, of 1] by simp
qed

theorem calendar_guild_left_witness:
  "set (cmEvents (RemovePlayerGuildEventsAndSignups demo_cal_env 2 7 demo_calendar)) = {demo_ev 2 1 0} \<and>
    set (all_invites (RemovePlayerGuildEventsAndSignups demo_cal_env 2 7 demo_calendar)) = {demo_inv 1 2 1, demo_inv 3 2 2}"
proof -
  let ?P = "\<lambda>e. ceCreator e = 2 \<and> (IsGuildEvent e \<or> IsGuildAnnouncement e)"
  have P: "\<not> ?P (demo_ev 2 1 0)" "?P (demo_ev 4 2 0x40)" "?P (demo_ev 5 2 0x400)"
    by (simp_all add: demo_fields IsGuildEvent_def IsGuildAnnouncement_def calendar_flags)
  have N: "\<not> IsGuildEvent (demo_ev 2 1 0)" by (simp add: IsGuildEvent_def demo_fields)
  have a: "{e \<in> set (cmEvents demo_calendar). \<not> ?P e} = {demo_ev 2 1 0}"
    unfolding demo_cal_members using P by blast
  have b: "(\<forall>e\<in>set (cmEvents demo_calendar). ceEventId e = ciEventId v \<longrightarrow>
      \<not> ?P e \<and> \<not> (ciInvitee v = 2 \<and> IsGuildEvent e \<and> ceGuildId e = 7)) \<longleftrightarrow> ciEventId v \<noteq> 4 \<and> ciEventId v \<noteq> 5" for v
    unfolding demo_cal_members using P N by (auto simp: demo_fields)
  have c: "{v \<in> set (all_invites demo_calendar). ciEventId v \<noteq> 4 \<and> ciEventId v \<noteq> 5} = {demo_inv 1 2 1, demo_inv 3 2 2}"
    unfolding demo_cal_members by (auto simp: demo_fields)
  show ?thesis using calendar_guild_left [OF demo1 demo_env_ok, of 2 7] unfolding a b c .
qed

theorem signup_loses_id_witness:
  "mset (all_invites (event_signup demo_cal_env demo_session 4 False demo_calendar)) = mset (all_invites demo_calendar) \<and>
    fst (GetFreeInviteId demo_calendar) \<le> cmMaxInvite (event_signup demo_cal_env demo_session 4 False demo_calendar) \<and>
    fst (GetFreeInviteId demo_calendar) \<notin> set (cmFreeInvites (event_signup demo_cal_env demo_session 4 False demo_calendar)) \<and>
    fst (GetFreeInviteId demo_calendar) \<notin> ciInviteId ` set (all_invites (event_signup demo_cal_env demo_session 4 False demo_calendar))"
proof (rule signup_loses_id [OF demo1 demo_env_ok demo_start_room(2) demo_lookups(2)])
  show "IsGuildAnnouncement (demo_ev 4 2 0x40)" "\<not> IsGuildEvent (demo_ev 4 2 0x40)"
    by (simp_all add: IsGuildEvent_def IsGuildAnnouncement_def calendar_flags demo_fields)
qed

text \<open>Player 2 answers player 1's invitation to the guild event, in the name of another event.\<close>

theorem rsvp_writes_any_invite_witness:
  "GetInvite 4 (event_rsvp demo_cal_env demo_session 2 4 1 demo_calendar) =
     Some ((demo_inv 4 5 1)\<lparr>ciStatus := 1, ciStatusTime := envNow demo_cal_env\<rparr>) \<and>
   GetInvite 1 (event_rsvp demo_cal_env demo_session 2 4 1 demo_calendar) = GetInvite 1 demo_calendar"
proof -
  have "ceFlags (demo_ev 2 1 0) AND CALENDAR_FLAG_INVITES_LOCKED = 0" by (simp add: demo_fields)
  from rsvp_writes_any_invite [OF demo1 demo_env_ok demo_lookups(1) this demo_lookups(3), of demo_session 1]
  show ?thesis by simp
qed

definition demo_copy :: byteBuffer where
  "demo_copy = \<lparr>rpos = 0, wpos = 20, storage = [2, 0, 0, 0, 0, 0, 0, 0, 0, 0, 0, 0, 0, 0, 0, 0, 0, 0, 0, 0]\<rparr>"

theorem calendar_event_copied_witness:
  "set (cmEvents (fst (HandleCalendarCopyEvent demo_cal_env demo_session demo_copy demo_calendar))) =
    insert ((demo_ev 2 1 0)\<lparr>ceEventId := fst (GetFreeEventId demo_calendar), ceEventTime := uint (5000 :: u32)\<rparr>)
      (set (cmEvents demo_calendar))"
proof -
  have na: "\<not> IsGuildAnnouncement (demo_ev 2 1 0)" by (simp add: IsGuildAnnouncement_def demo_fields)
  have rd: "bb_get demo_copy = Inr (2 :: u64, demo_copy\<lparr>rpos := 8\<rparr>)"
    "bb_get (demo_copy\<lparr>rpos := 8\<rparr>) = Inr (0 :: u64, demo_copy\<lparr>rpos := 16\<rparr>)"
    "bb_ReadPackedTime (envMktime demo_cal_env) (demo_copy\<lparr>rpos := 16\<rparr>) = Inr (5000 :: u32, demo_copy\<lparr>rpos := 20\<rparr>)"
    by (simp_all add: demo_copy_def bb_get_def bb_read_def bb_read_at_def bb_bytes_at_def szadd_def bb_size_def from_le.simps
        bb_ReadPackedTime_def demo_cal_env_def)
  have "\<not> in_the_past demo_cal_env 5000" by (simp add: in_the_past_def demo_cal_env_def)
  from calendar_event_copied [OF demo1 demo_env_ok demo_start_room(3) demo_lookups(1) na rd this, of demo_session]
  show ?thesis by blast
qed

text \<open>A dungeon event without title and flags, and one invitee: player 2, with status 3 and rank 1.\<close>

definition demo_add :: byteBuffer where
  "demo_add = \<lparr>rpos = 0, wpos = 32, storage = [0, 0, 1, 0, 0, 0, 0, 0, 0, 0, 0, 0, 0, 0, 0, 0, 0, 0, 0, 0, 0, 0, 0, 0,
     1, 0, 0, 0, 1, 2, 3, 1]\<rparr>"

definition demo_added :: eventFields where
  "demo_added = \<lparr>efTitle = '''', efDescription = '''', efType = 1, efDungeonId = 0, efEventTime = 5000, efTimeZone = 5000,
     efFlags = 0\<rparr>"

lemmas demo_reads = bb_get_def bb_read_def bb_read_at_def bb_bytes_at_def szadd_def bb_size_def
  bb_ReadPackedTime_def bb_read_string_def bb_string_loop.simps

lemma bits8: "[0..<8] = [0, 1, 2, 3, 4, 5, 6, 7 :: nat]"
  by (simp add: upt_rec)

lemma demo_add_read:
  "read_event_fields demo_cal_env demo_add = Inr (demo_added, demo_add\<lparr>rpos := 24\<rparr>)"
  "read_invite_list (demo_add\<lparr>rpos := 24\<rparr>) = Inr ([(2, 3, 1)], demo_add\<lparr>rpos := 32\<rparr>)"
  subgoal by (simp add: read_event_fields_def demo_add_def demo_added_def demo_reads demo_cal_env_def)
  subgoal by (simp add: read_invite_list_def demo_add_def demo_reads MaxPlayerInvites_def bb_read_packGUID_def bits8)
  done

theorem calendar_event_added_witness:
  "\<exists>i v. set (cmEvents (fst (HandleCalendarAddEvent demo_cal_env demo_session demo_add demo_calendar))) =
      insert \<lparr>ceEventId = i, ceCreator = 2, ceGuildId = 0, ceType = 1, ceDungeonId = 0, ceEventTime = 5000, ceFlags = 0,
        ceTimeZone = 5000, ceTitle = '''', ceDescription = ''''\<rparr> (set (cmEvents demo_calendar)) \<and>
    mset (all_invites (fst (HandleCalendarAddEvent demo_cal_env demo_session demo_add demo_calendar))) =
      add_mset v (mset (all_invites demo_calendar)) \<and> ciInvitee v = 2 \<and> ciEventId v = i"
proof -
  let ?r = "HandleCalendarAddEvent demo_cal_env demo_session demo_add demo_calendar"
  let ?R = "\<lambda>i (g, s, r) v. v = \<lparr>ciInviteId = ciInviteId v, ciEventId = i, ciInvitee = g, ciSender = csGuid demo_session,
    ciStatusTime = 946684800, ciStatus = ucast (s :: u8), ciRank = ucast (r :: u8), ciText = []\<rparr>"
  have past: "\<not> in_the_past demo_cal_env (efEventTime demo_added)"
    by (simp add: in_the_past_def demo_cal_env_def demo_added_def)
  have "snd ?r = None"
    using past by (simp add: HandleCalendarAddEvent_def reading_def demo_add_read handled_def Let_def split_def)
  then have r: "?r = (fst ?r, None)" by (metis prod.collapse)
  have fl: "efFlags demo_added AND CALENDAR_FLAG_WITHOUT_INVITES = 0" by (simp add: demo_added_def)
  note added = calendar_event_added [OF demo1 demo_env_ok demo_start_room(1) r, unfolded demo_add_read(1) sum.case prod.case if_not_P [OF past]]
  obtain i vs where ev: "set (cmEvents (fst ?r)) = insert (asked_event demo_cal_env (csGuid demo_session) demo_added i) (set (cmEvents demo_calendar))"
      "mset (all_invites (fst ?r)) = mset vs + mset (all_invites demo_calendar)"
      "if efFlags demo_added AND CALENDAR_FLAG_WITHOUT_INVITES \<noteq> 0 then vs = []
       else \<exists>xs b2. read_invite_list (demo_add\<lparr>rpos := 24\<rparr>) = Inr (xs, b2) \<and> list_all2 (?R i) xs vs"
    using conjunct2 [OF added, rule_format, OF refl] by (elim exE conjE) (rule that)
  from ev(3) have "list_all2 (?R i) [(2, 3, 1)] vs" by (simp add: demo_add_read(2) fl)
  then obtain v where v: "vs = [v]" "?R i (2, 3, 1) v" unfolding list_all2_Cons1 by auto
  have "ciInvitee v = 2" "ciEventId v = i" by (subst v(2) [unfolded prod.case], simp)+
  moreover have "asked_event demo_cal_env (csGuid demo_session) demo_added i = \<lparr>ceEventId = i, ceCreator = 2, ceGuildId = 0, ceType = 1,
      ceDungeonId = 0, ceEventTime = 5000, ceFlags = 0, ceTimeZone = 5000, ceTitle = '''', ceDescription = ''''\<rparr>"
    by (simp add: asked_event_def demo_added_def demo_session_def)
  ultimately show ?thesis using ev(1,2) v(1) by (intro exI [of _ i] exI [of _ v]) simp
qed

end
