(* ===== verification/GuildData.thy ===== *)
theory GuildData
  imports PackedFields
begin

text \<open>
  Guilds, src/src/server/game/Guilds: the constants of Guild.h, ranks, members, logs, bank
  tabs and items, the statements and other effects, and the state of one guild with what it
  shares with the rest of the server.
\<close>

section \<open>Constants\<close>

definition GUILD_BANK_MAX_TABS :: u8 where "GUILD_BANK_MAX_TABS = 6"
definition GUILD_BANK_MAX_SLOTS :: u8 where "GUILD_BANK_MAX_SLOTS = 98"
definition GUILD_BANK_MONEY_LOGS_TAB :: u8 where "GUILD_BANK_MONEY_LOGS_TAB = 100"
definition GUILD_RANKS_MIN_COUNT :: u8 where "GUILD_RANKS_MIN_COUNT = 5"
definition GUILD_RANKS_MAX_COUNT :: u8 where "GUILD_RANKS_MAX_COUNT = 10"
definition GUILD_RANK_NONE :: u8 where "GUILD_RANK_NONE = 0xFF"
definition GUILD_WITHDRAW_MONEY_UNLIMITED :: u32 where "GUILD_WITHDRAW_MONEY_UNLIMITED = 0xFFFFFFFF"
definition GUILD_WITHDRAW_SLOT_UNLIMITED :: u32 where "GUILD_WITHDRAW_SLOT_UNLIMITED = 0xFFFFFFFF"
definition GUILD_EVENT_LOG_GUID_UNDEFINED :: u32 where "GUILD_EVENT_LOG_GUID_UNDEFINED = 0xFFFFFFFF"
definition TAB_UNDEFINED :: u8 where "TAB_UNDEFINED = 0xFF"

definition GR_GUILDMASTER :: u8 where "GR_GUILDMASTER = 0"
definition GR_OFFICER :: u8 where "GR_OFFICER = 1"

definition GR_RIGHT_EMPTY :: u32 where "GR_RIGHT_EMPTY = 0x40"
definition GR_RIGHT_GCHATLISTEN :: u32 where "GR_RIGHT_GCHATLISTEN = GR_RIGHT_EMPTY OR 0x00000001"
definition GR_RIGHT_GCHATSPEAK :: u32 where "GR_RIGHT_GCHATSPEAK = GR_RIGHT_EMPTY OR 0x00000002"
definition GR_RIGHT_OFFCHATLISTEN :: u32 where "GR_RIGHT_OFFCHATLISTEN = GR_RIGHT_EMPTY OR 0x00000004"
definition GR_RIGHT_OFFCHATSPEAK :: u32 where "GR_RIGHT_OFFCHATSPEAK = GR_RIGHT_EMPTY OR 0x00000008"
definition GR_RIGHT_INVITE :: u32 where "GR_RIGHT_INVITE = GR_RIGHT_EMPTY OR 0x00000010"
definition GR_RIGHT_REMOVE :: u32 where "GR_RIGHT_REMOVE = GR_RIGHT_EMPTY OR 0x00000020"
definition GR_RIGHT_PROMOTE :: u32 where "GR_RIGHT_PROMOTE = GR_RIGHT_EMPTY OR 0x00000080"
definition GR_RIGHT_DEMOTE :: u32 where "GR_RIGHT_DEMOTE = GR_RIGHT_EMPTY OR 0x00000100"
definition GR_RIGHT_SETMOTD :: u32 where "GR_RIGHT_SETMOTD = GR_RIGHT_EMPTY OR 0x00001000"
definition GR_RIGHT_EPNOTE :: u32 where "GR_RIGHT_EPNOTE = GR_RIGHT_EMPTY OR 0x00002000"
definition GR_RIGHT_VIEWOFFNOTE :: u32 where "GR_RIGHT_VIEWOFFNOTE = GR_RIGHT_EMPTY OR 0x00004000"
definition GR_RIGHT_EOFFNOTE :: u32 where "GR_RIGHT_EOFFNOTE = GR_RIGHT_EMPTY OR 0x00008000"
definition GR_RIGHT_MODIFY_GUILD_INFO :: u32 where "GR_RIGHT_MODIFY_GUILD_INFO = GR_RIGHT_EMPTY OR 0x00010000"
definition GR_RIGHT_WITHDRAW_REPAIR :: u32 where "GR_RIGHT_WITHDRAW_REPAIR = 0x40000"
definition GR_RIGHT_WITHDRAW_GOLD :: u32 where "GR_RIGHT_WITHDRAW_GOLD = 0x80000"
definition GR_RIGHT_ALL :: u32 where "GR_RIGHT_ALL = 0x1DF1FF"

definition GUILD_COMMAND_CREATE :: u32 where "GUILD_COMMAND_CREATE = 0"
definition GUILD_COMMAND_INVITE :: u32 where "GUILD_COMMAND_INVITE = 1"
definition GUILD_COMMAND_QUIT :: u32 where "GUILD_COMMAND_QUIT = 3"
definition GUILD_COMMAND_ROSTER :: u32 where "GUILD_COMMAND_ROSTER = 5"
definition GUILD_COMMAND_PROMOTE :: u32 where "GUILD_COMMAND_PROMOTE = 6"
definition GUILD_COMMAND_DEMOTE :: u32 where "GUILD_COMMAND_DEMOTE = 7"
definition GUILD_COMMAND_REMOVE :: u32 where "GUILD_COMMAND_REMOVE = 8"
definition GUILD_COMMAND_CHANGE_LEADER :: u32 where "GUILD_COMMAND_CHANGE_LEADER = 10"
definition GUILD_COMMAND_EDIT_MOTD :: u32 where "GUILD_COMMAND_EDIT_MOTD = 11"
definition GUILD_COMMAND_CHANGE_RANK :: u32 where "GUILD_COMMAND_CHANGE_RANK = 16"
definition GUILD_COMMAND_PUBLIC_NOTE :: u32 where "GUILD_COMMAND_PUBLIC_NOTE = 19"
definition GUILD_COMMAND_VIEW_TAB :: u32 where "GUILD_COMMAND_VIEW_TAB = 21"

definition ERR_GUILD_COMMAND_SUCCESS :: u32 where "ERR_GUILD_COMMAND_SUCCESS = 0"
definition ERR_ALREADY_IN_GUILD_S :: u32 where "ERR_ALREADY_IN_GUILD_S = 3"
definition ERR_ALREADY_INVITED_TO_GUILD_S :: u32 where "ERR_ALREADY_INVITED_TO_GUILD_S = 5"
definition ERR_GUILD_NAME_INVALID :: u32 where "ERR_GUILD_NAME_INVALID = 6"
definition ERR_GUILD_LEADER_LEAVE :: u32 where "ERR_GUILD_LEADER_LEAVE = 8"
definition ERR_GUILD_PERMISSIONS :: u32 where "ERR_GUILD_PERMISSIONS = 8"
definition ERR_GUILD_PLAYER_NOT_IN_GUILD :: u32 where "ERR_GUILD_PLAYER_NOT_IN_GUILD = 9"
definition ERR_GUILD_PLAYER_NOT_FOUND_S :: u32 where "ERR_GUILD_PLAYER_NOT_FOUND_S = 11"
definition ERR_GUILD_NOT_ALLIED :: u32 where "ERR_GUILD_NOT_ALLIED = 12"
definition ERR_GUILD_RANK_TOO_HIGH_S :: u32 where "ERR_GUILD_RANK_TOO_HIGH_S = 13"
definition ERR_GUILD_RANK_TOO_LOW_S :: u32 where "ERR_GUILD_RANK_TOO_LOW_S = 14"

definition GE_PROMOTION :: u8 where "GE_PROMOTION = 0"
definition GE_DEMOTION :: u8 where "GE_DEMOTION = 1"
definition GE_MOTD :: u8 where "GE_MOTD = 2"
definition GE_JOINED :: u8 where "GE_JOINED = 3"
definition GE_LEFT :: u8 where "GE_LEFT = 4"
definition GE_REMOVED :: u8 where "GE_REMOVED = 5"
definition GE_LEADER_IS :: u8 where "GE_LEADER_IS = 6"
definition GE_LEADER_CHANGED :: u8 where "GE_LEADER_CHANGED = 7"
definition GE_DISBANDED :: u8 where "GE_DISBANDED = 8"
definition GE_TABARDCHANGE :: u8 where "GE_TABARDCHANGE = 9"
definition GE_RANK_UPDATED :: u8 where "GE_RANK_UPDATED = 10"
definition GE_RANK_DELETED :: u8 where "GE_RANK_DELETED = 11"
definition GE_SIGNED_ON :: u8 where "GE_SIGNED_ON = 12"
definition GE_SIGNED_OFF :: u8 where "GE_SIGNED_OFF = 13"
definition GE_GUILDBANKBAGSLOTS_CHANGED :: u8 where "GE_GUILDBANKBAGSLOTS_CHANGED = 14"
definition GE_BANK_TAB_PURCHASED :: u8 where "GE_BANK_TAB_PURCHASED = 15"
definition GE_BANK_TAB_UPDATED :: u8 where "GE_BANK_TAB_UPDATED = 16"
definition GE_BANK_MONEY_SET :: u8 where "GE_BANK_MONEY_SET = 17"
definition GE_BANK_TAB_AND_MONEY_UPDATED :: u8 where "GE_BANK_TAB_AND_MONEY_UPDATED = 18"
definition GE_BANK_TEXT_CHANGED :: u8 where "GE_BANK_TEXT_CHANGED = 19"

definition GUILD_BANK_RIGHT_VIEW_TAB :: u32 where "GUILD_BANK_RIGHT_VIEW_TAB = 0x1"
definition GUILD_BANK_RIGHT_PUT_ITEM :: u32 where "GUILD_BANK_RIGHT_PUT_ITEM = 0x2"
definition GUILD_BANK_RIGHT_UPDATE_TEXT :: u32 where "GUILD_BANK_RIGHT_UPDATE_TEXT = 0x4"
definition GUILD_BANK_RIGHT_DEPOSIT_ITEM :: u32 where "GUILD_BANK_RIGHT_DEPOSIT_ITEM = GUILD_BANK_RIGHT_VIEW_TAB OR GUILD_BANK_RIGHT_PUT_ITEM"
definition GUILD_BANK_RIGHT_FULL :: u32 where "GUILD_BANK_RIGHT_FULL = 0xFF"

definition GUILD_BANK_LOG_DEPOSIT_ITEM :: u8 where "GUILD_BANK_LOG_DEPOSIT_ITEM = 1"
definition GUILD_BANK_LOG_WITHDRAW_ITEM :: u8 where "GUILD_BANK_LOG_WITHDRAW_ITEM = 2"
definition GUILD_BANK_LOG_MOVE_ITEM :: u8 where "GUILD_BANK_LOG_MOVE_ITEM = 3"
definition GUILD_BANK_LOG_DEPOSIT_MONEY :: u8 where "GUILD_BANK_LOG_DEPOSIT_MONEY = 4"
definition GUILD_BANK_LOG_WITHDRAW_MONEY :: u8 where "GUILD_BANK_LOG_WITHDRAW_MONEY = 5"
definition GUILD_BANK_LOG_REPAIR_MONEY :: u8 where "GUILD_BANK_LOG_REPAIR_MONEY = 6"
definition GUILD_BANK_LOG_MOVE_ITEM2 :: u8 where "GUILD_BANK_LOG_MOVE_ITEM2 = 7"

definition GUILD_EVENT_LOG_INVITE_PLAYER :: u8 where "GUILD_EVENT_LOG_INVITE_PLAYER = 1"
definition GUILD_EVENT_LOG_JOIN_GUILD :: u8 where "GUILD_EVENT_LOG_JOIN_GUILD = 2"
definition GUILD_EVENT_LOG_PROMOTE_PLAYER :: u8 where "GUILD_EVENT_LOG_PROMOTE_PLAYER = 3"
definition GUILD_EVENT_LOG_DEMOTE_PLAYER :: u8 where "GUILD_EVENT_LOG_DEMOTE_PLAYER = 4"
definition GUILD_EVENT_LOG_UNINVITE_PLAYER :: u8 where "GUILD_EVENT_LOG_UNINVITE_PLAYER = 5"
definition GUILD_EVENT_LOG_LEAVE_GUILD :: u8 where "GUILD_EVENT_LOG_LEAVE_GUILD = 6"

definition ERR_GUILDEMBLEM_SUCCESS :: u32 where "ERR_GUILDEMBLEM_SUCCESS = 0"
definition ERR_GUILDEMBLEM_INVALID_TABARD_COLORS :: u32 where "ERR_GUILDEMBLEM_INVALID_TABARD_COLORS = 1"
definition ERR_GUILDEMBLEM_NOGUILD :: u32 where "ERR_GUILDEMBLEM_NOGUILD = 2"
definition ERR_GUILDEMBLEM_NOTGUILDMASTER :: u32 where "ERR_GUILDEMBLEM_NOTGUILDMASTER = 3"
definition ERR_GUILDEMBLEM_NOTENOUGHMONEY :: u32 where "ERR_GUILDEMBLEM_NOTENOUGHMONEY = 4"
definition ERR_GUILDEMBLEM_INVALIDVENDOR :: u32 where "ERR_GUILDEMBLEM_INVALIDVENDOR = 5"

definition GUILDMEMBER_STATUS_NONE :: u8 where "GUILDMEMBER_STATUS_NONE = 0x0"
definition GUILDMEMBER_STATUS_ONLINE :: u8 where "GUILDMEMBER_STATUS_ONLINE = 0x1"

definition NULL_SLOT :: u8 where "NULL_SLOT = 255"
definition EQUIP_ERR_OK :: u8 where "EQUIP_ERR_OK = 0"
definition EQUIP_ERR_ITEM_DOESNT_GO_INTO_BAG :: u8 where "EQUIP_ERR_ITEM_DOESNT_GO_INTO_BAG = 15"
definition EQUIP_ERR_ITEM_CANT_STACK :: u8 where "EQUIP_ERR_ITEM_CANT_STACK = 19"
definition EQUIP_ERR_ITEMS_CANT_BE_SWAPPED :: u8 where "EQUIP_ERR_ITEMS_CANT_BE_SWAPPED = 21"
definition EQUIP_ERR_ITEM_NOT_FOUND :: u8 where "EQUIP_ERR_ITEM_NOT_FOUND = 23"
definition EQUIP_ERR_CANT_DROP_SOULBOUND :: u8 where "EQUIP_ERR_CANT_DROP_SOULBOUND = 24"
definition EQUIP_ERR_CAN_ONLY_DO_WITH_EMPTY_BAGS :: u8 where "EQUIP_ERR_CAN_ONLY_DO_WITH_EMPTY_BAGS = 31"
definition EQUIP_ERR_BANK_FULL :: u8 where "EQUIP_ERR_BANK_FULL = 51"
definition EQUIP_ERR_NONE :: u8 where "EQUIP_ERR_NONE = 59"
definition EQUIP_ERR_TOO_MUCH_GOLD :: u8 where "EQUIP_ERR_TOO_MUCH_GOLD = 77"

definition MAX_MONEY_AMOUNT :: u32 where "MAX_MONEY_AMOUNT = 0x7FFFFFFF - 1"
definition GOLD :: u32 where "GOLD = 10000"

definition SMSG_GUILD_QUERY_RESPONSE :: u16 where "SMSG_GUILD_QUERY_RESPONSE = 0x55"
definition SMSG_GUILD_INVITE :: u16 where "SMSG_GUILD_INVITE = 0x83"
definition SMSG_GUILD_INFO :: u16 where "SMSG_GUILD_INFO = 0x88"
definition SMSG_GUILD_ROSTER :: u16 where "SMSG_GUILD_ROSTER = 0x8A"
definition SMSG_GUILD_EVENT :: u16 where "SMSG_GUILD_EVENT = 0x92"
definition SMSG_GUILD_COMMAND_RESULT :: u16 where "SMSG_GUILD_COMMAND_RESULT = 0x93"
definition MSG_SAVE_GUILD_EMBLEM :: u16 where "MSG_SAVE_GUILD_EMBLEM = 0x1F1"
definition SMSG_CALENDAR_FILTER_GUILD :: u16 where "SMSG_CALENDAR_FILTER_GUILD = 0x438"
definition SMSG_GUILD_BANK_LIST :: u16 where "SMSG_GUILD_BANK_LIST = 0x3E8"
definition MSG_GUILD_BANK_LOG_QUERY :: u16 where "MSG_GUILD_BANK_LOG_QUERY = 0x3EE"
definition MSG_GUILD_PERMISSIONS :: u16 where "MSG_GUILD_PERMISSIONS = 0x3FD"
definition MSG_GUILD_BANK_MONEY_WITHDRAWN :: u16 where "MSG_GUILD_BANK_MONEY_WITHDRAWN = 0x3FE"
definition MSG_GUILD_EVENT_LOG_QUERY :: u16 where "MSG_GUILD_EVENT_LOG_QUERY = 0x3FF"
definition MSG_QUERY_GUILD_BANK_TEXT :: u16 where "MSG_QUERY_GUILD_BANK_TEXT = 0x40A"

section \<open>Data\<close>

record emblemInfo =
  emStyle :: u32
  emColor :: u32
  emBorderStyle :: u32
  emBorderColor :: u32
  emBackgroundColor :: u32

text \<open>Rights and slots of a rank in one bank tab.\<close>

record bankRights =
  brTabId :: u8
  brRights :: u8
  brSlots :: u32

record rankInfo =
  riGuildId :: u32
  riRankId :: u8
  riName :: string
  riRights :: u32
  riMoneyPerDay :: u32
  riTabs :: "bankRights list"

text \<open>The seven counters of withdrawals are \<^verbatim>\<open>int32\<close>: words that are read with \<^const>\<open>sint\<close>.\<close>

record gMember =
  mbGuildId :: u32
  mbGuid :: u64
  mbName :: string
  mbZoneId :: u32
  mbLevel :: u8
  mbClass :: u8
  mbFlags :: u8
  mbLogoutTime :: u64
  mbAccountId :: u32
  mbRankId :: u8
  mbPublicNote :: string
  mbOfficerNote :: string
  mbWithdraw :: "u32 list"

datatype logEntry =
    EventLogEntry (leGuildId: u32) (leGuid: u32) (leTimestamp: u64) (elType: u8) (elPlayer1: u32) (elPlayer2: u32) (elNewRank: u8)
  | BankEventLogEntry (leGuildId: u32) (leGuid: u32) (leTimestamp: u64) (blType: u8) (blTabId: u8) (blPlayer: u32)
      (blItemOrMoney: u32) (blStackCount: u16) (blDestTabId: u8)

record logHolder =
  lhLog :: "logEntry list"
  lhGuildId :: u32
  lhMaxRecords :: u32
  lhNextGUID :: u32

text \<open>
  An item, known by its guid (two pointers are equal when the guids are), with its template's entry
  and largest stack.
\<close>

record gItem =
  itGuid :: u32
  itEntry :: u32
  itCount :: u32
  itMaxStack :: u32
  itSoulBound :: bool

record bankTab =
  btGuildId :: u32
  btTabId :: u8
  btItems :: "gItem option list"
  btName :: string
  btIcon :: string
  btText :: string

record guild =
  gId :: u32
  gName :: string
  gLeaderGuid :: u64
  gMotd :: string
  gInfo :: string
  gCreatedDate :: int
  gEmblem :: emblemInfo
  gAccountsNumber :: u32
  gBankMoney :: u64
  gRanks :: "rankInfo list"
  gMembers :: "(u32 \<times> gMember) list"
  gBankTabs :: "bankTab list"
  gEventLog :: logHolder
  gBankEventLog :: "logHolder list"

section \<open>Effects\<close>

text \<open>
  The prepared statements by the table they write, with their parameters in the order in which they are
  set: the guilds, their members, ranks and rights, the bank with its items, and the logs.
\<close>

datatype guildStmt =
    InsGuild u32 string u32 string string u32 emblemInfo u64
  | DelGuild u32
  | UpdMotd string u32
  | UpdInfo string u32
  | UpdLeader u32 u32
  | UpdBankMoney u64 u32
  | UpdEmblem emblemInfo u32

datatype memberStmt =
    InsMember u32 u32 u8 string string
  | DelMember u32
  | DelMembers u32
  | UpdMemberRank u8 u32
  | UpdMemberPNote string u32
  | UpdMemberOffNote string u32
  | InsWithdraw u32 "u32 list"
  | TruncWithdraw

datatype rankStmt =
    InsRank u32 u8 string u32 u32
  | DelRanks u32
  | DelLowestRank u32 u8
  | UpdRankName string u8 u32
  | UpdRankRights u32 u8 u32
  | UpdRankMoney u32 u8 u32
  | InsBankRight u32 u8 u8 u8 u32
  | DelBankRights u32
  | DelBankRightsForRank u32 u8

datatype bankStmt =
    InsBankTab u32 u8
  | DelBankTab u32 u8
  | DelBankTabs u32
  | UpdTabInfo string string u32 u8
  | UpdTabText string u32 u8
  | InsBankItem u32 u8 u8 u32
  | DelBankItem u32 u8 u8
  | DelBankItems u32
  | SaveItem u32 u32
  | DelItem u32

datatype logStmt =
    InsLog logEntry
  | DelEventLog u32 u32
  | DelBankEventLog u32 u32 u8
  | DelEventLogs u32
  | DelBankEventLogs u32

datatype gStmt =
    GuildTab guildStmt
  | MemberTab memberStmt
  | RankTab rankStmt
  | BankTabs bankStmt
  | LogTab logStmt

text \<open>Calls of the script hooks.\<close>

datatype gHook =
    OnGuildCreate u64 string
  | OnGuildDisband
  | OnGuildMOTDChanged string
  | OnGuildInfoChanged string
  | OnGuildAddMember u64 u8
  | OnGuildRemoveMember u64 bool bool
  | OnGuildEvent u8 u32 u32 u8
  | OnGuildBankEvent u8 u8 u32 u32 u16 u8
  | OnGuildItemMove u64 u32 bool u8 u8 bool u8 u8

text \<open>
  What a guild does to the rest of the server: packets to a player, statements, hooks, errors about
  an item, and what happens in a player's bags: an item's new count, an item that leaves them and
  one that comes in. \<open>GUndefined\<close> marks behaviour that C++ leaves undefined, an index out of an array or
  the front of an empty list.
\<close>

datatype gEffect =
    GSend u64 u16 "cfield list"
  | GSql gStmt
  | GHook u32 gHook
  | GEquipError u64 u8 "u32 option"
  | GBagCount u64 gItem u32
  | GBagOut u64 u8 u8 gItem
  | GBagIn u64 "(u16 \<times> u32) list" gItem
  | GSaveGold u64
  | GSaveBags u64
  | GRemovePetitions u64
  | GLeaveCalendar u64 u32
  | GCalendarError u64
  | GRemoveFeignDeath u64
  | GShutdown
  | GUndefined

section \<open>The state\<close>

text \<open>
  The guild an operation works on (\<^verbatim>\<open>this\<close>) and what it shares with the server: the manager's store
  of the guilds and its next id, the guild, rank, invitation and money of the players, and the
  generator of item ids. A player object and the global storage hold the same guild: \<^verbatim>\<open>SetInGuild\<close>
  writes both.
\<close>

record gst =
  gsGuild :: guild
  gsStore :: "(u32 \<times> guild) list"
  gsNextId :: u32
  gsGuildOf :: "u32 \<Rightarrow> u32"
  gsRankOf :: "u64 \<Rightarrow> u8"
  gsInvited :: "u64 \<Rightarrow> u32"
  gsMoney :: "u64 \<Rightarrow> u32"
  gsNextItem :: u32
  gsOut :: "gEffect list"

record gStats =
  gsName :: string
  gsLevel :: u8
  gsClass :: u8
  gsZone :: u32
  gsAccount :: u32

text \<open>
  What an operation reads of the rest: the players in or out of the world, with their stats, team
  and ignore lists; the stored characters and whether the global storage knows them; the clock; the configuration; the names of the default
  ranks; the order of the table of members after an insertion; what the scripts make of amounts of
  money and of the bank list; the packet of a chat message; conversions over floats and the calendar; how
  an item looks; the templates of items; the normal form of a player's name; the bank and the
  vendor a player can reach; and the bags of a player: the item at a position, whether it is a bag with contents and can be traded,
  and where an item could go.
\<close>

record gEnv =
  geOnline :: "u64 \<Rightarrow> bool"
  geStats :: "u64 \<Rightarrow> gStats"
  geTeam :: "u64 \<Rightarrow> u32"
  geStoredTeam :: "u64 \<Rightarrow> u32"
  geIgnores :: "u64 \<Rightarrow> u32 \<Rightarrow> bool"
  geByName :: "string \<Rightarrow> u64 option"
  geStored :: "u32 \<Rightarrow> gStats option"
  geInStore :: "u32 \<Rightarrow> bool"
  geStoredLevel :: "u64 \<Rightarrow> u8"
  geZoneFromDB :: "u64 \<Rightarrow> u32"
  geNow :: u64
  geGameTime :: int
  geTwoSide :: bool
  geMultiMaster :: bool
  geEventLogCount :: u32
  geBankLogCount :: u32
  geRankName :: "nat \<Rightarrow> string"
  geDefaultRankName :: "nat \<Rightarrow> string"
  geOrder :: "(u32 \<times> gMember) list \<Rightarrow> (u32 \<times> gMember) list"
  geDepositHook :: "u64 \<Rightarrow> u32 \<Rightarrow> u32"
  geWithdrawHook :: "u64 \<Rightarrow> u32 \<Rightarrow> bool \<Rightarrow> u32"
  geMoneyHook :: "u64 \<Rightarrow> u32 \<Rightarrow> u32"
  geSendBankList :: "u64 option \<Rightarrow> u8 \<Rightarrow> bool \<Rightarrow> bool"
  geChatPacket :: "u64 \<Rightarrow> bool \<Rightarrow> u32 \<Rightarrow> string \<Rightarrow> u16 \<times> cfield list"
  geDaysFloat :: "u64 \<Rightarrow> u32"
  geLocaltime :: "int \<Rightarrow> tm"
  geTruncate :: "nat \<Rightarrow> string \<Rightarrow> string"
  geRandomProperty :: "u32 \<Rightarrow> u32"
  geSuffixFactor :: "u32 \<Rightarrow> u32"
  geSpellCharges :: "u32 \<Rightarrow> u8"
  geEnchantment :: "u32 \<Rightarrow> nat \<Rightarrow> u32"
  geItemByPos :: "u64 \<Rightarrow> u8 \<Rightarrow> u8 \<Rightarrow> gItem option"
  geNotEmptyBag :: "u32 \<Rightarrow> bool"
  geCanBeTraded :: "u32 \<Rightarrow> bool"
  geCanStoreItem :: "u64 \<Rightarrow> u8 \<Rightarrow> u8 \<Rightarrow> gItem \<Rightarrow> bool \<Rightarrow> u8 \<times> (u16 \<times> u32) list"
  geTemplate :: "u32 \<Rightarrow> bool"
  geNormalize :: "string \<Rightarrow> string option"
  geCanUseBank :: "u64 \<Rightarrow> u64 \<Rightarrow> bool"
  geTabardDesigner :: "u64 \<Rightarrow> u64 \<Rightarrow> bool"
  geFeignsDeath :: "u64 \<Rightarrow> bool"

text \<open>Reading and writing \<^verbatim>\<open>this\<close>, and appending to the output.\<close>

definition on_guild :: "(guild \<Rightarrow> guild) \<Rightarrow> gst \<Rightarrow> gst" where
  "on_guild f s = s\<lparr>gsGuild := f (gsGuild s)\<rparr>"

definition out :: "gEffect \<Rightarrow> gst \<Rightarrow> gst" where
  "out e s = s\<lparr>gsOut := gsOut s @ [e]\<rparr>"

definition sql :: "gStmt \<Rightarrow> gst \<Rightarrow> gst" where
  "sql t s = out (GSql t) s"

definition hook :: "gHook \<Rightarrow> gst \<Rightarrow> gst" where
  "hook h s = out (GHook (gId (gsGuild s)) h) s"

end
