(* ===== verification/GuildRanks.thy ===== *)
theory GuildRanks
  imports GuildData
begin

text \<open>
  Ranks of a guild, \<^verbatim>\<open>Guild::RankInfo\<close> and the private look-ups of src/src/server/game/Guilds/Guild.cpp:
  names, rights, daily limits, and who may do what. Ranks are a sequence from the guild master, rank 0,
  downwards.
\<close>

section \<open>Members and ranks by their keys\<close>

definition GetMember :: "u64 \<Rightarrow> guild \<Rightarrow> gMember option" where
  "GetMember guid g = map_of (gMembers g) (GUID_LOPART guid)"

definition GetMemberByName :: "string \<Rightarrow> guild \<Rightarrow> (u32 \<times> gMember) option" where
  "GetMemberByName name g = find (\<lambda>(k, m). mbName m = name) (gMembers g)"

definition Guild_GetRanksSize :: "guild \<Rightarrow> u8" where
  "Guild_GetRanksSize g = of_nat (length (gRanks g))"

definition Guild_GetLowestRankId :: "guild \<Rightarrow> u8" where
  "Guild_GetLowestRankId g = of_nat (length (gRanks g)) - 1"

definition GetRankInfo :: "u8 \<Rightarrow> guild \<Rightarrow> rankInfo option" where
  "GetRankInfo rankId g = (if rankId < Guild_GetRanksSize g then Some (gRanks g ! unat rankId) else None)"

definition Guild_GetPurchasedTabsSize :: "guild \<Rightarrow> u8" where
  "Guild_GetPurchasedTabsSize g = of_nat (length (gBankTabs g))"

definition GetBankTab :: "u8 \<Rightarrow> guild \<Rightarrow> bankTab option" where
  "GetBankTab tabId g = (if unat tabId < length (gBankTabs g) then Some (gBankTabs g ! unat tabId) else None)"

text \<open>Writing through the pointer that a look-up gave.\<close>

definition upd_member :: "u32 \<Rightarrow> (gMember \<Rightarrow> gMember) \<Rightarrow> guild \<Rightarrow> guild" where
  "upd_member k f g = g\<lparr>gMembers := map (\<lambda>(j, m). if j = k then (j, f m) else (j, m)) (gMembers g)\<rparr>"

definition upd_rank :: "u8 \<Rightarrow> (rankInfo \<Rightarrow> rankInfo) \<Rightarrow> guild \<Rightarrow> guild" where
  "upd_rank i f g = g\<lparr>gRanks := (gRanks g)[unat i := f (gRanks g ! unat i)]\<rparr>"

definition upd_tab :: "u8 \<Rightarrow> (bankTab \<Rightarrow> bankTab) \<Rightarrow> guild \<Rightarrow> guild" where
  "upd_tab i f g = g\<lparr>gBankTabs := (gBankTabs g)[unat i := f (gBankTabs g ! unat i)]\<rparr>"

section \<open>Rights in a bank tab\<close>

definition bankRights_new :: bankRights where
  "bankRights_new = \<lparr>brTabId = TAB_UNDEFINED, brRights = 0, brSlots = 0\<rparr>"

definition SetGuildMasterValues :: "bankRights \<Rightarrow> bankRights" where
  "SetGuildMasterValues b = b\<lparr>brRights := ucast GUILD_BANK_RIGHT_FULL, brSlots := GUILD_WITHDRAW_SLOT_UNLIMITED\<rparr>"

section \<open>Ranks\<close>

definition RankInfo_default :: "u32 \<Rightarrow> rankInfo" where
  "RankInfo_default guildId = \<lparr>riGuildId = guildId, riRankId = GUILD_RANK_NONE, riName = '''', riRights = GR_RIGHT_EMPTY,
     riMoneyPerDay = 0, riTabs = replicate (unat GUILD_BANK_MAX_TABS) bankRights_new\<rparr>"

definition RankInfo_new :: "u32 \<Rightarrow> u8 \<Rightarrow> string \<Rightarrow> u32 \<Rightarrow> u32 \<Rightarrow> rankInfo" where
  "RankInfo_new guildId rankId name rights money =
     \<lparr>riGuildId = guildId, riRankId = rankId, riName = name, riRights = rights,
      riMoneyPerDay = (if rankId \<noteq> GR_GUILDMASTER then money else GUILD_WITHDRAW_MONEY_UNLIMITED),
      riTabs = replicate (unat GUILD_BANK_MAX_TABS) bankRights_new\<rparr>"

text \<open>The fields 1 to 4 of a row of the ranks.\<close>

definition RankInfo_LoadFromDB :: "u8 \<Rightarrow> string \<Rightarrow> u32 \<Rightarrow> u32 \<Rightarrow> rankInfo \<Rightarrow> rankInfo" where
  "RankInfo_LoadFromDB rid name rights money r =
     (let r = r\<lparr>riRankId := rid, riName := name, riRights := rights, riMoneyPerDay := money\<rparr>
      in if riRankId r = GR_GUILDMASTER then r\<lparr>riRights := riRights r OR GR_RIGHT_ALL\<rparr> else r)"

definition RankInfo_SaveToDB :: "rankInfo \<Rightarrow> rankStmt" where
  "RankInfo_SaveToDB r = InsRank (riGuildId r) (riRankId r) (riName r) (riRights r) (riMoneyPerDay r)"

text \<open>One step of the loop; \<^verbatim>\<open>GetTabId\<close> reads the id as a signed byte.\<close>

definition create_missing_tab :: "nat \<Rightarrow> rankInfo \<times> rankStmt list \<Rightarrow> rankInfo \<times> rankStmt list" where
  "create_missing_tab i x =
     (let (r, ts) = x; b = riTabs r ! i
      in if sint (brTabId b) = int i then (r, ts)
         else let b = b\<lparr>brTabId := of_nat i\<rparr>;
                  b = (if riRankId r = GR_GUILDMASTER then SetGuildMasterValues b else b)
              in (r\<lparr>riTabs := (riTabs r)[i := b]\<rparr>,
                  ts @ [InsBankRight (riGuildId r) (of_nat i) (riRankId r) (brRights b) (brSlots b)]))"

definition CreateMissingTabsIfNeeded :: "u8 \<Rightarrow> rankInfo \<Rightarrow> rankInfo \<times> rankStmt list" where
  "CreateMissingTabsIfNeeded tabs r = fold create_missing_tab [0..<unat tabs] (r, [])"

definition RankInfo_WritePacket :: "rankInfo \<Rightarrow> cfield list" where
  "RankInfo_WritePacket r =
     C32 (riRights r) #
     C32 (if riMoneyPerDay r = GUILD_WITHDRAW_MONEY_UNLIMITED then GUILD_WITHDRAW_MONEY_UNLIMITED else riMoneyPerDay r) #
     concat (map (\<lambda>i. [C32 (scast (brRights (riTabs r ! i))), C32 (brSlots (riTabs r ! i))]) [0..<unat GUILD_BANK_MAX_TABS])"

definition RankInfo_SetName :: "string \<Rightarrow> rankInfo \<Rightarrow> rankInfo \<times> rankStmt list" where
  "RankInfo_SetName name r =
     (if riName r = name then (r, []) else (r\<lparr>riName := name\<rparr>, [UpdRankName name (riRankId r) (riGuildId r)]))"

definition RankInfo_SetRights :: "u32 \<Rightarrow> rankInfo \<Rightarrow> rankInfo \<times> rankStmt list" where
  "RankInfo_SetRights rights r =
     (let rights = (if riRankId r = GR_GUILDMASTER then GR_RIGHT_ALL else rights)
      in if riRights r = rights then (r, [])
         else (r\<lparr>riRights := rights\<rparr>, [UpdRankRights rights (riRankId r) (riGuildId r)]))"

definition SetBankMoneyPerDay :: "u32 \<Rightarrow> rankInfo \<Rightarrow> rankInfo \<times> rankStmt list" where
  "SetBankMoneyPerDay money r =
     (let money = (if riRankId r = GR_GUILDMASTER then GUILD_WITHDRAW_MONEY_UNLIMITED else money)
      in if riMoneyPerDay r = money then (r, [])
         else (r\<lparr>riMoneyPerDay := money\<rparr>, [UpdRankMoney money (riRankId r) (riGuildId r)]))"

text \<open>The id of the tab indexes an array of six as a signed byte; outside of it the result is \<^const>\<open>None\<close>.\<close>

definition SetBankTabSlotsAndRights :: "bankRights \<Rightarrow> bool \<Rightarrow> rankInfo \<Rightarrow> (rankInfo \<times> rankStmt list) option" where
  "SetBankTabSlotsAndRights b saveToDB r =
     (let b = (if riRankId r = GR_GUILDMASTER then SetGuildMasterValues b else b);
          i = sint (brTabId b)
      in if 0 \<le> i \<and> i < int (length (riTabs r))
         then Some (r\<lparr>riTabs := (riTabs r)[nat i := b]\<rparr>,
           if saveToDB then [InsBankRight (riGuildId r) (brTabId b) (riRankId r) (brRights b) (brSlots b)] else [])
         else None)"

definition RankInfo_GetBankTabRights :: "u8 \<Rightarrow> rankInfo \<Rightarrow> u8" where
  "RankInfo_GetBankTabRights tabId r =
     (if tabId < GUILD_BANK_MAX_TABS then brRights (riTabs r ! unat tabId) else 0)"

definition RankInfo_GetBankTabSlotsPerDay :: "u8 \<Rightarrow> rankInfo \<Rightarrow> u32" where
  "RankInfo_GetBankTabSlotsPerDay tabId r =
     (if tabId < GUILD_BANK_MAX_TABS then brSlots (riTabs r ! unat tabId) else 0)"

section \<open>Ranks of a guild\<close>

definition run_rank :: "u8 \<Rightarrow> (rankInfo \<Rightarrow> rankInfo \<times> rankStmt list) \<Rightarrow> gst \<Rightarrow> gst" where
  "run_rank i f s =
     (let (r, ts) = f (gRanks (gsGuild s) ! unat i)
      in fold (\<lambda>t. sql (RankTab t)) ts (on_guild (upd_rank i (\<lambda>_. r)) s))"

definition SetRankBankMoneyPerDay :: "u8 \<Rightarrow> u32 \<Rightarrow> gst \<Rightarrow> gst" where
  "SetRankBankMoneyPerDay rankId moneyPerDay s =
     (case GetRankInfo rankId (gsGuild s) of
        Some _ \<Rightarrow> run_rank rankId (SetBankMoneyPerDay moneyPerDay) s
      | None \<Rightarrow> s)"

definition SetRankBankTabRightsAndSlots :: "u8 \<Rightarrow> bool \<Rightarrow> bankRights \<Rightarrow> gst \<Rightarrow> gst" where
  "SetRankBankTabRightsAndSlots rankId saveToDB b s =
     (if sint (brTabId b) \<ge> uint (Guild_GetPurchasedTabsSize (gsGuild s)) then s
      else case GetRankInfo rankId (gsGuild s) of
        Some r \<Rightarrow>
          (case SetBankTabSlotsAndRights b saveToDB r of
             Some x \<Rightarrow> run_rank rankId (\<lambda>_. x) s
           | None \<Rightarrow> out GUndefined s)
      | None \<Rightarrow> s)"

definition GetRankName :: "u8 \<Rightarrow> guild \<Rightarrow> string" where
  "GetRankName rankId g = (case GetRankInfo rankId g of Some r \<Rightarrow> riName r | None \<Rightarrow> ''<unknown>'')"

definition GetRankRights :: "u8 \<Rightarrow> guild \<Rightarrow> u32" where
  "GetRankRights rankId g = (case GetRankInfo rankId g of Some r \<Rightarrow> riRights r | None \<Rightarrow> 0)"

definition GetRankBankMoneyPerDay :: "u8 \<Rightarrow> guild \<Rightarrow> u32" where
  "GetRankBankMoneyPerDay rankId g = (case GetRankInfo rankId g of Some r \<Rightarrow> riMoneyPerDay r | None \<Rightarrow> 0)"

definition GetRankBankTabSlotsPerDay :: "u8 \<Rightarrow> u8 \<Rightarrow> guild \<Rightarrow> u32" where
  "GetRankBankTabSlotsPerDay rankId tabId g =
     (if tabId < Guild_GetPurchasedTabsSize g
      then case GetRankInfo rankId g of Some r \<Rightarrow> RankInfo_GetBankTabSlotsPerDay tabId r | None \<Rightarrow> 0
      else 0)"

definition GetRankBankTabRights :: "u8 \<Rightarrow> u8 \<Rightarrow> guild \<Rightarrow> u8" where
  "GetRankBankTabRights rankId tabId g =
     (case GetRankInfo rankId g of Some r \<Rightarrow> RankInfo_GetBankTabRights tabId r | None \<Rightarrow> 0)"

definition HasRankRight :: "u64 \<Rightarrow> u32 \<Rightarrow> guild \<Rightarrow> bool" where
  "HasRankRight player right g =
     (case GetMember player g of
        Some m \<Rightarrow> GetRankRights (mbRankId m) g AND right \<noteq> GR_RIGHT_EMPTY
      | None \<Rightarrow> False)"

definition Guild_IsLeader :: "u64 \<Rightarrow> guild \<Rightarrow> bool" where
  "Guild_IsLeader player g =
     (if player = gLeaderGuid g then True
      else case GetMember player g of Some m \<Rightarrow> mbRankId m = GR_GUILDMASTER | None \<Rightarrow> False)"

definition MemberHasTabRights :: "u64 \<Rightarrow> u8 \<Rightarrow> u32 \<Rightarrow> guild \<Rightarrow> bool" where
  "MemberHasTabRights guid tabId rights g =
     (case GetMember guid g of
        Some m \<Rightarrow>
          (if mbRankId m = GR_GUILDMASTER \<or> gLeaderGuid g = guid then True
           else scast (GetRankBankTabRights (mbRankId m) tabId g) AND rights = rights)
      | None \<Rightarrow> False)"

text \<open>The ranks a guild starts with, and a new one below the last.\<close>

definition CreateRank :: "string \<Rightarrow> u32 \<Rightarrow> gst \<Rightarrow> bool \<times> gst" where
  "CreateRank name rights s =
     (let g = gsGuild s; newRankId = Guild_GetRanksSize g
      in if newRankId \<ge> GUILD_RANKS_MAX_COUNT then (False, s)
         else let info = RankInfo_new (gId g) newRankId name rights 0;
                  s = on_guild (\<lambda>g. g\<lparr>gRanks := gRanks g @ [info]\<rparr>) s;
                  (info, ts) = CreateMissingTabsIfNeeded (Guild_GetPurchasedTabsSize g) info
              in (True, fold (\<lambda>t. sql (RankTab t)) (ts @ [RankInfo_SaveToDB info]) s))"

text \<open>The names are those of a locale.\<close>

definition CreateDefaultGuildRanks :: "(nat \<Rightarrow> string) \<Rightarrow> gst \<Rightarrow> gst" where
  "CreateDefaultGuildRanks names s =
     (let i = gId (gsGuild s);
          s = sql (RankTab (DelRanks i)) s;
          s = sql (RankTab (DelBankRights i)) s;
          s = snd (CreateRank (names 0) GR_RIGHT_ALL s);
          s = snd (CreateRank (names 1) GR_RIGHT_ALL s);
          s = snd (CreateRank (names 2) (GR_RIGHT_GCHATLISTEN OR GR_RIGHT_GCHATSPEAK) s);
          s = snd (CreateRank (names 3) (GR_RIGHT_GCHATLISTEN OR GR_RIGHT_GCHATSPEAK) s)
      in snd (CreateRank (names 4) (GR_RIGHT_GCHATLISTEN OR GR_RIGHT_GCHATSPEAK) s))"

end
