(* ===== verification/GuildLogs.thy ===== *)
theory GuildLogs
  imports GuildRanks
begin

text \<open>
  The event logs of a guild, \<^verbatim>\<open>Guild::LogHolder\<close> and its entries in
  src/src/server/game/Guilds/Guild.cpp: a list of the last records, oldest first, each under an id that
  runs round in a ring of the size of the log, so that a new row replaces the oldest one.
\<close>

section \<open>A log\<close>

definition LogHolder_new :: "u32 \<Rightarrow> u32 \<Rightarrow> logHolder" where
  "LogHolder_new guildId maxRecords =
     \<lparr>lhLog = [], lhGuildId = guildId, lhMaxRecords = maxRecords, lhNextGUID = GUILD_EVENT_LOG_GUID_UNDEFINED\<rparr>"

definition LogHolder_CanInsert :: "logHolder \<Rightarrow> bool" where
  "LogHolder_CanInsert h \<longleftrightarrow> length (lhLog h) < unat (lhMaxRecords h)"

definition LogHolder_LoadEvent :: "logEntry \<Rightarrow> logHolder \<Rightarrow> logHolder" where
  "LogHolder_LoadEvent e h =
     (let h = (if lhNextGUID h = GUILD_EVENT_LOG_GUID_UNDEFINED then h\<lparr>lhNextGUID := leGuid e\<rparr> else h)
      in h\<lparr>lhLog := e # lhLog h\<rparr>)"

fun LogEntry_SaveToDB :: "logEntry \<Rightarrow> logStmt list" where
  "LogEntry_SaveToDB (EventLogEntry i guid t ty p1 p2 r) =
     [DelEventLog i guid, InsLog (EventLogEntry i guid t ty p1 p2 r)]"
| "LogEntry_SaveToDB (BankEventLogEntry i guid t ty tab p im sc dt) =
     [DelBankEventLog i guid tab, InsLog (BankEventLogEntry i guid t ty tab p im sc dt)]"

text \<open>
  When the log is full the oldest record goes; with a limit of zero that reads the front of an empty
  list, which is \<^const>\<open>None\<close>.
\<close>

definition LogHolder_AddEvent :: "logEntry \<Rightarrow> logHolder \<Rightarrow> (logHolder \<times> logStmt list) option" where
  "LogHolder_AddEvent e h =
     (if length (lhLog h) \<ge> unat (lhMaxRecords h)
      then (case lhLog h of [] \<Rightarrow> None
            | old # rest \<Rightarrow> Some (h\<lparr>lhLog := rest @ [e]\<rparr>, LogEntry_SaveToDB e))
      else Some (h\<lparr>lhLog := lhLog h @ [e]\<rparr>, LogEntry_SaveToDB e))"

definition LogHolder_GetNextGUID :: "logHolder \<Rightarrow> u32 \<times> logHolder" where
  "LogHolder_GetNextGUID h =
     (let n = (if lhNextGUID h = GUILD_EVENT_LOG_GUID_UNDEFINED then 0 else (lhNextGUID h + 1) mod lhMaxRecords h)
      in (n, h\<lparr>lhNextGUID := n\<rparr>))"

fun LogEntry_WritePacket :: "u64 \<Rightarrow> logEntry \<Rightarrow> cfield list" where
  "LogEntry_WritePacket now (EventLogEntry i guid t ty p1 p2 r) =
     [C8 ty, C64 (MAKE_NEW_GUID p1 0 HIGHGUID_PLAYER)] @
     (if ty \<noteq> GUILD_EVENT_LOG_JOIN_GUILD \<and> ty \<noteq> GUILD_EVENT_LOG_LEAVE_GUILD
      then [C64 (MAKE_NEW_GUID p2 0 HIGHGUID_PLAYER)] else []) @
     (if ty = GUILD_EVENT_LOG_PROMOTE_PLAYER \<or> ty = GUILD_EVENT_LOG_DEMOTE_PLAYER then [C8 r] else []) @
     [C32 (ucast (now - t))]"
| "LogEntry_WritePacket now (BankEventLogEntry i guid t ty tab p im sc dt) =
     [C8 ty, C64 (MAKE_NEW_GUID p 0 HIGHGUID_PLAYER)] @
     (if ty = GUILD_BANK_LOG_DEPOSIT_ITEM \<or> ty = GUILD_BANK_LOG_WITHDRAW_ITEM then [C32 im, C32 (ucast sc)]
      else if ty = GUILD_BANK_LOG_MOVE_ITEM \<or> ty = GUILD_BANK_LOG_MOVE_ITEM2 then [C32 im, C32 (ucast sc), C8 dt]
      else [C32 im]) @
     [C32 (ucast (now - t))]"

definition LogHolder_WritePacket :: "u64 \<Rightarrow> logHolder \<Rightarrow> cfield list" where
  "LogHolder_WritePacket now h =
     C8 (of_nat (length (lhLog h))) # concat (map (LogEntry_WritePacket now) (lhLog h))"

definition IsMoneyEvent :: "u8 \<Rightarrow> bool" where
  "IsMoneyEvent ty \<longleftrightarrow> ty = GUILD_BANK_LOG_DEPOSIT_MONEY \<or> ty = GUILD_BANK_LOG_WITHDRAW_MONEY \<or> ty = GUILD_BANK_LOG_REPAIR_MONEY"

section \<open>The logs of a guild\<close>

definition CreateLogHolders :: "gEnv \<Rightarrow> guild \<Rightarrow> guild" where
  "CreateLogHolders E g =
     g\<lparr>gEventLog := LogHolder_new (gId g) (geEventLogCount E),
       gBankEventLog := replicate (unat GUILD_BANK_MAX_TABS + 1) (LogHolder_new (gId g) (geBankLogCount E))\<rparr>"

definition Guild_LogEvent :: "gEnv \<Rightarrow> u8 \<Rightarrow> u32 \<Rightarrow> u32 \<Rightarrow> u8 \<Rightarrow> gst \<Rightarrow> gst" where
  "Guild_LogEvent E ty p1 p2 rank s =
     (let (n, h) = LogHolder_GetNextGUID (gEventLog (gsGuild s));
          e = EventLogEntry (gId (gsGuild s)) n (geNow E) ty p1 p2 rank;
          s = (case LogHolder_AddEvent e h of
                 None \<Rightarrow> out GUndefined s
               | Some (h, ts) \<Rightarrow> fold (\<lambda>t. sql (LogTab t)) ts (on_guild (\<lambda>g. g\<lparr>gEventLog := h\<rparr>) s))
      in hook (OnGuildEvent ty p1 p2 rank) s)"

definition Guild_LogBankEvent :: "gEnv \<Rightarrow> u8 \<Rightarrow> u8 \<Rightarrow> u32 \<Rightarrow> u32 \<Rightarrow> u16 \<Rightarrow> u8 \<Rightarrow> gst \<Rightarrow> gst" where
  "Guild_LogBankEvent E ty tabId lowguid itemOrMoney stack dest s =
     (if tabId > GUILD_BANK_MAX_TABS then s
      else if ty = GUILD_BANK_LOG_MOVE_ITEM \<and> tabId = dest then s
      else
        let dbTabId = (if IsMoneyEvent ty then GUILD_BANK_MONEY_LOGS_TAB else tabId);
            tabId = (if IsMoneyEvent ty then GUILD_BANK_MAX_TABS else tabId);
            (n, h) = LogHolder_GetNextGUID (gBankEventLog (gsGuild s) ! unat tabId);
            e = BankEventLogEntry (gId (gsGuild s)) n (geNow E) ty dbTabId lowguid itemOrMoney stack dest;
            s = (case LogHolder_AddEvent e h of
                   None \<Rightarrow> out GUndefined s
                 | Some (h, ts) \<Rightarrow> fold (\<lambda>t. sql (LogTab t)) ts
                     (on_guild (\<lambda>g. g\<lparr>gBankEventLog := (gBankEventLog g)[unat tabId := h]\<rparr>) s))
        in hook (OnGuildBankEvent ty tabId lowguid itemOrMoney stack dest) s)"

text \<open>The rows of the logs, newest first, as the queries list them.\<close>

definition LoadEventLogFromDB :: "u32 \<Rightarrow> u32 \<Rightarrow> u8 \<Rightarrow> u32 \<Rightarrow> u32 \<Rightarrow> u8 \<Rightarrow> guild \<Rightarrow> guild" where
  "LoadEventLogFromDB guid t ty p1 p2 rank g =
     (if LogHolder_CanInsert (gEventLog g)
      then g\<lparr>gEventLog := LogHolder_LoadEvent (EventLogEntry (gId g) guid (ucast t) ty p1 p2 rank) (gEventLog g)\<rparr>
      else g)"

definition LoadBankEventLogFromDB :: "u8 \<Rightarrow> u32 \<Rightarrow> u8 \<Rightarrow> u32 \<Rightarrow> u32 \<Rightarrow> u16 \<Rightarrow> u8 \<Rightarrow> u32 \<Rightarrow> guild \<Rightarrow> guild" where
  "LoadBankEventLogFromDB dbTabId guid ty p im sc dt t g =
     (let isMoneyTab = (dbTabId = GUILD_BANK_MONEY_LOGS_TAB)
      in if dbTabId < Guild_GetPurchasedTabsSize g \<or> isMoneyTab
         then let tabId = (if isMoneyTab then GUILD_BANK_MAX_TABS else dbTabId);
                  h = gBankEventLog g ! unat tabId
              in if LogHolder_CanInsert h \<and> IsMoneyEvent ty = isMoneyTab
                 then g\<lparr>gBankEventLog := (gBankEventLog g)[unat tabId :=
                        LogHolder_LoadEvent (BankEventLogEntry (gId g) guid (ucast t) ty dbTabId p im sc dt) h]\<rparr>
                 else g
         else g)"

end
