(* ===== verification/GuildBank.thy ===== *)
theory GuildBank
  imports GuildLogs TextUtil
begin

text \<open>
  Broadcasts, the tabs of the bank, what a member may still withdraw today, and the money of the
  bank: \<^verbatim>\<open>Guild::BankTab\<close>, the counters of \<^verbatim>\<open>Guild::Member\<close> and the operations of
  src/src/server/game/Guilds/Guild.cpp over them.
\<close>

section \<open>Sending\<close>

definition send_session :: "u64 \<Rightarrow> u16 \<Rightarrow> cfield list \<Rightarrow> gst \<Rightarrow> gst" where
  "send_session p opcode data s = out (GSend p opcode data) s"

definition SendCommandResult :: "u64 \<Rightarrow> u32 \<Rightarrow> u32 \<Rightarrow> string \<Rightarrow> gst \<Rightarrow> gst" where
  "SendCommandResult p ty errCode param s =
     send_session p SMSG_GUILD_COMMAND_RESULT [C32 ty, CStr param, C32 errCode] s"

definition SendSaveEmblemResult :: "u64 \<Rightarrow> u32 \<Rightarrow> gst \<Rightarrow> gst" where
  "SendSaveEmblemResult p errCode s = send_session p MSG_SAVE_GUILD_EMBLEM [C32 errCode] s"

text \<open>To every member whose player is found.\<close>

definition Guild_BroadcastPacket :: "gEnv \<Rightarrow> u16 \<Rightarrow> cfield list \<Rightarrow> gst \<Rightarrow> gst" where
  "Guild_BroadcastPacket E opcode data s =
     fold (\<lambda>(k, m) s. if geOnline E (mbGuid m) then send_session (mbGuid m) opcode data s else s)
       (gMembers (gsGuild s)) s"

definition Guild_BroadcastPacketToRank :: "gEnv \<Rightarrow> u16 \<Rightarrow> cfield list \<Rightarrow> u8 \<Rightarrow> gst \<Rightarrow> gst" where
  "Guild_BroadcastPacketToRank E opcode data rankId s =
     fold (\<lambda>(k, m) s. if mbRankId m = rankId \<and> geOnline E (mbGuid m) then send_session (mbGuid m) opcode data s else s)
       (gMembers (gsGuild s)) s"

text \<open>Up to three parameters, and the guid when there is one.\<close>

definition Guild_BroadcastEvent :: "gEnv \<Rightarrow> u8 \<Rightarrow> u64 \<Rightarrow> string list \<Rightarrow> gst \<Rightarrow> gst" where
  "Guild_BroadcastEvent E guildEvent guid params s =
     Guild_BroadcastPacket E SMSG_GUILD_EVENT
       ([C8 guildEvent, C8 (of_nat (length params))] @ map CStr params @ (if guid \<noteq> 0 then [C64 guid] else [])) s"

section \<open>Tabs\<close>

definition BankTab_new :: "u32 \<Rightarrow> u8 \<Rightarrow> bankTab" where
  "BankTab_new guildId tabId = \<lparr>btGuildId = guildId, btTabId = tabId,
     btItems = replicate (unat GUILD_BANK_MAX_SLOTS) None, btName = '''', btIcon = '''', btText = ''''\<rparr>"

definition BankTab_LoadFromDB :: "string \<Rightarrow> string \<Rightarrow> string \<Rightarrow> bankTab \<Rightarrow> bankTab" where
  "BankTab_LoadFromDB name icon txt t = t\<lparr>btName := name, btIcon := icon, btText := txt\<rparr>"

definition BankTab_GetItem :: "u8 \<Rightarrow> bankTab \<Rightarrow> gItem option" where
  "BankTab_GetItem slotId t = (if slotId < GUILD_BANK_MAX_SLOTS then btItems t ! unat slotId else None)"

text \<open>The statements for the slot; a stored item is saved itself.\<close>

definition BankTab_SetItem :: "u8 \<Rightarrow> gItem option \<Rightarrow> bankTab \<Rightarrow> (bankTab \<times> bankStmt list) option" where
  "BankTab_SetItem slotId item t =
     (if slotId \<ge> GUILD_BANK_MAX_SLOTS then None
      else Some (t\<lparr>btItems := (btItems t)[unat slotId := item]\<rparr>,
        DelBankItem (btGuildId t) (btTabId t) slotId #
        (case item of None \<Rightarrow> []
         | Some i \<Rightarrow> [InsBankItem (btGuildId t) (btTabId t) slotId (itGuid i), SaveItem (itGuid i) (itCount i)])))"

definition BankTab_SetInfo :: "string \<Rightarrow> string \<Rightarrow> bankTab \<Rightarrow> bankTab \<times> bankStmt list" where
  "BankTab_SetInfo name icon t =
     (if btName t = name \<and> btIcon t = icon then (t, [])
      else (t\<lparr>btName := name, btIcon := icon\<rparr>, [UpdTabInfo name icon (btGuildId t) (btTabId t)]))"

definition BankTab_SetText :: "gEnv \<Rightarrow> string \<Rightarrow> bankTab \<Rightarrow> bankTab \<times> bankStmt list" where
  "BankTab_SetText E txt t =
     (if btText t = txt then (t, [])
      else let txt = geTruncate E 500 txt
           in (t\<lparr>btText := txt\<rparr>, [UpdTabText txt (btGuildId t) (btTabId t)]))"

text \<open>Deleting the contents: with \<^verbatim>\<open>removeItemsFromDB\<close> the rows of the items go as well.\<close>

definition BankTab_Delete :: "bool \<Rightarrow> bankTab \<Rightarrow> bankStmt list" where
  "BankTab_Delete removeItemsFromDB t =
     concat (map (\<lambda>x. case x of Some i \<Rightarrow> if removeItemsFromDB then [DelItem (itGuid i)] else [] | None \<Rightarrow> []) (btItems t))"

definition WriteSlotPacket :: "gEnv \<Rightarrow> u8 \<Rightarrow> bool \<Rightarrow> bankTab \<Rightarrow> cfield list option" where
  "WriteSlotPacket E slotId ignoreEmpty t =
     (let itemEntry = (case BankTab_GetItem slotId t of Some i \<Rightarrow> itEntry i | None \<Rightarrow> 0)
      in if itemEntry = 0 \<and> ignoreEmpty then None
         else Some ([C8 slotId, C32 itemEntry] @
           (case BankTab_GetItem slotId t of
              Some i \<Rightarrow>
                if itemEntry = 0 then []
                else let guid = itGuid i; random = geRandomProperty E guid;
                         ench = filter (\<lambda>k. geEnchantment E guid k \<noteq> 0) [0..<12]
                     in [C32 0] @ (if random \<noteq> 0 then [C32 random, C32 (geSuffixFactor E guid)] else [C32 0]) @
                        [C32 (itCount i), C32 0, C8 (geSpellCharges E guid), C8 (of_nat (length ench))] @
                        concat (map (\<lambda>k. [C8 (of_nat k), C32 (geEnchantment E guid k)]) ench)
            | None \<Rightarrow> [])))"

definition BankTab_WritePacket :: "gEnv \<Rightarrow> bankTab \<Rightarrow> cfield list" where
  "BankTab_WritePacket E t =
     (let slots = List.map_filter (\<lambda>i. WriteSlotPacket E (of_nat i) True t) [0..<unat GUILD_BANK_MAX_SLOTS]
      in C8 (of_nat (length slots)) # concat slots)"

definition BankTab_SendText :: "gEnv \<Rightarrow> u64 option \<Rightarrow> bankTab \<Rightarrow> gst \<Rightarrow> gst" where
  "BankTab_SendText E session t s =
     (let data = [C8 (btTabId t), CStr (btText t)]
      in case session of
           Some p \<Rightarrow> send_session p MSG_QUERY_GUILD_BANK_TEXT data s
         | None \<Rightarrow> Guild_BroadcastPacket E MSG_QUERY_GUILD_BANK_TEXT data s)"

text \<open>An operation on the tab that a look-up gave.\<close>

definition run_tab :: "u8 \<Rightarrow> bankTab \<times> bankStmt list \<Rightarrow> gst \<Rightarrow> gst" where
  "run_tab tabId x s = fold (\<lambda>t. sql (BankTabs t)) (snd x) (on_guild (upd_tab tabId (\<lambda>_. fst x)) s)"

section \<open>Limits of a day\<close>

definition UpdateBankWithdrawValue :: "u8 \<Rightarrow> u32 \<Rightarrow> gMember \<Rightarrow> gMember \<times> memberStmt" where
  "UpdateBankWithdrawValue tabId amount m =
     (let m = m\<lparr>mbWithdraw := (mbWithdraw m)[unat tabId := mbWithdraw m ! unat tabId + amount]\<rparr>
      in (m, InsWithdraw (GUID_LOPART (mbGuid m)) (mbWithdraw m)))"

definition Member_ResetValues :: "gMember \<Rightarrow> gMember" where
  "Member_ResetValues m = m\<lparr>mbWithdraw := replicate (unat GUILD_BANK_MAX_TABS + 1) 0\<rparr>"

definition GetBankWithdrawValue :: "u8 \<Rightarrow> gMember \<Rightarrow> u32" where
  "GetBankWithdrawValue tabId m =
     (if mbRankId m = GR_GUILDMASTER
      then if tabId = GUILD_BANK_MAX_TABS then GUILD_WITHDRAW_MONEY_UNLIMITED else GUILD_WITHDRAW_SLOT_UNLIMITED
      else mbWithdraw m ! unat tabId)"

text \<open>The subtraction and the comparison are those of \<^verbatim>\<open>int32\<close>.\<close>

definition GetMemberRemainingSlots :: "gMember \<Rightarrow> u8 \<Rightarrow> guild \<Rightarrow> u32" where
  "GetMemberRemainingSlots m tabId g =
     (let rankId = mbRankId m
      in if rankId = GR_GUILDMASTER then GUILD_WITHDRAW_SLOT_UNLIMITED
         else if scast (GetRankBankTabRights rankId tabId g) AND GUILD_BANK_RIGHT_VIEW_TAB \<noteq> 0
         then let remaining = GetRankBankTabSlotsPerDay rankId tabId g - GetBankWithdrawValue tabId m
              in if sint remaining > 0 then remaining else 0
         else 0)"

definition GetMemberRemainingMoney :: "gMember \<Rightarrow> guild \<Rightarrow> u32" where
  "GetMemberRemainingMoney m g =
     (let rankId = mbRankId m
      in if rankId = GR_GUILDMASTER then GUILD_WITHDRAW_MONEY_UNLIMITED
         else if GetRankRights rankId g AND (GR_RIGHT_WITHDRAW_REPAIR OR GR_RIGHT_WITHDRAW_GOLD) \<noteq> 0
         then let remaining = GetRankBankMoneyPerDay rankId g - GetBankWithdrawValue GUILD_BANK_MAX_TABS m
              in if sint remaining > 0 then remaining else 0
         else 0)"

definition withdraw_member :: "u32 \<Rightarrow> gMember \<Rightarrow> u8 \<Rightarrow> u32 \<Rightarrow> gst \<Rightarrow> gst" where
  "withdraw_member k m tabId amount s =
     (let (m, t) = UpdateBankWithdrawValue tabId amount m
      in sql (MemberTab t) (on_guild (upd_member k (\<lambda>_. m)) s))"

definition UpdateMemberWithdrawSlots :: "u64 \<Rightarrow> u8 \<Rightarrow> gst \<Rightarrow> gst" where
  "UpdateMemberWithdrawSlots guid tabId s =
     (case GetMember guid (gsGuild s) of
        Some m \<Rightarrow>
          (let rankId = mbRankId m
           in if rankId \<noteq> GR_GUILDMASTER \<and>
                 sint (GetBankWithdrawValue tabId m) < sint (GetRankBankTabSlotsPerDay rankId tabId (gsGuild s))
              then withdraw_member (GUID_LOPART guid) m tabId 1 s else s)
      | None \<Rightarrow> s)"

section \<open>The contents of the bank\<close>

text \<open>\<^verbatim>\<open>std::set<uint8>\<close>: the slots in order, each once.\<close>

definition slot_insert :: "u8 \<Rightarrow> u8 list \<Rightarrow> u8 list" where
  "slot_insert x xs = (if x \<in> set xs then xs else insort x xs)"

definition SendBankList :: "gEnv \<Rightarrow> u64 option \<Rightarrow> u8 \<Rightarrow> bool \<Rightarrow> u8 list \<Rightarrow> gst \<Rightarrow> gst" where
  "SendBankList E session tabId sendAllSlots slots s =
     (if \<not> geSendBankList E session tabId sendAllSlots then s
      else
        let g = gsGuild s;
            infos = (if sendAllSlots \<and> tabId = 0
              then C8 (Guild_GetPurchasedTabsSize g) # concat (map (\<lambda>t. [CStr (btName t), CStr (btIcon t)]) (gBankTabs g)) else []);
            content = (case GetBankTab tabId g of
                None \<Rightarrow> [C8 0]
              | Some t \<Rightarrow>
                  if sendAllSlots then BankTab_WritePacket E t
                  else if slots \<noteq> [] then C8 (of_nat (length slots)) #
                    concat (List.map_filter (\<lambda>i. WriteSlotPacket E i False t) slots)
                  else [C8 0]);
            data = (\<lambda>n. [C64 (gBankMoney g), C8 tabId, C32 n, C8 (if sendAllSlots then 1 else 0)] @ infos @ content)
        in case session of
             Some p \<Rightarrow>
               send_session p SMSG_GUILD_BANK_LIST
                 (data (case GetMember p g of Some m \<Rightarrow> GetMemberRemainingSlots m tabId g | None \<Rightarrow> 0)) s
           | None \<Rightarrow>
               fold (\<lambda>(k, m) s.
                   if \<not> MemberHasTabRights (mbGuid m) tabId GUILD_BANK_RIGHT_VIEW_TAB g \<or> \<not> geOnline E (mbGuid m) then s
                   else send_session (mbGuid m) SMSG_GUILD_BANK_LIST (data (GetMemberRemainingSlots m tabId g)) s)
                 (gMembers g) s)"

definition SendBankContent :: "gEnv \<Rightarrow> u64 \<Rightarrow> u8 \<Rightarrow> gst \<Rightarrow> gst" where
  "SendBankContent E p tabId s =
     (if \<not> MemberHasTabRights p tabId GUILD_BANK_RIGHT_VIEW_TAB (gsGuild s) then s else SendBankList E (Some p) tabId True [] s)"

definition SendBankTabData :: "gEnv \<Rightarrow> u64 \<Rightarrow> u8 \<Rightarrow> gst \<Rightarrow> gst" where
  "SendBankTabData E p tabId s =
     (if tabId < Guild_GetPurchasedTabsSize (gsGuild s) then SendBankContent E p tabId s else s)"

definition SendBankTabsInfo :: "gEnv \<Rightarrow> u64 \<Rightarrow> bool \<Rightarrow> gst \<Rightarrow> gst" where
  "SendBankTabsInfo E p sendAllSlots s = SendBankList E (Some p) 0 sendAllSlots [] s"

definition SendBankTabText :: "gEnv \<Rightarrow> u64 \<Rightarrow> u8 \<Rightarrow> gst \<Rightarrow> gst" where
  "SendBankTabText E p tabId s =
     (case GetBankTab tabId (gsGuild s) of Some t \<Rightarrow> BankTab_SendText E (Some p) t s | None \<Rightarrow> s)"

definition SetBankTabText :: "gEnv \<Rightarrow> u8 \<Rightarrow> string \<Rightarrow> gst \<Rightarrow> gst" where
  "SetBankTabText E tabId txt s =
     (case GetBankTab tabId (gsGuild s) of
        Some t \<Rightarrow>
          (let x = BankTab_SetText E txt t; s = run_tab tabId x s
           in BankTab_SendText E None (fst x) s)
      | None \<Rightarrow> s)"

definition SendBankLog :: "gEnv \<Rightarrow> u64 \<Rightarrow> u8 \<Rightarrow> gst \<Rightarrow> gst" where
  "SendBankLog E p tabId s =
     (if tabId < Guild_GetPurchasedTabsSize (gsGuild s) \<or> tabId = GUILD_BANK_MAX_TABS
      then send_session p MSG_GUILD_BANK_LOG_QUERY
             (C8 tabId # LogHolder_WritePacket (geNow E) (gBankEventLog (gsGuild s) ! unat tabId)) s
      else s)"

definition SendEventLog :: "gEnv \<Rightarrow> u64 \<Rightarrow> gst \<Rightarrow> gst" where
  "SendEventLog E p s = send_session p MSG_GUILD_EVENT_LOG_QUERY (LogHolder_WritePacket (geNow E) (gEventLog (gsGuild s))) s"

definition SendPermissions :: "u64 \<Rightarrow> gst \<Rightarrow> gst" where
  "SendPermissions p s =
     (let g = gsGuild s
      in case GetMember p g of
           None \<Rightarrow> s
         | Some m \<Rightarrow>
             (let rankId = mbRankId m
              in send_session p MSG_GUILD_PERMISSIONS
                   ([C32 (ucast rankId), C32 (GetRankRights rankId g), C32 (GetMemberRemainingMoney m g),
                     C8 (Guild_GetPurchasedTabsSize g)] @
                    concat (map (\<lambda>i. [C32 (scast (GetRankBankTabRights rankId (of_nat i) g)), C32 (GetMemberRemainingSlots m (of_nat i) g)])
                      [0..<unat GUILD_BANK_MAX_TABS])) s))"

definition SendMoneyInfo :: "u64 \<Rightarrow> gst \<Rightarrow> gst" where
  "SendMoneyInfo p s =
     (case GetMember p (gsGuild s) of
        None \<Rightarrow> s
      | Some m \<Rightarrow> send_session p MSG_GUILD_BANK_MONEY_WITHDRAWN [C32 (GetMemberRemainingMoney m (gsGuild s))] s)"

section \<open>Buying a tab\<close>

definition GetGuildBankTabPrice :: "u8 \<Rightarrow> u32" where
  "GetGuildBankTabPrice tabId =
     (if tabId = 0 then 100 else if tabId = 1 then 250 else if tabId = 2 then 500
      else if tabId = 3 then 1000 else if tabId = 4 then 2500 else if tabId = 5 then 5000 else 0)"

definition CreateNewBankTab :: "gst \<Rightarrow> gst" where
  "CreateNewBankTab s =
     (let g = gsGuild s; tabId = Guild_GetPurchasedTabsSize g;
          s = on_guild (\<lambda>g. g\<lparr>gBankTabs := gBankTabs g @ [BankTab_new (gId g) tabId]\<rparr>) s;
          s = sql (BankTabs (DelBankTab (gId g) tabId)) s;
          s = sql (BankTabs (InsBankTab (gId g) tabId)) s;
          tabId = tabId + 1
      in fold (\<lambda>i. run_rank (of_nat i) (CreateMissingTabsIfNeeded tabId)) [0..<length (gRanks g)] s)"

section \<open>Money\<close>

text \<open>
  \<^verbatim>\<open>Player::ModifyMoney\<close>, whose hook may change the amount; amounts are \<^verbatim>\<open>int32\<close>, the money of a
  player \<^verbatim>\<open>uint32\<close>.
\<close>

definition ModifyMoney :: "gEnv \<Rightarrow> u64 \<Rightarrow> u32 \<Rightarrow> gst \<Rightarrow> bool \<times> gst" where
  "ModifyMoney E p amount s =
     (if amount = 0 then (True, s)
      else
        let amount = geMoneyHook E p amount; money = gsMoney s p
        in if sint amount < 0
           then (True, s\<lparr>gsMoney := (gsMoney s)(p := if money > - amount then money + amount else 0)\<rparr>)
           else if money < MAX_MONEY_AMOUNT - amount
           then (True, s\<lparr>gsMoney := (gsMoney s)(p := money + amount)\<rparr>)
           else (False, out (GEquipError p EQUIP_ERR_TOO_MUCH_GOLD None) s))"

definition ModifyBankMoney :: "u64 \<Rightarrow> bool \<Rightarrow> gst \<Rightarrow> bool \<times> gst" where
  "ModifyBankMoney amount add s =
     (let money = gBankMoney (gsGuild s)
      in if \<not> add \<and> money < amount then (False, s)
         else let money = (if add then money + amount else money - amount);
                  s = on_guild (\<lambda>g. g\<lparr>gBankMoney := money\<rparr>) s
              in (True, sql (GuildTab (UpdBankMoney money (gId (gsGuild s)))) s))"

definition bank_money_set :: "gEnv \<Rightarrow> gst \<Rightarrow> gst" where
  "bank_money_set E s =
     (case ByteArrayToHexStr (le_bytes 8 (gBankMoney (gsGuild s))) 8 True of
        Some aux \<Rightarrow> Guild_BroadcastEvent E GE_BANK_MONEY_SET 0 [aux] s
      | None \<Rightarrow> s)"

definition HandleMemberDepositMoney :: "gEnv \<Rightarrow> u64 \<Rightarrow> u32 \<Rightarrow> gst \<Rightarrow> gst" where
  "HandleMemberDepositMoney E p amount s =
     (let amount = geDepositHook E p amount;
          s = snd (ModifyBankMoney (ucast amount) True s);
          s = snd (ModifyMoney E p (- amount) s);
          s = out (GSaveGold p) s;
          s = Guild_LogBankEvent E GUILD_BANK_LOG_DEPOSIT_MONEY 0 (GUID_LOPART p) amount 0 0 s
      in bank_money_set E s)"

definition HandleMemberWithdrawMoney :: "gEnv \<Rightarrow> u64 \<Rightarrow> u32 \<Rightarrow> bool \<Rightarrow> gst \<Rightarrow> bool \<times> gst" where
  "HandleMemberWithdrawMoney E p amount repair s =
     (let amount = min amount MAX_MONEY_AMOUNT
      in if gBankMoney (gsGuild s) < ucast amount then (False, s)
         else case GetMember p (gsGuild s) of
           None \<Rightarrow> (False, s)
         | Some m \<Rightarrow>
             if GetMemberRemainingMoney m (gsGuild s) < amount then (False, s)
             else
               let amount = geWithdrawHook E p amount repair;
                   (ok, s) = (if repair then (True, s) else ModifyMoney E p amount s)
               in if \<not> ok then (False, s)
                  else
                    let s = (if repair then s else out (GSaveGold p) s);
                        s = withdraw_member (GUID_LOPART p) m GUILD_BANK_MAX_TABS amount s;
                        s = snd (ModifyBankMoney (ucast amount) False s);
                        s = Guild_LogBankEvent E (if repair then GUILD_BANK_LOG_REPAIR_MONEY else GUILD_BANK_LOG_WITHDRAW_MONEY)
                              0 (GUID_LOPART p) amount 0 0 s
                    in (True, bank_money_set E s))"

definition HandleBuyBankTab :: "gEnv \<Rightarrow> u64 \<Rightarrow> u8 \<Rightarrow> gst \<Rightarrow> gst" where
  "HandleBuyBankTab E p tabId s =
     (case GetMember p (gsGuild s) of
        None \<Rightarrow> s
      | Some m \<Rightarrow>
          if Guild_GetPurchasedTabsSize (gsGuild s) \<ge> GUILD_BANK_MAX_TABS then s
          else if tabId \<noteq> Guild_GetPurchasedTabsSize (gsGuild s) then s
          else
            let tabCost = GetGuildBankTabPrice tabId * GOLD
            in if tabCost = 0 then s
               else if gsMoney s p < tabCost then s
               else
                 let s = snd (ModifyMoney E p (- tabCost) s);
                     s = CreateNewBankTab s;
                     s = Guild_BroadcastEvent E GE_BANK_TAB_PURCHASED 0 [] s
                 in SendPermissions p s)"

definition HandleSetBankTabInfo :: "gEnv \<Rightarrow> u64 \<Rightarrow> u8 \<Rightarrow> string \<Rightarrow> string \<Rightarrow> gst \<Rightarrow> gst" where
  "HandleSetBankTabInfo E p tabId name icon s =
     (case GetBankTab tabId (gsGuild s) of
        None \<Rightarrow> s
      | Some t \<Rightarrow>
          Guild_BroadcastEvent E GE_BANK_TAB_UPDATED 0 [dec_string (unat tabId), name, icon] (run_tab tabId (BankTab_SetInfo name icon t) s))"

definition Guild_ResetTimes :: "gEnv \<Rightarrow> gst \<Rightarrow> gst" where
  "Guild_ResetTimes E s =
     Guild_BroadcastEvent E GE_BANK_TAB_AND_MONEY_UPDATED 0 []
       (on_guild (\<lambda>g. g\<lparr>gMembers := map (\<lambda>(k, m). (k, Member_ResetValues m)) (gMembers g)\<rparr>) s)"

end
