(* ===== verification/GuildItems.thy ===== *)
theory GuildItems
  imports GuildBank
begin

text \<open>
  Moving items between the tabs of the bank and between the bank and a player's bags:
  \<^verbatim>\<open>Guild::MoveItemData\<close> with its two subclasses, \<^verbatim>\<open>_MoveItems\<close> and \<^verbatim>\<open>_DoItemsMove\<close> of
  src/src/server/game/Guilds/Guild.cpp. What happens in the bags is an effect; the items in the bank
  are state, and a pointer to one of them is its slot.
\<close>

section \<open>Items in slots\<close>

definition Guild_GetItem :: "u8 \<Rightarrow> u8 \<Rightarrow> guild \<Rightarrow> gItem option" where
  "Guild_GetItem tabId slotId g =
     (case GetBankTab tabId g of Some t \<Rightarrow> BankTab_GetItem slotId t | None \<Rightarrow> None)"

definition SetItem :: "u8 \<Rightarrow> u8 \<Rightarrow> gItem option \<Rightarrow> gst \<Rightarrow> gst" where
  "SetItem tabId slotId item s =
     (case GetBankTab tabId (gsGuild s) of
        Some t \<Rightarrow> (case BankTab_SetItem slotId item t of Some x \<Rightarrow> run_tab tabId x s | None \<Rightarrow> s)
      | None \<Rightarrow> s)"

definition Guild_RemoveItem :: "u8 \<Rightarrow> u8 \<Rightarrow> gst \<Rightarrow> gst" where
  "Guild_RemoveItem tabId slotId s = SetItem tabId slotId None s"

text \<open>\<^verbatim>\<open>SetCount\<close> and \<^verbatim>\<open>SaveToDB\<close> of the item that lies in a slot.\<close>

definition count_item :: "u8 \<Rightarrow> u8 \<Rightarrow> gItem \<Rightarrow> u32 \<Rightarrow> gst \<Rightarrow> gst" where
  "count_item tabId slotId item n s =
     sql (BankTabs (SaveItem (itGuid item) n))
       (on_guild (upd_tab tabId (\<lambda>t. t\<lparr>btItems := (btItems t)[unat slotId := Some (item\<lparr>itCount := n\<rparr>)]\<rparr>)) s)"

text \<open>
  \<^verbatim>\<open>Item::CloneItem\<close>: a new item of the same template; \<^verbatim>\<open>Item::CreateItem\<close> makes none for a count of
  zero, and never more than a stack.
\<close>

definition CreateItem :: "gItem \<Rightarrow> u32 \<Rightarrow> gst \<Rightarrow> gItem option \<times> gst" where
  "CreateItem item n s =
     (if n < 1 then (None, s)
      else (Some (item\<lparr>itGuid := gsNextItem s, itCount := min n (itMaxStack item), itSoulBound := False\<rparr>),
            s\<lparr>gsNextItem := gsNextItem s + 1\<rparr>))"

definition CloneItem :: "u32 \<Rightarrow> gItem \<Rightarrow> gst \<Rightarrow> gItem option \<times> gst" where
  "CloneItem n item s =
     (case CreateItem item n s of
        (Some i, s) \<Rightarrow> (Some (i\<lparr>itSoulBound := itSoulBound item\<rparr>), s)
      | (None, s) \<Rightarrow> (None, s))"

section \<open>Sources and destinations\<close>

text \<open>
  A side of a move: in the bank or in the bags of the player, the tab or bag, the slot, the item it holds
  (\<^verbatim>\<open>m_pItem\<close>), its clone, and the positions reserved for what comes in.
\<close>

record moveItemData =
  mdBank :: bool
  mdContainer :: u8
  mdSlotId :: u8
  mdItem :: "gItem option"
  mdCloned :: "gItem option"
  mdVec :: "(u16 \<times> u32) list"

definition MoveItemData_new :: "bool \<Rightarrow> u8 \<Rightarrow> u8 \<Rightarrow> moveItemData" where
  "MoveItemData_new bank container slotId =
     \<lparr>mdBank = bank, mdContainer = container, mdSlotId = slotId, mdItem = None, mdCloned = None, mdVec = []\<rparr>"

definition InitItem :: "gEnv \<Rightarrow> u64 \<Rightarrow> moveItemData \<Rightarrow> gst \<Rightarrow> moveItemData \<times> gst" where
  "InitItem E p d s =
     (if mdBank d then (d\<lparr>mdItem := Guild_GetItem (mdContainer d) (mdSlotId d) (gsGuild s)\<rparr>, s)
      else case geItemByPos E p (mdContainer d) (mdSlotId d) of
        None \<Rightarrow> (d\<lparr>mdItem := None\<rparr>, s)
      | Some i \<Rightarrow>
          if geNotEmptyBag E (itGuid i)
          then (d\<lparr>mdItem := None\<rparr>, out (GEquipError p EQUIP_ERR_CAN_ONLY_DO_WITH_EMPTY_BAGS (Some (itGuid i))) s)
          else if \<not> geCanBeTraded E (itGuid i)
          then (d\<lparr>mdItem := None\<rparr>, out (GEquipError p EQUIP_ERR_ITEMS_CANT_BE_SWAPPED (Some (itGuid i))) s)
          else (d\<lparr>mdItem := Some i\<rparr>, s))"

definition CheckItem :: "gItem \<Rightarrow> u32 \<Rightarrow> u32 option" where
  "CheckItem item splitedAmount =
     (if splitedAmount > itCount item then None
      else Some (if splitedAmount = itCount item then 0 else splitedAmount))"

definition same_tab :: "moveItemData \<Rightarrow> moveItemData \<Rightarrow> bool" where
  "same_tab d other \<longleftrightarrow> mdBank other \<and> mdContainer other = mdContainer d"

definition HasStoreRights :: "u64 \<Rightarrow> moveItemData \<Rightarrow> moveItemData \<Rightarrow> guild \<Rightarrow> bool" where
  "HasStoreRights p d other g \<longleftrightarrow>
     \<not> mdBank d \<or> same_tab d other \<or> MemberHasTabRights p (mdContainer d) GUILD_BANK_RIGHT_DEPOSIT_ITEM g"

definition HasWithdrawRights :: "u64 \<Rightarrow> moveItemData \<Rightarrow> moveItemData \<Rightarrow> guild \<Rightarrow> bool" where
  "HasWithdrawRights p d other g \<longleftrightarrow>
     \<not> mdBank d \<or> same_tab d other \<or>
     (case GetMember p g of Some m \<Rightarrow> GetMemberRemainingSlots m (mdContainer d) g | None \<Rightarrow> 0) \<noteq> 0"

section \<open>Room in a tab\<close>

text \<open>Reserving a slot: the new list of positions and what is still to be placed.\<close>

definition ReserveSpace :: "u8 \<Rightarrow> gItem \<Rightarrow> gItem option \<Rightarrow> (u16 \<times> u32) list \<times> u32 \<Rightarrow> bool \<times> (u16 \<times> u32) list \<times> u32" where
  "ReserveSpace slotId item dest x =
     (let (vec, n) = x
      in if (case dest of Some d \<Rightarrow> itEntry d \<noteq> itEntry item \<or> itCount d \<ge> itMaxStack item | None \<Rightarrow> False)
         then (False, vec, n)
         else let requiredSpace = itMaxStack item - (case dest of Some d \<Rightarrow> itCount d | None \<Rightarrow> 0);
                  requiredSpace = min requiredSpace n
              in if ucast slotId \<in> fst ` set vec then (True, vec, n)
                 else (True, vec @ [(ucast slotId, requiredSpace)], n - requiredSpace))"

definition reserve_slot :: "u8 \<Rightarrow> gItem \<Rightarrow> u8 \<Rightarrow> bool \<Rightarrow> guild \<Rightarrow> u8 \<Rightarrow> (u16 \<times> u32) list \<times> u32 \<Rightarrow> (u16 \<times> u32) list \<times> u32" where
  "reserve_slot container item skipSlotId merge g slotId x =
     (if snd x = 0 \<or> slotId = skipSlotId then x
      else let dest = Guild_GetItem container slotId g;
               dest = (case dest of Some d \<Rightarrow> if itGuid d = itGuid item then None else Some d | None \<Rightarrow> None)
           in if (dest \<noteq> None) \<noteq> merge then x else snd (ReserveSpace slotId item dest x))"

definition CanStoreItemInTab :: "u8 \<Rightarrow> gItem \<Rightarrow> u8 \<Rightarrow> bool \<Rightarrow> guild \<Rightarrow> (u16 \<times> u32) list \<times> u32 \<Rightarrow> (u16 \<times> u32) list \<times> u32" where
  "CanStoreItemInTab container item skipSlotId merge g x =
     fold (reserve_slot container item skipSlotId merge g) (map of_nat [0..<unat GUILD_BANK_MAX_SLOTS]) x"

definition BankMoveItemData_CanStore :: "moveItemData \<Rightarrow> gItem \<Rightarrow> bool \<Rightarrow> guild \<Rightarrow> u8 \<times> (u16 \<times> u32) list" where
  "BankMoveItemData_CanStore d item swap g =
     (if itSoulBound item then (EQUIP_ERR_CANT_DROP_SOULBOUND, [])
      else if mdContainer d \<ge> Guild_GetPurchasedTabsSize g then (EQUIP_ERR_ITEM_DOESNT_GO_INTO_BAG, [])
      else
        let dest = Guild_GetItem (mdContainer d) (mdSlotId d) g;
            dest = (case dest of Some i \<Rightarrow> if itGuid i = itGuid item \<or> swap then None else Some i | None \<Rightarrow> None);
            (ok, x) = (if mdSlotId d \<noteq> NULL_SLOT then ReserveSpace (mdSlotId d) item dest ([], itCount item)
                       else (True, [], itCount item))
        in if \<not> ok then (EQUIP_ERR_ITEM_CANT_STACK, fst x)
           else if mdSlotId d \<noteq> NULL_SLOT \<and> snd x = 0 then (EQUIP_ERR_OK, fst x)
           else
             let x = (if itMaxStack item > 1 then CanStoreItemInTab (mdContainer d) item (mdSlotId d) True g x else x)
             in if itMaxStack item > 1 \<and> snd x = 0 then (EQUIP_ERR_OK, fst x)
                else
                  let x = CanStoreItemInTab (mdContainer d) item (mdSlotId d) False g x
                  in (if snd x = 0 then EQUIP_ERR_OK else EQUIP_ERR_BANK_FULL, fst x))"

definition MoveItemData_CanStore :: "gEnv \<Rightarrow> u64 \<Rightarrow> gItem \<Rightarrow> bool \<Rightarrow> bool \<Rightarrow> moveItemData \<Rightarrow> gst \<Rightarrow> bool \<times> moveItemData \<times> gst" where
  "MoveItemData_CanStore E p item swap sendError d s =
     (let (msg, vec) = (if mdBank d then BankMoveItemData_CanStore d item swap (gsGuild s)
                        else geCanStoreItem E p (mdContainer d) (mdSlotId d) item swap);
          s = (if sendError \<and> msg \<noteq> EQUIP_ERR_OK then out (GEquipError p msg (Some (itGuid item))) s else s)
      in (msg = EQUIP_ERR_OK, d\<lparr>mdVec := vec\<rparr>, s))"

section \<open>Taking out and putting in\<close>

definition MoveItemData_RemoveItem :: "u64 \<Rightarrow> moveItemData \<Rightarrow> u32 \<Rightarrow> moveItemData \<Rightarrow> gst \<Rightarrow> moveItemData \<times> gst" where
  "MoveItemData_RemoveItem p other splitedAmount d s =
     (case mdItem d of
        None \<Rightarrow> (d, out GUndefined s)
      | Some i \<Rightarrow>
          if \<not> mdBank d
          then (if splitedAmount \<noteq> 0
                then (d, out (GSaveBags p) (out (GBagCount p i (itCount i - splitedAmount)) s))
                else (d\<lparr>mdItem := None\<rparr>, out (GBagOut p (mdContainer d) (mdSlotId d) i) s))
          else
            let (d', s) = (if splitedAmount \<noteq> 0
                  then (d, count_item (mdContainer d) (mdSlotId d) i (itCount i - splitedAmount) s)
                  else (d\<lparr>mdItem := None\<rparr>, Guild_RemoveItem (mdContainer d) (mdSlotId d) s));
                s = (if \<not> same_tab d other then UpdateMemberWithdrawSlots p (mdContainer d) s else s)
            in (d', s))"

text \<open>
  Storing at one position: onto the stack that lies there, after which the item itself is deleted
  unless it is only cloned from, or into the empty slot.
\<close>

definition store_at :: "u8 \<Rightarrow> gItem \<Rightarrow> u16 \<times> u32 \<Rightarrow> bool \<Rightarrow> gst \<Rightarrow> gst" where
  "store_at tabId item pos clone s =
     (let slotId = ucast (fst pos); n = snd pos
      in case Guild_GetItem tabId slotId (gsGuild s) of
           Some dest \<Rightarrow>
             (let s = count_item tabId slotId dest (itCount dest + n) s
              in if clone then s else sql (BankTabs (DelItem (itGuid item))) s)
         | None \<Rightarrow>
             (if clone
              then case CloneItem n item s of
                     (Some i, s) \<Rightarrow> SetItem tabId slotId (Some i) s
                   | (None, s) \<Rightarrow> s
              else SetItem tabId slotId (Some (item\<lparr>itCount := n\<rparr>)) s))"

fun store_all :: "u8 \<Rightarrow> gItem \<Rightarrow> (u16 \<times> u32) list \<Rightarrow> gst \<Rightarrow> gst" where
  "store_all tabId item [] s = s"
| "store_all tabId item (pos # vec) s = store_all tabId item vec (store_at tabId item pos (vec \<noteq> []) s)"

definition MoveItemData_StoreItem :: "u64 \<Rightarrow> moveItemData \<Rightarrow> gItem \<Rightarrow> gst \<Rightarrow> gst" where
  "MoveItemData_StoreItem p d item s =
     (if \<not> mdBank d then out (GSaveBags p) (out (GBagIn p (mdVec d) item) s)
      else case GetBankTab (mdContainer d) (gsGuild s) of
             None \<Rightarrow> s
           | Some _ \<Rightarrow> store_all (mdContainer d) item (mdVec d) s)"

text \<open>The bank's log of a move from one side into the other.\<close>

definition MoveItemData_LogBankEvent :: "gEnv \<Rightarrow> u64 \<Rightarrow> moveItemData \<Rightarrow> gItem \<Rightarrow> u32 \<Rightarrow> moveItemData \<Rightarrow> gst \<Rightarrow> gst" where
  "MoveItemData_LogBankEvent E p from fromItem n d s =
     (if \<not> mdBank d
      then Guild_LogBankEvent E GUILD_BANK_LOG_WITHDRAW_ITEM (mdContainer from) (GUID_LOPART p) (itEntry fromItem) (ucast n) 0 s
      else if mdBank from
      then Guild_LogBankEvent E GUILD_BANK_LOG_MOVE_ITEM (mdContainer from) (GUID_LOPART p) (itEntry fromItem) (ucast n) (mdContainer d) s
      else Guild_LogBankEvent E GUILD_BANK_LOG_DEPOSIT_ITEM (mdContainer d) (GUID_LOPART p) (itEntry fromItem) (ucast n) 0 s)"

definition MoveItemData_LogAction :: "u64 \<Rightarrow> moveItemData \<Rightarrow> gItem \<Rightarrow> moveItemData \<Rightarrow> gst \<Rightarrow> gst" where
  "MoveItemData_LogAction p from fromItem d s =
     hook (OnGuildItemMove p (itGuid fromItem) (mdBank from) (mdContainer from) (mdSlotId from)
       (mdBank d) (mdContainer d) (mdSlotId d)) s"

section \<open>Moving\<close>

text \<open>
  \<^verbatim>\<open>pSrc->GetItem(splitedAmount)\<close> is the clone when an amount is split off. Both sides come back with
  the positions they reserved.
\<close>

definition DoItemsMove :: "gEnv \<Rightarrow> u64 \<Rightarrow> bool \<Rightarrow> u32 \<Rightarrow> moveItemData \<Rightarrow> moveItemData \<Rightarrow> gst \<Rightarrow> bool \<times> moveItemData \<times> moveItemData \<times> gst" where
  "DoItemsMove E p sendError splitedAmount src dst s =
     (case (mdItem src, if splitedAmount \<noteq> 0 then mdCloned src else mdItem src) of
        (Some srcHeld, Some srcItem) \<Rightarrow>
          (let (ok, dst, s) = MoveItemData_CanStore E p srcItem (mdItem dst \<noteq> None) sendError dst s
           in if \<not> ok then (False, src, dst, s)
              else case mdItem dst of
                None \<Rightarrow>
                  (let s = MoveItemData_LogAction p src srcHeld dst s;
                       s = MoveItemData_LogBankEvent E p src srcHeld (itCount srcItem) dst s;
                       (src, s) = MoveItemData_RemoveItem p dst splitedAmount src s;
                       s = MoveItemData_StoreItem p dst srcItem s
                   in (True, src, dst, s))
              | Some dstItem \<Rightarrow>
                  (let (ok, src, s) = MoveItemData_CanStore E p dstItem True True src s
                   in if \<not> ok then (False, src, dst, s)
                      else
                        let s = MoveItemData_LogAction p src srcHeld dst s;
                            s = MoveItemData_LogAction p dst dstItem src s;
                            s = MoveItemData_LogBankEvent E p src srcHeld (itCount srcItem) dst s;
                            s = MoveItemData_LogBankEvent E p dst dstItem (itCount dstItem) src s;
                            (src', s) = MoveItemData_RemoveItem p dst splitedAmount src s;
                            (dst', s) = MoveItemData_RemoveItem p src 0 dst s;
                            s = MoveItemData_StoreItem p dst' srcItem s;
                            s = MoveItemData_StoreItem p src' dstItem s
                        in (True, src', dst', s)))
      | _ \<Rightarrow> (False, src, dst, out GUndefined s))"

definition copy_slots :: "moveItemData \<Rightarrow> u8 list \<Rightarrow> u8 list" where
  "copy_slots d ids = fold (\<lambda>pos. slot_insert (ucast (fst pos))) (mdVec d) ids"

definition SendBankContentUpdate :: "gEnv \<Rightarrow> moveItemData \<Rightarrow> moveItemData \<Rightarrow> gst \<Rightarrow> gst" where
  "SendBankContentUpdate E src dst s =
     (if mdBank src
      then if mdBank dst
           then if mdContainer dst = mdContainer src
                then SendBankList E None (mdContainer src) False (copy_slots dst [mdSlotId src]) s
                else SendBankList E None (mdContainer src) False [mdSlotId src]
                       (SendBankList E None (mdContainer dst) False (copy_slots dst []) s)
           else SendBankList E None (mdContainer src) False [mdSlotId src] s
      else if mdBank dst then SendBankList E None (mdContainer dst) False (copy_slots dst []) s
      else out GUndefined s)"

definition MoveItems :: "gEnv \<Rightarrow> u64 \<Rightarrow> moveItemData \<Rightarrow> moveItemData \<Rightarrow> u32 \<Rightarrow> gst \<Rightarrow> gst" where
  "MoveItems E p src dst splitedAmount s =
     (let (src, s) = InitItem E p src s
      in case mdItem src of
           None \<Rightarrow> s
         | Some item \<Rightarrow>
             (case CheckItem item splitedAmount of
                None \<Rightarrow> s
              | Some splitedAmount \<Rightarrow>
                  if \<not> HasStoreRights p dst src (gsGuild s) then s
                  else if \<not> HasWithdrawRights p src dst (gsGuild s) then s
                  else if splitedAmount \<noteq> 0
                  then (case CloneItem splitedAmount item s of
                          (None, s) \<Rightarrow> out (GEquipError p EQUIP_ERR_ITEM_NOT_FOUND (Some (itGuid item))) s
                        | (Some c, s) \<Rightarrow>
                            (let (ok, src, dst, s) = DoItemsMove E p True splitedAmount (src\<lparr>mdCloned := Some c\<rparr>) dst s
                             in SendBankContentUpdate E src dst s))
                  else
                    let (ok, src, dst, s) = DoItemsMove E p False 0 src dst s
                    in if ok then SendBankContentUpdate E src dst s
                       else
                         let (dst, s) = InitItem E p dst s
                         in if mdItem dst = None then s
                            else if \<not> HasStoreRights p src dst (gsGuild s) then s
                            else if \<not> HasWithdrawRights p dst src (gsGuild s) then s
                            else let (ok, src, dst, s) = DoItemsMove E p True 0 src dst s
                                 in SendBankContentUpdate E src dst s))"

definition SwapItems :: "gEnv \<Rightarrow> u64 \<Rightarrow> u8 \<Rightarrow> u8 \<Rightarrow> u8 \<Rightarrow> u8 \<Rightarrow> u32 \<Rightarrow> gst \<Rightarrow> gst" where
  "SwapItems E p tabId slotId destTabId destSlotId splitedAmount s =
     (let tabs = Guild_GetPurchasedTabsSize (gsGuild s)
      in if tabId \<ge> tabs \<or> slotId \<ge> GUILD_BANK_MAX_SLOTS \<or> destTabId \<ge> tabs \<or> destSlotId \<ge> GUILD_BANK_MAX_SLOTS then s
         else if tabId = destTabId \<and> slotId = destSlotId then s
         else MoveItems E p (MoveItemData_new True tabId slotId) (MoveItemData_new True destTabId destSlotId) splitedAmount s)"

definition SwapItemsWithInventory :: "gEnv \<Rightarrow> u64 \<Rightarrow> bool \<Rightarrow> u8 \<Rightarrow> u8 \<Rightarrow> u8 \<Rightarrow> u8 \<Rightarrow> u32 \<Rightarrow> gst \<Rightarrow> gst" where
  "SwapItemsWithInventory E p toChar tabId slotId playerBag playerSlotId splitedAmount s =
     (if (slotId \<ge> GUILD_BANK_MAX_SLOTS \<and> slotId \<noteq> NULL_SLOT) \<or> tabId \<ge> Guild_GetPurchasedTabsSize (gsGuild s) then s
      else
        let bankData = MoveItemData_new True tabId slotId;
            charData = MoveItemData_new False playerBag playerSlotId
        in if toChar then MoveItems E p bankData charData splitedAmount s
           else MoveItems E p charData bankData splitedAmount s)"

end
