(* ===== verification/GuildMembers.thy ===== *)
theory GuildMembers
  imports GuildItems
begin

text \<open>
  Members of a guild: \<^verbatim>\<open>Guild::Member\<close>, joining, leaving and disbanding, and loading a guild, in
  src/src/server/game/Guilds/Guild.cpp. Disbanding deletes the first member until there is none, a loop
  that ends because a member is kept under the low part of its guid; as long as that is not known the
  result is an option.
\<close>

section \<open>A member\<close>

definition Member_new :: "gEnv \<Rightarrow> u32 \<Rightarrow> u64 \<Rightarrow> u8 \<Rightarrow> gMember" where
  "Member_new E guildId guid rankId =
     \<lparr>mbGuildId = guildId, mbGuid = guid, mbName = '''', mbZoneId = 0, mbLevel = 0, mbClass = 0,
      mbFlags = GUILDMEMBER_STATUS_NONE, mbLogoutTime = geNow E, mbAccountId = 0, mbRankId = rankId,
      mbPublicNote = '''', mbOfficerNote = '''', mbWithdraw = replicate (unat GUILD_BANK_MAX_TABS + 1) 0\<rparr>"

definition Member_SetStats :: "gStats \<Rightarrow> gMember \<Rightarrow> gMember" where
  "Member_SetStats x m = m\<lparr>mbName := gsName x, mbLevel := gsLevel x, mbClass := gsClass x,
     mbZoneId := gsZone x, mbAccountId := gsAccount x\<rparr>"

definition Member_AddFlag :: "u8 \<Rightarrow> gMember \<Rightarrow> gMember" where
  "Member_AddFlag var m = m\<lparr>mbFlags := mbFlags m OR var\<rparr>"

definition Member_RemFlag :: "u8 \<Rightarrow> gMember \<Rightarrow> gMember" where
  "Member_RemFlag var m = m\<lparr>mbFlags := mbFlags m AND NOT var\<rparr>"

definition Member_ResetFlags :: "gMember \<Rightarrow> gMember" where
  "Member_ResetFlags m = m\<lparr>mbFlags := GUILDMEMBER_STATUS_NONE\<rparr>"

definition IsRankNotLower :: "gMember \<Rightarrow> u8 \<Rightarrow> bool" where
  "IsRankNotLower m rankId \<longleftrightarrow> mbRankId m \<le> rankId"

definition Member_CheckStats :: "gMember \<Rightarrow> bool" where
  "Member_CheckStats m \<longleftrightarrow> \<not> mbLevel m < 1 \<and> \<not> (mbClass m < 1 \<or> mbClass m \<ge> 12)"

definition SetPublicNote :: "u32 \<Rightarrow> gMember \<Rightarrow> string \<Rightarrow> gst \<Rightarrow> gst" where
  "SetPublicNote k m publicNote s =
     (if mbPublicNote m = publicNote then s
      else sql (MemberTab (UpdMemberPNote publicNote (GUID_LOPART (mbGuid m))))
             (on_guild (upd_member k (\<lambda>m. m\<lparr>mbPublicNote := publicNote\<rparr>)) s))"

definition SetOfficerNote :: "u32 \<Rightarrow> gMember \<Rightarrow> string \<Rightarrow> gst \<Rightarrow> gst" where
  "SetOfficerNote k m officerNote s =
     (if mbOfficerNote m = officerNote then s
      else sql (MemberTab (UpdMemberOffNote officerNote (GUID_LOPART (mbGuid m))))
             (on_guild (upd_member k (\<lambda>m. m\<lparr>mbOfficerNote := officerNote\<rparr>)) s))"

definition Member_ChangeRank :: "gEnv \<Rightarrow> u32 \<Rightarrow> gMember \<Rightarrow> u8 \<Rightarrow> gst \<Rightarrow> gst" where
  "Member_ChangeRank E k m newRank s =
     (let s = on_guild (upd_member k (\<lambda>m. m\<lparr>mbRankId := newRank\<rparr>)) s;
          s = (if geOnline E (mbGuid m) then s\<lparr>gsRankOf := (gsRankOf s)(mbGuid m := newRank)\<rparr> else s)
      in sql (MemberTab (UpdMemberRank newRank (GUID_LOPART (mbGuid m)))) s)"

definition Member_SaveToDB :: "gMember \<Rightarrow> memberStmt" where
  "Member_SaveToDB m = InsMember (mbGuildId m) (GUID_LOPART (mbGuid m)) (mbRankId m) (mbPublicNote m) (mbOfficerNote m)"

text \<open>
  The fields 3 to 17 of a row: the notes, the withdrawals, the stats of the character and the time of
  its logout. A row with a broken level or class is \<^const>\<open>None\<close>.
\<close>

definition Member_LoadFromDB :: "gEnv \<Rightarrow> string \<Rightarrow> string \<Rightarrow> u32 list \<Rightarrow> gStats \<Rightarrow> u32 \<Rightarrow> gMember \<Rightarrow> gMember option" where
  "Member_LoadFromDB E pnote offnote withdraw stats logout m =
     (let m = Member_SetStats stats (m\<lparr>mbPublicNote := pnote, mbOfficerNote := offnote, mbWithdraw := withdraw\<rparr>);
          m = m\<lparr>mbLogoutTime := ucast logout\<rparr>
      in if \<not> Member_CheckStats m then None
         else let m = (if mbZoneId m = 0 then m\<lparr>mbZoneId := geZoneFromDB E (mbGuid m)\<rparr> else m)
              in Some (Member_ResetFlags m))"

definition Member_WritePacket :: "gEnv \<Rightarrow> bool \<Rightarrow> gMember \<Rightarrow> cfield list" where
  "Member_WritePacket E sendOfficerNote m =
     [C64 (mbGuid m), C8 (mbFlags m), CStr (mbName m), C32 (ucast (mbRankId m)), C8 (mbLevel m), C8 (mbClass m),
      C8 0, C32 (mbZoneId m)] @
     (if mbFlags m = 0 then [C32 (geDaysFloat E (geNow E - mbLogoutTime m))] else []) @
     [CStr (mbPublicNote m), CStr (if sendOfficerNote then mbOfficerNote m else '''')]"

section \<open>The emblem\<close>

definition EmblemInfo_WritePacket :: "emblemInfo \<Rightarrow> cfield list" where
  "EmblemInfo_WritePacket e =
     [C32 (emStyle e), C32 (emColor e), C32 (emBorderStyle e), C32 (emBorderColor e), C32 (emBackgroundColor e)]"

definition EmblemInfo_LoadFromDB :: "u8 \<Rightarrow> u8 \<Rightarrow> u8 \<Rightarrow> u8 \<Rightarrow> u8 \<Rightarrow> emblemInfo" where
  "EmblemInfo_LoadFromDB style color borderStyle borderColor background =
     \<lparr>emStyle = ucast style, emColor = ucast color, emBorderStyle = ucast borderStyle,
      emBorderColor = ucast borderColor, emBackgroundColor = ucast background\<rparr>"

definition emblem_new :: emblemInfo where
  "emblem_new = \<lparr>emStyle = 0, emColor = 0, emBorderStyle = 0, emBorderColor = 0, emBackgroundColor = 0\<rparr>"

section \<open>Roster, query and log-in\<close>

definition HandleRoster :: "gEnv \<Rightarrow> u64 \<Rightarrow> gst \<Rightarrow> gst" where
  "HandleRoster E p s =
     (let g = gsGuild s
      in send_session p SMSG_GUILD_ROSTER
           ([C32 (of_nat (length (gMembers g))), CStr (gMotd g), CStr (gInfo g), C32 (ucast (Guild_GetRanksSize g))] @
            concat (map RankInfo_WritePacket (gRanks g)) @
            concat (map (\<lambda>(k, m). Member_WritePacket E (HasRankRight p GR_RIGHT_VIEWOFFNOTE g) m) (gMembers g))) s)"

text \<open>An unused rank is a zero byte, which a client reads as the empty string.\<close>

definition HandleQuery :: "u64 \<Rightarrow> gst \<Rightarrow> gst" where
  "HandleQuery p s =
     (let g = gsGuild s
      in send_session p SMSG_GUILD_QUERY_RESPONSE
           ([C32 (gId g), CStr (gName g)] @
            map (\<lambda>i. if of_nat i < Guild_GetRanksSize g then CStr (riName (gRanks g ! i)) else C8 0) [0..<unat GUILD_RANKS_MAX_COUNT] @
            EmblemInfo_WritePacket (gEmblem g) @ [C32 (ucast (Guild_GetRanksSize g))]) s)"

definition Guild_SendInfo :: "gEnv \<Rightarrow> u64 \<Rightarrow> gst \<Rightarrow> gst" where
  "Guild_SendInfo E p s =
     (let g = gsGuild s
      in send_session p SMSG_GUILD_INFO
           [CStr (gName g), C32 (pack_tm (geLocaltime E (gCreatedDate g))), C32 (of_nat (length (gMembers g))), C32 (gAccountsNumber g)] s)"

definition SendLoginInfo :: "gEnv \<Rightarrow> u64 \<Rightarrow> gst \<Rightarrow> gst" where
  "SendLoginInfo E p s =
     (let s = send_session p SMSG_GUILD_EVENT [C8 GE_MOTD, C8 1, CStr (gMotd (gsGuild s))] s;
          s = SendBankTabsInfo E p False s;
          s = HandleRoster E p s;
          s = Guild_BroadcastEvent E GE_SIGNED_ON p [gsName (geStats E p)] s
      in case GetMember p (gsGuild s) of
           Some _ \<Rightarrow> on_guild (upd_member (GUID_LOPART p)
             (\<lambda>m. Member_AddFlag GUILDMEMBER_STATUS_ONLINE (Member_SetStats (geStats E p) m))) s
         | None \<Rightarrow> s)"

definition HandleMemberLogout :: "gEnv \<Rightarrow> u64 \<Rightarrow> gst \<Rightarrow> gst" where
  "HandleMemberLogout E p s =
     (let s = (case GetMember p (gsGuild s) of
                 Some _ \<Rightarrow> on_guild (upd_member (GUID_LOPART p)
                   (\<lambda>m. Member_ResetFlags ((Member_SetStats (geStats E p) m)\<lparr>mbLogoutTime := geNow E\<rparr>))) s
               | None \<Rightarrow> s)
      in Guild_BroadcastEvent E GE_SIGNED_OFF p [gsName (geStats E p)] s)"

text \<open>\<^verbatim>\<open>GUILD_MEMBER_DATA_ZONEID\<close> is 0, \<^verbatim>\<open>GUILD_MEMBER_DATA_LEVEL\<close> is 1.\<close>

definition UpdateMemberData :: "u64 \<Rightarrow> u8 \<Rightarrow> u32 \<Rightarrow> guild \<Rightarrow> guild" where
  "UpdateMemberData p dataid x g =
     (case GetMember p g of
        None \<Rightarrow> g
      | Some _ \<Rightarrow>
          if dataid = 0 then upd_member (GUID_LOPART p) (\<lambda>m. m\<lparr>mbZoneId := x\<rparr>) g
          else if dataid = 1 then upd_member (GUID_LOPART p) (\<lambda>m. m\<lparr>mbLevel := ucast x\<rparr>) g
          else g)"

definition OnPlayerStatusChange :: "u64 \<Rightarrow> u32 \<Rightarrow> bool \<Rightarrow> guild \<Rightarrow> guild" where
  "OnPlayerStatusChange p flag state g =
     (case GetMember p g of
        None \<Rightarrow> g
      | Some _ \<Rightarrow> upd_member (GUID_LOPART p) (if state then Member_AddFlag (ucast flag) else Member_RemFlag (ucast flag)) g)"

section \<open>Joining\<close>

definition UpdateAccountsNumber :: "guild \<Rightarrow> guild" where
  "UpdateAccountsNumber g = g\<lparr>gAccountsNumber := of_nat (length (remdups (map (mbAccountId \<circ> snd) (gMembers g))))\<rparr>"

definition SetLeaderGUID :: "gEnv \<Rightarrow> u32 \<Rightarrow> gMember \<Rightarrow> gst \<Rightarrow> gst" where
  "SetLeaderGUID E k m s =
     (let s = on_guild (\<lambda>g. g\<lparr>gLeaderGuid := mbGuid m\<rparr>) s;
          s = Member_ChangeRank E k m GR_GUILDMASTER s
      in sql (GuildTab (UpdLeader (GUID_LOPART (mbGuid m)) (gId (gsGuild s)))) s)"

text \<open>\<^verbatim>\<open>World::UpdateGlobalPlayerGuild\<close>, and \<^verbatim>\<open>Player::SetInGuild\<close> for a player object.\<close>

definition UpdateGlobalPlayerGuild :: "gEnv \<Rightarrow> u32 \<Rightarrow> u32 \<Rightarrow> gst \<Rightarrow> gst" where
  "UpdateGlobalPlayerGuild E guid guildId s =
     (if geInStore E guid then s\<lparr>gsGuildOf := (gsGuildOf s)(guid := guildId)\<rparr> else s)"

definition SetInGuild :: "u64 \<Rightarrow> u32 \<Rightarrow> gst \<Rightarrow> gst" where
  "SetInGuild p guildId s = s\<lparr>gsGuildOf := (gsGuildOf s)(GUID_LOPART p := guildId)\<rparr>"

definition put_member :: "gEnv \<Rightarrow> u32 \<Rightarrow> gMember \<Rightarrow> guild \<Rightarrow> guild" where
  "put_member E k m g =
     (if map_of (gMembers g) k \<noteq> None then upd_member k (\<lambda>_. m) g
      else g\<lparr>gMembers := geOrder E (gMembers g @ [(k, m)])\<rparr>)"

definition Guild_AddMember :: "gEnv \<Rightarrow> u64 \<Rightarrow> u8 \<Rightarrow> gst \<Rightarrow> bool \<times> gst" where
  "Guild_AddMember E guid rankId s =
     (let lowguid = GUID_LOPART guid
      in if gsGuildOf s lowguid \<noteq> 0 then (False, s)
         else
           let s = out (GRemovePetitions guid) s;
               rankId = (if rankId = GUILD_RANK_NONE then Guild_GetLowestRankId (gsGuild s) else rankId);
               member = Member_new E (gId (gsGuild s)) guid rankId;
               (ok, s) = (if geOnline E guid
                 then let s = on_guild (put_member E lowguid member) s;
                          s = SetInGuild guid (gId (gsGuild s)) s;
                          s = s\<lparr>gsInvited := (gsInvited s)(guid := 0), gsRankOf := (gsRankOf s)(guid := rankId)\<rparr>;
                          s = on_guild (upd_member lowguid (Member_SetStats (geStats E guid))) s
                      in (Some (gsName (geStats E guid)), SendLoginInfo E guid s)
                 else case geStored E lowguid of
                        None \<Rightarrow> (None, s)
                      | Some x \<Rightarrow>
                          let member = Member_SetStats x (Member_ResetFlags member)
                          in if \<not> Member_CheckStats member then (None, s)
                             else (Some (gsName x),
                               UpdateGlobalPlayerGuild E lowguid (gId (gsGuild s)) (on_guild (put_member E lowguid member) s)))
           in case ok of
                None \<Rightarrow> (False, s)
              | Some name \<Rightarrow>
                  let s = (case map_of (gMembers (gsGuild s)) lowguid of
                             Some m \<Rightarrow> sql (MemberTab (Member_SaveToDB m)) s | None \<Rightarrow> s);
                      s = on_guild UpdateAccountsNumber s;
                      s = Guild_LogEvent E GUILD_EVENT_LOG_JOIN_GUILD lowguid 0 0 s;
                      s = Guild_BroadcastEvent E GE_JOINED guid [name] s
                  in (True, hook (OnGuildAddMember guid rankId) s))"

section \<open>Leaving and disbanding\<close>

text \<open>The end of \<^verbatim>\<open>DeleteMember\<close>, from the call of the hook.\<close>

definition erase_guild_member :: "gEnv \<Rightarrow> u64 \<Rightarrow> bool \<Rightarrow> bool \<Rightarrow> gst \<Rightarrow> gst" where
  "erase_guild_member E guid isDisbanding isKicked s =
     (let lowguid = GUID_LOPART guid;
          s = hook (OnGuildRemoveMember guid isDisbanding isKicked) s;
          s = on_guild (\<lambda>g. g\<lparr>gMembers := filter (\<lambda>(k, m). k \<noteq> lowguid) (gMembers g)\<rparr>) s;
          s = (if geOnline E guid then (SetInGuild guid 0 s)\<lparr>gsRankOf := (gsRankOf s)(guid := 0)\<rparr>
               else UpdateGlobalPlayerGuild E lowguid 0 s);
          s = sql (MemberTab (DelMember lowguid)) s
      in if isDisbanding then s else on_guild UpdateAccountsNumber s)"

text \<open>The loop of \<^verbatim>\<open>Disband\<close>: there the block for the leader is skipped.\<close>

partial_function (option) disband_loop :: "gEnv \<Rightarrow> gst \<Rightarrow> gst option" where
  "disband_loop E s =
     (case gMembers (gsGuild s) of
        [] \<Rightarrow> Some s
      | (k, m) # _ \<Rightarrow> disband_loop E (erase_guild_member E (mbGuid m) True False s))"

definition DeleteBankItems :: "bool \<Rightarrow> gst \<Rightarrow> gst" where
  "DeleteBankItems removeItemsFromDB s =
     (let ts = concat (map (BankTab_Delete removeItemsFromDB) (gBankTabs (gsGuild s)))
      in on_guild (\<lambda>g. g\<lparr>gBankTabs := []\<rparr>) (fold (\<lambda>t. sql (BankTabs t)) ts s))"

definition GuildMgr_RemoveGuild :: "u32 \<Rightarrow> gst \<Rightarrow> gst" where
  "GuildMgr_RemoveGuild guildId s = s\<lparr>gsStore := filter (\<lambda>(i, g). i \<noteq> guildId) (gsStore s)\<rparr>"

definition disband_rows :: "gst \<Rightarrow> gst" where
  "disband_rows s =
     (let i = gId (gsGuild s);
          s = sql (GuildTab (DelGuild i)) s;
          s = sql (RankTab (DelRanks i)) s;
          s = sql (BankTabs (DelBankTabs i)) s;
          s = DeleteBankItems True s;
          s = sql (BankTabs (DelBankItems i)) s;
          s = sql (RankTab (DelBankRights i)) s;
          s = sql (LogTab (DelBankEventLogs i)) s;
          s = sql (LogTab (DelEventLogs i)) s
      in GuildMgr_RemoveGuild i s)"

definition Guild_Disband :: "gEnv \<Rightarrow> gst \<Rightarrow> gst option" where
  "Guild_Disband E s =
     (let s = hook OnGuildDisband s;
          s = Guild_BroadcastEvent E GE_DISBANDED 0 [] s
      in map_option disband_rows (disband_loop E s))"

text \<open>The first member, other than the leader, of the smallest rank.\<close>

fun new_leader :: "u32 \<Rightarrow> (u32 \<times> gMember) list \<Rightarrow> (u32 \<times> gMember) option \<Rightarrow> (u32 \<times> gMember) option" where
  "new_leader lowguid [] best = best"
| "new_leader lowguid ((k, m) # ms) best =
     new_leader lowguid ms
       (if k = lowguid then best
        else case best of
          None \<Rightarrow> Some (k, m)
        | Some (k', m') \<Rightarrow> if mbRankId m' > mbRankId m then Some (k, m) else best)"

definition Guild_DeleteMember :: "gEnv \<Rightarrow> u64 \<Rightarrow> bool \<Rightarrow> bool \<Rightarrow> gst \<Rightarrow> gst option" where
  "Guild_DeleteMember E guid isDisbanding isKicked s =
     (let lowguid = GUID_LOPART guid
      in if gLeaderGuid (gsGuild s) = guid \<and> \<not> isDisbanding
         then (case new_leader lowguid (gMembers (gsGuild s)) None of
                 None \<Rightarrow> Guild_Disband E s
               | Some (k, m) \<Rightarrow>
                   let old = map_of (gMembers (gsGuild s)) lowguid;
                       s = SetLeaderGUID E k m s;
                       s = (if geOnline E (mbGuid m) then s\<lparr>gsRankOf := (gsRankOf s)(mbGuid m := GR_GUILDMASTER)\<rparr> else s);
                       s = (case old of
                              Some oldm \<Rightarrow>
                                Guild_BroadcastEvent E GE_LEFT guid [mbName oldm]
                                  (Guild_BroadcastEvent E GE_LEADER_CHANGED 0 [mbName oldm, mbName m] s)
                            | None \<Rightarrow> s)
                   in Some (erase_guild_member E guid isDisbanding isKicked s))
         else Some (erase_guild_member E guid isDisbanding isKicked s))"

definition Guild_ChangeMemberRank :: "gEnv \<Rightarrow> u64 \<Rightarrow> u8 \<Rightarrow> gst \<Rightarrow> bool \<times> gst" where
  "Guild_ChangeMemberRank E guid newRank s =
     (if newRank \<le> Guild_GetLowestRankId (gsGuild s)
      then case GetMember guid (gsGuild s) of
             Some m \<Rightarrow> (True, Member_ChangeRank E (GUID_LOPART guid) m newRank s)
           | None \<Rightarrow> (False, s)
      else (False, s))"

end
