(* ===== verification/GuildCommands.thy ===== *)
theory GuildCommands
  imports GuildMembers
begin

text \<open>
  What a player commands in a guild, making a guild and loading one: the \<^verbatim>\<open>Handle\<close> functions,
  \<^verbatim>\<open>Create\<close>, the \<^verbatim>\<open>Load\<close> functions and \<^verbatim>\<open>Validate\<close> of src/src/server/game/Guilds/Guild.cpp, and the
  store of src/src/server/game/Guilds/GuildMgr.cpp. A session is the guid of its player. A command that
  may disband the guild has an option as its result, as disbanding has.
\<close>

section \<open>Message, text and emblem\<close>

definition HandleSetMOTD :: "gEnv \<Rightarrow> u64 \<Rightarrow> string \<Rightarrow> gst \<Rightarrow> gst" where
  "HandleSetMOTD E p motd s =
     (if gMotd (gsGuild s) = motd then s
      else if \<not> HasRankRight p GR_RIGHT_SETMOTD (gsGuild s)
      then SendCommandResult p GUILD_COMMAND_EDIT_MOTD ERR_GUILD_PERMISSIONS '''' s
      else
        let s = on_guild (\<lambda>g. g\<lparr>gMotd := motd\<rparr>) s;
            s = hook (OnGuildMOTDChanged motd) s;
            s = sql (GuildTab (UpdMotd motd (gId (gsGuild s)))) s
        in Guild_BroadcastEvent E GE_MOTD 0 [motd] s)"

definition HandleSetInfo :: "u64 \<Rightarrow> string \<Rightarrow> gst \<Rightarrow> gst" where
  "HandleSetInfo p info s =
     (if gInfo (gsGuild s) = info then s
      else if HasRankRight p GR_RIGHT_MODIFY_GUILD_INFO (gsGuild s)
      then let s = on_guild (\<lambda>g. g\<lparr>gInfo := info\<rparr>) s;
               s = hook (OnGuildInfoChanged info) s
           in sql (GuildTab (UpdInfo info (gId (gsGuild s)))) s
      else s)"

definition HandleSetEmblem :: "gEnv \<Rightarrow> u64 \<Rightarrow> emblemInfo \<Rightarrow> gst \<Rightarrow> gst" where
  "HandleSetEmblem E p emblem s =
     (if \<not> Guild_IsLeader p (gsGuild s) then SendSaveEmblemResult p ERR_GUILDEMBLEM_NOTGUILDMASTER s
      else if gsMoney s p < 10 * GOLD then SendSaveEmblemResult p ERR_GUILDEMBLEM_NOTENOUGHMONEY s
      else
        let s = snd (ModifyMoney E p (- (10 * GOLD)) s);
            s = on_guild (\<lambda>g. g\<lparr>gEmblem := emblem\<rparr>) s;
            s = sql (GuildTab (UpdEmblem emblem (gId (gsGuild s)))) s;
            s = SendSaveEmblemResult p ERR_GUILDEMBLEM_SUCCESS s
        in HandleQuery p s)"

section \<open>Ranks and notes\<close>

definition HandleSetLeader :: "gEnv \<Rightarrow> u64 \<Rightarrow> string \<Rightarrow> gst \<Rightarrow> gst" where
  "HandleSetLeader E p name s =
     (if \<not> Guild_IsLeader p (gsGuild s) then SendCommandResult p GUILD_COMMAND_CHANGE_LEADER ERR_GUILD_PERMISSIONS '''' s
      else case GetMember p (gsGuild s) of
        None \<Rightarrow> s
      | Some old \<Rightarrow>
          (case GetMemberByName name (gsGuild s) of
             None \<Rightarrow> s
           | Some (k, m) \<Rightarrow>
               let s = SetLeaderGUID E k m s;
                   s = Member_ChangeRank E (GUID_LOPART p) old GR_OFFICER s
               in Guild_BroadcastEvent E GE_LEADER_CHANGED 0 [gsName (geStats E p), name] s))"

definition HandleSetMemberNote :: "gEnv \<Rightarrow> u64 \<Rightarrow> string \<Rightarrow> string \<Rightarrow> bool \<Rightarrow> gst \<Rightarrow> gst" where
  "HandleSetMemberNote E p name txt isPublic s =
     (if \<not> HasRankRight p (if isPublic then GR_RIGHT_EPNOTE else GR_RIGHT_EOFFNOTE) (gsGuild s)
      then SendCommandResult p GUILD_COMMAND_PUBLIC_NOTE ERR_GUILD_PERMISSIONS '''' s
      else case GetMemberByName name (gsGuild s) of
        None \<Rightarrow> s
      | Some (k, m) \<Rightarrow> HandleRoster E p (if isPublic then SetPublicNote k m txt s else SetOfficerNote k m txt s))"

definition HandleSetRankInfo :: "gEnv \<Rightarrow> u64 \<Rightarrow> u8 \<Rightarrow> string \<Rightarrow> u32 \<Rightarrow> u32 \<Rightarrow> bankRights list \<Rightarrow> gst \<Rightarrow> gst" where
  "HandleSetRankInfo E p rankId name rights moneyPerDay rightsAndSlots s =
     (if \<not> Guild_IsLeader p (gsGuild s) then SendCommandResult p GUILD_COMMAND_CHANGE_RANK ERR_GUILD_PERMISSIONS '''' s
      else case GetRankInfo rankId (gsGuild s) of
        None \<Rightarrow> s
      | Some _ \<Rightarrow>
          let s = run_rank rankId (RankInfo_SetName name) s;
              s = run_rank rankId (RankInfo_SetRights rights) s;
              s = SetRankBankMoneyPerDay rankId moneyPerDay s;
              s = fold (SetRankBankTabRightsAndSlots rankId True) rightsAndSlots s
          in Guild_BroadcastEvent E GE_RANK_UPDATED 0 [dec_string (unat rankId), name] s)"

definition HandleUpdateMemberRank :: "gEnv \<Rightarrow> u64 \<Rightarrow> string \<Rightarrow> bool \<Rightarrow> gst \<Rightarrow> gst" where
  "HandleUpdateMemberRank E p name demote s =
     (let g = gsGuild s; ty = (if demote then GUILD_COMMAND_DEMOTE else GUILD_COMMAND_PROMOTE)
      in if \<not> HasRankRight p (if demote then GR_RIGHT_DEMOTE else GR_RIGHT_PROMOTE) g
         then SendCommandResult p ty ERR_GUILD_PERMISSIONS '''' s
         else case GetMemberByName name g of
           None \<Rightarrow> s
         | Some (k, m) \<Rightarrow>
             if mbGuid m = p then SendCommandResult p ty ERR_GUILD_NAME_INVALID '''' s
             else case GetMember p g of
               None \<Rightarrow> out GUndefined s
             | Some me \<Rightarrow>
                 let rankId = mbRankId me
                 in if demote \<and> IsRankNotLower m rankId then SendCommandResult p ty ERR_GUILD_RANK_TOO_HIGH_S name s
                    else if demote \<and> mbRankId m \<ge> Guild_GetLowestRankId g then SendCommandResult p ty ERR_GUILD_RANK_TOO_LOW_S name s
                    else if \<not> demote \<and> IsRankNotLower m (rankId + 1) then SendCommandResult p ty ERR_GUILD_RANK_TOO_HIGH_S name s
                    else
                      let newRankId = (if demote then mbRankId m + 1 else mbRankId m - 1);
                          s = Member_ChangeRank E k m newRankId s;
                          s = Guild_LogEvent E (if demote then GUILD_EVENT_LOG_DEMOTE_PLAYER else GUILD_EVENT_LOG_PROMOTE_PLAYER)
                                (GUID_LOPART p) (GUID_LOPART (mbGuid m)) newRankId s
                      in Guild_BroadcastEvent E (if demote then GE_DEMOTION else GE_PROMOTION) 0
                           [gsName (geStats E p), name, GetRankName newRankId (gsGuild s)] s)"

definition HandleAddNewRank :: "gEnv \<Rightarrow> u64 \<Rightarrow> string \<Rightarrow> gst \<Rightarrow> gst" where
  "HandleAddNewRank E p name s =
     (let ranks = Guild_GetRanksSize (gsGuild s)
      in if ranks \<ge> GUILD_RANKS_MAX_COUNT then s
         else if Guild_IsLeader p (gsGuild s)
         then case CreateRank name (GR_RIGHT_GCHATLISTEN OR GR_RIGHT_GCHATSPEAK) s of
                (True, s) \<Rightarrow> Guild_BroadcastEvent E GE_RANK_UPDATED 0 [dec_string (unat ranks), name] s
              | (False, s) \<Rightarrow> s
         else s)"

definition HandleRemoveRank :: "gEnv \<Rightarrow> u64 \<Rightarrow> u8 \<Rightarrow> gst \<Rightarrow> gst" where
  "HandleRemoveRank E p rankId s =
     (let g = gsGuild s
      in if Guild_GetRanksSize g \<le> GUILD_RANKS_MIN_COUNT \<or> rankId \<ge> Guild_GetRanksSize g \<or> \<not> Guild_IsLeader p g then s
         else
           let s = sql (RankTab (DelBankRightsForRank (gId g) rankId)) s;
               s = sql (RankTab (DelLowestRank (gId g) rankId)) s;
               s = on_guild (\<lambda>g. g\<lparr>gRanks := butlast (gRanks g)\<rparr>) s
           in Guild_BroadcastEvent E GE_RANK_DELETED 0 [] s)"

definition HandleRemoveLowestRank :: "gEnv \<Rightarrow> u64 \<Rightarrow> gst \<Rightarrow> gst" where
  "HandleRemoveLowestRank E p s = HandleRemoveRank E p (Guild_GetLowestRankId (gsGuild s)) s"

section \<open>Joining and leaving\<close>

definition HandleInviteMember :: "gEnv \<Rightarrow> u64 \<Rightarrow> string \<Rightarrow> gst \<Rightarrow> gst" where
  "HandleInviteMember E p name s =
     (case geByName E name of
        None \<Rightarrow> SendCommandResult p GUILD_COMMAND_INVITE ERR_GUILD_PLAYER_NOT_FOUND_S name s
      | Some q \<Rightarrow>
          if geIgnores E q (GUID_LOPART p) then s
          else if \<not> geTwoSide E \<and> geTeam E q \<noteq> geTeam E p then SendCommandResult p GUILD_COMMAND_INVITE ERR_GUILD_NOT_ALLIED name s
          else if gsGuildOf s (GUID_LOPART q) \<noteq> 0 then SendCommandResult p GUILD_COMMAND_INVITE ERR_ALREADY_IN_GUILD_S name s
          else if gsInvited s q \<noteq> 0 then SendCommandResult p GUILD_COMMAND_INVITE ERR_ALREADY_INVITED_TO_GUILD_S name s
          else if \<not> HasRankRight p GR_RIGHT_INVITE (gsGuild s)
          then SendCommandResult p GUILD_COMMAND_INVITE ERR_GUILD_PERMISSIONS '''' s
          else
            let s = SendCommandResult p GUILD_COMMAND_INVITE ERR_GUILD_COMMAND_SUCCESS name s;
                s = s\<lparr>gsInvited := (gsInvited s)(q := gId (gsGuild s))\<rparr>;
                s = Guild_LogEvent E GUILD_EVENT_LOG_INVITE_PLAYER (GUID_LOPART p) (GUID_LOPART q) 0 s
            in send_session q SMSG_GUILD_INVITE [CStr (gsName (geStats E p)), CStr (gName (gsGuild s))] s)"

definition HandleAcceptMember :: "gEnv \<Rightarrow> u64 \<Rightarrow> gst \<Rightarrow> gst" where
  "HandleAcceptMember E p s =
     (if \<not> geTwoSide E \<and> geTeam E p \<noteq> geStoredTeam E (gLeaderGuid (gsGuild s)) then s
      else snd (Guild_AddMember E p GUILD_RANK_NONE s))"

definition HandleLeaveMember :: "gEnv \<Rightarrow> u64 \<Rightarrow> gst \<Rightarrow> gst option" where
  "HandleLeaveMember E p s =
     map_option (\<lambda>s. out (GLeaveCalendar p (gId (gsGuild s))) s)
       (if Guild_IsLeader p (gsGuild s)
        then if length (gMembers (gsGuild s)) > 1 then Some (SendCommandResult p GUILD_COMMAND_QUIT ERR_GUILD_LEADER_LEAVE '''' s)
             else Guild_Disband E s
        else map_option (\<lambda>s.
            let s = Guild_LogEvent E GUILD_EVENT_LOG_LEAVE_GUILD (GUID_LOPART p) 0 0 s;
                s = Guild_BroadcastEvent E GE_LEFT p [gsName (geStats E p)] s
            in SendCommandResult p GUILD_COMMAND_QUIT ERR_GUILD_COMMAND_SUCCESS (gName (gsGuild s)) s)
          (Guild_DeleteMember E p False False s))"

definition HandleRemoveMember :: "gEnv \<Rightarrow> u64 \<Rightarrow> string \<Rightarrow> gst \<Rightarrow> gst option" where
  "HandleRemoveMember E p name s =
     (let g = gsGuild s
      in if \<not> HasRankRight p GR_RIGHT_REMOVE g then Some (SendCommandResult p GUILD_COMMAND_REMOVE ERR_GUILD_PERMISSIONS '''' s)
         else case GetMemberByName name g of
           None \<Rightarrow> Some s
         | Some (k, m) \<Rightarrow>
             if mbRankId m = GR_GUILDMASTER then Some (SendCommandResult p GUILD_COMMAND_REMOVE ERR_GUILD_LEADER_LEAVE '''' s)
             else if (case GetMember p g of None \<Rightarrow> True | Some me \<Rightarrow> IsRankNotLower m (mbRankId me))
             then Some (SendCommandResult p GUILD_COMMAND_REMOVE ERR_GUILD_RANK_TOO_HIGH_S name s)
             else map_option (\<lambda>s.
                 let s = Guild_LogEvent E GUILD_EVENT_LOG_UNINVITE_PLAYER (GUID_LOPART p) (GUID_LOPART (mbGuid m)) 0 s
                 in Guild_BroadcastEvent E GE_REMOVED 0 [name, gsName (geStats E p)] s)
               (Guild_DeleteMember E (mbGuid m) False True s))"

definition HandleDisband :: "gEnv \<Rightarrow> u64 \<Rightarrow> gst \<Rightarrow> gst option" where
  "HandleDisband E p s = (if Guild_IsLeader p (gsGuild s) then Guild_Disband E s else Some s)"

section \<open>The store\<close>

definition GuildMgr_AddGuild :: "guild \<Rightarrow> gst \<Rightarrow> gst" where
  "GuildMgr_AddGuild g s =
     s\<lparr>gsStore := (if map_of (gsStore s) (gId g) = None then gsStore s @ [(gId g, g)]
                    else map (\<lambda>(i, h). if i = gId g then (i, g) else (i, h)) (gsStore s))\<rparr>"

definition GuildMgr_GenerateGuildId :: "gst \<Rightarrow> u32 \<times> gst" where
  "GuildMgr_GenerateGuildId s =
     (let s = (if gsNextId s \<ge> 0xFFFFFFFE then out GShutdown s else s)
      in (gsNextId s, s\<lparr>gsNextId := gsNextId s + 1\<rparr>))"

definition GetGuildById :: "u32 \<Rightarrow> gst \<Rightarrow> guild option" where
  "GetGuildById guildId s = map_of (gsStore s) guildId"

text \<open>\<^verbatim>\<open>toupper\<close> of the C locale, byte by byte.\<close>

definition toupper_c :: "char \<Rightarrow> char" where
  "toupper_c c = (let n = of_char c :: nat in if 97 \<le> n \<and> n \<le> 122 then char_of (n - 32) else c)"

definition GetGuildByName :: "string \<Rightarrow> gst \<Rightarrow> guild option" where
  "GetGuildByName guildName s = map_option snd (find (\<lambda>(i, g). map toupper_c (gName g) = map toupper_c guildName) (gsStore s))"

definition GetGuildNameById :: "u32 \<Rightarrow> gst \<Rightarrow> string" where
  "GetGuildNameById guildId s = (case GetGuildById guildId s of Some g \<Rightarrow> gName g | None \<Rightarrow> '''')"

definition GetGuildByLeader :: "u64 \<Rightarrow> gst \<Rightarrow> guild option" where
  "GetGuildByLeader guid s = map_option snd (find (\<lambda>(i, g). gLeaderGuid g = guid) (gsStore s))"

text \<open>Putting the guild that was worked on back into the store, unless it is gone from there.\<close>

definition put_back :: "u32 \<Rightarrow> gst \<Rightarrow> gst" where
  "put_back guildId s = s\<lparr>gsStore := map (\<lambda>(i, g). if i = guildId then (i, gsGuild s) else (i, g)) (gsStore s)\<rparr>"

definition with_guild :: "u32 \<Rightarrow> (gst \<Rightarrow> gst option) \<Rightarrow> gst \<Rightarrow> gst option" where
  "with_guild guildId f s =
     (case GetGuildById guildId s of
        None \<Rightarrow> Some s
      | Some g \<Rightarrow> map_option (put_back guildId) (f (s\<lparr>gsGuild := g\<rparr>)))"

definition GuildMgr_ResetTimes :: "gEnv \<Rightarrow> gst \<Rightarrow> gst option" where
  "GuildMgr_ResetTimes E s =
     map_option (sql (MemberTab TruncWithdraw))
       (fold (\<lambda>(i, g) x. case x of None \<Rightarrow> None | Some s \<Rightarrow> with_guild i (\<lambda>s. Some (Guild_ResetTimes E s)) s) (gsStore s) (Some s))"

section \<open>Making a guild\<close>

definition Guild_new :: guild where
  "Guild_new = \<lparr>gId = 0, gName = '''', gLeaderGuid = 0, gMotd = '''', gInfo = '''', gCreatedDate = 0, gEmblem = emblem_new,
     gAccountsNumber = 0, gBankMoney = 0, gRanks = [], gMembers = [], gBankTabs = [],
     gEventLog = LogHolder_new 0 0, gBankEventLog = []\<rparr>"

text \<open>Its id and data, with the row of the guild.\<close>

definition create_row :: "gEnv \<Rightarrow> u64 \<Rightarrow> string \<Rightarrow> gst \<Rightarrow> gst" where
  "create_row E leader name s =
     (let (i, s) = GuildMgr_GenerateGuildId s;
          s = on_guild (\<lambda>g. g\<lparr>gId := i, gLeaderGuid := leader, gName := name, gInfo := '''', gMotd := ''No message set.'',
                gBankMoney := 0, gCreatedDate := geGameTime E\<rparr>) s;
          s = on_guild (CreateLogHolders E) s;
          g = gsGuild s;
          s = sql (MemberTab (DelMembers i)) s
      in sql (GuildTab (InsGuild i name (GUID_LOPART leader) (gInfo g) (gMotd g) (word_of_int (gCreatedDate g)) (gEmblem g) (gBankMoney g))) s)"

definition Guild_Create :: "gEnv \<Rightarrow> u64 \<Rightarrow> string \<Rightarrow> gst \<Rightarrow> bool \<times> gst" where
  "Guild_Create E leader name s =
     (if GetGuildByName name s \<noteq> None then (False, s)
      else
        let s = CreateDefaultGuildRanks (geRankName E) (create_row E leader name s);
            (ret, s) = Guild_AddMember E leader GR_GUILDMASTER s
        in (ret, if ret then hook (OnGuildCreate leader name) s else s))"

section \<open>Loading\<close>

text \<open>
  A row of the guilds: its id, name, leader, emblem, texts, date of creation, money and number of tabs; then
  those of the ranks, members, rights, tabs and items.
\<close>

definition Guild_LoadFromDB :: "gEnv \<Rightarrow> u32 \<Rightarrow> string \<Rightarrow> u32 \<Rightarrow> emblemInfo \<Rightarrow> string \<Rightarrow> string \<Rightarrow> u32 \<Rightarrow> u64 \<Rightarrow> u64 \<Rightarrow> guild \<Rightarrow> guild" where
  "Guild_LoadFromDB E i name leader emblem info motd created money tabs g =
     (let purchasedTabs = ucast tabs;
          purchasedTabs = (if purchasedTabs > GUILD_BANK_MAX_TABS then GUILD_BANK_MAX_TABS else purchasedTabs)
      in CreateLogHolders E (g\<lparr>gId := i, gName := name, gLeaderGuid := MAKE_NEW_GUID leader 0 HIGHGUID_PLAYER,
           gEmblem := emblem, gInfo := info, gMotd := motd, gCreatedDate := uint created, gBankMoney := money,
           gBankTabs := map (\<lambda>k. BankTab_new i (of_nat k)) [0..<unat purchasedTabs]\<rparr>))"

definition LoadRankFromDB :: "u8 \<Rightarrow> string \<Rightarrow> u32 \<Rightarrow> u32 \<Rightarrow> guild \<Rightarrow> guild" where
  "LoadRankFromDB rid name rights money g =
     g\<lparr>gRanks := gRanks g @ [RankInfo_LoadFromDB rid name rights money (RankInfo_default (gId g))]\<rparr>"

definition Guild_LoadMemberFromDB :: "gEnv \<Rightarrow> u32 \<Rightarrow> u8 \<Rightarrow> string \<Rightarrow> string \<Rightarrow> u32 list \<Rightarrow> gStats \<Rightarrow> u32 \<Rightarrow> gst \<Rightarrow> bool \<times> gst" where
  "Guild_LoadMemberFromDB E lowguid rankId pnote offnote withdraw stats logout s =
     (let m = Member_new E (gId (gsGuild s)) (MAKE_NEW_GUID lowguid 0 HIGHGUID_PLAYER) rankId
      in case Member_LoadFromDB E pnote offnote withdraw stats logout m of
           None \<Rightarrow> (False, sql (MemberTab (DelMember lowguid)) s)
         | Some m \<Rightarrow> (True, UpdateGlobalPlayerGuild E lowguid (gId (gsGuild s)) (on_guild (put_member E lowguid m) s)))"

definition LoadBankRightFromDB :: "u8 \<Rightarrow> u8 \<Rightarrow> u8 \<Rightarrow> u32 \<Rightarrow> gst \<Rightarrow> gst" where
  "LoadBankRightFromDB tabId rankId rights slots s =
     SetRankBankTabRightsAndSlots rankId False \<lparr>brTabId = tabId, brRights = rights, brSlots = slots\<rparr> s"

definition LoadBankTabFromDB :: "u8 \<Rightarrow> string \<Rightarrow> string \<Rightarrow> string \<Rightarrow> guild \<Rightarrow> guild" where
  "LoadBankTabFromDB tabId name icon txt g =
     (if tabId \<ge> Guild_GetPurchasedTabsSize g then g else upd_tab tabId (BankTab_LoadFromDB name icon txt) g)"

text \<open>\<open>loaded\<close> is what \<^verbatim>\<open>Item::LoadFromDB\<close> makes of the row.\<close>

definition BankTab_LoadItemFromDB :: "gEnv \<Rightarrow> u8 \<Rightarrow> u32 \<Rightarrow> gItem option \<Rightarrow> bankTab \<Rightarrow> bool \<times> bankTab \<times> bankStmt list" where
  "BankTab_LoadItemFromDB E slotId itemEntry loaded t =
     (if slotId \<ge> GUILD_BANK_MAX_SLOTS then (False, t, [])
      else if \<not> geTemplate E itemEntry then (False, t, [])
      else case loaded of
        None \<Rightarrow> (False, t, [DelBankItem (btGuildId t) (btTabId t) slotId])
      | Some i \<Rightarrow> (True, t\<lparr>btItems := (btItems t)[unat slotId := Some i]\<rparr>, []))"

definition LoadBankItemFromDB :: "gEnv \<Rightarrow> u8 \<Rightarrow> u8 \<Rightarrow> u32 \<Rightarrow> gItem option \<Rightarrow> gst \<Rightarrow> bool \<times> gst" where
  "LoadBankItemFromDB E tabId slotId itemEntry loaded s =
     (if tabId \<ge> Guild_GetPurchasedTabsSize (gsGuild s) then (False, s)
      else let (ok, x) = BankTab_LoadItemFromDB E slotId itemEntry loaded (gBankTabs (gsGuild s) ! unat tabId)
           in (ok, run_tab tabId x s))"

section \<open>Validating a loaded guild\<close>

text \<open>One rank of the loop: whether any is broken, and the rights of the tabs it lacks.\<close>

definition validate_rank :: "nat \<Rightarrow> bool \<times> gst \<Rightarrow> bool \<times> gst" where
  "validate_rank i x =
     (let (broken, s) = x
      in if riRankId (gRanks (gsGuild s) ! i) \<noteq> of_nat i then (True, s)
         else (broken, run_rank (of_nat i) (CreateMissingTabsIfNeeded (Guild_GetPurchasedTabsSize (gsGuild s))) s))"

definition validate_ranks :: "gEnv \<Rightarrow> gst \<Rightarrow> gst" where
  "validate_ranks E s =
     (let ranks = Guild_GetRanksSize (gsGuild s);
          (broken, s) = (if ranks < GUILD_RANKS_MIN_COUNT \<or> ranks > GUILD_RANKS_MAX_COUNT then (True, s)
                         else fold validate_rank [0..<unat ranks] (False, s))
      in if broken then CreateDefaultGuildRanks (geDefaultRankName E) (on_guild (\<lambda>g. g\<lparr>gRanks := []\<rparr>) s) else s)"

text \<open>Ranks of members: the test lets the first rank that does not exist pass.\<close>

definition validate_members :: "gEnv \<Rightarrow> gst \<Rightarrow> gst" where
  "validate_members E s =
     fold (\<lambda>(k, m) s. if mbRankId m > Guild_GetRanksSize (gsGuild s)
                      then Member_ChangeRank E k m (Guild_GetLowestRankId (gsGuild s)) s else s)
       (gMembers (gsGuild s)) s"

definition validate_masters :: "gEnv \<Rightarrow> gst \<Rightarrow> gst" where
  "validate_masters E s =
     (if geMultiMaster E then s
      else fold (\<lambda>(k, m) s. if mbRankId m = GR_GUILDMASTER \<and> mbGuid m \<noteq> gLeaderGuid (gsGuild s)
                            then Member_ChangeRank E k m GR_OFFICER s else s)
             (gMembers (gsGuild s)) s)"

definition Guild_Validate :: "gEnv \<Rightarrow> gst \<Rightarrow> (bool \<times> gst) option" where
  "Guild_Validate E s =
     (let s = validate_members E (validate_ranks E s);
          finish = (\<lambda>s. Some (True, on_guild UpdateAccountsNumber (validate_masters E s)))
      in case GetMember (gLeaderGuid (gsGuild s)) (gsGuild s) of
           None \<Rightarrow>
             (case Guild_DeleteMember E (gLeaderGuid (gsGuild s)) False False s of
                None \<Rightarrow> None
              | Some s \<Rightarrow>
                  if gMembers (gsGuild s) = [] then map_option (\<lambda>s. (False, s)) (Guild_Disband E s)
                  else finish s)
         | Some m \<Rightarrow>
             if mbRankId m \<noteq> GR_GUILDMASTER then finish (SetLeaderGUID E (GUID_LOPART (gLeaderGuid (gsGuild s))) m s)
             else finish s)"

section \<open>Chat and mass invitations\<close>

definition BroadcastToGuild :: "gEnv \<Rightarrow> u64 \<Rightarrow> bool \<Rightarrow> string \<Rightarrow> u32 \<Rightarrow> gst \<Rightarrow> gst" where
  "BroadcastToGuild E p officerOnly msg language s =
     (let g = gsGuild s; (opcode, data) = geChatPacket E p officerOnly language msg
      in if HasRankRight p (if officerOnly then GR_RIGHT_OFFCHATSPEAK else GR_RIGHT_GCHATSPEAK) g
         then fold (\<lambda>(k, m) s.
                if geOnline E (mbGuid m) \<and> HasRankRight (mbGuid m) (if officerOnly then GR_RIGHT_OFFCHATLISTEN else GR_RIGHT_GCHATLISTEN) g \<and>
                   \<not> geIgnores E (mbGuid m) (GUID_LOPART p)
                then send_session (mbGuid m) opcode data s else s)
              (gMembers g) s
         else s)"

text \<open>
  The members chosen, with the limit of \<^verbatim>\<open>CALENDAR_MAX_INVITES\<close>, 100, tested before each member:
  \<^const>\<open>None\<close> when it is met. The rank is a byte there.
\<close>

fun mass_invite :: "gEnv \<Rightarrow> u64 \<Rightarrow> u32 \<Rightarrow> u32 \<Rightarrow> u32 \<Rightarrow> (u32 \<times> gMember) list \<Rightarrow> u64 list \<Rightarrow> u64 list option" where
  "mass_invite E p minLevel maxLevel minRank [] found = Some found"
| "mass_invite E p minLevel maxLevel minRank ((k, m) # ms) found =
     (if length found \<ge> 100 then None
      else let lvl = ucast (geStoredLevel E (mbGuid m))
           in mass_invite E p minLevel maxLevel minRank ms
                (if mbGuid m \<noteq> p \<and> lvl \<ge> minLevel \<and> lvl \<le> maxLevel \<and> IsRankNotLower m (ucast minRank)
                 then found @ [mbGuid m] else found))"

definition MassInviteToEvent :: "gEnv \<Rightarrow> u64 \<Rightarrow> u32 \<Rightarrow> u32 \<Rightarrow> u32 \<Rightarrow> gst \<Rightarrow> gst" where
  "MassInviteToEvent E p minLevel maxLevel minRank s =
     (case mass_invite E p minLevel maxLevel minRank (gMembers (gsGuild s)) [] of
        None \<Rightarrow> out (GCalendarError p) s
      | Some found \<Rightarrow>
          send_session p SMSG_CALENDAR_FILTER_GUILD
            (C32 (of_nat (length found)) # concat (map (\<lambda>guid. [CPack guid, C8 0]) found)) s)"

end
