(* ===== verification/GuildFrame.thy ===== *)
theory GuildFrame
  imports GuildCommands
begin

text \<open>
  What the operations of a guild leave alone: sending, statements and hooks change the output only, a
  log only itself, and the changes of members, ranks and money are those of one part of the guild. Most
  are simplification rules, so that the proofs over the commands see only what a command changes.
\<close>

section \<open>Output only\<close>

lemma fold_frame:
  assumes "\<And>x s. f (g x s) = f s"
  shows "f (fold g xs s) = f s"
  using assms by (induction xs arbitrary: s) auto

lemma out_frame [simp]:
  "gsGuild (out e s) = gsGuild s"
  "gsStore (out e s) = gsStore s"
  "gsNextId (out e s) = gsNextId s"
  "gsGuildOf (out e s) = gsGuildOf s"
  "gsRankOf (out e s) = gsRankOf s"
  "gsInvited (out e s) = gsInvited s"
  "gsMoney (out e s) = gsMoney s"
  "gsNextItem (out e s) = gsNextItem s"
  by (simp_all add: out_def)

lemma sql_frame [simp]:
  "gsGuild (sql t s) = gsGuild s"
  "gsStore (sql t s) = gsStore s"
  "gsNextId (sql t s) = gsNextId s"
  "gsGuildOf (sql t s) = gsGuildOf s"
  "gsRankOf (sql t s) = gsRankOf s"
  "gsInvited (sql t s) = gsInvited s"
  "gsMoney (sql t s) = gsMoney s"
  "gsNextItem (sql t s) = gsNextItem s"
  by (simp_all add: sql_def)

lemma hook_frame [simp]:
  "gsGuild (hook h s) = gsGuild s"
  "gsStore (hook h s) = gsStore s"
  "gsNextId (hook h s) = gsNextId s"
  "gsGuildOf (hook h s) = gsGuildOf s"
  "gsRankOf (hook h s) = gsRankOf s"
  "gsInvited (hook h s) = gsInvited s"
  "gsMoney (hook h s) = gsMoney s"
  "gsNextItem (hook h s) = gsNextItem s"
  by (simp_all add: hook_def)

lemma send_frame [simp]:
  "gsGuild (send_session p opcode data s) = gsGuild s"
  "gsStore (send_session p opcode data s) = gsStore s"
  "gsNextId (send_session p opcode data s) = gsNextId s"
  "gsGuildOf (send_session p opcode data s) = gsGuildOf s"
  "gsRankOf (send_session p opcode data s) = gsRankOf s"
  "gsInvited (send_session p opcode data s) = gsInvited s"
  "gsMoney (send_session p opcode data s) = gsMoney s"
  "gsNextItem (send_session p opcode data s) = gsNextItem s"
  by (simp_all add: send_session_def)

lemma result_frame [simp]:
  "gsGuild (SendCommandResult p ty err param s) = gsGuild s"
  "gsStore (SendCommandResult p ty err param s) = gsStore s"
  "gsNextId (SendCommandResult p ty err param s) = gsNextId s"
  "gsGuildOf (SendCommandResult p ty err param s) = gsGuildOf s"
  "gsRankOf (SendCommandResult p ty err param s) = gsRankOf s"
  "gsInvited (SendCommandResult p ty err param s) = gsInvited s"
  "gsMoney (SendCommandResult p ty err param s) = gsMoney s"
  "gsNextItem (SendCommandResult p ty err param s) = gsNextItem s"
  by (simp_all add: SendCommandResult_def)

lemma emblem_result_frame [simp]:
  "gsGuild (SendSaveEmblemResult p err s) = gsGuild s"
  "gsStore (SendSaveEmblemResult p err s) = gsStore s"
  "gsNextId (SendSaveEmblemResult p err s) = gsNextId s"
  "gsGuildOf (SendSaveEmblemResult p err s) = gsGuildOf s"
  "gsRankOf (SendSaveEmblemResult p err s) = gsRankOf s"
  "gsInvited (SendSaveEmblemResult p err s) = gsInvited s"
  "gsMoney (SendSaveEmblemResult p err s) = gsMoney s"
  "gsNextItem (SendSaveEmblemResult p err s) = gsNextItem s"
  by (simp_all add: SendSaveEmblemResult_def)

lemma broadcast_packet_frame [simp]:
  "gsGuild (Guild_BroadcastPacket E opcode data s) = gsGuild s"
  "gsStore (Guild_BroadcastPacket E opcode data s) = gsStore s"
  "gsNextId (Guild_BroadcastPacket E opcode data s) = gsNextId s"
  "gsGuildOf (Guild_BroadcastPacket E opcode data s) = gsGuildOf s"
  "gsRankOf (Guild_BroadcastPacket E opcode data s) = gsRankOf s"
  "gsInvited (Guild_BroadcastPacket E opcode data s) = gsInvited s"
  "gsMoney (Guild_BroadcastPacket E opcode data s) = gsMoney s"
  "gsNextItem (Guild_BroadcastPacket E opcode data s) = gsNextItem s"
  by (simp_all add: Guild_BroadcastPacket_def fold_frame split_def)

lemma broadcast_frame [simp]:
  "gsGuild (Guild_BroadcastEvent E ev guid params s) = gsGuild s"
  "gsStore (Guild_BroadcastEvent E ev guid params s) = gsStore s"
  "gsNextId (Guild_BroadcastEvent E ev guid params s) = gsNextId s"
  "gsGuildOf (Guild_BroadcastEvent E ev guid params s) = gsGuildOf s"
  "gsRankOf (Guild_BroadcastEvent E ev guid params s) = gsRankOf s"
  "gsInvited (Guild_BroadcastEvent E ev guid params s) = gsInvited s"
  "gsMoney (Guild_BroadcastEvent E ev guid params s) = gsMoney s"
  "gsNextItem (Guild_BroadcastEvent E ev guid params s) = gsNextItem s"
  by (simp_all add: Guild_BroadcastEvent_def)

lemma rows_frame [simp]:
  "gsGuild (fold (\<lambda>t. sql (f t)) ts s) = gsGuild s"
  "gsStore (fold (\<lambda>t. sql (f t)) ts s) = gsStore s"
  "gsNextId (fold (\<lambda>t. sql (f t)) ts s) = gsNextId s"
  "gsGuildOf (fold (\<lambda>t. sql (f t)) ts s) = gsGuildOf s"
  "gsRankOf (fold (\<lambda>t. sql (f t)) ts s) = gsRankOf s"
  "gsInvited (fold (\<lambda>t. sql (f t)) ts s) = gsInvited s"
  "gsMoney (fold (\<lambda>t. sql (f t)) ts s) = gsMoney s"
  "gsNextItem (fold (\<lambda>t. sql (f t)) ts s) = gsNextItem s"
  by (simp_all add: fold_frame)

lemma bank_list_frame [simp]:
  "gsGuild (SendBankList E p tabId allSlots slots s) = gsGuild s"
  "gsStore (SendBankList E p tabId allSlots slots s) = gsStore s"
  "gsNextId (SendBankList E p tabId allSlots slots s) = gsNextId s"
  "gsGuildOf (SendBankList E p tabId allSlots slots s) = gsGuildOf s"
  "gsRankOf (SendBankList E p tabId allSlots slots s) = gsRankOf s"
  "gsInvited (SendBankList E p tabId allSlots slots s) = gsInvited s"
  "gsMoney (SendBankList E p tabId allSlots slots s) = gsMoney s"
  "gsNextItem (SendBankList E p tabId allSlots slots s) = gsNextItem s"
  by (simp_all add: SendBankList_def Let_def fold_frame split_def split: option.splits)

lemma bank_content_frame [simp]:
  "gsGuild (SendBankContent E p tabId s) = gsGuild s"
  "gsStore (SendBankContent E p tabId s) = gsStore s"
  "gsNextId (SendBankContent E p tabId s) = gsNextId s"
  "gsGuildOf (SendBankContent E p tabId s) = gsGuildOf s"
  "gsRankOf (SendBankContent E p tabId s) = gsRankOf s"
  "gsInvited (SendBankContent E p tabId s) = gsInvited s"
  "gsMoney (SendBankContent E p tabId s) = gsMoney s"
  "gsNextItem (SendBankContent E p tabId s) = gsNextItem s"
  by (simp_all add: SendBankContent_def)

lemma bank_tab_data_frame [simp]:
  "gsGuild (SendBankTabData E p tabId s) = gsGuild s"
  "gsStore (SendBankTabData E p tabId s) = gsStore s"
  "gsNextId (SendBankTabData E p tabId s) = gsNextId s"
  "gsGuildOf (SendBankTabData E p tabId s) = gsGuildOf s"
  "gsRankOf (SendBankTabData E p tabId s) = gsRankOf s"
  "gsInvited (SendBankTabData E p tabId s) = gsInvited s"
  "gsMoney (SendBankTabData E p tabId s) = gsMoney s"
  "gsNextItem (SendBankTabData E p tabId s) = gsNextItem s"
  by (simp_all add: SendBankTabData_def)

lemma bank_tabs_info_frame [simp]:
  "gsGuild (SendBankTabsInfo E p allSlots s) = gsGuild s"
  "gsStore (SendBankTabsInfo E p allSlots s) = gsStore s"
  "gsNextId (SendBankTabsInfo E p allSlots s) = gsNextId s"
  "gsGuildOf (SendBankTabsInfo E p allSlots s) = gsGuildOf s"
  "gsRankOf (SendBankTabsInfo E p allSlots s) = gsRankOf s"
  "gsInvited (SendBankTabsInfo E p allSlots s) = gsInvited s"
  "gsMoney (SendBankTabsInfo E p allSlots s) = gsMoney s"
  "gsNextItem (SendBankTabsInfo E p allSlots s) = gsNextItem s"
  by (simp_all add: SendBankTabsInfo_def)

lemma tab_text_frame [simp]:
  "gsGuild (BankTab_SendText E p t s) = gsGuild s"
  "gsStore (BankTab_SendText E p t s) = gsStore s"
  "gsNextId (BankTab_SendText E p t s) = gsNextId s"
  "gsGuildOf (BankTab_SendText E p t s) = gsGuildOf s"
  "gsRankOf (BankTab_SendText E p t s) = gsRankOf s"
  "gsInvited (BankTab_SendText E p t s) = gsInvited s"
  "gsMoney (BankTab_SendText E p t s) = gsMoney s"
  "gsNextItem (BankTab_SendText E p t s) = gsNextItem s"
  by (simp_all add: BankTab_SendText_def Let_def split: option.splits)

lemma roster_frame [simp]:
  "gsGuild (HandleRoster E p s) = gsGuild s"
  "gsStore (HandleRoster E p s) = gsStore s"
  "gsNextId (HandleRoster E p s) = gsNextId s"
  "gsGuildOf (HandleRoster E p s) = gsGuildOf s"
  "gsRankOf (HandleRoster E p s) = gsRankOf s"
  "gsInvited (HandleRoster E p s) = gsInvited s"
  "gsMoney (HandleRoster E p s) = gsMoney s"
  "gsNextItem (HandleRoster E p s) = gsNextItem s"
  by (simp_all add: HandleRoster_def Let_def)

lemma query_frame [simp]:
  "gsGuild (HandleQuery p s) = gsGuild s"
  "gsStore (HandleQuery p s) = gsStore s"
  "gsNextId (HandleQuery p s) = gsNextId s"
  "gsGuildOf (HandleQuery p s) = gsGuildOf s"
  "gsRankOf (HandleQuery p s) = gsRankOf s"
  "gsInvited (HandleQuery p s) = gsInvited s"
  "gsMoney (HandleQuery p s) = gsMoney s"
  "gsNextItem (HandleQuery p s) = gsNextItem s"
  by (simp_all add: HandleQuery_def Let_def)

lemma permissions_frame [simp]:
  "gsGuild (SendPermissions p s) = gsGuild s"
  "gsStore (SendPermissions p s) = gsStore s"
  "gsNextId (SendPermissions p s) = gsNextId s"
  "gsGuildOf (SendPermissions p s) = gsGuildOf s"
  "gsRankOf (SendPermissions p s) = gsRankOf s"
  "gsInvited (SendPermissions p s) = gsInvited s"
  "gsMoney (SendPermissions p s) = gsMoney s"
  "gsNextItem (SendPermissions p s) = gsNextItem s"
  by (simp_all add: SendPermissions_def Let_def split: option.splits)

lemma money_set_frame [simp]:
  "gsGuild (bank_money_set E s) = gsGuild s"
  "gsStore (bank_money_set E s) = gsStore s"
  "gsNextId (bank_money_set E s) = gsNextId s"
  "gsGuildOf (bank_money_set E s) = gsGuildOf s"
  "gsRankOf (bank_money_set E s) = gsRankOf s"
  "gsInvited (bank_money_set E s) = gsInvited s"
  "gsMoney (bank_money_set E s) = gsMoney s"
  "gsNextItem (bank_money_set E s) = gsNextItem s"
  by (simp_all add: bank_money_set_def split: option.splits)

lemma bank_log_frame [simp]:
  "gsGuild (SendBankLog E p tabId s) = gsGuild s"
  "gsStore (SendBankLog E p tabId s) = gsStore s"
  "gsNextId (SendBankLog E p tabId s) = gsNextId s"
  "gsGuildOf (SendBankLog E p tabId s) = gsGuildOf s"
  "gsRankOf (SendBankLog E p tabId s) = gsRankOf s"
  "gsInvited (SendBankLog E p tabId s) = gsInvited s"
  "gsMoney (SendBankLog E p tabId s) = gsMoney s"
  "gsNextItem (SendBankLog E p tabId s) = gsNextItem s"
  by (simp_all add: SendBankLog_def)

lemma event_log_frame [simp]:
  "gsGuild (SendEventLog E p s) = gsGuild s"
  "gsStore (SendEventLog E p s) = gsStore s"
  "gsNextId (SendEventLog E p s) = gsNextId s"
  "gsGuildOf (SendEventLog E p s) = gsGuildOf s"
  "gsRankOf (SendEventLog E p s) = gsRankOf s"
  "gsInvited (SendEventLog E p s) = gsInvited s"
  "gsMoney (SendEventLog E p s) = gsMoney s"
  "gsNextItem (SendEventLog E p s) = gsNextItem s"
  by (simp_all add: SendEventLog_def)

lemma send_tab_text_frame [simp]:
  "gsGuild (SendBankTabText E p tabId s) = gsGuild s"
  "gsStore (SendBankTabText E p tabId s) = gsStore s"
  "gsNextId (SendBankTabText E p tabId s) = gsNextId s"
  "gsGuildOf (SendBankTabText E p tabId s) = gsGuildOf s"
  "gsRankOf (SendBankTabText E p tabId s) = gsRankOf s"
  "gsInvited (SendBankTabText E p tabId s) = gsInvited s"
  "gsMoney (SendBankTabText E p tabId s) = gsMoney s"
  "gsNextItem (SendBankTabText E p tabId s) = gsNextItem s"
  by (simp_all add: SendBankTabText_def split: option.splits)

lemma money_info_frame [simp]:
  "gsGuild (SendMoneyInfo p s) = gsGuild s"
  "gsStore (SendMoneyInfo p s) = gsStore s"
  "gsNextId (SendMoneyInfo p s) = gsNextId s"
  "gsGuildOf (SendMoneyInfo p s) = gsGuildOf s"
  "gsRankOf (SendMoneyInfo p s) = gsRankOf s"
  "gsInvited (SendMoneyInfo p s) = gsInvited s"
  "gsMoney (SendMoneyInfo p s) = gsMoney s"
  "gsNextItem (SendMoneyInfo p s) = gsNextItem s"
  by (simp_all add: SendMoneyInfo_def split: option.splits)

lemma info_frame [simp]:
  "gsGuild (Guild_SendInfo E p s) = gsGuild s"
  "gsStore (Guild_SendInfo E p s) = gsStore s"
  "gsNextId (Guild_SendInfo E p s) = gsNextId s"
  "gsGuildOf (Guild_SendInfo E p s) = gsGuildOf s"
  "gsRankOf (Guild_SendInfo E p s) = gsRankOf s"
  "gsInvited (Guild_SendInfo E p s) = gsInvited s"
  "gsMoney (Guild_SendInfo E p s) = gsMoney s"
  "gsNextItem (Guild_SendInfo E p s) = gsNextItem s"
  by (simp_all add: Guild_SendInfo_def Let_def)

section \<open>The guild only\<close>

lemma on_guild_guild [simp]: "gsGuild (on_guild f s) = f (gsGuild s)"
  by (simp add: on_guild_def)

lemma on_guild_frame [simp]:
  "gsStore (on_guild f s) = gsStore s"
  "gsNextId (on_guild f s) = gsNextId s"
  "gsGuildOf (on_guild f s) = gsGuildOf s"
  "gsRankOf (on_guild f s) = gsRankOf s"
  "gsInvited (on_guild f s) = gsInvited s"
  "gsMoney (on_guild f s) = gsMoney s"
  "gsNextItem (on_guild f s) = gsNextItem s"
  by (simp_all add: on_guild_def)

lemma log_frame [simp]:
  "gsStore (Guild_LogEvent E ty p1 p2 rank s) = gsStore s"
  "gsNextId (Guild_LogEvent E ty p1 p2 rank s) = gsNextId s"
  "gsGuildOf (Guild_LogEvent E ty p1 p2 rank s) = gsGuildOf s"
  "gsRankOf (Guild_LogEvent E ty p1 p2 rank s) = gsRankOf s"
  "gsInvited (Guild_LogEvent E ty p1 p2 rank s) = gsInvited s"
  "gsMoney (Guild_LogEvent E ty p1 p2 rank s) = gsMoney s"
  "gsNextItem (Guild_LogEvent E ty p1 p2 rank s) = gsNextItem s"
  by (simp_all add: Guild_LogEvent_def Let_def split_def split: option.splits)

lemma bank_log_event_frame [simp]:
  "gsStore (Guild_LogBankEvent E ty tabId lowguid im stack dest s) = gsStore s"
  "gsNextId (Guild_LogBankEvent E ty tabId lowguid im stack dest s) = gsNextId s"
  "gsGuildOf (Guild_LogBankEvent E ty tabId lowguid im stack dest s) = gsGuildOf s"
  "gsRankOf (Guild_LogBankEvent E ty tabId lowguid im stack dest s) = gsRankOf s"
  "gsInvited (Guild_LogBankEvent E ty tabId lowguid im stack dest s) = gsInvited s"
  "gsMoney (Guild_LogBankEvent E ty tabId lowguid im stack dest s) = gsMoney s"
  "gsNextItem (Guild_LogBankEvent E ty tabId lowguid im stack dest s) = gsNextItem s"
  by (simp_all add: Guild_LogBankEvent_def Let_def split_def split: option.splits)

lemma run_rank_frame [simp]:
  "gsStore (run_rank i f s) = gsStore s"
  "gsNextId (run_rank i f s) = gsNextId s"
  "gsGuildOf (run_rank i f s) = gsGuildOf s"
  "gsRankOf (run_rank i f s) = gsRankOf s"
  "gsInvited (run_rank i f s) = gsInvited s"
  "gsMoney (run_rank i f s) = gsMoney s"
  "gsNextItem (run_rank i f s) = gsNextItem s"
  by (simp_all add: run_rank_def Let_def split_def)

lemma run_tab_frame [simp]:
  "gsStore (run_tab i x s) = gsStore s"
  "gsNextId (run_tab i x s) = gsNextId s"
  "gsGuildOf (run_tab i x s) = gsGuildOf s"
  "gsRankOf (run_tab i x s) = gsRankOf s"
  "gsInvited (run_tab i x s) = gsInvited s"
  "gsMoney (run_tab i x s) = gsMoney s"
  "gsNextItem (run_tab i x s) = gsNextItem s"
  by (simp_all add: run_tab_def)

lemma withdraw_frame [simp]:
  "gsStore (withdraw_member k m tabId amount s) = gsStore s"
  "gsNextId (withdraw_member k m tabId amount s) = gsNextId s"
  "gsGuildOf (withdraw_member k m tabId amount s) = gsGuildOf s"
  "gsRankOf (withdraw_member k m tabId amount s) = gsRankOf s"
  "gsInvited (withdraw_member k m tabId amount s) = gsInvited s"
  "gsMoney (withdraw_member k m tabId amount s) = gsMoney s"
  "gsNextItem (withdraw_member k m tabId amount s) = gsNextItem s"
  by (simp_all add: withdraw_member_def Let_def split_def)

end
