(* ===== verification/GuildInv.thy ===== *)
theory GuildInv
  imports GuildFrame
begin

text \<open>
  The invariant of a guild: ranks are a sequence from the guild master downwards, five to ten of them,
  and the master has every right; a member is kept once, under the low part of its guid; the
  leader is a member; there are at most six tabs of 98 slots; and seven logs of the bank. And
  how every operation on one part of a guild keeps it.
\<close>

section \<open>Ranks\<close>

definition ranks_seq :: "rankInfo list \<Rightarrow> bool" where
  "ranks_seq rs \<longleftrightarrow> length rs \<le> 10 \<and> map riRankId rs = map of_nat [0..<length rs] \<and>
     (\<forall>r\<in>set rs. length (riTabs r) = 6 \<and>
        (riRankId r = GR_GUILDMASTER \<longrightarrow> riRights r AND GR_RIGHT_ALL = GR_RIGHT_ALL \<and> riMoneyPerDay r = GUILD_WITHDRAW_MONEY_UNLIMITED))"

definition ranks_ok :: "rankInfo list \<Rightarrow> bool" where
  "ranks_ok rs \<longleftrightarrow> ranks_seq rs \<and> 5 \<le> length rs"

definition rank_kept :: "rankInfo \<Rightarrow> rankInfo \<Rightarrow> bool" where
  "rank_kept r r' \<longleftrightarrow> riRankId r' = riRankId r \<and> length (riTabs r') = length (riTabs r) \<and>
     (riRankId r = GR_GUILDMASTER \<longrightarrow>
        (riRights r AND GR_RIGHT_ALL = GR_RIGHT_ALL \<longrightarrow> riRights r' AND GR_RIGHT_ALL = GR_RIGHT_ALL) \<and>
        (riMoneyPerDay r = GUILD_WITHDRAW_MONEY_UNLIMITED \<longrightarrow> riMoneyPerDay r' = GUILD_WITHDRAW_MONEY_UNLIMITED))"

lemma rank_kept_trans: "rank_kept r r' \<Longrightarrow> rank_kept r' r'' \<Longrightarrow> rank_kept r r''"
  by (auto simp: rank_kept_def)

lemma rank_kept_refl [simp]: "rank_kept r r"
  by (simp add: rank_kept_def)

lemma rank_kept_SetName [simp]: "rank_kept r (fst (RankInfo_SetName name r))"
  by (simp add: rank_kept_def RankInfo_SetName_def)

lemma rank_kept_SetRights [simp]: "rank_kept r (fst (RankInfo_SetRights rights r))"
  by (simp add: rank_kept_def RankInfo_SetRights_def Let_def)

lemma rank_kept_SetBankMoneyPerDay [simp]: "rank_kept r (fst (SetBankMoneyPerDay money r))"
  by (simp add: rank_kept_def SetBankMoneyPerDay_def Let_def)

lemma rank_kept_SetBankTab:
  "SetBankTabSlotsAndRights b saved r = Some x \<Longrightarrow> rank_kept r (fst x)"
  by (auto simp: rank_kept_def SetBankTabSlotsAndRights_def Let_def split: if_splits)

lemma rank_kept_create_missing_tab: "rank_kept (fst x) (fst (create_missing_tab i x))"
  by (cases x) (simp add: rank_kept_def create_missing_tab_def Let_def)

lemma rank_kept_CreateMissing [simp]: "rank_kept r (fst (CreateMissingTabsIfNeeded tabs r))"
proof -
  have "rank_kept (fst x) (fst (fold create_missing_tab is x))" for x "is"
  proof (induction "is" arbitrary: x)
    case (Cons i "is")
    from rank_kept_trans [OF rank_kept_create_missing_tab Cons.IH] show ?case by simp
  qed simp
  from this [of "(r, [])"] show ?thesis by (simp add: CreateMissingTabsIfNeeded_def)
qed

lemma ranks_seq_update:
  assumes "ranks_seq rs" and "i < length rs \<Longrightarrow> rank_kept (rs ! i) r"
  shows "ranks_seq (rs[i := r])"
proof (cases "i < length rs")
  case True
  then have kept: "rank_kept (rs ! i) r" by (rule assms(2))
  have "map riRankId (rs[i := r]) = map riRankId rs"
    using kept True by (simp add: map_update rank_kept_def) (metis length_map list_update_id nth_map)
  moreover have "length (riTabs q) = 6 \<and>
      (riRankId q = GR_GUILDMASTER \<longrightarrow> riRights q AND GR_RIGHT_ALL = GR_RIGHT_ALL \<and> riMoneyPerDay q = GUILD_WITHDRAW_MONEY_UNLIMITED)"
    if "q \<in> set (rs[i := r])" for q
  proof -
    from that have "q \<in> set rs \<or> q = r" by (meson in_set_conv_nth list_update_beyond set_update_subset_insert subsetD insertE)
    then show ?thesis
    proof
      assume "q = r"
      then show ?thesis using kept assms(1) nth_mem [OF True] by (auto simp: rank_kept_def ranks_seq_def)
    qed (use assms(1) in \<open>auto simp: ranks_seq_def\<close>)
  qed
  ultimately show ?thesis using assms(1) by (simp add: ranks_seq_def)
qed (use assms(1) in \<open>simp add: list_update_beyond\<close>)

lemma gsGuild_run_rank:
  "gsGuild (run_rank i f s) = upd_rank i (\<lambda>r. fst (f r)) (gsGuild s)"
  by (simp add: run_rank_def upd_rank_def Let_def split_def)

lemma ranks_ok_run_rank:
  assumes "ranks_ok (gRanks (gsGuild s))" and "\<And>r. rank_kept r (fst (f r))"
  shows "ranks_ok (gRanks (gsGuild (run_rank i f s)))"
  using assms ranks_seq_update [of "gRanks (gsGuild s)" "unat i"]
  by (simp add: gsGuild_run_rank upd_rank_def ranks_ok_def)

lemma ranks_seq_append:
  assumes "ranks_seq rs" and "length rs < 10" and "riRankId r = of_nat (length rs)" and "length (riTabs r) = 6"
    and "riRankId r = GR_GUILDMASTER \<Longrightarrow> riRights r AND GR_RIGHT_ALL = GR_RIGHT_ALL \<and> riMoneyPerDay r = GUILD_WITHDRAW_MONEY_UNLIMITED"
  shows "ranks_seq (rs @ [r])"
  using assms by (auto simp: ranks_seq_def)

lemma ranks_seq_butlast: "ranks_seq rs \<Longrightarrow> ranks_seq (butlast rs)"
  by (auto simp: ranks_seq_def butlast_conv_take take_map [symmetric] dest: in_set_takeD) (simp add: take_map)

lemma CreateRank_ranks:
  assumes "ranks_seq (gRanks (gsGuild s))" and "length (gRanks (gsGuild s)) < 10"
    and "gRanks (gsGuild s) = [] \<Longrightarrow> rights = GR_RIGHT_ALL"
  shows "ranks_seq (gRanks (gsGuild (snd (CreateRank name rights s)))) \<and>
    length (gRanks (gsGuild (snd (CreateRank name rights s)))) = Suc (length (gRanks (gsGuild s)))"
proof -
  have n: "unat (Guild_GetRanksSize (gsGuild s)) = length (gRanks (gsGuild s))"
    using assms(2) by (simp add: Guild_GetRanksSize_def unsigned_of_nat take_bit_nat_eq_self)
  have "Guild_GetRanksSize (gsGuild s) < GUILD_RANKS_MAX_COUNT"
    using assms(2) n by (simp add: word_less_nat_alt GUILD_RANKS_MAX_COUNT_def)
  moreover have "Guild_GetRanksSize (gsGuild s) = GR_GUILDMASTER \<longleftrightarrow> gRanks (gsGuild s) = []"
    using n by (metis GR_GUILDMASTER_def length_0_conv unat_eq_zero)
  ultimately show ?thesis
    using assms ranks_seq_append [of "gRanks (gsGuild s)" "RankInfo_new (gId (gsGuild s)) (Guild_GetRanksSize (gsGuild s)) name rights 0"]
    by (auto simp: CreateRank_def Let_def split_def RankInfo_new_def Guild_GetRanksSize_def GUILD_BANK_MAX_TABS_def)
qed

section \<open>Members, leader, tabs and logs\<close>

definition member_ok :: "u32 \<Rightarrow> u32 \<times> gMember \<Rightarrow> bool" where
  "member_ok i x \<longleftrightarrow> mbGuid (snd x) = MAKE_NEW_GUID (fst x) 0 HIGHGUID_PLAYER \<and> mbGuildId (snd x) = i \<and>
     length (mbWithdraw (snd x)) = 7"

definition roster_ok :: "u32 \<Rightarrow> (u32 \<times> gMember) list \<Rightarrow> bool" where
  "roster_ok i ms \<longleftrightarrow> distinct (map fst ms) \<and> list_all (member_ok i) ms"

definition leader_ok :: "u64 \<Rightarrow> (u32 \<times> gMember) list \<Rightarrow> bool" where
  "leader_ok leader ms \<longleftrightarrow> leader \<in> (mbGuid \<circ> snd) ` set ms"

definition tabs_ok :: "u32 \<Rightarrow> bankTab list \<Rightarrow> bool" where
  "tabs_ok i ts \<longleftrightarrow> length ts \<le> 6 \<and> map btTabId ts = map of_nat [0..<length ts] \<and>
     list_all (\<lambda>t. btGuildId t = i \<and> length (btItems t) = 98) ts"

definition guild_ok :: "guild \<Rightarrow> bool" where
  "guild_ok g \<longleftrightarrow> ranks_ok (gRanks g) \<and> roster_ok (gId g) (gMembers g) \<and> leader_ok (gLeaderGuid g) (gMembers g) \<and>
     tabs_ok (gId g) (gBankTabs g) \<and> length (gBankEventLog g) = 7"

abbreviation keys :: "guild \<Rightarrow> u32 set" where
  "keys g \<equiv> fst ` set (gMembers g)"

lemma keys_upd_member [simp]: "keys (upd_member k f g) = keys g"
  by (force simp: upd_member_def)

lemma upd_member_fields [simp]:
  "gId (upd_member k f g) = gId g" "gRanks (upd_member k f g) = gRanks g"
  "gLeaderGuid (upd_member k f g) = gLeaderGuid g" "gBankTabs (upd_member k f g) = gBankTabs g"
  "gBankEventLog (upd_member k f g) = gBankEventLog g" "gBankMoney (upd_member k f g) = gBankMoney g"
  "gEventLog (upd_member k f g) = gEventLog g"
  by (simp_all add: upd_member_def)

lemma guids_of_members:
  assumes "roster_ok i ms"
  shows "(mbGuid \<circ> snd) ` set ms = (\<lambda>k. MAKE_NEW_GUID k 0 HIGHGUID_PLAYER) ` fst ` set ms"
  using assms unfolding roster_ok_def list_all_iff member_ok_def image_image by (intro image_cong) auto

text \<open>Changing a member: what has to stay is its place.\<close>

lemma upd_member_ok:
  assumes "roster_ok (gId g) (gMembers g)" and "\<And>m. (k, m) \<in> set (gMembers g) \<Longrightarrow> member_ok (gId g) (k, f m)"
  shows "roster_ok (gId g) (gMembers (upd_member k f g))"
proof -
  have "map fst (gMembers (upd_member k f g)) = map fst (gMembers g)" by (simp add: upd_member_def split_def comp_def cong: if_cong)
  moreover have "member_ok (gId g) x" if "x \<in> set (gMembers (upd_member k f g))" for x
    using that assms by (auto simp: upd_member_def roster_ok_def list_all_iff split: if_splits)
  ultimately show ?thesis using assms(1) by (simp add: roster_ok_def list_all_iff)
qed

lemma leader_ok_keys:
  assumes "roster_ok i ms" and "roster_ok j ms'" and "fst ` set ms' = fst ` set ms"
  shows "leader_ok leader ms' \<longleftrightarrow> leader_ok leader ms"
  unfolding leader_ok_def guids_of_members [OF assms(1)] guids_of_members [OF assms(2)] assms(3) ..

lemma guild_ok_upd_member:
  assumes "guild_ok g" and "\<And>m. (k, m) \<in> set (gMembers g) \<Longrightarrow> member_ok (gId g) (k, f m)"
  shows "guild_ok (upd_member k f g)"
proof -
  have "roster_ok (gId g) (gMembers g)" using assms(1) by (simp add: guild_ok_def)
  moreover from this have "roster_ok (gId g) (gMembers (upd_member k f g))" by (rule upd_member_ok) (rule assms(2))
  ultimately show ?thesis using assms(1) leader_ok_keys [OF _ _ keys_upd_member] by (simp add: guild_ok_def)
qed

lemma guild_ok_member:
  assumes "guild_ok g" and "(k, m) \<in> set (gMembers g)"
  shows "member_ok (gId g) (k, m)"
  using assms by (auto simp: guild_ok_def roster_ok_def list_all_iff)

lemma GetMember_in: "GetMember p g = Some m \<Longrightarrow> (GUID_LOPART p, m) \<in> set (gMembers g)"
  by (simp add: GetMember_def map_of_SomeD)

lemma GetMemberByName_in: "GetMemberByName name g = Some (k, m) \<Longrightarrow> (k, m) \<in> set (gMembers g) \<and> mbName m = name"
  unfolding GetMemberByName_def find_Some_iff by (metis (mono_tags, lifting) case_prod_conv nth_mem)

text \<open>A change of one member that keeps its place.\<close>

definition place_kept :: "(gMember \<Rightarrow> gMember) \<Rightarrow> bool" where
  "place_kept f \<longleftrightarrow> (\<forall>m. mbGuid (f m) = mbGuid m \<and> mbGuildId (f m) = mbGuildId m \<and> length (mbWithdraw (f m)) = length (mbWithdraw m))"

lemma guild_ok_place_kept: "guild_ok g \<Longrightarrow> place_kept f \<Longrightarrow> guild_ok (upd_member k f g)"
  by (rule guild_ok_upd_member) (auto simp: place_kept_def member_ok_def dest: guild_ok_member)

lemma guild_ok_log [simp]:
  "guild_ok (gsGuild (Guild_LogEvent E ty p1 p2 rank s)) \<longleftrightarrow> guild_ok (gsGuild s)"
  "guild_ok (gsGuild (Guild_LogBankEvent E ty' tabId lowguid im stack dest s)) \<longleftrightarrow> guild_ok (gsGuild s)"
  by (auto simp: Guild_LogEvent_def Guild_LogBankEvent_def Let_def split_def guild_ok_def split: option.splits)

lemma log_fields [simp]:
  "gId (gsGuild (Guild_LogEvent E ty p1 p2 rank s)) = gId (gsGuild s)"
  "gMembers (gsGuild (Guild_LogEvent E ty p1 p2 rank s)) = gMembers (gsGuild s)"
  "gBankMoney (gsGuild (Guild_LogEvent E ty p1 p2 rank s)) = gBankMoney (gsGuild s)"
  "gRanks (gsGuild (Guild_LogEvent E ty p1 p2 rank s)) = gRanks (gsGuild s)"
  "gLeaderGuid (gsGuild (Guild_LogEvent E ty p1 p2 rank s)) = gLeaderGuid (gsGuild s)"
  "gBankTabs (gsGuild (Guild_LogEvent E ty p1 p2 rank s)) = gBankTabs (gsGuild s)"
  "gId (gsGuild (Guild_LogBankEvent E ty' tabId lowguid im stack dest s)) = gId (gsGuild s)"
  "gMembers (gsGuild (Guild_LogBankEvent E ty' tabId lowguid im stack dest s)) = gMembers (gsGuild s)"
  "gBankMoney (gsGuild (Guild_LogBankEvent E ty' tabId lowguid im stack dest s)) = gBankMoney (gsGuild s)"
  "gRanks (gsGuild (Guild_LogBankEvent E ty' tabId lowguid im stack dest s)) = gRanks (gsGuild s)"
  "gLeaderGuid (gsGuild (Guild_LogBankEvent E ty' tabId lowguid im stack dest s)) = gLeaderGuid (gsGuild s)"
  "gBankTabs (gsGuild (Guild_LogBankEvent E ty' tabId lowguid im stack dest s)) = gBankTabs (gsGuild s)"
  by (auto simp: Guild_LogEvent_def Guild_LogBankEvent_def Let_def split_def split: option.splits)

lemma guild_ok_run_rank: "guild_ok (gsGuild s) \<Longrightarrow> (\<And>r. rank_kept r (fst (f r))) \<Longrightarrow> guild_ok (gsGuild (run_rank i f s))"
  using ranks_ok_run_rank [of s f i] by (simp add: guild_ok_def gsGuild_run_rank upd_rank_def)

lemma run_rank_fields [simp]:
  "gId (gsGuild (run_rank i f s)) = gId (gsGuild s)"
  "gMembers (gsGuild (run_rank i f s)) = gMembers (gsGuild s)"
  "gBankTabs (gsGuild (run_rank i f s)) = gBankTabs (gsGuild s)"
  "gBankMoney (gsGuild (run_rank i f s)) = gBankMoney (gsGuild s)"
  by (simp_all add: gsGuild_run_rank upd_rank_def)

lemma gsGuild_run_tab: "gsGuild (run_tab i x s) = upd_tab i (\<lambda>_. fst x) (gsGuild s)"
  by (simp add: run_tab_def)

text \<open>Changing a tab: its id, its guild and its number of slots stay.\<close>

definition tab_kept :: "bankTab \<Rightarrow> bankTab \<Rightarrow> bool" where
  "tab_kept t t' \<longleftrightarrow> btTabId t' = btTabId t \<and> btGuildId t' = btGuildId t \<and> length (btItems t') = length (btItems t)"

lemma guild_ok_upd_tab:
  assumes "guild_ok g" and "unat i < length (gBankTabs g) \<Longrightarrow> tab_kept (gBankTabs g ! unat i) (f (gBankTabs g ! unat i))"
  shows "guild_ok (upd_tab i f g)"
proof (cases "unat i < length (gBankTabs g)")
  case True
  then have "tab_kept (gBankTabs g ! unat i) (f (gBankTabs g ! unat i))" by (rule assms(2))
  moreover have "btGuildId (gBankTabs g ! unat i) = gId g \<and> length (btItems (gBankTabs g ! unat i)) = 98"
    using assms(1) True by (auto simp: guild_ok_def tabs_ok_def list_all_length)
  ultimately have "tabs_ok (gId g) ((gBankTabs g)[unat i := f (gBankTabs g ! unat i)])"
    using assms(1) True
    by (auto simp: guild_ok_def tabs_ok_def tab_kept_def map_update list_all_length nth_list_update)
      (metis length_map list_update_id nth_map)
  then show ?thesis using assms(1) by (simp add: guild_ok_def upd_tab_def)
qed (use assms(1) in \<open>simp add: upd_tab_def list_update_beyond\<close>)

end
