(* ===== verification/GuildSteps.thy ===== *)
theory GuildSteps
  imports GuildInv
begin

text \<open>
  Every command of a guild keeps the guild's invariant and what the server knows of its members: the guild
  id kept for a player is that of the guild exactly when the player is a member. An interface says what a
  command has to keep, the commands provide it, and it carries over to the packets.
\<close>

section \<open>What a command keeps\<close>

definition focus_ok :: "u32 \<Rightarrow> gst \<Rightarrow> bool" where
  "focus_ok i s \<longleftrightarrow> i \<noteq> 0 \<and> gId (gsGuild s) = i \<and> guild_ok (gsGuild s) \<and> (\<forall>k. k \<in> keys (gsGuild s) \<longleftrightarrow> gsGuildOf s k = i)"

text \<open>The order of the table is some order, and every character is in the global storage.\<close>

definition genv_ok :: "gEnv \<Rightarrow> bool" where
  "genv_ok E \<longleftrightarrow> (\<forall>ms. mset (geOrder E ms) = mset ms) \<and> (\<forall>k. geInStore E k)"

definition guild_player :: "u64 \<Rightarrow> bool" where
  "guild_player p \<longleftrightarrow> p = MAKE_NEW_GUID (GUID_LOPART p) 0 HIGHGUID_PLAYER"

definition kept :: "u32 \<Rightarrow> gst \<Rightarrow> gst \<Rightarrow> bool" where
  "kept i s s' \<longleftrightarrow> gsNextId s' = gsNextId s \<and>
     (\<forall>k. gsGuildOf s' k = gsGuildOf s k \<or> gsGuildOf s k \<in> {0, i} \<and> gsGuildOf s' k \<in> {0, i}) \<and>
     (gsStore s' = gsStore s \<and> focus_ok i s' \<or>
      gsStore s' = filter (\<lambda>(j, g). j \<noteq> i) (gsStore s) \<and> (\<forall>k. gsGuildOf s' k \<noteq> i))"

definition calm :: "gst \<Rightarrow> gst \<Rightarrow> bool" where
  "calm s s' \<longleftrightarrow> gsNextId s' = gsNextId s \<and> gsGuildOf s' = gsGuildOf s \<and> gsStore s' = gsStore s \<and> keys (gsGuild s') = keys (gsGuild s) \<and>
     gId (gsGuild s') = gId (gsGuild s) \<and> (guild_ok (gsGuild s) \<longrightarrow> guild_ok (gsGuild s'))"

lemma calm_kept: "focus_ok i s \<Longrightarrow> calm s s' \<Longrightarrow> kept i s s'"
  by (simp add: kept_def focus_ok_def calm_def)

lemma calm_refl [simp]: "calm s s"
  by (simp add: calm_def)

lemma calm_trans: "calm s s' \<Longrightarrow> calm s' s'' \<Longrightarrow> calm s s''"
  by (simp add: calm_def)

text \<open>Output and logs do not show.\<close>

lemma calm_quiet [simp]:
  "calm s (out e s') = calm s s'" "calm s (sql t s') = calm s s'" "calm s (hook h s') = calm s s'"
  "calm s (send_session p opcode data s') = calm s s'"
  "calm s (SendCommandResult p cty err param s') = calm s s'" "calm s (SendSaveEmblemResult p err s') = calm s s'"
  "calm s (Guild_BroadcastPacket E opcode data s') = calm s s'" "calm s (Guild_BroadcastEvent E ev guid params s') = calm s s'"
  "calm s (SendBankList E q tabId allSlots slots s') = calm s s'" "calm s (SendBankTabData E p tabId s') = calm s s'"
  "calm s (SendBankTabsInfo E p allSlots s') = calm s s'" "calm s (BankTab_SendText E q tb s') = calm s s'"
  "calm s (HandleRoster E p s') = calm s s'" "calm s (HandleQuery p s') = calm s s'"
  "calm s (SendPermissions p s') = calm s s'" "calm s (bank_money_set E s') = calm s s'"
  "calm s (SendBankLog E p tabId s') = calm s s'" "calm s (SendEventLog E p s') = calm s s'"
  "calm s (SendBankTabText E p tabId s') = calm s s'" "calm s (SendMoneyInfo p s') = calm s s'"
  "calm s (Guild_SendInfo E p s') = calm s s'"
  "calm s (fold (\<lambda>t. sql (f t)) ts s') = calm s s'"
  "calm s (Guild_LogEvent E ty p1 p2 rank s') = calm s s'"
  "calm s (Guild_LogBankEvent E ty' tabId lowguid im stack dest s') = calm s s'"
  by (simp_all add: calm_def)

lemma calm_money [simp]: "calm s (s'\<lparr>gsMoney := m\<rparr>) = calm s s'" "calm s (s'\<lparr>gsRankOf := r\<rparr>) = calm s s'"
  "calm s (s'\<lparr>gsInvited := v\<rparr>) = calm s s'" "calm s (s'\<lparr>gsNextItem := n\<rparr>) = calm s s'"
  by (simp_all add: calm_def)

lemma calm_ModifyMoney [simp]: "calm s (snd (ModifyMoney E p amount s')) = calm s s'"
  by (simp add: ModifyMoney_def Let_def)

lemma calm_fields [simp]:
  "calm s (on_guild (gMotd_update f) s') = calm s s'" "calm s (on_guild (gInfo_update f) s') = calm s s'"
  "calm s (on_guild (gEmblem_update f') s') = calm s s'" "calm s (on_guild (gBankMoney_update f'') s') = calm s s'"
  "calm s (on_guild UpdateAccountsNumber s') = calm s s'"
  by (simp_all add: calm_def guild_ok_def UpdateAccountsNumber_def)

lemma calm_ModifyBankMoney [simp]: "calm s (snd (ModifyBankMoney amount add s')) = calm s s'"
  using calm_fields(4) [of s "\<lambda>_. if add then gBankMoney (gsGuild s') + amount else gBankMoney (gsGuild s') - amount" s']
  by (simp add: ModifyBankMoney_def Let_def)

named_theorems calm_intros

lemma calm_run_rank [calm_intros]: "calm s s' \<Longrightarrow> (\<And>r. rank_kept r (fst (f r))) \<Longrightarrow> calm s (run_rank i f s')"
  by (simp add: calm_def guild_ok_run_rank)

lemma calm_place [calm_intros]: "calm s s' \<Longrightarrow> place_kept f \<Longrightarrow> calm s (on_guild (upd_member k f) s')"
  by (simp add: calm_def guild_ok_place_kept)

lemma place_keeps [simp]:
  "place_kept (\<lambda>m. m\<lparr>mbRankId := r\<rparr>)" "place_kept (\<lambda>m. m\<lparr>mbPublicNote := n\<rparr>)" "place_kept (\<lambda>m. m\<lparr>mbOfficerNote := n\<rparr>)"
  "place_kept (Member_SetStats x)" "place_kept (\<lambda>m. Member_AddFlag v (Member_SetStats x m))"
  "place_kept (\<lambda>m. Member_ResetFlags (Member_SetStats x m\<lparr>mbLogoutTime := t\<rparr>))"
  by (simp_all add: place_kept_def Member_SetStats_def Member_AddFlag_def Member_ResetFlags_def)

lemma calm_ChangeRank [calm_intros]: "calm s s' \<Longrightarrow> calm s (Member_ChangeRank E k m r s')"
  by (simp add: Member_ChangeRank_def Let_def calm_place)

lemma calm_fold [calm_intros]:
  assumes "calm s s'" and "\<And>x t. calm s t \<Longrightarrow> calm s (f x t)"
  shows "calm s (fold f xs s')"
  using assms by (induction xs arbitrary: s') auto

section \<open>Commands that leave the membership alone\<close>

lemma calm_HandleSetMOTD: "calm s (HandleSetMOTD E p motd s)"
  by (simp add: HandleSetMOTD_def Let_def)

lemma calm_HandleSetInfo: "calm s (HandleSetInfo p info s)"
  by (simp add: HandleSetInfo_def Let_def)

lemma calm_HandleSetEmblem: "calm s (HandleSetEmblem E p e s)"
  by (simp add: HandleSetEmblem_def Let_def)

lemma calm_HandleSetMemberNote: "calm s (HandleSetMemberNote E p name txt isPublic s)"
  by (auto simp: HandleSetMemberNote_def SetPublicNote_def SetOfficerNote_def split: option.splits intro: calm_intros)

lemma calm_SetRankBankMoneyPerDay [calm_intros]: "calm s s' \<Longrightarrow> calm s (SetRankBankMoneyPerDay r money s')"
  by (auto simp: SetRankBankMoneyPerDay_def split: option.splits intro: calm_intros)

lemma gsGuild_run_rank_const: "gsGuild (run_rank i (\<lambda>_. x) s) = gsGuild (run_rank i (\<lambda>r. if r = gRanks (gsGuild s) ! unat i then x else (r, [])) s)"
  by (simp add: gsGuild_run_rank upd_rank_def)

lemma calm_SetRankBankTabRightsAndSlots [calm_intros]:
  assumes "calm s s'"
  shows "calm s (SetRankBankTabRightsAndSlots r saved b s')"
proof -
  have "calm s (run_rank r (\<lambda>_. x) s')"
    if "GetRankInfo r (gsGuild s') = Some q" "SetBankTabSlotsAndRights b saved q = Some x" for q x
  proof -
    from that(1) have q: "q = gRanks (gsGuild s') ! unat r" by (simp add: GetRankInfo_def split: if_splits)
    have "rank_kept q' (fst (if q' = gRanks (gsGuild s') ! unat r then x else (q', [])))" for q'
      using rank_kept_SetBankTab [OF that(2)] q by simp
    from calm_run_rank [OF assms this, of r] show ?thesis unfolding calm_def gsGuild_run_rank_const by simp
  qed
  then show ?thesis using assms by (auto simp: SetRankBankTabRightsAndSlots_def split: option.splits)
qed

lemma calm_HandleSetRankInfo: "calm s (HandleSetRankInfo E p r name rights money bs s)"
  by (auto simp: HandleSetRankInfo_def Let_def split: option.splits intro!: calm_intros)

lemma calm_HandleUpdateMemberRank: "calm s (HandleUpdateMemberRank E p name demote s)"
  by (auto simp: HandleUpdateMemberRank_def Let_def split: option.splits intro!: calm_intros)

lemma calm_HandleInviteMember: "calm s (HandleInviteMember E p name s)"
  by (auto simp: HandleInviteMember_def Let_def split: option.splits)

lemma calm_HandleMemberDepositMoney: "calm s (HandleMemberDepositMoney E p amount s)"
  by (simp add: HandleMemberDepositMoney_def Let_def)

text \<open>The leader is named from the members.\<close>

lemma guild_ok_leader:
  assumes "guild_ok g" and "(k, m) \<in> set (gMembers g)"
  shows "guild_ok (g\<lparr>gLeaderGuid := mbGuid m\<rparr>)"
  using assms by (force simp: guild_ok_def leader_ok_def)

lemma calm_SetLeaderGUID [calm_intros]:
  assumes "calm s s'" and "(k, m) \<in> set (gMembers (gsGuild s'))"
  shows "calm s (SetLeaderGUID E k m s')"
proof -
  have "calm s' (on_guild (\<lambda>g. g\<lparr>gLeaderGuid := mbGuid m\<rparr>) s')"
    using guild_ok_leader [OF _ assms(2)] by (simp add: calm_def)
  then show ?thesis using calm_trans [OF assms(1)] by (auto simp: SetLeaderGUID_def Let_def intro: calm_intros)
qed

lemma calm_HandleSetLeader: "calm s (HandleSetLeader E p name s)"
  by (auto simp: HandleSetLeader_def Let_def dest: GetMemberByName_in split: option.splits intro!: calm_intros)

text \<open>Withdrawing: a member's counters are changed at the member's place.\<close>

lemma calm_withdraw_member:
  assumes "GetMember p (gsGuild s) = Some m"
  shows "calm s (withdraw_member (GUID_LOPART p) m tabId amount s)"
proof -
  have "guild_ok (upd_member (GUID_LOPART p) (\<lambda>_. fst (UpdateBankWithdrawValue tabId amount m)) (gsGuild s))"
    if "guild_ok (gsGuild s)"
    using guild_ok_member [OF that GetMember_in [OF assms]]
    by (intro guild_ok_upd_member that) (simp add: member_ok_def UpdateBankWithdrawValue_def Let_def)
  then show ?thesis by (simp add: calm_def withdraw_member_def Let_def split_def)
qed

lemma ModifyMoney_guild [simp]: "gsGuild (snd (ModifyMoney E p amount s)) = gsGuild s"
  by (simp add: ModifyMoney_def Let_def)

lemma calm_HandleMemberWithdrawMoney: "calm s (snd (HandleMemberWithdrawMoney E p amount repair s))"
proof -
  have "calm s (withdraw_member (GUID_LOPART p) m GUILD_BANK_MAX_TABS a t)"
    if "GetMember p (gsGuild t) = Some m" "calm s t" for m a t
    using calm_trans [OF that(2) calm_withdraw_member [OF that(1)]] .
  then show ?thesis by (auto simp: HandleMemberWithdrawMoney_def Let_def split_def split: option.splits)
qed

lemma calm_HandleMemberLogout: "calm s (HandleMemberLogout E p s)"
  by (auto simp: HandleMemberLogout_def Let_def split: option.splits intro: calm_intros)

lemma calm_SendLoginInfo: "calm s (SendLoginInfo E p s)"
  by (auto simp: SendLoginInfo_def Let_def split: option.splits intro: calm_intros)

lemma calm_Guild_ResetTimes: "calm s (Guild_ResetTimes E s)"
proof -
  let ?f = "\<lambda>(k, m). (k, Member_ResetValues m)"
  have fst: "map fst (map ?f ms) = map fst ms" for ms :: "(u32 \<times> gMember) list"
    by (simp add: split_def)
  have "roster_ok i (map ?f ms)" if "roster_ok i ms" for i ms
    using that unfolding roster_ok_def fst
    by (auto simp: list_all_iff member_ok_def Member_ResetValues_def GUILD_BANK_MAX_TABS_def)
  moreover have "leader_ok l (map ?f ms) \<longleftrightarrow> leader_ok l ms" for l ms
    by (force simp: leader_ok_def Member_ResetValues_def image_iff)
  moreover have "fst ` set (map ?f ms) = fst ` set ms" for ms :: "(u32 \<times> gMember) list" by force
  ultimately show ?thesis by (simp add: calm_def Guild_ResetTimes_def guild_ok_def)
qed

section \<open>Ranks\<close>

lemma calm_ranks:
  assumes "calm s t" and "gId (gsGuild s') = gId (gsGuild t)" and "gMembers (gsGuild s') = gMembers (gsGuild t)"
    and "gLeaderGuid (gsGuild s') = gLeaderGuid (gsGuild t)" and "gBankTabs (gsGuild s') = gBankTabs (gsGuild t)"
    and "gBankEventLog (gsGuild s') = gBankEventLog (gsGuild t)" and "gsGuildOf s' = gsGuildOf t" and "gsStore s' = gsStore t" and "gsNextId s' = gsNextId t"
    and "ranks_ok (gRanks (gsGuild t)) \<Longrightarrow> ranks_ok (gRanks (gsGuild s'))"
  shows "calm s s'"
proof -
  have "guild_ok (gsGuild t) \<Longrightarrow> guild_ok (gsGuild s')" using assms(2-) by (simp add: guild_ok_def)
  then show ?thesis using assms(1,2,3,7,8,9) by (simp add: calm_def)
qed

lemma CreateRank_frame [simp]:
  "gId (gsGuild (snd (CreateRank name rights s))) = gId (gsGuild s)"
  "gMembers (gsGuild (snd (CreateRank name rights s))) = gMembers (gsGuild s)"
  "gLeaderGuid (gsGuild (snd (CreateRank name rights s))) = gLeaderGuid (gsGuild s)"
  "gBankTabs (gsGuild (snd (CreateRank name rights s))) = gBankTabs (gsGuild s)"
  "gBankEventLog (gsGuild (snd (CreateRank name rights s))) = gBankEventLog (gsGuild s)"
  "gsGuildOf (snd (CreateRank name rights s)) = gsGuildOf s" "gsStore (snd (CreateRank name rights s)) = gsStore s"
  "gsNextId (snd (CreateRank name rights s)) = gsNextId s"
  by (simp_all add: CreateRank_def Let_def split_def)

lemma ranks_size: "length (gRanks g) \<le> 10 \<Longrightarrow> unat (Guild_GetRanksSize g) = length (gRanks g)"
  by (simp add: Guild_GetRanksSize_def unsigned_of_nat take_bit_nat_eq_self)

lemma calm_HandleAddNewRank: "calm s (HandleAddNewRank E p name s)"
proof (cases "length (gRanks (gsGuild s)) < 10 \<and> 5 \<le> length (gRanks (gsGuild s))")
  case True
  then have "gRanks (gsGuild s) \<noteq> []" by auto
  then have "calm s (snd (CreateRank name (GR_RIGHT_GCHATLISTEN OR GR_RIGHT_GCHATSPEAK) s))"
    using True CreateRank_ranks [of s "GR_RIGHT_GCHATLISTEN OR GR_RIGHT_GCHATSPEAK" name]
    by (intro calm_ranks [OF calm_refl]) (auto simp: ranks_ok_def)
  then show ?thesis by (auto simp: HandleAddNewRank_def Let_def split: prod.splits bool.splits)
next
  case False
  have "calm s (HandleAddNewRank E p name s)" if ok: "ranks_ok (gRanks (gsGuild s))"
  proof -
    have n: "length (gRanks (gsGuild s)) = 10" using ok False by (auto simp: ranks_ok_def ranks_seq_def)
    have "Guild_GetRanksSize (gsGuild s) \<ge> GUILD_RANKS_MAX_COUNT"
      using ranks_size [of "gsGuild s"] n by (simp add: word_le_nat_alt GUILD_RANKS_MAX_COUNT_def)
    then show ?thesis by (simp add: HandleAddNewRank_def)
  qed
  moreover have "calm s (HandleAddNewRank E p name s)" if "\<not> ranks_ok (gRanks (gsGuild s))"
  proof -
    let ?t = "snd (CreateRank name (GR_RIGHT_GCHATLISTEN OR GR_RIGHT_GCHATSPEAK) s)"
    have "calm s ?t" using that by (intro calm_ranks [OF calm_refl]) simp_all
    then show ?thesis by (auto simp: HandleAddNewRank_def Let_def split: prod.splits bool.splits)
  qed
  ultimately show ?thesis by blast
qed

lemma calm_HandleRemoveRank: "calm s (HandleRemoveRank E p r s)"
proof (cases "Guild_GetRanksSize (gsGuild s) \<le> GUILD_RANKS_MIN_COUNT \<or> r \<ge> Guild_GetRanksSize (gsGuild s) \<or> \<not> Guild_IsLeader p (gsGuild s)")
  case False
  have "ranks_ok (butlast (gRanks (gsGuild s)))" if "ranks_ok (gRanks (gsGuild s))"
  proof -
    from that have rs: "ranks_seq (gRanks (gsGuild s))" and "length (gRanks (gsGuild s)) \<le> 10" by (simp_all add: ranks_ok_def ranks_seq_def)
    then have "5 < length (gRanks (gsGuild s))"
      using False ranks_size [of "gsGuild s"] by (simp add: word_le_nat_alt GUILD_RANKS_MIN_COUNT_def not_le)
    then show ?thesis using ranks_seq_butlast [OF rs] by (simp add: ranks_ok_def)
  qed
  then have "calm s (on_guild (\<lambda>g. g\<lparr>gRanks := butlast (gRanks g)\<rparr>) s)" by (intro calm_ranks [OF calm_refl]) simp_all
  then show ?thesis using False by (simp add: HandleRemoveRank_def Let_def calm_def)
qed (simp add: HandleRemoveRank_def)

section \<open>Tabs\<close>

lemma tabs_size: "length (gBankTabs g) \<le> 6 \<Longrightarrow> unat (Guild_GetPurchasedTabsSize g) = length (gBankTabs g)"
  by (simp add: Guild_GetPurchasedTabsSize_def unsigned_of_nat take_bit_nat_eq_self)

lemma tabs_ok_append:
  assumes "tabs_ok i ts" and "length ts < 6" and "tabId = of_nat (length ts)"
  shows "tabs_ok i (ts @ [BankTab_new i tabId])"
  using assms by (auto simp: tabs_ok_def BankTab_new_def GUILD_BANK_MAX_SLOTS_def)

lemma calm_CreateNewBankTab:
  assumes "calm s s'" and "Guild_GetPurchasedTabsSize (gsGuild s') < GUILD_BANK_MAX_TABS"
  shows "calm s (CreateNewBankTab s')"
proof -
  let ?g = "gsGuild s'"
  have "guild_ok (?g\<lparr>gBankTabs := gBankTabs ?g @ [BankTab_new (gId ?g) (Guild_GetPurchasedTabsSize ?g)]\<rparr>)" if "guild_ok ?g"
  proof -
    from that have tabs: "tabs_ok (gId ?g) (gBankTabs ?g)" and "length (gBankTabs ?g) \<le> 6"
      by (simp_all add: guild_ok_def tabs_ok_def)
    then have "length (gBankTabs ?g) < 6" using assms(2) tabs_size [of ?g] by (simp add: word_less_nat_alt GUILD_BANK_MAX_TABS_def)
    from tabs_ok_append [OF tabs this] show ?thesis using that by (simp add: guild_ok_def Guild_GetPurchasedTabsSize_def)
  qed
  then have "calm s' (on_guild (\<lambda>g. g\<lparr>gBankTabs := gBankTabs g @ [BankTab_new (gId g) (Guild_GetPurchasedTabsSize ?g)]\<rparr>) s')"
    by (simp add: calm_def)
  from calm_trans [OF assms(1) this] show ?thesis
    unfolding CreateNewBankTab_def Let_def by (auto intro!: calm_intros)
qed

lemma calm_HandleBuyBankTab: "calm s (HandleBuyBankTab E p tabId s)"
  by (auto simp: HandleBuyBankTab_def Let_def not_le split: option.splits intro!: calm_CreateNewBankTab)

lemma calm_run_tab [calm_intros]:
  assumes "calm s s'"
    and "\<And>t. GetBankTab i (gsGuild s') = Some t \<Longrightarrow> tab_kept t (fst x)"
  shows "calm s (run_tab i x s')"
proof -
  have "guild_ok (upd_tab i (\<lambda>_. fst x) (gsGuild s'))" if "guild_ok (gsGuild s')"
    using that assms(2) by (intro guild_ok_upd_tab) (simp_all add: GetBankTab_def)
  then show ?thesis using assms(1) by (simp add: calm_def gsGuild_run_tab upd_tab_def)
qed

lemma calm_HandleSetBankTabInfo: "calm s (HandleSetBankTabInfo E p tabId name icon s)"
  by (auto simp: HandleSetBankTabInfo_def BankTab_SetInfo_def tab_kept_def split: option.splits intro!: calm_run_tab)

lemma calm_SetBankTabText: "calm s (SetBankTabText E tabId txt s)"
  by (auto simp: SetBankTabText_def BankTab_SetText_def tab_kept_def Let_def split: option.splits intro!: calm_run_tab)

section \<open>Items\<close>

lemma calm_SetItem [calm_intros]: "calm s s' \<Longrightarrow> calm s (SetItem tabId slotId item s')"
  by (auto simp: SetItem_def BankTab_SetItem_def tab_kept_def split: option.splits if_splits intro!: calm_run_tab)

lemma calm_count_item [calm_intros]: "calm s s' \<Longrightarrow> calm s (count_item tabId slotId item n s')"
proof -
  assume "calm s s'"
  moreover have "guild_ok (upd_tab tabId (\<lambda>t. t\<lparr>btItems := (btItems t)[unat slotId := Some (item\<lparr>itCount := n\<rparr>)]\<rparr>) (gsGuild s'))"
    if "guild_ok (gsGuild s')"
    by (rule guild_ok_upd_tab [OF that]) (simp add: tab_kept_def)
  ultimately show ?thesis by (simp add: calm_def count_item_def upd_tab_def)
qed

lemma calm_CloneItem [simp]: "calm s (snd (CloneItem n item s')) = calm s s'"
  by (simp add: CloneItem_def CreateItem_def)

lemma calm_store_at [calm_intros]:
  assumes "calm s s'"
  shows "calm s (store_at tabId item pos clone s')"
proof -
  have "calm s t" if "CloneItem n item s' = (x, t)" for n x t
    using calm_CloneItem [of s n item s'] that assms by simp
  then show ?thesis using assms by (auto simp: store_at_def Let_def split: option.splits prod.splits intro: calm_intros)
qed

lemma calm_store_all [calm_intros]: "calm s s' \<Longrightarrow> calm s (store_all tabId item vec s')"
  by (induction tabId item vec s' rule: store_all.induct) (auto intro: calm_intros)

lemma calm_StoreItem [calm_intros]: "calm s s' \<Longrightarrow> calm s (MoveItemData_StoreItem p d item s')"
  by (auto simp: MoveItemData_StoreItem_def split: option.splits intro: calm_intros)

lemma calm_UpdateMemberWithdrawSlots [calm_intros]: "calm s s' \<Longrightarrow> calm s (UpdateMemberWithdrawSlots guid tabId s')"
  by (auto simp: UpdateMemberWithdrawSlots_def Let_def split: option.splits intro: calm_trans calm_withdraw_member)

lemma calm_RemoveItem [calm_intros]: "calm s s' \<Longrightarrow> calm s (snd (MoveItemData_RemoveItem p other n d s'))"
  by (auto simp: MoveItemData_RemoveItem_def Guild_RemoveItem_def Let_def split: option.splits intro!: calm_intros)

lemma calm_CanStore [simp]: "calm s (snd (snd (MoveItemData_CanStore E p item swap sendError d s'))) = calm s s'"
  by (simp add: MoveItemData_CanStore_def Let_def split_def)

lemma calm_LogMove [simp]:
  "calm s (MoveItemData_LogBankEvent E p from item n d s') = calm s s'"
  "calm s (MoveItemData_LogAction p from item d s') = calm s s'"
  by (simp_all add: MoveItemData_LogBankEvent_def MoveItemData_LogAction_def)

lemma calm_DoItemsMove [calm_intros]: "calm s s' \<Longrightarrow> calm s (snd (snd (snd (DoItemsMove E p sendError n src dst s'))))"
  by (auto simp: DoItemsMove_def Let_def split_def split: option.splits intro!: calm_intros)

lemma calm_InitItem [simp]: "calm s (snd (InitItem E p d s')) = calm s s'"
  by (simp add: InitItem_def split: option.splits)

lemma calm_content_update [simp]: "calm s (SendBankContentUpdate E src dst s') = calm s s'"
  by (simp add: SendBankContentUpdate_def)

lemma calm_MoveItems: "calm s (MoveItems E p src dst n s)"
proof -
  have "calm s (snd (CloneItem k item t))" if "calm s t" for k item t using that by simp
  then show ?thesis
    by (auto simp: MoveItems_def Let_def split_def split: option.splits intro!: calm_intros)
qed

lemma calm_SwapItems: "calm s (SwapItems E p tabId slotId destTabId destSlotId n s)"
  by (simp add: SwapItems_def Let_def calm_MoveItems)

lemma calm_SwapItemsWithInventory: "calm s (SwapItemsWithInventory E p toChar tabId slotId bag slot n s)"
  by (simp add: SwapItemsWithInventory_def Let_def calm_MoveItems)

end
