(* ===== verification/GuildJoin.thy ===== *)
theory GuildJoin
  imports GuildSteps
begin

text \<open>
  Joining, leaving and disbanding: what becomes of the members, of the guild ids of the players and of
  the store, and that disbanding ends.
\<close>

section \<open>Players\<close>

lemma guild_player_inj: "guild_player p \<Longrightarrow> guild_player q \<Longrightarrow> GUID_LOPART p = GUID_LOPART q \<longleftrightarrow> p = q"
  by (metis guild_player_def)

lemma member_player_guid: "member_ok i (k, m) \<Longrightarrow> guild_player (mbGuid m) \<and> GUID_LOPART (mbGuid m) = k"
  by (simp add: member_ok_def guild_player_def)

text \<open>What joining and leaving keep of the guild besides its members.\<close>

definition same_rest :: "guild \<Rightarrow> guild \<Rightarrow> bool" where
  "same_rest g g' \<longleftrightarrow> gId g' = gId g \<and> gRanks g' = gRanks g \<and> gBankTabs g' = gBankTabs g \<and>
     length (gBankEventLog g') = length (gBankEventLog g)"

lemma same_rest_refl [simp]: "same_rest g g"
  by (simp add: same_rest_def)

lemma same_rest_log [simp]: "same_rest g (gsGuild (Guild_LogEvent E ty p1 p2 rank s)) = same_rest g (gsGuild s)"
  by (auto simp: same_rest_def Guild_LogEvent_def Let_def split_def split: option.splits)

lemma same_rest_accounts [simp]: "same_rest g (UpdateAccountsNumber g') = same_rest g g'"
  by (simp add: same_rest_def UpdateAccountsNumber_def)

lemma UpdateAccountsNumber_fields [simp]:
  "gMembers (UpdateAccountsNumber g) = gMembers g" "gLeaderGuid (UpdateAccountsNumber g) = gLeaderGuid g"
  "gId (UpdateAccountsNumber g) = gId g" "gRanks (UpdateAccountsNumber g) = gRanks g"
  "gBankTabs (UpdateAccountsNumber g) = gBankTabs g" "gBankEventLog (UpdateAccountsNumber g) = gBankEventLog g"
  by (simp_all add: UpdateAccountsNumber_def)

lemma guild_ok_rest:
  assumes "same_rest g g'" and "guild_ok g" and "roster_ok (gId g) (gMembers g')" and "leader_ok (gLeaderGuid g') (gMembers g')"
  shows "guild_ok g'"
  using assms by (simp add: guild_ok_def same_rest_def)

section \<open>Joining\<close>

definition joined :: "u32 \<Rightarrow> gst \<Rightarrow> gst \<Rightarrow> bool" where
  "joined k s s' \<longleftrightarrow> (\<exists>m. member_ok (gId (gsGuild s)) (k, m) \<and> mset (gMembers (gsGuild s')) = mset (gMembers (gsGuild s) @ [(k, m)])) \<and>
     same_rest (gsGuild s) (gsGuild s') \<and> gLeaderGuid (gsGuild s') = gLeaderGuid (gsGuild s) \<and>
     gsGuildOf s' = (gsGuildOf s)(k := gId (gsGuild s)) \<and> gsStore s' = gsStore s \<and> gsNextId s' = gsNextId s"

lemma upd_member_fresh:
  assumes "k \<notin> fst ` set ms" and "mset (gMembers g) = mset (ms @ [(k, m)])"
  shows "mset (gMembers (upd_member k f g)) = mset (ms @ [(k, f m)])"
proof -
  let ?u = "\<lambda>(j, m). if j = k then (j, f m) else (j, m)"
  have "image_mset ?u (mset ms) = image_mset id (mset ms)"
    using assms(1) by (intro image_mset_cong) (force split: if_splits)
  then show ?thesis by (simp add: upd_member_def assms(2))
qed

lemma joined_upd:
  assumes "joined k s s'" and "k \<notin> keys (gsGuild s)" and "place_kept f"
  shows "joined k s (on_guild (upd_member k f) s')"
proof -
  from assms(1) obtain m where m: "member_ok (gId (gsGuild s)) (k, m)"
    "mset (gMembers (gsGuild s')) = mset (gMembers (gsGuild s) @ [(k, m)])" by (auto simp: joined_def)
  have "member_ok (gId (gsGuild s)) (k, f m)" using m(1) assms(3) by (simp add: member_ok_def place_kept_def)
  with upd_member_fresh [OF assms(2) m(2), of f] show ?thesis
    using assms(1) by (auto simp: joined_def same_rest_def)
qed

lemma joined_quiet [simp]:
  "joined k s (out e s') = joined k s s'" "joined k s (sql t s') = joined k s s'" "joined k s (hook h s') = joined k s s'"
  "joined k s (Guild_BroadcastEvent E ev guid params s') = joined k s s'"
  "joined k s (Guild_LogEvent E ty p1 p2 rank s') = joined k s s'"
  "joined k s (on_guild UpdateAccountsNumber s') = joined k s s'"
  "joined k s (send_session p opcode data s') = joined k s s'"
  "joined k s (SendBankTabsInfo E p allSlots s') = joined k s s'" "joined k s (HandleRoster E p s') = joined k s s'"
  by (simp_all add: joined_def)

lemma put_member_id [simp]: "gId (put_member E k m g) = gId g"
  by (simp add: put_member_def)

lemma joined_put_member:
  assumes "genv_ok E" and "k \<notin> keys (gsGuild s)" and "member_ok (gId (gsGuild s)) (k, m)"
  shows "joined k s (s\<lparr>gsGuild := put_member E k m (gsGuild s), gsGuildOf := (gsGuildOf s)(k := gId (gsGuild s))\<rparr>)"
proof -
  have "map_of (gMembers (gsGuild s)) k = None" using assms(2) by (simp add: map_of_eq_None_iff)
  then show ?thesis using assms by (auto simp: joined_def put_member_def genv_ok_def same_rest_def)
qed

lemma joined_login:
  assumes "joined (GUID_LOPART p) s s'" and "GUID_LOPART p \<notin> keys (gsGuild s)"
  shows "joined (GUID_LOPART p) s (SendLoginInfo E p s')"
  using assms by (auto simp: SendLoginInfo_def Let_def split: option.splits intro!: joined_upd)

lemma Member_new_ok: "guild_player guid \<Longrightarrow> member_ok i (GUID_LOPART guid, Member_new E i guid r)"
  by (simp add: member_ok_def guild_player_def Member_new_def GUILD_BANK_MAX_TABS_def)

lemma member_ok_stats: "member_ok i (k, m) \<Longrightarrow> member_ok i (k, Member_SetStats x (Member_ResetFlags m))"
  by (simp add: member_ok_def Member_SetStats_def Member_ResetFlags_def)

lemma AddMember_joined:
  assumes "genv_ok E" and "guild_player guid" and "GUID_LOPART guid \<notin> keys (gsGuild s)"
    and "Guild_AddMember E guid rankId s = (ok, s')"
  shows "if ok then joined (GUID_LOPART guid) s s' else calm s s'"
proof -
  let ?k = "GUID_LOPART guid" and ?i = "gId (gsGuild s)" and ?s = "out (GRemovePetitions guid) s"
  let ?r = "if rankId = GUILD_RANK_NONE then Guild_GetLowestRankId (gsGuild s) else rankId"
  let ?m = "Member_new E ?i guid ?r"
  have new: "member_ok ?i (?k, ?m)" by (rule Member_new_ok [OF assms(2)])
  have jq: "joined ?k s t \<longleftrightarrow> joined ?k ?s t" for t by (simp add: joined_def)
  have on: "joined ?k s (SendLoginInfo E guid (on_guild (upd_member ?k (Member_SetStats x))
      ((SetInGuild guid ?i (on_guild (put_member E ?k ?m) ?s))\<lparr>gsInvited := a, gsRankOf := b\<rparr>)))" for x a b
  proof (intro joined_login joined_upd)
    have "joined ?k ?s (?s\<lparr>gsGuild := put_member E ?k ?m (gsGuild ?s), gsGuildOf := (gsGuildOf ?s)(?k := gId (gsGuild ?s))\<rparr>)"
      using assms(3) new by (intro joined_put_member [OF assms(1)]) simp_all
    then show "joined ?k s ((SetInGuild guid ?i (on_guild (put_member E ?k ?m) ?s))\<lparr>gsInvited := a, gsRankOf := b\<rparr>)"
      by (simp add: joined_def SetInGuild_def)
  qed (use assms(3) in simp_all)
  have off: "joined ?k s (UpdateGlobalPlayerGuild E ?k ?i (on_guild (put_member E ?k (Member_SetStats x (Member_ResetFlags ?m))) ?s))" for x
  proof -
    have "joined ?k ?s (?s\<lparr>gsGuild := put_member E ?k (Member_SetStats x (Member_ResetFlags ?m)) (gsGuild ?s),
        gsGuildOf := (gsGuildOf ?s)(?k := gId (gsGuild ?s))\<rparr>)"
      using assms(3) member_ok_stats [OF new] by (intro joined_put_member [OF assms(1)]) simp_all
    then show ?thesis using assms(1) by (simp add: joined_def UpdateGlobalPlayerGuild_def genv_ok_def)
  qed
  show ?thesis using assms(4) on off
    by (auto simp: Guild_AddMember_def Let_def split: if_splits option.splits)
qed

lemma joined_kept:
  assumes "joined k s s'" and "gsGuildOf s k = 0" and "focus_ok i s"
  shows "kept i s s'"
proof -
  from assms(3) have i: "i \<noteq> 0" "gId (gsGuild s) = i" "guild_ok (gsGuild s)" and of: "\<And>k. k \<in> keys (gsGuild s) \<longleftrightarrow> gsGuildOf s k = i"
    by (simp_all add: focus_ok_def)
  from assms(1) obtain m where m: "member_ok i (k, m)" and ms: "mset (gMembers (gsGuild s')) = mset (gMembers (gsGuild s) @ [(k, m)])"
    and rest: "same_rest (gsGuild s) (gsGuild s')" "gLeaderGuid (gsGuild s') = gLeaderGuid (gsGuild s)"
      "gsGuildOf s' = (gsGuildOf s)(k := i)" "gsStore s' = gsStore s" "gsNextId s' = gsNextId s"
    using i(2) by (auto simp: joined_def)
  from ms have set: "set (gMembers (gsGuild s')) = insert (k, m) (set (gMembers (gsGuild s)))"
    by (metis insert_is_Un list.simps(15) mset_append mset_eq_setD set_append set_mset_mset sup_commute empty_set)
  have "distinct (map fst (gMembers (gsGuild s) @ [(k, m)]))"
    using i(1,3) of assms(2) by (auto simp: guild_ok_def roster_ok_def)
  then have "distinct (map fst (gMembers (gsGuild s')))" using ms by (metis mset_eq_imp_distinct_iff mset_map)
  then have "guild_ok (gsGuild s')"
    using i set m rest by (intro guild_ok_rest [OF rest(1)]) (auto simp: guild_ok_def roster_ok_def leader_ok_def list_all_iff)
  then show ?thesis using rest set i of assms(2) by (auto simp: kept_def focus_ok_def same_rest_def)
qed

section \<open>Leaving\<close>

lemma erase_guild_member_members [simp]:
  "gMembers (gsGuild (erase_guild_member E guid d kicked s)) = filter (\<lambda>(k, m). k \<noteq> GUID_LOPART guid) (gMembers (gsGuild s))"
  by (simp add: erase_guild_member_def Let_def SetInGuild_def UpdateGlobalPlayerGuild_def)

lemma erase_guild_member_rest [simp]:
  "same_rest g (gsGuild (erase_guild_member E guid d kicked s)) = same_rest g (gsGuild s)"
  "gLeaderGuid (gsGuild (erase_guild_member E guid d kicked s)) = gLeaderGuid (gsGuild s)"
  "gId (gsGuild (erase_guild_member E guid d kicked s)) = gId (gsGuild s)"
  "gsStore (erase_guild_member E guid d kicked s) = gsStore s" "gsNextId (erase_guild_member E guid d kicked s) = gsNextId s"
  by (simp_all add: erase_guild_member_def Let_def SetInGuild_def UpdateGlobalPlayerGuild_def same_rest_def)

lemma erase_guild_member_guild_of:
  "genv_ok E \<Longrightarrow> gsGuildOf (erase_guild_member E guid d kicked s) = (gsGuildOf s)(GUID_LOPART guid := 0)"
  by (simp add: erase_guild_member_def Let_def SetInGuild_def UpdateGlobalPlayerGuild_def genv_ok_def)

lemma roster_ok_filter: "roster_ok i ms \<Longrightarrow> roster_ok i (filter P ms)"
  by (auto simp: roster_ok_def list_all_iff distinct_map_filter)

lemma calm_kept_trans: "calm s t \<Longrightarrow> kept i t s' \<Longrightarrow> kept i s s'"
  by (simp add: kept_def calm_def)

lemma focus_calm: "focus_ok i s \<Longrightarrow> calm s t \<Longrightarrow> focus_ok i t"
  by (simp add: focus_ok_def calm_def)

lemma leader_player_guid:
  assumes "guild_ok g"
  shows "guild_player (gLeaderGuid g) \<and> GUID_LOPART (gLeaderGuid g) \<in> keys g"
proof -
  from assms obtain k m where "(k, m) \<in> set (gMembers g)" "gLeaderGuid g = mbGuid m" by (auto simp: guild_ok_def leader_ok_def)
  then show ?thesis using member_player_guid [OF guild_ok_member [OF assms]] by (metis fst_conv image_eqI)
qed

lemma kept_erase:
  assumes "genv_ok E" and "focus_ok i s" and "guild_player guid" and "gLeaderGuid (gsGuild s) \<noteq> guid"
    and "gsGuildOf s (GUID_LOPART guid) \<in> {0, i}"
  shows "kept i s (erase_guild_member E guid d kicked s)"
proof -
  let ?t = "erase_guild_member E guid d kicked s"
  from assms(2) have ok: "guild_ok (gsGuild s)" and of: "\<And>k. k \<in> keys (gsGuild s) \<longleftrightarrow> gsGuildOf s k = i" and "i \<noteq> 0"
    by (simp_all add: focus_ok_def)
  have "GUID_LOPART (gLeaderGuid (gsGuild s)) \<noteq> GUID_LOPART guid"
    using leader_player_guid [OF ok] assms(3,4) guild_player_inj by blast
  moreover from ok obtain x where x: "x \<in> set (gMembers (gsGuild s))" "mbGuid (snd x) = gLeaderGuid (gsGuild s)"
    by (auto simp: guild_ok_def leader_ok_def)
  moreover have "fst x = GUID_LOPART (gLeaderGuid (gsGuild s))"
    using x guild_ok_member [OF ok, of "fst x" "snd x"] member_player_guid by (metis prod.collapse)
  ultimately have "leader_ok (gLeaderGuid (gsGuild ?t)) (gMembers (gsGuild ?t))" by (force simp: leader_ok_def)
  then have "guild_ok (gsGuild ?t)"
    using ok by - (rule guild_ok_rest [OF _ ok], simp_all add: guild_ok_def roster_ok_filter)
  moreover have "keys (gsGuild ?t) = keys (gsGuild s) - {GUID_LOPART guid}" by force
  moreover have "k \<in> keys (gsGuild s) - {GUID_LOPART guid} \<longleftrightarrow> gsGuildOf ?t k = i" for k
    using of [of k] \<open>i \<noteq> 0\<close> by (simp add: erase_guild_member_guild_of [OF assms(1)])
  ultimately have "focus_ok i ?t" using assms(2) \<open>i \<noteq> 0\<close> by (simp add: focus_ok_def)
  then show ?thesis using assms(5) by (simp add: kept_def erase_guild_member_guild_of [OF assms(1)])
qed

section \<open>Disbanding\<close>

lemma disband_loop_ends:
  assumes "genv_ok E" and "roster_ok (gId (gsGuild s)) (gMembers (gsGuild s))"
  shows "\<exists>s'. disband_loop E s = Some s' \<and> gMembers (gsGuild s') = [] \<and> gsStore s' = gsStore s \<and>
    gsNextId s' = gsNextId s \<and> gId (gsGuild s') = gId (gsGuild s) \<and> gsGuildOf s' = (\<lambda>k. if k \<in> keys (gsGuild s) then 0 else gsGuildOf s k)"
  using assms(2)
proof (induction "gMembers (gsGuild s)" arbitrary: s)
  case Nil
  then show ?case by (subst disband_loop.simps) simp
next
  case (Cons x ms)
  obtain k m where x: "x = (k, m)" by fastforce
  let ?t = "erase_guild_member E (mbGuid m) True False s"
  have low: "GUID_LOPART (mbGuid m) = k" and "k \<notin> fst ` set ms" and ok: "roster_ok (gId (gsGuild s)) ms"
    using Cons.prems Cons.hyps(2) x member_player_guid by (auto simp: roster_ok_def simp flip: Cons.hyps(2))
  then have ms: "gMembers (gsGuild ?t) = ms"
    using x \<open>k \<notin> fst ` set ms\<close> by (auto simp flip: Cons.hyps(2) intro!: filter_True) (metis fst_conv image_eqI)
  with Cons.hyps(1) [of ?t] ok obtain s' where s': "disband_loop E ?t = Some s'" "gMembers (gsGuild s') = []"
    "gsStore s' = gsStore s" "gsNextId s' = gsNextId s" "gId (gsGuild s') = gId (gsGuild s)"
    "gsGuildOf s' = (\<lambda>k. if k \<in> fst ` set ms then 0 else gsGuildOf ?t k)" by auto
  have "disband_loop E s = Some s'" using s'(1) x by (subst disband_loop.simps) (simp flip: Cons.hyps(2))
  moreover have "gsGuildOf s' = (\<lambda>k. if k \<in> keys (gsGuild s) then 0 else gsGuildOf s k)"
    using s'(6) x low by (auto simp: erase_guild_member_guild_of [OF assms(1)] fun_eq_iff simp flip: Cons.hyps(2))
  ultimately show ?case using s' by blast
qed

lemma DeleteBankItems_frame [simp]:
  "gsNextId (DeleteBankItems r s) = gsNextId s" "gsStore (DeleteBankItems r s) = gsStore s" "gsGuildOf (DeleteBankItems r s) = gsGuildOf s"
  "gMembers (gsGuild (DeleteBankItems r s)) = gMembers (gsGuild s)" "gId (gsGuild (DeleteBankItems r s)) = gId (gsGuild s)"
  "gBankTabs (gsGuild (DeleteBankItems r s)) = []"
  by (simp_all add: DeleteBankItems_def Let_def)

lemma disband_ends:
  assumes "genv_ok E" and "roster_ok (gId (gsGuild s)) (gMembers (gsGuild s))"
  obtains s' where "Guild_Disband E s = Some s'" and "gMembers (gsGuild s') = []" and "gBankTabs (gsGuild s') = []"
    and "gsStore s' = filter (\<lambda>(j, g). j \<noteq> gId (gsGuild s)) (gsStore s)"
    and "gsGuildOf s' = (\<lambda>k. if k \<in> keys (gsGuild s) then 0 else gsGuildOf s k)"
    and "gId (gsGuild s') = gId (gsGuild s)" and "gsNextId s' = gsNextId s"
proof -
  let ?s = "Guild_BroadcastEvent E GE_DISBANDED 0 [] (hook OnGuildDisband s)"
  have "\<exists>t. disband_loop E ?s = Some t \<and> gMembers (gsGuild t) = [] \<and> gsStore t = gsStore s \<and> gsNextId t = gsNextId s \<and> gId (gsGuild t) = gId (gsGuild s) \<and>
      gsGuildOf t = (\<lambda>k. if k \<in> keys (gsGuild s) then 0 else gsGuildOf s k)"
    using disband_loop_ends [OF assms(1), of ?s] assms(2) by (simp cong: if_cong)
  then obtain t where t: "disband_loop E ?s = Some t" "gMembers (gsGuild t) = []" "gsStore t = gsStore s"
    "gsNextId t = gsNextId s" "gId (gsGuild t) = gId (gsGuild s)" "gsGuildOf t = (\<lambda>k. if k \<in> keys (gsGuild s) then 0 else gsGuildOf s k)" by blast
  show ?thesis
    by (rule that [of "disband_rows t"])
      (use t in \<open>simp_all add: Guild_Disband_def Let_def disband_rows_def GuildMgr_RemoveGuild_def\<close>)
qed

lemma focus_members: "focus_ok i s \<Longrightarrow> roster_ok (gId (gsGuild s)) (gMembers (gsGuild s))"
  unfolding focus_ok_def guild_ok_def by blast

lemma kept_disband:
  assumes "genv_ok E" and "focus_ok i s"
  obtains s' where "Guild_Disband E s = Some s'" and "kept i s s'"
proof -
  from disband_ends [OF assms(1) focus_members [OF assms(2)]] obtain s' where s': "Guild_Disband E s = Some s'" "gsNextId s' = gsNextId s"
    "gsStore s' = filter (\<lambda>(j, g). j \<noteq> gId (gsGuild s)) (gsStore s)"
    "gsGuildOf s' = (\<lambda>k. if k \<in> keys (gsGuild s) then 0 else gsGuildOf s k)" by blast
  have "kept i s s'" using assms(2) s'(2-) by (auto simp: kept_def focus_ok_def)
  with s'(1) show ?thesis by (rule that)
qed

section \<open>The leader's successor\<close>

lemma new_leader_spec:
  "case new_leader low ms best of
     None \<Rightarrow> best = None \<and> (\<forall>(k, m)\<in>set ms. k = low)
   | Some (k, m) \<Rightarrow> (Some (k, m) = best \<or> (k, m) \<in> set ms \<and> k \<noteq> low) \<and>
       (\<forall>(k', m')\<in>set ms. k' \<noteq> low \<longrightarrow> mbRankId m \<le> mbRankId m') \<and>
       (\<forall>k' m'. best = Some (k', m') \<longrightarrow> mbRankId m \<le> mbRankId m')"
proof (induction low ms best rule: new_leader.induct)
  case (2 low k m ms best)
  show ?case
  proof (cases "k = low")
    case True
    then show ?thesis using 2 by (auto split: option.splits)
  next
    case k: False
    show ?thesis
    proof (cases best)
      case None
      then show ?thesis using 2 k by (auto split: option.splits)
    next
      case (Some b)
      then show ?thesis using 2 k by (cases b) (auto split: option.splits if_splits)
    qed
  qed
qed (simp split: option.splits)

lemma new_leader_None: "new_leader low ms None = None \<longleftrightarrow> (\<forall>x\<in>set ms. fst x = low)"
  using new_leader_spec [where low = low and ms = ms and best = None] by (auto split: option.splits) force

lemma new_leader_Some:
  assumes "new_leader low ms None = Some (k, m)"
  shows "(k, m) \<in> set ms" and "k \<noteq> low" and "(k', m') \<in> set ms \<Longrightarrow> k' \<noteq> low \<Longrightarrow> mbRankId m \<le> mbRankId m'"
  using new_leader_spec [where low = low and ms = ms and best = None] assms by auto

lemma kept_DeleteMember:
  assumes "genv_ok E" and "focus_ok i s" and "guild_player guid" and "gsGuildOf s (GUID_LOPART guid) = i"
  obtains s' where "Guild_DeleteMember E guid False kicked s = Some s'" and "kept i s s'"
proof (cases "gLeaderGuid (gsGuild s) = guid")
  case False
  show ?thesis
    by (rule that [of "erase_guild_member E guid False kicked s"])
      (use False kept_erase [OF assms(1-3) False] assms(4) in \<open>simp_all add: Guild_DeleteMember_def\<close>)
next
  case True
  show ?thesis
  proof (cases "new_leader (GUID_LOPART guid) (gMembers (gsGuild s)) None")
    case None
    from kept_disband [OF assms(1,2)] obtain s' where "Guild_Disband E s = Some s'" "kept i s s'" .
    then show ?thesis using True None by (intro that [of s']) (simp_all add: Guild_DeleteMember_def)
  next
    case (Some x)
    obtain k m where x: "x = (k, m)" by fastforce
    note new = new_leader_Some [OF Some [unfolded x]]
    let ?t = "case map_of (gMembers (gsGuild s)) (GUID_LOPART guid) of
        Some oldm \<Rightarrow> Guild_BroadcastEvent E GE_LEFT guid [mbName oldm]
          (Guild_BroadcastEvent E GE_LEADER_CHANGED 0 [mbName oldm, mbName m]
            (if geOnline E (mbGuid m) then (SetLeaderGUID E k m s)\<lparr>gsRankOf := (gsRankOf (SetLeaderGUID E k m s))(mbGuid m := GR_GUILDMASTER)\<rparr>
             else SetLeaderGUID E k m s))
      | None \<Rightarrow> if geOnline E (mbGuid m) then (SetLeaderGUID E k m s)\<lparr>gsRankOf := (gsRankOf (SetLeaderGUID E k m s))(mbGuid m := GR_GUILDMASTER)\<rparr>
             else SetLeaderGUID E k m s"
    have calm: "calm s ?t" using calm_SetLeaderGUID [OF calm_refl new(1)] by (auto split: option.splits)
    have "gLeaderGuid (gsGuild ?t) = mbGuid m"
      by (auto simp: SetLeaderGUID_def Member_ChangeRank_def Let_def split: option.splits)
    moreover have "GUID_LOPART (mbGuid m) = k"
      using assms(2) member_player_guid [OF guild_ok_member [OF _ new(1)]] by (simp add: focus_ok_def)
    ultimately have "gLeaderGuid (gsGuild ?t) \<noteq> guid" using new(2) by auto
    moreover have "gsGuildOf ?t (GUID_LOPART guid) \<in> {0, i}" using calm assms(4) by (simp add: calm_def)
    ultimately have "kept i ?t (erase_guild_member E guid False kicked ?t)"
      using assms(1,3) focus_calm [OF assms(2) calm] by (intro kept_erase)
    from that [OF _ calm_kept_trans [OF calm this]] show ?thesis
      using True Some x by (simp add: Guild_DeleteMember_def Let_def)
  qed
qed

end
