(* ===== verification/GuildHandlers.thy ===== *)
theory GuildHandlers
  imports GuildCommands ByteBuffer
begin

text \<open>
  The packets a client sends about its guild, src/src/server/game/Handlers/GuildHandler.cpp: every
  handler reads its fields from the buffer, finds the guild of the player in the manager's store and
  calls its operation. A read past the end throws: the handler ends with the error and the state as it is
  at that point. A handler whose operation does not return is \<^const>\<open>None\<close>.
\<close>

type_synonym gResult = "(gst \<times> bb_error option) option"

definition g_reading :: "'a bb \<Rightarrow> gst \<Rightarrow> ('a \<Rightarrow> gResult) \<Rightarrow> gResult" where
  "g_reading m s f = (case m of Inl e \<Rightarrow> Some (s, Some e) | Inr x \<Rightarrow> f x)"

definition g_done :: "gst option \<Rightarrow> gResult" where
  "g_done x = map_option (\<lambda>s. (s, None)) x"

definition Player_GetGuild :: "u64 \<Rightarrow> gst \<Rightarrow> guild option" where
  "Player_GetGuild p s =
     (let guildId = gsGuildOf s (GUID_LOPART p) in if guildId \<noteq> 0 then GetGuildById guildId s else None)"

text \<open>An operation on the guild of the player, when there is one.\<close>

definition on_my_guild :: "u64 \<Rightarrow> (gst \<Rightarrow> gst option) \<Rightarrow> gst \<Rightarrow> gst option" where
  "on_my_guild p f s =
     (case Player_GetGuild p s of
        Some _ \<Rightarrow> with_guild (gsGuildOf s (GUID_LOPART p)) f s
      | None \<Rightarrow> Some s)"

text \<open>An operation with a player's name in it, which is normalised first.\<close>

definition on_named :: "gEnv \<Rightarrow> u64 \<Rightarrow> string \<Rightarrow> (string \<Rightarrow> gst \<Rightarrow> gst option) \<Rightarrow> gst \<Rightarrow> gResult" where
  "on_named E p name f s =
     g_done (case geNormalize E name of Some name \<Rightarrow> on_my_guild p (f name) s | None \<Rightarrow> Some s)"

section \<open>Guild\<close>

definition HandleGuildQueryOpcode :: "u64 \<Rightarrow> byteBuffer \<Rightarrow> gst \<Rightarrow> gResult" where
  "HandleGuildQueryOpcode p b s =
     g_reading (bb_get b) s (\<lambda>(guildId :: u32, b).
       g_done (if guildId = 0 then Some s else with_guild guildId (\<lambda>s. Some (HandleQuery p s)) s))"

text \<open>Making a guild by a packet is only logged, as an attempt to cheat.\<close>

definition HandleGuildCreateOpcode :: "u64 \<Rightarrow> byteBuffer \<Rightarrow> gst \<Rightarrow> gResult" where
  "HandleGuildCreateOpcode p b s = g_reading (bb_read_string b) s (\<lambda>(name, b). g_done (Some s))"

definition HandleGuildInviteOpcode :: "gEnv \<Rightarrow> u64 \<Rightarrow> byteBuffer \<Rightarrow> gst \<Rightarrow> gResult" where
  "HandleGuildInviteOpcode E p b s =
     g_reading (bb_read_string b) s (\<lambda>(invitedName, b).
       on_named E p invitedName (\<lambda>name s. Some (HandleInviteMember E p name s)) s)"

definition HandleGuildRemoveOpcode :: "gEnv \<Rightarrow> u64 \<Rightarrow> byteBuffer \<Rightarrow> gst \<Rightarrow> gResult" where
  "HandleGuildRemoveOpcode E p b s =
     g_reading (bb_read_string b) s (\<lambda>(playerName, b). on_named E p playerName (HandleRemoveMember E p) s)"

definition HandleGuildAcceptOpcode :: "gEnv \<Rightarrow> u64 \<Rightarrow> gst \<Rightarrow> gst option" where
  "HandleGuildAcceptOpcode E p s =
     (if gsGuildOf s (GUID_LOPART p) = 0 then with_guild (gsInvited s p) (\<lambda>s. Some (HandleAcceptMember E p s)) s else Some s)"

definition HandleGuildDeclineOpcode :: "u64 \<Rightarrow> gst \<Rightarrow> gst" where
  "HandleGuildDeclineOpcode p s = SetInGuild p 0 (s\<lparr>gsInvited := (gsInvited s)(p := 0)\<rparr>)"

definition HandleGuildInfoOpcode :: "gEnv \<Rightarrow> u64 \<Rightarrow> gst \<Rightarrow> gst option" where
  "HandleGuildInfoOpcode E p s = on_my_guild p (\<lambda>s. Some (Guild_SendInfo E p s)) s"

definition HandleGuildRosterOpcode :: "gEnv \<Rightarrow> u64 \<Rightarrow> gst \<Rightarrow> gst option" where
  "HandleGuildRosterOpcode E p s =
     (case Player_GetGuild p s of
        Some _ \<Rightarrow> on_my_guild p (\<lambda>s. Some (HandleRoster E p s)) s
      | None \<Rightarrow> Some (SendCommandResult p GUILD_COMMAND_ROSTER ERR_GUILD_PLAYER_NOT_IN_GUILD '''' s))"

definition HandleGuildPromoteOpcode :: "gEnv \<Rightarrow> u64 \<Rightarrow> byteBuffer \<Rightarrow> gst \<Rightarrow> gResult" where
  "HandleGuildPromoteOpcode E p b s =
     g_reading (bb_read_string b) s (\<lambda>(playerName, b).
       on_named E p playerName (\<lambda>name s. Some (HandleUpdateMemberRank E p name False s)) s)"

definition HandleGuildDemoteOpcode :: "gEnv \<Rightarrow> u64 \<Rightarrow> byteBuffer \<Rightarrow> gst \<Rightarrow> gResult" where
  "HandleGuildDemoteOpcode E p b s =
     g_reading (bb_read_string b) s (\<lambda>(playerName, b).
       on_named E p playerName (\<lambda>name s. Some (HandleUpdateMemberRank E p name True s)) s)"

definition HandleGuildLeaveOpcode :: "gEnv \<Rightarrow> u64 \<Rightarrow> gst \<Rightarrow> gst option" where
  "HandleGuildLeaveOpcode E p s = on_my_guild p (HandleLeaveMember E p) s"

definition HandleGuildDisbandOpcode :: "gEnv \<Rightarrow> u64 \<Rightarrow> gst \<Rightarrow> gst option" where
  "HandleGuildDisbandOpcode E p s = on_my_guild p (HandleDisband E p) s"

definition HandleGuildLeaderOpcode :: "gEnv \<Rightarrow> u64 \<Rightarrow> byteBuffer \<Rightarrow> gst \<Rightarrow> gResult" where
  "HandleGuildLeaderOpcode E p b s =
     g_reading (bb_read_string b) s (\<lambda>(name, b). on_named E p name (\<lambda>name s. Some (HandleSetLeader E p name s)) s)"

definition HandleGuildMOTDOpcode :: "gEnv \<Rightarrow> u64 \<Rightarrow> byteBuffer \<Rightarrow> gst \<Rightarrow> gResult" where
  "HandleGuildMOTDOpcode E p b s =
     g_reading (bb_read_string b) s (\<lambda>(motd, b). g_done (on_my_guild p (\<lambda>s. Some (HandleSetMOTD E p motd s)) s))"

definition HandleGuildSetPublicNoteOpcode :: "gEnv \<Rightarrow> u64 \<Rightarrow> byteBuffer \<Rightarrow> gst \<Rightarrow> gResult" where
  "HandleGuildSetPublicNoteOpcode E p b s =
     g_reading (bb_read_string b) s (\<lambda>(playerName, b).
     g_reading (bb_read_string b) s (\<lambda>(txt, b).
       on_named E p playerName (\<lambda>name s. Some (HandleSetMemberNote E p name txt True s)) s))"

definition HandleGuildSetOfficerNoteOpcode :: "gEnv \<Rightarrow> u64 \<Rightarrow> byteBuffer \<Rightarrow> gst \<Rightarrow> gResult" where
  "HandleGuildSetOfficerNoteOpcode E p b s =
     g_reading (bb_read_string b) s (\<lambda>(playerName, b).
     g_reading (bb_read_string b) s (\<lambda>(txt, b).
       on_named E p playerName (\<lambda>name s. Some (HandleSetMemberNote E p name txt False s)) s))"

text \<open>The rights of the tabs from \<open>tabId\<close> on; the rights are cut to a byte.\<close>

fun read_bank_rights :: "nat \<Rightarrow> nat \<Rightarrow> byteBuffer \<Rightarrow> (bankRights list \<times> byteBuffer) bb" where
  "read_bank_rights tabId 0 b = Inr ([], b)"
| "read_bank_rights tabId (Suc n) b =
     bindE (bb_get b) (\<lambda>(rights :: u32, b).
     bindE (bb_get b) (\<lambda>(slots :: u32, b).
     bindE (read_bank_rights (Suc tabId) n b) (\<lambda>(rest, b).
       Inr (\<lparr>brTabId = of_nat tabId, brRights = ucast rights, brSlots = slots\<rparr> # rest, b))))"

definition HandleGuildRankOpcode :: "gEnv \<Rightarrow> u64 \<Rightarrow> byteBuffer \<Rightarrow> gst \<Rightarrow> gResult" where
  "HandleGuildRankOpcode E p b s =
     g_reading (bb_get b) s (\<lambda>(rankId :: u32, b).
     g_reading (bb_get b) s (\<lambda>(rights :: u32, b).
     g_reading (bb_read_string b) s (\<lambda>(rankName, b).
     g_reading (bb_get b) s (\<lambda>(money :: u32, b).
       case Player_GetGuild p s of
         None \<Rightarrow> g_done (Some s)
       | Some _ \<Rightarrow>
           g_reading (read_bank_rights 0 (unat GUILD_BANK_MAX_TABS) b) s (\<lambda>(rightsAndSlots, b).
             g_done (on_my_guild p (\<lambda>s. Some (HandleSetRankInfo E p (ucast rankId) rankName rights money rightsAndSlots s)) s))))))"

definition HandleGuildAddRankOpcode :: "gEnv \<Rightarrow> u64 \<Rightarrow> byteBuffer \<Rightarrow> gst \<Rightarrow> gResult" where
  "HandleGuildAddRankOpcode E p b s =
     g_reading (bb_read_string b) s (\<lambda>(rankName, b). g_done (on_my_guild p (\<lambda>s. Some (HandleAddNewRank E p rankName s)) s))"

definition HandleGuildDelRankOpcode :: "gEnv \<Rightarrow> u64 \<Rightarrow> gst \<Rightarrow> gst option" where
  "HandleGuildDelRankOpcode E p s = on_my_guild p (\<lambda>s. Some (HandleRemoveLowestRank E p s)) s"

definition HandleGuildChangeInfoTextOpcode :: "u64 \<Rightarrow> byteBuffer \<Rightarrow> gst \<Rightarrow> gResult" where
  "HandleGuildChangeInfoTextOpcode p b s =
     g_reading (bb_read_string b) s (\<lambda>(info, b). g_done (on_my_guild p (\<lambda>s. Some (HandleSetInfo p info s)) s))"

definition EmblemInfo_ReadPacket :: "byteBuffer \<Rightarrow> (emblemInfo \<times> byteBuffer) bb" where
  "EmblemInfo_ReadPacket b =
     bindE (bb_get b) (\<lambda>(style, b).
     bindE (bb_get b) (\<lambda>(color, b).
     bindE (bb_get b) (\<lambda>(borderStyle, b).
     bindE (bb_get b) (\<lambda>(borderColor, b).
     bindE (bb_get b) (\<lambda>(background, b).
       Inr (\<lparr>emStyle = style, emColor = color, emBorderStyle = borderStyle, emBorderColor = borderColor,
             emBackgroundColor = background\<rparr>, b))))))"

definition HandleSaveGuildEmblemOpcode :: "gEnv \<Rightarrow> u64 \<Rightarrow> byteBuffer \<Rightarrow> gst \<Rightarrow> gResult" where
  "HandleSaveGuildEmblemOpcode E p b s =
     g_reading (bb_get b) s (\<lambda>(vendorGuid :: u64, b).
     g_reading (EmblemInfo_ReadPacket b) s (\<lambda>(emblem, b).
       g_done (if geTabardDesigner E p vendorGuid
         then let s = (if geFeignsDeath E p then out (GRemoveFeignDeath p) s else s)
              in case Player_GetGuild p s of
                   Some _ \<Rightarrow> on_my_guild p (\<lambda>s. Some (HandleSetEmblem E p emblem s)) s
                 | None \<Rightarrow> Some (SendSaveEmblemResult p ERR_GUILDEMBLEM_NOGUILD s)
         else Some (SendSaveEmblemResult p ERR_GUILDEMBLEM_INVALIDVENDOR s))))"

definition HandleGuildEventLogQueryOpcode :: "gEnv \<Rightarrow> u64 \<Rightarrow> gst \<Rightarrow> gst option" where
  "HandleGuildEventLogQueryOpcode E p s = on_my_guild p (\<lambda>s. Some (SendEventLog E p s)) s"

section \<open>Bank\<close>

definition HandleGuildBankMoneyWithdrawn :: "u64 \<Rightarrow> gst \<Rightarrow> gst option" where
  "HandleGuildBankMoneyWithdrawn p s = on_my_guild p (\<lambda>s. Some (SendMoneyInfo p s)) s"

definition HandleGuildPermissions :: "u64 \<Rightarrow> gst \<Rightarrow> gst option" where
  "HandleGuildPermissions p s = on_my_guild p (\<lambda>s. Some (SendPermissions p s)) s"

definition HandleGuildBankerActivate :: "gEnv \<Rightarrow> u64 \<Rightarrow> byteBuffer \<Rightarrow> gst \<Rightarrow> gResult" where
  "HandleGuildBankerActivate E p b s =
     g_reading (bb_get b) s (\<lambda>(guid :: u64, b).
     g_reading (bb_read_bool b) s (\<lambda>(sendAllSlots, b).
       g_done (case Player_GetGuild p s of
           None \<Rightarrow> Some (SendCommandResult p GUILD_COMMAND_VIEW_TAB ERR_GUILD_PLAYER_NOT_IN_GUILD '''' s)
         | Some _ \<Rightarrow> on_my_guild p (\<lambda>s. Some (SendBankTabsInfo E p sendAllSlots s)) s)))"

definition HandleGuildBankQueryTab :: "gEnv \<Rightarrow> u64 \<Rightarrow> byteBuffer \<Rightarrow> gst \<Rightarrow> gResult" where
  "HandleGuildBankQueryTab E p b s =
     g_reading (bb_get b) s (\<lambda>(guid :: u64, b).
     g_reading (bb_get b) s (\<lambda>(tabId :: u8, b).
     g_reading (bb_read_bool b) s (\<lambda>(full, b).
       g_done (if geCanUseBank E p guid then on_my_guild p (\<lambda>s. Some (SendBankTabData E p tabId s)) s else Some s))))"

definition HandleGuildBankDepositMoney :: "gEnv \<Rightarrow> u64 \<Rightarrow> byteBuffer \<Rightarrow> gst \<Rightarrow> gResult" where
  "HandleGuildBankDepositMoney E p b s =
     g_reading (bb_get b) s (\<lambda>(guid :: u64, b).
     g_reading (bb_get b) s (\<lambda>(money :: u32, b).
       g_done (if geCanUseBank E p guid \<and> money \<noteq> 0 \<and> gsMoney s p \<ge> money
         then on_my_guild p (\<lambda>s. Some (HandleMemberDepositMoney E p money s)) s else Some s)))"

definition HandleGuildBankWithdrawMoney :: "gEnv \<Rightarrow> u64 \<Rightarrow> byteBuffer \<Rightarrow> gst \<Rightarrow> gResult" where
  "HandleGuildBankWithdrawMoney E p b s =
     g_reading (bb_get b) s (\<lambda>(guid :: u64, b).
     g_reading (bb_get b) s (\<lambda>(money :: u32, b).
       g_done (if money \<noteq> 0 \<and> geCanUseBank E p guid
         then on_my_guild p (\<lambda>s. Some (snd (HandleMemberWithdrawMoney E p money False s))) s else Some s)))"

text \<open>Positions of the inventory: the backpack, the bags in it, the key ring and the currencies.\<close>

definition IsInventoryPos :: "u8 \<Rightarrow> u8 \<Rightarrow> bool" where
  "IsInventoryPos bag slot \<longleftrightarrow>
     (bag = 255 \<and> slot = NULL_SLOT) \<or> (bag = 255 \<and> slot \<ge> 23 \<and> slot < 39) \<or> (bag \<ge> 19 \<and> bag < 23) \<or>
     (bag = 255 \<and> slot \<ge> 86 \<and> slot < 150)"

definition swap_inventory :: "gEnv \<Rightarrow> u64 \<Rightarrow> u8 \<Rightarrow> u8 \<Rightarrow> u8 \<Rightarrow> u8 \<Rightarrow> u8 \<Rightarrow> u32 \<Rightarrow> gst \<Rightarrow> gResult" where
  "swap_inventory E p toChar tabId slotId playerBag playerSlotId splitedAmount s =
     g_done (if \<not> IsInventoryPos playerBag playerSlotId \<and> \<not> (playerBag = 0 \<and> playerSlotId = NULL_SLOT)
       then Some (out (GEquipError p EQUIP_ERR_NONE None) s)
       else on_my_guild p (\<lambda>s. Some (SwapItemsWithInventory E p (toChar \<noteq> 0) tabId slotId playerBag playerSlotId splitedAmount s)) s)"

definition HandleGuildBankSwapItems :: "gEnv \<Rightarrow> u64 \<Rightarrow> byteBuffer \<Rightarrow> gst \<Rightarrow> gResult" where
  "HandleGuildBankSwapItems E p b s =
     g_reading (bb_get b) s (\<lambda>(goGuid :: u64, b).
       if \<not> geCanUseBank E p goGuid \<or> Player_GetGuild p s = None then g_done (Some s)
       else g_reading (bb_get b) s (\<lambda>(bankToBank :: u8, b).
         if bankToBank \<noteq> 0
         then g_reading (bb_get b) s (\<lambda>(destTabId :: u8, b).
              g_reading (bb_get b) s (\<lambda>(destSlotId :: u8, b).
              g_reading (bb_read_skip 4 b) s (\<lambda>b.
              g_reading (bb_get b) s (\<lambda>(tabId :: u8, b).
              g_reading (bb_get b) s (\<lambda>(slotId :: u8, b).
              g_reading (bb_get b) s (\<lambda>(itemEntry :: u32, b).
              g_reading (bb_read_skip 1 b) s (\<lambda>b.
              g_reading (bb_get b) s (\<lambda>(splitedAmount :: u32, b).
                g_done (on_my_guild p (\<lambda>s. Some (SwapItems E p tabId slotId destTabId destSlotId splitedAmount s)) s)))))))))
         else g_reading (bb_get b) s (\<lambda>(tabId :: u8, b).
              g_reading (bb_get b) s (\<lambda>(slotId :: u8, b).
              g_reading (bb_get b) s (\<lambda>(itemEntry :: u32, b).
              g_reading (bb_get b) s (\<lambda>(autoStore :: u8, b).
                if autoStore \<noteq> 0
                then g_reading (bb_read_skip 4 b) s (\<lambda>b.
                     g_reading (bb_read_skip 1 b) s (\<lambda>b.
                     g_reading (bb_read_skip 4 b) s (\<lambda>b.
                       swap_inventory E p 1 tabId slotId 0 NULL_SLOT 0 s)))
                else g_reading (bb_get b) s (\<lambda>(playerBag :: u8, b).
                     g_reading (bb_get b) s (\<lambda>(playerSlotId :: u8, b).
                     g_reading (bb_get b) s (\<lambda>(toChar :: u8, b).
                     g_reading (bb_get b) s (\<lambda>(splitedAmount :: u32, b).
                       swap_inventory E p toChar tabId slotId playerBag playerSlotId splitedAmount s))))))))))"

definition HandleGuildBankBuyTab :: "gEnv \<Rightarrow> u64 \<Rightarrow> byteBuffer \<Rightarrow> gst \<Rightarrow> gResult" where
  "HandleGuildBankBuyTab E p b s =
     g_reading (bb_get b) s (\<lambda>(guid :: u64, b).
     g_reading (bb_get b) s (\<lambda>(tabId :: u8, b).
       g_done (if geCanUseBank E p guid then on_my_guild p (\<lambda>s. Some (HandleBuyBankTab E p tabId s)) s else Some s)))"

definition HandleGuildBankUpdateTab :: "gEnv \<Rightarrow> u64 \<Rightarrow> byteBuffer \<Rightarrow> gst \<Rightarrow> gResult" where
  "HandleGuildBankUpdateTab E p b s =
     g_reading (bb_get b) s (\<lambda>(guid :: u64, b).
     g_reading (bb_get b) s (\<lambda>(tabId :: u8, b).
     g_reading (bb_read_string b) s (\<lambda>(name, b).
     g_reading (bb_read_string b) s (\<lambda>(icon, b).
       g_done (if name \<noteq> [] \<and> icon \<noteq> [] \<and> geCanUseBank E p guid
         then on_my_guild p (\<lambda>s. Some (HandleSetBankTabInfo E p tabId name icon s)) s else Some s)))))"

definition HandleGuildBankLogQuery :: "gEnv \<Rightarrow> u64 \<Rightarrow> byteBuffer \<Rightarrow> gst \<Rightarrow> gResult" where
  "HandleGuildBankLogQuery E p b s =
     g_reading (bb_get b) s (\<lambda>(tabId :: u8, b). g_done (on_my_guild p (\<lambda>s. Some (SendBankLog E p tabId s)) s))"

definition HandleQueryGuildBankTabText :: "gEnv \<Rightarrow> u64 \<Rightarrow> byteBuffer \<Rightarrow> gst \<Rightarrow> gResult" where
  "HandleQueryGuildBankTabText E p b s =
     g_reading (bb_get b) s (\<lambda>(tabId :: u8, b). g_done (on_my_guild p (\<lambda>s. Some (SendBankTabText E p tabId s)) s))"

definition HandleSetGuildBankTabText :: "gEnv \<Rightarrow> u64 \<Rightarrow> byteBuffer \<Rightarrow> gst \<Rightarrow> gResult" where
  "HandleSetGuildBankTabText E p b s =
     g_reading (bb_get b) s (\<lambda>(tabId :: u8, b).
     g_reading (bb_read_string b) s (\<lambda>(txt, b).
       g_done (on_my_guild p (\<lambda>s. Some (SetBankTabText E tabId txt s)) s)))"

section \<open>Dispatch\<close>

text \<open>
  The entries of the table of opcodes, src/src/server/game/Server/Protocol/Opcodes.cpp, that lead here;
  what leads elsewhere does nothing.
\<close>

definition handle_guild_packet :: "gEnv \<Rightarrow> u64 \<Rightarrow> u16 \<Rightarrow> byteBuffer \<Rightarrow> gst \<Rightarrow> gResult" where
  "handle_guild_packet E p opcode b s =
     (if opcode = 0x054 then HandleGuildQueryOpcode p b s
      else if opcode = 0x081 then HandleGuildCreateOpcode p b s
      else if opcode = 0x082 then HandleGuildInviteOpcode E p b s
      else if opcode = 0x084 then g_done (HandleGuildAcceptOpcode E p s)
      else if opcode = 0x085 then g_done (Some (HandleGuildDeclineOpcode p s))
      else if opcode = 0x087 then g_done (HandleGuildInfoOpcode E p s)
      else if opcode = 0x089 then g_done (HandleGuildRosterOpcode E p s)
      else if opcode = 0x08B then HandleGuildPromoteOpcode E p b s
      else if opcode = 0x08C then HandleGuildDemoteOpcode E p b s
      else if opcode = 0x08D then g_done (HandleGuildLeaveOpcode E p s)
      else if opcode = 0x08E then HandleGuildRemoveOpcode E p b s
      else if opcode = 0x08F then g_done (HandleGuildDisbandOpcode E p s)
      else if opcode = 0x090 then HandleGuildLeaderOpcode E p b s
      else if opcode = 0x091 then HandleGuildMOTDOpcode E p b s
      else if opcode = 0x1F1 then HandleSaveGuildEmblemOpcode E p b s
      else if opcode = 0x231 then HandleGuildRankOpcode E p b s
      else if opcode = 0x232 then HandleGuildAddRankOpcode E p b s
      else if opcode = 0x233 then g_done (HandleGuildDelRankOpcode E p s)
      else if opcode = 0x234 then HandleGuildSetPublicNoteOpcode E p b s
      else if opcode = 0x235 then HandleGuildSetOfficerNoteOpcode E p b s
      else if opcode = 0x2FC then HandleGuildChangeInfoTextOpcode p b s
      else if opcode = 0x3E6 then HandleGuildBankerActivate E p b s
      else if opcode = 0x3E7 then HandleGuildBankQueryTab E p b s
      else if opcode = 0x3E9 then HandleGuildBankSwapItems E p b s
      else if opcode = 0x3EA then HandleGuildBankBuyTab E p b s
      else if opcode = 0x3EB then HandleGuildBankUpdateTab E p b s
      else if opcode = 0x3EC then HandleGuildBankDepositMoney E p b s
      else if opcode = 0x3ED then HandleGuildBankWithdrawMoney E p b s
      else if opcode = 0x3EE then HandleGuildBankLogQuery E p b s
      else if opcode = 0x3FD then g_done (HandleGuildPermissions p s)
      else if opcode = 0x3FE then g_done (HandleGuildBankMoneyWithdrawn p s)
      else if opcode = 0x3FF then g_done (HandleGuildEventLogQueryOpcode E p s)
      else if opcode = 0x40A then HandleQueryGuildBankTabText E p b s
      else if opcode = 0x40B then HandleSetGuildBankTabText E p b s
      else Some (s, None))"

section \<open>Charters\<close>

text \<open>
  The part of \<^verbatim>\<open>HandleTurnInPetitionOpcode\<close>, src/src/server/game/Handlers/PetitionsHandler.cpp, that
  makes the guild of a charter with the players who signed it, in the order of the table of signatures.
\<close>

definition turn_in_charter :: "gEnv \<Rightarrow> u64 \<Rightarrow> string \<Rightarrow> u32 list \<Rightarrow> gst \<Rightarrow> gst" where
  "turn_in_charter E p name signs s =
     (if gsGuildOf s (GUID_LOPART p) \<noteq> 0 then s
      else case Guild_Create E p name (s\<lparr>gsGuild := Guild_new\<rparr>) of
        (False, s) \<Rightarrow> s
      | (True, s) \<Rightarrow>
          let i = gId (gsGuild s);
              s = GuildMgr_AddGuild (gsGuild s) s;
              s = SendCommandResult p GUILD_COMMAND_CREATE ERR_GUILD_COMMAND_SUCCESS name s;
              s = fold (\<lambda>k s. snd (Guild_AddMember E (MAKE_NEW_GUID k 0 HIGHGUID_PLAYER) GUILD_RANK_NONE s)) signs s
          in put_back i s)"

end
