(* ===== verification/GuildWorld.thy ===== *)
theory GuildWorld
  imports GuildJoin GuildHandlers
begin

text \<open>
  The store of the guilds under the packets of the players: an interface for what an operation on a guild
  promises, the operations of the code as its instances, and the invariant of the store, which every
  packet keeps: guilds keep their own invariants, and the guild id of a player is the id of the one guild the
  player is a member of.
\<close>

section \<open>The store\<close>

definition stored_ok :: "gst \<Rightarrow> u32 \<times> guild \<Rightarrow> bool" where
  "stored_ok s x \<longleftrightarrow> fst x < gsNextId s \<and> focus_ok (fst x) (s\<lparr>gsGuild := snd x\<rparr>)"

definition guilds_ok :: "gst \<Rightarrow> bool" where
  "guilds_ok s \<longleftrightarrow> gsNextId s \<noteq> 0 \<and> distinct (map fst (gsStore s)) \<and> (\<forall>x\<in>set (gsStore s). stored_ok s x) \<and>
     (\<forall>k. gsGuildOf s k \<noteq> 0 \<longrightarrow> gsGuildOf s k \<in> fst ` set (gsStore s))"

lemma stored_ok_cong:
  "gsNextId s' = gsNextId s \<Longrightarrow> gsGuildOf s' = gsGuildOf s \<Longrightarrow> stored_ok s' = stored_ok s"
  by (simp add: stored_ok_def focus_ok_def fun_eq_iff)

lemma guilds_ok_cong:
  "gsStore s' = gsStore s \<Longrightarrow> gsNextId s' = gsNextId s \<Longrightarrow> gsGuildOf s' = gsGuildOf s \<Longrightarrow> guilds_ok s' = guilds_ok s"
  by (simp add: guilds_ok_def stored_ok_cong [of s' s])

lemma guilds_ok_stored: "guilds_ok s \<Longrightarrow> GetGuildById i s = Some g \<Longrightarrow> (i, g) \<in> set (gsStore s) \<and> stored_ok s (i, g)"
  unfolding guilds_ok_def GetGuildById_def by (blast dest: map_of_SomeD)

lemma guilds_ok_focus: "guilds_ok s \<Longrightarrow> GetGuildById i s = Some g \<Longrightarrow> focus_ok i (s\<lparr>gsGuild := g\<rparr>)"
  using guilds_ok_stored [THEN conjunct2, unfolded stored_ok_def fst_conv snd_conv, THEN conjunct2] .

text \<open>A guild other than the one worked on.\<close>

lemma stored_ok_other:
  assumes "kept i (s\<lparr>gsGuild := g\<rparr>) s'" and "stored_ok s (j, h)" and "j \<noteq> i"
  shows "stored_ok s' (j, h)"
proof -
  have "j \<noteq> 0" using assms(2) by (simp add: stored_ok_def focus_ok_def)
  have "gsGuildOf s' k = j \<longleftrightarrow> gsGuildOf s k = j" for k
  proof -
    have "gsGuildOf s' k = gsGuildOf s k \<or> gsGuildOf s k \<in> {0, i} \<and> gsGuildOf s' k \<in> {0, i}"
      using assms(1) by (simp add: kept_def)
    then show ?thesis using assms(3) \<open>j \<noteq> 0\<close> by auto
  qed
  moreover have "gsNextId s' = gsNextId s" using assms(1) by (simp add: kept_def)
  ultimately show ?thesis using assms(2) by (simp add: stored_ok_def focus_ok_def)
qed

lemma guilds_ok_put_back:
  assumes "guilds_ok s" and "GetGuildById i s = Some g" and "kept i (s\<lparr>gsGuild := g\<rparr>) s'"
  shows "guilds_ok (put_back i s')"
proof -
  let ?t = "put_back i s'"
  have i: "i \<noteq> 0" "i \<in> fst ` set (gsStore s)" "i < gsNextId s"
    using guilds_ok_stored [OF assms(1,2)] by (force simp: stored_ok_def focus_ok_def)+
  have same: "stored_ok ?t = stored_ok s'" by (rule stored_ok_cong) (simp_all add: put_back_def)
  have of: "gsGuildOf s' k = gsGuildOf s k \<or> gsGuildOf s k \<in> {0, i} \<and> gsGuildOf s' k \<in> {0, i}" for k
    using assms(3) by (simp add: kept_def)
  have mem: "gsGuildOf s k \<noteq> 0 \<Longrightarrow> gsGuildOf s k \<in> fst ` set (gsStore s)" for k
    using assms(1) by (simp add: guilds_ok_def)
  have dist: "distinct (map fst (gsStore s))" using assms(1) by (simp add: guilds_ok_def)
  have next': "gsNextId ?t \<noteq> 0" using assms(1,3) by (simp add: guilds_ok_def kept_def put_back_def)
  have other: "stored_ok ?t x" if "x \<in> set (gsStore s)" "fst x \<noteq> i" for x
    using stored_ok_other [OF assms(3), of "fst x" "snd x"] that assms(1) by (simp add: guilds_ok_def same)
  have cases: "gsStore s' = gsStore s \<and> focus_ok i s' \<or> gsStore s' = filter (\<lambda>(j, g). j \<noteq> i) (gsStore s) \<and> (\<forall>k. gsGuildOf s' k \<noteq> i)"
    using assms(3) by (simp add: kept_def)
  then show ?thesis
  proof (elim disjE conjE)
    assume st: "gsStore s' = gsStore s" and focus: "focus_ok i s'"
    have store: "gsStore ?t = map (\<lambda>(j, h). if j = i then (j, gsGuild s') else (j, h)) (gsStore s)" by (simp add: put_back_def st)
    have "map fst (gsStore ?t) = map fst (gsStore s)" by (simp add: store split_def cong: if_cong)
    moreover from this have "fst ` set (gsStore ?t) = fst ` set (gsStore s)" by (metis set_map)
    moreover have "gsGuildOf ?t k \<in> fst ` set (gsStore s)" if "gsGuildOf ?t k \<noteq> 0" for k
      using of [of k] mem [of k] i(2) that by (auto simp: put_back_def)
    moreover have "stored_ok ?t x" if "x \<in> set (gsStore ?t)" for x
    proof -
      from that have "x = (i, gsGuild s') \<or> x \<in> set (gsStore s) \<and> fst x \<noteq> i" by (auto simp: store split: if_splits)
      then show ?thesis
      proof
        assume "x = (i, gsGuild s')"
        then show ?thesis using focus i(3) assms(3) unfolding same by (simp add: stored_ok_def kept_def)
      qed (use other in blast)
    qed
    ultimately show ?thesis using dist next' by (simp add: guilds_ok_def)
  next
    assume st: "gsStore s' = filter (\<lambda>(j, g). j \<noteq> i) (gsStore s)" and gone: "\<forall>k. gsGuildOf s' k \<noteq> i"
    have store: "gsStore ?t = filter (\<lambda>x. fst x \<noteq> i) (gsStore s)"
    proof -
      have "gsStore ?t = map (\<lambda>(j, h). if j = i then (j, gsGuild s') else (j, h)) (filter (\<lambda>x. fst x \<noteq> i) (gsStore s))"
        by (simp add: put_back_def st split_def)
      also have "\<dots> = filter (\<lambda>x. fst x \<noteq> i) (gsStore s)" by (rule map_idI) auto
      finally show ?thesis .
    qed
    have "gsGuildOf ?t k \<in> fst ` set (gsStore ?t)" if "gsGuildOf ?t k \<noteq> 0" for k
    proof -
      have k: "gsGuildOf ?t k = gsGuildOf s k" "gsGuildOf s k \<noteq> i" "gsGuildOf s k \<noteq> 0"
        using of [of k] gone that by (auto simp: put_back_def)
      from mem [OF k(3)] k(2) show ?thesis by (auto simp: store k(1))
    qed
    moreover have "distinct (map fst (gsStore ?t))" using dist by (simp add: store distinct_map_filter)
    ultimately show ?thesis using other next' by (simp add: guilds_ok_def store)
  qed
qed

section \<open>Operations on a guild\<close>

definition returns_ok :: "gst option \<Rightarrow> bool" where
  "returns_ok x \<longleftrightarrow> (\<exists>s. x = Some s \<and> guilds_ok s)"

lemma returns_ok_Some [simp]: "returns_ok (Some s) = guilds_ok s"
  by (simp add: returns_ok_def)

text \<open>
  What an operation on the guild of a player promises: it returns, and keeps the guild and what
  the server knows of its members.
\<close>

locale guild_operation =
  fixes E :: gEnv and p :: u64 and f :: "gst \<Rightarrow> gst option"
  assumes keeps: "genv_ok E \<Longrightarrow> guild_player p \<Longrightarrow> focus_ok i s \<Longrightarrow> gsGuildOf s (GUID_LOPART p) = i \<Longrightarrow>
    \<exists>s'. f s = Some s' \<and> kept i s s'"
begin

lemma on_my_guild_ok:
  assumes "genv_ok E" and "guild_player p" and "guilds_ok s"
  shows "returns_ok (on_my_guild p f s)"
proof (cases "Player_GetGuild p s")
  case (Some g)
  then have g: "GetGuildById (gsGuildOf s (GUID_LOPART p)) s = Some g"
    by (simp add: Player_GetGuild_def Let_def split: if_splits)
  from guilds_ok_focus [OF assms(3) g] obtain s'
    where s': "f (s\<lparr>gsGuild := g\<rparr>) = Some s'" "kept (gsGuildOf s (GUID_LOPART p)) (s\<lparr>gsGuild := g\<rparr>) s'"
    using keeps [OF assms(1,2), of "gsGuildOf s (GUID_LOPART p)" "s\<lparr>gsGuild := g\<rparr>"] by auto
  from guilds_ok_put_back [OF assms(3) g s'(2)] show ?thesis
    using Some g s'(1) by (simp add: on_my_guild_def with_guild_def)
qed (use assms(3) in \<open>simp add: on_my_guild_def\<close>)

end

text \<open>An operation that leaves the membership alone promises that for every player.\<close>

locale quiet_operation =
  fixes f :: "gst \<Rightarrow> gst"
  assumes quiet: "calm s (f s)"
begin

lemma with_guild_ok:
  assumes "guilds_ok s"
  shows "returns_ok (with_guild i (\<lambda>s. Some (f s)) s)"
proof (cases "GetGuildById i s")
  case (Some g)
  from guilds_ok_put_back [OF assms Some calm_kept [OF guilds_ok_focus [OF assms Some] quiet]] Some
  show ?thesis by (simp add: with_guild_def)
qed (use assms in \<open>simp add: with_guild_def\<close>)

end

sublocale quiet_operation \<subseteq> op: guild_operation E p "\<lambda>s. Some (f s)" for E p
  by unfold_locales (use calm_kept quiet in blast)

interpretation motd: quiet_operation "HandleSetMOTD E p motd" for E p motd
  by unfold_locales (rule calm_HandleSetMOTD)
interpretation info_text: quiet_operation "HandleSetInfo p info" for p info
  by unfold_locales (rule calm_HandleSetInfo)
interpretation emblem: quiet_operation "HandleSetEmblem E p e" for E p e
  by unfold_locales (rule calm_HandleSetEmblem)
interpretation set_leader: quiet_operation "HandleSetLeader E p name" for E p name
  by unfold_locales (rule calm_HandleSetLeader)
interpretation member_note: quiet_operation "HandleSetMemberNote E p name t isPublic" for E p name t isPublic
  by unfold_locales (rule calm_HandleSetMemberNote)
interpretation rank_info: quiet_operation "HandleSetRankInfo E p r name rights money bs" for E p r name rights money bs
  by unfold_locales (rule calm_HandleSetRankInfo)
interpretation member_rank: quiet_operation "HandleUpdateMemberRank E p name demote" for E p name demote
  by unfold_locales (rule calm_HandleUpdateMemberRank)
interpretation add_rank: quiet_operation "HandleAddNewRank E p name" for E p name
  by unfold_locales (rule calm_HandleAddNewRank)
interpretation remove_rank: quiet_operation "HandleRemoveLowestRank E p" for E p
  by unfold_locales (simp add: HandleRemoveLowestRank_def calm_HandleRemoveRank)
interpretation invite: quiet_operation "HandleInviteMember E p name" for E p name
  by unfold_locales (rule calm_HandleInviteMember)
interpretation deposit: quiet_operation "HandleMemberDepositMoney E p amount" for E p amount
  by unfold_locales (rule calm_HandleMemberDepositMoney)
interpretation withdraw: quiet_operation "\<lambda>s. snd (HandleMemberWithdrawMoney E p amount repair s)" for E p amount repair
  by unfold_locales (rule calm_HandleMemberWithdrawMoney)
interpretation buy_tab: quiet_operation "HandleBuyBankTab E p tabId" for E p tabId
  by unfold_locales (rule calm_HandleBuyBankTab)
interpretation tab_info: quiet_operation "HandleSetBankTabInfo E p tabId name icon" for E p tabId name icon
  by unfold_locales (rule calm_HandleSetBankTabInfo)
interpretation tab_text: quiet_operation "SetBankTabText E tabId t" for E tabId t
  by unfold_locales (rule calm_SetBankTabText)
interpretation swap: quiet_operation "SwapItems E p tabId slotId destTabId destSlotId n" for E p tabId slotId destTabId destSlotId n
  by unfold_locales (rule calm_SwapItems)
interpretation swap_bags: quiet_operation "SwapItemsWithInventory E p toChar tabId slotId bag slot n"
  for E p toChar tabId slotId bag slot n
  by unfold_locales (rule calm_SwapItemsWithInventory)
interpretation roster: quiet_operation "HandleRoster E p" for E p by unfold_locales simp
interpretation query: quiet_operation "HandleQuery p" for p by unfold_locales simp
interpretation send_info: quiet_operation "Guild_SendInfo E p" for E p by unfold_locales simp
interpretation event_log: quiet_operation "SendEventLog E p" for E p by unfold_locales simp
interpretation bank_log: quiet_operation "SendBankLog E p tabId" for E p tabId by unfold_locales simp
interpretation money_info: quiet_operation "SendMoneyInfo p" for p by unfold_locales simp
interpretation permissions: quiet_operation "SendPermissions p" for p by unfold_locales simp
interpretation tabs_info: quiet_operation "SendBankTabsInfo E p allSlots" for E p allSlots by unfold_locales simp
interpretation tab_data: quiet_operation "SendBankTabData E p tabId" for E p tabId by unfold_locales simp
interpretation send_text: quiet_operation "SendBankTabText E p tabId" for E p tabId by unfold_locales simp

text \<open>The three that change the membership.\<close>

lemma kept_out [simp]:
  "kept i s (out e s') = kept i s s'" "kept i s (SendCommandResult p ty err param s') = kept i s s'"
  "kept i s (Guild_BroadcastEvent E ev guid params s') = kept i s s'"
  "kept i s (Guild_LogEvent E ty' p1 p2 rank s') = kept i s s'"
  by (simp_all add: kept_def focus_ok_def)

lemma kept_refl: "focus_ok i s \<Longrightarrow> kept i s s"
  by (rule calm_kept) simp_all

interpretation leave: guild_operation E p "HandleLeaveMember E p" for E p
proof unfold_locales
  fix i s
  assume E: "genv_ok E" and p: "guild_player p" and ok: "focus_ok i s" and i: "gsGuildOf s (GUID_LOPART p) = i"
  from kept_disband [OF E ok] obtain d where d: "Guild_Disband E s = Some d" "kept i s d" .
  from kept_DeleteMember [OF E ok p i] obtain e where e: "Guild_DeleteMember E p False False s = Some e" "kept i s e" .
  show "\<exists>s'. HandleLeaveMember E p s = Some s' \<and> kept i s s'"
    using d e kept_refl [OF ok] by (simp add: HandleLeaveMember_def Let_def)
qed

interpretation disband: guild_operation E p "HandleDisband E p" for E p
proof unfold_locales
  fix i s
  assume E: "genv_ok E" and ok: "focus_ok i s"
  from kept_disband [OF E ok] obtain d where "Guild_Disband E s = Some d" "kept i s d" .
  then show "\<exists>s'. HandleDisband E p s = Some s' \<and> kept i s s'" using kept_refl [OF ok] by (simp add: HandleDisband_def)
qed

interpretation remove_member: guild_operation E p "HandleRemoveMember E p name" for E p name
proof unfold_locales
  fix i s
  assume E: "genv_ok E" and ok: "focus_ok i s"
  show "\<exists>s'. HandleRemoveMember E p name s = Some s' \<and> kept i s s'"
  proof (cases "GetMemberByName name (gsGuild s)")
    case None
    then show ?thesis using kept_refl [OF ok] by (simp add: HandleRemoveMember_def Let_def)
  next
    case (Some x)
    obtain k m where x: "x = (k, m)" by fastforce
    with Some have km: "(k, m) \<in> set (gMembers (gsGuild s))" using GetMemberByName_in by simp
    then have "guild_player (mbGuid m)" "gsGuildOf s (GUID_LOPART (mbGuid m)) = i"
      using ok member_player_guid [OF guild_ok_member] by (force simp: focus_ok_def)+
    from kept_DeleteMember [OF E ok this] obtain e
      where "Guild_DeleteMember E (mbGuid m) False True s = Some e" "kept i s e" .
    then show ?thesis using kept_refl [OF ok] by (simp add: HandleRemoveMember_def Let_def Some x split: option.splits)
  qed
qed

section \<open>Packets\<close>

definition fine :: "gResult \<Rightarrow> bool" where
  "fine r \<longleftrightarrow> (\<exists>s e. r = Some (s, e) \<and> guilds_ok s)"

lemma fine_reading: "guilds_ok s \<Longrightarrow> (\<And>x. fine (f x)) \<Longrightarrow> fine (g_reading m s f)"
  by (auto simp: fine_def g_reading_def split: sum.splits)

lemma fine_done: "returns_ok x \<Longrightarrow> fine (g_done x)"
  by (auto simp: fine_def g_done_def returns_ok_def)

lemma fine_case:
  "(\<And>a b. fine (f a b)) \<Longrightarrow> fine (case x of (a, b) \<Rightarrow> f a b)"
  "(c \<Longrightarrow> fine r) \<Longrightarrow> (\<not> c \<Longrightarrow> fine r') \<Longrightarrow> fine (if c then r else r')"
  "fine r \<Longrightarrow> (\<And>a. fine (h a)) \<Longrightarrow> fine (case m of None \<Rightarrow> r | Some a \<Rightarrow> h a)"
  by (cases x; simp) (simp_all split: option.splits)

lemma returns_case:
  "returns_ok x \<Longrightarrow> returns_ok y \<Longrightarrow> returns_ok (if c then x else y)"
  "returns_ok x \<Longrightarrow> (\<And>a. returns_ok (h a)) \<Longrightarrow> returns_ok (case m of None \<Rightarrow> x | Some a \<Rightarrow> h a)"
  by (simp_all split: option.splits)

lemma guilds_ok_quiet [simp]:
  "guilds_ok (out e s) = guilds_ok s" "guilds_ok (SendCommandResult p ty err param s) = guilds_ok s"
  "guilds_ok (SendSaveEmblemResult p err s) = guilds_ok s" "guilds_ok (s\<lparr>gsInvited := v\<rparr>) = guilds_ok s"
  "guilds_ok (s\<lparr>gsGuild := g\<rparr>) = guilds_ok s"
  by (rule guilds_ok_cong; simp)+

lemma accept_ok:
  assumes "genv_ok E" and "guild_player p" and "guilds_ok s"
  shows "returns_ok (HandleGuildAcceptOpcode E p s)"
proof (cases "gsGuildOf s (GUID_LOPART p) = 0")
  case zero: True
  show ?thesis
  proof (cases "GetGuildById (gsInvited s p) s")
    case (Some g)
    let ?s = "s\<lparr>gsGuild := g\<rparr>" and ?i = "gsInvited s p"
    have focus: "focus_ok ?i ?s" by (rule guilds_ok_focus [OF assms(3) Some])
    then have fresh: "GUID_LOPART p \<notin> keys (gsGuild ?s)" using zero by (auto simp: focus_ok_def)
    obtain ok s' where add: "Guild_AddMember E p GUILD_RANK_NONE ?s = (ok, s')" by fastforce
    have "kept ?i ?s s'"
    proof (cases ok)
      case True
      with AddMember_joined [OF assms(1,2) fresh add] have "joined (GUID_LOPART p) ?s s'" by simp
      from joined_kept [OF this _ focus] zero show ?thesis by simp
    qed (use AddMember_joined [OF assms(1,2) fresh add] calm_kept [OF focus] in simp)
    then have "kept ?i ?s (HandleAcceptMember E p ?s)" using add kept_refl [OF focus] by (simp add: HandleAcceptMember_def)
    from guilds_ok_put_back [OF assms(3) Some this] show ?thesis
      using Some zero by (simp add: HandleGuildAcceptOpcode_def with_guild_def)
  qed (use assms(3) zero in \<open>simp add: HandleGuildAcceptOpcode_def with_guild_def\<close>)
qed (use assms(3) in \<open>simp add: HandleGuildAcceptOpcode_def\<close>)

lemma named_ok:
  assumes "guilds_ok s" and "\<And>name. returns_ok (on_my_guild p (f name) s)"
  shows "fine (on_named E p name f s)"
  unfolding on_named_def by (rule fine_done) (rule returns_case, use assms in simp_all)

text \<open>A player who is in no guild may decline.\<close>

lemma decline_ok:
  assumes "guilds_ok s" and "gsGuildOf s (GUID_LOPART p) = 0"
  shows "guilds_ok (HandleGuildDeclineOpcode p s)"
proof -
  have "gsGuildOf (HandleGuildDeclineOpcode p s) = gsGuildOf s"
    using assms(2) by (auto simp: HandleGuildDeclineOpcode_def SetInGuild_def)
  from guilds_ok_cong [OF _ _ this] assms(1) show ?thesis by (simp add: HandleGuildDeclineOpcode_def SetInGuild_def)
qed

lemmas on_my_guild_oks =
  motd.op.on_my_guild_ok info_text.op.on_my_guild_ok emblem.op.on_my_guild_ok set_leader.op.on_my_guild_ok
  member_note.op.on_my_guild_ok rank_info.op.on_my_guild_ok member_rank.op.on_my_guild_ok add_rank.op.on_my_guild_ok
  remove_rank.op.on_my_guild_ok invite.op.on_my_guild_ok deposit.op.on_my_guild_ok withdraw.op.on_my_guild_ok
  buy_tab.op.on_my_guild_ok tab_info.op.on_my_guild_ok tab_text.op.on_my_guild_ok swap.op.on_my_guild_ok
  swap_bags.op.on_my_guild_ok roster.op.on_my_guild_ok query.op.on_my_guild_ok send_info.op.on_my_guild_ok
  event_log.op.on_my_guild_ok bank_log.op.on_my_guild_ok money_info.op.on_my_guild_ok permissions.op.on_my_guild_ok
  tabs_info.op.on_my_guild_ok tab_data.op.on_my_guild_ok send_text.op.on_my_guild_ok
  leave.on_my_guild_ok disband.on_my_guild_ok remove_member.on_my_guild_ok

lemmas g_handler_defs =
  HandleGuildQueryOpcode_def HandleGuildCreateOpcode_def HandleGuildInviteOpcode_def HandleGuildRemoveOpcode_def
  HandleGuildInfoOpcode_def HandleGuildRosterOpcode_def HandleGuildPromoteOpcode_def HandleGuildDemoteOpcode_def
  HandleGuildLeaveOpcode_def HandleGuildDisbandOpcode_def HandleGuildLeaderOpcode_def HandleGuildMOTDOpcode_def
  HandleGuildSetPublicNoteOpcode_def HandleGuildSetOfficerNoteOpcode_def HandleGuildRankOpcode_def HandleGuildAddRankOpcode_def
  HandleGuildDelRankOpcode_def HandleGuildChangeInfoTextOpcode_def HandleSaveGuildEmblemOpcode_def
  HandleGuildEventLogQueryOpcode_def HandleGuildBankMoneyWithdrawn_def HandleGuildPermissions_def HandleGuildBankerActivate_def
  HandleGuildBankQueryTab_def HandleGuildBankDepositMoney_def HandleGuildBankWithdrawMoney_def swap_inventory_def
  HandleGuildBankSwapItems_def HandleGuildBankBuyTab_def HandleGuildBankUpdateTab_def HandleGuildBankLogQuery_def
  HandleQueryGuildBankTabText_def HandleSetGuildBankTabText_def

lemma handle_guild_packet_fine:
  assumes "genv_ok E" and "guild_player p" and "guilds_ok s" and "opcode = 0x085 \<Longrightarrow> gsGuildOf s (GUID_LOPART p) = 0"
  shows "fine (handle_guild_packet E p opcode b s)"
proof -
  note ok = on_my_guild_oks [OF assms(1,2)]
  have ret: "returns_ok (Some s)" using assms(3) by simp
  have accept: "fine (g_done (HandleGuildAcceptOpcode E p s))" by (rule fine_done) (rule accept_ok [OF assms(1-3)])
  have decline: "fine (g_done (Some (HandleGuildDeclineOpcode p s)))" if "opcode = 0x085"
    by (rule fine_done) (simp add: decline_ok assms that)
  have err: "fine (Some (s, None))" using assms(3) by (simp add: fine_def)
  have sent: "returns_ok (Some (SendCommandResult p ty e x s))" "returns_ok (Some (SendSaveEmblemResult p e s))"
    "guilds_ok (if c then out fx s else s)" "returns_ok (Some (out fx s))" for ty e x c fx
    using assms(3) by simp_all
  have emblem: "fine (HandleSaveGuildEmblemOpcode E p b s)"
    unfolding HandleSaveGuildEmblemOpcode_def Let_def
    by (intro assms(3) fine_reading fine_case fine_done returns_case sent ok) (simp add: assms(3))
  show ?thesis
    unfolding handle_guild_packet_def
    by (intro fine_case(2) accept decline err emblem; (assumption | unfold g_handler_defs);
      (intro assms(3) fine_reading fine_case fine_done named_ok returns_case ret sent ok query.with_guild_ok)?)
qed

section \<open>New guilds\<close>

lemma CreateDefaultGuildRanks_frame [simp]:
  "gId (gsGuild (CreateDefaultGuildRanks names s)) = gId (gsGuild s)"
  "gMembers (gsGuild (CreateDefaultGuildRanks names s)) = gMembers (gsGuild s)"
  "gLeaderGuid (gsGuild (CreateDefaultGuildRanks names s)) = gLeaderGuid (gsGuild s)"
  "gBankTabs (gsGuild (CreateDefaultGuildRanks names s)) = gBankTabs (gsGuild s)"
  "gBankEventLog (gsGuild (CreateDefaultGuildRanks names s)) = gBankEventLog (gsGuild s)"
  "gsGuildOf (CreateDefaultGuildRanks names s) = gsGuildOf s" "gsStore (CreateDefaultGuildRanks names s) = gsStore s"
  "gsNextId (CreateDefaultGuildRanks names s) = gsNextId s"
  by (simp_all add: CreateDefaultGuildRanks_def Let_def)

lemma default_ranks_ok:
  assumes "gRanks (gsGuild s) = []"
  shows "ranks_ok (gRanks (gsGuild (CreateDefaultGuildRanks names s)))"
proof -
  define chat where "chat = (GR_RIGHT_GCHATLISTEN OR GR_RIGHT_GCHATSPEAK)"
  have step: "ranks_seq (gRanks (gsGuild (snd (CreateRank name rights t)))) \<and>
      length (gRanks (gsGuild (snd (CreateRank name rights t)))) = Suc n"
    if "ranks_seq (gRanks (gsGuild t)) \<and> length (gRanks (gsGuild t)) = n" "n < 10" "n = 0 \<Longrightarrow> rights = GR_RIGHT_ALL" for t n name rights
  proof -
    have "gRanks (gsGuild t) = [] \<Longrightarrow> rights = GR_RIGHT_ALL" using that by auto
    with CreateRank_ranks [of t rights name] that(1,2) show ?thesis by blast
  qed
  have "ranks_seq (gRanks (gsGuild (sql a (sql b s)))) \<and> length (gRanks (gsGuild (sql a (sql b s)))) = 0" for a b
    using assms by (simp add: ranks_seq_def)
  from step [OF step [OF step [OF step [OF step [OF this]]]]]
  show ?thesis unfolding CreateDefaultGuildRanks_def Let_def chat_def [symmetric] by (simp add: ranks_ok_def)
qed

text \<open>A new guild: its members are the leader alone; if the leader cannot join there is no guild.\<close>

lemma create_row_fields:
  fixes s :: gst and E p name
  defines "t \<equiv> create_row E p name (s\<lparr>gsGuild := Guild_new\<rparr>)"
  shows "gRanks (gsGuild t) = []" "gId (gsGuild t) = gsNextId s" "gMembers (gsGuild t) = []"
    "gLeaderGuid (gsGuild t) = p" "gBankTabs (gsGuild t) = []" "length (gBankEventLog (gsGuild t)) = 7"
    "gsGuildOf t = gsGuildOf s" "gsStore t = gsStore s" "gsNextId t = gsNextId s + 1"
  by (simp_all add: t_def create_row_def GuildMgr_GenerateGuildId_def Let_def CreateLogHolders_def Guild_new_def
      GUILD_BANK_MAX_TABS_def)

lemma Guild_Create_ok:
  assumes "genv_ok E" and "guild_player p" and "gsGuildOf s (GUID_LOPART p) = 0"
    and "Guild_Create E p name (s\<lparr>gsGuild := Guild_new\<rparr>) = (ok, s')"
  shows "gsStore s' = gsStore s" and "gsNextId s' = (if GetGuildByName name s \<noteq> None then gsNextId s else gsNextId s + 1)"
    and "ok \<Longrightarrow> gId (gsGuild s') = gsNextId s \<and> guild_ok (gsGuild s') \<and> keys (gsGuild s') = {GUID_LOPART p} \<and>
      gsGuildOf s' = (gsGuildOf s)(GUID_LOPART p := gsNextId s) \<and> GetGuildByName name s = None"
    and "\<not> ok \<Longrightarrow> gsGuildOf s' = gsGuildOf s"
proof -
  have byname: "GetGuildByName name (s\<lparr>gsGuild := Guild_new\<rparr>) = GetGuildByName name s" by (simp add: GetGuildByName_def)
  let ?all = "gsStore s' = gsStore s \<and> gsNextId s' = (if GetGuildByName name s \<noteq> None then gsNextId s else gsNextId s + 1) \<and>
      (ok \<longrightarrow> gId (gsGuild s') = gsNextId s \<and> guild_ok (gsGuild s') \<and> keys (gsGuild s') = {GUID_LOPART p} \<and>
      gsGuildOf s' = (gsGuildOf s)(GUID_LOPART p := gsNextId s) \<and> GetGuildByName name s = None) \<and>
      (\<not> ok \<longrightarrow> gsGuildOf s' = gsGuildOf s)"
  have ?all
  proof (cases "GetGuildByName name s")
    case None
    define t where "t = create_row E p name (s\<lparr>gsGuild := Guild_new\<rparr>)"
    note t = create_row_fields [of E p name s, folded t_def]
    have create: "Guild_Create E p name (s\<lparr>gsGuild := Guild_new\<rparr>) =
        (let (ret, u) = Guild_AddMember E p GR_GUILDMASTER (CreateDefaultGuildRanks (geRankName E) t)
         in (ret, if ret then hook (OnGuildCreate p name) u else u))"
      using None byname by (simp add: Guild_Create_def t_def Let_def)
    let ?t = "CreateDefaultGuildRanks (geRankName E) t"
    obtain u where add: "Guild_AddMember E p GR_GUILDMASTER ?t = (ok, u)" and s': "s' = (if ok then hook (OnGuildCreate p name) u else u)"
      using assms(4) create by (auto split: prod.splits)
    have "GUID_LOPART p \<notin> keys (gsGuild ?t)" by (simp add: t)
    from AddMember_joined [OF assms(1,2) this add]
    have j: "if ok then joined (GUID_LOPART p) ?t u else calm ?t u" .
    show ?thesis
    proof (cases ok)
      case True
      with j obtain m where m: "member_ok (gsNextId s) (GUID_LOPART p, m)" "mset (gMembers (gsGuild u)) = {#(GUID_LOPART p, m)#}"
        and rest: "same_rest (gsGuild ?t) (gsGuild u)" "gLeaderGuid (gsGuild u) = p"
          "gsGuildOf u = (gsGuildOf s)(GUID_LOPART p := gsNextId s)" "gsStore u = gsStore s" "gsNextId u = gsNextId s + 1"
        by (auto simp: joined_def t)
      from m(2) have ms: "gMembers (gsGuild u) = [(GUID_LOPART p, m)]" by simp
      have "mbGuid m = p" using m(1) assms(2) by (simp add: member_ok_def guild_player_def)
      then have "guild_ok (gsGuild u)"
        using m(1) rest default_ranks_ok [OF t(1), of "geRankName E"]
        by (simp add: guild_ok_def same_rest_def ms t roster_ok_def leader_ok_def tabs_ok_def)
      then show ?thesis using True s' rest None ms by (simp add: same_rest_def t)
    next
      case False
      then show ?thesis using j s' None by (simp add: calm_def t)
    qed
  qed (use assms(4) byname in \<open>auto simp: Guild_Create_def\<close>)
  then show "gsStore s' = gsStore s" "gsNextId s' = (if GetGuildByName name s \<noteq> None then gsNextId s else gsNextId s + 1)"
    "ok \<Longrightarrow> gId (gsGuild s') = gsNextId s \<and> guild_ok (gsGuild s') \<and> keys (gsGuild s') = {GUID_LOPART p} \<and>
      gsGuildOf s' = (gsGuildOf s)(GUID_LOPART p := gsNextId s) \<and> GetGuildByName name s = None"
    "\<not> ok \<Longrightarrow> gsGuildOf s' = gsGuildOf s"
    by blast+
qed

text \<open>Those who signed join one after the other; the store is not touched by that.\<close>

lemma AddMember_kept:
  assumes "genv_ok E" and "guild_player p" and "focus_ok i s"
  shows "kept i s (snd (Guild_AddMember E p r s)) \<and> gsStore (snd (Guild_AddMember E p r s)) = gsStore s"
proof (cases "gsGuildOf s (GUID_LOPART p) = 0")
  case True
  then have fresh: "GUID_LOPART p \<notin> keys (gsGuild s)" using assms(3) by (auto simp: focus_ok_def)
  obtain ok t where add: "Guild_AddMember E p r s = (ok, t)" by fastforce
  note j = AddMember_joined [OF assms(1,2) fresh add]
  have "kept i s t \<and> gsStore t = gsStore s"
  proof (cases ok)
    case True
    with j joined_kept [OF _ \<open>gsGuildOf s (GUID_LOPART p) = 0\<close> assms(3)] show ?thesis by (simp add: joined_def)
  qed (use j calm_kept [OF assms(3)] in \<open>simp add: calm_def\<close>)
  with add show ?thesis by simp
qed (use kept_refl [OF assms(3)] in \<open>simp add: Guild_AddMember_def Let_def\<close>)

lemma kept_focus:
  assumes "kept i s t" and "gsStore t = gsStore s" and "i \<in> fst ` set (gsStore s)"
  shows "focus_ok i t"
proof -
  have "gsStore s \<noteq> filter (\<lambda>(j, g). j \<noteq> i) (gsStore s)"
  proof
    assume "gsStore s = filter (\<lambda>(j, g). j \<noteq> i) (gsStore s)"
    then have "\<forall>x\<in>set (gsStore s). case x of (j, g) \<Rightarrow> j \<noteq> i" by (metis filter_id_conv)
    then show False using assms(3) by auto
  qed
  then show ?thesis using assms(1,2) by (simp add: kept_def)
qed

lemma kept_trans:
  assumes "kept i s t" and "gsStore t = gsStore s" and "kept i t u"
  shows "kept i s u"
proof -
  have "gsGuildOf u k = gsGuildOf s k \<or> gsGuildOf s k \<in> {0, i} \<and> gsGuildOf u k \<in> {0, i}" for k
  proof -
    have "gsGuildOf t k = gsGuildOf s k \<or> gsGuildOf s k \<in> {0, i} \<and> gsGuildOf t k \<in> {0, i}"
      and "gsGuildOf u k = gsGuildOf t k \<or> gsGuildOf t k \<in> {0, i} \<and> gsGuildOf u k \<in> {0, i}"
      using assms(1,3) by (simp_all add: kept_def)
    then show ?thesis by (elim disjE conjE; simp)
  qed
  then show ?thesis using assms by (simp add: kept_def)
qed

lemma signs_kept:
  assumes "genv_ok E" and "focus_ok i s" and "i \<in> fst ` set (gsStore s)"
  shows "kept i s (fold (\<lambda>k s. snd (Guild_AddMember E (MAKE_NEW_GUID k 0 HIGHGUID_PLAYER) r s)) signs s)"
  using assms(2,3)
proof (induction signs arbitrary: s)
  case (Cons k signs)
  let ?t = "snd (Guild_AddMember E (MAKE_NEW_GUID k 0 HIGHGUID_PLAYER) r s)"
  have t: "kept i s ?t" "gsStore ?t = gsStore s"
    using AddMember_kept [OF assms(1) _ Cons.prems(1)] by (simp_all add: guild_player_def)
  from Cons.IH [of ?t] kept_focus [OF t Cons.prems(2)] t(2) Cons.prems(2) kept_trans [OF t] show ?case by simp
qed (simp add: kept_refl)

lemma guilds_ok_new:
  assumes "guilds_ok s" and "gsNextId s < 0xFFFFFFFE" and "gsGuildOf s k = 0" and "guild_ok g" and "gId g = gsNextId s"
    and "keys g = {k}" and "gsStore t = gsStore s @ [(gsNextId s, g)]" and "gsNextId t = gsNextId s + 1"
    and "gsGuildOf t = (gsGuildOf s)(k := gsNextId s)"
  shows "guilds_ok t"
proof -
  have next': "gsNextId s < gsNextId s + 1" "gsNextId s + 1 \<noteq> 0" using assms(2)
    by (simp_all add: word_less_nat_alt unat_word_ariths unat_eq_0 [symmetric] del: unat_eq_0)
  have n0: "gsNextId s \<noteq> 0" using assms(1) by (simp add: guilds_ok_def)
  have old: "fst x < gsNextId s \<and> focus_ok (fst x) (s\<lparr>gsGuild := snd x\<rparr>)" if "x \<in> set (gsStore s)" for x
    using assms(1) that by (simp add: guilds_ok_def stored_ok_def)
  have none: "gsGuildOf s j \<noteq> gsNextId s" for j
  proof
    assume "gsGuildOf s j = gsNextId s"
    moreover have "gsGuildOf s j \<noteq> 0 \<longrightarrow> gsGuildOf s j \<in> fst ` set (gsStore s)"
      using assms(1) unfolding guilds_ok_def by blast
    ultimately obtain x where x: "x \<in> set (gsStore s)" "gsNextId s = fst x" using n0 by auto
    from old [OF x(1)] x(2) show False by simp
  qed
  have "j \<in> keys g \<longleftrightarrow> gsGuildOf t j = gsNextId s" for j
    using none [of j] unfolding assms(6,9) by simp
  then have "stored_ok t (gsNextId s, g)"
    using assms(4,5,8) next'(1) n0 by (simp add: stored_ok_def focus_ok_def)
  moreover have "stored_ok t x" if "x \<in> set (gsStore s)" for x
  proof -
    note x = old [OF that]
    have "j \<in> keys (snd x) \<longleftrightarrow> gsGuildOf t j = fst x" for j
    proof (cases "j = k")
      case True
      then show ?thesis using x assms(3) by (auto simp: focus_ok_def assms(9))
    next
      case False
      then show ?thesis using x by (simp add: focus_ok_def assms(9))
    qed
    moreover have "fst x < gsNextId t" using less_trans [OF conjunct1 [OF x] next'(1)] by (simp add: assms(8))
    ultimately show ?thesis using x by (simp add: stored_ok_def focus_ok_def)
  qed
  moreover have "gsNextId s \<notin> fst ` set (gsStore s)" using old by force
  then have "distinct (map fst (gsStore t))" using assms(1) by (simp add: guilds_ok_def assms(7))
  moreover have "gsGuildOf t j \<in> fst ` set (gsStore t)" if "gsGuildOf t j \<noteq> 0" for j
  proof (cases "j = k")
    case False
    then show ?thesis using assms(1) that by (simp add: guilds_ok_def assms(7,9))
  qed (simp add: assms(7,9))
  ultimately show ?thesis using next'(2) by (simp add: guilds_ok_def assms(7,8))
qed

lemma turn_in_charter_ok:
  assumes "genv_ok E" and "guild_player p" and "guilds_ok s" and "gsNextId s < 0xFFFFFFFE"
  shows "guilds_ok (turn_in_charter E p name signs s)"
proof (cases "gsGuildOf s (GUID_LOPART p) = 0")
  case zero: True
  obtain ok t where create: "Guild_Create E p name (s\<lparr>gsGuild := Guild_new\<rparr>) = (ok, t)" by fastforce
  note new = Guild_Create_ok [OF assms(1,2) zero create]
  have next': "gsNextId s \<noteq> 0" "gsNextId s + 1 \<noteq> 0" "gsNextId s < gsNextId s + 1"
    using assms(3,4) by (simp_all add: guilds_ok_def word_less_nat_alt unat_word_ariths unat_eq_0 [symmetric] del: unat_eq_0)
  show ?thesis
  proof (cases ok)
    case True
    let ?i = "gsNextId s" and ?u = "SendCommandResult p GUILD_COMMAND_CREATE ERR_GUILD_COMMAND_SUCCESS name (GuildMgr_AddGuild (gsGuild t) t)"
    from new(3) [OF True] have t: "gId (gsGuild t) = ?i" "guild_ok (gsGuild t)" "keys (gsGuild t) = {GUID_LOPART p}"
      "gsGuildOf t = (gsGuildOf s)(GUID_LOPART p := ?i)" "gsNextId t = ?i + 1" using new(2) by simp_all
    have none: "map_of (gsStore s) ?i = None"
      using assms(3) unfolding map_of_eq_None_iff by (force simp: guilds_ok_def stored_ok_def)
    then have u: "gsStore ?u = gsStore s @ [(?i, gsGuild t)]" "gsNextId ?u = ?i + 1" "gsGuildOf ?u = gsGuildOf t" "gsGuild ?u = gsGuild t"
      using none new(1) t by (simp_all add: GuildMgr_AddGuild_def)
    have uok: "guilds_ok ?u"
      by (rule guilds_ok_new [OF assms(3,4) zero t(2,1,3) u(1,2) trans [OF u(3) t(4)]])
    have get: "GetGuildById ?i ?u = Some (gsGuild ?u)"
      unfolding GetGuildById_def u(1) u(4) using none by (simp add: map_add_def)
    have idem: "u\<lparr>gsGuild := gsGuild u\<rparr> = u" for u :: gst by simp
    have focus: "focus_ok ?i ?u" using guilds_ok_focus [OF uok get] unfolding idem .
    have "?i \<in> fst ` set (gsStore ?u)" unfolding u(1) by simp
    from signs_kept [OF assms(1) focus this, of GUILD_RANK_NONE signs] guilds_ok_put_back [OF uok get, unfolded idem]
    have "guilds_ok (put_back ?i (fold (\<lambda>k s. snd (Guild_AddMember E (MAKE_NEW_GUID k 0 HIGHGUID_PLAYER) GUILD_RANK_NONE s)) signs ?u))"
      by blast
    then show ?thesis using zero create True t(1) by (simp add: turn_in_charter_def Let_def)
  next
    case False
    have "guilds_ok t"
      using assms(3) new(1,2) new(4) [OF False] next' by (auto simp: guilds_ok_def stored_ok_def focus_ok_def split: if_splits)
    then show ?thesis using zero create False by (simp add: turn_in_charter_def)
  qed
qed (use assms(3) in \<open>simp add: turn_in_charter_def\<close>)

end
