(* ===== verification/GuildProps.thy ===== *)
theory GuildProps
  imports GuildWorld
begin

text \<open>
  Properties of the guilds: the store under packets, logins, the daily reset and new charters; disbanding,
  succession and rank; and what goes wrong with a rank that is gone, a declined invitation and a leader who
  names himself.
\<close>

section \<open>The store over time\<close>

interpretation login: quiet_operation "SendLoginInfo E p" for E p by unfold_locales (rule calm_SendLoginInfo)
interpretation logout: quiet_operation "HandleMemberLogout E p" for E p by unfold_locales (rule calm_HandleMemberLogout)
interpretation reset: quiet_operation "Guild_ResetTimes E" for E by unfold_locales (rule calm_Guild_ResetTimes)

interpretation set_rank: quiet_operation "\<lambda>s. snd (Guild_ChangeMemberRank E p r s)" for E p r
  by unfold_locales (auto simp: Guild_ChangeMemberRank_def split: option.splits intro: calm_intros)

interpretation delete_member: guild_operation E p "Guild_DeleteMember E p False isKicked" for E p isKicked
proof unfold_locales
  fix i s
  assume "genv_ok E" and "guild_player p" and "focus_ok i s" and "gsGuildOf s (GUID_LOPART p) = i"
  then show "\<exists>s'. Guild_DeleteMember E p False isKicked s = Some s' \<and> kept i s s'"
    using kept_DeleteMember [of E i s p isKicked] by blast
qed

text \<open>A game master adds a player to any guild, or disbands one.\<close>

lemma with_guild_AddMember_ok:
  assumes "genv_ok E" and "guild_player p" and "guilds_ok s"
  shows "returns_ok (with_guild i (\<lambda>s. Some (snd (Guild_AddMember E p r s))) s)"
proof (cases "GetGuildById i s")
  case (Some g)
  from AddMember_kept [OF assms(1,2) guilds_ok_focus [OF assms(3) Some]]
  have "kept i (s\<lparr>gsGuild := g\<rparr>) (snd (Guild_AddMember E p r (s\<lparr>gsGuild := g\<rparr>)))" by blast
  from guilds_ok_put_back [OF assms(3) Some this] Some show ?thesis by (simp add: with_guild_def)
qed (use assms(3) in \<open>simp add: with_guild_def\<close>)

lemma with_guild_Disband_ok:
  assumes "genv_ok E" and "guilds_ok s"
  shows "returns_ok (with_guild i (Guild_Disband E) s)"
proof (cases "GetGuildById i s")
  case (Some g)
  from kept_disband [OF assms(1) guilds_ok_focus [OF assms(2) Some]] obtain d
    where "Guild_Disband E (s\<lparr>gsGuild := g\<rparr>) = Some d" "kept i (s\<lparr>gsGuild := g\<rparr>) d" .
  with guilds_ok_put_back [OF assms(2) Some] Some show ?thesis by (simp add: with_guild_def)
qed (use assms(2) in \<open>simp add: with_guild_def\<close>)

lemma ResetTimes_ok:
  assumes "guilds_ok s"
  shows "returns_ok (GuildMgr_ResetTimes E s)"
proof -
  have "returns_ok (fold (\<lambda>(i, g) x. case x of None \<Rightarrow> None | Some s \<Rightarrow> with_guild i (\<lambda>s. Some (Guild_ResetTimes E s)) s) gs (Some t))"
    if "guilds_ok t" for gs t
    using that
  proof (induction gs arbitrary: t)
    case (Cons x gs)
    obtain i g where "x = (i, g)" by fastforce
    with reset.with_guild_ok [OF Cons.prems, of i E] Cons.IH show ?case by (auto simp: returns_ok_def)
  qed simp
  from this [OF assms, of "gsStore s"] show ?thesis
    by (auto simp: GuildMgr_ResetTimes_def returns_ok_def sql_def)
qed

text \<open>
  The server at work: packets of players, of which only who is in no guild declines an invitation;
  players logging in and out; the reset of the daily limits; charters turned in; a character that is
  deleted or taken out of the guild by a game master; and the game masters' commands that found a guild
  (a charter nobody signed), add a player to one, set a rank and disband a guild
  (src/src/server/scripts/Commands/cs_guild.cpp).
\<close>

inductive guild_step :: "gst \<Rightarrow> gst \<Rightarrow> bool" where
  packet: "genv_ok E \<Longrightarrow> guild_player p \<Longrightarrow> (opcode = 0x085 \<longrightarrow> gsGuildOf s (GUID_LOPART p) = 0) \<Longrightarrow>
    handle_guild_packet E p opcode b s = Some (s', err) \<Longrightarrow> guild_step s s'"
| logged_in: "genv_ok E \<Longrightarrow> guild_player p \<Longrightarrow> on_my_guild p (\<lambda>s. Some (SendLoginInfo E p s)) s = Some s' \<Longrightarrow> guild_step s s'"
| logged_out: "genv_ok E \<Longrightarrow> guild_player p \<Longrightarrow> on_my_guild p (\<lambda>s. Some (HandleMemberLogout E p s)) s = Some s' \<Longrightarrow> guild_step s s'"
| day: "GuildMgr_ResetTimes E s = Some s' \<Longrightarrow> guild_step s s'"
| charter: "genv_ok E \<Longrightarrow> guild_player p \<Longrightarrow> gsNextId s < 0xFFFFFFFE \<Longrightarrow> guild_step s (turn_in_charter E p name signs s)"
| removed: "genv_ok E \<Longrightarrow> guild_player p \<Longrightarrow> on_my_guild p (Guild_DeleteMember E p False isKicked) s = Some s' \<Longrightarrow> guild_step s s'"
| added: "genv_ok E \<Longrightarrow> guild_player p \<Longrightarrow> with_guild i (\<lambda>s. Some (snd (Guild_AddMember E p r s))) s = Some s' \<Longrightarrow> guild_step s s'"
| ranked: "genv_ok E \<Longrightarrow> guild_player p \<Longrightarrow> on_my_guild p (\<lambda>s. Some (snd (Guild_ChangeMemberRank E p r s))) s = Some s' \<Longrightarrow> guild_step s s'"
| disbanded: "genv_ok E \<Longrightarrow> with_guild i (Guild_Disband E) s = Some s' \<Longrightarrow> guild_step s s'"

lemma guild_step_ok:
  assumes "guild_step s s'" and "guilds_ok s"
  shows "guilds_ok s'"
  using assms
proof (cases rule: guild_step.cases)
  case (packet E p opcode b err)
  then show ?thesis using handle_guild_packet_fine [of E p s opcode b] assms(2) by (simp add: fine_def)
next
  case (logged_in E p)
  from login.op.on_my_guild_ok [OF logged_in(1,2) assms(2), of E p] logged_in(3) show ?thesis by (simp add: returns_ok_def)
next
  case (logged_out E p)
  from logout.op.on_my_guild_ok [OF logged_out(1,2) assms(2), of E p] logged_out(3) show ?thesis by (simp add: returns_ok_def)
next
  case (day E)
  then show ?thesis using ResetTimes_ok [of s E] assms(2) by (simp add: returns_ok_def)
next
  case (removed E p isKicked)
  from delete_member.on_my_guild_ok [OF removed(1,2) assms(2), of isKicked] removed(3) show ?thesis by (simp add: returns_ok_def)
next
  case (added E p i r)
  from with_guild_AddMember_ok [OF added(1,2) assms(2), of i r] added(3) show ?thesis by (simp add: returns_ok_def)
next
  case (ranked E p r)
  from set_rank.op.on_my_guild_ok [OF ranked(1,2) assms(2), of E p r] ranked(3) show ?thesis by (simp add: returns_ok_def)
next
  case (disbanded E i)
  from with_guild_Disband_ok [OF disbanded(1) assms(2), of i] disbanded(2) show ?thesis by (simp add: returns_ok_def)
qed (use assms(2) turn_in_charter_ok in simp)

definition guild_server :: "gst \<Rightarrow> bool" where
  "guild_server s \<longleftrightarrow> gsStore s = [] \<and> gsNextId s = 1 \<and> gsGuildOf s = (\<lambda>_. 0)"

lemma guilds_ok_reachable:
  assumes "guild_server s" and "guild_step\<^sup>*\<^sup>* s t"
  shows "guilds_ok t"
  using assms(2)
proof (induction rule: rtranclp_induct)
  case base
  then show ?case using assms(1) by (simp add: guild_server_def guilds_ok_def)
qed (use guild_step_ok in blast)

lemma guilds_ok_store:
  assumes "guilds_ok t" and "(i, g) \<in> set (gsStore t)"
  shows "focus_ok i (t\<lparr>gsGuild := g\<rparr>)"
  using assms by (force simp: guilds_ok_def stored_ok_def)

lemma membership_of_ok:
  assumes "guilds_ok t"
  shows "gsGuildOf t k = i \<longleftrightarrow>
    (if i = 0 then \<forall>(j, h)\<in>set (gsStore t). k \<notin> keys h else \<exists>g. (i, g) \<in> set (gsStore t) \<and> k \<in> keys g)"
proof -
  have mem: "(k \<in> keys h \<longleftrightarrow> gsGuildOf t k = j) \<and> j \<noteq> 0" if "(j, h) \<in> set (gsStore t)" for j h
    using guilds_ok_store [OF assms that] by (simp add: focus_ok_def)
  have ex: "\<exists>h. (gsGuildOf t k, h) \<in> set (gsStore t)" if "gsGuildOf t k \<noteq> 0"
    using assms that by (force simp: guilds_ok_def)
  show ?thesis
  proof (cases "i = 0")
    case True
    have "gsGuildOf t k = 0" if "\<forall>(j, h)\<in>set (gsStore t). k \<notin> keys h"
    proof (rule ccontr)
      assume "gsGuildOf t k \<noteq> 0"
      from ex [OF this] obtain h where "(gsGuildOf t k, h) \<in> set (gsStore t)" by blast
      with mem that show False by blast
    qed
    moreover have "k \<notin> keys h" if "gsGuildOf t k = 0" "(j, h) \<in> set (gsStore t)" for j h
      using mem [OF that(2)] that(1) by simp
    ultimately have "gsGuildOf t k = 0 \<longleftrightarrow> (\<forall>(j, h)\<in>set (gsStore t). k \<notin> keys h)" by blast
    then show ?thesis by (simp only: True if_True refl simp_thms)
  next
    case False
    then have "gsGuildOf t k = i \<longleftrightarrow> (\<exists>g. (i, g) \<in> set (gsStore t) \<and> k \<in> keys g)" using mem ex by metis
    with False show ?thesis by (simp only: if_False)
  qed
qed

definition guild_shape :: "u32 \<times> guild \<Rightarrow> bool" where
  "guild_shape x \<longleftrightarrow> (let (i, g) = x in gId g = i \<and> GetMember (gLeaderGuid g) g \<noteq> None \<and>
     5 \<le> length (gRanks g) \<and> length (gRanks g) \<le> 10 \<and> map riRankId (gRanks g) = map of_nat [0..<length (gRanks g)] \<and>
     GetRankRights GR_GUILDMASTER g AND GR_RIGHT_ALL = GR_RIGHT_ALL \<and>
     length (gBankTabs g) \<le> 6 \<and> list_all (\<lambda>tab. length (btItems tab) = 98) (gBankTabs g))"

lemma shape_of_ok:
  assumes "guild_ok g"
  shows "guild_shape (gId g, g)"
proof -
  from assms have ranks: "ranks_seq (gRanks g)" "5 \<le> length (gRanks g)" and tabs: "tabs_ok (gId g) (gBankTabs g)"
    by (simp_all add: guild_ok_def ranks_ok_def)
  have leader: "GetMember (gLeaderGuid g) g \<noteq> None"
    using leader_player_guid [OF assms] by (simp add: GetMember_def map_of_eq_None_iff)
  have len: "length (gRanks g) \<le> 10" "map riRankId (gRanks g) = map of_nat [0..<length (gRanks g)]"
    using ranks(1) by (simp_all add: ranks_seq_def)
  obtain r rs where "gRanks g = r # rs" using ranks(2) by (cases "gRanks g") auto
  then have "gRanks g \<noteq> []" "riRankId (gRanks g ! 0) = GR_GUILDMASTER" using len(2) by (simp_all add: GR_GUILDMASTER_def upt_rec)
  moreover have "gRanks g ! 0 \<in> set (gRanks g)" using ranks(2) by (intro nth_mem) linarith
  ultimately have "riRights (gRanks g ! 0) AND GR_RIGHT_ALL = GR_RIGHT_ALL" using ranks(1) by (simp add: ranks_seq_def)
  moreover have "GR_GUILDMASTER < Guild_GetRanksSize g"
    using ranks_size [OF len(1)] \<open>gRanks g \<noteq> []\<close> by (simp add: word_less_nat_alt GR_GUILDMASTER_def)
  ultimately have "GetRankRights GR_GUILDMASTER g AND GR_RIGHT_ALL = GR_RIGHT_ALL"
    by (simp add: GetRankRights_def GetRankInfo_def GR_GUILDMASTER_def)
  then show ?thesis using leader len ranks(2) tabs by (simp add: guild_shape_def tabs_ok_def list_all_iff)
qed

text \<open>
  C37. From a server without guilds until the next restart, through any packets, logins, charters,
  deletions of characters and game masters' commands: the guild id kept for a player is that of the one
  guild the player is a member of, and zero without one; every guild has its leader among its members,
  from five to ten ranks numbered in order, at most six tabs of 98 slots, and a guild master's rank that
  has every right. Assumed: every character is in the global storage, the hash table of members iterates
  in some order, guild ids do not run out, and an invitation is declined only by who is in no guild (what
  happens otherwise is \<open>decline_forgets_membership\<close> below).
\<close>

theorem guilds_consistent:
  assumes "guild_server s" and "guild_step\<^sup>*\<^sup>* s t"
  shows "(gsGuildOf t k = i \<longleftrightarrow>
      (if i = 0 then \<forall>(j, h)\<in>set (gsStore t). k \<notin> keys h else \<exists>g. (i, g) \<in> set (gsStore t) \<and> k \<in> keys g)) \<and>
    list_all guild_shape (gsStore t)"
proof -
  note ok = guilds_ok_reachable [OF assms]
  have "guild_shape x" if "x \<in> set (gsStore t)" for x
    using guilds_ok_store [OF ok, of "fst x" "snd x"] shape_of_ok [of "snd x"] that by (simp add: focus_ok_def)
  with membership_of_ok [OF ok, of k i] show ?thesis by (simp add: list_all_iff)
qed

text \<open>A server for the examples: everybody is online, nothing is hooked.\<close>

definition demo_env :: gEnv where
  "demo_env = \<lparr>geOnline = (\<lambda>_. True), geStats = (\<lambda>p. \<lparr>gsName = (if p = 7 then ''Ann'' else if p = 8 then ''Bob'' else ''Cy''), gsLevel = 80, gsClass = 1, gsZone = 1, gsAccount = 1\<rparr>),
     geTeam = (\<lambda>_. 0), geStoredTeam = (\<lambda>_. 0), geIgnores = (\<lambda>_ _. False), geByName = (\<lambda>_. None), geStored = (\<lambda>_. None),
     geInStore = (\<lambda>_. True), geStoredLevel = (\<lambda>_. 80), geZoneFromDB = (\<lambda>_. 1), geNow = 1000, geGameTime = 1000,
     geTwoSide = False, geMultiMaster = False, geEventLogCount = 100, geBankLogCount = 25, geRankName = (\<lambda>_. ''rank''),
     geDefaultRankName = (\<lambda>_. ''rank''), geOrder = id, geDepositHook = (\<lambda>_ a. a), geWithdrawHook = (\<lambda>_ a _. a),
     geMoneyHook = (\<lambda>_ a. a), geSendBankList = (\<lambda>_ _ _. True), geChatPacket = (\<lambda>_ _ _ _. (0x96, [])), geDaysFloat = (\<lambda>_. 0),
     geLocaltime = (\<lambda>_. tm_zero), geTruncate = take, geRandomProperty = (\<lambda>_. 0), geSuffixFactor = (\<lambda>_. 0),
     geSpellCharges = (\<lambda>_. 0), geEnchantment = (\<lambda>_ _. 0), geItemByPos = (\<lambda>_ _ _. None), geNotEmptyBag = (\<lambda>_. False),
     geCanBeTraded = (\<lambda>_. True), geCanStoreItem = (\<lambda>_ _ _ _ _. (EQUIP_ERR_OK, [])), geTemplate = (\<lambda>_. True), geNormalize = Some,
     geCanUseBank = (\<lambda>_ _. True), geTabardDesigner = (\<lambda>_ _. True), geFeignsDeath = (\<lambda>_. False)\<rparr>"

definition demo_server :: gst where
  "demo_server = \<lparr>gsGuild = Guild_new, gsStore = [], gsNextId = 1, gsGuildOf = (\<lambda>_. 0), gsRankOf = (\<lambda>_. 0), gsInvited = (\<lambda>_. 0),
     gsMoney = (\<lambda>_. 500000), gsNextItem = 1, gsOut = []\<rparr>"

lemma demo_genv_ok [simp]: "genv_ok demo_env"
  by (simp add: genv_ok_def demo_env_def)

lemma demo_server_ok [simp]: "guild_server demo_server"
  by (simp add: guild_server_def demo_server_def)

lemma demo_players_ok [simp]: "guild_player 7" "guild_player 8" "guild_player 9"
  by (simp_all add: guild_player_def MAKE_NEW_GUID_def HIGHGUID_PLAYER_def GUID_LOPART_def IsGuidHaveEnPart_def GUID_HIPART_def
      highguid_defs)

lemma guild_player_eq: "MAKE_NEW_GUID a 0 HIGHGUID_PLAYER = MAKE_NEW_GUID b 0 HIGHGUID_PLAYER \<longleftrightarrow> a = b"
  by (metis player_guid_parts(3))

lemma AddMember_online:
  "geOnline E guid \<Longrightarrow> gsGuildOf s (GUID_LOPART guid) = 0 \<Longrightarrow> fst (Guild_AddMember E guid r s)"
  by (simp add: Guild_AddMember_def Let_def split_def)

text \<open>The guild of a charter that nobody else signed.\<close>

definition demo_guild :: guild where
  "demo_guild = gsGuild (snd (Guild_Create demo_env 7 ''Azeroth'' (demo_server\<lparr>gsGuild := Guild_new\<rparr>)))"

lemma demo_charter:
  "gsStore (turn_in_charter demo_env 7 ''Azeroth'' [] demo_server) = [(1, demo_guild)]"
  "gsGuildOf (turn_in_charter demo_env 7 ''Azeroth'' [] demo_server) = (\<lambda>_. 0)(7 := 1)"
  "guild_ok demo_guild \<and> keys demo_guild = {7} \<and> gId demo_guild = 1"
proof -
  have low: "GUID_LOPART 7 = 7" by (simp add: GUID_LOPART_def IsGuidHaveEnPart_def GUID_HIPART_def highguid_defs)
  let ?c = "Guild_Create demo_env 7 ''Azeroth'' (demo_server\<lparr>gsGuild := Guild_new\<rparr>)"
  have zero: "gsGuildOf demo_server k = 0" for k by (simp add: demo_server_def)
  have none: "GetGuildByName ''Azeroth'' demo_server = None" by (simp add: GetGuildByName_def demo_server_def)
  have "fst ?c"
    using AddMember_online [of demo_env 7 "CreateDefaultGuildRanks (geRankName demo_env) (create_row demo_env 7 ''Azeroth'' (demo_server\<lparr>gsGuild := Guild_new\<rparr>))" GR_GUILDMASTER]
    by (simp add: Guild_Create_def Let_def split_def create_row_fields zero) (simp add: GetGuildByName_def demo_server_def demo_env_def)
  then obtain t where c: "?c = (True, t)" by (cases ?c) auto
  note new = Guild_Create_ok [OF demo_genv_ok demo_players_ok(1) zero c]
  have t: "gsStore t = []" "gsGuild t = demo_guild" using new(1) c by (simp_all add: demo_server_def demo_guild_def)
  have "gId (gsGuild t) = 1 \<and> guild_ok (gsGuild t) \<and> keys (gsGuild t) = {7} \<and> gsGuildOf t = (\<lambda>_. 0)(7 := 1)"
    using new(3) low by (simp add: demo_server_def)
  then show "gsStore (turn_in_charter demo_env 7 ''Azeroth'' [] demo_server) = [(1, demo_guild)]"
    "gsGuildOf (turn_in_charter demo_env 7 ''Azeroth'' [] demo_server) = (\<lambda>_. 0)(7 := 1)"
    "guild_ok demo_guild \<and> keys demo_guild = {7} \<and> gId demo_guild = 1"
    using c t zero by (simp_all add: turn_in_charter_def Let_def put_back_def GuildMgr_AddGuild_def)
qed

theorem guilds_consistent_witness:
  "(7 :: u32) \<in> keys demo_guild \<and> list_all guild_shape [(1, demo_guild)]"
proof -
  have "guild_step\<^sup>*\<^sup>* demo_server (turn_in_charter demo_env 7 ''Azeroth'' [] demo_server)"
    by (rule r_into_rtranclp, rule charter) (simp_all add: demo_server_def)
  from guilds_consistent [OF demo_server_ok this, of 7 1] demo_charter show ?thesis by simp
qed

text \<open>
  Every packet's handler returns, whatever the bytes, also those that disband a guild, whose loop
  is not obviously finite, and leaves the store in order.
\<close>

theorem guild_packets_return:
  assumes "genv_ok E" and "guild_player p" and "guilds_ok s" and "opcode = 0x085 \<Longrightarrow> gsGuildOf s (GUID_LOPART p) = 0"
  shows "\<exists>s' err. handle_guild_packet E p opcode b s = Some (s', err) \<and> guilds_ok s'"
  using handle_guild_packet_fine [OF assms] by (simp add: fine_def)

theorem guild_packets_return_witness:
  "\<exists>s' err. handle_guild_packet demo_env 7 0x08F bb_new (turn_in_charter demo_env 7 ''Azeroth'' [] demo_server) = Some (s', err) \<and>
     guilds_ok s'"
proof -
  have "guilds_ok demo_server" by (simp add: guilds_ok_def demo_server_def)
  from turn_in_charter_ok [OF demo_genv_ok demo_players_ok(1) this, of "''Azeroth''" "[]"]
  have "guilds_ok (turn_in_charter demo_env 7 ''Azeroth'' [] demo_server)" by (simp add: demo_server_def)
  from guild_packets_return [OF demo_genv_ok demo_players_ok(1) this, of "0x08F" bb_new] show ?thesis by simp
qed

text \<open>
  A leader who disbands the guild ends it: the packet's handler returns, the guild is no longer in the
  store, none of its members is in a guild, and the other guilds and players are as before.
\<close>

theorem guild_disband_clears:
  assumes "genv_ok E" and "guild_player p" and "guilds_ok s" and "Player_GetGuild p s = Some g" and "Guild_IsLeader p g"
  shows "\<exists>s'. handle_guild_packet E p 0x08F b s = Some (s', None) \<and> GetGuildById (gId g) s' = None \<and>
    gsGuildOf s' = (\<lambda>k. if k \<in> keys g then 0 else gsGuildOf s k) \<and> (\<forall>j. j \<noteq> gId g \<longrightarrow> GetGuildById j s' = GetGuildById j s)"
proof -
  let ?i = "gsGuildOf s (GUID_LOPART p)" and ?s = "s\<lparr>gsGuild := g\<rparr>"
  have get: "GetGuildById ?i s = Some g" using assms(4) by (simp add: Player_GetGuild_def Let_def split: if_splits)
  have focus: "focus_ok ?i ?s" by (rule guilds_ok_focus [OF assms(3) get])
  then have i: "gId g = ?i" by (simp add: focus_ok_def)
  from disband_ends [OF assms(1) focus_members [OF focus]] obtain t where t: "Guild_Disband E ?s = Some t"
    "gsStore t = filter (\<lambda>(j, g). j \<noteq> gId (gsGuild ?s)) (gsStore ?s)"
    "gsGuildOf t = (\<lambda>k. if k \<in> keys (gsGuild ?s) then 0 else gsGuildOf ?s k)" by blast
  have "HandleDisband E p ?s = Some t" using assms(5) t(1) by (simp add: HandleDisband_def)
  then have run: "handle_guild_packet E p 0x08F b s = Some (put_back ?i t, None)"
    using get assms(4) by (simp add: handle_guild_packet_def HandleGuildDisbandOpcode_def on_my_guild_def with_guild_def g_done_def)
  have store: "gsStore (put_back ?i t) = filter (\<lambda>(j, g). j \<noteq> ?i) (gsStore s)"
    using t(2) i by (simp add: put_back_def) (rule map_idI, auto)
  have "map_of (filter (\<lambda>(j, g). j \<noteq> ?i) xs) j = (if j = ?i then None else map_of xs j)" for xs :: "(u32 \<times> guild) list" and j
    by (induction xs) auto
  then show ?thesis using run i t(3) by (simp add: GetGuildById_def store) (simp add: put_back_def cong: if_cong)
qed

theorem guild_disband_clears_witness:
  "\<exists>s'. handle_guild_packet demo_env 7 0x08F bb_new (turn_in_charter demo_env 7 ''Azeroth'' [] demo_server) = Some (s', None) \<and>
     GetGuildById 1 s' = None"
proof -
  let ?s = "turn_in_charter demo_env 7 ''Azeroth'' [] demo_server"
  have "guilds_ok demo_server" by (simp add: guilds_ok_def demo_server_def)
  from turn_in_charter_ok [OF demo_genv_ok demo_players_ok(1) this, of "''Azeroth''" "[]"]
  have ok: "guilds_ok ?s" by (simp add: demo_server_def)
  have low: "GUID_LOPART 7 = 7" by (simp add: GUID_LOPART_def IsGuidHaveEnPart_def GUID_HIPART_def highguid_defs)
  have mine: "Player_GetGuild 7 ?s = Some demo_guild" by (simp add: Player_GetGuild_def GetGuildById_def demo_charter low)
  have "gLeaderGuid demo_guild = 7"
  proof -
    have "guild_player (gLeaderGuid demo_guild) \<and> GUID_LOPART (gLeaderGuid demo_guild) = 7"
      using leader_player_guid [of demo_guild] demo_charter(3) by simp
    then show ?thesis using guild_player_inj [of "gLeaderGuid demo_guild" 7] low by simp
  qed
  then have "Guild_IsLeader 7 demo_guild" by (simp add: Guild_IsLeader_def)
  from guild_disband_clears [OF demo_genv_ok demo_players_ok(1) ok mine this, of bb_new] demo_charter(3) show ?thesis by auto
qed

section \<open>Succession and rank\<close>

lemma SetLeaderGUID_guild:
  "gsGuild (SetLeaderGUID E k m s) = upd_member k (\<lambda>m. m\<lparr>mbRankId := GR_GUILDMASTER\<rparr>) (gsGuild s\<lparr>gLeaderGuid := mbGuid m\<rparr>)"
  by (simp add: SetLeaderGUID_def Member_ChangeRank_def Let_def)

lemma map_of_upd_member:
  "map_of (gMembers (upd_member k f g)) j = (if j = k then map_option f (map_of (gMembers g) k) else map_of (gMembers g) j)"
proof -
  have "map_of (map (\<lambda>(j, m). if j = k then (j, f m) else (j, m)) ms) j = (if j = k then map_option f (map_of ms k) else map_of ms j)" for ms
    by (induction ms) auto
  then show ?thesis by (simp add: upd_member_def)
qed

lemma keys_filter: "fst ` set (filter (\<lambda>(k, m). k \<noteq> a) ms) = fst ` set ms - {a}"
  by force

lemma map_of_filter_key: "map_of (filter (\<lambda>(k, m). k \<noteq> a) ms) j = (if j = a then None else map_of ms j)"
  by (induction ms) auto

lemma lowest_rank:
  assumes "gRanks g \<noteq> []" and "length (gRanks g) \<le> 10"
  shows "unat (Guild_GetLowestRankId g) = length (gRanks g) - 1"
proof -
  have "Guild_GetLowestRankId g = of_nat (length (gRanks g) - 1)"
    using assms(1) by (simp add: Guild_GetLowestRankId_def of_nat_diff Suc_le_eq)
  moreover have "unat (of_nat (length (gRanks g) - 1) :: u8) = length (gRanks g) - 1"
    using assms(2) by (simp only: unat_of_nat) simp
  ultimately show ?thesis by simp
qed

text \<open>
  When the leader goes, as when the character is deleted, the guild lives on as long as somebody is left:
  the new leader is one of the others with the highest rank, becomes guild master, and the old leader is in
  no guild.
\<close>

theorem guild_succession:
  assumes "genv_ok E" and "focus_ok i s" and "x \<in> set (gMembers (gsGuild s))" and "mbGuid (snd x) \<noteq> gLeaderGuid (gsGuild s)"
  shows "\<exists>s' k m. Guild_DeleteMember E (gLeaderGuid (gsGuild s)) False kicked s = Some s' \<and>
    (k, m) \<in> set (gMembers (gsGuild s)) \<and> mbGuid m \<noteq> gLeaderGuid (gsGuild s) \<and>
    list_all (\<lambda>(k', m'). mbGuid m' = gLeaderGuid (gsGuild s) \<or> mbRankId m \<le> mbRankId m') (gMembers (gsGuild s)) \<and>
    gLeaderGuid (gsGuild s') = mbGuid m \<and> GetMember (mbGuid m) (gsGuild s') = Some (m\<lparr>mbRankId := GR_GUILDMASTER\<rparr>) \<and>
    keys (gsGuild s') = keys (gsGuild s) - {GUID_LOPART (gLeaderGuid (gsGuild s))} \<and>
    gsGuildOf s' (GUID_LOPART (gLeaderGuid (gsGuild s))) = 0"
proof -
  let ?g = "gsGuild s" and ?l = "gLeaderGuid (gsGuild s)"
  have ok: "guild_ok ?g" using assms(2) by (simp add: focus_ok_def)
  note leader = leader_player_guid [OF ok]
  have key: "k = GUID_LOPART (mbGuid m) \<and> (k = GUID_LOPART ?l \<longleftrightarrow> mbGuid m = ?l)" if "(k, m) \<in> set (gMembers ?g)" for k m
    using member_player_guid [OF guild_ok_member [OF ok that]] leader guild_player_inj by blast
  have "fst x \<noteq> GUID_LOPART ?l" using conjunct2 [OF key [of "fst x" "snd x"]] assms(3,4) by simp
  then obtain k m where new: "new_leader (GUID_LOPART ?l) (gMembers ?g) None = Some (k, m)"
    using assms(3) new_leader_None [of "GUID_LOPART ?l" "gMembers ?g"] by (cases "new_leader (GUID_LOPART ?l) (gMembers ?g) None") auto
  note spec = new_leader_Some [OF new]
  have m: "map_of (gMembers ?g) k = Some m" using spec(1) ok by (simp add: guild_ok_def roster_ok_def)
  have km: "GUID_LOPART (mbGuid m) = k" "mbGuid m \<noteq> ?l" using key [OF spec(1)] spec(2) by simp_all
  obtain t where t: "Guild_DeleteMember E ?l False kicked s = Some (erase_guild_member E ?l False kicked t)"
    and tg: "gsGuild t = gsGuild (SetLeaderGUID E k m s)"
    using new by (auto simp: Guild_DeleteMember_def Let_def split: option.splits)
  let ?s' = "erase_guild_member E ?l False kicked t"
  have members: "gMembers (gsGuild ?s') = filter (\<lambda>(j, m). j \<noteq> GUID_LOPART ?l) (gMembers (gsGuild (SetLeaderGUID E k m s)))"
    by (simp add: tg)
  have "gLeaderGuid (gsGuild ?s') = mbGuid m" by (simp add: tg SetLeaderGUID_guild)
  moreover have "GetMember (mbGuid m) (gsGuild ?s') = Some (m\<lparr>mbRankId := GR_GUILDMASTER\<rparr>)"
    using spec(2) m unfolding GetMember_def members by (simp add: map_of_filter_key SetLeaderGUID_guild map_of_upd_member km)
  moreover have "keys (gsGuild (SetLeaderGUID E k m s)) = keys ?g" unfolding SetLeaderGUID_guild by simp
  then have "keys (gsGuild ?s') = keys ?g - {GUID_LOPART ?l}" unfolding members keys_filter by simp
  moreover have "list_all (\<lambda>(k', m'). mbGuid m' = ?l \<or> mbRankId m \<le> mbRankId m') (gMembers ?g)"
    using spec(3) key by (fastforce simp: list_all_iff)
  moreover have "gsGuildOf ?s' (GUID_LOPART ?l) = 0" by (simp add: erase_guild_member_guild_of [OF assms(1)])
  ultimately show ?thesis using t spec(1) km(2) by blast
qed

text \<open>A guild of three for the examples: a master, an officer of rank 1 and a member of rank 5, the lowest.\<close>

definition demo_rank :: "nat \<Rightarrow> rankInfo" where
  "demo_rank i = \<lparr>riGuildId = 1, riRankId = of_nat i, riName = ''rank'', riRights = (if i < 2 then GR_RIGHT_ALL else GR_RIGHT_GCHATLISTEN),
     riMoneyPerDay = (if i = 0 then GUILD_WITHDRAW_MONEY_UNLIMITED else 1000), riTabs = replicate 6 bankRights_new\<rparr>"

definition demo_member :: "u32 \<Rightarrow> string \<Rightarrow> u8 \<Rightarrow> u32 \<times> gMember" where
  "demo_member k name r = (k, \<lparr>mbGuildId = 1, mbGuid = MAKE_NEW_GUID k 0 HIGHGUID_PLAYER, mbName = name, mbZoneId = 1, mbLevel = 80,
     mbClass = 1, mbFlags = 1, mbLogoutTime = 0, mbAccountId = k, mbRankId = r, mbPublicNote = '''', mbOfficerNote = '''',
     mbWithdraw = replicate 7 0\<rparr>)"

definition demo3 :: gst where
  "demo3 = demo_server\<lparr>gsGuild := Guild_new\<lparr>gId := 1, gLeaderGuid := MAKE_NEW_GUID 7 0 HIGHGUID_PLAYER, gBankMoney := 50000,
     gRanks := map demo_rank [0..<6], gMembers := [demo_member 7 ''Ann'' 0, demo_member 8 ''Bob'' 1, demo_member 9 ''Cy'' 5],
     gEventLog := LogHolder_new 1 100, gBankEventLog := replicate 7 (LogHolder_new 1 25)\<rparr>,
     gsGuildOf := (\<lambda>k. if k \<in> {7, 8, 9} then 1 else 0)\<rparr>"

lemma demo3_guild:
  "gId (gsGuild demo3) = 1" "gLeaderGuid (gsGuild demo3) = MAKE_NEW_GUID 7 0 HIGHGUID_PLAYER" "gBankMoney (gsGuild demo3) = 50000"
  "gMembers (gsGuild demo3) = [demo_member 7 ''Ann'' 0, demo_member 8 ''Bob'' 1, demo_member 9 ''Cy'' 5]"
  "gRanks (gsGuild demo3) = map demo_rank [0..<6]" "gBankTabs (gsGuild demo3) = []" "length (gBankEventLog (gsGuild demo3)) = 7"
  "gsGuildOf demo3 = (\<lambda>k. if k \<in> {7, 8, 9} then 1 else 0)" "gsMoney demo3 p = 500000"
  by (simp_all add: demo3_def Guild_new_def demo_server_def)

lemma demo3_ok: "focus_ok 1 demo3"
proof -
  have "ranks_seq (map demo_rank [0..<6])" by (simp add: ranks_seq_def demo_rank_def GR_GUILDMASTER_def upt_rec)
  then show ?thesis
    by (simp add: focus_ok_def guild_ok_def demo3_guild ranks_ok_def roster_ok_def member_ok_def leader_ok_def tabs_ok_def demo_member_def)
qed

theorem guild_succession_witness:
  "\<exists>s'. Guild_DeleteMember demo_env (MAKE_NEW_GUID 7 0 HIGHGUID_PLAYER) False False demo3 = Some s' \<and> keys (gsGuild s') = {8, 9}"
proof -
  have "\<exists>s' k m. Guild_DeleteMember demo_env (gLeaderGuid (gsGuild demo3)) False False demo3 = Some s' \<and>
      keys (gsGuild s') = keys (gsGuild demo3) - {GUID_LOPART (gLeaderGuid (gsGuild demo3))}"
    using guild_succession [OF demo_genv_ok demo3_ok, of "demo_member 8 ''Bob'' 1" False]
    by (simp add: demo3_guild demo_member_def guild_player_eq) blast
  then show ?thesis by (simp add: demo3_guild demo_member_def)
qed

text \<open>
  Promoting and demoting respect the ranks: a member whose rank exists changes at most one member, another
  one of a lower rank, by one, who stays below the actor, and no demotion leads below the lowest rank.
\<close>

theorem rank_changes_respect_hierarchy:
  fixes s E p name demote
  defines "s' \<equiv> HandleUpdateMemberRank E p name demote s" and "lowest \<equiv> Guild_GetLowestRankId (gsGuild s)"
  assumes "focus_ok i s" and "GetMember p (gsGuild s) = Some me" and "mbRankId me \<le> lowest"
  shows "gMembers (gsGuild s') = gMembers (gsGuild s) \<or>
    (\<exists>k m r. (k, m) \<in> set (gMembers (gsGuild s)) \<and> mbName m = name \<and> mbGuid m \<noteq> p \<and>
       mbRankId me < mbRankId m \<and> mbRankId me < r \<and> (if demote then r = mbRankId m + 1 \<and> r \<le> lowest else r = mbRankId m - 1) \<and>
       gMembers (gsGuild s') = gMembers (upd_member k (\<lambda>m. m\<lparr>mbRankId := r\<rparr>) (gsGuild s)))"
proof -
  have len: "5 \<le> length (gRanks (gsGuild s))" "length (gRanks (gsGuild s)) \<le> 10"
    using assms(3) by (simp_all add: focus_ok_def guild_ok_def ranks_ok_def ranks_seq_def)
  have low: "unat lowest = length (gRanks (gsGuild s)) - 1" unfolding lowest_def using len by (intro lowest_rank) auto
  then have me: "unat (mbRankId me) \<le> 9" using len assms(5) by (simp add: word_le_nat_alt)
  then have suc: "unat (mbRankId me + 1) = unat (mbRankId me) + 1" by (simp add: unat_word_ariths)
  show ?thesis
  proof (cases "GetMemberByName name (gsGuild s)")
    case None
    then show ?thesis by (simp add: s'_def HandleUpdateMemberRank_def Let_def)
  next
    case (Some x)
    obtain k m where x: "x = (k, m)" by fastforce
    note km = GetMemberByName_in [OF Some [unfolded x]]
    show ?thesis
    proof (cases "gMembers (gsGuild s') = gMembers (gsGuild s)")
      case False
      let ?r = "if demote then mbRankId m + 1 else mbRankId m - 1"
      from False have go: "mbGuid m \<noteq> p" "demote \<Longrightarrow> \<not> IsRankNotLower m (mbRankId me)" "demote \<Longrightarrow> \<not> mbRankId m \<ge> lowest"
        "\<not> demote \<Longrightarrow> \<not> IsRankNotLower m (mbRankId me + 1)"
        and s': "gMembers (gsGuild s') = gMembers (upd_member k (\<lambda>m. m\<lparr>mbRankId := ?r\<rparr>) (gsGuild s))"
        unfolding s'_def HandleUpdateMemberRank_def lowest_def
        by (auto simp: Let_def Some x assms(4) Member_ChangeRank_def split: if_splits)
      have "mbRankId me < mbRankId m \<and> mbRankId me < ?r \<and> (demote \<longrightarrow> ?r \<le> lowest)"
      proof (cases demote)
        case True
        then have "unat (mbRankId me) < unat (mbRankId m)" "unat (mbRankId m) < unat lowest"
          using go by (simp_all add: IsRankNotLower_def word_le_nat_alt not_le)
        moreover from this have "unat (mbRankId m + 1) = unat (mbRankId m) + 1" using low len by (simp add: unat_word_ariths)
        ultimately show ?thesis using True by (simp add: word_less_nat_alt word_le_nat_alt)
      next
        case False
        then have "unat (mbRankId me) + 1 < unat (mbRankId m)"
          using go(4) suc by (simp add: IsRankNotLower_def word_le_nat_alt not_le)
        moreover from this have "unat (mbRankId m - 1) = unat (mbRankId m) - 1"
          by (subst unat_minus_one) (auto simp: unat_eq_0 [symmetric])
        ultimately show ?thesis using False by (simp add: word_less_nat_alt)
      qed
      then show ?thesis using km go(1) s'
        by (intro disjI2 exI [of _ k] exI [of _ m] exI [of _ ?r]) (simp split: if_splits)
    qed simp
  qed
qed

theorem rank_changes_respect_hierarchy_witness:
  "gMembers (gsGuild (HandleUpdateMemberRank demo_env (MAKE_NEW_GUID 8 0 HIGHGUID_PLAYER) ''Cy'' False demo3)) =
     [demo_member 7 ''Ann'' 0, demo_member 8 ''Bob'' 1, demo_member 9 ''Cy'' 4]"
proof -
  let ?p = "MAKE_NEW_GUID 8 0 HIGHGUID_PLAYER"
  have me: "GetMember ?p (gsGuild demo3) = Some (snd (demo_member 8 ''Bob'' 1))"
    by (simp add: GetMember_def demo3_guild demo_member_def)
  have "mbRankId (snd (demo_member 8 ''Bob'' 1)) \<le> Guild_GetLowestRankId (gsGuild demo3)"
    by (simp add: demo_member_def Guild_GetLowestRankId_def demo3_guild)
  note spec = rank_changes_respect_hierarchy [OF demo3_ok me this, where E = demo_env and name = "''Cy''" and demote = False]
  have changed: "gMembers (gsGuild (HandleUpdateMemberRank demo_env ?p ''Cy'' False demo3)) \<noteq> gMembers (gsGuild demo3)"
    by (simp add: HandleUpdateMemberRank_def Let_def HasRankRight_def me GetMemberByName_def GetRankRights_def GetRankInfo_def
        Guild_GetRanksSize_def Member_ChangeRank_def upd_member_def IsRankNotLower_def demo3_guild demo_member_def demo_rank_def
        GR_RIGHT_ALL_def GR_RIGHT_PROMOTE_def GR_RIGHT_EMPTY_def guild_player_eq)
  from spec changed show ?thesis
    by (auto simp: demo3_guild demo_member_def upd_member_def split: if_splits)
qed

text \<open>A member who is not the leader, or has company, leaves or is removed: the others stay.\<close>

lemma DeleteMember_keys:
  assumes "focus_ok i s" and "x \<in> set (gMembers (gsGuild s))" and "fst x \<noteq> GUID_LOPART guid"
    and "Guild_DeleteMember E guid False kicked s = Some s'"
  shows "keys (gsGuild s') = keys (gsGuild s) - {GUID_LOPART guid}"
proof (cases "gLeaderGuid (gsGuild s) = guid")
  case False
  then have "s' = erase_guild_member E guid False kicked s" using assms(4) by (simp add: Guild_DeleteMember_def)
  then show ?thesis by (simp only: erase_guild_member_members keys_filter)
next
  case True
  then obtain k m where new: "new_leader (GUID_LOPART guid) (gMembers (gsGuild s)) None = Some (k, m)"
    using assms(2,3) new_leader_None [of "GUID_LOPART guid" "gMembers (gsGuild s)"]
    by (cases "new_leader (GUID_LOPART guid) (gMembers (gsGuild s)) None") auto
  obtain t where s': "s' = erase_guild_member E guid False kicked t" and tg: "gsGuild t = gsGuild (SetLeaderGUID E k m s)"
    using assms(4) True new by (auto simp: Guild_DeleteMember_def Let_def split: option.splits)
  have "keys (gsGuild (SetLeaderGUID E k m s)) = keys (gsGuild s)" unfolding SetLeaderGUID_guild by simp
  then show ?thesis unfolding s' erase_guild_member_members keys_filter tg by simp
qed

text \<open>
  Whoever removes a member by name outranks that member, who is no guild master: the members are
  then the others, or as before.
\<close>

theorem removal_respects_hierarchy:
  assumes "focus_ok i s" and "HandleRemoveMember E p name s = Some s'"
  shows "keys (gsGuild s') = keys (gsGuild s) \<or>
    (\<exists>k m me. (k, m) \<in> set (gMembers (gsGuild s)) \<and> mbName m = name \<and> mbRankId m \<noteq> GR_GUILDMASTER \<and>
       GetMember p (gsGuild s) = Some me \<and> mbRankId me < mbRankId m \<and> HasRankRight p GR_RIGHT_REMOVE (gsGuild s) \<and>
       keys (gsGuild s') = keys (gsGuild s) - {k})"
proof (cases "keys (gsGuild s') = keys (gsGuild s)")
  case False
  have "gMembers (gsGuild s') = gMembers (gsGuild s) \<or>
      (\<exists>k m me t. HasRankRight p GR_RIGHT_REMOVE (gsGuild s) \<and> GetMemberByName name (gsGuild s) = Some (k, m) \<and>
         mbRankId m \<noteq> GR_GUILDMASTER \<and> GetMember p (gsGuild s) = Some me \<and> \<not> IsRankNotLower m (mbRankId me) \<and>
         Guild_DeleteMember E (mbGuid m) False True s = Some t \<and> gMembers (gsGuild s') = gMembers (gsGuild t))"
    using assms(2) by (auto simp: HandleRemoveMember_def Let_def split: if_splits option.splits)
  with False obtain k m me t where go: "HasRankRight p GR_RIGHT_REMOVE (gsGuild s)" "GetMemberByName name (gsGuild s) = Some (k, m)"
    "mbRankId m \<noteq> GR_GUILDMASTER" "GetMember p (gsGuild s) = Some me" "\<not> IsRankNotLower m (mbRankId me)"
    and t: "Guild_DeleteMember E (mbGuid m) False True s = Some t" "gMembers (gsGuild s') = gMembers (gsGuild t)" by metis
  note km = GetMemberByName_in [OF go(2)]
  have ok: "guild_ok (gsGuild s)" using assms(1) by (simp add: focus_ok_def)
  have low: "GUID_LOPART (mbGuid m) = k" using member_player_guid [OF guild_ok_member [OF ok]] km by blast
  have less: "mbRankId me < mbRankId m" using go(5) by (simp add: IsRankNotLower_def)
  have mine: "(GUID_LOPART p, me) \<in> set (gMembers (gsGuild s))" by (rule GetMember_in [OF go(4)])
  have other: "GUID_LOPART p \<noteq> k"
  proof
    assume "GUID_LOPART p = k"
    then have "map_of (gMembers (gsGuild s)) k = Some me" using go(4) by (simp add: GetMember_def)
    moreover have "map_of (gMembers (gsGuild s)) k = Some m" using km ok by (simp add: guild_ok_def roster_ok_def)
    ultimately show False using less by simp
  qed
  have "fst (GUID_LOPART p, me) \<noteq> GUID_LOPART (mbGuid m)" using other by (simp only: low fst_conv not_False_eq_True)
  from DeleteMember_keys [OF assms(1) mine this t(1)] have "keys (gsGuild t) = keys (gsGuild s) - {k}" by (simp only: low)
  then have "keys (gsGuild s') = keys (gsGuild s) - {k}" by (simp only: t(2))
  then show ?thesis using go(1,3,4) km less by blast
qed blast

theorem removal_respects_hierarchy_witness:
  "\<exists>s'. HandleRemoveMember demo_env (MAKE_NEW_GUID 8 0 HIGHGUID_PLAYER) ''Cy'' demo3 = Some s' \<and> keys (gsGuild s') = {7, 8}"
proof -
  let ?p = "MAKE_NEW_GUID 8 0 HIGHGUID_PLAYER"
  have "guild_player ?p" "gsGuildOf demo3 (GUID_LOPART ?p) = 1" by (simp_all add: guild_player_def demo3_guild)
  from remove_member.keeps [OF demo_genv_ok this(1) demo3_ok this(2), of "''Cy''"]
  obtain s' where run: "HandleRemoveMember demo_env ?p ''Cy'' demo3 = Some s'" by blast
  have me: "GetMember ?p (gsGuild demo3) = Some (snd (demo_member 8 ''Bob'' 1))"
    by (simp add: GetMember_def demo3_guild demo_member_def)
  obtain t where t: "Guild_DeleteMember demo_env (MAKE_NEW_GUID 9 0 HIGHGUID_PLAYER) False True demo3 = Some t"
    and st: "gMembers (gsGuild s') = gMembers (gsGuild t)"
    using run by (auto simp: HandleRemoveMember_def Let_def HasRankRight_def me GetMemberByName_def GetRankRights_def GetRankInfo_def
        Guild_GetRanksSize_def IsRankNotLower_def demo3_guild demo_member_def demo_rank_def GR_RIGHT_ALL_def GR_RIGHT_REMOVE_def
        GR_RIGHT_EMPTY_def GR_GUILDMASTER_def guild_player_eq word_le_nat_alt)
  have "t = erase_guild_member demo_env (MAKE_NEW_GUID 9 0 HIGHGUID_PLAYER) False True demo3"
    using t by (simp add: Guild_DeleteMember_def demo3_guild guild_player_eq)
  then have "keys (gsGuild s') \<subseteq> {7, 8}" by (simp add: st demo3_guild demo_member_def)
  with removal_respects_hierarchy [OF demo3_ok run] show ?thesis
    using run by (auto simp: demo3_guild demo_member_def)
qed

section \<open>What goes wrong\<close>

lemma GetRankRights_missing: "Guild_GetRanksSize g \<le> r \<Longrightarrow> GetRankRights r g = 0"
  by (simp add: GetRankRights_def GetRankInfo_def not_less [symmetric])

text \<open>
  Who holds the lowest rank when it is removed then has every right of a rank: the rights of a rank
  that is gone read as zero, and a member has a right unless the rank's mask with it is the empty right.
\<close>

theorem removed_rank_has_every_right:
  assumes "ranks_seq (gRanks (gsGuild s))" and "GUILD_RANKS_MIN_COUNT < Guild_GetRanksSize (gsGuild s)"
    and "Guild_IsLeader p (gsGuild s)"
    and "GetMember q (gsGuild s) = Some m" and "mbRankId m = Guild_GetLowestRankId (gsGuild s)"
  shows "HasRankRight q right (gsGuild (HandleRemoveLowestRank E p s))"
proof -
  let ?g = "gsGuild s" and ?g' = "gsGuild (HandleRemoveLowestRank E p s)"
  have len: "unat (Guild_GetRanksSize ?g) = length (gRanks ?g)" and few: "length (gRanks ?g) \<le> 10"
    using assms(1) ranks_size [of "?g"] by (simp_all add: ranks_seq_def)
  have five: "5 < length (gRanks ?g)" using assms(2) len by (simp add: GUILD_RANKS_MIN_COUNT_def word_less_nat_alt)
  have low: "unat (Guild_GetLowestRankId ?g) = length (gRanks ?g) - 1" using few five by (intro lowest_rank) auto
  then have "\<not> Guild_GetRanksSize ?g \<le> Guild_GetLowestRankId ?g" using len five by (simp add: word_le_nat_alt)
  then have g': "?g' = ?g\<lparr>gRanks := butlast (gRanks ?g)\<rparr>"
    using assms(2,3) by (simp add: HandleRemoveLowestRank_def HandleRemoveRank_def Let_def not_le)
  have "unat (Guild_GetRanksSize ?g') = length (gRanks ?g) - 1"
    using few by (simp add: g' Guild_GetRanksSize_def unat_of_nat)
  then have "GetRankRights (mbRankId m) ?g' = 0" using low assms(5) by (intro GetRankRights_missing) (simp add: word_le_nat_alt)
  moreover have "GetMember q ?g' = Some m" using assms(4) by (simp add: g' GetMember_def)
  ultimately show ?thesis by (simp add: HasRankRight_def GR_RIGHT_EMPTY_def)
qed

theorem removed_rank_has_every_right_witness:
  "HasRankRight (MAKE_NEW_GUID 9 0 HIGHGUID_PLAYER) GR_RIGHT_REMOVE
     (gsGuild (HandleRemoveLowestRank demo_env (MAKE_NEW_GUID 7 0 HIGHGUID_PLAYER) demo3))"
proof -
  have "ranks_seq (gRanks (gsGuild demo3))" using demo3_ok by (simp add: focus_ok_def guild_ok_def ranks_ok_def)
  then show ?thesis
    by (rule removed_rank_has_every_right [where m = "snd (demo_member 9 ''Cy'' 5)"])
      (simp_all add: demo3_guild demo_member_def Guild_GetRanksSize_def Guild_GetLowestRankId_def GUILD_RANKS_MIN_COUNT_def
        Guild_IsLeader_def GetMember_def)
qed

text \<open>
  A member who sends the packet that declines an invitation stays a member of the guild but counts as
  being in none: every packet for the guild is then refused to him, and another guild may take him in.
\<close>

theorem decline_forgets_membership:
  assumes "guilds_ok s" and "Player_GetGuild p s = Some g"
  shows "\<exists>s'. handle_guild_packet E p 0x085 b s = Some (s', None) \<and> Player_GetGuild p s' = None \<and>
    GetGuildById (gId g) s' = Some g \<and> GUID_LOPART p \<in> keys g \<and> \<not> guilds_ok s' \<and>
    (geOnline E p \<longrightarrow> fst (Guild_AddMember E p r s'))"
proof -
  let ?i = "gsGuildOf s (GUID_LOPART p)" and ?s' = "HandleGuildDeclineOpcode p s"
  have get: "GetGuildById ?i s = Some g" and nz: "?i \<noteq> 0" using assms(2) by (simp_all add: Player_GetGuild_def Let_def split: if_splits)
  have focus: "focus_ok ?i (s\<lparr>gsGuild := g\<rparr>)" by (rule guilds_ok_focus [OF assms(1) get])
  then have i: "gId g = ?i" and k: "GUID_LOPART p \<in> keys g" by (simp_all add: focus_ok_def)
  have run: "handle_guild_packet E p 0x085 b s = Some (?s', None)" by (simp add: handle_guild_packet_def g_done_def)
  have s': "gsStore ?s' = gsStore s" "gsGuildOf ?s' (GUID_LOPART p) = 0"
    by (simp_all add: HandleGuildDeclineOpcode_def SetInGuild_def)
  have bad: "\<not> guilds_ok ?s'"
  proof
    assume "guilds_ok ?s'"
    from membership_of_ok [OF this, of "GUID_LOPART p" 0] s' get k show False
      by (auto simp: GetGuildById_def dest!: map_of_SomeD)
  qed
  have "GetGuildById (gId g) ?s' = Some g" using get by (simp add: i GetGuildById_def s'(1))
  moreover have "Player_GetGuild p ?s' = None" by (simp add: Player_GetGuild_def Let_def s'(2))
  ultimately show ?thesis using run bad k AddMember_online [of E p ?s' r] s'(2) by blast
qed

theorem decline_forgets_membership_witness:
  "\<exists>s'. handle_guild_packet demo_env 7 0x085 bb_new (turn_in_charter demo_env 7 ''Azeroth'' [] demo_server) = Some (s', None) \<and>
     GetGuildById 1 s' = Some demo_guild \<and> Player_GetGuild 7 s' = None"
proof -
  let ?s = "turn_in_charter demo_env 7 ''Azeroth'' [] demo_server"
  have "guilds_ok demo_server" by (simp add: guilds_ok_def demo_server_def)
  from turn_in_charter_ok [OF demo_genv_ok demo_players_ok(1) this, of "''Azeroth''" "[]"]
  have ok: "guilds_ok ?s" by (simp add: demo_server_def)
  have low: "GUID_LOPART 7 = 7" by (simp add: GUID_LOPART_def IsGuidHaveEnPart_def GUID_HIPART_def highguid_defs)
  have "Player_GetGuild 7 ?s = Some demo_guild" by (simp add: Player_GetGuild_def GetGuildById_def demo_charter low)
  from decline_forgets_membership [OF ok this, of demo_env bb_new 0] demo_charter(3) show ?thesis by auto
qed

text \<open>
  A leader who names himself as the next leader stays the leader of the guild with the rank of an
  officer: the guild then has no guild master if it had one.
\<close>

theorem leader_names_himself:
  assumes "focus_ok i s" and "gLeaderGuid (gsGuild s) = p" and "GetMemberByName name (gsGuild s) = Some (k, m)" and "mbGuid m = p"
  shows "gLeaderGuid (gsGuild (HandleSetLeader E p name s)) = p \<and>
    map_option mbRankId (GetMember p (gsGuild (HandleSetLeader E p name s))) = Some GR_OFFICER \<and>
    (\<forall>q. q \<noteq> GUID_LOPART p \<longrightarrow> map_of (gMembers (gsGuild (HandleSetLeader E p name s))) q = map_of (gMembers (gsGuild s)) q)"
proof -
  let ?g = "gsGuild s"
  have ok: "guild_ok ?g" using assms(1) by (simp add: focus_ok_def)
  note km = GetMemberByName_in [OF assms(3)]
  have low: "k = GUID_LOPART p" using member_player_guid [OF guild_ok_member [OF ok]] km assms(4) by blast
  have "map_of (gMembers ?g) k = Some m" using km ok by (simp add: guild_ok_def roster_ok_def)
  then have me: "GetMember p ?g = Some m" by (simp add: GetMember_def low)
  have "Guild_IsLeader p ?g" using assms(2) by (simp add: Guild_IsLeader_def)
  then have run: "gsGuild (HandleSetLeader E p name s) =
      upd_member k (\<lambda>m. m\<lparr>mbRankId := GR_OFFICER\<rparr>) (gsGuild (SetLeaderGUID E k m s))"
    using assms(3) me by (simp add: HandleSetLeader_def Member_ChangeRank_def Let_def low)
  have m: "gMembers (g\<lparr>gLeaderGuid := l\<rparr>) = gMembers g" for g l by simp
  have "gLeaderGuid (upd_member k f x) = gLeaderGuid x" for f x by (simp add: upd_member_def)
  then have "gLeaderGuid (gsGuild (HandleSetLeader E p name s)) = p" by (simp add: run SetLeaderGUID_guild assms(4))
  moreover have "map_of (gMembers (gsGuild (HandleSetLeader E p name s))) q =
      (if q = k then Some (m\<lparr>mbRankId := GR_OFFICER\<rparr>) else map_of (gMembers ?g) q)" for q
    using \<open>map_of (gMembers ?g) k = Some m\<close> by (simp only: run SetLeaderGUID_guild map_of_upd_member m) simp
  ultimately show ?thesis by (simp add: GetMember_def low)
qed

theorem leader_names_himself_witness:
  "map_option mbRankId (GetMember (MAKE_NEW_GUID 7 0 HIGHGUID_PLAYER)
     (gsGuild (HandleSetLeader demo_env (MAKE_NEW_GUID 7 0 HIGHGUID_PLAYER) ''Ann'' demo3))) = Some GR_OFFICER"
proof -
  let ?p = "MAKE_NEW_GUID 7 0 HIGHGUID_PLAYER"
  have "gLeaderGuid (gsGuild demo3) = ?p" "GetMemberByName ''Ann'' (gsGuild demo3) = Some (demo_member 7 ''Ann'' 0)"
    by (simp_all add: demo3_guild demo_member_def GetMemberByName_def)
  from leader_names_himself [OF demo3_ok this(1), of "''Ann''" 7 "snd (demo_member 7 ''Ann'' 0)" demo_env] this(2)
  show ?thesis by (simp add: demo_member_def)
qed

end
