(* ===== verification/GuildGold.thy ===== *)
theory GuildGold
  imports GuildProps
begin

text \<open>
  The gold of the guild bank: what deposits and withdrawals do to the sum of all gold, and the daily limit
  of a rank. The hooks that scripts may put on these calls are those of \<^term>\<open>plain_hooks\<close>: they keep the amount.
\<close>

definition plain_hooks :: "gEnv \<Rightarrow> bool" where
  "plain_hooks E \<longleftrightarrow> (\<forall>p a. geDepositHook E p a = a \<and> geMoneyHook E p a = a \<and> (\<forall>r. geWithdrawHook E p a r = a))"

section \<open>One deposit, one withdrawal\<close>

lemma LogBankEvent_money [simp]:
  "gBankMoney (gsGuild (Guild_LogBankEvent E ty tabId lowguid im stack dest s)) = gBankMoney (gsGuild s)"
  by (simp add: Guild_LogBankEvent_def Let_def split_def split: option.splits)

lemma upd_member_money [simp]: "gBankMoney (upd_member k f g) = gBankMoney g"
  by (simp add: upd_member_def)

lemma withdraw_member_money [simp]: "gBankMoney (gsGuild (withdraw_member k m t a s)) = gBankMoney (gsGuild s)"
  by (simp add: withdraw_member_def Let_def split_def)

lemma ModifyBankMoney_frame [simp]: "gsMoney (snd (ModifyBankMoney a add s)) = gsMoney s"
  by (simp add: ModifyBankMoney_def Let_def)

lemma ModifyMoney_frame [simp]: "gsGuild (snd (ModifyMoney E p a s)) = gsGuild s"
  by (simp add: ModifyMoney_def Let_def)

lemma sint_neg_iff: "sint (w :: u32) < 0 \<longleftrightarrow> 2 ^ 31 \<le> unat w"
proof -
  have "unat w < 2 ^ 32" using unsigned_less [of w, where ?'a = nat] by simp
  then have "unat w div 2 ^ 31 = (if 2 ^ 31 \<le> unat w then 1 else 0)" by (simp add: div_nat_eqI)
  moreover have "bit (unat w) 31 \<longleftrightarrow> odd (unat w div 2 ^ 31)" by (rule bit_iff_odd)
  moreover have "bit (unat w) 31 \<longleftrightarrow> bit w 31" by (simp add: bit_unsigned_iff)
  ultimately have "bit w 31 \<longleftrightarrow> 2 ^ 31 \<le> unat w" by (cases "2 ^ 31 \<le> unat w") simp_all
  with bit_last_iff [of w] show ?thesis by simp
qed

lemma ModifyMoney_pays:
  assumes "plain_hooks E" and "amount \<le> gsMoney s p" and "gsMoney s p \<le> MAX_MONEY_AMOUNT"
  shows "gsMoney (snd (ModifyMoney E p (- amount) s)) = (gsMoney s)(p := gsMoney s p - amount)"
proof (cases "amount = 0")
  case False
  have "unat amount < 2 ^ 31" using assms(2,3) by (simp add: MAX_MONEY_AMOUNT_def word_le_nat_alt)
  moreover have "uint (- amount) = 2 ^ 32 - uint amount"
    using False uint_lt2p [of amount] by (simp add: uint_word_ariths zmod_zminus1_eq_if uint_0_iff)
  then have "unat (- amount) = 2 ^ 32 - unat amount" by (simp only: unat_eq_nat_uint) (simp add: nat_diff_distrib')
  moreover have "(2 :: nat) ^ 32 = 2 ^ 31 + 2 ^ 31" by simp
  ultimately have "2 ^ 31 \<le> unat (- amount)" by linarith
  then have "sint (- amount) < 0" by (simp only: sint_neg_iff)
  moreover have "gsMoney s p \<le> amount \<longleftrightarrow> gsMoney s p = amount" using assms(2) by auto
  ultimately show ?thesis using assms(1) False by (auto simp: ModifyMoney_def Let_def plain_hooks_def)
qed (simp add: ModifyMoney_def)

lemma ModifyMoney_earns:
  assumes "plain_hooks E" and "amount \<le> MAX_MONEY_AMOUNT"
  shows "ModifyMoney E p amount s =
    (if amount = 0 then (True, s)
     else if gsMoney s p < MAX_MONEY_AMOUNT - amount then (True, s\<lparr>gsMoney := (gsMoney s)(p := gsMoney s p + amount)\<rparr>)
     else (False, out (GEquipError p EQUIP_ERR_TOO_MUCH_GOLD None) s))"
proof -
  have "\<not> 2 ^ 31 \<le> unat amount" using assms(2) by (simp add: MAX_MONEY_AMOUNT_def word_le_nat_alt)
  then have "\<not> sint amount < 0" by (simp only: sint_neg_iff not_False_eq_True)
  then show ?thesis using assms(1) by (simp add: ModifyMoney_def Let_def plain_hooks_def)
qed

lemma deposit_gold:
  assumes "plain_hooks E" and "amount \<le> gsMoney s p" and "gsMoney s p \<le> MAX_MONEY_AMOUNT"
  shows "gBankMoney (gsGuild (HandleMemberDepositMoney E p amount s)) = gBankMoney (gsGuild s) + ucast amount"
    and "gsMoney (HandleMemberDepositMoney E p amount s) = (gsMoney s)(p := gsMoney s p - amount)"
proof -
  have "geDepositHook E p amount = amount" using assms(1) by (simp add: plain_hooks_def)
  then show "gBankMoney (gsGuild (HandleMemberDepositMoney E p amount s)) = gBankMoney (gsGuild s) + ucast amount"
    "gsMoney (HandleMemberDepositMoney E p amount s) = (gsMoney s)(p := gsMoney s p - amount)"
    using ModifyMoney_pays [OF assms(1), of amount "snd (ModifyBankMoney (ucast amount) True s)" p] assms(2,3)
    by (simp_all add: HandleMemberDepositMoney_def Let_def ModifyBankMoney_def)
qed

lemma HandleMemberDepositMoney_store: "gsStore (HandleMemberDepositMoney E p amount s) = gsStore s"
  by (simp add: HandleMemberDepositMoney_def Let_def ModifyMoney_def ModifyBankMoney_def)

lemma HandleMemberWithdrawMoney_store: "gsStore (snd (HandleMemberWithdrawMoney E p amount r s)) = gsStore s"
  by (simp add: HandleMemberWithdrawMoney_def Let_def split_def ModifyMoney_def ModifyBankMoney_def split: option.splits)

lemma withdraw_gold:
  assumes "plain_hooks E"
  shows "gsGuild (snd (HandleMemberWithdrawMoney E p amount False s)) = gsGuild s \<and>
      gsMoney (snd (HandleMemberWithdrawMoney E p amount False s)) = gsMoney s \<or>
    (\<exists>a. a \<le> MAX_MONEY_AMOUNT \<and> ucast a \<le> gBankMoney (gsGuild s) \<and> (a = 0 \<or> gsMoney s p < MAX_MONEY_AMOUNT - a) \<and>
      gBankMoney (gsGuild (snd (HandleMemberWithdrawMoney E p amount False s))) = gBankMoney (gsGuild s) - ucast a \<and>
      gsMoney (snd (HandleMemberWithdrawMoney E p amount False s)) = (gsMoney s)(p := gsMoney s p + a))"
proof -
  define a where "a = Orderings.min amount MAX_MONEY_AMOUNT"
  have le: "a \<le> MAX_MONEY_AMOUNT" by (simp add: a_def)
  note earn = ModifyMoney_earns [OF assms le, of p s]
  have hook: "geWithdrawHook E p a False = a" using assms by (simp add: plain_hooks_def)
  show ?thesis
  proof (cases "gsGuild (snd (HandleMemberWithdrawMoney E p amount False s)) = gsGuild s \<and>
      gsMoney (snd (HandleMemberWithdrawMoney E p amount False s)) = gsMoney s")
    case False
    then obtain m where go: "\<not> gBankMoney (gsGuild s) < ucast a" "GetMember p (gsGuild s) = Some m"
      "\<not> GetMemberRemainingMoney m (gsGuild s) < a"
      by (auto simp: HandleMemberWithdrawMoney_def Let_def a_def [symmetric] split: if_splits option.splits)
    have ok: "a = 0 \<or> gsMoney s p < MAX_MONEY_AMOUNT - a"
      using False go by (auto simp: HandleMemberWithdrawMoney_def Let_def a_def [symmetric] hook earn split: if_splits)
    then have run: "snd (HandleMemberWithdrawMoney E p amount False s) =
      bank_money_set E (Guild_LogBankEvent E GUILD_BANK_LOG_WITHDRAW_MONEY 0 (GUID_LOPART p) a 0 0
        (snd (ModifyBankMoney (ucast a) False (withdraw_member (GUID_LOPART p) m GUILD_BANK_MAX_TABS a
          (out (GSaveGold p) (s\<lparr>gsMoney := (gsMoney s)(p := gsMoney s p + a)\<rparr>))))))"
      using go by (auto simp: HandleMemberWithdrawMoney_def Let_def a_def [symmetric] hook earn)
    show ?thesis using go(1) le ok
      by (intro disjI2 exI [of _ a]) (simp add: run ModifyBankMoney_def Let_def)
  qed simp
qed

section \<open>The gold of a server\<close>

definition total_gold :: "u64 list \<Rightarrow> gst \<Rightarrow> nat" where
  "total_gold ps s = sum_list (map (\<lambda>p. unat (gsMoney s p)) ps) + sum_list (map (\<lambda>x. unat (gBankMoney (snd x))) (gsStore s))"

lemma sum_list_update:
  fixes f :: "'a \<Rightarrow> nat"
  assumes "distinct ps" and "p \<in> set ps" and "\<And>q. q \<noteq> p \<Longrightarrow> f' q = f q"
  shows "sum_list (map f' ps) + f p = sum_list (map f ps) + f' p"
  using assms(1,2)
proof (induction ps)
  case (Cons q qs)
  show ?case
  proof (cases "q = p")
    case True
    have "f' x = f x" if "x \<in> set qs" for x using assms(3) [of x] that Cons.prems(1) True by fastforce
    then have "map f' qs = map f qs" by (rule map_cong [OF refl])
    with True show ?thesis by (simp del: map_eq_conv)
  next
    case False
    with Cons show ?thesis by (simp add: assms(3))
  qed
qed simp

lemma bank_le_total:
  assumes "(i, g) \<in> set (gsStore s)" and "p \<in> set ps"
  shows "unat (gBankMoney g) + unat (gsMoney s p) \<le> total_gold ps s"
proof -
  have "unat (gBankMoney g) \<in> set (map (\<lambda>x. unat (gBankMoney (snd x))) (gsStore s))" using assms(1) by force
  from member_le_sum_list [OF this] have "unat (gBankMoney g) \<le> sum_list (map (\<lambda>x. unat (gBankMoney (snd x))) (gsStore s))" by simp
  moreover have "unat (gsMoney s p) \<le> sum_list (map (\<lambda>p. unat (gsMoney s p)) ps)"
    using assms(2) by (intro member_le_sum_list) simp_all
  ultimately show ?thesis by (simp add: total_gold_def)
qed

text \<open>An operation on one guild moves gold between its bank and the player.\<close>

lemma total_put_back:
  assumes "distinct (map fst (gsStore s))" and "(i, g) \<in> set (gsStore s)" and "distinct ps" and "p \<in> set ps"
    and "gsStore t = gsStore s" and "\<And>q. q \<noteq> p \<Longrightarrow> gsMoney t q = gsMoney s q"
    and "unat (gBankMoney (gsGuild t)) + unat (gsMoney t p) = unat (gBankMoney g) + unat (gsMoney s p)"
  shows "total_gold ps (put_back i t) = total_gold ps s"
proof -
  let ?up = "\<lambda>x. unat (gBankMoney (snd (if fst x = i then (i, gsGuild t) else x)))"
  have key: "fst x \<noteq> i" if "x \<in> set (gsStore s)" "x \<noteq> (i, g)" for x
  proof
    assume i: "fst x = i"
    with that(1) have "(i, snd x) \<in> set (gsStore s)" by (metis prod.collapse)
    from eq_key_imp_eq_value [OF assms(1,2) this] i that(2) show False by (metis prod.collapse)
  qed
  have "map (\<lambda>x. unat (gBankMoney (snd x))) (gsStore (put_back i t)) = map ?up (gsStore s)"
    by (simp add: put_back_def assms(5) split_def comp_def cong: if_cong)
  moreover have "map ?up (gsStore s) = map (\<lambda>x. if x = (i, g) then unat (gBankMoney (gsGuild t)) else unat (gBankMoney (snd x))) (gsStore s)"
    using key by (intro map_cong) auto
  ultimately have store: "sum_list (map (\<lambda>x. unat (gBankMoney (snd x))) (gsStore (put_back i t))) + unat (gBankMoney g) =
      sum_list (map (\<lambda>x. unat (gBankMoney (snd x))) (gsStore s)) + unat (gBankMoney (gsGuild t))"
    using sum_list_update [OF _ assms(2),
        of "\<lambda>x. if x = (i, g) then unat (gBankMoney (gsGuild t)) else unat (gBankMoney (snd x))" "\<lambda>x. unat (gBankMoney (snd x))"]
      assms(1) by (simp add: distinct_map)
  have "sum_list (map (\<lambda>p. unat (gsMoney (put_back i t) p)) ps) + unat (gsMoney s p) =
      sum_list (map (\<lambda>p. unat (gsMoney s p)) ps) + unat (gsMoney t p)"
    using sum_list_update [OF assms(3,4), of "\<lambda>p. unat (gsMoney t p)" "\<lambda>p. unat (gsMoney s p)"] assms(6) by (simp add: put_back_def)
  with store assms(7) show ?thesis unfolding total_gold_def by linarith
qed

text \<open>The packets of players who stand at a bank, each with the world it finds.\<close>

type_synonym bankPacket = "gEnv \<times> u64 \<times> u16 \<times> byteBuffer"

fun serve_bank :: "bankPacket list \<Rightarrow> gst \<Rightarrow> gst option" where
  "serve_bank [] s = Some s"
| "serve_bank ((E, p, opcode, b) # ps) s =
     (case handle_guild_packet E p opcode b s of None \<Rightarrow> None | Some (s', _) \<Rightarrow> serve_bank ps s')"

definition bank_packet :: "u64 list \<Rightarrow> bankPacket \<Rightarrow> bool" where
  "bank_packet ps x \<longleftrightarrow> (let (E, p, opcode, b) = x
     in genv_ok E \<and> plain_hooks E \<and> guild_player p \<and> p \<in> set ps \<and> (opcode = 0x3EC \<or> opcode = 0x3ED))"

definition purses_ok :: "u64 list \<Rightarrow> gst \<Rightarrow> bool" where
  "purses_ok ps s \<longleftrightarrow> list_all (\<lambda>p. gsMoney s p \<le> MAX_MONEY_AMOUNT) ps"

lemma gold_moves:
  fixes a :: u32 and bank :: u64 and purse :: u32
  shows "a \<le> purse \<Longrightarrow> unat bank + unat purse < 2 ^ 64 \<Longrightarrow> unat (bank + ucast a) + unat (purse - a) = unat bank + unat purse"
    and "a = 0 \<or> purse < MAX_MONEY_AMOUNT - a \<Longrightarrow> a \<le> MAX_MONEY_AMOUNT \<Longrightarrow> ucast a \<le> bank \<Longrightarrow>
      unat (bank - ucast a) + unat (purse + a) = unat bank + unat purse \<and> (purse \<le> MAX_MONEY_AMOUNT \<longrightarrow> purse + a \<le> MAX_MONEY_AMOUNT)"
proof -
  have a: "unat (ucast a :: u64) = unat a" 
    using unsigned_less [of a, where ?'a = nat] by (simp add: unsigned_ucast_eq take_bit_nat_eq_self)
  show "a \<le> purse \<Longrightarrow> unat bank + unat purse < 2 ^ 64 \<Longrightarrow> unat (bank + ucast a) + unat (purse - a) = unat bank + unat purse"
    by (simp add: unat_sub unat_word_ariths a word_le_nat_alt)
  assume le: "a = 0 \<or> purse < MAX_MONEY_AMOUNT - a" "a \<le> MAX_MONEY_AMOUNT" and b: "ucast a \<le> bank"
  have sum: "a = 0 \<or> unat purse + unat a < unat MAX_MONEY_AMOUNT" using le by (auto simp: word_less_nat_alt unat_sub)
  have "unat (purse + a) = unat purse + unat a"
    using sum unsigned_less [of purse, where ?'a = nat] by (auto simp: unat_word_ariths MAX_MONEY_AMOUNT_def)
  then show "unat (bank - ucast a) + unat (purse + a) = unat bank + unat purse \<and> (purse \<le> MAX_MONEY_AMOUNT \<longrightarrow> purse + a \<le> MAX_MONEY_AMOUNT)"
    using b sum by (auto simp: unat_sub a word_le_nat_alt)
qed

lemma my_guild_stored:
  assumes "guilds_ok s" and "Player_GetGuild p s = Some g"
  shows "GetGuildById (gsGuildOf s (GUID_LOPART p)) s = Some g" and "(gsGuildOf s (GUID_LOPART p), g) \<in> set (gsStore s)"
proof -
  show get: "GetGuildById (gsGuildOf s (GUID_LOPART p)) s = Some g"
    using assms(2) by (simp add: Player_GetGuild_def Let_def split: if_splits)
  then show "(gsGuildOf s (GUID_LOPART p), g) \<in> set (gsStore s)" using guilds_ok_stored [OF assms(1)] by blast
qed

definition gold_kept :: "u64 list \<Rightarrow> gst \<Rightarrow> gst \<Rightarrow> bool" where
  "gold_kept ps s t \<longleftrightarrow> purses_ok ps t \<and> total_gold ps t = total_gold ps s"

lemma gold_kept_my_guild:
  assumes "guilds_ok s" and "distinct ps" and "p \<in> set ps" and "purses_ok ps s"
    and "on_my_guild p (\<lambda>s. Some (f s)) s = Some t"
    and "\<And>g. Player_GetGuild p s = Some g \<Longrightarrow> gsStore (f (s\<lparr>gsGuild := g\<rparr>)) = gsStore s \<and> gsMoney (f (s\<lparr>gsGuild := g\<rparr>)) p \<le> MAX_MONEY_AMOUNT \<and>
      (\<forall>q. q \<noteq> p \<longrightarrow> gsMoney (f (s\<lparr>gsGuild := g\<rparr>)) q = gsMoney s q) \<and>
      unat (gBankMoney (gsGuild (f (s\<lparr>gsGuild := g\<rparr>)))) + unat (gsMoney (f (s\<lparr>gsGuild := g\<rparr>)) p) = unat (gBankMoney g) + unat (gsMoney s p)"
  shows "gold_kept ps s t"
proof (cases "Player_GetGuild p s")
  case None
  then show ?thesis using assms(4,5) by (simp add: on_my_guild_def gold_kept_def)
next
  case (Some g)
  let ?i = "gsGuildOf s (GUID_LOPART p)" and ?u = "f (s\<lparr>gsGuild := g\<rparr>)"
  note get = my_guild_stored [OF assms(1) Some]
  have t: "t = put_back ?i ?u" using assms(5) Some get(1) by (simp add: on_my_guild_def with_guild_def)
  have dist: "distinct (map fst (gsStore s))" using assms(1) by (simp add: guilds_ok_def)
  have "total_gold ps t = total_gold ps s"
    unfolding t using assms(6) [OF Some] by (intro total_put_back [OF dist get(2) assms(2,3)]) blast+
  moreover have "gsMoney t q \<le> MAX_MONEY_AMOUNT" if "q \<in> set ps" for q
    using that assms(4,6) Some by (cases "q = p") (simp_all add: t put_back_def purses_ok_def list_all_iff)
  ultimately show ?thesis by (simp add: gold_kept_def purses_ok_def list_all_iff)
qed

lemma deposit_kept:
  assumes "plain_hooks E" and "guilds_ok s" and "distinct ps" and "p \<in> set ps" and "purses_ok ps s" and "total_gold ps s < 2 ^ 64"
    and "on_my_guild p (\<lambda>s. Some (HandleMemberDepositMoney E p money s)) s = Some t" and "money \<le> gsMoney s p"
  shows "gold_kept ps s t"
proof (rule gold_kept_my_guild [OF assms(2-5,7)])
  fix g
  assume g: "Player_GetGuild p s = Some g"
  let ?s = "s\<lparr>gsGuild := g\<rparr>"
  have purse: "gsMoney s p \<le> MAX_MONEY_AMOUNT" using assms(4,5) by (simp add: purses_ok_def list_all_iff)
  have "unat (gBankMoney g) + unat (gsMoney s p) < 2 ^ 64"
    using bank_le_total [OF my_guild_stored(2) [OF assms(2) g] assms(4)] assms(6) by linarith
  note moves = gold_moves(1) [OF assms(8) this]
  have "gsMoney s p - money \<le> gsMoney s p" using assms(8) by (simp add: word_le_nat_alt unat_sub)
  then have "gsMoney s p - money \<le> MAX_MONEY_AMOUNT" using purse by (rule order_trans)
  with moves deposit_gold [OF assms(1), of money ?s p] assms(8) purse
  show "gsStore (HandleMemberDepositMoney E p money ?s) = gsStore s \<and> gsMoney (HandleMemberDepositMoney E p money ?s) p \<le> MAX_MONEY_AMOUNT \<and>
      (\<forall>q. q \<noteq> p \<longrightarrow> gsMoney (HandleMemberDepositMoney E p money ?s) q = gsMoney s q) \<and>
      unat (gBankMoney (gsGuild (HandleMemberDepositMoney E p money ?s))) + unat (gsMoney (HandleMemberDepositMoney E p money ?s) p) =
        unat (gBankMoney g) + unat (gsMoney s p)"
    by (simp add: HandleMemberDepositMoney_store)
qed

lemma withdraw_kept:
  assumes "plain_hooks E" and "guilds_ok s" and "distinct ps" and "p \<in> set ps" and "purses_ok ps s"
    and "on_my_guild p (\<lambda>s. Some (snd (HandleMemberWithdrawMoney E p money False s))) s = Some t"
  shows "gold_kept ps s t"
proof (rule gold_kept_my_guild [where f = "\<lambda>s. snd (HandleMemberWithdrawMoney E p money False s)", OF assms(2-6)])
  fix g
  assume g: "Player_GetGuild p s = Some g"
  let ?s = "s\<lparr>gsGuild := g\<rparr>"
  let ?u = "snd (HandleMemberWithdrawMoney E p money False ?s)"
  have purse: "gsMoney s p \<le> MAX_MONEY_AMOUNT" using assms(4,5) by (simp add: purses_ok_def list_all_iff)
  have "gsMoney ?u p \<le> MAX_MONEY_AMOUNT \<and> (\<forall>q. q \<noteq> p \<longrightarrow> gsMoney ?u q = gsMoney s q) \<and>
      unat (gBankMoney (gsGuild ?u)) + unat (gsMoney ?u p) = unat (gBankMoney g) + unat (gsMoney s p)" (is ?kept)
    using withdraw_gold [OF assms(1), of p money ?s]
  proof
    assume "\<exists>a. a \<le> MAX_MONEY_AMOUNT \<and> ucast a \<le> gBankMoney (gsGuild ?s) \<and> (a = 0 \<or> gsMoney ?s p < MAX_MONEY_AMOUNT - a) \<and>
      gBankMoney (gsGuild ?u) = gBankMoney (gsGuild ?s) - ucast a \<and> gsMoney ?u = (gsMoney ?s)(p := gsMoney ?s p + a)"
    then obtain a where a: "a \<le> MAX_MONEY_AMOUNT" "ucast a \<le> gBankMoney (gsGuild ?s)" "a = 0 \<or> gsMoney ?s p < MAX_MONEY_AMOUNT - a"
      and eq: "gBankMoney (gsGuild ?u) = gBankMoney (gsGuild ?s) - ucast a" "gsMoney ?u = (gsMoney ?s)(p := gsMoney ?s p + a)"
      by blast
    from gold_moves(2) [of a "gsMoney s p" "gBankMoney g"] a purse
    have "unat (gBankMoney g - ucast a) + unat (gsMoney s p + a) = unat (gBankMoney g) + unat (gsMoney s p)"
      "gsMoney s p + a \<le> MAX_MONEY_AMOUNT" by simp_all
    with eq show ?kept by simp
  qed (use purse in simp)
  then show "gsStore ?u = gsStore s \<and> gsMoney ?u p \<le> MAX_MONEY_AMOUNT \<and> (\<forall>q. q \<noteq> p \<longrightarrow> gsMoney ?u q = gsMoney s q) \<and>
      unat (gBankMoney (gsGuild ?u)) + unat (gsMoney ?u p) = unat (gBankMoney g) + unat (gsMoney s p)"
    by (simp add: HandleMemberWithdrawMoney_store)
qed

lemma bank_packet_gold:
  assumes "bank_packet ps (E, p, opcode, b)" and "guilds_ok s" and "distinct ps" and "purses_ok ps s" and "total_gold ps s < 2 ^ 64"
  shows "\<exists>t err. handle_guild_packet E p opcode b s = Some (t, err) \<and> guilds_ok t \<and> gold_kept ps s t"
proof -
  from assms(1) have env: "genv_ok E" "plain_hooks E" "guild_player p" and p: "p \<in> set ps" and opcode: "opcode = 0x3EC \<or> opcode = 0x3ED"
    by (simp_all add: bank_packet_def)
  from handle_guild_packet_fine [OF env(1,3) assms(2), of opcode b] opcode
  obtain t err where run: "handle_guild_packet E p opcode b s = Some (t, err)" and ok: "guilds_ok t" by (auto simp: fine_def)
  have "t = s \<or> (\<exists>money. money \<le> gsMoney s p \<and> on_my_guild p (\<lambda>s. Some (HandleMemberDepositMoney E p money s)) s = Some t) \<or>
      (\<exists>money. on_my_guild p (\<lambda>s. Some (snd (HandleMemberWithdrawMoney E p money False s))) s = Some t)"
    using opcode run by (auto simp: handle_guild_packet_def HandleGuildBankDepositMoney_def HandleGuildBankWithdrawMoney_def
        g_reading_def g_done_def split: sum.splits if_splits) blast
  then have "gold_kept ps s t"
    using deposit_kept [OF env(2) assms(2,3) p assms(4,5)] withdraw_kept [OF env(2) assms(2,3) p assms(4)] assms(4)
    by (auto simp: gold_kept_def)
  with run ok show ?thesis by blast
qed

text \<open>
  C39. Gold is neither made nor lost at the bank: whatever packets to deposit and withdraw come from the
  given players, each packet's handler returns, and the gold in their purses and in the banks of all guilds
  stays the same in sum. Assumed: the guilds are in order (\<open>guild_step_ok\<close> keeps them so), scripts
  leave the amounts alone, no purse is above the limit of money, and the sum is below \<open>2 ^ 64\<close>.
\<close>

theorem bank_gold_conserved:
  assumes "guilds_ok s" and "distinct ps" and "purses_ok ps s" and "total_gold ps s < 2 ^ 64" and "list_all (bank_packet ps) packets"
  shows "\<exists>t. serve_bank packets s = Some t \<and> total_gold ps t = total_gold ps s"
  using assms
proof (induction packets arbitrary: s)
  case (Cons x xs)
  obtain E p opcode b where x: "x = (E, p, opcode, b)" by (cases x)
  from bank_packet_gold [of ps E p opcode b s] Cons.prems x obtain t err
    where t: "handle_guild_packet E p opcode b s = Some (t, err)" "guilds_ok t" "gold_kept ps s t" by auto
  with Cons.IH [of t] Cons.prems show ?case by (simp add: x gold_kept_def)
qed simp

text \<open>The demo guild in a store, and packets with an amount.\<close>

definition demo_bank_world :: gst where
  "demo_bank_world = demo3\<lparr>gsStore := [(1, gsGuild demo3)], gsNextId := 2\<rparr>"

definition demo_amount :: "u32 \<Rightarrow> byteBuffer" where
  "demo_amount n = bb_new\<lparr>storage := le_bytes 8 (5 :: u64) @ le_bytes 4 n\<rparr>"

lemma demo_bank_world_ok: "guilds_ok demo_bank_world"
proof -
  have "focus_ok 1 (demo_bank_world\<lparr>gsGuild := gsGuild demo3\<rparr>)" using demo3_ok by (simp add: focus_ok_def demo_bank_world_def)
  then show ?thesis by (simp add: guilds_ok_def stored_ok_def) (simp add: demo_bank_world_def demo3_guild)
qed

theorem bank_gold_conserved_witness:
  "\<exists>t. serve_bank [(demo_env, 7, 0x3EC, demo_amount 20000), (demo_env, 8, 0x3ED, demo_amount 500)] demo_bank_world = Some t \<and>
     total_gold [7, 8, 9] t = 1550000"
proof -
  have hooks: "plain_hooks demo_env" by (simp add: plain_hooks_def demo_env_def)
  have "total_gold [7, 8, 9] demo_bank_world = 1550000" "purses_ok [7, 8, 9] demo_bank_world"
    by (simp_all add: total_gold_def demo_bank_world_def demo3_guild purses_ok_def MAX_MONEY_AMOUNT_def word_le_nat_alt)
  moreover have "list_all (bank_packet [7, 8, 9]) [(demo_env, 7, 0x3EC, demo_amount 20000), (demo_env, 8, 0x3ED, demo_amount 500)]"
    by (simp add: bank_packet_def hooks)
  ultimately show ?thesis
    using bank_gold_conserved [OF demo_bank_world_ok, of "[7, 8, 9]" "[(demo_env, 7, 0x3EC, demo_amount 20000), (demo_env, 8, 0x3ED, demo_amount 500)]"]
    by simp
qed

section \<open>The limit of a day\<close>

text \<open>What a member withdraws in gold, or has paid for repairs, in a row.\<close>

fun withdraw_all :: "gEnv \<Rightarrow> u64 \<Rightarrow> (u32 \<times> bool) list \<Rightarrow> gst \<Rightarrow> nat \<times> gst" where
  "withdraw_all E p [] s = (0, s)"
| "withdraw_all E p ((amount, repair) # ws) s =
     (let (ok, s') = HandleMemberWithdrawMoney E p amount repair s;
          (n, t) = withdraw_all E p ws s'
      in ((if ok then unat (Orderings.min amount MAX_MONEY_AMOUNT) else 0) + n, t))"

text \<open>A member below the leader who is within the limit of the day.\<close>

definition within_limit :: "u64 \<Rightarrow> u8 \<Rightarrow> u32 \<Rightarrow> guild \<Rightarrow> bool" where
  "within_limit p rank limit g \<longleftrightarrow> rank \<noteq> GR_GUILDMASTER \<and> GetRankBankMoneyPerDay rank g = limit \<and> unat limit < 2 ^ 31 \<and>
     (case GetMember p g of Some m \<Rightarrow> mbRankId m = rank \<and> length (mbWithdraw m) = 7 \<and> mbWithdraw m ! 6 \<le> limit | None \<Rightarrow> False)"

definition withdrawn :: "u64 \<Rightarrow> guild \<Rightarrow> nat" where
  "withdrawn p g = (case GetMember p g of Some m \<Rightarrow> unat (mbWithdraw m ! 6) | None \<Rightarrow> 0)"

lemma remaining_bound:
  assumes "mbRankId m \<noteq> GR_GUILDMASTER" and "GetRankBankMoneyPerDay (mbRankId m) g = limit" and "mbWithdraw m ! 6 \<le> limit"
    and "\<not> GetMemberRemainingMoney m g < a"
  shows "unat (mbWithdraw m ! 6) + unat a \<le> unat limit"
proof -
  have "GetMemberRemainingMoney m g \<le> limit - mbWithdraw m ! 6"
    using assms(1,2) by (simp add: GetMemberRemainingMoney_def Let_def GetBankWithdrawValue_def GUILD_BANK_MAX_TABS_def)
  then have "a \<le> limit - mbWithdraw m ! 6" using assms(4) by simp
  with assms(3) show ?thesis by (simp add: word_le_nat_alt unat_sub)
qed

lemma withdraw_counts:
  assumes "plain_hooks E" and "within_limit p rank limit (gsGuild s)" and "HandleMemberWithdrawMoney E p amount repair s = (ok, s')"
  shows "within_limit p rank limit (gsGuild s') \<and>
    withdrawn p (gsGuild s') = withdrawn p (gsGuild s) + (if ok then unat (Orderings.min amount MAX_MONEY_AMOUNT) else 0)"
proof (cases ok)
  case False
  then have "gsGuild s' = gsGuild s"
    using assms(3) by (auto simp: HandleMemberWithdrawMoney_def Let_def split_def split: if_splits option.splits)
  with False assms(2) show ?thesis by simp
next
  case True
  define a where "a = Orderings.min amount MAX_MONEY_AMOUNT"
  from assms(2) obtain m where m: "GetMember p (gsGuild s) = Some m" "mbRankId m = rank" "length (mbWithdraw m) = 7" "mbWithdraw m ! 6 \<le> limit"
    and rank: "rank \<noteq> GR_GUILDMASTER" "GetRankBankMoneyPerDay rank (gsGuild s) = limit" "unat limit < 2 ^ 31"
    by (auto simp: within_limit_def split: option.splits)
  have hook: "geWithdrawHook E p a repair = a" using assms(1) by (simp add: plain_hooks_def)
  from assms(3) True m(1) have go: "\<not> GetMemberRemainingMoney m (gsGuild s) < a"
    and g': "gMembers (gsGuild s') = gMembers (upd_member (GUID_LOPART p) (\<lambda>_. fst (UpdateBankWithdrawValue GUILD_BANK_MAX_TABS a m)) (gsGuild s))"
      "gRanks (gsGuild s') = gRanks (gsGuild s)"
    by (auto simp: HandleMemberWithdrawMoney_def Let_def a_def [symmetric] hook withdraw_member_def split_def ModifyBankMoney_def
        split: if_splits)
  have "unat (mbWithdraw m ! 6) + unat a \<le> unat limit" using remaining_bound [OF _ _ _ go] m rank by simp
  moreover from this have "unat (mbWithdraw m ! 6 + a) = unat (mbWithdraw m ! 6) + unat a"
    using rank(3) by (simp add: unat_word_ariths)
  moreover have "GetMember p (gsGuild s') = Some (fst (UpdateBankWithdrawValue GUILD_BANK_MAX_TABS a m))"
    using m(1) unfolding GetMember_def g'(1) map_of_upd_member by simp
  moreover have "GetRankBankMoneyPerDay rank (gsGuild s') = limit"
    using rank(2) by (simp add: GetRankBankMoneyPerDay_def GetRankInfo_def Guild_GetRanksSize_def g'(2) split: if_splits)
  ultimately show ?thesis
    using m rank True by (simp add: within_limit_def withdrawn_def UpdateBankWithdrawValue_def GUILD_BANK_MAX_TABS_def word_le_nat_alt a_def [symmetric])
qed

text \<open>
  A member below the guild master takes no more gold from the bank in a day than the rank's limit,
  repairs included, in whatever portions: what was granted in all is what the counter of the day has grown by.
\<close>

theorem daily_limit_holds:
  assumes "plain_hooks E" and "within_limit p rank limit (gsGuild s)" and "withdraw_all E p ws s = (n, t)"
  shows "withdrawn p (gsGuild s) + n \<le> unat limit \<and> withdrawn p (gsGuild t) = withdrawn p (gsGuild s) + n"
  using assms(2,3)
proof (induction ws arbitrary: s n)
  case Nil
  then show ?case by (auto simp: within_limit_def withdrawn_def word_le_nat_alt split: option.splits)
next
  case (Cons w ws)
  obtain amount repair where w: "w = (amount, repair)" by fastforce
  obtain ok s' where h: "HandleMemberWithdrawMoney E p amount repair s = (ok, s')" by fastforce
  obtain k t' where r: "withdraw_all E p ws s' = (k, t')" by fastforce
  from Cons.prems(2) have "t' = t" "n = (if ok then unat (Orderings.min amount MAX_MONEY_AMOUNT) else 0) + k"
    by (simp_all add: w h r)
  with withdraw_counts [OF assms(1) Cons.prems(1) h] Cons.IH [of s' k] r show ?case by simp
qed

theorem daily_limit_holds_witness:
  "fst (withdraw_all demo_env (MAKE_NEW_GUID 8 0 HIGHGUID_PLAYER) [(600, False), (500, True), (300, False)] demo3) \<le> 1000"
proof -
  let ?p = "MAKE_NEW_GUID 8 0 HIGHGUID_PLAYER" and ?ws = "[(600, False), (500, True), (300 :: u32, False)]"
  have hooks: "plain_hooks demo_env" by (simp add: plain_hooks_def demo_env_def)
  have lim: "within_limit ?p 1 1000 (gsGuild demo3)"
    by (simp add: within_limit_def GetMember_def demo3_guild demo_member_def GetRankBankMoneyPerDay_def GetRankInfo_def
        Guild_GetRanksSize_def demo_rank_def GR_GUILDMASTER_def)
  obtain n t where run: "withdraw_all demo_env ?p ?ws demo3 = (n, t)" by fastforce
  from daily_limit_holds [OF hooks lim run] show ?thesis unfolding run by simp
qed

end
