(* ===== verification/GuildLogRing.thy ===== *)
theory GuildLogRing
  imports GuildProps
begin

text \<open>
  The event log of a guild against its table: a log is a ring of ids, the list in memory is the last records
  and the table holds the same ones, so that reading the table back gives the log and where it goes on.
\<close>

section \<open>What the database makes of the statements\<close>

text \<open>The rows of the log of one guild, by \<^verbatim>\<open>LogGuid\<close>.\<close>

definition log_row :: "u32 \<Rightarrow> (u32 \<rightharpoonup> logEntry) \<Rightarrow> gEffect \<Rightarrow> (u32 \<rightharpoonup> logEntry)" where
  "log_row i rows e =
     (case e of
        GSql (LogTab (DelEventLog j guid)) \<Rightarrow> (if j = i then rows(guid := None) else rows)
      | GSql (LogTab (InsLog (EventLogEntry j guid t ty p1 p2 r))) \<Rightarrow>
          (if j = i then rows(guid \<mapsto> EventLogEntry j guid t ty p1 p2 r) else rows)
      | _ \<Rightarrow> rows)"

definition log_table :: "gst \<Rightarrow> (u32 \<rightharpoonup> logEntry)" where
  "log_table s = foldl (log_row (gId (gsGuild s))) Map.empty (gsOut s)"

text \<open>Events, each with the time it happens at.\<close>

type_synonym logged = "u64 \<times> u8 \<times> u32 \<times> u32 \<times> u8"

definition log_one :: "gEnv \<Rightarrow> logged \<Rightarrow> gst \<Rightarrow> gst" where
  "log_one E x = (let (now, ty, p1, p2, r) = x in Guild_LogEvent (E\<lparr>geNow := now\<rparr>) ty p1 p2 r)"

text \<open>
  The abstract log: record number \<^term>\<open>n\<close> of all there ever were has the id \<^term>\<open>n mod cap\<close>, and the log is
  the last \<^term>\<open>cap\<close> of them.
\<close>

definition record_of :: "u32 \<Rightarrow> nat \<Rightarrow> logged list \<Rightarrow> nat \<Rightarrow> logEntry" where
  "record_of i cap xs n = (let (now, ty, p1, p2, r) = xs ! n in EventLogEntry i (of_nat (n mod cap)) now ty p1 p2 r)"

definition last_records :: "u32 \<Rightarrow> nat \<Rightarrow> logged list \<Rightarrow> logEntry list" where
  "last_records i cap xs = map (record_of i cap xs) [length xs - cap..<length xs]"

definition rows_of :: "logEntry list \<Rightarrow> (u32 \<rightharpoonup> logEntry)" where
  "rows_of es = map_of (map (\<lambda>e. (leGuid e, e)) es)"

lemma record_of_guid [simp]: "leGuid (record_of i cap xs n) = of_nat (n mod cap)"
  by (simp add: record_of_def Let_def split_def)

lemma record_of_append [simp]: "n < length xs \<Longrightarrow> record_of i cap (xs @ ys) n = record_of i cap xs n"
  by (simp add: record_of_def nth_append)

lemma last_records_snoc:
  assumes "0 < cap"
  shows "last_records i cap (xs @ [x]) =
    (if length xs < cap then last_records i cap xs else tl (last_records i cap xs)) @ [record_of i cap (xs @ [x]) (length xs)]"
proof -
  have "map (record_of i cap (xs @ [x])) [k..<length xs] = map (record_of i cap xs) [k..<length xs]" for k by simp
  moreover have "tl [k..<length xs] = [Suc k..<length xs]" for k by (simp add: upt_rec)
  ultimately show ?thesis using assms by (simp add: last_records_def map_tl [symmetric] Suc_diff_le) arith
qed

lemma mod_inj_window: "inj_on (\<lambda>n. n mod cap) {k..<k + cap}" for cap :: nat
proof (rule inj_onI)
  fix a b
  assume w: "a \<in> {k..<k + cap}" "b \<in> {k..<k + cap}" and eq: "a mod cap = b mod cap"
  have "a = b" if "a \<le> b" "a mod cap = b mod cap" "b - a < cap" for a b :: nat
  proof -
    have "cap dvd b - a" using that(1,2) mod_eq_dvd_iff_nat [of a b cap] by simp
    then show ?thesis using that(1,3) by (auto dest: dvd_imp_le)
  qed
  moreover have "b - a < cap" "a - b < cap" using w by auto
  ultimately show "a = b" using eq by (metis nat_le_linear)
qed

lemma last_records_ids:
  assumes "0 < cap" and "cap < 2 ^ 32"
  shows "distinct (map leGuid (last_records i cap xs))"
proof -
  have "inj_on (\<lambda>n. n mod cap) {length xs - cap..<length xs}"
    by (rule inj_on_subset [OF mod_inj_window [of cap "length xs - cap"]]) auto
  moreover have "a mod cap = b mod cap" if "(of_nat (a mod cap) :: u32) = of_nat (b mod cap)" for a b
  proof -
    have "a mod cap < 2 ^ 32" "b mod cap < 2 ^ 32" using assms by (meson mod_less_divisor order_less_trans)+
    then show ?thesis using arg_cong [OF that, of unat] by (simp add: unat_of_nat)
  qed
  ultimately have "inj_on (\<lambda>n. of_nat (n mod cap) :: u32) {length xs - cap..<length xs}"
    unfolding inj_on_def by blast
  then show ?thesis by (simp add: last_records_def distinct_map comp_def inj_on_def)
qed

lemma rows_of_snoc:
  assumes "leGuid e \<notin> leGuid ` set es"
  shows "rows_of (es @ [e]) = (rows_of es)(leGuid e \<mapsto> e)"
  using assms by (induction es) (auto simp: rows_of_def fun_upd_twist)

section \<open>One event\<close>

definition ring_ok :: "u32 \<Rightarrow> u32 \<Rightarrow> logged list \<Rightarrow> gst \<Rightarrow> bool" where
  "ring_ok i cap xs s \<longleftrightarrow> (let h = gEventLog (gsGuild s) in
     gId (gsGuild s) = i \<and> lhGuildId h = i \<and> lhMaxRecords h = cap \<and> lhLog h = last_records i (unat cap) xs \<and>
     lhNextGUID h = (if xs = [] then GUILD_EVENT_LOG_GUID_UNDEFINED else of_nat ((length xs - 1) mod unat cap)) \<and>
     log_table s = rows_of (lhLog h))"

lemma u32_max: "unat (w :: u32) \<le> 2 ^ 32 - 1"
proof -
  have "unat w < 2 ^ 32" using unsigned_less [of w, where ?'a = nat] by simp
  then show ?thesis by linarith
qed

lemma ring_id_defined:
  fixes cap :: u32
  assumes "cap \<noteq> 0"
  shows "(of_nat (n mod unat cap) :: u32) \<noteq> GUILD_EVENT_LOG_GUID_UNDEFINED" and "unat (of_nat (n mod unat cap) :: u32) = n mod unat cap"
proof -
  have small: "n mod unat cap < unat cap" "unat cap \<le> 2 ^ 32 - 1"
    using assms u32_max [of cap] by (simp_all add: unat_gt_0)
  then have less: "n mod unat cap < 2 ^ 32 - 1" by linarith
  then show u: "unat (of_nat (n mod unat cap) :: u32) = n mod unat cap" by (simp add: unat_of_nat)
  show "(of_nat (n mod unat cap) :: u32) \<noteq> GUILD_EVENT_LOG_GUID_UNDEFINED"
  proof
    assume "of_nat (n mod unat cap) = GUILD_EVENT_LOG_GUID_UNDEFINED"
    then have "n mod unat cap = unat GUILD_EVENT_LOG_GUID_UNDEFINED" using u by simp
    then show False using less by (simp add: GUILD_EVENT_LOG_GUID_UNDEFINED_def)
  qed
qed

lemma ring_next:
  assumes "cap \<noteq> 0" and "ring_ok i cap xs s"
  shows "fst (LogHolder_GetNextGUID (gEventLog (gsGuild s))) = of_nat (length xs mod unat cap)"
proof (cases "xs = []")
  case False
  let ?k = "(length xs - 1) mod unat cap"
  note u = ring_id_defined [OF assms(1), of "length xs - 1"]
  have k: "?k < unat cap" "unat cap \<le> 2 ^ 32 - 1"
    using assms(1) u32_max [of cap] by (simp_all add: unat_gt_0)
  have "(of_nat ?k + 1) mod cap = of_nat (length xs mod unat cap)"
  proof -
    have "unat (of_nat ?k + 1 :: u32) = ?k + 1" using u(2) k by (simp add: unat_word_ariths)
    then have "unat ((of_nat ?k + 1) mod cap) = Suc ?k mod unat cap" by (simp add: unat_mod)
    also have "\<dots> = length xs mod unat cap" using False by (simp add: mod_Suc_eq)
    also have "\<dots> = unat (of_nat (length xs mod unat cap) :: u32)" by (rule ring_id_defined(2) [OF assms(1), symmetric])
    finally show ?thesis by (simp only: word_unat_eq_iff)
  qed
  then show ?thesis using assms(2) False u(1) by (simp add: LogHolder_GetNextGUID_def Let_def ring_ok_def)
qed (use assms(2) in \<open>simp add: LogHolder_GetNextGUID_def Let_def ring_ok_def\<close>)

lemma rows_of_full:
  assumes "distinct (map leGuid (old # rest))" and "leGuid e = leGuid old"
  shows "rows_of (rest @ [e]) = (rows_of (old # rest))(leGuid e := None, leGuid e \<mapsto> e)"
proof -
  have "leGuid e \<notin> leGuid ` set rest" using assms by simp
  from rows_of_snoc [OF this] show ?thesis using assms(2) by (simp add: rows_of_def)
qed

lemma ring_add:
  assumes "cap \<noteq> 0" and "lhMaxRecords h = cap" and "lhLog h = last_records i (unat cap) xs"
  shows "\<exists>h'. LogHolder_AddEvent (record_of i (unat cap) (xs @ [x]) (length xs)) h =
      Some (h', LogEntry_SaveToDB (record_of i (unat cap) (xs @ [x]) (length xs))) \<and>
    lhGuildId h' = lhGuildId h \<and> lhMaxRecords h' = cap \<and> lhNextGUID h' = lhNextGUID h \<and> lhLog h' = last_records i (unat cap) (xs @ [x]) \<and>
    rows_of (lhLog h') = (rows_of (lhLog h))(of_nat (length xs mod unat cap) \<mapsto> record_of i (unat cap) (xs @ [x]) (length xs))"
proof -
  let ?c = "unat cap" and ?e = "record_of i (unat cap) (xs @ [x]) (length xs)"
  have c: "0 < ?c" "?c < 2 ^ 32" using assms(1) unsigned_less [of cap, where ?'a = nat] by (simp_all add: unat_gt_0)
  note ids = last_records_ids [OF c]
  have len: "length (lhLog h) = Orderings.min (length xs) ?c" using assms(3) by (simp add: last_records_def)
  have ids': "distinct (map leGuid (last_records i ?c (xs @ [x])))" by (rule ids)
  show ?thesis
  proof (cases "length xs < ?c")
    case True
    with ids' have "leGuid ?e \<notin> leGuid ` set (lhLog h)" by (simp add: assms(3) last_records_snoc [OF c(1)])
    from rows_of_snoc [OF this] show ?thesis using True len
      by (simp add: LogHolder_AddEvent_def assms(2,3) last_records_snoc [OF c(1)])
  next
    case False
    then obtain old rest where log: "lhLog h = old # rest" using len c(1) by (cases "lhLog h") auto
    have "[length xs - ?c..<length xs] = (length xs - ?c) # [Suc (length xs - ?c)..<length xs]"
      using False c(1) by (intro upt_conv_Cons) linarith
    then have "old = record_of i ?c xs (length xs - ?c)" using log by (simp add: assms(3) last_records_def)
    then have same: "leGuid ?e = leGuid old" using False by (simp add: mod_if)
    have "distinct (map leGuid (old # rest))" using ids [of i xs] log assms(3) by metis
    from rows_of_full [OF this same] show ?thesis using False len log
      by (simp add: LogHolder_AddEvent_def assms(2) last_records_snoc [OF c(1)] assms(3) [symmetric])
  qed
qed

lemma log_table_out: "log_table (out e s) = log_row (gId (gsGuild s)) (log_table s) e"
  by (simp add: log_table_def out_def)

lemma ring_step:
  assumes "cap \<noteq> 0" and "ring_ok i cap xs s"
  shows "ring_ok i cap (xs @ [x]) (log_one E x s)"
proof -
  obtain now ty p1 p2 r where x: "x = (now, ty, p1, p2, r)" by (cases x)
  let ?n = "of_nat (length xs mod unat cap) :: u32"
  let ?e = "record_of i (unat cap) (xs @ [x]) (length xs)"
  have i: "gId (gsGuild s) = i" using assms(2) by (simp add: ring_ok_def Let_def)
  have e: "?e = EventLogEntry i ?n now ty p1 p2 r" by (simp add: record_of_def x)
  obtain h where get: "LogHolder_GetNextGUID (gEventLog (gsGuild s)) = (?n, h)" using ring_next [OF assms] by (metis prod.collapse)
  then have h: "lhMaxRecords h = cap" "lhLog h = last_records i (unat cap) xs" "lhNextGUID h = ?n" "lhLog h = lhLog (gEventLog (gsGuild s))"
      "lhGuildId h = i"
    using assms(2) by (auto simp: ring_ok_def Let_def LogHolder_GetNextGUID_def)
  from ring_add [OF assms(1) h(1,2), of x] obtain h'
    where add: "LogHolder_AddEvent ?e h = Some (h', LogEntry_SaveToDB ?e)"
      and h': "lhGuildId h' = i" "lhMaxRecords h' = cap" "lhNextGUID h' = ?n" "lhLog h' = last_records i (unat cap) (xs @ [x])"
        "rows_of (lhLog h') = (rows_of (lhLog h))(?n \<mapsto> ?e)" using h(3,5) by auto
  have step: "log_one E x s = hook (OnGuildEvent ty p1 p2 r) (sql (LogTab (InsLog ?e)) (sql (LogTab (DelEventLog i ?n))
      (on_guild (\<lambda>g. g\<lparr>gEventLog := h'\<rparr>) s)))"
    using add by (simp add: log_one_def x Guild_LogEvent_def get i e [unfolded x])
  have "log_table s = rows_of (lhLog h)" using assms(2) h(4) by (simp add: ring_ok_def Let_def)
  then have "log_table (log_one E x s) = rows_of (lhLog h')"
    by (simp add: step hook_def sql_def log_table_out log_row_def e h'(5) i) (simp add: log_table_def on_guild_def i)
  then show ?thesis using h' i by (simp add: ring_ok_def Let_def step on_guild_def)
qed

lemma ring_always:
  assumes "cap \<noteq> 0" and "ring_ok i cap [] s"
  shows "ring_ok i cap xs (fold (log_one E) xs s)"
proof (induction xs rule: rev_induct)
  case (snoc x xs)
  then show ?case using ring_step [OF assms(1) snoc] by simp
qed (use assms(2) in simp)

lemma ring_start:
  assumes "gEventLog (gsGuild s) = LogHolder_new (gId (gsGuild s)) cap" and "log_table s = Map.empty"
  shows "ring_ok (gId (gsGuild s)) cap [] s"
  using assms by (simp add: ring_ok_def LogHolder_new_def last_records_def rows_of_def)

text \<open>
  The event log implements the last records of all there ever were: after any events, the list in
  memory is the last of them, as many as the log has room for, oldest first, and the table holds the same
  records, the older rows being overwritten in turn.
\<close>

theorem log_is_last_records:
  assumes "cap \<noteq> 0" and "gEventLog (gsGuild s) = LogHolder_new (gId (gsGuild s)) cap" and "log_table s = Map.empty"
  shows "lhLog (gEventLog (gsGuild (fold (log_one E) xs s))) = last_records (gId (gsGuild s)) (unat cap) xs \<and>
    log_table (fold (log_one E) xs s) = rows_of (last_records (gId (gsGuild s)) (unat cap) xs)"
  using ring_always [OF assms(1) ring_start [OF assms(2,3)], of xs E] by (simp add: ring_ok_def Let_def)

theorem log_is_last_records_witness:
  "length (lhLog (gEventLog (gsGuild (fold (log_one demo_env) (replicate 103 (5, 1, 2, 3, 4)) demo3)))) = 100"
  using log_is_last_records [of 100 demo3 demo_env "replicate 103 (5, 1, 2, 3, 4)"]
  by (simp add: demo3_def log_table_def demo_server_def last_records_def)

section \<open>Reading the table back\<close>

text \<open>\<^verbatim>\<open>ORDER BY TimeStamp DESC, LogGuid DESC\<close>, with the columns as numbers.\<close>

definition row_before :: "logEntry \<Rightarrow> logEntry \<Rightarrow> bool" where
  "row_before a b \<longleftrightarrow> leTimestamp a > leTimestamp b \<or> (leTimestamp a = leTimestamp b \<and> leGuid a > leGuid b)"

fun load_row :: "logEntry \<Rightarrow> guild \<Rightarrow> guild" where
  "load_row (EventLogEntry i guid t ty p1 p2 r) = LoadEventLogFromDB guid (ucast t) ty p1 p2 r"
| "load_row _ = id"

lemma load_rows:
  assumes "lhLog (gEventLog g) = log" and "length rows + length log \<le> unat (lhMaxRecords (gEventLog g))"
    and "list_all (\<lambda>e. \<exists>n now ty p1 p2 r. e = EventLogEntry (gId g) n now ty p1 p2 r \<and> now < 2 ^ 32 \<and> n \<noteq> GUILD_EVENT_LOG_GUID_UNDEFINED) rows"
    and "lhNextGUID (gEventLog g) \<noteq> GUILD_EVENT_LOG_GUID_UNDEFINED \<or> log = []"
  shows "fold load_row rows g = g\<lparr>gEventLog := (gEventLog g)\<lparr>lhLog := rev rows @ log,
    lhNextGUID := (if lhNextGUID (gEventLog g) = GUILD_EVENT_LOG_GUID_UNDEFINED \<and> rows \<noteq> [] then leGuid (rows ! 0) else lhNextGUID (gEventLog g))\<rparr>\<rparr>"
  using assms
proof (induction rows arbitrary: g log)
  case (Cons e rows)
  then obtain n now ty p1 p2 r where e: "e = EventLogEntry (gId g) n now ty p1 p2 r" "now < 2 ^ 32" "n \<noteq> GUILD_EVENT_LOG_GUID_UNDEFINED"
    by auto
  have "unat now < 2 ^ 32" using e(2) by (simp add: word_less_nat_alt)
  then have now: "ucast (ucast now :: u32) = now" by (simp add: word_unat_eq_iff unsigned_ucast_eq unsigned_take_bit_eq take_bit_nat_eq_self)
  let ?h = "gEventLog g"
  let ?g = "g\<lparr>gEventLog := ?h\<lparr>lhLog := e # log, lhNextGUID := (if lhNextGUID ?h = GUILD_EVENT_LOG_GUID_UNDEFINED then n else lhNextGUID ?h)\<rparr>\<rparr>"
  have room: "LogHolder_CanInsert ?h" using Cons.prems(1,2) by (simp add: LogHolder_CanInsert_def)
  have one: "load_row e g = ?g"
    using Cons.prems(1) room by (simp add: e(1) LoadEventLogFromDB_def LogHolder_LoadEvent_def Let_def now)
  have "fold load_row rows ?g = ?g\<lparr>gEventLog := (gEventLog ?g)\<lparr>lhLog := rev rows @ (e # log),
      lhNextGUID := (if lhNextGUID (gEventLog ?g) = GUILD_EVENT_LOG_GUID_UNDEFINED \<and> rows \<noteq> [] then leGuid (rows ! 0)
        else lhNextGUID (gEventLog ?g))\<rparr>\<rparr>"
    by (rule Cons.IH) (use Cons.prems e(3) in simp_all)
  then show ?case using e(3) Cons.prems(4) by (simp add: one) (simp add: e(1))
qed simp

lemma sorted_rows_unique:
  assumes "sorted_wrt row_before rows" and "sorted_wrt (\<lambda>a b. leTimestamp a < leTimestamp b) log" and "set rows = set log"
  shows "rows = rev log"
proof -
  have inj: "inj_on leTimestamp (set log)"
  proof -
    have "sorted_wrt (<) (map leTimestamp log)" using assms(2) by (simp add: sorted_wrt_map)
    then have "distinct (map leTimestamp log)" by (simp add: strict_sorted_iff)
    then show ?thesis by (simp add: distinct_map)
  qed
  have rows: "sorted_wrt (\<lambda>a b. leTimestamp b < leTimestamp a) rows"
  proof (rule sorted_wrt_mono_rel [OF _ assms(1)])
    fix a b
    assume ab: "a \<in> set rows" "b \<in> set rows" and before: "row_before a b"
    show "leTimestamp b < leTimestamp a"
    proof (rule ccontr)
      assume "\<not> ?thesis"
      with before have same: "leTimestamp a = leTimestamp b" "leGuid a > leGuid b" by (simp_all add: row_before_def)
      with inj_onD [OF inj same(1)] ab assms(3) show False by simp
    qed
  qed
  then have "sorted_wrt (<) (map leTimestamp (rev rows))" by (simp add: sorted_wrt_map sorted_wrt_rev)
  moreover have "sorted_wrt (<) (map leTimestamp log)" using assms(2) by (simp add: sorted_wrt_map)
  ultimately have "map leTimestamp (rev rows) = map leTimestamp log"
    using assms(3) by (intro strict_sorted_equal) simp_all
  then have "rev rows = log" using inj assms(3) by (intro map_inj_on [of leTimestamp]) simp_all
  then show ?thesis by auto
qed

lemma record_of_time: "leTimestamp (record_of i cap xs n) = fst (xs ! n)"
  by (simp add: record_of_def Let_def split_def)

lemma record_of_shape: "\<exists>ty p1 p2 r. record_of i cap xs n = EventLogEntry i (of_nat (n mod cap)) (fst (xs ! n)) ty p1 p2 r"
  by (cases "xs ! n") (simp add: record_of_def)

text \<open>
  Loading the rows of the log's table gives the log back, with the id it goes on from, provided no
  two of its events happened in the same second: the rows of one second come in the order of their ids,
  which is not that of the events where the ring begins anew.
\<close>

theorem log_reloads:
  assumes "cap \<noteq> 0" and "gEventLog (gsGuild s) = LogHolder_new (gId (gsGuild s)) cap" and "log_table s = Map.empty"
    and "sorted_wrt (<) (map fst xs)" and "list_all (\<lambda>x. fst x < 2 ^ 32) xs"
    and "sorted_wrt row_before rows" and "set rows = ran (log_table (fold (log_one E) xs s))"
  shows "gEventLog (fold load_row rows (gsGuild s)) = gEventLog (gsGuild (fold (log_one E) xs s))"
proof -
  let ?t = "fold (log_one E) xs s" and ?i = "gId (gsGuild s)"
  let ?log = "last_records ?i (unat cap) xs"
  have c: "0 < unat cap" "unat cap < 2 ^ 32" using assms(1) unsigned_less [of cap, where ?'a = nat] by (simp_all add: unat_gt_0)
  note ring = ring_always [OF assms(1) ring_start [OF assms(2,3)], of xs E]
  have "ran (rows_of ?log) = set ?log"
    using last_records_ids [OF c] by (simp add: rows_of_def ran_distinct comp_def image_image)
  then have rows: "set rows = set ?log" using assms(7) ring by (simp add: ring_ok_def Let_def)
  have order: "fst (xs ! a) < fst (xs ! b)" if "a < b" "b < length xs" for a b
    using sorted_wrt_nth_less [OF assms(4), of a b] that by simp
  have "sorted_wrt (\<lambda>a b. fst (xs ! a) < fst (xs ! b)) [length xs - unat cap..<length xs]"
    by (rule sorted_wrt_mono_rel [OF _ sorted_wrt_upt]) (use order in simp)
  then have "sorted_wrt (\<lambda>a b. leTimestamp a < leTimestamp b) ?log" by (simp add: last_records_def sorted_wrt_map record_of_time)
  from sorted_rows_unique [OF assms(6) this rows] have rev: "rows = rev ?log" .
  have "list_all (\<lambda>e. \<exists>n now ty p1 p2 r. e = EventLogEntry ?i n now ty p1 p2 r \<and> now < 2 ^ 32 \<and> n \<noteq> GUILD_EVENT_LOG_GUID_UNDEFINED) rows"
  proof -
    have "\<exists>k now ty p1 p2 r. record_of ?i (unat cap) xs n = EventLogEntry ?i k now ty p1 p2 r \<and> now < 2 ^ 32 \<and> k \<noteq> GUILD_EVENT_LOG_GUID_UNDEFINED"
      if "n < length xs" for n
      using record_of_shape [of ?i "unat cap" xs n] assms(5) that ring_id_defined(1) [OF assms(1)] by (fastforce simp: list_all_length)
    then show ?thesis by (auto simp: rev last_records_def list_all_iff)
  qed
  moreover have "length rows \<le> unat cap" by (simp add: rev last_records_def)
  moreover have "rows \<noteq> [] \<Longrightarrow> xs \<noteq> [] \<and> leGuid (rows ! 0) = of_nat ((length xs - 1) mod unat cap)"
    by (simp add: rev last_records_def rev_map rev_nth) 
  moreover have "rows = [] \<Longrightarrow> xs = []" using c(1) by (simp add: rev last_records_def) (cases xs; simp)
  ultimately have "gEventLog (fold load_row rows (gsGuild s)) = (LogHolder_new ?i cap)\<lparr>lhLog := ?log,
      lhNextGUID := (if xs = [] then GUILD_EVENT_LOG_GUID_UNDEFINED else of_nat ((length xs - 1) mod unat cap))\<rparr>"
    using load_rows [of "gsGuild s" "[]" rows] assms(2) by (auto simp: LogHolder_new_def rev)
  then show ?thesis using ring by (cases "gEventLog (gsGuild ?t)") (simp add: ring_ok_def Let_def LogHolder_new_def)
qed

theorem log_reloads_witness:
  "gEventLog (fold load_row [EventLogEntry 1 1 10 1 2 3 4, EventLogEntry 1 0 9 1 2 3 4] (gsGuild demo3)) =
     gEventLog (gsGuild (fold (log_one demo_env) [(9, 1, 2, 3, 4), (10, 1, 2, 3, 4)] demo3))"
proof -
  let ?xs = "[(9, 1, 2, 3, 4), (10, 1, 2, 3, 4)] :: logged list"
  let ?rows = "[EventLogEntry 1 1 10 1 2 3 4, EventLogEntry 1 0 9 1 2 3 4]"
  have s: "gEventLog (gsGuild demo3) = LogHolder_new (gId (gsGuild demo3)) 100" "log_table demo3 = Map.empty" "gId (gsGuild demo3) = 1"
    by (simp_all add: demo3_def log_table_def demo_server_def)
  have "log_table (fold (log_one demo_env) ?xs demo3) = rows_of (rev ?rows)"
    using log_is_last_records [of 100 demo3 demo_env ?xs] s by (simp add: last_records_def record_of_def upt_rec)
  then have "set ?rows = ran (log_table (fold (log_one demo_env) ?xs demo3))" by (simp add: rows_of_def ran_map_upd insert_commute)
  then show ?thesis
    by (intro log_reloads [of 100] s(1,2)) (simp_all add: row_before_def word_less_nat_alt)
qed

end
