(* ===== verification/Spec2Isabelle.thy ===== *)
theory Spec2Isabelle
  imports Guid PackedFields Timers EventProc EventMap TextUtil Flag96 ChannelMgr ReputationProps RefManager LootRolls GroupProps CalendarProps
    GuildProps GuildGold GuildLogRing
begin

text \<open>
  \<^bold>\<open>A verification library for the game server under src/.\<close>

  \<^bold>\<open>The program.\<close> A World of Warcraft server in C++: \<^verbatim>\<open>src/src/common\<close> has the
  utilities (packet buffers, timers, intrusive lists, strings, database access),
  \<^verbatim>\<open>src/src/server/game\<close> the game world (objects, players, chat, groups, reputation, loot,
  spells, maps), \<^verbatim>\<open>src/src/server/scripts\<close> the content, and \<^verbatim>\<open>authserver\<close>,
  \<^verbatim>\<open>worldserver\<close> the daemons. The library models the parts whose state is kept in integers,
  strings and containers and whose operations are decided by the code itself.

  \<^bold>\<open>How code becomes definitions.\<close> A class is a record, an enum a datatype or constants, a
  \<^verbatim>\<open>uintN\<close> a word of N bits whose arithmetic wraps; \<^verbatim>\<open>std::map\<close> is an association list in
  key order, \<^verbatim>\<open>std::multimap\<close> a list in key order that keeps the order of insertion, and a
  list or vector a list. Operations pass the state explicitly. Exceptions are values of a
  sum, and an access through a null or dead pointer, an index out of range and a failed
  assertion are \<^const>\<open>None\<close> (or the left side of a sum), so that a theorem that an operation
  gives \<^const>\<open>Some\<close> says that the code does not go wrong there. What the code asks of parts that are
  not modelled (players, templates, tables of the database, clocks, random draws) is a field
  of an environment; what it does to them (packets, prepared statements, script hooks,
  calls) is appended to an output. Loops are structural recursion where the code's loop
  is; a loop that starts again from the beginning is a \<^verbatim>\<open>partial_function (option)\<close> or has
  a measure, and that it ends is a theorem. No fuel is used. Log lines are left out.

  \<^bold>\<open>The theories.\<close>

  \<^item> \<^verbatim>\<open>Prelude\<close>: the fixed-width types, errors as sums, ordered association lists, bytes.
  \<^item> \<^verbatim>\<open>Guid\<close>: ObjectDefines.h, the parts of the 64-bit ids and what kind an id is.
  \<^item> \<^verbatim>\<open>ByteBuffer\<close>, \<^verbatim>\<open>BufferCodec\<close>, \<^verbatim>\<open>PackedFields\<close>: ByteBuffer.h and ByteBuffer.cpp, the
    packet buffer with its positions; the locale \<^verbatim>\<open>streamable\<close> is the contract of a field
    that can be written and read back, interpreted for the integers, strings and packed guids
    and extended to vectors, lists and maps. Bounds, round trips and the wrapping \<^verbatim>\<open>read_skip\<close>.
  \<^item> \<^verbatim>\<open>Timers\<close>: Timer.h, interval, tick and periodic timers over wrapping clocks.
  \<^item> \<^verbatim>\<open>Multimap\<close>: \<^verbatim>\<open>std::multimap\<close> as the code uses it, with the locale \<^verbatim>\<open>timed_queue\<close>.
    \<^verbatim>\<open>EventProc\<close>: EventProcessor.cpp over a heap of events with handlers as parameters
    (locales \<^verbatim>\<open>later_handlers\<close>, \<^verbatim>\<open>quiet_handlers\<close>): order, ownership, termination.
    \<^verbatim>\<open>EventMap\<close>: the scripts' scheduler of Util.h.
  \<^item> \<^verbatim>\<open>TextUtil\<close>, \<^verbatim>\<open>Flag96\<close>: the text functions, \<^verbatim>\<open>flag96\<close> and hook lists of Util.h and Util.cpp.
  \<^item> \<^verbatim>\<open>ChannelData\<close>, \<^verbatim>\<open>ChannelPackets\<close>, \<^verbatim>\<open>Channel\<close>, \<^verbatim>\<open>ChannelOps\<close>: Channel.h and Channel.cpp, every
    command of a chat channel. \<^verbatim>\<open>ChannelInv\<close> is the invariant of the reachable states,
    \<^verbatim>\<open>ChannelSpec\<close> an abstract channel (members, owner, moderators, bans) that the code is shown to
    refine, \<^verbatim>\<open>ChannelProps\<close> the properties; \<^verbatim>\<open>ChannelMgr\<close> the managers of both factions.
  \<^item> \<^verbatim>\<open>Reputation\<close>, \<^verbatim>\<open>ReputationInv\<close>, \<^verbatim>\<open>ReputationProps\<close>: ReputationMgr.cpp, standings, ranks, the
    counters, the spill-over to allied factions, loading and saving. The rates are floats in
    the code: the products are functions of the world.
  \<^item> \<^verbatim>\<open>IntrusiveList\<close>, \<^verbatim>\<open>RefManager\<close>: LinkedList.h, Reference.h and RefManager.h over an explicit
    heap of elements, refined by one list of references per target.
  \<^item> \<^verbatim>\<open>GroupData\<close>: the records of groups, rolls and loot. \<^verbatim>\<open>GroupRoll\<close>: the loot system of Group.cpp
    (starting rolls, votes, counting); \<^verbatim>\<open>GroupRollProps\<close>, \<^verbatim>\<open>LootRolls\<close> its lemmas and properties.
  \<^item> \<^verbatim>\<open>GroupOps\<close>, \<^verbatim>\<open>GroupMembers\<close>: the rest of Group.cpp, GroupMgr.cpp and the references of
    Player.cpp: founding, inviting, joining, leaving, disbanding, leaders, sub-groups, marks,
    loading and the ids. \<^verbatim>\<open>GroupShape\<close> has what holds inside one group, \<^verbatim>\<open>GroupInv\<close> what
    holds between groups and players, \<^verbatim>\<open>GroupLeave\<close> that leaving and disbanding end and keep it,
    \<^verbatim>\<open>GroupWorld\<close> the step relation with log-in, log-out and the re-entry of a raid, and the invariant of its reachable
    states, \<^verbatim>\<open>GroupProps\<close> the properties.
  \<^item> \<^verbatim>\<open>CalendarData\<close>, \<^verbatim>\<open>CalendarStore\<close>, \<^verbatim>\<open>CalendarOps\<close>: CalendarMgr.h and CalendarMgr.cpp, events, invites,
    the pools of free ids, look-ups, packets, mails and statements, adding, removing and loading.
    \<^verbatim>\<open>CalendarHandlers\<close>: the requests of CalendarHandler.cpp from the packet to the answer.
    \<^verbatim>\<open>CalendarInv\<close> has the contract of a pool of ids (locale \<^verbatim>\<open>id_source\<close>, interpreted for events
    and for invites), the meaning of the statements on the tables, and the operations that
    only send; \<^verbatim>\<open>CalendarGood\<close>, \<^verbatim>\<open>CalendarRemove\<close>, \<^verbatim>\<open>CalendarSteps\<close>, \<^verbatim>\<open>CalendarLoad\<close> that every operation
    and request keeps the invariant (ids in use once, tables equal to the memory) and that
    loading starts it; \<^verbatim>\<open>CalendarProps\<close> the properties.
  \<^item> \<^verbatim>\<open>GuildData\<close>, \<^verbatim>\<open>GuildRanks\<close>, \<^verbatim>\<open>GuildLogs\<close>, \<^verbatim>\<open>GuildBank\<close>, \<^verbatim>\<open>GuildItems\<close>, \<^verbatim>\<open>GuildMembers\<close>, \<^verbatim>\<open>GuildCommands\<close>:
    Guild.h, Guild.cpp and GuildMgr.cpp: the records and statements; ranks with their rights and daily
    limits; the logs, a ring of rows; the bank's tabs and money; moving items; joining, leaving,
    disbanding; the commands, founding, the rows at loading and validation. \<^verbatim>\<open>GuildHandlers\<close>: the requests of
    GuildHandler.cpp from the packet on, and the part of PetitionsHandler.cpp that founds a guild.
    \<^verbatim>\<open>GuildFrame\<close> says what an operation leaves alone, \<^verbatim>\<open>GuildInv\<close> has what holds of one guild,
    \<^verbatim>\<open>GuildSteps\<close> and \<^verbatim>\<open>GuildJoin\<close> that commands keep it, the loop of \<^verbatim>\<open>Disband\<close> ends and members stay in step
    with what the server knows of players, \<^verbatim>\<open>GuildWorld\<close> the contracts of an operation (locales
    \<^verbatim>\<open>guild_operation\<close>, \<^verbatim>\<open>quiet_operation\<close>, interpreted for every command) and every packet's return;
    \<^verbatim>\<open>GuildProps\<close> the step relation of a server and the properties (consistency, return of every packet,
    disbanding, succession, the hierarchy of ranks, and three defects), \<^verbatim>\<open>GuildGold\<close> the sum of the gold and the
    daily limit, \<^verbatim>\<open>GuildLogRing\<close> that a log is its last records and what a restart reads.

  \<^bold>\<open>How the parts meet.\<close> Guids key channels, reputations and groups. A group and its members
  point at each other through references; \<^verbatim>\<open>RefManager\<close> shows that the heap of linked elements
  behaves as the list per target that \<^verbatim>\<open>GroupMembers\<close> uses. A member that leaves takes its
  votes out of the open rolls, so \<^verbatim>\<open>RemoveMember\<close> runs the counting of \<^verbatim>\<open>GroupRoll\<close>. The handlers of
  the calendar read their packets through \<^verbatim>\<open>ByteBuffer\<close> and \<^verbatim>\<open>PackedFields\<close>, and a read that throws ends
  the request with the state of that moment.

  \<^bold>\<open>What is assumed.\<close> A player with a reference to a group is online (its destructor cuts them);
  a roll that is counted looks at loot and an item template that exist; handlers of events that the event
  processor runs do not touch events they do not own; the draws of the generator lie in the asked range
  where a property speaks of the winner. The calendar's hash tables iterate in any order, which may
  change with every insertion (\<^const>\<open>hash_env\<close>); the rows of its tables have distinct ids that are not
  zero (\<^const>\<open>rows_ok\<close>, the primary keys); the 64-bit counters of ids have room for the next
  request (\<^const>\<open>roomy\<close>); and a transaction is its statements in their order. A standing is changed
  without leaving the 32 bits of the code's sums (\<^const>\<open>set_one_fits\<close>). Guilds: every character is in the
  global storage and the hash table of members iterates in some order (\<^const>\<open>genv_ok\<close>); a player object and the
  storage have the same guild, as \<^verbatim>\<open>SetInGuild\<close> writes both; in \<^verbatim>\<open>GuildGold\<close> scripts leave the amounts alone
  (\<^const>\<open>plain_hooks\<close>). Each such assumption is a named premise with a witness.

  Groups start from a server without saved groups (\<^const>\<open>group_reach\<close>) and guilds from one without guilds
  (\<^const>\<open>guild_server\<close>): their invariants speak of one run of the server. Loading is modelled beside them; for the
  flags of a group's members the invariant does not survive a restart, which \<^verbatim>\<open>GroupProps\<close> shows.

  \<^bold>\<open>Not modelled.\<close> Everything over floats (positions, stats, damage, threat, rates, weather, pools), the
  DBC and database loading beyond the rows the models take, sockets and threads, Lua and
  script content, the vendored libraries. Within the modelled parts: the float operators of
  the packet buffer, UTF-8 conversion, \<^verbatim>\<open>Group::ResetInstances\<close>, \<^verbatim>\<open>CanJoinBattlegroundQueue\<close>
  and \<^verbatim>\<open>SendLooter\<close>; the calendar's overview packet (instance saves, holidays), mass invitations
  by guild and arena team, and the raid lock-outs. The restart property needs values that fit in
  the rows (\<^const>\<open>storable_event\<close>, \<^const>\<open>storable_invite\<close>); that MySQL cuts a long title is not modelled. Of the
  guilds: the queries of \<^verbatim>\<open>LoadGuilds\<close>, whose rows are arguments of the \<^verbatim>\<open>Load\<close> functions, the inserts into \<^verbatim>\<open>log_money\<close>,
  deleting the object of a guild that is gone, and the rest of the petitions. Next in the plan: the
  stack of movement generators.
\<close>

end
